(* ===== verification/Prelude.thy ===== *)
theory Prelude
  imports Complex_Main "HOL-Library.AList" "HOL-Library.Product_Lexorder" "HOL-Library.List_Lexorder"
    "HOL-Library.Char_ord"
begin

text \<open>
  Shared vocabulary of the development: identifiers, instants and durations, Python strings,
  JSON documents, insertion-ordered dictionaries, database tables as lists of rows, and the
  exact decimal money of the ledgers, with the lemmas all components use.

  Conventions.  A \<open>uuid\<close> is a natural number.  An instant (an aware \<open>datetime\<close>) is the integer
  number of microseconds since the epoch in UTC, the resolution of Python's \<open>datetime\<close>; a
  \<open>timedelta\<close> is an integer number of microseconds as well.  Python's \<open>float\<close> and \<open>Decimal\<close>
  values are rational numbers: comparisons and sums are exact, the rounding of binary floating
  point is not modelled.  A table is the list of its rows in insertion order; a query without
  \<open>ORDER BY\<close> reads the rows in that order.
\<close>

named_theorems table_simps \<open>lookups and updates of tables\<close>
named_theorems py_simps \<open>Python built-ins on strings, dictionaries and sequences\<close>
named_theorems inv_intros \<open>preservation of component invariants\<close>

type_synonym uuid = nat
type_synonym time = int
type_synonym duration = int

subsection \<open>Instants (app/time.py)\<close>

text \<open>
  A Python \<open>datetime\<close> is naive (wall clock without zone) or aware (wall clock and the UTC offset
  of its zone, both in microseconds).
\<close>

datatype py_datetime = Naive int | Aware int int

fun ensure_utc :: "py_datetime \<Rightarrow> time" where
  "ensure_utc (Naive wall) = wall"
| "ensure_utc (Aware wall offset) = wall - offset"

definition earliest :: "py_datetime \<Rightarrow> py_datetime \<Rightarrow> py_datetime" where
  "earliest first second = (if ensure_utc first \<le> ensure_utc second then first else second)"

definition seconds_of :: "duration \<Rightarrow> rat" where
  "seconds_of d = of_int d / 1000000"

definition elapsed_seconds :: "py_datetime \<Rightarrow> py_datetime \<Rightarrow> rat" where
  "elapsed_seconds later earlier = seconds_of (ensure_utc later - ensure_utc earlier)"

definition utc :: "time \<Rightarrow> py_datetime" where
  "utc t = Aware t 0"

lemma ensure_utc_utc [simp]: "ensure_utc (utc t) = t"
  by (simp add: utc_def)

lemma ensure_utc_earliest: "ensure_utc (earliest a b) = min (ensure_utc a) (ensure_utc b)"
  by (simp add: earliest_def min_def)

lemma seconds_of_nonneg [simp]: "0 \<le> seconds_of d \<longleftrightarrow> 0 \<le> d"
  by (simp add: seconds_of_def zero_le_divide_iff)

lemma seconds_of_mono [simp]: "seconds_of d \<le> seconds_of e \<longleftrightarrow> d \<le> e"
  by (simp add: seconds_of_def divide_le_cancel)

definition micros :: "int \<Rightarrow> duration" where
  "micros s = s * 1000000"

definition days :: "int \<Rightarrow> duration" where
  "days n = n * 86400000000"

subsection \<open>Strings\<close>

text \<open>
  \<open>str.strip\<close>, \<open>str.lower\<close>, \<open>str.upper\<close> and \<open>str.casefold\<close> on ASCII strings; the characters
  stripped are the ASCII whitespace of Python.
\<close>

definition py_isspace :: "char \<Rightarrow> bool" where
  "py_isspace c = (let n = (of_char c :: nat) in (9 \<le> n \<and> n \<le> 13) \<or> (28 \<le> n \<and> n \<le> 32))"

definition lstrip :: "string \<Rightarrow> string" where
  "lstrip s = dropWhile py_isspace s"

definition strip :: "string \<Rightarrow> string" where
  "strip s = rev (dropWhile py_isspace (rev (dropWhile py_isspace s)))"

definition lower_char :: "char \<Rightarrow> char" where
  "lower_char c = (let n = (of_char c :: nat) in if 65 \<le> n \<and> n \<le> 90 then char_of (n + 32) else c)"

definition upper_char :: "char \<Rightarrow> char" where
  "upper_char c = (let n = (of_char c :: nat) in if 97 \<le> n \<and> n \<le> 122 then char_of (n - 32) else c)"

definition lower :: "string \<Rightarrow> string" where
  "lower s = map lower_char s"

definition upper :: "string \<Rightarrow> string" where
  "upper s = map upper_char s"

text \<open>\<open>s.split()\<close> (the maximal runs of non-space characters), \<open>sep.join(ws)\<close>,
  \<open>s.replace(c, d)\<close> of single characters, and \<open>sub in s\<close>.\<close>

fun split_acc :: "string \<Rightarrow> string \<Rightarrow> string list" where
  "split_acc acc [] = (if acc = [] then [] else [rev acc])"
| "split_acc acc (c # cs) =
     (if py_isspace c then (if acc = [] then split_acc [] cs else rev acc # split_acc [] cs)
      else split_acc (c # acc) cs)"

definition split_ws :: "string \<Rightarrow> string list" where
  "split_ws s = split_acc [] s"

fun join :: "string \<Rightarrow> string list \<Rightarrow> string" where
  "join sep [] = []"
| "join sep [w] = w"
| "join sep (w # v # ws) = w @ sep @ join sep (v # ws)"

definition replace_char :: "char \<Rightarrow> char \<Rightarrow> string \<Rightarrow> string" where
  "replace_char c d s = map (\<lambda>x. if x = c then d else x) s"

fun starts_with :: "string \<Rightarrow> string \<Rightarrow> bool" where
  "starts_with [] s = True"
| "starts_with (p # ps) [] = False"
| "starts_with (p # ps) (c # cs) = (p = c \<and> starts_with ps cs)"

fun contains :: "string \<Rightarrow> string \<Rightarrow> bool" where
  "contains sub [] = (sub = [])"
| "contains sub (c # cs) = (starts_with sub (c # cs) \<or> contains sub cs)"

text \<open>\<open>f"{n}"\<close> of an integer, and of a UUID (its printed form is injective; a decimal numeral
  stands for it).\<close>

fun digits_of :: "nat \<Rightarrow> string" where
  "digits_of n = (if n < 10 then [char_of (48 + n)] else digits_of (n div 10) @ [char_of (48 + n mod 10)])"

declare digits_of.simps [simp del]

definition str_int :: "int \<Rightarrow> string" where
  "str_int i = (if i < 0 then CHR ''-'' # digits_of (nat (- i)) else digits_of (nat i))"

definition str_uuid :: "uuid \<Rightarrow> string" where
  "str_uuid u = digits_of u"

definition digit_val :: "char \<Rightarrow> nat" where
  "digit_val c = of_char c - 48"

definition val_of_digits :: "string \<Rightarrow> nat" where
  "val_of_digits s = foldl (\<lambda>n c. 10 * n + digit_val c) 0 s"

lemma char_of_digits [simp]:
  "char_of (48::nat) = CHR ''0''" "char_of (49::nat) = CHR ''1''" "char_of (50::nat) = CHR ''2''"
  "char_of (51::nat) = CHR ''3''" "char_of (52::nat) = CHR ''4''" "char_of (53::nat) = CHR ''5''"
  "char_of (54::nat) = CHR ''6''" "char_of (55::nat) = CHR ''7''" "char_of (56::nat) = CHR ''8''"
  "char_of (57::nat) = CHR ''9''"
  by (simp_all add: char_of_def bit_0)

lemma digit_val_char_of: "n < 10 \<Longrightarrow> digit_val (char_of (48 + n)) = n"
  by (simp add: digit_val_def)

lemma val_of_digits_digits_of: "val_of_digits (digits_of n) = n"
proof (induction n rule: digits_of.induct)
  case (1 n)
  show ?case
  proof (cases "n < 10")
    case True
    then show ?thesis
      by (subst digits_of.simps) (simp add: val_of_digits_def digit_val_char_of)
  next
    case False
    with 1 have "val_of_digits (digits_of (n div 10)) = n div 10" by simp
    then have "foldl (\<lambda>n c. 10 * n + digit_val c) 0 (digits_of (n div 10)) = n div 10"
      by (simp add: val_of_digits_def)
    with False show ?thesis
      by (subst digits_of.simps) (simp add: val_of_digits_def digit_val_char_of)
  qed
qed

lemma str_uuid_inject [simp]: "str_uuid a = str_uuid b \<longleftrightarrow> a = b"
  unfolding str_uuid_def by (metis val_of_digits_digits_of)

lemma digits_of_isdigit: "c \<in> set (digits_of n) \<Longrightarrow> (48::nat) \<le> of_char c \<and> of_char c \<le> (57::nat)"
proof (induction n rule: digits_of.induct)
  case (1 n)
  show ?case
  proof (cases "n < 10")
    case True
    with 1 show ?thesis by (subst (asm) digits_of.simps) simp
  next
    case False
    with "1.prems" have "c \<in> set (digits_of (n div 10)) \<or> c = char_of (48 + n mod 10)"
      by (subst (asm) digits_of.simps) auto
    then show ?thesis
    proof
      assume "c = char_of (48 + n mod 10)"
      then have "(of_char c :: nat) = 48 + n mod 10" by simp
      then show ?thesis by simp
    qed (use False 1 in blast)
  qed
qed

lemma str_uuid_no_colon: "CHR '':'' \<notin> set (str_uuid u)"
  using digits_of_isdigit [of "CHR '':''" u] by (auto simp: str_uuid_def)

lemma str_int_inject [simp]: "str_int i = str_int j \<longleftrightarrow> i = j"
proof
  have neg: "CHR ''-'' \<notin> set (digits_of n)" for n using digits_of_isdigit [of "CHR ''-''" n] by auto
  have inj: "digits_of m = digits_of n \<longleftrightarrow> m = n" for m n by (metis val_of_digits_digits_of)
  have mixed: "CHR ''-'' # xs \<noteq> digits_of n" for xs n using neg [of n] by (metis list.set_intros(1))
  assume "str_int i = str_int j"
  then show "i = j" using mixed mixed [symmetric]
    by (auto simp: str_int_def inj split: if_splits)
qed simp

text \<open>\<open>UUID(s)\<close>: the identifier a printed UUID denotes; other spellings of it (leading zeros of the
  numeral, case and braces of the real format) denote it as well, and any other text raises.\<close>

definition is_digit :: "char \<Rightarrow> bool" where
  "is_digit c = (let n = (of_char c :: nat) in 48 \<le> n \<and> n \<le> 57)"

definition parse_uuid :: "string \<Rightarrow> uuid option" where
  "parse_uuid s = (if s \<noteq> [] \<and> list_all is_digit s then Some (val_of_digits s) else None)"

lemma digits_of_nonempty [simp]: "digits_of n \<noteq> []"
  by (subst digits_of.simps) simp

lemma parse_uuid_str_uuid [simp]: "parse_uuid (str_uuid u) = Some u"
proof -
  have "list_all is_digit (digits_of u)"
    by (auto simp: list_all_iff is_digit_def Let_def dest: digits_of_isdigit)
  then show ?thesis by (simp add: parse_uuid_def str_uuid_def val_of_digits_digits_of)
qed

text \<open>\<open>datetime.isoformat()\<close> of an instant in UTC: the proleptic Gregorian date of the day number,
  the time of day, the microseconds when there are any, and the offset.\<close>

definition civil_of_day :: "int \<Rightarrow> int \<times> int \<times> int" where
  "civil_of_day day =
     (let z = day + 719468; era = z div 146097; doe = z mod 146097;
          yoe = (doe - doe div 1460 + doe div 36524 - doe div 146096) div 365;
          doy = doe - (365 * yoe + yoe div 4 - yoe div 100);
          mp = (5 * doy + 2) div 153;
          d = doy - (153 * mp + 2) div 5 + 1;
          m = (if mp < 10 then mp + 3 else mp - 9);
          y = yoe + era * 400 + (if m \<le> 2 then 1 else 0)
      in (y, m, d))"

definition zero_pad :: "nat \<Rightarrow> int \<Rightarrow> string" where
  "zero_pad w n = (let s = str_int n in replicate (w - length s) (CHR ''0'') @ s)"

definition isoformat :: "time \<Rightarrow> string" where
  "isoformat t =
     (let (y, m, d) = civil_of_day (t div 86400000000);
          r = t mod 86400000000; us = r mod 1000000; sec = r div 1000000
      in zero_pad 4 y @ ''-'' @ zero_pad 2 m @ ''-'' @ zero_pad 2 d @ ''T'' @
         zero_pad 2 (sec div 3600) @ '':'' @ zero_pad 2 (sec div 60 mod 60) @ '':'' @ zero_pad 2 (sec mod 60) @
         (if us = 0 then [] else ''.'' @ zero_pad 6 us) @ ''+00:00'')"

subsection \<open>JSON documents\<close>

text \<open>
  A parsed JSON value.  \<open>json_obj_get\<close> is \<open>payload.get(key)\<close> of a \<open>dict\<close>: the last binding of a
  duplicated key wins, which the parser has already resolved, so the first match is taken.
\<close>

datatype json =
  JNull
| JBool bool
| JInt int
| JNum rat
| JStr string
| JList "json list"
| JObj "(string \<times> json) list"

definition json_get :: "(string \<times> json) list \<Rightarrow> string \<Rightarrow> json" where
  "json_get fields key = (case map_of fields key of None \<Rightarrow> JNull | Some v \<Rightarrow> v)"

text \<open>Guarded reads of a document: the fields of an object, a field of them, the items of a list, an integer.\<close>

definition obj_fields :: "json \<Rightarrow> (string \<times> json) list option" where
  "obj_fields v = (case v of JObj fs \<Rightarrow> Some fs | _ \<Rightarrow> None)"

definition opt_field :: "(string \<times> json) list option \<Rightarrow> string \<Rightarrow> json" where
  "opt_field fs key = (case fs of None \<Rightarrow> JNull | Some xs \<Rightarrow> json_get xs key)"

definition json_items :: "json \<Rightarrow> json list" where
  "json_items v = (case v of JList xs \<Rightarrow> xs | _ \<Rightarrow> [])"

definition optional_int :: "json \<Rightarrow> int option" where
  "optional_int v = (case v of JInt i \<Rightarrow> Some i | _ \<Rightarrow> None)"

fun all_some :: "'a option list \<Rightarrow> 'a list option" where
  "all_some [] = Some []"
| "all_some (None # xs) = None"
| "all_some (Some x # xs) = map_option ((#) x) (all_some xs)"

text \<open>Python's truth value of a parsed JSON document.\<close>

fun json_truthy :: "json \<Rightarrow> bool" where
  "json_truthy JNull = False"
| "json_truthy (JBool b) = b"
| "json_truthy (JInt i) = (i \<noteq> 0)"
| "json_truthy (JNum r) = (r \<noteq> 0)"
| "json_truthy (JStr s) = (s \<noteq> [])"
| "json_truthy (JList xs) = (xs \<noteq> [])"
| "json_truthy (JObj fs) = (fs \<noteq> [])"

subsection \<open>Insertion-ordered collections\<close>

text \<open>\<open>tuple(dict.fromkeys(xs))\<close>: the distinct elements, each at its first position.\<close>

fun fromkeys :: "'a list \<Rightarrow> 'a list" where
  "fromkeys [] = []"
| "fromkeys (x # xs) = x # filter (\<lambda>y. y \<noteq> x) (fromkeys xs)"

lemma set_fromkeys [simp, py_simps]: "set (fromkeys xs) = set xs"
  by (induction xs) auto

lemma distinct_fromkeys [simp, py_simps]: "distinct (fromkeys xs)"
  by (induction xs) auto

lemma fromkeys_eq_Nil [simp, py_simps]: "fromkeys xs = [] \<longleftrightarrow> xs = []"
  by (cases xs) auto

lemma fromkeys_distinct: "distinct xs \<Longrightarrow> fromkeys xs = xs"
  by (induction xs) (auto intro: filter_True)

text \<open>\<open>max(xs, key=f)\<close> and \<open>min(xs, key=f)\<close>: the first element with an extreme key.\<close>

fun max_by :: "('a \<Rightarrow> 'k::linorder) \<Rightarrow> 'a \<Rightarrow> 'a list \<Rightarrow> 'a" where
  "max_by f best [] = best"
| "max_by f best (x # xs) = max_by f (if f best < f x then x else best) xs"

definition py_max :: "('a \<Rightarrow> 'k::linorder) \<Rightarrow> 'a list \<Rightarrow> 'a option" where
  "py_max f xs = (case xs of [] \<Rightarrow> None | x # xs' \<Rightarrow> Some (max_by f x xs'))"

definition py_min :: "('a \<Rightarrow> 'k::linordered_idom) \<Rightarrow> 'a list \<Rightarrow> 'a option" where
  "py_min f xs = py_max (\<lambda>x. - f x) xs"

lemma max_by_in: "max_by f x xs \<in> set (x # xs)"
  by (induction xs arbitrary: x) auto

lemma max_by_ge: "y \<in> set (x # xs) \<Longrightarrow> f y \<le> f (max_by f x xs)"
proof (induction xs arbitrary: x y)
  case Nil
  then show ?case by simp
next
  case (Cons z zs)
  let ?b = "if f x < f z then z else x"
  have b: "f ?b \<le> f (max_by f ?b zs)" by (rule Cons.IH) simp
  show ?case
  proof (cases "y \<in> set zs")
    case True
    then show ?thesis using Cons.IH [of y ?b] by simp
  next
    case False
    with Cons.prems have "y = x \<or> y = z" by auto
    then have "f y \<le> f ?b" by auto
    with b show ?thesis by simp
  qed
qed

lemma py_max_in:
  assumes "py_max f xs = Some m"
  shows "m \<in> set xs"
  using assms max_by_in [of f "hd xs" "tl xs"] by (cases xs) (simp_all add: py_max_def)

lemma py_max_ge:
  assumes "py_max f xs = Some m" and "y \<in> set xs"
  shows "f y \<le> f m"
  using assms max_by_ge [of y "hd xs" "tl xs" f] by (cases xs) (simp_all add: py_max_def)

lemma max_by_snoc: "max_by f x (xs @ [y]) = (if f (max_by f x xs) < f y then y else max_by f x xs)"
  by (induction xs arbitrary: x) auto

lemma py_max_snoc:
  "py_max f (xs @ [x]) = (case py_max f xs of None \<Rightarrow> Some x | Some c \<Rightarrow> if f c < f x then Some x else Some c)"
  by (cases xs) (simp_all add: py_max_def max_by_snoc)

lemma py_max_None [simp]: "py_max f xs = None \<longleftrightarrow> xs = []"
  by (simp add: py_max_def split: list.splits)

lemma py_min_in: "py_min f xs = Some m \<Longrightarrow> m \<in> set xs"
  unfolding py_min_def by (rule py_max_in)

lemma py_min_le: "py_min f xs = Some m \<Longrightarrow> y \<in> set xs \<Longrightarrow> f m \<le> f y"
  unfolding py_min_def by (drule (1) py_max_ge) simp

lemma py_min_None [simp]: "py_min f xs = None \<longleftrightarrow> xs = []"
  by (simp add: py_min_def)

end
