(* ===== verification/Tables.thy ===== *)
theory Tables
  imports Prelude
begin

text \<open>
  Database tables as lists of rows in insertion order: the queries the services issue
  (\<open>SELECT ... LIMIT 1\<close>, \<open>ORDER BY ... LIMIT n\<close>) and the two ways they write (the row returned by
  a query is mutated, or all rows satisfying a predicate are).
\<close>

definition find_row :: "('r \<Rightarrow> bool) \<Rightarrow> 'r list \<Rightarrow> 'r option" where
  "find_row P t = List.find P t"

fun update_first :: "('r \<Rightarrow> bool) \<Rightarrow> ('r \<Rightarrow> 'r) \<Rightarrow> 'r list \<Rightarrow> 'r list" where
  "update_first P f [] = []"
| "update_first P f (r # t) = (if P r then f r # t else r # update_first P f t)"

definition update_where :: "('r \<Rightarrow> bool) \<Rightarrow> ('r \<Rightarrow> 'r) \<Rightarrow> 'r list \<Rightarrow> 'r list" where
  "update_where P f t = map (\<lambda>r. if P r then f r else r) t"

definition order_limit :: "('r \<Rightarrow> 'k::linorder) \<Rightarrow> nat \<Rightarrow> 'r list \<Rightarrow> 'r list" where
  "order_limit key n t = take n (sort_key key t)"

text \<open>\<open>ORDER BY received DESC LIMIT 1\<close>.\<close>

definition newest :: "('r \<Rightarrow> time) \<Rightarrow> ('r \<Rightarrow> bool) \<Rightarrow> 'r list \<Rightarrow> 'r option" where
  "newest received P t = py_max received (filter P t)"

subsection \<open>Lookup\<close>

lemma find_row_Nil [simp, table_simps]: "find_row P [] = None"
  by (simp add: find_row_def)

lemma find_row_Cons [simp, table_simps]:
  "find_row P (r # t) = (if P r then Some r else find_row P t)"
  by (simp add: find_row_def)

lemma find_row_append [simp, table_simps]:
  "find_row P (t @ u) = (case find_row P t of None \<Rightarrow> find_row P u | Some r \<Rightarrow> Some r)"
  by (induction t) auto

lemma find_row_SomeD: "find_row P t = Some r \<Longrightarrow> r \<in> set t \<and> P r"
  by (induction t) (auto split: if_splits)

lemma find_row_None_iff: "find_row P t = None \<longleftrightarrow> (\<forall>r \<in> set t. \<not> P r)"
  by (induction t) auto

lemma find_row_ex: "r \<in> set t \<Longrightarrow> P r \<Longrightarrow> \<exists>r'. find_row P t = Some r'"
  by (induction t) auto

lemma find_row_cong: "(\<And>r. r \<in> set t \<Longrightarrow> P r = Q r) \<Longrightarrow> find_row P t = find_row Q t"
  by (induction t) auto

lemma find_row_unique:
  assumes "distinct (map key t)" and "r \<in> set t" and "P r"
    and "\<And>r'. r' \<in> set t \<Longrightarrow> P r' \<Longrightarrow> key r' = key r"
  shows "find_row P t = Some r"
proof -
  obtain r' where r': "find_row P t = Some r'" using assms(2,3) find_row_ex by metis
  then have "r' \<in> set t" "P r'" by (simp_all add: find_row_SomeD)
  then have "key r' = key r" by (rule assms(4))
  then have "r' = r" using assms(1,2) \<open>r' \<in> set t\<close> by (simp add: distinct_map inj_on_def)
  with r' show ?thesis by simp
qed

lemma key_row_unique:
  "distinct (map key t) \<Longrightarrow> r \<in> set t \<Longrightarrow> r' \<in> set t \<Longrightarrow> key r = key r' \<Longrightarrow> r = r'"
  by (simp add: distinct_map inj_on_def)

lemma filter_unique:
  assumes "distinct (map key t)" and "r \<in> set t" and "P r"
    and "\<And>s. s \<in> set t \<Longrightarrow> P s \<Longrightarrow> key s = key r"
  shows "filter P t = [r]"
  using assms
proof (induction t)
  case Nil
  then show ?case by simp
next
  case (Cons s t)
  have none: "\<not> P q" if "q \<in> set t" "P s" for q
  proof
    assume "P q"
    then have "key q = key s" using Cons.prems(4) [of q] Cons.prems(4) [of s] that by simp
    then show False using Cons.prems(1) that(1) by (metis distinct.simps(2) imageI list.map(2) set_map)
  qed
  show ?case
  proof (cases "P s")
    case True
    then have "r = s" using Cons.prems(2,3) none by auto
    moreover have "filter P t = []" using none True by (simp add: filter_empty_conv)
    ultimately show ?thesis using True by simp
  next
    case False
    then have r: "r \<in> set t" using Cons.prems(2,3) by auto
    have d: "distinct (map key t)" using Cons.prems(1) by simp
    have "filter P t = [r]" by (rule Cons.IH [OF d r Cons.prems(3)]) (rule Cons.prems(4), simp_all)
    then show ?thesis using False by simp
  qed
qed

subsection \<open>Updates of the first match\<close>

lemma find_update_first:
  "(\<And>r. P r \<Longrightarrow> P (f r)) \<Longrightarrow> find_row P (update_first P f t) = map_option f (find_row P t)"
  by (induction t) auto

lemma find_update_first_other:
  "(\<And>r. P r \<Longrightarrow> \<not> Q r \<and> \<not> Q (f r)) \<Longrightarrow> find_row Q (update_first P f t) = find_row Q t"
  by (induction t) auto

lemma filter_update_first_other:
  "(\<And>r. P r \<Longrightarrow> \<not> Q r \<and> \<not> Q (f r)) \<Longrightarrow> filter Q (update_first P f t) = filter Q t"
  by (induction t) auto

lemma update_first_id: "(\<And>r. r \<in> set t \<Longrightarrow> \<not> P r) \<Longrightarrow> update_first P f t = t"
  by (induction t) auto

lemma map_update_first:
  "(\<And>r. P r \<Longrightarrow> key (f r) = key r) \<Longrightarrow> map key (update_first P f t) = map key t"
  by (induction t) auto

lemma length_update_first [simp, table_simps]: "length (update_first P f t) = length t"
  by (induction t) auto

lemma in_update_firstD: "r \<in> set (update_first P f t) \<Longrightarrow> r \<in> set t \<or> (\<exists>s \<in> set t. P s \<and> r = f s)"
  by (induction t) (auto split: if_splits)

lemma in_update_first_keep: "r \<in> set t \<Longrightarrow> \<not> P r \<Longrightarrow> r \<in> set (update_first P f t)"
  by (induction t) auto

lemma in_update_first_new: "find_row P t = Some r \<Longrightarrow> f r \<in> set (update_first P f t)"
  by (induction t) (auto split: if_splits)

lemma Ball_update_first:
  "(\<And>r. r \<in> set t \<Longrightarrow> Q r) \<Longrightarrow> (\<And>r. r \<in> set t \<Longrightarrow> P r \<Longrightarrow> Q (f r)) \<Longrightarrow>
   r \<in> set (update_first P f t) \<Longrightarrow> Q r"
  using in_update_firstD [of r P f t] by blast

text \<open>Counting after one row changed.\<close>

lemma count_update_first:
  "find_row P t = Some a \<Longrightarrow>
   length (filter Q (update_first P f t)) + (if Q a then 1 else 0) = length (filter Q t) + (if Q (f a) then 1 else 0)"
  by (induction t) (auto split: if_splits)

lemma update_first_in:
  "r \<in> set (update_first P f t) \<Longrightarrow> find_row P t = Some a \<Longrightarrow> r \<in> set t \<or> r = f a"
  by (induction t) (auto split: if_splits)

lemma update_first_eq_where:
  assumes "distinct (map key t)" and "\<And>r s. P r \<Longrightarrow> P s \<Longrightarrow> key r = key s"
  shows "update_first P f t = update_where P f t"
  using assms(1)
proof (induction t)
  case Nil
  then show ?case by (simp add: update_where_def)
next
  case (Cons r t)
  show ?case
  proof (cases "P r")
    case True
    have "\<not> P s" if "s \<in> set t" for s
      using that Cons.prems assms(2) [OF True, of s] by (metis distinct.simps(2) imageI list.map(2) set_map)
    then have "map (\<lambda>r. if P r then f r else r) t = t" by (simp add: map_idI)
    with True show ?thesis by (simp add: update_where_def)
  qed (use Cons in \<open>simp add: update_where_def\<close>)
qed

subsection \<open>Updates of all matches\<close>

lemma update_where_simps [simp, table_simps]:
  "update_where P f [] = []"
  "update_where P f (r # t) = (if P r then f r else r) # update_where P f t"
  "update_where P f (t @ u) = update_where P f t @ update_where P f u"
  "length (update_where P f t) = length t"
  by (simp_all add: update_where_def)

lemma set_update_where:
  "set (update_where P f t) = {r \<in> set t. \<not> P r} \<union> f ` {r \<in> set t. P r}"
  by (induction t) auto

lemma map_update_where:
  "(\<And>r. P r \<Longrightarrow> key (f r) = key r) \<Longrightarrow> map key (update_where P f t) = map key t"
  by (induction t) auto

lemma find_update_where_other:
  "(\<And>r. P r \<Longrightarrow> \<not> Q r \<and> \<not> Q (f r)) \<Longrightarrow> find_row Q (update_where P f t) = find_row Q t"
  by (induction t) auto

lemma find_update_where_same:
  "(\<And>r. P r \<Longrightarrow> Q (f r) = Q r) \<Longrightarrow>
   find_row Q (update_where P f t) = map_option (\<lambda>r. if P r then f r else r) (find_row Q t)"
  by (induction t) auto

subsection \<open>Ordered selection\<close>

lemma set_order_limit: "set (order_limit key n t) \<subseteq> set t"
  using set_take_subset [of n "sort_key key t"] by (simp add: order_limit_def)

lemma sorted_order_limit: "sorted (map key (order_limit key n t))"
  by (simp add: order_limit_def take_map [symmetric] sorted_wrt_take)

lemma length_order_limit: "length (order_limit key n t) = min n (length t)"
  by (simp add: order_limit_def min_def)

lemma distinct_order_limit:
  "distinct (map k t) \<Longrightarrow> distinct (map k (order_limit key n t))"
proof -
  assume "distinct (map k t)"
  then have "distinct (map k (sort_key key t))"
    by (metis distinct_map distinct_sort set_sort)
  then show ?thesis
    by (simp add: order_limit_def take_map [symmetric])
qed

lemma order_limit_least:
  assumes r: "r \<in> set (order_limit key n t)" and s: "s \<in> set t" "s \<notin> set (order_limit key n t)"
  shows "key r \<le> key s"
proof -
  let ?l = "sort_key key t"
  have "s \<in> set ?l" using s(1) by simp
  then have "s \<in> set (drop n ?l)"
    using s(2) by (metis Un_iff append_take_drop_id order_limit_def set_append)
  moreover have "r \<in> set (take n ?l)" using r by (simp add: order_limit_def)
  moreover have "sorted (map key (take n ?l @ drop n ?l))" by simp
  ultimately show ?thesis
    unfolding map_append sorted_append by fastforce
qed

lemmas table_find = find_row_SomeD find_row_None_iff find_row_ex
lemmas table_update = find_update_first find_update_first_other find_update_where_other
  map_update_first map_update_where

end
