(* ===== verification/Jobs.thy ===== *)
theory Jobs
  imports Tables
begin

text \<open>
  The durable job queue: \<open>app/domain/jobs.py\<close>, the tables \<open>durable_jobs\<close> and \<open>job_attempts\<close>
  of \<open>app/models.py\<close> and \<open>JobRepository\<close> of \<open>app/jobs/repository.py\<close>.  Every method of the
  repository is a function of the database, the clock reading and its arguments; a raised
  \<open>ValueError\<close> is an \<open>Inl\<close>, and the transaction that raised leaves the database as it was.
  Rows locked by another transaction, which \<open>SKIP LOCKED\<close> passes over, are an argument.
\<close>

subsection \<open>Data\<close>

datatype job_status = PENDING | RUNNING | RETRY_WAIT | SUCCEEDED | FAILED_TERMINAL | CANCELLED

datatype job_type =
  REFRESH_ODDS_REGISTRY | BOOTSTRAP_DLTV_MATCH | REPAIR_LEGACY_DRAFT | SYNC_HISTORICAL
| SYNC_TEAM_REGISTRY | BUILD_DRAFT_CURVE | BUILD_SNAPSHOT | RUN_AI_PROVIDER
| SEND_DECISION_EMAIL | SEND_WECHAT_DECISION | SEND_QQ_DECISION | CAPTURE_FUTURE_ODDS
| RESOLVE_POSTMATCH | SETTLE_MAP | EVALUATE_DECISION

fun job_type_value :: "job_type \<Rightarrow> string" where
  "job_type_value REFRESH_ODDS_REGISTRY = ''REFRESH_ODDS_REGISTRY''"
| "job_type_value BOOTSTRAP_DLTV_MATCH = ''BOOTSTRAP_DLTV_MATCH''"
| "job_type_value REPAIR_LEGACY_DRAFT = ''REPAIR_LEGACY_DRAFT''"
| "job_type_value SYNC_HISTORICAL = ''SYNC_HISTORICAL''"
| "job_type_value SYNC_TEAM_REGISTRY = ''SYNC_TEAM_REGISTRY''"
| "job_type_value BUILD_DRAFT_CURVE = ''BUILD_DRAFT_CURVE''"
| "job_type_value BUILD_SNAPSHOT = ''BUILD_SNAPSHOT''"
| "job_type_value RUN_AI_PROVIDER = ''RUN_AI_PROVIDER''"
| "job_type_value SEND_DECISION_EMAIL = ''SEND_DECISION_EMAIL''"
| "job_type_value SEND_WECHAT_DECISION = ''SEND_WECHAT_DECISION''"
| "job_type_value SEND_QQ_DECISION = ''SEND_QQ_DECISION''"
| "job_type_value CAPTURE_FUTURE_ODDS = ''CAPTURE_FUTURE_ODDS''"
| "job_type_value RESOLVE_POSTMATCH = ''RESOLVE_POSTMATCH''"
| "job_type_value SETTLE_MAP = ''SETTLE_MAP''"
| "job_type_value EVALUATE_DECISION = ''EVALUATE_DECISION''"

record durable_job_record =
  j_id :: uuid
  j_job_type :: job_type
  j_dedupe_key :: string
  j_payload :: json
  j_status :: job_status
  j_priority :: int
  j_not_before :: time
  j_attempt_count :: int
  j_max_attempts :: int
  j_locked_by :: "string option"
  j_locked_at :: "time option"
  j_last_error :: "string option"
  j_created_at :: time
  j_completed_at :: "time option"

record job_attempt_record =
  at_job_id :: uuid
  at_attempt_number :: int
  at_worker_id :: string
  at_status :: job_status
  at_started_at :: time
  at_completed_at :: "time option"
  at_error :: "string option"

text \<open>The domain object handed to a handler.\<close>

record durable_job =
  d_id :: uuid
  d_job_type :: job_type
  d_dedupe_key :: string
  d_payload :: json
  d_status :: job_status
  d_priority :: int
  d_not_before :: time
  d_created_at :: time
  d_attempt_count :: int
  d_max_attempts :: int
  d_locked_by :: "string option"
  d_locked_at :: "time option"

datatype job_error = ReopenAttemptsNotPositive | JobNotOwned | JobAttemptMissing

text \<open>The two tables, and the supply of fresh identifiers that \<open>uuid4\<close> stands for.\<close>

record job_db =
  jobs :: "durable_job_record list"
  attempts :: "job_attempt_record list"
  next_job_id :: uuid

definition empty_job_db :: job_db where
  "empty_job_db = \<lparr>jobs = [], attempts = [], next_job_id = 0\<rparr>"

subsection \<open>JobRepository\<close>

definition new_job_record ::
  "uuid \<Rightarrow> job_type \<Rightarrow> string \<Rightarrow> json \<Rightarrow> int \<Rightarrow> time \<Rightarrow> int \<Rightarrow> time \<Rightarrow> durable_job_record" where
  "new_job_record i jt key payload priority due max_attempts now =
     \<lparr>j_id = i, j_job_type = jt, j_dedupe_key = key, j_payload = payload, j_status = PENDING,
      j_priority = priority, j_not_before = due, j_attempt_count = 0, j_max_attempts = max_attempts,
      j_locked_by = None, j_locked_at = None, j_last_error = None, j_created_at = now,
      j_completed_at = None\<rparr>"

definition same_key :: "job_type \<Rightarrow> string \<Rightarrow> durable_job_record \<Rightarrow> bool" where
  "same_key jt key j \<longleftrightarrow> j_job_type j = jt \<and> j_dedupe_key j = key"

definition insert_job :: "(uuid \<Rightarrow> durable_job_record) \<Rightarrow> job_db \<Rightarrow> uuid \<times> job_db" where
  "insert_job mk db =
     (next_job_id db, db\<lparr>jobs := jobs db @ [mk (next_job_id db)], next_job_id := Suc (next_job_id db)\<rparr>)"

text \<open>\<open>INSERT ... ON CONFLICT (job_type, dedupe_key) DO NOTHING RETURNING id\<close>.\<close>

definition insert_on_conflict_do_nothing ::
  "job_type \<Rightarrow> string \<Rightarrow> (uuid \<Rightarrow> durable_job_record) \<Rightarrow> job_db \<Rightarrow> uuid option \<times> job_db" where
  "insert_on_conflict_do_nothing jt key mk db =
     (case find_row (same_key jt key) (jobs db) of
        Some _ \<Rightarrow> (None, db)
      | None \<Rightarrow> (let (i, db') = insert_job mk db in (Some i, db')))"

definition reopen_job :: "time \<Rightarrow> int \<Rightarrow> durable_job_record \<Rightarrow> durable_job_record" where
  "reopen_job due reopen_attempts j =
     j\<lparr>j_status := PENDING, j_not_before := due, j_completed_at := None, j_locked_by := None,
       j_locked_at := None, j_last_error := None,
       j_max_attempts := max (j_max_attempts j) (j_attempt_count j + reopen_attempts)\<rparr>"

definition enqueue ::
  "bool \<Rightarrow> job_db \<Rightarrow> time \<Rightarrow> job_type \<Rightarrow> string \<Rightarrow> json \<Rightarrow> int \<Rightarrow> time option \<Rightarrow> int \<Rightarrow> bool \<Rightarrow> int \<Rightarrow>
   job_error + (uuid \<times> job_db)" where
  "enqueue postgresql db now jt key payload priority not_before max_attempts reopen_terminal reopen_attempts =
     (let due = (case not_before of Some t \<Rightarrow> t | None \<Rightarrow> now);
          mk = (\<lambda>i. new_job_record i jt key payload priority due max_attempts now)
      in if reopen_attempts < 1 then Inl ReopenAttemptsNotPositive
         else (let (created_id, db') =
                     (if postgresql then insert_on_conflict_do_nothing jt key mk db else (None, db))
               in case created_id of
                    Some i \<Rightarrow> Inr (i, db')
                  | None \<Rightarrow>
                     (case find_row (same_key jt key) (jobs db') of
                        Some existing \<Rightarrow>
                          (if reopen_terminal \<and> j_status existing = FAILED_TERMINAL
                           then Inr (j_id existing,
                                     db'\<lparr>jobs := update_first (same_key jt key)
                                                  (reopen_job due reopen_attempts) (jobs db')\<rparr>)
                           else Inr (j_id existing, db'))
                      | None \<Rightarrow> Inr (insert_job mk db'))))"

definition claimable :: "time \<Rightarrow> job_type list \<Rightarrow> uuid list \<Rightarrow> durable_job_record \<Rightarrow> bool" where
  "claimable claim_at job_types locked j \<longleftrightarrow>
     (j_status j = PENDING \<or> j_status j = RETRY_WAIT) \<and> j_not_before j \<le> claim_at \<and>
     (job_types = [] \<or> j_job_type j \<in> set job_types) \<and> j_id j \<notin> set locked"

definition claim_record :: "string \<Rightarrow> time \<Rightarrow> durable_job_record \<Rightarrow> durable_job_record" where
  "claim_record worker_id claim_at j =
     j\<lparr>j_status := RUNNING, j_locked_by := Some worker_id, j_locked_at := Some claim_at,
       j_attempt_count := j_attempt_count j + 1\<rparr>"

definition to_domain :: "durable_job_record \<Rightarrow> durable_job" where
  "to_domain j =
     \<lparr>d_id = j_id j, d_job_type = j_job_type j, d_dedupe_key = j_dedupe_key j, d_payload = j_payload j,
      d_status = j_status j, d_priority = j_priority j, d_not_before = j_not_before j,
      d_created_at = j_created_at j, d_attempt_count = j_attempt_count j,
      d_max_attempts = j_max_attempts j, d_locked_by = j_locked_by j, d_locked_at = j_locked_at j\<rparr>"

definition new_attempt :: "string \<Rightarrow> time \<Rightarrow> durable_job_record \<Rightarrow> job_attempt_record" where
  "new_attempt worker_id claim_at j =
     \<lparr>at_job_id = j_id j, at_attempt_number = j_attempt_count j, at_worker_id = worker_id,
      at_status = RUNNING, at_started_at = claim_at, at_completed_at = None, at_error = None\<rparr>"

text \<open>The loop of \<open>claim\<close> over the selected rows.\<close>

fun claim_rows :: "string \<Rightarrow> time \<Rightarrow> durable_job_record list \<Rightarrow> job_db \<Rightarrow> durable_job list \<times> job_db" where
  "claim_rows worker_id claim_at [] db = ([], db)"
| "claim_rows worker_id claim_at (j # js) db =
     (let j' = claim_record worker_id claim_at j;
          db' = db\<lparr>jobs := update_where (\<lambda>r. j_id r = j_id j) (\<lambda>_. j') (jobs db),
                   attempts := attempts db @ [new_attempt worker_id claim_at j']\<rparr>;
          (claimed, db'') = claim_rows worker_id claim_at js db'
      in (to_domain j' # claimed, db''))"

definition claim_candidates ::
  "job_db \<Rightarrow> nat \<Rightarrow> time \<Rightarrow> job_type list \<Rightarrow> uuid list \<Rightarrow> durable_job_record list" where
  "claim_candidates db limit claim_at job_types locked =
     order_limit (\<lambda>j. (j_priority j, j_created_at j)) limit
       (filter (claimable claim_at job_types locked) (jobs db))"

definition claim ::
  "job_db \<Rightarrow> string \<Rightarrow> nat \<Rightarrow> time \<Rightarrow> job_type list \<Rightarrow> uuid list \<Rightarrow> durable_job list \<times> job_db" where
  "claim db worker_id limit claim_at job_types locked =
     claim_rows worker_id claim_at (claim_candidates db limit claim_at job_types locked) db"

definition owned_by :: "uuid \<Rightarrow> string \<Rightarrow> durable_job_record \<Rightarrow> bool" where
  "owned_by job_id worker_id j \<longleftrightarrow>
     j_id j = job_id \<and> j_status j = RUNNING \<and> j_locked_by j = Some worker_id"

definition owned_job :: "job_db \<Rightarrow> uuid \<Rightarrow> string \<Rightarrow> job_error + durable_job_record" where
  "owned_job db job_id worker_id =
     (case find_row (owned_by job_id worker_id) (jobs db) of
        None \<Rightarrow> Inl JobNotOwned | Some j \<Rightarrow> Inr j)"

definition attempt_of :: "durable_job_record \<Rightarrow> job_attempt_record \<Rightarrow> bool" where
  "attempt_of j a \<longleftrightarrow> at_job_id a = j_id j \<and> at_attempt_number a = j_attempt_count j"

definition current_attempt :: "job_db \<Rightarrow> durable_job_record \<Rightarrow> job_error + job_attempt_record" where
  "current_attempt db j =
     (case find_row (attempt_of j) (attempts db) of None \<Rightarrow> Inl JobAttemptMissing | Some a \<Rightarrow> Inr a)"

definition succeed :: "job_db \<Rightarrow> uuid \<Rightarrow> string \<Rightarrow> time \<Rightarrow> job_error + job_db" where
  "succeed db job_id worker_id finished =
     (case owned_job db job_id worker_id of
        Inl e \<Rightarrow> Inl e
      | Inr j \<Rightarrow>
         (case current_attempt db j of
            Inl e \<Rightarrow> Inl e
          | Inr a \<Rightarrow>
             Inr (db\<lparr>jobs := update_first (owned_by job_id worker_id)
                       (\<lambda>r. r\<lparr>j_status := SUCCEEDED, j_completed_at := Some finished,
                              j_locked_by := None, j_locked_at := None\<rparr>) (jobs db),
                     attempts := update_first (attempt_of j)
                       (\<lambda>r. r\<lparr>at_status := SUCCEEDED, at_completed_at := Some finished\<rparr>)
                       (attempts db)\<rparr>)))"

definition retry_delay :: "int \<Rightarrow> duration" where
  "retry_delay attempt_count = micros (min (2 ^ nat (max (attempt_count - 1) 0)) 300)"

definition fail_record :: "bool \<Rightarrow> string \<Rightarrow> time \<Rightarrow> durable_job_record \<Rightarrow> durable_job_record" where
  "fail_record terminal error now j =
     (let j' = j\<lparr>j_status := (if terminal then FAILED_TERMINAL else RETRY_WAIT),
                 j_last_error := Some error, j_locked_by := None, j_locked_at := None\<rparr>
      in if terminal then j'\<lparr>j_completed_at := Some now\<rparr>
         else j'\<lparr>j_not_before := now + retry_delay (j_attempt_count j)\<rparr>)"

definition fail :: "job_db \<Rightarrow> uuid \<Rightarrow> string \<Rightarrow> string \<Rightarrow> time \<Rightarrow> job_error + (job_status \<times> job_db)" where
  "fail db job_id worker_id error now =
     (case owned_job db job_id worker_id of
        Inl e \<Rightarrow> Inl e
      | Inr j \<Rightarrow>
         (let terminal = (j_attempt_count j \<ge> j_max_attempts j);
              next_status = (if terminal then FAILED_TERMINAL else RETRY_WAIT)
          in case current_attempt db j of
               Inl e \<Rightarrow> Inl e
             | Inr a \<Rightarrow>
                Inr (next_status,
                     db\<lparr>jobs := update_first (owned_by job_id worker_id)
                                 (fail_record terminal error now) (jobs db),
                        attempts := update_first (attempt_of j)
                          (\<lambda>r. r\<lparr>at_status := next_status, at_completed_at := Some now,
                                 at_error := Some error\<rparr>) (attempts db)\<rparr>)))"

definition renew_lease :: "job_db \<Rightarrow> uuid \<Rightarrow> string \<Rightarrow> time \<Rightarrow> bool \<times> job_db" where
  "renew_lease db job_id worker_id renewed_at =
     (find_row (owned_by job_id worker_id) (jobs db) \<noteq> None,
      db\<lparr>jobs := update_where (owned_by job_id worker_id)
                  (\<lambda>r. r\<lparr>j_locked_at := Some renewed_at\<rparr>) (jobs db)\<rparr>)"

definition lease_expired :: "time \<Rightarrow> uuid list \<Rightarrow> durable_job_record \<Rightarrow> bool" where
  "lease_expired cutoff locked j \<longleftrightarrow>
     j_status j = RUNNING \<and> (case j_locked_at j of None \<Rightarrow> False | Some t \<Rightarrow> t < cutoff) \<and>
     j_id j \<notin> set locked"

definition reclaim_record :: "time \<Rightarrow> durable_job_record \<Rightarrow> durable_job_record" where
  "reclaim_record current j =
     j\<lparr>j_status := RETRY_WAIT, j_not_before := current, j_locked_by := None, j_locked_at := None,
       j_last_error := Some ''worker lease expired''\<rparr>"

fun reclaim_rows :: "time \<Rightarrow> durable_job_record list \<Rightarrow> job_db \<Rightarrow> job_error + job_db" where
  "reclaim_rows current [] db = Inr db"
| "reclaim_rows current (j # js) db =
     (case current_attempt db j of
        Inl e \<Rightarrow> Inl e
      | Inr a \<Rightarrow>
         reclaim_rows current js
           (db\<lparr>jobs := update_where (\<lambda>r. j_id r = j_id j) (\<lambda>_. reclaim_record current j) (jobs db),
               attempts := update_first (attempt_of j)
                 (\<lambda>r. r\<lparr>at_status := RETRY_WAIT, at_completed_at := Some current,
                        at_error := Some ''worker lease expired''\<rparr>) (attempts db)\<rparr>))"

definition reclaim_expired ::
  "job_db \<Rightarrow> duration \<Rightarrow> time \<Rightarrow> uuid list \<Rightarrow> job_error + (nat \<times> job_db)" where
  "reclaim_expired db lease current locked =
     (let records = filter (lease_expired (current - lease) locked) (jobs db)
      in case reclaim_rows current records db of
           Inl e \<Rightarrow> Inl e
         | Inr db' \<Rightarrow> Inr (length records, db'))"

text \<open>\<open>SELECT status, count(*) GROUP BY status ORDER BY status\<close>: the statuses in the alphabetical
  order of their names, those that occur only.\<close>

definition counts_by_status :: "job_db \<Rightarrow> (job_status \<times> nat) list" where
  "counts_by_status db =
     (let count = (\<lambda>s. length (filter (\<lambda>j. j_status j = s) (jobs db)))
      in map (\<lambda>s. (s, count s))
           (filter (\<lambda>s. 0 < count s)
             [CANCELLED, FAILED_TERMINAL, PENDING, RETRY_WAIT, RUNNING, SUCCEEDED]))"

end
