(* ===== verification/JobLifecycle.thy ===== *)
theory JobLifecycle
  imports Jobs
begin

text \<open>
  The life cycle of durable jobs: the invariant of the tables \<open>durable_jobs\<close> and
  \<open>job_attempts\<close>, its preservation by every method of \<open>JobRepository\<close>, the step relation of
  concurrent workers and the states reachable by it, and what follows for ownership, retries,
  deduplication and lease loss.
\<close>

subsection \<open>Invariant\<close>

definition job_ok :: "durable_job_record \<Rightarrow> bool" where
  "job_ok j \<longleftrightarrow>
     (j_status j = RUNNING \<longleftrightarrow> j_locked_by j \<noteq> None) \<and>
     (j_locked_by j = None \<longleftrightarrow> j_locked_at j = None) \<and>
     0 \<le> j_attempt_count j \<and> (j_status j = RUNNING \<longrightarrow> 0 < j_attempt_count j)"

definition attempt_fits :: "durable_job_record \<Rightarrow> job_attempt_record \<Rightarrow> bool" where
  "attempt_fits j a \<longleftrightarrow>
     0 < at_attempt_number a \<and> at_attempt_number a \<le> j_attempt_count j \<and>
     (at_status a = RUNNING \<longrightarrow>
        j_status j = RUNNING \<and> at_attempt_number a = j_attempt_count j \<and>
        j_locked_by j = Some (at_worker_id a))"

definition is_current :: "durable_job_record \<Rightarrow> job_attempt_record \<Rightarrow> bool" where
  "is_current j a \<longleftrightarrow>
     attempt_of j a \<and>
     (j_status j = RUNNING \<longrightarrow> at_status a = RUNNING \<and> j_locked_by j = Some (at_worker_id a))"

definition attempt_key :: "job_attempt_record \<Rightarrow> uuid \<times> int" where
  "attempt_key a = (at_job_id a, at_attempt_number a)"

definition job_key :: "durable_job_record \<Rightarrow> job_type \<times> string" where
  "job_key j = (j_job_type j, j_dedupe_key j)"

definition jobs_inv :: "job_db \<Rightarrow> bool" where
  "jobs_inv db \<longleftrightarrow>
     distinct (map j_id (jobs db)) \<and> distinct (map job_key (jobs db)) \<and>
     distinct (map attempt_key (attempts db)) \<and>
     (\<forall>j \<in> set (jobs db). j_id j < next_job_id db \<and> job_ok j) \<and>
     (\<forall>a \<in> set (attempts db). \<exists>j \<in> set (jobs db). j_id j = at_job_id a \<and> attempt_fits j a) \<and>
     (\<forall>j \<in> set (jobs db). 0 < j_attempt_count j \<longrightarrow> (\<exists>a \<in> set (attempts db). is_current j a))"

lemma jobs_invD:
  assumes "jobs_inv db"
  shows "distinct (map j_id (jobs db))" "distinct (map job_key (jobs db))"
    "distinct (map attempt_key (attempts db))"
    "j \<in> set (jobs db) \<Longrightarrow> j_id j < next_job_id db" "j \<in> set (jobs db) \<Longrightarrow> job_ok j"
    "a \<in> set (attempts db) \<Longrightarrow> \<exists>j \<in> set (jobs db). j_id j = at_job_id a \<and> attempt_fits j a"
    "j \<in> set (jobs db) \<Longrightarrow> 0 < j_attempt_count j \<Longrightarrow> \<exists>a \<in> set (attempts db). is_current j a"
  using assms by (auto simp: jobs_inv_def)

lemma jobs_inv_empty [inv_intros]: "jobs_inv empty_job_db"
  by (simp add: jobs_inv_def empty_job_db_def)

lemma job_id_unique:
  "jobs_inv db \<Longrightarrow> j \<in> set (jobs db) \<Longrightarrow> r \<in> set (jobs db) \<Longrightarrow> j_id r = j_id j \<Longrightarrow> r = j"
  by (rule key_row_unique [where key = j_id]) (auto dest: jobs_invD)

lemma attempt_fits_own:
  assumes "jobs_inv db" "j \<in> set (jobs db)" "a \<in> set (attempts db)" "at_job_id a = j_id j"
  shows "attempt_fits j a"
  using assms jobs_invD(6) job_id_unique by metis

text \<open>The shape of every write to one job: the row is replaced, and only its own attempts change.\<close>

lemma jobs_inv_replace:
  assumes inv: "jobs_inv db" and j: "j \<in> set (jobs db)"
    and j': "j_id j' = j_id j" "job_key j' = job_key j" "job_ok j'"
    and dist: "distinct (map attempt_key as')"
    and others: "\<And>a. at_job_id a \<noteq> j_id j \<Longrightarrow> a \<in> set as' \<longleftrightarrow> a \<in> set (attempts db)"
    and own: "\<And>a. a \<in> set as' \<Longrightarrow> at_job_id a = j_id j \<Longrightarrow> attempt_fits j' a"
    and cur: "0 < j_attempt_count j' \<Longrightarrow> \<exists>a \<in> set as'. is_current j' a"
  shows "jobs_inv (db\<lparr>jobs := update_where (\<lambda>r. j_id r = j_id j) (\<lambda>_. j') (jobs db), attempts := as'\<rparr>)"
proof -
  let ?js = "update_where (\<lambda>r. j_id r = j_id j) (\<lambda>_. j') (jobs db)"
  have set_js: "set ?js = {r \<in> set (jobs db). j_id r \<noteq> j_id j} \<union> {j'}"
    using j by (auto simp: set_update_where)
  have "map j_id ?js = map j_id (jobs db)" by (rule map_update_where) (simp add: j')
  moreover have "map job_key ?js = map job_key (jobs db)"
  proof -
    have "r \<in> set (jobs db) \<Longrightarrow> j_id r = j_id j \<Longrightarrow> job_key j' = job_key r" for r
      using j'(2) job_id_unique [OF inv j] by metis
    then show ?thesis by (simp add: update_where_def)
  qed
  ultimately have keys: "distinct (map j_id ?js)" "distinct (map job_key ?js)"
    using jobs_invD(1,2) [OF inv] by simp_all
  have 1: "\<forall>r \<in> set ?js. j_id r < next_job_id db \<and> job_ok r"
    using jobs_invD(4,5) [OF inv] j j' by (auto simp: set_js)
  have 2: "\<forall>a \<in> set as'. \<exists>r \<in> set ?js. j_id r = at_job_id a \<and> attempt_fits r a"
  proof
    fix a assume a: "a \<in> set as'"
    show "\<exists>r \<in> set ?js. j_id r = at_job_id a \<and> attempt_fits r a"
    proof (cases "at_job_id a = j_id j")
      case True
      then show ?thesis using own [OF a] j' by (auto simp: set_js)
    next
      case False
      then show ?thesis using others a jobs_invD(6) [OF inv] by (fastforce simp: set_js)
    qed
  qed
  have 3: "\<forall>r \<in> set ?js. 0 < j_attempt_count r \<longrightarrow> (\<exists>a \<in> set as'. is_current r a)"
  proof (intro ballI impI)
    fix r assume r: "r \<in> set ?js" "0 < j_attempt_count r"
    show "\<exists>a \<in> set as'. is_current r a"
    proof (cases "r = j'")
      case True
      then show ?thesis using cur r by simp
    next
      case False
      with r have old: "r \<in> set (jobs db)" "j_id r \<noteq> j_id j" by (auto simp: set_js)
      then obtain a where a: "a \<in> set (attempts db)" "is_current r a"
        using jobs_invD(7) [OF inv] r by blast
      then have "at_job_id a \<noteq> j_id j" using old by (simp add: is_current_def attempt_of_def)
      then show ?thesis using a others by blast
    qed
  qed
  show ?thesis using keys dist 1 2 3 by (simp add: jobs_inv_def)
qed

text \<open>The shape of the writes to an attempt: the current attempt of one job is closed.\<close>

lemma attempt_key_update_first [simp]:
  assumes "\<And>a. attempt_key (f a) = attempt_key a"
  shows "map attempt_key (update_first P f as) = map attempt_key as"
  by (rule map_update_first) (rule assms)

lemma jobs_inv_close:
  assumes inv: "jobs_inv db" and j: "j \<in> set (jobs db)"
    and j': "j_id j' = j_id j" "job_key j' = job_key j" "j_attempt_count j' = j_attempt_count j"
      "j_status j' \<noteq> RUNNING" "j_locked_by j' = None" "j_locked_at j' = None"
    and f: "\<And>a. attempt_key (f a) = attempt_key a" "\<And>a. at_status (f a) \<noteq> RUNNING"
  shows "jobs_inv (db\<lparr>jobs := update_where (\<lambda>r. j_id r = j_id j) (\<lambda>_. j') (jobs db),
                      attempts := update_first (attempt_of j) f (attempts db)\<rparr>)"
proof (rule jobs_inv_replace [OF inv j j'(1,2)])
  let ?as = "update_first (attempt_of j) f (attempts db)"
  show "job_ok j'" using jobs_invD(5) [OF inv j] j' by (simp add: job_ok_def)
  show "distinct (map attempt_key ?as)" using jobs_invD(3) [OF inv] f by simp
  have fk: "at_job_id (f a) = at_job_id a" "at_attempt_number (f a) = at_attempt_number a" for a
    using f(1) [of a] by (simp_all add: attempt_key_def)
  have closed: "?as = update_where (attempt_of j) f (attempts db)"
    by (rule update_first_eq_where [where key = attempt_key])
       (use jobs_invD(3) [OF inv] in \<open>auto simp: attempt_of_def attempt_key_def\<close>)
  have as: "set ?as = {a \<in> set (attempts db). \<not> attempt_of j a} \<union> f ` {a \<in> set (attempts db). attempt_of j a}"
    unfolding closed by (rule set_update_where)
  show "a \<in> set ?as \<longleftrightarrow> a \<in> set (attempts db)" if "at_job_id a \<noteq> j_id j" for a
    using that fk by (auto simp: as attempt_of_def)
  show "attempt_fits j' a" if a: "a \<in> set ?as" "at_job_id a = j_id j" for a
  proof -
    from a(1) consider "a \<in> set (attempts db)" "\<not> attempt_of j a"
      | b where "b \<in> set (attempts db)" "attempt_of j b" "a = f b"
      by (auto simp: as)
    then show ?thesis
    proof cases
      case 1
      then have "attempt_fits j a" using attempt_fits_own [OF inv j] a by blast
      then show ?thesis using 1 a j' by (auto simp: attempt_fits_def attempt_of_def)
    next
      case 2
      then have "attempt_fits j b" using attempt_fits_own [OF inv j] by (simp add: attempt_of_def)
      then show ?thesis using 2 j' fk f(2) by (auto simp: attempt_fits_def)
    qed
  qed
  show "\<exists>a \<in> set ?as. is_current j' a" if pos: "0 < j_attempt_count j'"
  proof -
    obtain a where "a \<in> set (attempts db)" "is_current j a"
      using jobs_invD(7) [OF inv j] pos j'(3) by auto
    then have "f a \<in> set ?as" "attempt_of j' (f a)"
      using fk j' by (auto simp: as is_current_def attempt_of_def)
    then show ?thesis using j' by (auto simp: is_current_def)
  qed
qed

subsection \<open>Every method preserves it\<close>

lemma owned_update:
  assumes inv: "jobs_inv db" and j: "find_row (owned_by i w) (jobs db) = Some j"
  shows "update_first (owned_by i w) f (jobs db) = update_where (\<lambda>r. j_id r = j_id j) (\<lambda>_. f j) (jobs db)"
proof -
  have own: "j \<in> set (jobs db)" "owned_by i w j" using find_row_SomeD [OF j] by simp_all
  have "update_first (owned_by i w) f (jobs db) = update_where (owned_by i w) f (jobs db)"
    by (rule update_first_eq_where [where key = j_id])
       (use jobs_invD(1) [OF inv] in \<open>auto simp: owned_by_def\<close>)
  also have "\<dots> = update_where (\<lambda>r. j_id r = j_id j) (\<lambda>_. f j) (jobs db)"
    proof -
    have "owned_by i w r \<longleftrightarrow> j_id r = j_id j" "j_id r = j_id j \<Longrightarrow> f r = f j" if "r \<in> set (jobs db)" for r
      using own(2) job_id_unique [OF inv own(1) that] by (auto simp: owned_by_def)
    then show ?thesis by (simp add: update_where_def)
  qed
  finally show ?thesis .
qed

lemma owned_jobE:
  assumes "owned_job db i w = Inr j"
  obtains "find_row (owned_by i w) (jobs db) = Some j" "j \<in> set (jobs db)" "owned_by i w j"
  using assms that find_row_SomeD [of "owned_by i w" "jobs db" j]
  by (auto simp: owned_job_def split: option.splits)

lemma jobs_inv_succeed [inv_intros]:
  assumes inv: "jobs_inv db" and ok: "succeed db i w t = Inr db'"
  shows "jobs_inv db'"
proof -
  obtain j where j: "owned_job db i w = Inr j"
    using ok by (auto simp: succeed_def split: sum.splits)
  from j obtain row: "find_row (owned_by i w) (jobs db) = Some j" "j \<in> set (jobs db)"
    by (rule owned_jobE)
  show ?thesis
    using ok j owned_update [OF inv row(1)]
    by (auto simp: succeed_def attempt_key_def job_key_def split: sum.splits
        intro!: jobs_inv_close [OF inv row(2)])
qed

lemma jobs_inv_fail [inv_intros]:
  assumes inv: "jobs_inv db" and ok: "fail db i w e t = Inr (s, db')"
  shows "jobs_inv db'"
proof -
  obtain j where j: "owned_job db i w = Inr j"
    using ok by (auto simp: fail_def split: sum.splits)
  from j obtain row: "find_row (owned_by i w) (jobs db) = Some j" "j \<in> set (jobs db)"
    by (rule owned_jobE)
  let ?terminal = "j_max_attempts j \<le> j_attempt_count j"
  have "j_status (fail_record ?terminal e t j) \<noteq> RUNNING" "j_locked_by (fail_record ?terminal e t j) = None"
    "j_locked_at (fail_record ?terminal e t j) = None" "j_id (fail_record ?terminal e t j) = j_id j"
    "job_key (fail_record ?terminal e t j) = job_key j"
    "j_attempt_count (fail_record ?terminal e t j) = j_attempt_count j"
    by (simp_all add: fail_record_def Let_def job_key_def)
  then show ?thesis
    using ok j owned_update [OF inv row(1)]
    by (auto simp: fail_def Let_def attempt_key_def split: sum.splits if_splits
        intro!: jobs_inv_close [OF inv row(2)])
qed

lemma jobs_inv_renew [inv_intros]:
  assumes inv: "jobs_inv db"
  shows "jobs_inv (snd (renew_lease db i w t))"
proof -
  define f where "f r = (if owned_by i w r then r\<lparr>j_locked_at := Some t\<rparr> else r)" for r
  have jobs: "jobs (snd (renew_lease db i w t)) = map f (jobs db)"
    "attempts (snd (renew_lease db i w t)) = attempts db"
    "next_job_id (snd (renew_lease db i w t)) = next_job_id db"
    by (simp_all add: renew_lease_def update_where_def f_def)
  have same: "j_id (f r) = j_id r" "job_key (f r) = job_key r" "j_attempt_count (f r) = j_attempt_count r"
    "attempt_fits (f r) a = attempt_fits r a" "is_current (f r) a = is_current r a" for r a
    by (simp_all add: f_def job_key_def attempt_fits_def is_current_def attempt_of_def)
  have ok: "job_ok r \<Longrightarrow> job_ok (f r)" for r by (auto simp: f_def job_ok_def owned_by_def)
  have keys: "map j_id (map f (jobs db)) = map j_id (jobs db)" "map job_key (map f (jobs db)) = map job_key (jobs db)"
    by (simp_all add: same)
  show ?thesis
    using inv ok unfolding jobs_inv_def jobs keys by (auto simp: same)
qed

lemma replaced_subset:
  "set js \<subseteq> set t \<Longrightarrow> j_id j \<notin> j_id ` set js \<Longrightarrow>
   set js \<subseteq> set (update_where (\<lambda>r. j_id r = j_id j) (\<lambda>_. j') t)"
  by (force simp: set_update_where)

lemma replaced_ids [simp]:
  "j_id j' = j_id j \<Longrightarrow> map j_id (update_where (\<lambda>r. j_id r = j_id j) (\<lambda>_. j') t) = map j_id t"
  by (simp add: update_where_def)

lemma reclaim_rows_inv:
  assumes "jobs_inv db" and "distinct (map j_id js)" and "set js \<subseteq> set (jobs db)"
    and "reclaim_rows t js db = Inr db'"
  shows "jobs_inv db'"
  using assms
proof (induction js arbitrary: db)
  case Nil
  then show ?case by simp
next
  case (Cons j js)
  let ?db = "db\<lparr>jobs := update_where (\<lambda>r. j_id r = j_id j) (\<lambda>_. reclaim_record t j) (jobs db),
               attempts := update_first (attempt_of j)
                 (\<lambda>r. r\<lparr>at_status := RETRY_WAIT, at_completed_at := Some t,
                        at_error := Some ''worker lease expired''\<rparr>) (attempts db)\<rparr>"
  have "jobs_inv ?db"
    by (rule jobs_inv_close)
       (use Cons.prems in \<open>simp_all add: reclaim_record_def job_key_def attempt_key_def\<close>)
  moreover have "set js \<subseteq> set (jobs ?db)"
    using Cons.prems(2,3) by (simp add: replaced_subset)
  moreover have "reclaim_rows t js ?db = Inr db'"
    using Cons.prems(4) by (simp split: sum.splits)
  ultimately show ?case using Cons.IH Cons.prems(2) by simp
qed

lemma distinct_filter_ids: "jobs_inv db \<Longrightarrow> distinct (map j_id (filter P (jobs db)))"
  using jobs_invD(1) [of db] by (simp add: distinct_map_filter)

lemma jobs_inv_reclaim [inv_intros]:
  assumes inv: "jobs_inv db" and ok: "reclaim_expired db lease t locked = Inr (n, db')"
  shows "jobs_inv db'"
  using ok reclaim_rows_inv [OF inv distinct_filter_ids [OF inv]]
  by (auto simp: reclaim_expired_def Let_def split: sum.splits)

lemma claim_row_inv:
  assumes inv: "jobs_inv db" and j: "j \<in> set (jobs db)" and idle: "j_status j \<noteq> RUNNING"
  shows "jobs_inv (db\<lparr>jobs := update_where (\<lambda>r. j_id r = j_id j) (\<lambda>_. claim_record w t j) (jobs db),
                      attempts := attempts db @ [new_attempt w t (claim_record w t j)]\<rparr>)"
proof (rule jobs_inv_replace [OF inv j])
  let ?a = "new_attempt w t (claim_record w t j)"
  have nonneg: "0 \<le> j_attempt_count j" using jobs_invD(5) [OF inv j] by (simp add: job_ok_def)
  have old: "at_attempt_number a \<le> j_attempt_count j" if "a \<in> set (attempts db)" "at_job_id a = j_id j" for a
    using attempt_fits_own [OF inv j that] by (simp add: attempt_fits_def)
  show "job_ok (claim_record w t j)" using nonneg by (simp add: job_ok_def claim_record_def)
  have "attempt_key ?a \<notin> attempt_key ` set (attempts db)"
    using old by (force simp: attempt_key_def new_attempt_def claim_record_def)
  then show "distinct (map attempt_key (attempts db @ [?a]))"
    using jobs_invD(3) [OF inv] by simp
  show "attempt_fits (claim_record w t j) a"
    if a: "a \<in> set (attempts db @ [?a])" "at_job_id a = j_id j" for a
  proof (cases "a = ?a")
    case True
    then show ?thesis using nonneg by (simp add: attempt_fits_def new_attempt_def claim_record_def)
  next
    case False
    then have "attempt_fits j a" using a attempt_fits_own [OF inv j] by simp
    then show ?thesis using idle by (auto simp: attempt_fits_def claim_record_def)
  qed
  show "\<exists>a \<in> set (attempts db @ [?a]). is_current (claim_record w t j) a"
    by (simp add: is_current_def attempt_of_def new_attempt_def claim_record_def)
qed (auto simp: claim_record_def job_key_def new_attempt_def)

lemma claim_rows_inv:
  assumes "jobs_inv db" and "distinct (map j_id js)" and "set js \<subseteq> set (jobs db)"
    and "\<And>j. j \<in> set js \<Longrightarrow> j_status j \<noteq> RUNNING"
  shows "jobs_inv (snd (claim_rows w t js db))"
  using assms
proof (induction js arbitrary: db)
  case Nil
  then show ?case by simp
next
  case (Cons j js)
  let ?db = "db\<lparr>jobs := update_where (\<lambda>r. j_id r = j_id j) (\<lambda>_. claim_record w t j) (jobs db),
               attempts := attempts db @ [new_attempt w t (claim_record w t j)]\<rparr>"
  have "jobs_inv ?db" by (rule claim_row_inv) (use Cons.prems in auto)
  moreover have "set js \<subseteq> set (jobs ?db)"
    using Cons.prems(2,3) by (simp add: replaced_subset)
  ultimately have "jobs_inv (snd (claim_rows w t js ?db))"
    using Cons.IH Cons.prems(2,4) by simp
  then show ?case by (simp add: Let_def split_beta)
qed

lemma claim_candidates_props:
  assumes inv: "jobs_inv db"
  shows "distinct (map j_id (claim_candidates db n t ts locked))"
    "set (claim_candidates db n t ts locked) \<subseteq> set (jobs db)"
    "j \<in> set (claim_candidates db n t ts locked) \<Longrightarrow> claimable t ts locked j"
proof -
  show "distinct (map j_id (claim_candidates db n t ts locked))"
    unfolding claim_candidates_def by (rule distinct_order_limit) (rule distinct_filter_ids [OF inv])
  have sub: "set (claim_candidates db n t ts locked) \<subseteq> set (filter (claimable t ts locked) (jobs db))"
    unfolding claim_candidates_def by (rule set_order_limit)
  then show "set (claim_candidates db n t ts locked) \<subseteq> set (jobs db)" by auto
  show "claimable t ts locked j" if "j \<in> set (claim_candidates db n t ts locked)"
    using sub that by auto
qed

lemma jobs_inv_claim [inv_intros]:
  assumes inv: "jobs_inv db"
  shows "jobs_inv (snd (claim db w n t ts locked))"
  unfolding claim_def
proof (rule claim_rows_inv [OF inv claim_candidates_props(1,2) [OF inv]])
  fix j assume "j \<in> set (claim_candidates db n t ts locked)"
  then have "claimable t ts locked j" by (rule claim_candidates_props(3) [OF inv])
  then show "j_status j \<noteq> RUNNING" by (auto simp: claimable_def)
qed

lemma jobs_inv_insert:
  assumes inv: "jobs_inv db" and new: "find_row (same_key jt key) (jobs db) = None"
  shows "jobs_inv (snd (insert_job (\<lambda>i. new_job_record i jt key p pr due ma now) db))"
proof -
  have fresh: "next_job_id db \<notin> j_id ` set (jobs db)"
    using jobs_invD(4) [OF inv] by force
  have key: "(jt, key) \<notin> job_key ` set (jobs db)"
    using new by (auto simp: find_row_None_iff same_key_def job_key_def)
  let ?j = "new_job_record (next_job_id db) jt key p pr due ma now"
  have new: "j_id ?j = next_job_id db" "job_key ?j = (jt, key)" "j_attempt_count ?j = 0" "job_ok ?j"
    by (simp_all add: new_job_record_def job_key_def job_ok_def)
  show ?thesis
    using inv fresh key unfolding jobs_inv_def insert_job_def
    by (auto simp: new less_Suc_eq)
qed

lemma jobs_inv_reopen:
  assumes inv: "jobs_inv db" and row: "find_row (same_key jt key) (jobs db) = Some j"
    and failed: "j_status j = FAILED_TERMINAL"
  shows "jobs_inv (db\<lparr>jobs := update_first (same_key jt key) (reopen_job due ra) (jobs db)\<rparr>)"
proof -
  have j: "j \<in> set (jobs db)" "same_key jt key j" using find_row_SomeD [OF row] by simp_all
  have "update_first (same_key jt key) (reopen_job due ra) (jobs db)
      = update_where (same_key jt key) (reopen_job due ra) (jobs db)"
    by (rule update_first_eq_where [where key = job_key])
       (use jobs_invD(2) [OF inv] in \<open>auto simp: same_key_def job_key_def\<close>)
  also have "\<dots> = update_where (\<lambda>r. j_id r = j_id j) (\<lambda>_. reopen_job due ra j) (jobs db)"
  proof -
    have "same_key jt key r \<longleftrightarrow> r = j" "j_id r = j_id j \<longleftrightarrow> r = j" if "r \<in> set (jobs db)" for r
      using that j key_row_unique [OF jobs_invD(2) [OF inv] that j(1)] job_id_unique [OF inv j(1) that]
      by (auto simp: same_key_def job_key_def)
    then show ?thesis by (auto simp: update_where_def intro!: map_cong)
  qed
  finally have eq: "update_first (same_key jt key) (reopen_job due ra) (jobs db) = \<dots>" .
  have "jobs_inv (db\<lparr>jobs := update_where (\<lambda>r. j_id r = j_id j) (\<lambda>_. reopen_job due ra j) (jobs db),
                     attempts := attempts db\<rparr>)"
  proof (rule jobs_inv_replace [OF inv j(1)])
    have ok: "job_ok j" by (rule jobs_invD(5) [OF inv j(1)])
    then show "job_ok (reopen_job due ra j)" using failed by (auto simp: job_ok_def reopen_job_def)
    show "attempt_fits (reopen_job due ra j) a" if "a \<in> set (attempts db)" "at_job_id a = j_id j" for a
      using attempt_fits_own [OF inv j(1) that] failed by (auto simp: attempt_fits_def reopen_job_def)
    show "\<exists>a \<in> set (attempts db). is_current (reopen_job due ra j) a"
      if "0 < j_attempt_count (reopen_job due ra j)"
      using jobs_invD(7) [OF inv j(1)] that
      by (auto simp: is_current_def attempt_of_def reopen_job_def)
  qed (simp_all add: reopen_job_def job_key_def jobs_invD(3) [OF inv])
  then show ?thesis unfolding eq by simp
qed

text \<open>The PostgreSQL upsert and the portable read-then-insert path have the same effect.\<close>

lemma enqueue_portable:
  "enqueue pg db now jt key p pr nb ma rt ra =
     (if ra < 1 then Inl ReopenAttemptsNotPositive
      else case find_row (same_key jt key) (jobs db) of
             None \<Rightarrow> Inr (insert_job (\<lambda>i. new_job_record i jt key p pr (case nb of Some t \<Rightarrow> t | None \<Rightarrow> now) ma now) db)
           | Some j \<Rightarrow>
               (if rt \<and> j_status j = FAILED_TERMINAL
                then Inr (j_id j, db\<lparr>jobs := update_first (same_key jt key)
                            (reopen_job (case nb of Some t \<Rightarrow> t | None \<Rightarrow> now) ra) (jobs db)\<rparr>)
                else Inr (j_id j, db)))"
  by (auto simp: enqueue_def insert_on_conflict_do_nothing_def Let_def split_beta insert_job_def
      split: option.splits)

lemma jobs_inv_enqueue [inv_intros]:
  assumes "jobs_inv db" and "enqueue pg db now jt key p pr nb ma rt ra = Inr (i, db')"
  shows "jobs_inv db'"
proof (cases "find_row (same_key jt key) (jobs db)")
  case None
  then have "(i, db') = insert_job (\<lambda>i. new_job_record i jt key p pr (case nb of Some t \<Rightarrow> t | None \<Rightarrow> now) ma now) db"
    using assms(2) by (simp add: enqueue_portable split: if_splits)
  then show ?thesis using jobs_inv_insert [OF assms(1) None] by (metis snd_conv)
next
  case (Some j)
  then show ?thesis
    using assms jobs_inv_reopen [OF assms(1) Some]
    by (auto simp: enqueue_portable split: if_splits)
qed

subsection \<open>What one call does\<close>

lemma claim_rows_fst: "fst (claim_rows w t js db) = map (\<lambda>j. to_domain (claim_record w t j)) js"
  by (induction js arbitrary: db) (simp_all add: Let_def split_beta)

lemma claim_rows_jobs:
  assumes "distinct (map j_id (jobs db))" and "distinct (map j_id js)" and "set js \<subseteq> set (jobs db)"
  shows "jobs (snd (claim_rows w t js db))
    = map (\<lambda>r. if j_id r \<in> j_id ` set js then claim_record w t r else r) (jobs db)"
  using assms
proof (induction js arbitrary: db)
  case Nil
  then show ?case by simp
next
  case (Cons j js)
  let ?db = "db\<lparr>jobs := update_where (\<lambda>r. j_id r = j_id j) (\<lambda>_. claim_record w t j) (jobs db),
               attempts := attempts db @ [new_attempt w t (claim_record w t j)]\<rparr>"
  have ids: "map j_id (jobs ?db) = map j_id (jobs db)"
    by (simp add: claim_record_def)
  have "set js \<subseteq> set (jobs ?db)" using Cons.prems(2,3) by (simp add: replaced_subset)
  then have IH: "jobs (snd (claim_rows w t js ?db))
      = map (\<lambda>r. if j_id r \<in> j_id ` set js then claim_record w t r else r) (jobs ?db)"
    using Cons.IH [of ?db] Cons.prems(1,2) ids by simp
  have step: "(if j_id (if j_id r = j_id j then claim_record w t j else r) \<in> j_id ` set js
       then claim_record w t (if j_id r = j_id j then claim_record w t j else r)
       else if j_id r = j_id j then claim_record w t j else r)
      = (if j_id r \<in> j_id ` set (j # js) then claim_record w t r else r)" if "r \<in> set (jobs db)" for r
    using that Cons.prems key_row_unique [OF Cons.prems(1) that, of j]
    by (auto simp: claim_record_def)
  show ?case
    using IH step by (simp add: Let_def split_beta update_where_def)
qed

lemma claim_jobs:
  assumes "jobs_inv db"
  shows "jobs (snd (claim db w n t ts locked))
    = map (\<lambda>r. if j_id r \<in> j_id ` set (claim_candidates db n t ts locked) then claim_record w t r else r) (jobs db)"
  unfolding claim_def
  by (rule claim_rows_jobs [OF jobs_invD(1) claim_candidates_props(1,2)]) (use assms in simp_all)

lemma claim_ids: "map d_id (fst (claim db w n t ts locked)) = map j_id (claim_candidates db n t ts locked)"
  by (simp add: claim_def claim_rows_fst to_domain_def claim_record_def)

lemma claimed_running:
  assumes inv: "jobs_inv db" and d: "d \<in> set (fst (claim db w n t ts locked))"
  shows "\<exists>j \<in> set (jobs (snd (claim db w n t ts locked))). d = to_domain j \<and> owned_by (d_id d) w j"
proof -
  obtain j where j: "j \<in> set (claim_candidates db n t ts locked)" "d = to_domain (claim_record w t j)"
    using d by (auto simp: claim_def claim_rows_fst)
  have "claim_record w t j \<in> set (jobs (snd (claim db w n t ts locked)))"
    using j claim_candidates_props(2) [OF inv, of n t ts locked] by (force simp: claim_jobs [OF inv])
  moreover have "owned_by (d_id d) w (claim_record w t j)"
    using j by (simp add: owned_by_def to_domain_def claim_record_def)
  ultimately show ?thesis using j(2) by blast
qed

lemma current_attempt_exists:
  assumes inv: "jobs_inv db" and j: "j \<in> set (jobs db)" "0 < j_attempt_count j"
  shows "\<exists>a. current_attempt db j = Inr a"
  using jobs_invD(7) [OF inv j] find_row_ex [of _ "attempts db" "attempt_of j"]
  by (fastforce simp: current_attempt_def is_current_def)

lemma owned_find:
  assumes inv: "jobs_inv db" and j: "j \<in> set (jobs db)" "owned_by i w j"
  shows "find_row (owned_by i w) (jobs db) = Some j"
  by (rule find_row_unique [where key = j_id]) (use assms jobs_invD(1) in \<open>auto simp: owned_by_def\<close>)

lemma reclaim_rows_current:
  assumes "jobs_inv db" and "distinct (map j_id js)" and "set js \<subseteq> set (jobs db)"
    and "\<And>j. j \<in> set js \<Longrightarrow> 0 < j_attempt_count j"
  shows "\<exists>db'. reclaim_rows t js db = Inr db' \<and>
           jobs db' = map (\<lambda>r. if j_id r \<in> j_id ` set js then reclaim_record t r else r) (jobs db)"
  using assms
proof (induction js arbitrary: db)
  case Nil
  then show ?case by simp
next
  case (Cons j js)
  let ?db = "db\<lparr>jobs := update_where (\<lambda>r. j_id r = j_id j) (\<lambda>_. reclaim_record t j) (jobs db),
               attempts := update_first (attempt_of j)
                 (\<lambda>r. r\<lparr>at_status := RETRY_WAIT, at_completed_at := Some t,
                        at_error := Some ''worker lease expired''\<rparr>) (attempts db)\<rparr>"
  have inv: "jobs_inv ?db"
    by (rule jobs_inv_close)
       (use Cons.prems in \<open>simp_all add: reclaim_record_def job_key_def attempt_key_def\<close>)
  have sub: "set js \<subseteq> set (jobs ?db)" using Cons.prems(2,3) by (simp add: replaced_subset)
  have dist: "distinct (map j_id js)" using Cons.prems(2) by simp
  have pos: "\<And>i. i \<in> set js \<Longrightarrow> 0 < j_attempt_count i" using Cons.prems(4) by simp
  obtain db' where IH: "reclaim_rows t js ?db = Inr db'"
      "jobs db' = map (\<lambda>r. if j_id r \<in> j_id ` set js then reclaim_record t r else r) (jobs ?db)"
    using Cons.IH [OF inv dist sub pos] by blast
  have j: "j \<in> set (jobs db)" using Cons.prems(3) by simp
  obtain a where "current_attempt db j = Inr a"
    using current_attempt_exists [OF Cons.prems(1) j] Cons.prems(4) by auto
  then have "reclaim_rows t (j # js) db = Inr db'" using IH by simp
  moreover have "(if j_id (if j_id r = j_id j then reclaim_record t j else r) \<in> j_id ` set js
       then reclaim_record t (if j_id r = j_id j then reclaim_record t j else r)
       else if j_id r = j_id j then reclaim_record t j else r)
      = (if j_id r \<in> j_id ` set (j # js) then reclaim_record t r else r)" if "r \<in> set (jobs db)" for r
    using that Cons.prems job_id_unique [OF Cons.prems(1) j that]
    by (auto simp: reclaim_record_def)
  ultimately show ?case
    using IH(2) by (simp add: update_where_def)
qed

lemma reclaim_jobs:
  assumes inv: "jobs_inv db"
  shows "\<exists>db'. reclaim_expired db lease t locked
           = Inr (length (filter (lease_expired (t - lease) locked) (jobs db)), db') \<and>
         jobs db' = map (\<lambda>r. if lease_expired (t - lease) locked r then reclaim_record t r else r) (jobs db)"
proof -
  let ?js = "filter (lease_expired (t - lease) locked) (jobs db)"
  have "0 < j_attempt_count j" if "j \<in> set ?js" for j
    using that jobs_invD(5) [OF inv] by (auto simp: lease_expired_def job_ok_def)
  moreover have "set ?js \<subseteq> set (jobs db)" by simp
  ultimately obtain db' where r: "reclaim_rows t ?js db = Inr db'"
      "jobs db' = map (\<lambda>r. if j_id r \<in> j_id ` set ?js then reclaim_record t r else r) (jobs db)"
    using reclaim_rows_current [OF inv distinct_filter_ids [OF inv]] by blast
  have "j_id r \<in> j_id ` set ?js \<longleftrightarrow> lease_expired (t - lease) locked r" if "r \<in> set (jobs db)" for r
  proof
    assume "j_id r \<in> j_id ` set ?js"
    then obtain j where "j \<in> set ?js" "j_id j = j_id r" by auto
    then show "lease_expired (t - lease) locked r" using job_id_unique [OF inv that, of j] by simp
  qed (use that in simp)
  then have "jobs db' = map (\<lambda>r. if lease_expired (t - lease) locked r then reclaim_record t r else r) (jobs db)"
    unfolding r(2) by (intro map_cong) simp_all
  then show ?thesis using r(1) by (simp add: reclaim_expired_def)
qed

subsection \<open>Concurrent workers\<close>

text \<open>
  One step is one committed transaction of some worker, of the reconciliation loop or of a
  producer, with any clock reading; transactions interleave in any order.
\<close>

inductive job_step :: "job_db \<Rightarrow> job_db \<Rightarrow> bool" where
  enqueue: "enqueue pg db now jt key p pr nb ma rt ra = Inr (i, db') \<Longrightarrow> job_step db db'"
| claim: "claim db w n t ts locked = (ds, db') \<Longrightarrow> job_step db db'"
| succeed: "succeed db i w t = Inr db' \<Longrightarrow> job_step db db'"
| fail: "fail db i w e t = Inr (s, db') \<Longrightarrow> job_step db db'"
| renew: "renew_lease db i w t = (b, db') \<Longrightarrow> job_step db db'"
| reclaim: "reclaim_expired db lease t locked = Inr (n, db') \<Longrightarrow> job_step db db'"

inductive job_reachable :: "job_db \<Rightarrow> bool" where
  start: "job_reachable empty_job_db"
| step: "job_reachable db \<Longrightarrow> job_step db db' \<Longrightarrow> job_reachable db'"

inductive_cases job_stepE: "job_step db db'"

lemma job_step_inv: "job_step db db' \<Longrightarrow> jobs_inv db \<Longrightarrow> jobs_inv db'"
proof (induction rule: job_step.induct)
  case (claim db w n t ts locked ds db')
  then show ?case using jobs_inv_claim [of db w n t ts locked] by simp
next
  case (renew db i w t b db')
  then show ?case using jobs_inv_renew [of db i w t] by simp
qed (auto intro: inv_intros)

lemma reachable_inv: "job_reachable db \<Longrightarrow> jobs_inv db"
  by (induction rule: job_reachable.induct) (auto intro: inv_intros job_step_inv)

end
