(* ===== verification/JobProperties.thy ===== *)
theory JobProperties
  imports JobLifecycle
begin

text \<open>
  The properties of the durable job queue, each with a witness on a small concrete queue:
  a job is enqueued at instant 0, claimed by worker \<open>w1\<close>, its lease expires, and the
  reconciliation loop hands it to another worker.
\<close>

subsection \<open>A concrete run\<close>

definition demo_job :: durable_job_record where
  "demo_job = new_job_record 0 SETTLE_MAP ''k'' JNull 100 0 8 0"

definition demo_queue :: job_db where
  "demo_queue = \<lparr>jobs = [demo_job], attempts = [], next_job_id = 1\<rparr>"

definition demo_running :: durable_job_record where
  "demo_running = claim_record ''w1'' 10 demo_job"

definition demo_claimed :: job_db where
  "demo_claimed = \<lparr>jobs = [demo_running], attempts = [new_attempt ''w1'' 10 demo_running], next_job_id = 1\<rparr>"

lemma demo_enqueue: "enqueue True empty_job_db 0 SETTLE_MAP ''k'' JNull 100 None 8 False 3 = Inr (0, demo_queue)"
  by (simp add: enqueue_def insert_on_conflict_do_nothing_def empty_job_db_def insert_job_def
      demo_queue_def demo_job_def)

lemma demo_claim: "claim demo_queue ''w1'' 1 10 [] [] = ([to_domain demo_running], demo_claimed)"
  by (simp add: claim_def claim_candidates_def claimable_def order_limit_def demo_queue_def demo_job_def
      new_job_record_def demo_claimed_def demo_running_def claim_record_def Let_def)

lemma demo_reachable: "job_reachable demo_queue" "job_reachable demo_claimed"
proof -
  show q: "job_reachable demo_queue"
    by (rule job_reachable.step [OF job_reachable.start job_step.enqueue]) (rule demo_enqueue)
  show "job_reachable demo_claimed"
    by (rule job_reachable.step [OF q job_step.claim]) (rule demo_claim)
qed

lemmas demo_defs = demo_claimed_def demo_running_def demo_job_def demo_queue_def claim_record_def
  new_job_record_def new_attempt_def

subsection \<open>Invariant of the tables\<close>

text \<open>C1.  In every state the repository can reach by any interleaving of transactions, a RUNNING
  job is owned by exactly one worker, and among its attempts exactly one is RUNNING: the one
  numbered by the attempt counter and recorded for that worker.\<close>

theorem running_job_has_one_attempt:
  assumes "job_reachable db" and "j \<in> set (jobs db)" and "j_status j = RUNNING"
  shows "\<exists>w a. j_locked_by j = Some w \<and> j_locked_at j \<noteq> None \<and> a \<in> set (attempts db) \<and>
           attempt_of j a \<and> at_worker_id a = w \<and> at_status a = RUNNING \<and>
           (\<forall>b \<in> set (attempts db). at_job_id b = j_id j \<longrightarrow> at_status b = RUNNING \<longrightarrow> b = a)"
proof -
  have inv: "jobs_inv db" using assms(1) by (rule reachable_inv)
  have ok: "job_ok j" by (rule jobs_invD(5) [OF inv assms(2)])
  then obtain w where w: "j_locked_by j = Some w" "j_locked_at j \<noteq> None" "0 < j_attempt_count j"
    using assms(3) by (auto simp: job_ok_def)
  then obtain a where a: "a \<in> set (attempts db)" "is_current j a"
    using jobs_invD(7) [OF inv assms(2)] by blast
  have "b = a" if b: "b \<in> set (attempts db)" "at_job_id b = j_id j" "at_status b = RUNNING" for b
  proof -
    have "attempt_fits j b" using attempt_fits_own [OF inv assms(2) b(1,2)] .
    then have "attempt_key b = attempt_key a"
      using a(2) b by (simp add: attempt_fits_def is_current_def attempt_of_def attempt_key_def)
    then show ?thesis using key_row_unique [OF jobs_invD(3) [OF inv] b(1) a(1)] by simp
  qed
  then show ?thesis using w a assms(3) by (auto simp: is_current_def)
qed

theorem running_job_has_one_attempt_witness:
  "\<exists>w a. j_locked_by demo_running = Some w \<and> j_locked_at demo_running \<noteq> None \<and> a \<in> set (attempts demo_claimed) \<and>
     attempt_of demo_running a \<and> at_worker_id a = w \<and> at_status a = RUNNING \<and>
     (\<forall>b \<in> set (attempts demo_claimed). at_job_id b = j_id demo_running \<longrightarrow> at_status b = RUNNING \<longrightarrow> b = a)"
  by (rule running_job_has_one_attempt [OF demo_reachable(2)]) (simp_all add: demo_defs)

text \<open>Closing the current attempt of an owned job leaves no attempt of the job running.\<close>

lemma owned_attempt:
  assumes inv: "jobs_inv db" and j: "j \<in> set (jobs db)" "owned_by (j_id j) w j"
  obtains a where "current_attempt db j = Inr a" "a \<in> set (attempts db)" "attempt_of j a" "at_worker_id a = w"
    "\<And>b. b \<in> set (attempts db) \<Longrightarrow> at_job_id b = j_id j \<Longrightarrow> at_status b = RUNNING \<Longrightarrow> attempt_of j b"
proof -
  have "0 < j_attempt_count j" using j jobs_invD(5) [OF inv j(1)] by (simp add: job_ok_def owned_by_def)
  then obtain a b where a: "current_attempt db j = Inr a" and b: "b \<in> set (attempts db)" "is_current j b"
    using current_attempt_exists [OF inv j(1)] jobs_invD(7) [OF inv j(1)] by blast
  have a': "a \<in> set (attempts db)" "attempt_of j a"
    using a by (auto simp: current_attempt_def split: option.splits dest: find_row_SomeD)
  have "attempt_key a = attempt_key b" using a'(2) b(2) by (simp add: is_current_def attempt_of_def attempt_key_def)
  then have "a = b" by (rule key_row_unique [OF jobs_invD(3) [OF inv] a'(1) b(1)])
  then have "at_worker_id a = w" using b(2) j(2) by (auto simp: is_current_def owned_by_def)
  moreover have "attempt_of j c" if "c \<in> set (attempts db)" "at_job_id c = j_id j" "at_status c = RUNNING" for c
    using attempt_fits_own [OF inv j(1) that(1,2)] that by (simp add: attempt_fits_def attempt_of_def)
  ultimately show thesis using that a a' by blast
qed

definition attempt_closed :: "job_db \<Rightarrow> durable_job_record \<Rightarrow> string \<Rightarrow> job_status \<Rightarrow> time \<Rightarrow> string option \<Rightarrow> bool" where
  "attempt_closed db j w s t e \<longleftrightarrow>
     (\<exists>a \<in> set (attempts db). attempt_of j a \<and> at_worker_id a = w \<and> at_status a = s \<and> at_completed_at a = Some t \<and>
        (e = None \<or> at_error a = e)) \<and>
     (\<forall>a \<in> set (attempts db). at_job_id a = j_id j \<longrightarrow> at_status a \<noteq> RUNNING)"

lemma attempt_closedI:
  assumes inv: "jobs_inv db" and j: "j \<in> set (jobs db)" "owned_by (j_id j) w j"
    and as: "attempts db' = update_first (attempt_of j) f (attempts db)" and s: "s \<noteq> RUNNING"
    and f: "\<And>a. at_job_id (f a) = at_job_id a" "\<And>a. at_attempt_number (f a) = at_attempt_number a" "\<And>a. at_worker_id (f a) = at_worker_id a"
      "\<And>a. at_status (f a) = s" "\<And>a. at_completed_at (f a) = Some t" "\<And>a. e = None \<or> at_error (f a) = e"
  shows "attempt_closed db' j w s t e"
proof -
  obtain a where a: "current_attempt db j = Inr a" "a \<in> set (attempts db)" "attempt_of j a" "at_worker_id a = w"
    "\<And>b. b \<in> set (attempts db) \<Longrightarrow> at_job_id b = j_id j \<Longrightarrow> at_status b = RUNNING \<Longrightarrow> attempt_of j b"
    by (rule owned_attempt [OF inv j]) blast
  have "find_row (attempt_of j) (attempts db) = Some a" using a(1) by (simp add: current_attempt_def split: option.splits)
  then have "f a \<in> set (attempts db')" unfolding as by (rule in_update_first_new)
  moreover have "attempt_of j (f a)" using a(3) by (simp add: attempt_of_def f)
  moreover have "at_status b \<noteq> RUNNING" if b: "b \<in> set (attempts db')" "at_job_id b = j_id j" for b
  proof
    assume run: "at_status b = RUNNING"
    have eq: "attempts db' = update_where (attempt_of j) f (attempts db)"
      unfolding as by (rule update_first_eq_where [where key = attempt_key])
        (use jobs_invD(3) [OF inv] in \<open>auto simp: attempt_of_def attempt_key_def\<close>)
    then obtain c where c: "c \<in> set (attempts db)" "b = (if attempt_of j c then f c else c)"
      using b(1) by (auto simp: update_where_def)
    then show False using run s b(2) f(4) a(5) [OF c(1)] by (auto split: if_splits)
  qed
  ultimately show ?thesis using a(4) f(3-6) unfolding attempt_closed_def by (intro conjI bexI [of _ "f a"]) auto
qed

text \<open>C4.  The job attempt record a worker needs to finish its job is never missing: in every
  reachable state the owner of a RUNNING job can complete it and can fail it, and the "job attempt
  record is missing" error cannot occur.  Either way the lease is released and the attempt of this
  worker is closed with the outcome, the instant and, for a failure, the error, so that no attempt
  of the job is left RUNNING; a failure is terminal exactly when the attempts are used up.\<close>

theorem owner_can_finish:
  assumes "job_reachable db" and "j \<in> set (jobs db)" and "owned_by (j_id j) w j"
  shows "(\<exists>db'. succeed db (j_id j) w t = Inr db' \<and>
            (\<exists>j' \<in> set (jobs db'). j_id j' = j_id j \<and> j_status j' = SUCCEEDED \<and> j_completed_at j' = Some t \<and>
               j_locked_by j' = None \<and> j_locked_at j' = None) \<and>
            attempt_closed db' j w SUCCEEDED t None) \<and>
         (\<exists>s db'. fail db (j_id j) w e t = Inr (s, db') \<and>
            s = (if j_max_attempts j \<le> j_attempt_count j then FAILED_TERMINAL else RETRY_WAIT) \<and>
            (\<exists>j' \<in> set (jobs db'). j_id j' = j_id j \<and> j_status j' = s \<and> j_last_error j' = Some e \<and>
               j_locked_by j' = None \<and> j_locked_at j' = None) \<and>
            attempt_closed db' j w s t (Some e))"
proof -
  have inv: "jobs_inv db" using assms(1) by (rule reachable_inv)
  have row: "find_row (owned_by (j_id j) w) (jobs db) = Some j" by (rule owned_find [OF inv assms(2,3)])
  then have own: "owned_job db (j_id j) w = Inr j" by (simp add: owned_job_def)
  obtain a where a: "current_attempt db j = Inr a" by (rule owned_attempt [OF inv assms(2,3)])
  have new: "f j \<in> set (update_first (owned_by (j_id j) w) f (jobs db))" for f
    by (rule in_update_first_new [OF row])
  let ?done = "\<lambda>r. r\<lparr>j_status := SUCCEEDED, j_completed_at := Some t, j_locked_by := None, j_locked_at := None\<rparr>"
  let ?failed = "fail_record (j_max_attempts j \<le> j_attempt_count j) e t"
  define s where "s = (if j_max_attempts j \<le> j_attempt_count j then FAILED_TERMINAL else RETRY_WAIT)"
  obtain db1 where db1: "succeed db (j_id j) w t = Inr db1" "jobs db1 = update_first (owned_by (j_id j) w) ?done (jobs db)"
      "attempts db1 = update_first (attempt_of j) (\<lambda>r. r\<lparr>at_status := SUCCEEDED, at_completed_at := Some t\<rparr>) (attempts db)"
    using own a by (simp add: succeed_def)
  obtain db2 where db2: "fail db (j_id j) w e t = Inr (s, db2)" "jobs db2 = update_first (owned_by (j_id j) w) ?failed (jobs db)"
      "attempts db2 = update_first (attempt_of j) (\<lambda>r. r\<lparr>at_status := s, at_completed_at := Some t, at_error := Some e\<rparr>) (attempts db)"
    using own a by (simp add: fail_def Let_def s_def)
  have "attempt_closed db1 j w SUCCEEDED t None"
    by (rule attempt_closedI [OF inv assms(2,3) db1(3)]) simp_all
  moreover have "attempt_closed db2 j w s t (Some e)"
    by (rule attempt_closedI [OF inv assms(2,3) db2(3)]) (simp_all add: s_def)
  moreover have "?failed j \<in> set (jobs db2)" "?done j \<in> set (jobs db1)" unfolding db1(2) db2(2) by (rule new)+
  moreover have "j_id (?failed j) = j_id j" "j_status (?failed j) = s" "j_last_error (?failed j) = Some e"
      "j_locked_by (?failed j) = None" "j_locked_at (?failed j) = None"
    by (simp_all add: fail_record_def s_def Let_def)
  ultimately show ?thesis unfolding s_def [symmetric]
    by (intro conjI exI [of _ db1] exI [of _ s] exI [of _ db2] bexI [of _ "?done j"] bexI [of _ "?failed j"] db1(1) db2(1)) simp_all
qed

theorem owner_can_finish_witness:
  "(\<exists>db'. succeed demo_claimed 0 ''w1'' 20 = Inr db' \<and> attempt_closed db' demo_running ''w1'' SUCCEEDED 20 None) \<and>
   (\<exists>db'. fail demo_claimed 0 ''w1'' ''boom'' 20 = Inr (RETRY_WAIT, db') \<and>
      attempt_closed db' demo_running ''w1'' RETRY_WAIT 20 (Some ''boom''))"
proof -
  have "demo_running \<in> set (jobs demo_claimed)" "owned_by (j_id demo_running) ''w1'' demo_running" "j_id demo_running = 0"
      "\<not> j_max_attempts demo_running \<le> j_attempt_count demo_running"
    by (simp_all add: demo_defs owned_by_def)
  then show ?thesis using owner_can_finish [OF demo_reachable(2), of demo_running "''w1''" 20 "''boom''"] by auto
qed

text \<open>C2.  A worker whose lease was reclaimed has lost the job for good: it can neither complete
  nor fail nor renew it, not even after another worker has claimed it, and its attempts to do so
  change nothing.\<close>

theorem lost_lease_is_final:
  assumes "job_reachable db" and "j \<in> set (jobs db)" and "owned_by (j_id j) w j"
    and "lease_expired (t - lease) locked j"
    and "reclaim_expired db lease t locked = Inr (n, db1)"
    and "claim db1 w2 limit t2 ts locked2 = (ds, db2)" and "w2 \<noteq> w"
  shows "succeed db2 (j_id j) w t3 = Inl JobNotOwned \<and> fail db2 (j_id j) w e t3 = Inl JobNotOwned \<and>
         renew_lease db2 (j_id j) w t3 = (False, db2)"
proof -
  have inv: "jobs_inv db" using assms(1) by (rule reachable_inv)
  have db1: "jobs db1 = map (\<lambda>r. if lease_expired (t - lease) locked r then reclaim_record t r else r) (jobs db)"
    using reclaim_jobs [OF inv, of lease t locked] assms(5) by auto
  have inv1: "jobs_inv db1" by (rule jobs_inv_reclaim [OF inv assms(5)])
  have free: "j_locked_by r = None" if r: "r \<in> set (jobs db1)" "j_id r = j_id j" for r
  proof -
    from r(1) obtain q where q: "q \<in> set (jobs db)"
        "r = (if lease_expired (t - lease) locked q then reclaim_record t q else q)" by (auto simp: db1)
    then have "j_id q = j_id j" using r(2) by (auto simp: reclaim_record_def split: if_splits)
    then have "q = j" by (rule job_id_unique [OF inv assms(2) q(1)])
    then show ?thesis using q assms(4) by (simp add: reclaim_record_def)
  qed
  have db2: "jobs db2 = map (\<lambda>r. if j_id r \<in> j_id ` set (claim_candidates db1 limit t2 ts locked2)
                                 then claim_record w2 t2 r else r) (jobs db1)"
    using claim_jobs [OF inv1, of w2 limit t2 ts locked2] assms(6) by simp
  have none: "\<not> owned_by (j_id j) w r" if r: "r \<in> set (jobs db2)" for r
  proof
    assume own: "owned_by (j_id j) w r"
    from r obtain q where q: "q \<in> set (jobs db1)" "r = q \<or> r = claim_record w2 t2 q" by (auto simp: db2)
    then have "j_id q = j_id j" using own by (auto simp: owned_by_def claim_record_def)
    then show False using q own free [OF q(1)] assms(7) by (auto simp: owned_by_def claim_record_def)
  qed
  then have "find_row (owned_by (j_id j) w) (jobs db2) = None" by (simp add: find_row_None_iff)
  moreover have "update_where (owned_by (j_id j) w) f (jobs db2) = jobs db2" for f
    using none by (simp add: update_where_def map_idI)
  ultimately show ?thesis
    by (simp add: succeed_def fail_def renew_lease_def owned_job_def)
qed

theorem lost_lease_is_final_witness:
  "succeed (snd (claim (snd (projr (reclaim_expired demo_claimed 5 100 []))) ''w2'' 1 100 [] [])) 0 ''w1'' 101
     = Inl JobNotOwned"
proof -
  obtain n db1 where r: "reclaim_expired demo_claimed 5 100 [] = Inr (n, db1)"
    using reclaim_jobs [OF reachable_inv [OF demo_reachable(2)], of 5 100 "[]"] by blast
  obtain ds db2 where c: "claim db1 ''w2'' 1 100 [] [] = (ds, db2)" by (cases "claim db1 ''w2'' 1 100 [] []")
  have "succeed db2 (j_id demo_running) ''w1'' 101 = Inl JobNotOwned"
    using lost_lease_is_final [OF demo_reachable(2) _ _ _ r c, of demo_running "''w1''"]
    by (simp add: demo_defs owned_by_def lease_expired_def)
  then show ?thesis using r c by (simp add: demo_defs)
qed

subsection \<open>Claiming\<close>

text \<open>C3.  Claiming is exclusive and ordered: at most \<open>limit\<close> jobs are returned, each was due,
  PENDING or RETRY_WAIT and of a requested type and is now RUNNING for this worker; no due job left
  behind comes before a claimed one in (priority, creation) order; and a claim by any other worker
  right after returns none of them.\<close>

theorem claim_is_exclusive_and_ordered:
  assumes "job_reachable db" and "claim db w n t ts locked = (ds, db1)"
  shows "length ds \<le> n \<and> distinct (map d_id ds) \<and> sorted (map (\<lambda>d. (d_priority d, d_created_at d)) ds) \<and>
         (\<forall>d \<in> set ds. d_not_before d \<le> t \<and> (ts = [] \<or> d_job_type d \<in> set ts) \<and> d_locked_by d = Some w \<and>
            (\<exists>j \<in> set (jobs db). j_id j = d_id d \<and> claimable t ts locked j \<and>
               d_attempt_count d = j_attempt_count j + 1)) \<and>
         (\<forall>d \<in> set ds. \<forall>j \<in> set (jobs db). claimable t ts locked j \<longrightarrow> j_id j \<notin> d_id ` set ds \<longrightarrow>
            (d_priority d, d_created_at d) \<le> (j_priority j, j_created_at j)) \<and>
         set (map d_id ds) \<inter> set (map d_id (fst (claim db1 w2 n2 t2 ts2 locked2))) = {}"
proof -
  let ?cs = "claim_candidates db n t ts locked" and ?f = "\<lambda>j. to_domain (claim_record w t j)"
  have inv: "jobs_inv db" using assms(1) by (rule reachable_inv)
  have ds: "ds = map ?f ?cs" using assms(2) by (metis claim_def claim_rows_fst fst_conv)
  have keys: "(d_priority (?f j), d_created_at (?f j)) = (j_priority j, j_created_at j)" "d_id (?f j) = j_id j" for j
    by (simp_all add: to_domain_def claim_record_def)
  have cand: "claimable t ts locked j \<and> j \<in> set (jobs db)" if "j \<in> set ?cs" for j
    using that claim_candidates_props(2,3) [OF inv] by blast
  have 1: "length ds \<le> n" by (simp add: ds claim_candidates_def length_order_limit)
  have 2: "distinct (map d_id ds)" using claim_candidates_props(1) [OF inv] by (simp add: ds keys comp_def)
  have 3: "sorted (map (\<lambda>d. (d_priority d, d_created_at d)) ds)"
    using sorted_order_limit [of "\<lambda>j. (j_priority j, j_created_at j)" n "filter (claimable t ts locked) (jobs db)"]
    by (simp add: ds comp_def keys claim_candidates_def)
  have 4: "\<forall>d \<in> set ds. d_not_before d \<le> t \<and> (ts = [] \<or> d_job_type d \<in> set ts) \<and> d_locked_by d = Some w \<and>
      (\<exists>j \<in> set (jobs db). j_id j = d_id d \<and> claimable t ts locked j \<and> d_attempt_count d = j_attempt_count j + 1)"
    using cand by (force simp: ds to_domain_def claim_record_def claimable_def)
  have 5: "\<forall>d \<in> set ds. \<forall>j \<in> set (jobs db). claimable t ts locked j \<longrightarrow> j_id j \<notin> d_id ` set ds \<longrightarrow>
      (d_priority d, d_created_at d) \<le> (j_priority j, j_created_at j)"
  proof (intro ballI impI)
    fix d j assume d: "d \<in> set ds" and j: "j \<in> set (jobs db)" "claimable t ts locked j" "j_id j \<notin> d_id ` set ds"
    from d obtain c where c: "c \<in> set ?cs" "d = ?f c" by (auto simp: ds)
    have "j \<notin> set ?cs" using j(3) by (force simp: ds keys)
    then have "(j_priority c, j_created_at c) \<le> (j_priority j, j_created_at j)"
      using order_limit_least [of c "\<lambda>j. (j_priority j, j_created_at j)" n "filter (claimable t ts locked) (jobs db)" j]
        c(1) j by (simp add: claim_candidates_def)
    then show "(d_priority d, d_created_at d) \<le> (j_priority j, j_created_at j)" using c(2) keys by simp
  qed
  have inv1: "jobs_inv db1" using jobs_inv_claim [OF inv, of w n t ts locked] assms(2) by simp
  have 6: "set (map d_id ds) \<inter> set (map d_id (fst (claim db1 w2 n2 t2 ts2 locked2))) = {}"
  proof (rule ccontr)
    assume "set (map d_id ds) \<inter> set (map d_id (fst (claim db1 w2 n2 t2 ts2 locked2))) \<noteq> {}"
    then obtain d k where dk: "d \<in> set ds" "k \<in> set (claim_candidates db1 n2 t2 ts2 locked2)" "j_id k = d_id d"
      unfolding claim_ids by (auto simp: image_iff) metis
    obtain j where j: "j \<in> set (jobs db1)" "owned_by (d_id d) w j"
      using claimed_running [OF inv, of d w n t ts locked] dk(1) assms(2) by auto
    have k: "k \<in> set (jobs db1)" "claimable t2 ts2 locked2 k"
      using dk(2) claim_candidates_props(2,3) [OF inv1] by blast+
    have "k = j" using job_id_unique [OF inv1 j(1) k(1)] dk(3) j(2) by (simp add: owned_by_def)
    then show False using j(2) k(2) by (auto simp: owned_by_def claimable_def)
  qed
  show ?thesis using 1 2 3 4 5 6 by blast
qed

theorem claim_is_exclusive_and_ordered_witness:
  "set (map d_id [to_domain demo_running]) \<inter> set (map d_id (fst (claim demo_claimed ''w2'' 1 10 [] []))) = {} \<and>
   length [to_domain demo_running] \<le> 1"
  using claim_is_exclusive_and_ordered [OF demo_reachable(1) demo_claim, of "''w2''" 1 10 "[]" "[]"] by blast

subsection \<open>Retries\<close>

lemma retry_delay_bounds: "micros 1 \<le> retry_delay n \<and> retry_delay n \<le> micros 300"
proof -
  have "(1::int) \<le> 2 ^ nat (max (n - 1) 0)" by simp
  then show ?thesis by (simp add: retry_delay_def micros_def)
qed

lemma retry_delay_mono: "m \<le> n \<Longrightarrow> retry_delay m \<le> retry_delay n"
proof -
  assume "m \<le> n"
  then have "(2::int) ^ nat (max (m - 1) 0) \<le> 2 ^ nat (max (n - 1) 0)"
    by (intro power_increasing nat_mono) auto
  then have "min ((2::int) ^ nat (max (m - 1) 0)) 300 \<le> min (2 ^ nat (max (n - 1) 0)) 300" by linarith
  then show ?thesis by (simp add: retry_delay_def micros_def)
qed

text \<open>A failed attempt ends in FAILED_TERMINAL exactly when the attempts are used up, and is
  then never claimed again; otherwise the job waits between 1 and 300 seconds, doubling with each
  attempt, and no worker can claim it before that delay has passed.\<close>

theorem fail_backs_off:
  assumes "job_reachable db" and "fail db i w e t = Inr (s, db')"
  shows "\<exists>j \<in> set (jobs db). \<exists>j' \<in> set (jobs db'). owned_by i w j \<and> j_id j' = i \<and> j_status j' = s \<and>
           j_attempt_count j' = j_attempt_count j \<and> j_last_error j' = Some e \<and>
           (s = FAILED_TERMINAL \<longleftrightarrow> j_max_attempts j \<le> j_attempt_count j) \<and>
           (s = FAILED_TERMINAL \<longrightarrow> (\<forall>t' ts locked. \<not> claimable t' ts locked j')) \<and>
           (s \<noteq> FAILED_TERMINAL \<longrightarrow>
              j_not_before j' = t + retry_delay (j_attempt_count j) \<and>
              micros 1 \<le> retry_delay (j_attempt_count j) \<and> retry_delay (j_attempt_count j) \<le> micros 300 \<and>
              (\<forall>t' ts locked. t' < t + retry_delay (j_attempt_count j) \<longrightarrow> \<not> claimable t' ts locked j'))"
proof -
  obtain j where j: "owned_job db i w = Inr j" using assms(2) by (auto simp: fail_def split: sum.splits)
  then obtain row: "find_row (owned_by i w) (jobs db) = Some j" "j \<in> set (jobs db)" "owned_by i w j"
    by (rule owned_jobE)
  let ?terminal = "j_max_attempts j \<le> j_attempt_count j"
  let ?j' = "fail_record ?terminal e t j"
  have s: "s = (if ?terminal then FAILED_TERMINAL else RETRY_WAIT)"
    and jobs: "jobs db' = update_first (owned_by i w) (fail_record ?terminal e t) (jobs db)"
    using assms(2) j by (auto simp: fail_def Let_def split: sum.splits)
  have "?j' \<in> set (jobs db')" unfolding jobs by (rule in_update_first_new [OF row(1)])
  moreover have "j_id ?j' = i" "j_status ?j' = s" "j_attempt_count ?j' = j_attempt_count j" "j_last_error ?j' = Some e"
    using row(3) by (simp_all add: fail_record_def Let_def s owned_by_def)
  moreover have "\<not> ?terminal \<Longrightarrow> j_not_before ?j' = t + retry_delay (j_attempt_count j)"
    by (simp add: fail_record_def Let_def)
  ultimately show ?thesis
    using row(2,3) retry_delay_bounds [of "j_attempt_count j"]
    by (intro bexI [of _ j] bexI [of _ ?j']) (auto simp: s claimable_def)
qed

theorem fail_backs_off_witness:
  "\<exists>j' \<in> set (jobs (snd (projr (fail demo_claimed 0 ''w1'' ''boom'' 20)))). j_id j' = 0 \<and> j_status j' = RETRY_WAIT"
proof -
  have f: "fail demo_claimed 0 ''w1'' ''boom'' 20
      = Inr (RETRY_WAIT, snd (projr (fail demo_claimed 0 ''w1'' ''boom'' 20)))"
    by (simp add: fail_def owned_job_def owned_by_def current_attempt_def attempt_of_def demo_defs Let_def)
  show ?thesis using fail_backs_off [OF demo_reachable(2) f] by blast
qed

lemma find_reopen [simp]:
  "find_row (same_key jt key) (update_first (same_key jt key) (reopen_job due ra) t)
     = map_option (reopen_job due ra) (find_row (same_key jt key) t)"
  by (rule find_update_first) (simp add: same_key_def reopen_job_def)

text \<open>The dedupe key makes enqueueing idempotent: a second enqueue of a key returns the
  identifier of the existing job and, unless it reopens a terminally failed one, changes nothing; a
  reopened job is PENDING again with at least \<open>reopen_attempts\<close> attempts left; and there is never
  more than one job for a key.\<close>

theorem enqueue_dedupes:
  assumes "job_reachable db" and "enqueue pg db t jt key p pr nb ma rt ra = Inr (i, db1)"
    and "enqueue pg2 db1 t2 jt key p2 pr2 nb2 ma2 rt2 ra2 = Inr (i2, db2)"
  shows "i2 = i \<and> length (filter (same_key jt key) (jobs db2)) = 1 \<and>
         (\<exists>j \<in> set (jobs db1). j_id j = i \<and> same_key jt key j \<and>
            (if rt2 \<and> j_status j = FAILED_TERMINAL
             then (\<exists>j2 \<in> set (jobs db2). j_id j2 = i \<and> j_status j2 = PENDING \<and>
                     ra2 \<le> j_max_attempts j2 - j_attempt_count j2)
             else db2 = db1))"
proof -
  have inv1: "jobs_inv db1" using jobs_inv_enqueue [OF reachable_inv [OF assms(1)] assms(2)] .
  have inv2: "jobs_inv db2" using jobs_inv_enqueue [OF inv1 assms(3)] .
  have "\<exists>j. find_row (same_key jt key) (jobs db1) = Some j \<and> j_id j = i"
    using assms(2)
    by (auto simp: enqueue_portable insert_job_def new_job_record_def same_key_def reopen_job_def
        split: if_splits option.splits)
  then obtain j where row: "find_row (same_key jt key) (jobs db1) = Some j" "j_id j = i" by blast
  then have j: "j \<in> set (jobs db1)" "same_key jt key j" using find_row_SomeD [OF row(1)] by simp_all
  have i2: "i2 = i" using assms(3) row by (auto simp: enqueue_portable split: if_splits)
  have keep: "\<exists>j2 \<in> set (jobs db2). j_id j2 = i \<and> same_key jt key j2 \<and>
      (if rt2 \<and> j_status j = FAILED_TERMINAL
       then j_status j2 = PENDING \<and> ra2 \<le> j_max_attempts j2 - j_attempt_count j2 else db2 = db1)"
  proof (cases "rt2 \<and> j_status j = FAILED_TERMINAL")
    case True
    let ?due = "case nb2 of None \<Rightarrow> t2 | Some t \<Rightarrow> t"
    have "jobs db2 = update_first (same_key jt key) (reopen_job ?due ra2) (jobs db1)"
      using assms(3) row True by (auto simp: enqueue_portable split: if_splits)
    then have "reopen_job ?due ra2 j \<in> set (jobs db2)" using in_update_first_new [OF row(1)] by simp
    then show ?thesis using True row(2) j(2)
      by (intro bexI [of _ "reopen_job ?due ra2 j"]) (auto simp: reopen_job_def same_key_def)
  next
    case False
    then have "db2 = db1" using assms(3) row by (auto simp: enqueue_portable split: if_splits)
    then show ?thesis using False j row(2) by auto
  qed
  then obtain j2 where j2: "j2 \<in> set (jobs db2)" "same_key jt key j2" by blast
  have "filter (same_key jt key) (jobs db2) = [j2]"
    by (rule filter_unique [where key = job_key])
       (use jobs_invD(2) [OF inv2] j2 in \<open>auto simp: same_key_def job_key_def\<close>)
  then have one: "length (filter (same_key jt key) (jobs db2)) = 1" by simp
  have "if rt2 \<and> j_status j = FAILED_TERMINAL
      then \<exists>j2 \<in> set (jobs db2). j_id j2 = i \<and> j_status j2 = PENDING \<and> ra2 \<le> j_max_attempts j2 - j_attempt_count j2
      else db2 = db1"
    using keep by auto
  then show ?thesis using i2 one j row(2) by blast
qed

theorem enqueue_dedupes_witness:
  "length (filter (same_key SETTLE_MAP ''k'') (jobs demo_queue)) = 1"
proof -
  have "enqueue False demo_queue 5 SETTLE_MAP ''k'' JNull 1 None 8 True 3 = Inr (0, demo_queue)"
    by (simp add: enqueue_portable same_key_def demo_defs)
  then show ?thesis
    using enqueue_dedupes [OF job_reachable.start demo_enqueue, of False 5 JNull 1 None 8 True 3 0 demo_queue]
    by blast
qed

subsection \<open>Lease expiry does not count against the attempt limit\<close>

text \<open>One worker crash: the job is claimed, its lease expires, and it is reclaimed.\<close>

lemma crash_cycle:
  assumes "job_reachable db" and "jobs db = [j]" and "j_status j = PENDING \<or> j_status j = RETRY_WAIT"
  shows "\<exists>db' j'. job_reachable db' \<and> jobs db' = [j'] \<and> j_status j' = RETRY_WAIT \<and>
           j_max_attempts j' = j_max_attempts j \<and> j_attempt_count j' = j_attempt_count j + 1"
proof -
  let ?t = "j_not_before j" and ?c = "claim_record ''w'' (j_not_before j) j"
  obtain ds db1 where c: "claim db ''w'' 1 ?t [] [] = (ds, db1)" by (cases "claim db ''w'' 1 ?t [] []")
  have "claim_candidates db 1 ?t [] [] = [j]"
    using assms(2,3) by (auto simp: claim_candidates_def claimable_def order_limit_def)
  then have j1: "jobs db1 = [?c]"
    using claim_jobs [OF reachable_inv [OF assms(1)], of "''w''" 1 ?t "[]" "[]"] c assms(2) by simp
  have r1: "job_reachable db1" by (rule job_reachable.step [OF assms(1) job_step.claim [OF c]])
  obtain db2 where r: "reclaim_expired db1 0 (?t + 1) [] = Inr (1, db2)" "jobs db2 = [reclaim_record (?t + 1) ?c]"
    using reclaim_jobs [OF reachable_inv [OF r1], of 0 "?t + 1" "[]"]
    by (auto simp: j1 lease_expired_def claim_record_def)
  have "job_reachable db2" by (rule job_reachable.step [OF r1 job_step.reclaim [OF r(1)]])
  then show ?thesis using r(2) by (auto simp: reclaim_record_def claim_record_def)
qed

text \<open>\<open>max_attempts\<close> bounds the retries after a reported failure only: a job whose workers die
  before reporting goes back to RETRY_WAIT each time its lease expires, so for every bound there is
  a reachable state in which a job with the default limit of 8 attempts has made more attempts than
  that bound and will still be claimed again.\<close>

theorem lease_expiry_ignores_max_attempts:
  "\<exists>db j. job_reachable db \<and> jobs db = [j] \<and> j_max_attempts j = 8 \<and> j_attempt_count j = int (n + 1) \<and>
     claimable (j_not_before j) [] [] j"
proof -
  have "\<exists>db j. job_reachable db \<and> jobs db = [j] \<and> j_status j = RETRY_WAIT \<and> j_max_attempts j = 8 \<and>
      j_attempt_count j = int (n + 1)"
  proof (induction n)
    case 0
    show ?case using crash_cycle [OF demo_reachable(1), of demo_job] by (simp add: demo_defs)
  next
    case (Suc n)
    then obtain db j where "job_reachable db" "jobs db = [j]" "j_status j = RETRY_WAIT" "j_max_attempts j = 8"
        "j_attempt_count j = int (n + 1)" by blast
    then show ?case using crash_cycle [of db j] by fastforce
  qed
  then show ?thesis by (auto simp: claimable_def)
qed

end
