(* ===== verification/JobRunner.thy ===== *)
theory JobRunner
  imports JobProperties
begin

text \<open>
  The worker that executes claimed jobs: \<open>JobRunner\<close> of \<open>app/jobs/runner.py\<close>.  The handler and the
  lease-renewal task run concurrently under asyncio; what \<open>_execute\<close> observes of them is an
  argument: how \<open>asyncio.wait\<close> returned, how the renewal task ended when it was still running then,
  and how the handler task ended.  The writes go to the queue as it is at that moment, which
  other workers may have changed since the claim.
\<close>

datatype renewal_result = RenewalReturned | RenewalLost | RenewalError string

text \<open>\<open>asyncio.wait\<close> is cancelled (shutdown), or returns with the renewal task done or not.\<close>

datatype wait_result = WaitCancelled | WaitDone "renewal_result option"

datatype handler_result = HandlerOk | HandlerError string | HandlerCancelled

text \<open>How \<open>_execute\<close> leaves: it returns, a repository error propagates, or the cancellation does.\<close>

datatype exit = Returned | Propagated job_error | CancelledExit

definition mark_failed :: "job_db \<Rightarrow> uuid \<Rightarrow> string \<Rightarrow> string \<Rightarrow> time \<Rightarrow> exit \<times> job_db" where
  "mark_failed db job_id error worker_id t =
     (case fail db job_id worker_id error t of
        Inl e \<Rightarrow> (Propagated e, db)
      | Inr (_, db') \<Rightarrow> (Returned, db'))"

definition mark_succeeded :: "job_db \<Rightarrow> uuid \<Rightarrow> string \<Rightarrow> time \<Rightarrow> exit \<times> job_db" where
  "mark_succeeded db job_id worker_id t =
     (case succeed db job_id worker_id t of
        Inl e \<Rightarrow> (Propagated e, db)
      | Inr db' \<Rightarrow> (Returned, db'))"

text \<open>The variables \<open>lease_lost\<close> and \<open>renewal_error\<close> after the \<open>try\<close>/\<open>finally\<close> of \<open>_execute\<close>: the
  renewal task's result is read in the body when it was done, and in \<open>finally\<close> otherwise.\<close>

definition lease_flags :: "renewal_result option \<Rightarrow> renewal_result \<Rightarrow> bool \<times> string option" where
  "lease_flags in_wait in_finally =
     (case (case in_wait of Some r \<Rightarrow> r | None \<Rightarrow> in_finally) of
        RenewalReturned \<Rightarrow> (False, None)
      | RenewalLost \<Rightarrow> (True, None)
      | RenewalError e \<Rightarrow> (False, Some e))"

definition execute ::
  "job_db \<Rightarrow> durable_job \<Rightarrow> string \<Rightarrow> bool \<Rightarrow> wait_result \<Rightarrow> renewal_result \<Rightarrow> handler_result \<Rightarrow> time \<Rightarrow>
   exit \<times> job_db" where
  "execute db job owner_id has_handler wait in_finally handler t =
     (if \<not> has_handler
      then mark_failed db (d_id job) (''no handler registered for '' @ job_type_value (d_job_type job)) owner_id t
      else case wait of
        WaitCancelled \<Rightarrow>
          (case mark_failed db (d_id job) ''worker shutdown during job execution'' owner_id t of
             (Propagated e, db') \<Rightarrow> (Propagated e, db')
           | (_, db') \<Rightarrow> (CancelledExit, db'))
      | WaitDone in_wait \<Rightarrow>
          (let (lease_lost, renewal_error) = lease_flags in_wait in_finally
           in case renewal_error of
                Some e \<Rightarrow> mark_failed db (d_id job) (''lease renewal failed: '' @ e) owner_id t
              | None \<Rightarrow>
                  (case handler of
                     HandlerCancelled \<Rightarrow> (if lease_lost then (Returned, db) else (CancelledExit, db))
                   | HandlerError e \<Rightarrow>
                       (if lease_lost then (Returned, db) else mark_failed db (d_id job) e owner_id t)
                   | HandlerOk \<Rightarrow>
                       (if lease_lost then (Returned, db) else mark_succeeded db (d_id job) owner_id t))))"

text \<open>One poll of \<open>_renew_lease\<close>: stop when told to, renew otherwise; a renewal that touches no row
  ends the task with \<open>LeaseOwnershipLost\<close>.\<close>

definition renew_poll :: "job_db \<Rightarrow> uuid \<Rightarrow> string \<Rightarrow> bool \<Rightarrow> time \<Rightarrow> renewal_result option \<times> job_db" where
  "renew_poll db job_id worker_id stop_set t =
     (if stop_set then (Some RenewalReturned, db)
      else (let (renewed, db') = renew_lease db job_id worker_id t
            in (if renewed then None else Some RenewalLost, db')))"

definition renewal_interval :: "rat \<Rightarrow> rat" where
  "renewal_interval lease_seconds = max (lease_seconds / 3) 1"

definition worker_name :: "string \<Rightarrow> nat \<Rightarrow> nat \<Rightarrow> string" where
  "worker_name worker_id concurrency index =
     (if concurrency = 1 then worker_id else worker_id @ '':'' @ str_int (int index))"

definition claim_one :: "job_db \<Rightarrow> string \<Rightarrow> job_type list \<Rightarrow> time \<Rightarrow> uuid list \<Rightarrow> durable_job option \<times> job_db" where
  "claim_one db worker_id job_types t locked =
     (let (jobs, db') = claim db worker_id 1 t job_types locked
      in (case jobs of [] \<Rightarrow> None | j # _ \<Rightarrow> Some j, db'))"

subsection \<open>Facts\<close>

lemma fail_not_owned: "find_row (owned_by i w) (jobs db) = None \<Longrightarrow> fail db i w e t = Inl JobNotOwned"
  by (simp add: fail_def owned_job_def)

lemma succeed_not_owned: "find_row (owned_by i w) (jobs db) = None \<Longrightarrow> succeed db i w t = Inl JobNotOwned"
  by (simp add: succeed_def owned_job_def)

lemma mark_failed_owned:
  assumes "jobs_inv db" and "j \<in> set (jobs db)" and "owned_by i w j"
  shows "\<exists>db'. mark_failed db i e w t = (Returned, db') \<and>
           (\<exists>j' \<in> set (jobs db'). j_id j' = i \<and> j_status j' \<in> {RETRY_WAIT, FAILED_TERMINAL} \<and>
              j_last_error j' = Some e)"
proof -
  have row: "find_row (owned_by i w) (jobs db) = Some j" by (rule owned_find [OF assms])
  have "0 < j_attempt_count j"
    using assms(3) jobs_invD(5) [OF assms(1,2)] by (simp add: job_ok_def owned_by_def)
  then obtain a where a: "current_attempt db j = Inr a" using current_attempt_exists [OF assms(1,2)] by blast
  let ?f = "fail_record (j_max_attempts j \<le> j_attempt_count j) e t"
  have "?f j \<in> set (update_first (owned_by i w) ?f (jobs db))" by (rule in_update_first_new [OF row])
  moreover have "j_id (?f j) = i" "j_status (?f j) \<in> {RETRY_WAIT, FAILED_TERMINAL}" "j_last_error (?f j) = Some e"
    using assms(3) by (simp_all add: fail_record_def Let_def owned_by_def)
  ultimately show ?thesis
    using row a by (auto simp: mark_failed_def fail_def owned_job_def Let_def)
qed

lemma mark_succeeded_owned:
  assumes "jobs_inv db" and "j \<in> set (jobs db)" and "owned_by i w j"
  shows "\<exists>db'. mark_succeeded db i w t = (Returned, db') \<and>
           (\<exists>j' \<in> set (jobs db'). j_id j' = i \<and> j_status j' = SUCCEEDED)"
proof -
  have row: "find_row (owned_by i w) (jobs db) = Some j" by (rule owned_find [OF assms])
  have "0 < j_attempt_count j"
    using assms(3) jobs_invD(5) [OF assms(1,2)] by (simp add: job_ok_def owned_by_def)
  then obtain a where a: "current_attempt db j = Inr a" using current_attempt_exists [OF assms(1,2)] by blast
  let ?f = "\<lambda>r. r\<lparr>j_status := SUCCEEDED, j_completed_at := Some t, j_locked_by := None, j_locked_at := None\<rparr>"
  have "?f j \<in> set (update_first (owned_by i w) ?f (jobs db))" by (rule in_update_first_new [OF row])
  then show ?thesis
    using row a assms(3)
    by (auto simp: mark_succeeded_def succeed_def owned_job_def owned_by_def intro!: bexI [of _ "?f j"])
qed

subsection \<open>Properties\<close>

text \<open>A worker that no longer owns its job never writes to the queue: whatever the handler, the
  renewal task and a shutdown do, the queue is left exactly as it is; and once \<open>_execute\<close> has seen
  the loss it returns without an error.\<close>

theorem lost_owner_never_writes:
  assumes "find_row (owned_by (d_id job) owner) (jobs db) = None"
  shows "snd (execute db job owner has_handler wait fin handler t) = db \<and>
         (has_handler \<longrightarrow> fst (execute db job owner has_handler (WaitDone (Some RenewalLost)) fin handler t) = Returned) \<and>
         renew_poll db (d_id job) owner False t = (Some RenewalLost, db)"
proof -
  have keep: "update_where (owned_by (d_id job) owner) f (jobs db) = jobs db" for f
    using assms by (simp add: update_where_def find_row_None_iff map_idI)
  have failed: "mark_failed db (d_id job) e owner t = (Propagated JobNotOwned, db)" for e
    by (simp add: mark_failed_def fail_not_owned [OF assms])
  have succ: "mark_succeeded db (d_id job) owner t = (Propagated JobNotOwned, db)"
    by (simp add: mark_succeeded_def succeed_not_owned [OF assms])
  show ?thesis
    by (simp add: execute_def failed succ lease_flags_def renew_poll_def renew_lease_def assms keep Let_def
        split: wait_result.split option.split renewal_result.split handler_result.split)
qed

theorem lost_owner_never_writes_witness:
  "snd (execute empty_job_db
      (to_domain (new_job_record 7 SETTLE_MAP ''k'' JNull 1 0 8 0)) ''w'' True (WaitDone None) RenewalReturned HandlerOk 5)
     = empty_job_db"
  using lost_owner_never_writes [of "to_domain (new_job_record 7 SETTLE_MAP ''k'' JNull 1 0 8 0)" "''w''" empty_job_db
      True "WaitDone None" RenewalReturned HandlerOk 5]
  by (simp add: empty_job_db_def)

text \<open> While the worker owns the job, \<open>_execute\<close> settles it: a handler that returned makes it
  SUCCEEDED; a handler that raised, a renewal that failed, a shutdown and a job type without a
  handler make it RETRY_WAIT or FAILED_TERMINAL with the reason recorded.  The queue is left alone
  only when the loss of the lease was reported, or when the handler task itself was cancelled.\<close>

theorem owner_settles_job:
  assumes "jobs_inv db" and "j \<in> set (jobs db)" and "owned_by (d_id job) owner j"
    and "(ex, db') = execute db job owner has_handler wait fin handler t"
  shows "(\<exists>j' \<in> set (jobs db'). j_id j' = d_id job \<and>
            (if has_handler \<and> handler = HandlerOk \<and> (\<exists>r. wait = WaitDone r \<and> lease_flags r fin = (False, None))
             then j_status j' = SUCCEEDED
             else j_status j' \<in> {RETRY_WAIT, FAILED_TERMINAL} \<and> j_last_error j' \<noteq> None)) \<or>
         db' = db \<and> has_handler \<and>
         (\<exists>r. wait = WaitDone r \<and> (fst (lease_flags r fin) \<or> snd (lease_flags r fin) = None \<and> handler = HandlerCancelled))"
proof -
  have F: "\<exists>db'. mark_failed db (d_id job) e owner t = (Returned, db') \<and>
      (\<exists>j' \<in> set (jobs db'). j_id j' = d_id job \<and> j_status j' \<in> {RETRY_WAIT, FAILED_TERMINAL} \<and> j_last_error j' = Some e)" for e
    by (rule mark_failed_owned [OF assms(1-3)])
  have S: "\<exists>db'. mark_succeeded db (d_id job) owner t = (Returned, db') \<and>
      (\<exists>j' \<in> set (jobs db'). j_id j' = d_id job \<and> j_status j' = SUCCEEDED)"
    by (rule mark_succeeded_owned [OF assms(1-3)])
  show ?thesis
  proof (cases has_handler)
    case False
    then show ?thesis
      using assms(4) F [of "''no handler registered for '' @ job_type_value (d_job_type job)"]
      by (auto simp: execute_def)
  next
    case handler: True
    show ?thesis
    proof (cases wait)
      case WaitCancelled
      then show ?thesis using handler assms(4) F [of "''worker shutdown during job execution''"]
        by (auto simp: execute_def)
    next
      case (WaitDone r)
      obtain lost err where flags: "lease_flags r fin = (lost, err)" by (cases "lease_flags r fin")
      show ?thesis
      proof (cases err)
        case (Some e)
        then show ?thesis using handler WaitDone flags assms(4) F [of "''lease renewal failed: '' @ e"]
          by (auto simp: execute_def)
      next
        case None
        note env = handler WaitDone flags None assms(4)
        show ?thesis
        proof (cases lost)
          case True
          then show ?thesis using env by (auto simp: execute_def split: handler_result.splits)
        next
          case False
          show ?thesis
          proof (cases handler)
            case HandlerOk
            then show ?thesis using env False S by (auto simp: execute_def)
          next
            case (HandlerError e)
            then show ?thesis using env False F [of e] by (auto simp: execute_def)
          next
            case HandlerCancelled
            then show ?thesis using env False by (auto simp: execute_def)
          qed
        qed
      qed
    qed
  qed
qed

theorem owner_settles_job_witness:
  "\<exists>j' \<in> set (jobs (snd (execute demo_claimed (to_domain demo_running) ''w1'' True (WaitDone None)
       RenewalReturned HandlerOk 20))). j_id j' = 0 \<and> j_status j' = SUCCEEDED"
proof -
  have own: "owned_by (d_id (to_domain demo_running)) ''w1'' demo_running" "demo_running \<in> set (jobs demo_claimed)"
    by (simp_all add: demo_defs owned_by_def to_domain_def)
  obtain ex db' where run: "(ex, db') = execute demo_claimed (to_domain demo_running) ''w1'' True (WaitDone None)
      RenewalReturned HandlerOk 20" by (metis surj_pair)
  have "(\<exists>j' \<in> set (jobs db'). j_id j' = d_id (to_domain demo_running) \<and> j_status j' = SUCCEEDED)"
    using owner_settles_job [OF reachable_inv [OF demo_reachable(2)] own(2,1) run]
    by (simp add: lease_flags_def)
  moreover have "d_id (to_domain demo_running) = 0" by (simp add: to_domain_def demo_defs)
  moreover have "snd (execute demo_claimed (to_domain demo_running) ''w1'' True (WaitDone None)
      RenewalReturned HandlerOk 20) = db'" by (simp add: run [symmetric])
  ultimately show ?thesis by simp
qed

end
