(* ===== verification/JobQueue.thy ===== *)
theory JobQueue
  imports JobLifecycle
begin

text \<open>
  The interface through which the rest of the system schedules work: a request carries the
  arguments the schedulers pass to \<open>JobRepository.enqueue\<close>, the other arguments keep their
  defaults.  The locale \<open>job_queue\<close> states what a scheduler relies on: a request never fails,
  afterwards its key is present, no other key appears or disappears, and a request whose key is
  present changes nothing.  What follows for sequences of requests is proved once, and holds for
  the model of the repository by interpretation.
\<close>

record job_request =
  rq_type :: job_type
  rq_key :: string
  rq_payload :: json
  rq_priority :: int
  rq_not_before :: "time option"

definition request_key :: "job_request \<Rightarrow> job_type \<times> string" where
  "request_key r = (rq_type r, rq_key r)"

definition enqueue_request :: "bool \<Rightarrow> time \<Rightarrow> job_db \<Rightarrow> job_request \<Rightarrow> job_error + job_db" where
  "enqueue_request postgresql now db r =
     (case enqueue postgresql db now (rq_type r) (rq_key r) (rq_payload r) (rq_priority r)
             (rq_not_before r) 8 False 3 of
        Inl e \<Rightarrow> Inl e
      | Inr (_, db') \<Rightarrow> Inr db')"

definition has_job :: "job_db \<Rightarrow> job_type \<times> string \<Rightarrow> bool" where
  "has_job db k \<longleftrightarrow> (\<exists>j \<in> set (jobs db). job_key j = k)"

fun enqueue_all :: "('q \<Rightarrow> job_request \<Rightarrow> 'e + 'q) \<Rightarrow> 'q \<Rightarrow> job_request list \<Rightarrow> 'e + 'q" where
  "enqueue_all enq q [] = Inr q"
| "enqueue_all enq q (r # rs) =
     (case enq q r of Inl e \<Rightarrow> Inl e | Inr q' \<Rightarrow> enqueue_all enq q' rs)"

lemma enqueue_all_append:
  "enqueue_all enq q (rs @ rs') =
     (case enqueue_all enq q rs of Inl e \<Rightarrow> Inl e | Inr q' \<Rightarrow> enqueue_all enq q' rs')"
  by (induction rs arbitrary: q) (auto split: sum.split)

locale job_queue =
  fixes enq :: "'q \<Rightarrow> job_request \<Rightarrow> 'e + 'q"
    and has :: "'q \<Rightarrow> job_type \<times> string \<Rightarrow> bool"
    and ok :: "'q \<Rightarrow> bool"
  assumes enq_total: "\<exists>q'. enq q r = Inr q'"
    and enq_ok: "ok q \<Longrightarrow> enq q r = Inr q' \<Longrightarrow> ok q'"
    and enq_has: "enq q r = Inr q' \<Longrightarrow> has q' k \<longleftrightarrow> has q k \<or> k = request_key r"
    and enq_dedupe: "has q (request_key r) \<Longrightarrow> enq q r = Inr q"
begin

lemma all_total: "\<exists>q'. enqueue_all enq q rs = Inr q'"
proof (induction rs arbitrary: q)
  case (Cons r rs)
  obtain q' where "enq q r = Inr q'" using enq_total by blast
  then show ?case using Cons.IH [of q'] by simp
qed simp

lemma all_ok: "ok q \<Longrightarrow> enqueue_all enq q rs = Inr q' \<Longrightarrow> ok q'"
  by (induction rs arbitrary: q) (auto split: sum.splits dest: enq_ok)

lemma all_has: "enqueue_all enq q rs = Inr q' \<Longrightarrow> has q' k \<longleftrightarrow> has q k \<or> k \<in> request_key ` set rs"
  by (induction rs arbitrary: q) (auto split: sum.splits simp: enq_has)

lemma all_dedupe: "\<forall>r \<in> set rs. has q (request_key r) \<Longrightarrow> enqueue_all enq q rs = Inr q"
  by (induction rs arbitrary: q) (auto simp: enq_dedupe)

lemma all_replay: "enqueue_all enq q rs = Inr q' \<Longrightarrow> enqueue_all enq q' rs = Inr q'"
  by (rule all_dedupe) (simp add: all_has)

end

lemma same_key_iff: "same_key (fst k) (snd k) j \<longleftrightarrow> job_key j = k"
  by (cases k) (auto simp: same_key_def job_key_def)

lemma has_job_find: "has_job db (jt, key) \<longleftrightarrow> find_row (same_key jt key) (jobs db) \<noteq> None"
  by (auto simp: has_job_def find_row_None_iff same_key_def job_key_def)

lemma enqueue_request_eq:
  "enqueue_request pg now db r =
     (if has_job db (request_key r) then Inr db
      else Inr (snd (insert_job (\<lambda>i. new_job_record i (rq_type r) (rq_key r) (rq_payload r) (rq_priority r)
                   (case rq_not_before r of Some t \<Rightarrow> t | None \<Rightarrow> now) 8 now) db)))"
  by (cases "find_row (same_key (rq_type r) (rq_key r)) (jobs db)")
    (simp_all add: enqueue_request_def enqueue_portable has_job_find request_key_def insert_job_def)

lemma has_job_insert:
  "has_job (snd (insert_job mk db)) k \<longleftrightarrow> has_job db k \<or> job_key (mk (next_job_id db)) = k"
  by (auto simp: has_job_def insert_job_def)

interpretation jq: job_queue "enqueue_request pg now" has_job jobs_inv
proof unfold_locales
  show "\<exists>q'. enqueue_request pg now q r = Inr q'" for q r
    by (simp add: enqueue_request_eq)
  show "jobs_inv q'" if "jobs_inv q" "enqueue_request pg now q r = Inr q'" for q r q'
    using that by (auto simp: enqueue_request_def split: sum.splits intro: jobs_inv_enqueue)
  show "has_job q' k \<longleftrightarrow> has_job q k \<or> k = request_key r" if "enqueue_request pg now q r = Inr q'" for q r q' k
    using that by (auto simp: enqueue_request_eq has_job_insert split: if_splits)
      (auto simp: new_job_record_def job_key_def request_key_def)
  show "enqueue_request pg now q r = Inr q" if "has_job q (request_key r)" for q r
    using that by (simp add: enqueue_request_eq)
qed

text \<open>Jobs that are in the queue are not touched by scheduling.\<close>

lemma enqueue_request_keeps: "enqueue_request pg now db r = Inr db' \<Longrightarrow> set (jobs db) \<subseteq> set (jobs db')"
  by (auto simp: enqueue_request_eq insert_job_def split: if_splits)

lemma enqueue_all_keeps:
  "enqueue_all (enqueue_request pg now) db rs = Inr db' \<Longrightarrow> set (jobs db) \<subseteq> set (jobs db')"
  by (induction rs arbitrary: db) (auto split: sum.splits dest!: enqueue_request_keeps)

end
