(* ===== verification/Events.thy ===== *)
theory Events
  imports JobQueue
begin

text \<open>
  Domain events: \<open>app/domain/events.py\<close>, the tables \<open>domain_events\<close> and \<open>outbox_events\<close> of
  \<open>app/models.py\<close>, \<open>EventRepository\<close> of \<open>app/events/outbox.py\<close>, the two dispatchers of
  \<open>app/events/dispatcher.py\<close> and the AI job keys of \<open>app/ai/jobs.py\<close>.  The set of AI experiments
  the runtime configuration has active, the publisher of the outbox and the snapshots the
  dispatcher reads are arguments.
\<close>

subsection \<open>Data\<close>

datatype domain_event_type =
  MARKET_DISCOVERED | ODDS_REGISTRY_REFRESH_REQUIRED | DLTV_MATCH_DISCOVERED
| DLTV_MATCH_RESOLVED | DRAFT_CONFIRMED | MAP_STARTED
| DECISION_CHECKPOINT_DUE | SIGNIFICANT_ODDS_MOVE | MARKET_REOPENED
| MAP_ENDED | BASIC_RESULT_READY | ADVANCED_RESULT_READY
| SNAPSHOT_BUILD_REQUESTED | AI_DECISION_REQUESTED | FUTURE_ODDS_CAPTURE_DUE
| SETTLEMENT_REQUIRED | EVALUATION_REQUIRED

fun event_type_value :: "domain_event_type \<Rightarrow> string" where
  "event_type_value MARKET_DISCOVERED = ''MARKET_DISCOVERED''"
| "event_type_value ODDS_REGISTRY_REFRESH_REQUIRED = ''ODDS_REGISTRY_REFRESH_REQUIRED''"
| "event_type_value DLTV_MATCH_DISCOVERED = ''DLTV_MATCH_DISCOVERED''"
| "event_type_value DLTV_MATCH_RESOLVED = ''DLTV_MATCH_RESOLVED''"
| "event_type_value DRAFT_CONFIRMED = ''DRAFT_CONFIRMED''"
| "event_type_value MAP_STARTED = ''MAP_STARTED''"
| "event_type_value DECISION_CHECKPOINT_DUE = ''DECISION_CHECKPOINT_DUE''"
| "event_type_value SIGNIFICANT_ODDS_MOVE = ''SIGNIFICANT_ODDS_MOVE''"
| "event_type_value MARKET_REOPENED = ''MARKET_REOPENED''"
| "event_type_value MAP_ENDED = ''MAP_ENDED''"
| "event_type_value BASIC_RESULT_READY = ''BASIC_RESULT_READY''"
| "event_type_value ADVANCED_RESULT_READY = ''ADVANCED_RESULT_READY''"
| "event_type_value SNAPSHOT_BUILD_REQUESTED = ''SNAPSHOT_BUILD_REQUESTED''"
| "event_type_value AI_DECISION_REQUESTED = ''AI_DECISION_REQUESTED''"
| "event_type_value FUTURE_ODDS_CAPTURE_DUE = ''FUTURE_ODDS_CAPTURE_DUE''"
| "event_type_value SETTLEMENT_REQUIRED = ''SETTLEMENT_REQUIRED''"
| "event_type_value EVALUATION_REQUIRED = ''EVALUATION_REQUIRED''"

definition event_types :: "domain_event_type list" where
  "event_types =
     [MARKET_DISCOVERED, ODDS_REGISTRY_REFRESH_REQUIRED, DLTV_MATCH_DISCOVERED,
      DLTV_MATCH_RESOLVED, DRAFT_CONFIRMED, MAP_STARTED,
      DECISION_CHECKPOINT_DUE, SIGNIFICANT_ODDS_MOVE, MARKET_REOPENED,
      MAP_ENDED, BASIC_RESULT_READY, ADVANCED_RESULT_READY,
      SNAPSHOT_BUILD_REQUESTED, AI_DECISION_REQUESTED, FUTURE_ODDS_CAPTURE_DUE,
      SETTLEMENT_REQUIRED, EVALUATION_REQUIRED]"

text \<open>\<open>DomainEventType(value)\<close>, which raises for any other text.\<close>

definition parse_event_type :: "string \<Rightarrow> domain_event_type option" where
  "parse_event_type s = find_row (\<lambda>e. event_type_value e = s) event_types"

record domain_event =
  ev_type :: domain_event_type
  ev_aggregate_type :: string
  ev_aggregate_id :: string
  ev_dedupe_key :: string
  ev_payload :: "(string \<times> json) list"
  ev_occurred_at :: time

record domain_event_record =
  er_id :: uuid
  er_event_type :: string
  er_aggregate_type :: string
  er_aggregate_id :: string
  er_dedupe_key :: string
  er_payload :: "(string \<times> json) list"
  er_occurred_at :: time
  er_recorded_at :: time
  er_processed_at :: "time option"

record outbox_event_record =
  ob_domain_event_id :: uuid
  ob_topic :: string
  ob_payload :: "(string \<times> json) list"
  ob_created_at :: time
  ob_published_at :: "time option"
  ob_attempt_count :: int
  ob_last_error :: "string option"

record event_db =
  events :: "domain_event_record list"
  outbox :: "outbox_event_record list"
  next_event_id :: uuid

text \<open>The columns of a decision snapshot that the dispatcher loads.\<close>

record snapshot_ref =
  sr_id :: uuid
  sr_canonical_map_id :: "uuid option"
  sr_mode :: string
  sr_snapshot_hash :: string

datatype event_error = UnknownEventType string | OutboxTopicConflict | EnqueueFailed job_error

subsection \<open>EventRepository\<close>

definition same_event :: "string \<Rightarrow> string \<Rightarrow> domain_event_record \<Rightarrow> bool" where
  "same_event ty key e \<longleftrightarrow> er_event_type e = ty \<and> er_dedupe_key e = key"

definition new_event_record :: "uuid \<Rightarrow> time \<Rightarrow> domain_event \<Rightarrow> domain_event_record" where
  "new_event_record i now ev =
     \<lparr>er_id = i, er_event_type = event_type_value (ev_type ev), er_aggregate_type = ev_aggregate_type ev,
      er_aggregate_id = ev_aggregate_id ev, er_dedupe_key = ev_dedupe_key ev, er_payload = ev_payload ev,
      er_occurred_at = ev_occurred_at ev, er_recorded_at = now, er_processed_at = None\<rparr>"

definition new_outbox_record :: "uuid \<Rightarrow> time \<Rightarrow> domain_event \<Rightarrow> string \<Rightarrow> outbox_event_record" where
  "new_outbox_record event_id now ev topic =
     \<lparr>ob_domain_event_id = event_id, ob_topic = topic, ob_payload = ev_payload ev, ob_created_at = now,
      ob_published_at = None, ob_attempt_count = 0, ob_last_error = None\<rparr>"

text \<open>A topic given twice violates \<open>uq_outbox_event_topic\<close> when the transaction flushes.\<close>

definition insert_event ::
  "event_db \<Rightarrow> time \<Rightarrow> domain_event \<Rightarrow> string list \<Rightarrow> event_error + (domain_event_record \<times> event_db)" where
  "insert_event db now ev topics =
     (let rec = new_event_record (next_event_id db) now ev
      in if distinct topics
         then Inr (rec, db\<lparr>events := events db @ [rec],
                           outbox := outbox db @ map (new_outbox_record (er_id rec) now ev) topics,
                           next_event_id := Suc (next_event_id db)\<rparr>)
         else Inl OutboxTopicConflict)"

text \<open>On PostgreSQL the row is inserted with \<open>ON CONFLICT DO NOTHING\<close> first; a conflict, and every
  other database, goes through the lookup by key.\<close>

definition record_event ::
  "bool \<Rightarrow> event_db \<Rightarrow> time \<Rightarrow> domain_event \<Rightarrow> string list \<Rightarrow> event_error + (domain_event_record \<times> event_db)" where
  "record_event postgresql db now ev topics =
     (let existing = find_row (same_event (event_type_value (ev_type ev)) (ev_dedupe_key ev)) (events db)
      in if postgresql \<and> existing = None then insert_event db now ev topics
         else case existing of
                Some e \<Rightarrow> Inr (e, db)
              | None \<Rightarrow> insert_event db now ev topics)"

text \<open>A service records several events in a row, with the default topic.\<close>

fun record_all :: "bool \<Rightarrow> event_db \<Rightarrow> time \<Rightarrow> domain_event list \<Rightarrow> event_error + event_db" where
  "record_all pg db now [] = Inr db"
| "record_all pg db now (ev # evs) =
     (case record_event pg db now ev [''domain''] of Inl e \<Rightarrow> Inl e | Inr (r, db') \<Rightarrow> record_all pg db' now evs)"

subsection \<open>AI job keys\<close>

type_synonym ai_experiment = "string \<times> string \<times> string \<times> string \<times> string"

fun ai_job_dedupe_key_for_experiment :: "string \<Rightarrow> ai_experiment \<Rightarrow> string" where
  "ai_job_dedupe_key_for_experiment snapshot_hash (provider, model, prompt_version, policy_version, view_version) =
     ''ai:'' @ snapshot_hash @ '':'' @ provider @ '':'' @ model @ '':'' @ prompt_version @ '':'' @
     policy_version @ '':'' @ view_version"

definition ai_job_payload :: "uuid \<Rightarrow> string \<Rightarrow> string \<Rightarrow> json" where
  "ai_job_payload snapshot_id provider model =
     JObj [(''snapshot_id'', JStr (str_uuid snapshot_id)), (''provider'', JStr provider), (''model'', JStr model)]"

definition ai_job_priority :: "string \<Rightarrow> int" where
  "ai_job_priority mode =
     (let m = upper mode
      in if m = ''LIVE_FULL'' \<or> m = ''LIVE_BASIC'' then 40
         else if m = ''POST_DRAFT'' \<or> m = ''DRAFT'' then 70
         else if m = ''PREMATCH'' then 90
         else 50)"

subsection \<open>DomainEventDispatcher\<close>

fun event_job_map :: "domain_event_type \<Rightarrow> job_type" where
  "event_job_map MARKET_DISCOVERED = REFRESH_ODDS_REGISTRY"
| "event_job_map ODDS_REGISTRY_REFRESH_REQUIRED = REFRESH_ODDS_REGISTRY"
| "event_job_map DLTV_MATCH_DISCOVERED = BOOTSTRAP_DLTV_MATCH"
| "event_job_map DLTV_MATCH_RESOLVED = SYNC_HISTORICAL"
| "event_job_map DRAFT_CONFIRMED = BUILD_DRAFT_CURVE"
| "event_job_map MAP_STARTED = SYNC_HISTORICAL"
| "event_job_map DECISION_CHECKPOINT_DUE = BUILD_SNAPSHOT"
| "event_job_map SIGNIFICANT_ODDS_MOVE = BUILD_SNAPSHOT"
| "event_job_map MARKET_REOPENED = BUILD_SNAPSHOT"
| "event_job_map MAP_ENDED = RESOLVE_POSTMATCH"
| "event_job_map BASIC_RESULT_READY = SETTLE_MAP"
| "event_job_map ADVANCED_RESULT_READY = SYNC_HISTORICAL"
| "event_job_map SNAPSHOT_BUILD_REQUESTED = BUILD_SNAPSHOT"
| "event_job_map AI_DECISION_REQUESTED = RUN_AI_PROVIDER"
| "event_job_map FUTURE_ODDS_CAPTURE_DUE = CAPTURE_FUTURE_ODDS"
| "event_job_map SETTLEMENT_REQUIRED = SETTLE_MAP"
| "event_job_map EVALUATION_REQUIRED = EVALUATE_DECISION"


fun event_additional_jobs :: "domain_event_type \<Rightarrow> job_type list" where
  "event_additional_jobs MARKET_DISCOVERED = [SYNC_HISTORICAL]"
| "event_additional_jobs DRAFT_CONFIRMED = [SYNC_HISTORICAL]"
| "event_additional_jobs _ = []"

definition payload_uuid :: "(string \<times> json) list \<Rightarrow> string \<Rightarrow> uuid option" where
  "payload_uuid payload fld = (case json_get payload fld of JStr s \<Rightarrow> parse_uuid s | _ \<Rightarrow> None)"

text \<open>\<open>{**record.payload, "domain_event_id": str(record.id)}\<close>\<close>

definition event_payload :: "domain_event_record \<Rightarrow> json" where
  "event_payload r = JObj (AList.update ''domain_event_id'' (JStr (str_uuid (er_id r))) (er_payload r))"

definition event_key :: "domain_event_record \<Rightarrow> string" where
  "event_key r = ''event:'' @ str_uuid (er_id r)"

definition main_request :: "domain_event_record \<Rightarrow> domain_event_type \<Rightarrow> job_request" where
  "main_request r ty =
     \<lparr>rq_type = event_job_map ty, rq_key = event_key r, rq_payload = event_payload r,
      rq_priority = 100, rq_not_before = None\<rparr>"

definition additional_request :: "domain_event_record \<Rightarrow> job_type \<Rightarrow> job_request" where
  "additional_request r jt =
     \<lparr>rq_type = jt, rq_key = event_key r @ '':'' @ job_type_value jt, rq_payload = event_payload r,
      rq_priority = 100, rq_not_before = None\<rparr>"

definition ai_provider_requests :: "ai_experiment list \<Rightarrow> snapshot_ref option \<Rightarrow> job_request list" where
  "ai_provider_requests experiments snapshot =
     (case snapshot of
        None \<Rightarrow> []
      | Some s \<Rightarrow>
          map (\<lambda>x. \<lparr>rq_type = RUN_AI_PROVIDER,
                    rq_key = ai_job_dedupe_key_for_experiment (sr_snapshot_hash s) x,
                    rq_payload = ai_job_payload (sr_id s) (fst x) (fst (snd x)),
                    rq_priority = ai_job_priority (sr_mode s), rq_not_before = None\<rparr>) experiments)"

definition closing_capture_requests :: "domain_event_record \<Rightarrow> uuid list \<Rightarrow> job_request list" where
  "closing_capture_requests r snapshot_ids =
     map (\<lambda>i. \<lparr>rq_type = CAPTURE_FUTURE_ODDS, rq_key = ''closing-odds:'' @ str_uuid i,
               rq_payload = JObj [(''snapshot_id'', JStr (str_uuid i)), (''capture_type'', JStr ''CLOSING''),
                                  (''triggered_at'', JStr (isoformat (er_occurred_at r)))],
               rq_priority = 100, rq_not_before = Some (er_occurred_at r)\<rparr>) snapshot_ids"

definition pending_events :: "event_db \<Rightarrow> nat \<Rightarrow> uuid list \<Rightarrow> domain_event_record list" where
  "pending_events db limit locked =
     order_limit er_occurred_at limit
       (filter (\<lambda>e. er_processed_at e = None \<and> er_id e \<notin> set locked) (events db))"

text \<open>The snapshots read in one query for the whole batch.\<close>

definition batch_snapshots ::
  "snapshot_ref list \<Rightarrow> (domain_event_record \<times> domain_event_type) list \<Rightarrow> snapshot_ref list" where
  "batch_snapshots snapshots typed =
     (let ai_ids = [i. (r, ty) \<leftarrow> typed, ty = AI_DECISION_REQUESTED, Some i \<leftarrow> [payload_uuid (er_payload r) ''snapshot_id'']];
          map_ids = [i. (r, ty) \<leftarrow> typed, ty = MAP_ENDED, Some i \<leftarrow> [payload_uuid (er_payload r) ''canonical_map_id'']]
      in filter (\<lambda>s. sr_id s \<in> set ai_ids \<or>
                     (case sr_canonical_map_id s of None \<Rightarrow> False | Some m \<Rightarrow> m \<in> set map_ids)) snapshots)"

definition snapshot_by_id :: "snapshot_ref list \<Rightarrow> uuid option \<Rightarrow> snapshot_ref option" where
  "snapshot_by_id batch i = (case i of None \<Rightarrow> None | Some u \<Rightarrow> find_row (\<lambda>s. sr_id s = u) batch)"

definition snapshot_ids_by_map :: "snapshot_ref list \<Rightarrow> uuid option \<Rightarrow> uuid list" where
  "snapshot_ids_by_map batch m =
     (case m of None \<Rightarrow> [] | Some u \<Rightarrow> map sr_id (filter (\<lambda>s. sr_canonical_map_id s = Some u) batch))"

text \<open>The requests of one event, in the order the loop body issues them.\<close>

definition event_requests ::
  "ai_experiment list \<Rightarrow> snapshot_ref list \<Rightarrow> domain_event_record \<times> domain_event_type \<Rightarrow> job_request list" where
  "event_requests experiments batch rt =
     (let (r, ty) = rt
      in (if ty = AI_DECISION_REQUESTED
          then ai_provider_requests experiments (snapshot_by_id batch (payload_uuid (er_payload r) ''snapshot_id''))
          else [main_request r ty]) @
         map (additional_request r) (event_additional_jobs ty) @
         (if ty = MAP_ENDED
          then closing_capture_requests r (snapshot_ids_by_map batch (payload_uuid (er_payload r) ''canonical_map_id''))
          else []))"

fun typed_records :: "domain_event_record list \<Rightarrow> event_error + (domain_event_record \<times> domain_event_type) list" where
  "typed_records [] = Inr []"
| "typed_records (r # rs) =
     (case parse_event_type (er_event_type r) of
        None \<Rightarrow> Inl (UnknownEventType (er_event_type r))
      | Some ty \<Rightarrow> (case typed_records rs of Inl e \<Rightarrow> Inl e | Inr rest \<Rightarrow> Inr ((r, ty) # rest)))"

definition mark_processed :: "time \<Rightarrow> uuid \<Rightarrow> event_db \<Rightarrow> event_db" where
  "mark_processed now i db =
     db\<lparr>events := update_where (\<lambda>e. er_id e = i) (\<lambda>e. e\<lparr>er_processed_at := Some now\<rparr>) (events db)\<rparr>"

fun dispatch_rows ::
  "bool \<Rightarrow> time \<Rightarrow> ai_experiment list \<Rightarrow> snapshot_ref list \<Rightarrow> (domain_event_record \<times> domain_event_type) list \<Rightarrow>
   event_db \<times> job_db \<Rightarrow> event_error + (event_db \<times> job_db)" where
  "dispatch_rows pg now experiments batch [] st = Inr st"
| "dispatch_rows pg now experiments batch (rt # rts) (db, q) =
     (case enqueue_all (enqueue_request pg now) q (event_requests experiments batch rt) of
        Inl e \<Rightarrow> Inl (EnqueueFailed e)
      | Inr q' \<Rightarrow> dispatch_rows pg now experiments batch rts (mark_processed now (er_id (fst rt)) db, q'))"

definition dispatch_pending ::
  "bool \<Rightarrow> event_db \<Rightarrow> job_db \<Rightarrow> time \<Rightarrow> nat \<Rightarrow> uuid list \<Rightarrow> ai_experiment list \<Rightarrow> snapshot_ref list \<Rightarrow>
   event_error + (nat \<times> event_db \<times> job_db)" where
  "dispatch_pending pg db q now limit locked experiments snapshots =
     (let records = pending_events db limit locked
      in case typed_records records of
           Inl e \<Rightarrow> Inl e
         | Inr typed \<Rightarrow>
             (case dispatch_rows pg now experiments (batch_snapshots snapshots typed) typed (db, q) of
                Inl e \<Rightarrow> Inl e
              | Inr st \<Rightarrow> Inr (length records, st)))"

subsection \<open>OutboxDispatcher\<close>

text \<open>\<open>publish\<close> answers the error text it raised, if any.\<close>

definition publish_row ::
  "(string \<Rightarrow> (string \<times> json) list \<Rightarrow> string option) \<Rightarrow> time \<Rightarrow> outbox_event_record \<Rightarrow> outbox_event_record" where
  "publish_row publish now r =
     (let r' = r\<lparr>ob_attempt_count := ob_attempt_count r + 1\<rparr>
      in case publish (ob_topic r) (ob_payload r) of
           Some e \<Rightarrow> r'\<lparr>ob_last_error := Some e\<rparr>
         | None \<Rightarrow> r'\<lparr>ob_published_at := Some now, ob_last_error := None\<rparr>)"

definition outbox_key :: "outbox_event_record \<Rightarrow> uuid \<times> string" where
  "outbox_key r = (ob_domain_event_id r, ob_topic r)"

definition outbox_candidates :: "event_db \<Rightarrow> nat \<Rightarrow> (uuid \<times> string) list \<Rightarrow> outbox_event_record list" where
  "outbox_candidates db limit locked =
     order_limit ob_created_at limit
       (filter (\<lambda>r. ob_published_at r = None \<and> outbox_key r \<notin> set locked) (outbox db))"

definition dispatch_once ::
  "(string \<Rightarrow> (string \<times> json) list \<Rightarrow> string option) \<Rightarrow> event_db \<Rightarrow> time \<Rightarrow> nat \<Rightarrow> (uuid \<times> string) list \<Rightarrow>
   nat \<times> event_db" where
  "dispatch_once publish db now limit locked =
     (let records = outbox_candidates db limit locked
      in (length (filter (\<lambda>r. publish (ob_topic r) (ob_payload r) = None) records),
          db\<lparr>outbox := map (\<lambda>r. if outbox_key r \<in> outbox_key ` set records then publish_row publish now r else r)
                          (outbox db)\<rparr>))"

end
