(* ===== verification/EventProperties.thy ===== *)
theory EventProperties
  imports Events
begin

text \<open>
  Properties of the event tables and their dispatchers: the invariant of the tables, what one run
  of \<open>DomainEventDispatcher\<close> schedules and marks, why a repeated run is harmless, and what the
  outbox promises.  The facts on scheduling come from the locale \<open>job_queue\<close>.
\<close>

subsection \<open>Invariant\<close>

definition event_row_key :: "domain_event_record \<Rightarrow> string \<times> string" where
  "event_row_key e = (er_event_type e, er_dedupe_key e)"

definition events_inv :: "event_db \<Rightarrow> bool" where
  "events_inv db \<longleftrightarrow>
     distinct (map er_id (events db)) \<and> distinct (map event_row_key (events db)) \<and>
     distinct (map outbox_key (outbox db)) \<and>
     (\<forall>e \<in> set (events db). er_id e < next_event_id db \<and> parse_event_type (er_event_type e) \<noteq> None) \<and>
     (\<forall>o' \<in> set (outbox db). ob_domain_event_id o' < next_event_id db)"

lemma events_invD:
  assumes "events_inv db"
  shows "distinct (map er_id (events db))" "distinct (map event_row_key (events db))"
    "distinct (map outbox_key (outbox db))"
    "e \<in> set (events db) \<Longrightarrow> er_id e < next_event_id db"
    "e \<in> set (events db) \<Longrightarrow> parse_event_type (er_event_type e) \<noteq> None"
    "o' \<in> set (outbox db) \<Longrightarrow> ob_domain_event_id o' < next_event_id db"
  using assms by (auto simp: events_inv_def)

lemma parse_event_type_value [simp]: "parse_event_type (event_type_value ty) = Some ty"
  by (cases ty) (simp_all add: parse_event_type_def event_types_def)

lemma insert_event_inv:
  assumes "events_inv db" and "find_row (same_event (event_type_value (ev_type ev)) (ev_dedupe_key ev)) (events db) = None"
    and "insert_event db now ev topics = Inr (r, db')"
  shows "events_inv db'"
proof -
  let ?new = "new_event_record (next_event_id db) now ev"
  have d: "distinct topics" and db': "db' = db\<lparr>events := events db @ [?new],
      outbox := outbox db @ map (new_outbox_record (er_id ?new) now ev) topics, next_event_id := Suc (next_event_id db)\<rparr>"
    using assms(3) by (auto simp: insert_event_def Let_def split: if_splits)
  have key: "event_row_key ?new \<notin> event_row_key ` set (events db)"
    using assms(2) by (auto simp: find_row_None_iff same_event_def event_row_key_def new_event_record_def)
  have id: "er_id ?new \<notin> er_id ` set (events db)"
    using events_invD(4) [OF assms(1)] by (fastforce simp: new_event_record_def)
  have ob: "map outbox_key (outbox db') = map outbox_key (outbox db) @ map (Pair (next_event_id db)) topics"
    unfolding db' by (simp add: outbox_key_def new_outbox_record_def new_event_record_def)
  have "distinct (map outbox_key (outbox db) @ map (Pair (next_event_id db)) topics)"
    using events_invD(3) [OF assms(1)] d events_invD(6) [OF assms(1)]
    by (fastforce simp: distinct_map inj_on_def outbox_key_def)
  then have "distinct (map outbox_key (outbox db'))" by (simp only: ob)
  moreover have "\<forall>o' \<in> set (outbox db'). ob_domain_event_id o' < next_event_id db'"
    using events_invD(6) [OF assms(1)] unfolding db'
    by (auto simp: new_outbox_record_def new_event_record_def less_Suc_eq)
  moreover have "\<forall>e \<in> set (events db'). er_id e < next_event_id db' \<and> parse_event_type (er_event_type e) \<noteq> None"
    using events_invD(4,5) [OF assms(1)] unfolding db' by (auto simp: new_event_record_def less_Suc_eq)
  ultimately show ?thesis
    using events_invD(1,2) [OF assms(1)] key id unfolding events_inv_def db' by simp
qed

lemma record_event_inv [inv_intros]:
  assumes "events_inv db" and "record_event pg db now ev topics = Inr (r, db')"
  shows "events_inv db'"
  using assms insert_event_inv [OF assms(1)]
  by (auto simp: record_event_def Let_def split: if_splits option.splits)

subsection \<open>Recording\<close>

definition is_recorded :: "event_db \<Rightarrow> domain_event \<Rightarrow> bool" where
  "is_recorded db ev \<longleftrightarrow> find_row (same_event (event_type_value (ev_type ev)) (ev_dedupe_key ev)) (events db) \<noteq> None"

lemma record_event_total:
  assumes "events_inv db"
  shows "\<exists>r db'. record_event pg db now ev [''domain''] = Inr (r, db') \<and> events_inv db' \<and> is_recorded db' ev \<and>
    (\<forall>ev'. is_recorded db ev' \<longrightarrow> is_recorded db' ev')"
proof (cases "find_row (same_event (event_type_value (ev_type ev)) (ev_dedupe_key ev)) (events db)")
  case None
  then obtain r db' where r: "record_event pg db now ev [''domain''] = Inr (r, db')"
    "events db' = events db @ [new_event_record (next_event_id db) now ev]"
    by (simp add: record_event_def insert_event_def Let_def)
  have "is_recorded db' ev" by (simp add: is_recorded_def r(2) None same_event_def new_event_record_def)
  moreover have "\<forall>ev'. is_recorded db ev' \<longrightarrow> is_recorded db' ev'" by (auto simp: is_recorded_def r(2) split: option.split)
  ultimately show ?thesis using r(1) record_event_inv [OF assms r(1)] by blast
next
  case (Some e)
  then show ?thesis using assms by (auto simp: record_event_def is_recorded_def Let_def)
qed

lemma record_all_run:
  "events_inv db \<Longrightarrow>
   \<exists>db'. record_all pg db now evs = Inr db' \<and> events_inv db' \<and> (\<forall>ev \<in> set evs. is_recorded db' ev) \<and>
     (\<forall>ev'. is_recorded db ev' \<longrightarrow> is_recorded db' ev')"
proof (induction evs arbitrary: db)
  case Nil
  then show ?case by simp
next
  case (Cons ev evs)
  obtain r db1 where r: "record_event pg db now ev [''domain''] = Inr (r, db1)" "events_inv db1" "is_recorded db1 ev"
    "\<forall>ev'. is_recorded db ev' \<longrightarrow> is_recorded db1 ev'"
    using record_event_total [OF Cons.prems, of pg now ev] by blast
  obtain db2 where "record_all pg db1 now evs = Inr db2 \<and> events_inv db2 \<and> (\<forall>ev \<in> set evs. is_recorded db2 ev) \<and>
      (\<forall>ev'. is_recorded db1 ev' \<longrightarrow> is_recorded db2 ev')"
    using Cons.IH [OF r(2)] by blast
  then show ?case using r by auto
qed

lemma record_all_noop: "\<forall>ev \<in> set evs. is_recorded db ev \<Longrightarrow> record_all pg db now evs = Inr db"
  by (induction evs) (auto simp: record_event_def is_recorded_def Let_def)

lemma recorded_once:
  assumes "events_inv db" and "is_recorded db ev"
  shows "length (filter (same_event (event_type_value (ev_type ev)) (ev_dedupe_key ev)) (events db)) = 1"
proof -
  obtain e where e: "e \<in> set (events db)" "same_event (event_type_value (ev_type ev)) (ev_dedupe_key ev) e"
    using assms(2) find_row_SomeD unfolding is_recorded_def by fastforce
  have "filter (same_event (event_type_value (ev_type ev)) (ev_dedupe_key ev)) (events db) = [e]"
    by (rule filter_unique [where key = event_row_key])
      (use e events_invD(2) [OF assms(1)] in \<open>simp_all add: same_event_def event_row_key_def\<close>)
  then show ?thesis by simp
qed

subsection \<open>Dispatching\<close>

lemma mark_processed_inv: "events_inv db \<Longrightarrow> events_inv (mark_processed now i db)"
  by (auto simp: events_inv_def mark_processed_def map_update_where event_row_key_def set_update_where)

lemma dispatch_rows_inv:
  "dispatch_rows pg now x batch typed (db, q) = Inr (db', q') \<Longrightarrow> events_inv db \<Longrightarrow> events_inv db'"
  by (induction typed arbitrary: db q) (auto split: sum.splits intro: mark_processed_inv)

lemma dispatch_pending_inv [inv_intros]:
  "dispatch_pending pg db q now limit locked x snaps = Inr (n, db', q') \<Longrightarrow> events_inv db \<Longrightarrow> events_inv db'"
  by (auto simp: dispatch_pending_def Let_def split: sum.splits dest: dispatch_rows_inv)

lemma publish_row_key [simp]: "outbox_key (publish_row publish now r) = outbox_key r"
  "ob_domain_event_id (publish_row publish now r) = ob_domain_event_id r"
  by (simp_all add: publish_row_def outbox_key_def Let_def split: option.split)

lemma dispatch_once_inv [inv_intros]: "events_inv db \<Longrightarrow> events_inv (snd (dispatch_once publish db now limit locked))"
proof -
  assume inv: "events_inv db"
  have "map outbox_key (map (\<lambda>r. if P r then publish_row publish now r else r) rows) = map outbox_key rows" for P rows
    by simp
  then show ?thesis using inv unfolding events_inv_def dispatch_once_def Let_def
    by (auto simp del: map_map)
qed

subsection \<open>One run of the dispatcher\<close>

lemma typed_records_total:
  "\<forall>r \<in> set rs. parse_event_type (er_event_type r) \<noteq> None \<Longrightarrow>
   \<exists>typed. typed_records rs = Inr typed \<and> map fst typed = rs \<and>
     (\<forall>(r, ty) \<in> set typed. parse_event_type (er_event_type r) = Some ty)"
  by (induction rs) auto

lemma dispatch_rows_run:
  assumes "jobs_inv q"
  shows "\<exists>db' q'. dispatch_rows pg now x batch typed (db, q) = Inr (db', q') \<and>
           db' = foldl (\<lambda>db rt. mark_processed now (er_id (fst rt)) db) db typed \<and>
           jobs_inv q' \<and> set (jobs q) \<subseteq> set (jobs q') \<and>
           enqueue_all (enqueue_request pg now) q (concat (map (event_requests x batch) typed)) = Inr q'"
  using assms
proof (induction typed arbitrary: db q)
  case (Cons rt typed)
  obtain q1 where q1: "enqueue_all (enqueue_request pg now) q (event_requests x batch rt) = Inr q1"
    using jq.all_total by blast
  have inv: "jobs_inv q1" by (rule jq.all_ok [OF Cons.prems q1])
  have "set (jobs q) \<subseteq> set (jobs q1)" by (rule enqueue_all_keeps [OF q1])
  moreover obtain db' q' where "dispatch_rows pg now x batch typed (mark_processed now (er_id (fst rt)) db, q1) = Inr (db', q')"
      "db' = foldl (\<lambda>db rt. mark_processed now (er_id (fst rt)) db) (mark_processed now (er_id (fst rt)) db) typed"
      "jobs_inv q'" "set (jobs q1) \<subseteq> set (jobs q')"
      "enqueue_all (enqueue_request pg now) q1 (concat (map (event_requests x batch) typed)) = Inr q'"
    using Cons.IH [OF inv] by metis
  ultimately show ?case using q1 by (auto simp: enqueue_all_append)
qed simp

lemma mark_all:
  "events (foldl (\<lambda>db rt. mark_processed now (er_id (fst rt)) db) db typed) =
     map (\<lambda>e. if er_id e \<in> er_id ` fst ` set typed then e\<lparr>er_processed_at := Some now\<rparr> else e) (events db)"
proof (induction typed arbitrary: db)
  case (Cons rt typed)
  show ?case
    by (simp only: foldl.simps Cons.IH) (auto simp: mark_processed_def update_where_def)
qed simp

lemma pending_in: "e \<in> set (pending_events db limit locked) \<Longrightarrow> e \<in> set (events db) \<and> er_processed_at e = None"
  using set_order_limit [of er_occurred_at limit] by (fastforce simp: pending_events_def)

lemma dispatch_run:
  assumes "events_inv db" and "jobs_inv q"
  obtains typed db' q' where
    "dispatch_pending pg db q now limit locked x snaps = Inr (length (pending_events db limit locked), db', q')"
    "typed_records (pending_events db limit locked) = Inr typed"
    "map fst typed = pending_events db limit locked"
    "\<forall>(r, ty) \<in> set typed. parse_event_type (er_event_type r) = Some ty"
    "events db' = map (\<lambda>e. if er_id e \<in> er_id ` set (pending_events db limit locked)
                           then e\<lparr>er_processed_at := Some now\<rparr> else e) (events db)"
    "jobs_inv q'" "set (jobs q) \<subseteq> set (jobs q')"
    "enqueue_all (enqueue_request pg now) q (concat (map (event_requests x (batch_snapshots snaps typed)) typed)) = Inr q'"
proof -
  let ?p = "pending_events db limit locked"
  have "\<forall>r \<in> set ?p. parse_event_type (er_event_type r) \<noteq> None"
    using pending_in events_invD(5) [OF assms(1)] by blast
  from typed_records_total [OF this] obtain typed where t: "typed_records ?p = Inr typed" "map fst typed = ?p"
      "\<forall>(r, ty) \<in> set typed. parse_event_type (er_event_type r) = Some ty" by blast
  obtain db' q' where r: "dispatch_rows pg now x (batch_snapshots snaps typed) typed (db, q) = Inr (db', q')"
      "db' = foldl (\<lambda>db rt. mark_processed now (er_id (fst rt)) db) db typed"
      "jobs_inv q'" "set (jobs q) \<subseteq> set (jobs q')"
      "enqueue_all (enqueue_request pg now) q (concat (map (event_requests x (batch_snapshots snaps typed)) typed)) = Inr q'"
    using dispatch_rows_run [OF assms(2)] by metis
  have "fst ` set typed = set ?p" by (simp flip: t(2))
  then have "events db' = map (\<lambda>e. if er_id e \<in> er_id ` set ?p then e\<lparr>er_processed_at := Some now\<rparr> else e) (events db)"
    by (simp add: r(2) mark_all)
  moreover have "dispatch_pending pg db q now limit locked x snaps = Inr (length ?p, db', q')"
    by (simp add: dispatch_pending_def t(1) r(1))
  ultimately show thesis using that t r(3-5) by blast
qed

text \<open>The jobs an event asks for: its job of \<open>EVENT_JOB_MAP\<close> and the additional ones; for a request of AI
  decisions one job per configured experiment, under the key of the snapshot's content; for a map that
  ended also the closing capture of each of its snapshots.\<close>

definition event_jobs_queued :: "ai_experiment list \<Rightarrow> snapshot_ref list \<Rightarrow> job_db \<Rightarrow> domain_event_record \<Rightarrow> bool" where
  "event_jobs_queued x snaps q e \<longleftrightarrow> (\<exists>ty. er_event_type e = event_type_value ty \<and>
     (ty \<noteq> AI_DECISION_REQUESTED \<longrightarrow> has_job q (event_job_map ty, event_key e)) \<and>
     (ty = AI_DECISION_REQUESTED \<longrightarrow>
        (\<forall>i s. payload_uuid (er_payload e) ''snapshot_id'' = Some i \<longrightarrow> find_row (\<lambda>s. sr_id s = i) snaps = Some s \<longrightarrow>
           (\<forall>y \<in> set x. has_job q (RUN_AI_PROVIDER, ai_job_dedupe_key_for_experiment (sr_snapshot_hash s) y)))) \<and>
     (\<forall>jt \<in> set (event_additional_jobs ty). has_job q (jt, event_key e @ '':'' @ job_type_value jt)) \<and>
     (ty = MAP_ENDED \<longrightarrow>
        (\<forall>m. payload_uuid (er_payload e) ''canonical_map_id'' = Some m \<longrightarrow>
           (\<forall>s \<in> set snaps. sr_canonical_map_id s = Some m \<longrightarrow> has_job q (CAPTURE_FUTURE_ODDS, ''closing-odds:'' @ str_uuid (sr_id s))))))"

lemma has_job_mono: "set (jobs q) \<subseteq> set (jobs q') \<Longrightarrow> has_job q k \<Longrightarrow> has_job q' k"
  by (auto simp: has_job_def)

lemma event_jobs_more:
  assumes "event_jobs_queued x snaps q e" and "set (jobs q) \<subseteq> set (jobs q')"
  shows "event_jobs_queued x snaps q' e"
proof -
  note m = has_job_mono [OF assms(2)]
  from assms(1) obtain ty where "er_event_type e = event_type_value ty"
      "ty \<noteq> AI_DECISION_REQUESTED \<longrightarrow> has_job q (event_job_map ty, event_key e)"
      "ty = AI_DECISION_REQUESTED \<longrightarrow>
        (\<forall>i s. payload_uuid (er_payload e) ''snapshot_id'' = Some i \<longrightarrow> find_row (\<lambda>s. sr_id s = i) snaps = Some s \<longrightarrow>
           (\<forall>y \<in> set x. has_job q (RUN_AI_PROVIDER, ai_job_dedupe_key_for_experiment (sr_snapshot_hash s) y)))"
      "\<forall>jt \<in> set (event_additional_jobs ty). has_job q (jt, event_key e @ '':'' @ job_type_value jt)"
      "ty = MAP_ENDED \<longrightarrow>
        (\<forall>m. payload_uuid (er_payload e) ''canonical_map_id'' = Some m \<longrightarrow>
           (\<forall>s \<in> set snaps. sr_canonical_map_id s = Some m \<longrightarrow> has_job q (CAPTURE_FUTURE_ODDS, ''closing-odds:'' @ str_uuid (sr_id s))))"
    unfolding event_jobs_queued_def by (elim exE conjE) (rule that)
  then show ?thesis unfolding event_jobs_queued_def by (intro exI [of _ ty] conjI impI allI ballI) (blast intro: m)+
qed

lemma find_row_kept: "(\<And>r. r \<in> set t \<Longrightarrow> P r \<Longrightarrow> Q r) \<Longrightarrow> find_row P (filter Q t) = find_row P t"
  by (induction t) auto

lemma batch_has_snapshot:
  assumes "(e, AI_DECISION_REQUESTED) \<in> set typed" and "payload_uuid (er_payload e) ''snapshot_id'' = Some i"
  shows "find_row (\<lambda>s. sr_id s = i) (batch_snapshots snaps typed) = find_row (\<lambda>s. sr_id s = i) snaps"
  unfolding batch_snapshots_def Let_def by (rule find_row_kept) (use assms in force)

lemma batch_has_map:
  assumes "(e, MAP_ENDED) \<in> set typed" and "payload_uuid (er_payload e) ''canonical_map_id'' = Some m"
    and "s \<in> set snaps" and "sr_canonical_map_id s = Some m"
  shows "s \<in> set (batch_snapshots snaps typed)"
  unfolding batch_snapshots_def Let_def using assms by force

lemma event_requests_queue:
  assumes has: "\<And>r. r \<in> set (event_requests x (batch_snapshots snaps typed) (e, ty)) \<Longrightarrow> has_job q (request_key r)"
    and ty: "(e, ty) \<in> set typed" "er_event_type e = event_type_value ty"
  shows "event_jobs_queued x snaps q e"
proof -
  have main: "has_job q (event_job_map ty, event_key e)" if "ty \<noteq> AI_DECISION_REQUESTED"
    using has [of "main_request e ty"] that by (simp add: event_requests_def main_request_def request_key_def)
  have additional: "has_job q (jt, event_key e @ '':'' @ job_type_value jt)" if "jt \<in> set (event_additional_jobs ty)" for jt
    using has [of "additional_request e jt"] that by (simp add: event_requests_def additional_request_def request_key_def)
  have ai: "has_job q (RUN_AI_PROVIDER, ai_job_dedupe_key_for_experiment (sr_snapshot_hash s) y)"
    if "ty = AI_DECISION_REQUESTED" "payload_uuid (er_payload e) ''snapshot_id'' = Some i" "find_row (\<lambda>s. sr_id s = i) snaps = Some s" "y \<in> set x"
    for i s y
  proof -
    have b: "snapshot_by_id (batch_snapshots snaps typed) (Some i) = Some s"
      using batch_has_snapshot [of e typed i snaps] ty(1) that by (simp add: snapshot_by_id_def)
    let ?r = "\<lparr>rq_type = RUN_AI_PROVIDER, rq_key = ai_job_dedupe_key_for_experiment (sr_snapshot_hash s) y,
               rq_payload = ai_job_payload (sr_id s) (fst y) (fst (snd y)), rq_priority = ai_job_priority (sr_mode s), rq_not_before = None\<rparr>"
    have "?r \<in> set (ai_provider_requests x (Some s))" using that(4) by (simp add: ai_provider_requests_def)
    then have "?r \<in> set (event_requests x (batch_snapshots snaps typed) (e, ty))"
      using that(1,2) b by (simp add: event_requests_def)
    from has [OF this] show ?thesis by (simp add: request_key_def)
  qed
  have closing: "has_job q (CAPTURE_FUTURE_ODDS, ''closing-odds:'' @ str_uuid (sr_id s))"
    if "ty = MAP_ENDED" "payload_uuid (er_payload e) ''canonical_map_id'' = Some m" "s \<in> set snaps" "sr_canonical_map_id s = Some m" for m s
  proof -
    have "sr_id s \<in> set (snapshot_ids_by_map (batch_snapshots snaps typed) (Some m))"
      using batch_has_map [of e typed m s snaps] ty(1) that by (auto simp: snapshot_ids_by_map_def)
    then have "\<exists>r \<in> set (event_requests x (batch_snapshots snaps typed) (e, ty)).
        rq_type r = CAPTURE_FUTURE_ODDS \<and> rq_key r = ''closing-odds:'' @ str_uuid (sr_id s)"
      using that(1,2) by (force simp: event_requests_def closing_capture_requests_def)
    then obtain r where r: "r \<in> set (event_requests x (batch_snapshots snaps typed) (e, ty))"
        "rq_type r = CAPTURE_FUTURE_ODDS" "rq_key r = ''closing-odds:'' @ str_uuid (sr_id s)" by blast
    show ?thesis using has [OF r(1)] unfolding request_key_def r(2,3) .
  qed
  show ?thesis unfolding event_jobs_queued_def
    by (intro exI [of _ ty] conjI impI allI ballI ty(2)) (use main additional ai closing in blast)+
qed

lemma dispatch_step:
  assumes "events_inv db" and "jobs_inv q"
  obtains db' q' where
    "dispatch_pending pg db q now limit locked x snaps = Inr (length (pending_events db limit locked), db', q')"
    "events db' = map (\<lambda>e. if er_id e \<in> er_id ` set (pending_events db limit locked)
                           then e\<lparr>er_processed_at := Some now\<rparr> else e) (events db)"
    "events_inv db'" "jobs_inv q'" "set (jobs q) \<subseteq> set (jobs q')"
    "\<forall>e \<in> set (pending_events db limit locked). event_jobs_queued x snaps q' e"
proof -
  let ?p = "pending_events db limit locked"
  obtain typed db' q' where
    run: "dispatch_pending pg db q now limit locked x snaps = Inr (length ?p, db', q')"
    and t: "typed_records ?p = Inr typed" "map fst typed = ?p" "\<forall>(r, ty) \<in> set typed. parse_event_type (er_event_type r) = Some ty"
    and ev: "events db' = map (\<lambda>e. if er_id e \<in> er_id ` set ?p then e\<lparr>er_processed_at := Some now\<rparr> else e) (events db)"
    and q: "jobs_inv q'" "set (jobs q) \<subseteq> set (jobs q')"
      "enqueue_all (enqueue_request pg now) q (concat (map (event_requests x (batch_snapshots snaps typed)) typed)) = Inr q'"
    by (rule dispatch_run [OF assms])
  have "\<forall>e \<in> set ?p. event_jobs_queued x snaps q' e"
  proof
    fix e assume e: "e \<in> set ?p"
    have "e \<in> fst ` set typed" using e t(2) by (metis list.set_map)
    then obtain ty where ty: "(e, ty) \<in> set typed" by auto
    then have "parse_event_type (er_event_type e) = Some ty" using t(3) by auto
    then have val: "er_event_type e = event_type_value ty"
      by (auto simp: parse_event_type_def dest: find_row_SomeD)
    have has: "has_job q' (request_key r)" if "r \<in> set (event_requests x (batch_snapshots snaps typed) (e, ty))" for r
      using that ty by (simp add: jq.all_has [OF q(3)]) (metis (no_types, lifting) UN_I imageI)
    show "event_jobs_queued x snaps q' e" by (rule event_requests_queue [OF has ty val])
  qed
  then show ?thesis using that run ev dispatch_pending_inv [OF run assms(1)] q(1,2) by blast
qed

subsection \<open>A concrete run\<close>

definition demo_event :: domain_event where
  "demo_event = \<lparr>ev_type = DRAFT_CONFIRMED, ev_aggregate_type = ''map'', ev_aggregate_id = ''1'',
     ev_dedupe_key = ''d'', ev_payload = [(''canonical_map_id'', JStr ''7'')], ev_occurred_at = 5\<rparr>"

definition demo_events :: event_db where
  "demo_events = \<lparr>events = [new_event_record 0 6 demo_event],
     outbox = [new_outbox_record 0 6 demo_event ''domain''], next_event_id = 1\<rparr>"

lemma empty_events_inv: "events_inv \<lparr>events = [], outbox = [], next_event_id = 0\<rparr>"
  by (simp add: events_inv_def)

lemma demo_record:
  "record_event True \<lparr>events = [], outbox = [], next_event_id = 0\<rparr> 6 demo_event [''domain'']
     = Inr (new_event_record 0 6 demo_event, demo_events)"
  by (simp add: record_event_def insert_event_def demo_events_def new_event_record_def Let_def)

lemma demo_events_inv: "events_inv demo_events"
  by (rule record_event_inv [OF empty_events_inv demo_record])

lemma demo_pending: "pending_events demo_events 10 [] = [new_event_record 0 6 demo_event]"
  by (simp add: pending_events_def order_limit_def demo_events_def new_event_record_def)

subsection \<open>Properties\<close>

text \<open>C5.  One run of \<open>dispatch_pending\<close> on any valid tables succeeds (no event row the repository
  wrote can block the queue).  Every selected event is marked processed and, in the same
  transaction, its job of \<open>EVENT_JOB_MAP\<close> (AI requests apart) and its additional jobs are in
  the queue; every other event row is untouched, no job that was queued is changed, and at most
  \<open>limit\<close> events are taken, none of them earlier processed.\<close>

theorem dispatch_schedules_and_marks:
  assumes "events_inv db" and "jobs_inv q"
  shows "\<exists>n db' q'. dispatch_pending pg db q now limit locked x snaps = Inr (n, db', q') \<and>
     n \<le> limit \<and> events_inv db' \<and> jobs_inv q' \<and> set (jobs q) \<subseteq> set (jobs q') \<and>
     (\<forall>e \<in> set (pending_events db limit locked).
        er_processed_at e = None \<and> e\<lparr>er_processed_at := Some now\<rparr> \<in> set (events db') \<and>
        (\<exists>ty. er_event_type e = event_type_value ty \<and>
           (ty \<noteq> AI_DECISION_REQUESTED \<longrightarrow> has_job q' (event_job_map ty, event_key e)) \<and>
           (\<forall>jt \<in> set (event_additional_jobs ty). has_job q' (jt, event_key e @ '':'' @ job_type_value jt)))) \<and>
     (\<forall>e \<in> set (events db). e \<notin> set (pending_events db limit locked) \<longrightarrow> e \<in> set (events db'))"
proof -
  let ?p = "pending_events db limit locked"
  obtain db' q' where run: "dispatch_pending pg db q now limit locked x snaps = Inr (length ?p, db', q')"
    and ev: "events db' = map (\<lambda>e. if er_id e \<in> er_id ` set ?p then e\<lparr>er_processed_at := Some now\<rparr> else e) (events db)"
    and ok: "events_inv db'" "jobs_inv q'" "set (jobs q) \<subseteq> set (jobs q')"
    and queued: "\<forall>e \<in> set ?p. event_jobs_queued x snaps q' e"
    by (rule dispatch_step [OF assms])
  have has: "\<forall>e \<in> set ?p. \<exists>ty. er_event_type e = event_type_value ty \<and>
       (ty \<noteq> AI_DECISION_REQUESTED \<longrightarrow> has_job q' (event_job_map ty, event_key e)) \<and>
       (\<forall>jt \<in> set (event_additional_jobs ty). has_job q' (jt, event_key e @ '':'' @ job_type_value jt))"
    using queued unfolding event_jobs_queued_def by blast
  have sel: "er_processed_at e = None \<and> e\<lparr>er_processed_at := Some now\<rparr> \<in> set (events db')" if "e \<in> set ?p" for e
    using that pending_in [OF that] unfolding ev by (auto simp: image_iff intro!: bexI [of _ e])
  have other: "e \<in> set (events db')" if e: "e \<in> set (events db)" "e \<notin> set ?p" for e
  proof -
    have "er_id e \<notin> er_id ` set ?p"
      using e pending_in key_row_unique [OF events_invD(1) [OF assms(1)] e(1)] by (metis imageE)
    then show ?thesis using e(1) unfolding ev by (auto simp: image_iff intro!: bexI [of _ e])
  qed
  have "length ?p \<le> limit" by (simp add: pending_events_def length_order_limit)
  then show ?thesis using run ok sel has other by (intro exI [of _ "length ?p"] exI [of _ db'] exI [of _ q']) simp
qed

theorem dispatch_schedules_and_marks_witness:
  "\<exists>n db' q'. dispatch_pending True demo_events empty_job_db 9 10 [] [] [] = Inr (n, db', q') \<and>
     has_job q' (BUILD_DRAFT_CURVE, ''event:0'') \<and> has_job q' (SYNC_HISTORICAL, ''event:0:SYNC_HISTORICAL'')"
proof -
  let ?e = "new_event_record 0 6 demo_event"
  obtain n db' q' where run: "dispatch_pending True demo_events empty_job_db 9 10 [] [] [] = Inr (n, db', q')"
    and all: "\<forall>e \<in> set (pending_events demo_events 10 []).
        er_processed_at e = None \<and> e\<lparr>er_processed_at := Some 9\<rparr> \<in> set (events db') \<and>
        (\<exists>ty. er_event_type e = event_type_value ty \<and>
           (ty \<noteq> AI_DECISION_REQUESTED \<longrightarrow> has_job q' (event_job_map ty, event_key e)) \<and>
           (\<forall>jt \<in> set (event_additional_jobs ty). has_job q' (jt, event_key e @ '':'' @ job_type_value jt)))"
    using dispatch_schedules_and_marks [OF demo_events_inv jobs_inv_empty, of True 9 10 "[]" "[]" "[]"] by blast
  from all obtain ty where ty: "er_event_type ?e = event_type_value ty"
      "ty \<noteq> AI_DECISION_REQUESTED \<longrightarrow> has_job q' (event_job_map ty, event_key ?e)"
      "\<forall>jt \<in> set (event_additional_jobs ty). has_job q' (jt, event_key ?e @ '':'' @ job_type_value jt)"
    by (auto simp: demo_pending)
  have "ty = DRAFT_CONFIRMED"
    using ty(1) by (cases ty) (simp_all add: new_event_record_def demo_event_def)
  then show ?thesis using ty run
    by (simp add: event_key_def new_event_record_def str_uuid_def digits_of.simps)
qed

text \<open>Dispatching is idempotent: if the processed marks of a run are lost (a crash after the jobs
  were committed elsewhere, a restored table), running it again on the same rows leaves the job
  queue exactly as the first run left it, whatever the clock says.\<close>

theorem dispatch_replay_adds_nothing:
  assumes "events_inv db" and "jobs_inv q"
    and "dispatch_pending pg db q now limit locked x snaps = Inr (n, db', q')"
  shows "\<exists>db''. dispatch_pending pg2 db q' now2 limit locked x snaps = Inr (n, db'', q')"
proof -
  let ?p = "pending_events db limit locked"
  obtain typed1 db1' q1' where
    run1: "dispatch_pending pg db q now limit locked x snaps = Inr (length ?p, db1', q1')"
    and t1: "typed_records ?p = Inr typed1" "map fst typed1 = ?p" "\<forall>(r, ty) \<in> set typed1. parse_event_type (er_event_type r) = Some ty"
    and ev1: "events db1' = map (\<lambda>e. if er_id e \<in> er_id ` set ?p then e\<lparr>er_processed_at := Some now\<rparr> else e) (events db)"
    and q1: "jobs_inv q1'" "set (jobs q) \<subseteq> set (jobs q1')"
      "enqueue_all (enqueue_request pg now) q (concat (map (event_requests x (batch_snapshots snaps typed1)) typed1)) = Inr q1'"
    by (rule dispatch_run [OF assms(1,2)])
  have eq: "n = length ?p" "q1' = q'" using run1 assms(3) by simp_all
  obtain typed2 db2' q2' where
    run2: "dispatch_pending pg2 db q1' now2 limit locked x snaps = Inr (length ?p, db2', q2')"
    and t2: "typed_records ?p = Inr typed2" "map fst typed2 = ?p" "\<forall>(r, ty) \<in> set typed2. parse_event_type (er_event_type r) = Some ty"
    and ev2: "events db2' = map (\<lambda>e. if er_id e \<in> er_id ` set ?p then e\<lparr>er_processed_at := Some now2\<rparr> else e) (events db)"
    and q2: "jobs_inv q2'" "set (jobs q1') \<subseteq> set (jobs q2')"
      "enqueue_all (enqueue_request pg2 now2) q1' (concat (map (event_requests x (batch_snapshots snaps typed2)) typed2)) = Inr q2'"
    by (rule dispatch_run [OF assms(1) q1(1)])
  let ?rs = "concat (map (event_requests x (batch_snapshots snaps typed1)) typed1)"
  have "typed2 = typed1" using t1(1) t2(1) by simp
  moreover have "enqueue_all (enqueue_request pg2 now2) q1' ?rs = Inr q1'"
    by (rule jq.all_dedupe) (simp add: jq.all_has [OF q1(3)])
  ultimately have "q2' = q1'" using q2(3) by simp
  then show ?thesis using run2 eq by simp
qed

theorem dispatch_replay_adds_nothing_witness:
  "\<exists>n db1 db2 q'. dispatch_pending True demo_events empty_job_db 9 10 [] [] [] = Inr (n, db1, q') \<and>
     dispatch_pending True demo_events q' 20 10 [] [] [] = Inr (n, db2, q')"
proof -
  obtain n db' q' where run: "dispatch_pending True demo_events empty_job_db 9 10 [] [] [] = Inr (n, db', q')"
    by (rule dispatch_run [OF demo_events_inv jobs_inv_empty])
  show ?thesis using dispatch_replay_adds_nothing [OF demo_events_inv jobs_inv_empty run, of True 20] run by blast
qed

text \<open> Recording an event and publishing it.  \<open>EventRepository.record\<close> writes an event of a key once:
  recording the key again, with any payload, returns the first row and writes neither an event nor
  an outbox row.  \<open>OutboxDispatcher.dispatch_once\<close> delivers at least once: a selected row counts one
  attempt and stays pending, with the error, exactly when the publisher raised; a published row
  is never selected again; and the rows not selected do not change.\<close>

theorem outbox_records_once_delivers_at_least_once:
  assumes "events_inv db" and "record_event pg db now ev topics = Inr (r, db1)"
    and "ev_type ev2 = ev_type ev" and "ev_dedupe_key ev2 = ev_dedupe_key ev"
  shows "record_event pg2 db1 now2 ev2 topics2 = Inr (r, db1) \<and>
     (\<forall>row \<in> set (outbox db1).
        if row \<in> set (outbox_candidates db1 limit locked)
        then (\<exists>row' \<in> set (outbox (snd (dispatch_once publish db1 t limit locked))).
                outbox_key row' = outbox_key row \<and> ob_attempt_count row' = ob_attempt_count row + 1 \<and>
                (case publish (ob_topic row) (ob_payload row) of
                   Some e \<Rightarrow> ob_published_at row' = None \<and> ob_last_error row' = Some e
                 | None \<Rightarrow> ob_published_at row' = Some t \<and> ob_last_error row' = None))
        else row \<in> set (outbox (snd (dispatch_once publish db1 t limit locked)))) \<and>
     (\<forall>row \<in> set (outbox_candidates db1 limit locked). ob_published_at row = None)"
proof -
  have inv: "events_inv db1" by (rule record_event_inv [OF assms(1,2)])
  have "find_row (same_event (event_type_value (ev_type ev)) (ev_dedupe_key ev)) (events db1) = Some r"
    using assms(2)
    by (auto simp: record_event_def insert_event_def Let_def same_event_def new_event_record_def
        split: if_splits option.splits)
  then have again: "record_event pg2 db1 now2 ev2 topics2 = Inr (r, db1)"
    by (simp add: record_event_def assms(3,4))
  let ?c = "outbox_candidates db1 limit locked"
  have cand: "row \<in> set (outbox db1) \<and> ob_published_at row = None" if "row \<in> set ?c" for row
    using that set_order_limit [of ob_created_at limit] by (fastforce simp: outbox_candidates_def)
  let ?f = "\<lambda>row. if outbox_key row \<in> outbox_key ` set ?c then publish_row publish t row else row"
  have upd: "outbox (snd (dispatch_once publish db1 t limit locked)) = map ?f (outbox db1)"
    by (simp add: dispatch_once_def Let_def)
  have row: "if row \<in> set ?c
        then (\<exists>row' \<in> set (outbox (snd (dispatch_once publish db1 t limit locked))).
                outbox_key row' = outbox_key row \<and> ob_attempt_count row' = ob_attempt_count row + 1 \<and>
                (case publish (ob_topic row) (ob_payload row) of
                   Some e \<Rightarrow> ob_published_at row' = None \<and> ob_last_error row' = Some e
                 | None \<Rightarrow> ob_published_at row' = Some t \<and> ob_last_error row' = None))
        else row \<in> set (outbox (snd (dispatch_once publish db1 t limit locked)))"
    if r: "row \<in> set (outbox db1)" for row
  proof (cases "row \<in> set ?c")
    case True
    then have "?f row = publish_row publish t row" by simp
    moreover have "?f row \<in> set (outbox (snd (dispatch_once publish db1 t limit locked)))"
      unfolding upd set_map using r by (rule imageI)
    ultimately show ?thesis using True cand [OF True]
      by (auto simp: publish_row_def Let_def outbox_key_def split: option.splits
          intro!: bexI [of _ "publish_row publish t row"])
  next
    case False
    have "outbox_key row \<notin> outbox_key ` set ?c"
      using False cand key_row_unique [OF events_invD(3) [OF inv] r] by (metis imageE)
    then have "?f row = row" by simp
    moreover have "?f row \<in> ?f ` set (outbox db1)" using r by (rule imageI)
    ultimately have "row \<in> set (outbox (snd (dispatch_once publish db1 t limit locked)))"
      unfolding upd set_map by (simp only:)
    then show ?thesis using False by (simp only: if_False)
  qed
  show ?thesis using again row cand by blast
qed

theorem outbox_records_once_delivers_at_least_once_witness:
  "record_event False demo_events 8 (demo_event\<lparr>ev_payload := []\<rparr>) [''other'']
     = Inr (new_event_record 0 6 demo_event, demo_events)"
  using outbox_records_once_delivers_at_least_once [OF empty_events_inv demo_record, of "demo_event\<lparr>ev_payload := []\<rparr>" False 8]
  by simp

end
