(* ===== verification/Entitlements.thy ===== *)
theory Entitlements
  imports Tables
begin

text \<open>
  Access grants: the table \<open>user_entitlements\<close> of \<open>app/entitlements/models.py\<close> and
  \<open>EntitlementService\<close> of \<open>app/entitlements/service.py\<close>.  The same table is written by billing,
  by the paid passes and by the referral campaign, each under sources of its own; the locale
  \<open>grant_writer\<close> states what they all keep: one row per user, entitlement and source, valid
  scopes, and nothing changed outside the keys they own.
\<close>

subsection \<open>Data\<close>

record entitlement_record =
  ue_user_id :: uuid
  ue_entitlement :: string
  ue_status :: string
  ue_source :: string
  ue_scope_type :: string
  ue_scope_ref :: "uuid option"
  ue_campaign_key :: "string option"
  ue_starts_at :: "time option"
  ue_expires_at :: "time option"
  ue_created_at :: time
  ue_updated_at :: time

type_synonym ledger = "entitlement_record list"
type_synonym grant_key = "uuid \<times> string \<times> string"

record access_grant =
  ag_entitlement :: string
  ag_source :: string
  ag_scope_type :: string
  ag_scope_ref :: "uuid option"
  ag_campaign_key :: "string option"
  ag_starts_at :: "time option"
  ag_expires_at :: "time option"

text \<open>The identifiers of \<open>canonical_series\<close> and \<open>canonical_maps\<close> that scopes refer to.\<close>

record canonical_series =
  cs_id :: uuid
  cs_event_id :: "uuid option"
  cs_stage_key :: "string option"

record canonical_map =
  cm_id :: uuid
  cm_series_id :: "uuid option"

record catalogue =
  cat_series :: "canonical_series list"
  cat_maps :: "canonical_map list"

text \<open>A resource, as callers name it: event, series and map, each optional.\<close>

record resource =
  res_event :: "uuid option"
  res_series :: "uuid option"
  res_map :: "uuid option"

datatype entitlement_error =
  UnsupportedScope | GlobalWithRef | ScopeWithoutRef | UnsupportedEntitlement | SourceRequired
| ExpiryNotAfterStart | ScopeMove

definition ai_decisions :: string where "ai_decisions = ''ai_decisions''"
definition realtime_notifications :: string where "realtime_notifications = ''realtime_notifications''"

definition premium_entitlements :: "string list" where
  "premium_entitlements = [ai_decisions, realtime_notifications]"

definition access_scopes :: "string list" where
  "access_scopes = [''GLOBAL'', ''EVENT'', ''SERIES'', ''MAP'']"

subsection \<open>Predicates\<close>

definition active_at :: "time \<Rightarrow> entitlement_record \<Rightarrow> bool" where
  "active_at current r \<longleftrightarrow>
     ue_status r = ''ACTIVE'' \<and>
     (case ue_starts_at r of None \<Rightarrow> True | Some t \<Rightarrow> t \<le> current) \<and>
     (case ue_expires_at r of None \<Rightarrow> True | Some t \<Rightarrow> current < t)"

definition scope_is :: "string \<Rightarrow> uuid option \<Rightarrow> entitlement_record \<Rightarrow> bool" where
  "scope_is scope i r \<longleftrightarrow> i \<noteq> None \<and> ue_scope_type r = scope \<and> ue_scope_ref r = i"

definition in_resource :: "resource \<Rightarrow> entitlement_record \<Rightarrow> bool" where
  "in_resource res r \<longleftrightarrow>
     (ue_scope_type r = ''GLOBAL'' \<and> ue_scope_ref r = None) \<or>
     scope_is ''EVENT'' (res_event res) r \<or> scope_is ''SERIES'' (res_series res) r \<or>
     scope_is ''MAP'' (res_map res) r"

definition resolve_event_id :: "catalogue \<Rightarrow> resource \<Rightarrow> uuid option" where
  "resolve_event_id cat res =
     (case res_event res of
        Some e \<Rightarrow> Some e
      | None \<Rightarrow>
          (case res_series res of
             Some s \<Rightarrow> Option.bind (find_row (\<lambda>r. cs_id r = s) (cat_series cat)) cs_event_id
           | None \<Rightarrow>
               (case res_map res of
                  Some m \<Rightarrow>
                    Option.bind (find_row (\<lambda>r. cm_id r = m) (cat_maps cat))
                      (\<lambda>mp. Option.bind (cm_series_id mp)
                        (\<lambda>s. Option.bind (find_row (\<lambda>r. cs_id r = s) (cat_series cat)) cs_event_id))
                | None \<Rightarrow> None)))"

definition resolved :: "catalogue \<Rightarrow> resource \<Rightarrow> resource" where
  "resolved cat res = res\<lparr>res_event := resolve_event_id cat res\<rparr>"

definition normalize_access_scope :: "string \<Rightarrow> uuid option \<Rightarrow> entitlement_error + (string \<times> uuid option)" where
  "normalize_access_scope scope_type scope_ref =
     (let normalized = upper (strip scope_type)
      in if normalized \<notin> set access_scopes then Inl UnsupportedScope
         else if normalized = ''GLOBAL''
         then (if scope_ref \<noteq> None then Inl GlobalWithRef else Inr (normalized, None))
         else if scope_ref = None then Inl ScopeWithoutRef
         else Inr (normalized, scope_ref))"

subsection \<open>Queries\<close>

definition active_entitlements :: "ledger \<Rightarrow> uuid \<Rightarrow> time \<Rightarrow> string list" where
  "active_entitlements t user current =
     sort (remdups (map ue_entitlement
       (filter (\<lambda>r. ue_user_id r = user \<and> ue_scope_type r = ''GLOBAL'' \<and> ue_scope_ref r = None \<and> active_at current r) t)))"

definition grant_payload :: "entitlement_record \<Rightarrow> access_grant" where
  "grant_payload r =
     \<lparr>ag_entitlement = ue_entitlement r, ag_source = ue_source r, ag_scope_type = ue_scope_type r,
      ag_scope_ref = ue_scope_ref r, ag_campaign_key = ue_campaign_key r, ag_starts_at = ue_starts_at r,
      ag_expires_at = ue_expires_at r\<rparr>"

text \<open>PostgreSQL sorts NULL after every value.\<close>

definition nulls_last :: "time option \<Rightarrow> int \<times> time" where
  "nulls_last t = (case t of None \<Rightarrow> (1, 0) | Some u \<Rightarrow> (0, u))"

definition active_grants :: "ledger \<Rightarrow> uuid \<Rightarrow> time \<Rightarrow> access_grant list" where
  "active_grants t user current =
     map grant_payload
       (sort_key (\<lambda>r. (ue_entitlement r, ue_scope_type r, nulls_last (ue_expires_at r)))
         (filter (\<lambda>r. ue_user_id r = user \<and> active_at current r) t))"

definition matching_scopes :: "ledger \<Rightarrow> uuid \<Rightarrow> string \<Rightarrow> resource \<Rightarrow> time \<Rightarrow> string list" where
  "matching_scopes t user entitlement res current =
     map ue_scope_type
       (filter (\<lambda>r. ue_user_id r = user \<and> ue_entitlement r = entitlement \<and> active_at current r \<and> in_resource res r) t)"

definition access_scope ::
  "catalogue \<Rightarrow> ledger \<Rightarrow> uuid \<Rightarrow> string \<Rightarrow> resource \<Rightarrow> time \<Rightarrow> string option" where
  "access_scope cat t user entitlement res current =
     (let scopes = matching_scopes t user entitlement (resolved cat res) current
      in find_row (\<lambda>s. s \<in> set scopes) access_scopes)"

definition no_resource :: resource where
  "no_resource = \<lparr>res_event = None, res_series = None, res_map = None\<rparr>"

definition has_entitlement :: "catalogue \<Rightarrow> ledger \<Rightarrow> uuid \<Rightarrow> string \<Rightarrow> time \<Rightarrow> bool" where
  "has_entitlement cat t user entitlement current \<longleftrightarrow>
     access_scope cat t user entitlement no_resource current = Some ''GLOBAL''"

definition has_any_entitlement :: "ledger \<Rightarrow> uuid \<Rightarrow> string \<Rightarrow> time \<Rightarrow> bool" where
  "has_any_entitlement t user entitlement current \<longleftrightarrow>
     find_row (\<lambda>r. ue_user_id r = user \<and> ue_entitlement r = entitlement \<and> active_at current r) t \<noteq> None"

definition has_resource_entitlement ::
  "catalogue \<Rightarrow> ledger \<Rightarrow> uuid \<Rightarrow> string \<Rightarrow> resource \<Rightarrow> time \<Rightarrow> bool" where
  "has_resource_entitlement cat t user entitlement res current \<longleftrightarrow>
     access_scope cat t user entitlement res current \<noteq> None"

definition eligible_user_ids_for_resource ::
  "catalogue \<Rightarrow> ledger \<Rightarrow> uuid set \<Rightarrow> string \<Rightarrow> resource \<Rightarrow> time \<Rightarrow> uuid set" where
  "eligible_user_ids_for_resource cat t user_ids entitlement res current =
     (if user_ids = {} then {}
      else set (remdups (map ue_user_id
             (filter (\<lambda>r. ue_user_id r \<in> user_ids \<and> ue_entitlement r = entitlement \<and> active_at current r \<and>
                          in_resource (resolved cat res) r) t))))"

subsection \<open>Writes\<close>

definition grant_key :: "entitlement_record \<Rightarrow> grant_key" where
  "grant_key r = (ue_user_id r, ue_entitlement r, ue_source r)"

definition find_grant :: "grant_key \<Rightarrow> ledger \<Rightarrow> entitlement_record option" where
  "find_grant k t = find_row (\<lambda>r. grant_key r = k) t"

lemma grant_key_update [simp]:
  "grant_key (r\<lparr>ue_status := a\<rparr>) = grant_key r" "grant_key (r\<lparr>ue_campaign_key := b\<rparr>) = grant_key r"
  "grant_key (r\<lparr>ue_starts_at := c\<rparr>) = grant_key r" "grant_key (r\<lparr>ue_expires_at := d\<rparr>) = grant_key r"
  "grant_key (r\<lparr>ue_updated_at := e\<rparr>) = grant_key r"
  by (simp_all add: grant_key_def)

text \<open>Read the row of a key for update; add a new row, or change the one that was read.\<close>

definition upsert_grant ::
  "entitlement_record \<Rightarrow> (entitlement_record \<Rightarrow> entitlement_record) \<Rightarrow> ledger \<Rightarrow> ledger" where
  "upsert_grant new upd t =
     (case find_grant (grant_key new) t of
        None \<Rightarrow> t @ [new]
      | Some _ \<Rightarrow> update_first (\<lambda>r. grant_key r = grant_key new) upd t)"

definition normalize_campaign :: "string option \<Rightarrow> string option" where
  "normalize_campaign c = (case c of None \<Rightarrow> None | Some s \<Rightarrow> if strip s = [] then None else Some (strip s))"

definition grant ::
  "ledger \<Rightarrow> time \<Rightarrow> uuid \<Rightarrow> string \<Rightarrow> string \<Rightarrow> time option \<Rightarrow> time option \<Rightarrow> string \<Rightarrow> uuid option \<Rightarrow>
   string option \<Rightarrow> entitlement_error + ledger" where
  "grant t now user entitlement source starts_at expires_at scope_type scope_ref campaign =
     (case normalize_access_scope scope_type scope_ref of
        Inl e \<Rightarrow> Inl e
      | Inr (scope, ref) \<Rightarrow>
          if entitlement \<notin> set premium_entitlements then Inl UnsupportedEntitlement
          else if strip source = [] then Inl SourceRequired
          else if (case (starts_at, expires_at) of (Some s, Some e) \<Rightarrow> e \<le> s | _ \<Rightarrow> False) then Inl ExpiryNotAfterStart
          else
            (let new = \<lparr>ue_user_id = user, ue_entitlement = entitlement, ue_status = ''ACTIVE'',
                        ue_source = strip source, ue_scope_type = scope, ue_scope_ref = ref,
                        ue_campaign_key = normalize_campaign campaign, ue_starts_at = starts_at,
                        ue_expires_at = expires_at, ue_created_at = now, ue_updated_at = now\<rparr>
             in case find_grant (grant_key new) t of
                  None \<Rightarrow> Inr (t @ [new])
                | Some r \<Rightarrow>
                    if ue_scope_type r \<noteq> scope \<or> ue_scope_ref r \<noteq> ref then Inl ScopeMove
                    else Inr (update_first (\<lambda>r. grant_key r = grant_key new)
                           (\<lambda>r. r\<lparr>ue_status := ''ACTIVE'', ue_campaign_key := normalize_campaign campaign,
                                  ue_starts_at := starts_at, ue_expires_at := expires_at, ue_updated_at := now\<rparr>) t)))"

definition revoke :: "ledger \<Rightarrow> time \<Rightarrow> uuid \<Rightarrow> string \<Rightarrow> string \<Rightarrow> ledger" where
  "revoke t now user entitlement source =
     update_first (\<lambda>r. grant_key r = (user, entitlement, source))
       (\<lambda>r. r\<lparr>ue_status := ''REVOKED'', ue_updated_at := now\<rparr>) t"

fun grant_development :: "ledger \<Rightarrow> time \<Rightarrow> uuid \<Rightarrow> string list \<Rightarrow> entitlement_error + ledger" where
  "grant_development t now user [] = Inr t"
| "grant_development t now user (e # es) =
     (case grant t now user e ''development'' None None ''GLOBAL'' None None of
        Inl err \<Rightarrow> Inl err
      | Inr t' \<Rightarrow> grant_development t' now user es)"

definition ensure_development_grants ::
  "ledger \<Rightarrow> time \<Rightarrow> uuid \<Rightarrow> string \<Rightarrow> string list \<Rightarrow> entitlement_error + (string list \<times> ledger)" where
  "ensure_development_grants t now user email allowed_emails =
     (let allowlist = map (\<lambda>v. lower (strip v)) (filter (\<lambda>v. strip v \<noteq> []) allowed_emails)
      in if lower email \<notin> set allowlist then Inr (active_entitlements t user now, t)
         else case grant_development t now user premium_entitlements of
                Inl e \<Rightarrow> Inl e
              | Inr t' \<Rightarrow> Inr (active_entitlements t' user now, t'))"

subsection \<open>The contract of the writers\<close>

text \<open>The unique constraint and the check constraint of the table.\<close>

definition scope_ok :: "entitlement_record \<Rightarrow> bool" where
  "scope_ok r \<longleftrightarrow> ue_scope_type r \<in> set access_scopes \<and> (ue_scope_type r = ''GLOBAL'' \<longleftrightarrow> ue_scope_ref r = None)"

definition ledger_inv :: "ledger \<Rightarrow> bool" where
  "ledger_inv t \<longleftrightarrow> distinct (map grant_key t) \<and> (\<forall>r \<in> set t. scope_ok r)"

definition outside :: "grant_key set \<Rightarrow> ledger \<Rightarrow> ledger" where
  "outside K t = filter (\<lambda>r. grant_key r \<notin> K) t"

lemma outside_mono: "outside K t = outside K t' \<Longrightarrow> K \<subseteq> L \<Longrightarrow> outside L t = outside L t'"
proof -
  assume eq: "outside K t = outside K t'" and sub: "K \<subseteq> L"
  have "outside L u = filter (\<lambda>r. grant_key r \<notin> L) (outside K u)" for u
    using sub by (auto simp: outside_def intro!: filter_cong)
  then show ?thesis by (simp add: eq)
qed

lemma in_outside: "r \<in> set (outside K t) \<longleftrightarrow> r \<in> set t \<and> grant_key r \<notin> K"
  by (auto simp: outside_def)

locale grant_writer =
  fixes wr :: "ledger \<Rightarrow> ledger" and mine :: "grant_key set"
  assumes wr_inv: "ledger_inv t \<Longrightarrow> ledger_inv (wr t)"
    and wr_frame: "outside mine (wr t) = outside mine t"
begin

lemma other_kept: "grant_key r \<notin> mine \<Longrightarrow> r \<in> set (wr t) \<longleftrightarrow> r \<in> set t"
  using wr_frame [of t] in_outside [of r mine] by metis

lemma other_user_scopes:
  assumes "\<And>k. k \<in> mine \<Longrightarrow> fst k \<noteq> user \<or> fst (snd k) \<noteq> entitlement"
  shows "set (matching_scopes (wr t) user entitlement res current) = set (matching_scopes t user entitlement res current)"
proof -
  have "r \<in> set (wr t) \<longleftrightarrow> r \<in> set t" if "ue_user_id r = user" "ue_entitlement r = entitlement" for r
    by (rule other_kept) (use assms [of "grant_key r"] that in \<open>auto simp: grant_key_def\<close>)
  then show ?thesis by (auto simp: matching_scopes_def)
qed

lemma other_user_access:
  assumes "\<And>k. k \<in> mine \<Longrightarrow> fst k \<noteq> user \<or> fst (snd k) \<noteq> entitlement"
  shows "access_scope cat (wr t) user entitlement res current = access_scope cat t user entitlement res current"
  by (simp add: access_scope_def other_user_scopes [OF assms])

end

lemma upsert_inv:
  assumes "ledger_inv t" and "scope_ok new"
    and "\<And>r. grant_key r = grant_key new \<Longrightarrow> scope_ok r \<Longrightarrow> grant_key (upd r) = grant_key new \<and> scope_ok (upd r)"
    and "\<And>r. grant_key r = grant_key new \<Longrightarrow> grant_key (upd r) = grant_key new"
  shows "ledger_inv (upsert_grant new upd t)"
proof (cases "find_grant (grant_key new) t")
  case None
  then have "grant_key new \<notin> grant_key ` set t" by (auto simp: find_grant_def find_row_None_iff)
  then show ?thesis using assms(1,2) None by (simp add: ledger_inv_def upsert_grant_def)
next
  case (Some r)
  have "map grant_key (update_first (\<lambda>r. grant_key r = grant_key new) upd t) = map grant_key t"
    by (rule map_update_first) (use assms(4) in auto)
  moreover have "scope_ok r" if "r \<in> set (update_first (\<lambda>r. grant_key r = grant_key new) upd t)" for r
    using in_update_firstD [OF that] assms(1,3) by (auto simp: ledger_inv_def)
  ultimately show ?thesis using Some assms(1) by (auto simp: ledger_inv_def upsert_grant_def)
qed

lemma upsert_frame:
  assumes "\<And>r. grant_key r = grant_key new \<Longrightarrow> grant_key (upd r) = grant_key new"
  shows "outside {grant_key new} (upsert_grant new upd t) = outside {grant_key new} t"
  using assms
  by (auto simp: upsert_grant_def outside_def split: option.split intro: filter_update_first_other)

lemma normalize_access_scope_ok:
  "normalize_access_scope st sr = Inr (s, r) \<Longrightarrow> s \<in> set access_scopes \<and> (s = ''GLOBAL'' \<longleftrightarrow> r = None)"
  by (auto simp: normalize_access_scope_def Let_def split: if_splits)

lemma grant_Inr:
  assumes "grant t now user ent src b e st sr c = Inr t'"
  obtains new where "grant_key new = (user, ent, strip src)" "scope_ok new" "ent \<in> set premium_entitlements"
    "normalize_access_scope st sr = Inr (ue_scope_type new, ue_scope_ref new)" "ue_status new = ''ACTIVE''"
    "ue_starts_at new = b" "ue_expires_at new = e"
    "t' = upsert_grant new (\<lambda>r. r\<lparr>ue_status := ''ACTIVE'', ue_campaign_key := normalize_campaign c,
             ue_starts_at := b, ue_expires_at := e, ue_updated_at := now\<rparr>) t"
    "\<And>r. find_grant (grant_key new) t = Some r \<Longrightarrow> ue_scope_type r = ue_scope_type new \<and> ue_scope_ref r = ue_scope_ref new"
proof -
  obtain s r where n: "normalize_access_scope st sr = Inr (s, r)"
    using assms by (auto simp: grant_def split: sum.splits)
  let ?new = "\<lparr>ue_user_id = user, ue_entitlement = ent, ue_status = ''ACTIVE'',
      ue_source = strip src, ue_scope_type = s, ue_scope_ref = r, ue_campaign_key = normalize_campaign c,
      ue_starts_at = b, ue_expires_at = e, ue_created_at = now, ue_updated_at = now\<rparr>"
  show thesis
    by (rule that [of ?new])
      (use assms n normalize_access_scope_ok [OF n] in
        \<open>auto simp: grant_def grant_key_def scope_ok_def upsert_grant_def Let_def split: if_splits option.splits\<close>)
qed

lemma grant_inv: "ledger_inv t \<Longrightarrow> grant t now user ent src b e st sr c = Inr t' \<Longrightarrow> ledger_inv t'"
  by (erule grant_Inr) (auto intro!: upsert_inv simp: grant_key_def scope_ok_def)

lemma grant_frame:
  assumes "grant t now user ent src b e st sr c = Inr t'"
  shows "outside {(user, ent, strip src)} t' = outside {(user, ent, strip src)} t"
  using assms
proof (rule grant_Inr)
  fix new
  assume k: "grant_key new = (user, ent, strip src)"
    and t': "t' = upsert_grant new (\<lambda>r. r\<lparr>ue_status := ''ACTIVE'', ue_campaign_key := normalize_campaign c,
             ue_starts_at := b, ue_expires_at := e, ue_updated_at := now\<rparr>) t"
  show ?thesis unfolding t' k [symmetric] by (rule upsert_frame) (simp add: grant_key_def)
qed

text \<open>A call that raises rolls its transaction back.\<close>

interpretation gg: grant_writer
  "\<lambda>t. case grant t now user ent src b e st sr c of Inl _ \<Rightarrow> t | Inr t' \<Rightarrow> t'" "{(user, ent, strip src)}"
  by unfold_locales (auto split: sum.split dest: grant_inv grant_frame)

lemma revoke_frame: "outside {(user, ent, src)} (revoke t now user ent src) = outside {(user, ent, src)} t"
  unfolding revoke_def outside_def by (rule filter_update_first_other) (simp add: grant_key_def)

lemma revoke_inv: "ledger_inv t \<Longrightarrow> ledger_inv (revoke t now user ent src)"
  unfolding revoke_def ledger_inv_def
  by (auto simp: map_update_first grant_key_def scope_ok_def dest!: in_update_firstD)

interpretation gr: grant_writer "\<lambda>t. revoke t now user ent src" "{(user, ent, src)}"
  by unfold_locales (simp_all add: revoke_frame revoke_inv)

text \<open>Writers compose: the keys they may touch add up.\<close>

lemma grant_writer_id: "grant_writer (\<lambda>t. t) {}"
  by unfold_locales simp_all

lemma grant_writer_comp:
  assumes "grant_writer v K" and "grant_writer w L"
  shows "grant_writer (\<lambda>t. w (v t)) (K \<union> L)"
proof -
  show ?thesis
  proof
    show "ledger_inv (w (v t))" if "ledger_inv t" for t
      by (rule grant_writer.wr_inv [OF assms(2)], rule grant_writer.wr_inv [OF assms(1) that])
    show "outside (K \<union> L) (w (v t)) = outside (K \<union> L) t" for t
      using outside_mono [OF grant_writer.wr_frame [OF assms(2), of "v t"], of "K \<union> L"]
        outside_mono [OF grant_writer.wr_frame [OF assms(1), of t], of "K \<union> L"] by simp
  qed
qed

end
