(* ===== verification/EventLog.thy ===== *)
theory EventLog
  imports Prelude
begin

text \<open>
  The contract of an idempotent webhook handler: events are remembered, a remembered event changes
  nothing when it is delivered again, and nothing forgets it.  An event comes with the clock
  reading of its delivery; a handler that raises rolls back.
\<close>

definition deliver1 :: "('db \<Rightarrow> time \<Rightarrow> 'e \<Rightarrow> 'err + ('res \<times> 'db)) \<Rightarrow> 'db \<Rightarrow> time \<times> 'e \<Rightarrow> 'db" where
  "deliver1 app db d = (case app db (fst d) (snd d) of Inl _ \<Rightarrow> db | Inr (_, db') \<Rightarrow> db')"

fun deliver :: "('db \<Rightarrow> time \<Rightarrow> 'e \<Rightarrow> 'err + ('res \<times> 'db)) \<Rightarrow> 'db \<Rightarrow> (time \<times> 'e) list \<Rightarrow> 'db" where
  "deliver app db [] = db"
| "deliver app db (d # ds) = deliver app (deliver1 app db d) ds"

lemma deliver_append: "deliver app db (ds @ ds') = deliver app (deliver app db ds) ds'"
  by (induction ds arbitrary: db) simp_all

locale event_log =
  fixes app :: "'db \<Rightarrow> time \<Rightarrow> 'e \<Rightarrow> 'err + ('res \<times> 'db)"
    and recorded :: "'db \<Rightarrow> 'e \<Rightarrow> bool"
  assumes app_recorded: "app db now e = Inr (r, db') \<Longrightarrow> recorded db' e \<or> db' = db"
    and recorded_noop: "recorded db e \<Longrightarrow> \<exists>r. app db now e = Inr (r, db)"
    and recorded_kept: "app db now e' = Inr (r, db') \<Longrightarrow> recorded db e \<Longrightarrow> recorded db' e"
begin

lemma deliver1_noop: "recorded db (snd d) \<Longrightarrow> deliver1 app db d = db"
  using recorded_noop [of db "snd d" "fst d"] by (auto simp: deliver1_def)

lemma deliver1_kept: "recorded db e \<Longrightarrow> recorded (deliver1 app db d) e"
  by (auto simp: deliver1_def split: sum.split dest: recorded_kept)

lemma deliver_kept: "recorded db e \<Longrightarrow> recorded (deliver app db ds) e"
  by (induction ds arbitrary: db) (auto simp: deliver1_kept)

lemma deliver_noop: "\<forall>d \<in> set ds. recorded db (snd d) \<Longrightarrow> deliver app db ds = db"
  by (induction ds) (simp_all add: deliver1_noop)

text \<open>However often and in whatever order the accepted events come back, nothing happens.\<close>

lemma redelivery:
  assumes "\<And>e. e \<in> snd ` set again \<Longrightarrow> recorded db e"
  shows "deliver app (deliver app db ds) again = deliver app db ds"
  by (rule deliver_noop) (use assms deliver_kept in auto)

end

end
