(* ===== verification/Billing.thy ===== *)
theory Billing
  imports Entitlements EventLog
begin

text \<open>
  Provider-neutral billing: the tables of \<open>app/billing/models.py\<close> and
  \<open>BillingEntitlementService.apply_subscription_event\<close> of \<open>app/billing/service.py\<close>.  The SHA-256
  digests of the code are two functions the model takes as arguments: \<open>digest\<close> of the normalized
  content of an event and \<open>ref_digest\<close> of a subscription reference.  The advisory locks serialize
  deliveries, so each one is a step of its own.
\<close>

subsection \<open>Data\<close>

record billing_subscription =
  bs_user_id :: uuid
  bs_provider :: string
  bs_subscription_ref :: string
  bs_customer_ref :: "string option"
  bs_plan_key :: string
  bs_access_state :: string
  bs_provider_status :: "string option"
  bs_current_period_end :: "time option"
  bs_last_event_occurred_at :: time
  bs_created_at :: time
  bs_updated_at :: time

record billing_event_record =
  be_provider :: string
  be_event_ref :: string
  be_subscription_ref :: string
  be_user_id :: uuid
  be_occurred_at :: time
  be_payload_digest :: string
  be_applied :: bool
  be_processed_at :: time

record billing_checkout =
  bc_user_id :: uuid
  bc_provider :: string
  bc_checkout_ref :: string
  bc_customer_ref :: "string option"
  bc_offer_key :: string
  bc_price_ref :: string
  bc_plan_key :: string
  bc_recurring :: bool
  bc_grant_days :: "int option"
  bc_status :: string
  bc_completed_at :: "time option"
  bc_created_at :: time
  bc_updated_at :: time

record billing_db =
  subscriptions :: "billing_subscription list"
  billing_events :: "billing_event_record list"
  bill_ledger :: ledger

text \<open>The arguments of \<open>apply_subscription_event\<close>, as the adapter passes them and normalized.\<close>

record subscription_event =
  se_provider :: string
  se_event_ref :: string
  se_occurred_at :: "py_datetime option"
  se_user_id :: uuid
  se_subscription_ref :: string
  se_plan_key :: string
  se_access_state :: string
  se_customer_ref :: "string option"
  se_provider_status :: "string option"
  se_current_period_end :: "py_datetime option"

record event_content =
  ec_occurred_at :: time
  ec_user_id :: uuid
  ec_subscription_ref :: string
  ec_plan_key :: string
  ec_access_state :: string
  ec_customer_ref :: "string option"
  ec_provider_status :: "string option"
  ec_current_period_end :: "time option"

record normal_event =
  ne_provider :: string
  ne_event_ref :: string
  ne_content :: event_content

record billing_result =
  br_duplicate :: bool
  br_stale :: bool
  br_active_entitlements :: "string list"

datatype billing_error =
  Required string | UnsupportedPlan string | UnsupportedState string | OccurrenceRequired
| ReplayedDifferently | OwnedByAnother

subsection \<open>Normalization\<close>

definition required :: "string \<Rightarrow> string \<Rightarrow> billing_error + string" where
  "required value label = (if strip value = [] then Inl (Required label) else Inr (strip value))"

definition plan_entitlements :: "string \<Rightarrow> string list option" where
  "plan_entitlements plan = (if plan = ''PRO'' then Some premium_entitlements else None)"

definition normalize_event :: "subscription_event \<Rightarrow> billing_error + normal_event" where
  "normalize_event e =
     (case required (se_provider e) ''billing provider'' of Inl x \<Rightarrow> Inl x | Inr provider \<Rightarrow>
      case required (se_event_ref e) ''billing event reference'' of Inl x \<Rightarrow> Inl x | Inr event_ref \<Rightarrow>
      case required (se_subscription_ref e) ''billing subscription reference'' of Inl x \<Rightarrow> Inl x | Inr sub_ref \<Rightarrow>
      case required (se_plan_key e) ''billing plan'' of Inl x \<Rightarrow> Inl x | Inr plan \<Rightarrow>
      case required (se_access_state e) ''billing access state'' of Inl x \<Rightarrow> Inl x | Inr state \<Rightarrow>
        if plan_entitlements (upper plan) = None then Inl (UnsupportedPlan (se_plan_key e))
        else if upper state \<noteq> ''ACTIVE'' \<and> upper state \<noteq> ''INACTIVE'' then Inl (UnsupportedState (se_access_state e))
        else case se_occurred_at e of
               None \<Rightarrow> Inl OccurrenceRequired
             | Some occurred \<Rightarrow>
                 Inr \<lparr>ne_provider = lower provider, ne_event_ref = event_ref,
                      ne_content = \<lparr>ec_occurred_at = ensure_utc occurred, ec_user_id = se_user_id e,
                        ec_subscription_ref = sub_ref, ec_plan_key = upper plan, ec_access_state = upper state,
                        ec_customer_ref = se_customer_ref e, ec_provider_status = se_provider_status e,
                        ec_current_period_end = map_option ensure_utc (se_current_period_end e)\<rparr>\<rparr>)"

definition billing_source :: "(string \<Rightarrow> string) \<Rightarrow> string \<Rightarrow> string \<Rightarrow> string" where
  "billing_source ref_digest provider subscription_ref =
     ''billing:'' @ provider @ '':'' @ ref_digest subscription_ref"

subsection \<open>Application\<close>

definition billing_active_entitlements :: "ledger \<Rightarrow> uuid \<Rightarrow> time \<Rightarrow> string list" where
  "billing_active_entitlements t user now =
     sort (remdups (map ue_entitlement (filter (\<lambda>r. ue_user_id r = user \<and> active_at now r) t)))"

definition same_event_ref :: "normal_event \<Rightarrow> billing_event_record \<Rightarrow> bool" where
  "same_event_ref e r \<longleftrightarrow> be_provider r = ne_provider e \<and> be_event_ref r = ne_event_ref e"

definition same_subscription :: "string \<Rightarrow> string \<Rightarrow> billing_subscription \<Rightarrow> bool" where
  "same_subscription provider ref s \<longleftrightarrow> bs_provider s = provider \<and> bs_subscription_ref s = ref"

definition billing_event_row :: "(event_content \<Rightarrow> string) \<Rightarrow> normal_event \<Rightarrow> bool \<Rightarrow> time \<Rightarrow> billing_event_record" where
  "billing_event_row digest e applied now =
     (let c = ne_content e
      in \<lparr>be_provider = ne_provider e, be_event_ref = ne_event_ref e, be_subscription_ref = ec_subscription_ref c,
          be_user_id = ec_user_id c, be_occurred_at = ec_occurred_at c, be_payload_digest = digest c,
          be_applied = applied, be_processed_at = now\<rparr>)"

definition new_subscription :: "normal_event \<Rightarrow> time \<Rightarrow> billing_subscription" where
  "new_subscription e now =
     (let c = ne_content e
      in \<lparr>bs_user_id = ec_user_id c, bs_provider = ne_provider e, bs_subscription_ref = ec_subscription_ref c,
          bs_customer_ref = ec_customer_ref c, bs_plan_key = ec_plan_key c, bs_access_state = ec_access_state c,
          bs_provider_status = ec_provider_status c, bs_current_period_end = ec_current_period_end c,
          bs_last_event_occurred_at = ec_occurred_at c, bs_created_at = now, bs_updated_at = now\<rparr>)"

definition update_subscription :: "normal_event \<Rightarrow> time \<Rightarrow> billing_subscription \<Rightarrow> billing_subscription" where
  "update_subscription e now s =
     (let c = ne_content e
      in s\<lparr>bs_customer_ref := (case ec_customer_ref c of
                                 Some r \<Rightarrow> (if r = [] then bs_customer_ref s else Some r)
                               | None \<Rightarrow> bs_customer_ref s),
           bs_plan_key := ec_plan_key c, bs_access_state := ec_access_state c,
           bs_provider_status := ec_provider_status c, bs_current_period_end := ec_current_period_end c,
           bs_last_event_occurred_at := ec_occurred_at c, bs_updated_at := now\<rparr>)"

text \<open>One entitlement of the loop.\<close>

definition billing_grant_row :: "event_content \<Rightarrow> string \<Rightarrow> time \<Rightarrow> string \<Rightarrow> ledger \<Rightarrow> ledger" where
  "billing_grant_row c source now entitlement t =
     (let should_be_active = (ec_access_state c = ''ACTIVE'' \<and>
            (case plan_entitlements (ec_plan_key c) of None \<Rightarrow> False | Some es \<Rightarrow> entitlement \<in> set es));
          k = (ec_user_id c, entitlement, source)
      in case find_grant k t of
           None \<Rightarrow>
             (if should_be_active
              then t @ [\<lparr>ue_user_id = ec_user_id c, ue_entitlement = entitlement, ue_status = ''ACTIVE'',
                         ue_source = source, ue_scope_type = ''GLOBAL'', ue_scope_ref = None,
                         ue_campaign_key = None, ue_starts_at = Some (ec_occurred_at c),
                         ue_expires_at = ec_current_period_end c, ue_created_at = now, ue_updated_at = now\<rparr>]
              else t)
         | Some _ \<Rightarrow>
             update_first (\<lambda>r. grant_key r = k)
               (\<lambda>r. r\<lparr>ue_status := (if should_be_active then ''ACTIVE'' else ''REVOKED''),
                      ue_starts_at := (if should_be_active then Some (ec_occurred_at c) else ue_starts_at r),
                      ue_expires_at := (if should_be_active then ec_current_period_end c else ue_expires_at r),
                      ue_updated_at := now\<rparr>) t)"

definition billing_grants :: "event_content \<Rightarrow> string \<Rightarrow> time \<Rightarrow> ledger \<Rightarrow> ledger" where
  "billing_grants c source now t = fold (billing_grant_row c source now) premium_entitlements t"

definition apply_normal_event ::
  "(event_content \<Rightarrow> string) \<Rightarrow> (string \<Rightarrow> string) \<Rightarrow> billing_db \<Rightarrow> time \<Rightarrow> normal_event \<Rightarrow>
   billing_error + (billing_result \<times> billing_db)" where
  "apply_normal_event digest ref_digest db now e =
     (let c = ne_content e; user = ec_user_id c;
          same_sub = same_subscription (ne_provider e) (ec_subscription_ref c)
      in case find_row (same_event_ref e) (billing_events db) of
           Some existing \<Rightarrow>
             (if be_payload_digest existing \<noteq> digest c then Inl ReplayedDifferently
              else Inr (\<lparr>br_duplicate = True, br_stale = \<not> be_applied existing,
                         br_active_entitlements = billing_active_entitlements (bill_ledger db) user now\<rparr>, db))
         | None \<Rightarrow>
             (let subscription = find_row same_sub (subscriptions db)
              in if (case subscription of None \<Rightarrow> False | Some s \<Rightarrow> bs_user_id s \<noteq> user) then Inl OwnedByAnother
                 else if (case subscription of None \<Rightarrow> False
                          | Some s \<Rightarrow> ec_occurred_at c < bs_last_event_occurred_at s)
                 then Inr (\<lparr>br_duplicate = False, br_stale = True,
                            br_active_entitlements = billing_active_entitlements (bill_ledger db) user now\<rparr>,
                           db\<lparr>billing_events := billing_events db @ [billing_event_row digest e False now]\<rparr>)
                 else
                   (let subs' = (case subscription of
                                   None \<Rightarrow> subscriptions db @ [new_subscription e now]
                                 | Some _ \<Rightarrow> update_first same_sub (update_subscription e now) (subscriptions db));
                        t' = billing_grants c (billing_source ref_digest (ne_provider e) (ec_subscription_ref c)) now
                               (bill_ledger db)
                    in Inr (\<lparr>br_duplicate = False, br_stale = False,
                             br_active_entitlements = billing_active_entitlements t' user now\<rparr>,
                            \<lparr>subscriptions = subs',
                             billing_events = billing_events db @ [billing_event_row digest e True now],
                             bill_ledger = t'\<rparr>))))"

definition apply_subscription_event ::
  "(event_content \<Rightarrow> string) \<Rightarrow> (string \<Rightarrow> string) \<Rightarrow> billing_db \<Rightarrow> time \<Rightarrow> subscription_event \<Rightarrow>
   billing_error + (billing_result \<times> billing_db)" where
  "apply_subscription_event digest ref_digest db now e =
     (case normalize_event e of
        Inl x \<Rightarrow> Inl x
      | Inr n \<Rightarrow> apply_normal_event digest ref_digest db now n)"

subsection \<open>The writes to the ledger\<close>

lemma billing_grant_row_writer:
  "grant_writer (billing_grant_row c source now entitlement) {(ec_user_id c, entitlement, source)}"
proof
  show "ledger_inv (billing_grant_row c source now entitlement t)" if inv: "ledger_inv t" for t
  proof (cases "find_grant (ec_user_id c, entitlement, source) t")
    case None
    then have "(ec_user_id c, entitlement, source) \<notin> grant_key ` set t"
      by (auto simp: find_grant_def find_row_None_iff)
    then show ?thesis using inv None
      by (auto simp: billing_grant_row_def Let_def ledger_inv_def grant_key_def scope_ok_def access_scopes_def)
  next
    case (Some r)
    then show ?thesis using inv
      by (auto simp: billing_grant_row_def Let_def ledger_inv_def map_update_first grant_key_def scope_ok_def
          dest!: in_update_firstD)
  qed
  show "outside {(ec_user_id c, entitlement, source)} (billing_grant_row c source now entitlement t)
      = outside {(ec_user_id c, entitlement, source)} t" for t
  proof -
    have "filter (\<lambda>r. grant_key r \<notin> {k}) (update_first (\<lambda>r. grant_key r = k) f t) = filter (\<lambda>r. grant_key r \<notin> {k}) t"
      if "\<And>r. grant_key r = k \<Longrightarrow> grant_key (f r) = k" for f k
      by (rule filter_update_first_other) (use that in auto)
    then show ?thesis
      by (auto simp: billing_grant_row_def outside_def Let_def grant_key_def split: option.split)
  qed
qed

definition subscription_keys :: "event_content \<Rightarrow> string \<Rightarrow> grant_key set" where
  "subscription_keys c source = {(ec_user_id c, ai_decisions, source), (ec_user_id c, realtime_notifications, source)}"

interpretation bg: grant_writer "billing_grants c source now" "subscription_keys c source"
proof -
  have "grant_writer (\<lambda>t. billing_grant_row c source now realtime_notifications
            (billing_grant_row c source now ai_decisions t))
          ({(ec_user_id c, ai_decisions, source)} \<union> {(ec_user_id c, realtime_notifications, source)})"
    by (rule grant_writer_comp [OF billing_grant_row_writer billing_grant_row_writer])
  then show "grant_writer (billing_grants c source now) (subscription_keys c source)"
    by (simp add: billing_grants_def [abs_def] premium_entitlements_def subscription_keys_def insert_commute)
qed

subsection \<open>Idempotence\<close>

definition billing_recorded :: "(event_content \<Rightarrow> string) \<Rightarrow> billing_db \<Rightarrow> normal_event \<Rightarrow> bool" where
  "billing_recorded digest db e \<longleftrightarrow>
     (\<exists>r. find_row (same_event_ref e) (billing_events db) = Some r \<and> be_payload_digest r = digest (ne_content e))"

lemma apply_events_kept:
  "apply_normal_event digest rd db now e = Inr (r, db') \<Longrightarrow> \<exists>new. billing_events db' = billing_events db @ new"
  by (auto simp: apply_normal_event_def Let_def split: if_splits option.splits)

interpretation bl: event_log "apply_normal_event digest ref_digest" "billing_recorded digest"
proof
  show "billing_recorded digest db' e \<or> db' = db"
    if "apply_normal_event digest ref_digest db now e = Inr (r, db')" for db now e r db'
    using that
    by (auto simp: apply_normal_event_def billing_recorded_def Let_def billing_event_row_def same_event_ref_def
        split: if_splits option.splits)
  show "\<exists>r. apply_normal_event digest ref_digest db now e = Inr (r, db)"
    if "billing_recorded digest db e" for db e now
    using that by (auto simp: billing_recorded_def apply_normal_event_def Let_def)
  show "billing_recorded digest db' e"
    if "apply_normal_event digest ref_digest db now e' = Inr (r, db')" "billing_recorded digest db e" for db now e' r db' e
    using that apply_events_kept by (fastforce simp: billing_recorded_def)
qed

end
