(* ===== verification/BillingProperties.thy ===== *)
theory BillingProperties
  imports Billing
begin

text \<open>
  What a subscription's webhooks add up to: the event with the latest occurrence time decides the
  access, in whatever order the deliveries arrive, and replays are recognised.
\<close>

subsection \<open>The grants of one subscription\<close>

definition global_grant :: "entitlement_record \<Rightarrow> bool" where
  "global_grant r \<longleftrightarrow> ue_scope_type r = ''GLOBAL'' \<and> ue_scope_ref r = None"

text \<open>The row of an entitlement is as the event content \<open>c\<close> left it.\<close>

definition grant_follows :: "event_content \<Rightarrow> string \<Rightarrow> ledger \<Rightarrow> string \<Rightarrow> bool" where
  "grant_follows c source t entitlement \<longleftrightarrow>
     (case find_grant (ec_user_id c, entitlement, source) t of
        None \<Rightarrow> ec_access_state c \<noteq> ''ACTIVE''
      | Some r \<Rightarrow> global_grant r \<and>
          (if ec_access_state c = ''ACTIVE''
           then ue_status r = ''ACTIVE'' \<and> ue_starts_at r = Some (ec_occurred_at c) \<and> ue_expires_at r = ec_current_period_end c
           else ue_status r = ''REVOKED''))"

lemma find_grant_update:
  assumes "\<And>r. grant_key (f r) = grant_key r"
  shows "find_grant k (update_first (\<lambda>r. grant_key r = k) f t) = map_option f (find_grant k t)"
  unfolding find_grant_def by (rule find_update_first) (simp add: assms)

lemma billing_grant_row_follows:
  assumes "ec_plan_key c = ''PRO''" and "entitlement \<in> set premium_entitlements"
    and "\<And>r. find_grant (ec_user_id c, entitlement, source) t = Some r \<Longrightarrow> global_grant r"
  shows "grant_follows c source (billing_grant_row c source now entitlement t) entitlement"
proof (cases "find_grant (ec_user_id c, entitlement, source) t")
  case None
  then show ?thesis using assms(1,2)
    by (simp add: grant_follows_def billing_grant_row_def plan_entitlements_def find_grant_def Let_def
        grant_key_def global_grant_def)
next
  case (Some r)
  then show ?thesis using assms
    by (simp add: grant_follows_def billing_grant_row_def plan_entitlements_def Let_def global_grant_def
        find_grant_update)
qed

lemma billing_grant_row_other:
  assumes "k \<noteq> (ec_user_id c, entitlement, source)"
  shows "find_grant k (billing_grant_row c source now entitlement t) = find_grant k t"
proof -
  have "find_grant k u = find_row (\<lambda>r. grant_key r = k) (outside {(ec_user_id c, entitlement, source)} u)" for u
    using assms unfolding find_grant_def outside_def by (induction u) auto
  then show ?thesis
    using grant_writer.wr_frame [OF billing_grant_row_writer, of c entitlement source now t] by simp
qed

lemma billing_grants_follow:
  assumes "ec_plan_key c = ''PRO''"
    and "\<And>e r. e \<in> set premium_entitlements \<Longrightarrow> find_grant (ec_user_id c, e, source) t = Some r \<Longrightarrow> global_grant r"
    and "e \<in> set premium_entitlements"
  shows "grant_follows c source (billing_grants c source now t) e"
proof -
  let ?w = "billing_grant_row c source now"
  have ne: "ai_decisions \<noteq> realtime_notifications" by (simp add: ai_decisions_def realtime_notifications_def)
  have e: "e = ai_decisions \<or> e = realtime_notifications" using assms(3) by (auto simp: premium_entitlements_def)
  have unf: "billing_grants c source now t = ?w realtime_notifications (?w ai_decisions t)"
    by (simp add: billing_grants_def premium_entitlements_def)
  show ?thesis
  proof (cases "e = ai_decisions")
    case True
    have "grant_follows c source (?w ai_decisions t) ai_decisions"
      by (rule billing_grant_row_follows) (use assms True in auto)
    then show ?thesis using ne True by (simp add: unf grant_follows_def billing_grant_row_other)
  next
    case False
    then have "e = realtime_notifications" using e by simp
    then show ?thesis unfolding unf
      by (auto intro!: billing_grant_row_follows assms simp: billing_grant_row_other ne [symmetric] premium_entitlements_def)
  qed
qed

subsection \<open>The latest event\<close>

definition billing_latest :: "(string \<Rightarrow> string) \<Rightarrow> billing_db \<Rightarrow> normal_event \<Rightarrow> bool" where
  "billing_latest rd db m \<longleftrightarrow>
     (let c = ne_content m
      in (\<exists>s. find_row (same_subscription (ne_provider m) (ec_subscription_ref c)) (subscriptions db) = Some s \<and>
              bs_user_id s = ec_user_id c \<and> bs_access_state s = ec_access_state c \<and>
              bs_current_period_end s = ec_current_period_end c \<and> bs_last_event_occurred_at s = ec_occurred_at c) \<and>
         ledger_inv (bill_ledger db) \<and>
         (\<forall>e \<in> set premium_entitlements.
            grant_follows c (billing_source rd (ne_provider m) (ec_subscription_ref c)) (bill_ledger db) e))"

definition same_subject :: "normal_event \<Rightarrow> normal_event \<Rightarrow> bool" where
  "same_subject a b \<longleftrightarrow>
     ne_provider a = ne_provider b \<and> ec_subscription_ref (ne_content a) = ec_subscription_ref (ne_content b) \<and>
     ec_user_id (ne_content a) = ec_user_id (ne_content b)"

definition unseen :: "billing_db \<Rightarrow> normal_event \<Rightarrow> bool" where
  "unseen db e \<longleftrightarrow> find_row (same_event_ref e) (billing_events db) = None"

definition untouched :: "(string \<Rightarrow> string) \<Rightarrow> billing_db \<Rightarrow> normal_event \<Rightarrow> bool" where
  "untouched rd db e \<longleftrightarrow>
     (let c = ne_content e; src = billing_source rd (ne_provider e) (ec_subscription_ref c)
      in find_row (same_subscription (ne_provider e) (ec_subscription_ref c)) (subscriptions db) = None \<and>
         ledger_inv (bill_ledger db) \<and>
         (\<forall>ent \<in> set premium_entitlements. find_grant (ec_user_id c, ent, src) (bill_ledger db) = None))"

definition event_ref_key :: "normal_event \<Rightarrow> string \<times> string" where
  "event_ref_key e = (ne_provider e, ne_event_ref e)"

lemma first_event:
  assumes "untouched rd db e" and "unseen db e" and "ec_plan_key (ne_content e) = ''PRO''"
  shows "billing_latest rd (deliver1 (apply_normal_event dg rd) db (t, e)) e"
proof -
  let ?c = "ne_content e" and ?src = "billing_source rd (ne_provider e) (ec_subscription_ref (ne_content e))"
  have sub: "find_row (same_subscription (ne_provider e) (ec_subscription_ref ?c)) (subscriptions db) = None"
    and inv: "ledger_inv (bill_ledger db)"
    using assms(1) by (simp_all add: untouched_def Let_def)
  have "grant_follows ?c ?src (billing_grants ?c ?src t (bill_ledger db)) ent" if "ent \<in> set premium_entitlements" for ent
    by (rule billing_grants_follow) (use assms(1,3) that in \<open>auto simp: untouched_def Let_def\<close>)
  moreover have "ledger_inv (billing_grants ?c ?src t (bill_ledger db))" by (rule bg.wr_inv [OF inv])
  ultimately show ?thesis
    using sub assms(2)
    by (simp add: deliver1_def apply_normal_event_def unseen_def billing_latest_def Let_def new_subscription_def
        same_subscription_def)
qed

lemma find_updated_subscription:
  "find_row (same_subscription p r) (update_first (same_subscription p r) (update_subscription e t) subs)
     = map_option (update_subscription e t) (find_row (same_subscription p r) subs)"
  by (rule find_update_first) (simp add: same_subscription_def update_subscription_def Let_def)

lemma next_event:
  assumes "billing_latest rd db m" and "same_subject e m" and "unseen db e" and "ec_plan_key (ne_content e) = ''PRO''"
  shows "billing_latest rd (deliver1 (apply_normal_event dg rd) db (t, e))
           (if ec_occurred_at (ne_content e) < ec_occurred_at (ne_content m) then m else e)"
proof -
  let ?c = "ne_content e" and ?src = "billing_source rd (ne_provider e) (ec_subscription_ref (ne_content e))"
  have same: "ne_provider e = ne_provider m" "ec_subscription_ref ?c = ec_subscription_ref (ne_content m)"
    "ec_user_id ?c = ec_user_id (ne_content m)"
    using assms(2) by (simp_all add: same_subject_def)
  obtain s where s: "find_row (same_subscription (ne_provider e) (ec_subscription_ref ?c)) (subscriptions db) = Some s"
      "bs_user_id s = ec_user_id ?c" "bs_last_event_occurred_at s = ec_occurred_at (ne_content m)"
    and inv: "ledger_inv (bill_ledger db)"
    and rows: "\<forall>ent \<in> set premium_entitlements. grant_follows (ne_content m) ?src (bill_ledger db) ent"
    using assms(1) by (auto simp: billing_latest_def Let_def same)
  show ?thesis
  proof (cases "ec_occurred_at ?c < ec_occurred_at (ne_content m)")
    case True
    then show ?thesis
      using assms(1,3) s
      by (simp add: deliver1_def apply_normal_event_def unseen_def billing_latest_def Let_def)
  next
    case False
    have "grant_follows ?c ?src (billing_grants ?c ?src t (bill_ledger db)) ent" if "ent \<in> set premium_entitlements" for ent
    proof (rule billing_grants_follow [OF assms(4) _ that])
      show "global_grant r" if "ent' \<in> set premium_entitlements"
        "find_grant (ec_user_id ?c, ent', ?src) (bill_ledger db) = Some r" for ent' r
        using rows that by (auto simp: grant_follows_def same)
    qed
    moreover have "ledger_inv (billing_grants ?c ?src t (bill_ledger db))" by (rule bg.wr_inv [OF inv])
    ultimately show ?thesis
      using False assms(3) s
      by (simp add: deliver1_def apply_normal_event_def unseen_def billing_latest_def Let_def find_updated_subscription)
        (simp add: update_subscription_def Let_def)
  qed
qed

lemma unseen_deliver1:
  assumes "unseen db e" and "event_ref_key e' \<noteq> event_ref_key e"
  shows "unseen (deliver1 (apply_normal_event dg rd) db (t, e')) e"
  using assms
  by (auto simp: deliver1_def apply_normal_event_def unseen_def Let_def billing_event_row_def same_event_ref_def
      event_ref_key_def split: option.splits)

definition latest_event :: "normal_event \<Rightarrow> normal_event list \<Rightarrow> normal_event" where
  "latest_event m es = foldl (\<lambda>m e. if ec_occurred_at (ne_content e) < ec_occurred_at (ne_content m) then m else e) m es"

lemma deliver_latest:
  assumes "billing_latest rd db m" and "\<forall>d \<in> set ds. same_subject (snd d) m \<and> unseen db (snd d) \<and> ec_plan_key (ne_content (snd d)) = ''PRO''"
    and "distinct (map (event_ref_key \<circ> snd) ds)"
  shows "billing_latest rd (deliver (apply_normal_event dg rd) db ds) (latest_event m (map snd ds))"
  using assms
proof (induction ds arbitrary: db m)
  case Nil
  then show ?case by (simp add: latest_event_def)
next
  case (Cons d ds)
  obtain t e where d: "d = (t, e)" by (cases d)
  let ?db = "deliver1 (apply_normal_event dg rd) db (t, e)"
  let ?m = "if ec_occurred_at (ne_content e) < ec_occurred_at (ne_content m) then m else e"
  have e: "same_subject e m" "unseen db e" "ec_plan_key (ne_content e) = ''PRO''" using Cons.prems(2) d by auto
  have "billing_latest rd ?db ?m" by (rule next_event [OF Cons.prems(1) e])
  moreover have "\<forall>d \<in> set ds. same_subject (snd d) ?m \<and> unseen ?db (snd d) \<and> ec_plan_key (ne_content (snd d)) = ''PRO''"
  proof
    fix d' assume d': "d' \<in> set ds"
    have "event_ref_key (snd d') \<noteq> event_ref_key e" using Cons.prems(3) d d' by force
    then show "same_subject (snd d') ?m \<and> unseen ?db (snd d') \<and> ec_plan_key (ne_content (snd d')) = ''PRO''"
      using Cons.prems(2) d d' e by (auto intro!: unseen_deliver1 simp: same_subject_def)
  qed
  ultimately have "billing_latest rd (deliver (apply_normal_event dg rd) ?db ds) (latest_event ?m (map snd ds))"
    by (rule Cons.IH) (use Cons.prems(3) in simp)
  then show ?case by (simp add: d latest_event_def)
qed

lemma latest_event_max:
  "latest_event m es \<in> set (m # es) \<and> (\<forall>e \<in> set (m # es). ec_occurred_at (ne_content e) \<le> ec_occurred_at (ne_content (latest_event m es)))"
proof (induction es arbitrary: m)
  case (Cons e es)
  let ?m = "if ec_occurred_at (ne_content e) < ec_occurred_at (ne_content m) then m else e"
  have "latest_event m (e # es) = latest_event ?m es" by (simp add: latest_event_def)
  then show ?case using Cons.IH [of ?m] by (auto split: if_splits)
qed (simp add: latest_event_def)

lemma follows_active:
  assumes "ledger_inv t" and "grant_follows c src t ent"
  shows "(\<exists>r \<in> set t. grant_key r = (ec_user_id c, ent, src) \<and> active_at clock r) \<longleftrightarrow>
     ec_access_state c = ''ACTIVE'' \<and> ec_occurred_at c \<le> clock \<and>
     (case ec_current_period_end c of None \<Rightarrow> True | Some p \<Rightarrow> clock < p)"
proof (cases "find_grant (ec_user_id c, ent, src) t")
  case None
  then have "\<forall>r \<in> set t. grant_key r \<noteq> (ec_user_id c, ent, src)" by (simp add: find_grant_def find_row_None_iff)
  moreover have "ec_access_state c \<noteq> ''ACTIVE''" using assms(2) None by (simp add: grant_follows_def)
  ultimately show ?thesis by auto
next
  case (Some r)
  have r: "r \<in> set t" "grant_key r = (ec_user_id c, ent, src)"
    using Some find_row_SomeD [of "\<lambda>r. grant_key r = (ec_user_id c, ent, src)" t r] by (simp_all add: find_grant_def)
  have "s = r" if "s \<in> set t" "grant_key s = (ec_user_id c, ent, src)" for s
    using key_row_unique [of grant_key t s r] assms(1) that r by (simp add: ledger_inv_def)
  then have "(\<exists>r \<in> set t. grant_key r = (ec_user_id c, ent, src) \<and> active_at clock r) \<longleftrightarrow> active_at clock r"
    using r by metis
  then show ?thesis using assms(2) Some by (auto simp: grant_follows_def active_at_def split: if_splits)
qed

subsection \<open>A concrete subscription\<close>

definition demo_sub_event :: "string \<Rightarrow> time \<Rightarrow> string \<Rightarrow> normal_event" where
  "demo_sub_event ref occurred state =
     \<lparr>ne_provider = ''paddle'', ne_event_ref = ref,
      ne_content = \<lparr>ec_occurred_at = occurred, ec_user_id = 3, ec_subscription_ref = ''sub'', ec_plan_key = ''PRO'',
        ec_access_state = state, ec_customer_ref = None, ec_provider_status = None, ec_current_period_end = None\<rparr>\<rparr>"

definition empty_billing :: billing_db where
  "empty_billing = \<lparr>subscriptions = [], billing_events = [], bill_ledger = []\<rparr>"

subsection \<open>Properties\<close>

text \<open>C9.  The latest event decides.  Deliver the events of a subscription that starts without rows, each
  under its own event reference, in any order and at any times: if \<open>m\<close> is the one that occurred last,
  then afterwards the subscription row carries its state and period end, and the billing grants of the
  user are active exactly when \<open>m\<close> is ACTIVE and the clock is between its occurrence and its period
  end.  A late delivery of an older event can neither restore nor remove access.\<close>

theorem latest_event_decides_access:
  assumes "ds \<noteq> []" and "\<forall>d \<in> set ds. same_subject (snd d) m \<and> unseen db (snd d) \<and> ec_plan_key (ne_content (snd d)) = ''PRO''"
    and "distinct (map (event_ref_key \<circ> snd) ds)" and "untouched rd db m"
    and "m \<in> snd ` set ds" and "\<forall>e \<in> snd ` set ds. e \<noteq> m \<longrightarrow> ec_occurred_at (ne_content e) < ec_occurred_at (ne_content m)"
  shows "\<exists>s. find_row (same_subscription (ne_provider m) (ec_subscription_ref (ne_content m)))
               (subscriptions (deliver (apply_normal_event dg rd) db ds)) = Some s \<and>
             bs_access_state s = ec_access_state (ne_content m) \<and>
             bs_current_period_end s = ec_current_period_end (ne_content m) \<and>
             (\<forall>ent \<in> set premium_entitlements. \<forall>clock.
                (\<exists>r \<in> set (bill_ledger (deliver (apply_normal_event dg rd) db ds)).
                   grant_key r = (ec_user_id (ne_content m), ent,
                                  billing_source rd (ne_provider m) (ec_subscription_ref (ne_content m))) \<and> active_at clock r) \<longleftrightarrow>
                ec_access_state (ne_content m) = ''ACTIVE'' \<and> ec_occurred_at (ne_content m) \<le> clock \<and>
                (case ec_current_period_end (ne_content m) of None \<Rightarrow> True | Some p \<Rightarrow> clock < p))"
proof -
  obtain t e rest where ds: "ds = (t, e) # rest" using assms(1) by (metis list.exhaust surj_pair)
  have e: "same_subject e m" "unseen db e" "ec_plan_key (ne_content e) = ''PRO''" using assms(2) ds by auto
  let ?db = "deliver1 (apply_normal_event dg rd) db (t, e)"
  have "untouched rd db e" using assms(4) e(1) by (simp add: untouched_def same_subject_def Let_def)
  then have "billing_latest rd ?db e" using e(2,3) by (rule first_event)
  moreover have "\<forall>d \<in> set rest. same_subject (snd d) e \<and> unseen ?db (snd d) \<and> ec_plan_key (ne_content (snd d)) = ''PRO''"
  proof
    fix d' assume d': "d' \<in> set rest"
    have "event_ref_key e \<noteq> event_ref_key (snd d')" using assms(3) ds d' by force
    then show "same_subject (snd d') e \<and> unseen ?db (snd d') \<and> ec_plan_key (ne_content (snd d')) = ''PRO''"
      using assms(2) ds d' e by (auto intro!: unseen_deliver1 simp: same_subject_def)
  qed
  ultimately have "billing_latest rd (deliver (apply_normal_event dg rd) ?db rest) (latest_event e (map snd rest))"
    by (rule deliver_latest) (use assms(3) ds in simp)
  moreover have "latest_event e (map snd rest) = m"
  proof -
    let ?l = "latest_event e (map snd rest)"
    have all: "set (e # map snd rest) = snd ` set ds" by (simp add: ds)
    have "?l \<in> snd ` set ds" "ec_occurred_at (ne_content m) \<le> ec_occurred_at (ne_content ?l)"
      using latest_event_max [of e "map snd rest"] assms(5) unfolding all by blast+
    then show ?thesis using assms(6) by fastforce
  qed
  ultimately have "billing_latest rd (deliver (apply_normal_event dg rd) db ds) m" by (simp add: ds)
  then show ?thesis by (auto simp: billing_latest_def Let_def follows_active)
qed

theorem latest_event_decides_access_witness:
  "\<exists>s. find_row (same_subscription ''paddle'' ''sub'')
        (subscriptions (deliver (apply_normal_event (\<lambda>c. ec_access_state c) id) empty_billing
           [(1, demo_sub_event ''b'' 9 ''INACTIVE''), (2, demo_sub_event ''a'' 5 ''ACTIVE'')])) = Some s \<and>
       bs_access_state s = ''INACTIVE''"
  using latest_event_decides_access [of "[(1, demo_sub_event ''b'' 9 ''INACTIVE''), (2, demo_sub_event ''a'' 5 ''ACTIVE'')]"
      "demo_sub_event ''b'' 9 ''INACTIVE''" empty_billing id "\<lambda>c. ec_access_state c"]
  by (fastforce simp: same_subject_def unseen_def event_ref_key_def untouched_def demo_sub_event_def empty_billing_def
      ledger_inv_def find_grant_def Let_def)

text \<open>C10.  Webhook replays and ownership.  Once an event was accepted it is recognised for good: whatever
  is delivered in between, the same event again changes nothing and is answered as a duplicate with
  its original staleness; the same reference with a content of another digest is refused; and no event, accepted or
  not, changes the access of another user.\<close>

theorem billing_replay_and_isolation:
  assumes "apply_subscription_event dg rd db now e = Inr (r, db1)" and "normalize_event e = Inr n"
    and "later = deliver (apply_normal_event dg rd) db1 ds"
  shows "(\<exists>res. apply_subscription_event dg rd later now2 e = Inr (res, later) \<and> br_duplicate res \<and>
             (\<not> br_duplicate r \<longrightarrow> br_stale res = br_stale r)) \<and>
         (dg content \<noteq> dg (ne_content n) \<longrightarrow>
            apply_normal_event dg rd later now2 (n\<lparr>ne_content := content\<rparr>) = Inl ReplayedDifferently) \<and>
         (\<forall>other ent res clock. other \<noteq> se_user_id e \<longrightarrow>
            access_scope cat (bill_ledger db1) other ent res clock = access_scope cat (bill_ledger db) other ent res clock)"
proof -
  have app: "apply_normal_event dg rd db now n = Inr (r, db1)"
    using assms(1,2) by (simp add: apply_subscription_event_def)
  have user: "ec_user_id (ne_content n) = se_user_id e"
    using assms(2) by (auto simp: normalize_event_def split: sum.splits if_splits option.splits)
  have "\<exists>row. find_row (same_event_ref n) (billing_events db1) = Some row \<and> be_payload_digest row = dg (ne_content n) \<and>
      (\<not> br_duplicate r \<longrightarrow> br_stale r = (\<not> be_applied row))"
    using app
    by (auto simp: apply_normal_event_def Let_def billing_event_row_def same_event_ref_def split: if_splits option.splits)
  then obtain row where row: "find_row (same_event_ref n) (billing_events db1) = Some row"
      "be_payload_digest row = dg (ne_content n)" "\<not> br_duplicate r \<longrightarrow> br_stale r = (\<not> be_applied row)" by blast
  have kept: "\<exists>new. billing_events (deliver (apply_normal_event dg rd) db1 ds) = billing_events db1 @ new" for ds
  proof (induction ds arbitrary: db1)
    case (Cons d ds)
    have "\<exists>new. billing_events (deliver1 (apply_normal_event dg rd) db1 d) = billing_events db1 @ new"
      using apply_events_kept by (auto simp: deliver1_def split: sum.split)
    then show ?case using Cons.IH [of "deliver1 (apply_normal_event dg rd) db1 d"] by auto
  qed simp
  then have later: "find_row (same_event_ref n) (billing_events later) = Some row"
  proof -
    obtain new where "billing_events later = billing_events db1 @ new" using kept [of ds] assms(3) by blast
    then show ?thesis using row(1) by simp
  qed
  have other: "access_scope cat (bill_ledger db1) other ent res clock = access_scope cat (bill_ledger db) other ent res clock"
    if "other \<noteq> se_user_id e" for other ent res clock
  proof -
    have "bill_ledger db1 = bill_ledger db \<or>
        bill_ledger db1 = billing_grants (ne_content n)
          (billing_source rd (ne_provider n) (ec_subscription_ref (ne_content n))) now (bill_ledger db)"
      using app by (auto simp: apply_normal_event_def Let_def split: if_splits option.splits)
    moreover have "access_scope cat (billing_grants (ne_content n) src t (bill_ledger db)) other ent res clock
        = access_scope cat (bill_ledger db) other ent res clock" for src t
      by (rule bg.other_user_access) (use that user in \<open>auto simp: subscription_keys_def\<close>)
    ultimately show ?thesis by auto
  qed
  have "same_event_ref (n\<lparr>ne_content := content\<rparr>) = same_event_ref n"
    by (simp add: same_event_ref_def fun_eq_iff)
  then show ?thesis using later row other assms(2)
    by (auto simp: apply_subscription_event_def apply_normal_event_def Let_def)
qed

definition demo_raw_event :: subscription_event where
  "demo_raw_event = \<lparr>se_provider = ''paddle'', se_event_ref = ''a'', se_occurred_at = Some (Naive 5), se_user_id = 3,
     se_subscription_ref = ''sub'', se_plan_key = ''PRO'', se_access_state = ''ACTIVE'', se_customer_ref = None,
     se_provider_status = None, se_current_period_end = None\<rparr>"

lemma demo_normalized: "normalize_event demo_raw_event = Inr (demo_sub_event ''a'' 5 ''ACTIVE'')"
  by (simp add: normalize_event_def demo_raw_event_def demo_sub_event_def required_def strip_def py_isspace_def
      upper_def upper_char_def lower_def lower_char_def plan_entitlements_def Let_def)

theorem billing_replay_and_isolation_witness:
  "\<exists>r db1 res. apply_subscription_event (\<lambda>c. ec_access_state c) id empty_billing 6 demo_raw_event = Inr (r, db1) \<and>
     apply_subscription_event (\<lambda>c. ec_access_state c) id db1 8 demo_raw_event = Inr (res, db1) \<and> br_duplicate res"
proof -
  obtain r db1 where a: "apply_subscription_event (\<lambda>c. ec_access_state c) id empty_billing 6 demo_raw_event = Inr (r, db1)"
    by (simp add: apply_subscription_event_def demo_normalized apply_normal_event_def empty_billing_def Let_def)
  show ?thesis using billing_replay_and_isolation [OF a demo_normalized, where later = db1 and ds = "[]"
      and ?now2.0 = 8 and content = "ne_content (demo_sub_event ''a'' 5 ''ACTIVE'')" and cat = "\<lparr>cat_series = [], cat_maps = []\<rparr>"] a
    by auto
qed

end
