(* ===== verification/Access.thy ===== *)
theory Access
  imports Entitlements
begin

text \<open>
  The product's access contract: the stage classification of \<open>app/domain/competition.py\<close> and
  \<open>resolve_map_access\<close> of \<open>app/access_policy.py\<close> on top of the entitlement queries, and the
  properties of both.
\<close>

subsection \<open>Competition stage\<close>

definition classify_stage :: "string option \<Rightarrow> string" where
  "classify_stage value =
     (let normalized = join '' '' (split_ws (replace_char (CHR ''_'') (CHR '' '')
                         (lower (case value of None \<Rightarrow> [] | Some v \<Rightarrow> v))))
      in if normalized = [] then ''UNKNOWN''
         else if contains ''group'' normalized then ''GROUP_STAGE''
         else ''PAID_STAGE'')"

definition is_group_stage :: "string option \<Rightarrow> bool" where
  "is_group_stage value \<longleftrightarrow> value = Some ''GROUP_STAGE''"

subsection \<open>Access to one map\<close>

record map_result =
  mr_canonical_map_id :: uuid
  mr_winner_team_id :: "uuid option"
  mr_provider_conflict :: bool

record map_access_decision =
  ma_map :: canonical_map
  ma_series :: "canonical_series option"
  ma_ai_allowed :: bool
  ma_ai_scope :: "string option"
  ma_ai_public_projection :: bool
  ma_notification_allowed :: bool
  ma_notification_scope :: "string option"

definition map_resource :: "canonical_map \<Rightarrow> canonical_series option \<Rightarrow> resource" where
  "map_resource mp series =
     \<lparr>res_event = Option.bind series cs_event_id, res_series = cm_series_id mp, res_map = Some (cm_id mp)\<rparr>"

definition resolve_map_access ::
  "catalogue \<Rightarrow> map_result list \<Rightarrow> ledger \<Rightarrow> uuid \<Rightarrow> uuid option \<Rightarrow> time \<Rightarrow> map_access_decision option" where
  "resolve_map_access cat results t canonical_map_id user now =
     (case find_row (\<lambda>m. cm_id m = canonical_map_id) (cat_maps cat) of
        None \<Rightarrow> None
      | Some mp \<Rightarrow>
         (let series = Option.bind (cm_series_id mp) (\<lambda>s. find_row (\<lambda>r. cs_id r = s) (cat_series cat));
              result = find_row (\<lambda>r. mr_canonical_map_id r = cm_id mp) results;
              scope = (\<lambda>entitlement. case user of
                         None \<Rightarrow> None
                       | Some u \<Rightarrow> access_scope cat t u entitlement (map_resource mp series) now);
              ai_scope = scope ai_decisions;
              notification_scope = scope realtime_notifications;
              free_group_stage = (case series of None \<Rightarrow> False | Some s \<Rightarrow> is_group_stage (cs_stage_key s));
              confirmed_result = (case result of None \<Rightarrow> False
                                  | Some r \<Rightarrow> mr_winner_team_id r \<noteq> None \<and> \<not> mr_provider_conflict r);
              public_scope = (if free_group_stage then Some ''FREE''
                              else if confirmed_result then Some ''POSTMATCH'' else None);
              public_projection = (public_scope \<noteq> None \<and> ai_scope = None);
              ai_scope' = (if public_projection then public_scope else ai_scope)
          in Some \<lparr>ma_map = mp, ma_series = series, ma_ai_allowed = (ai_scope' \<noteq> None),
                   ma_ai_scope = ai_scope', ma_ai_public_projection = public_projection,
                   ma_notification_allowed = (notification_scope \<noteq> None),
                   ma_notification_scope = notification_scope\<rparr>))"

subsection \<open>Facts on grants\<close>

text \<open>The contract of the queries: a grant that counts for a resource now.\<close>

definition entitled :: "ledger \<Rightarrow> uuid \<Rightarrow> string \<Rightarrow> resource \<Rightarrow> time \<Rightarrow> bool" where
  "entitled t user entitlement res now \<longleftrightarrow>
     (\<exists>r \<in> set t. ue_user_id r = user \<and> ue_entitlement r = entitlement \<and> active_at now r \<and> in_resource res r)"

lemma in_resource_scope: "in_resource res r \<Longrightarrow> ue_scope_type r \<in> set access_scopes"
  by (auto simp: in_resource_def scope_is_def access_scopes_def)

lemma access_scope_None: "access_scope cat t user ent res now = None \<longleftrightarrow> \<not> entitled t user ent (resolved cat res) now"
  using in_resource_scope
  by (fastforce simp: access_scope_def entitled_def matching_scopes_def find_row_None_iff Let_def)

lemma access_scope_Some:
  assumes "access_scope cat t user ent res now = Some s"
  shows "\<exists>r \<in> set t. ue_user_id r = user \<and> ue_entitlement r = ent \<and> active_at now r \<and>
           in_resource (resolved cat res) r \<and> ue_scope_type r = s"
  using find_row_SomeD [OF assms [unfolded access_scope_def Let_def]] by (auto simp: matching_scopes_def)

lemma access_scope_GLOBAL:
  assumes "r \<in> set t" "ue_user_id r = user" "ue_entitlement r = ent" "active_at now r"
    "ue_scope_type r = ''GLOBAL''" "ue_scope_ref r = None"
  shows "access_scope cat t user ent res now = Some ''GLOBAL''"
proof -
  have "in_resource (resolved cat res) r" using assms(5,6) by (simp add: in_resource_def)
  then have "''GLOBAL'' \<in> set (matching_scopes t user ent (resolved cat res) now)"
    using assms by (force simp: matching_scopes_def)
  then show ?thesis by (simp add: access_scope_def access_scopes_def)
qed

subsection \<open>A concrete ledger\<close>

definition demo_cat :: catalogue where
  "demo_cat = \<lparr>cat_series = [\<lparr>cs_id = 1, cs_event_id = Some 5, cs_stage_key = Some ''PAID_STAGE''\<rparr>],
     cat_maps = [\<lparr>cm_id = 10, cm_series_id = Some 1\<rparr>]\<rparr>"

definition demo_res :: resource where
  "demo_res = \<lparr>res_event = None, res_series = None, res_map = Some 10\<rparr>"

definition demo_grant :: entitlement_record where
  "demo_grant = \<lparr>ue_user_id = 3, ue_entitlement = ai_decisions, ue_status = ''ACTIVE'', ue_source = ''p'',
     ue_scope_type = ''EVENT'', ue_scope_ref = Some 5, ue_campaign_key = None, ue_starts_at = None,
     ue_expires_at = Some 100, ue_created_at = 0, ue_updated_at = 0\<rparr>"

lemma demo_granted:
  "grant [] 0 3 ai_decisions '' p'' None (Some 100) ''event'' (Some 5) None = Inr [demo_grant]"
  by (simp add: grant_def normalize_access_scope_def access_scopes_def premium_entitlements_def
      find_grant_def normalize_campaign_def demo_grant_def strip_def py_isspace_def upper_def upper_char_def
      char_of_def bit_0 Let_def)

lemma demo_ledger_inv: "ledger_inv [demo_grant]"
  by (rule grant_inv [OF _ demo_granted]) (simp add: ledger_inv_def)

subsection \<open>Properties\<close>

text \<open>The contract, independent of the queries.  The event of a resource is the one it names, or that of its
  series, or that of the series of its map; a grant counts from its start, if it has one, until just before its
  expiry, if it has one, while its status is ACTIVE; and it covers a resource at one of four ranks, from the
  whole product down to one map.\<close>

inductive event_of :: "catalogue \<Rightarrow> resource \<Rightarrow> uuid \<Rightarrow> bool" where
  named: "res_event res = Some e \<Longrightarrow> event_of cat res e"
| of_series: "res_event res = None \<Longrightarrow> res_series res = Some (cs_id s) \<Longrightarrow> s \<in> set (cat_series cat) \<Longrightarrow>
    cs_event_id s = Some e \<Longrightarrow> event_of cat res e"
| of_map: "res_event res = None \<Longrightarrow> res_series res = None \<Longrightarrow> res_map res = Some (cm_id m) \<Longrightarrow> m \<in> set (cat_maps cat) \<Longrightarrow>
    cm_series_id m = Some (cs_id s) \<Longrightarrow> s \<in> set (cat_series cat) \<Longrightarrow> cs_event_id s = Some e \<Longrightarrow> event_of cat res e"

inductive covers :: "catalogue \<Rightarrow> resource \<Rightarrow> entitlement_record \<Rightarrow> nat \<Rightarrow> bool" where
  everything: "ue_scope_type r = ''GLOBAL'' \<Longrightarrow> ue_scope_ref r = None \<Longrightarrow> covers cat res r 0"
| its_event: "ue_scope_type r = ''EVENT'' \<Longrightarrow> ue_scope_ref r = Some e \<Longrightarrow> event_of cat res e \<Longrightarrow> covers cat res r 1"
| its_series: "ue_scope_type r = ''SERIES'' \<Longrightarrow> ue_scope_ref r = Some s \<Longrightarrow> res_series res = Some s \<Longrightarrow> covers cat res r 2"
| its_map: "ue_scope_type r = ''MAP'' \<Longrightarrow> ue_scope_ref r = Some m \<Longrightarrow> res_map res = Some m \<Longrightarrow> covers cat res r 3"

definition counts_for :: "uuid \<Rightarrow> string \<Rightarrow> time \<Rightarrow> entitlement_record \<Rightarrow> bool" where
  "counts_for user ent now r \<longleftrightarrow>
     ue_user_id r = user \<and> ue_entitlement r = ent \<and> ue_status r = ''ACTIVE'' \<and>
     (\<forall>t. ue_starts_at r = Some t \<longrightarrow> t \<le> now) \<and> (\<forall>t. ue_expires_at r = Some t \<longrightarrow> now < t)"

definition catalogue_ok :: "catalogue \<Rightarrow> bool" where
  "catalogue_ok cat \<longleftrightarrow> distinct (map cs_id (cat_series cat)) \<and> distinct (map cm_id (cat_maps cat))"

lemma counts_for_iff: "counts_for user ent now r \<longleftrightarrow> ue_user_id r = user \<and> ue_entitlement r = ent \<and> active_at now r"
  by (auto simp: counts_for_def active_at_def split: option.split)

lemma event_of_iff:
  assumes "catalogue_ok cat"
  shows "event_of cat res e \<longleftrightarrow> resolve_event_id cat res = Some e"
proof -
  have s: "find_row (\<lambda>r. cs_id r = i) (cat_series cat) = Some s \<longleftrightarrow> s \<in> set (cat_series cat) \<and> cs_id s = i" for i s
    using assms find_row_unique [of cs_id "cat_series cat" s "\<lambda>r. cs_id r = i"] by (auto simp: catalogue_ok_def dest: find_row_SomeD)
  have m: "find_row (\<lambda>r. cm_id r = i) (cat_maps cat) = Some m \<longleftrightarrow> m \<in> set (cat_maps cat) \<and> cm_id m = i" for i m
    using assms find_row_unique [of cm_id "cat_maps cat" m "\<lambda>r. cm_id r = i"] by (auto simp: catalogue_ok_def dest: find_row_SomeD)
  show ?thesis
    by (cases "res_event res"; cases "res_series res"; cases "res_map res")
      (auto simp: event_of.simps resolve_event_id_def bind_eq_Some_conv s m)
qed

lemma covers_iff:
  assumes "catalogue_ok cat"
  shows "covers cat res r k \<longleftrightarrow> in_resource (resolved cat res) r \<and> k < 4 \<and> [''GLOBAL'', ''EVENT'', ''SERIES'', ''MAP''] ! k = ue_scope_type r"
proof -
  have "k = 0 \<or> k = 1 \<or> k = 2 \<or> k = 3 \<or> 4 \<le> k" by linarith
  then show ?thesis
    by (elim disjE) (auto simp: covers.simps event_of_iff [OF assms] in_resource_def scope_is_def resolved_def numeral_eq_Suc)
qed

lemma covers_some: "catalogue_ok cat \<Longrightarrow> (\<exists>k. covers cat res r k) \<longleftrightarrow> in_resource (resolved cat res) r"
proof -
  assume ok: "catalogue_ok cat"
  have "\<exists>k < 4. [''GLOBAL'', ''EVENT'', ''SERIES'', ''MAP''] ! k = ue_scope_type r" if "in_resource (resolved cat res) r"
  proof -
    have "ue_scope_type r \<in> set [''GLOBAL'', ''EVENT'', ''SERIES'', ''MAP'']"
      using in_resource_scope [OF that] by (simp add: access_scopes_def)
    then show ?thesis unfolding in_set_conv_nth by (simp add: numeral_eq_Suc)
  qed
  then show ?thesis using covers_iff [OF ok] by blast
qed

lemma find_row_first: "find_row P xs = Some s \<Longrightarrow> \<exists>k < length xs. xs ! k = s \<and> P s \<and> (\<forall>i < k. \<not> P (xs ! i))"
proof (induction xs)
  case (Cons x xs)
  show ?case
  proof (cases "P x")
    case True
    then show ?thesis using Cons.prems by (intro exI [of _ 0]) simp
  next
    case False
    then obtain k where "k < length xs" "xs ! k = s" "P s" "\<forall>i < k. \<not> P (xs ! i)" using Cons by auto
    then show ?thesis using False by (intro exI [of _ "Suc k"]) (auto simp: less_Suc_eq_0_disj)
  qed
qed simp

text \<open>C7.  \<open>access_scope\<close> answers the widest scope of the user's counting grants that cover the resource, directly
  or through the event its series or map belongs to, and answers nothing when there is none: GLOBAL before EVENT
  before SERIES before MAP.  A grant counts while it is ACTIVE, from its start on and until just before its expiry.
  The batch query \<open>eligible_user_ids_for_resource\<close> selects precisely the users with such a grant.  (The ids of
  series and maps are unique in the catalogue, as primary keys are.)\<close>

theorem access_scope_is_sound_complete_and_widest:
  assumes "catalogue_ok cat"
  shows "(\<forall>s. access_scope cat t user ent res now = Some s \<longleftrightarrow>
        (\<exists>k. s = [''GLOBAL'', ''EVENT'', ''SERIES'', ''MAP''] ! k \<and> (\<exists>r \<in> set t. counts_for user ent now r \<and> covers cat res r k) \<and>
           (\<forall>r \<in> set t. \<forall>i. counts_for user ent now r \<longrightarrow> covers cat res r i \<longrightarrow> k \<le> i))) \<and>
     eligible_user_ids_for_resource cat t users ent res now =
       {u \<in> users. \<exists>r \<in> set t. \<exists>k. counts_for u ent now r \<and> covers cat res r k}"
proof (intro conjI allI)
  let ?scopes = "[''GLOBAL'', ''EVENT'', ''SERIES'', ''MAP'']"
  let ?P = "\<lambda>s. s \<in> set (matching_scopes t user ent (resolved cat res) now)"
  have match: "?P s \<longleftrightarrow> (\<exists>r \<in> set t. \<exists>k. counts_for user ent now r \<and> covers cat res r k \<and> s = ?scopes ! k)" for s
  proof -
    have "?P s \<longleftrightarrow> (\<exists>r \<in> set t. counts_for user ent now r \<and> in_resource (resolved cat res) r \<and> s = ue_scope_type r)"
      unfolding counts_for_iff matching_scopes_def by auto
    then show ?thesis unfolding covers_some [OF assms, symmetric] using covers_iff [OF assms] by metis
  qed
  have rank: "k < 4" if "covers cat res r k" for r k using that covers_iff [OF assms] by blast
  have four: "length ?scopes = 4" by simp
  have inj: "i = k" if "?scopes ! i = ?scopes ! k" "i < 4" "k < 4" for i k
    using that nth_eq_iff_index_eq [of ?scopes i k] by simp
  have scope: "access_scope cat t user ent res now = find_row ?P ?scopes" by (simp add: access_scope_def access_scopes_def)
  fix s
  show "access_scope cat t user ent res now = Some s \<longleftrightarrow>
      (\<exists>k. s = ?scopes ! k \<and> (\<exists>r \<in> set t. counts_for user ent now r \<and> covers cat res r k) \<and>
         (\<forall>r \<in> set t. \<forall>i. counts_for user ent now r \<longrightarrow> covers cat res r i \<longrightarrow> k \<le> i))" (is "?L \<longleftrightarrow> (\<exists>k. ?R k)")
  proof
    assume ?L
    then obtain k where k: "k < 4" "?scopes ! k = s" "?P s" "\<forall>i < k. \<not> ?P (?scopes ! i)"
      using find_row_first [of ?P ?scopes s] unfolding scope four by blast
    have "k \<le> i" if "r \<in> set t" "counts_for user ent now r" "covers cat res r i" for r i
    proof (rule ccontr)
      assume "\<not> k \<le> i"
      moreover have "?P (?scopes ! i)" using match that by blast
      ultimately show False using k(4) by simp
    qed
    moreover obtain r i where "r \<in> set t" "counts_for user ent now r" "covers cat res r i" "s = ?scopes ! i" using k(3) match by blast
    ultimately show "\<exists>k. ?R k" using k(1,2) inj rank by metis
  next
    assume "\<exists>k. ?R k"
    then obtain k r where k: "s = ?scopes ! k" "r \<in> set t" "counts_for user ent now r" "covers cat res r k"
        "\<forall>r \<in> set t. \<forall>i. counts_for user ent now r \<longrightarrow> covers cat res r i \<longrightarrow> k \<le> i" by blast
    have "?P s" using k(1-4) match by blast
    moreover have "s \<in> set ?scopes" using k(1) rank [OF k(4)] nth_mem [of k ?scopes] by simp
    ultimately obtain x where x: "find_row ?P ?scopes = Some x" using find_row_ex by metis
    then obtain j where j: "j < 4" "?scopes ! j = x" "?P x" "\<forall>i < j. \<not> ?P (?scopes ! i)"
      using find_row_first [OF x] unfolding four by blast
    then obtain r' i where i: "r' \<in> set t" "counts_for user ent now r'" "covers cat res r' i" "x = ?scopes ! i" using match by blast
    have "i = j" using inj [of i j] i(4) j(1,2) rank [OF i(3)] by simp
    moreover have "k \<le> i" using k(5) i by blast
    moreover have "j \<le> k" using j(4) \<open>?P s\<close> k(1) leI by blast
    ultimately show ?L using x scope j(2) k(1) by simp
  qed
next
  show "eligible_user_ids_for_resource cat t users ent res now = {u \<in> users. \<exists>r \<in> set t. \<exists>k. counts_for u ent now r \<and> covers cat res r k}"
    unfolding ex_simps covers_some [OF assms] counts_for_iff eligible_user_ids_for_resource_def by auto
qed

theorem access_scope_is_sound_complete_and_widest_witness:
  "access_scope demo_cat [demo_grant] 3 ai_decisions demo_res 50 = Some ''EVENT'' \<and>
   eligible_user_ids_for_resource demo_cat [demo_grant] {3, 4} ai_decisions demo_res 50 = {3}"
proof -
  have ok: "catalogue_ok demo_cat" by (simp add: catalogue_ok_def demo_cat_def)
  have "event_of demo_cat demo_res e \<longleftrightarrow> e = 5" for e
    by (auto simp: event_of.simps demo_cat_def demo_res_def)
  then have c: "covers demo_cat demo_res demo_grant k \<longleftrightarrow> k = 1" for k
    by (auto simp: covers.simps demo_grant_def)
  have n: "counts_for u ai_decisions 50 demo_grant \<longleftrightarrow> u = 3" for u by (auto simp: counts_for_def demo_grant_def)
  show ?thesis
    using access_scope_is_sound_complete_and_widest [OF ok, of "[demo_grant]" 3 ai_decisions demo_res 50 "{3, 4}"] c n by auto
qed

text \<open>A grant that was accepted counts while its window is open, until the same source revokes it;
  and it is isolated: granting and revoking touch one row, the one of their user, entitlement and
  source, so no other user's access changes, the same user's access through another source survives
  a revocation, and the table keeps one row per user, entitlement and source with a valid scope.\<close>

theorem grants_are_source_isolated:
  assumes "ledger_inv t" and "grant t now user ent src b e st sr c = Inr t'"
    and "case b of None \<Rightarrow> True | Some s \<Rightarrow> s \<le> clock" and "case e of None \<Rightarrow> True | Some x \<Rightarrow> clock < x"
    and "normalize_access_scope st sr = Inr (scope, sref)"
  shows "ledger_inv t' \<and> ledger_inv (revoke t' now2 user ent src2) \<and>
     (\<exists>r \<in> set t'. grant_key r = (user, ent, strip src) \<and> active_at clock r \<and> ue_scope_type r = scope \<and> ue_scope_ref r = sref) \<and>
     (\<forall>other ent2 res clock2. other \<noteq> user \<or> ent2 \<noteq> ent \<longrightarrow>
        access_scope cat t' other ent2 res clock2 = access_scope cat t other ent2 res clock2 \<and>
        access_scope cat (revoke t' now2 user ent src2) other ent2 res clock2 = access_scope cat t other ent2 res clock2) \<and>
     (src2 \<noteq> strip src \<longrightarrow> (\<forall>r \<in> set t'. ue_source r = strip src \<longrightarrow> r \<in> set (revoke t' now2 user ent src2))) \<and>
     (\<forall>r \<in> set (revoke t' now2 user ent (strip src)). grant_key r = (user, ent, strip src) \<longrightarrow> \<not> active_at clock r)"
proof -
  have inv: "ledger_inv t'" "ledger_inv (revoke t' now2 user ent src2)" for now2 src2
    using grant_inv [OF assms(1,2)] revoke_inv by blast+
  obtain new where k: "grant_key new = (user, ent, strip src)" "scope_ok new"
    "normalize_access_scope st sr = Inr (ue_scope_type new, ue_scope_ref new)" "ue_status new = ''ACTIVE''"
    "ue_starts_at new = b" "ue_expires_at new = e"
    and t': "t' = upsert_grant new (\<lambda>r. r\<lparr>ue_status := ''ACTIVE'', ue_campaign_key := normalize_campaign c,
             ue_starts_at := b, ue_expires_at := e, ue_updated_at := now\<rparr>) t"
    and same: "\<And>r. find_grant (grant_key new) t = Some r \<Longrightarrow> ue_scope_type r = ue_scope_type new \<and> ue_scope_ref r = ue_scope_ref new"
    by (rule grant_Inr [OF assms(2)]) blast
  have sc: "ue_scope_type new = scope" "ue_scope_ref new = sref" using k(3) assms(5) by auto
  let ?upd = "\<lambda>r. r\<lparr>ue_status := ''ACTIVE'', ue_campaign_key := normalize_campaign c,
             ue_starts_at := b, ue_expires_at := e, ue_updated_at := now\<rparr>"
  have row: "\<exists>r \<in> set t'. grant_key r = (user, ent, strip src) \<and> active_at clock r \<and> ue_scope_type r = scope \<and> ue_scope_ref r = sref"
  proof (cases "find_grant (grant_key new) t")
    case None
    then have "new \<in> set t'" by (simp add: t' upsert_grant_def)
    then show ?thesis using k sc assms(3,4) by (auto simp: active_at_def)
  next
    case (Some r)
    then have "?upd r \<in> set t'"
      using in_update_first_new [of "\<lambda>r. grant_key r = grant_key new" t r ?upd] by (simp add: t' upsert_grant_def find_grant_def)
    moreover have "grant_key (?upd r) = (user, ent, strip src)"
      using Some k(1) find_row_SomeD [of _ t r] by (auto simp: find_grant_def grant_key_def)
    ultimately show ?thesis using same [OF Some] sc assms(3,4) by (intro bexI [of _ "?upd r"]) (auto simp: active_at_def)
  qed
  have other: "access_scope cat t' other ent2 res clock2 = access_scope cat t other ent2 res clock2 \<and>
        access_scope cat (revoke t' now2 user ent src2) other ent2 res clock2 = access_scope cat t other ent2 res clock2"
    if "other \<noteq> user \<or> ent2 \<noteq> ent" for other ent2 res clock2
  proof -
    have "access_scope cat (case grant t now user ent src b e st sr c of Inl _ \<Rightarrow> t | Inr t' \<Rightarrow> t') other ent2 res clock2
        = access_scope cat t other ent2 res clock2"
      by (rule gg.other_user_access) (use that in auto)
    moreover have "access_scope cat (revoke t' now2 user ent src2) other ent2 res clock2 = access_scope cat t' other ent2 res clock2"
      by (rule gr.other_user_access) (use that in auto)
    ultimately show ?thesis using assms(2) by simp
  qed
  have keep: "r \<in> set (revoke t' now2 user ent src2)" if "src2 \<noteq> strip src" "r \<in> set t'" "ue_source r = strip src" for r
  proof -
    have "r \<in> set (revoke t' now2 user ent src2) \<longleftrightarrow> r \<in> set t'"
      by (rule gr.other_kept) (use that in \<open>simp add: grant_key_def\<close>)
    then show ?thesis using that(2) by simp
  qed
  have gone: "\<not> active_at clock r" if r: "r \<in> set (revoke t' now2 user ent (strip src))" "grant_key r = (user, ent, strip src)" for r
  proof -
    let ?off = "\<lambda>r. r\<lparr>ue_status := ''REVOKED'', ue_updated_at := now2\<rparr>"
    obtain s where s: "find_row (\<lambda>r. grant_key r = (user, ent, strip src)) t' = Some s"
      using row find_row_ex [where P = "\<lambda>r. grant_key r = (user, ent, strip src)"] by blast
    then have "?off s \<in> set (revoke t' now2 user ent (strip src))"
      unfolding revoke_def by (rule in_update_first_new)
    moreover have "grant_key (?off s) = grant_key r" using find_row_SomeD [OF s] r(2) by (simp add: grant_key_def)
    ultimately have "r = ?off s"
      using key_row_unique [of grant_key, OF _ r(1)] inv(2) [of now2 "strip src"] by (simp add: ledger_inv_def)
    then show ?thesis by (simp add: active_at_def)
  qed
  show ?thesis using inv row other keep gone by blast
qed

theorem grants_are_source_isolated_witness:
  "(\<exists>r \<in> set [demo_grant]. grant_key r = (3, ai_decisions, strip '' p'') \<and> active_at 50 r) \<and>
   ledger_inv (revoke [demo_grant] 7 3 ai_decisions ''q'')"
proof -
  have n: "normalize_access_scope ''event'' (Some 5) = Inr (''EVENT'', Some 5)"
    by (simp add: normalize_access_scope_def access_scopes_def upper_def upper_char_def char_of_def bit_0
      strip_def py_isspace_def Let_def)
  have e: "ledger_inv []" "case None of None \<Rightarrow> True | Some s \<Rightarrow> s \<le> (50::time)"
    "case Some 100 of None \<Rightarrow> True | Some x \<Rightarrow> (50::time) < x"
    by (simp_all add: ledger_inv_def)
  show ?thesis using grants_are_source_isolated [OF e(1) demo_granted e(2,3) n, of 7 "''q''" demo_cat] by blast
qed

text \<open>C8.  The access contract of one map.  Notifications are never free: they are allowed exactly to a
  signed-in user with an active covering grant.  AI decisions are allowed to such a user, to everyone
  on a group-stage map, and to everyone once a winner is confirmed without provider conflict; an
  explicit grant takes precedence and never yields the public projection.\<close>

theorem map_access_contract:
  assumes "resolve_map_access cat results t m user now = Some d"
  shows "let res = resolved cat (map_resource (ma_map d) (ma_series d));
             holds = (\<lambda>e. \<exists>u. user = Some u \<and> entitled t u e res now);
             free = (\<exists>s. ma_series d = Some s \<and> cs_stage_key s = Some ''GROUP_STAGE'');
             confirmed = (\<exists>r. find_row (\<lambda>r. mr_canonical_map_id r = cm_id (ma_map d)) results = Some r \<and>
                            mr_winner_team_id r \<noteq> None \<and> \<not> mr_provider_conflict r)
         in cm_id (ma_map d) = m \<and>
            (ma_notification_allowed d \<longleftrightarrow> holds realtime_notifications) \<and>
            (ma_ai_allowed d \<longleftrightarrow> holds ai_decisions \<or> free \<or> confirmed) \<and>
            (ma_ai_public_projection d \<longleftrightarrow> (free \<or> confirmed) \<and> \<not> holds ai_decisions) \<and>
            (ma_ai_scope d = Some ''FREE'' \<longleftrightarrow> free \<and> \<not> holds ai_decisions)"
proof -
  obtain mp where mp: "find_row (\<lambda>m'. cm_id m' = m) (cat_maps cat) = Some mp"
    using assms by (auto simp: resolve_map_access_def split: option.splits)
  let ?series = "Option.bind (cm_series_id mp) (\<lambda>s. find_row (\<lambda>r. cs_id r = s) (cat_series cat))"
  let ?scope = "\<lambda>e. case user of None \<Rightarrow> None | Some u \<Rightarrow> access_scope cat t u e (map_resource mp ?series) now"
  have id: "cm_id mp = m" using find_row_SomeD [OF mp] by simp
  have dm: "ma_map d = mp" "ma_series d = ?series"
    using assms mp by (auto simp: resolve_map_access_def Let_def)
  have has: "?scope e \<noteq> None \<longleftrightarrow> (\<exists>u. user = Some u \<and> entitled t u e (resolved cat (map_resource mp ?series)) now)" for e
    using access_scope_None by (cases user) auto
  have notfree: "?scope e \<noteq> Some ''FREE''" for e
    using access_scope_Some in_resource_scope by (cases user) (fastforce simp: access_scopes_def)+
  define free where "free \<longleftrightarrow> (\<exists>s. ?series = Some s \<and> cs_stage_key s = Some ''GROUP_STAGE'')"
  define confirmed where "confirmed \<longleftrightarrow> (\<exists>r. find_row (\<lambda>r. mr_canonical_map_id r = cm_id mp) results = Some r \<and>
      mr_winner_team_id r \<noteq> None \<and> \<not> mr_provider_conflict r)"
  have f: "(case ?series of None \<Rightarrow> False | Some s \<Rightarrow> is_group_stage (cs_stage_key s)) = free"
    by (simp add: free_def is_group_stage_def split: option.split)
  have c: "(case find_row (\<lambda>r. mr_canonical_map_id r = cm_id mp) results of None \<Rightarrow> False
      | Some r \<Rightarrow> mr_winner_team_id r \<noteq> None \<and> \<not> mr_provider_conflict r) = confirmed"
    by (simp add: confirmed_def split: option.split)
  have vals: "ma_notification_allowed d = (?scope realtime_notifications \<noteq> None)"
    "ma_ai_public_projection d = ((free \<or> confirmed) \<and> ?scope ai_decisions = None)"
    "ma_ai_scope d = (if ?scope ai_decisions = None then (if free then Some ''FREE'' else if confirmed then Some ''POSTMATCH'' else None)
                      else ?scope ai_decisions)"
    "ma_ai_allowed d = (ma_ai_scope d \<noteq> None)"
    using assms unfolding resolve_map_access_def mp option.case Let_def f c by (auto split: if_splits)
  show ?thesis
    unfolding Let_def dm free_def [symmetric] confirmed_def [symmetric] vals has [symmetric]
    using id notfree [of ai_decisions] by auto
qed

theorem map_access_contract_witness:
  "\<exists>d. resolve_map_access demo_cat [] [demo_grant] 10 (Some 3) 50 = Some d \<and> \<not> ma_ai_public_projection d"
proof -
  let ?d = "the (resolve_map_access demo_cat [] [demo_grant] 10 (Some 3) 50)"
  have some: "resolve_map_access demo_cat [] [demo_grant] 10 (Some 3) 50 = Some ?d"
    by (simp add: resolve_map_access_def demo_cat_def Let_def)
  have "ma_series ?d = Some \<lparr>cs_id = 1, cs_event_id = Some 5, cs_stage_key = Some ''PAID_STAGE''\<rparr>"
    by (simp add: resolve_map_access_def demo_cat_def Let_def)
  then show ?thesis using map_access_contract [OF some] some by (auto simp: Let_def)
qed

end
