(* ===== verification/Pass.thy ===== *)
theory Pass
  imports Access Billing
begin

text \<open>
  Paid competition passes: the tables of \<open>app/promotions/models.py\<close> and
  \<open>PaddleCompetitionPassService\<close> of \<open>app/promotions/paddle_pass.py\<close>.  A pass is bound to one event or
  one series and does not expire.  Signature verification, the digest of the raw body, the parser of
  timestamps and the Paddle API are outside the model: a webhook arrives as its parsed payload and
  its digest, a checkout as the references the API answered.
\<close>

subsection \<open>Data\<close>

record pass_purchase =
  pp_id :: uuid
  pp_user_id :: uuid
  pp_provider :: string
  pp_transaction_ref :: string
  pp_customer_ref :: "string option"
  pp_scope_type :: string
  pp_series_id :: "uuid option"
  pp_event_id :: "uuid option"
  pp_price_ref :: string
  pp_status :: string
  pp_payment_blocked :: bool
  pp_completed_at :: "time option"
  pp_last_event_occurred_at :: "time option"
  pp_created_at :: time
  pp_updated_at :: time

record pass_event_record =
  pv_provider :: string
  pv_event_ref :: string
  pv_transaction_ref :: string
  pv_user_id :: uuid
  pv_scope_type :: string
  pv_series_id :: "uuid option"
  pv_event_id :: "uuid option"
  pv_occurred_at :: time
  pv_payload_digest :: string
  pv_applied :: bool
  pv_processed_at :: time

text \<open>The columns of an account that the pass and the referral services read.\<close>

record account =
  ac_id :: uuid
  ac_disabled_at :: "time option"
  ac_created_at :: time

record pass_db =
  purchases :: "pass_purchase list"
  pass_events :: "pass_event_record list"
  pass_ledger :: ledger
  pass_accounts :: "account list"
  next_purchase_id :: uuid

text \<open>A configured service: the scope it sells and its price; and what \<open>_apply_event\<close> receives.\<close>

record pass_service =
  sv_scope_type :: string
  sv_price_id :: string

datatype pass_mode = ACTIVATE | REVOKE

record pass_event =
  pe_event_ref :: string
  pe_event_type :: string
  pe_occurred_at :: time
  pe_transaction_ref :: string
  pe_mode :: pass_mode
  pe_data :: "(string \<times> json) list"
  pe_digest :: string

record pass_result =
  pr_ignored :: bool
  pr_duplicate :: bool
  pr_stale :: bool
  pr_activated :: bool
  pr_revoked :: bool

datatype pass_error =
  MissingField string | NotAnObject | BadTime | CustomerMismatch | PriceMismatch | NoMetadata | MetadataMismatch
| PassReplayedDifferently | ScopeCollision | AccountInactive | CheckoutPending | IntentNotPending | TransactionCollision
| TargetMissing | AlreadyCovered

definition pass_outcome :: "bool \<Rightarrow> bool \<Rightarrow> bool \<Rightarrow> bool \<Rightarrow> bool \<Rightarrow> pass_result" where
  "pass_outcome ignored duplicate stale activated revoked =
     \<lparr>pr_ignored = ignored, pr_duplicate = duplicate, pr_stale = stale, pr_activated = activated, pr_revoked = revoked\<rparr>"

subsection \<open>Reading the payload\<close>

definition optional_string :: "json \<Rightarrow> string option" where
  "optional_string v = (case v of JStr s \<Rightarrow> (if strip s = [] then None else Some (strip s)) | _ \<Rightarrow> None)"

definition required_string :: "json \<Rightarrow> string \<Rightarrow> pass_error + string" where
  "required_string v label = (case optional_string v of None \<Rightarrow> Inl (MissingField label) | Some s \<Rightarrow> Inr s)"

text \<open>\<open>str(value or "").lower()\<close>; the printed form of a value that is not a string is none of the words
  it is compared with.\<close>

definition lower_text :: "json \<Rightarrow> string" where
  "lower_text v = (case v of JStr s \<Rightarrow> lower s | _ \<Rightarrow> [])"

definition parse_datetime :: "(string \<Rightarrow> time option) \<Rightarrow> json \<Rightarrow> pass_error + time" where
  "parse_datetime fromisoformat v =
     (case optional_string v of
        None \<Rightarrow> Inl (MissingField ''event occurrence time'')
      | Some s \<Rightarrow> (case fromisoformat s of None \<Rightarrow> Inl BadTime | Some t \<Rightarrow> Inr t))"

text \<open>The part of \<open>process_webhook\<close> after the signature check and \<open>json.loads\<close>: the event to apply, or
  None when it is ignored.\<close>

definition parse_pass_webhook ::
  "(string \<Rightarrow> time option) \<Rightarrow> json \<Rightarrow> string \<Rightarrow> pass_error + pass_event option" where
  "parse_pass_webhook fromisoformat body digest =
     (case body of
        JObj payload \<Rightarrow>
          (case required_string (json_get payload ''event_id'') ''event id'' of Inl e \<Rightarrow> Inl e | Inr event_ref \<Rightarrow>
           case required_string (json_get payload ''event_type'') ''event type'' of Inl e \<Rightarrow> Inl e | Inr event_type \<Rightarrow>
           case parse_datetime fromisoformat (json_get payload ''occurred_at'') of Inl e \<Rightarrow> Inl e | Inr occurred_at \<Rightarrow>
           case json_get payload ''data'' of
             JObj data \<Rightarrow>
               (let ev = (\<lambda>tx m. \<lparr>pe_event_ref = event_ref, pe_event_type = event_type, pe_occurred_at = occurred_at,
                               pe_transaction_ref = tx, pe_mode = m, pe_data = data, pe_digest = digest\<rparr>)
                in if event_type = ''transaction.completed''
                   then (case required_string (json_get data ''id'') ''transaction id'' of
                           Inl e \<Rightarrow> Inl e | Inr tx \<Rightarrow> Inr (Some (ev tx ACTIVATE)))
                   else if event_type = ''adjustment.created'' \<or> event_type = ''adjustment.updated''
                   then (if lower_text (json_get data ''status'') \<noteq> ''approved'' then Inr None
                         else if lower_text (json_get data ''type'') \<noteq> ''full'' then Inr None
                         else if lower_text (json_get data ''action'') \<notin> {''refund'', ''chargeback'', ''chargeback_warning''} then Inr None
                         else case optional_string (json_get data ''transaction_id'') of
                                None \<Rightarrow> Inr None | Some tx \<Rightarrow> Inr (Some (ev tx REVOKE)))
                   else Inr None)
           | _ \<Rightarrow> Inl NotAnObject)
      | _ \<Rightarrow> Inl NotAnObject)"

text \<open>\<open>_price_ids\<close>, as the list of the set's members with repetitions.\<close>

definition price_id_of :: "json \<Rightarrow> string list" where
  "price_id_of item =
     (case item of
        JObj obj \<Rightarrow>
          (let value = (case (json_get obj ''price_id'', json_get obj ''price'') of
                          (JStr s, _) \<Rightarrow> JStr s
                        | (_, JObj price) \<Rightarrow> json_get price ''id''
                        | (v, _) \<Rightarrow> v)
           in case value of JStr s \<Rightarrow> (if s = [] then [] else [s]) | _ \<Rightarrow> [])
      | _ \<Rightarrow> [])"

definition price_ids :: "(string \<times> json) list \<Rightarrow> string list" where
  "price_ids data = (case json_get data ''items'' of JList items \<Rightarrow> concat (map price_id_of items) | _ \<Rightarrow> [])"

definition validate_completed_transaction :: "(string \<times> json) list \<Rightarrow> pass_purchase \<Rightarrow> string \<Rightarrow> pass_error option" where
  "validate_completed_transaction data purchase expected_price =
     (let customer_ref = optional_string (json_get data ''customer_id'')
      in if pp_customer_ref purchase \<noteq> None \<and> customer_ref \<noteq> None \<and> customer_ref \<noteq> pp_customer_ref purchase
         then Some CustomerMismatch
         else if set (price_ids data) \<noteq> {expected_price} \<or> pp_price_ref purchase \<noteq> expected_price
         then Some PriceMismatch
         else case json_get data ''custom_data'' of
                JObj custom \<Rightarrow>
                  (if json_get custom ''dota_user_id'' \<noteq> JStr (str_uuid (pp_user_id purchase)) \<or>
                      json_get custom ''dota_offer'' \<noteq> JStr (lower (pp_scope_type purchase) @ ''_pass'')
                   then Some MetadataMismatch else None)
              | _ \<Rightarrow> Some NoMetadata)"

subsection \<open>Applying an event\<close>

definition pass_source :: "pass_purchase \<Rightarrow> string" where
  "pass_source p = ''billing:paddle-pass:'' @ pp_transaction_ref p"

definition pass_scope_ref :: "pass_purchase \<Rightarrow> uuid option" where
  "pass_scope_ref p = (if pp_scope_type p = ''EVENT'' then pp_event_id p else pp_series_id p)"

definition upsert_pass_grant ::
  "pass_purchase \<Rightarrow> time \<Rightarrow> bool \<Rightarrow> time \<Rightarrow> string \<Rightarrow> ledger \<Rightarrow> pass_error + ledger" where
  "upsert_pass_grant p starts_at active now entitlement t =
     (let k = (pp_user_id p, entitlement, pass_source p)
      in case find_grant k t of
           None \<Rightarrow>
             (if \<not> active then Inr t
              else Inr (t @ [\<lparr>ue_user_id = pp_user_id p, ue_entitlement = entitlement, ue_status = ''ACTIVE'',
                      ue_source = pass_source p, ue_scope_type = pp_scope_type p, ue_scope_ref = pass_scope_ref p,
                      ue_campaign_key = None, ue_starts_at = Some starts_at, ue_expires_at = None,
                      ue_created_at = now, ue_updated_at = now\<rparr>]))
         | Some row \<Rightarrow>
             (if ue_scope_type row \<noteq> pp_scope_type p \<or> ue_scope_ref row \<noteq> pass_scope_ref p then Inl ScopeCollision
              else Inr (update_first (\<lambda>r. grant_key r = k)
                     (\<lambda>r. r\<lparr>ue_status := (if active then ''ACTIVE'' else ''REVOKED''),
                            ue_starts_at := (if active then Some starts_at else ue_starts_at r),
                            ue_expires_at := (if active then None else ue_expires_at r),
                            ue_updated_at := now\<rparr>) t)))"

fun upsert_pass_grants ::
  "pass_purchase \<Rightarrow> time \<Rightarrow> bool \<Rightarrow> time \<Rightarrow> string list \<Rightarrow> ledger \<Rightarrow> pass_error + ledger" where
  "upsert_pass_grants p starts_at active now [] t = Inr t"
| "upsert_pass_grants p starts_at active now (e # es) t =
     (case upsert_pass_grant p starts_at active now e t of
        Inl x \<Rightarrow> Inl x
      | Inr t' \<Rightarrow> upsert_pass_grants p starts_at active now es t')"

definition is_purchase :: "string \<Rightarrow> string \<Rightarrow> pass_purchase \<Rightarrow> bool" where
  "is_purchase scope tx p \<longleftrightarrow> pp_provider p = ''paddle'' \<and> pp_transaction_ref p = tx \<and> pp_scope_type p = scope"

definition is_pass_event :: "string \<Rightarrow> pass_event_record \<Rightarrow> bool" where
  "is_pass_event ref r \<longleftrightarrow> pv_provider r = ''paddle'' \<and> pv_event_ref r = ref"

definition pass_event_row :: "pass_event \<Rightarrow> pass_purchase \<Rightarrow> bool \<Rightarrow> time \<Rightarrow> pass_event_record" where
  "pass_event_row ev p applied now =
     \<lparr>pv_provider = ''paddle'', pv_event_ref = pe_event_ref ev, pv_transaction_ref = pe_transaction_ref ev,
      pv_user_id = pp_user_id p, pv_scope_type = pp_scope_type p, pv_series_id = pp_series_id p,
      pv_event_id = pp_event_id p, pv_occurred_at = pe_occurred_at ev, pv_payload_digest = pe_digest ev,
      pv_applied = applied, pv_processed_at = now\<rparr>"

definition stamp_purchase :: "time \<Rightarrow> time \<Rightarrow> pass_purchase \<Rightarrow> pass_purchase" where
  "stamp_purchase occurred_at now p = p\<lparr>pp_last_event_occurred_at := Some occurred_at, pp_updated_at := now\<rparr>"

definition activate_purchase :: "time \<Rightarrow> pass_purchase \<Rightarrow> pass_purchase" where
  "activate_purchase occurred_at p = p\<lparr>pp_status := ''ACTIVE'', pp_completed_at := Some occurred_at\<rparr>"

definition block_purchase :: "pass_purchase \<Rightarrow> pass_purchase" where
  "block_purchase p = p\<lparr>pp_status := ''BLOCKED'', pp_payment_blocked := True\<rparr>"

definition write_purchase ::
  "pass_service \<Rightarrow> pass_event \<Rightarrow> time \<Rightarrow> pass_purchase \<Rightarrow> (pass_purchase \<Rightarrow> pass_purchase) \<Rightarrow> ledger \<Rightarrow> pass_db \<Rightarrow> pass_db" where
  "write_purchase sv ev now p f t db =
     db\<lparr>purchases := update_first (is_purchase (sv_scope_type sv) (pe_transaction_ref ev))
                      (\<lambda>q. stamp_purchase (pe_occurred_at ev) now (f q)) (purchases db),
        pass_events := pass_events db @ [pass_event_row ev p True now],
        pass_ledger := t\<rparr>"

definition apply_pass_event ::
  "pass_db \<Rightarrow> time \<Rightarrow> pass_service \<times> pass_event \<Rightarrow> pass_error + (pass_result \<times> pass_db)" where
  "apply_pass_event db now sve =
     (let (sv, ev) = sve; scope = sv_scope_type sv; occurred_at = pe_occurred_at ev
      in case find_row (is_purchase scope (pe_transaction_ref ev)) (purchases db) of
           None \<Rightarrow> Inr (pass_outcome True False False False False, db)
         | Some p \<Rightarrow>
             (case find_row (is_pass_event (pe_event_ref ev)) (pass_events db) of
                Some existing \<Rightarrow>
                  (if pv_payload_digest existing \<noteq> pe_digest ev then Inl PassReplayedDifferently
                   else Inr (pass_outcome False True (\<not> pv_applied existing) False False, db))
              | None \<Rightarrow>
                  if (case pp_last_event_occurred_at p of None \<Rightarrow> False | Some l \<Rightarrow> occurred_at < l)
                  then Inr (pass_outcome False False True False False,
                            db\<lparr>pass_events := pass_events db @ [pass_event_row ev p False now]\<rparr>)
                  else case pe_mode ev of
                         ACTIVATE \<Rightarrow>
                           (case validate_completed_transaction (pe_data ev) p (sv_price_id sv) of
                              Some e \<Rightarrow> Inl e
                            | None \<Rightarrow>
                                if pp_payment_blocked p
                                then Inr (pass_outcome False False False False False,
                                          write_purchase sv ev now p (\<lambda>q. q) (pass_ledger db) db)
                                else (case upsert_pass_grants (activate_purchase occurred_at p) occurred_at True now
                                              premium_entitlements (pass_ledger db) of
                                        Inl e \<Rightarrow> Inl e
                                      | Inr t \<Rightarrow> Inr (pass_outcome False False False True False,
                                                      write_purchase sv ev now p (activate_purchase occurred_at) t db)))
                       | REVOKE \<Rightarrow>
                           (case upsert_pass_grants (block_purchase p)
                                   (case pp_completed_at p of None \<Rightarrow> occurred_at | Some c \<Rightarrow> c) False now
                                   premium_entitlements (pass_ledger db) of
                              Inl e \<Rightarrow> Inl e
                            | Inr t \<Rightarrow> Inr (pass_outcome False False False False True,
                                            write_purchase sv ev now p block_purchase t db))))"

subsection \<open>Buying\<close>

definition pass_target :: "uuid list \<Rightarrow> catalogue \<Rightarrow> string \<Rightarrow> uuid \<Rightarrow> pass_error + (uuid option \<times> uuid option)" where
  "pass_target event_ids cat scope target_id =
     (if scope = ''EVENT''
      then (if target_id \<in> set event_ids then Inr (None, Some target_id) else Inl TargetMissing)
      else (if find_row (\<lambda>s. cs_id s = target_id) (cat_series cat) = None then Inl TargetMissing
            else Inr (Some target_id, None)))"

definition account_active :: "account list \<Rightarrow> uuid \<Rightarrow> bool" where
  "account_active accounts user =
     (case find_row (\<lambda>a. ac_id a = user) accounts of None \<Rightarrow> False | Some a \<Rightarrow> ac_disabled_at a = None)"

definition pending_purchase :: "uuid \<Rightarrow> string \<Rightarrow> uuid option \<Rightarrow> uuid option \<Rightarrow> time \<Rightarrow> pass_purchase \<Rightarrow> bool" where
  "pending_purchase user scope series event threshold p \<longleftrightarrow>
     pp_user_id p = user \<and> pp_scope_type p = scope \<and> pp_provider p = ''paddle'' \<and> pp_status p = ''PENDING'' \<and>
     threshold < pp_created_at p \<and> (if scope = ''EVENT'' then pp_event_id p = event else pp_series_id p = series)"

text \<open>\<open>intent\<close> is the hexadecimal text of the fresh \<open>uuid4\<close>.\<close>

definition reserve_purchase_intent ::
  "pass_service \<Rightarrow> pass_db \<Rightarrow> time \<Rightarrow> uuid \<Rightarrow> uuid option \<Rightarrow> uuid option \<Rightarrow> string \<Rightarrow> pass_error + (uuid \<times> pass_db)" where
  "reserve_purchase_intent sv db now user series event intent =
     (let scope = sv_scope_type sv
      in if \<not> account_active (pass_accounts db) user then Inl AccountInactive
         else if find_row (pending_purchase user scope series event (now - micros 3600)) (purchases db) \<noteq> None
         then Inl CheckoutPending
         else Inr (next_purchase_id db,
                   db\<lparr>purchases := purchases db @
                        [\<lparr>pp_id = next_purchase_id db, pp_user_id = user, pp_provider = ''paddle'',
                          pp_transaction_ref = ''intent:'' @ intent, pp_customer_ref = None, pp_scope_type = scope,
                          pp_series_id = series, pp_event_id = event, pp_price_ref = sv_price_id sv,
                          pp_status = ''PENDING'', pp_payment_blocked = False, pp_completed_at = None,
                          pp_last_event_occurred_at = None, pp_created_at = now, pp_updated_at = now\<rparr>],
                      next_purchase_id := Suc (next_purchase_id db)\<rparr>))"

definition on_pending_intent :: "uuid \<Rightarrow> (pass_purchase \<Rightarrow> pass_purchase) \<Rightarrow> pass_db \<Rightarrow> pass_db" where
  "on_pending_intent i f db =
     db\<lparr>purchases := update_first (\<lambda>p. pp_id p = i) (\<lambda>p. if pp_status p = ''PENDING'' then f p else p) (purchases db)\<rparr>"

definition remember_intent_customer :: "pass_db \<Rightarrow> time \<Rightarrow> uuid \<Rightarrow> string \<Rightarrow> pass_db" where
  "remember_intent_customer db now i customer =
     on_pending_intent i (\<lambda>p. p\<lparr>pp_customer_ref := Some customer, pp_updated_at := now\<rparr>) db"

definition mark_intent_failed :: "pass_db \<Rightarrow> time \<Rightarrow> uuid \<Rightarrow> pass_db" where
  "mark_intent_failed db now i = on_pending_intent i (\<lambda>p. p\<lparr>pp_status := ''FAILED'', pp_updated_at := now\<rparr>) db"

definition finalize_purchase_intent :: "pass_db \<Rightarrow> time \<Rightarrow> uuid \<Rightarrow> string \<Rightarrow> string \<Rightarrow> pass_error + pass_db" where
  "finalize_purchase_intent db now i tx customer =
     (case find_row (\<lambda>p. pp_id p = i) (purchases db) of
        None \<Rightarrow> Inl IntentNotPending
      | Some p \<Rightarrow>
          if pp_status p \<noteq> ''PENDING'' then Inl IntentNotPending
          else if find_row (\<lambda>q. pp_provider q = ''paddle'' \<and> pp_transaction_ref q = tx \<and> pp_id q \<noteq> pp_id p) (purchases db) \<noteq> None
          then Inl TransactionCollision
          else Inr (db\<lparr>purchases := update_first (\<lambda>p. pp_id p = i)
                  (\<lambda>p. p\<lparr>pp_transaction_ref := tx, pp_customer_ref := Some customer, pp_updated_at := now\<rparr>) (purchases db)\<rparr>))"

definition known_customer_ref ::
  "pass_db \<Rightarrow> billing_subscription list \<Rightarrow> billing_checkout list \<Rightarrow> uuid \<Rightarrow> string option" where
  "known_customer_ref db subs checkouts user =
     (case order_limit (\<lambda>p. - pp_created_at p) 1
             (filter (\<lambda>p. pp_user_id p = user \<and> pp_provider p = ''paddle'' \<and> pp_customer_ref p \<noteq> None) (purchases db)) of
        p # _ \<Rightarrow> pp_customer_ref p
      | [] \<Rightarrow>
          (case order_limit (\<lambda>s. - bs_updated_at s) 1
                  (filter (\<lambda>s. bs_user_id s = user \<and> bs_provider s = ''paddle'' \<and> bs_customer_ref s \<noteq> None) subs) of
             s # _ \<Rightarrow> bs_customer_ref s
           | [] \<Rightarrow>
               (case order_limit (\<lambda>c. - bc_created_at c) 1
                       (filter (\<lambda>c. bc_user_id c = user \<and> bc_provider c = ''paddle'' \<and> bc_customer_ref c \<noteq> None) checkouts) of
                  c # _ \<Rightarrow> bc_customer_ref c
                | [] \<Rightarrow> None)))"

text \<open>\<open>create_checkout\<close>: refused when the account already has AI access to the target; otherwise an intent
  is reserved, the API asked for a customer (when none is known) and a checkout, and the intent bound
  to the transaction.  \<open>api_customer\<close> and \<open>api_checkout\<close> are the answers of the Paddle API, None for
  a failure; a failure marks the intent, which frees the target for another try.\<close>

definition create_pass_checkout ::
  "pass_service \<Rightarrow> uuid list \<Rightarrow> catalogue \<Rightarrow> pass_db \<Rightarrow> time \<Rightarrow> uuid \<Rightarrow> uuid \<Rightarrow> string \<Rightarrow>
   billing_subscription list \<Rightarrow> billing_checkout list \<Rightarrow> string option \<Rightarrow> (string \<times> string) option \<Rightarrow> pass_error option \<times> pass_db" where
  "create_pass_checkout sv event_ids cat db now user target_id intent subs checkouts api_customer api_checkout =
     (case pass_target event_ids cat (sv_scope_type sv) target_id of
        Inl e \<Rightarrow> (Some e, db)
      | Inr (series, event) \<Rightarrow>
          if access_scope cat (pass_ledger db) user ai_decisions
               \<lparr>res_event = event, res_series = series, res_map = None\<rparr> now \<noteq> None
          then (Some AlreadyCovered, db)
          else case reserve_purchase_intent sv db now user series event intent of
                 Inl e \<Rightarrow> (Some e, db)
               | Inr (i, db1) \<Rightarrow>
                   (let known_customer = known_customer_ref db1 subs checkouts user
                    in case (case known_customer of Some c \<Rightarrow> Some c | None \<Rightarrow> api_customer) of
                      None \<Rightarrow> (Some (MissingField ''customer''), mark_intent_failed db1 now i)
                    | Some customer \<Rightarrow>
                        (let db2 = (if known_customer = None then remember_intent_customer db1 now i customer else db1)
                         in case api_checkout of
                              None \<Rightarrow> (Some (MissingField ''checkout''), mark_intent_failed db2 now i)
                            | Some (tx, checkout_customer) \<Rightarrow>
                                (case finalize_purchase_intent db2 now i tx checkout_customer of
                                   Inl e \<Rightarrow> (Some e, mark_intent_failed db2 now i)
                                 | Inr db3 \<Rightarrow> (None, db3)))))"

end
