(* ===== verification/Referral.thy ===== *)
theory Referral
  imports Pass
begin

text \<open>
  The referral campaign: the tables \<open>referral_codes\<close> and \<open>referral_attributions\<close> of
  \<open>app/promotions/models.py\<close> and \<open>PromotionService\<close> of \<open>app/promotions/service.py\<close>.  The random
  codes, the timestamp parser and the parsed webhook body are arguments.  A violated unique
  constraint is an error that rolls the transaction back.
\<close>

subsection \<open>Data\<close>

record referral_code =
  rc_id :: uuid
  rc_user_id :: uuid
  rc_code :: string
  rc_status :: string
  rc_created_at :: time
  rc_updated_at :: time

record attribution =
  ra_id :: uuid
  ra_inviter :: uuid
  ra_invited :: uuid
  ra_code_id :: uuid
  ra_campaign_key :: string
  ra_status :: string
  ra_qualified_provider :: "string option"
  ra_qualified_payment_ref :: "string option"
  ra_claimed_at :: time
  ra_qualified_at :: "time option"
  ra_rewarded_at :: "time option"
  ra_revoked_at :: "time option"
  ra_created_at :: time
  ra_updated_at :: time

record campaign =
  rf_enabled :: bool
  rf_campaign_key :: string
  rf_claim_window_days :: int
  rf_inviter_reward_days :: int
  rf_invited_reward_days :: int
  rf_max_rewards :: nat

record referral_db =
  codes :: "referral_code list"
  attributions :: "attribution list"
  ref_ledger :: ledger
  ref_accounts :: "account list"
  ref_purchases :: "pass_purchase list"
  next_ref_id :: uuid

datatype referral_error =
  CampaignDisabled | AccountRequired | CodeRequired | WindowExpired | PriorPurchase | CodeInvalid | SelfReferral
| OwnerInactive | AlreadyClaimed | PaymentRequired | NoUniqueCode | UniqueViolation

subsection \<open>Codes and claims\<close>

definition normalize_campaign_key :: "string \<Rightarrow> string" where
  "normalize_campaign_key k = (if strip k = [] then ''referral-v1'' else strip k)"

fun first_free_code :: "referral_code list \<Rightarrow> string list \<Rightarrow> string option" where
  "first_free_code cs [] = None"
| "first_free_code cs (c # rest) =
     (if find_row (\<lambda>r. rc_code r = c) cs = None then Some c else first_free_code cs rest)"

definition ensure_referral_code ::
  "campaign \<Rightarrow> referral_db \<Rightarrow> time \<Rightarrow> uuid \<Rightarrow> string list \<Rightarrow> referral_error + (string \<times> referral_db)" where
  "ensure_referral_code cfg db now user fresh_codes =
     (if \<not> rf_enabled cfg then Inl CampaignDisabled
      else if \<not> account_active (ref_accounts db) user then Inl AccountRequired
      else case find_row (\<lambda>r. rc_user_id r = user) (codes db) of
             Some existing \<Rightarrow>
               Inr (rc_code existing,
                    if rc_status existing \<noteq> ''ACTIVE''
                    then db\<lparr>codes := update_first (\<lambda>r. rc_user_id r = user)
                              (\<lambda>r. r\<lparr>rc_status := ''ACTIVE'', rc_updated_at := now\<rparr>) (codes db)\<rparr>
                    else db)
           | None \<Rightarrow>
               (case first_free_code (codes db) (take 5 fresh_codes) of
                  None \<Rightarrow> Inl NoUniqueCode
                | Some c \<Rightarrow>
                    Inr (c, db\<lparr>codes := codes db @ [\<lparr>rc_id = next_ref_id db, rc_user_id = user, rc_code = c,
                                  rc_status = ''ACTIVE'', rc_created_at = now, rc_updated_at = now\<rparr>],
                               next_ref_id := Suc (next_ref_id db)\<rparr>)))"

definition has_prior_paid_purchase :: "pass_purchase list \<Rightarrow> uuid \<Rightarrow> bool" where
  "has_prior_paid_purchase ps user \<longleftrightarrow>
     find_row (\<lambda>p. pp_user_id p = user \<and> pp_provider p = ''paddle'' \<and>
                   (pp_completed_at p \<noteq> None \<or> pp_status p = ''ACTIVE'' \<or> pp_status p = ''BLOCKED'')) ps \<noteq> None"

definition new_attribution :: "campaign \<Rightarrow> uuid \<Rightarrow> referral_code \<Rightarrow> uuid \<Rightarrow> time \<Rightarrow> attribution" where
  "new_attribution cfg i c invited current =
     \<lparr>ra_id = i, ra_inviter = rc_user_id c, ra_invited = invited, ra_code_id = rc_id c,
      ra_campaign_key = rf_campaign_key cfg, ra_status = ''CLAIMED'', ra_qualified_provider = None,
      ra_qualified_payment_ref = None, ra_claimed_at = current, ra_qualified_at = None, ra_rewarded_at = None,
      ra_revoked_at = None, ra_created_at = current, ra_updated_at = current\<rparr>"

definition claim_referral ::
  "campaign \<Rightarrow> referral_db \<Rightarrow> time \<Rightarrow> uuid \<Rightarrow> string \<Rightarrow> referral_error + (attribution \<times> referral_db)" where
  "claim_referral cfg db current invited code =
     (let normalized = upper (strip code)
      in if \<not> rf_enabled cfg then Inl CampaignDisabled
         else if normalized = [] then Inl CodeRequired
         else case find_row (\<lambda>a. ac_id a = invited) (ref_accounts db) of
                None \<Rightarrow> Inl AccountRequired
              | Some acc \<Rightarrow>
                 if ac_disabled_at acc \<noteq> None then Inl AccountRequired
                 else if ac_created_at acc < current - days (rf_claim_window_days cfg) then Inl WindowExpired
                 else if has_prior_paid_purchase (ref_purchases db) invited then Inl PriorPurchase
                 else case find_row (\<lambda>c. rc_code c = normalized \<and> rc_status c = ''ACTIVE'') (codes db) of
                        None \<Rightarrow> Inl CodeInvalid
                      | Some c \<Rightarrow>
                         if rc_user_id c = invited then Inl SelfReferral
                         else if \<not> account_active (ref_accounts db) (rc_user_id c) then Inl OwnerInactive
                         else case find_row (\<lambda>a. ra_invited a = invited) (attributions db) of
                                Some existing \<Rightarrow>
                                  (if ra_code_id existing = rc_id c then Inr (existing, db) else Inl AlreadyClaimed)
                              | None \<Rightarrow>
                                  (let a = new_attribution cfg (next_ref_id db) c invited current
                                   in Inr (a, db\<lparr>attributions := attributions db @ [a], next_ref_id := Suc (next_ref_id db)\<rparr>)))"

subsection \<open>Rewards\<close>

definition reward_source :: "uuid \<Rightarrow> string \<Rightarrow> string" where
  "reward_source i role = ''promo:referral:'' @ str_uuid i @ '':'' @ role"

definition reward_ends :: "ledger \<Rightarrow> uuid \<Rightarrow> string \<Rightarrow> time \<Rightarrow> time list" where
  "reward_ends t user campaign now =
     [e. r \<leftarrow> t, Some e \<leftarrow> [ue_expires_at r],
         ue_user_id r = user \<and> ue_campaign_key r = Some campaign \<and> ue_scope_type r = ''GLOBAL'' \<and>
         ue_status r = ''ACTIVE'' \<and> now < e]"

definition reward_start :: "ledger \<Rightarrow> uuid \<Rightarrow> string \<Rightarrow> time \<Rightarrow> time" where
  "reward_start t user campaign now =
     (case py_max (\<lambda>e. e) (reward_ends t user campaign now) of None \<Rightarrow> now | Some e \<Rightarrow> max now e)"

definition reward_row :: "uuid \<Rightarrow> string \<Rightarrow> string \<Rightarrow> time \<Rightarrow> time \<Rightarrow> time \<Rightarrow> string \<Rightarrow> entitlement_record" where
  "reward_row user source campaign starts_at expires_at stamp entitlement =
     \<lparr>ue_user_id = user, ue_entitlement = entitlement, ue_status = ''ACTIVE'', ue_source = source,
      ue_scope_type = ''GLOBAL'', ue_scope_ref = None, ue_campaign_key = Some campaign,
      ue_starts_at = Some starts_at, ue_expires_at = Some expires_at, ue_created_at = stamp, ue_updated_at = stamp\<rparr>"

definition grant_stacked_reward ::
  "ledger \<Rightarrow> time \<Rightarrow> uuid \<Rightarrow> string \<Rightarrow> string \<Rightarrow> int \<Rightarrow> time \<Rightarrow> referral_error + ledger" where
  "grant_stacked_reward t stamp user source campaign reward_days now =
     (let starts_at = reward_start t user campaign now;
          rows = map (reward_row user source campaign starts_at (starts_at + days reward_days) stamp) premium_entitlements
      in if \<exists>r \<in> set rows. find_grant (grant_key r) t \<noteq> None then Inl UniqueViolation
         else Inr (t @ rows))"

definition rewarded_count :: "referral_db \<Rightarrow> uuid \<Rightarrow> string \<Rightarrow> nat" where
  "rewarded_count db inviter campaign =
     length (filter (\<lambda>a. ra_inviter a = inviter \<and> ra_campaign_key a = campaign \<and> ra_status a = ''REWARDED'') (attributions db))"

definition reward_side ::
  "bool \<Rightarrow> ledger \<Rightarrow> time \<Rightarrow> uuid \<Rightarrow> string \<Rightarrow> string \<Rightarrow> int \<Rightarrow> time \<Rightarrow> referral_error + ledger" where
  "reward_side granted t stamp user source campaign reward_days now =
     (if granted then grant_stacked_reward t stamp user source campaign reward_days now else Inr t)"

definition qualify_referral_payment ::
  "campaign \<Rightarrow> referral_db \<Rightarrow> time \<Rightarrow> uuid \<Rightarrow> string \<Rightarrow> string \<Rightarrow> time \<Rightarrow> referral_error + (bool \<times> referral_db)" where
  "qualify_referral_payment cfg db stamp invited provider payment current =
     (let prov = lower (strip provider); pay = strip payment
      in if \<not> rf_enabled cfg then Inr (False, db)
         else if prov = [] \<or> pay = [] then Inl PaymentRequired
         else case find_row (\<lambda>a. ra_invited a = invited) (attributions db) of
                None \<Rightarrow> Inr (False, db)
              | Some a \<Rightarrow>
                 if ra_status a \<noteq> ''CLAIMED'' then Inr (False, db)
                 else if \<not> account_active (ref_accounts db) (ra_inviter a) \<or> \<not> account_active (ref_accounts db) (ra_invited a)
                 then Inr (False, db)
                 else if rf_max_rewards cfg \<le> rewarded_count db (ra_inviter a) (rf_campaign_key cfg) then Inr (False, db)
                 else if find_row (\<lambda>b. ra_qualified_provider b = Some prov \<and> ra_qualified_payment_ref b = Some pay)
                           (attributions db) \<noteq> None
                 then Inl UniqueViolation
                 else case reward_side (0 < rf_inviter_reward_days cfg) (ref_ledger db) stamp (ra_inviter a)
                             (reward_source (ra_id a) ''inviter'') (rf_campaign_key cfg) (rf_inviter_reward_days cfg) current of
                        Inl e \<Rightarrow> Inl e
                      | Inr t1 \<Rightarrow>
                         (case reward_side (0 < rf_invited_reward_days cfg) t1 stamp (ra_invited a)
                                 (reward_source (ra_id a) ''invited'') (rf_campaign_key cfg) (rf_invited_reward_days cfg) current of
                            Inl e \<Rightarrow> Inl e
                          | Inr t2 \<Rightarrow>
                             Inr (True,
                                  db\<lparr>attributions := update_first (\<lambda>a. ra_invited a = invited)
                                        (\<lambda>a. a\<lparr>ra_status := ''REWARDED'', ra_qualified_provider := Some prov,
                                               ra_qualified_payment_ref := Some pay, ra_qualified_at := Some current,
                                               ra_rewarded_at := Some current, ra_updated_at := stamp\<rparr>) (attributions db),
                                     ref_ledger := t2\<rparr>)))"

definition revoke_rewards :: "time \<Rightarrow> uuid \<Rightarrow> string \<Rightarrow> ledger \<Rightarrow> ledger" where
  "revoke_rewards stamp user source t =
     update_where (\<lambda>r. ue_user_id r = user \<and> ue_source r = source \<and> ue_status r = ''ACTIVE'')
       (\<lambda>r. r\<lparr>ue_status := ''REVOKED'', ue_updated_at := stamp\<rparr>) t"

definition paid_by :: "string \<Rightarrow> string \<Rightarrow> attribution \<Rightarrow> bool" where
  "paid_by prov pay a \<longleftrightarrow> ra_qualified_provider a = Some prov \<and> ra_qualified_payment_ref a = Some pay"

definition revoke_referral_payment ::
  "campaign \<Rightarrow> referral_db \<Rightarrow> time \<Rightarrow> string \<Rightarrow> string \<Rightarrow> time \<Rightarrow> bool \<times> referral_db" where
  "revoke_referral_payment cfg db stamp provider payment revoked_at =
     (let prov = lower (strip provider); pay = strip payment
      in if \<not> rf_enabled cfg then (False, db)
         else case find_row (paid_by prov pay) (attributions db) of
                None \<Rightarrow> (False, db)
              | Some a \<Rightarrow>
                 if ra_status a \<noteq> ''REWARDED'' then (False, db)
                 else (True,
                       db\<lparr>attributions := update_first (paid_by prov pay)
                             (\<lambda>a. a\<lparr>ra_status := ''REVOKED'', ra_revoked_at := Some revoked_at, ra_updated_at := stamp\<rparr>)
                             (attributions db),
                          ref_ledger := revoke_rewards stamp (ra_invited a) (reward_source (ra_id a) ''invited'')
                                          (revoke_rewards stamp (ra_inviter a) (reward_source (ra_id a) ''inviter'')
                                            (ref_ledger db))\<rparr>))"

definition paid_user_for_transaction :: "pass_purchase list \<Rightarrow> string \<Rightarrow> uuid option" where
  "paid_user_for_transaction ps tx =
     map_option pp_user_id
       (find_row (\<lambda>p. pp_provider p = ''paddle'' \<and> pp_transaction_ref p = tx \<and> pp_status p = ''ACTIVE'' \<and>
                      \<not> pp_payment_blocked p) ps)"

text \<open>\<open>handle_paddle_payment_event\<close> on a body that \<open>json.loads\<close> accepted; \<open>now\<close> is its argument of that
  name or the clock.\<close>

definition handle_paddle_payment_event ::
  "(string \<Rightarrow> time option) \<Rightarrow> campaign \<Rightarrow> referral_db \<Rightarrow> time \<Rightarrow> json \<Rightarrow> time \<Rightarrow> referral_error + (bool \<times> referral_db)" where
  "handle_paddle_payment_event fromisoformat cfg db stamp body now =
     (if \<not> rf_enabled cfg then Inr (False, db)
      else case body of
        JObj payload \<Rightarrow>
          (case (json_get payload ''event_type'', json_get payload ''data'') of
             (JStr event_type, JObj data) \<Rightarrow>
               (let occurred_at = (case optional_string (json_get payload ''occurred_at'') of
                                     None \<Rightarrow> now
                                   | Some s \<Rightarrow> (case fromisoformat s of None \<Rightarrow> now | Some t \<Rightarrow> t))
                in if event_type = ''transaction.completed''
                   then (case json_get data ''id'' of
                           JStr tx \<Rightarrow>
                             (if tx = [] then Inr (False, db)
                              else case paid_user_for_transaction (ref_purchases db) tx of
                                     None \<Rightarrow> Inr (False, db)
                                   | Some u \<Rightarrow> qualify_referral_payment cfg db stamp u ''paddle'' tx occurred_at)
                         | _ \<Rightarrow> Inr (False, db))
                   else if event_type \<noteq> ''adjustment.created'' \<and> event_type \<noteq> ''adjustment.updated'' then Inr (False, db)
                   else if lower_text (json_get data ''status'') \<noteq> ''approved'' then Inr (False, db)
                   else if lower_text (json_get data ''type'') \<noteq> ''full'' then Inr (False, db)
                   else if lower_text (json_get data ''action'') \<notin> {''refund'', ''chargeback'', ''chargeback_warning''}
                   then Inr (False, db)
                   else case json_get data ''transaction_id'' of
                          JStr tx \<Rightarrow>
                            (if tx = [] then Inr (False, db)
                             else Inr (revoke_referral_payment cfg db stamp ''paddle'' tx occurred_at))
                        | _ \<Rightarrow> Inr (False, db))
           | _ \<Rightarrow> Inr (False, db))
      | _ \<Rightarrow> Inr (False, db))"

text \<open>The counters of \<open>overview\<close>.\<close>

definition overview :: "campaign \<Rightarrow> referral_db \<Rightarrow> uuid \<Rightarrow> nat \<times> nat" where
  "overview cfg db user =
     (if \<not> rf_enabled cfg then (0, 0)
      else (length (filter (\<lambda>a. ra_inviter a = user \<and> ra_campaign_key a = rf_campaign_key cfg) (attributions db)),
            rewarded_count db user (rf_campaign_key cfg)))"

end
