(* ===== verification/ReferralProperties.thy ===== *)
theory ReferralProperties
  imports Referral
begin

text \<open>
  Properties of the referral campaign: the invariant of its tables in every state the service can
  reach while accounts, purchases and other grants change around it, the windows of the rewards,
  and revocation.
\<close>

subsection \<open>Reachable states\<close>

inductive referral_step :: "campaign \<Rightarrow> referral_db \<Rightarrow> referral_db \<Rightarrow> bool" for cfg where
  ensure: "ensure_referral_code cfg db now user fresh = Inr (c, db') \<Longrightarrow> referral_step cfg db db'"
| claim: "claim_referral cfg db now user code = Inr (a, db') \<Longrightarrow> referral_step cfg db db'"
| qualify: "qualify_referral_payment cfg db stamp user prov pay now = Inr (b, db') \<Longrightarrow> referral_step cfg db db'"
| revoke: "revoke_referral_payment cfg db stamp prov pay now = (b, db') \<Longrightarrow> referral_step cfg db db'"
| others: "referral_step cfg db (db\<lparr>ref_ledger := t, ref_accounts := accs, ref_purchases := ps\<rparr>)"

inductive referral_reachable :: "campaign \<Rightarrow> referral_db \<Rightarrow> bool" for cfg where
  start: "codes db = [] \<Longrightarrow> attributions db = [] \<Longrightarrow> referral_reachable cfg db"
| step: "referral_reachable cfg db \<Longrightarrow> referral_step cfg db db' \<Longrightarrow> referral_reachable cfg db'"

definition payment_of :: "attribution \<Rightarrow> string option \<times> string option" where
  "payment_of a = (ra_qualified_provider a, ra_qualified_payment_ref a)"

definition attribution_ok :: "campaign \<Rightarrow> attribution \<Rightarrow> bool" where
  "attribution_ok cfg a \<longleftrightarrow>
     ra_inviter a \<noteq> ra_invited a \<and> ra_campaign_key a = rf_campaign_key cfg \<and>
     ra_status a \<in> {''CLAIMED'', ''REWARDED'', ''REVOKED''} \<and>
     (ra_status a = ''CLAIMED'' \<longleftrightarrow> payment_of a = (None, None))"

definition referral_inv :: "campaign \<Rightarrow> referral_db \<Rightarrow> bool" where
  "referral_inv cfg db \<longleftrightarrow>
     distinct (map ra_invited (attributions db)) \<and> distinct (map ra_id (attributions db)) \<and>
     (\<forall>a \<in> set (attributions db). attribution_ok cfg a \<and> ra_id a < next_ref_id db) \<and>
     (\<forall>a \<in> set (attributions db). \<forall>b \<in> set (attributions db).
        ra_status a \<noteq> ''CLAIMED'' \<longrightarrow> payment_of a = payment_of b \<longrightarrow> a = b) \<and>
     (\<forall>i. rewarded_count db i (rf_campaign_key cfg) \<le> rf_max_rewards cfg)"

lemma referral_invD:
  assumes "referral_inv cfg db"
  shows "distinct (map ra_invited (attributions db))" "distinct (map ra_id (attributions db))"
    "a \<in> set (attributions db) \<Longrightarrow> attribution_ok cfg a" "a \<in> set (attributions db) \<Longrightarrow> ra_id a < next_ref_id db"
    "a \<in> set (attributions db) \<Longrightarrow> b \<in> set (attributions db) \<Longrightarrow> ra_status a \<noteq> ''CLAIMED'' \<Longrightarrow>
     payment_of a = payment_of b \<Longrightarrow> a = b"
    "rewarded_count db i (rf_campaign_key cfg) \<le> rf_max_rewards cfg"
  using assms by (simp_all add: referral_inv_def)

lemma referral_inv_same:
  "referral_inv cfg db \<Longrightarrow> attributions db' = attributions db \<Longrightarrow> next_ref_id db \<le> next_ref_id db' \<Longrightarrow> referral_inv cfg db'"
  by (fastforce simp: referral_inv_def rewarded_count_def)

lemma claim_inv:
  assumes "referral_inv cfg db" and "claim_referral cfg db now user code = Inr (a, db')"
  shows "referral_inv cfg db'"
proof (cases "db' = db")
  case True
  then show ?thesis using assms(1) by simp
next
  case False
  have "\<exists>c. rc_user_id c \<noteq> user \<and> find_row (\<lambda>a. ra_invited a = user) (attributions db) = None \<and>
    a = new_attribution cfg (next_ref_id db) c user now \<and>
    db' = db\<lparr>attributions := attributions db @ [a], next_ref_id := Suc (next_ref_id db)\<rparr>"
    using assms(2) False
    by (auto simp: claim_referral_def Let_def split: if_splits option.splits)
  then obtain c where c: "rc_user_id c \<noteq> user" "find_row (\<lambda>a. ra_invited a = user) (attributions db) = None"
    "a = new_attribution cfg (next_ref_id db) c user now"
    "db' = db\<lparr>attributions := attributions db @ [a], next_ref_id := Suc (next_ref_id db)\<rparr>"
    by blast
  have ok: "attribution_ok cfg a" "ra_status a = ''CLAIMED''" "ra_id a = next_ref_id db" "ra_invited a = user"
    using c(1) by (simp_all add: c(3) new_attribution_def attribution_ok_def payment_of_def)
  have old: "attribution_ok cfg b" "ra_id b < next_ref_id db" "ra_invited b \<noteq> user" if "b \<in> set (attributions db)" for b
    using assms(1) c(2) that by (auto simp: referral_inv_def find_row_None_iff)
  have "payment_of a = payment_of b \<longrightarrow> a = b" if "b \<in> set (attributions db)" "ra_status b \<noteq> ''CLAIMED''" for b
    using old(1) [OF that(1)] that ok(1,2) by (auto simp: attribution_ok_def)
  note sep = this
  have pay: "x = y" if x: "x \<in> set (attributions db')" and y: "y \<in> set (attributions db')" and s: "ra_status x \<noteq> ''CLAIMED''"
    and p: "payment_of x = payment_of y" for x y
  proof -
    have x': "x \<in> set (attributions db)" using x s ok(2) unfolding c(4) by auto
    have y': "y \<in> set (attributions db) \<or> y = a" using y unfolding c(4) by auto
    then show ?thesis
    proof
      assume "y = a"
      then show ?thesis using sep [OF x' s] p by simp
    qed (use referral_invD(5) [OF assms(1) x' _ s p] in blast)
  qed
  have "rewarded_count db' i k = rewarded_count db i k" for i k
    using ok(2) by (simp add: rewarded_count_def c(4))
  moreover have "distinct (map ra_invited (attributions db'))" "distinct (map ra_id (attributions db'))"
    using assms(1) old ok(3,4) unfolding c(4) by (fastforce simp: referral_inv_def)+
  moreover have "\<forall>x \<in> set (attributions db'). attribution_ok cfg x \<and> ra_id x < next_ref_id db'"
    using old(1,2) ok(1,3) unfolding c(4) by (auto simp: less_Suc_eq)
  ultimately show ?thesis using referral_invD(6) [OF assms(1)] pay unfolding referral_inv_def by simp
qed

text \<open>One attribution changes its status and, perhaps, its payment.\<close>

lemma change_inv:
  assumes "referral_inv cfg db" and "find_row P (attributions db) = Some a"
    and "attributions db' = update_first P f (attributions db)" and "next_ref_id db' = next_ref_id db"
    and "\<And>r. ra_id (f r) = ra_id r \<and> ra_invited (f r) = ra_invited r \<and> ra_inviter (f r) = ra_inviter r \<and> ra_campaign_key (f r) = ra_campaign_key r"
    and "attribution_ok cfg (f a)" and "ra_status (f a) \<noteq> ''CLAIMED''"
    and "\<And>b. b \<in> set (attributions db) \<Longrightarrow> payment_of b = payment_of (f a) \<Longrightarrow> b = a"
    and "ra_status (f a) = ''REWARDED'' \<Longrightarrow> rewarded_count db (ra_inviter a) (rf_campaign_key cfg) < rf_max_rewards cfg"
  shows "referral_inv cfg db'"
proof -
  have a: "a \<in> set (attributions db)" using find_row_SomeD [OF assms(2)] by simp
  have keys: "map ra_id (attributions db') = map ra_id (attributions db)"
    "map ra_invited (attributions db') = map ra_invited (attributions db)"
    unfolding assms(3) by (rule map_update_first, simp add: assms(5))+
  have elem: "x \<in> set (attributions db) \<or> x = f a" if "x \<in> set (attributions db')" for x
    using update_first_in [OF that [unfolded assms(3)] assms(2)] .
  have new: "f a \<in> set (attributions db')" unfolding assms(3) by (rule in_update_first_new [OF assms(2)])
  have uniq: "x = f a" if "x \<in> set (attributions db')" "ra_id x = ra_id a" for x
    using key_row_unique [of ra_id "attributions db'" x "f a"] that new keys(1) assms(1,5) by (simp add: referral_inv_def)
  have ok: "\<forall>x \<in> set (attributions db'). attribution_ok cfg x \<and> ra_id x < next_ref_id db'"
    using elem assms(1,4,5,6) a by (fastforce simp: referral_inv_def)
  have pay: "x = y" if x: "x \<in> set (attributions db')" and y: "y \<in> set (attributions db')" and s: "ra_status x \<noteq> ''CLAIMED''"
    and p: "payment_of x = payment_of y" for x y
  proof -
    have one: "z = f a" if "z \<in> set (attributions db')" "payment_of z = payment_of (f a)" for z
      using elem [OF that(1)] assms(8) [of z] that uniq by auto
    show ?thesis
    proof (cases "x = f a \<or> y = f a")
      case True
      then show ?thesis using one [OF x] one [OF y] p by auto
    next
      case False
      then have "x \<in> set (attributions db)" "y \<in> set (attributions db)" using elem x y by auto
      then show ?thesis using assms(1) s p by (auto simp: referral_inv_def)
    qed
  qed
  have cap: "rewarded_count db' i (rf_campaign_key cfg) \<le> rf_max_rewards cfg" for i
  proof -
    let ?Q = "\<lambda>x. ra_inviter x = i \<and> ra_campaign_key x = rf_campaign_key cfg \<and> ra_status x = ''REWARDED''"
    have old: "rewarded_count db i (rf_campaign_key cfg) \<le> rf_max_rewards cfg" using assms(1) by (simp add: referral_inv_def)
    have "rewarded_count db' i (rf_campaign_key cfg) + (if ?Q a then 1 else 0)
        = rewarded_count db i (rf_campaign_key cfg) + (if ?Q (f a) then 1 else 0)"
      unfolding rewarded_count_def assms(3) by (rule count_update_first [OF assms(2)])
    moreover have "rewarded_count db i (rf_campaign_key cfg) < rf_max_rewards cfg" if "?Q (f a)"
      using assms(9) that assms(5) [of a] by simp
    ultimately show ?thesis using old by (auto split: if_splits)
  qed
  show ?thesis using keys ok pay cap assms(1) unfolding referral_inv_def by simp
qed

lemma qualify_True:
  assumes "qualify_referral_payment cfg db stamp user prov pay now = Inr (b, db')"
  shows "db' = db \<and> \<not> b \<or>
    (\<exists>a t1. b \<and> find_row (\<lambda>a. ra_invited a = user) (attributions db) = Some a \<and> ra_status a = ''CLAIMED'' \<and>
       rewarded_count db (ra_inviter a) (rf_campaign_key cfg) < rf_max_rewards cfg \<and>
       find_row (paid_by (lower (strip prov)) (strip pay)) (attributions db) = None \<and>
       reward_side (0 < rf_inviter_reward_days cfg) (ref_ledger db) stamp (ra_inviter a)
         (reward_source (ra_id a) ''inviter'') (rf_campaign_key cfg) (rf_inviter_reward_days cfg) now = Inr t1 \<and>
       reward_side (0 < rf_invited_reward_days cfg) t1 stamp (ra_invited a)
         (reward_source (ra_id a) ''invited'') (rf_campaign_key cfg) (rf_invited_reward_days cfg) now = Inr (ref_ledger db') \<and>
       db' = db\<lparr>attributions := update_first (\<lambda>a. ra_invited a = user)
                  (\<lambda>a. a\<lparr>ra_status := ''REWARDED'', ra_qualified_provider := Some (lower (strip prov)),
                         ra_qualified_payment_ref := Some (strip pay), ra_qualified_at := Some now,
                         ra_rewarded_at := Some now, ra_updated_at := stamp\<rparr>) (attributions db),
                ref_ledger := ref_ledger db'\<rparr>)"
  using assms
  by (auto simp: qualify_referral_payment_def Let_def paid_by_def [abs_def] split: if_splits option.splits sum.splits)

lemma qualify_inv:
  assumes "referral_inv cfg db" and "qualify_referral_payment cfg db stamp user prov pay now = Inr (b, db')"
  shows "referral_inv cfg db'"
proof (cases b)
  case False
  then show ?thesis using qualify_True [OF assms(2)] assms(1) by auto
next
  case True
  let ?f = "\<lambda>a. a\<lparr>ra_status := ''REWARDED'', ra_qualified_provider := Some (lower (strip prov)),
                 ra_qualified_payment_ref := Some (strip pay), ra_qualified_at := Some now,
                 ra_rewarded_at := Some now, ra_updated_at := stamp\<rparr>"
  obtain a where a: "find_row (\<lambda>a. ra_invited a = user) (attributions db) = Some a"
      "rewarded_count db (ra_inviter a) (rf_campaign_key cfg) < rf_max_rewards cfg"
      "find_row (paid_by (lower (strip prov)) (strip pay)) (attributions db) = None"
      "db' = db\<lparr>attributions := update_first (\<lambda>a. ra_invited a = user) ?f (attributions db), ref_ledger := ref_ledger db'\<rparr>"
    using qualify_True [OF assms(2)] True by blast
  have "attributions db' = update_first (\<lambda>a. ra_invited a = user) ?f (attributions db)"
    using arg_cong [OF a(4), of attributions] by simp
  moreover have "next_ref_id db' = next_ref_id db" using arg_cong [OF a(4), of next_ref_id] by simp
  moreover have "a \<in> set (attributions db)" using find_row_SomeD [OF a(1)] by simp
  then have "attribution_ok cfg (?f a)"
    using assms(1) by (auto simp: referral_inv_def attribution_ok_def payment_of_def)
  ultimately show ?thesis
    using a(2,3)
    by (intro change_inv [OF assms(1) a(1), of db' ?f])
      (auto simp: payment_of_def paid_by_def find_row_None_iff)
qed

lemma revoke_True:
  assumes "revoke_referral_payment cfg db stamp prov pay now = (b, db')"
  shows "db' = db \<and> \<not> b \<or>
    (\<exists>a. b \<and> find_row (paid_by (lower (strip prov)) (strip pay)) (attributions db) = Some a \<and> ra_status a = ''REWARDED'' \<and>
       db' = db\<lparr>attributions := update_first (paid_by (lower (strip prov)) (strip pay))
                  (\<lambda>a. a\<lparr>ra_status := ''REVOKED'', ra_revoked_at := Some now, ra_updated_at := stamp\<rparr>) (attributions db),
                ref_ledger := revoke_rewards stamp (ra_invited a) (reward_source (ra_id a) ''invited'')
                  (revoke_rewards stamp (ra_inviter a) (reward_source (ra_id a) ''inviter'') (ref_ledger db))\<rparr>)"
  using assms by (auto simp: revoke_referral_payment_def Let_def split: if_splits option.splits)

lemma revoke_inv':
  assumes "referral_inv cfg db" and "revoke_referral_payment cfg db stamp prov pay now = (b, db')"
  shows "referral_inv cfg db'"
proof (cases b)
  case False
  then show ?thesis using revoke_True [OF assms(2)] assms(1) by auto
next
  case True
  let ?f = "\<lambda>a. a\<lparr>ra_status := ''REVOKED'', ra_revoked_at := Some now, ra_updated_at := stamp\<rparr>"
  obtain a t where a: "find_row (paid_by (lower (strip prov)) (strip pay)) (attributions db) = Some a" "ra_status a = ''REWARDED''"
      "db' = db\<lparr>attributions := update_first (paid_by (lower (strip prov)) (strip pay)) ?f (attributions db), ref_ledger := t\<rparr>"
    using revoke_True [OF assms(2)] True by blast
  have mem: "a \<in> set (attributions db)" using find_row_SomeD [OF a(1)] by simp
  have pay: "payment_of (?f a) = payment_of a" by (simp add: payment_of_def)
  have "b = a" if "b \<in> set (attributions db)" "payment_of b = payment_of (?f a)" for b
    using referral_invD(5) [OF assms(1) mem that(1)] a(2) that(2) pay by simp
  moreover have "attribution_ok cfg (?f a)"
    using assms(1) mem a(2) by (auto simp: referral_inv_def attribution_ok_def payment_of_def)
  ultimately show ?thesis
    by (intro change_inv [OF assms(1) a(1), of db' ?f]) (simp_all add: a(3))
qed

lemma referral_step_inv: "referral_step cfg db db' \<Longrightarrow> referral_inv cfg db \<Longrightarrow> referral_inv cfg db'"
proof (induction rule: referral_step.induct)
  case (ensure db now user fresh c db')
  have "attributions db' = attributions db \<and> next_ref_id db \<le> next_ref_id db'"
    using ensure.hyps by (auto simp: ensure_referral_code_def split: if_splits option.splits)
  then show ?case using referral_inv_same [OF ensure.prems] by simp
next
  case (others db t accs ps)
  show ?case by (rule referral_inv_same [OF others.prems]) simp_all
next
  case (claim db now user code a db')
  then show ?case by (blast intro: claim_inv)
next
  case (qualify db stamp user prov pay now b db')
  then show ?case by (blast intro: qualify_inv)
next
  case (revoke db stamp prov pay now b db')
  then show ?case by (blast intro: revoke_inv')
qed

lemma referral_reachable_inv: "referral_reachable cfg db \<Longrightarrow> referral_inv cfg db"
proof (induction rule: referral_reachable.induct)
  case (start db)
  then show ?case by (simp add: referral_inv_def rewarded_count_def)
next
  case (step db db')
  then show ?case by (blast intro: referral_step_inv)
qed

subsection \<open>Windows of the rewards\<close>

lemma reward_start_ge: "now \<le> reward_start t user campaign now"
  by (simp add: reward_start_def split: option.split)

lemma in_reward_ends:
  assumes "r \<in> set t" "ue_user_id r = user" "ue_campaign_key r = Some campaign" "ue_scope_type r = ''GLOBAL''"
    "ue_status r = ''ACTIVE''" "ue_expires_at r = Some e" "now < e"
  shows "e \<in> set (reward_ends t user campaign now)"
  using assms unfolding reward_ends_def by (induction t) auto

lemma reward_start_after:
  assumes "r \<in> set t" "ue_user_id r = user" "ue_campaign_key r = Some campaign" "ue_scope_type r = ''GLOBAL''"
    "ue_status r = ''ACTIVE''" "ue_expires_at r = Some e"
  shows "e \<le> reward_start t user campaign now"
proof (cases "now < e")
  case False
  then show ?thesis using reward_start_ge [of now t user campaign] by simp
next
  case True
  have e: "e \<in> set (reward_ends t user campaign now)" by (rule in_reward_ends [OF assms True])
  then obtain m where m: "py_max (\<lambda>e. e) (reward_ends t user campaign now) = Some m"
    by (metis (no_types) list.set(1) empty_iff not_None_eq py_max_None)
  have "e \<le> m" using py_max_ge [OF m e] .
  then show ?thesis by (simp add: reward_start_def m)
qed

lemma stacked_reward_rows:
  assumes "grant_stacked_reward t stamp user source campaign n now = Inr t'" and "e \<in> set premium_entitlements"
  shows "reward_row user source campaign (reward_start t user campaign now) (reward_start t user campaign now + days n) stamp e \<in> set t'"
    and "set t \<subseteq> set t'"
  using assms by (auto simp: grant_stacked_reward_def Let_def split: if_splits)

lemma stacked_reward_writer:
  "grant_writer (\<lambda>t. case grant_stacked_reward t stamp user source campaign n now of Inl _ \<Rightarrow> t | Inr t' \<Rightarrow> t')
     {(user, ai_decisions, source), (user, realtime_notifications, source)}"
proof
  have ne: "ai_decisions \<noteq> realtime_notifications" by (simp add: ai_decisions_def realtime_notifications_def)
  show "ledger_inv (case grant_stacked_reward t stamp user source campaign n now of Inl _ \<Rightarrow> t | Inr t' \<Rightarrow> t')"
    if "ledger_inv t" for t
    using that ne
    by (auto simp: grant_stacked_reward_def ledger_inv_def premium_entitlements_def reward_row_def grant_key_def
        scope_ok_def access_scopes_def find_grant_def find_row_None_iff Let_def)
  show "outside {(user, ai_decisions, source), (user, realtime_notifications, source)}
      (case grant_stacked_reward t stamp user source campaign n now of Inl _ \<Rightarrow> t | Inr t' \<Rightarrow> t')
    = outside {(user, ai_decisions, source), (user, realtime_notifications, source)} t" for t
    by (auto simp: grant_stacked_reward_def outside_def premium_entitlements_def reward_row_def grant_key_def Let_def)
qed

interpretation rw: grant_writer
  "\<lambda>t. case grant_stacked_reward t stamp user source campaign n now of Inl _ \<Rightarrow> t | Inr t' \<Rightarrow> t'"
  "{(user, ai_decisions, source), (user, realtime_notifications, source)}"
  by (rule stacked_reward_writer)

subsection \<open>A concrete campaign\<close>

definition demo_campaign :: campaign where
  "demo_campaign = \<lparr>rf_enabled = True, rf_campaign_key = ''c'', rf_claim_window_days = 7, rf_inviter_reward_days = 7,
     rf_invited_reward_days = 3, rf_max_rewards = 20\<rparr>"

definition demo_referral_accounts :: "account list" where
  "demo_referral_accounts = [\<lparr>ac_id = 1, ac_disabled_at = None, ac_created_at = 0\<rparr>, \<lparr>ac_id = 2, ac_disabled_at = None, ac_created_at = 0\<rparr>]"

definition demo_referrals :: referral_db where
  "demo_referrals = \<lparr>codes = [], attributions = [], ref_ledger = [], ref_accounts = demo_referral_accounts,
     ref_purchases = [], next_ref_id = 0\<rparr>"

definition demo_code :: referral_code where
  "demo_code = \<lparr>rc_id = 0, rc_user_id = 1, rc_code = ''AB'', rc_status = ''ACTIVE'', rc_created_at = 0, rc_updated_at = 0\<rparr>"

definition demo_claimed_db :: referral_db where
  "demo_claimed_db = demo_referrals\<lparr>codes := [demo_code],
     attributions := [new_attribution demo_campaign 1 demo_code 2 5], next_ref_id := 2\<rparr>"

lemma demo_claim_runs:
  "ensure_referral_code demo_campaign demo_referrals 0 1 [''AB''] = Inr (''AB'', demo_referrals\<lparr>codes := [demo_code], next_ref_id := 1\<rparr>)"
  "claim_referral demo_campaign (demo_referrals\<lparr>codes := [demo_code], next_ref_id := 1\<rparr>) 5 2 ''ab''
     = Inr (new_attribution demo_campaign 1 demo_code 2 5, demo_claimed_db)"
  by (simp_all add: ensure_referral_code_def claim_referral_def demo_campaign_def demo_referrals_def demo_code_def
      demo_claimed_db_def demo_referral_accounts_def account_active_def has_prior_paid_purchase_def days_def strip_def
      py_isspace_def upper_def upper_char_def char_of_def bit_0 Let_def)

lemma demo_claimed_reachable: "referral_reachable demo_campaign demo_claimed_db"
proof (rule referral_reachable.step [OF referral_reachable.step [OF referral_reachable.start]])
  show "referral_step demo_campaign demo_referrals (demo_referrals\<lparr>codes := [demo_code], next_ref_id := 1\<rparr>)"
    by (rule referral_step.ensure [OF demo_claim_runs(1)])
  show "referral_step demo_campaign (demo_referrals\<lparr>codes := [demo_code], next_ref_id := 1\<rparr>) demo_claimed_db"
    by (rule referral_step.claim [OF demo_claim_runs(2)])
qed (simp_all add: demo_referrals_def)

lemma demo_qualifies:
  "\<exists>db'. qualify_referral_payment demo_campaign demo_claimed_db 9 2 ''paddle'' ''txn'' 9 = Inr (True, db')"
  by (simp add: qualify_referral_payment_def reward_side_def grant_stacked_reward_def find_grant_def grant_key_def
      reward_row_def premium_entitlements_def demo_claimed_db_def demo_referrals_def demo_referral_accounts_def
      new_attribution_def demo_campaign_def demo_code_def account_active_def rewarded_count_def strip_def py_isspace_def
      lower_def lower_char_def reward_start_def reward_ends_def reward_source_def Let_def py_max_def)

subsection \<open>Properties\<close>

text \<open>C13.  In every state the campaign can reach, whatever accounts, purchases and other grants do around it,
  no inviter has more rewarded referrals than the cap, nobody refers himself, every invited account
  has one attribution at most, and one payment qualifies one attribution at most.\<close>

theorem rewards_are_capped:
  assumes "referral_reachable cfg db"
  shows "rewarded_count db inviter (rf_campaign_key cfg) \<le> rf_max_rewards cfg \<and>
     distinct (map ra_invited (attributions db)) \<and>
     (\<forall>a \<in> set (attributions db). ra_inviter a \<noteq> ra_invited a \<and>
        (\<forall>b \<in> set (attributions db). ra_status a \<noteq> ''CLAIMED'' \<longrightarrow>
           ra_qualified_provider a = ra_qualified_provider b \<longrightarrow>
           ra_qualified_payment_ref a = ra_qualified_payment_ref b \<longrightarrow> a = b))"
proof -
  note inv = referral_invD [OF referral_reachable_inv [OF assms]]
  have "a = b" if "a \<in> set (attributions db)" "b \<in> set (attributions db)" "ra_status a \<noteq> ''CLAIMED''"
    "ra_qualified_provider a = ra_qualified_provider b" "ra_qualified_payment_ref a = ra_qualified_payment_ref b" for a b
    by (rule inv(5) [OF that(1,2,3)]) (simp add: payment_of_def that)
  moreover have "ra_inviter a \<noteq> ra_invited a" if "a \<in> set (attributions db)" for a
    using inv(3) [OF that] by (simp add: attribution_ok_def)
  ultimately show ?thesis using inv(1,6) by blast
qed

theorem rewards_are_capped_witness:
  "rewarded_count demo_claimed_db 1 ''c'' \<le> 20"
  using rewards_are_capped [OF demo_claimed_reachable, of 1] by (simp add: demo_campaign_def)

text \<open>Rewards stack without overlap.  A qualified payment gives inviter and invited both premium
  entitlements for exactly their number of days, starting no earlier than the payment and no earlier
  than the end of any reward of the campaign the account still holds, so no rewarded day is covered
  twice; and it changes nothing that was in the ledger.\<close>

theorem rewards_stack:
  assumes "referral_inv cfg db" and "qualify_referral_payment cfg db stamp user prov pay now = Inr (True, db')"
    and "0 < rf_inviter_reward_days cfg" and "0 < rf_invited_reward_days cfg"
  shows "\<exists>a \<in> set (attributions db). ra_invited a = user \<and> set (ref_ledger db) \<subseteq> set (ref_ledger db') \<and>
     (\<forall>(who, role, n) \<in> {(ra_inviter a, ''inviter'', rf_inviter_reward_days cfg), (user, ''invited'', rf_invited_reward_days cfg)}.
        \<exists>s \<ge> now. (\<forall>e \<in> set premium_entitlements.
            reward_row who (reward_source (ra_id a) role) (rf_campaign_key cfg) s (s + days n) stamp e \<in> set (ref_ledger db')) \<and>
          (\<forall>r \<in> set (ref_ledger db). \<forall>x. ue_user_id r = who \<longrightarrow> ue_campaign_key r = Some (rf_campaign_key cfg) \<longrightarrow>
             ue_scope_type r = ''GLOBAL'' \<longrightarrow> ue_status r = ''ACTIVE'' \<longrightarrow> ue_expires_at r = Some x \<longrightarrow> x \<le> s))"
proof -
  obtain a t1 where a: "find_row (\<lambda>a. ra_invited a = user) (attributions db) = Some a"
    and r1: "grant_stacked_reward (ref_ledger db) stamp (ra_inviter a) (reward_source (ra_id a) ''inviter'')
        (rf_campaign_key cfg) (rf_inviter_reward_days cfg) now = Inr t1"
    and r2: "grant_stacked_reward t1 stamp (ra_invited a) (reward_source (ra_id a) ''invited'')
        (rf_campaign_key cfg) (rf_invited_reward_days cfg) now = Inr (ref_ledger db')"
    using qualify_True [OF assms(2)] assms(3,4) by (auto simp: reward_side_def)
  have mem: "a \<in> set (attributions db)" "ra_invited a = user" using find_row_SomeD [OF a] by simp_all
  have sub: "set (ref_ledger db) \<subseteq> set t1" "set t1 \<subseteq> set (ref_ledger db')"
    using stacked_reward_rows(2) [OF r1] stacked_reward_rows(2) [OF r2] by (auto simp: premium_entitlements_def)
  let ?s1 = "reward_start (ref_ledger db) (ra_inviter a) (rf_campaign_key cfg) now"
  let ?s2 = "reward_start t1 user (rf_campaign_key cfg) now"
  have one: "reward_row (ra_inviter a) (reward_source (ra_id a) ''inviter'') (rf_campaign_key cfg) ?s1
      (?s1 + days (rf_inviter_reward_days cfg)) stamp e \<in> set (ref_ledger db')" if "e \<in> set premium_entitlements" for e
    using stacked_reward_rows(1) [OF r1 that] sub(2) by blast
  have two: "reward_row user (reward_source (ra_id a) ''invited'') (rf_campaign_key cfg) ?s2
      (?s2 + days (rf_invited_reward_days cfg)) stamp e \<in> set (ref_ledger db')" if "e \<in> set premium_entitlements" for e
    using stacked_reward_rows(1) [OF r2 that] mem(2) by simp
  have after1: "x \<le> ?s1" if "r \<in> set (ref_ledger db)" "ue_user_id r = ra_inviter a" "ue_campaign_key r = Some (rf_campaign_key cfg)"
    "ue_scope_type r = ''GLOBAL''" "ue_status r = ''ACTIVE''" "ue_expires_at r = Some x" for r x
    by (rule reward_start_after [OF that])
  have after2: "x \<le> ?s2" if "r \<in> set (ref_ledger db)" "ue_user_id r = user" "ue_campaign_key r = Some (rf_campaign_key cfg)"
    "ue_scope_type r = ''GLOBAL''" "ue_status r = ''ACTIVE''" "ue_expires_at r = Some x" for r x
    by (rule reward_start_after [OF _ that(2-6)]) (use that(1) sub(1) in blast)
  have w1: "\<exists>s \<ge> now. (\<forall>e \<in> set premium_entitlements.
            reward_row (ra_inviter a) (reward_source (ra_id a) ''inviter'') (rf_campaign_key cfg) s
              (s + days (rf_inviter_reward_days cfg)) stamp e \<in> set (ref_ledger db')) \<and>
          (\<forall>r \<in> set (ref_ledger db). \<forall>x. ue_user_id r = ra_inviter a \<longrightarrow> ue_campaign_key r = Some (rf_campaign_key cfg) \<longrightarrow>
             ue_scope_type r = ''GLOBAL'' \<longrightarrow> ue_status r = ''ACTIVE'' \<longrightarrow> ue_expires_at r = Some x \<longrightarrow> x \<le> s)"
    by (rule exI [of _ ?s1]) (use one after1 reward_start_ge in blast)
  have w2: "\<exists>s \<ge> now. (\<forall>e \<in> set premium_entitlements.
            reward_row user (reward_source (ra_id a) ''invited'') (rf_campaign_key cfg) s
              (s + days (rf_invited_reward_days cfg)) stamp e \<in> set (ref_ledger db')) \<and>
          (\<forall>r \<in> set (ref_ledger db). \<forall>x. ue_user_id r = user \<longrightarrow> ue_campaign_key r = Some (rf_campaign_key cfg) \<longrightarrow>
             ue_scope_type r = ''GLOBAL'' \<longrightarrow> ue_status r = ''ACTIVE'' \<longrightarrow> ue_expires_at r = Some x \<longrightarrow> x \<le> s)"
    by (rule exI [of _ ?s2]) (use two after2 reward_start_ge in blast)
  show ?thesis
    by (rule bexI [OF _ mem(1)]) (use w1 w2 mem(2) sub in simp)
qed

theorem rewards_stack_witness:
  "\<exists>db'. qualify_referral_payment demo_campaign demo_claimed_db 9 2 ''paddle'' ''txn'' 9 = Inr (True, db') \<and>
     set (ref_ledger demo_claimed_db) \<subseteq> set (ref_ledger db')"
proof -
  obtain db' where q: "qualify_referral_payment demo_campaign demo_claimed_db 9 2 ''paddle'' ''txn'' 9 = Inr (True, db')"
    using demo_qualifies by blast
  have "0 < rf_inviter_reward_days demo_campaign" "0 < rf_invited_reward_days demo_campaign"
    by (simp_all add: demo_campaign_def)
  from rewards_stack [OF referral_reachable_inv [OF demo_claimed_reachable] q this] q show ?thesis by blast
qed

text \<open> A refunded payment takes the rewards back, on both sides, for good: the attribution is REVOKED,
  no grant of its two sources is active any more, every other row of the ledger stays, and no later
  payment can qualify the invited account again.\<close>

theorem revoked_rewards_are_gone:
  assumes "referral_inv cfg db" and "revoke_referral_payment cfg db stamp prov pay now = (True, db')"
  shows "\<exists>a \<in> set (attributions db). \<exists>a' \<in> set (attributions db').
     ra_id a' = ra_id a \<and> ra_status a' = ''REVOKED'' \<and>
     (\<forall>(who, role) \<in> {(ra_inviter a, ''inviter''), (ra_invited a, ''invited'')}.
        \<forall>r \<in> set (ref_ledger db'). ue_user_id r = who \<longrightarrow> ue_source r = reward_source (ra_id a) role \<longrightarrow> \<not> active_at clock r) \<and>
     (\<forall>r \<in> set (ref_ledger db). ue_source r \<noteq> reward_source (ra_id a) ''inviter'' \<longrightarrow>
        ue_source r \<noteq> reward_source (ra_id a) ''invited'' \<longrightarrow> r \<in> set (ref_ledger db')) \<and>
     (\<forall>b db''. qualify_referral_payment cfg db' stamp2 (ra_invited a) prov2 pay2 now2 = Inr (b, db'') \<longrightarrow> \<not> b \<and> db'' = db')"
proof -
  let ?P = "paid_by (lower (strip prov)) (strip pay)"
  let ?f = "\<lambda>a. a\<lparr>ra_status := ''REVOKED'', ra_revoked_at := Some now, ra_updated_at := stamp\<rparr>"
  obtain a where a: "find_row ?P (attributions db) = Some a"
    and db': "attributions db' = update_first ?P ?f (attributions db)"
      "ref_ledger db' = revoke_rewards stamp (ra_invited a) (reward_source (ra_id a) ''invited'')
                  (revoke_rewards stamp (ra_inviter a) (reward_source (ra_id a) ''inviter'') (ref_ledger db))"
    using revoke_True [OF assms(2)] by auto
  have mem: "a \<in> set (attributions db)" using find_row_SomeD [OF a] by simp
  have new: "?f a \<in> set (attributions db')" unfolding db'(1) by (rule in_update_first_new [OF a])
  have inv': "referral_inv cfg db'" by (rule revoke_inv' [OF assms])
  have find: "find_row (\<lambda>x. ra_invited x = ra_invited a) (attributions db') = Some (?f a)"
    by (rule find_row_unique [where key = ra_invited]) (use referral_invD(1) [OF inv'] new in auto)
  have never: "\<not> b \<and> db'' = db'" if "qualify_referral_payment cfg db' stamp2 (ra_invited a) prov2 pay2 now2 = Inr (b, db'')" for b db''
    using qualify_True [OF that] find by auto
  have off: "\<not> active_at clock r"
    if r: "r \<in> set (ref_ledger db')"
      and s: "ue_user_id r = ra_inviter a \<and> ue_source r = reward_source (ra_id a) ''inviter'' \<or>
              ue_user_id r = ra_invited a \<and> ue_source r = reward_source (ra_id a) ''invited''" for r
    using r s unfolding db'(2) revoke_rewards_def
    by (auto simp: active_at_def set_update_where reward_source_def)
  have keep: "r \<in> set (ref_ledger db')" if "r \<in> set (ref_ledger db)" "ue_source r \<noteq> reward_source (ra_id a) ''inviter''"
    "ue_source r \<noteq> reward_source (ra_id a) ''invited''" for r
    using that unfolding db'(2) revoke_rewards_def by (auto simp: set_update_where)
  have "ra_id (?f a) = ra_id a" "ra_status (?f a) = ''REVOKED''" by simp_all
  then show ?thesis using mem new off keep never by (intro bexI [OF _ mem] bexI [OF _ new]) auto
qed

theorem revoked_rewards_are_gone_witness:
  "\<exists>db1 db2 a'. qualify_referral_payment demo_campaign demo_claimed_db 9 2 ''paddle'' ''txn'' 9 = Inr (True, db1) \<and>
     revoke_referral_payment demo_campaign db1 20 ''paddle'' ''txn'' 20 = (True, db2) \<and>
     a' \<in> set (attributions db2) \<and> ra_status a' = ''REVOKED''"
proof -
  obtain db1 where q: "qualify_referral_payment demo_campaign demo_claimed_db 9 2 ''paddle'' ''txn'' 9 = Inr (True, db1)"
    using demo_qualifies by blast
  have low: "lower (strip ''paddle'') = ''paddle''" "strip ''txn'' = ''txn''"
    by (simp_all add: strip_def py_isspace_def lower_def lower_char_def)
  have "find_row (paid_by ''paddle'' ''txn'') (attributions db1) \<noteq> None"
    using qualify_True [OF q] by (auto simp: low demo_claimed_db_def new_attribution_def paid_by_def dest!: arg_cong [where f = attributions])
  moreover have "\<forall>a \<in> set (attributions db1). paid_by ''paddle'' ''txn'' a \<longrightarrow> ra_status a = ''REWARDED''"
    using qualify_True [OF q] by (auto simp: low demo_claimed_db_def new_attribution_def paid_by_def dest!: arg_cong [where f = attributions])
  ultimately obtain db2 where r: "revoke_referral_payment demo_campaign db1 20 ''paddle'' ''txn'' 20 = (True, db2)"
    by (auto simp: revoke_referral_payment_def low Let_def demo_campaign_def dest: find_row_SomeD)
  have "referral_inv demo_campaign db1" by (rule qualify_inv [OF referral_reachable_inv [OF demo_claimed_reachable] q])
  from revoked_rewards_are_gone [OF this r] q r show ?thesis by blast
qed

end
