(* ===== verification/PassProperties.thy ===== *)
theory PassProperties
  imports Pass
begin

text \<open>
  Properties of the paid passes: a completed payment opens exactly the purchased scope, webhooks are
  idempotent, and a refunded or charged-back purchase never comes back.
\<close>

subsection \<open>The grants of one purchase\<close>

definition purchase_ok :: "pass_purchase \<Rightarrow> bool" where
  "purchase_ok p \<longleftrightarrow>
     (pp_scope_type p = ''SERIES'' \<and> pp_series_id p \<noteq> None \<and> pp_event_id p = None) \<or>
     (pp_scope_type p = ''EVENT'' \<and> pp_series_id p = None \<and> pp_event_id p \<noteq> None)"

definition pass_inv :: "pass_db \<Rightarrow> bool" where
  "pass_inv db \<longleftrightarrow>
     distinct (map pp_transaction_ref (purchases db)) \<and>
     (\<forall>p \<in> set (purchases db). pp_provider p = ''paddle'' \<and> purchase_ok p) \<and> ledger_inv (pass_ledger db)"

definition pass_row :: "pass_purchase \<Rightarrow> time \<Rightarrow> bool \<Rightarrow> entitlement_record \<Rightarrow> bool" where
  "pass_row p starts_at active r \<longleftrightarrow>
     (if active then ue_status r = ''ACTIVE'' \<and> ue_starts_at r = Some starts_at \<and> ue_expires_at r = None \<and>
                     ue_scope_type r = pp_scope_type p \<and> ue_scope_ref r = pass_scope_ref p
      else ue_status r = ''REVOKED'')"

definition pass_rows :: "pass_purchase \<Rightarrow> time \<Rightarrow> bool \<Rightarrow> string \<Rightarrow> ledger \<Rightarrow> bool" where
  "pass_rows p starts_at active entitlement t \<longleftrightarrow>
     (\<forall>r \<in> set t. grant_key r = (pp_user_id p, entitlement, pass_source p) \<longrightarrow> pass_row p starts_at active r) \<and>
     (active \<longrightarrow> (\<exists>r \<in> set t. grant_key r = (pp_user_id p, entitlement, pass_source p)))"

lemma purchase_scope_ok:
  "purchase_ok p \<Longrightarrow> pp_scope_type p \<in> set access_scopes \<and> pp_scope_type p \<noteq> ''GLOBAL'' \<and> pass_scope_ref p \<noteq> None"
  by (auto simp: purchase_ok_def access_scopes_def pass_scope_ref_def)

lemma upsert_pass_grant_spec:
  assumes "upsert_pass_grant p s act now e t = Inr t'" and "ledger_inv t" and "purchase_ok p"
  shows "ledger_inv t' \<and> outside {(pp_user_id p, e, pass_source p)} t' = outside {(pp_user_id p, e, pass_source p)} t \<and>
         pass_rows p s act e t'"
proof (cases "find_grant (pp_user_id p, e, pass_source p) t")
  case None
  let ?k = "(pp_user_id p, e, pass_source p)"
  have fresh: "\<forall>r \<in> set t. grant_key r \<noteq> ?k" using None by (simp add: find_grant_def find_row_None_iff)
  then have "?k \<notin> grant_key ` set t" by auto
  show ?thesis
  proof (cases act)
    case True
    define new where "new = \<lparr>ue_user_id = pp_user_id p, ue_entitlement = e, ue_status = ''ACTIVE'',
        ue_source = pass_source p, ue_scope_type = pp_scope_type p, ue_scope_ref = pass_scope_ref p,
        ue_campaign_key = None, ue_starts_at = Some s, ue_expires_at = None, ue_created_at = now, ue_updated_at = now\<rparr>"
    have t': "t' = t @ [new]" using assms(1) None True by (simp add: upsert_pass_grant_def new_def)
    have k: "grant_key new = ?k" and row: "pass_row p s True new" and sc: "scope_ok new"
      using purchase_scope_ok [OF assms(3)]
      by (simp_all add: new_def grant_key_def pass_row_def scope_ok_def)
    have "ledger_inv t'" using assms(2) \<open>?k \<notin> _\<close> k sc by (simp add: t' ledger_inv_def)
    moreover have "pass_rows p s act e t'" using True k row fresh by (auto simp: t' pass_rows_def)
    ultimately show ?thesis using k by (simp add: t' outside_def)
  next
    case False
    then show ?thesis using assms None fresh by (auto simp: upsert_pass_grant_def pass_rows_def)
  qed
next
  case (Some row)
  let ?k = "(pp_user_id p, e, pass_source p)"
  let ?f = "\<lambda>r. r\<lparr>ue_status := (if act then ''ACTIVE'' else ''REVOKED''),
                 ue_starts_at := (if act then Some s else ue_starts_at r),
                 ue_expires_at := (if act then None else ue_expires_at r), ue_updated_at := now\<rparr>"
  have t': "t' = update_first (\<lambda>r. grant_key r = ?k) ?f t"
    and sc: "ue_scope_type row = pp_scope_type p" "ue_scope_ref row = pass_scope_ref p"
    using assms(1) Some by (auto simp: upsert_pass_grant_def Let_def split: if_splits)
  have find: "find_row (\<lambda>r. grant_key r = ?k) t = Some row" using Some by (simp add: find_grant_def)
  have keys: "map grant_key t' = map grant_key t" unfolding t' by (rule map_update_first) simp
  have scopes: "scope_ok r" if "r \<in> set t'" for r
    using in_update_firstD [OF that [unfolded t']] assms(2) by (auto simp: ledger_inv_def scope_ok_def)
  have inv: "ledger_inv t'" using keys scopes assms(2) by (simp add: ledger_inv_def)
  have new: "?f row \<in> set t'" unfolding t' by (rule in_update_first_new [OF find])
  have k: "grant_key (?f row) = ?k" using find_row_SomeD [OF find] by simp
  have row: "pass_row p s act (?f row)" using sc by (simp add: pass_row_def)
  have uniq: "r = ?f row" if "r \<in> set t'" "grant_key r = ?k" for r
    using key_row_unique [of grant_key t' r "?f row"] inv that new k by (simp add: ledger_inv_def)
  have "pass_rows p s act e t'" unfolding pass_rows_def using uniq row new k by metis
  moreover have "outside {?k} t' = outside {?k} t"
    unfolding t' outside_def by (rule filter_update_first_other) simp
  ultimately show ?thesis using inv by blast
qed

lemma pass_rows_frame:
  assumes "outside K t' = outside K t" and "(pp_user_id p, e, pass_source p) \<notin> K"
  shows "pass_rows p s act e t' = pass_rows p s act e t"
proof -
  have "r \<in> set t' \<longleftrightarrow> r \<in> set t" if "grant_key r = (pp_user_id p, e, pass_source p)" for r
    using in_outside [of r K t] in_outside [of r K t'] assms that by simp
  then show ?thesis by (auto simp: pass_rows_def)
qed

definition pass_keys :: "pass_purchase \<Rightarrow> grant_key set" where
  "pass_keys p = {(pp_user_id p, ai_decisions, pass_source p), (pp_user_id p, realtime_notifications, pass_source p)}"

lemma upsert_pass_grants_spec:
  assumes "upsert_pass_grants p s act now premium_entitlements t = Inr t'" and "ledger_inv t" and "purchase_ok p"
  shows "ledger_inv t' \<and> outside (pass_keys p) t' = outside (pass_keys p) t \<and>
         (\<forall>e \<in> set premium_entitlements. pass_rows p s act e t')"
proof -
  obtain t1 where t1: "upsert_pass_grant p s act now ai_decisions t = Inr t1"
      "upsert_pass_grant p s act now realtime_notifications t1 = Inr t'"
    using assms(1) by (auto simp: premium_entitlements_def split: sum.splits)
  note a = upsert_pass_grant_spec [OF t1(1) assms(2,3)]
  then have b: "ledger_inv t' \<and> outside {(pp_user_id p, realtime_notifications, pass_source p)} t'
      = outside {(pp_user_id p, realtime_notifications, pass_source p)} t1 \<and> pass_rows p s act realtime_notifications t'"
    using upsert_pass_grant_spec [OF t1(2) _ assms(3)] by blast
  have "pass_rows p s act ai_decisions t'"
    using pass_rows_frame [of "{(pp_user_id p, realtime_notifications, pass_source p)}" t' t1 p ai_decisions s act] a b
    by (simp add: ai_decisions_def realtime_notifications_def)
  moreover have "outside (pass_keys p) t' = outside (pass_keys p) t1"
    by (rule outside_mono [of "{(pp_user_id p, realtime_notifications, pass_source p)}"]) (use b in \<open>auto simp: pass_keys_def\<close>)
  moreover have "outside (pass_keys p) t1 = outside (pass_keys p) t"
    by (rule outside_mono [of "{(pp_user_id p, ai_decisions, pass_source p)}"]) (use a in \<open>auto simp: pass_keys_def\<close>)
  ultimately show ?thesis using b by (auto simp: premium_entitlements_def)
qed

text \<open>A pass writes under its own keys only: the contract of the ledger.\<close>

interpretation pw: grant_writer
  "\<lambda>t. if purchase_ok p \<and> ledger_inv t
       then (case upsert_pass_grants p s act now premium_entitlements t of Inl _ \<Rightarrow> t | Inr t' \<Rightarrow> t') else t" "pass_keys p"
  by unfold_locales (auto split: sum.split dest: upsert_pass_grants_spec)

subsection \<open>What an event does\<close>

lemma pass_same_columns:
  "pp_transaction_ref (stamp_purchase t now (f q)) = pp_transaction_ref q \<and>
   pp_provider (stamp_purchase t now (f q)) = pp_provider q \<and> purchase_ok (stamp_purchase t now (f q)) = purchase_ok q \<and>
   pass_source (stamp_purchase t now (f q)) = pass_source q \<and> pp_user_id (stamp_purchase t now (f q)) = pp_user_id q \<and>
   pp_scope_type (stamp_purchase t now (f q)) = pp_scope_type q"
  if "f = (\<lambda>q. q) \<or> f = activate_purchase t \<or> f = block_purchase"
  using that by (auto simp: stamp_purchase_def activate_purchase_def block_purchase_def purchase_ok_def pass_source_def)

definition pass_recorded :: "pass_db \<Rightarrow> pass_service \<times> pass_event \<Rightarrow> bool" where
  "pass_recorded db sve \<longleftrightarrow>
     find_row (is_purchase (sv_scope_type (fst sve)) (pe_transaction_ref (snd sve))) (purchases db) \<noteq> None \<and>
     (\<exists>row. find_row (is_pass_event (pe_event_ref (snd sve))) (pass_events db) = Some row \<and>
            pv_payload_digest row = pe_digest (snd sve))"

lemma apply_pass_runs:
  assumes "apply_pass_event db now (sv, ev) = Inr (r, db')"
  obtains (noop) "db' = db" "\<not> pr_activated r" "\<not> pr_revoked r" "pr_ignored r \<or> pass_recorded db (sv, ev)"
  | (stale) p where "find_row (is_purchase (sv_scope_type sv) (pe_transaction_ref ev)) (purchases db) = Some p"
      "find_row (is_pass_event (pe_event_ref ev)) (pass_events db) = None"
      "db' = db\<lparr>pass_events := pass_events db @ [pass_event_row ev p False now]\<rparr>" "\<not> pr_activated r" "\<not> pr_revoked r"
  | (idle) p where "find_row (is_purchase (sv_scope_type sv) (pe_transaction_ref ev)) (purchases db) = Some p"
      "find_row (is_pass_event (pe_event_ref ev)) (pass_events db) = None"
      "db' = write_purchase sv ev now p (\<lambda>q. q) (pass_ledger db) db" "pp_payment_blocked p" "\<not> pr_activated r" "\<not> pr_revoked r"
  | (act) p t where "find_row (is_purchase (sv_scope_type sv) (pe_transaction_ref ev)) (purchases db) = Some p"
      "find_row (is_pass_event (pe_event_ref ev)) (pass_events db) = None"
      "upsert_pass_grants (activate_purchase (pe_occurred_at ev) p) (pe_occurred_at ev) True now premium_entitlements (pass_ledger db) = Inr t"
      "db' = write_purchase sv ev now p (activate_purchase (pe_occurred_at ev)) t db" "\<not> pp_payment_blocked p" "pr_activated r" "\<not> pr_revoked r"
  | (rev) p s t where "find_row (is_purchase (sv_scope_type sv) (pe_transaction_ref ev)) (purchases db) = Some p"
      "find_row (is_pass_event (pe_event_ref ev)) (pass_events db) = None"
      "upsert_pass_grants (block_purchase p) s False now premium_entitlements (pass_ledger db) = Inr t"
      "db' = write_purchase sv ev now p block_purchase t db" "\<not> pr_activated r" "pr_revoked r"
proof (cases "find_row (is_purchase (sv_scope_type sv) (pe_transaction_ref ev)) (purchases db)")
  case None
  then show thesis using assms by (intro noop) (auto simp: apply_pass_event_def pass_outcome_def)
next
  case (Some p)
  show thesis
  proof (cases "find_row (is_pass_event (pe_event_ref ev)) (pass_events db)")
    case seen: Some
    then show thesis using assms Some
      by (intro noop) (auto simp: apply_pass_event_def pass_outcome_def pass_recorded_def Let_def split: if_splits)
  next
    case new: None
    let ?stale = "case pp_last_event_occurred_at p of None \<Rightarrow> False | Some l \<Rightarrow> pe_occurred_at ev < l"
    show thesis
    proof (cases ?stale)
      case True
      then show thesis using assms Some new
        by (intro stale [of p]) (auto simp: apply_pass_event_def pass_outcome_def Let_def)
    next
      case fresh: False
      show thesis
      proof (cases "pe_mode ev")
        case ACTIVATE
        have val: "validate_completed_transaction (pe_data ev) p (sv_price_id sv) = None"
          using assms Some new fresh ACTIVATE by (simp add: apply_pass_event_def Let_def split: option.splits)
        show thesis
        proof (cases "pp_payment_blocked p")
          case True
          then show thesis using assms Some new fresh ACTIVATE val
            by (intro idle [of p]) (auto simp: apply_pass_event_def pass_outcome_def Let_def)
        next
          case False
          then obtain t where "upsert_pass_grants (activate_purchase (pe_occurred_at ev) p) (pe_occurred_at ev) True now
              premium_entitlements (pass_ledger db) = Inr t"
            using assms Some new fresh ACTIVATE val
            by (auto simp: apply_pass_event_def Let_def split: sum.splits)
          then show thesis using assms Some new fresh ACTIVATE val False
            by (intro act [of p t]) (auto simp: apply_pass_event_def pass_outcome_def Let_def)
        qed
      next
        case REVOKE
        let ?s = "case pp_completed_at p of None \<Rightarrow> pe_occurred_at ev | Some c \<Rightarrow> c"
        obtain t where "upsert_pass_grants (block_purchase p) ?s False now premium_entitlements (pass_ledger db) = Inr t"
          using assms Some new fresh REVOKE by (auto simp: apply_pass_event_def Let_def split: sum.splits)
        then show thesis using assms Some new fresh REVOKE
          by (intro rev [of p ?s t]) (auto simp: apply_pass_event_def pass_outcome_def Let_def)
      qed
    qed
  qed
qed

lemma apply_pass_cases:
  assumes "apply_pass_event db now (sv, ev) = Inr (r, db')" and "pass_inv db"
  obtains (kept) "purchases db' = purchases db" "pass_ledger db' = pass_ledger db" "\<not> pr_activated r" "\<not> pr_revoked r"
  | (changed) p f t where "find_row (is_purchase (sv_scope_type sv) (pe_transaction_ref ev)) (purchases db) = Some p"
      "purchase_ok p"
      "purchases db' = update_first (is_purchase (sv_scope_type sv) (pe_transaction_ref ev))
                         (\<lambda>q. stamp_purchase (pe_occurred_at ev) now (f q)) (purchases db)"
      "pass_ledger db' = t"
      "f = (\<lambda>q. q) \<and> t = pass_ledger db \<and> pp_payment_blocked p \<and> \<not> pr_activated r \<and> \<not> pr_revoked r \<or>
       f = activate_purchase (pe_occurred_at ev) \<and> \<not> pp_payment_blocked p \<and> pr_activated r \<and> \<not> pr_revoked r \<and>
         ledger_inv t \<and> outside (pass_keys p) t = outside (pass_keys p) (pass_ledger db) \<and>
         (\<forall>e \<in> set premium_entitlements. pass_rows p (pe_occurred_at ev) True e t) \<or>
       f = block_purchase \<and> \<not> pr_activated r \<and> pr_revoked r \<and>
         ledger_inv t \<and> outside (pass_keys p) t = outside (pass_keys p) (pass_ledger db) \<and>
         (\<forall>e \<in> set premium_entitlements. \<exists>s. pass_rows p s False e t)"
proof -
  have li: "ledger_inv (pass_ledger db)" using assms(2) by (simp add: pass_inv_def)
  have ok: "purchase_ok p" if "find_row (is_purchase sc tx) (purchases db) = Some p" for p sc tx
    using find_row_SomeD [OF that] assms(2) by (simp add: pass_inv_def)
  have same: "purchase_ok (activate_purchase t p) = purchase_ok p" "purchase_ok (block_purchase p) = purchase_ok p"
    "pass_keys (activate_purchase t p) = pass_keys p" "pass_keys (block_purchase p) = pass_keys p"
    "pass_rows (activate_purchase t p) s a e l = pass_rows p s a e l" "pass_rows (block_purchase p) s a e l = pass_rows p s a e l"
    for t p s a e l
    by (simp_all add: activate_purchase_def block_purchase_def purchase_ok_def pass_keys_def pass_rows_def
        pass_source_def pass_row_def pass_scope_ref_def)
  show thesis
    using assms(1)
  proof (cases rule: apply_pass_runs)
    case noop
    then show ?thesis using kept by blast
  next
    case (stale p)
    show ?thesis by (rule kept) (use stale in simp_all)
  next
    case (idle p)
    show ?thesis
      by (rule changed [OF idle(1) ok [OF idle(1)], of "\<lambda>q. q" "pass_ledger db"]) (use idle in \<open>simp_all add: write_purchase_def\<close>)
  next
    case (act p t)
    have "purchase_ok (activate_purchase (pe_occurred_at ev) p)" using ok [OF act(1)] by (simp add: same)
    from upsert_pass_grants_spec [OF act(3) li this] show ?thesis
      by (intro changed [OF act(1) ok [OF act(1)], of "activate_purchase (pe_occurred_at ev)" t])
        (use act in \<open>simp_all add: write_purchase_def same\<close>)
  next
    case (rev p s t)
    have "purchase_ok (block_purchase p)" using ok [OF rev(1)] by (simp add: same)
    from upsert_pass_grants_spec [OF rev(3) li this] show ?thesis
      by (intro changed [OF rev(1) ok [OF rev(1)], of block_purchase t])
        (use rev in \<open>auto simp: write_purchase_def same\<close>)
  qed
qed

lemma update_purchase_inv:
  assumes "pass_inv db" and "f = (\<lambda>q. q) \<or> f = activate_purchase t \<or> f = block_purchase"
    and "purchases db' = update_first (is_purchase sc tx) (\<lambda>q. stamp_purchase t now (f q)) (purchases db)"
    and "ledger_inv (pass_ledger db')"
  shows "pass_inv db'"
proof -
  have "map pp_transaction_ref (purchases db') = map pp_transaction_ref (purchases db)"
    unfolding assms(3) by (rule map_update_first) (simp add: pass_same_columns [OF assms(2)])
  moreover have "pp_provider p = ''paddle'' \<and> purchase_ok p" if "p \<in> set (purchases db')" for p
    using in_update_firstD [OF that [unfolded assms(3)]] assms(1) pass_same_columns [OF assms(2)] by (auto simp: pass_inv_def)
  ultimately show ?thesis using assms(1,4) by (simp add: pass_inv_def)
qed

lemma apply_pass_inv [inv_intros]:
  assumes "apply_pass_event db now (sv, ev) = Inr (r, db')" and "pass_inv db"
  shows "pass_inv db'"
  using assms
proof (cases rule: apply_pass_cases)
  case kept
  then show ?thesis using assms(2) by (simp add: pass_inv_def)
next
  case (changed p f t)
  then show ?thesis
    using assms(2) by (intro update_purchase_inv [OF assms(2) _ changed(3)]) (auto simp: pass_inv_def)
qed

text \<open>What the server checked of an event that activates a purchase: the row it names, its freshness and the
  four comparisons of \<open>_validate_completed_transaction\<close>.\<close>

definition payment_checked :: "pass_service \<Rightarrow> pass_event \<Rightarrow> pass_purchase \<Rightarrow> bool" where
  "payment_checked sv ev p \<longleftrightarrow>
     (\<forall>l. pp_last_event_occurred_at p = Some l \<longrightarrow> l \<le> pe_occurred_at ev) \<and>
     (\<forall>c c'. pp_customer_ref p = Some c \<longrightarrow> optional_string (json_get (pe_data ev) ''customer_id'') = Some c' \<longrightarrow> c' = c) \<and>
     set (price_ids (pe_data ev)) = {sv_price_id sv} \<and> pp_price_ref p = sv_price_id sv \<and>
     (\<exists>custom. json_get (pe_data ev) ''custom_data'' = JObj custom \<and>
        json_get custom ''dota_user_id'' = JStr (str_uuid (pp_user_id p)) \<and>
        json_get custom ''dota_offer'' = JStr (lower (pp_scope_type p) @ ''_pass''))"

lemma activation_checked:
  assumes "apply_pass_event db now (sv, ev) = Inr (r, db')" and "pr_activated r"
    and "find_row (is_purchase (sv_scope_type sv) (pe_transaction_ref ev)) (purchases db) = Some p"
  shows "pe_mode ev = ACTIVATE" and "payment_checked sv ev p"
proof -
  have run: "pe_mode ev = ACTIVATE \<and> validate_completed_transaction (pe_data ev) p (sv_price_id sv) = None \<and>
      (\<forall>l. pp_last_event_occurred_at p = Some l \<longrightarrow> l \<le> pe_occurred_at ev)"
    using assms by (auto simp: apply_pass_event_def pass_outcome_def Let_def
        split: option.splits if_splits pass_mode.splits sum.splits)
  then show "pe_mode ev = ACTIVATE" by simp
  show "payment_checked sv ev p"
    using run by (auto simp: payment_checked_def validate_completed_transaction_def Let_def
        split: if_splits json.splits)
qed

subsection \<open>A blocked purchase\<close>

definition blocked_for :: "pass_db \<Rightarrow> string \<Rightarrow> string \<Rightarrow> bool" where
  "blocked_for db scope tx \<longleftrightarrow>
     (\<exists>p. find_row (is_purchase scope tx) (purchases db) = Some p \<and> pp_payment_blocked p \<and> pp_status p = ''BLOCKED'' \<and>
          (\<forall>e \<in> set premium_entitlements. \<exists>s. pass_rows p s False e (pass_ledger db)))"

lemma find_stamped:
  assumes "f = (\<lambda>q. q) \<or> f = activate_purchase t \<or> f = block_purchase"
  shows "find_row (is_purchase sc tx) (update_first (is_purchase sc tx) (\<lambda>q. stamp_purchase t now (f q)) ps)
           = map_option (\<lambda>q. stamp_purchase t now (f q)) (find_row (is_purchase sc tx) ps)"
  by (rule find_update_first) (simp add: is_purchase_def pass_same_columns [OF assms])

lemma find_stamped_other:
  assumes "f = (\<lambda>q. q) \<or> f = activate_purchase t \<or> f = block_purchase" and "sc \<noteq> sc' \<or> tx \<noteq> tx'"
  shows "find_row (is_purchase sc tx) (update_first (is_purchase sc' tx') (\<lambda>q. stamp_purchase t now (f q)) ps)
           = find_row (is_purchase sc tx) ps"
  by (rule find_update_first_other) (use assms(2) in \<open>auto simp: is_purchase_def pass_same_columns [OF assms(1)]\<close>)

lemma pass_rows_columns:
  "pass_source q = pass_source p \<Longrightarrow> pp_user_id q = pp_user_id p \<Longrightarrow> pass_rows q s False e t = pass_rows p s' False e t"
  by (simp add: pass_rows_def pass_row_def)

lemma revoke_blocks:
  assumes "pass_inv db" and "apply_pass_event db now (sv, ev) = Inr (r, db')" and "pr_revoked r"
  shows "blocked_for db' (sv_scope_type sv) (pe_transaction_ref ev)"
  using assms(2,1)
proof (cases rule: apply_pass_cases)
  case kept
  then show ?thesis using assms(3) by simp
next
  case (changed p f t)
  then have f: "f = block_purchase" using assms(3) by auto
  let ?q = "stamp_purchase (pe_occurred_at ev) now (block_purchase p)"
  have "find_row (is_purchase (sv_scope_type sv) (pe_transaction_ref ev)) (purchases db') = Some ?q"
    using changed(1,3) f find_stamped [of f] by simp
  moreover have "pp_payment_blocked ?q" "pp_status ?q = ''BLOCKED''"
    by (simp_all add: stamp_purchase_def block_purchase_def)
  moreover have "\<exists>s. pass_rows ?q s False e (pass_ledger db')" if "e \<in> set premium_entitlements" for e
  proof -
    have cols: "pass_source ?q = pass_source p" "pp_user_id ?q = pp_user_id p"
      using pass_same_columns [of block_purchase "pe_occurred_at ev" now p] by simp_all
    have "\<exists>s. pass_rows p s False e (pass_ledger db')" using changed(4,5) assms(3) that by auto
    then show ?thesis using pass_rows_columns [OF cols] by blast
  qed
  ultimately show ?thesis by (auto simp: blocked_for_def)
qed

lemma blocked_step:
  assumes "pass_inv db" and "blocked_for db scope tx" and "apply_pass_event db now (sv, ev) = Inr (r, db')"
  shows "blocked_for db' scope tx"
proof -
  obtain p where p: "find_row (is_purchase scope tx) (purchases db) = Some p" "pp_payment_blocked p" "pp_status p = ''BLOCKED''"
      "\<forall>e \<in> set premium_entitlements. \<exists>s. pass_rows p s False e (pass_ledger db)"
    using assms(2) by (auto simp: blocked_for_def)
  show ?thesis using assms(3,1)
  proof (cases rule: apply_pass_cases)
    case kept
    then show ?thesis using assms(2) by (simp add: blocked_for_def)
  next
    case (changed p' f t)
    have f: "f = (\<lambda>q. q) \<or> f = activate_purchase (pe_occurred_at ev) \<or> f = block_purchase" using changed(5) by auto
    let ?st = "\<lambda>q. stamp_purchase (pe_occurred_at ev) now (f q)"
    show ?thesis
    proof (cases "sv_scope_type sv = scope \<and> pe_transaction_ref ev = tx")
      case True
      then have eq: "p' = p" using changed(1) p(1) by simp
      have find: "find_row (is_purchase scope tx) (purchases db') = Some (?st p)"
        using changed(3) True p(1) find_stamped [OF f] by simp
      have cols: "pass_source (?st p) = pass_source p" "pp_user_id (?st p) = pp_user_id p"
        using pass_same_columns [OF f] by simp_all
      have stay: "pp_payment_blocked (?st p) \<and> pp_status (?st p) = ''BLOCKED''"
        using changed(5) p(2,3) eq by (auto simp: stamp_purchase_def block_purchase_def)
      have "\<exists>s. pass_rows p s False e (pass_ledger db')" if "e \<in> set premium_entitlements" for e
        using changed(4,5) p(2,4) eq that by auto
      then have "\<exists>s. pass_rows (?st p) s False e (pass_ledger db')" if "e \<in> set premium_entitlements" for e
        using that pass_rows_columns [OF cols] by blast
      then show ?thesis using find stay by (auto simp: blocked_for_def)
    next
      case False
      then have find: "find_row (is_purchase scope tx) (purchases db') = Some p"
        using changed(3) p(1) find_stamped_other [OF f, of scope "sv_scope_type sv" tx "pe_transaction_ref ev"] by auto
      have rows: "p \<in> set (purchases db)" "is_purchase scope tx p" "p' \<in> set (purchases db)"
        "is_purchase (sv_scope_type sv) (pe_transaction_ref ev) p'"
        using find_row_SomeD [OF p(1)] find_row_SomeD [OF changed(1)] by simp_all
      have "pp_transaction_ref p' \<noteq> pp_transaction_ref p"
      proof
        assume same: "pp_transaction_ref p' = pp_transaction_ref p"
        have "p' = p"
          by (rule key_row_unique [of pp_transaction_ref]) (use assms(1) rows same in \<open>simp_all add: pass_inv_def\<close>)
        then show False using rows False by (simp add: is_purchase_def)
      qed
      then have "(pp_user_id p, e, pass_source p) \<notin> pass_keys p'" for e by (auto simp: pass_keys_def pass_source_def)
      moreover have "outside (pass_keys p') (pass_ledger db') = outside (pass_keys p') (pass_ledger db)"
        using changed(4,5) by auto
      ultimately have "pass_rows p s False e (pass_ledger db') = pass_rows p s False e (pass_ledger db)" for s e
        by (intro pass_rows_frame) auto
      then show ?thesis using find p by (auto simp: blocked_for_def)
    qed
  qed
qed

lemma blocked_deliver:
  "pass_inv db \<Longrightarrow> blocked_for db scope tx \<Longrightarrow>
   pass_inv (deliver apply_pass_event db ds) \<and> blocked_for (deliver apply_pass_event db ds) scope tx"
proof (induction ds arbitrary: db)
  case (Cons d ds)
  obtain t sv ev where d: "d = (t, sv, ev)" by (cases d)
  have "pass_inv (deliver1 apply_pass_event db d) \<and> blocked_for (deliver1 apply_pass_event db d) scope tx"
    using Cons.prems by (auto simp: deliver1_def d split: sum.split intro: apply_pass_inv blocked_step)
  then show ?case using Cons.IH by simp
qed simp

subsection \<open>Idempotence\<close>

lemma find_purchase_kept:
  assumes "f = (\<lambda>q. q) \<or> f = activate_purchase t \<or> f = block_purchase" and "find_row (is_purchase sc tx) ps \<noteq> None"
  shows "find_row (is_purchase sc tx) (update_first (is_purchase sc' tx') (\<lambda>q. stamp_purchase t now (f q)) ps) \<noteq> None"
proof (cases "sc = sc' \<and> tx = tx'")
  case True
  then show ?thesis using assms(2) find_stamped [OF assms(1), of sc tx now ps] by auto
next
  case False
  then show ?thesis using assms(2) find_stamped_other [OF assms(1), of sc sc' tx tx' now ps] by auto
qed

lemma apply_pass_log:
  assumes "apply_pass_event db now (sv, ev) = Inr (r, db')"
  shows "(db' = db \<or> find_row (is_purchase (sv_scope_type sv) (pe_transaction_ref ev)) (purchases db) \<noteq> None \<and>
            find_row (is_pass_event (pe_event_ref ev)) (pass_events db) = None \<and>
            (\<exists>p b. pass_events db' = pass_events db @ [pass_event_row ev p b now])) \<and>
         (purchases db' = purchases db \<or>
            (\<exists>f t. (f = (\<lambda>q. q) \<or> f = activate_purchase t \<or> f = block_purchase) \<and>
               purchases db' = update_first (is_purchase (sv_scope_type sv) (pe_transaction_ref ev))
                                 (\<lambda>q. stamp_purchase t now (f q)) (purchases db)))"
  using assms
proof (cases rule: apply_pass_runs)
  case noop
  then show ?thesis by simp
next
  case (stale p)
  then show ?thesis by auto
next
  case (idle p)
  then show ?thesis by (auto simp: write_purchase_def)
next
  case (act p t)
  then show ?thesis by (auto simp: write_purchase_def)
next
  case (rev p s t)
  then show ?thesis by (auto simp: write_purchase_def)
qed

interpretation pl: event_log apply_pass_event pass_recorded
proof
  fix db now e r db'
  assume a: "apply_pass_event db now e = Inr (r, db')"
  obtain sv ev where e: "e = (sv, ev)" by (cases e)
  note log = apply_pass_log [OF a [unfolded e]]
  have kept: "find_row (is_purchase sc tx) (purchases db') \<noteq> None" if "find_row (is_purchase sc tx) (purchases db) \<noteq> None" for sc tx
    using log that find_purchase_kept by metis
  show "pass_recorded db' e \<or> db' = db"
    using log kept by (auto simp: pass_recorded_def e pass_event_row_def is_pass_event_def split: option.split)
  show "pass_recorded db' e2" if "pass_recorded db e2" for e2
    using that log kept [of "sv_scope_type (fst e2)" "pe_transaction_ref (snd e2)"] by (auto simp: pass_recorded_def)
next
  show "\<exists>r. apply_pass_event db now e = Inr (r, db)" if "pass_recorded db e" for db e now
    using that by (auto simp: pass_recorded_def apply_pass_event_def split_beta Let_def)
qed

subsection \<open>A concrete purchase\<close>

definition demo_service :: pass_service where
  "demo_service = \<lparr>sv_scope_type = ''SERIES'', sv_price_id = ''pri''\<rparr>"

definition demo_purchase :: pass_purchase where
  "demo_purchase = \<lparr>pp_id = 0, pp_user_id = 3, pp_provider = ''paddle'', pp_transaction_ref = ''txn'',
     pp_customer_ref = None, pp_scope_type = ''SERIES'', pp_series_id = Some 1, pp_event_id = None,
     pp_price_ref = ''pri'', pp_status = ''PENDING'', pp_payment_blocked = False, pp_completed_at = None,
     pp_last_event_occurred_at = None, pp_created_at = 0, pp_updated_at = 0\<rparr>"

definition demo_passes :: pass_db where
  "demo_passes = \<lparr>purchases = [demo_purchase], pass_events = [], pass_ledger = [], pass_accounts = [], next_purchase_id = 1\<rparr>"

definition demo_paid :: pass_event where
  "demo_paid = \<lparr>pe_event_ref = ''e1'', pe_event_type = ''transaction.completed'', pe_occurred_at = 5,
     pe_transaction_ref = ''txn'', pe_mode = ACTIVATE,
     pe_data = [(''items'', JList [JObj [(''price_id'', JStr ''pri'')]]),
                (''custom_data'', JObj [(''dota_user_id'', JStr ''3''), (''dota_offer'', JStr ''series_pass'')])],
     pe_digest = ''x''\<rparr>"

definition demo_refund :: pass_event where
  "demo_refund = demo_paid\<lparr>pe_event_ref := ''e2'', pe_event_type := ''adjustment.created'', pe_occurred_at := 9, pe_mode := REVOKE\<rparr>"

lemma demo_passes_inv: "pass_inv demo_passes"
  by (simp add: pass_inv_def demo_passes_def demo_purchase_def purchase_ok_def ledger_inv_def)

lemma demo_paid_valid: "validate_completed_transaction (pe_data demo_paid) demo_purchase ''pri'' = None"
  by (simp add: validate_completed_transaction_def demo_paid_def demo_purchase_def json_get_def optional_string_def
      price_ids_def price_id_of_def str_uuid_def digits_of.simps lower_def lower_char_def char_of_def bit_0 Let_def)

lemma demo_columns:
  "pe_event_ref demo_paid = ''e1''" "pe_occurred_at demo_paid = 5" "pe_transaction_ref demo_paid = ''txn''" "pe_mode demo_paid = ACTIVATE"
  "pe_event_ref demo_refund = ''e2''" "pe_occurred_at demo_refund = 9" "pe_transaction_ref demo_refund = ''txn''" "pe_mode demo_refund = REVOKE"
  "pp_payment_blocked demo_purchase = False" "pp_last_event_occurred_at demo_purchase = None" "pp_completed_at demo_purchase = None"
  "sv_scope_type demo_service = ''SERIES''" "sv_price_id demo_service = ''pri''"
  "pass_events demo_passes = []" "pass_ledger demo_passes = []"
  "find_row (is_purchase ''SERIES'' ''txn'') (purchases demo_passes) = Some demo_purchase"
  by (simp_all add: demo_paid_def demo_refund_def demo_purchase_def demo_service_def demo_passes_def is_purchase_def)

lemma demo_activated:
  "\<exists>r db1. apply_pass_event demo_passes 6 (demo_service, demo_paid) = Inr (r, db1) \<and> pr_activated r"
proof -
  have "\<exists>t. upsert_pass_grants (activate_purchase 5 demo_purchase) 5 True 6 premium_entitlements [] = Inr t"
    by (simp add: premium_entitlements_def upsert_pass_grant_def find_grant_def grant_key_def ai_decisions_def
        realtime_notifications_def Let_def)
  then show ?thesis using demo_paid_valid
    by (auto simp: apply_pass_event_def demo_columns pass_outcome_def Let_def)
qed

lemma demo_revoked:
  "\<exists>r db1. apply_pass_event demo_passes 10 (demo_service, demo_refund) = Inr (r, db1) \<and> pr_revoked r"
proof -
  have "\<exists>t. upsert_pass_grants (block_purchase demo_purchase) 9 False 10 premium_entitlements [] = Inr t"
    by (simp add: premium_entitlements_def upsert_pass_grant_def find_grant_def Let_def)
  then show ?thesis using demo_paid_valid
    by (auto simp: apply_pass_event_def demo_columns pass_outcome_def Let_def)
qed

subsection \<open>Properties\<close>

text \<open>C11.  A full refund or chargeback is final: once an event has revoked a purchase, then after any further
  webhooks for any purchase, duplicates, late and contradictory ones included, the purchase is still
  BLOCKED and none of the grants it had paid for is active at any time.\<close>

theorem refund_is_final:
  assumes "pass_inv db" and "apply_pass_event db now (sv, ev) = Inr (r, db1)" and "pr_revoked r"
  shows "\<exists>p \<in> set (purchases (deliver apply_pass_event db1 ds)).
     is_purchase (sv_scope_type sv) (pe_transaction_ref ev) p \<and> pp_payment_blocked p \<and> pp_status p = ''BLOCKED'' \<and>
     (\<forall>g \<in> set (pass_ledger (deliver apply_pass_event db1 ds)). \<forall>clock.
        ue_user_id g = pp_user_id p \<longrightarrow> ue_source g = pass_source p \<longrightarrow>
        ue_entitlement g \<in> set premium_entitlements \<longrightarrow> \<not> active_at clock g)"
proof -
  let ?db = "deliver apply_pass_event db1 ds"
  have "blocked_for ?db (sv_scope_type sv) (pe_transaction_ref ev)"
    using blocked_deliver apply_pass_inv [OF assms(2,1)] revoke_blocks [OF assms] by blast
  then obtain p where p: "find_row (is_purchase (sv_scope_type sv) (pe_transaction_ref ev)) (purchases ?db) = Some p"
      "pp_payment_blocked p" "pp_status p = ''BLOCKED''"
      "\<forall>e \<in> set premium_entitlements. \<exists>s. pass_rows p s False e (pass_ledger ?db)"
    by (auto simp: blocked_for_def)
  have "\<not> active_at clock g" if g: "g \<in> set (pass_ledger ?db)" "ue_user_id g = pp_user_id p" "ue_source g = pass_source p"
      "ue_entitlement g \<in> set premium_entitlements" for g clock
  proof -
    have "ue_status g = ''REVOKED''"
      using p(4) g by (auto simp: pass_rows_def pass_row_def grant_key_def)
    then show ?thesis by (simp add: active_at_def)
  qed
  then show ?thesis using p find_row_SomeD [OF p(1)] by blast
qed

theorem refund_is_final_witness:
  "\<exists>db1. \<exists>p \<in> set (purchases (deliver apply_pass_event db1 [(20, demo_service, demo_paid\<lparr>pe_event_ref := ''e3'', pe_occurred_at := 30\<rparr>)])).
     pp_status p = ''BLOCKED''"
proof -
  obtain r db1 where "apply_pass_event demo_passes 10 (demo_service, demo_refund) = Inr (r, db1)" "pr_revoked r"
    using demo_revoked by blast
  from refund_is_final [OF demo_passes_inv this] show ?thesis by blast
qed

text \<open>C12.  A completed payment opens exactly what was bought.  When an event activates a purchase, it is a
  completion, not older than the last event of that purchase, and it had passed validation against the
  server's own record and price: the customer is the purchase's where both are known, the items name
  the service's price and no other, which is the price recorded at checkout, and the metadata names the
  buyer and the offer of the purchase.  From its occurrence on, without expiry, the buyer holds both
  premium entitlements on the purchased event or series; every row the event wrote carries that scope
  and never GLOBAL, and no other user's access changes.\<close>

theorem payment_opens_purchased_scope:
  assumes "pass_inv db" and "apply_pass_event db now (sv, ev) = Inr (r, db1)" and "pr_activated r"
  shows "\<exists>p \<in> set (purchases db). is_purchase (sv_scope_type sv) (pe_transaction_ref ev) p \<and> \<not> pp_payment_blocked p \<and>
     pe_mode ev = ACTIVATE \<and>
     (\<forall>l. pp_last_event_occurred_at p = Some l \<longrightarrow> l \<le> pe_occurred_at ev) \<and>
     (\<forall>c c'. pp_customer_ref p = Some c \<longrightarrow> optional_string (json_get (pe_data ev) ''customer_id'') = Some c' \<longrightarrow> c' = c) \<and>
     set (price_ids (pe_data ev)) = {sv_price_id sv} \<and> pp_price_ref p = sv_price_id sv \<and>
     (\<exists>custom. json_get (pe_data ev) ''custom_data'' = JObj custom \<and>
        json_get custom ''dota_user_id'' = JStr (str_uuid (pp_user_id p)) \<and>
        json_get custom ''dota_offer'' = JStr (lower (pp_scope_type p) @ ''_pass'')) \<and>
     (\<forall>e \<in> set premium_entitlements. \<forall>clock. pe_occurred_at ev \<le> clock \<longrightarrow>
        entitled (pass_ledger db1) (pp_user_id p) e
          \<lparr>res_event = pp_event_id p, res_series = pp_series_id p, res_map = None\<rparr> clock) \<and>
     (\<forall>g \<in> set (pass_ledger db1). g \<notin> set (pass_ledger db) \<longrightarrow>
        ue_scope_type g = pp_scope_type p \<and> ue_scope_ref g = pass_scope_ref p \<and> ue_scope_type g \<noteq> ''GLOBAL'') \<and>
     (\<forall>other e res clock cat. other \<noteq> pp_user_id p \<longrightarrow>
        access_scope cat (pass_ledger db1) other e res clock = access_scope cat (pass_ledger db) other e res clock)"
  using assms(2,1)
proof (cases rule: apply_pass_cases)
  case kept
  then show ?thesis using assms(3) by simp
next
  case (changed p f t)
  then have t: "\<not> pp_payment_blocked p" "outside (pass_keys p) t = outside (pass_keys p) (pass_ledger db)"
      "\<forall>e \<in> set premium_entitlements. pass_rows p (pe_occurred_at ev) True e t" "pass_ledger db1 = t"
    using assms(3) by auto
  have p: "p \<in> set (purchases db)" "is_purchase (sv_scope_type sv) (pe_transaction_ref ev) p"
    using find_row_SomeD [OF changed(1)] by simp_all
  let ?res = "\<lparr>res_event = pp_event_id p, res_series = pp_series_id p, res_map = None\<rparr>"
  have open_scope: "entitled t (pp_user_id p) e ?res clock"
    if e: "e \<in> set premium_entitlements" and c: "pe_occurred_at ev \<le> clock" for e clock
  proof -
    obtain g where g: "g \<in> set t" "grant_key g = (pp_user_id p, e, pass_source p)" "pass_row p (pe_occurred_at ev) True g"
      using t(3) e by (auto simp: pass_rows_def)
    have "in_resource ?res g"
      using g(3) changed(2) by (auto simp: in_resource_def scope_is_def pass_row_def pass_scope_ref_def purchase_ok_def)
    then show ?thesis using g c by (auto simp: entitled_def grant_key_def pass_row_def active_at_def)
  qed
  have written: "ue_scope_type g = pp_scope_type p \<and> ue_scope_ref g = pass_scope_ref p \<and> ue_scope_type g \<noteq> ''GLOBAL''"
    if g: "g \<in> set t" "g \<notin> set (pass_ledger db)" for g
  proof -
    have "grant_key g \<in> pass_keys p" using in_outside [of g "pass_keys p"] t(2) g by metis
    then have "pass_row p (pe_occurred_at ev) True g"
      using t(3) g(1) by (auto simp: pass_keys_def pass_rows_def premium_entitlements_def)
    then show ?thesis using purchase_scope_ok [OF changed(2)] by (simp add: pass_row_def)
  qed
  have others: "access_scope cat t other e res clock = access_scope cat (pass_ledger db) other e res clock"
    if "other \<noteq> pp_user_id p" for other e res clock cat
  proof -
    have "g \<in> set t \<longleftrightarrow> g \<in> set (pass_ledger db)" if "ue_user_id g = other" for g
      using in_outside [of g "pass_keys p" t] in_outside [of g "pass_keys p" "pass_ledger db"] t(2) that \<open>other \<noteq> _\<close>
      by (auto simp: pass_keys_def grant_key_def)
    then have "set (matching_scopes t other e (resolved cat res) clock)
        = set (matching_scopes (pass_ledger db) other e (resolved cat res) clock)"
      by (auto simp: matching_scopes_def)
    then show ?thesis by (simp add: access_scope_def)
  qed
  note paid = activation_checked [OF assms(2,3) changed(1), unfolded payment_checked_def]
  show ?thesis
  proof (intro bexI [OF _ p(1)] conjI)
    show "is_purchase (sv_scope_type sv) (pe_transaction_ref ev) p" by (rule p(2))
  qed (use paid t(1,4) open_scope written others in blast)+
qed

theorem payment_opens_purchased_scope_witness:
  "\<exists>r db1. apply_pass_event demo_passes 6 (demo_service, demo_paid) = Inr (r, db1) \<and>
     entitled (pass_ledger db1) 3 ai_decisions \<lparr>res_event = None, res_series = Some 1, res_map = None\<rparr> 100"
proof -
  obtain r db1 where run: "apply_pass_event demo_passes 6 (demo_service, demo_paid) = Inr (r, db1)" "pr_activated r"
    using demo_activated by blast
  from payment_opens_purchased_scope [OF demo_passes_inv this] obtain p where
    "p \<in> set (purchases demo_passes)" "\<forall>e \<in> set premium_entitlements. \<forall>clock. pe_occurred_at demo_paid \<le> clock \<longrightarrow>
        entitled (pass_ledger db1) (pp_user_id p) e
          \<lparr>res_event = pp_event_id p, res_series = pp_series_id p, res_map = None\<rparr> clock" by blast
  then show ?thesis using run
    by (auto simp: demo_passes_def demo_purchase_def demo_paid_def premium_entitlements_def)
qed

text \<open> Webhook handling of passes is idempotent: an event that was accepted and not ignored is remembered
  through any later deliveries, and redelivering any accepted events, in any order and number,
  leaves purchases, event log and grants exactly as they are.\<close>

theorem pass_webhooks_are_idempotent:
  assumes "apply_pass_event db now (sv, ev) = Inr (r, db1)" and "\<not> pr_ignored r"
    and "\<forall>d \<in> set again. snd d = (sv, ev) \<or> pass_recorded db1 (snd d)"
  shows "deliver apply_pass_event (deliver apply_pass_event db1 ds) again = deliver apply_pass_event db1 ds"
proof -
  have "pass_recorded db1 (sv, ev)"
    using assms(1)
  proof (cases rule: apply_pass_runs)
    case noop
    then show ?thesis using assms(2) by simp
  next
    case (stale p)
    then show ?thesis by (simp add: pass_recorded_def pass_event_row_def is_pass_event_def)
  qed (use pl.app_recorded [OF assms(1)] in \<open>auto simp: write_purchase_def dest: arg_cong [where f = pass_events]\<close>)
  then show ?thesis by (intro pl.redelivery) (use assms(3) in auto)
qed

theorem pass_webhooks_are_idempotent_witness:
  "\<exists>r db1. apply_pass_event demo_passes 6 (demo_service, demo_paid) = Inr (r, db1) \<and>
     deliver apply_pass_event db1 [(7, demo_service, demo_paid)] = db1"
proof -
  obtain r db1 where run: "apply_pass_event demo_passes 6 (demo_service, demo_paid) = Inr (r, db1)" "pr_activated r"
    using demo_activated by blast
  have "\<not> pr_ignored r"
    using run by (auto simp: apply_pass_event_def pass_outcome_def Let_def split: option.splits if_splits pass_mode.splits sum.splits)
  from pass_webhooks_are_idempotent [OF run(1) this, of "[(7, demo_service, demo_paid)]" "[]"] run show ?thesis by simp
qed

end
