(* ===== verification/Money.thy ===== *)
theory Money
  imports Tables
begin

text \<open>
  The exact decimal money of the ledgers: \<open>_money\<close> of \<open>app/evaluation/portfolio.py\<close>, which
  quantizes to cents rounding half away from zero, on rational numbers.  Amounts are assumed to fit
  the 28 digits of the decimal context and the columns \<open>Numeric(14, 2)\<close>.
\<close>

definition half_up :: "rat \<Rightarrow> int" where
  "half_up x = (if 0 \<le> x then \<lfloor>x + 1 / 2\<rfloor> else - \<lfloor>1 / 2 - x\<rfloor>)"

definition money :: "rat \<Rightarrow> rat" where
  "money x = of_int (half_up (x * 100)) / 100"

definition cents :: "rat \<Rightarrow> bool" where
  "cents x \<longleftrightarrow> money x = x"

lemma half_up_of_int [simp]: "half_up (of_int k) = k"
  by (auto simp: half_up_def) linarith+

lemma cents_of_int: "cents (of_int k / 100)"
  by (simp add: cents_def money_def)

lemma cents_money [simp]: "cents (money x)"
  unfolding money_def by (rule cents_of_int)

lemma money_cents [simp]: "cents x \<Longrightarrow> money x = x"
  by (simp add: cents_def)

lemma centsE:
  assumes "cents x"
  obtains k where "x = of_int k / 100"
  using assms unfolding cents_def money_def by metis

lemma cents_add [simp, intro]: "cents x \<Longrightarrow> cents y \<Longrightarrow> cents (x + y)"
proof -
  assume "cents x" "cents y"
  then obtain k l where "x = of_int k / 100" "y = of_int l / 100" by (metis centsE)
  then have "x + y = of_int (k + l) / 100" by (simp add: add_divide_distrib)
  then show ?thesis by (simp only: cents_of_int)
qed

lemma cents_uminus [simp, intro]: "cents x \<Longrightarrow> cents (- x)"
proof -
  assume "cents x"
  then obtain k where "x = of_int k / 100" by (metis centsE)
  then have "- x = of_int (- k) / 100" by simp
  then show ?thesis by (simp only: cents_of_int)
qed

lemma cents_diff [simp, intro]: "cents x \<Longrightarrow> cents y \<Longrightarrow> cents (x - y)"
  using cents_add [of x "- y"] by simp

lemma cents_0 [simp]: "cents 0"
  using cents_of_int [of 0] by simp

lemma half_up_nonneg: "0 \<le> x \<Longrightarrow> 0 \<le> half_up x"
  by (simp add: half_up_def)

lemma money_nonneg [simp]: "0 \<le> x \<Longrightarrow> 0 \<le> money x"
  by (simp add: money_def half_up_nonneg)

lemma half_up_close: "\<bar>of_int (half_up x) - x\<bar> \<le> 1 / 2"
proof (cases "0 \<le> x")
  case True
  have "of_int \<lfloor>x + 1 / 2\<rfloor> \<le> x + 1 / 2" "x + 1 / 2 < of_int \<lfloor>x + 1 / 2\<rfloor> + 1" by linarith+
  then show ?thesis using True unfolding half_up_def abs_le_iff by (simp only: if_True) linarith
next
  case False
  have "of_int \<lfloor>1 / 2 - x\<rfloor> \<le> 1 / 2 - x" "1 / 2 - x < of_int \<lfloor>1 / 2 - x\<rfloor> + 1" by linarith+
  then show ?thesis using False unfolding half_up_def abs_le_iff by (simp only: if_False of_int_minus) linarith
qed

lemma money_close: "\<bar>money x - x\<bar> \<le> 1 / 200"
  using half_up_close [of "x * 100"] by (simp add: money_def abs_le_iff field_simps)

text \<open>Sums over the rows of a table when one row changes.\<close>

lemma sum_update_first:
  fixes g :: "'r \<Rightarrow> rat"
  assumes "find_row P t = Some a"
  shows "sum_list (map g (filter Q (update_first P f t))) =
         sum_list (map g (filter Q t)) - (if Q a then g a else 0) + (if Q (f a) then g (f a) else 0)"
  using assms by (induction t) (auto split: if_splits)

end
