(* ===== verification/Portfolio.thy ===== *)
theory Portfolio
  imports Money
begin

text \<open>
  The virtual bankrolls: the tables of \<open>app/evaluation/portfolio_models.py\<close> and
  \<open>TournamentPortfolioService\<close> of \<open>app/evaluation/portfolio.py\<close>.  One AI experiment has one account
  per canonical event; a BUY decision locks its stake, the settlement of the map releases it.
  Percentages are exact rationals.
\<close>

subsection \<open>Data\<close>

text \<open>\<open>AiExperimentKey\<close>: provider, model, prompt, decision policy, AI view and execution configuration.\<close>

type_synonym experiment_key = "string \<times> string \<times> string \<times> string \<times> string \<times> string"

datatype ai_action = BUY_A | BUY_B | NO_BUY | INSUFFICIENT_DATA

datatype position_status = OPEN | REJECTED | WON | LOST | VOID

record pf_account =
  pa_id :: uuid
  pa_event_id :: uuid
  pa_experiment :: experiment_key
  pa_initial :: rat
  pa_cash :: rat
  pa_locked :: rat
  pa_realized_pnl :: rat
  pa_peak_equity :: rat
  pa_max_drawdown :: rat
  pa_max_drawdown_pct :: rat
  pa_status :: string
  pa_updated_at :: time

record pf_position =
  po_id :: uuid
  po_account_id :: uuid
  po_ai_decision_id :: uuid
  po_event_id :: uuid
  po_series_id :: uuid
  po_map_id :: uuid
  po_action :: ai_action
  po_cash_before :: rat
  po_stake :: rat
  po_odds :: "rat option"
  po_status :: position_status
  po_rejection_reason :: "string option"
  po_payout :: "rat option"
  po_realized_pnl :: "rat option"
  po_opened_at :: time
  po_settled_at :: "time option"

record pf_entry =
  pl_account_id :: uuid
  pl_position_id :: "uuid option"
  pl_entry_type :: string
  pl_cash_delta :: rat
  pl_locked_delta :: rat
  pl_realized_pnl_delta :: rat
  pl_cash_after :: rat
  pl_locked_after :: rat
  pl_equity_after :: rat
  pl_dedupe_key :: string
  pl_occurred_at :: time

record portfolio_db =
  accounts :: "pf_account list"
  positions :: "pf_position list"
  entries :: "pf_entry list"
  next_pf_id :: uuid

text \<open>The columns of other tables that the service reads.\<close>

record series_row =
  sx_id :: uuid
  sx_event_id :: "uuid option"
  sx_team_a :: uuid
  sx_team_b :: uuid

record snapshot_row =
  sn_id :: uuid
  sn_map_id :: "uuid option"
  sn_decision_at :: time
  sn_payload :: "(string \<times> json) list"

record result_row =
  rr_map_id :: uuid
  rr_winner :: "uuid option"
  rr_conflict :: bool
  rr_basic_first_usable_at :: time
  rr_advanced_first_usable_at :: "time option"
  rr_settled_at :: time

record lab_tables =
  tb_maps :: "(uuid \<times> uuid option) list"
  tb_series :: "series_row list"
  tb_events :: "(uuid \<times> time option) list"
  tb_snapshots :: "snapshot_row list"
  tb_results :: "result_row list"

record portfolio_scope =
  sc_event_id :: uuid
  sc_series_id :: uuid
  sc_map_id :: uuid
  sc_team_a :: uuid
  sc_team_b :: uuid

text \<open>An \<open>AiDecisionRecord\<close>; \<open>dr_action\<close> is the action of its validated response, if it has one.\<close>

record decision_row =
  dr_id :: uuid
  dr_snapshot_id :: uuid
  dr_experiment :: experiment_key
  dr_parse_status :: string
  dr_action :: "ai_action option"
  dr_stake :: "rat option"
  dr_request_started_at :: time
  dr_decision_persisted_at :: "time option"
  dr_response_received_at :: "time option"

record portfolio_context =
  cx_account_id :: uuid
  cx_event_id :: uuid
  cx_initial :: rat
  cx_cash :: rat
  cx_locked :: rat
  cx_realized_pnl :: rat
  cx_peak_equity :: rat
  cx_max_drawdown :: rat
  cx_max_drawdown_pct :: rat

datatype portfolio_error = MissingSnapshot

subsection \<open>Scopes\<close>

definition scope_for_snapshot :: "lab_tables \<Rightarrow> uuid \<Rightarrow> portfolio_scope option" where
  "scope_for_snapshot tb snapshot_id =
     (case find_row (\<lambda>s. sn_id s = snapshot_id) (tb_snapshots tb) of
        None \<Rightarrow> None
      | Some sn \<Rightarrow>
         (case Option.bind (sn_map_id sn) (\<lambda>m. find_row (\<lambda>r. fst r = m) (tb_maps tb)) of
            None \<Rightarrow> None
          | Some (m, series_id) \<Rightarrow>
             (case Option.bind series_id (\<lambda>i. find_row (\<lambda>s. sx_id s = i) (tb_series tb)) of
                None \<Rightarrow> None
              | Some s \<Rightarrow>
                 (case sx_event_id s of
                    None \<Rightarrow> None
                  | Some e \<Rightarrow> Some \<lparr>sc_event_id = e, sc_series_id = sx_id s, sc_map_id = m,
                                    sc_team_a = sx_team_a s, sc_team_b = sx_team_b s\<rparr>))))"

definition lane_scope_for_snapshot :: "lab_tables \<Rightarrow> uuid \<Rightarrow> string option" where
  "lane_scope_for_snapshot tb snapshot_id = map_option (\<lambda>s. str_uuid (sc_event_id s)) (scope_for_snapshot tb snapshot_id)"

subsection \<open>Accounts\<close>

definition ledger_entry ::
  "pf_account \<Rightarrow> uuid option \<Rightarrow> string \<Rightarrow> rat \<Rightarrow> rat \<Rightarrow> rat \<Rightarrow> string \<Rightarrow> time \<Rightarrow> pf_entry" where
  "ledger_entry a position entry_type cash_delta locked_delta pnl_delta key occurred_at =
     \<lparr>pl_account_id = pa_id a, pl_position_id = position, pl_entry_type = entry_type,
      pl_cash_delta = money cash_delta, pl_locked_delta = money locked_delta,
      pl_realized_pnl_delta = money pnl_delta, pl_cash_after = money (pa_cash a),
      pl_locked_after = money (pa_locked a), pl_equity_after = money (pa_cash a + pa_locked a),
      pl_dedupe_key = key, pl_occurred_at = occurred_at\<rparr>"

definition is_account :: "uuid \<Rightarrow> experiment_key \<Rightarrow> pf_account \<Rightarrow> bool" where
  "is_account event x a \<longleftrightarrow> pa_event_id a = event \<and> pa_experiment a = x"

definition initial_bankroll :: "rat \<Rightarrow> rat" where
  "initial_bankroll configured = money configured"

definition funded_at :: "lab_tables \<Rightarrow> uuid \<Rightarrow> time option \<Rightarrow> time \<Rightarrow> time" where
  "funded_at tb event reference now =
     (let started = Option.bind (find_row (\<lambda>e. fst e = event) (tb_events tb)) snd
      in case (started, reference) of
           (Some s, Some r) \<Rightarrow> min s r
         | (Some s, None) \<Rightarrow> s
         | (None, Some r) \<Rightarrow> r
         | (None, None) \<Rightarrow> now)"

definition new_account :: "rat \<Rightarrow> uuid \<Rightarrow> uuid \<Rightarrow> experiment_key \<Rightarrow> time \<Rightarrow> pf_account" where
  "new_account initial i event x now =
     \<lparr>pa_id = i, pa_event_id = event, pa_experiment = x, pa_initial = initial, pa_cash = initial, pa_locked = 0,
      pa_realized_pnl = 0, pa_peak_equity = initial, pa_max_drawdown = 0, pa_max_drawdown_pct = 0,
      pa_status = ''ACTIVE'', pa_updated_at = now\<rparr>"

text \<open>The savepoint makes the insert race-free: the loser of a race reads the winner's row.\<close>

definition ensure_account ::
  "rat \<Rightarrow> lab_tables \<Rightarrow> portfolio_db \<Rightarrow> time \<Rightarrow> uuid \<Rightarrow> experiment_key \<Rightarrow> time option \<Rightarrow> pf_account \<times> portfolio_db" where
  "ensure_account bankroll tb db now event x reference =
     (case find_row (is_account event x) (accounts db) of
        Some a \<Rightarrow> (a, db)
      | None \<Rightarrow>
         (let a = new_account (initial_bankroll bankroll) (next_pf_id db) event x now
          in (a, db\<lparr>accounts := accounts db @ [a],
                    entries := entries db @ [ledger_entry a None ''EVENT_FUNDED'' (initial_bankroll bankroll) 0 0
                                 (''fund:'' @ str_uuid (pa_id a)) (funded_at tb event reference now)],
                    next_pf_id := Suc (next_pf_id db)\<rparr>)))"

definition portfolio_context_of :: "pf_account \<Rightarrow> portfolio_context" where
  "portfolio_context_of a =
     \<lparr>cx_account_id = pa_id a, cx_event_id = pa_event_id a, cx_initial = money (pa_initial a),
      cx_cash = money (pa_cash a), cx_locked = money (pa_locked a), cx_realized_pnl = money (pa_realized_pnl a),
      cx_peak_equity = money (pa_peak_equity a), cx_max_drawdown = money (pa_max_drawdown a),
      cx_max_drawdown_pct = pa_max_drawdown_pct a\<rparr>"

definition equity :: "portfolio_context \<Rightarrow> rat" where
  "equity c = money (cx_cash c + cx_locked c)"

definition context_for_scope ::
  "rat \<Rightarrow> lab_tables \<Rightarrow> portfolio_db \<Rightarrow> time \<Rightarrow> portfolio_scope \<Rightarrow> experiment_key \<Rightarrow> time option \<Rightarrow> portfolio_context \<times> portfolio_db" where
  "context_for_scope bankroll tb db now sc x reference =
     (let (a, db') = ensure_account bankroll tb db now (sc_event_id sc) x reference in (portfolio_context_of a, db'))"

definition context_for_snapshot ::
  "rat \<Rightarrow> lab_tables \<Rightarrow> portfolio_db \<Rightarrow> time \<Rightarrow> uuid \<Rightarrow> experiment_key \<Rightarrow> portfolio_context option \<times> portfolio_db" where
  "context_for_snapshot bankroll tb db now snapshot_id x =
     (case scope_for_snapshot tb snapshot_id of
        None \<Rightarrow> (None, db)
      | Some sc \<Rightarrow>
         (let (c, db') = context_for_scope bankroll tb db now sc x
                (map_option sn_decision_at (find_row (\<lambda>s. sn_id s = snapshot_id) (tb_snapshots tb)))
          in (Some c, db')))"

subsection \<open>Decision-time checks\<close>

definition eligible_is_true :: "json \<Rightarrow> bool" where
  "eligible_is_true v = (case v of JObj q \<Rightarrow> json_get q ''eligible'' = JBool True | _ \<Rightarrow> False)"

definition execution_quality_rejection :: "(string \<times> json) list \<Rightarrow> string option" where
  "execution_quality_rejection payload =
     (if \<not> eligible_is_true (json_get payload ''quality'') then Some ''SNAPSHOT_NOT_EXECUTABLE''
      else case json_get payload ''market'' of
             JObj market \<Rightarrow>
               (if \<not> eligible_is_true (json_get market ''quality'') then Some ''MARKET_NOT_EXECUTABLE'' else None)
           | _ \<Rightarrow> Some ''MARKET_NOT_EXECUTABLE'')"

text \<open>\<open>Decimal(str(raw))\<close> of a JSON number; \<open>decimal\<close> parses a string.\<close>

definition decimal_of :: "(string \<Rightarrow> rat option) \<Rightarrow> json \<Rightarrow> rat option" where
  "decimal_of decimal v =
     (case v of JInt i \<Rightarrow> Some (of_int i) | JNum r \<Rightarrow> Some r | JStr s \<Rightarrow> decimal s | _ \<Rightarrow> None)"

fun odds_in :: "(string \<Rightarrow> rat option) \<Rightarrow> string \<Rightarrow> json list \<Rightarrow> rat option" where
  "odds_in decimal target [] = None"
| "odds_in decimal target (obs # rest) =
     (case obs of
        JObj ob \<Rightarrow>
          (if json_get ob ''selection_team_id'' = JStr target
           then (case decimal_of decimal (json_get ob ''price'') of
                   None \<Rightarrow> None
                 | Some price \<Rightarrow> if 1 < price then Some price else None)
           else odds_in decimal target rest)
      | _ \<Rightarrow> odds_in decimal target rest)"

definition selected_odds :: "(string \<Rightarrow> rat option) \<Rightarrow> (string \<times> json) list \<Rightarrow> ai_action \<Rightarrow> uuid \<Rightarrow> uuid \<Rightarrow> rat option" where
  "selected_odds decimal payload action team_a team_b =
     (case json_get payload ''market'' of
        JObj market \<Rightarrow>
          (case json_get market ''observations'' of
             JList obs \<Rightarrow> odds_in decimal (str_uuid (if action = BUY_A then team_a else team_b)) obs
           | _ \<Rightarrow> None)
      | _ \<Rightarrow> None)"

subsection \<open>Settlement of positions\<close>

text \<open>Status, entry type and payout of one position.\<close>

definition position_outcome ::
  "series_row \<Rightarrow> uuid option \<Rightarrow> bool \<Rightarrow> pf_position \<Rightarrow> position_status \<times> string \<times> rat \<times> rat" where
  "position_outcome series winner conflict p =
     (let stake = money (po_stake p)
      in if conflict \<or> winner \<notin> {Some (sx_team_a series), Some (sx_team_b series)}
         then (VOID, ''BET_VOID'', stake, 0)
         else (let won = (po_action p = BUY_A \<and> winner = Some (sx_team_a series)) \<or>
                         (po_action p = BUY_B \<and> winner = Some (sx_team_b series));
                   payout = (case po_odds p of None \<Rightarrow> 0 | Some odds \<Rightarrow> if won then money (stake * odds) else 0)
               in (if won then WON else LOST, if won then ''BET_SETTLED_WIN'' else ''BET_SETTLED_LOSS'',
                   payout, money (payout - stake))))"

definition close_position :: "position_status \<Rightarrow> rat \<Rightarrow> rat \<Rightarrow> time \<Rightarrow> pf_position \<Rightarrow> pf_position" where
  "close_position st payout pnl stamp p =
     p\<lparr>po_status := st, po_payout := Some payout, po_realized_pnl := Some pnl, po_settled_at := Some stamp\<rparr>"

definition credit :: "rat \<Rightarrow> rat \<Rightarrow> rat \<Rightarrow> pf_account \<Rightarrow> pf_account" where
  "credit payout stake pnl a =
     a\<lparr>pa_cash := money (pa_cash a + payout), pa_locked := money (pa_locked a - stake),
       pa_realized_pnl := money (pa_realized_pnl a + pnl)\<rparr>"

definition settle_position ::
  "series_row \<Rightarrow> uuid option \<Rightarrow> bool \<Rightarrow> time \<Rightarrow> uuid \<Rightarrow> pf_position \<Rightarrow> portfolio_db \<Rightarrow> portfolio_db" where
  "settle_position series winner conflict stamp account_id p db =
     (case find_row (\<lambda>a. pa_id a = account_id) (accounts db) of
        None \<Rightarrow> db
      | Some a \<Rightarrow>
         (let (st, entry_type, payout, pnl) = position_outcome series winner conflict p;
              stake = money (po_stake p); a' = credit payout stake pnl a
          in db\<lparr>positions := update_first (\<lambda>q. po_id q = po_id p) (close_position st payout pnl stamp) (positions db),
                accounts := update_first (\<lambda>a. pa_id a = account_id) (credit payout stake pnl) (accounts db),
                entries := entries db @ [ledger_entry a' (Some (po_id p)) entry_type payout (- stake) pnl
                             (''settle:'' @ str_uuid (po_id p)) stamp]\<rparr>))"

definition update_risk :: "pf_account \<Rightarrow> pf_account" where
  "update_risk a =
     (let eq = money (pa_cash a + pa_locked a); peak = max (money (pa_peak_equity a)) eq; dd = money (peak - eq);
          pct = (if 0 < peak then dd / peak else 0)
      in a\<lparr>pa_peak_equity := peak,
           pa_max_drawdown := (if money (pa_max_drawdown a) < dd then dd else pa_max_drawdown a),
           pa_max_drawdown_pct := (if pa_max_drawdown_pct a < pct then pct else pa_max_drawdown_pct a)\<rparr>)"

definition finish_account :: "time \<Rightarrow> pf_account \<Rightarrow> pf_account" where
  "finish_account stamp a =
     (let a' = update_risk a
      in a'\<lparr>pa_status := (if pa_cash a' \<le> 0 \<and> pa_locked a' \<le> 0 then ''BANKRUPT'' else ''ACTIVE''),
            pa_updated_at := stamp\<rparr>)"

definition open_on :: "uuid \<Rightarrow> pf_position \<Rightarrow> bool" where
  "open_on map_id p \<longleftrightarrow> po_map_id p = map_id \<and> po_status p = OPEN"

definition settle_account ::
  "series_row \<Rightarrow> uuid option \<Rightarrow> bool \<Rightarrow> time \<Rightarrow> uuid \<Rightarrow> uuid \<Rightarrow> portfolio_db \<Rightarrow> nat \<times> portfolio_db" where
  "settle_account series winner conflict stamp map_id account_id db =
     (if find_row (\<lambda>a. pa_id a = account_id) (accounts db) = None then (0, db)
      else (let ps = sort_key (\<lambda>p. (po_opened_at p, po_id p))
                       (filter (\<lambda>p. po_account_id p = account_id \<and> open_on map_id p) (positions db));
                db' = fold (settle_position series winner conflict stamp account_id) ps db
            in (length ps,
                if ps = [] then db'
                else db'\<lparr>accounts := update_first (\<lambda>a. pa_id a = account_id) (finish_account stamp) (accounts db')\<rparr>)))"

fun settle_accounts ::
  "series_row \<Rightarrow> uuid option \<Rightarrow> bool \<Rightarrow> time \<Rightarrow> uuid \<Rightarrow> uuid list \<Rightarrow> portfolio_db \<Rightarrow> nat \<times> portfolio_db" where
  "settle_accounts series winner conflict stamp map_id [] db = (0, db)"
| "settle_accounts series winner conflict stamp map_id (i # is) db =
     (let (n, db1) = settle_account series winner conflict stamp map_id i db;
          (m, db2) = settle_accounts series winner conflict stamp map_id is db1
      in (n + m, db2))"

definition settle_map ::
  "lab_tables \<Rightarrow> portfolio_db \<Rightarrow> time \<Rightarrow> uuid \<Rightarrow> uuid option \<Rightarrow> bool \<Rightarrow> time option \<Rightarrow> nat \<times> portfolio_db" where
  "settle_map tb db now map_id winner conflict settled_at =
     (case Option.bind (find_row (\<lambda>m. fst m = map_id) (tb_maps tb)) snd of
        None \<Rightarrow> (0, db)
      | Some series_id \<Rightarrow>
         (case find_row (\<lambda>s. sx_id s = series_id) (tb_series tb) of
            None \<Rightarrow> (0, db)
          | Some series \<Rightarrow>
             settle_accounts series winner conflict (case settled_at of None \<Rightarrow> now | Some t \<Rightarrow> t) map_id
               (sort_key str_uuid (fromkeys (map po_account_id (filter (open_on map_id) (positions db))))) db))"

subsection \<open>Recording a decision\<close>

definition decision_available_at :: "decision_row \<Rightarrow> time" where
  "decision_available_at r =
     (case dr_response_received_at r of Some t \<Rightarrow> t
      | None \<Rightarrow> (case dr_decision_persisted_at r of Some t \<Rightarrow> t | None \<Rightarrow> dr_request_started_at r))"

definition rejection ::
  "result_row option \<Rightarrow> time \<Rightarrow> (string \<times> json) list \<Rightarrow> rat option \<Rightarrow> rat \<Rightarrow> rat \<Rightarrow> string option" where
  "rejection result available_at payload odds stake cash_before =
     (if (case result of None \<Rightarrow> False | Some r \<Rightarrow> rr_basic_first_usable_at r \<le> available_at)
      then Some ''MAP_ALREADY_SETTLED''
      else case execution_quality_rejection payload of
             Some why \<Rightarrow> Some why
           | None \<Rightarrow> if odds = None then Some ''MISSING_DECISION_ODDS''
                     else if cash_before < stake then Some ''INSUFFICIENT_CASH''
                     else None)"

definition new_position ::
  "portfolio_db \<Rightarrow> pf_account \<Rightarrow> decision_row \<Rightarrow> ai_action \<Rightarrow> portfolio_scope \<Rightarrow> rat \<Rightarrow> rat \<Rightarrow> rat option \<Rightarrow> string option \<Rightarrow> pf_position" where
  "new_position db a r action sc cash_before stake odds reason =
     \<lparr>po_id = next_pf_id db, po_account_id = pa_id a, po_ai_decision_id = dr_id r, po_event_id = sc_event_id sc,
      po_series_id = sc_series_id sc, po_map_id = sc_map_id sc, po_action = action, po_cash_before = cash_before,
      po_stake = stake, po_odds = odds, po_status = (if reason = None then OPEN else REJECTED),
      po_rejection_reason = reason, po_payout = None, po_realized_pnl = None,
      po_opened_at = decision_available_at r, po_settled_at = None\<rparr>"

definition lock_stake :: "rat \<Rightarrow> rat \<Rightarrow> time \<Rightarrow> pf_account \<Rightarrow> pf_account" where
  "lock_stake cash_before stake now a =
     a\<lparr>pa_cash := money (cash_before - stake), pa_locked := money (pa_locked a + stake), pa_updated_at := now\<rparr>"

text \<open>The position object of the session is the row, with what was written to it since.\<close>

definition stored_position :: "pf_position \<Rightarrow> portfolio_db \<Rightarrow> pf_position" where
  "stored_position p db = (case find_row (\<lambda>q. po_id q = po_id p) (positions db) of None \<Rightarrow> p | Some q \<Rightarrow> q)"

text \<open>The transaction once account, snapshot and scope are there: the position is created, rejected or
  paid for, and settled at once when the result is known already.\<close>

definition open_position ::
  "(string \<Rightarrow> rat option) \<Rightarrow> lab_tables \<Rightarrow> portfolio_db \<Rightarrow> time \<Rightarrow> pf_account \<Rightarrow> decision_row \<Rightarrow> ai_action \<Rightarrow> rat \<Rightarrow>
   portfolio_scope \<Rightarrow> snapshot_row \<Rightarrow> pf_position \<times> portfolio_db" where
  "open_position decimal tb db now a r action raw_stake sc sn =
     (let stake = money raw_stake;
          odds = selected_odds decimal (sn_payload sn) action (sc_team_a sc) (sc_team_b sc);
          result = find_row (\<lambda>x. rr_map_id x = sc_map_id sc) (tb_results tb);
          cash_before = money (pa_cash a);
          reason = rejection result (decision_available_at r) (sn_payload sn) odds stake cash_before;
          p = new_position db a r action sc cash_before stake odds reason;
          db1 = db\<lparr>positions := positions db @ [p], next_pf_id := Suc (next_pf_id db)\<rparr>
      in if reason \<noteq> None then (p, db1)
         else (let a' = lock_stake cash_before stake now a;
                   db2 = db1\<lparr>accounts := update_first (\<lambda>x. pa_id x = pa_id a) (lock_stake cash_before stake now) (accounts db1),
                             entries := entries db1 @ [ledger_entry a' (Some (po_id p)) ''BET_PLACED'' (- stake) stake 0
                                          (''place:'' @ str_uuid (dr_id r)) (decision_available_at r)]\<rparr>
               in case result of
                    None \<Rightarrow> (p, db2)
                  | Some x \<Rightarrow>
                      (let db3 = snd (settle_map tb db2 now (sc_map_id sc) (rr_winner x) (rr_conflict x) (Some (rr_settled_at x)))
                       in (stored_position p db3, db3))))"

text \<open>The scope given, or else the scope of the snapshot.\<close>

definition position_scope :: "lab_tables \<Rightarrow> decision_row \<Rightarrow> portfolio_scope option \<Rightarrow> portfolio_scope option" where
  "position_scope tb r scope = (case scope of None \<Rightarrow> scope_for_snapshot tb (dr_snapshot_id r) | Some sc \<Rightarrow> Some sc)"

definition record_decision_position ::
  "(string \<Rightarrow> rat option) \<Rightarrow> rat \<Rightarrow> lab_tables \<Rightarrow> portfolio_db \<Rightarrow> time \<Rightarrow> decision_row \<Rightarrow> portfolio_scope option \<Rightarrow>
   portfolio_error + (pf_position option \<times> portfolio_db)" where
  "record_decision_position decimal bankroll tb db now r scope =
     (if dr_parse_status r \<noteq> ''SUCCESS'' then Inr (None, db)
      else case (dr_action r, dr_stake r) of
        (Some action, Some stake) \<Rightarrow>
          (if action \<noteq> BUY_A \<and> action \<noteq> BUY_B then Inr (None, db)
           else if stake \<le> 0 then Inr (None, db)
           else case find_row (\<lambda>p. po_ai_decision_id p = dr_id r) (positions db) of
                  Some p \<Rightarrow> Inr (Some p, db)
                | None \<Rightarrow>
                   (case position_scope tb r scope of
                      None \<Rightarrow> Inr (None, db)
                    | Some sc \<Rightarrow>
                       (case find_row (\<lambda>s. sn_id s = dr_snapshot_id r) (tb_snapshots tb) of
                          None \<Rightarrow> Inl MissingSnapshot
                        | Some sn \<Rightarrow>
                           (let (a, db1) = ensure_account bankroll tb db now (sc_event_id sc) (dr_experiment r)
                                             (Some (sn_decision_at sn));
                                (p, db2) = open_position decimal tb db1 now a r action stake sc sn
                            in Inr (Some p, db2)))))
      | _ \<Rightarrow> Inr (None, db))"

subsection \<open>Leaderboard\<close>

record leaderboard_row =
  lb_account_id :: uuid
  lb_event_id :: uuid
  lb_experiment :: experiment_key
  lb_initial :: rat
  lb_cash :: rat
  lb_locked :: rat
  lb_equity :: rat
  lb_realized_pnl :: rat
  lb_roi :: "rat option"
  lb_peak_equity :: rat
  lb_max_drawdown :: rat
  lb_max_drawdown_pct :: rat
  lb_bet_count :: nat
  lb_open_bet_count :: nat
  lb_rejected_bet_count :: nat
  lb_wins :: nat
  lb_losses :: nat
  lb_hit_rate :: "rat option"
  lb_turnover :: rat
  lb_profit_factor :: "rat option"
  lb_status :: string

definition money_or_zero :: "rat option \<Rightarrow> rat" where
  "money_or_zero x = (case x of None \<Rightarrow> 0 | Some v \<Rightarrow> money v)"

definition leaderboard_row_of :: "portfolio_db \<Rightarrow> pf_account \<Rightarrow> leaderboard_row" where
  "leaderboard_row_of db a =
     (let ps = filter (\<lambda>p. po_account_id p = pa_id a) (positions db);
          settled = filter (\<lambda>p. po_status p = WON \<or> po_status p = LOST) ps;
          wins = filter (\<lambda>p. po_status p = WON) settled;
          losses = filter (\<lambda>p. po_status p = LOST) settled;
          gross_profit = sum_list (map (\<lambda>p. money_or_zero (po_realized_pnl p)) wins);
          gross_loss = \<bar>sum_list (map (\<lambda>p. money_or_zero (po_realized_pnl p)) losses)\<bar>;
          initial = money (pa_initial a)
      in \<lparr>lb_account_id = pa_id a, lb_event_id = pa_event_id a, lb_experiment = pa_experiment a, lb_initial = initial,
          lb_cash = pa_cash a, lb_locked = pa_locked a, lb_equity = money (pa_cash a + pa_locked a),
          lb_realized_pnl = pa_realized_pnl a,
          lb_roi = (if 0 < initial then Some (pa_realized_pnl a / initial) else None),
          lb_peak_equity = pa_peak_equity a, lb_max_drawdown = pa_max_drawdown a,
          lb_max_drawdown_pct = pa_max_drawdown_pct a, lb_bet_count = length settled,
          lb_open_bet_count = length (filter (\<lambda>p. po_status p = OPEN) ps),
          lb_rejected_bet_count = length (filter (\<lambda>p. po_status p = REJECTED) ps),
          lb_wins = length wins, lb_losses = length losses,
          lb_hit_rate = (if settled = [] then None else Some (of_nat (length wins) / of_nat (length settled))),
          lb_turnover = sum_list (map (\<lambda>p. money (po_stake p)) settled),
          lb_profit_factor = (if 0 < gross_loss then Some (gross_profit / gross_loss) else None),
          lb_status = pa_status a\<rparr>)"

definition leaderboard :: "portfolio_db \<Rightarrow> uuid \<Rightarrow> leaderboard_row list" where
  "leaderboard db event =
     map (leaderboard_row_of db)
       (sort_key (\<lambda>a. - pa_realized_pnl a) (filter (\<lambda>a. pa_event_id a = event) (accounts db)))"

end
