(* ===== verification/Settlement.thy ===== *)
theory Settlement
  imports Portfolio Events
begin

text \<open>
  Map results: \<open>SettlementService\<close> of \<open>app/evaluation/settlement.py\<close> on the tables \<open>map_results\<close>
  and \<open>map_result_evidence\<close>, and the job handler \<open>settle_map\<close> of \<open>app/jobs/handlers.py\<close>, which
  settles the bankrolls of a map and requests the evaluation of its snapshots.
\<close>

subsection \<open>Data\<close>

datatype conflict_status = CONFIRMED | DATA_CONFLICT

record evidence_row =
  ed_map_id :: uuid
  ed_provider :: string
  ed_provider_match_id :: string
  ed_winner :: "uuid option"
  ed_observed_at :: time
  ed_first_usable_at :: time
  ed_raw_event_id :: uuid
  ed_normalizer_version :: string
  ed_identity_confidence :: rat
  ed_conflict_status :: conflict_status

record settlement_db =
  results :: "result_row list"
  evidence :: "evidence_row list"

text \<open>The arguments of \<open>settle\<close>.\<close>

record result_report =
  rp_map_id :: uuid
  rp_winner :: "uuid option"
  rp_provider :: string
  rp_provider_match_id :: string
  rp_observed_at :: time
  rp_basic_first_usable_at :: time
  rp_raw_event_id :: uuid
  rp_normalizer_version :: string
  rp_identity_confidence :: rat
  rp_advanced_first_usable_at :: "time option"
  rp_provider_conflict :: bool

datatype settle_error = InvalidIdentityConfidence | ResultNotAvailable | EventNotRecorded event_error

subsection \<open>SettlementService\<close>

definition evidence_of :: "result_report \<Rightarrow> evidence_row" where
  "evidence_of r =
     \<lparr>ed_map_id = rp_map_id r, ed_provider = rp_provider r, ed_provider_match_id = rp_provider_match_id r,
      ed_winner = rp_winner r, ed_observed_at = rp_observed_at r, ed_first_usable_at = rp_basic_first_usable_at r,
      ed_raw_event_id = rp_raw_event_id r, ed_normalizer_version = rp_normalizer_version r,
      ed_identity_confidence = rp_identity_confidence r,
      ed_conflict_status = (if rp_provider_conflict r then DATA_CONFLICT else CONFIRMED)\<rparr>"

definition add_evidence :: "result_report \<Rightarrow> evidence_row list \<Rightarrow> evidence_row list" where
  "add_evidence r ev =
     (case find_row (\<lambda>e. ed_map_id e = rp_map_id r \<and> ed_raw_event_id e = rp_raw_event_id r) ev of
        None \<Rightarrow> ev @ [evidence_of r]
      | Some e \<Rightarrow> ev)"

text \<open>The set comprehension \<open>{item.winner_team_id for ... if item.winner_team_id}\<close>.\<close>

fun evidence_winners :: "evidence_row list \<Rightarrow> uuid list" where
  "evidence_winners [] = []"
| "evidence_winners (e # es) = (case ed_winner e of None \<Rightarrow> evidence_winners es | Some w \<Rightarrow> List.insert w (evidence_winners es))"

definition evidence_conflict :: "bool \<Rightarrow> evidence_row list \<Rightarrow> bool" where
  "evidence_conflict provider_conflict rows \<longleftrightarrow>
     provider_conflict \<or> 1 < length (evidence_winners rows) \<or> (\<exists>e \<in> set rows. ed_conflict_status e = DATA_CONFLICT)"

definition resolved_winner :: "bool \<Rightarrow> evidence_row list \<Rightarrow> uuid option" where
  "resolved_winner conflict rows =
     (case evidence_winners rows of [w] \<Rightarrow> if conflict then None else Some w | _ \<Rightarrow> None)"

definition new_result :: "time \<Rightarrow> bool \<Rightarrow> uuid option \<Rightarrow> result_report \<Rightarrow> result_row" where
  "new_result now conflict winner r =
     \<lparr>rr_map_id = rp_map_id r, rr_winner = winner, rr_conflict = conflict,
      rr_basic_first_usable_at = rp_basic_first_usable_at r, rr_advanced_first_usable_at = rp_advanced_first_usable_at r,
      rr_settled_at = now\<rparr>"

definition refresh_result :: "bool \<Rightarrow> uuid option \<Rightarrow> result_report \<Rightarrow> result_row \<Rightarrow> result_row" where
  "refresh_result conflict winner r x =
     x\<lparr>rr_conflict := conflict, rr_winner := winner,
       rr_basic_first_usable_at := min (rr_basic_first_usable_at x) (rp_basic_first_usable_at r),
       rr_advanced_first_usable_at :=
         (case rp_advanced_first_usable_at r of
            None \<Rightarrow> rr_advanced_first_usable_at x
          | Some t \<Rightarrow> Some (case rr_advanced_first_usable_at x of None \<Rightarrow> t | Some u \<Rightarrow> min u t))\<rparr>"

definition settle :: "settlement_db \<Rightarrow> time \<Rightarrow> result_report \<Rightarrow> settle_error + (result_row \<times> settlement_db)" where
  "settle db now r =
     (if \<not> (0 \<le> rp_identity_confidence r \<and> rp_identity_confidence r \<le> 1) then Inl InvalidIdentityConfidence
      else
        (let ev = add_evidence r (evidence db);
             rows = filter (\<lambda>e. ed_map_id e = rp_map_id r) ev;
             conflict = evidence_conflict (rp_provider_conflict r) rows;
             winner = resolved_winner conflict rows;
             ev' = update_where (\<lambda>e. ed_map_id e = rp_map_id r)
                     (\<lambda>e. e\<lparr>ed_conflict_status := (if conflict then DATA_CONFLICT else CONFIRMED)\<rparr>) ev
         in case find_row (\<lambda>x. rr_map_id x = rp_map_id r) (results db) of
              None \<Rightarrow>
                (let x = new_result now conflict winner r
                 in Inr (x, db\<lparr>evidence := ev', results := results db @ [x]\<rparr>))
            | Some x \<Rightarrow>
                Inr (refresh_result conflict winner r x,
                     db\<lparr>evidence := ev',
                        results := update_first (\<lambda>x. rr_map_id x = rp_map_id r) (refresh_result conflict winner r) (results db)\<rparr>)))"

subsection \<open>The job\<close>

text \<open>A row of \<open>historical_maps\<close>; \<open>hf_data_conflict\<close> is \<open>sync_status == "DATA_CONFLICT"\<close>.\<close>

record history_fact =
  hf_map_id :: "uuid option"
  hf_provider :: string
  hf_provider_match_id :: string
  hf_winner :: "uuid option"
  hf_first_usable_at :: time
  hf_fetched_at :: "time option"
  hf_normalizer_version :: "string option"
  hf_advanced_ready_at :: "time option"
  hf_data_conflict :: bool
  hf_raw_event_id :: uuid

definition report_of_fact :: "uuid \<Rightarrow> history_fact \<Rightarrow> result_report" where
  "report_of_fact map_id f =
     \<lparr>rp_map_id = map_id, rp_winner = hf_winner f, rp_provider = hf_provider f,
      rp_provider_match_id = hf_provider_match_id f,
      rp_observed_at = (case hf_fetched_at f of Some t \<Rightarrow> t | None \<Rightarrow> hf_first_usable_at f),
      rp_basic_first_usable_at = hf_first_usable_at f, rp_raw_event_id = hf_raw_event_id f,
      rp_normalizer_version = (case hf_normalizer_version f of Some v \<Rightarrow> if v = [] then ''unknown'' else v | None \<Rightarrow> ''unknown''),
      rp_identity_confidence = 1, rp_advanced_first_usable_at = hf_advanced_ready_at f,
      rp_provider_conflict = hf_data_conflict f\<rparr>"

definition evaluation_event :: "time \<Rightarrow> uuid \<Rightarrow> domain_event" where
  "evaluation_event now snapshot_id =
     \<lparr>ev_type = EVALUATION_REQUIRED, ev_aggregate_type = ''decision_snapshot'', ev_aggregate_id = str_uuid snapshot_id,
      ev_dedupe_key = ''evaluation:'' @ str_uuid snapshot_id,
      ev_payload = [(''snapshot_id'', JStr (str_uuid snapshot_id))], ev_occurred_at = now\<rparr>"

record lab_state =
  st_settlement :: settlement_db
  st_portfolio :: portfolio_db
  st_events :: event_db

definition map_result_for ::
  "history_fact list \<Rightarrow> settlement_db \<Rightarrow> time \<Rightarrow> uuid \<Rightarrow> settle_error + (result_row \<times> settlement_db)" where
  "map_result_for facts db now map_id =
     (case find_row (\<lambda>x. rr_map_id x = map_id) (results db) of
        Some x \<Rightarrow> Inr (x, db)
      | None \<Rightarrow>
         (case order_limit hf_first_usable_at 1 (filter (\<lambda>f. hf_map_id f = Some map_id \<and> hf_winner f \<noteq> None) facts) of
            [] \<Rightarrow> Inl ResultNotAvailable
          | f # fs \<Rightarrow> settle db now (report_of_fact map_id f)))"

text \<open>The handler runs in one transaction: an error leaves the state as it was.  The portfolio service
  is optional.\<close>

definition settle_map_job ::
  "bool \<Rightarrow> bool \<Rightarrow> lab_tables \<Rightarrow> history_fact list \<Rightarrow> lab_state \<Rightarrow> time \<Rightarrow> uuid \<Rightarrow> settle_error + lab_state" where
  "settle_map_job pg has_portfolio tb facts st now map_id =
     (case map_result_for facts (st_settlement st) now map_id of
        Inl e \<Rightarrow> Inl e
      | Inr (x, sdb) \<Rightarrow>
         (let pf = (if has_portfolio
                    then snd (settle_map tb (st_portfolio st) now map_id (rr_winner x) (rr_conflict x) (Some (rr_settled_at x)))
                    else st_portfolio st)
          in case record_all pg (st_events st) now
                    (map (evaluation_event now \<circ> sn_id) (filter (\<lambda>s. sn_map_id s = Some map_id) (tb_snapshots tb))) of
               Inl e \<Rightarrow> Inl (EventNotRecorded e)
             | Inr ev \<Rightarrow> Inr (st\<lparr>st_settlement := sdb, st_portfolio := pf, st_events := ev\<rparr>)))"

end
