(* ===== verification/PortfolioInvariant.thy ===== *)
theory PortfolioInvariant
  imports Portfolio
begin

text \<open>
  The invariant of the virtual bankrolls (money is conserved, the audit ledger adds up to the
  balances, the risk figures bound the equity) and its preservation by settlement, with the
  functional description of what a settlement writes.
\<close>

subsection \<open>Invariant\<close>

definition open_stake :: "portfolio_db \<Rightarrow> uuid \<Rightarrow> rat" where
  "open_stake db i = sum_list (map po_stake (filter (\<lambda>p. po_account_id p = i \<and> po_status p = OPEN) (positions db)))"

definition entry_sum :: "(pf_entry \<Rightarrow> rat) \<Rightarrow> portfolio_db \<Rightarrow> uuid \<Rightarrow> rat" where
  "entry_sum f db i = sum_list (map f (filter (\<lambda>e. pl_account_id e = i) (entries db)))"

definition account_ok :: "portfolio_db \<Rightarrow> pf_account \<Rightarrow> bool" where
  "account_ok db a \<longleftrightarrow>
     cents (pa_initial a) \<and> cents (pa_cash a) \<and> cents (pa_locked a) \<and> cents (pa_realized_pnl a) \<and>
     cents (pa_peak_equity a) \<and> cents (pa_max_drawdown a) \<and>
     0 \<le> pa_cash a \<and> pa_initial a \<le> pa_peak_equity a \<and>
     open_stake db (pa_id a) = pa_locked a \<and> pa_cash a + pa_locked a = pa_initial a + pa_realized_pnl a \<and>
     entry_sum pl_cash_delta db (pa_id a) = pa_cash a \<and> entry_sum pl_locked_delta db (pa_id a) = pa_locked a \<and>
     entry_sum pl_realized_pnl_delta db (pa_id a) = pa_realized_pnl a"

definition position_ok :: "portfolio_db \<Rightarrow> pf_position \<Rightarrow> bool" where
  "position_ok db p \<longleftrightarrow>
     cents (po_stake p) \<and> 0 \<le> po_stake p \<and> po_account_id p \<in> pa_id ` set (accounts db) \<and> po_id p < next_pf_id db \<and>
     (po_status p = OPEN \<longrightarrow> (\<exists>odds > 1. po_odds p = Some odds))"

definition balances_ok :: "portfolio_db \<Rightarrow> bool" where
  "balances_ok db \<longleftrightarrow>
     distinct (map pa_id (accounts db)) \<and> distinct (map po_id (positions db)) \<and>
     distinct (map po_ai_decision_id (positions db)) \<and>
     (\<forall>a \<in> set (accounts db). pa_id a < next_pf_id db \<and> account_ok db a) \<and>
     (\<forall>p \<in> set (positions db). position_ok db p) \<and>
     (\<forall>e \<in> set (entries db). pl_account_id e < next_pf_id db)"

definition risk_ok :: "pf_account \<Rightarrow> bool" where
  "risk_ok a \<longleftrightarrow> pa_cash a + pa_locked a \<le> pa_peak_equity a \<and>
     pa_peak_equity a - (pa_cash a + pa_locked a) \<le> pa_max_drawdown a"

definition pf_inv :: "portfolio_db \<Rightarrow> bool" where
  "pf_inv db \<longleftrightarrow> balances_ok db \<and> (\<forall>a \<in> set (accounts db). risk_ok a)"

lemma balances_okD:
  assumes "balances_ok db"
  shows "distinct (map pa_id (accounts db))" "distinct (map po_id (positions db))"
    "distinct (map po_ai_decision_id (positions db))"
    "a \<in> set (accounts db) \<Longrightarrow> pa_id a < next_pf_id db" "a \<in> set (accounts db) \<Longrightarrow> account_ok db a"
    "p \<in> set (positions db) \<Longrightarrow> position_ok db p" "e \<in> set (entries db) \<Longrightarrow> pl_account_id e < next_pf_id db"
  using assms by (simp_all add: balances_ok_def)

lemma account_ok_cents: "account_ok db a \<Longrightarrow> cents (pa_cash a) \<and> cents (pa_locked a) \<and> cents (pa_realized_pnl a)"
  unfolding account_ok_def by (elim conjE, intro conjI)

text \<open>One entry is booked: the account moves by its deltas, nobody else's rows change.\<close>

lemma booked:
  assumes "balances_ok db" and "find_row (\<lambda>a. pa_id a = i) (accounts db) = Some a"
    and "accounts db' = update_first (\<lambda>a. pa_id a = i) f (accounts db)" and "entries db' = entries db @ [e]"
    and "pl_account_id e = i"
    and "\<And>j. j \<noteq> i \<Longrightarrow> open_stake db' j = open_stake db j"
    and "open_stake db' i = open_stake db i + pl_locked_delta e"
    and "pa_cash (f a) = pa_cash a + pl_cash_delta e" and "pa_locked (f a) = pa_locked a + pl_locked_delta e"
    and "pa_realized_pnl (f a) = pa_realized_pnl a + pl_realized_pnl_delta e"
    and "pl_cash_delta e + pl_locked_delta e = pl_realized_pnl_delta e"
    and "cents (pl_cash_delta e)" and "cents (pl_locked_delta e)" and "cents (pl_realized_pnl_delta e)"
    and "0 \<le> pa_cash (f a)"
    and "\<And>a. pa_id (f a) = pa_id a \<and> pa_initial (f a) = pa_initial a \<and> pa_peak_equity (f a) = pa_peak_equity a \<and>
             pa_max_drawdown (f a) = pa_max_drawdown a"
  shows "\<forall>a \<in> set (accounts db'). pa_id a < next_pf_id db \<and> account_ok db' a"
proof
  fix b assume b: "b \<in> set (accounts db')"
  have a: "a \<in> set (accounts db)" "pa_id a = i" using find_row_SomeD [OF assms(2)] by simp_all
  have sums: "entry_sum g db' j = entry_sum g db j + (if j = i then g e else 0)" for g j
    using assms(4,5) by (simp add: entry_sum_def)
  show "pa_id b < next_pf_id db \<and> account_ok db' b"
  proof (cases "b = f a")
    case True
    have ok: "account_ok db a" by (rule balances_okD(5) [OF assms(1) a(1)])
    then have "cents (pa_cash a + pl_cash_delta e)" "cents (pa_locked a + pl_locked_delta e)"
      "cents (pa_realized_pnl a + pl_realized_pnl_delta e)"
      using account_ok_cents [OF ok] assms(12-14) by simp_all
    then show ?thesis
      using True balances_okD(4) [OF assms(1) a(1)] ok assms(7-11,15,16) a(2) by (simp add: account_ok_def sums)
  next
    case False
    then have old: "b \<in> set (accounts db)" using update_first_in [OF b [unfolded assms(3)] assms(2)] by simp
    have "pa_id b \<noteq> i"
    proof
      assume "pa_id b = i"
      then have "pa_id b = pa_id (f a)" using a(2) assms(16) [of a] by simp
      moreover have "f a \<in> set (accounts db')" unfolding assms(3) by (rule in_update_first_new [OF assms(2)])
      moreover have "map pa_id (accounts db') = map pa_id (accounts db)"
        unfolding assms(3) by (rule map_update_first) (simp add: assms(16))
      ultimately show False using key_row_unique [of pa_id "accounts db'" b "f a"] balances_okD(1) [OF assms(1)] b False by simp
    qed
    then show ?thesis using balances_okD(4,5) [OF assms(1) old] assms(6) by (simp add: account_ok_def sums)
  qed
qed

lemma money_stake: "position_ok db p \<Longrightarrow> money (po_stake p) = po_stake p"
  by (simp add: position_ok_def)

lemma outcome_amounts:
  assumes "position_ok db p" and "po_status p = OPEN" and "position_outcome series winner conflict p = (st, ty, payout, pnl)"
  shows "st \<noteq> OPEN \<and> st \<noteq> REJECTED \<and> cents payout \<and> 0 \<le> payout \<and> cents pnl \<and> pnl = payout - po_stake p"
proof -
  obtain odds where odds: "1 < odds" "po_odds p = Some odds" using assms(1,2) by (auto simp: position_ok_def)
  have st: "cents (po_stake p)" "0 \<le> po_stake p" using assms(1) by (simp_all add: position_ok_def)
  have "0 \<le> po_stake p * odds" using odds(1) st(2) by simp
  then have pay: "0 \<le> money (po_stake p * odds)" by (rule money_nonneg)
  have diff: "money (money (po_stake p * odds) - po_stake p) = money (po_stake p * odds) - po_stake p"
    "money (- po_stake p) = - po_stake p"
    using st(1) by simp_all
  show ?thesis
    using assms(3) odds st pay diff by (auto simp: position_outcome_def Let_def split: if_splits)
qed

lemma settle_position_ok:
  assumes bal: "balances_ok db" and p: "p \<in> set (positions db)" "po_account_id p = i" "po_status p = OPEN"
    and a: "find_row (\<lambda>a. pa_id a = i) (accounts db) = Some a"
  shows "balances_ok (settle_position series w c t i p db)"
proof -
  let ?db = "settle_position series w c t i p db"
  obtain st ty payout pnl where o: "position_outcome series w c p = (st, ty, payout, pnl)"
    by (cases "position_outcome series w c p") auto
  have ok: "position_ok db p" by (rule balances_okD(6) [OF bal p(1)])
  note am = outcome_amounts [OF ok p(3) o]
  have stake: "money (po_stake p) = po_stake p" "cents (po_stake p)" using ok by (simp_all add: position_ok_def)
  have aok: "account_ok db a" "a \<in> set (accounts db)" "pa_id a = i"
    using find_row_SomeD [OF a] balances_okD(5) [OF bal, of a] by simp_all
  let ?f = "credit payout (po_stake p) pnl" and ?g = "close_position st payout pnl t"
  let ?e = "ledger_entry (?f a) (Some (po_id p)) ty payout (- po_stake p) pnl (''settle:'' @ str_uuid (po_id p)) t"
  have db': "accounts ?db = update_first (\<lambda>a. pa_id a = i) ?f (accounts db)"
    "positions ?db = update_first (\<lambda>q. po_id q = po_id p) ?g (positions db)"
    "entries ?db = entries db @ [?e]" "next_pf_id ?db = next_pf_id db"
    using a o by (simp_all add: settle_position_def stake Let_def)
  have row: "find_row (\<lambda>q. po_id q = po_id p) (positions db) = Some p"
    by (rule find_row_unique [where key = po_id]) (use balances_okD(2) [OF bal] p in auto)
  have os: "open_stake ?db j = open_stake db j - (if j = i then po_stake p else 0)" for j
    unfolding open_stake_def db'(2) sum_update_first [OF row] using p am by (auto simp: close_position_def)
  have eq: "pl_cash_delta ?e = payout" "pl_locked_delta ?e = - po_stake p" "pl_realized_pnl_delta ?e = pnl"
    using am stake by (simp_all add: ledger_entry_def)
  have nn: "0 \<le> pa_cash a + payout" using aok(1) am by (simp add: account_ok_def)
  have fa: "pa_cash (?f a) = pa_cash a + payout" "pa_locked (?f a) = pa_locked a - po_stake p"
    "pa_realized_pnl (?f a) = pa_realized_pnl a + pnl"
  proof -
    have c: "cents (pa_cash a)" "cents (pa_locked a)" "cents (pa_realized_pnl a)" using account_ok_cents [OF aok(1)] by simp_all
    then have "cents (pa_cash a + payout)" "cents (pa_locked a - po_stake p)" "cents (pa_realized_pnl a + pnl)"
      using am stake(2) by simp_all
    then show "pa_cash (?f a) = pa_cash a + payout" "pa_locked (?f a) = pa_locked a - po_stake p"
      "pa_realized_pnl (?f a) = pa_realized_pnl a + pnl"
      by (simp_all add: credit_def)
  qed
  have accs: "\<forall>a \<in> set (accounts ?db). pa_id a < next_pf_id db \<and> account_ok ?db a"
    by (rule booked [OF bal a db'(1,3)])
      (use am stake nn fa aok(3) in \<open>simp_all add: os eq, simp_all add: ledger_entry_def credit_def\<close>)
  have ids: "map pa_id (accounts ?db) = map pa_id (accounts db)" "map po_id (positions ?db) = map po_id (positions db)"
    "map po_ai_decision_id (positions ?db) = map po_ai_decision_id (positions db)"
    unfolding db' by (rule map_update_first, simp add: credit_def close_position_def)+
  have aset: "pa_id ` set (accounts ?db) = pa_id ` set (accounts db)" using ids(1) by (metis list.set_map)
  have "position_ok ?db q" if q: "q \<in> set (positions ?db)" for q
    using update_first_in [OF q [unfolded db'(2)] row] balances_okD(6) [OF bal] ok am aset
    by (auto simp: position_ok_def db'(4) close_position_def)
  moreover have "\<forall>e \<in> set (entries ?db). pl_account_id e < next_pf_id ?db"
    using balances_okD(4,7) [OF bal] aok(2) by (auto simp: db'(3,4) ledger_entry_def credit_def)
  ultimately show ?thesis
    using accs balances_okD(1,2,3) [OF bal] unfolding balances_ok_def ids db'(4) by simp
qed


subsection \<open>What settling writes\<close>

definition settled_position :: "series_row \<Rightarrow> uuid option \<Rightarrow> bool \<Rightarrow> time \<Rightarrow> pf_position \<Rightarrow> pf_position" where
  "settled_position series winner conflict stamp p =
     (let (st, entry_type, payout, pnl) = position_outcome series winner conflict p
      in close_position st payout pnl stamp p)"

lemma settled_position_fields [simp]:
  "po_id (settled_position s w c t p) = po_id p"
  "po_ai_decision_id (settled_position s w c t p) = po_ai_decision_id p"
  "po_account_id (settled_position s w c t p) = po_account_id p"
  "po_map_id (settled_position s w c t p) = po_map_id p"
  "po_stake (settled_position s w c t p) = po_stake p"
  by (simp_all add: settled_position_def close_position_def split: prod.split)

lemma settled_not_open [simp]: "po_status (settled_position s w c t p) \<noteq> OPEN"
  by (auto simp: settled_position_def close_position_def position_outcome_def Let_def)

lemma closed_not_open_on [simp]: "\<not> open_on m (settled_position s w c t p)"
  by (simp add: open_on_def)

lemma settle_position_writes:
  assumes ids: "distinct (map po_id (positions db))" and p: "p \<in> set (positions db)"
    and a: "i \<in> pa_id ` set (accounts db)"
  shows "positions (settle_position s w c t i p db) =
         map (\<lambda>q. if q = p then settled_position s w c t q else q) (positions db)"
proof -
  obtain st ty pay pnl where o: "position_outcome s w c p = (st, ty, pay, pnl)"
    by (cases "position_outcome s w c p") auto
  obtain b where b: "find_row (\<lambda>a. pa_id a = i) (accounts db) = Some b"
    using a find_row_ex [where P = "\<lambda>a. pa_id a = i"] by blast
  have "update_first (\<lambda>q. po_id q = po_id p) (close_position st pay pnl t) (positions db) =
        update_where (\<lambda>q. po_id q = po_id p) (close_position st pay pnl t) (positions db)"
    by (rule update_first_eq_where [OF ids]) simp
  also have "\<dots> = map (\<lambda>q. if q = p then settled_position s w c t q else q) (positions db)"
    unfolding update_where_def
    by (rule map_cong [OF refl]) (auto simp: settled_position_def o dest: key_row_unique [OF ids p])
  finally show ?thesis using o b by (simp add: settle_position_def Let_def)
qed

lemma settle_position_accounts:
  "map pa_id (accounts (settle_position s w c t i p db)) = map pa_id (accounts db)"
  by (auto simp: settle_position_def credit_def Let_def intro!: map_update_first split: option.split prod.split)

lemma settle_position_ids:
  "map po_id (positions (settle_position s w c t i p db)) = map po_id (positions db)"
  by (auto simp: settle_position_def close_position_def Let_def intro!: map_update_first split: option.split prod.split)

lemma settle_position_others:
  "pa_id a \<noteq> i \<Longrightarrow> a \<in> set (accounts (settle_position s w c t i p db)) \<Longrightarrow> a \<in> set (accounts db)"
  by (auto simp: settle_position_def credit_def Let_def split: option.splits prod.splits dest!: in_update_firstD)

lemma set_pa_ids: "map pa_id xs = map pa_id ys \<Longrightarrow> pa_id ` set xs = pa_id ` set ys"
  by (metis list.set_map)

definition to_settle :: "portfolio_db \<Rightarrow> uuid \<Rightarrow> pf_position list \<Rightarrow> bool" where
  "to_settle db i ps \<longleftrightarrow>
     balances_ok db \<and> distinct (map po_id ps) \<and> i \<in> pa_id ` set (accounts db) \<and>
     (\<forall>p \<in> set ps. p \<in> set (positions db) \<and> po_account_id p = i \<and> po_status p = OPEN)"

lemma to_settle_step:
  assumes "to_settle db i (p # ps)"
  shows "to_settle (settle_position s w c t i p db) i ps"
    and "positions (settle_position s w c t i p db) =
         map (\<lambda>q. if q = p then settled_position s w c t q else q) (positions db)"
proof -
  have bal: "balances_ok db" and d: "distinct (map po_id (p # ps))" and i: "i \<in> pa_id ` set (accounts db)"
    and ps: "\<forall>p \<in> set (p # ps). p \<in> set (positions db) \<and> po_account_id p = i \<and> po_status p = OPEN"
    using assms unfolding to_settle_def by blast+
  let ?db = "settle_position s w c t i p db"
  obtain a where a: "find_row (\<lambda>a. pa_id a = i) (accounts db) = Some a"
    using i find_row_ex [where P = "\<lambda>a. pa_id a = i"] by blast
  have p: "p \<in> set (positions db)" "po_account_id p = i" "po_status p = OPEN" using ps by simp_all
  show w: "positions ?db = map (\<lambda>q. if q = p then settled_position s w c t q else q) (positions db)"
    by (rule settle_position_writes [OF balances_okD(2) [OF bal] p(1) i])
  have "q \<in> set (positions ?db)" if "q \<in> set ps" for q
    using that ps d unfolding w by (auto simp: image_iff intro!: bexI [of _ q])
  then show "to_settle ?db i ps"
    using settle_position_ok [OF bal p a] d i ps set_pa_ids [OF settle_position_accounts] by (simp add: to_settle_def)
qed

lemma fold_settle:
  assumes "to_settle db i ps"
  shows "balances_ok (fold (settle_position s w c t i) ps db) \<and>
    positions (fold (settle_position s w c t i) ps db) =
      map (\<lambda>q. if q \<in> set ps then settled_position s w c t q else q) (positions db) \<and>
    map pa_id (accounts (fold (settle_position s w c t i) ps db)) = map pa_id (accounts db) \<and>
    (\<forall>a \<in> set (accounts (fold (settle_position s w c t i) ps db)). pa_id a \<noteq> i \<longrightarrow> a \<in> set (accounts db))"
  using assms
proof (induction ps arbitrary: db)
  case Nil
  then show ?case by (simp add: to_settle_def)
next
  case (Cons p ps)
  let ?db = "settle_position s w c t i p db"
  note step = to_settle_step [OF Cons.prems, of s w c t]
  note ih = Cons.IH [OF step(1)]
  have ids: "po_id p \<notin> po_id ` set ps" using Cons.prems by (simp add: to_settle_def)
  have new: "settled_position s w c t p \<notin> set ps"
  proof
    assume "settled_position s w c t p \<in> set ps"
    then have "po_id (settled_position s w c t p) \<in> po_id ` set ps" by (rule imageI)
    with ids show False by simp
  qed
  have old: "p \<notin> set ps" using ids by auto
  have "positions (fold (settle_position s w c t i) ps ?db) =
      map (\<lambda>q. if q \<in> set (p # ps) then settled_position s w c t q else q) (positions db)"
    using ih new old unfolding step(2) by (auto intro!: map_cong)
  moreover have "\<forall>a \<in> set (accounts (fold (settle_position s w c t i) ps ?db)). pa_id a \<noteq> i \<longrightarrow> a \<in> set (accounts db)"
    using ih settle_position_others by blast
  ultimately show ?case using ih settle_position_accounts [of s w c t i p db] by simp
qed

subsection \<open>One account of a map\<close>

lemma cents_max [simp]: "cents x \<Longrightarrow> cents y \<Longrightarrow> cents (max x y)"
  by (simp add: max_def)

lemma finish_account_fields [simp]:
  "pa_id (finish_account t a) = pa_id a" "pa_initial (finish_account t a) = pa_initial a"
  "pa_cash (finish_account t a) = pa_cash a" "pa_locked (finish_account t a) = pa_locked a"
  "pa_realized_pnl (finish_account t a) = pa_realized_pnl a"
  by (simp_all add: finish_account_def update_risk_def Let_def)

lemma finish_account_ok:
  assumes "account_ok db a"
  shows "account_ok db (finish_account t a)" and "risk_ok (finish_account t a)"
proof -
  have c: "cents (pa_cash a + pa_locked a)" using account_ok_cents [OF assms] by simp
  have pk: "cents (pa_peak_equity a)" "cents (pa_max_drawdown a)" using assms by (simp_all add: account_ok_def)
  have pk': "pa_peak_equity (finish_account t a) = max (pa_peak_equity a) (pa_cash a + pa_locked a)"
    using c pk by (simp add: finish_account_def update_risk_def Let_def)
  have dd: "pa_max_drawdown (finish_account t a) =
      max (pa_max_drawdown a) (pa_peak_equity (finish_account t a) - (pa_cash a + pa_locked a))"
    using c pk unfolding pk' by (simp add: finish_account_def update_risk_def Let_def max_def)
  have "cents (max (pa_peak_equity a) (pa_cash a + pa_locked a))" using c pk by simp
  then have "cents (pa_peak_equity (finish_account t a))" "cents (pa_max_drawdown (finish_account t a))"
    using c pk unfolding dd pk' by simp_all
  moreover have "pa_peak_equity a \<le> pa_peak_equity (finish_account t a)" unfolding pk' by simp
  ultimately show "account_ok db (finish_account t a)" using assms by (simp add: account_ok_def)
  show "risk_ok (finish_account t a)" unfolding risk_ok_def dd by (simp add: pk')
qed

lemma finish_ok:
  assumes bal: "balances_ok db" and risk: "\<forall>a \<in> set (accounts db). pa_id a \<noteq> i \<longrightarrow> risk_ok a"
  shows "pf_inv (db\<lparr>accounts := update_first (\<lambda>a. pa_id a = i) (finish_account t) (accounts db)\<rparr>)"
proof -
  let ?acc = "update_first (\<lambda>a. pa_id a = i) (finish_account t) (accounts db)"
  let ?db = "db\<lparr>accounts := ?acc\<rparr>"
  have ids: "map pa_id ?acc = map pa_id (accounts db)" by (rule map_update_first) simp
  have sums: "open_stake ?db = open_stake db" "\<And>f. entry_sum f ?db = entry_sum f db"
    by (simp_all add: open_stake_def entry_sum_def fun_eq_iff)
  have ok: "account_ok ?db a \<longleftrightarrow> account_ok db a" for a by (simp add: account_ok_def sums)
  have acc: "pa_id a < next_pf_id db \<and> account_ok db a \<and> risk_ok a" if a: "a \<in> set ?acc" for a
  proof (cases "pa_id a = i")
    case False
    then have "a \<in> set (accounts db)" using in_update_firstD [OF a] by auto
    then show ?thesis using False risk balances_okD(4,5) [OF bal] by simp
  next
    case True
    then have "i \<in> pa_id ` set (accounts db)" using a set_pa_ids [OF ids] by (metis imageI)
    then obtain b where b: "find_row (\<lambda>a. pa_id a = i) (accounts db) = Some b"
      using find_row_ex [where P = "\<lambda>a. pa_id a = i"] by blast
    have "a = finish_account t b"
      using key_row_unique [of pa_id ?acc a "finish_account t b"] a in_update_first_new [OF b] ids
        balances_okD(1) [OF bal] True find_row_SomeD [OF b] by simp
    then show ?thesis
      using finish_account_ok [OF balances_okD(5) [OF bal], of b] balances_okD(4) [OF bal, of b] find_row_SomeD [OF b] by simp
  qed
  then show ?thesis
    using bal unfolding pf_inv_def balances_ok_def by (simp add: ids ok position_ok_def set_pa_ids [OF ids])
qed

lemma settle_account_ok:
  assumes inv: "pf_inv db"
  shows "pf_inv (snd (settle_account s w c t m i db)) \<and>
    positions (snd (settle_account s w c t m i db)) =
      map (\<lambda>q. if po_account_id q = i \<and> open_on m q then settled_position s w c t q else q) (positions db) \<and>
    fst (settle_account s w c t m i db) = length (filter (\<lambda>q. po_account_id q = i \<and> open_on m q) (positions db))"
proof -
  have bal: "balances_ok db" using inv by (simp add: pf_inv_def)
  let ?P = "\<lambda>q. po_account_id q = i \<and> open_on m q"
  define ps where "ps = sort_key (\<lambda>p. (po_opened_at p, po_id p)) (filter ?P (positions db))"
  have set: "q \<in> set ps \<longleftrightarrow> q \<in> set (positions db) \<and> ?P q" for q by (simp add: ps_def)
  have len: "length ps = length (filter ?P (positions db))" by (simp add: ps_def)
  show ?thesis
  proof (cases "find_row (\<lambda>a. pa_id a = i) (accounts db) = None")
    case True
    then have "i \<notin> pa_id ` set (accounts db)" by (auto simp: find_row_None_iff)
    then have none: "\<not> ?P q" if "q \<in> set (positions db)" for q
      using balances_okD(6) [OF bal that] by (auto simp: position_ok_def)
    have "map (\<lambda>q. if ?P q then settled_position s w c t q else q) (positions db) = positions db"
      using none by (auto intro!: map_idI)
    moreover have "filter ?P (positions db) = []" using none by (simp add: filter_empty_conv)
    ultimately show ?thesis using True inv by (simp add: settle_account_def)
  next
    case False
    then have i: "i \<in> pa_id ` set (accounts db)" using find_row_SomeD by fastforce
    have "distinct (map po_id ps)"
      using balances_okD(2) [OF bal] by (simp add: ps_def distinct_map inj_on_def)
    then have "to_settle db i ps" using bal i by (simp add: to_settle_def set open_on_def)
    note f = fold_settle [OF this, of s w c t]
    have eq: "settle_account s w c t m i db =
        (length ps, if ps = [] then fold (settle_position s w c t i) ps db
         else (fold (settle_position s w c t i) ps db)\<lparr>accounts :=
           update_first (\<lambda>a. pa_id a = i) (finish_account t) (accounts (fold (settle_position s w c t i) ps db))\<rparr>)"
      using False by (simp add: settle_account_def ps_def [symmetric] Let_def)
    have "pf_inv (snd (settle_account s w c t m i db))"
    proof (cases "ps = []")
      case True
      then show ?thesis using inv by (simp add: eq)
    next
      case False
      have "\<forall>a \<in> set (accounts (fold (settle_position s w c t i) ps db)). pa_id a \<noteq> i \<longrightarrow> risk_ok a"
        using f inv by (simp add: pf_inv_def)
      then show ?thesis using False finish_ok f by (simp add: eq)
    qed
    moreover have "positions (snd (settle_account s w c t m i db)) =
        map (\<lambda>q. if q \<in> set ps then settled_position s w c t q else q) (positions db)"
      using f by (simp add: eq)
    then have "positions (snd (settle_account s w c t m i db)) =
        map (\<lambda>q. if ?P q then settled_position s w c t q else q) (positions db)"
      using set by (simp cong: map_cong)
    ultimately show ?thesis using len by (simp add: eq)
  qed
qed

subsection \<open>A whole map\<close>

lemma settle_accounts_ok:
  "pf_inv db \<Longrightarrow>
   pf_inv (snd (settle_accounts s w c t m is db)) \<and>
   positions (snd (settle_accounts s w c t m is db)) =
     map (\<lambda>q. if po_account_id q \<in> set is \<and> open_on m q then settled_position s w c t q else q) (positions db) \<and>
   fst (settle_accounts s w c t m is db) = length (filter (\<lambda>q. po_account_id q \<in> set is \<and> open_on m q) (positions db))"
proof (induction "is" arbitrary: db)
  case Nil
  then show ?case by simp
next
  case (Cons i "is")
  obtain n db1 where s1: "settle_account s w c t m i db = (n, db1)" by (cases "settle_account s w c t m i db") auto
  obtain k db2 where s2: "settle_accounts s w c t m is db1 = (k, db2)" by (cases "settle_accounts s w c t m is db1") auto
  note a = settle_account_ok [OF Cons.prems, of s w c t m i, unfolded s1 fst_conv snd_conv]
  have "pf_inv db1" using a by simp
  note b = Cons.IH [OF this, unfolded s2 fst_conv snd_conv]
  have p1: "positions db1 = map (\<lambda>q. if po_account_id q = i \<and> open_on m q then settled_position s w c t q else q) (positions db)"
    using a by simp
  have "positions db2 =
      map (\<lambda>q. if po_account_id q \<in> set (i # is) \<and> open_on m q then settled_position s w c t q else q) (positions db)"
    using b unfolding p1 by (auto intro!: map_cong)
  moreover have "length (filter (\<lambda>q. po_account_id q = i \<and> open_on m q) ps) +
      length (filter (\<lambda>q. po_account_id q \<in> set is \<and> open_on m q)
        (map (\<lambda>q. if po_account_id q = i \<and> open_on m q then settled_position s w c t q else q) ps)) =
      length (filter (\<lambda>q. po_account_id q \<in> set (i # is) \<and> open_on m q) ps)" for ps
    by (induction ps) auto
  then have "n + k = length (filter (\<lambda>q. po_account_id q \<in> set (i # is) \<and> open_on m q) (positions db))"
    using a b unfolding p1 by simp
  ultimately show ?case using b s1 s2 by simp
qed

text \<open>The map and the series the service reads before it settles.\<close>

definition series_of_map :: "lab_tables \<Rightarrow> uuid \<Rightarrow> series_row option" where
  "series_of_map tb m =
     Option.bind (Option.bind (find_row (\<lambda>r. fst r = m) (tb_maps tb)) snd) (\<lambda>i. find_row (\<lambda>s. sx_id s = i) (tb_series tb))"

lemma settle_map_ok:
  assumes "pf_inv db"
  shows "pf_inv (snd (settle_map tb db now m w c at_time))"
    and "series_of_map tb m = Some s \<Longrightarrow>
      positions (snd (settle_map tb db now m w c at_time)) =
        map (\<lambda>q. if open_on m q
                 then settled_position s w c (case at_time of None \<Rightarrow> now | Some t \<Rightarrow> t) q else q) (positions db) \<and>
      fst (settle_map tb db now m w c at_time) = length (filter (open_on m) (positions db))"
    and "series_of_map tb m = None \<Longrightarrow> settle_map tb db now m w c at_time = (0, db)"
proof -
  let ?is = "sort_key str_uuid (fromkeys (map po_account_id (filter (open_on m) (positions db))))"
  let ?t = "case at_time of None \<Rightarrow> now | Some t \<Rightarrow> t"
  have eq: "settle_map tb db now m w c at_time =
      (case series_of_map tb m of None \<Rightarrow> (0, db) | Some s \<Rightarrow> settle_accounts s w c ?t m ?is db)"
    by (auto simp: settle_map_def series_of_map_def split: option.splits Option.bind_splits)
  note ok = settle_accounts_ok [OF assms, of _ w c "?t" m "?is"]
  show "pf_inv (snd (settle_map tb db now m w c at_time))"
    using ok assms by (simp add: eq split: option.split)
  show "series_of_map tb m = None \<Longrightarrow> settle_map tb db now m w c at_time = (0, db)" by (simp add: eq)
  have mem: "po_account_id q \<in> set ?is \<and> open_on m q \<longleftrightarrow> open_on m q" if "q \<in> set (positions db)" for q
    using that by auto
  assume s: "series_of_map tb m = Some s"
  have "filter (\<lambda>q. po_account_id q \<in> set ?is \<and> open_on m q) (positions db) = filter (open_on m) (positions db)"
    using mem by (intro filter_cong) simp_all
  moreover have "map (\<lambda>q. if po_account_id q \<in> set ?is \<and> open_on m q then settled_position s w c ?t q else q) (positions db) =
      map (\<lambda>q. if open_on m q then settled_position s w c ?t q else q) (positions db)"
    using mem by (intro map_cong) simp_all
  ultimately show "positions (snd (settle_map tb db now m w c at_time)) =
        map (\<lambda>q. if open_on m q then settled_position s w c ?t q else q) (positions db) \<and>
      fst (settle_map tb db now m w c at_time) = length (filter (open_on m) (positions db))"
    using ok [of s] by (simp add: eq s)
qed

end
