(* ===== verification/PortfolioProperties.thy ===== *)
theory PortfolioProperties
  imports PortfolioInvariant
begin

text \<open>
  Properties of the virtual bankrolls in every reachable state of the service: conservation of
  money, settlement exactly once, and what a recorded decision may bet.
\<close>

subsection \<open>Funding\<close>

lemma ensure_account_ok:
  assumes inv: "pf_inv db" and pos: "0 \<le> bankroll" and e: "ensure_account bankroll tb db now event x ref = (a, db')"
  shows "pf_inv db' \<and> a \<in> set (accounts db') \<and> positions db' = positions db \<and> is_account event x a"
proof (cases "find_row (is_account event x) (accounts db)")
  case (Some b)
  then have "a = b" "db' = db" using e by (simp_all add: ensure_account_def)
  then show ?thesis using inv find_row_SomeD [OF Some] by simp
next
  case None
  have bal: "balances_ok db" using inv by (simp add: pf_inv_def)
  let ?n = "next_pf_id db"
  let ?a = "new_account (initial_bankroll bankroll) ?n event x now"
  let ?e = "ledger_entry ?a None ''EVENT_FUNDED'' (initial_bankroll bankroll) 0 0 (''fund:'' @ str_uuid ?n)
              (funded_at tb event ref now)"
  have new: "a = ?a" "accounts db' = accounts db @ [?a]" "entries db' = entries db @ [?e]" "next_pf_id db' = Suc ?n"
    "positions db' = positions db"
    using None e by (auto simp: ensure_account_def Let_def new_account_def)
  have fresh: "?n \<notin> pa_id ` set (accounts db)" using balances_okD(4) [OF bal] by fastforce
  have stakes: "open_stake db' i = open_stake db i" for i by (simp add: open_stake_def new)
  have none: "open_stake db ?n = 0"
  proof -
    have "po_account_id p \<noteq> ?n" if "p \<in> set (positions db)" for p
      using balances_okD(6) [OF bal that] fresh by (auto simp: position_ok_def)
    then have "filter (\<lambda>p. po_account_id p = ?n \<and> po_status p = OPEN) (positions db) = []"
      by (auto simp: filter_empty_conv)
    then show ?thesis by (simp only: open_stake_def list.map sum_list.Nil)
  qed
  have sums: "entry_sum f db' i = entry_sum f db i + (if i = ?n then f ?e else 0)" for f i
    by (simp add: entry_sum_def new ledger_entry_def new_account_def)
  have zero: "entry_sum f db ?n = 0" for f
  proof -
    have "pl_account_id e \<noteq> ?n" if "e \<in> set (entries db)" for e
      using balances_okD(7) [OF bal that] by simp
    then have "filter (\<lambda>e. pl_account_id e = ?n) (entries db) = []" by (simp add: filter_empty_conv)
    then show ?thesis by (simp only: entry_sum_def list.map sum_list.Nil)
  qed
  have c: "cents (initial_bankroll bankroll)" "0 \<le> initial_bankroll bankroll"
    using pos by (simp_all add: initial_bankroll_def)
  have "account_ok db' ?a" using c by (simp add: account_ok_def sums stakes none zero new_account_def ledger_entry_def)
  moreover have "risk_ok ?a" by (simp add: risk_ok_def new_account_def)
  moreover have "account_ok db' b" if "b \<in> set (accounts db)" for b
    using balances_okD(4,5) [OF bal that] by (simp add: account_ok_def sums stakes)
  moreover have "position_ok db' p" if "p \<in> set (positions db)" for p
    using balances_okD(6) [OF bal that] by (auto simp: position_ok_def new)
  moreover have "\<forall>e \<in> set (entries db'). pl_account_id e < next_pf_id db'"
    using balances_okD(7) [OF bal] by (auto simp: new ledger_entry_def new_account_def intro: less_SucI)
  moreover have "\<forall>a \<in> set (accounts db'). pa_id a < next_pf_id db'"
    using balances_okD(4) [OF bal] by (auto simp: new new_account_def intro: less_SucI)
  moreover have "distinct (map pa_id (accounts db'))"
    using balances_okD(1) [OF bal] fresh by (simp add: new new_account_def)
  ultimately show ?thesis
    using inv balances_okD(2,3) [OF bal] by (auto simp: pf_inv_def balances_ok_def new is_account_def new_account_def)
qed

subsection \<open>Placing a bet\<close>

lemma odds_in_gt: "odds_in decimal target obs = Some x \<Longrightarrow> 1 < x"
  by (induction obs) (auto split: json.splits option.splits if_splits)

lemma selected_odds_gt: "selected_odds decimal payload action ta tb = Some x \<Longrightarrow> 1 < x"
  by (auto simp: selected_odds_def dest: odds_in_gt split: json.splits)

lemma rejection_None:
  "rejection result at_time payload odds stake cash = None \<longleftrightarrow>
     (\<forall>r. result = Some r \<longrightarrow> at_time < rr_basic_first_usable_at r) \<and>
     execution_quality_rejection payload = None \<and> odds \<noteq> None \<and> stake \<le> cash"
  by (auto simp: rejection_def split: option.splits if_splits)

text \<open>The position is written, and the stake moved when nothing speaks against it.\<close>

definition place :: "time \<Rightarrow> pf_account \<Rightarrow> decision_row \<Rightarrow> pf_position \<Rightarrow> portfolio_db \<Rightarrow> portfolio_db" where
  "place now a r p db =
     (let db1 = db\<lparr>positions := positions db @ [p], next_pf_id := Suc (next_pf_id db)\<rparr>
      in if po_rejection_reason p \<noteq> None then db1
         else db1\<lparr>accounts := update_first (\<lambda>x. pa_id x = pa_id a) (lock_stake (po_cash_before p) (po_stake p) now) (accounts db1),
                  entries := entries db1 @ [ledger_entry (lock_stake (po_cash_before p) (po_stake p) now a) (Some (po_id p))
                       ''BET_PLACED'' (- po_stake p) (po_stake p) 0 (''place:'' @ str_uuid (dr_id r)) (decision_available_at r)]\<rparr>)"

definition placed_position ::
  "(string \<Rightarrow> rat option) \<Rightarrow> lab_tables \<Rightarrow> portfolio_db \<Rightarrow> pf_account \<Rightarrow> decision_row \<Rightarrow> ai_action \<Rightarrow> rat \<Rightarrow>
   portfolio_scope \<Rightarrow> snapshot_row \<Rightarrow> pf_position" where
  "placed_position decimal tb db a r action raw_stake sc sn =
     (let odds = selected_odds decimal (sn_payload sn) action (sc_team_a sc) (sc_team_b sc)
      in new_position db a r action sc (money (pa_cash a)) (money raw_stake) odds
           (rejection (find_row (\<lambda>x. rr_map_id x = sc_map_id sc) (tb_results tb)) (decision_available_at r)
              (sn_payload sn) odds (money raw_stake) (money (pa_cash a))))"

lemma open_position_eq:
  "open_position decimal tb db now a r action raw_stake sc sn =
     (let p = placed_position decimal tb db a r action raw_stake sc sn; db2 = place now a r p db
      in if po_rejection_reason p \<noteq> None then (p, db2)
         else case find_row (\<lambda>x. rr_map_id x = sc_map_id sc) (tb_results tb) of
                None \<Rightarrow> (p, db2)
              | Some x \<Rightarrow>
                  (let db3 = snd (settle_map tb db2 now (sc_map_id sc) (rr_winner x) (rr_conflict x) (Some (rr_settled_at x)))
                   in (stored_position p db3, db3)))"
proof -
  define res where "res = find_row (\<lambda>x. rr_map_id x = sc_map_id sc) (tb_results tb)"
  define odds where "odds = selected_odds decimal (sn_payload sn) action (sc_team_a sc) (sc_team_b sc)"
  define why where "why = rejection res (decision_available_at r) (sn_payload sn) odds (money raw_stake) (money (pa_cash a))"
  show ?thesis
    unfolding open_position_def placed_position_def place_def Let_def
      res_def [symmetric] odds_def [symmetric] why_def [symmetric]
    by (cases why; cases res) (simp_all add: new_position_def)
qed

lemma placed_position_fields:
  "po_id (placed_position decimal tb db a r action raw_stake sc sn) = next_pf_id db"
  "po_account_id (placed_position decimal tb db a r action raw_stake sc sn) = pa_id a"
  "po_ai_decision_id (placed_position decimal tb db a r action raw_stake sc sn) = dr_id r"
  "po_stake (placed_position decimal tb db a r action raw_stake sc sn) = money raw_stake"
  "po_cash_before (placed_position decimal tb db a r action raw_stake sc sn) = money (pa_cash a)"
  "po_status (placed_position decimal tb db a r action raw_stake sc sn) =
     (if po_rejection_reason (placed_position decimal tb db a r action raw_stake sc sn) = None then OPEN else REJECTED)"
  by (simp_all add: placed_position_def new_position_def Let_def)

lemma placed_open:
  assumes "po_rejection_reason (placed_position decimal tb db a r action raw_stake sc sn) = None"
  shows "\<exists>odds > 1. po_odds (placed_position decimal tb db a r action raw_stake sc sn) = Some odds"
    and "money raw_stake \<le> money (pa_cash a)"
  using assms selected_odds_gt by (auto simp: placed_position_def new_position_def Let_def rejection_None)

lemma place_ok:
  assumes inv: "pf_inv db" and a: "a \<in> set (accounts db)" and new: "dr_id r \<notin> po_ai_decision_id ` set (positions db)"
    and stake: "0 \<le> raw_stake" and p: "p = placed_position decimal tb db a r action raw_stake sc sn"
  shows "pf_inv (place now a r p db)"
proof -
  have bal: "balances_ok db" and risk: "\<forall>a \<in> set (accounts db). risk_ok a" using inv by (simp_all add: pf_inv_def)
  let ?db = "place now a r p db" and ?f = "lock_stake (po_cash_before p) (po_stake p) now"
  let ?e = "ledger_entry (?f a) (Some (po_id p)) ''BET_PLACED'' (- po_stake p) (po_stake p) 0
              (''place:'' @ str_uuid (dr_id r)) (decision_available_at r)"
  note pf = placed_position_fields [of decimal tb db a r action raw_stake sc sn, folded p]
  have row: "find_row (\<lambda>x. pa_id x = pa_id a) (accounts db) = Some a"
    by (rule find_row_unique [OF balances_okD(1) [OF bal] a]) simp_all
  have aok: "account_ok db a" "pa_id a < next_pf_id db" using balances_okD(4,5) [OF bal a] by simp_all
  note c = account_ok_cents [OF aok(1)]
  have st: "cents (po_stake p)" "0 \<le> po_stake p" "po_cash_before p = pa_cash a" using stake c by (simp_all add: pf)
  have pos: "positions ?db = positions db @ [p]" "next_pf_id ?db = Suc (next_pf_id db)" by (simp_all add: place_def Let_def)
  have fresh: "po_id p \<notin> po_id ` set (positions db)"
    using balances_okD(6) [OF bal] by (fastforce simp: pf position_ok_def)
  have stakes: "open_stake ?db i = open_stake db i + (if i = pa_id a \<and> po_rejection_reason p = None then po_stake p else 0)" for i
    by (simp add: open_stake_def pos pf)
  have "account_ok ?db b \<and> risk_ok b \<and> pa_id b < next_pf_id db" if b: "b \<in> set (accounts ?db)" for b
  proof (cases "po_rejection_reason p = None")
    case False
    then have same: "accounts ?db = accounts db" "entries ?db = entries db" by (auto simp: place_def Let_def)
    then show ?thesis
      using b risk balances_okD(4,5) [OF bal, of b] stakes False by (simp add: account_ok_def entry_sum_def)
  next
    case True
    have le: "po_stake p \<le> pa_cash a" using placed_open(2) [OF True [unfolded p]] st by (simp add: pf)
    have acc: "accounts ?db = update_first (\<lambda>x. pa_id x = pa_id a) ?f (accounts db)" "entries ?db = entries db @ [?e]"
      using True by (simp_all add: place_def Let_def)
    have eqs: "cents (pa_cash a - po_stake p)" "cents (pa_locked a + po_stake p)" using c st by simp_all
    have fa: "pa_cash (?f a) = pa_cash a - po_stake p" "pa_locked (?f a) = pa_locked a + po_stake p"
      using eqs st by (simp_all add: lock_stake_def)
    have ok: "\<forall>a \<in> set (accounts ?db). pa_id a < next_pf_id db \<and> account_ok ?db a"
      by (rule booked [OF bal row acc])
        (use st le fa in \<open>simp_all add: stakes True, simp_all add: ledger_entry_def lock_stake_def\<close>)
    have "risk_ok b"
    proof (cases "b = ?f a")
      case True
      have "pa_peak_equity b = pa_peak_equity a" "pa_max_drawdown b = pa_max_drawdown a"
        using True by (simp_all add: lock_stake_def)
      then show ?thesis using fa bspec [OF risk a] unfolding True risk_ok_def by simp
    next
      case False
      then show ?thesis using update_first_in [OF b [unfolded acc] row] risk by simp
    qed
    then show ?thesis using ok b by simp
  qed
  moreover have "map pa_id (accounts ?db) = map pa_id (accounts db)"
    by (auto simp: place_def Let_def lock_stake_def intro!: map_update_first)
  moreover have "position_ok ?db q" if "q \<in> set (positions ?db)" for q
  proof (cases "q = p")
    case True
    have "po_status p = OPEN \<longrightarrow> (\<exists>odds > 1. po_odds p = Some odds)"
      using placed_open(1) pf(6) unfolding p by (metis position_status.distinct(1))
    then show ?thesis using True st a set_pa_ids [OF \<open>map pa_id (accounts ?db) = map pa_id (accounts db)\<close>]
      by (simp add: position_ok_def pf pos)
  next
    case False
    then show ?thesis
      using that balances_okD(6) [OF bal, of q] set_pa_ids [OF \<open>map pa_id (accounts ?db) = map pa_id (accounts db)\<close>]
      by (auto simp: position_ok_def pos)
  qed
  moreover have "\<forall>e \<in> set (entries ?db). pl_account_id e < next_pf_id ?db"
    using balances_okD(7) [OF bal] aok(2)
    by (auto simp: place_def Let_def ledger_entry_def lock_stake_def intro: less_SucI)
  ultimately show ?thesis
    using balances_okD(1,2,3) [OF bal] fresh new
    unfolding pf_inv_def balances_ok_def by (simp add: pos pf less_SucI)
qed

lemma open_position_ok:
  assumes "pf_inv db" "a \<in> set (accounts db)" "dr_id r \<notin> po_ai_decision_id ` set (positions db)" "0 \<le> raw_stake"
    and "open_position decimal tb db now a r action raw_stake sc sn = (p, db')"
  shows "pf_inv db'"
  using place_ok [OF assms(1-4) refl, of now decimal tb action sc sn] settle_map_ok(1) assms(5)
  by (auto simp: open_position_eq Let_def split: option.splits if_splits)

lemma record_cases:
  assumes "record_decision_position decimal bankroll tb db now r scope = Inr (p, db')"
  obtains "db' = db" "p = find_row (\<lambda>p. po_ai_decision_id p = dr_id r) (positions db) \<or> p = None"
  | action stake sc sn a db1 q where "p = Some q" "dr_action r = Some action" "dr_stake r = Some stake" "0 < stake"
      "find_row (\<lambda>p. po_ai_decision_id p = dr_id r) (positions db) = None"
      "position_scope tb r scope = Some sc"
      "find_row (\<lambda>s. sn_id s = dr_snapshot_id r) (tb_snapshots tb) = Some sn"
      "ensure_account bankroll tb db now (sc_event_id sc) (dr_experiment r) (Some (sn_decision_at sn)) = (a, db1)"
      "open_position decimal tb db1 now a r action stake sc sn = (q, db')"
  using assms
  by (fastforce simp: record_decision_position_def not_le split: if_splits option.splits prod.splits)

lemma record_ok:
  assumes "pf_inv db" and "0 \<le> bankroll" and rec: "record_decision_position decimal bankroll tb db now r scope = Inr (p, db')"
  shows "pf_inv db'"
  using rec
proof (cases rule: record_cases)
  case (2 action stake sc sn a db1 q)
  note e = ensure_account_ok [OF assms(1,2) 2(8)]
  have "dr_id r \<notin> po_ai_decision_id ` set (positions db1)" using 2(5) e by (auto simp: find_row_None_iff)
  then show ?thesis using open_position_ok 2(4,9) e by (metis less_imp_le)
qed (use assms in simp)

subsection \<open>Reachable states\<close>

text \<open>The calls of the service: funding when a context is asked for, a decision recorded, a map settled,
  each with any contents of the other tables and at any time.\<close>

inductive pf_step :: "(string \<Rightarrow> rat option) \<Rightarrow> rat \<Rightarrow> portfolio_db \<Rightarrow> portfolio_db \<Rightarrow> bool"
  for decimal bankroll db where
  fund: "context_for_scope bankroll tb db now sc x reference = (c, db') \<Longrightarrow> pf_step decimal bankroll db db'"
| place: "record_decision_position decimal bankroll tb db now r scope = Inr (p, db') \<Longrightarrow> pf_step decimal bankroll db db'"
| settle: "settle_map tb db now m w conflict stamp = (n, db') \<Longrightarrow> pf_step decimal bankroll db db'"

inductive pf_reachable :: "(string \<Rightarrow> rat option) \<Rightarrow> rat \<Rightarrow> portfolio_db \<Rightarrow> bool" for decimal bankroll where
  empty_tables: "pf_reachable decimal bankroll \<lparr>accounts = [], positions = [], entries = [], next_pf_id = 0\<rparr>"
| next_call: "pf_reachable decimal bankroll db \<Longrightarrow> pf_step decimal bankroll db db' \<Longrightarrow> pf_reachable decimal bankroll db'"

lemma pf_step_ok:
  assumes "pf_step decimal bankroll db db'" and "pf_inv db" and "0 \<le> bankroll"
  shows "pf_inv db'"
  using assms(1)
proof (cases rule: pf_step.cases)
  case (fund tb now snapshot_id x c)
  then show ?thesis using assms(2) ensure_account_ok [OF assms(2,3)]
    by (auto simp: context_for_scope_def split: option.splits prod.splits)
next
  case (place tb now r p)
  then show ?thesis using record_ok [OF assms(2,3)] by blast
next
  case (settle tb now m w conflict stamp n)
  then show ?thesis using settle_map_ok(1) [OF assms(2)] by (metis snd_conv)
qed

lemma pf_reachable_inv: "pf_reachable decimal bankroll db \<Longrightarrow> 0 \<le> bankroll \<Longrightarrow> pf_inv db"
proof (induction rule: pf_reachable.induct)
  case empty_tables
  show ?case by (simp add: pf_inv_def balances_ok_def)
qed (rule pf_step_ok)

text \<open>C14. Money is conserved: in every state the service can reach, each account's cash is never
  negative, the locked balance is exactly the sum of its open stakes, cash plus locked is the initial
  bankroll plus realised profit, all three balances are the sums of the audit ledger, and the recorded
  peak and drawdown bound the current equity.\<close>

theorem bankroll_is_conserved:
  assumes "pf_reachable decimal bankroll db" and "0 < bankroll" and "a \<in> set (accounts db)"
  shows "0 \<le> pa_cash a \<and> pa_locked a = open_stake db (pa_id a) \<and>
    pa_cash a + pa_locked a = pa_initial a + pa_realized_pnl a \<and>
    pa_cash a = entry_sum pl_cash_delta db (pa_id a) \<and> pa_locked a = entry_sum pl_locked_delta db (pa_id a) \<and>
    pa_realized_pnl a = entry_sum pl_realized_pnl_delta db (pa_id a) \<and>
    pa_cash a + pa_locked a \<le> pa_peak_equity a \<and>
    pa_peak_equity a - (pa_cash a + pa_locked a) \<le> pa_max_drawdown a"
proof -
  have "pf_inv db" by (rule pf_reachable_inv [OF assms(1)]) (use assms(2) in simp)
  then have "account_ok db a" "risk_ok a" using assms(3) by (simp_all add: pf_inv_def balances_ok_def)
  then show ?thesis by (simp add: account_ok_def risk_ok_def)
qed

lemma map_settles_exactly_once_lemma:
  assumes "pf_reachable decimal bankroll db" and "0 < bankroll" and "series_of_map tb m = Some s"
    and "settle_map tb db now m winner conflict (Some stamp) = (n, db')"
  shows "positions db' = map (\<lambda>p. if open_on m p then settled_position s winner conflict stamp p else p) (positions db) \<and>
    n = length (filter (open_on m) (positions db)) \<and>
    settle_map tb db' later m winner' conflict' stamp' = (0, db')"
proof -
  have inv: "pf_inv db" by (rule pf_reachable_inv [OF assms(1)]) (use assms(2) in simp)
  note ok = settle_map_ok(2) [OF inv assms(3), of now winner conflict "Some stamp"]
  have p: "positions db' = map (\<lambda>p. if open_on m p then settled_position s winner conflict stamp p else p) (positions db)"
    and n: "n = length (filter (open_on m) (positions db))"
    using ok assms(4) by simp_all
  have "filter (open_on m) (positions db') = []" unfolding p by (auto simp: filter_empty_conv)
  then have "settle_map tb db' later m winner' conflict' stamp' = (0, db')"
    by (simp add: settle_map_def split: option.split)
  with p n show ?thesis by simp
qed

text \<open>C15. A map is settled exactly once: settling closes each open position of the map with the
  computed outcome and no other position, returns how many it closed, and settling again, at any time
  and with any result, changes nothing and returns zero.\<close>

theorem map_settles_exactly_once:
  assumes "pf_reachable decimal bankroll db" and "0 < bankroll" and "series_of_map tb m = Some s"
    and "settle_map tb db now m winner conflict (Some stamp) = (n, db')"
  shows "positions db' = map (\<lambda>p. if open_on m p then settled_position s winner conflict stamp p else p) (positions db) \<and>
    n = length (filter (open_on m) (positions db)) \<and>
    settle_map tb db' later m winner' conflict' stamp' = (0, db')"
  by (rule map_settles_exactly_once_lemma [OF assms])

lemma settle_map_shape:
  assumes "pf_inv db"
  shows "\<exists>f. positions (snd (settle_map tb db now m w c stamp)) = map f (positions db) \<and>
    (\<forall>q. po_id (f q) = po_id q \<and> po_ai_decision_id (f q) = po_ai_decision_id q \<and> po_action (f q) = po_action q \<and>
         po_stake (f q) = po_stake q \<and> po_odds (f q) = po_odds q \<and> po_rejection_reason (f q) = po_rejection_reason q)"
proof (cases "series_of_map tb m")
  case None
  then show ?thesis using settle_map_ok(3) [OF assms None] by (auto intro!: exI [of _ "\<lambda>q. q"])
next
  case (Some s)
  let ?f = "\<lambda>q. if open_on m q then settled_position s w c (case stamp of None \<Rightarrow> now | Some t \<Rightarrow> t) q else q"
  have "po_odds (settled_position s w c t q) = po_odds q \<and> po_action (settled_position s w c t q) = po_action q \<and>
      po_rejection_reason (settled_position s w c t q) = po_rejection_reason q" for t q
    by (simp add: settled_position_def close_position_def split: prod.split)
  then show ?thesis using settle_map_ok(2) [OF assms Some, of now w c stamp] by (intro exI [of _ ?f]) simp
qed

lemma open_position_result:
  assumes inv: "pf_inv db" and a: "a \<in> set (accounts db)" and new: "dr_id r \<notin> po_ai_decision_id ` set (positions db)"
    and stake: "0 \<le> raw_stake" and o: "open_position decimal tb db now a r action raw_stake sc sn = (p, db')"
  defines "p0 \<equiv> placed_position decimal tb db a r action raw_stake sc sn"
  shows "p \<in> set (positions db') \<and> po_ai_decision_id p = dr_id r \<and> po_rejection_reason p = po_rejection_reason p0 \<and>
    po_stake p = po_stake p0 \<and> po_odds p = po_odds p0 \<and>
    (po_rejection_reason p0 \<noteq> None \<longrightarrow> p = p0 \<and> accounts db' = accounts db \<and> entries db' = entries db)"
proof -
  let ?db = "place now a r p0 db"
  have inv2: "pf_inv ?db" by (rule place_ok [OF inv a new stake p0_def [THEN meta_eq_to_obj_eq]])
  have pos: "positions ?db = positions db @ [p0]" by (simp add: place_def Let_def)
  note d = placed_position_fields [of decimal tb db a r action raw_stake sc sn, folded p0_def]
  let ?res = "find_row (\<lambda>x. rr_map_id x = sc_map_id sc) (tb_results tb)"
  note o' = o [unfolded open_position_eq, folded p0_def]
  show ?thesis
  proof (cases "po_rejection_reason p0 \<noteq> None")
    case True
    then have "p = p0" "db' = ?db" using o' by (auto simp: Let_def)
    then show ?thesis using True pos d by (auto simp: place_def Let_def)
  next
    case False
    show ?thesis
    proof (cases ?res)
      case None
      then have "p = p0" "db' = ?db" using o' False by (auto simp: Let_def)
      then show ?thesis using False pos d by simp
    next
      case (Some x)
      let ?db3 = "snd (settle_map tb ?db now (sc_map_id sc) (rr_winner x) (rr_conflict x) (Some (rr_settled_at x)))"
      have res: "p = stored_position p0 ?db3" "db' = ?db3" using o' False Some by (auto simp: Let_def)
      obtain f where f: "positions ?db3 = map f (positions ?db)"
        "\<And>q. po_id (f q) = po_id q \<and> po_ai_decision_id (f q) = po_ai_decision_id q \<and> po_stake (f q) = po_stake q \<and>
             po_odds (f q) = po_odds q \<and> po_rejection_reason (f q) = po_rejection_reason q"
        using settle_map_shape [OF inv2] by blast
      have ids: "map po_id (positions ?db3) = map po_id (positions ?db)" using f by (simp add: f(1))
      have "distinct (map po_id (positions ?db3))"
        using inv2 unfolding ids by (simp add: pf_inv_def balances_ok_def)
      then have "find_row (\<lambda>q. po_id q = po_id p0) (positions ?db3) = Some (f p0)"
        using f(2) by (intro find_row_unique [where key = po_id]) (simp_all add: f(1) pos)
      then have "p = f p0" by (simp add: res stored_position_def)
      then show ?thesis using f(2) [of p0] d False by (simp add: res(2) f(1) pos)
    qed
  qed
qed

text \<open>C16. A BUY decision opens a bet only when it could be executed: the first time a decision is
  recorded, either its position is rejected and neither a balance nor the ledger changes beyond the
  funding of the account, or the map's result was not usable yet when the decision became available,
  the snapshot and its market were executable, the odds exceed one and the stake is covered by the cash.
  Recording the decision again returns the stored position and changes nothing.\<close>

theorem bets_are_executable_and_recorded_once:
  assumes "pf_reachable decimal bankroll db" and "0 < bankroll"
    and "record_decision_position decimal bankroll tb db now r scope = Inr (Some p, db')"
    and "find_row (\<lambda>p. po_ai_decision_id p = dr_id r) (positions db) = None"
    and "position_scope tb r scope = Some sc"
    and "find_row (\<lambda>s. sn_id s = dr_snapshot_id r) (tb_snapshots tb) = Some sn"
    and "ensure_account bankroll tb db now (sc_event_id sc) (dr_experiment r) (Some (sn_decision_at sn)) = (a, db1)"
  shows "(if po_rejection_reason p \<noteq> None
          then po_status p = REJECTED \<and> accounts db' = accounts db1 \<and> entries db' = entries db1
          else (\<forall>x. find_row (\<lambda>x. rr_map_id x = sc_map_id sc) (tb_results tb) = Some x \<longrightarrow>
                  decision_available_at r < rr_basic_first_usable_at x) \<and>
               execution_quality_rejection (sn_payload sn) = None \<and>
               (\<exists>odds > 1. po_odds p = Some odds) \<and> 0 \<le> po_stake p \<and> po_stake p \<le> pa_cash a) \<and>
    (\<exists>q. record_decision_position decimal bankroll tb db' later r scope = Inr (Some q, db') \<and>
         po_ai_decision_id q = dr_id r \<and> q \<in> set (positions db'))"
proof -
  have inv: "pf_inv db" by (rule pf_reachable_inv [OF assms(1)]) (use assms(2) in simp)
  from assms(3) show ?thesis
  proof (cases rule: record_cases)
    case 1
    then show ?thesis using assms(4) by simp
  next
    case (2 action stake sc' sn' a' db1' q)
    then have eqs: "sc' = sc" "sn' = sn" "a' = a" "db1' = db1" "q = p" using assms(5-7) by simp_all
    have "0 \<le> bankroll" using assms(2) by simp
    note e = ensure_account_ok [OF inv this assms(7)]
    have new: "dr_id r \<notin> po_ai_decision_id ` set (positions db1)" using assms(4) e by (auto simp: find_row_None_iff)
    define p0 where "p0 = placed_position decimal tb db1 a r action stake sc sn"
    note d = placed_position_fields [of decimal tb db1 a r action stake sc sn, folded p0_def]
    have o: "open_position decimal tb db1 now a r action stake sc sn = (p, db')" using 2(9) by (simp only: eqs)
    have res: "p \<in> set (positions db') \<and> po_ai_decision_id p = dr_id r \<and> po_rejection_reason p = po_rejection_reason p0 \<and>
        po_stake p = po_stake p0 \<and> po_odds p = po_odds p0 \<and>
        (po_rejection_reason p0 \<noteq> None \<longrightarrow> p = p0 \<and> accounts db' = accounts db1 \<and> entries db' = entries db1)"
      unfolding p0_def by (rule open_position_result [OF _ _ new _ o]) (use e 2(4) in simp_all)
    obtain q where q: "find_row (\<lambda>p. po_ai_decision_id p = dr_id r) (positions db') = Some q"
      using find_row_ex [where P = "\<lambda>p. po_ai_decision_id p = dr_id r"] res by blast
    have "record_decision_position decimal bankroll tb db' later r scope = Inr (Some q, db')"
      using assms(3,4) q by (auto simp: record_decision_position_def split: if_splits option.splits)
    moreover have "cents (pa_cash a)"
      using e account_ok_cents by (auto simp: pf_inv_def balances_ok_def)
    then have "po_rejection_reason p0 = None \<longrightarrow>
        (\<forall>x. find_row (\<lambda>x. rr_map_id x = sc_map_id sc) (tb_results tb) = Some x \<longrightarrow>
             decision_available_at r < rr_basic_first_usable_at x) \<and>
        execution_quality_rejection (sn_payload sn) = None \<and> (\<exists>odds > 1. po_odds p0 = Some odds) \<and> po_stake p0 \<le> pa_cash a"
      using placed_open [of decimal tb db1 a r action stake sc sn, folded p0_def] d
      by (auto simp: p0_def placed_position_def new_position_def Let_def rejection_None)
    moreover have "0 \<le> po_stake p0" using 2(4) by (simp add: d)
    ultimately show ?thesis using res d(6) find_row_SomeD [OF q] by auto
  qed
qed
subsection \<open>A sample event\<close>

text \<open>One map of one series, a snapshot with an executable market, and one BUY decision.\<close>

definition sample_tables :: lab_tables where
  "sample_tables =
     \<lparr>tb_maps = [(5, Some 3)], tb_series = [\<lparr>sx_id = 3, sx_event_id = Some 1, sx_team_a = 10, sx_team_b = 11\<rparr>],
      tb_events = [(1, None)],
      tb_snapshots = [\<lparr>sn_id = 7, sn_map_id = Some 5, sn_decision_at = 50,
        sn_payload = [(''quality'', JObj [(''eligible'', JBool True)]),
                      (''market'', JObj [(''quality'', JObj [(''eligible'', JBool True)]),
                         (''observations'', JList [JObj [(''selection_team_id'', JStr (str_uuid 10)), (''price'', JInt 2)]])])]\<rparr>],
      tb_results = []\<rparr>"

definition sample_decision :: decision_row where
  "sample_decision =
     \<lparr>dr_id = 21, dr_snapshot_id = 7, dr_experiment = (''p'', ''m'', ''v'', ''d'', ''a'', ''e''), dr_parse_status = ''SUCCESS'',
      dr_action = Some BUY_A, dr_stake = Some 100, dr_request_started_at = 60, dr_decision_persisted_at = Some 70,
      dr_response_received_at = Some 65\<rparr>"

definition no_rows :: portfolio_db where
  "no_rows = \<lparr>accounts = [], positions = [], entries = [], next_pf_id = 0\<rparr>"

definition sample_placed :: "pf_position option \<times> portfolio_db" where
  "sample_placed = projr (record_decision_position (\<lambda>s. None) 10000 sample_tables no_rows 80 sample_decision None)"

lemma sample_recorded:
  "record_decision_position (\<lambda>s. None) 10000 sample_tables no_rows 80 sample_decision None = Inr sample_placed"
  by (simp add: sample_placed_def sample_tables_def sample_decision_def no_rows_def record_decision_position_def
      position_scope_def scope_for_snapshot_def ensure_account_def open_position_def Let_def)

lemma sample_scope:
  "scope_for_snapshot sample_tables 7 =
     Some \<lparr>sc_event_id = 1, sc_series_id = 3, sc_map_id = 5, sc_team_a = 10, sc_team_b = 11\<rparr>"
  by (simp add: sample_tables_def scope_for_snapshot_def)

lemma sample_accounts: "map (\<lambda>a. (pa_cash a, pa_locked a)) (accounts (snd sample_placed)) = [(9900, 100)]"
  by code_simp

lemma sample_reachable: "pf_reachable (\<lambda>s. None) 10000 (snd sample_placed)"
proof -
  have "pf_step (\<lambda>s. None) 10000 no_rows (snd sample_placed)"
    by (rule pf_step.place [where p = "fst sample_placed" and tb = sample_tables and now = 80 and r = sample_decision and scope = None])
      (simp add: sample_recorded)
  from pf_reachable.next_call [OF pf_reachable.empty_tables this [unfolded no_rows_def]] show ?thesis .
qed

lemma sample_account_ex: "accounts (snd sample_placed) \<noteq> []"
  using sample_accounts by auto

theorem bankroll_is_conserved_witness:
  "let a = hd (accounts (snd sample_placed)) in pa_locked a = 100 \<and> open_stake (snd sample_placed) (pa_id a) = 100 \<and>
     pa_cash a + pa_locked a = pa_initial a + pa_realized_pnl a"
proof -
  let ?a = "hd (accounts (snd sample_placed))"
  have "?a \<in> set (accounts (snd sample_placed))" using sample_account_ex by simp
  note this [THEN bankroll_is_conserved [OF sample_reachable, rotated]]
  moreover have "pa_locked ?a = 100" using sample_accounts by (cases "accounts (snd sample_placed)") auto
  ultimately show ?thesis by (simp add: Let_def)
qed

lemma sample_series:
  "series_of_map sample_tables 5 = Some \<lparr>sx_id = 3, sx_event_id = Some 1, sx_team_a = 10, sx_team_b = 11\<rparr>"
  by (simp add: series_of_map_def sample_tables_def)

definition sample_settled :: "nat \<times> portfolio_db" where
  "sample_settled = settle_map sample_tables (snd sample_placed) 90 5 (Some 10) False (Some 88)"

theorem map_settles_exactly_once_witness:
  "fst sample_settled = 1 \<and> map po_status (positions (snd sample_settled)) = [WON] \<and>
   settle_map sample_tables (snd sample_settled) 95 5 (Some 11) True None = (0, snd sample_settled)"
proof -
  have "settle_map sample_tables (snd sample_placed) 90 5 (Some 10) False (Some 88) = (fst sample_settled, snd sample_settled)"
    by (simp add: sample_settled_def)
  note map_settles_exactly_once [OF sample_reachable _ sample_series this, of 95 "Some 11" True None]
  moreover have "fst sample_settled = 1" by code_simp
  moreover have "map po_status (positions (snd sample_settled)) = [WON]" by code_simp
  ultimately show ?thesis by simp
qed

definition sample_funded :: "pf_account \<times> portfolio_db" where
  "sample_funded = ensure_account 10000 sample_tables no_rows 80 1 (''p'', ''m'', ''v'', ''d'', ''a'', ''e'') (Some 50)"

theorem bets_are_executable_and_recorded_once_witness:
  "\<exists>p q. fst sample_placed = Some p \<and> po_stake p \<le> pa_cash (fst sample_funded) \<and>
     record_decision_position (\<lambda>s. None) 10000 sample_tables (snd sample_placed) 99 sample_decision None =
       Inr (Some q, snd sample_placed) \<and> po_ai_decision_id q = 21"
proof -
  have "map_option po_rejection_reason (fst sample_placed) = Some None" by code_simp
  then obtain p where p: "fst sample_placed = Some p" "po_rejection_reason p = None" by auto
  have r: "record_decision_position (\<lambda>s. None) 10000 sample_tables no_rows 80 sample_decision None = Inr (Some p, snd sample_placed)"
    using sample_recorded p(1) by (metis prod.collapse)
  have reach: "pf_reachable (\<lambda>s. None) 10000 no_rows" unfolding no_rows_def by (rule pf_reachable.empty_tables)
  let ?sn = "hd (tb_snapshots sample_tables)"
  have sc: "position_scope sample_tables sample_decision None =
      Some \<lparr>sc_event_id = 1, sc_series_id = 3, sc_map_id = 5, sc_team_a = 10, sc_team_b = 11\<rparr>"
    using sample_scope by (simp add: position_scope_def sample_decision_def)
  have sn: "find_row (\<lambda>s. sn_id s = dr_snapshot_id sample_decision) (tb_snapshots sample_tables) = Some ?sn"
    by (simp add: sample_tables_def sample_decision_def)
  have e: "ensure_account 10000 sample_tables no_rows 80 (sc_event_id \<lparr>sc_event_id = 1, sc_series_id = 3, sc_map_id = 5,
      sc_team_a = 10, sc_team_b = 11\<rparr>) (dr_experiment sample_decision) (Some (sn_decision_at ?sn)) =
      (fst sample_funded, snd sample_funded)"
    by (simp add: sample_funded_def sample_decision_def sample_tables_def)
  have new: "find_row (\<lambda>p. po_ai_decision_id p = dr_id sample_decision) (positions no_rows) = None"
    by (simp add: no_rows_def)
  have "dr_id sample_decision = 21" by (simp add: sample_decision_def)
  moreover have "(0::rat) < 10000" by simp
  note th = bets_are_executable_and_recorded_once [OF reach this r new sc sn e, of 99]
  obtain q where "record_decision_position (\<lambda>s. None) 10000 sample_tables (snd sample_placed) 99 sample_decision None =
      Inr (Some q, snd sample_placed)" "po_ai_decision_id q = dr_id sample_decision"
    using th [THEN conjunct2] by blast
  moreover have "po_stake p \<le> pa_cash (fst sample_funded)" using th [THEN conjunct1] p(2) by simp
  ultimately show ?thesis using p(1) by (intro exI [of _ p] exI [of _ q]) simp
qed

end
