(* ===== verification/SettlementProperties.thy ===== *)
theory SettlementProperties
  imports Settlement EventLog EventProperties PortfolioProperties
begin

text \<open>
  Properties of map settlement: the stored result of a map is a function of the set of valid reports
  about it (their order, their repetition and the clock do not matter), and the settlement job
  closes every open bet with that result, once.
\<close>

subsection \<open>What a set of reports says about a map\<close>

definition valid_report :: "result_report \<Rightarrow> bool" where
  "valid_report r \<longleftrightarrow> 0 \<le> rp_identity_confidence r \<and> rp_identity_confidence r \<le> 1"

definition claimed :: "result_report set \<Rightarrow> uuid \<Rightarrow> uuid set" where
  "claimed R m = {w. \<exists>r \<in> R. rp_map_id r = m \<and> rp_winner r = Some w}"

definition disputed :: "result_report set \<Rightarrow> uuid \<Rightarrow> bool" where
  "disputed R m \<longleftrightarrow>
     (\<exists>r \<in> R. rp_map_id r = m \<and> rp_provider_conflict r) \<or> (\<exists>v \<in> claimed R m. \<exists>w \<in> claimed R m. v \<noteq> w)"

definition first_usable :: "result_report set \<Rightarrow> uuid \<Rightarrow> time" where
  "first_usable R m = Min (rp_basic_first_usable_at ` {r \<in> R. rp_map_id r = m})"

definition advanced_times :: "result_report set \<Rightarrow> uuid \<Rightarrow> time set" where
  "advanced_times R m = {t. \<exists>r \<in> R. rp_map_id r = m \<and> rp_advanced_first_usable_at r = Some t}"

definition verdict :: "result_report set \<Rightarrow> uuid \<Rightarrow> result_row \<Rightarrow> bool" where
  "verdict R m x \<longleftrightarrow>
     rr_map_id x = m \<and> rr_conflict x = disputed R m \<and>
     (\<forall>w. rr_winner x = Some w \<longleftrightarrow> \<not> disputed R m \<and> w \<in> claimed R m) \<and>
     rr_basic_first_usable_at x = first_usable R m \<and>
     rr_advanced_first_usable_at x = (if advanced_times R m = {} then None else Some (Min (advanced_times R m)))"

text \<open>One raw event has one content: the hypothesis under which the order of the reports does not matter.\<close>

definition consistent_reports :: "result_report set \<Rightarrow> bool" where
  "consistent_reports R \<longleftrightarrow>
     (\<forall>r \<in> R. \<forall>s \<in> R. rp_map_id r = rp_map_id s \<and> rp_raw_event_id r = rp_raw_event_id s \<longrightarrow> rp_winner r = rp_winner s)"

definition no_results :: settlement_db where
  "no_results = \<lparr>results = [], evidence = []\<rparr>"

subsection \<open>The tables against the reports\<close>

definition same_report :: "evidence_row \<Rightarrow> result_report \<Rightarrow> bool" where
  "same_report e r \<longleftrightarrow> ed_map_id e = rp_map_id r \<and> ed_raw_event_id e = rp_raw_event_id r \<and> ed_winner e = rp_winner r"

definition settles :: "result_report set \<Rightarrow> settlement_db \<Rightarrow> bool" where
  "settles R db \<longleftrightarrow>
     (\<forall>r \<in> R. \<exists>e \<in> set (evidence db). same_report e r) \<and>
     (\<forall>e \<in> set (evidence db). \<exists>r \<in> R. same_report e r) \<and>
     (\<forall>e \<in> set (evidence db). ed_conflict_status e = DATA_CONFLICT \<longleftrightarrow> disputed R (ed_map_id e)) \<and>
     (\<forall>m. case find_row (\<lambda>x. rr_map_id x = m) (results db) of
            None \<Rightarrow> (\<forall>r \<in> R. rp_map_id r \<noteq> m)
          | Some x \<Rightarrow> (\<exists>r \<in> R. rp_map_id r = m) \<and> verdict R m x)"

lemma settlesD:
  assumes "settles R db"
  shows "find_row (\<lambda>x. rr_map_id x = m) (results db) = None \<Longrightarrow> \<forall>r \<in> R. rp_map_id r \<noteq> m"
    and "find_row (\<lambda>x. rr_map_id x = m) (results db) = Some x \<Longrightarrow> (\<exists>r \<in> R. rp_map_id r = m) \<and> verdict R m x"
proof -
  have "case find_row (\<lambda>x. rr_map_id x = m) (results db) of None \<Rightarrow> (\<forall>r \<in> R. rp_map_id r \<noteq> m)
      | Some x \<Rightarrow> (\<exists>r \<in> R. rp_map_id r = m) \<and> verdict R m x"
    using assms unfolding settles_def by blast
  then show "find_row (\<lambda>x. rr_map_id x = m) (results db) = None \<Longrightarrow> \<forall>r \<in> R. rp_map_id r \<noteq> m"
    and "find_row (\<lambda>x. rr_map_id x = m) (results db) = Some x \<Longrightarrow> (\<exists>r \<in> R. rp_map_id r = m) \<and> verdict R m x"
    by simp_all
qed

lemma set_evidence_winners: "set (evidence_winners es) = {w. \<exists>e \<in> set es. ed_winner e = Some w}"
  by (induction es) (auto split: option.split)

lemma distinct_evidence_winners [simp]: "distinct (evidence_winners es)"
  by (induction es) (auto split: option.split)

lemma many_distinct: "distinct xs \<Longrightarrow> 1 < length xs \<longleftrightarrow> (\<exists>v \<in> set xs. \<exists>w \<in> set xs. v \<noteq> w)"
  by (cases xs rule: remdups_adj.cases) auto

lemma disputed_mono: "R \<subseteq> S \<Longrightarrow> disputed R m \<Longrightarrow> disputed S m"
  unfolding disputed_def claimed_def by blast

lemma add_evidence_rows:
  "set (add_evidence r ev) =
     set ev \<union> (if \<exists>e \<in> set ev. ed_map_id e = rp_map_id r \<and> ed_raw_event_id e = rp_raw_event_id r then {} else {evidence_of r})"
  by (auto simp: add_evidence_def find_row_None_iff split: option.split dest: find_row_SomeD)

lemma evidence_of_fields [simp]:
  "ed_map_id (evidence_of r) = rp_map_id r" "ed_raw_event_id (evidence_of r) = rp_raw_event_id r"
  "ed_winner (evidence_of r) = rp_winner r"
  "ed_conflict_status (evidence_of r) = DATA_CONFLICT \<longleftrightarrow> rp_provider_conflict r"
  by (simp_all add: evidence_of_def)

text \<open>The evidence after a report covers exactly the reports so far.\<close>

lemma added_covers:
  assumes inv: "settles R db" and cons: "consistent_reports (insert r R)"
  shows "(\<forall>q \<in> insert r R. \<exists>e \<in> set (add_evidence r (evidence db)). same_report e q) \<and>
    (\<forall>e \<in> set (add_evidence r (evidence db)). \<exists>q \<in> insert r R. same_report e q)"
proof -
  have old: "\<forall>q \<in> R. \<exists>e \<in> set (evidence db). same_report e q" "\<forall>e \<in> set (evidence db). \<exists>q \<in> R. same_report e q"
    using inv by (simp_all add: settles_def)
  have "\<exists>e \<in> set (add_evidence r (evidence db)). same_report e r"
  proof (cases "\<exists>e \<in> set (evidence db). ed_map_id e = rp_map_id r \<and> ed_raw_event_id e = rp_raw_event_id r")
    case True
    then obtain e where e: "e \<in> set (evidence db)" "ed_map_id e = rp_map_id r" "ed_raw_event_id e = rp_raw_event_id r" by blast
    then obtain q where "q \<in> R" "same_report e q" using old(2) by blast
    then have "same_report e r" using e cons unfolding consistent_reports_def same_report_def by (metis insertCI)
    then show ?thesis using e(1) by (auto simp: add_evidence_rows)
  next
    case False
    then show ?thesis by (auto simp: add_evidence_rows same_report_def)
  qed
  moreover have "same_report (evidence_of r) r" by (simp add: same_report_def)
  ultimately show ?thesis using old unfolding add_evidence_rows by auto
qed

lemma covered_claims:
  assumes "\<forall>q \<in> R. \<exists>e \<in> set ev. same_report e q" and "\<forall>e \<in> set ev. \<exists>q \<in> R. same_report e q"
  shows "set (evidence_winners (filter (\<lambda>e. ed_map_id e = m) ev)) = claimed R m"
  using assms unfolding set_evidence_winners claimed_def same_report_def by fastforce

lemma conflict_is_dispute:
  assumes inv: "settles R db" and cons: "consistent_reports (insert r R)"
  shows "evidence_conflict (rp_provider_conflict r) (filter (\<lambda>e. ed_map_id e = rp_map_id r) (add_evidence r (evidence db))) \<longleftrightarrow>
         disputed (insert r R) (rp_map_id r)"
proof -
  let ?m = "rp_map_id r" and ?R = "insert r R"
  let ?rows = "filter (\<lambda>e. ed_map_id e = ?m) (add_evidence r (evidence db))"
  note cov = added_covers [OF inv cons]
  have claims: "set (evidence_winners ?rows) = claimed ?R ?m" by (rule covered_claims) (use cov in simp_all)
  have many: "1 < length (evidence_winners ?rows) \<longleftrightarrow> (\<exists>v \<in> claimed ?R ?m. \<exists>w \<in> claimed ?R ?m. v \<noteq> w)"
    by (simp only: many_distinct [OF distinct_evidence_winners] claims)
  have I3: "ed_conflict_status e = DATA_CONFLICT \<longleftrightarrow> disputed R (ed_map_id e)" if "e \<in> set (evidence db)" for e
    using inv that by (simp add: settles_def)
  have flag: "disputed ?R ?m" if e: "e \<in> set ?rows" "ed_conflict_status e = DATA_CONFLICT" for e
  proof (cases "e \<in> set (evidence db)")
    case True
    then have "disputed R ?m" using I3 e by simp
    then show ?thesis by (rule disputed_mono [OF subset_insertI])
  next
    case False
    then have "e = evidence_of r" using e(1) by (simp add: add_evidence_rows split: if_splits)
    then have "rp_provider_conflict r" using e(2) by simp
    then show ?thesis by (auto simp: disputed_def)
  qed
  have seen: "\<exists>e \<in> set ?rows. ed_conflict_status e = DATA_CONFLICT"
    if q: "q \<in> R" "rp_map_id q = ?m" "rp_provider_conflict q" for q
  proof -
    have "disputed R ?m" using q by (auto simp: disputed_def)
    moreover obtain e where "e \<in> set (evidence db)" "same_report e q" using inv q(1) by (auto simp: settles_def)
    ultimately show ?thesis using I3 q(2) by (intro bexI [of _ e]) (auto simp: add_evidence_rows same_report_def)
  qed
  show ?thesis
    unfolding evidence_conflict_def many using flag seen by (auto simp: disputed_def)
qed

lemma resolved_is_claim:
  assumes "set (evidence_winners rows) = claimed R m" and "conflict \<longleftrightarrow> disputed R m"
  shows "resolved_winner conflict rows = Some w \<longleftrightarrow> \<not> disputed R m \<and> w \<in> claimed R m"
proof (cases "evidence_winners rows")
  case Nil
  then show ?thesis using assms by (simp add: resolved_winner_def)
next
  case (Cons v vs)
  show ?thesis
  proof (cases vs)
    case Nil
    then show ?thesis using Cons assms by (auto simp: resolved_winner_def)
  next
    case (Cons u us)
    have "distinct (evidence_winners rows)" by simp
    then have "u \<noteq> v" "{u, v} \<subseteq> claimed R m"
      using assms(1) Cons \<open>evidence_winners rows = v # vs\<close> by auto
    then have "disputed R m" unfolding disputed_def by blast
    then show ?thesis using Cons \<open>evidence_winners rows = v # vs\<close> by (simp add: resolved_winner_def)
  qed
qed

lemma other_map:
  assumes "rp_map_id r \<noteq> m"
  shows "claimed (insert r R) m = claimed R m" "disputed (insert r R) m = disputed R m"
    "first_usable (insert r R) m = first_usable R m" "advanced_times (insert r R) m = advanced_times R m"
proof -
  have "{q \<in> insert r R. rp_map_id q = m} = {q \<in> R. rp_map_id q = m}" using assms by auto
  then show "first_usable (insert r R) m = first_usable R m" by (simp only: first_usable_def)
  show c: "claimed (insert r R) m = claimed R m" using assms by (auto simp: claimed_def)
  show "disputed (insert r R) m = disputed R m" using assms by (auto simp: disputed_def c)
  show "advanced_times (insert r R) m = advanced_times R m" using assms by (auto simp: advanced_times_def)
qed

lemma first_usable_insert:
  assumes "finite R"
  shows "first_usable (insert r R) (rp_map_id r) =
    (if \<exists>q \<in> R. rp_map_id q = rp_map_id r then min (first_usable R (rp_map_id r)) (rp_basic_first_usable_at r)
     else rp_basic_first_usable_at r)"
proof -
  let ?Q = "{q \<in> R. rp_map_id q = rp_map_id r}"
  have "{q \<in> insert r R. rp_map_id q = rp_map_id r} = insert r ?Q" by auto
  then have eq: "first_usable (insert r R) (rp_map_id r) = Min (insert (rp_basic_first_usable_at r) (rp_basic_first_usable_at ` ?Q))"
    by (simp only: first_usable_def image_insert)
  show ?thesis
  proof (cases "\<exists>q \<in> R. rp_map_id q = rp_map_id r")
    case True
    then have "?Q \<noteq> {}" by auto
    then have "Min (insert (rp_basic_first_usable_at r) (rp_basic_first_usable_at ` ?Q)) =
        min (rp_basic_first_usable_at r) (Min (rp_basic_first_usable_at ` ?Q))"
      using assms by (intro Min_insert) simp_all
    then show ?thesis using True by (simp only: eq first_usable_def [of R] if_True min.commute)
  next
    case False
    then have none: "?Q = {}" by auto
    show ?thesis using False by (simp only: eq none image_empty Min_singleton if_False)
  qed
qed

lemma advanced_insert:
  "advanced_times (insert r R) (rp_map_id r) =
     (case rp_advanced_first_usable_at r of None \<Rightarrow> advanced_times R (rp_map_id r) | Some t \<Rightarrow> insert t (advanced_times R (rp_map_id r)))"
  by (auto simp: advanced_times_def split: option.split)

lemma finite_advanced: "finite R \<Longrightarrow> finite (advanced_times R m)"
proof -
  assume "finite R"
  moreover have "advanced_times R m \<subseteq> (\<lambda>r. the (rp_advanced_first_usable_at r)) ` R"
    by (force simp: advanced_times_def image_iff)
  ultimately show ?thesis by (blast intro: finite_subset)
qed

text \<open>The written row says what the reports say.\<close>

lemma written_verdict:
  assumes inv: "settles R db" and cons: "consistent_reports (insert r R)" and fin: "finite R"
    and s: "settle db now r = Inr (x, db')"
  shows "verdict (insert r R) (rp_map_id r) x"
proof -
  let ?m = "rp_map_id r" and ?R = "insert r R"
  let ?rows = "filter (\<lambda>e. ed_map_id e = ?m) (add_evidence r (evidence db))"
  define c where "c = evidence_conflict (rp_provider_conflict r) ?rows"
  define w where "w = resolved_winner c ?rows"
  have cov: "set (evidence_winners ?rows) = claimed ?R ?m"
    using added_covers [OF inv cons] by (intro covered_claims) simp_all
  have c_eq: "c \<longleftrightarrow> disputed ?R ?m" unfolding c_def by (rule conflict_is_dispute [OF inv cons])
  have w_eq: "w = Some v \<longleftrightarrow> \<not> disputed ?R ?m \<and> v \<in> claimed ?R ?m" for v
    unfolding w_def by (rule resolved_is_claim [OF cov c_eq])
  show ?thesis
  proof (cases "find_row (\<lambda>x. rr_map_id x = ?m) (results db)")
    case None
    then have none: "\<forall>q \<in> R. rp_map_id q \<noteq> ?m" by (rule settlesD(1) [OF inv])
    then have adv: "advanced_times R ?m = {}" by (auto simp: advanced_times_def)
    have "x = new_result now c w r"
      using s None by (auto simp: settle_def Let_def c_def w_def split: if_splits)
    then show ?thesis using none c_eq w_eq adv first_usable_insert [OF fin, of r] advanced_insert [of r R]
      by (auto simp: verdict_def new_result_def split: option.splits)
  next
    case (Some y)
    then have y: "\<exists>q \<in> R. rp_map_id q = ?m" "verdict R ?m y"
      using settlesD(2) [OF inv Some] by simp_all
    have x: "x = refresh_result c w r y"
      using s Some by (auto simp: settle_def Let_def c_def w_def split: if_splits)
    have "rr_advanced_first_usable_at x = (if advanced_times ?R ?m = {} then None else Some (Min (advanced_times ?R ?m)))"
    proof (cases "rp_advanced_first_usable_at r")
      case None
      then show ?thesis using y(2) by (simp add: x refresh_result_def verdict_def advanced_insert)
    next
      case (Some t)
      then show ?thesis
        using y(2) finite_advanced [OF fin, of ?m]
        by (auto simp: x refresh_result_def verdict_def advanced_insert min.commute)
    qed
    then show ?thesis using y c_eq w_eq first_usable_insert [OF fin, of r]
      by (simp add: verdict_def x refresh_result_def)
  qed
qed

lemma settle_writes:
  assumes "settle db now r = Inr (x, db')"
  shows "valid_report r"
    and "evidence db' = update_where (\<lambda>e. ed_map_id e = rp_map_id r)
           (\<lambda>e. e\<lparr>ed_conflict_status := (if evidence_conflict (rp_provider_conflict r)
              (filter (\<lambda>e. ed_map_id e = rp_map_id r) (add_evidence r (evidence db))) then DATA_CONFLICT else CONFIRMED)\<rparr>)
           (add_evidence r (evidence db))"
    and "rr_map_id x = rp_map_id r \<Longrightarrow>
         find_row (\<lambda>y. rr_map_id y = m) (results db') =
           (if m = rp_map_id r then Some x else find_row (\<lambda>y. rr_map_id y = m) (results db))"
proof -
  show "valid_report r" using assms by (simp add: settle_def valid_report_def split: if_splits)
  show "evidence db' = update_where (\<lambda>e. ed_map_id e = rp_map_id r)
           (\<lambda>e. e\<lparr>ed_conflict_status := (if evidence_conflict (rp_provider_conflict r)
              (filter (\<lambda>e. ed_map_id e = rp_map_id r) (add_evidence r (evidence db))) then DATA_CONFLICT else CONFIRMED)\<rparr>)
           (add_evidence r (evidence db))"
    using assms by (auto simp: settle_def Let_def split: if_splits option.splits)
  assume m: "rr_map_id x = rp_map_id r"
  show "find_row (\<lambda>y. rr_map_id y = m) (results db') =
      (if m = rp_map_id r then Some x else find_row (\<lambda>y. rr_map_id y = m) (results db))"
  proof (cases "find_row (\<lambda>y. rr_map_id y = rp_map_id r) (results db)")
    case None
    then have "results db' = results db @ [x]" using assms by (auto simp: settle_def Let_def split: if_splits)
    then show ?thesis using None m by (auto split: option.split)
  next
    case (Some y)
    then obtain c w where x: "x = refresh_result c w r y"
      and res: "results db' = update_first (\<lambda>x. rr_map_id x = rp_map_id r) (refresh_result c w r) (results db)"
      using assms by (auto simp: settle_def Let_def split: if_splits)
    show ?thesis
    proof (cases "m = rp_map_id r")
      case True
      then show ?thesis unfolding res x
        using Some by (subst True, subst find_update_first) (simp_all add: refresh_result_def)
    next
      case False
      then show ?thesis unfolding res by (subst find_update_first_other) (auto simp: refresh_result_def)
    qed
  qed
qed

lemma settle_settles:
  assumes inv: "settles R db" and cons: "consistent_reports (insert r R)" and fin: "finite R"
    and s: "settle db now r = Inr (x, db')"
  shows "settles (insert r R) db'"
proof -
  let ?R = "insert r R" and ?ev = "add_evidence r (evidence db)"
  have v: "verdict ?R (rp_map_id r) x" by (rule written_verdict [OF inv cons fin s])
  note w = settle_writes [OF s]
  note cov = added_covers [OF inv cons]
  let ?c = "evidence_conflict (rp_provider_conflict r) (filter (\<lambda>e. ed_map_id e = rp_map_id r) ?ev)"
  let ?f = "\<lambda>e. e\<lparr>ed_conflict_status := (if ?c then DATA_CONFLICT else CONFIRMED)\<rparr>"
  have ev: "set (evidence db') = {e \<in> set ?ev. ed_map_id e \<noteq> rp_map_id r} \<union> ?f ` {e \<in> set ?ev. ed_map_id e = rp_map_id r}"
    unfolding w(2) by (rule set_update_where)
  have same: "same_report (?f e) q = same_report e q" for e q by (simp add: same_report_def)
  have A: "\<exists>e \<in> set (evidence db'). same_report e q" if q: "q \<in> ?R" for q
  proof -
    obtain e where e: "e \<in> set ?ev" "same_report e q" using cov q by blast
    show ?thesis
    proof (cases "ed_map_id e = rp_map_id r")
      case True
      then show ?thesis using e same unfolding ev by (intro bexI [of _ "?f e"]) auto
    next
      case False
      then show ?thesis using e unfolding ev by (intro bexI [of _ e]) auto
    qed
  qed
  have B: "\<exists>q \<in> ?R. same_report e q" if "e \<in> set (evidence db')" for e
    using that cov same unfolding ev by auto
  have C: "ed_conflict_status e = DATA_CONFLICT \<longleftrightarrow> disputed ?R (ed_map_id e)" if e: "e \<in> set (evidence db')" for e
  proof (cases "ed_map_id e = rp_map_id r")
    case True
    then have "ed_conflict_status e = (if ?c then DATA_CONFLICT else CONFIRMED)" using e unfolding ev by auto
    then show ?thesis using True conflict_is_dispute [OF inv cons] by simp
  next
    case False
    then have "e \<in> set (evidence db)" using e unfolding ev by (auto simp: add_evidence_rows split: if_splits)
    then show ?thesis using inv False other_map(2) [of r "ed_map_id e" R] by (simp add: settles_def)
  qed
  have D: "case find_row (\<lambda>x. rr_map_id x = m) (results db') of None \<Rightarrow> (\<forall>q \<in> ?R. rp_map_id q \<noteq> m)
      | Some x \<Rightarrow> (\<exists>q \<in> ?R. rp_map_id q = m) \<and> verdict ?R m x" for m
  proof (cases "m = rp_map_id r")
    case True
    then show ?thesis using w(3) [of m] v by (auto simp: verdict_def)
  next
    case False
    then have "verdict ?R m y \<longleftrightarrow> verdict R m y" for y by (simp add: verdict_def other_map)
    moreover have "case find_row (\<lambda>x. rr_map_id x = m) (results db) of None \<Rightarrow> (\<forall>q \<in> R. rp_map_id q \<noteq> m)
      | Some x \<Rightarrow> (\<exists>q \<in> R. rp_map_id q = m) \<and> verdict R m x" using inv by (simp add: settles_def)
    ultimately show ?thesis using False w(3) [of m] v by (auto simp: verdict_def split: option.splits)
  qed
  show ?thesis unfolding settles_def using A B C D by blast
qed

subsection \<open>Any sequence of reports\<close>

definition valid_reports :: "(time \<times> result_report) list \<Rightarrow> result_report set" where
  "valid_reports ds = {r \<in> snd ` set ds. valid_report r}"

lemma settle_total: "valid_report r \<Longrightarrow> \<exists>x db'. settle db now r = Inr (x, db')"
  by (auto simp: settle_def valid_report_def Let_def split: option.split)

lemma settle_rejects: "\<not> valid_report r \<Longrightarrow> settle db now r = Inl InvalidIdentityConfidence"
  by (auto simp: settle_def valid_report_def)

lemma deliver_settles:
  "settles R db \<Longrightarrow> finite R \<Longrightarrow> consistent_reports (R \<union> valid_reports ds) \<Longrightarrow>
   settles (R \<union> valid_reports ds) (deliver settle db ds)"
proof (induction ds arbitrary: R db)
  case Nil
  then show ?case by (simp add: valid_reports_def)
next
  case (Cons d ds)
  obtain t r where d: "d = (t, r)" by (cases d)
  show ?case
  proof (cases "valid_report r")
    case False
    then have "valid_reports (d # ds) = valid_reports ds" by (auto simp: valid_reports_def d)
    then show ?thesis using Cons False by (simp add: d deliver1_def settle_rejects)
  next
    case True
    then have eq: "R \<union> valid_reports (d # ds) = insert r R \<union> valid_reports ds" by (auto simp: valid_reports_def d)
    obtain x db' where s: "settle db t r = Inr (x, db')" using settle_total [OF True] by blast
    have "consistent_reports (insert r R)" using Cons.prems(3) unfolding eq by (auto simp: consistent_reports_def)
    then have "settles (insert r R) db'" by (rule settle_settles [OF Cons.prems(1) _ Cons.prems(2) s])
    then show ?thesis using Cons.IH [of "insert r R" db'] Cons.prems(2,3) s unfolding eq by (simp add: d deliver1_def)
  qed
qed

lemma no_results_settles: "settles {} no_results"
  by (simp add: settles_def no_results_def)

lemma deliver_verdict:
  assumes "consistent_reports (valid_reports ds)"
  shows "settles (valid_reports ds) (deliver settle no_results ds)"
  using deliver_settles [OF no_results_settles, of ds] assms by simp

definition result_view :: "result_row \<Rightarrow> uuid option \<times> bool \<times> time \<times> time option" where
  "result_view x = (rr_winner x, rr_conflict x, rr_basic_first_usable_at x, rr_advanced_first_usable_at x)"

lemma verdict_unique:
  assumes "verdict R m x" and "verdict R m y"
  shows "result_view x = result_view y"
proof -
  have "rr_winner x = Some w \<longleftrightarrow> rr_winner y = Some w" for w using assms by (simp add: verdict_def)
  then have "rr_winner x = rr_winner y" by (metis not_Some_eq)
  then show ?thesis using assms by (simp add: verdict_def result_view_def)
qed

text \<open>C26. The stored result of a map is a function of the set of reports about it, provided that the reports are
  consistent: two valid reports of one map under the same raw event name the same winner (or both none).  Then,
  after any sequence of calls of \<open>settle\<close>, there is a result exactly when a report with a valid confidence
  arrived; the conflict flag is set exactly when a report was flagged or two reports name different winners, the
  winner is the one claimed winner exactly when there is no conflict, and the usable times are the earliest
  reported.  Order, repetition and the clock do not matter: another sequence of the same reports stores the same
  result.  The condition is needed: the evidence table keeps the first report of a raw event, so a different
  winner reported later under that raw event is not counted, and the outcome would depend on which came first
  (\<open>repeated_raw_event_is_not_counted\<close>).\<close>

theorem result_is_function_of_reports:
  assumes "consistent_reports (valid_reports ds)"
  shows "(case find_row (\<lambda>x. rr_map_id x = m) (results (deliver settle no_results ds)) of
            None \<Rightarrow> (\<forall>r \<in> valid_reports ds. rp_map_id r \<noteq> m)
          | Some x \<Rightarrow> (\<exists>r \<in> valid_reports ds. rp_map_id r = m) \<and> verdict (valid_reports ds) m x) \<and>
    (snd ` set ds' = snd ` set ds \<longrightarrow>
     map_option result_view (find_row (\<lambda>x. rr_map_id x = m) (results (deliver settle no_results ds'))) =
     map_option result_view (find_row (\<lambda>x. rr_map_id x = m) (results (deliver settle no_results ds))))"
proof (intro conjI impI)
  let ?find = "\<lambda>ds. find_row (\<lambda>x. rr_map_id x = m) (results (deliver settle no_results ds))"
  note ok = deliver_verdict [OF assms]
  show "case ?find ds of None \<Rightarrow> (\<forall>r \<in> valid_reports ds. rp_map_id r \<noteq> m)
      | Some x \<Rightarrow> (\<exists>r \<in> valid_reports ds. rp_map_id r = m) \<and> verdict (valid_reports ds) m x"
    using settlesD [OF ok, of m] by (cases "?find ds") simp_all
  assume "snd ` set ds' = snd ` set ds"
  then have eq: "valid_reports ds' = valid_reports ds" by (simp add: valid_reports_def)
  have ok': "settles (valid_reports ds) (deliver settle no_results ds')"
    using deliver_verdict [of ds'] assms by (simp add: eq)
  show "map_option result_view (?find ds') = map_option result_view (?find ds)"
  proof (cases "?find ds")
    case None
    then have none: "\<forall>r \<in> valid_reports ds. rp_map_id r \<noteq> m" by (rule settlesD(1) [OF ok])
    have "?find ds' = None"
    proof (cases "?find ds'")
      case (Some y)
      then show ?thesis using settlesD(2) [OF ok' Some] none by blast
    qed
    then show ?thesis using None by simp
  next
    case (Some x)
    note x = settlesD(2) [OF ok Some]
    obtain y where y: "?find ds' = Some y"
    proof (cases "?find ds'")
      case None
      then show ?thesis using settlesD(1) [OF ok' None] x by blast
    qed
    note y' = settlesD(2) [OF ok' y]
    have "result_view y = result_view x" by (rule verdict_unique [OF conjunct2 [OF y'] conjunct2 [OF x]])
    then show ?thesis using Some y by simp
  qed
qed

definition sample_report :: "uuid \<Rightarrow> uuid \<Rightarrow> time \<Rightarrow> result_report" where
  "sample_report raw winner at_time =
     \<lparr>rp_map_id = 5, rp_winner = Some winner, rp_provider = ''opendota'', rp_provider_match_id = ''77'',
      rp_observed_at = at_time, rp_basic_first_usable_at = at_time, rp_raw_event_id = raw, rp_normalizer_version = ''v1'',
      rp_identity_confidence = 1, rp_advanced_first_usable_at = None, rp_provider_conflict = False\<rparr>"

theorem result_is_function_of_reports_witness:
  "map_option result_view (find_row (\<lambda>x. rr_map_id x = 5)
      (results (deliver settle no_results [(3, sample_report 2 11 30), (9, sample_report 1 10 20), (9, sample_report 2 11 30)]))) =
   Some (None, True, 20, None)"
proof -
  let ?ds = "[(1, sample_report 1 10 20), (2, sample_report 2 11 30)]"
  let ?ds' = "[(3, sample_report 2 11 30), (9, sample_report 1 10 20), (9, sample_report 2 11 30)]"
  have "consistent_reports (valid_reports ?ds)"
    by (auto simp: consistent_reports_def valid_reports_def valid_report_def sample_report_def)
  moreover have "snd ` set ?ds' = snd ` set ?ds" by auto
  ultimately have "map_option result_view (find_row (\<lambda>x. rr_map_id x = 5) (results (deliver settle no_results ?ds'))) =
      map_option result_view (find_row (\<lambda>x. rr_map_id x = 5) (results (deliver settle no_results ?ds)))"
    using result_is_function_of_reports [of ?ds 5 ?ds'] by simp
  also have "\<dots> = Some (None, True, 20, None)" by code_simp
  finally show ?thesis .
qed

lemma repeated_raw_event_is_not_counted:
  "map_option result_view (find_row (\<lambda>x. rr_map_id x = 5)
     (results (deliver settle no_results [(1, sample_report 1 10 20), (2, sample_report 1 11 30)]))) = Some (Some 10, False, 20, None)"
  "map_option result_view (find_row (\<lambda>x. rr_map_id x = 5)
     (results (deliver settle no_results [(1, sample_report 1 11 30), (2, sample_report 1 10 20)]))) = Some (Some 11, False, 20, None)"
  by code_simp+

subsection \<open>The settlement job\<close>

lemma settle_row_id:
  assumes "settle db now r = Inr (x, db')"
  shows "rr_map_id x = rp_map_id r"
proof (cases "find_row (\<lambda>x. rr_map_id x = rp_map_id r) (results db)")
  case None
  then show ?thesis using assms by (auto simp: settle_def Let_def new_result_def split: if_splits)
next
  case (Some y)
  then have "rr_map_id y = rp_map_id r" using find_row_SomeD by fastforce
  then show ?thesis using assms Some by (auto simp: settle_def Let_def refresh_result_def split: if_splits)
qed

lemma map_result_stored:
  assumes "map_result_for facts db now m = Inr (x, db')"
  shows "find_row (\<lambda>y. rr_map_id y = m) (results db') = Some x"
proof (cases "find_row (\<lambda>y. rr_map_id y = m) (results db)")
  case (Some y)
  then show ?thesis using assms by (simp add: map_result_for_def)
next
  case None
  then obtain f where s: "settle db now (report_of_fact m f) = Inr (x, db')"
    using assms by (auto simp: map_result_for_def split: list.splits)
  have "rp_map_id (report_of_fact m f) = m" by (simp add: report_of_fact_def)
  then show ?thesis using settle_writes(3) [OF s settle_row_id [OF s], of m] by simp
qed

text \<open>The settlement job completes a map: when it succeeds, the map has a stored result, every open
  bet of the map is closed with exactly that result at its settlement time and no other position
  changes, each snapshot of the map has exactly one evaluation request, and running the job again,
  at any time and with any history, succeeds and changes nothing.\<close>

theorem settle_job_completes_map:
  assumes "events_inv (st_events st)" and "pf_reachable decimal bankroll (st_portfolio st)" and "0 < bankroll"
    and "series_of_map tb m = Some s" and "settle_map_job pg True tb facts st now m = Inr st'"
  shows "\<exists>x. find_row (\<lambda>y. rr_map_id y = m) (results (st_settlement st')) = Some x \<and>
    positions (st_portfolio st') =
      map (\<lambda>p. if open_on m p then settled_position s (rr_winner x) (rr_conflict x) (rr_settled_at x) p else p)
        (positions (st_portfolio st)) \<and>
    (\<forall>sn \<in> set (tb_snapshots tb). sn_map_id sn = Some m \<longrightarrow>
       length (filter (same_event ''EVALUATION_REQUIRED'' (''evaluation:'' @ str_uuid (sn_id sn))) (events (st_events st'))) = 1) \<and>
    settle_map_job pg True tb facts' st' later m = Inr st'"
proof -
  let ?evs = "\<lambda>t. map (evaluation_event t \<circ> sn_id) (filter (\<lambda>s. sn_map_id s = Some m) (tb_snapshots tb))"
  obtain x sdb where r: "map_result_for facts (st_settlement st) now m = Inr (x, sdb)"
    using assms(5) by (auto simp: settle_map_job_def split: sum.splits)
  let ?s = "settle_map tb (st_portfolio st) now m (rr_winner x) (rr_conflict x) (Some (rr_settled_at x))"
  obtain ev where ev: "record_all pg (st_events st) now (?evs now) = Inr ev" "events_inv ev"
    "\<forall>e \<in> set (?evs now). is_recorded ev e"
    using record_all_run [OF assms(1), of pg now "?evs now"] by blast
  have st': "st' = st\<lparr>st_settlement := sdb, st_portfolio := snd ?s, st_events := ev\<rparr>"
    using assms(5) r ev(1) by (simp add: settle_map_job_def)
  have stored: "find_row (\<lambda>y. rr_map_id y = m) (results sdb) = Some x" by (rule map_result_stored [OF r])
  note once = map_settles_exactly_once_lemma [OF assms(2-4), of now "rr_winner x" "rr_conflict x" "rr_settled_at x"
      "fst ?s" "snd ?s" later "rr_winner x" "rr_conflict x" "Some (rr_settled_at x)"]
  have same: "is_recorded ev (evaluation_event t i) \<longleftrightarrow> is_recorded ev (evaluation_event now i)" for t i
    by (simp add: is_recorded_def evaluation_event_def)
  have rec: "\<forall>e \<in> set (?evs t). is_recorded ev e" for t using ev(3) same by auto
  have "length (filter (same_event ''EVALUATION_REQUIRED'' (''evaluation:'' @ str_uuid (sn_id sn))) (events ev)) = 1"
    if "sn \<in> set (tb_snapshots tb)" "sn_map_id sn = Some m" for sn
    using recorded_once [OF ev(2), of "evaluation_event now (sn_id sn)"] rec [of now] that
    by (auto simp: evaluation_event_def)
  moreover have "settle_map_job pg True tb facts' st' later m = Inr st'"
    using stored once record_all_noop [OF rec] by (simp add: settle_map_job_def map_result_for_def st')
  ultimately show ?thesis using stored once by (simp add: st')
qed

definition sample_fact :: history_fact where
  "sample_fact =
     \<lparr>hf_map_id = Some 5, hf_provider = ''opendota'', hf_provider_match_id = ''77'', hf_winner = Some 10,
      hf_first_usable_at = 85, hf_fetched_at = None, hf_normalizer_version = Some ''v1'', hf_advanced_ready_at = None,
      hf_data_conflict = False, hf_raw_event_id = 1\<rparr>"

definition sample_state :: lab_state where
  "sample_state = \<lparr>st_settlement = no_results, st_portfolio = snd sample_placed,
                   st_events = \<lparr>events = [], outbox = [], next_event_id = 0\<rparr>\<rparr>"

theorem settle_job_completes_map_witness:
  "\<exists>st'. settle_map_job True True sample_tables [sample_fact] sample_state 90 5 = Inr st' \<and>
     filter (open_on 5) (positions (st_portfolio st')) = [] \<and>
     length (filter (same_event ''EVALUATION_REQUIRED'' (''evaluation:'' @ str_uuid 7)) (events (st_events st'))) = 1 \<and>
     settle_map_job True True sample_tables [] st' 95 5 = Inr st'"
proof -
  have "valid_report (report_of_fact 5 sample_fact)" by (simp add: valid_report_def report_of_fact_def)
  then obtain x sdb where s: "settle no_results 90 (report_of_fact 5 sample_fact) = Inr (x, sdb)"
    using settle_total by blast
  have r: "map_result_for [sample_fact] no_results 90 5 = Inr (x, sdb)"
    using s by (simp add: map_result_for_def no_results_def order_limit_def sample_fact_def)
  let ?evs = "map (evaluation_event 90 \<circ> sn_id) (filter (\<lambda>s. sn_map_id s = Some 5) (tb_snapshots sample_tables))"
  obtain ev where "record_all True (st_events sample_state) 90 ?evs = Inr ev"
    using record_all_run [of "st_events sample_state" True 90 ?evs] empty_events_inv by (auto simp: sample_state_def)
  then obtain st' where j: "settle_map_job True True sample_tables [sample_fact] sample_state 90 5 = Inr st'"
    using r by (simp add: settle_map_job_def sample_state_def)
  have e: "events_inv (st_events sample_state)" using empty_events_inv by (simp add: sample_state_def)
  have p: "pf_reachable (\<lambda>s. None) 10000 (st_portfolio sample_state)" using sample_reachable by (simp add: sample_state_def)
  have b: "(0::rat) < 10000" by simp
  obtain y :: result_row where y: "positions (st_portfolio st') =
      map (\<lambda>p. if open_on 5 p then settled_position \<lparr>sx_id = 3, sx_event_id = Some 1, sx_team_a = 10, sx_team_b = 11\<rparr>
          (rr_winner y) (rr_conflict y) (rr_settled_at y) p else p) (positions (st_portfolio sample_state))"
    "\<forall>sn \<in> set (tb_snapshots sample_tables). sn_map_id sn = Some 5 \<longrightarrow>
       length (filter (same_event ''EVALUATION_REQUIRED'' (''evaluation:'' @ str_uuid (sn_id sn))) (events (st_events st'))) = 1"
    "settle_map_job True True sample_tables [] st' 95 5 = Inr st'"
    using settle_job_completes_map [OF e p b sample_series j, of "[]" 95] by blast
  have "filter (open_on 5) (positions (st_portfolio st')) = []" unfolding y(1) by (auto simp: filter_empty_conv)
  moreover have "length (filter (same_event ''EVALUATION_REQUIRED'' (''evaluation:'' @ str_uuid 7)) (events (st_events st'))) = 1"
    using y(2) by (simp add: sample_tables_def)
  ultimately show ?thesis using j y(3) by blast
qed

end
