(* ===== verification/Market.thy ===== *)
theory Market
  imports Tables
begin

text \<open>
  The winner market: \<open>evaluate_market_pair\<close> of \<open>app/market/pairing.py\<close>, its request-time use
  \<open>evaluate_current_market_pair\<close> of \<open>app/market/current.py\<close>, the market section of a decision
  snapshot (\<open>_load_market\<close> of \<open>app/snapshots/builder.py\<close>) and \<open>remove_vig\<close> of
  \<open>app/market/fair_probability.py\<close>.  Prices and probabilities are rationals.
\<close>

subsection \<open>Data\<close>

record odds_row =
  or_id :: uuid
  or_provider_match_id :: int
  or_odds_id :: int
  or_series_id :: "uuid option"
  or_map_id :: "uuid option"
  or_market_type :: "string option"
  or_match_stage :: "string option"
  or_selection :: "uuid option"
  or_price :: rat
  or_implied_probability :: rat
  or_raw_status :: "int option"
  or_normalized_status :: "string option"
  or_metadata_version :: "string option"
  or_provider_updated_at :: "time option"
  or_received_at :: time

record market_pair_leg =
  ml_provider_match_id :: int
  ml_odds_id :: int
  ml_series_id :: "uuid option"
  ml_map_id :: "uuid option"
  ml_market_type :: "string option"
  ml_match_stage :: "string option"
  ml_selection :: "uuid option"
  ml_price :: rat
  ml_normalized_status :: "string option"
  ml_metadata_version :: "string option"
  ml_received_at :: time

record market_pair_quality =
  mq_eligible :: bool
  mq_blockers :: "string list"
  mq_warnings :: "string list"
  mq_metadata_version :: "string option"
  mq_paired_at :: time
  mq_pair_skew_seconds :: "rat option"

definition leg_of_row :: "odds_row \<Rightarrow> market_pair_leg" where
  "leg_of_row r =
     \<lparr>ml_provider_match_id = or_provider_match_id r, ml_odds_id = or_odds_id r, ml_series_id = or_series_id r,
      ml_map_id = or_map_id r, ml_market_type = or_market_type r, ml_match_stage = or_match_stage r,
      ml_selection = or_selection r, ml_price = or_price r, ml_normalized_status = or_normalized_status r,
      ml_metadata_version = or_metadata_version r, ml_received_at = or_received_at r\<rparr>"

subsection \<open>One pair\<close>

definition pair_quality ::
  "string list \<Rightarrow> string list \<Rightarrow> time \<Rightarrow> rat option \<Rightarrow> string option \<Rightarrow> market_pair_quality" where
  "pair_quality blockers warnings paired_at skew version =
     \<lparr>mq_eligible = (blockers = []), mq_blockers = fromkeys blockers, mq_warnings = fromkeys warnings,
      mq_metadata_version = version, mq_paired_at = paired_at, mq_pair_skew_seconds = skew\<rparr>"

definition flag :: "bool \<Rightarrow> string \<Rightarrow> string list" where
  "flag b code = (if b then [code] else [])"

text \<open>\<open>(status or "UNKNOWN").strip().upper().replace("-", "_").replace(" ", "_")\<close>.\<close>

definition leg_status :: "market_pair_leg \<Rightarrow> string" where
  "leg_status l =
     replace_char (CHR '' '') (CHR ''_'') (replace_char (CHR ''-'') (CHR ''_'')
       (upper (strip (case ml_normalized_status l of None \<Rightarrow> ''UNKNOWN'' | Some s \<Rightarrow> if s = [] then ''UNKNOWN'' else s))))"

definition pair_blockers ::
  "market_pair_leg \<Rightarrow> market_pair_leg \<Rightarrow> uuid \<Rightarrow> uuid option \<Rightarrow> uuid set \<Rightarrow> time \<Rightarrow> rat \<Rightarrow> rat \<Rightarrow> string list" where
  "pair_blockers a b series_id map_id teams decision_at max_age max_skew =
     flag (ml_provider_match_id a \<noteq> ml_provider_match_id b) ''MARKET_PAIR_MATCH_MISMATCH'' @
     flag (ml_series_id a \<noteq> Some series_id \<or> ml_series_id b \<noteq> Some series_id) ''MARKET_PAIR_SERIES_MISMATCH'' @
     flag (map_id \<noteq> None \<and> (ml_map_id a \<noteq> map_id \<or> ml_map_id b \<noteq> map_id)) ''MARKET_PAIR_MAP_MISMATCH'' @
     flag (ml_market_type a = None \<or> ml_market_type a \<noteq> ml_market_type b) ''MARKET_PAIR_TYPE_MISMATCH'' @
     flag (ml_match_stage a = None \<or> ml_match_stage a \<noteq> ml_match_stage b) ''MARKET_PAIR_STAGE_MISMATCH'' @
     flag (ml_odds_id a = ml_odds_id b) ''MARKET_PAIR_DUPLICATE_ODDS'' @
     (if ml_selection a = None \<or> ml_selection b = None \<or> ml_selection a = ml_selection b
      then [''MARKET_PAIR_SELECTION_INVALID'']
      else flag ({ml_selection a, ml_selection b} \<noteq> Some ` teams) ''MARKET_PAIR_TEAMS_MISMATCH'') @
     flag (ml_price a \<le> 1 \<or> ml_price b \<le> 1) ''MARKET_PAIR_PRICE_INVALID'' @
     flag (\<exists>l \<in> {a, b}. seconds_of (decision_at - ml_received_at l) < 0) ''MARKET_PAIR_FUTURE_OBSERVATION'' @
     flag (\<exists>l \<in> {a, b}. max_age < seconds_of (decision_at - ml_received_at l)) ''MARKET_PAIR_STALE_LEG'' @
     flag (max_skew < \<bar>seconds_of (ml_received_at a - ml_received_at b)\<bar>) ''MARKET_PAIR_SKEW_EXCEEDED'' @
     flag (ml_metadata_version a = None \<or> ml_metadata_version a \<noteq> ml_metadata_version b) ''MARKET_PAIR_METADATA_MISMATCH'' @
     flag (leg_status a \<in> {''SUSPENDED'', ''CLOSED''} \<or> leg_status b \<in> {''SUSPENDED'', ''CLOSED''}) ''MARKET_NOT_OPEN''"

definition pair_warnings :: "market_pair_leg \<Rightarrow> market_pair_leg \<Rightarrow> string list" where
  "pair_warnings a b =
     flag (\<not> (leg_status a \<in> {''SUSPENDED'', ''CLOSED''} \<or> leg_status b \<in> {''SUSPENDED'', ''CLOSED''}) \<and>
           {leg_status a, leg_status b} \<noteq> {''OPEN_CONFIRMED''}) ''MARKET_STATUS_UNKNOWN''"

fun evaluate_market_pair ::
  "market_pair_leg list \<Rightarrow> uuid \<Rightarrow> uuid option \<Rightarrow> uuid set \<Rightarrow> time \<Rightarrow> rat \<Rightarrow> rat \<Rightarrow> market_pair_quality" where
  "evaluate_market_pair [a, b] series_id map_id teams decision_at max_age max_skew =
     pair_quality (pair_blockers a b series_id map_id teams decision_at max_age max_skew) (pair_warnings a b) decision_at
       (Some \<bar>seconds_of (ml_received_at a - ml_received_at b)\<bar>)
       (if ml_metadata_version a = ml_metadata_version b then ml_metadata_version a else None)"
| "evaluate_market_pair legs series_id map_id teams decision_at max_age max_skew =
     pair_quality [''MARKET_PAIR_CARDINALITY_INVALID''] [] decision_at None None"

subsection \<open>Stages\<close>

definition map_market_stages :: "int option \<Rightarrow> int option \<Rightarrow> string list" where
  "map_market_stages map_number best_of =
     (case map_number of
        None \<Rightarrow> []
      | Some n \<Rightarrow>
         [''r'' @ str_int n, ''Map r'' @ str_int n, ''map r'' @ str_int n, ''Map '' @ str_int n, ''map '' @ str_int n] @
         (if best_of = Some n then [''final''] else []))"

subsection \<open>The current market\<close>

type_synonym market_key = "int \<times> string option \<times> string option"

definition market_key_of :: "odds_row \<Rightarrow> market_key" where
  "market_key_of r = (or_provider_match_id r, or_market_type r, or_match_stage r)"

text \<open>A Python dictionary keeps the position of a key that is assigned again, as \<open>AList.update\<close> does.\<close>

definition keep_latest :: "odds_row \<Rightarrow> (int \<times> odds_row) list \<Rightarrow> (int \<times> odds_row) list" where
  "keep_latest r d =
     (case map_of d (or_odds_id r) of
        None \<Rightarrow> AList.update (or_odds_id r) r d
      | Some c \<Rightarrow> if or_received_at c < or_received_at r then AList.update (or_odds_id r) r d else d)"

definition latest_by_odds :: "odds_row list \<Rightarrow> odds_row list" where
  "latest_by_odds rows = map snd (fold keep_latest rows [])"

definition group_by_team ::
  "uuid set \<Rightarrow> odds_row \<Rightarrow> (market_key \<times> (uuid \<times> odds_row) list) list \<Rightarrow> (market_key \<times> (uuid \<times> odds_row) list) list" where
  "group_by_team teams r g =
     (case or_selection r of
        Some t \<Rightarrow>
          (if t \<in> teams
           then AList.update (market_key_of r)
                  (AList.update t r (case map_of g (market_key_of r) of None \<Rightarrow> [] | Some d \<Rightarrow> d)) g
           else g)
      | None \<Rightarrow> g)"

fun complete_group :: "uuid \<Rightarrow> uuid \<Rightarrow> market_key \<times> (uuid \<times> odds_row) list \<Rightarrow> (market_key \<times> odds_row \<times> odds_row) list" where
  "complete_group team_a team_b (key, by_team) =
     (if set (map fst by_team) = {team_a, team_b}
      then (case (map_of by_team team_a, map_of by_team team_b) of
              (Some a, Some b) \<Rightarrow> [(key, a, b)] | _ \<Rightarrow> [])
      else [])"

definition current_candidates :: "odds_row list \<Rightarrow> uuid \<Rightarrow> uuid \<Rightarrow> (market_key \<times> odds_row \<times> odds_row) list" where
  "current_candidates rows team_a team_b =
     concat (map (complete_group team_a team_b) (fold (group_by_team {team_a, team_b}) (latest_by_odds rows) []))"

definition expected_map_for :: "string option \<Rightarrow> uuid option \<Rightarrow> uuid option" where
  "expected_map_for stage map_id = (if stage = Some ''final'' then None else map_id)"

definition current_evaluated ::
  "odds_row list \<Rightarrow> uuid \<Rightarrow> uuid \<Rightarrow> uuid \<Rightarrow> uuid option \<Rightarrow> time \<Rightarrow> rat \<Rightarrow> rat \<Rightarrow>
   (time \<times> (odds_row \<times> odds_row) \<times> market_pair_quality) list" where
  "current_evaluated rows series_id team_a team_b map_id observed_at max_age max_skew =
     map (\<lambda>((match, ty, stage), a, b).
        (max (or_received_at a) (or_received_at b), (a, b),
         evaluate_market_pair [leg_of_row a, leg_of_row b] series_id (expected_map_for stage map_id) {team_a, team_b}
           observed_at max_age max_skew))
       (current_candidates rows team_a team_b)"

definition freshest_pair ::
  "(time \<times> 'l \<times> market_pair_quality) list \<Rightarrow> ('l \<times> market_pair_quality) option" where
  "freshest_pair evaluated =
     (let eligible = filter (\<lambda>(f, l, q). mq_eligible q) evaluated
      in map_option snd (py_max fst (if eligible = [] then evaluated else eligible)))"

text \<open>\<open>series\<close> is the identity and the two teams of the canonical series, when there is one.\<close>

definition evaluate_current_market_pair ::
  "odds_row list \<Rightarrow> (uuid \<times> uuid \<times> uuid) option \<Rightarrow> uuid option \<Rightarrow> time \<Rightarrow> rat \<Rightarrow> rat \<Rightarrow>
   ((odds_row \<times> odds_row) \<times> market_pair_quality) option" where
  "evaluate_current_market_pair rows series map_id observed_at max_age max_skew =
     (case series of
        None \<Rightarrow> None
      | Some (series_id, team_a, team_b) \<Rightarrow>
          freshest_pair (current_evaluated rows series_id team_a team_b map_id observed_at max_age max_skew))"

subsection \<open>Fair probabilities\<close>

definition remove_vig :: "rat \<Rightarrow> rat \<Rightarrow> string + (rat \<times> rat \<times> rat)" where
  "remove_vig odds_a odds_b =
     (if odds_a \<le> 1 \<or> odds_b \<le> 1 then Inl ''decimal odds must be greater than one''
      else (let ia = 1 / odds_a; ib = 1 / odds_b; implied_total = ia + ib in Inr (ia / implied_total, ib / implied_total, implied_total)))"

subsection \<open>The market of a snapshot\<close>

record market_observation =
  mo_row :: odds_row
  mo_fair_probability :: "rat option"

record market_section =
  ms_provider_match_id :: int
  ms_market_type :: "string option"
  ms_match_stage :: "string option"
  ms_overround :: "rat option"
  ms_quality :: market_pair_quality
  ms_observations :: "market_observation list"

definition market_criteria ::
  "uuid option \<Rightarrow> uuid \<Rightarrow> int option \<Rightarrow> int option \<Rightarrow> time \<Rightarrow> odds_row \<Rightarrow> bool" where
  "market_criteria map_id series_id map_number best_of decision_at r \<longleftrightarrow>
     ((map_id \<noteq> None \<and> or_map_id r = map_id) \<or> or_series_id r = Some series_id) \<and>
     or_received_at r \<le> decision_at \<and> or_market_type r = Some ''Winner'' \<and>
     (map_id = None \<or> or_match_stage r \<in> Some ` set (map_market_stages map_number best_of))"

text \<open>The join of the table with the latest time of each odds id among the rows that meet the criteria,
  then the first joined row of each odds id.\<close>

definition join_latest :: "odds_row list \<Rightarrow> odds_row list \<Rightarrow> odds_row list" where
  "join_latest criteria_rows table =
     filter (\<lambda>r. \<exists>c \<in> set criteria_rows. or_odds_id c = or_odds_id r \<and> or_received_at c = or_received_at r \<and>
               (\<forall>c' \<in> set criteria_rows. or_odds_id c' = or_odds_id c \<longrightarrow> or_received_at c' \<le> or_received_at c)) table"

definition first_per_odds :: "odds_row list \<Rightarrow> odds_row list" where
  "first_per_odds rows =
     map snd (fold (\<lambda>r d. if map_of d (or_odds_id r) = None then d @ [(or_odds_id r, r)] else d) rows [])"

definition group_rows :: "odds_row list \<Rightarrow> (market_key \<times> odds_row list) list" where
  "group_rows rows =
     fold (\<lambda>r g. AList.update (market_key_of r)
                  ((case map_of g (market_key_of r) of None \<Rightarrow> [] | Some l \<Rightarrow> l) @ [r]) g) rows []"

definition builder_evaluated ::
  "odds_row list \<Rightarrow> odds_row list \<Rightarrow> uuid \<Rightarrow> uuid option \<Rightarrow> uuid \<Rightarrow> uuid \<Rightarrow> time \<Rightarrow> rat \<Rightarrow> rat \<Rightarrow>
   (time \<times> odds_row list \<times> market_pair_quality) list" where
  "builder_evaluated criteria_rows table series_id map_id team_a team_b decision_at max_age max_skew =
     map (\<lambda>((match, ty, stage), items).
        (Max (or_received_at ` set items), items,
         evaluate_market_pair (map leg_of_row items) series_id (expected_map_for stage map_id) {team_a, team_b}
           decision_at max_age max_skew))
       (group_rows (first_per_odds (join_latest criteria_rows table)))"

definition team_index :: "uuid \<Rightarrow> uuid \<Rightarrow> odds_row \<Rightarrow> nat" where
  "team_index team_a team_b r =
     (if or_selection r = Some team_b then 1 else if or_selection r = Some team_a then 0 else 2)"

definition section_of ::
  "uuid \<Rightarrow> uuid \<Rightarrow> odds_row list \<Rightarrow> market_pair_quality \<Rightarrow> market_section" where
  "section_of team_a team_b selected q =
     (let items = sort_key (\<lambda>r. (team_index team_a team_b r, or_odds_id r)) selected;
          vig = (if mq_eligible q
                 then (case remove_vig (or_price (items ! 0)) (or_price (items ! 1)) of
                         Inl e \<Rightarrow> None | Inr v \<Rightarrow> Some v)
                 else None);
          fair = (case vig of None \<Rightarrow> [None, None] | Some (fa, fb, implied_total) \<Rightarrow> [Some fa, Some fb])
      in \<lparr>ms_provider_match_id = or_provider_match_id (items ! 0), ms_market_type = or_market_type (items ! 0),
          ms_match_stage = or_match_stage (items ! 0),
          ms_overround = map_option (\<lambda>(fa, fb, implied_total). implied_total - 1) vig, ms_quality = q,
          ms_observations = map (\<lambda>(r, p). \<lparr>mo_row = r, mo_fair_probability = p\<rparr>) (zip items fair)\<rparr>)"

definition load_market ::
  "odds_row list \<Rightarrow> uuid option \<Rightarrow> uuid \<Rightarrow> int option \<Rightarrow> int option \<Rightarrow> uuid \<Rightarrow> uuid \<Rightarrow> time \<Rightarrow> rat \<Rightarrow> rat \<Rightarrow>
   (market_section \<times> rat) option" where
  "load_market table map_id series_id map_number best_of team_a team_b decision_at max_age max_skew =
     (case freshest_pair (builder_evaluated (filter (market_criteria map_id series_id map_number best_of decision_at) table) table
             series_id map_id team_a team_b decision_at max_age max_skew) of
        None \<Rightarrow> None
      | Some (items, q) \<Rightarrow>
          Some (section_of team_a team_b items q,
                Max ((\<lambda>r. seconds_of (decision_at - or_received_at r)) ` set items)))"

end
