(* ===== verification/MarketProperties.thy ===== *)
theory MarketProperties
  imports Market
begin

text \<open>
  Properties of the market evaluation: what makes a pair of odds eligible, and how the request-time
  view of the market relates to the one decision snapshots are built with.
\<close>

subsection \<open>One pair\<close>

lemma fromkeys_Nil_iff [simp]: "flag b c = [] \<longleftrightarrow> \<not> b"
  by (simp add: flag_def)

lemma pair_quality_eligible [simp]: "mq_eligible (pair_quality bs ws t s v) \<longleftrightarrow> bs = []"
  by (simp add: pair_quality_def)

lemma eligible_two: "mq_eligible (evaluate_market_pair legs s m ts t ma ms) \<Longrightarrow> \<exists>a b. legs = [a, b]"
  by (cases "(legs, s, m, ts, t, ma, ms)" rule: evaluate_market_pair.cases) simp_all

definition pair_ok ::
  "market_pair_leg \<Rightarrow> market_pair_leg \<Rightarrow> uuid \<Rightarrow> uuid option \<Rightarrow> uuid set \<Rightarrow> time \<Rightarrow> rat \<Rightarrow> rat \<Rightarrow> bool" where
  "pair_ok a b series_id map_id teams decision_at max_age max_skew \<longleftrightarrow>
     ml_provider_match_id a = ml_provider_match_id b \<and>
     ml_series_id a = Some series_id \<and> ml_series_id b = Some series_id \<and>
     (map_id = None \<or> ml_map_id a = map_id \<and> ml_map_id b = map_id) \<and>
     (\<exists>ty. ml_market_type a = Some ty \<and> ml_market_type b = Some ty) \<and>
     (\<exists>st. ml_match_stage a = Some st \<and> ml_match_stage b = Some st) \<and>
     ml_odds_id a \<noteq> ml_odds_id b \<and>
     (\<exists>u v. ml_selection a = Some u \<and> ml_selection b = Some v \<and> u \<noteq> v \<and> {u, v} = teams) \<and>
     1 < ml_price a \<and> 1 < ml_price b \<and>
     (\<forall>l \<in> {a, b}. ml_received_at l \<le> decision_at \<and> seconds_of (decision_at - ml_received_at l) \<le> max_age \<and>
        leg_status l \<noteq> ''SUSPENDED'' \<and> leg_status l \<noteq> ''CLOSED'') \<and>
     \<bar>seconds_of (ml_received_at a - ml_received_at b)\<bar> \<le> max_skew \<and>
     (\<exists>v. ml_metadata_version a = Some v \<and> ml_metadata_version b = Some v)"

lemma seconds_of_neg: "seconds_of d < 0 \<longleftrightarrow> d < 0"
  using seconds_of_nonneg [of d] by (meson not_le)

lemma Some_image_eq: "{Some u, Some v} = Some ` S \<longleftrightarrow> {u, v} = S"
  by (metis image_empty image_insert inj_Some inj_image_eq_iff)

lemma eligible_pair: "mq_eligible (evaluate_market_pair [a, b] s m ts t ma ms) \<longleftrightarrow> pair_ok a b s m ts t ma ms"
proof -
  have sel: "(if ml_selection a = None \<or> ml_selection b = None \<or> ml_selection a = ml_selection b
      then [''MARKET_PAIR_SELECTION_INVALID'']
      else flag ({ml_selection a, ml_selection b} \<noteq> Some ` ts) ''MARKET_PAIR_TEAMS_MISMATCH'') = [] \<longleftrightarrow>
      (\<exists>u v. ml_selection a = Some u \<and> ml_selection b = Some v \<and> u \<noteq> v \<and> {u, v} = ts)"
    by (cases "ml_selection a"; cases "ml_selection b") (auto simp: Some_image_eq)
  have opt: "\<not> (x = None \<or> x \<noteq> y) \<longleftrightarrow> (\<exists>z. x = Some z \<and> y = Some z)" for x y :: "'x option" by (cases x) auto
  show ?thesis
    unfolding evaluate_market_pair.simps pair_quality_eligible pair_blockers_def append_is_Nil_conv sel fromkeys_Nil_iff opt
      pair_ok_def seconds_of_neg
    by (simp add: not_le not_less) blast
qed

declare evaluate_market_pair.simps(1) [simp del]

lemma pair_ok_sym: "pair_ok a b s m ts t ma ms \<longleftrightarrow> pair_ok b a s m ts t ma ms"
proof -
  have skew: "\<bar>seconds_of (x - y)\<bar> = \<bar>seconds_of (y - x)\<bar>" for x y
    unfolding seconds_of_def by (simp add: abs_minus_commute)
  show ?thesis unfolding pair_ok_def skew [of "ml_received_at a"] by (auto simp: doubleton_eq_iff insert_commute)
qed

lemma vig_sums_to_one:
  assumes "1 < x" and "1 < y"
  shows "\<exists>p q t. remove_vig x y = Inr (p, q, t) \<and> 0 < p \<and> 0 < q \<and> p + q = 1 \<and> (p < q \<longleftrightarrow> y < x)"
proof -
  define i j where "i = 1 / x" and "j = 1 / y"
  have pos: "0 < x" "0 < y" using assms by simp_all
  then have ij: "0 < i" "0 < j" by (simp_all add: i_def j_def)
  then have t: "0 < i + j" by simp
  have "i / (i + j) + j / (i + j) = 1" using t by (simp add: add_divide_distrib [symmetric])
  moreover have "i < j \<longleftrightarrow> y < x"
    using pos by (simp add: i_def j_def inverse_eq_divide [symmetric])
  then have "i / (i + j) < j / (i + j) \<longleftrightarrow> y < x" using t by (simp add: divide_less_cancel)
  moreover have "remove_vig x y = Inr (i / (i + j), j / (i + j), i + j)"
    using assms by (simp add: remove_vig_def Let_def i_def j_def)
  ultimately show ?thesis using ij t by simp
qed

subsection \<open>Latest observations\<close>

lemma py_max_first: "py_max f xs = find_row (\<lambda>x. \<forall>y \<in> set xs. f y \<le> f x) xs"
proof (induction xs rule: rev_induct)
  case Nil
  then show ?case by simp
next
  case (snoc x xs)
  show ?case
  proof (cases "py_max f xs")
    case None
    then have "xs = []" by simp
    then show ?thesis by (simp add: py_max_def)
  next
    case (Some c)
    then have c: "c \<in> set xs" "\<forall>y \<in> set xs. f y \<le> f c" using py_max_in [OF Some] py_max_ge [OF Some] by simp_all
    have le: "f y \<le> f x" if "f c < f x" "y \<in> set xs" for y using c(2) that by fastforce
    show ?thesis
    proof (cases "f c < f x")
      case True
      have "find_row (\<lambda>z. \<forall>y \<in> set (xs @ [x]). f y \<le> f z) xs = None"
        using c(2) True by (auto simp: find_row_None_iff)
      then show ?thesis using Some True le by (simp add: py_max_snoc)
    next
      case False
      have "find_row (\<lambda>z. \<forall>y \<in> set (xs @ [x]). f y \<le> f z) xs = find_row (\<lambda>z. \<forall>y \<in> set xs. f y \<le> f z) xs"
        using c False by (intro find_row_cong) (auto intro: order_trans)
      then show ?thesis using Some snoc.IH False by (simp add: py_max_snoc)
    qed
  qed
qed

lemma find_row_filter: "find_row P (filter Q t) = find_row (\<lambda>x. Q x \<and> P x) t"
  by (induction t) auto

definition latest_for :: "odds_row list \<Rightarrow> int \<Rightarrow> odds_row option" where
  "latest_for rows i = py_max or_received_at (filter (\<lambda>r. or_odds_id r = i) rows)"

lemma latest_for_in: "latest_for rows i = Some r \<Longrightarrow> r \<in> set rows \<and> or_odds_id r = i"
  unfolding latest_for_def by (drule py_max_in) simp

text \<open>A dictionary of rows by odds id.\<close>

definition by_odds :: "(int \<times> odds_row) list \<Rightarrow> (int \<Rightarrow> odds_row option) \<Rightarrow> bool" where
  "by_odds d f \<longleftrightarrow> distinct (map fst d) \<and> map_of d = f \<and> (\<forall>(i, r) \<in> set d. or_odds_id r = i)"

lemma by_odds_rows:
  assumes "by_odds d f"
  shows "set (map snd d) = {r. f (or_odds_id r) = Some r}" and "distinct (map or_odds_id (map snd d))"
proof -
  have d: "distinct (map fst d)" "map_of d = f" "\<And>i r. (i, r) \<in> set d \<Longrightarrow> or_odds_id r = i"
    using assms by (auto simp: by_odds_def)
  have keys: "map or_odds_id (map snd d) = map fst d" using d(3) by (auto intro!: map_cong)
  show "distinct (map or_odds_id (map snd d))" unfolding keys by (rule d(1))
  show "set (map snd d) = {r. f (or_odds_id r) = Some r}"
  proof (intro set_eqI iffI)
    fix r assume "r \<in> set (map snd d)"
    then obtain i where "(i, r) \<in> set d" by auto
    then show "r \<in> {r. f (or_odds_id r) = Some r}" using d by (auto simp flip: d(2))
  next
    fix r assume "r \<in> {r. f (or_odds_id r) = Some r}"
    then have "map_of d (or_odds_id r) = Some r" using d(2) by simp
    then show "r \<in> set (map snd d)" using map_of_SomeD by force
  qed
qed

lemma keep_latest_by_odds: "by_odds (fold keep_latest rows []) (latest_for rows)"
proof (induction rows rule: rev_induct)
  case Nil
  then show ?case by (auto simp: by_odds_def latest_for_def py_max_def)
next
  case (snoc r rows)
  let ?d = "fold keep_latest rows []"
  have d: "distinct (map fst ?d)" "map_of ?d = latest_for rows" "\<forall>(i, r) \<in> set ?d. or_odds_id r = i"
    using snoc.IH by (simp_all add: by_odds_def)
  have eq: "latest_for (rows @ [r]) i =
      (if or_odds_id r = i then (case latest_for rows i of None \<Rightarrow> Some r
         | Some c \<Rightarrow> if or_received_at c < or_received_at r then Some r else Some c) else latest_for rows i)" for i
    by (simp add: latest_for_def py_max_snoc)
  have upd: "\<forall>(i, r') \<in> set (AList.update (or_odds_id r) r ?d). or_odds_id r' = i"
    using d(1,3) by (auto simp: update_conv' dest!: map_of_SomeD [rotated] simp flip: map_of_eq_Some_iff)
      (metis (mono_tags, lifting) case_prodD distinct_update fun_upd_apply map_of_eq_Some_iff option.inject update_conv')+
  show ?case
  proof (cases "latest_for rows (or_odds_id r)")
    case None
    then show ?thesis using d upd unfolding by_odds_def
      by (auto simp: keep_latest_def update_conv' distinct_update eq fun_eq_iff)
  next
    case (Some c)
    then show ?thesis using d upd unfolding by_odds_def
      by (auto simp: keep_latest_def update_conv' distinct_update eq fun_eq_iff)
  qed
qed

lemma latest_rows_by_odds:
  "by_odds (fold (\<lambda>r d. if map_of d (or_odds_id r) = None then d @ [(or_odds_id r, r)] else d) rows [])
     (\<lambda>i. find_row (\<lambda>r. or_odds_id r = i) rows)"
proof (induction rows rule: rev_induct)
  case Nil
  then show ?case by (simp add: by_odds_def fun_eq_iff)
next
  case (snoc r rows)
  let ?d = "fold (\<lambda>r d. if map_of d (or_odds_id r) = None then d @ [(or_odds_id r, r)] else d) rows []"
  have d: "distinct (map fst ?d)" "map_of ?d = (\<lambda>i. find_row (\<lambda>r. or_odds_id r = i) rows)"
    "\<forall>(i, r) \<in> set ?d. or_odds_id r = i"
    using snoc.IH by (simp_all add: by_odds_def)
  show ?case
  proof (cases "find_row (\<lambda>r'. or_odds_id r' = or_odds_id r) rows")
    case None
    then have m: "map_of ?d (or_odds_id r) = None" by (simp add: d(2))
    then have "or_odds_id r \<notin> set (map fst ?d)" by (simp add: map_of_eq_None_iff)
    then have "distinct (map fst (?d @ [(or_odds_id r, r)]))" using d(1) by simp
    moreover have "map_of (?d @ [(or_odds_id r, r)]) i = find_row (\<lambda>r. or_odds_id r = i) (rows @ [r])" for i
      using fun_cong [OF d(2), of i] by (auto simp: map_add_def split: option.split)
    ultimately show ?thesis using m d(3) by (simp add: by_odds_def fun_eq_iff)
  next
    case (Some c)
    then have "map_of ?d (or_odds_id r) \<noteq> None" by (simp add: d(2))
    moreover have "find_row (\<lambda>r. or_odds_id r = i) (rows @ [r]) = find_row (\<lambda>r. or_odds_id r = i) rows" for i
      using Some by (auto split: option.split)
    ultimately show ?thesis using d Some by (simp add: by_odds_def fun_eq_iff)
  qed
qed

definition latest_rows :: "odds_row list \<Rightarrow> odds_row list" where
  "latest_rows rows = first_per_odds (join_latest rows rows)"

lemma join_latest_self:
  "join_latest rows rows = filter (\<lambda>r. \<forall>r' \<in> set rows. or_odds_id r' = or_odds_id r \<longrightarrow> or_received_at r' \<le> or_received_at r) rows"
  unfolding join_latest_def by (rule filter_cong) auto

lemma latest_sets:
  "set (latest_by_odds rows) = {r. latest_for rows (or_odds_id r) = Some r}"
  "set (latest_rows rows) = {r. latest_for rows (or_odds_id r) = Some r}"
  "distinct (map or_odds_id (latest_rows rows))"
proof -
  show "set (latest_by_odds rows) = {r. latest_for rows (or_odds_id r) = Some r}"
    unfolding latest_by_odds_def by (rule by_odds_rows [OF keep_latest_by_odds])
  let ?top = "filter (\<lambda>r. \<forall>r' \<in> set rows. or_odds_id r' = or_odds_id r \<longrightarrow> or_received_at r' \<le> or_received_at r) rows"
  have "find_row (\<lambda>r. or_odds_id r = i) ?top = latest_for rows i" for i
    unfolding latest_for_def py_max_first find_row_filter by (rule find_row_cong) auto
  then have "by_odds (fold (\<lambda>r d. if map_of d (or_odds_id r) = None then d @ [(or_odds_id r, r)] else d) ?top []) (latest_for rows)"
    using latest_rows_by_odds [of ?top] by (simp add: fun_eq_iff [symmetric])
  from by_odds_rows [OF this] show "set (latest_rows rows) = {r. latest_for rows (or_odds_id r) = Some r}"
    and "distinct (map or_odds_id (latest_rows rows))"
    by (simp_all only: latest_rows_def first_per_odds_def join_latest_self)
qed

subsection \<open>Groups\<close>

lemma group_rows_snoc:
  "group_rows (rows @ [r]) =
     AList.update (market_key_of r) ((case map_of (group_rows rows) (market_key_of r) of None \<Rightarrow> [] | Some l \<Rightarrow> l) @ [r]) (group_rows rows)"
  by (simp add: group_rows_def)

lemma group_rows_map:
  "distinct (map fst (group_rows rows)) \<and>
   map_of (group_rows rows) k =
     (let l = filter (\<lambda>r. market_key_of r = k) rows in if l = [] then None else Some l)"
proof (induction rows rule: rev_induct)
  case Nil
  then show ?case by (simp add: group_rows_def)
next
  case (snoc r rows)
  then show ?case by (auto simp: group_rows_snoc update_conv' distinct_update Let_def split: option.splits if_splits)
qed

lemma group_rows_mem:
  "(k, items) \<in> set (group_rows rows) \<longleftrightarrow> items = filter (\<lambda>r. market_key_of r = k) rows \<and> items \<noteq> []"
  using group_rows_map [of rows k] by (auto simp: map_of_eq_Some_iff [symmetric] Let_def split: if_splits)

definition pick :: "odds_row list \<Rightarrow> market_key \<Rightarrow> uuid \<Rightarrow> odds_row option" where
  "pick rows k t = find_row (\<lambda>r. market_key_of r = k \<and> or_selection r = Some t) (rev rows)"

lemma pick_SomeD: "pick rows k t = Some r \<Longrightarrow> r \<in> set rows \<and> market_key_of r = k \<and> or_selection r = Some t"
  unfolding pick_def by (drule find_row_SomeD) simp

lemma pick_ex:
  "r \<in> set rows \<Longrightarrow> market_key_of r = k \<Longrightarrow> or_selection r = Some t \<Longrightarrow> \<exists>r'. pick rows k t = Some r'"
  unfolding pick_def by (rule find_row_ex [of r]) simp_all

definition team_groups :: "uuid set \<Rightarrow> odds_row list \<Rightarrow> (market_key \<times> (uuid \<times> odds_row) list) list" where
  "team_groups T rows = fold (group_by_team T) rows []"

lemma team_groups_snoc: "team_groups T (rows @ [r]) = group_by_team T r (team_groups T rows)"
  by (simp add: team_groups_def)

lemma pick_snoc: "pick (rows @ [r]) k t = (if market_key_of r = k \<and> or_selection r = Some t then Some r else pick rows k t)"
  by (simp add: pick_def)

lemma team_groups_map:
  "distinct (map fst (team_groups T rows)) \<and>
   (\<forall>k. case map_of (team_groups T rows) k of
          None \<Rightarrow> (\<forall>t \<in> T. pick rows k t = None)
        | Some d \<Rightarrow> (\<forall>t. map_of d t = (if t \<in> T then pick rows k t else None)))"
proof (induction rows rule: rev_induct)
  case Nil
  then show ?case by (simp add: team_groups_def pick_def)
next
  case (snoc r rows)
  note ih = conjunct1 [OF snoc] conjunct2 [OF snoc, rule_format]
  show ?case
  proof (cases "\<exists>t \<in> T. or_selection r = Some t")
    case False
    then have "team_groups T (rows @ [r]) = team_groups T rows"
      by (auto simp: team_groups_snoc group_by_team_def split: option.split)
    moreover have "pick (rows @ [r]) k t = pick rows k t" if "t \<in> T" for k t using that False by (auto simp: pick_snoc)
    then have "(if t \<in> T then pick (rows @ [r]) k t else None) = (if t \<in> T then pick rows k t else None)" for k t by simp
    moreover have "(\<forall>t \<in> T. pick (rows @ [r]) k t = None) = (\<forall>t \<in> T. pick rows k t = None)" for k
      using \<open>\<And>t k. t \<in> T \<Longrightarrow> pick (rows @ [r]) k t = pick rows k t\<close> by simp
    ultimately show ?thesis using snoc by (simp only: simp_thms)
  next
    case True
    then obtain t where t: "t \<in> T" "or_selection r = Some t" by blast
    let ?k = "market_key_of r"
    define old where "old = (case map_of (team_groups T rows) ?k of None \<Rightarrow> [] | Some d \<Rightarrow> d)"
    have g: "team_groups T (rows @ [r]) = AList.update ?k (AList.update t r old) (team_groups T rows)"
      using t by (simp add: team_groups_snoc group_by_team_def old_def)
    have old: "map_of old u = (if u \<in> T then pick rows ?k u else None)" for u
      using ih(2) [of ?k] by (simp add: old_def split: option.splits)
    have other: "pick (rows @ [r]) k u = pick rows k u" if "k \<noteq> ?k" for k u using that by (simp add: pick_snoc)
    show ?thesis
    proof (intro conjI allI)
      show "distinct (map fst (team_groups T (rows @ [r])))" unfolding g by (rule distinct_update) (rule ih(1))
      fix k
      show "case map_of (team_groups T (rows @ [r])) k of None \<Rightarrow> \<forall>t \<in> T. pick (rows @ [r]) k t = None
          | Some d \<Rightarrow> \<forall>u. map_of d u = (if u \<in> T then pick (rows @ [r]) k u else None)"
      proof (cases "k = ?k")
        case True
        then show ?thesis using t old by (auto simp: g update_conv' pick_snoc)
      next
        case False
        then have m: "map_of (team_groups T (rows @ [r])) k = map_of (team_groups T rows) k" by (simp add: g update_conv')
        show ?thesis unfolding m other [OF False] by (rule ih(2))
      qed
    qed
  qed
qed

lemma candidates_mem:
  "(k, x, y) \<in> set (current_candidates rows a b) \<longleftrightarrow>
     pick (latest_by_odds rows) k a = Some x \<and> pick (latest_by_odds rows) k b = Some y"
proof -
  let ?l = "latest_by_odds rows" and ?T = "{a, b}"
  note g = conjunct1 [OF team_groups_map [of ?T ?l]] conjunct2 [OF team_groups_map [of ?T ?l], rule_format]
  have full: "set (map fst d) = ?T \<longleftrightarrow> pick ?l k a \<noteq> None \<and> pick ?l k b \<noteq> None"
    if d: "map_of (team_groups ?T ?l) k = Some d" for k d
  proof -
    have m: "map_of d t = (if t \<in> ?T then pick ?l k t else None)" for t using g(2) [of k] d by simp
    have "set (map fst d) = dom (map_of d)" by (simp add: dom_map_of_conv_image_fst)
    also have "\<dots> = {t \<in> ?T. pick ?l k t \<noteq> None}" by (auto simp: m dom_def)
    finally show ?thesis by blast
  qed
  have mem: "(k, d) \<in> set (team_groups ?T ?l) \<longleftrightarrow> map_of (team_groups ?T ?l) k = Some d" for k d
    using g(1) by (simp add: map_of_eq_Some_iff)
  have one: "(k, x, y) \<in> set (complete_group a b (k', d)) \<longleftrightarrow>
      k = k' \<and> set (map fst d) = ?T \<and> map_of d a = Some x \<and> map_of d b = Some y" for k' d
    by (cases "set (map fst d) = ?T"; cases "map_of d a"; cases "map_of d b") (auto simp del: set_map)
  have all: "(k, x, y) \<in> set (current_candidates rows a b) \<longleftrightarrow>
      (\<exists>k' d. (k', d) \<in> set (team_groups ?T ?l) \<and> (k, x, y) \<in> set (complete_group a b (k', d)))"
    unfolding current_candidates_def team_groups_def [symmetric] set_concat set_map
    by (simp only: image_image UN_iff Bex_def split_paired_Ex)
  show ?thesis
  proof
    assume "(k, x, y) \<in> set (current_candidates rows a b)"
    then obtain d where d: "(k, d) \<in> set (team_groups ?T ?l)" "map_of d a = Some x" "map_of d b = Some y"
      unfolding all one by blast
    then show "pick ?l k a = Some x \<and> pick ?l k b = Some y" using g(2) [of k] mem by simp
  next
    assume p: "pick ?l k a = Some x \<and> pick ?l k b = Some y"
    then obtain d where d: "map_of (team_groups ?T ?l) k = Some d" using g(2) [of k] by (auto split: option.splits)
    then have "map_of d a = Some x" "map_of d b = Some y" using g(2) [of k] p by simp_all
    moreover have "set (map fst d) = ?T" using full [OF d] p by simp
    ultimately show "(k, x, y) \<in> set (current_candidates rows a b)"
      using mem [of k d] d unfolding all one by blast
  qed
qed

subsection \<open>The freshest pair\<close>

lemma freshest_exists:
  assumes "(f, l, q) \<in> set E" and "mq_eligible q"
  shows "\<exists>f' l' q'. freshest_pair E = Some (l', q') \<and> mq_eligible q' \<and> (f', l', q') \<in> set E \<and> f \<le> f'"
proof -
  let ?el = "filter (\<lambda>(f, l, q). mq_eligible q) E"
  have mem: "(f, l, q) \<in> set ?el" using assms by simp
  then have "?el \<noteq> []" by (metis empty_iff empty_set)
  then obtain m where m: "py_max fst ?el = Some m" by (metis not_Some_eq py_max_None)
  obtain f' l' q' where e: "m = (f', l', q')" by (cases m) auto
  have "(f', l', q') \<in> set ?el" using py_max_in [OF m] by (simp only: e)
  moreover have "f \<le> f'" using py_max_ge [OF m mem] by (simp add: e)
  moreover have "freshest_pair E = Some (l', q')" using m \<open>?el \<noteq> []\<close> by (simp add: freshest_pair_def e)
  ultimately show ?thesis by auto
qed

lemma freshest_eligible:
  assumes "freshest_pair E = Some (l, q)" and "mq_eligible q"
  shows "\<exists>f. (f, l, q) \<in> set E"
proof -
  obtain m where m: "py_max fst (if filter (\<lambda>(f, l, q). mq_eligible q) E = [] then E else filter (\<lambda>(f, l, q). mq_eligible q) E) = Some m"
      "snd m = (l, q)"
    using assms(1) by (auto simp: freshest_pair_def Let_def)
  have "m \<in> set E" using py_max_in [OF m(1)] by (auto split: if_splits)
  then show ?thesis using m(2) by (metis prod.collapse)
qed

subsection \<open>Snapshots and the request-time view\<close>

text \<open>What both views look for: two latest observations of one market, one for each team, that pass.\<close>

definition pair_in ::
  "odds_row list \<Rightarrow> uuid \<Rightarrow> uuid option \<Rightarrow> uuid \<Rightarrow> uuid \<Rightarrow> time \<Rightarrow> rat \<Rightarrow> rat \<Rightarrow> odds_row \<Rightarrow> odds_row \<Rightarrow> bool" where
  "pair_in rows series_id map_id team_a team_b t max_age max_skew x y \<longleftrightarrow>
     {x, y} \<subseteq> {r. latest_for rows (or_odds_id r) = Some r} \<and> market_key_of x = market_key_of y \<and>
     or_selection x = Some team_a \<and> or_selection y = Some team_b \<and>
     pair_ok (leg_of_row x) (leg_of_row y) series_id (expected_map_for (or_match_stage x) map_id) {team_a, team_b} t max_age max_skew"

lemma leg_selection [simp]: "ml_selection (leg_of_row r) = or_selection r" "ml_odds_id (leg_of_row r) = or_odds_id r"
  by (simp_all add: leg_of_row_def)

lemma stage_of_key: "market_key_of r = (m, ty, st) \<Longrightarrow> or_match_stage r = st"
  by (simp add: market_key_of_def)

lemma current_eligible_mem:
  "(\<exists>q. (f, (x, y), q) \<in> set (current_evaluated rows s a b m t ma ms) \<and> mq_eligible q) \<longleftrightarrow>
   f = max (or_received_at x) (or_received_at y) \<and> pair_in rows s m a b t ma ms x y \<and>
   pick (latest_by_odds rows) (market_key_of x) a = Some x \<and> pick (latest_by_odds rows) (market_key_of x) b = Some y"
  (is "?L \<longleftrightarrow> ?R")
proof
  assume ?L
  then obtain match ty st q where c: "((match, ty, st), x, y) \<in> set (current_candidates rows a b)"
    "f = max (or_received_at x) (or_received_at y)" "mq_eligible q"
    "q = evaluate_market_pair [leg_of_row x, leg_of_row y] s (expected_map_for st m) {a, b} t ma ms"
    by (auto simp: current_evaluated_def)
  note p = c(1) [unfolded candidates_mem]
  note x = pick_SomeD [OF conjunct1 [OF p]] and y = pick_SomeD [OF conjunct2 [OF p]]
  have "or_match_stage x = st" using x by (intro stage_of_key) blast
  then show ?R using c(2-4) x y p by (simp add: pair_in_def eligible_pair latest_sets)
next
  assume R: ?R
  obtain match ty st where k: "market_key_of x = (match, ty, st)" by (cases "market_key_of x") auto
  have mem: "((match, ty, st), x, y) \<in> set (current_candidates rows a b)" using R by (simp only: candidates_mem k)
  let ?q = "evaluate_market_pair [leg_of_row x, leg_of_row y] s (expected_map_for st m) {a, b} t ma ms"
  have "(f, (x, y), ?q) \<in> set (current_evaluated rows s a b m t ma ms)"
    unfolding current_evaluated_def set_map by (rule image_eqI [OF _ mem]) (use R in simp)
  moreover have "or_match_stage x = st" by (rule stage_of_key [OF k])
  then have "mq_eligible ?q" using R by (simp add: eligible_pair pair_in_def)
  ultimately show ?L by blast
qed

lemma builder_eligible_mem:
  assumes "(f, items, q) \<in> set (builder_evaluated rows rows s m a b t ma ms)" and "mq_eligible q"
  shows "\<exists>x y. set items = {x, y} \<and> f = max (or_received_at x) (or_received_at y) \<and> pair_in rows s m a b t ma ms x y \<and>
     {r \<in> set (latest_rows rows). market_key_of r = market_key_of x} = {x, y}"
proof -
  obtain match ty st where c: "((match, ty, st), items) \<in> set (group_rows (latest_rows rows))"
    "f = Max (or_received_at ` set items)"
    "q = evaluate_market_pair (map leg_of_row items) s (expected_map_for st m) {a, b} t ma ms"
    using assms(1) by (auto simp: builder_evaluated_def latest_rows_def)
  let ?k = "(match, ty, st)"
  have items: "items = filter (\<lambda>r. market_key_of r = ?k) (latest_rows rows)" using c(1) by (simp add: group_rows_mem)
  obtain u v where uv: "items = [u, v]"
    using eligible_two [OF assms(2) [unfolded c(3)]] by (auto simp: map_eq_Cons_conv)
  have set: "{r \<in> set (latest_rows rows). market_key_of r = ?k} = {u, v}"
    using arg_cong [OF items, of set] uv by auto
  then have mem: "u \<in> set (latest_rows rows)" "v \<in> set (latest_rows rows)" "market_key_of u = ?k" "market_key_of v = ?k"
    by auto
  have ok: "pair_ok (leg_of_row u) (leg_of_row v) s (expected_map_for st m) {a, b} t ma ms"
    using assms(2) by (simp add: c(3) uv eligible_pair)
  then obtain su sv where sel: "or_selection u = Some su" "or_selection v = Some sv" "su \<noteq> sv" "{su, sv} = {a, b}"
    by (auto simp: pair_ok_def)
  have st: "or_match_stage u = st" "or_match_stage v = st" using mem by (auto intro: stage_of_key)
  have f: "f = max (or_received_at u) (or_received_at v)" by (simp add: c(2) uv)
  show ?thesis
  proof (cases "su = a")
    case True
    then have "sv = b" using sel by (auto simp: doubleton_eq_iff)
    then have "pair_in rows s m a b t ma ms u v" using True sel mem ok st by (simp add: pair_in_def latest_sets)
    then show ?thesis using uv f set mem by (intro exI [of _ u] exI [of _ v]) simp
  next
    case False
    then have "su = b" "sv = a" using sel by (auto simp: doubleton_eq_iff)
    then have "pair_in rows s m a b t ma ms v u"
      using sel mem ok [unfolded pair_ok_sym [of "leg_of_row u"]] st by (simp add: pair_in_def latest_sets)
    then show ?thesis using uv f set mem by (intro exI [of _ v] exI [of _ u]) (simp add: max.commute insert_commute)
  qed
qed

lemma pick_unique:
  assumes "x \<in> set rows" and "market_key_of x = k" and "or_selection x = Some t"
    and "\<And>z. z \<in> set rows \<Longrightarrow> market_key_of z = k \<Longrightarrow> or_selection z = Some t \<Longrightarrow> z = x"
  shows "pick rows k t = Some x"
proof -
  obtain z where z: "pick rows k t = Some z" using pick_ex [OF assms(1-3)] by blast
  then have "z = x" using pick_SomeD [OF z] assms(4) by blast
  then show ?thesis using z by simp
qed

text \<open>Every pair a snapshot may use is one the request-time view may use.\<close>

lemma builder_pair_is_current:
  assumes "(f, items, q) \<in> set (builder_evaluated rows rows s m a b t ma ms)" and "mq_eligible q"
  shows "\<exists>x y q'. set items = {x, y} \<and> (f, (x, y), q') \<in> set (current_evaluated rows s a b m t ma ms) \<and> mq_eligible q'"
proof -
  obtain x y where xy: "set items = {x, y}" "f = max (or_received_at x) (or_received_at y)" "pair_in rows s m a b t ma ms x y"
    "{r \<in> set (latest_rows rows). market_key_of r = market_key_of x} = {x, y}"
    using builder_eligible_mem [OF assms] by blast
  have p: "market_key_of y = market_key_of x" "or_selection x = Some a" "or_selection y = Some b" "a \<noteq> b"
    using xy(3) by (auto simp: pair_in_def pair_ok_def)
  have group: "z = x \<or> z = y" if "z \<in> set (latest_by_odds rows)" "market_key_of z = market_key_of x" for z
    using that xy(4) by (auto simp: latest_sets)
  have mem: "x \<in> set (latest_by_odds rows)" "y \<in> set (latest_by_odds rows)" using xy(3) by (simp_all add: pair_in_def latest_sets)
  have "pick (latest_by_odds rows) (market_key_of x) a = Some x"
    by (rule pick_unique [OF mem(1) refl p(2)]) (metis group p(3,4) option.inject)
  moreover have "pick (latest_by_odds rows) (market_key_of x) b = Some y"
    by (rule pick_unique [OF mem(2) p(1,3)]) (metis group p(2,4) option.inject)
  ultimately have "\<exists>q'. (f, (x, y), q') \<in> set (current_evaluated rows s a b m t ma ms) \<and> mq_eligible q'"
    unfolding current_eligible_mem using xy by simp
  then show ?thesis using xy(1) by blast
qed

text \<open>The converse needs each market to hold one odds id per team and no other selection.\<close>

definition one_odds_per_team :: "odds_row list \<Rightarrow> uuid \<Rightarrow> uuid \<Rightarrow> bool" where
  "one_odds_per_team rows a b \<longleftrightarrow>
     (\<forall>x \<in> set rows. or_selection x = Some a \<or> or_selection x = Some b) \<and>
     (\<forall>x \<in> set rows. \<forall>y \<in> set rows. market_key_of x = market_key_of y \<and> or_selection x = or_selection y \<longrightarrow>
        or_odds_id x = or_odds_id y)"

lemma current_pair_is_builder:
  assumes "(f, (x, y), q) \<in> set (current_evaluated rows s a b m t ma ms)" and "mq_eligible q"
    and "one_odds_per_team rows a b"
  shows "\<exists>items q'. set items = {x, y} \<and> (f, items, q') \<in> set (builder_evaluated rows rows s m a b t ma ms) \<and> mq_eligible q'"
proof -
  have c: "f = max (or_received_at x) (or_received_at y)" "pair_in rows s m a b t ma ms x y"
    using current_eligible_mem [of f x y rows s a b m t ma ms] assms(1,2) by blast+
  have p: "latest_for rows (or_odds_id x) = Some x" "latest_for rows (or_odds_id y) = Some y"
    "market_key_of y = market_key_of x" "or_selection x = Some a" "or_selection y = Some b"
    "pair_ok (leg_of_row x) (leg_of_row y) s (expected_map_for (or_match_stage x) m) {a, b} t ma ms"
    using c(2) by (simp_all add: pair_in_def)
  let ?items = "filter (\<lambda>r. market_key_of r = market_key_of x) (latest_rows rows)"
  have set: "set ?items = {x, y}"
  proof (intro set_eqI iffI)
    fix z assume "z \<in> set ?items"
    then have z: "latest_for rows (or_odds_id z) = Some z" "market_key_of z = market_key_of x" by (simp_all add: latest_sets)
    note in_rows = conjunct1 [OF latest_for_in]
    have "or_selection z = Some a \<or> or_selection z = Some b"
      using assms(3) in_rows [OF z(1)] by (simp add: one_odds_per_team_def)
    moreover have "or_odds_id z = or_odds_id w" if "w \<in> set rows" "market_key_of z = market_key_of w" "or_selection z = or_selection w" for w
      using assms(3) in_rows [OF z(1)] that unfolding one_odds_per_team_def by blast
    ultimately have "or_odds_id z = or_odds_id x \<or> or_odds_id z = or_odds_id y"
      using in_rows [OF p(1)] in_rows [OF p(2)] z(2) p(3-5) by (elim disjE) simp_all
    then show "z \<in> {x, y}" using z(1) p(1,2) by (metis insertCI option.inject)
  next
    fix z assume "z \<in> {x, y}"
    then have "latest_for rows (or_odds_id z) = Some z \<and> market_key_of z = market_key_of x" using p(1-3) by blast
    then show "z \<in> set ?items" by (simp add: latest_sets)
  qed
  have "distinct ?items" using latest_sets(3) [of rows] by (simp add: distinct_map)
  moreover have "x \<noteq> y" using p(6) by (auto simp: pair_ok_def)
  ultimately have "length ?items = 2" using set by (metis card_2_iff distinct_card)
  then obtain u v where "?items = [u, v]" by (auto simp: numeral_2_eq_2 length_Suc_conv)
  then have items: "?items = [x, y] \<or> ?items = [y, x]" using set by (auto simp: doubleton_eq_iff)
  obtain match ty st where k: "market_key_of x = (match, ty, st)" by (cases "market_key_of x") auto
  let ?q = "evaluate_market_pair (map leg_of_row ?items) s (expected_map_for st m) {a, b} t ma ms"
  have mem: "((match, ty, st), ?items) \<in> set (group_rows (latest_rows rows))" using items by (auto simp: group_rows_mem k)
  have mx: "Max (or_received_at ` set ?items) = max (or_received_at x) (or_received_at y)" unfolding set by simp
  have "(f, ?items, ?q) \<in> set (builder_evaluated rows rows s m a b t ma ms)"
    unfolding builder_evaluated_def latest_rows_def [symmetric] set_map by (rule image_eqI [OF _ mem]) (simp only: prod.case mx c(1))
  moreover have "or_match_stage x = st" by (rule stage_of_key [OF k])
  then have "mq_eligible ?q" using items p(6) pair_ok_sym [of "leg_of_row y" "leg_of_row x"] by (auto simp: eligible_pair)
  ultimately show ?thesis using set by blast
qed

text \<open>What makes a market usable: \<open>evaluate_market_pair\<close> declares a pair eligible exactly when its two
  legs are distinct odds of the same match, type and stage of the expected series and map, one for each
  of the two expected teams, priced above one, received in the past within the maximal age and skew,
  with one metadata version and no suspended or closed leg; the order of the legs does not matter,
  and the margin can then be removed: the fair probabilities are positive, sum to one and favour
  the shorter price.\<close>

theorem eligible_market_is_tradable:
  "mq_eligible (evaluate_market_pair legs s m ts t ma ms) \<longleftrightarrow>
     (\<exists>a b. legs = [a, b] \<and> pair_ok a b s m ts t ma ms \<and>
        mq_eligible (evaluate_market_pair [b, a] s m ts t ma ms) \<and>
        (\<exists>p q total. remove_vig (ml_price a) (ml_price b) = Inr (p, q, total) \<and> 0 < p \<and> 0 < q \<and> p + q = 1 \<and>
           (p < q \<longleftrightarrow> ml_price b < ml_price a)))"
proof
  assume el: "mq_eligible (evaluate_market_pair legs s m ts t ma ms)"
  obtain a b where legs: "legs = [a, b]" using eligible_two [OF el] by blast
  have ok: "pair_ok a b s m ts t ma ms" using el by (simp add: legs eligible_pair)
  then have "1 < ml_price a" "1 < ml_price b" by (simp_all add: pair_ok_def)
  from vig_sums_to_one [OF this] ok legs show "\<exists>a b. legs = [a, b] \<and> pair_ok a b s m ts t ma ms \<and>
        mq_eligible (evaluate_market_pair [b, a] s m ts t ma ms) \<and>
        (\<exists>p q total. remove_vig (ml_price a) (ml_price b) = Inr (p, q, total) \<and> 0 < p \<and> 0 < q \<and> p + q = 1 \<and>
           (p < q \<longleftrightarrow> ml_price b < ml_price a))"
    using pair_ok_sym [of a b] by (intro exI [of _ a] exI [of _ b]) (simp add: eligible_pair)
qed (auto simp: eligible_pair)

lemma freshest_time:
  assumes "(f, (x, y), q) \<in> set (current_evaluated rows s a b m t ma ms)" and "mq_eligible q"
  shows "f = max (or_received_at x) (or_received_at y)"
  using current_eligible_mem [of f x y rows s a b m t ma ms] assms by blast

lemma snapshot_market_is_current:
  assumes "freshest_pair (builder_evaluated rows rows s m a b t ma ms) = Some (items, q)" and "mq_eligible q"
  shows "\<exists>x y q'. evaluate_current_market_pair rows (Some (s, a, b)) m t ma ms = Some ((x, y), q') \<and> mq_eligible q' \<and>
     Max (or_received_at ` set items) \<le> max (or_received_at x) (or_received_at y)"
proof -
  let ?C = "current_evaluated rows s a b m t ma ms"
  obtain f where f: "(f, items, q) \<in> set (builder_evaluated rows rows s m a b t ma ms)" using freshest_eligible [OF assms] by blast
  obtain u v qc where c: "set items = {u, v}" "(f, (u, v), qc) \<in> set ?C" "mq_eligible qc"
    using builder_pair_is_current [OF f assms(2)] by blast
  obtain f' l' q' where n: "freshest_pair ?C = Some (l', q')" "mq_eligible q'" "(f', l', q') \<in> set ?C" "f \<le> f'"
    using freshest_exists [OF c(2,3)] by blast
  obtain x y where l': "l' = (x, y)" by (cases l')
  have "Max (or_received_at ` set items) = f" using freshest_time [OF c(2,3)] by (simp add: c(1))
  moreover have "f' = max (or_received_at x) (or_received_at y)" by (rule freshest_time [OF n(3) [unfolded l'] n(2)])
  ultimately show ?thesis using n l' by (simp add: evaluate_current_market_pair_def)
qed

lemma current_market_is_snapshot:
  assumes "evaluate_current_market_pair rows (Some (s, a, b)) m t ma ms = Some ((x, y), q)" and "mq_eligible q"
    and one: "one_odds_per_team rows a b"
  shows "\<exists>items q'. freshest_pair (builder_evaluated rows rows s m a b t ma ms) = Some (items, q') \<and> mq_eligible q' \<and>
     max (or_received_at x) (or_received_at y) \<le> Max (or_received_at ` set items)"
proof -
  let ?B = "builder_evaluated rows rows s m a b t ma ms"
  have C: "freshest_pair (current_evaluated rows s a b m t ma ms) = Some ((x, y), q)"
    using assms(1) by (simp add: evaluate_current_market_pair_def)
  obtain f where f: "(f, (x, y), q) \<in> set (current_evaluated rows s a b m t ma ms)"
    using freshest_eligible [OF C assms(2)] by blast
  obtain items2 q2 where b: "(f, items2, q2) \<in> set ?B" "mq_eligible q2"
    using current_pair_is_builder [OF f assms(2) one] by blast
  obtain f2 items q' where n: "freshest_pair ?B = Some (items, q')" "mq_eligible q'" "(f2, items, q') \<in> set ?B" "f \<le> f2"
    using freshest_exists [OF b] by blast
  obtain u v qc where c: "set items = {u, v}" "(f2, (u, v), qc) \<in> set (current_evaluated rows s a b m t ma ms)" "mq_eligible qc"
    using builder_pair_is_current [OF n(3,2)] by blast
  have "Max (or_received_at ` set items) = f2" using freshest_time [OF c(2,3)] by (simp add: c(1))
  then show ?thesis using n freshest_time [OF f assms(2)] by auto
qed

text \<open>The dashboard never disagrees with an executable snapshot: if the market a snapshot would store is
  eligible, the request-time evaluation of the same rows returns an eligible pair too, at least as
  fresh.  If every market lists one odds id per team and nothing else, the two are equally fresh, and
  a market that is eligible at request time is eligible for a snapshot.\<close>

theorem market_views_agree:
  "(\<forall>items q. freshest_pair (builder_evaluated rows rows s m a b t ma ms) = Some (items, q) \<and> mq_eligible q \<longrightarrow>
     (\<exists>x y q'. evaluate_current_market_pair rows (Some (s, a, b)) m t ma ms = Some ((x, y), q') \<and> mq_eligible q' \<and>
        Max (or_received_at ` set items) \<le> max (or_received_at x) (or_received_at y) \<and>
        (one_odds_per_team rows a b \<longrightarrow> Max (or_received_at ` set items) = max (or_received_at x) (or_received_at y)))) \<and>
   (\<forall>x y q. one_odds_per_team rows a b \<and>
        evaluate_current_market_pair rows (Some (s, a, b)) m t ma ms = Some ((x, y), q) \<and> mq_eligible q \<longrightarrow>
     (\<exists>items q'. freshest_pair (builder_evaluated rows rows s m a b t ma ms) = Some (items, q') \<and> mq_eligible q'))"
proof (intro conjI allI impI)
  fix items q
  assume B: "freshest_pair (builder_evaluated rows rows s m a b t ma ms) = Some (items, q) \<and> mq_eligible q"
  then obtain x y q' where C: "evaluate_current_market_pair rows (Some (s, a, b)) m t ma ms = Some ((x, y), q')" "mq_eligible q'"
    "Max (or_received_at ` set items) \<le> max (or_received_at x) (or_received_at y)"
    using snapshot_market_is_current by blast
  moreover have "max (or_received_at x) (or_received_at y) \<le> Max (or_received_at ` set items)" if "one_odds_per_team rows a b"
    using current_market_is_snapshot [OF C(1,2) that] B by auto
  ultimately show "\<exists>x y q'. evaluate_current_market_pair rows (Some (s, a, b)) m t ma ms = Some ((x, y), q') \<and> mq_eligible q' \<and>
        Max (or_received_at ` set items) \<le> max (or_received_at x) (or_received_at y) \<and>
        (one_odds_per_team rows a b \<longrightarrow> Max (or_received_at ` set items) = max (or_received_at x) (or_received_at y))"
    by (intro exI [of _ x] exI [of _ y] exI [of _ q']) (simp add: antisym)
next
  fix x y q
  assume "one_odds_per_team rows a b \<and>
      evaluate_current_market_pair rows (Some (s, a, b)) m t ma ms = Some ((x, y), q) \<and> mq_eligible q"
  then show "\<exists>items q'. freshest_pair (builder_evaluated rows rows s m a b t ma ms) = Some (items, q') \<and> mq_eligible q'"
    using current_market_is_snapshot by blast
qed

subsection \<open>Examples\<close>

definition sample_odds :: "uuid \<Rightarrow> int \<Rightarrow> uuid \<Rightarrow> time \<Rightarrow> odds_row" where
  "sample_odds i odds_id team received_at =
     \<lparr>or_id = i, or_provider_match_id = 1, or_odds_id = odds_id, or_series_id = Some 3, or_map_id = Some 5,
      or_market_type = Some ''Winner'', or_match_stage = Some ''r1'', or_selection = Some team, or_price = 2,
      or_implied_probability = 1 / 2, or_raw_status = Some 1, or_normalized_status = Some ''open-confirmed'',
      or_metadata_version = Some ''v1'', or_provider_updated_at = None, or_received_at = received_at\<rparr>"

definition sample_rows :: "odds_row list" where
  "sample_rows = [sample_odds 0 100 10 1000000, sample_odds 1 101 11 2000000, sample_odds 2 100 10 3000000]"

lemma sample_rows_unique: "one_odds_per_team sample_rows 10 11"
  by (auto simp: one_odds_per_team_def sample_rows_def sample_odds_def)

theorem market_views_agree_witness:
  "\<exists>x y q. evaluate_current_market_pair sample_rows (Some (3, 10, 11)) (Some 5) 4000000 60 10 = Some ((x, y), q) \<and>
     mq_eligible q \<and> max (or_received_at x) (or_received_at y) = 3000000"
proof -
  let ?B = "freshest_pair (builder_evaluated sample_rows sample_rows 3 (Some 5) 10 11 4000000 60 10)"
  have "map_option (\<lambda>(items, q). (map or_received_at items, mq_eligible q)) ?B = Some ([2000000, 3000000], True)"
    by code_simp
  then obtain items q where B: "?B = Some (items, q)" "map or_received_at items = [2000000, 3000000]" "mq_eligible q" by auto
  have "or_received_at ` set items = set [2000000, 3000000]" by (simp only: set_map [symmetric] B(2))
  then have "Max (or_received_at ` set items) = 3000000" by simp
  then show ?thesis
    using market_views_agree [of sample_rows 3 "Some 5" 10 11 4000000 60 10] B sample_rows_unique by fastforce
qed

text \<open>Without that condition the two views differ: a second odds id of a team makes the market of the
  snapshot ineligible, while the request-time view shows the pair with the odds id listed last, even
  when the other one is fresher.\<close>

lemma duplicate_listing_splits_views:
  "let rows = [sample_odds 0 100 10 3000000, sample_odds 1 101 11 3000000, sample_odds 2 102 10 1000000]
   in map_option (\<lambda>(items, q). mq_eligible q) (freshest_pair (builder_evaluated rows rows 3 (Some 5) 10 11 4000000 60 10)) = Some False \<and>
      map_option (\<lambda>((x, y), q). (or_id x, mq_eligible q))
        (evaluate_current_market_pair rows (Some (3, 10, 11)) (Some 5) 4000000 60 10) = Some (2, True)"
  by code_simp

end
