(* ===== verification/Gates.thy ===== *)
theory Gates
  imports Events
begin

text \<open>
  When a decision is taken: the snapshot gate (\<open>evaluate_gate\<close> of \<open>app/snapshots/gates.py\<close>), the
  game-time eligibility of AI decisions (\<open>app/ai/eligibility.py\<close>) and the checkpoint events of
  \<open>app/snapshots/triggers.py\<close>.  The parser of ISO timestamps is an argument.
\<close>

subsection \<open>Decision modes\<close>

datatype decision_mode = PREMATCH | POST_DRAFT | LIVE_BASIC | LIVE_FULL

text \<open>The modes in the order in which they use more evidence.\<close>

fun mode_rank :: "decision_mode \<Rightarrow> nat" where
  "mode_rank PREMATCH = 0"
| "mode_rank POST_DRAFT = 1"
| "mode_rank LIVE_BASIC = 2"
| "mode_rank LIVE_FULL = 3"

lemma mode_rank_inj [simp]: "mode_rank a = mode_rank b \<longleftrightarrow> a = b"
  by (cases a; cases b) simp_all

instantiation decision_mode :: linorder
begin

definition less_eq_decision_mode :: "decision_mode \<Rightarrow> decision_mode \<Rightarrow> bool" where
  "a \<le> b \<longleftrightarrow> mode_rank a \<le> mode_rank b"

definition less_decision_mode :: "decision_mode \<Rightarrow> decision_mode \<Rightarrow> bool" where
  "a < b \<longleftrightarrow> mode_rank a < mode_rank b"

instance
  by standard (auto simp: less_eq_decision_mode_def less_decision_mode_def)

end

subsection \<open>The gate\<close>

record gate_context =
  gc_identity_complete :: bool
  gc_market_available :: bool
  gc_market_pair_valid :: bool
  gc_market_blockers :: "string list"
  gc_market_warnings :: "string list"
  gc_market_age :: "rat option"
  gc_market_max_age :: rat
  gc_draft_available :: bool
  gc_draft_complete :: bool
  gc_future_leak :: bool
  gc_history_blockers :: "string list"
  gc_history_warnings :: "string list"
  gc_live_available :: bool
  gc_live_message_age :: "rat option"
  gc_live_age :: "rat option"
  gc_live_max_age :: rat
  gc_sync_status :: "string option"
  gc_sync_confidence :: "string option"
  gc_live_full_available :: bool

record gate_result =
  gr_eligible :: bool
  gr_mode :: decision_mode
  gr_blockers :: "string list"
  gr_warnings :: "string list"

text \<open>An age counts as fresh when it is known, not negative and within the limit.\<close>

definition fresh :: "rat option \<Rightarrow> rat \<Rightarrow> bool" where
  "fresh age max_age = (case age of None \<Rightarrow> False | Some x \<Rightarrow> 0 \<le> x \<and> x \<le> max_age)"

definition gate_blockers :: "gate_context \<Rightarrow> string list" where
  "gate_blockers c =
     (if gc_identity_complete c then [] else [''IDENTITY_AMBIGUOUS'']) @
     (if \<not> gc_market_available c then [''MARKET_MISSING'']
      else if \<not> gc_market_pair_valid c then ''MARKET_PAIR_INVALID'' # gc_market_blockers c
      else if \<not> fresh (gc_market_age c) (gc_market_max_age c) then [''MARKET_STALE'']
      else []) @
     (if gc_future_leak c then [''HISTORICAL_DATA_FUTURE_LEAK''] else []) @
     gc_history_blockers c"

definition live_verdict :: "gate_context \<Rightarrow> string + decision_mode" where
  "live_verdict c =
     (if \<not> fresh (gc_live_message_age c) (gc_live_max_age c) then Inl ''LIVE_STALE''
      else if \<not> fresh (gc_live_age c) (gc_live_max_age c) then Inl ''LIVE_STALE''
      else if gc_sync_status c = Some ''SAFE'' \<and> gc_sync_confidence c \<in> {Some ''MEDIUM'', Some ''HIGH''}
      then Inr (if gc_live_full_available c then LIVE_FULL else LIVE_BASIC)
      else if gc_sync_status c \<in> {None, Some ''UNKNOWN'', Some ''CALIBRATING''} then Inl ''LIVE_SYNC_UNKNOWN''
      else Inl ''LIVE_DATA_DESYNC'')"

definition evaluate_gate :: "gate_context \<Rightarrow> gate_result" where
  "evaluate_gate c =
     (let blockers = gate_blockers c;
          warnings = gc_history_warnings c @ gc_market_warnings c;
          (mode, warnings) = (if gc_draft_complete c then (POST_DRAFT, warnings)
                              else if gc_draft_available c then (PREMATCH, warnings @ [''DRAFT_PARTIAL''])
                              else (PREMATCH, warnings));
          (mode, warnings) = (if gc_live_available c \<and> gc_draft_complete c
                              then (case live_verdict c of Inl w \<Rightarrow> (mode, warnings @ [w]) | Inr m \<Rightarrow> (m, warnings))
                              else (mode, warnings))
      in \<lparr>gr_eligible = (blockers = []), gr_mode = mode, gr_blockers = fromkeys blockers, gr_warnings = fromkeys warnings\<rparr>)"

subsection \<open>Game-time eligibility\<close>

definition live_game_time_seconds :: "json \<Rightarrow> int option" where
  "live_game_time_seconds live =
     (case live of
        JObj fs \<Rightarrow> (case json_get fs ''game_time_seconds'' of JInt i \<Rightarrow> Some i | _ \<Rightarrow> None)
      | _ \<Rightarrow> None)"

definition with_utc_suffix :: "string \<Rightarrow> string" where
  "with_utc_suffix s = concat (map (\<lambda>c. if c = CHR ''Z'' then ''+00:00'' else [c]) s)"

text \<open>\<open>_payload_datetime\<close>: only an aware timestamp counts.\<close>

definition payload_datetime :: "(string \<Rightarrow> py_datetime option) \<Rightarrow> json \<Rightarrow> py_datetime option" where
  "payload_datetime parse_iso v =
     (case v of
        JStr s \<Rightarrow> (case parse_iso (with_utc_suffix s) of Some (Aware w off) \<Rightarrow> Some (Aware w off) | _ \<Rightarrow> None)
      | _ \<Rightarrow> None)"

text \<open>\<open>quality.get("live_anchors") or {}\<close>; a value that is neither falsy nor a dictionary has no \<open>get\<close>.\<close>

definition anchor_value :: "(string \<times> json) list \<Rightarrow> json option" where
  "anchor_value quality =
     (case json_get quality ''live_anchors'' of
        JObj fs \<Rightarrow> Some (json_get fs ''real_start_anchor'')
      | v \<Rightarrow> if json_truthy v then None else Some JNull)"

definition is_game_time_eligible ::
  "(string \<Rightarrow> py_datetime option) \<Rightarrow> (string \<times> json) list \<Rightarrow> json \<Rightarrow> py_datetime option \<Rightarrow> int \<Rightarrow> string + bool" where
  "is_game_time_eligible parse_iso quality live decision_at min_seconds =
     (case anchor_value quality of
        None \<Rightarrow> Inl ''AttributeError''
      | Some anchor \<Rightarrow>
         (case (decision_at, payload_datetime parse_iso anchor) of
            (Some (Aware w off), Some a) \<Rightarrow>
              Inr (of_int min_seconds \<le> seconds_of (ensure_utc (Aware w off) - ensure_utc a))
          | _ \<Rightarrow>
              Inr (case live_game_time_seconds live of None \<Rightarrow> False | Some g \<Rightarrow> min_seconds \<le> g)))"

definition ai_record_is_game_time_eligible ::
  "(string \<Rightarrow> py_datetime option) \<Rightarrow> (string \<times> json) list \<Rightarrow> int \<Rightarrow> py_datetime option \<Rightarrow> string + bool" where
  "ai_record_is_game_time_eligible parse_iso payload min_seconds decision_at =
     is_game_time_eligible parse_iso (case json_get payload ''quality'' of JObj q \<Rightarrow> q | _ \<Rightarrow> []) (json_get payload ''live'')
       (case decision_at of Some d \<Rightarrow> Some d | None \<Rightarrow> payload_datetime parse_iso (json_get payload ''decision_at'')) min_seconds"

definition ai_decision_is_game_time_eligible ::
  "(string \<Rightarrow> py_datetime option) \<Rightarrow> (string \<times> json) list \<Rightarrow> json \<Rightarrow> py_datetime \<Rightarrow> int \<Rightarrow> string + bool" where
  "ai_decision_is_game_time_eligible parse_iso quality live decision_at min_seconds =
     is_game_time_eligible parse_iso quality live (Some decision_at) min_seconds"

subsection \<open>Checkpoints\<close>

text \<open>The checkpoints passed since the previous observation; with no previous observation only the last
  one counts.  \<open>previous_game_time or -1\<close> takes the game time 0 for unknown.\<close>

definition crossed :: "rat option \<Rightarrow> rat \<Rightarrow> int list \<Rightarrow> int list" where
  "crossed previous current minutes =
     (let passed = filter (\<lambda>m. (case previous of None \<Rightarrow> - 1 | Some p \<Rightarrow> p) < of_int (m * 60) \<and> of_int (m * 60) \<le> current) minutes
      in if previous = None \<and> passed \<noteq> [] then [last passed] else passed)"

definition game_time_crossed :: "int option \<Rightarrow> int \<Rightarrow> int list \<Rightarrow> int list" where
  "game_time_crossed previous current minutes =
     (let p = (case previous of None \<Rightarrow> - 1 | Some p \<Rightarrow> if p = 0 then - 1 else p);
          passed = filter (\<lambda>m. p < m * 60 \<and> m * 60 \<le> current) minutes
      in if previous = None \<and> passed \<noteq> [] then [last passed] else passed)"

definition checkpoint_event :: "uuid \<Rightarrow> time \<Rightarrow> string \<Rightarrow> int \<Rightarrow> domain_event" where
  "checkpoint_event map_id observed_at basis minute =
     \<lparr>ev_type = DECISION_CHECKPOINT_DUE, ev_aggregate_type = ''canonical_map'', ev_aggregate_id = str_uuid map_id,
      ev_dedupe_key = ''checkpoint:'' @ str_uuid map_id @ '':'' @ str_int minute,
      ev_payload = [(''canonical_map_id'', JStr (str_uuid map_id)), (''decision_at'', JStr (isoformat observed_at)),
                    (''checkpoint_minute'', JInt minute), (''basis'', JStr basis)],
      ev_occurred_at = observed_at\<rparr>"

definition record_crossed_checkpoints ::
  "bool \<Rightarrow> event_db \<Rightarrow> time \<Rightarrow> uuid \<Rightarrow> int option \<Rightarrow> int option \<Rightarrow> int list \<Rightarrow> time \<Rightarrow> rat option \<Rightarrow> rat option \<Rightarrow>
   event_error + (nat \<times> event_db)" where
  "record_crossed_checkpoints pg db now map_id previous_game_time current_game_time minutes observed_at
       real_elapsed previous_real_elapsed =
     (let (basis, passed) =
        (case real_elapsed of
           Some t \<Rightarrow> (''real_time'', crossed previous_real_elapsed t minutes)
         | None \<Rightarrow> (''game_time'', (case current_game_time of None \<Rightarrow> [] | Some g \<Rightarrow> game_time_crossed previous_game_time g minutes)))
      in case record_all pg db now (map (checkpoint_event map_id observed_at basis) passed) of
           Inl e \<Rightarrow> Inl e
         | Inr db' \<Rightarrow> Inr (length passed, db'))"

end
