(* ===== verification/GateProperties.thy ===== *)
theory GateProperties
  imports Gates EventProperties
begin

text \<open>
  Properties of the decision triggers: which evidence the gate needs for which mode, and which
  checkpoints a map gets.
\<close>

subsection \<open>The gate\<close>

lemma live_verdict_Inr:
  "(\<exists>m. live_verdict c = Inr m) \<longleftrightarrow>
     fresh (gc_live_message_age c) (gc_live_max_age c) \<and> fresh (gc_live_age c) (gc_live_max_age c) \<and>
     gc_sync_status c = Some ''SAFE'' \<and> gc_sync_confidence c \<in> {Some ''MEDIUM'', Some ''HIGH''}"
  by (auto simp: live_verdict_def)

lemma live_verdict_mode: "live_verdict c = Inr m \<Longrightarrow> m = (if gc_live_full_available c then LIVE_FULL else LIVE_BASIC)"
  by (auto simp: live_verdict_def split: if_splits)

definition live_ok :: "gate_context \<Rightarrow> bool" where
  "live_ok c \<longleftrightarrow> gc_live_available c \<and> gc_draft_complete c \<and> (\<exists>m. live_verdict c = Inr m)"

lemma gate_mode:
  "gr_mode (evaluate_gate c) =
     (if live_ok c then (if gc_live_full_available c then LIVE_FULL else LIVE_BASIC)
      else if gc_draft_complete c then POST_DRAFT else PREMATCH)"
  by (auto simp: evaluate_gate_def live_ok_def Let_def dest: live_verdict_mode split: sum.split)

lemma gate_blockers_of: "gr_eligible (evaluate_gate c) \<longleftrightarrow> gate_blockers c = []" "gr_blockers (evaluate_gate c) = fromkeys (gate_blockers c)"
  by (simp_all add: evaluate_gate_def Let_def split: prod.split)

lemma gate_warnings_distinct: "distinct (gr_warnings (evaluate_gate c))"
  by (simp add: evaluate_gate_def Let_def split: prod.split)

lemma modes_ordered [simp]:
  "LIVE_BASIC \<le> LIVE_FULL" "LIVE_BASIC \<le> LIVE_BASIC" "\<not> LIVE_BASIC \<le> POST_DRAFT" "\<not> LIVE_BASIC \<le> PREMATCH"
  "POST_DRAFT \<le> LIVE_FULL" "POST_DRAFT \<le> LIVE_BASIC" "\<not> POST_DRAFT \<le> PREMATCH"
  by (simp_all add: less_eq_decision_mode_def)

text \<open>The gate lets a decision through exactly when the identity is complete, a valid market pair is
  fresh, no historical fact is from the future and the history has no blocker; live data never
  blocks, it only decides the mode.  A live mode is reached exactly when the draft is complete and
  the live data is fresh in both ages and safely synchronized with at least medium confidence, a
  mode from POST_DRAFT on exactly when the draft is complete; reported codes are distinct.\<close>

theorem gate_modes_need_their_evidence:
  "(gr_eligible (evaluate_gate c) \<longleftrightarrow>
      gc_identity_complete c \<and> gc_market_available c \<and> gc_market_pair_valid c \<and>
      fresh (gc_market_age c) (gc_market_max_age c) \<and> \<not> gc_future_leak c \<and> gc_history_blockers c = []) \<and>
   (LIVE_BASIC \<le> gr_mode (evaluate_gate c) \<longleftrightarrow>
      gc_live_available c \<and> gc_draft_complete c \<and>
      fresh (gc_live_message_age c) (gc_live_max_age c) \<and> fresh (gc_live_age c) (gc_live_max_age c) \<and>
      gc_sync_status c = Some ''SAFE'' \<and> gc_sync_confidence c \<in> {Some ''MEDIUM'', Some ''HIGH''}) \<and>
   (POST_DRAFT \<le> gr_mode (evaluate_gate c) \<longleftrightarrow> gc_draft_complete c) \<and>
   distinct (gr_blockers (evaluate_gate c)) \<and> distinct (gr_warnings (evaluate_gate c))"
proof -
  have "gate_blockers c = [] \<longleftrightarrow>
      gc_identity_complete c \<and> gc_market_available c \<and> gc_market_pair_valid c \<and>
      fresh (gc_market_age c) (gc_market_max_age c) \<and> \<not> gc_future_leak c \<and> gc_history_blockers c = []"
    by (simp add: gate_blockers_def)
  moreover have "LIVE_BASIC \<le> gr_mode (evaluate_gate c) \<longleftrightarrow> live_ok c" by (simp add: gate_mode)
  moreover have "POST_DRAFT \<le> gr_mode (evaluate_gate c) \<longleftrightarrow> gc_draft_complete c" by (auto simp: gate_mode live_ok_def)
  ultimately show ?thesis
    by (simp add: gate_blockers_of gate_warnings_distinct live_ok_def live_verdict_Inr)
qed

subsection \<open>Checkpoints\<close>

text \<open>The checkpoints recorded while the elapsed time of a map is observed again and again.\<close>

fun observe_elapsed ::
  "bool \<Rightarrow> event_db \<Rightarrow> uuid \<Rightarrow> int list \<Rightarrow> rat option \<Rightarrow> (time \<times> rat) list \<Rightarrow> event_error + event_db" where
  "observe_elapsed pg db map_id minutes previous [] = Inr db"
| "observe_elapsed pg db map_id minutes previous ((now, t) # ts) =
     (case record_crossed_checkpoints pg db now map_id None None minutes now (Some t) previous of
        Inl e \<Rightarrow> Inl e
      | Inr (n, db') \<Rightarrow> observe_elapsed pg db' map_id minutes (Some t) ts)"

fun all_crossed :: "int list \<Rightarrow> rat option \<Rightarrow> rat list \<Rightarrow> int set" where
  "all_crossed minutes previous [] = {}"
| "all_crossed minutes previous (t # ts) = set (crossed previous t minutes) \<union> all_crossed minutes (Some t) ts"

lemma record_event_adds:
  assumes "record_event pg db now ev topics = Inr (r, db')"
  shows "is_recorded db' ev' \<longleftrightarrow> is_recorded db ev' \<or> (ev_type ev' = ev_type ev \<and> ev_dedupe_key ev' = ev_dedupe_key ev)"
proof -
  have inj: "event_type_value x = event_type_value y \<longleftrightarrow> x = y" for x y
    by (metis option.inject parse_event_type_value)
  show ?thesis
  proof (cases "find_row (same_event (event_type_value (ev_type ev)) (ev_dedupe_key ev)) (events db)")
    case None
    then have "events db' = events db @ [new_event_record (next_event_id db) now ev]"
      using assms by (auto simp: record_event_def insert_event_def Let_def split: if_splits)
    then show ?thesis
      by (auto simp: is_recorded_def same_event_def new_event_record_def inj split: option.split)
  next
    case (Some e)
    then have "db' = db" using assms by (auto simp: record_event_def Let_def split: if_splits)
    then show ?thesis using Some by (auto simp: is_recorded_def)
  qed
qed

lemma record_all_adds:
  "record_all pg db now evs = Inr db' \<Longrightarrow>
   is_recorded db' ev' \<longleftrightarrow> is_recorded db ev' \<or> (\<exists>ev \<in> set evs. ev_type ev' = ev_type ev \<and> ev_dedupe_key ev' = ev_dedupe_key ev)"
proof (induction evs arbitrary: db)
  case (Cons ev evs)
  then obtain r db1 where r: "record_event pg db now ev [''domain''] = Inr (r, db1)" "record_all pg db1 now evs = Inr db'"
    by (auto split: sum.splits)
  then show ?case using Cons.IH [OF r(2)] record_event_adds [OF r(1), of ev'] by auto
qed simp

lemma checkpoint_key [simp]:
  "ev_type (checkpoint_event i t b m) = DECISION_CHECKPOINT_DUE"
  "ev_dedupe_key (checkpoint_event i t b m) = ev_dedupe_key (checkpoint_event i t' b' m') \<longleftrightarrow> m = m'"
  by (simp_all add: checkpoint_event_def)

lemma is_recorded_checkpoint: "is_recorded db (checkpoint_event i t b m) \<longleftrightarrow> is_recorded db (checkpoint_event i t' b' m)"
  by (simp add: is_recorded_def checkpoint_event_def)

lemma observe_elapsed_records:
  "events_inv db \<Longrightarrow>
   \<exists>db'. observe_elapsed pg db map_id minutes previous ts = Inr db' \<and> events_inv db' \<and>
     (\<forall>m. is_recorded db' (checkpoint_event map_id t b m) \<longleftrightarrow>
        is_recorded db (checkpoint_event map_id t b m) \<or> m \<in> all_crossed minutes previous (map snd ts))"
proof (induction ts arbitrary: db previous)
  case Nil
  then show ?case by simp
next
  case (Cons d ts)
  obtain now u where d: "d = (now, u)" by (cases d)
  let ?evs = "map (checkpoint_event map_id now ''real_time'') (crossed previous u minutes)"
  obtain db1 where r: "record_all pg db now ?evs = Inr db1" "events_inv db1"
    using record_all_run [OF Cons.prems, of pg now ?evs] by blast
  have add: "is_recorded db1 (checkpoint_event map_id t b m) \<longleftrightarrow>
      is_recorded db (checkpoint_event map_id t b m) \<or> m \<in> set (crossed previous u minutes)" for m
    unfolding record_all_adds [OF r(1)] by auto
  obtain db' where "observe_elapsed pg db1 map_id minutes (Some u) ts = Inr db'" "events_inv db'"
    "\<forall>m. is_recorded db' (checkpoint_event map_id t b m) \<longleftrightarrow>
       is_recorded db1 (checkpoint_event map_id t b m) \<or> m \<in> all_crossed minutes (Some u) (map snd ts)"
    using Cons.IH [OF r(2)] by blast
  moreover have "record_crossed_checkpoints pg db now map_id None None minutes now (Some u) previous =
      Inr (length (crossed previous u minutes), db1)"
    using r(1) by (simp add: record_crossed_checkpoints_def)
  ultimately show ?case using add by (auto simp: d)
qed

lemma all_crossed_Some:
  "sorted (p # ts) \<Longrightarrow> all_crossed minutes (Some p) ts = {m \<in> set minutes. ts \<noteq> [] \<and> p < of_int (m * 60) \<and> of_int (m * 60) \<le> last ts}"
proof (induction ts arbitrary: p)
  case (Cons t ts)
  have "all_crossed minutes (Some t) ts = {m \<in> set minutes. ts \<noteq> [] \<and> t < of_int (m * 60) \<and> of_int (m * 60) \<le> last ts}"
    by (rule Cons.IH) (use Cons.prems in simp)
  moreover have "ts \<noteq> [] \<Longrightarrow> t \<le> last ts" using Cons.prems by simp
  ultimately show ?case using Cons.prems by (auto simp: crossed_def) (meson last_in_set order_trans)
qed simp

lemma sorted_le_last: "sorted ys \<Longrightarrow> y \<in> set ys \<Longrightarrow> (y::int) \<le> last ys"
  by (induction ys) auto

text \<open>What the first observation records: the last checkpoint already passed, if any.\<close>

definition last_passed :: "int list \<Rightarrow> rat \<Rightarrow> int set" where
  "last_passed minutes t = {m \<in> set minutes. 0 \<le> m \<and> of_int (m * 60) \<le> t \<and> (\<forall>n \<in> set minutes. of_int (n * 60) \<le> t \<longrightarrow> n \<le> m)}"

lemma crossed_None:
  assumes "sorted minutes"
  shows "set (crossed None t minutes) = last_passed minutes t"
proof -
  define P where "P = (\<lambda>m :: int. (- 1 :: rat) < of_int (m * 60) \<and> of_int (m * 60) \<le> t)"
  have nonneg: "(- 1 :: rat) < of_int (m * 60) \<longleftrightarrow> 0 \<le> m" for m by linarith
  let ?f = "filter P minutes"
  have eq: "crossed None t minutes = (if ?f \<noteq> [] then [last ?f] else ?f)" by (simp add: crossed_def P_def Let_def)
  have sorted: "sorted ?f" using assms by (simp add: sorted_wrt_filter)
  show ?thesis
  proof (cases "?f = []")
    case True
    then have "last_passed minutes t = {}" by (auto simp: last_passed_def filter_empty_conv P_def nonneg)
    then show ?thesis using True eq by simp
  next
    case False
    then have l: "last ?f \<in> set minutes" "P (last ?f)" using last_in_set [OF False] by simp_all
    have max: "n \<le> last ?f" if "n \<in> set minutes" "of_int (n * 60) \<le> t" for n
    proof (cases "0 \<le> n")
      case True
      then show ?thesis using sorted_le_last [OF sorted, of n] that by (simp add: P_def nonneg)
    next
      case neg: False
      then show ?thesis using l(2) by (simp add: P_def nonneg)
    qed
    have "last_passed minutes t = {last ?f}"
    proof (intro set_eqI iffI)
      fix m assume "m \<in> last_passed minutes t"
      then have "m \<in> set minutes" "of_int (m * 60) \<le> t" "last ?f \<le> m"
        using l by (auto simp: last_passed_def P_def)
      then show "m \<in> {last ?f}" using max by force
    next
      fix m assume "m \<in> {last ?f}"
      then show "m \<in> last_passed minutes t" using l max by (simp add: last_passed_def P_def nonneg)
    qed
    then show ?thesis using False eq by simp
  qed
qed

text \<open>C29. Decision checkpoints: while the elapsed time of a map is observed in order, recording succeeds on
  any valid event table, and the checkpoint of a minute is requested exactly when it is the last one
  passed at the first observation or lies after the first and not after the last observation; none
  is skipped between two observations, however far apart, and each is recorded as one event.\<close>

theorem checkpoints_are_complete_and_unique:
  assumes "events_inv db" and "sorted minutes" and "sorted (t0 # map snd ts)"
    and fresh: "\<And>m. \<not> is_recorded db (checkpoint_event map_id t b m)"
  shows "\<exists>db'. observe_elapsed pg db map_id minutes None ((now, t0) # ts) = Inr db' \<and> events_inv db' \<and>
    (\<forall>m. length (filter (same_event ''DECISION_CHECKPOINT_DUE'' (ev_dedupe_key (checkpoint_event map_id t b m))) (events db')) =
       (if m \<in> last_passed minutes t0 \<or>
           (m \<in> set minutes \<and> t0 < of_int (m * 60) \<and> of_int (m * 60) \<le> last (t0 # map snd ts)) then 1 else 0))"
proof -
  obtain db' where o: "observe_elapsed pg db map_id minutes None ((now, t0) # ts) = Inr db'" "events_inv db'"
    and rec: "\<And>m. is_recorded db' (checkpoint_event map_id t b m) \<longleftrightarrow> m \<in> all_crossed minutes None (map snd ((now, t0) # ts))"
    using observe_elapsed_records [OF assms(1), of pg map_id minutes None "(now, t0) # ts" t b] fresh by blast
  have set: "all_crossed minutes None (map snd ((now, t0) # ts)) =
      last_passed minutes t0 \<union> {m \<in> set minutes. t0 < of_int (m * 60) \<and> of_int (m * 60) \<le> last (t0 # map snd ts)}"
    using all_crossed_Some [OF assms(3)] crossed_None [OF assms(2)] by (auto split: if_splits)
  have "length (filter (same_event ''DECISION_CHECKPOINT_DUE'' (ev_dedupe_key (checkpoint_event map_id t b m))) (events db')) =
      (if is_recorded db' (checkpoint_event map_id t b m) then 1 else 0)" for m
    using recorded_once [OF o(2), of "checkpoint_event map_id t b m"]
    by (auto simp: is_recorded_def find_row_None_iff filter_empty_conv)
  then show ?thesis using o unfolding rec set by auto
qed

theorem checkpoints_are_complete_and_unique_witness:
  "\<exists>db'. observe_elapsed True \<lparr>events = [], outbox = [], next_event_id = 0\<rparr> 5 [10, 15, 20] None [(1, 650), (2, 1300)] = Inr db' \<and>
     length (filter (same_event ''DECISION_CHECKPOINT_DUE'' (ev_dedupe_key (checkpoint_event 5 0 [] 15))) (events db')) = 1"
proof -
  let ?db = "\<lparr>events = [], outbox = [], next_event_id = 0\<rparr>"
  have "\<not> is_recorded ?db (checkpoint_event 5 0 [] m)" for m by (simp add: is_recorded_def)
  then obtain db' where "observe_elapsed True ?db 5 [10, 15, 20] None ((1, 650) # [(2, 1300)]) = Inr db' \<and> events_inv db' \<and>
    (\<forall>m. length (filter (same_event ''DECISION_CHECKPOINT_DUE'' (ev_dedupe_key (checkpoint_event 5 0 [] m))) (events db')) =
       (if m \<in> last_passed [10, 15, 20] 650 \<or>
           (m \<in> set [10, 15, 20] \<and> (650 :: rat) < of_int (m * 60) \<and> of_int (m * 60) \<le> last ((650 :: rat) # map snd [(2 :: time, 1300)])) then 1 else 0))"
    using checkpoints_are_complete_and_unique [OF empty_events_inv, of "[10, 15, 20]" 650 "[(2, 1300)]" 5 0 "[]" True 1] by auto
  then show ?thesis by (intro exI [of _ db']) simp
qed

end
