(* ===== verification/Live.thy ===== *)
theory Live
  imports Gates
begin

text \<open>
  The DLTV live stream: packets parsed into patches (\<open>app/providers/dltv/parser.py\<close>), patches reduced
  into the state of a map (\<open>app/providers/dltv/reducer.py\<close>).  \<open>content_digest\<close> (a hash of canonical
  JSON) is an argument; reconnect generations count up from 0.
\<close>

subsection \<open>Patches\<close>

definition optional_nonnegative_int :: "json \<Rightarrow> int option" where
  "optional_nonnegative_int v = (case v of JInt i \<Rightarrow> if 0 \<le> i then Some i else None | _ \<Rightarrow> None)"

record fast_patch =
  fp_match :: int
  fp_updates :: "(string \<times> json) list"
  fp_source_game_time :: "int option"
  fp_received_at :: time
  fp_payload_hash :: string
  fp_connection_id :: "string option"
  fp_generation :: nat

text \<open>\<open>if field in payload\<close>: the key is there, whatever its value.\<close>

definition has_key :: "(string \<times> json) list \<Rightarrow> string \<Rightarrow> bool" where
  "has_key fs k \<longleftrightarrow> map_of fs k \<noteq> None"

definition int_field :: "(json \<Rightarrow> int option) \<Rightarrow> (string \<times> json) list \<Rightarrow> string \<Rightarrow> string \<Rightarrow> (string \<times> json) list" where
  "int_field parser payload provider_field state_field =
     (case map_of payload provider_field of
        None \<Rightarrow> []
      | Some raw \<Rightarrow>
         (case parser raw of
            Some i \<Rightarrow> [(state_field, JInt i)]
          | None \<Rightarrow> if raw = JNull then [(state_field, JNull)] else []))"

definition first_blood_field :: "(string \<times> json) list \<Rightarrow> (string \<times> json) list" where
  "first_blood_field payload =
     (case map_of payload ''first_blood'' of
        Some JNull \<Rightarrow> [(''first_blood'', JNull)]
      | Some (JStr s) \<Rightarrow> [(''first_blood'', JStr s)]
      | _ \<Rightarrow> [])"

definition canvas_tokens :: "json list \<Rightarrow> json list" where
  "canvas_tokens raw = filter (\<lambda>v. case v of JStr s \<Rightarrow> s \<noteq> [] | _ \<Rightarrow> False) raw"

definition canvas_side :: "(string \<times> json) list \<Rightarrow> string \<Rightarrow> json option" where
  "canvas_side fs side =
     (case json_get fs side of JList raw \<Rightarrow> Some (JList (canvas_tokens raw)) | JNull \<Rightarrow> Some (JList []) | _ \<Rightarrow> None)"

definition parse_canvas :: "json \<Rightarrow> json option" where
  "parse_canvas v =
     (case v of
        JObj fs \<Rightarrow>
          (case (canvas_side fs ''radiant'', canvas_side fs ''dire'') of
             (Some r, Some d) \<Rightarrow> Some (JObj [(''radiant'', r), (''dire'', d)]) | _ \<Rightarrow> None)
      | _ \<Rightarrow> None)"

definition chart_keys :: "string list" where
  "chart_keys = [''game_times'', ''net_worth'', ''radiant_scores'', ''dire_scores'', ''radiant_kills'', ''dire_kills'']"

definition is_number :: "json \<Rightarrow> bool" where
  "is_number v = (case v of JInt i \<Rightarrow> True | JNum r \<Rightarrow> True | _ \<Rightarrow> False)"

fun chart_fields :: "(string \<times> json) list \<Rightarrow> string list \<Rightarrow> (string \<times> json) list option" where
  "chart_fields fs [] = Some []"
| "chart_fields fs (k # ks) =
     (case json_get fs k of
        JList raw \<Rightarrow> map_option (\<lambda>rest. (k, JList (filter is_number raw)) # rest) (chart_fields fs ks)
      | _ \<Rightarrow> None)"

definition parse_charts :: "json \<Rightarrow> json option" where
  "parse_charts v = (case v of JObj fs \<Rightarrow> map_option JObj (chart_fields fs chart_keys) | _ \<Rightarrow> None)"

definition optional_field :: "string \<Rightarrow> json option \<Rightarrow> (string \<times> json) list" where
  "optional_field k v = (case v of None \<Rightarrow> [] | Some x \<Rightarrow> [(k, x)])"

definition parse_fast_patch ::
  "(json \<Rightarrow> string) \<Rightarrow> (string \<times> json) list \<Rightarrow> int \<Rightarrow> time \<Rightarrow> string option \<Rightarrow> nat \<Rightarrow> fast_patch" where
  "parse_fast_patch digest payload match received_at connection generation =
     (let updates =
        int_field optional_nonnegative_int payload ''game_time'' ''game_time_seconds'' @
        int_field optional_nonnegative_int payload ''radiant_score'' ''radiant_kills'' @
        int_field optional_nonnegative_int payload ''dire_score'' ''dire_kills'' @
        int_field optional_int payload ''radiant_lead'' ''radiant_nw_lead'' @
        first_blood_field payload @
        optional_field ''canvas'' (parse_canvas (json_get payload ''canvas'')) @
        optional_field ''charts'' (parse_charts (json_get payload ''charts''))
      in \<lparr>fp_match = match, fp_updates = updates, fp_source_game_time = optional_int (json_get updates ''game_time_seconds''),
          fp_received_at = received_at, fp_payload_hash = digest (JObj payload), fp_connection_id = connection,
          fp_generation = generation\<rparr>)"

subsection \<open>The state of a map\<close>

definition state_fields :: "string list" where
  "state_fields = [''game_time_seconds'', ''radiant_kills'', ''dire_kills'', ''radiant_nw_lead'', ''first_blood'', ''canvas'', ''charts'']"

text \<open>The seven state fields of \<open>DltvFastState\<close>, as the dictionary \<open>values\<close> in the order of
  \<open>STATE_FIELDS\<close>.\<close>

record fast_state =
  fs_match :: int
  fs_values :: "(string \<times> json) list"
  fs_source_game_time :: "int option"
  fs_last_message_at :: time
  fs_last_change_at :: time
  fs_state_hash :: string
  fs_last_payload_hash :: string
  fs_connection_id :: "string option"
  fs_generation :: nat

record reduction =
  rd_state :: "fast_state option"
  rd_changed :: bool
  rd_duplicate :: bool
  rd_warnings :: "string list"

datatype reduce_error = OtherMap | InvalidState

text \<open>The types \<open>DltvFastState\<close> declares for its fields; \<open>pydantic\<close> raises on anything else.  (Its
  conversions of other types to these are not modelled: no value of a parsed patch needs one.)\<close>

definition typed_value :: "string \<Rightarrow> json \<Rightarrow> bool" where
  "typed_value field v =
     (case v of
        JNull \<Rightarrow> True
      | JInt i \<Rightarrow> field = ''radiant_nw_lead'' \<or> field \<in> {''game_time_seconds'', ''radiant_kills'', ''dire_kills''} \<and> 0 \<le> i
      | JStr s \<Rightarrow> field = ''first_blood''
      | JObj fs \<Rightarrow> field \<in> {''canvas'', ''charts''}
      | _ \<Rightarrow> False)"

definition regresses :: "fast_state option \<Rightarrow> bool \<Rightarrow> string \<Rightarrow> json \<Rightarrow> bool" where
  "regresses previous map_reset field v \<longleftrightarrow>
     field = ''game_time_seconds'' \<and> \<not> map_reset \<and>
     (case (previous, v) of
        (Some p, JInt i) \<Rightarrow> (case json_get (fs_values p) ''game_time_seconds'' of JInt g \<Rightarrow> i < g | _ \<Rightarrow> False)
      | _ \<Rightarrow> False)"

fun apply_updates ::
  "fast_state option \<Rightarrow> bool \<Rightarrow> (string \<times> json) list \<Rightarrow> (string \<times> json) list \<times> string list \<Rightarrow> (string \<times> json) list \<times> string list" where
  "apply_updates previous map_reset [] acc = acc"
| "apply_updates previous map_reset ((field, v) # us) (values, warnings) =
     apply_updates previous map_reset us
       (if field \<notin> set state_fields then (values, warnings)
        else if regresses previous map_reset field v then (values, warnings @ [''DLTV_GAME_TIME_REGRESSION''])
        else (AList.update field v values, warnings))"

definition initial_values :: "fast_state option \<Rightarrow> (string \<times> json) list" where
  "initial_values previous = map (\<lambda>f. (f, case previous of None \<Rightarrow> JNull | Some p \<Rightarrow> json_get (fs_values p) f)) state_fields"

definition reduce_fast_state ::
  "(json \<Rightarrow> string) \<Rightarrow> fast_state option \<Rightarrow> fast_patch \<Rightarrow> bool \<Rightarrow> reduce_error + reduction" where
  "reduce_fast_state digest previous patch map_reset =
     (if (case previous of None \<Rightarrow> False | Some p \<Rightarrow> fs_match p \<noteq> fp_match patch) then Inl OtherMap
      else
        (let (values, warnings) = apply_updates previous map_reset (fp_updates patch) (initial_values previous, []);
             hash = digest (JObj values);
             changed = (fp_updates patch \<noteq> [] \<and> (case previous of None \<Rightarrow> True | Some p \<Rightarrow> hash \<noteq> fs_state_hash p))
         in if previous = None \<and> fp_updates patch = []
            then Inr \<lparr>rd_state = None, rd_changed = False, rd_duplicate = True, rd_warnings = []\<rparr>
            else if \<not> (\<forall>(f, v) \<in> set values. typed_value f v) then Inl InvalidState
            else Inr \<lparr>rd_state = Some
                       \<lparr>fs_match = fp_match patch, fs_values = values,
                        fs_source_game_time = optional_int (json_get values ''game_time_seconds''),
                        fs_last_message_at = fp_received_at patch,
                        fs_last_change_at = (case previous of None \<Rightarrow> fp_received_at patch
                          | Some p \<Rightarrow> if changed then fp_received_at patch else fs_last_change_at p),
                        fs_state_hash = hash, fs_last_payload_hash = fp_payload_hash patch,
                        fs_connection_id = fp_connection_id patch, fs_generation = fp_generation patch\<rparr>,
                      rd_changed = changed, rd_duplicate = (\<not> changed), rd_warnings = warnings\<rparr>))"

end
