(* ===== verification/Collector.thy ===== *)
theory Collector
  imports Live
begin

text \<open>
  \<open>DltvSocketCollector\<close> of \<open>app/live/collector.py\<close>: every packet is archived first, a series frame
  announces and ends maps, a match packet is reduced into the stored state of its map.  With it the
  archive (\<open>app/repositories/raw.py\<close>), the game-start anchor of \<open>app/live/anchor.py\<close> and the field
  freshness of \<open>app/live/freshness.py\<close>.  Two rows received in the same microsecond are a tie that
  SQL leaves open; the model takes the earlier row.  A value that its column cannot hold makes the
  database refuse the row, and the transaction fails.
\<close>

subsection \<open>Data\<close>

record raw_event =
  rw_id :: uuid
  rw_provider :: string
  rw_event_type :: string
  rw_provider_key :: string
  rw_received_at :: time
  rw_payload :: "(string \<times> json) list"
  rw_payload_hash :: string
  rw_parser_version :: string
  rw_connection_id :: "string option"
  rw_generation :: "nat option"
  rw_state_hash :: "string option"
  rw_is_duplicate :: "bool option"

record observation =
  lo_id :: uuid
  lo_canonical_map_id :: "uuid option"
  lo_match :: int
  lo_values :: "(string \<times> json) list"
  lo_source_game_time :: "int option"
  lo_received_at :: time
  lo_payload_hash :: string
  lo_connection_id :: "string option"
  lo_generation :: nat
  lo_last_message_at :: time
  lo_last_change_at :: time
  lo_raw_event_id :: uuid

record live_map =
  lm_id :: uuid
  lm_match :: "int option"

record live_db =
  lv_raw :: "raw_event list"
  lv_observations :: "observation list"
  lv_maps :: "live_map list"
  lv_events :: event_db
  lv_next_raw :: uuid
  lv_next_observation :: uuid

text \<open>What a collector remembers between packets.\<close>

record collector =
  co_anchors :: "(uuid \<times> time) list"
  co_last_elapsed :: "(uuid \<times> rat) list"

datatype live_error =
  ReduceFailed reduce_error | RecordFailed event_error | DuplicateObservation | StorageRefused | AnchorOutOfRange

subsection \<open>What the columns hold\<close>

text \<open>PostgreSQL refuses an integer outside the width of its column, a text longer than its \<open>String(n)\<close>, and
  a zero character in a text or in a JSON document; SQLite refuses only integers beyond 64 bits.  Hashes
  are hexadecimal digests and always fit, as do the events of a canonical map, whose keys are UUIDs.\<close>

definition fits_int :: "nat \<Rightarrow> int \<Rightarrow> bool" where
  "fits_int w i \<longleftrightarrow> - (2 ^ (w - 1)) \<le> i \<and> i < 2 ^ (w - 1)"

definition integer_fits :: "bool \<Rightarrow> int \<Rightarrow> bool" where
  "integer_fits pg i \<longleftrightarrow> fits_int (if pg then 32 else 64) i"

definition text_fits :: "bool \<Rightarrow> nat \<Rightarrow> string \<Rightarrow> bool" where
  "text_fits pg n s \<longleftrightarrow> \<not> pg \<or> length s \<le> n \<and> CHR 0x00 \<notin> set s"

primrec no_zero_character :: "json \<Rightarrow> bool" where
  "no_zero_character JNull \<longleftrightarrow> True"
| "no_zero_character (JBool b) \<longleftrightarrow> True"
| "no_zero_character (JInt i) \<longleftrightarrow> True"
| "no_zero_character (JNum r) \<longleftrightarrow> True"
| "no_zero_character (JStr s) \<longleftrightarrow> CHR 0x00 \<notin> set s"
| "no_zero_character (JList vs) \<longleftrightarrow> list_all (\<lambda>b. b) (map no_zero_character vs)"
| "no_zero_character (JObj fs) \<longleftrightarrow>
     list_all (\<lambda>(k, b). CHR 0x00 \<notin> set k \<and> b) (map (map_prod (\<lambda>k. k) no_zero_character) fs)"

definition document_fits :: "bool \<Rightarrow> json \<Rightarrow> bool" where
  "document_fits pg v \<longleftrightarrow> \<not> pg \<or> no_zero_character v"

definition optional_fits :: "('a \<Rightarrow> bool) \<Rightarrow> 'a option \<Rightarrow> bool" where
  "optional_fits fits v = (case v of None \<Rightarrow> True | Some x \<Rightarrow> fits x)"

text \<open>A row of \<open>provider_raw_events\<close>.\<close>

definition raw_fits :: "bool \<Rightarrow> string \<Rightarrow> (string \<times> json) list \<Rightarrow> string option \<Rightarrow> nat \<Rightarrow> bool" where
  "raw_fits pg provider_key payload connection generation \<longleftrightarrow>
     text_fits pg 255 provider_key \<and> document_fits pg (JObj payload) \<and> optional_fits (text_fits pg 64) connection \<and>
     integer_fits pg (int generation)"

text \<open>The seven state columns of \<open>dltv_live_observations\<close>: integers, the text \<open>first_blood\<close>, two documents.\<close>

definition value_fits :: "bool \<Rightarrow> json \<Rightarrow> bool" where
  "value_fits pg v = (case v of JInt i \<Rightarrow> integer_fits pg i | JStr s \<Rightarrow> text_fits pg 32 s | _ \<Rightarrow> document_fits pg v)"

definition observation_fits :: "bool \<Rightarrow> observation \<Rightarrow> bool" where
  "observation_fits pg r \<longleftrightarrow>
     fits_int 64 (lo_match r) \<and> (\<forall>(f, v) \<in> set (lo_values r). value_fits pg v) \<and>
     optional_fits (integer_fits pg) (lo_source_game_time r) \<and> optional_fits (text_fits pg 64) (lo_connection_id r) \<and>
     integer_fits pg (int (lo_generation r))"

subsection \<open>The archive\<close>

definition append_raw ::
  "(json \<Rightarrow> string) \<Rightarrow> live_db \<Rightarrow> string \<Rightarrow> string \<Rightarrow> (string \<times> json) list \<Rightarrow> time \<Rightarrow> string option \<Rightarrow> nat option \<Rightarrow> uuid \<times> live_db" where
  "append_raw digest db event_type provider_key payload received_at connection generation =
     (lv_next_raw db,
      db\<lparr>lv_raw := lv_raw db @
           [\<lparr>rw_id = lv_next_raw db, rw_provider = ''dltv'', rw_event_type = event_type, rw_provider_key = provider_key,
             rw_received_at = received_at, rw_payload = payload, rw_payload_hash = digest (JObj payload),
             rw_parser_version = ''dltv-v3'', rw_connection_id = connection, rw_generation = generation,
             rw_state_hash = None, rw_is_duplicate = None\<rparr>],
         lv_next_raw := Suc (lv_next_raw db)\<rparr>)"

definition raw_matches :: "string \<Rightarrow> string \<Rightarrow> raw_event \<Rightarrow> bool" where
  "raw_matches event_type key r \<longleftrightarrow> rw_provider r = ''dltv'' \<and> rw_event_type r = event_type \<and> rw_provider_key r = key"

subsection \<open>Series frames\<close>

text \<open>Python's \<open>int(text)\<close> on ASCII text: surrounding whitespace, a sign, at most 4300 digits with single
  underscores between them.\<close>

fun plain_digits :: "bool \<Rightarrow> string \<Rightarrow> string option" where
  "plain_digits after_digit [] = (if after_digit then Some [] else None)"
| "plain_digits after_digit (c # cs) =
     (if is_digit c then map_option ((#) c) (plain_digits True cs)
      else if c = CHR ''_'' \<and> after_digit then plain_digits False cs else None)"

definition digits_value :: "string \<Rightarrow> int option" where
  "digits_value s =
     (case plain_digits False s of
        None \<Rightarrow> None
      | Some ds \<Rightarrow> if length ds \<le> 4300 then Some (int (val_of_digits ds)) else None)"

definition parse_int :: "string \<Rightarrow> int option" where
  "parse_int s =
     (case strip s of
        [] \<Rightarrow> None
      | c # cs \<Rightarrow>
          if c = CHR ''-'' then map_option uminus (digits_value cs)
          else if c = CHR ''+'' then digits_value cs
          else digits_value (c # cs))"

fun live_maps_from :: "(string \<times> json) list \<Rightarrow> (int \<times> int) list \<Rightarrow> (int \<times> int) list" where
  "live_maps_from [] acc = acc"
| "live_maps_from ((key, series) # rest) acc =
     live_maps_from rest
       (case (parse_int key, series) of (Some match, JInt s) \<Rightarrow> AList.update match s acc | _ \<Rightarrow> acc)"

definition live_maps :: "(string \<times> json) list \<Rightarrow> (int \<times> int) list" where
  "live_maps payload = (case json_get payload ''live'' of JObj fs \<Rightarrow> live_maps_from fs [] | _ \<Rightarrow> [])"

definition is_obj :: "json \<Rightarrow> bool" where
  "is_obj v = (case v of JObj fs \<Rightarrow> True | _ \<Rightarrow> False)"

definition live_event :: "domain_event_type \<Rightarrow> string \<Rightarrow> string \<Rightarrow> string \<Rightarrow> (string \<times> json) list \<Rightarrow> time \<Rightarrow> domain_event" where
  "live_event ty aggregate_type aggregate_id key payload occurred_at =
     \<lparr>ev_type = ty, ev_aggregate_type = aggregate_type, ev_aggregate_id = aggregate_id, ev_dedupe_key = key,
      ev_payload = payload, ev_occurred_at = occurred_at\<rparr>"

definition map_for_match :: "live_map list \<Rightarrow> int \<Rightarrow> live_map option" where
  "map_for_match maps match = find_row (\<lambda>m. lm_match m = Some match) maps"

definition discovered_event :: "time \<Rightarrow> int \<times> int \<Rightarrow> domain_event" where
  "discovered_event received_at ms =
     live_event DLTV_MATCH_DISCOVERED ''dltv_match'' (str_int (fst ms)) (''dltv-live:'' @ str_int (fst ms))
       [(''valve_match_id'', JInt (fst ms)), (''dltv_series_id'', JInt (snd ms))] received_at"

definition ended_event :: "live_map list \<Rightarrow> time \<Rightarrow> int \<times> int \<Rightarrow> domain_event" where
  "ended_event maps received_at ms =
     (case map_for_match maps (fst ms) of
        None \<Rightarrow>
          live_event DLTV_MATCH_DISCOVERED ''dltv_match'' (str_int (fst ms)) (''dltv-ended:'' @ str_int (fst ms))
            [(''valve_match_id'', JInt (fst ms)), (''dltv_series_id'', JInt (snd ms)),
             (''ended_at'', JStr (isoformat received_at)), (''reason'', JStr ''MAP_ENDED_IDENTITY_PENDING'')] received_at
      | Some m \<Rightarrow>
          live_event MAP_ENDED ''canonical_map'' (str_uuid (lm_id m)) (''map-ended:'' @ str_uuid (lm_id m))
            [(''canonical_map_id'', JStr (str_uuid (lm_id m))), (''valve_match_id'', JInt (fst ms))] received_at)"

text \<open>A map that was live in the previous frame and is no longer has ended, when both frames list the
  live maps at all.\<close>

definition ended_maps :: "(string \<times> json) list option \<Rightarrow> (string \<times> json) list \<Rightarrow> (int \<times> int) list" where
  "ended_maps previous payload =
     (case previous of
        None \<Rightarrow> []
      | Some before \<Rightarrow>
          if is_obj (json_get before ''live'') \<and> is_obj (json_get payload ''live'')
          then filter (\<lambda>ms. fst ms \<notin> fst ` set (live_maps payload)) (live_maps before)
          else [])"

definition series_events ::
  "live_map list \<Rightarrow> (string \<times> json) list option \<Rightarrow> (string \<times> json) list \<Rightarrow> time \<Rightarrow> domain_event list" where
  "series_events maps previous payload received_at =
     map (discovered_event received_at) (live_maps payload) @ map (ended_event maps received_at) (ended_maps previous payload)"

text \<open>The match id of a frame is the \<open>aggregate_id\<close> of an event; a map that ended is looked up by its match id,
  a 64-bit column.\<close>

definition series_fits :: "bool \<Rightarrow> (string \<times> json) list option \<Rightarrow> (string \<times> json) list \<Rightarrow> bool" where
  "series_fits pg previous payload \<longleftrightarrow>
     (\<forall>ms \<in> set (live_maps payload). text_fits pg 128 (str_int (fst ms))) \<and>
     (\<forall>ms \<in> set (ended_maps previous payload). fits_int 64 (fst ms))"

subsection \<open>The anchor of a map\<close>

text \<open>\<open>datetime.fromtimestamp(value, tz=UTC)\<close> raises outside the years 1 to 9999.\<close>

definition from_timestamp :: "int \<Rightarrow> live_error + time" where
  "from_timestamp t = (if -62135596800 \<le> t \<and> t \<le> 253402300799 then Inr (micros t) else Inl AnchorOutOfRange)"

definition picks_ended_anchor :: "live_db \<Rightarrow> int \<Rightarrow> time \<Rightarrow> live_error + time option" where
  "picks_ended_anchor db match decision_at =
     (case newest rw_received_at
             (\<lambda>r. raw_matches ''DLTV_BOOTSTRAP'' (str_int match) r \<and> rw_received_at r \<le> decision_at) (lv_raw db) of
        None \<Rightarrow> Inr None
      | Some r \<Rightarrow>
          (case json_get (rw_payload r) ''is_picks_ended_time'' of
             JInt t \<Rightarrow> map_sum id Some (from_timestamp t)
           | _ \<Rightarrow> Inr None))"

definition dltv_broadcast_start :: "live_db \<Rightarrow> uuid \<Rightarrow> time \<Rightarrow> time option" where
  "dltv_broadcast_start db map_id decision_at =
     (let rows = order_limit lo_received_at 100
            (filter (\<lambda>w. lo_canonical_map_id w = Some map_id \<and>
                         optional_int (json_get (lo_values w) ''game_time_seconds'') \<noteq> None \<and>
                         lo_received_at w \<le> decision_at) (lv_observations db));
          starts = [lo_received_at w - micros g. w \<leftarrow> rows, Some g \<leftarrow> [optional_int (json_get (lo_values w) ''game_time_seconds'')]]
      in py_min id starts)"

subsection \<open>Match packets\<close>

definition is_reconnect :: "raw_event option \<Rightarrow> string option \<Rightarrow> nat \<Rightarrow> bool" where
  "is_reconnect previous connection generation =
     (case previous of
        None \<Rightarrow> False
      | Some p \<Rightarrow>
          if connection \<noteq> None then rw_connection_id p \<noteq> connection
          else (case rw_generation p of None \<Rightarrow> False | Some g \<Rightarrow> g < generation))"

text \<open>\<open>_state_from_record\<close>: a stored observation as the state the reducer continues from.\<close>

definition state_of_record :: "observation \<Rightarrow> fast_state" where
  "state_of_record r =
     \<lparr>fs_match = lo_match r, fs_values = lo_values r, fs_source_game_time = lo_source_game_time r,
      fs_last_message_at = lo_last_message_at r, fs_last_change_at = lo_last_change_at r,
      fs_state_hash = lo_payload_hash r, fs_last_payload_hash = lo_payload_hash r,
      fs_connection_id = lo_connection_id r, fs_generation = lo_generation r\<rparr>"

definition record_of_state :: "uuid \<Rightarrow> uuid \<Rightarrow> time \<Rightarrow> uuid \<Rightarrow> fast_state \<Rightarrow> observation" where
  "record_of_state i map_id received_at raw_id s =
     \<lparr>lo_id = i, lo_canonical_map_id = Some map_id, lo_match = fs_match s, lo_values = fs_values s,
      lo_source_game_time = fs_source_game_time s, lo_received_at = received_at, lo_payload_hash = fs_state_hash s,
      lo_connection_id = fs_connection_id s, lo_generation = fs_generation s,
      lo_last_message_at = fs_last_message_at s, lo_last_change_at = fs_last_change_at s, lo_raw_event_id = raw_id\<rparr>"

definition json_opt :: "string option \<Rightarrow> json" where
  "json_opt v = (case v of None \<Rightarrow> JNull | Some s \<Rightarrow> JStr s)"

text \<open>\<open>connection_id or f"generation-{reconnect_generation}"\<close>\<close>

definition recovery_key :: "string option \<Rightarrow> nat \<Rightarrow> string" where
  "recovery_key connection generation =
     (case connection of Some (c # cs) \<Rightarrow> c # cs | _ \<Rightarrow> ''generation-'' @ str_int (int generation))"

definition reconnect_event :: "raw_event option \<Rightarrow> int \<Rightarrow> string option \<Rightarrow> nat \<Rightarrow> time \<Rightarrow> domain_event" where
  "reconnect_event previous match connection generation received_at =
     live_event DLTV_MATCH_DISCOVERED ''dltv_match'' (str_int match)
       (''dltv-reconnect:'' @ str_int match @ '':'' @ recovery_key connection generation)
       [(''valve_match_id'', JInt match), (''connection_id'', json_opt connection),
        (''previous_connection_id'', json_opt (case previous of None \<Rightarrow> None | Some p \<Rightarrow> rw_connection_id p)),
        (''reconnect_generation'', JInt (int generation)),
        (''previous_reconnect_generation'',
           (case previous of None \<Rightarrow> JNull | Some p \<Rightarrow> (case rw_generation p of None \<Rightarrow> JNull | Some g \<Rightarrow> JInt (int g)))),
        (''reason'', JStr ''SOCKET_RECONNECT_RECOVERY'')] received_at"

definition map_started_event :: "uuid \<Rightarrow> time \<Rightarrow> domain_event" where
  "map_started_event map_id received_at =
     live_event MAP_STARTED ''canonical_map'' (str_uuid map_id) (''map-started:'' @ str_uuid map_id)
       [(''canonical_map_id'', JStr (str_uuid map_id))] received_at"

text \<open>The game time of a state, and \<open>not latest.game_time_seconds\<close>.\<close>

definition game_time :: "(string \<times> json) list \<Rightarrow> int option" where
  "game_time vs = optional_int (json_get vs ''game_time_seconds'')"

definition not_started :: "observation option \<Rightarrow> bool" where
  "not_started latest = (case latest of None \<Rightarrow> True | Some r \<Rightarrow> game_time (lo_values r) \<in> {None, Some 0})"

definition starts_map :: "observation option \<Rightarrow> fast_state \<Rightarrow> bool" where
  "starts_map latest s \<longleftrightarrow> (case game_time (fs_values s) of None \<Rightarrow> False | Some g \<Rightarrow> 0 < g) \<and> not_started latest"

text \<open>The anchor is looked up until it is found and remembered from then on; with it the collector
  measures real elapsed time and remembers the last one.\<close>

definition resolve_anchor :: "collector \<Rightarrow> live_db \<Rightarrow> uuid \<Rightarrow> int \<Rightarrow> time \<Rightarrow> live_error + (time option \<times> collector)" where
  "resolve_anchor mem db map_id match received_at =
     (case map_of (co_anchors mem) map_id of
        Some a \<Rightarrow> Inr (Some a, mem)
      | None \<Rightarrow>
          (case picks_ended_anchor db match received_at of
             Inl e \<Rightarrow> Inl e
           | Inr None \<Rightarrow> Inr (None, mem)
           | Inr (Some a) \<Rightarrow> Inr (Some a, mem\<lparr>co_anchors := AList.update map_id a (co_anchors mem)\<rparr>)))"

definition real_elapsed :: "collector \<Rightarrow> uuid \<Rightarrow> time option \<Rightarrow> time \<Rightarrow> rat option \<times> rat option \<times> collector" where
  "real_elapsed mem map_id anchor received_at =
     (case anchor of
        None \<Rightarrow> (None, None, mem)
      | Some a \<Rightarrow>
          (let t = seconds_of (received_at - a)
           in (Some t, map_of (co_last_elapsed mem) map_id,
               mem\<lparr>co_last_elapsed := AList.update map_id t (co_last_elapsed mem)\<rparr>)))"

text \<open>The new row is flushed with the next statement: the MAP_STARTED event or the lookup of the anchor if there
  is one, else after the elapsed time was remembered.\<close>

definition store_observation ::
  "bool \<Rightarrow> int list \<Rightarrow> collector \<Rightarrow> live_db \<Rightarrow> time \<Rightarrow> uuid \<Rightarrow> observation option \<Rightarrow> fast_state \<Rightarrow> uuid \<Rightarrow> time \<Rightarrow>
   (live_error + live_db) \<times> collector" where
  "store_observation pg minutes mem db now map_id latest s raw_id received_at =
     (let row = record_of_state (lv_next_observation db) map_id received_at raw_id s;
          db1 = db\<lparr>lv_observations := lv_observations db @ [row], lv_next_observation := Suc (lv_next_observation db)\<rparr>;
          refused = (if \<not> observation_fits pg row then Some StorageRefused
                     else if \<exists>r \<in> set (lv_observations db). lo_match r = lo_match row \<and>
                               lo_payload_hash r = lo_payload_hash row \<and> lo_received_at r = received_at
                     then Some DuplicateObservation else None);
          flushed_first = (starts_map latest s \<or> map_of (co_anchors mem) map_id = None)
      in case (if flushed_first then refused else None) of
           Some e \<Rightarrow> (Inl e, mem)
         | None \<Rightarrow>
           (case record_all pg (lv_events db1) now (if starts_map latest s then [map_started_event map_id received_at] else []) of
              Inl e \<Rightarrow> (Inl (RecordFailed e), mem)
            | Inr evs \<Rightarrow>
                (case resolve_anchor mem db1 map_id (fs_match s) received_at of
                   Inl e \<Rightarrow> (Inl e, mem)
                 | Inr (anchor, mem1) \<Rightarrow>
                     (let (elapsed, previous_elapsed, mem2) = real_elapsed mem1 map_id anchor received_at
                      in case refused of
                           Some e \<Rightarrow> (Inl e, mem2)
                         | None \<Rightarrow>
                             (case record_crossed_checkpoints pg evs now map_id
                                     (case latest of None \<Rightarrow> None | Some r \<Rightarrow> game_time (lo_values r)) (game_time (fs_values s))
                                     minutes received_at elapsed previous_elapsed of
                                Inl e \<Rightarrow> Inl (RecordFailed e)
                              | Inr (n, evs') \<Rightarrow> Inr (db1\<lparr>lv_events := evs'\<rparr>), mem2)))))"

text \<open>A packet that changes nothing proves that the stream is alive: only the message freshness of the
  latest row moves.\<close>

definition refresh_message :: "fast_state \<Rightarrow> observation \<Rightarrow> observation" where
  "refresh_message s r =
     r\<lparr>lo_last_message_at := fs_last_message_at s, lo_connection_id := fs_connection_id s, lo_generation := fs_generation s\<rparr>"

definition latest_observation :: "live_db \<Rightarrow> int \<Rightarrow> observation option" where
  "latest_observation db match = newest lo_received_at (\<lambda>w. lo_match w = match) (lv_observations db)"

definition collect_known ::
  "bool \<Rightarrow> (json \<Rightarrow> string) \<Rightarrow> int list \<Rightarrow> collector \<Rightarrow> live_db \<Rightarrow> time \<Rightarrow> uuid \<Rightarrow> fast_patch \<Rightarrow> uuid \<Rightarrow>
   (live_error + live_db) \<times> collector" where
  "collect_known pg digest minutes mem db now map_id patch raw_id =
     (let latest = latest_observation db (fp_match patch)
      in case reduce_fast_state digest (map_option state_of_record latest) patch False of
           Inl e \<Rightarrow> (Inl (ReduceFailed e), mem)
         | Inr rd \<Rightarrow>
             (let db1 = db\<lparr>lv_raw := update_first (\<lambda>r. rw_id r = raw_id)
                      (\<lambda>r. r\<lparr>rw_state_hash := map_option fs_state_hash (rd_state rd), rw_is_duplicate := Some (rd_duplicate rd)\<rparr>)
                      (lv_raw db)\<rparr>
              in case rd_state rd of
                   None \<Rightarrow> (Inr db1, mem)
                 | Some s \<Rightarrow>
                     if rd_changed rd then store_observation pg minutes mem db1 now map_id latest s raw_id (fp_received_at patch)
                     else (Inr (case latest of
                                  None \<Rightarrow> db1
                                | Some l \<Rightarrow> db1\<lparr>lv_observations := update_first (\<lambda>r. lo_id r = lo_id l) (refresh_message s)
                                                 (lv_observations db1)\<rparr>), mem)))"

definition last_segment :: "string \<Rightarrow> string" where
  "last_segment s = rev (takeWhile (\<lambda>c. c \<noteq> CHR ''_'') (rev s))"

definition collect_match ::
  "bool \<Rightarrow> (json \<Rightarrow> string) \<Rightarrow> int list \<Rightarrow> collector \<Rightarrow> live_db \<Rightarrow> time \<Rightarrow> raw_event option \<Rightarrow> fast_patch \<Rightarrow> uuid \<Rightarrow>
   (live_error + live_db) \<times> collector" where
  "collect_match pg digest minutes mem db now previous patch raw_id =
     (case map_for_match (lv_maps db) (fp_match patch) of
        None \<Rightarrow>
          (case record_all pg (lv_events db) now
                  [live_event DLTV_MATCH_DISCOVERED ''dltv_match'' (str_int (fp_match patch))
                     (''dltv-socket:'' @ str_int (fp_match patch)) [(''valve_match_id'', JInt (fp_match patch))] (fp_received_at patch)] of
             Inl e \<Rightarrow> (Inl (RecordFailed e), mem) | Inr evs \<Rightarrow> (Inr (db\<lparr>lv_events := evs\<rparr>), mem))
      | Some m \<Rightarrow>
          (case record_all pg (lv_events db) now
                  (if is_reconnect previous (fp_connection_id patch) (fp_generation patch)
                   then [reconnect_event previous (fp_match patch) (fp_connection_id patch) (fp_generation patch) (fp_received_at patch)]
                   else []) of
             Inl e \<Rightarrow> (Inl (RecordFailed e), mem)
           | Inr evs \<Rightarrow> collect_known pg digest minutes mem (db\<lparr>lv_events := evs\<rparr>) now (lm_id m) patch raw_id))"

text \<open>The handler.  An error rolls the database back to \<open>db\<close>; what the collector remembers stays.\<close>

definition collect ::
  "bool \<Rightarrow> (json \<Rightarrow> string) \<Rightarrow> int list \<Rightarrow> collector \<Rightarrow> live_db \<Rightarrow> time \<Rightarrow> string \<Rightarrow> (string \<times> json) list \<Rightarrow>
   string option \<Rightarrow> nat \<Rightarrow> time \<Rightarrow> (live_error + live_db) \<times> collector" where
  "collect pg digest minutes mem db now event_name payload connection generation received_at =
     (let is_match = starts_with ''__nd2_match_'' event_name;
          event_type = (if is_match then ''DLTV_FAST_SOCKET'' else ''DLTV_SERIES'');
          previous = newest rw_received_at (raw_matches event_type event_name) (lv_raw db);
          (raw_id, db1) = append_raw digest db event_type event_name payload received_at connection (Some generation)
      in if \<not> raw_fits pg event_name payload connection generation then (Inl StorageRefused, mem)
         else if event_name = ''__nd2_series''
         then if \<not> series_fits pg (map_option rw_payload previous) payload then (Inl StorageRefused, mem)
              else (case record_all pg (lv_events db1) now
                      (series_events (lv_maps db1) (map_option rw_payload previous) payload received_at) of
                 Inl e \<Rightarrow> (Inl (RecordFailed e), mem) | Inr evs \<Rightarrow> (Inr (db1\<lparr>lv_events := evs\<rparr>), mem))
         else if \<not> is_match then (Inr db1, mem)
         else (case parse_int (last_segment event_name) of
                 None \<Rightarrow> (Inr db1, mem)
               | Some match \<Rightarrow>
                   if \<not> fits_int 64 match then (Inl StorageRefused, mem)
                   else collect_match pg digest minutes mem db1 now previous
                     (parse_fast_patch digest payload match received_at connection generation) raw_id))"

subsection \<open>Freshness of the live fields\<close>

definition required_fields :: "string list" where
  "required_fields = [''game_time_seconds'', ''radiant_kills'', ''dire_kills'', ''radiant_nw_lead'']"

definition freshness_records :: "live_db \<Rightarrow> int \<Rightarrow> time \<Rightarrow> duration \<Rightarrow> raw_event list" where
  "freshness_records db match decision_at max_age =
     sort_key (\<lambda>r. - rw_received_at r)
       (filter (\<lambda>r. rw_provider r = ''dltv'' \<and> rw_event_type r \<in> {''DLTV_FAST_SOCKET'', ''DLTV_BOOTSTRAP''} \<and>
                    rw_provider_key r \<in> {''__nd2_match_'' @ str_int match, str_int match} \<and>
                    decision_at - max_age \<le> rw_received_at r \<and> rw_received_at r \<le> decision_at) (lv_raw db))"

definition carried_fields :: "(json \<Rightarrow> string) \<Rightarrow> int \<Rightarrow> raw_event \<Rightarrow> string list" where
  "carried_fields digest match r =
     (let updates = fp_updates (parse_fast_patch digest (rw_payload r) match (rw_received_at r) (rw_connection_id r)
                      (case rw_generation r of None \<Rightarrow> 0 | Some g \<Rightarrow> g))
      in filter (\<lambda>f. json_get updates f \<noteq> JNull) required_fields)"

definition socket_duplicate :: "raw_event \<Rightarrow> bool" where
  "socket_duplicate r \<longleftrightarrow> rw_event_type r = ''DLTV_FAST_SOCKET'' \<and> rw_is_duplicate r = Some True"

fun observe_fields :: "string list \<Rightarrow> time \<Rightarrow> (string \<times> time) list \<Rightarrow> (string \<times> time) list" where
  "observe_fields [] t acc = acc"
| "observe_fields (f # fs) t acc = observe_fields fs t (if map_of acc f = None then acc @ [(f, t)] else acc)"

fun scan_records :: "(json \<Rightarrow> string) \<Rightarrow> int \<Rightarrow> raw_event list \<Rightarrow> (string \<times> time) list \<Rightarrow> (string \<times> time) list" where
  "scan_records digest match [] acc = acc"
| "scan_records digest match (r # rs) acc =
     (if socket_duplicate r then scan_records digest match rs acc
      else let acc' = observe_fields (carried_fields digest match r) (rw_received_at r) acc
           in if length acc' = length required_fields then acc' else scan_records digest match rs acc')"

record field_freshness =
  ff_observed_at :: "(string \<times> time) list"
  ff_ages :: "(string \<times> rat) list"
  ff_effective_age :: "rat option"
  ff_complete :: bool

definition load_live_basic_field_freshness ::
  "(json \<Rightarrow> string) \<Rightarrow> live_db \<Rightarrow> int \<Rightarrow> time \<Rightarrow> duration \<Rightarrow> field_freshness" where
  "load_live_basic_field_freshness digest db match decision_at max_age =
     (let observed = scan_records digest match (freshness_records db match decision_at max_age) [];
          ages = [(f, seconds_of (decision_at - t)). f \<leftarrow> required_fields, Some t \<leftarrow> [map_of observed f]];
          all = (length observed = length required_fields)
      in \<lparr>ff_observed_at = observed, ff_ages = ages,
          ff_effective_age = (if all then py_max id (map snd ages) else None), ff_complete = all\<rparr>)"

end
