(* ===== verification/LiveProperties.thy ===== *)
theory LiveProperties
  imports Collector GateProperties
begin

text \<open>
  Properties of the live stream: parsed packets are well typed and reduce without an error, stored
  observations stay consistent whatever is received, the stored state of a map is the reduction of
  its packets, and what the freshness of the live fields means.
\<close>

subsection \<open>Types of a state\<close>

definition typed_fields :: "(string \<times> json) list \<Rightarrow> bool" where
  "typed_fields vs \<longleftrightarrow> (\<forall>(f, v) \<in> set vs. typed_value f v)"

definition well_typed :: "fast_state \<Rightarrow> bool" where
  "well_typed s \<longleftrightarrow> map fst (fs_values s) = state_fields \<and> typed_fields (fs_values s) \<and>
     fs_source_game_time s = game_time (fs_values s)"

lemma typed_fields_simps [simp]:
  "typed_fields []" "typed_fields ((f, v) # vs) \<longleftrightarrow> typed_value f v \<and> typed_fields vs"
  "typed_fields (us @ vs) \<longleftrightarrow> typed_fields us \<and> typed_fields vs"
  by (auto simp: typed_fields_def)

lemma typed_null [simp]: "typed_value f JNull"
  by (simp add: typed_value_def)

lemma typed_int_field:
  "(\<And>v i. parser v = Some i \<Longrightarrow> typed_value field (JInt i)) \<Longrightarrow> typed_fields (int_field parser payload key field)"
  by (auto simp: int_field_def split: option.split)

lemma typed_parsed: "typed_fields (fp_updates (parse_fast_patch digest payload match t conn gen))"
proof -
  have nn: "typed_fields (int_field optional_nonnegative_int payload key field)"
    if "field \<in> {''game_time_seconds'', ''radiant_kills'', ''dire_kills''}" for key field
    by (rule typed_int_field) (use that in \<open>auto simp: optional_nonnegative_int_def typed_value_def split: json.splits if_splits\<close>)
  have i: "typed_fields (int_field optional_int payload ''radiant_lead'' ''radiant_nw_lead'')"
    by (rule typed_int_field) (simp add: typed_value_def)
  have fb: "typed_fields (first_blood_field payload)"
    by (auto simp: first_blood_field_def typed_value_def split: option.split json.split)
  have ca: "typed_fields (optional_field ''canvas'' (parse_canvas v))" for v
    by (auto simp: optional_field_def parse_canvas_def typed_value_def split: option.splits json.split)
  have ch: "typed_fields (optional_field ''charts'' (parse_charts v))" for v
    by (auto simp: optional_field_def parse_charts_def typed_value_def split: option.splits json.splits)
  show ?thesis using nn i fb ca ch by (simp add: parse_fast_patch_def Let_def)
qed

lemma parse_patch_simps [simp]:
  "fp_match (parse_fast_patch digest payload match t conn gen) = match"
  "fp_received_at (parse_fast_patch digest payload match t conn gen) = t"
  "fp_connection_id (parse_fast_patch digest payload match t conn gen) = conn"
  "fp_generation (parse_fast_patch digest payload match t conn gen) = gen"
  by (simp_all add: parse_fast_patch_def Let_def)

subsection \<open>Reduction\<close>

lemma keys_update_present: "k \<in> fst ` set vs \<Longrightarrow> map fst (AList.update k v vs) = map fst vs"
  by (induction vs) auto

lemma typed_update: "typed_value f v \<Longrightarrow> typed_fields vs \<Longrightarrow> typed_fields (AList.update f v vs)"
  by (induction vs) (auto simp: typed_fields_def)

lemma initial_keys [simp]: "map fst (initial_values previous) = state_fields"
  by (simp add: initial_values_def comp_def)

lemma map_of_typed: "typed_fields vs \<Longrightarrow> map_of vs f = Some v \<Longrightarrow> typed_value f v"
  by (drule map_of_SomeD) (auto simp: typed_fields_def)

lemma initial_of_state:
  assumes "well_typed p"
  shows "initial_values (Some p) = fs_values p"
proof -
  have keys: "map fst (fs_values p) = state_fields" using assms by (simp add: well_typed_def)
  have d: "distinct (map fst (fs_values p))" by (simp add: keys state_fields_def)
  have "initial_values (Some p) = map (\<lambda>f. (f, json_get (fs_values p) f)) (map fst (fs_values p))"
    by (simp add: initial_values_def keys)
  also have "\<dots> = fs_values p"
    using d by (auto simp: json_get_def intro!: map_idI)
  finally show ?thesis .
qed

text \<open>The previous state as its values, and the order that a game time may move in.\<close>

definition state_ok :: "fast_state option \<Rightarrow> int \<Rightarrow> bool" where
  "state_ok previous match \<longleftrightarrow> (case previous of None \<Rightarrow> True | Some p \<Rightarrow> well_typed p \<and> fs_match p = match)"

definition not_before :: "int option \<Rightarrow> int option \<Rightarrow> bool" where
  "not_before g h = (case (g, h) of (Some a, Some b) \<Rightarrow> a \<le> b | _ \<Rightarrow> True)"

definition previous_time :: "fast_state option \<Rightarrow> int option" where
  "previous_time previous = (case previous of None \<Rightarrow> None | Some p \<Rightarrow> game_time (fs_values p))"

lemma regresses_iff:
  "regresses previous reset f v \<longleftrightarrow> f = ''game_time_seconds'' \<and> \<not> reset \<and> \<not> not_before (previous_time previous) (optional_int v)"
  by (auto simp: regresses_def not_before_def previous_time_def game_time_def optional_int_def split: option.splits json.splits)

lemma json_get_update: "json_get (AList.update k v vs) f = (if f = k then v else json_get vs f)"
  by (simp add: json_get_def update_conv)

lemma apply_updates_ok:
  assumes "map fst vs = state_fields" and "typed_fields vs" and "typed_fields us"
    and "reset \<or> not_before (previous_time previous) (game_time vs)"
  shows "map fst (fst (apply_updates previous reset us (vs, ws))) = state_fields \<and>
    typed_fields (fst (apply_updates previous reset us (vs, ws))) \<and>
    (reset \<or> not_before (previous_time previous) (game_time (fst (apply_updates previous reset us (vs, ws)))))"
  using assms
proof (induction us arbitrary: vs ws)
  case Nil
  then show ?case by simp
next
  case (Cons u us)
  obtain f v where u: "u = (f, v)" by (cases u)
  show ?case
  proof (cases "f \<in> set state_fields \<and> \<not> regresses previous reset f v")
    case True
    have k: "f \<in> fst ` set vs" using True Cons.prems(1) by (metis set_map)
    have "map fst (AList.update f v vs) = state_fields" using keys_update_present [OF k] Cons.prems(1) by simp
    moreover have "typed_fields (AList.update f v vs)" using typed_update Cons.prems(2,3) by (simp add: u)
    moreover have "reset \<or> not_before (previous_time previous) (game_time (AList.update f v vs))"
      using True Cons.prems(4) by (auto simp: game_time_def json_get_update regresses_iff)
    ultimately show ?thesis using Cons.IH Cons.prems(3) True by (simp add: u)
  next
    case False
    then show ?thesis using Cons.IH Cons.prems by (auto simp: u)
  qed
qed

lemma apply_updates_Nil [simp]: "apply_updates p r [] acc = acc" by simp

lemma initial_ok:
  assumes "state_ok previous match"
  shows "typed_fields (initial_values previous) \<and> not_before (previous_time previous) (game_time (initial_values previous))"
proof (cases previous)
  case None
  then show ?thesis by (auto simp: initial_values_def typed_fields_def previous_time_def not_before_def)
next
  case (Some p)
  then have "well_typed p" using assms by (simp add: state_ok_def)
  then show ?thesis using initial_of_state [of p] Some
    by (auto simp: well_typed_def previous_time_def not_before_def split: option.splits)
qed

lemma game_time_typed_initial: "optional_int (json_get vs ''game_time_seconds'') = game_time vs"
  by (simp add: game_time_def)

text \<open>What one reduction does, for any well-typed patch.\<close>

lemma reduce_cases:
  assumes "state_ok previous (fp_match patch)" and "typed_fields (fp_updates patch)"
  shows "\<exists>rd. reduce_fast_state digest previous patch reset = Inr rd \<and> rd_duplicate rd = (\<not> rd_changed rd) \<and>
    (case rd_state rd of
       None \<Rightarrow> previous = None \<and> fp_updates patch = [] \<and> \<not> rd_changed rd
     | Some s \<Rightarrow> well_typed s \<and> fs_match s = fp_match patch \<and> fs_state_hash s = digest (JObj (fs_values s)) \<and>
         (reset \<or> not_before (previous_time previous) (game_time (fs_values s))) \<and>
         fs_last_message_at s = fp_received_at patch \<and> fs_connection_id s = fp_connection_id patch \<and>
         fs_generation s = fp_generation patch \<and> (previous = None \<longrightarrow> fp_updates patch \<noteq> []) \<and>
         (rd_changed rd \<longleftrightarrow> fp_updates patch \<noteq> [] \<and> (case previous of None \<Rightarrow> True | Some p \<Rightarrow> fs_state_hash s \<noteq> fs_state_hash p)) \<and>
         (rd_changed rd \<longrightarrow> fs_last_change_at s = fp_received_at patch))"
proof -
  define vw where "vw = apply_updates previous reset (fp_updates patch) (initial_values previous, [])"
  obtain vs ws where vw': "vw = (vs, ws)" by (cases vw)
  have "map fst vs = state_fields \<and> typed_fields vs \<and> (reset \<or> not_before (previous_time previous) (game_time vs))"
    using apply_updates_ok [OF initial_keys _ assms(2), of previous reset previous "[]"] initial_ok [OF assms(1)] vw'
    unfolding vw_def by simp
  then have ok: "map fst vs = state_fields" "typed_fields vs" "reset \<or> not_before (previous_time previous) (game_time vs)"
    by simp_all
  have m: "\<not> (case previous of None \<Rightarrow> False | Some p \<Rightarrow> fs_match p \<noteq> fp_match patch)"
    using assms(1) by (simp add: state_ok_def split: option.splits)
  have t: "\<forall>(f, v) \<in> set vs. typed_value f v" using ok(2) by (simp add: typed_fields_def)
  show ?thesis
    unfolding reduce_fast_state_def vw_def [symmetric] vw' Let_def
    using m t ok by (auto simp: well_typed_def game_time_typed_initial split: option.splits)
qed

text \<open>C30. Parsing and reducing a packet of the live stream never fails on a stored state of the same map:
  whatever JSON object arrives, the reduction succeeds, its state has exactly the seven fields with
  values of their declared types (counts not negative), keeps the hash of its values, and the game
  time does not move back unless the map was reset or the provider withdrew it; nothing is reported
  only when there is neither a stored state nor a usable field.\<close>

theorem packets_reduce_to_typed_states:
  assumes "state_ok previous match"
  shows "\<exists>rd. reduce_fast_state digest previous (parse_fast_patch digest payload match t conn gen) reset = Inr rd \<and>
    rd_duplicate rd = (\<not> rd_changed rd) \<and>
    (case rd_state rd of
       None \<Rightarrow> previous = None \<and> fp_updates (parse_fast_patch digest payload match t conn gen) = []
     | Some s \<Rightarrow> state_ok (Some s) match \<and> fs_state_hash s = digest (JObj (fs_values s)) \<and>
         (reset \<or> not_before (previous_time previous) (game_time (fs_values s))))"
  using reduce_cases [of previous "parse_fast_patch digest payload match t conn gen" digest reset] assms typed_parsed
  by (fastforce simp: state_ok_def split: option.splits)

definition demo_state :: fast_state where
  "demo_state =
     \<lparr>fs_match = 7, fs_values = (''game_time_seconds'', JInt 600) # map (\<lambda>f. (f, JNull)) (tl state_fields),
      fs_source_game_time = Some 600, fs_last_message_at = 5, fs_last_change_at = 5, fs_state_hash = ''h'',
      fs_last_payload_hash = ''h'', fs_connection_id = None, fs_generation = 0\<rparr>"

theorem packets_reduce_to_typed_states_witness:
  "\<exists>rd s. reduce_fast_state (\<lambda>j. ''x'') (Some demo_state)
       (parse_fast_patch (\<lambda>j. ''x'') [(''game_time'', JInt 590), (''radiant_score'', JInt 3)] 7 9 None 1) False = Inr rd \<and>
     rd_state rd = Some s \<and> state_ok (Some s) 7 \<and> not_before (Some 600) (game_time (fs_values s))"
proof -
  have "state_ok (Some demo_state) 7"
    by (simp add: state_ok_def well_typed_def demo_state_def state_fields_def game_time_def json_get_def optional_int_def
        typed_value_def)
  then obtain rd where rd: "reduce_fast_state (\<lambda>j. ''x'') (Some demo_state)
       (parse_fast_patch (\<lambda>j. ''x'') [(''game_time'', JInt 590), (''radiant_score'', JInt 3)] 7 9 None 1) False = Inr rd"
    "case rd_state rd of
       None \<Rightarrow> Some demo_state = None \<and> fp_updates (parse_fast_patch (\<lambda>j. ''x'') [(''game_time'', JInt 590), (''radiant_score'', JInt 3)] 7 9 None 1) = []
     | Some s \<Rightarrow> state_ok (Some s) 7 \<and> fs_state_hash s = ''x'' \<and>
         (False \<or> not_before (previous_time (Some demo_state)) (game_time (fs_values s)))"
    using packets_reduce_to_typed_states [of "Some demo_state" 7 "\<lambda>j. ''x''" "[(''game_time'', JInt 590), (''radiant_score'', JInt 3)]" 9 None 1 False]
    by blast
  moreover have "previous_time (Some demo_state) = Some 600"
    by (simp add: previous_time_def demo_state_def game_time_def json_get_def optional_int_def)
  ultimately show ?thesis by (cases "rd_state rd") auto
qed

subsection \<open>The newest row\<close>

lemma newest_last:
  assumes "sorted_wrt (<) (map key (filter P t))"
  shows "newest key P t = (if filter P t = [] then None else Some (last (filter P t)))"
proof (cases "filter P t = []")
  case False
  define xs where "xs = filter P t"
  then have xs: "xs \<noteq> []" "sorted_wrt (<) (map key xs)" using False assms by simp_all
  obtain m where m: "py_max key xs = Some m" using xs(1) by (metis not_Some_eq py_max_None)
  have l: "last xs = last xs" "last xs \<in> set xs" using xs(1) by simp_all
  have "m = last xs"
  proof (rule ccontr)
    assume ne: "m \<noteq> last xs"
    have "m \<in> set (butlast xs @ [last xs])" using py_max_in [OF m] xs(1) by (simp add: append_butlast_last_id)
    then have "m \<in> set (butlast xs)" using ne by simp
    moreover have "sorted_wrt (<) (map key (butlast xs @ [last xs]))" using xs by (simp add: append_butlast_last_id)
    ultimately have "key m < key (last xs)" by (auto simp: sorted_wrt_append)
    then show False using py_max_ge [OF m l(2)] by simp
  qed
  then show ?thesis using m False by (simp add: newest_def xs_def)
qed (simp add: newest_def)

subsection \<open>The invariant of the stored stream\<close>

definition stream_of :: "int \<Rightarrow> observation list \<Rightarrow> observation list" where
  "stream_of match rows = filter (\<lambda>w. lo_match w = match) rows"

text \<open>Two rows of a map stored one after the other: the state changed, its game time did not go back.\<close>

definition follows :: "observation \<Rightarrow> observation \<Rightarrow> bool" where
  "follows a b \<longleftrightarrow> lo_payload_hash a \<noteq> lo_payload_hash b \<and> not_before (game_time (lo_values a)) (game_time (lo_values b))"

definition row_ok :: "bool \<Rightarrow> (json \<Rightarrow> string) \<Rightarrow> live_map list \<Rightarrow> event_db \<Rightarrow> observation \<Rightarrow> bool" where
  "row_ok pg digest maps evs r \<longleftrightarrow>
     observation_fits pg r \<and> well_typed (state_of_record r) \<and> lo_payload_hash r = digest (JObj (lo_values r)) \<and>
     lo_last_change_at r = lo_received_at r \<and> lo_received_at r \<le> lo_last_message_at r \<and>
     (\<exists>m. map_for_match maps (lo_match r) = Some m \<and> lo_canonical_map_id r = Some (lm_id m) \<and>
        (case game_time (lo_values r) of Some g \<Rightarrow> 0 < g \<longrightarrow> is_recorded evs (map_started_event (lm_id m) 0) | None \<Rightarrow> True))"

definition live_inv :: "bool \<Rightarrow> (json \<Rightarrow> string) \<Rightarrow> live_db \<Rightarrow> bool" where
  "live_inv pg digest db \<longleftrightarrow>
     events_inv (lv_events db) \<and>
     distinct (map lo_id (lv_observations db)) \<and> (\<forall>r \<in> set (lv_observations db). lo_id r < lv_next_observation db) \<and>
     distinct (map rw_id (lv_raw db)) \<and> (\<forall>r \<in> set (lv_raw db). rw_id r < lv_next_raw db) \<and>
     (\<forall>r \<in> set (lv_observations db). row_ok pg digest (lv_maps db) (lv_events db) r) \<and>
     (\<forall>match. sorted_wrt (<) (map lo_received_at (stream_of match (lv_observations db))) \<and>
        successively follows (stream_of match (lv_observations db)))"

lemma live_invD:
  assumes "live_inv pg digest db"
  shows "events_inv (lv_events db)" "distinct (map lo_id (lv_observations db))"
    "\<And>r. r \<in> set (lv_observations db) \<Longrightarrow> lo_id r < lv_next_observation db"
    "distinct (map rw_id (lv_raw db))" "\<And>r. r \<in> set (lv_raw db) \<Longrightarrow> rw_id r < lv_next_raw db"
    "\<And>r. r \<in> set (lv_observations db) \<Longrightarrow> row_ok pg digest (lv_maps db) (lv_events db) r"
    "\<And>match. sorted_wrt (<) (map lo_received_at (stream_of match (lv_observations db)))"
    "\<And>match. successively follows (stream_of match (lv_observations db))"
  using assms by (auto simp: live_inv_def)

lemma live_invI:
  assumes "events_inv (lv_events db)"
    "distinct (map lo_id (lv_observations db))" "\<forall>r \<in> set (lv_observations db). lo_id r < lv_next_observation db"
    "distinct (map rw_id (lv_raw db))" "\<forall>r \<in> set (lv_raw db). rw_id r < lv_next_raw db"
    "\<forall>r \<in> set (lv_observations db). row_ok pg digest (lv_maps db) (lv_events db) r"
    "\<And>match. sorted_wrt (<) (map lo_received_at (stream_of match (lv_observations db)))"
    "\<And>match. successively follows (stream_of match (lv_observations db))"
  shows "live_inv pg digest db"
  using assms by (simp add: live_inv_def)

lemma latest_of_stream:
  assumes "live_inv pg digest db"
  shows "latest_observation db match =
    (if stream_of match (lv_observations db) = [] then None else Some (last (stream_of match (lv_observations db))))"
  using newest_last [of lo_received_at "\<lambda>w. lo_match w = match" "lv_observations db"] live_invD(7) [OF assms, of match]
  by (simp add: latest_observation_def stream_of_def)

lemma latest_in:
  assumes "live_inv pg digest db" and "latest_observation db match = Some r"
  shows "r \<in> set (lv_observations db)" "lo_match r = match"
proof -
  have "r \<in> set (stream_of match (lv_observations db))"
    using assms latest_of_stream [OF assms(1), of match] by (auto split: if_splits)
  then show "r \<in> set (lv_observations db)" "lo_match r = match" by (simp_all add: stream_of_def)
qed

definition later :: "live_db \<Rightarrow> time \<Rightarrow> bool" where
  "later db t \<longleftrightarrow> (\<forall>r \<in> set (lv_observations db). lo_received_at r < t)"

lemma state_ok_latest:
  assumes "live_inv pg digest db"
  shows "state_ok (map_option state_of_record (latest_observation db match)) match"
proof (cases "latest_observation db match")
  case (Some r)
  then have "row_ok pg digest (lv_maps db) (lv_events db) r" "lo_match r = match"
    using latest_in [OF assms] live_invD(6) [OF assms] by simp_all
  then have "well_typed (state_of_record r)" unfolding row_ok_def by blast
  moreover have "fs_match (state_of_record r) = match" using \<open>lo_match r = match\<close> by (simp add: state_of_record_def)
  ultimately show ?thesis using Some by (simp add: state_ok_def)
qed (simp add: state_ok_def)

lemma row_ok_mono:
  assumes "row_ok pg digest maps evs r" and "\<And>e. is_recorded evs e \<Longrightarrow> is_recorded evs' e"
  shows "row_ok pg digest maps evs' r"
  using assms by (auto simp: row_ok_def split: option.splits)

lemma live_inv_events:
  assumes "live_inv pg digest db" and "events_inv evs'" and "\<And>e. is_recorded (lv_events db) e \<Longrightarrow> is_recorded evs' e"
  shows "live_inv pg digest (db\<lparr>lv_events := evs'\<rparr>)"
proof -
  have "row_ok pg digest (lv_maps db) evs' r" if "r \<in> set (lv_observations db)" for r
    by (rule row_ok_mono [OF live_invD(6) [OF assms(1) that] assms(3)])
  then show ?thesis using assms(1,2) by (auto simp: live_inv_def)
qed

lemma map_started_any_time: "is_recorded evs (map_started_event i t) \<longleftrightarrow> is_recorded evs (map_started_event i t')"
  by (simp add: is_recorded_def map_started_event_def live_event_def)

lemma stream_snoc: "stream_of match (rows @ [r]) = (if lo_match r = match then stream_of match rows @ [r] else stream_of match rows)"
  by (simp add: stream_of_def)

lemma stream_update:
  assumes "\<And>r. lo_match (f r) = lo_match r"
  shows "stream_of match (update_first P f rows) = update_first (\<lambda>r. lo_match r = match \<and> P r) f (stream_of match rows) \<or>
    stream_of match (update_first P f rows) = stream_of match rows"
  using assms by (induction rows) (auto simp: stream_of_def)

lemma update_first_same: "update_first P (\<lambda>r. r) rows = rows"
  by (induction rows) auto

text \<open>Storing a changed state, given what the reduction guarantees.\<close>

lemma live_inv_store:
  assumes inv: "live_inv pg digest db" and t: "later db t" and m: "map_for_match (lv_maps db) (fs_match s) = Some m"
    and s: "well_typed s" "fs_state_hash s = digest (JObj (fs_values s))" "fs_last_message_at s = t" "fs_last_change_at s = t"
    and fits: "observation_fits pg (record_of_state (lv_next_observation db) (lm_id m) t raw_id s)"
    and step: "\<And>l. latest_observation db (fs_match s) = Some l \<Longrightarrow>
        fs_state_hash s \<noteq> lo_payload_hash l \<and> not_before (game_time (lo_values l)) (game_time (fs_values s))"
    and evs: "events_inv evs'" "\<And>e. is_recorded (lv_events db) e \<Longrightarrow> is_recorded evs' e"
    and started: "case game_time (fs_values s) of Some g \<Rightarrow> 0 < g \<longrightarrow> is_recorded evs' (map_started_event (lm_id m) 0) | None \<Rightarrow> True"
  shows "live_inv pg digest
    (db\<lparr>lv_observations := lv_observations db @ [record_of_state (lv_next_observation db) (lm_id m) t raw_id s],
        lv_next_observation := Suc (lv_next_observation db), lv_events := evs'\<rparr>)"
proof -
  let ?r = "record_of_state (lv_next_observation db) (lm_id m) t raw_id s"
  let ?rows = "lv_observations db"
  have "well_typed (state_of_record ?r)" using s(1) by (simp add: well_typed_def state_of_record_def record_of_state_def)
  then have new: "row_ok pg digest (lv_maps db) evs' ?r"
    unfolding row_ok_def using s fits m started by (simp add: record_of_state_def)
  have old: "row_ok pg digest (lv_maps db) evs' r" if "r \<in> set ?rows" for r
    by (rule row_ok_mono [OF live_invD(6) [OF inv that] evs(2)])
  have match: "lo_match ?r = fs_match s" "lo_received_at ?r = t" "lo_id ?r = lv_next_observation db"
    "lo_payload_hash ?r = fs_state_hash s" "lo_values ?r = fs_values s" by (simp_all add: record_of_state_def)
  have sorted: "sorted_wrt (<) (map lo_received_at (stream_of match (?rows @ [?r])))" for match
    using live_invD(7) [OF inv, of match] t unfolding stream_snoc by (auto simp: match sorted_wrt_append later_def stream_of_def)
  have succ: "successively follows (stream_of match (?rows @ [?r]))" for match
  proof (cases "match = fs_match s \<and> stream_of match ?rows \<noteq> []")
    case True
    then have "follows (last (stream_of match ?rows)) ?r"
      using step [of "last (stream_of match ?rows)"] latest_of_stream [OF inv, of match] by (auto simp: follows_def match)
    then show ?thesis using live_invD(8) [OF inv, of match] unfolding stream_snoc by (auto simp: successively_append_iff)
  next
    case False
    then show ?thesis using live_invD(8) [OF inv, of match] unfolding stream_snoc by (auto simp: match)
  qed
  have fresh_id: "lv_next_observation db \<notin> lo_id ` set ?rows" using live_invD(3) [OF inv] by force
  have "\<forall>r \<in> set (?rows @ [?r]). lo_id r < Suc (lv_next_observation db)"
    using live_invD(3) [OF inv] by (auto simp: match less_Suc_eq)
  moreover have "distinct (map lo_id (?rows @ [?r]))" using live_invD(2) [OF inv] fresh_id by (simp add: match)
  moreover have "\<forall>r \<in> set (?rows @ [?r]). row_ok pg digest (lv_maps db) evs' r" using new old by simp
  ultimately show ?thesis
    using evs(1) sorted succ live_invD(4,5) [OF inv] by (intro live_invI) simp_all
qed

text \<open>Marking the archived row, and refreshing the message time of the latest row.\<close>

lemma live_inv_raw:
  assumes "live_inv pg digest db" and "\<And>r. rw_id (f r) = rw_id r"
  shows "live_inv pg digest (db\<lparr>lv_raw := update_first P f (lv_raw db)\<rparr>)"
proof -
  have "map rw_id (update_first P f (lv_raw db)) = map rw_id (lv_raw db)" by (rule map_update_first) (simp add: assms(2))
  moreover have "rw_id r < lv_next_raw db" if "r \<in> set (update_first P f (lv_raw db))" for r
    using in_update_firstD [OF that] live_invD(5) [OF assms(1)] assms(2) by auto
  ultimately show ?thesis using assms(1) by (auto simp: live_inv_def)
qed

lemma map_stream_update:
  assumes "\<And>r. lo_match (f r) = lo_match r" "\<And>r. h (f r) = h r"
  shows "map h (stream_of match (update_first P f rows)) = map h (stream_of match rows)"
  using assms by (induction rows) (auto simp: stream_of_def)

lemma refresh_fields [simp]:
  "lo_id (refresh_message s r) = lo_id r" "lo_match (refresh_message s r) = lo_match r"
  "lo_values (refresh_message s r) = lo_values r" "lo_payload_hash (refresh_message s r) = lo_payload_hash r"
  "lo_received_at (refresh_message s r) = lo_received_at r" "lo_last_change_at (refresh_message s r) = lo_last_change_at r"
  "lo_canonical_map_id (refresh_message s r) = lo_canonical_map_id r" "lo_source_game_time (refresh_message s r) = lo_source_game_time r"
  "lo_last_message_at (refresh_message s r) = fs_last_message_at s"
  "lo_connection_id (refresh_message s r) = fs_connection_id s" "lo_generation (refresh_message s r) = fs_generation s"
  by (simp_all add: refresh_message_def)

lemma successively_follows_map:
  "successively follows rows \<longleftrightarrow> successively (\<lambda>(h, g) (h', g'). h \<noteq> h' \<and> not_before g g')
     (map (\<lambda>r. (lo_payload_hash r, game_time (lo_values r))) rows)"
  by (simp add: successively_map follows_def)

lemma live_inv_refresh:
  assumes inv: "live_inv pg digest db" and later: "later db (fs_last_message_at s)"
    and fits: "optional_fits (text_fits pg 64) (fs_connection_id s)" "integer_fits pg (int (fs_generation s))"
  shows "live_inv pg digest (db\<lparr>lv_observations := update_first P (refresh_message s) (lv_observations db)\<rparr>)"
proof -
  let ?rows = "update_first P (refresh_message s) (lv_observations db)"
  have ids: "map lo_id ?rows = map lo_id (lv_observations db)" by (rule map_update_first) simp
  have row: "row_ok pg digest (lv_maps db) (lv_events db) r \<and> lo_id r < lv_next_observation db" if "r \<in> set ?rows" for r
    using in_update_firstD [OF that]
  proof
    assume "\<exists>q \<in> set (lv_observations db). P q \<and> r = refresh_message s q"
    then obtain q where q: "q \<in> set (lv_observations db)" "r = refresh_message s q" by blast
    have "row_ok pg digest (lv_maps db) (lv_events db) q" by (rule live_invD(6) [OF inv q(1)])
    moreover have "well_typed (state_of_record r) = well_typed (state_of_record q)"
      by (simp add: well_typed_def state_of_record_def q(2))
    moreover have "observation_fits pg q \<Longrightarrow> observation_fits pg r"
      using fits by (simp add: observation_fits_def q(2))
    ultimately show ?thesis
      using live_invD(3) [OF inv q(1)] later q(1) unfolding row_ok_def later_def by (auto simp: q(2))
  qed (use live_invD(3,6) [OF inv] in simp)
  have "map lo_received_at (stream_of match ?rows) = map lo_received_at (stream_of match (lv_observations db))" for match
    by (rule map_stream_update) simp_all
  moreover have "successively follows (stream_of match ?rows) = successively follows (stream_of match (lv_observations db))" for match
    unfolding successively_follows_map by (subst map_stream_update) simp_all
  ultimately show ?thesis using inv row ids by (auto simp: live_inv_def)
qed

subsection \<open>The collector runs the reducer\<close>

text \<open>The reference: a map's state is what its packets reduce to one after the other, a packet without
  news only refreshing when and over which connection the last message came.\<close>

definition stream_step :: "(json \<Rightarrow> string) \<Rightarrow> fast_state option \<Rightarrow> fast_patch \<Rightarrow> fast_state option" where
  "stream_step digest st patch =
     (case reduce_fast_state digest st patch False of
        Inl e \<Rightarrow> st
      | Inr rd \<Rightarrow>
          if rd_changed rd then rd_state rd
          else map_option (\<lambda>s. s\<lparr>fs_last_message_at := fp_received_at patch, fs_connection_id := fp_connection_id patch,
                                fs_generation := fp_generation patch\<rparr>) st)"

text \<open>A stored row does not keep the hash of the last raw payload.\<close>

definition durable :: "fast_state option \<Rightarrow> fast_state option" where
  "durable st = map_option (\<lambda>s. s\<lparr>fs_last_payload_hash := []\<rparr>) st"

definition stored_state :: "live_db \<Rightarrow> int \<Rightarrow> fast_state option" where
  "stored_state db match = map_option state_of_record (latest_observation db match)"

lemma durable_eq_iff:
  "durable p = durable q \<longleftrightarrow> (case (p, q) of (None, None) \<Rightarrow> True | (Some a, Some b) \<Rightarrow>
     fs_match a = fs_match b \<and> fs_values a = fs_values b \<and> fs_source_game_time a = fs_source_game_time b \<and>
     fs_last_message_at a = fs_last_message_at b \<and> fs_last_change_at a = fs_last_change_at b \<and>
     fs_state_hash a = fs_state_hash b \<and> fs_connection_id a = fs_connection_id b \<and> fs_generation a = fs_generation b | _ \<Rightarrow> False)"
proof -
  have ext: "a = b \<longleftrightarrow> fs_match a = fs_match b \<and> fs_values a = fs_values b \<and> fs_source_game_time a = fs_source_game_time b \<and>
     fs_last_message_at a = fs_last_message_at b \<and> fs_last_change_at a = fs_last_change_at b \<and>
     fs_state_hash a = fs_state_hash b \<and> fs_last_payload_hash a = fs_last_payload_hash b \<and>
     fs_connection_id a = fs_connection_id b \<and> fs_generation a = fs_generation b" for a b :: fast_state
    by (cases a; cases b) auto
  show ?thesis by (cases p; cases q) (auto simp: durable_def ext)
qed

lemma apply_updates_cong:
  assumes "map_option fs_values p = map_option fs_values q"
  shows "apply_updates p reset us acc = apply_updates q reset us acc"
proof -
  have r: "regresses p reset f v = regresses q reset f v" for f v
    using assms by (auto simp: regresses_def split: option.splits json.splits)
  show ?thesis
  proof (induction us arbitrary: acc)
    case (Cons u us)
    then show ?case by (cases u; cases acc) (simp add: r)
  qed simp
qed

lemma reduce_durable:
  assumes "durable p = durable q"
  shows "reduce_fast_state digest p patch reset = reduce_fast_state digest q patch reset"
proof (cases p; cases q)
  fix a b
  assume pq: "p = Some a" "q = Some b"
  then have eq: "fs_match a = fs_match b" "fs_values a = fs_values b" "fs_state_hash a = fs_state_hash b"
    "fs_last_change_at a = fs_last_change_at b" using assms by (simp_all add: durable_eq_iff)
  have i: "initial_values (Some a) = initial_values (Some b)" by (simp add: initial_values_def eq)
  have u: "apply_updates (Some a) reset us acc = apply_updates (Some b) reset us acc" for us acc
    by (rule apply_updates_cong) (simp add: eq)
  have n: "(Some a = None) = (Some b = None)" by simp
  show ?thesis unfolding reduce_fast_state_def pq option.case i u eq n by (rule refl)
qed (use assms in \<open>simp_all add: durable_def\<close>)

lemma stream_step_durable:
  assumes "durable p = durable q"
  shows "durable (stream_step digest p patch) = durable (stream_step digest q patch)"
proof -
  have "durable (map_option f p) = durable (map_option f q)"
    if "\<And>s h. (f s)\<lparr>fs_last_payload_hash := h\<rparr> = f (s\<lparr>fs_last_payload_hash := h\<rparr>)" for f
    using assms that by (cases p; cases q) (auto simp: durable_def)
  then show ?thesis
    unfolding stream_step_def reduce_durable [OF assms, of digest patch False]
    using assms by (auto split: sum.split)
qed

lemma stream_of_update_where:
  assumes "\<And>r. lo_match (f r) = lo_match r"
  shows "stream_of match (update_where P f rows) = update_where P f (stream_of match rows)"
  using assms by (induction rows) (auto simp: stream_of_def)

lemma refreshed_state:
  assumes inv: "live_inv pg digest db" and l: "latest_observation db match = Some l" and later: "later db (fs_last_message_at s)"
    and fits: "optional_fits (text_fits pg 64) (fs_connection_id s)" "integer_fits pg (int (fs_generation s))"
  shows "latest_observation (db\<lparr>lv_observations := update_first (\<lambda>r. lo_id r = lo_id l) (refresh_message s) (lv_observations db)\<rparr>) match =
    Some (refresh_message s l)"
proof -
  let ?rows = "lv_observations db"
  let ?db = "db\<lparr>lv_observations := update_first (\<lambda>r. lo_id r = lo_id l) (refresh_message s) ?rows\<rparr>"
  have inv': "live_inv pg digest ?db" by (rule live_inv_refresh [OF inv later fits])
  have "update_first (\<lambda>r. lo_id r = lo_id l) (refresh_message s) ?rows = update_where (\<lambda>r. lo_id r = lo_id l) (refresh_message s) ?rows"
    by (rule update_first_eq_where [where key = lo_id]) (use live_invD(2) [OF inv] in simp_all)
  then have stream: "stream_of match (lv_observations ?db) =
      map (\<lambda>r. if lo_id r = lo_id l then refresh_message s r else r) (stream_of match ?rows)"
    using stream_of_update_where [of "refresh_message s"] by (simp add: update_where_def)
  have "stream_of match ?rows \<noteq> []" "last (stream_of match ?rows) = l"
    using l latest_of_stream [OF inv, of match] by (auto split: if_splits)
  then show ?thesis using latest_of_stream [OF inv', of match] stream by (simp add: last_map)
qed

lemma record_crossed_total:
  assumes "events_inv evs"
  shows "\<exists>n evs'. record_crossed_checkpoints pg evs now i pt ct minutes t el pel = Inr (n, evs') \<and> events_inv evs' \<and>
    (\<forall>e. is_recorded evs e \<longrightarrow> is_recorded evs' e)"
proof -
  obtain basis passed where bp: "(case el of
           Some x \<Rightarrow> (''real_time'', crossed pel x minutes)
         | None \<Rightarrow> (''game_time'', (case ct of None \<Rightarrow> [] | Some g \<Rightarrow> game_time_crossed pt g minutes))) = (basis, passed)"
    by (rule prod.exhaust)
  obtain evs' where "record_all pg evs now (map (checkpoint_event i t basis) passed) = Inr evs'" "events_inv evs'"
    "\<forall>e. is_recorded evs e \<longrightarrow> is_recorded evs' e"
    using record_all_run [OF assms] by blast
  then show ?thesis unfolding record_crossed_checkpoints_def bp by auto
qed

subsection \<open>What can refuse a packet\<close>

text \<open>The archived bootstraps name a game start that is a date, and the archived series frames match ids of 64
  bits.\<close>

definition anchors_readable :: "live_db \<Rightarrow> bool" where
  "anchors_readable db \<longleftrightarrow>
     (\<forall>r \<in> set (lv_raw db). \<forall>t. rw_event_type r = ''DLTV_BOOTSTRAP'' \<longrightarrow>
        json_get (rw_payload r) ''is_picks_ended_time'' = JInt t \<longrightarrow> -62135596800 \<le> t \<and> t \<le> 253402300799)"

definition frames_readable :: "live_db \<Rightarrow> bool" where
  "frames_readable db \<longleftrightarrow>
     (\<forall>r \<in> set (lv_raw db). rw_event_type r = ''DLTV_SERIES'' \<longrightarrow> (\<forall>ms \<in> set (live_maps (rw_payload r)). fits_int 64 (fst ms)))"

definition patch_fits :: "bool \<Rightarrow> fast_patch \<Rightarrow> bool" where
  "patch_fits pg patch \<longleftrightarrow> (\<forall>(f, v) \<in> set (fp_updates patch). value_fits pg v)"

lemma map_sum_Inl: "map_sum f g x = Inl e \<longleftrightarrow> (\<exists>a. x = Inl a \<and> e = f a)"
  by (cases x) auto

lemma anchor_error:
  assumes "resolve_anchor mem db i match t = Inl e"
  shows "e = AnchorOutOfRange \<and> \<not> anchors_readable db"
proof -
  have a: "picks_ended_anchor db match t = Inl e"
    using assms by (auto simp: resolve_anchor_def split: option.splits sum.splits)
  then obtain r x where r: "newest rw_received_at (\<lambda>r. raw_matches ''DLTV_BOOTSTRAP'' (str_int match) r \<and> rw_received_at r \<le> t) (lv_raw db) = Some r"
      "json_get (rw_payload r) ''is_picks_ended_time'' = JInt x" "from_timestamp x = Inl e"
    by (auto simp: picks_ended_anchor_def map_sum_Inl split: option.splits json.splits)
  have "r \<in> set (lv_raw db)" "rw_event_type r = ''DLTV_BOOTSTRAP''"
    using py_max_in [OF r(1) [unfolded newest_def]] by (simp_all add: raw_matches_def)
  moreover have "e = AnchorOutOfRange" "\<not> (-62135596800 \<le> x \<and> x \<le> 253402300799)"
    using r(3) by (auto simp: from_timestamp_def split: if_splits)
  ultimately show ?thesis using r(2) unfolding anchors_readable_def by blast
qed

lemma initial_fits:
  assumes "\<forall>p. previous = Some p \<longrightarrow> (\<forall>(f, v) \<in> set (fs_values p). value_fits pg v)"
  shows "\<forall>(f, v) \<in> set (initial_values previous). value_fits pg v"
proof (cases previous)
  case None
  then show ?thesis by (auto simp: initial_values_def value_fits_def document_fits_def)
next
  case (Some p)
  have "value_fits pg (json_get (fs_values p) f)" for f
  proof (cases "map_of (fs_values p) f")
    case None
    then show ?thesis by (simp add: json_get_def value_fits_def document_fits_def)
  next
    case (Some v)
    then show ?thesis using assms \<open>previous = Some p\<close> map_of_SomeD [OF Some] by (auto simp: json_get_def)
  qed
  then show ?thesis by (auto simp: initial_values_def Some)
qed

lemma set_update_subset: "set (AList.update k v al) \<subseteq> insert (k, v) (set al)"
  by (induction al) auto

lemma apply_updates_values:
  "set (fst (apply_updates previous reset us (vs, ws))) \<subseteq> set vs \<union> set us"
proof (induction us arbitrary: vs ws)
  case (Cons u us)
  obtain f v where u: "u = (f, v)" by (cases u)
  have "set (fst (apply_updates previous reset us (AList.update f v vs, ws))) \<subseteq> set vs \<union> set (u # us)"
    using Cons.IH [of "AList.update f v vs" ws] set_update_subset [of f v vs] by (auto simp: u)
  moreover have "set (fst (apply_updates previous reset us (vs, ws'))) \<subseteq> set vs \<union> set (u # us)" for ws'
    using Cons.IH [of vs ws'] by auto
  ultimately show ?case by (simp add: u)
qed simp

lemma reduced_fits:
  assumes "reduce_fast_state digest previous patch reset = Inr rd" and "rd_state rd = Some s" and "patch_fits pg patch"
    and "\<forall>p. previous = Some p \<longrightarrow> (\<forall>(f, v) \<in> set (fs_values p). value_fits pg v)"
  shows "\<forall>(f, v) \<in> set (fs_values s). value_fits pg v"
proof -
  have "fs_values s = fst (apply_updates previous reset (fp_updates patch) (initial_values previous, []))"
    using assms(1,2) by (auto simp: reduce_fast_state_def Let_def split: if_splits prod.splits)
  then show ?thesis
    using apply_updates_values [of previous reset "fp_updates patch" "initial_values previous" "[]"] initial_fits [OF assms(4)] assms(3)
    unfolding patch_fits_def by auto
qed

lemma store_observation_ok:
  assumes inv: "live_inv pg digest db" and t: "later db t" and m: "map_for_match (lv_maps db) (fs_match s) = Some m"
    and s: "well_typed s" "fs_state_hash s = digest (JObj (fs_values s))" "fs_last_message_at s = t" "fs_last_change_at s = t"
    and latest: "latest = latest_observation db (fs_match s)"
    and step: "\<And>l. latest = Some l \<Longrightarrow>
        fs_state_hash s \<noteq> lo_payload_hash l \<and> not_before (game_time (lo_values l)) (game_time (fs_values s))"
  shows "case fst (store_observation pg minutes mem db now (lm_id m) latest s raw_id t) of
      Inl e \<Rightarrow> e = StorageRefused \<and> \<not> observation_fits pg (record_of_state (lv_next_observation db) (lm_id m) t raw_id s) \<or>
        e = AnchorOutOfRange \<and> \<not> anchors_readable db
    | Inr db' \<Rightarrow> live_inv pg digest db' \<and>
        (\<exists>evs'. db' = db\<lparr>lv_observations := lv_observations db @ [record_of_state (lv_next_observation db) (lm_id m) t raw_id s],
          lv_next_observation := Suc (lv_next_observation db), lv_events := evs'\<rparr>)"
proof -
  let ?r = "record_of_state (lv_next_observation db) (lm_id m) t raw_id s"
  let ?db1 = "db\<lparr>lv_observations := lv_observations db @ [?r], lv_next_observation := Suc (lv_next_observation db)\<rparr>"
  let ?start = "if starts_map latest s then [map_started_event (lm_id m) t] else []"
  let ?out = "store_observation pg minutes mem db now (lm_id m) latest s raw_id t"
  have nodup: "\<not> (\<exists>r \<in> set (lv_observations db). lo_match r = lo_match ?r \<and> lo_payload_hash r = lo_payload_hash ?r \<and> lo_received_at r = t)"
    using t by (auto simp: later_def)
  obtain evs1 where e1: "record_all pg (lv_events db) now ?start = Inr evs1" "events_inv evs1"
    "\<forall>e \<in> set ?start. is_recorded evs1 e" "\<forall>e. is_recorded (lv_events db) e \<longrightarrow> is_recorded evs1 e"
    using record_all_run [OF live_invD(1) [OF inv], of pg now ?start] by blast
  show ?thesis
  proof (cases "resolve_anchor mem ?db1 (lm_id m) (fs_match s) t")
    case (Inl e)
    have "e = AnchorOutOfRange \<and> \<not> anchors_readable db" using anchor_error [OF Inl] by (simp add: anchors_readable_def)
    then show ?thesis using Inl e1(1) nodup
      by (auto simp: store_observation_def Let_def split: if_splits)
  next
    case (Inr am)
    obtain anchor mem1 where am: "am = (anchor, mem1)" by (cases am)
    obtain el pel mem2 where b: "real_elapsed mem1 (lm_id m) anchor t = (el, pel, mem2)" by (metis prod_cases3)
    obtain n evs2 where e2: "record_crossed_checkpoints pg evs1 now (lm_id m)
        (case latest of None \<Rightarrow> None | Some r \<Rightarrow> game_time (lo_values r)) (game_time (fs_values s)) minutes t el pel = Inr (n, evs2)"
      "events_inv evs2" "\<forall>e. is_recorded evs1 e \<longrightarrow> is_recorded evs2 e"
      using record_crossed_total [OF e1(2)] by metis
    show ?thesis
    proof (cases "observation_fits pg ?r")
      case False
      then have "fst ?out = Inl StorageRefused"
        unfolding store_observation_def Let_def using e1(1) Inr am b by simp
      then show ?thesis using False by simp
    next
      case fits: True
      have run: "fst ?out = Inr (?db1\<lparr>lv_events := evs2\<rparr>)"
        unfolding store_observation_def Let_def using fits nodup e1(1) Inr am b e2(1)
        by (cases "starts_map latest s") auto
      have started: "is_recorded evs2 (map_started_event (lm_id m) 0)" if g: "game_time (fs_values s) = Some g" "0 < g" for g
      proof (cases "not_started latest")
        case True
        then have "is_recorded evs1 (map_started_event (lm_id m) t)" using g e1(3) by (simp add: starts_map_def)
        then show ?thesis using e2(3) map_started_any_time by blast
      next
        case False
        then obtain l h where l: "latest = Some l" "game_time (lo_values l) = Some h" "h \<noteq> 0"
          by (auto simp: not_started_def split: option.splits)
        have lin: "l \<in> set (lv_observations db)" "lo_match l = fs_match s"
          using latest_in [OF inv, of "fs_match s" l] l(1) latest by simp_all
        have ok: "row_ok pg digest (lv_maps db) (lv_events db) l" by (rule live_invD(6) [OF inv lin(1)])
        have "typed_fields (lo_values l)" using ok unfolding row_ok_def by (simp add: well_typed_def state_of_record_def)
        then have "0 < h" using l(2,3) map_of_typed [of "lo_values l" "''game_time_seconds''"]
          by (auto simp: game_time_def optional_int_def json_get_def typed_value_def split: option.splits json.splits)
        then have "is_recorded (lv_events db) (map_started_event (lm_id m) 0)"
          using ok lin(2) m l(2) unfolding row_ok_def by auto
        then show ?thesis using e1(4) e2(3) by blast
      qed
      have "live_inv pg digest (?db1\<lparr>lv_events := evs2\<rparr>)"
        using live_inv_store [OF inv t m s fits step [unfolded latest] e2(2)] e1(4) e2(3) started
        by (auto split: option.split)
      then show ?thesis using run by auto
    qed
  qed
qed

text \<open>One packet of a known map.\<close>

lemma collect_known_ok:
  assumes inv: "live_inv pg digest db" and t: "later db (fp_received_at patch)"
    and m: "map_for_match (lv_maps db) (fp_match patch) = Some m" and typed: "typed_fields (fp_updates patch)"
    and fits: "optional_fits (text_fits pg 64) (fp_connection_id patch)" "integer_fits pg (int (fp_generation patch))"
      "fits_int 64 (fp_match patch)"
  shows "case fst (collect_known pg digest minutes mem db now (lm_id m) patch raw_id) of
      Inl e \<Rightarrow> e = StorageRefused \<and> \<not> patch_fits pg patch \<or> e = AnchorOutOfRange \<and> \<not> anchors_readable db
    | Inr db' \<Rightarrow> live_inv pg digest db' \<and> lv_maps db' = lv_maps db \<and>
        durable (stored_state db' (fp_match patch)) = durable (stream_step digest (stored_state db (fp_match patch)) patch) \<and>
        (\<exists>h d. lv_raw db' = update_first (\<lambda>r. rw_id r = raw_id) (\<lambda>r. r\<lparr>rw_state_hash := h, rw_is_duplicate := Some d\<rparr>) (lv_raw db)) \<and>
        (\<forall>w \<in> set (lv_observations db'). lo_received_at w \<le> fp_received_at patch)"
proof -
  let ?latest = "latest_observation db (fp_match patch)"
  let ?prev = "map_option state_of_record ?latest"
  have ok: "state_ok ?prev (fp_match patch)" by (rule state_ok_latest [OF inv])
  obtain rd where rd: "reduce_fast_state digest ?prev patch False = Inr rd" and
    cases: "case rd_state rd of
       None \<Rightarrow> ?prev = None \<and> fp_updates patch = [] \<and> \<not> rd_changed rd
     | Some s \<Rightarrow> well_typed s \<and> fs_match s = fp_match patch \<and> fs_state_hash s = digest (JObj (fs_values s)) \<and>
         (False \<or> not_before (previous_time ?prev) (game_time (fs_values s))) \<and>
         fs_last_message_at s = fp_received_at patch \<and> fs_connection_id s = fp_connection_id patch \<and>
         fs_generation s = fp_generation patch \<and> (?prev = None \<longrightarrow> fp_updates patch \<noteq> []) \<and>
         (rd_changed rd \<longleftrightarrow> fp_updates patch \<noteq> [] \<and> (case ?prev of None \<Rightarrow> True | Some p \<Rightarrow> fs_state_hash s \<noteq> fs_state_hash p)) \<and>
         (rd_changed rd \<longrightarrow> fs_last_change_at s = fp_received_at patch)"
    using reduce_cases [OF ok typed, of digest False] by blast
  let ?f = "\<lambda>r. r\<lparr>rw_state_hash := map_option fs_state_hash (rd_state rd), rw_is_duplicate := Some (rd_duplicate rd)\<rparr>"
  let ?db1 = "db\<lparr>lv_raw := update_first (\<lambda>r. rw_id r = raw_id) ?f (lv_raw db)\<rparr>"
  have inv1: "live_inv pg digest ?db1" by (rule live_inv_raw [OF inv]) simp
  have latest1: "latest_observation (db\<lparr>lv_raw := raw\<rparr>) match = latest_observation db match" for match raw
    by (simp add: latest_observation_def)
  have t1: "later ?db1 (fp_received_at patch)" using t by (simp add: later_def)
  have times: "\<forall>w \<in> set (lv_observations db). lo_received_at w \<le> fp_received_at patch" using t by (auto simp: later_def)
  have spec: "stream_step digest (stored_state db (fp_match patch)) patch =
     (if rd_changed rd then rd_state rd
      else map_option (\<lambda>s. s\<lparr>fs_last_message_at := fp_received_at patch, fs_connection_id := fp_connection_id patch,
                                fs_generation := fp_generation patch\<rparr>) ?prev)"
    by (simp add: stream_step_def stored_state_def rd)
  show ?thesis
  proof (cases "rd_state rd")
    case None
    then have "fst (collect_known pg digest minutes mem db now (lm_id m) patch raw_id) = Inr ?db1"
      by (simp add: collect_known_def rd Let_def)
    moreover have "durable (stored_state ?db1 (fp_match patch)) = durable (stream_step digest (stored_state db (fp_match patch)) patch)"
      unfolding spec using None cases by (simp add: stored_state_def latest1)
    ultimately show ?thesis using inv1 times by auto
  next
    case (Some s)
    note c = cases [unfolded Some option.case]
    show ?thesis
    proof (cases "rd_changed rd")
      case True
      have step: "fs_state_hash s \<noteq> lo_payload_hash l \<and> not_before (game_time (lo_values l)) (game_time (fs_values s))"
        if "?latest = Some l" for l
        using c True that by (auto simp: state_of_record_def previous_time_def)
      let ?row = "record_of_state (lv_next_observation ?db1) (lm_id m) (fp_received_at patch) raw_id s"
      have c': "well_typed s" "fs_match s = fp_match patch" "fs_state_hash s = digest (JObj (fs_values s))"
        "fs_last_message_at s = fp_received_at patch" "fs_last_change_at s = fp_received_at patch" using c True by simp_all
      let ?out = "store_observation pg minutes mem ?db1 now (lm_id m) ?latest s raw_id (fp_received_at patch)"
      have st: "case fst ?out of
          Inl e \<Rightarrow> e = StorageRefused \<and> \<not> observation_fits pg ?row \<or> e = AnchorOutOfRange \<and> \<not> anchors_readable ?db1
        | Inr db' \<Rightarrow> live_inv pg digest db' \<and>
            (\<exists>evs'. db' = ?db1\<lparr>lv_observations := lv_observations ?db1 @ [?row], lv_next_observation := Suc (lv_next_observation ?db1), lv_events := evs'\<rparr>)"
        by (rule store_observation_ok [OF inv1 t1]) (use m c' step latest1 in simp_all)
      have eq: "fst (collect_known pg digest minutes mem db now (lm_id m) patch raw_id) = fst ?out"
        using Some True by (simp add: collect_known_def rd Let_def)
      show ?thesis
      proof (cases "fst ?out")
        case (Inl e)
        have "anchors_readable ?db1" if "anchors_readable db"
          using that by (auto simp: anchors_readable_def dest!: in_update_firstD)
        moreover have "observation_fits pg ?row" if "patch_fits pg patch"
        proof -
          have "\<forall>(f, v) \<in> set (fs_values p). value_fits pg v" if p: "?prev = Some p" for p
          proof -
            obtain l where l: "?latest = Some l" "p = state_of_record l" using p by auto
            have "row_ok pg digest (lv_maps db) (lv_events db) l" by (rule live_invD(6) [OF inv]) (use latest_in [OF inv l(1)] in simp)
            then show ?thesis by (simp add: row_ok_def observation_fits_def l(2) state_of_record_def)
          qed
          then have vals: "\<forall>(f, v) \<in> set (fs_values s). value_fits pg v"
            using reduced_fits [OF rd Some that] by blast
          have "optional_fits (integer_fits pg) (game_time (fs_values s))"
            using vals map_of_SomeD [of "fs_values s" "''game_time_seconds''"]
            by (fastforce simp: optional_fits_def game_time_def optional_int_def json_get_def value_fits_def split: option.splits json.splits)
          then show ?thesis using vals fits c by (simp add: observation_fits_def record_of_state_def well_typed_def)
        qed
        ultimately show ?thesis using st eq Inl by auto
      next
        case (Inr db2)
        then obtain evs' where db2: "db2 = ?db1\<lparr>lv_observations := lv_observations ?db1 @ [?row], lv_next_observation := Suc (lv_next_observation ?db1), lv_events := evs'\<rparr>"
            "live_inv pg digest db2"
          using st by auto
        have "lo_match ?row = fp_match patch" by (simp add: record_of_state_def c'(2))
        then have "latest_observation db2 (fp_match patch) = Some ?row"
          using latest_of_stream [OF db2(2), of "fp_match patch"] by (simp add: db2(1) stream_snoc)
        then have "durable (stored_state db2 (fp_match patch)) = durable (stream_step digest (stored_state db (fp_match patch)) patch)"
          unfolding spec using True Some by (simp add: stored_state_def durable_def state_of_record_def record_of_state_def)
        then show ?thesis using eq Inr db2 times by (auto simp: record_of_state_def)
      qed
    next
      case False
      have "?latest \<noteq> None" using c False by (auto split: option.splits)
      then obtain l where l: "?latest = Some l" by blast
      let ?db2 = "?db1\<lparr>lv_observations := update_first (\<lambda>r. lo_id r = lo_id l) (refresh_message s) (lv_observations ?db1)\<rparr>"
      have cc: "fs_last_message_at s = fp_received_at patch" "fs_connection_id s = fp_connection_id patch"
        "fs_generation s = fp_generation patch" using c by simp_all
      have t2: "later ?db1 (fs_last_message_at s)" using t1 c by simp
      have "fst (collect_known pg digest minutes mem db now (lm_id m) patch raw_id) = Inr ?db2"
        using Some False l rd by (simp add: collect_known_def Let_def)
      moreover have "live_inv pg digest ?db2" by (rule live_inv_refresh [OF inv1 t2]) (use cc fits in simp_all)
      moreover have "latest_observation ?db2 (fp_match patch) = Some (refresh_message s l)"
        by (rule refreshed_state [OF inv1 _ t2]) (use cc fits in \<open>simp_all add: latest1 l\<close>)
      then have "durable (stored_state ?db2 (fp_match patch)) = durable (stream_step digest (stored_state db (fp_match patch)) patch)"
        unfolding spec unfolding if_not_P [OF False] stored_state_def using l cc
        by (simp add: durable_def state_of_record_def refresh_message_def)
      moreover have "\<forall>w \<in> set (lv_observations ?db2). lo_received_at w \<le> fp_received_at patch"
        using times by (auto dest!: in_update_firstD)
      ultimately show ?thesis by auto
    qed
  qed
qed

subsection \<open>Event names\<close>

lemma strip_visible: "\<forall>c \<in> set s. \<not> py_isspace c \<Longrightarrow> strip s = s"
proof -
  have keep: "\<forall>c \<in> set xs. \<not> py_isspace c \<Longrightarrow> dropWhile py_isspace xs = xs" for xs by (cases xs) simp_all
  show "\<forall>c \<in> set s. \<not> py_isspace c \<Longrightarrow> strip s = s" using keep [of s] keep [of "rev s"] by (simp add: strip_def)
qed

lemma plain_digits_digits: "list_all is_digit ds \<Longrightarrow> b \<or> ds \<noteq> [] \<Longrightarrow> plain_digits b ds = Some ds"
  by (induction ds arbitrary: b) auto

lemma digits_of_digits: "list_all is_digit (digits_of n)"
  by (auto simp: list_all_iff is_digit_def Let_def dest: digits_of_isdigit)

lemma digit_visible: "is_digit c \<Longrightarrow> \<not> py_isspace c \<and> c \<noteq> CHR ''-'' \<and> c \<noteq> CHR ''+'' \<and> c \<noteq> CHR ''_''"
  by (auto simp: is_digit_def py_isspace_def Let_def)

lemma str_int_chars: "c \<in> set (str_int i) \<Longrightarrow> \<not> py_isspace c \<and> c \<noteq> CHR ''_''"
  using digits_of_digits digit_visible by (fastforce simp: str_int_def list_all_iff py_isspace_def split: if_splits)

lemma length_digits_of: "n < 10 ^ k \<Longrightarrow> 0 < k \<Longrightarrow> length (digits_of n) \<le> k"
proof (induction n arbitrary: k rule: digits_of.induct)
  case (1 n)
  show ?case
  proof (cases "n < 10")
    case True
    then show ?thesis using 1(3) by (simp add: digits_of.simps [of n])
  next
    case False
    then obtain j where k: "k = Suc j" "0 < j" using 1(2,3) by (cases k; cases "k - 1") auto
    have "n div 10 < 10 ^ j" using 1(2) by (simp add: k less_mult_imp_div_less mult.commute)
    from 1(1) [OF False this k(2)] show ?thesis using False by (simp add: digits_of.simps [of n] k)
  qed
qed

lemma digits_value_digits_of: "n < 10 ^ 20 \<Longrightarrow> digits_value (digits_of n) = Some (int n)"
  using plain_digits_digits [OF digits_of_digits [of n], of False] length_digits_of [of n 20]
  by (simp add: digits_value_def val_of_digits_digits_of)

lemma parse_int_str_int:
  assumes "fits_int 64 i"
  shows "parse_int (str_int i) = Some i"
proof -
  have strip: "strip (str_int i) = str_int i" by (rule strip_visible) (simp add: str_int_chars)
  have small: "nat \<bar>i\<bar> < 10 ^ 20" using assms by (auto simp: fits_int_def)
  show ?thesis
  proof (cases "i < 0")
    case True
    then show ?thesis
      using digits_value_digits_of [of "nat (- i)"] small strip by (simp add: parse_int_def str_int_def)
  next
    case False
    obtain c cs where d: "digits_of (nat i) = c # cs" by (cases "digits_of (nat i)") simp_all
    have "is_digit c" using digits_of_digits [of "nat i"] by (simp add: d)
    moreover have "digits_value (c # cs) = Some i" using digits_value_digits_of [of "nat i"] small False by (simp add: d)
    ultimately show ?thesis
      using False strip digit_visible [of c] by (simp add: parse_int_def str_int_def d)
  qed
qed

definition match_event_name :: "int \<Rightarrow> string" where
  "match_event_name match = ''__nd2_match_'' @ str_int match"

lemma match_event_name_parsed:
  "starts_with ''__nd2_match_'' (match_event_name match)" "match_event_name match \<noteq> ''__nd2_series''"
  "fits_int 64 match \<Longrightarrow> parse_int (last_segment (match_event_name match)) = Some match"
proof -
  show "starts_with ''__nd2_match_'' (match_event_name match)" "match_event_name match \<noteq> ''__nd2_series''"
    by (simp_all add: match_event_name_def)
  have "takeWhile (\<lambda>c. c \<noteq> CHR ''_'') (rev (str_int match) @ CHR ''_'' # xs) = rev (str_int match)" for xs
    by (subst takeWhile_append2) (auto dest: str_int_chars)
  from this [of "rev ''__nd2_match''"] have "last_segment (match_event_name match) = str_int match"
    by (simp add: last_segment_def match_event_name_def)
  then show "fits_int 64 match \<Longrightarrow> parse_int (last_segment (match_event_name match)) = Some match"
    by (simp add: parse_int_str_int)
qed

subsection \<open>Every packet\<close>

lemma append_raw_inv:
  assumes "live_inv pg digest db"
  shows "live_inv pg digest (snd (append_raw digest db ty key payload t conn gen))"
proof -
  have "lv_next_raw db \<notin> rw_id ` set (lv_raw db)" using live_invD(5) [OF assms] by force
  then show ?thesis using assms by (auto simp: live_inv_def append_raw_def less_Suc_eq)
qed

lemma update_appended:
  assumes "\<And>r. r \<in> set rows \<Longrightarrow> rw_id r < n" and "rw_id x = n"
  shows "update_first (\<lambda>r. rw_id r = n) f (rows @ [x]) = rows @ [f x]"
  using assms
proof (induction rows)
  case (Cons r rows)
  have "rw_id r \<noteq> n" using Cons.prems(1) [of r] by simp
  then show ?case using Cons by simp
qed simp

lemma later_simps [simp]: "later (db\<lparr>lv_raw := raw\<rparr>) t = later db t" "later (db\<lparr>lv_events := evs\<rparr>) t = later db t"
  "later (snd (append_raw digest db ty key payload t' conn gen)) t = later db t"
  by (simp_all add: later_def append_raw_def)

lemma stored_state_simps [simp]:
  "stored_state (db\<lparr>lv_raw := raw\<rparr>) match = stored_state db match" "stored_state (db\<lparr>lv_events := evs\<rparr>) match = stored_state db match"
  "stored_state (snd (append_raw digest db ty key payload t conn gen)) match = stored_state db match"
  by (simp_all add: stored_state_def latest_observation_def append_raw_def)

definition archived :: "live_db \<Rightarrow> live_db \<Rightarrow> string \<Rightarrow> (string \<times> json) list \<Rightarrow> time \<Rightarrow> bool" where
  "archived db db' name payload t \<longleftrightarrow>
     (\<exists>r. lv_raw db' = lv_raw db @ [r] \<and> rw_provider_key r = name \<and> rw_payload r = payload \<and> rw_received_at r = t \<and>
        rw_event_type r = (if starts_with ''__nd2_match_'' name then ''DLTV_FAST_SOCKET'' else ''DLTV_SERIES''))"

lemma archived_readable: "archived db db' name payload t \<Longrightarrow> anchors_readable db \<Longrightarrow> anchors_readable db'"
  by (auto simp: archived_def anchors_readable_def split: if_splits)

text \<open>A packet whose every part fits the columns it goes to.\<close>

definition payload_updates :: "(string \<times> json) list \<Rightarrow> (string \<times> json) list" where
  "payload_updates payload = fp_updates (parse_fast_patch (\<lambda>v. []) payload 0 0 None 0)"

lemma payload_updates_parsed: "fp_updates (parse_fast_patch digest payload match t conn gen) = payload_updates payload"
  by (simp add: payload_updates_def parse_fast_patch_def Let_def)

definition packet_fits :: "bool \<Rightarrow> string \<Rightarrow> (string \<times> json) list \<Rightarrow> string option \<Rightarrow> nat \<Rightarrow> bool" where
  "packet_fits pg name payload conn gen \<longleftrightarrow>
     text_fits pg 255 name \<and> document_fits pg (JObj payload) \<and> optional_fits (text_fits pg 64) conn \<and>
     integer_fits pg (int gen) \<and>
     (name = ''__nd2_series'' \<longrightarrow> (\<forall>ms \<in> set (live_maps payload). text_fits pg 128 (str_int (fst ms)))) \<and>
     (starts_with ''__nd2_match_'' name \<longrightarrow> (\<forall>match. parse_int (last_segment name) = Some match \<longrightarrow>
        fits_int 64 match \<and> (\<forall>(f, v) \<in> set (payload_updates payload). value_fits pg v)))"

lemma collect_match_ok:
  assumes inv: "live_inv pg digest db" and t: "later db (fp_received_at patch)" and typed: "typed_fields (fp_updates patch)"
    and fits: "optional_fits (text_fits pg 64) (fp_connection_id patch)" "integer_fits pg (int (fp_generation patch))"
      "fits_int 64 (fp_match patch)"
  shows "case fst (collect_match pg digest minutes mem db now previous patch raw_id) of
      Inl e \<Rightarrow> e = StorageRefused \<and> \<not> patch_fits pg patch \<or> e = AnchorOutOfRange \<and> \<not> anchors_readable db
    | Inr db' \<Rightarrow> live_inv pg digest db' \<and>
        lv_maps db' = lv_maps db \<and> (\<forall>w \<in> set (lv_observations db'). lo_received_at w \<le> fp_received_at patch) \<and>
        (map_for_match (lv_maps db) (fp_match patch) \<noteq> None \<longrightarrow>
           durable (stored_state db' (fp_match patch)) = durable (stream_step digest (stored_state db (fp_match patch)) patch)) \<and>
        (\<exists>g. lv_raw db' = update_first (\<lambda>r. rw_id r = raw_id) g (lv_raw db) \<and>
          (\<forall>r. rw_provider_key (g r) = rw_provider_key r \<and> rw_payload (g r) = rw_payload r \<and>
               rw_received_at (g r) = rw_received_at r \<and> rw_event_type (g r) = rw_event_type r))"
proof (cases "map_for_match (lv_maps db) (fp_match patch)")
  case None
  let ?e = "live_event DLTV_MATCH_DISCOVERED ''dltv_match'' (str_int (fp_match patch))
              (''dltv-socket:'' @ str_int (fp_match patch)) [(''valve_match_id'', JInt (fp_match patch))] (fp_received_at patch)"
  obtain evs where e: "record_all pg (lv_events db) now [?e] = Inr evs" "events_inv evs"
    "\<forall>e. is_recorded (lv_events db) e \<longrightarrow> is_recorded evs e"
    using record_all_run [OF live_invD(1) [OF inv]] by blast
  have "fst (collect_match pg digest minutes mem db now previous patch raw_id) = Inr (db\<lparr>lv_events := evs\<rparr>)"
    using None e(1) by (simp add: collect_match_def)
  moreover have "live_inv pg digest (db\<lparr>lv_events := evs\<rparr>)" by (rule live_inv_events [OF inv e(2)]) (use e(3) in blast)
  moreover have "\<forall>w \<in> set (lv_observations db). lo_received_at w \<le> fp_received_at patch" using t by (auto simp: later_def)
  moreover have "lv_raw db = update_first (\<lambda>r. rw_id r = raw_id) (\<lambda>r. r) (lv_raw db)" by (rule update_first_same [symmetric])
  ultimately show ?thesis using None by (auto intro!: exI [of _ "\<lambda>r. r"])
next
  case (Some m)
  let ?evs = "if is_reconnect previous (fp_connection_id patch) (fp_generation patch)
      then [reconnect_event previous (fp_match patch) (fp_connection_id patch) (fp_generation patch) (fp_received_at patch)] else []"
  obtain evs where e: "record_all pg (lv_events db) now ?evs = Inr evs" "events_inv evs"
    "\<forall>e. is_recorded (lv_events db) e \<longrightarrow> is_recorded evs e"
    using record_all_run [OF live_invD(1) [OF inv], of pg now ?evs] by blast
  let ?db = "db\<lparr>lv_events := evs\<rparr>"
  have "live_inv pg digest ?db" by (rule live_inv_events [OF inv e(2)]) (use e(3) in blast)
  note known = collect_known_ok [OF this, where patch = patch and m = m and minutes = minutes and mem = mem and now = now and raw_id = raw_id]
  have eq: "fst (collect_match pg digest minutes mem db now previous patch raw_id) =
      fst (collect_known pg digest minutes mem ?db now (lm_id m) patch raw_id)"
    using Some e(1) by (simp add: collect_match_def)
  show ?thesis
  proof (cases "fst (collect_known pg digest minutes mem ?db now (lm_id m) patch raw_id)")
    case (Inl err)
    then show ?thesis using known t Some typed fits eq by (simp add: anchors_readable_def)
  next
    case (Inr db')
    then obtain h d where db': "live_inv pg digest db'"
      "lv_maps db' = lv_maps db" "durable (stored_state db' (fp_match patch)) = durable (stream_step digest (stored_state db (fp_match patch)) patch)"
      "lv_raw db' = update_first (\<lambda>r. rw_id r = raw_id) (\<lambda>r. r\<lparr>rw_state_hash := h, rw_is_duplicate := Some d\<rparr>) (lv_raw db)"
      "\<forall>w \<in> set (lv_observations db'). lo_received_at w \<le> fp_received_at patch"
      using known t Some typed fits by auto
    show ?thesis unfolding eq Inr sum.case
      by (intro conjI impI exI [of _ "\<lambda>r. r\<lparr>rw_state_hash := h, rw_is_duplicate := Some d\<rparr>"]) (use db' in simp_all)
  qed
qed

lemma collect_ok:
  assumes inv: "live_inv pg digest db" and t: "later db t"
  shows "case fst (collect pg digest minutes mem db now name payload conn gen t) of
      Inl e \<Rightarrow> e = StorageRefused \<and> \<not> (packet_fits pg name payload conn gen \<and> (name = ''__nd2_series'' \<longrightarrow> frames_readable db)) \<or>
        e = AnchorOutOfRange \<and> \<not> anchors_readable db
    | Inr db' \<Rightarrow> live_inv pg digest db' \<and>
        lv_maps db' = lv_maps db \<and> (\<forall>w \<in> set (lv_observations db'). lo_received_at w \<le> t) \<and> archived db db' name payload t \<and>
        (\<forall>match. name = match_event_name match \<and> fits_int 64 match \<and> map_for_match (lv_maps db) match \<noteq> None \<longrightarrow>
           durable (stored_state db' match) =
             durable (stream_step digest (stored_state db match) (parse_fast_patch digest payload match t conn gen)))"
proof -
  let ?ty = "if starts_with ''__nd2_match_'' name then ''DLTV_FAST_SOCKET'' else ''DLTV_SERIES''"
  let ?prev = "newest rw_received_at (raw_matches ?ty name) (lv_raw db)"
  obtain raw_id db1 where app: "append_raw digest db ?ty name payload t conn (Some gen) = (raw_id, db1)" by fastforce
  have id: "raw_id = lv_next_raw db" using app by (simp add: append_raw_def)
  have inv1: "live_inv pg digest db1" using append_raw_inv [OF inv, of ?ty name payload t conn "Some gen"] app by simp
  have t1: "later db1 t" using t later_simps(3) [of digest db ?ty name payload t conn "Some gen"] app by simp
  have same: "lv_maps db1 = lv_maps db" "lv_observations db1 = lv_observations db"
    and stored: "\<And>match. stored_state db1 match = stored_state db match"
    using app stored_state_simps(3) [of digest db ?ty name payload t conn "Some gen"] by (auto simp: append_raw_def)
  obtain x where raw: "lv_raw db1 = lv_raw db @ [x]" "rw_id x = raw_id" "rw_provider_key x = name" "rw_payload x = payload"
      "rw_received_at x = t" "rw_event_type x = ?ty"
    using app by (auto simp: append_raw_def)
  have prev_in: "p \<in> set (lv_raw db) \<and> rw_event_type p = ?ty" if "?prev = Some p" for p
    using py_max_in [OF that [unfolded newest_def]] by (simp add: raw_matches_def)
  let ?run = "fst (collect pg digest minutes mem db now name payload conn gen t)"
  have times: "\<forall>w \<in> set (lv_observations db). lo_received_at w \<le> t" using t by (auto simp: later_def)
  show ?thesis
  proof (cases "raw_fits pg name payload conn gen")
    case False
    then have "?run = Inl StorageRefused" using app by (simp add: collect_def)
    then show ?thesis using False by (auto simp: raw_fits_def packet_fits_def)
  next
    case stored_raw: True
    note fits = stored_raw [unfolded raw_fits_def]
    show ?thesis
    proof (cases "name = ''__nd2_series''")
      case True
      have not_match: "\<not> starts_with ''__nd2_match_'' name" "name \<noteq> match_event_name k" for k
        using True match_event_name_parsed(2) [of k] by simp_all
      show ?thesis
      proof (cases "series_fits pg (map_option rw_payload ?prev) payload")
        case False
        then have run: "?run = Inl StorageRefused" using stored_raw True app by (simp add: collect_def)
        have "\<forall>ms \<in> set (ended_maps (map_option rw_payload ?prev) payload). fits_int 64 (fst ms)" if "frames_readable db"
        proof (cases ?prev)
          case (Some p)
          then have "p \<in> set (lv_raw db)" "rw_event_type p = ''DLTV_SERIES''"
            using prev_in [OF Some] not_match(1) by simp_all
          then have "\<forall>ms \<in> set (live_maps (rw_payload p)). fits_int 64 (fst ms)"
            using that by (simp add: frames_readable_def)
          then show ?thesis using Some by (simp add: ended_maps_def)
        qed (simp add: ended_maps_def)
        then have "\<not> (packet_fits pg name payload conn gen \<and> frames_readable db)"
          using False True by (auto simp: series_fits_def packet_fits_def)
        then show ?thesis using run True by simp
      next
        case frame: True
        let ?evs = "series_events (lv_maps db1) (map_option rw_payload ?prev) payload t"
        obtain evs where e: "record_all pg (lv_events db1) now ?evs = Inr evs" "events_inv evs"
          "\<forall>e. is_recorded (lv_events db1) e \<longrightarrow> is_recorded evs e"
          using record_all_run [OF live_invD(1) [OF inv1], of pg now ?evs] by blast
        have run: "?run = Inr (db1\<lparr>lv_events := evs\<rparr>)"
          using stored_raw frame True e(1) app by (simp add: collect_def)
        moreover have "live_inv pg digest (db1\<lparr>lv_events := evs\<rparr>)" by (rule live_inv_events [OF inv1 e(2)]) (use e(3) in blast)
        ultimately show ?thesis using times not_match by (auto simp: same archived_def raw)
      qed
    next
      case series: False
      show ?thesis
      proof (cases "starts_with ''__nd2_match_'' name")
        case False
        then have "?run = Inr db1" using stored_raw series app by (simp add: collect_def)
        then show ?thesis using False inv1 times match_event_name_parsed(1) by (auto simp: same archived_def raw)
      next
        case packet: True
        show ?thesis
        proof (cases "parse_int (last_segment name)")
          case None
          then have "?run = Inr db1" using stored_raw series packet app by (simp add: collect_def)
          then show ?thesis using None inv1 times match_event_name_parsed(3) packet by (auto simp: same archived_def raw)
        next
          case (Some match)
          let ?patch = "parse_fast_patch digest payload match t conn gen"
          show ?thesis
          proof (cases "fits_int 64 match")
            case False
            then have "?run = Inl StorageRefused" using stored_raw series packet app Some by (simp add: collect_def)
            then show ?thesis using False Some packet by (simp add: packet_fits_def)
          next
            case narrow: True
            have eq: "?run = fst (collect_match pg digest minutes mem db1 now ?prev ?patch raw_id)"
              using stored_raw series packet app Some narrow by (simp add: collect_def)
            note matched = collect_match_ok [OF inv1, where patch = ?patch and minutes = minutes and mem = mem and now = now and previous = ?prev and raw_id = raw_id]
            show ?thesis
            proof (cases "fst (collect_match pg digest minutes mem db1 now ?prev ?patch raw_id)")
              case (Inl err)
              have "anchors_readable db1" if "anchors_readable db"
                using that raw packet by (auto simp: anchors_readable_def)
              moreover have "patch_fits pg ?patch" if "packet_fits pg name payload conn gen"
                using that packet Some by (simp add: packet_fits_def patch_fits_def payload_updates_parsed)
              ultimately show ?thesis
                using matched t1 typed_parsed fits narrow eq Inl by auto
            next
              case (Inr db')
              then obtain g where db': "live_inv pg digest db'"
                "lv_maps db' = lv_maps db1" "\<forall>w \<in> set (lv_observations db'). lo_received_at w \<le> t"
                "map_for_match (lv_maps db1) match \<noteq> None \<longrightarrow>
                   durable (stored_state db' match) = durable (stream_step digest (stored_state db1 match) ?patch)"
                "lv_raw db' = update_first (\<lambda>r. rw_id r = raw_id) g (lv_raw db1)"
                "\<forall>r. rw_provider_key (g r) = rw_provider_key r \<and> rw_payload (g r) = rw_payload r \<and>
                   rw_received_at (g r) = rw_received_at r \<and> rw_event_type (g r) = rw_event_type r"
                using matched t1 typed_parsed fits narrow by auto
              have "lv_raw db' = lv_raw db @ [g x]"
                using update_appended [of "lv_raw db" raw_id x g] live_invD(5) [OF inv] raw db'(5) id by simp
              then have arch: "archived db db' name payload t" using db'(6) raw by (simp add: archived_def)
              have "k = match" if "name = match_event_name k" "fits_int 64 k" for k
                using Some match_event_name_parsed(3) [OF that(2)] that(1) by simp
              then show ?thesis using eq Inr db' arch by (auto simp: same stored)
            qed
          qed
        qed
      qed
    qed
  qed
qed

text \<open>C31. The stored stream: whatever named event with whatever payload a collector receives next, in
  whatever state its memory is, it either archives the payload exactly once as the newest raw row and
  keeps the stream consistent, or fails and leaves the database as it was.  It fails in two cases only:
  a value it would store does not fit its column (a text too long, an integer too wide, a zero character,
  on PostgreSQL), or the bootstrap archived for the map names a game start outside the years 1 to 9999;
  so it succeeds whenever the packet fits and the archive is readable.  In a consistent
  stream the observations of a map are strictly ordered by receipt, well typed, fit their columns, belong to
  the canonical map, carry the digest of their values; two observations in a row differ and the game time
  does not go back; a map observed at a positive game time has its MAP_STARTED event, exactly one.\<close>

theorem live_stream_stays_consistent:
  assumes "live_inv pg digest db" and "later db t"
  shows "case fst (collect pg digest minutes mem db now name payload conn gen t) of
      Inl e \<Rightarrow> e = StorageRefused \<and> \<not> (packet_fits pg name payload conn gen \<and> (name = ''__nd2_series'' \<longrightarrow> frames_readable db)) \<or>
        e = AnchorOutOfRange \<and> \<not> anchors_readable db
    | Inr db' \<Rightarrow> live_inv pg digest db' \<and> archived db db' name payload t \<and>
        (\<forall>r \<in> set (lv_observations db'). \<forall>g. game_time (lo_values r) = Some g \<and> 0 < g \<longrightarrow>
           (\<exists>i. lo_canonical_map_id r = Some i \<and>
              length (filter (same_event ''MAP_STARTED'' (''map-started:'' @ str_uuid i)) (events (lv_events db'))) = 1))"
proof (cases "fst (collect pg digest minutes mem db now name payload conn gen t)")
  case (Inl e)
  then show ?thesis using collect_ok [OF assms, where minutes = minutes and mem = mem and now = now and name = name and payload = payload and conn = conn and gen = gen] by simp
next
  case (Inr db')
  then have db': "live_inv pg digest db'" "archived db db' name payload t"
    using collect_ok [OF assms, where minutes = minutes and mem = mem and now = now and name = name and payload = payload and conn = conn and gen = gen] by simp_all
  have "\<exists>i. lo_canonical_map_id r = Some i \<and>
          length (filter (same_event ''MAP_STARTED'' (''map-started:'' @ str_uuid i)) (events (lv_events db'))) = 1"
    if r: "r \<in> set (lv_observations db')" "game_time (lo_values r) = Some g" "0 < g" for r g
  proof -
    obtain i where m: "lo_canonical_map_id r = Some i" "is_recorded (lv_events db') (map_started_event i 0)"
      using live_invD(6) [OF db'(1) r(1)] r(2,3) unfolding row_ok_def by auto
    from recorded_once [OF live_invD(1) [OF db'(1)] m(2)]
    show ?thesis using m(1) by (simp add: map_started_event_def live_event_def)
  qed
  then show ?thesis using db' Inr by auto
qed

definition demo_live_db :: live_db where
  "demo_live_db =
     \<lparr>lv_raw = [], lv_observations = [], lv_maps = [\<lparr>lm_id = 5, lm_match = Some 7\<rparr>],
      lv_events = \<lparr>events = [], outbox = [], next_event_id = 0\<rparr>, lv_next_raw = 0, lv_next_observation = 0\<rparr>"

lemma demo_live_inv: "live_inv pg digest demo_live_db" "later demo_live_db t" "anchors_readable demo_live_db"
  using empty_events_inv by (auto simp: live_inv_def demo_live_db_def stream_of_def later_def anchors_readable_def)

lemma demo_packet_fits: "packet_fits True (match_event_name 7) [(''game_time'', JInt 30)] None 0"
  "packet_fits True (match_event_name 7) [(''game_time'', JInt 20)] None 1"
proof -
  have name: "text_fits True 255 (match_event_name 7)" by code_simp
  have narrow: "fits_int 64 7" by (simp add: fits_int_def)
  have "\<forall>(f, v) \<in> set (payload_updates [(''game_time'', JInt 30)]). value_fits True v"
    "\<forall>(f, v) \<in> set (payload_updates [(''game_time'', JInt 20)]). value_fits True v" by code_simp+
  then show "packet_fits True (match_event_name 7) [(''game_time'', JInt 30)] None 0"
    "packet_fits True (match_event_name 7) [(''game_time'', JInt 20)] None 1"
    using name narrow match_event_name_parsed [of 7]
    by (auto simp: packet_fits_def integer_fits_def fits_int_def optional_fits_def document_fits_def)
qed

theorem live_stream_stays_consistent_witness:
  "\<exists>db'. fst (collect True (\<lambda>j. ''x'') [10] \<lparr>co_anchors = [], co_last_elapsed = []\<rparr> demo_live_db 1 (match_event_name 7)
       [(''game_time'', JInt 30)] None 0 9) = Inr db' \<and> live_inv True (\<lambda>j. ''x'') db' \<and>
     archived demo_live_db db' (match_event_name 7) [(''game_time'', JInt 30)] 9"
  using live_stream_stays_consistent [OF demo_live_inv(1,2), where pg = True and digest = "\<lambda>j. ''x''" and minutes = "[10]"
    and mem = "\<lparr>co_anchors = [], co_last_elapsed = []\<rparr>" and now = 1 and name = "match_event_name 7"
    and payload = "[(''game_time'', JInt 30)]" and conn = None and gen = 0 and t = 9] demo_packet_fits(1) demo_live_inv(3) match_event_name_parsed(2) [of 7]
  by (simp split: sum.splits)

subsection \<open>A map's packets\<close>

text \<open>Packets of one match as a collector receives them, the first component telling that the process
  was restarted before the packet and remembers nothing.\<close>

type_synonym packet = "bool \<times> time \<times> (string \<times> json) list \<times> string option \<times> nat"

fun collect_packets ::
  "bool \<Rightarrow> (json \<Rightarrow> string) \<Rightarrow> int list \<Rightarrow> string \<Rightarrow> collector \<Rightarrow> live_db \<Rightarrow> packet list \<Rightarrow> live_error + live_db" where
  "collect_packets pg digest minutes name mem db [] = Inr db"
| "collect_packets pg digest minutes name mem db ((restarted, t, payload, conn, gen) # ps) =
     (let (r, mem') = collect pg digest minutes (if restarted then \<lparr>co_anchors = [], co_last_elapsed = []\<rparr> else mem) db t name payload conn gen t
      in case r of Inl e \<Rightarrow> Inl e | Inr db' \<Rightarrow> collect_packets pg digest minutes name mem' db' ps)"

fun reduce_packets :: "(json \<Rightarrow> string) \<Rightarrow> int \<Rightarrow> fast_state option \<Rightarrow> packet list \<Rightarrow> fast_state option" where
  "reduce_packets digest match st [] = st"
| "reduce_packets digest match st ((restarted, t, payload, conn, gen) # ps) =
     reduce_packets digest match (stream_step digest st (parse_fast_patch digest payload match t conn gen)) ps"

definition packet_time :: "packet \<Rightarrow> time" where
  "packet_time p = fst (snd p)"

definition storable :: "bool \<Rightarrow> string \<Rightarrow> packet \<Rightarrow> bool" where
  "storable pg name p \<longleftrightarrow> (case p of (restarted, t, payload, conn, gen) \<Rightarrow> packet_fits pg name payload conn gen)"

lemma reduce_packets_durable:
  "durable p = durable q \<Longrightarrow> durable (reduce_packets digest match p ps) = durable (reduce_packets digest match q ps)"
proof (induction ps arbitrary: p q)
  case (Cons x ps)
  obtain restarted t payload conn gen where x: "x = (restarted, t, payload, conn, gen)" by (cases x)
  show ?case unfolding x reduce_packets.simps by (rule Cons.IH, rule stream_step_durable, rule Cons.prems)
qed simp

lemma collect_packets_ok:
  assumes "live_inv pg digest db" and "map_for_match (lv_maps db) match \<noteq> None"
    and "\<forall>p \<in> set ps. later db (packet_time p)" and "sorted_wrt (<) (map packet_time ps)"
    and "fits_int 64 match" and "anchors_readable db" and "\<forall>p \<in> set ps. storable pg (match_event_name match) p"
  shows "\<exists>db'. collect_packets pg digest minutes (match_event_name match) mem db ps = Inr db' \<and> live_inv pg digest db' \<and>
    length (lv_raw db') = length (lv_raw db) + length ps \<and>
    durable (stored_state db' match) = durable (reduce_packets digest match (stored_state db match) ps)"
  using assms
proof (induction ps arbitrary: db mem)
  case Nil
  then show ?case by simp
next
  case (Cons x ps)
  obtain restarted t payload conn gen where x: "x = (restarted, t, payload, conn, gen)" by (cases x)
  define mem0 where "mem0 = (if restarted then \<lparr>co_anchors = [], co_last_elapsed = []\<rparr> else mem)"
  let ?patch = "parse_fast_patch digest payload match t conn gen"
  have "later db t" using Cons.prems(3) by (simp add: x packet_time_def)
  note run = collect_ok [OF Cons.prems(1) this, where minutes = minutes and mem = mem0 and now = t and name = "match_event_name match"
      and payload = payload and conn = conn and gen = gen]
  have fits: "packet_fits pg (match_event_name match) payload conn gen" using Cons.prems(7) by (simp add: storable_def x)
  obtain db1 where db1: "fst (collect pg digest minutes mem0 db t (match_event_name match) payload conn gen t) = Inr db1"
    using run fits Cons.prems(6) match_event_name_parsed(2) [of match] by (auto split: sum.splits)
  have db1': "live_inv pg digest db1" "lv_maps db1 = lv_maps db" "\<forall>w \<in> set (lv_observations db1). lo_received_at w \<le> t"
    "archived db db1 (match_event_name match) payload t"
    "durable (stored_state db1 match) = durable (stream_step digest (stored_state db match) ?patch)"
    using run [unfolded db1 sum.case] Cons.prems(2,5) by auto
  obtain mem1 where c: "collect pg digest minutes mem0 db t (match_event_name match) payload conn gen t = (Inr db1, mem1)"
    using db1 by (metis prod.collapse)
  have "later db1 (packet_time p)" if "p \<in> set ps" for p
    using that Cons.prems(4) db1'(3) by (fastforce simp: x packet_time_def later_def)
  then obtain db' where db': "collect_packets pg digest minutes (match_event_name match) mem1 db1 ps = Inr db'" "live_inv pg digest db'"
    "length (lv_raw db') = length (lv_raw db1) + length ps"
    "durable (stored_state db' match) = durable (reduce_packets digest match (stored_state db1 match) ps)"
    using Cons.IH [of db1 mem1] db1' archived_readable [OF db1'(4) Cons.prems(6)] Cons.prems(2,4,5,7) by auto
  have "collect_packets pg digest minutes (match_event_name match) mem db (x # ps) = Inr db'"
    using c db'(1) by (simp add: x mem0_def)
  moreover have "durable (reduce_packets digest match (stored_state db match) (x # ps)) = durable (stored_state db' match)"
    unfolding db'(4) x reduce_packets.simps by (rule reduce_packets_durable) (simp add: db1'(5))
  moreover have "length (lv_raw db1) = Suc (length (lv_raw db))" using db1'(4) by (auto simp: archived_def)
  ultimately show ?case using db'(2,3) by simp
qed

text \<open>C32. The collector implements the reducer: for the packets of a known map, received one after the
  other, however often the process restarts in between and loses its memory, every packet is
  archived and the stored state of the map is the in-memory reduction of all its packets starting
  from the state stored before (only the digest of the last raw payload is not kept).  This holds for
  packets whose values fit the columns (\<open>storable\<close>) and when the bootstraps archived before name game starts
  that are dates (\<open>anchors_readable\<close>): one packet without these is refused and not archived
  (\<open>unreadable_anchor_loses_packets\<close>).\<close>

theorem collector_refines_reduction:
  assumes "live_inv pg digest db" and "map_for_match (lv_maps db) match \<noteq> None"
    and "\<forall>p \<in> set ps. later db (packet_time p)" and "sorted_wrt (<) (map packet_time ps)"
    and "fits_int 64 match" and "anchors_readable db" and "\<forall>p \<in> set ps. storable pg (match_event_name match) p"
  shows "\<exists>db'. collect_packets pg digest minutes (match_event_name match) mem db ps = Inr db' \<and>
    length (lv_raw db') = length (lv_raw db) + length ps \<and>
    durable (stored_state db' match) = durable (reduce_packets digest match (stored_state db match) ps)"
  using collect_packets_ok [OF assms, of minutes mem] by blast

theorem collector_refines_reduction_witness:
  "\<exists>db'. collect_packets True (\<lambda>j. ''x'') [10] (match_event_name 7) \<lparr>co_anchors = [], co_last_elapsed = []\<rparr> demo_live_db
       [(False, 9, [(''game_time'', JInt 30)], None, 0), (True, 12, [(''game_time'', JInt 20)], None, 1)] = Inr db' \<and>
     length (lv_raw db') = 2"
proof -
  let ?ps = "[(False, 9, [(''game_time'', JInt 30)], None, 0), (True, 12, [(''game_time'', JInt 20)], None, 1)] :: packet list"
  have "map_for_match (lv_maps demo_live_db) 7 \<noteq> None" by (simp add: demo_live_db_def map_for_match_def)
  moreover have "sorted_wrt (<) (map packet_time ?ps)" by (simp add: packet_time_def)
  moreover have "fits_int 64 7" by (simp add: fits_int_def)
  moreover have "\<forall>p \<in> set ?ps. storable True (match_event_name 7) p" using demo_packet_fits by (simp add: storable_def)
  ultimately show ?thesis
    using collector_refines_reduction [OF demo_live_inv(1) [of True "\<lambda>j. ''x''"], where match = 7 and ps = ?ps and minutes = "[10]"
        and mem = "\<lparr>co_anchors = [], co_last_elapsed = []\<rparr>"]
      demo_live_inv(2,3) by (auto simp: demo_live_db_def)
qed

subsection \<open>A bootstrap with a broken game start\<close>

text \<open>A game start in milliseconds instead of seconds, archived once, makes every packet of the map that changes
  its state fail: nothing of it is kept.  So does a first-blood text of more than 32 characters.\<close>

definition millisecond_bootstrap :: raw_event where
  "millisecond_bootstrap =
     \<lparr>rw_id = 0, rw_provider = ''dltv'', rw_event_type = ''DLTV_BOOTSTRAP'', rw_provider_key = ''7'', rw_received_at = 3,
      rw_payload = [(''is_picks_ended_time'', JInt 1786665600000)], rw_payload_hash = [], rw_parser_version = [],
      rw_connection_id = None, rw_generation = None, rw_state_hash = None, rw_is_duplicate = None\<rparr>"

lemma unreadable_anchor_loses_packets:
  "collect_packets True (\<lambda>j. ''x'') [10] (match_event_name 7) \<lparr>co_anchors = [], co_last_elapsed = []\<rparr>
     (demo_live_db\<lparr>lv_raw := [millisecond_bootstrap], lv_next_raw := 1\<rparr>) [(False, 9, [(''game_time'', JInt 30)], None, 0)] =
   Inl AnchorOutOfRange"
  "collect_packets True (\<lambda>j. ''x'') [10] (match_event_name 7) \<lparr>co_anchors = [], co_last_elapsed = []\<rparr>
     demo_live_db [(False, 9, [(''first_blood'', JStr (replicate 33 (CHR ''a'')))], None, 0)] = Inl StorageRefused"
  by code_simp+

end
