(* ===== verification/FreshnessProperties.thy ===== *)
theory FreshnessProperties
  imports Collector
begin

text \<open>
  What the field freshness of the live data means: for every required field the newest packet in the
  window that carried it, however the scan over the archive is ordered and cut short.
\<close>

definition carries :: "(json \<Rightarrow> string) \<Rightarrow> int \<Rightarrow> string \<Rightarrow> raw_event \<Rightarrow> bool" where
  "carries digest match f r \<longleftrightarrow> \<not> socket_duplicate r \<and> f \<in> set (carried_fields digest match r)"

lemma map_of_observe_fields:
  "map_of (observe_fields fs t acc) f =
     (case map_of acc f of Some u \<Rightarrow> Some u | None \<Rightarrow> if f \<in> set fs then Some t else None)"
  by (induction fs arbitrary: acc) (auto split: option.splits)

lemma observe_fields_keys:
  assumes "distinct (map fst acc)"
  shows "distinct (map fst (observe_fields fs t acc)) \<and> fst ` set (observe_fields fs t acc) = fst ` set acc \<union> set fs"
  using assms
proof (induction fs arbitrary: acc)
  case (Cons f fs)
  have "map_of acc f = None \<longleftrightarrow> f \<notin> fst ` set acc" by (simp add: map_of_eq_None_iff)
  then show ?case using Cons.IH [of "acc @ [(f, t)]"] Cons.IH [of acc] Cons.prems by auto
qed simp

definition partial_scan :: "(string \<times> time) list \<Rightarrow> bool" where
  "partial_scan acc \<longleftrightarrow> distinct (map fst acc) \<and> fst ` set acc \<subseteq> set required_fields"

lemma carried_required: "set (carried_fields digest match r) \<subseteq> set required_fields"
  by (auto simp: carried_fields_def Let_def)

lemma partial_observe: "partial_scan acc \<Longrightarrow> partial_scan (observe_fields (carried_fields digest match r) t acc)"
  using observe_fields_keys [of acc "carried_fields digest match r" t] carried_required [of digest match r]
  by (auto simp: partial_scan_def)

lemma complete_scan:
  assumes "partial_scan acc"
  shows "length acc = length required_fields \<longleftrightarrow> (\<forall>f \<in> set required_fields. map_of acc f \<noteq> None)"
proof -
  have c: "length acc = card (fst ` set acc)" using assms by (metis distinct_card length_map list.set_map partial_scan_def)
  have r: "length required_fields = card (set required_fields)" by (simp add: required_fields_def)
  have "card (fst ` set acc) = card (set required_fields) \<longleftrightarrow> fst ` set acc = set required_fields"
    using assms by (metis card_subset_eq List.finite_set partial_scan_def)
  moreover have "fst ` set acc = set required_fields \<longleftrightarrow> (\<forall>f \<in> set required_fields. map_of acc f \<noteq> None)"
    using assms unfolding partial_scan_def map_of_eq_None_iff by blast
  ultimately show ?thesis by (simp add: c r)
qed

lemma scan_records_lookup:
  assumes "partial_scan acc" and "f \<in> set required_fields"
  shows "map_of (scan_records digest match rs acc) f =
    (case map_of acc f of Some t \<Rightarrow> Some t | None \<Rightarrow> map_option rw_received_at (find_row (carries digest match f) rs))"
  using assms
proof (induction rs arbitrary: acc)
  case Nil
  then show ?case by (simp split: option.split)
next
  case (Cons r rs)
  let ?acc = "observe_fields (carried_fields digest match r) (rw_received_at r) acc"
  show ?case
  proof (cases "socket_duplicate r")
    case True
    then have "\<not> carries digest match f r" by (simp add: carries_def)
    then show ?thesis using Cons True by (auto split: option.splits)
  next
    case False
    have look: "map_of ?acc f = (case map_of acc f of Some u \<Rightarrow> Some u | None \<Rightarrow> if carries digest match f r then Some (rw_received_at r) else None)"
      using False by (simp add: map_of_observe_fields carries_def)
    have p: "partial_scan ?acc" by (rule partial_observe [OF Cons.prems(1)])
    show ?thesis
    proof (cases "length ?acc = length required_fields")
      case True
      then have "map_of ?acc f \<noteq> None" using complete_scan [OF p] Cons.prems(2) by blast
      then show ?thesis using True False look by (auto simp: Let_def split: option.splits if_splits)
    next
      case l: False
      then show ?thesis using Cons.IH [OF p Cons.prems(2)] False look by (auto simp: Let_def split: option.splits if_splits)
    qed
  qed
qed

lemma scan_records_partial: "partial_scan acc \<Longrightarrow> partial_scan (scan_records digest match rs acc)"
  by (induction rs arbitrary: acc) (simp_all add: Let_def partial_observe)

lemma find_row_newest:
  "sorted (map (\<lambda>r. - rw_received_at r) rs) \<Longrightarrow>
   map_option rw_received_at (find_row P rs) =
     (if \<exists>r \<in> set rs. P r then Some (Max (rw_received_at ` {r \<in> set rs. P r})) else None)"
proof (induction rs)
  case (Cons r rs)
  show ?case
  proof (cases "P r")
    case True
    have "Max (rw_received_at ` {s \<in> set (r # rs). P s}) = rw_received_at r"
      by (rule Max_eqI) (use True Cons.prems in auto)
    then show ?thesis using True by simp
  next
    case False
    then have "{s \<in> set (r # rs). P s} = {s \<in> set rs. P s}" by auto
    then show ?thesis using False Cons by simp
  qed
qed simp

text \<open>The packets that count for a field: in the window, not an exact duplicate of the state, with a value
  for the field.\<close>

definition carriers :: "(json \<Rightarrow> string) \<Rightarrow> live_db \<Rightarrow> int \<Rightarrow> time \<Rightarrow> duration \<Rightarrow> string \<Rightarrow> raw_event set" where
  "carriers digest db match decision_at max_age f =
     {r \<in> set (lv_raw db). rw_provider r = ''dltv'' \<and> rw_event_type r \<in> {''DLTV_FAST_SOCKET'', ''DLTV_BOOTSTRAP''} \<and>
        rw_provider_key r \<in> {''__nd2_match_'' @ str_int match, str_int match} \<and>
        decision_at - max_age \<le> rw_received_at r \<and> rw_received_at r \<le> decision_at \<and> carries digest match f r}"

lemma finite_carriers [simp]: "finite (carriers digest db match decision_at max_age f)"
  by (simp add: carriers_def)

lemma observed_field:
  assumes "f \<in> set required_fields"
  shows "map_of (scan_records digest match (freshness_records db match decision_at max_age) []) f =
    (if carriers digest db match decision_at max_age f = {} then None
     else Some (Max (rw_received_at ` carriers digest db match decision_at max_age f)))"
proof -
  let ?rs = "freshness_records db match decision_at max_age"
  have c: "{r \<in> set ?rs. carries digest match f r} = carriers digest db match decision_at max_age f"
    by (auto simp: freshness_records_def carriers_def)
  have s: "sorted (map (\<lambda>r. - rw_received_at r) ?rs)" by (simp add: freshness_records_def)
  have "partial_scan []" by (simp add: partial_scan_def)
  from scan_records_lookup [OF this assms, of digest match ?rs]
  show ?thesis unfolding find_row_newest [OF s] c [symmetric] by auto
qed

lemma snd_ages:
  assumes "\<And>f. f \<in> set fs \<Longrightarrow> map_of observed f = Some (g f)"
  shows "map snd [(f, seconds_of (d - t)). f \<leftarrow> fs, Some t \<leftarrow> [map_of observed f]] = map (\<lambda>f. seconds_of (d - g f)) fs"
  using assms by (induction fs) auto

text \<open>Freshness of the live fields: a required field is observed at the receipt of the newest packet in
  the window that carried a value for it and was no exact duplicate of the state; the live basics are
  complete exactly when each of the four fields has such a packet; and the effective age is then the
  age of the stalest of them, never negative and never beyond the maximal age.\<close>

theorem live_freshness_is_the_stalest_field:
  fixes digest db match decision_at max_age
  defines "c \<equiv> carriers digest db match decision_at max_age"
    and "ff \<equiv> load_live_basic_field_freshness digest db match decision_at max_age"
  shows "(\<forall>f \<in> set required_fields. map_of (ff_observed_at ff) f = (if c f = {} then None else Some (Max (rw_received_at ` c f)))) \<and>
    (ff_complete ff \<longleftrightarrow> (\<forall>f \<in> set required_fields. c f \<noteq> {})) \<and>
    (if ff_complete ff
     then \<exists>f \<in> set required_fields.
       ff_effective_age ff = Some (seconds_of (decision_at - Max (rw_received_at ` c f))) \<and>
       (\<forall>g \<in> set required_fields. Max (rw_received_at ` c f) \<le> Max (rw_received_at ` c g)) \<and>
       decision_at - max_age \<le> Max (rw_received_at ` c f) \<and> Max (rw_received_at ` c f) \<le> decision_at
     else ff_effective_age ff = None)"
proof -
  define observed where "observed = scan_records digest match (freshness_records db match decision_at max_age) []"
  define ages where "ages = [(f, seconds_of (decision_at - t)). f \<leftarrow> required_fields, Some t \<leftarrow> [map_of observed f]]"
  have ff: "ff_observed_at ff = observed" "ff_complete ff = (length observed = length required_fields)"
    "ff_effective_age ff = (if length observed = length required_fields then py_max id (map snd ages) else None)"
    by (simp_all add: ff_def load_live_basic_field_freshness_def Let_def observed_def ages_def)
  have look: "map_of observed f = (if c f = {} then None else Some (Max (rw_received_at ` c f)))" if "f \<in> set required_fields" for f
    unfolding observed_def c_def by (rule observed_field [OF that])
  have "partial_scan observed" unfolding observed_def by (rule scan_records_partial) (simp add: partial_scan_def)
  then have complete: "ff_complete ff \<longleftrightarrow> (\<forall>f \<in> set required_fields. c f \<noteq> {})"
    using complete_scan look by (simp add: ff(2))
  have stalest: "\<exists>f \<in> set required_fields.
       ff_effective_age ff = Some (seconds_of (decision_at - Max (rw_received_at ` c f))) \<and>
       (\<forall>g \<in> set required_fields. Max (rw_received_at ` c f) \<le> Max (rw_received_at ` c g)) \<and>
       decision_at - max_age \<le> Max (rw_received_at ` c f) \<and> Max (rw_received_at ` c f) \<le> decision_at"
    if all: "ff_complete ff"
  proof -
    have ne: "c f \<noteq> {}" if "f \<in> set required_fields" for f using all complete that by blast
    have ages: "set (map snd ages) = (\<lambda>f. seconds_of (decision_at - Max (rw_received_at ` c f))) ` set required_fields"
      unfolding ages_def by (subst snd_ages [where g = "\<lambda>f. Max (rw_received_at ` c f)"]) (use look ne in simp_all)
    have "set (map snd ages) \<noteq> {}" unfolding ages by (simp add: required_fields_def)
    then have "map snd ages \<noteq> []" by (metis list.set(1))
    then obtain a where a: "py_max id (map snd ages) = Some a" by (metis not_Some_eq py_max_None)
    have "a \<in> set (map snd ages)" by (rule py_max_in [OF a])
    then obtain f where f: "a = seconds_of (decision_at - Max (rw_received_at ` c f))" "f \<in> set required_fields"
      unfolding ages by (rule imageE)
    have "Max (rw_received_at ` c f) \<le> Max (rw_received_at ` c g)" if "g \<in> set required_fields" for g
    proof -
      have "seconds_of (decision_at - Max (rw_received_at ` c g)) \<in> set (map snd ages)" unfolding ages using that by (rule imageI)
      from py_max_ge [OF a this] show ?thesis by (simp add: f(1))
    qed
    moreover have "Max (rw_received_at ` c f) \<in> rw_received_at ` c f" by (rule Max_in) (use ne [OF f(2)] in \<open>simp_all add: c_def\<close>)
    then have "decision_at - max_age \<le> Max (rw_received_at ` c f) \<and> Max (rw_received_at ` c f) \<le> decision_at"
      by (auto simp: c_def carriers_def)
    moreover have "ff_effective_age ff = Some a" using all a by (simp add: ff)
    ultimately show ?thesis using f by blast
  qed
  then show ?thesis using look complete ff(1,3) by (auto simp: ff(2))
qed

definition demo_packet :: raw_event where
  "demo_packet =
     \<lparr>rw_id = 0, rw_provider = ''dltv'', rw_event_type = ''DLTV_BOOTSTRAP'', rw_provider_key = ''7'', rw_received_at = 80,
      rw_payload = [(''game_time'', JInt 30), (''radiant_score'', JInt 1), (''dire_score'', JInt 2), (''radiant_lead'', JInt (- 5))],
      rw_payload_hash = [], rw_parser_version = ''dltv-v3'', rw_connection_id = None, rw_generation = None,
      rw_state_hash = None, rw_is_duplicate = None\<rparr>"

definition demo_archive :: live_db where
  "demo_archive =
     \<lparr>lv_raw = [demo_packet], lv_observations = [], lv_maps = [],
      lv_events = \<lparr>events = [], outbox = [], next_event_id = 0\<rparr>, lv_next_raw = 1, lv_next_observation = 0\<rparr>"

lemma demo_carriers:
  assumes "f \<in> set required_fields"
  shows "carriers (\<lambda>j. []) demo_archive 7 100 50 f = {demo_packet}"
proof -
  have seven: "str_int 7 = ''7''" by (simp add: str_int_def digits_of.simps)
  have "carried_fields (\<lambda>j. []) 7 demo_packet = required_fields"
    by (simp add: carried_fields_def parse_fast_patch_def int_field_def first_blood_field_def optional_field_def parse_canvas_def
        parse_charts_def optional_nonnegative_int_def optional_int_def json_get_def required_fields_def demo_packet_def Let_def)
  then have "carries (\<lambda>j. []) 7 f demo_packet"
    using assms by (simp add: carries_def socket_duplicate_def demo_packet_def)
  then show ?thesis by (auto simp: carriers_def demo_archive_def demo_packet_def seven)
qed

theorem live_freshness_is_the_stalest_field_witness:
  "ff_effective_age (load_live_basic_field_freshness (\<lambda>j. []) demo_archive 7 100 50) = Some (20 / 1000000)"
proof -
  note t = live_freshness_is_the_stalest_field [of "\<lambda>j. []" demo_archive 7 100 50]
  have "ff_complete (load_live_basic_field_freshness (\<lambda>j. []) demo_archive 7 100 50)"
    using t demo_carriers by simp
  then obtain f where "f \<in> set required_fields" "ff_effective_age (load_live_basic_field_freshness (\<lambda>j. []) demo_archive 7 100 50) =
      Some (seconds_of (100 - Max (rw_received_at ` carriers (\<lambda>j. []) demo_archive 7 100 50 f)))"
    using t by auto
  then show ?thesis using demo_carriers by (simp add: seconds_of_def demo_packet_def)
qed

end
