(* ===== verification/Sync.thy ===== *)
theory Sync
  imports Market Collector
begin

text \<open>
  Synchronization of the two providers (\<open>app/temporal/aligner.py\<close>): RayBet repricings are paired
  with the DLTV state changes that follow them, the lags give an estimate with a status, and
  \<open>TemporalAligner.calculate\<close> stores one estimate per map and instant.  Lags and ratios are
  rationals; the standard deviation, a square root, is a real number.
\<close>

subsection \<open>Data\<close>

record calibration_signal =
  sg_received_at :: time
  sg_event_type :: string
  sg_id :: "string option"

record calibration_pair =
  cp_raybet_id :: string
  cp_dltv_id :: "string option"
  cp_raybet_at :: time
  cp_dltv_at :: "time option"
  cp_lag :: "rat option"
  cp_raybet_type :: string
  cp_dltv_type :: "string option"
  cp_margin :: "rat option"
  cp_accepted :: bool
  cp_reject :: "string option"

datatype sync_status = SAFE | CAUTION | UNSAFE | CALIBRATING | UNKNOWN
datatype sync_confidence = LOW | MEDIUM | HIGH

record sync_estimate =
  se_map :: uuid
  se_lag :: "rat option"
  se_p50 :: "rat option"
  se_p90 :: "rat option"
  se_jitter :: "real option"
  se_sample_size :: nat
  se_accepted_ratio :: rat
  se_ambiguous_ratio :: rat
  se_outlier_ratio :: rat
  se_confidence :: sync_confidence
  se_status :: sync_status
  se_calculated_at :: time

record calibration_params =
  cb_window :: rat
  cb_safe :: rat
  cb_caution :: rat
  cb_min_samples :: int
  cb_ambiguity :: rat
  cb_min_ratio :: rat

subsection \<open>Statistics\<close>

text \<open>\<open>statistics.median\<close>, \<open>statistics.pstdev\<close> and the nearest-rank percentile.\<close>

definition median :: "rat list \<Rightarrow> rat" where
  "median xs =
     (let s = sort xs; n = length xs
      in if odd n then s ! (n div 2) else (s ! (n div 2 - 1) + s ! (n div 2)) / 2)"

definition pstdev :: "rat list \<Rightarrow> real" where
  "pstdev xs =
     (let mean = sum_list xs / of_nat (length xs)
      in sqrt (of_rat (sum_list (map (\<lambda>x. (x - mean) * (x - mean)) xs) / of_nat (length xs))))"

definition nearest_rank :: "rat list \<Rightarrow> rat \<Rightarrow> rat" where
  "nearest_rank xs percentile = sort xs ! nat (max (\<lceil>percentile * of_nat (length xs)\<rceil> - 1) 0)"

subsection \<open>Pairing\<close>

definition signal_id :: "calibration_signal \<Rightarrow> nat \<Rightarrow> string" where
  "signal_id s i =
     (case sg_id s of
        Some (c # cs) \<Rightarrow> c # cs
      | _ \<Rightarrow> sg_event_type s @ '':'' @ isoformat (sg_received_at s) @ '':'' @ str_int (int i))"

definition signal_lag :: "calibration_signal \<Rightarrow> nat \<times> calibration_signal \<Rightarrow> rat" where
  "signal_lag r c = seconds_of (sg_received_at (snd c) - sg_received_at r)"

definition pair_with ::
  "calibration_signal \<Rightarrow> nat \<Rightarrow> nat \<times> calibration_signal \<Rightarrow> rat \<Rightarrow> string option \<Rightarrow> calibration_pair" where
  "pair_with r k c margin reject =
     \<lparr>cp_raybet_id = signal_id r k, cp_dltv_id = Some (signal_id (snd c) (fst c)), cp_raybet_at = sg_received_at r,
      cp_dltv_at = Some (sg_received_at (snd c)), cp_lag = Some (signal_lag r c), cp_raybet_type = sg_event_type r,
      cp_dltv_type = Some (sg_event_type (snd c)), cp_margin = Some margin, cp_accepted = (reject = None), cp_reject = reject\<rparr>"

definition rejected_pair :: "calibration_signal \<Rightarrow> nat \<Rightarrow> string \<Rightarrow> calibration_pair" where
  "rejected_pair r k reason =
     \<lparr>cp_raybet_id = signal_id r k, cp_dltv_id = None, cp_raybet_at = sg_received_at r, cp_dltv_at = None, cp_lag = None,
      cp_raybet_type = sg_event_type r, cp_dltv_type = None, cp_margin = None, cp_accepted = False, cp_reject = Some reason\<rparr>"

definition forward_candidates :: "calibration_signal \<Rightarrow> (nat \<times> calibration_signal) list \<Rightarrow> (nat \<times> calibration_signal) list" where
  "forward_candidates r available =
     sort_key (signal_lag r) (filter (\<lambda>c. sg_received_at r \<le> sg_received_at (snd c)) available)"

text \<open>One RayBet signal after the other; an accepted pair consumes its DLTV signal.\<close>

fun pair_signals ::
  "calibration_params \<Rightarrow> (nat \<times> calibration_signal) list \<Rightarrow> (nat \<times> calibration_signal) list \<Rightarrow> calibration_pair list" where
  "pair_signals par available [] = []"
| "pair_signals par available ((k, r) # rs) =
     (case forward_candidates r available of
        [] \<Rightarrow> rejected_pair r k ''NO_FORWARD_CANDIDATE'' # pair_signals par available rs
      | c # others \<Rightarrow>
          (let lag = signal_lag r c;
               margin = (case others of [] \<Rightarrow> cb_window par - lag | d # _ \<Rightarrow> signal_lag r d - lag)
           in if cb_window par < lag
              then rejected_pair r k ''NO_FORWARD_CANDIDATE'' # pair_signals par available rs
              else if others \<noteq> [] \<and> margin \<le> cb_ambiguity par
              then pair_with r k c margin (Some ''AMBIGUOUS_NEAREST'') # pair_signals par available rs
              else pair_with r k c margin None # pair_signals par (filter (\<lambda>d. fst d \<noteq> fst c) available) rs))"

definition accepted_lags :: "calibration_pair list \<Rightarrow> rat list" where
  "accepted_lags pairs = [lag. p \<leftarrow> pairs, cp_accepted p, Some lag \<leftarrow> [cp_lag p]]"

definition indexed :: "calibration_signal list \<Rightarrow> (nat \<times> calibration_signal) list" where
  "indexed signals = enumerate 0 (sort_key sg_received_at signals)"

definition ratio_of :: "nat \<Rightarrow> nat \<Rightarrow> rat" where
  "ratio_of a b = (if b = 0 then 0 else of_nat a / of_nat b)"

definition within_limit :: "rat option \<Rightarrow> real option \<Rightarrow> rat \<Rightarrow> bool" where
  "within_limit p90 jitter limit =
     (case (p90, jitter) of (Some p, Some j) \<Rightarrow> p \<le> limit \<and> j \<le> of_rat limit | _ \<Rightarrow> False)"

definition sync_verdict ::
  "calibration_params \<Rightarrow> nat \<Rightarrow> nat \<Rightarrow> rat \<Rightarrow> rat option \<Rightarrow> real option \<Rightarrow> sync_confidence \<times> sync_status" where
  "sync_verdict par total_pairs sample_size ambiguous_ratio p90 jitter =
     (if total_pairs = 0 then (LOW, UNKNOWN)
      else if int sample_size < cb_min_samples par \<or> ratio_of sample_size total_pairs < cb_min_ratio par then (LOW, CALIBRATING)
      else (if 8 \<le> sample_size then HIGH else MEDIUM,
            if within_limit p90 jitter (cb_safe par) \<and> ambiguous_ratio = 0 then SAFE
            else if within_limit p90 jitter (cb_caution par) then CAUTION else UNSAFE))"

definition calibrate ::
  "uuid \<Rightarrow> calibration_signal list \<Rightarrow> calibration_signal list \<Rightarrow> time \<Rightarrow> calibration_params \<Rightarrow>
   sync_estimate \<times> calibration_pair list" where
  "calibrate map_id raybet dltv calculated_at par =
     (let pairs = pair_signals par (indexed dltv) (indexed raybet);
          lags = accepted_lags pairs;
          absolute = map abs lags;
          p90 = (if lags = [] then None else Some (nearest_rank absolute (9 / 10)));
          jitter = (if lags = [] then None else Some (if 1 < length lags then pstdev lags else 0));
          candidate_pairs = filter (\<lambda>p. cp_reject p \<noteq> Some ''NO_FORWARD_CANDIDATE'') pairs;
          total_pairs = length candidate_pairs;
          ambiguous = ratio_of (length (filter (\<lambda>p. cp_reject p = Some ''AMBIGUOUS_NEAREST'') candidate_pairs)) total_pairs;
          outlier = ratio_of (length (filter (\<lambda>p. cp_reject p \<notin> {None, Some ''AMBIGUOUS_NEAREST''}) candidate_pairs)) total_pairs;
          (confidence, status) = sync_verdict par total_pairs (length lags) ambiguous p90 jitter
      in (\<lparr>se_map = map_id, se_lag = (if lags = [] then None else Some (median lags)),
           se_p50 = (if lags = [] then None else Some (median absolute)), se_p90 = p90, se_jitter = jitter,
           se_sample_size = length lags, se_accepted_ratio = ratio_of (length lags) total_pairs,
           se_ambiguous_ratio = ambiguous, se_outlier_ratio = outlier, se_confidence = confidence, se_status = status,
           se_calculated_at = calculated_at\<rparr>, pairs))"

definition estimate_synchronization ::
  "uuid \<Rightarrow> calibration_signal list \<Rightarrow> calibration_signal list \<Rightarrow> time \<Rightarrow> calibration_params \<Rightarrow> string + sync_estimate" where
  "estimate_synchronization map_id raybet dltv calculated_at par =
     (if cb_window par \<le> 0 \<or> cb_min_samples par \<le> 0 then Inl ''pairing window and minimum samples must be positive''
      else if cb_safe par < 0 \<or> cb_caution par < cb_safe par then Inl ''live synchronization thresholds are invalid''
      else if cb_ambiguity par < 0 \<or> \<not> (0 < cb_min_ratio par \<and> cb_min_ratio par \<le> 1)
      then Inl ''live synchronization quality thresholds are invalid''
      else Inr (fst (calibrate map_id raybet dltv calculated_at par)))"

subsection \<open>Signals\<close>

text \<open>A repricing: the price of an odds id moved enough, or its status changed.  A previous price of zero
  raises.\<close>

fun raybet_signals ::
  "rat \<Rightarrow> (int \<times> odds_row) list \<Rightarrow> odds_row list \<Rightarrow> string + calibration_signal list" where
  "raybet_signals move previous [] = Inr []"
| "raybet_signals move previous (r # rs) =
     (let previous' = AList.update (or_odds_id r) r previous
      in case map_of previous (or_odds_id r) of
           None \<Rightarrow> raybet_signals move previous' rs
         | Some p \<Rightarrow>
             if or_price p = 0 then Inl ''ZeroDivisionError''
             else (case raybet_signals move previous' rs of
                     Inl e \<Rightarrow> Inl e
                   | Inr rest \<Rightarrow>
                       Inr (if move \<le> \<bar>or_price r / or_price p - 1\<bar> \<or> or_raw_status r \<noteq> or_raw_status p
                            then \<lparr>sg_received_at = or_received_at r, sg_event_type = ''MARKET_REPRICE'',
                                  sg_id = Some (str_uuid (or_id r))\<rparr> # rest
                            else rest)))"

definition live_int :: "observation \<Rightarrow> string \<Rightarrow> int option" where
  "live_int r f = optional_int (json_get (lo_values r) f)"

definition both_known_differ :: "int option \<Rightarrow> int option \<Rightarrow> int option \<Rightarrow> int option \<Rightarrow> bool" where
  "both_known_differ a b c d = (case (a, b, c, d) of (Some w, Some x, Some y, Some z) \<Rightarrow> w \<noteq> y \<or> x \<noteq> z | _ \<Rightarrow> False)"

definition state_changed :: "int \<Rightarrow> observation \<Rightarrow> observation \<Rightarrow> bool" where
  "state_changed nw_threshold p r \<longleftrightarrow>
     both_known_differ (live_int r ''radiant_kills'') (live_int r ''dire_kills'') (live_int p ''radiant_kills'') (live_int p ''dire_kills'') \<or>
     (case (live_int r ''radiant_nw_lead'', live_int p ''radiant_nw_lead'') of
        (Some a, Some b) \<Rightarrow> nw_threshold \<le> \<bar>a - b\<bar> | _ \<Rightarrow> False)"

fun dltv_signals :: "int \<Rightarrow> observation option \<Rightarrow> observation list \<Rightarrow> calibration_signal list" where
  "dltv_signals nw_threshold previous [] = []"
| "dltv_signals nw_threshold previous (r # rs) =
     (case previous of
        None \<Rightarrow> []
      | Some p \<Rightarrow>
          if state_changed nw_threshold p r
          then [\<lparr>sg_received_at = lo_received_at r, sg_event_type = ''LIVE_STATE_CHANGE'', sg_id = Some (str_uuid (lo_id r))\<rparr>]
          else []) @ dltv_signals nw_threshold (Some r) rs"

subsection \<open>TemporalAligner\<close>

record map_facts =
  mf_series_id :: "uuid option"
  mf_map_number :: "int option"
  mf_best_of :: "int option"

record sync_db =
  sy_estimates :: "sync_estimate list"
  sy_pairs :: "(uuid \<times> time \<times> calibration_pair) list"

datatype sync_error = SignalsFailed string | DuplicatePair

definition newest_rows :: "('r \<Rightarrow> time) \<Rightarrow> nat \<Rightarrow> 'r list \<Rightarrow> 'r list" where
  "newest_rows received limit rows = rev (order_limit (\<lambda>r. - received r) limit rows)"

definition sync_market :: "map_facts option \<Rightarrow> uuid \<Rightarrow> odds_row \<Rightarrow> bool" where
  "sync_market facts map_id r \<longleftrightarrow>
     or_map_id r = Some map_id \<or>
     (case facts of
        None \<Rightarrow> False
      | Some m \<Rightarrow>
          (case mf_series_id m of
             None \<Rightarrow> False
           | Some s \<Rightarrow> or_series_id r = Some s \<and> or_match_stage r \<in> Some ` set (map_market_stages (mf_map_number m) (mf_best_of m))))"

definition aligner_calculate ::
  "calibration_params \<Rightarrow> rat \<Rightarrow> int \<Rightarrow> map_facts option \<Rightarrow> odds_row list \<Rightarrow> observation list \<Rightarrow> sync_db \<Rightarrow> uuid \<Rightarrow> time \<Rightarrow>
   sync_error + (sync_estimate \<times> sync_db)" where
  "aligner_calculate par move nw_threshold facts odds live db map_id as_of =
     (case find_row (\<lambda>e. se_map e = map_id \<and> se_calculated_at e = as_of) (sy_estimates db) of
        Some e \<Rightarrow> Inr (e, db)
      | None \<Rightarrow>
          (case raybet_signals move []
                  (newest_rows or_received_at 500 (filter (\<lambda>r. sync_market facts map_id r \<and> or_received_at r \<le> as_of) odds)) of
             Inl e \<Rightarrow> Inl (SignalsFailed e)
           | Inr raybet \<Rightarrow>
               (let (estimate, pairs) = calibrate map_id raybet
                      (dltv_signals nw_threshold None
                         (newest_rows lo_received_at 500
                            (filter (\<lambda>w. lo_canonical_map_id w = Some map_id \<and> lo_received_at w \<le> as_of) live))) as_of par;
                    stored = map (\<lambda>p. (map_id, as_of, p)) (filter (\<lambda>p. cp_reject p \<noteq> Some ''NO_FORWARD_CANDIDATE'') pairs);
                    table = sy_pairs db @ stored
                in if distinct (map (\<lambda>(m, t, p). (m, t, cp_raybet_id p)) table)
                   then Inr (estimate, \<lparr>sy_estimates = sy_estimates db @ [estimate], sy_pairs = table\<rparr>)
                   else Inl DuplicatePair)))"

end
