(* ===== verification/SyncProperties.thy ===== *)
theory SyncProperties
  imports Sync
begin

text \<open>
  What a SAFE synchronization estimate guarantees: how its pairs are formed and what the percentile
  and the ratios say about them; and that an estimate of a map at an instant is calculated once.
\<close>

subsection \<open>Pairs\<close>

definition dltv_id :: "nat \<times> calibration_signal \<Rightarrow> string" where
  "dltv_id c = signal_id (snd c) (fst c)"

definition good_pair ::
  "calibration_params \<Rightarrow> (nat \<times> calibration_signal) set \<Rightarrow> (nat \<times> calibration_signal) set \<Rightarrow> calibration_pair \<Rightarrow> bool" where
  "good_pair par rs ds p \<longleftrightarrow>
     (\<exists>k r c. (k, r) \<in> rs \<and> c \<in> ds \<and> cp_raybet_id p = signal_id r k \<and> cp_dltv_id p = Some (dltv_id c) \<and>
        cp_lag p = Some (seconds_of (sg_received_at (snd c) - sg_received_at r)) \<and>
        sg_received_at r \<le> sg_received_at (snd c) \<and> seconds_of (sg_received_at (snd c) - sg_received_at r) \<le> cb_window par)"

lemma good_pair_mono: "good_pair par rs ds p \<Longrightarrow> rs \<subseteq> rs' \<Longrightarrow> ds \<subseteq> ds' \<Longrightarrow> good_pair par rs' ds' p"
  unfolding good_pair_def by blast

lemma forward_in: "c \<in> set (forward_candidates r av) \<longleftrightarrow> c \<in> set av \<and> sg_received_at r \<le> sg_received_at (snd c)"
  by (auto simp: forward_candidates_def)

lemma pair_with_simps [simp]:
  "cp_accepted (pair_with r k c m rej) \<longleftrightarrow> rej = None" "cp_reject (pair_with r k c m rej) = rej"
  "cp_dltv_id (pair_with r k c m rej) = Some (dltv_id c)" "cp_lag (pair_with r k c m rej) = Some (signal_lag r c)"
  "cp_raybet_id (pair_with r k c m rej) = signal_id r k"
  by (simp_all add: pair_with_def dltv_id_def)

lemma rejected_pair_simps [simp]:
  "\<not> cp_accepted (rejected_pair r k reason)" "cp_reject (rejected_pair r k reason) = Some reason"
  by (simp_all add: rejected_pair_def)

text \<open>One step of the pairing: the pair it appends and the signals it leaves.\<close>

lemma pair_signals_step:
  "\<exists>p av'. pair_signals par av ((k, r) # rs) = p # pair_signals par av' rs \<and> set av' \<subseteq> set av \<and>
     ((\<not> cp_accepted p \<and> av' = av \<and> cp_reject p \<in> {Some ''NO_FORWARD_CANDIDATE'', Some ''AMBIGUOUS_NEAREST''}) \<or>
      (cp_accepted p \<and> cp_reject p = None \<and> (\<exists>c. c \<in> set av \<and> av' = filter (\<lambda>d. fst d \<noteq> fst c) av \<and> cp_dltv_id p = Some (dltv_id c) \<and>
        good_pair par {(k, r)} {c} p)))"
proof (cases "forward_candidates r av")
  case Nil
  then show ?thesis by (intro exI [of _ "rejected_pair r k ''NO_FORWARD_CANDIDATE''"] exI [of _ av]) simp
next
  case (Cons c cs)
  let ?lag = "signal_lag r c"
  define margin where "margin = (case cs of [] \<Rightarrow> cb_window par - ?lag | d # _ \<Rightarrow> signal_lag r d - ?lag)"
  have c: "c \<in> set av" "sg_received_at r \<le> sg_received_at (snd c)" using forward_in [of c r av] by (simp_all add: Cons)
  show ?thesis
  proof (cases "cb_window par < ?lag")
    case True
    then show ?thesis using Cons
      by (intro exI [of _ "rejected_pair r k ''NO_FORWARD_CANDIDATE''"] exI [of _ av]) (simp add: Let_def)
  next
    case in_window: False
    show ?thesis
    proof (cases "cs \<noteq> [] \<and> margin \<le> cb_ambiguity par")
      case True
      then show ?thesis using Cons in_window
        by (intro exI [of _ "pair_with r k c margin (Some ''AMBIGUOUS_NEAREST'')"] exI [of _ av]) (simp add: Let_def margin_def)
    next
      case False
      have "good_pair par {(k, r)} {c} (pair_with r k c margin None)"
        using c in_window by (simp add: good_pair_def signal_lag_def)
      then have ex: "\<exists>d. d \<in> set av \<and> filter (\<lambda>e. fst e \<noteq> fst c) av = filter (\<lambda>e. fst e \<noteq> fst d) av \<and>
          cp_dltv_id (pair_with r k c margin None) = Some (dltv_id d) \<and> good_pair par {(k, r)} {d} (pair_with r k c margin None)"
        using c(1) by (intro exI [of _ c]) simp
      have run: "pair_signals par av ((k, r) # rs) =
          pair_with r k c margin None # pair_signals par (filter (\<lambda>d. fst d \<noteq> fst c) av) rs"
        using Cons in_window False by (auto simp: Let_def margin_def)
      show ?thesis
        by (intro exI [of _ "pair_with r k c margin None"] exI [of _ "filter (\<lambda>d. fst d \<noteq> fst c) av"] conjI run disjI2)
          (use ex in \<open>simp_all del: split_paired_Ex\<close>)
    qed
  qed
qed

lemma pair_signals_sound:
  "p \<in> set (pair_signals par av rs) \<Longrightarrow>
   (cp_accepted p \<longleftrightarrow> cp_reject p = None) \<and> cp_reject p \<in> {None, Some ''NO_FORWARD_CANDIDATE'', Some ''AMBIGUOUS_NEAREST''} \<and>
   (cp_accepted p \<longrightarrow> good_pair par (set rs) (set av) p)"
proof (induction rs arbitrary: av)
  case (Cons x rs)
  obtain k r where x: "x = (k, r)" by (cases x)
  obtain q av' where st: "pair_signals par av ((k, r) # rs) = q # pair_signals par av' rs" "set av' \<subseteq> set av"
    and q: "(\<not> cp_accepted q \<and> av' = av \<and> cp_reject q \<in> {Some ''NO_FORWARD_CANDIDATE'', Some ''AMBIGUOUS_NEAREST''}) \<or>
      (cp_accepted q \<and> cp_reject q = None \<and> (\<exists>c. c \<in> set av \<and> av' = filter (\<lambda>d. fst d \<noteq> fst c) av \<and> cp_dltv_id q = Some (dltv_id c) \<and>
        good_pair par {(k, r)} {c} q))"
    using pair_signals_step [of par av k r rs] by blast
  have "p = q \<or> p \<in> set (pair_signals par av' rs)" using Cons.prems unfolding x st(1) by simp
  then show ?case
  proof
    assume "p = q"
    then show ?thesis using q by (auto simp: x intro: good_pair_mono)
  next
    assume "p \<in> set (pair_signals par av' rs)"
    from Cons.IH [OF this] show ?thesis using st(2) good_pair_mono [of par "set rs" "set av'" p "set (x # rs)" "set av"] by auto
  qed
qed simp

text \<open>An accepted pair consumes its DLTV signal.\<close>

lemma accepted_ids_within:
  "cp_dltv_id ` {p \<in> set (pair_signals par av rs). cp_accepted p} \<subseteq> (\<lambda>c. Some (dltv_id c)) ` set av"
  using pair_signals_sound unfolding good_pair_def by fastforce

lemma accepted_ids_distinct:
  "distinct (map dltv_id av) \<Longrightarrow> distinct (map cp_dltv_id (filter cp_accepted (pair_signals par av rs)))"
proof (induction rs arbitrary: av)
  case (Cons x rs)
  obtain k r where x: "x = (k, r)" by (cases x)
  obtain q av' where st: "pair_signals par av ((k, r) # rs) = q # pair_signals par av' rs"
    and q: "(\<not> cp_accepted q \<and> av' = av) \<or>
      (cp_accepted q \<and> (\<exists>c. c \<in> set av \<and> av' = filter (\<lambda>d. fst d \<noteq> fst c) av \<and> cp_dltv_id q = Some (dltv_id c)))"
    using pair_signals_step [of par av k r rs] by blast
  show ?case
  proof (cases "cp_accepted q")
    case False
    then show ?thesis using q Cons.IH [OF Cons.prems] st by (simp add: x del: pair_signals.simps)
  next
    case True
    then obtain c where c: "c \<in> set av" "av' = filter (\<lambda>d. fst d \<noteq> fst c) av" "cp_dltv_id q = Some (dltv_id c)" using q by blast
    have d: "distinct (map dltv_id av')" using Cons.prems by (simp add: c(2) distinct_map_filter)
    have "dltv_id c \<notin> dltv_id ` set av'"
      using Cons.prems c(1) by (auto simp: c(2) distinct_map inj_on_def)
    then have "Some (dltv_id c) \<notin> cp_dltv_id ` set (filter cp_accepted (pair_signals par av' rs))"
      using accepted_ids_within [of par av' rs] by fastforce
    then show ?thesis using True Cons.IH [OF d] st c(3) by (simp add: x del: pair_signals.simps)
  qed
qed simp

lemma accepted_lags_of:
  assumes "\<forall>p \<in> set pairs. cp_accepted p \<longrightarrow> cp_lag p \<noteq> None"
  shows "map Some (accepted_lags pairs) = map cp_lag (filter cp_accepted pairs)"
  using assms by (induction pairs) (auto simp: accepted_lags_def)

subsection \<open>The percentile\<close>

lemma length_filter_mono: "(\<And>x. P x \<Longrightarrow> Q x) \<Longrightarrow> length (filter P xs) \<le> length (filter Q xs)"
  by (induction xs) auto

lemma nearest_rank_covers:
  assumes "xs \<noteq> []" and "0 < q" and "q \<le> 1"
  shows "q * of_nat (length xs) \<le> of_nat (length (filter (\<lambda>x. x \<le> nearest_rank xs q) xs))"
proof -
  define n where "n = length xs"
  define k where "k = nat (max (\<lceil>q * of_nat n\<rceil> - 1) 0)"
  have n: "0 < n" using assms(1) by (simp add: n_def)
  have pos: "0 < q * of_nat n" using assms(2) n by simp
  have upper: "q * of_nat n \<le> of_nat n" using mult_right_mono [OF assms(3), of "of_nat n"] by simp
  have c: "1 \<le> \<lceil>q * of_nat n\<rceil>" "\<lceil>q * of_nat n\<rceil> \<le> int n" using pos upper by (simp_all add: ceiling_le_iff)
  have "k = nat (\<lceil>q * of_nat n\<rceil> - 1)" using c(1) by (simp add: k_def max_def)
  then have k: "k < n" "int (Suc k) = \<lceil>q * of_nat n\<rceil>" using c by linarith+
  have nr: "nearest_rank xs q = sort xs ! k" by (simp add: nearest_rank_def k_def n_def)
  have all: "x \<le> sort xs ! k" if "x \<in> set (take (Suc k) (sort xs))" for x
  proof -
    obtain i where i: "i < Suc k" "x = sort xs ! i" using \<open>x \<in> set (take (Suc k) (sort xs))\<close> k(1)
      by (auto simp: in_set_conv_nth)
    show ?thesis unfolding i(2) by (rule sorted_nth_mono) (use i k(1) in \<open>simp_all add: n_def\<close>)
  qed
  let ?P = "\<lambda>x. x \<le> nearest_rank xs q"
  have "filter ?P (take (Suc k) (sort xs)) = take (Suc k) (sort xs)" using all by (simp add: nr filter_id_conv)
  then have "Suc k = length (filter ?P (take (Suc k) (sort xs)))" using k(1) by (simp add: n_def)
  also have "\<dots> \<le> length (filter ?P (take (Suc k) (sort xs) @ drop (Suc k) (sort xs)))" unfolding filter_append by simp
  also have "\<dots> = length (filter ?P (sort xs))" by simp
  also have "\<dots> = length (filter ?P xs)" by (simp add: filter_sort)
  finally have "of_nat (Suc k) \<le> (of_nat (length (filter ?P xs)) :: rat)" by (simp only: of_nat_le_iff)
  moreover have "q * of_nat n \<le> of_nat (Suc k)"
    using le_of_int_ceiling [of "q * of_nat n"] k(2) by (metis of_int_of_nat_eq)
  ultimately show ?thesis by (simp add: n_def)
qed

lemma scaled_counts: "9 * (of_nat a :: rat) \<le> 10 * of_nat b \<Longrightarrow> 9 * a \<le> 10 * b"
  by (simp only: of_nat_le_iff [where 'a = rat, symmetric] of_nat_mult of_nat_numeral)

subsection \<open>The status\<close>

lemma calibrate_parts:
  fixes map_id raybet dltv t par
  defines "pairs \<equiv> pair_signals par (indexed dltv) (indexed raybet)"
  shows "snd (calibrate map_id raybet dltv t par) = pairs"
    and "se_sample_size (fst (calibrate map_id raybet dltv t par)) = length (accepted_lags pairs)"
    and "(se_confidence (fst (calibrate map_id raybet dltv t par)), se_status (fst (calibrate map_id raybet dltv t par))) =
      sync_verdict par (length (filter (\<lambda>p. cp_reject p \<noteq> Some ''NO_FORWARD_CANDIDATE'') pairs)) (length (accepted_lags pairs))
        (se_ambiguous_ratio (fst (calibrate map_id raybet dltv t par))) (se_p90 (fst (calibrate map_id raybet dltv t par)))
        (se_jitter (fst (calibrate map_id raybet dltv t par)))"
    and "se_p90 (fst (calibrate map_id raybet dltv t par)) =
      (if accepted_lags pairs = [] then None else Some (nearest_rank (map abs (accepted_lags pairs)) (9 / 10)))"
    and "se_ambiguous_ratio (fst (calibrate map_id raybet dltv t par)) =
      ratio_of (length (filter (\<lambda>p. cp_reject p = Some ''AMBIGUOUS_NEAREST'') (filter (\<lambda>p. cp_reject p \<noteq> Some ''NO_FORWARD_CANDIDATE'') pairs)))
        (length (filter (\<lambda>p. cp_reject p \<noteq> Some ''NO_FORWARD_CANDIDATE'') pairs))"
    and "se_accepted_ratio (fst (calibrate map_id raybet dltv t par)) =
      ratio_of (length (accepted_lags pairs)) (length (filter (\<lambda>p. cp_reject p \<noteq> Some ''NO_FORWARD_CANDIDATE'') pairs))"
    and "se_outlier_ratio (fst (calibrate map_id raybet dltv t par)) =
      ratio_of (length (filter (\<lambda>p. cp_reject p \<notin> {None, Some ''AMBIGUOUS_NEAREST''}) (filter (\<lambda>p. cp_reject p \<noteq> Some ''NO_FORWARD_CANDIDATE'') pairs)))
        (length (filter (\<lambda>p. cp_reject p \<noteq> Some ''NO_FORWARD_CANDIDATE'') pairs))"
  by (simp_all add: calibrate_def Let_def pairs_def split_beta del: filter_filter)

lemma accepted_lags_length:
  assumes "pairs = pair_signals par av rs"
  shows "map Some (accepted_lags pairs) = map cp_lag (filter cp_accepted pairs)"
  by (rule accepted_lags_of) (use pair_signals_sound assms in \<open>fastforce simp: good_pair_def\<close>)

lemma accepted_lag_bounds:
  assumes "l \<in> set (accepted_lags (pair_signals par av rs))"
  shows "0 \<le> l \<and> l \<le> cb_window par"
proof -
  have "Some l \<in> set (map Some (accepted_lags (pair_signals par av rs)))" using assms by simp
  then obtain p where "p \<in> set (pair_signals par av rs)" "cp_accepted p" "cp_lag p = Some l"
    unfolding accepted_lags_length [OF refl] by auto
  then show ?thesis using pair_signals_sound [of p par av rs] by (auto simp: good_pair_def)
qed

lemma verdict_safe:
  assumes "sync_verdict par total_pairs n ambiguous p90 jitter = (c, SAFE)"
  shows "total_pairs \<noteq> 0" "cb_min_samples par \<le> int n" "cb_min_ratio par \<le> ratio_of n total_pairs" "ambiguous = 0"
    "\<exists>p j. p90 = Some p \<and> jitter = Some j \<and> p \<le> cb_safe par \<and> j \<le> of_rat (cb_safe par)"
    "c = (if 8 \<le> n then HIGH else MEDIUM)"
  using assms by (auto simp: sync_verdict_def within_limit_def split: if_splits option.splits)

text \<open>A SAFE estimate means that the providers are synchronized: at least the required number of RayBet
  repricings was paired, each with a DLTV state change of its own that followed it within the
  window; every repricing that had a candidate was paired unambiguously (the accepted ratio is 1);
  at least nine in ten of the lags are within the safe limit, and their standard deviation is.  The
  outlier ratio is always 0.\<close>

theorem safe_estimate_is_synchronized:
  assumes cal: "calibrate map_id raybet dltv t par = (est, pairs)" and ids: "distinct (map dltv_id (indexed dltv))"
  shows "se_outlier_ratio est = 0 \<and>
    (\<forall>p \<in> set pairs. cp_accepted p \<longrightarrow> good_pair par (set (indexed raybet)) (set (indexed dltv)) p) \<and>
    distinct (map cp_dltv_id (filter cp_accepted pairs)) \<and>
    se_sample_size est = length (filter cp_accepted pairs) \<and>
    (se_status est = SAFE \<longrightarrow>
       cb_min_samples par \<le> int (se_sample_size est) \<and> se_accepted_ratio est = 1 \<and>
       (\<forall>p \<in> set pairs. cp_accepted p \<or> cp_reject p = Some ''NO_FORWARD_CANDIDATE'') \<and>
       9 * se_sample_size est \<le> 10 * length (filter (\<lambda>p. \<exists>l. cp_lag p = Some l \<and> l \<le> cb_safe par) (filter cp_accepted pairs)) \<and>
       (\<exists>j. se_jitter est = Some j \<and> j \<le> of_rat (cb_safe par)))"
proof -
  have est: "est = fst (calibrate map_id raybet dltv t par)" and pairs: "pairs = pair_signals par (indexed dltv) (indexed raybet)"
    using cal calibrate_parts(1) [of map_id raybet dltv t par] by simp_all
  note parts = calibrate_parts [of map_id raybet dltv t par, folded pairs est]
  let ?cand = "filter (\<lambda>p. cp_reject p \<noteq> Some ''NO_FORWARD_CANDIDATE'') pairs"
  let ?acc = "filter cp_accepted pairs"
  have sound: "(cp_accepted p \<longleftrightarrow> cp_reject p = None) \<and> cp_reject p \<in> {None, Some ''NO_FORWARD_CANDIDATE'', Some ''AMBIGUOUS_NEAREST''} \<and>
      (cp_accepted p \<longrightarrow> good_pair par (set (indexed raybet)) (set (indexed dltv)) p)" if "p \<in> set pairs" for p
    using pair_signals_sound [of p par "indexed dltv" "indexed raybet"] that by (simp add: pairs)
  have lags: "map Some (accepted_lags pairs) = map cp_lag ?acc" by (rule accepted_lags_length [OF pairs])
  then have n: "length (accepted_lags pairs) = length ?acc" by (metis length_map)
  have "filter (\<lambda>p. cp_reject p \<notin> {None, Some ''AMBIGUOUS_NEAREST''}) ?cand = []" using sound by (auto simp: filter_empty_conv)
  then have outlier: "se_outlier_ratio est = 0" using parts(7) by (simp add: ratio_of_def)
  have safe: "cb_min_samples par \<le> int (se_sample_size est) \<and> se_accepted_ratio est = 1 \<and>
       (\<forall>p \<in> set pairs. cp_accepted p \<or> cp_reject p = Some ''NO_FORWARD_CANDIDATE'') \<and>
       9 * se_sample_size est \<le> 10 * length (filter (\<lambda>p. \<exists>l. cp_lag p = Some l \<and> l \<le> cb_safe par) ?acc) \<and>
       (\<exists>j. se_jitter est = Some j \<and> j \<le> of_rat (cb_safe par))" if st: "se_status est = SAFE"
  proof -
    have v: "sync_verdict par (length ?cand) (length (accepted_lags pairs)) (se_ambiguous_ratio est) (se_p90 est) (se_jitter est) =
        (se_confidence est, SAFE)" using parts(3) st by simp
    note v = verdict_safe [OF v]
    have "length (filter (\<lambda>p. cp_reject p = Some ''AMBIGUOUS_NEAREST'') ?cand) = 0"
      using v(1,4) parts(5) by (simp add: ratio_of_def split: if_splits)
    then have none: "\<forall>p \<in> set pairs. cp_reject p \<noteq> Some ''AMBIGUOUS_NEAREST''" by (auto simp: filter_empty_conv)
    then have all: "\<forall>p \<in> set pairs. cp_accepted p \<or> cp_reject p = Some ''NO_FORWARD_CANDIDATE''" using sound by auto
    have "?cand = ?acc" by (rule filter_cong [OF refl]) (use sound all in auto)
    then have ratio: "se_accepted_ratio est = 1" using parts(6) v(1) n by (simp add: ratio_of_def)
    obtain p j where pj: "se_p90 est = Some p" "se_jitter est = Some j" "p \<le> cb_safe par" "j \<le> of_rat (cb_safe par)"
      using v(5) by blast
    have abs: "map abs (accepted_lags pairs) = accepted_lags pairs"
      by (rule map_idI) (use accepted_lag_bounds pairs in fastforce)
    have ne: "accepted_lags pairs \<noteq> []" "p = nearest_rank (accepted_lags pairs) (9 / 10)"
      using parts(4) pj(1) abs by (auto split: if_splits)
    have "9 / 10 * of_nat (length (accepted_lags pairs)) \<le>
        (of_nat (length (filter (\<lambda>x. x \<le> p) (accepted_lags pairs))) :: rat)"
      unfolding ne(2) by (rule nearest_rank_covers) (use ne(1) in simp_all)
    then have "9 * (of_nat (length (accepted_lags pairs)) :: rat) \<le> 10 * of_nat (length (filter (\<lambda>x. x \<le> p) (accepted_lags pairs)))"
      by simp
    then have ninety: "9 * length (accepted_lags pairs) \<le> 10 * length (filter (\<lambda>x. x \<le> p) (accepted_lags pairs))"
      by (rule scaled_counts)
    have "length (filter (\<lambda>x. x \<le> p) (accepted_lags pairs)) \<le> length (filter (\<lambda>x. x \<le> cb_safe par) (accepted_lags pairs))"
      by (rule length_filter_mono) (use pj(3) in simp)
    also have "\<dots> = length (filter (\<lambda>x. \<exists>l. x = Some l \<and> l \<le> cb_safe par) (map Some (accepted_lags pairs)))"
      by (simp add: filter_map comp_def)
    also have "\<dots> = length (filter (\<lambda>p. \<exists>l. cp_lag p = Some l \<and> l \<le> cb_safe par) ?acc)"
      unfolding lags by (simp add: filter_map comp_def)
    finally show ?thesis using ninety v(2) parts(2) all ratio pj(2,4) by auto
  qed
  have good: "\<forall>p \<in> set pairs. cp_accepted p \<longrightarrow> good_pair par (set (indexed raybet)) (set (indexed dltv)) p"
    using sound by blast
  have size: "se_sample_size est = length ?acc" using parts(2) n by simp
  show ?thesis
    by (rule conjI [OF outlier conjI [OF good conjI [OF accepted_ids_distinct [OF ids, of par "indexed raybet", folded pairs]
          conjI [OF size impI [OF safe]]]]])
qed

definition demo_params :: calibration_params where
  "demo_params = \<lparr>cb_window = 10, cb_safe = 2, cb_caution = 5, cb_min_samples = 1, cb_ambiguity = 1 / 2, cb_min_ratio = 6 / 10\<rparr>"

definition demo_signal :: "time \<Rightarrow> string \<Rightarrow> calibration_signal" where
  "demo_signal t i = \<lparr>sg_received_at = t, sg_event_type = ''S'', sg_id = Some i\<rparr>"

lemma demo_param_fields:
  "cb_window demo_params = 10" "cb_safe demo_params = 2" "cb_caution demo_params = 5" "cb_min_samples demo_params = 1"
  "cb_ambiguity demo_params = 1 / 2" "cb_min_ratio demo_params = 6 / 10"
  by (simp_all add: demo_params_def)

lemma demo_pairs:
  "pair_signals demo_params (indexed [demo_signal 1000000 ''d'']) (indexed [demo_signal 0 ''r'']) =
    [pair_with (demo_signal 0 ''r'') 0 (0, demo_signal 1000000 ''d'') 9 None]"
  by (simp add: indexed_def forward_candidates_def signal_lag_def seconds_of_def demo_params_def demo_signal_def)

theorem safe_estimate_is_synchronized_witness:
  "se_status (fst (calibrate 5 [demo_signal 0 ''r''] [demo_signal 1000000 ''d''] 9 demo_params)) = SAFE \<and>
   se_accepted_ratio (fst (calibrate 5 [demo_signal 0 ''r''] [demo_signal 1000000 ''d''] 9 demo_params)) = 1"
proof -
  let ?r = "[demo_signal 0 ''r'']" and ?d = "[demo_signal 1000000 ''d'']"
  have "accepted_lags [pair_with (demo_signal 0 ''r'') 0 (0, demo_signal 1000000 ''d'') 9 None] = [1]"
    by (simp add: accepted_lags_def signal_lag_def demo_signal_def seconds_of_def)
  then have "se_status (fst (calibrate 5 ?r ?d 9 demo_params)) = SAFE"
    by (simp add: calibrate_def demo_pairs sync_verdict_def within_limit_def nearest_rank_def ratio_of_def Let_def demo_param_fields)
  moreover have "distinct (map dltv_id (indexed ?d))" by (simp add: indexed_def)
  ultimately show ?thesis
    using safe_estimate_is_synchronized [of 5 ?r ?d 9 demo_params "fst (calibrate 5 ?r ?d 9 demo_params)" "snd (calibrate 5 ?r ?d 9 demo_params)"]
    by simp
qed

subsection \<open>One estimate per map and instant\<close>

lemma calibrate_key:
  "se_map (fst (calibrate map_id raybet dltv t par)) = map_id" "se_calculated_at (fst (calibrate map_id raybet dltv t par)) = t"
  by (simp_all add: calibrate_def Let_def split_beta del: filter_filter)

lemma aligner_calculates_once:
  assumes "aligner_calculate par move nw facts odds live db map_id as_of = Inr (e, db')"
  shows "aligner_calculate par' move' nw' facts' odds' live' db' map_id as_of = Inr (e, db')"
proof (cases "find_row (\<lambda>e. se_map e = map_id \<and> se_calculated_at e = as_of) (sy_estimates db)")
  case None
  let ?odds = "newest_rows or_received_at 500 (filter (\<lambda>r. sync_market facts map_id r \<and> or_received_at r \<le> as_of) odds)"
  let ?live = "newest_rows lo_received_at 500 (filter (\<lambda>w. lo_canonical_map_id w = Some map_id \<and> lo_received_at w \<le> as_of) live)"
  obtain raybet where r: "raybet_signals move [] ?odds = Inr raybet"
    using assms None by (cases "raybet_signals move [] ?odds") (simp_all add: aligner_calculate_def)
  have c: "e = fst (calibrate map_id raybet (dltv_signals nw None ?live) as_of par)" "sy_estimates db' = sy_estimates db @ [e]"
    using assms None r by (auto simp: aligner_calculate_def Let_def split_beta split: if_split_asm)
  have "se_map e = map_id" "se_calculated_at e = as_of"
    by (simp_all add: c(1) calibrate_key)
  then show ?thesis using None c(2) by (simp add: aligner_calculate_def)
next
  case (Some x)
  then show ?thesis using assms by (auto simp: aligner_calculate_def)
qed

end
