(* ===== verification/Lanes.thy ===== *)
theory Lanes
  imports Tables
begin

text \<open>
  \<open>AiExperimentLaneRegistry\<close> of \<open>app/ai/lanes.py\<close>: one lane per experiment, entered by one task at a
  time in the order of decision time.  Lanes are objects: the dictionary maps a key to an object, a
  task keeps its reference to it.  A step is what a task runs between two suspensions of the event
  loop; the condition's lock is never held across a suspension, so acquiring it never waits.
\<close>

subsection \<open>State\<close>

record lane =
  la_active :: bool
  la_waiters :: "(time \<times> nat) list"

text \<open>A task in \<open>hold\<close>: registered and waiting for its turn, inside the body, done, or cancelled while it
  waited (its token stays behind).  The shared counter numbers the tasks in the order they
  register, so a task is its position in the list.\<close>

datatype phase = Waiting | Inside | Finished | Cancelled

record hold =
  hd_key :: string
  hd_lane :: nat
  hd_at :: time
  hd_phase :: phase

record registry =
  rg_dict :: "(string \<times> nat) list"
  rg_lanes :: "lane list"
  rg_holds :: "hold list"

definition empty_registry :: registry where
  "empty_registry = \<lparr>rg_dict = [], rg_lanes = [], rg_holds = []\<rparr>"

definition hold_token :: "registry \<Rightarrow> nat \<Rightarrow> time \<times> nat" where
  "hold_token st i = (hd_at (rg_holds st ! i), i)"

definition lane_of :: "registry \<Rightarrow> nat \<Rightarrow> lane" where
  "lane_of st i = rg_lanes st ! hd_lane (rg_holds st ! i)"

definition in_phase :: "registry \<Rightarrow> nat \<Rightarrow> phase \<Rightarrow> bool" where
  "in_phase st i p \<longleftrightarrow> i < length (rg_holds st) \<and> hd_phase (rg_holds st ! i) = p"

definition set_phase :: "nat \<Rightarrow> phase \<Rightarrow> registry \<Rightarrow> registry" where
  "set_phase i p st = st\<lparr>rg_holds := (rg_holds st)[i := (rg_holds st ! i)\<lparr>hd_phase := p\<rparr>]\<rparr>"

definition set_lane :: "nat \<Rightarrow> lane \<Rightarrow> registry \<Rightarrow> registry" where
  "set_lane i l st = st\<lparr>rg_lanes := (rg_lanes st)[hd_lane (rg_holds st ! i) := l]\<rparr>"

subsection \<open>Steps of hold\<close>

text \<open>\<open>setdefault\<close>, the token and its registration.\<close>

definition find_lane :: "registry \<Rightarrow> string \<Rightarrow> nat \<times> registry" where
  "find_lane st key =
     (case map_of (rg_dict st) key of
        Some r \<Rightarrow> (r, st)
      | None \<Rightarrow>
          (length (rg_lanes st),
           st\<lparr>rg_dict := rg_dict st @ [(key, length (rg_lanes st))],
              rg_lanes := rg_lanes st @ [\<lparr>la_active = False, la_waiters = []\<rparr>]\<rparr>))"

definition hold_register :: "registry \<Rightarrow> string \<Rightarrow> time \<Rightarrow> registry" where
  "hold_register st key due =
     (let (r, st1) = find_lane st key; l = rg_lanes st1 ! r
      in st1\<lparr>rg_lanes := (rg_lanes st1)[r := l\<lparr>la_waiters := la_waiters l @ [(due, length (rg_holds st1))]\<rparr>],
             rg_holds := rg_holds st1 @ [\<lparr>hd_key = key, hd_lane = r, hd_at = due, hd_phase = Waiting\<rparr>]\<rparr>)"

text \<open>\<open>wait_for\<close> returns when the predicate holds.\<close>

definition may_enter :: "registry \<Rightarrow> nat \<Rightarrow> bool" where
  "may_enter st i \<longleftrightarrow> \<not> la_active (lane_of st i) \<and> hold_token st i = Min (set (la_waiters (lane_of st i)))"

definition hold_enter :: "registry \<Rightarrow> nat \<Rightarrow> registry option" where
  "hold_enter st i =
     (if in_phase st i Waiting \<and> may_enter st i
      then Some (set_phase i Inside
             (set_lane i \<lparr>la_active = True, la_waiters = remove1 (hold_token st i) (la_waiters (lane_of st i))\<rparr> st))
      else None)"

text \<open>The body ended, normally or not; an unused lane is dropped from the dictionary.\<close>

definition hold_leave :: "registry \<Rightarrow> nat \<Rightarrow> registry option" where
  "hold_leave st i =
     (if in_phase st i Inside
      then let st1 = set_phase i Finished (set_lane i ((lane_of st i)\<lparr>la_active := False\<rparr>) st)
           in Some (if la_waiters (lane_of st i) = [] then st1\<lparr>rg_dict := AList.delete (hd_key (rg_holds st ! i)) (rg_dict st1)\<rparr> else st1)
      else None)"

definition hold_cancel :: "registry \<Rightarrow> nat \<Rightarrow> registry option" where
  "hold_cancel st i = (if in_phase st i Waiting then Some (set_phase i Cancelled st) else None)"

inductive lane_step :: "registry \<Rightarrow> registry \<Rightarrow> bool" where
  register: "lane_step st (hold_register st key due)"
| enter: "hold_enter st i = Some st' \<Longrightarrow> lane_step st st'"
| leave: "hold_leave st i = Some st' \<Longrightarrow> lane_step st st'"
| cancel: "hold_cancel st i = Some st' \<Longrightarrow> lane_step st st'"

inductive lane_reachable :: "registry \<Rightarrow> bool" where
  start: "lane_reachable empty_registry"
| step: "lane_reachable st \<Longrightarrow> lane_step st st' \<Longrightarrow> lane_reachable st'"

inductive_cases lane_stepE: "lane_step st st'"

subsection \<open>The invariant\<close>

definition waiting_on :: "registry \<Rightarrow> nat \<Rightarrow> (time \<times> nat) set" where
  "waiting_on st r = {hold_token st i |i. hd_lane (rg_holds st ! i) = r \<and> (in_phase st i Waiting \<or> in_phase st i Cancelled)}"

definition lane_inv :: "registry \<Rightarrow> bool" where
  "lane_inv st \<longleftrightarrow>
     distinct (map fst (rg_dict st)) \<and> distinct (map snd (rg_dict st)) \<and>
     (\<forall>(k, r) \<in> set (rg_dict st). r < length (rg_lanes st)) \<and>
     (\<forall>i < length (rg_holds st). hd_lane (rg_holds st ! i) < length (rg_lanes st) \<and>
        (hd_phase (rg_holds st ! i) \<noteq> Finished \<longrightarrow> map_of (rg_dict st) (hd_key (rg_holds st ! i)) = Some (hd_lane (rg_holds st ! i)))) \<and>
     (\<forall>r < length (rg_lanes st). distinct (la_waiters (rg_lanes st ! r)) \<and> set (la_waiters (rg_lanes st ! r)) = waiting_on st r \<and>
        (la_active (rg_lanes st ! r) \<longleftrightarrow> (\<exists>i. in_phase st i Inside \<and> hd_lane (rg_holds st ! i) = r))) \<and>
     (\<forall>i j. in_phase st i Inside \<and> in_phase st j Inside \<and> hd_lane (rg_holds st ! i) = hd_lane (rg_holds st ! j) \<longrightarrow> i = j)"

lemma lane_invD:
  assumes "lane_inv st"
  shows "distinct (map fst (rg_dict st))" "distinct (map snd (rg_dict st))"
    "\<And>k r. map_of (rg_dict st) k = Some r \<Longrightarrow> r < length (rg_lanes st)"
    "\<And>i. i < length (rg_holds st) \<Longrightarrow> hd_lane (rg_holds st ! i) < length (rg_lanes st)"
    "\<And>i. i < length (rg_holds st) \<Longrightarrow> hd_phase (rg_holds st ! i) \<noteq> Finished \<Longrightarrow>
       map_of (rg_dict st) (hd_key (rg_holds st ! i)) = Some (hd_lane (rg_holds st ! i))"
    "\<And>r. r < length (rg_lanes st) \<Longrightarrow> distinct (la_waiters (rg_lanes st ! r))"
    "\<And>r. r < length (rg_lanes st) \<Longrightarrow> set (la_waiters (rg_lanes st ! r)) = waiting_on st r"
    "\<And>r. r < length (rg_lanes st) \<Longrightarrow> la_active (rg_lanes st ! r) \<longleftrightarrow> (\<exists>i. in_phase st i Inside \<and> hd_lane (rg_holds st ! i) = r)"
    "\<And>i j. in_phase st i Inside \<Longrightarrow> in_phase st j Inside \<Longrightarrow> hd_lane (rg_holds st ! i) = hd_lane (rg_holds st ! j) \<Longrightarrow> i = j"
  using assms unfolding lane_inv_def by (auto dest: map_of_SomeD)

lemma lane_invI:
  assumes "distinct (map fst (rg_dict st))" "distinct (map snd (rg_dict st))"
    "\<And>k r. (k, r) \<in> set (rg_dict st) \<Longrightarrow> r < length (rg_lanes st)"
    "\<And>i. i < length (rg_holds st) \<Longrightarrow> hd_lane (rg_holds st ! i) < length (rg_lanes st)"
    "\<And>i. i < length (rg_holds st) \<Longrightarrow> hd_phase (rg_holds st ! i) \<noteq> Finished \<Longrightarrow>
       map_of (rg_dict st) (hd_key (rg_holds st ! i)) = Some (hd_lane (rg_holds st ! i))"
    "\<And>r. r < length (rg_lanes st) \<Longrightarrow> distinct (la_waiters (rg_lanes st ! r)) \<and> set (la_waiters (rg_lanes st ! r)) = waiting_on st r \<and>
       (la_active (rg_lanes st ! r) \<longleftrightarrow> (\<exists>i. in_phase st i Inside \<and> hd_lane (rg_holds st ! i) = r))"
    "\<And>i j. in_phase st i Inside \<Longrightarrow> in_phase st j Inside \<Longrightarrow> hd_lane (rg_holds st ! i) = hd_lane (rg_holds st ! j) \<Longrightarrow> i = j"
  shows "lane_inv st"
  unfolding lane_inv_def using assms by auto

lemma dict_in_range: "lane_inv st \<Longrightarrow> (k, r) \<in> set (rg_dict st) \<Longrightarrow> r < length (rg_lanes st)"
  unfolding lane_inv_def by blast

lemma empty_lane_inv: "lane_inv empty_registry"
  by (simp add: lane_inv_def empty_registry_def in_phase_def)

lemma in_phase_set_phase:
  "in_phase (set_phase i p st) j q \<longleftrightarrow> (if i = j \<and> i < length (rg_holds st) then p = q else in_phase st j q)"
  by (auto simp: in_phase_def set_phase_def nth_list_update)

lemma holds_set_phase:
  "rg_holds (set_phase i p st) ! j =
    (if i = j \<and> i < length (rg_holds st) then (rg_holds st ! j)\<lparr>hd_phase := p\<rparr> else rg_holds st ! j)"
proof (cases "i < length (rg_holds st)")
  case True
  then show ?thesis by (simp add: set_phase_def nth_list_update)
qed (simp add: set_phase_def list_update_beyond)

lemma set_phase_simps [simp]:
  "rg_dict (set_phase i p st) = rg_dict st" "rg_lanes (set_phase i p st) = rg_lanes st"
  "length (rg_holds (set_phase i p st)) = length (rg_holds st)"
  by (simp_all add: set_phase_def)

lemma set_phase_fields [simp]:
  "hd_lane (rg_holds (set_phase i p st) ! j) = hd_lane (rg_holds st ! j)"
  "hd_key (rg_holds (set_phase i p st) ! j) = hd_key (rg_holds st ! j)"
  "hold_token (set_phase i p st) j = hold_token st j"
  by (simp_all add: hold_token_def holds_set_phase)

lemma set_lane_simps [simp]:
  "rg_dict (set_lane i l st) = rg_dict st" "rg_holds (set_lane i l st) = rg_holds st"
  "length (rg_lanes (set_lane i l st)) = length (rg_lanes st)"
  "in_phase (set_lane i l st) j q = in_phase st j q" "hold_token (set_lane i l st) j = hold_token st j"
  by (simp_all add: set_lane_def in_phase_def hold_token_def)

lemma dict_update_simps [simp]:
  "in_phase (st\<lparr>rg_dict := d\<rparr>) j q = in_phase st j q" "hold_token (st\<lparr>rg_dict := d\<rparr>) j = hold_token st j"
  by (simp_all add: in_phase_def hold_token_def)

lemma token_inj [simp]: "hold_token st i = hold_token st j \<longleftrightarrow> i = j"
  by (auto simp: hold_token_def)

subsection \<open>Preservation\<close>

lemma in_waiting_on:
  "hold_token st i \<in> waiting_on st r \<longleftrightarrow> hd_lane (rg_holds st ! i) = r \<and> (in_phase st i Waiting \<or> in_phase st i Cancelled)"
  by (auto simp: waiting_on_def)

lemma enter_inv:
  assumes inv: "lane_inv st" and run: "hold_enter st i = Some st'"
  shows "lane_inv st'"
proof -
  define l where "l = \<lparr>la_active = True, la_waiters = remove1 (hold_token st i) (la_waiters (lane_of st i))\<rparr>"
  have w: "in_phase st i Waiting" "may_enter st i" and st': "st' = set_phase i Inside (set_lane i l st)"
    using run by (auto simp: hold_enter_def l_def split: if_splits)
  have i: "i < length (rg_holds st)" using w(1) by (simp add: in_phase_def)
  let ?r = "hd_lane (rg_holds st ! i)"
  have r: "?r < length (rg_lanes st)" by (rule lane_invD(4) [OF inv i])
  have idle: "\<not> in_phase st j Inside" if "hd_lane (rg_holds st ! j) = ?r" for j
    using w(2) lane_invD(8) [OF inv r] that by (auto simp: may_enter_def lane_of_def)
  have lanes: "rg_lanes st' ! q = (if q = ?r then l else rg_lanes st ! q)" if "q < length (rg_lanes st)" for q
    using that r by (simp add: st' set_lane_def nth_list_update)
  have phase: "in_phase st' j p \<longleftrightarrow> (if i = j then p = Inside else in_phase st j p)" for j p
    using i by (auto simp: st' in_phase_set_phase)
  have same: "rg_dict st' = rg_dict st" "length (rg_holds st') = length (rg_holds st)" "length (rg_lanes st') = length (rg_lanes st)"
    "\<And>j. hd_lane (rg_holds st' ! j) = hd_lane (rg_holds st ! j)" "\<And>j. hd_key (rg_holds st' ! j) = hd_key (rg_holds st ! j)"
    "\<And>j. hold_token st' j = hold_token st j"
    by (simp_all add: st')
  have wait: "waiting_on st' q = waiting_on st q - (if q = ?r then {hold_token st i} else {})" for q
    unfolding waiting_on_def same phase using w(1) by (auto simp: in_phase_def)
  have "distinct (la_waiters (rg_lanes st' ! q)) \<and> set (la_waiters (rg_lanes st' ! q)) = waiting_on st' q" if "q < length (rg_lanes st)" for q
    using lane_invD(6,7) [OF inv that] lanes [OF that] wait [of q] by (auto simp: l_def lane_of_def)
  moreover have "la_active (rg_lanes st' ! q) \<longleftrightarrow> (\<exists>j. in_phase st' j Inside \<and> hd_lane (rg_holds st' ! j) = q)" if "q < length (rg_lanes st)" for q
    using lane_invD(8) [OF inv that] lanes [OF that] unfolding phase same by (auto simp: l_def)
  moreover have "j = k" if "in_phase st' j Inside" "in_phase st' k Inside" "hd_lane (rg_holds st ! j) = hd_lane (rg_holds st ! k)" for j k
    using that idle lane_invD(9) [OF inv, of j k] unfolding phase by (metis (full_types))
  moreover have "hd_phase (rg_holds st' ! j) \<noteq> Finished \<Longrightarrow> hd_phase (rg_holds st ! j) \<noteq> Finished" for j
    using w(1) by (auto simp: st' holds_set_phase in_phase_def split: if_splits)
  ultimately show ?thesis using lane_invD(1,2,4,5) [OF inv] inv unfolding lane_inv_def same by blast
qed

lemma cancel_inv:
  assumes inv: "lane_inv st" and run: "hold_cancel st i = Some st'"
  shows "lane_inv st'"
proof -
  have w: "in_phase st i Waiting" and st': "st' = set_phase i Cancelled st" using run by (auto simp: hold_cancel_def split: if_splits)
  have i: "i < length (rg_holds st)" using w by (simp add: in_phase_def)
  have phase: "in_phase st' j p \<longleftrightarrow> (if i = j then p = Cancelled else in_phase st j p)" for j p
    using i by (auto simp: st' in_phase_set_phase)
  have same: "rg_dict st' = rg_dict st" "length (rg_holds st') = length (rg_holds st)" "rg_lanes st' = rg_lanes st"
    "\<And>j. hd_lane (rg_holds st' ! j) = hd_lane (rg_holds st ! j)" "\<And>j. hd_key (rg_holds st' ! j) = hd_key (rg_holds st ! j)"
    "\<And>j. hold_token st' j = hold_token st j"
    by (simp_all add: st')
  have inside: "in_phase st' j Inside \<longleftrightarrow> in_phase st j Inside" for j unfolding phase using w by (auto simp: in_phase_def)
  have wait: "waiting_on st' q = waiting_on st q" for q
    unfolding waiting_on_def same phase using w by (auto simp: in_phase_def)
  have "hd_phase (rg_holds st' ! j) \<noteq> Finished \<Longrightarrow> hd_phase (rg_holds st ! j) \<noteq> Finished" for j
    using w by (auto simp: st' holds_set_phase in_phase_def split: if_splits)
  then show ?thesis using inv unfolding lane_inv_def same inside wait by blast
qed

lemma map_of_delete_other: "k \<noteq> k' \<Longrightarrow> map_of (AList.delete k' al) k = map_of al k"
  by (simp add: delete_conv')

lemma distinct_delete: "distinct (map f al) \<Longrightarrow> distinct (map f (AList.delete k al))"
  by (simp add: AList.delete_eq distinct_map_filter)

lemma leave_inv:
  assumes inv: "lane_inv st" and run: "hold_leave st i = Some st'"
  shows "lane_inv st'"
proof -
  define l where "l = (lane_of st i)\<lparr>la_active := False\<rparr>"
  define drop_key where "drop_key \<longleftrightarrow> la_waiters (lane_of st i) = []"
  define st1 where "st1 = set_phase i Finished (set_lane i l st)"
  have w: "in_phase st i Inside"
    and st': "st' = (if drop_key then st1\<lparr>rg_dict := AList.delete (hd_key (rg_holds st ! i)) (rg_dict st1)\<rparr> else st1)"
    using run by (auto simp: hold_leave_def l_def drop_key_def st1_def Let_def split: if_splits)
  have i: "i < length (rg_holds st)" using w by (simp add: in_phase_def)
  let ?r = "hd_lane (rg_holds st ! i)" and ?k = "hd_key (rg_holds st ! i)"
  have r: "?r < length (rg_lanes st)" by (rule lane_invD(4) [OF inv i])
  have key: "map_of (rg_dict st) ?k = Some ?r" using lane_invD(5) [OF inv i] w by (simp add: in_phase_def)
  have dict: "rg_dict st' = (if drop_key then AList.delete ?k (rg_dict st) else rg_dict st)" by (simp add: st' st1_def)
  have lanes: "rg_lanes st' ! q = (if q = ?r then l else rg_lanes st ! q)" if "q < length (rg_lanes st)" for q
    using that r by (simp add: st' st1_def set_lane_def nth_list_update)
  have same: "length (rg_holds st') = length (rg_holds st)" "length (rg_lanes st') = length (rg_lanes st)"
    "\<And>j. hd_lane (rg_holds st' ! j) = hd_lane (rg_holds st ! j)" "\<And>j. hd_key (rg_holds st' ! j) = hd_key (rg_holds st ! j)"
    "\<And>j. hold_token st' j = hold_token st j"
    by (simp_all add: st' st1_def)
  have phase: "in_phase st' j p \<longleftrightarrow> (if i = j then p = Finished else in_phase st j p)" for j p
    using i by (auto simp: st' st1_def in_phase_set_phase)
  have wait: "waiting_on st' q = waiting_on st q" for q
  proof -
    have "in_phase st' j p \<longleftrightarrow> in_phase st j p" if "p \<in> {Waiting, Cancelled}" for j p
      unfolding phase using w that by (auto simp: in_phase_def)
    then show ?thesis unfolding waiting_on_def same by simp
  qed
  have waiters: "distinct (la_waiters (rg_lanes st' ! q)) \<and> set (la_waiters (rg_lanes st' ! q)) = waiting_on st' q" if "q < length (rg_lanes st)" for q
    using lane_invD(6,7) [OF inv that] lanes [OF that] by (auto simp: wait l_def lane_of_def)
  have active: "la_active (rg_lanes st' ! q) \<longleftrightarrow> (\<exists>j. in_phase st' j Inside \<and> hd_lane (rg_holds st' ! j) = q)" if q: "q < length (rg_lanes st)" for q
  proof (cases "q = ?r")
    case True
    then show ?thesis using lanes [OF q] w lane_invD(9) [OF inv, of _ i] unfolding phase same by (auto simp: l_def)
  next
    case False
    then show ?thesis using lane_invD(8) [OF inv q] lanes [OF q] unfolding phase same by auto
  qed
  have uniq: "j = k" if "in_phase st' j Inside" "in_phase st' k Inside" "hd_lane (rg_holds st ! j) = hd_lane (rg_holds st ! k)" for j k
    using that lane_invD(9) [OF inv, of j k] unfolding phase by (auto split: if_splits)
  have ref: "map_of (rg_dict st') (hd_key (rg_holds st ! j)) = Some (hd_lane (rg_holds st ! j))"
    if j: "j < length (rg_holds st)" "hd_phase (rg_holds st' ! j) \<noteq> Finished" for j
  proof -
    have ph: "j \<noteq> i" "hd_phase (rg_holds st ! j) \<noteq> Finished"
      using j i by (auto simp: st' st1_def holds_set_phase split: if_splits)
    have m: "map_of (rg_dict st) (hd_key (rg_holds st ! j)) = Some (hd_lane (rg_holds st ! j))" by (rule lane_invD(5) [OF inv j(1) ph(2)])
    show ?thesis
    proof (cases "drop_key \<and> hd_key (rg_holds st ! j) = ?k")
      case True
      then have l: "hd_lane (rg_holds st ! j) = ?r" using m key by simp
      have "waiting_on st ?r = {}" using lane_invD(7) [OF inv r] True by (simp add: drop_key_def lane_of_def)
      then have "\<not> in_phase st j Waiting" "\<not> in_phase st j Cancelled" using l in_waiting_on [of st j ?r] by auto
      then have "in_phase st j Inside" using j(1) ph(2) by (cases "hd_phase (rg_holds st ! j)") (simp_all add: in_phase_def)
      then show ?thesis using lane_invD(9) [OF inv, of j i] w l ph(1) by simp
    next
      case False
      then show ?thesis using m by (auto simp: dict map_of_delete_other)
    qed
  qed
  have "set (rg_dict st') \<subseteq> set (rg_dict st)" by (auto simp: dict AList.delete_eq)
  then have "\<forall>(k, q) \<in> set (rg_dict st'). q < length (rg_lanes st)" using inv unfolding lane_inv_def by blast
  moreover have "distinct (map fst (rg_dict st'))" "distinct (map snd (rg_dict st'))"
    using lane_invD(1,2) [OF inv] by (simp_all add: dict distinct_delete)
  ultimately show ?thesis using waiters active uniq ref lane_invD(4) [OF inv] unfolding lane_inv_def same by blast
qed

lemma find_lane_inv:
  assumes inv: "lane_inv st" and run: "find_lane st key = (r, st1)"
  shows "lane_inv st1 \<and> map_of (rg_dict st1) key = Some r \<and> r < length (rg_lanes st1) \<and> rg_holds st1 = rg_holds st"
proof (cases "map_of (rg_dict st) key")
  case (Some q)
  then show ?thesis using inv run lane_invD(3) [OF inv] by (auto simp: find_lane_def)
next
  case None
  let ?n = "length (rg_lanes st)"
  have r: "r = ?n" and st1: "st1 = st\<lparr>rg_dict := rg_dict st @ [(key, ?n)], rg_lanes := rg_lanes st @ [\<lparr>la_active = False, la_waiters = []\<rparr>]\<rparr>"
    using run None by (auto simp: find_lane_def)
  have same: "rg_holds st1 = rg_holds st" "\<And>i p. in_phase st1 i p = in_phase st i p" "\<And>i. hold_token st1 i = hold_token st i"
    "\<And>q. waiting_on st1 q = waiting_on st q"
    by (simp_all add: st1 in_phase_def hold_token_def waiting_on_def)
  have lanes: "rg_lanes st1 ! q = (if q = ?n then \<lparr>la_active = False, la_waiters = []\<rparr> else rg_lanes st ! q)" if "q < Suc ?n" for q
    using that by (simp add: st1 nth_append)
  have used: "hd_lane (rg_holds st ! i) \<noteq> ?n" if "in_phase st i p" for i p
    using lane_invD(4) [OF inv, of i] that by (auto simp: in_phase_def)
  have "waiting_on st ?n = {}" using used by (auto simp: waiting_on_def)
  then have lanes_ok: "distinct (la_waiters (rg_lanes st1 ! q)) \<and> set (la_waiters (rg_lanes st1 ! q)) = waiting_on st q \<and>
        (la_active (rg_lanes st1 ! q) \<longleftrightarrow> (\<exists>i. in_phase st i Inside \<and> hd_lane (rg_holds st ! i) = q))" if "q < Suc ?n" for q
    using lanes [OF that] that used lane_invD(6,7,8) [OF inv, of q] by (auto simp: less_Suc_eq)
  have new: "?n \<notin> snd ` set (rg_dict st)" using dict_in_range [OF inv] by force
  have len: "length (rg_lanes st1) = Suc ?n" by (simp add: st1)
  have "lane_inv st1"
  proof (rule lane_invI, unfold same len)
    show "distinct (map fst (rg_dict st1))" "distinct (map snd (rg_dict st1))"
      using lane_invD(1,2) [OF inv] None new by (simp_all add: st1 map_of_eq_None_iff)
    show "q < Suc ?n" if "(k, q) \<in> set (rg_dict st1)" for k q
      using that dict_in_range [OF inv, of k q] by (auto simp: st1)
    show "hd_lane (rg_holds st ! i) < Suc ?n" if "i < length (rg_holds st)" for i
      using lane_invD(4) [OF inv that] by simp
    show "map_of (rg_dict st1) (hd_key (rg_holds st ! i)) = Some (hd_lane (rg_holds st ! i))"
      if "i < length (rg_holds st)" "hd_phase (rg_holds st ! i) \<noteq> Finished" for i
      using lane_invD(5) [OF inv that] by (simp add: st1)
  qed (use lanes_ok lane_invD(9) [OF inv] in blast)+
  then show ?thesis using None by (simp add: r st1 map_add_def)
qed

lemma register_inv:
  assumes inv: "lane_inv st"
  shows "lane_inv (hold_register st key due)"
proof -
  obtain r st1 where f: "find_lane st key = (r, st1)" by (cases "find_lane st key")
  define st' where "st' = hold_register st key due"
  define n where "n = length (rg_holds st1)"
  have inv1: "lane_inv st1" and key: "map_of (rg_dict st1) key = Some r" and r: "r < length (rg_lanes st1)"
    using find_lane_inv [OF inv f] by simp_all
  have st': "st' = st1\<lparr>rg_lanes := (rg_lanes st1)[r := (rg_lanes st1 ! r)\<lparr>la_waiters := la_waiters (rg_lanes st1 ! r) @ [(due, n)]\<rparr>],
             rg_holds := rg_holds st1 @ [\<lparr>hd_key = key, hd_lane = r, hd_at = due, hd_phase = Waiting\<rparr>]\<rparr>"
    by (simp add: st'_def hold_register_def f Let_def n_def)
  have holds: "rg_holds st' ! i = (if i = n then \<lparr>hd_key = key, hd_lane = r, hd_at = due, hd_phase = Waiting\<rparr> else rg_holds st1 ! i)"
    if "i < Suc n" for i using that by (simp add: st' n_def nth_append)
  have len: "length (rg_holds st') = Suc n" "length (rg_lanes st') = length (rg_lanes st1)" "rg_dict st' = rg_dict st1"
    by (simp_all add: st' n_def)
  have phase: "in_phase st' i p \<longleftrightarrow> (if i = n then p = Waiting else in_phase st1 i p)" for i p
    using holds [of i] by (auto simp: in_phase_def len n_def)
  have lane: "hd_lane (rg_holds st' ! i) = (if i = n then r else hd_lane (rg_holds st1 ! i))" if "in_phase st' i p" for i p
    using holds [of i] that by (simp add: in_phase_def len)
  have lanes: "rg_lanes st' ! q = (if q = r then (rg_lanes st1 ! r)\<lparr>la_waiters := la_waiters (rg_lanes st1 ! r) @ [(due, n)]\<rparr> else rg_lanes st1 ! q)"
    if "q < length (rg_lanes st1)" for q using that by (simp add: st' nth_list_update)
  have token: "hold_token st' i = (if i = n then (due, n) else hold_token st1 i)" if "i < Suc n" for i
    using holds [OF that] by (simp add: hold_token_def)
  have old: "i < n" if "in_phase st1 i p" for i p using that by (simp add: in_phase_def n_def)
  have wait: "waiting_on st' q = waiting_on st1 q \<union> (if q = r then {(due, n)} else {})" for q
  proof (intro set_eqI iffI)
    fix x assume "x \<in> waiting_on st' q"
    then obtain i where i: "x = hold_token st' i" "hd_lane (rg_holds st' ! i) = q" "in_phase st' i Waiting \<or> in_phase st' i Cancelled"
      by (auto simp: waiting_on_def)
    then have "i < Suc n" by (auto simp: in_phase_def len)
    then show "x \<in> waiting_on st1 q \<union> (if q = r then {(due, n)} else {})"
      using i token [of i] lane [of i] phase [of i] in_waiting_on [of st1 i q] by (auto split: if_splits)
  next
    fix x assume "x \<in> waiting_on st1 q \<union> (if q = r then {(due, n)} else {})"
    then consider i where "x = hold_token st1 i" "hd_lane (rg_holds st1 ! i) = q" "in_phase st1 i Waiting \<or> in_phase st1 i Cancelled"
      | "x = (due, n)" "q = r" by (auto simp: waiting_on_def split: if_splits)
    then show "x \<in> waiting_on st' q"
    proof cases
      case 1
      then have "i < n" using old by blast
      then have "x = hold_token st' i" "in_phase st' i Waiting \<or> in_phase st' i Cancelled" using 1 token [of i] phase [of i] by auto
      then show ?thesis using lane [of i] 1(2) \<open>i < n\<close> in_waiting_on [of st' i q] by auto
    next
      case 2
      then have "x = hold_token st' n" "in_phase st' n Waiting" using token [of n] phase [of n] by auto
      then show ?thesis using lane [of n] 2(2) in_waiting_on [of st' n q] by auto
    qed
  qed
  have fresh: "(due, n) \<notin> waiting_on st1 q" for q
    using old by (auto simp: waiting_on_def hold_token_def)
  have "\<forall>q < length (rg_lanes st1). distinct (la_waiters (rg_lanes st' ! q)) \<and> set (la_waiters (rg_lanes st' ! q)) = waiting_on st' q \<and>
        (la_active (rg_lanes st' ! q) \<longleftrightarrow> (\<exists>i. in_phase st' i Inside \<and> hd_lane (rg_holds st' ! i) = q))"
  proof (intro allI impI conjI)
    fix q assume q: "q < length (rg_lanes st1)"
    show "distinct (la_waiters (rg_lanes st' ! q))" "set (la_waiters (rg_lanes st' ! q)) = waiting_on st' q"
      using lanes [OF q] lane_invD(6,7) [OF inv1 q] lane_invD(6,7) [OF inv1 r] wait [of q] fresh [of q] by auto
    have "(\<exists>i. in_phase st' i Inside \<and> hd_lane (rg_holds st' ! i) = q) \<longleftrightarrow> (\<exists>i. in_phase st1 i Inside \<and> hd_lane (rg_holds st1 ! i) = q)"
      using phase lane old by (metis less_irrefl phase.distinct(1))
    then show "la_active (rg_lanes st' ! q) \<longleftrightarrow> (\<exists>i. in_phase st' i Inside \<and> hd_lane (rg_holds st' ! i) = q)"
      using lanes [OF q] lane_invD(8) [OF inv1 q] by auto
  qed
  note lanes_ok = this
  have "lane_inv st'"
  proof (rule lane_invI, unfold len)
    show "distinct (map fst (rg_dict st1))" "distinct (map snd (rg_dict st1))" using lane_invD(1,2) [OF inv1] by simp_all
    show "q < length (rg_lanes st1)" if "(k, q) \<in> set (rg_dict st1)" for k q by (rule dict_in_range [OF inv1 that])
    show "hd_lane (rg_holds st' ! i) < length (rg_lanes st1)" if "i < Suc n" for i
      using holds [OF that] that r lane_invD(4) [OF inv1, of i] by (auto simp: n_def)
    show "map_of (rg_dict st1) (hd_key (rg_holds st' ! i)) = Some (hd_lane (rg_holds st' ! i))"
      if "i < Suc n" "hd_phase (rg_holds st' ! i) \<noteq> Finished" for i
      using holds [OF that(1)] that key lane_invD(5) [OF inv1, of i] by (auto simp: n_def)
    show "i = j" if "in_phase st' i Inside" "in_phase st' j Inside" "hd_lane (rg_holds st' ! i) = hd_lane (rg_holds st' ! j)" for i j
      using that lane [OF that(1)] lane [OF that(2)] lane_invD(9) [OF inv1, of i j] phase by (auto split: if_splits)
  qed (use lanes_ok in blast)
  then show ?thesis by (simp add: st'_def)
qed

lemma lane_reachable_inv: "lane_reachable st \<Longrightarrow> lane_inv st"
proof (induction rule: lane_reachable.induct)
  case start
  then show ?case by (rule empty_lane_inv)
next
  case (step st st')
  from step.hyps(2) step.IH show ?case by (elim lane_stepE) (auto intro: register_inv enter_inv leave_inv cancel_inv)
qed

subsection \<open>Order and exclusion\<close>

lemma same_key_same_lane:
  assumes "lane_inv st" and "i < length (rg_holds st)" "hd_phase (rg_holds st ! i) \<noteq> Finished"
    and "j < length (rg_holds st)" "hd_phase (rg_holds st ! j) \<noteq> Finished" and "hd_key (rg_holds st ! i) = hd_key (rg_holds st ! j)"
  shows "hd_lane (rg_holds st ! i) = hd_lane (rg_holds st ! j)"
  using lane_invD(5) [OF assms(1) assms(2,3)] lane_invD(5) [OF assms(1) assms(4,5)] assms(6) by simp

lemma phase_facts: "in_phase st i p \<Longrightarrow> i < length (rg_holds st) \<and> hd_phase (rg_holds st ! i) = p"
  by (simp add: in_phase_def)

lemma enter_least:
  assumes inv: "lane_inv st" and run: "hold_enter st i = Some st'"
    and j: "in_phase st j Waiting \<or> in_phase st j Cancelled" "hd_key (rg_holds st ! j) = hd_key (rg_holds st ! i)"
  shows "hold_token st i \<le> hold_token st j"
proof -
  have w: "in_phase st i Waiting" "may_enter st i" using run by (auto simp: hold_enter_def split: if_splits)
  have ij: "i < length (rg_holds st)" "hd_phase (rg_holds st ! i) \<noteq> Finished" "j < length (rg_holds st)" "hd_phase (rg_holds st ! j) \<noteq> Finished"
    using w(1) j(1) by (auto dest: phase_facts)
  have l: "hd_lane (rg_holds st ! j) = hd_lane (rg_holds st ! i)" using same_key_same_lane [OF inv ij] j(2) by simp
  have "set (la_waiters (lane_of st i)) = waiting_on st (hd_lane (rg_holds st ! i))"
    using lane_invD(7) [OF inv lane_invD(4) [OF inv ij(1)]] by (simp add: lane_of_def)
  then have "hold_token st j \<in> set (la_waiters (lane_of st i))" using in_waiting_on l j(1) by auto
  then show ?thesis using w(2) by (simp add: may_enter_def)
qed

lemma enter_alone:
  assumes inv: "lane_inv st" and run: "hold_enter st i = Some st'" and key: "hd_key (rg_holds st ! j) = hd_key (rg_holds st ! i)"
  shows "\<not> in_phase st j Inside"
proof
  assume j: "in_phase st j Inside"
  have w: "in_phase st i Waiting" "may_enter st i" using run by (auto simp: hold_enter_def split: if_splits)
  have ij: "i < length (rg_holds st)" "hd_phase (rg_holds st ! i) \<noteq> Finished" "j < length (rg_holds st)" "hd_phase (rg_holds st ! j) \<noteq> Finished"
    using w(1) j by (auto dest: phase_facts)
  have "hd_lane (rg_holds st ! j) = hd_lane (rg_holds st ! i)" using same_key_same_lane [OF inv ij] key by simp
  then have "la_active (lane_of st i)" using lane_invD(8) [OF inv lane_invD(4) [OF inv ij(1)]] j unfolding lane_of_def by blast
  then show False using w(2) by (simp add: may_enter_def)
qed

lemma some_may_enter:
  assumes inv: "lane_inv st" and i: "in_phase st i Waiting"
    and free: "\<And>j. hd_key (rg_holds st ! j) = hd_key (rg_holds st ! i) \<Longrightarrow> \<not> in_phase st j Inside \<and> \<not> in_phase st j Cancelled"
    and keys: "\<And>j. j < length (rg_holds st) \<Longrightarrow> hd_phase (rg_holds st ! j) \<noteq> Finished \<Longrightarrow>
      hd_lane (rg_holds st ! j) = hd_lane (rg_holds st ! i) \<Longrightarrow> hd_key (rg_holds st ! j) = hd_key (rg_holds st ! i)"
  shows "\<exists>j. hd_key (rg_holds st ! j) = hd_key (rg_holds st ! i) \<and> hold_enter st j \<noteq> None"
proof -
  let ?r = "hd_lane (rg_holds st ! i)"
  have il: "i < length (rg_holds st)" using i by (simp add: in_phase_def)
  have r: "?r < length (rg_lanes st)" by (rule lane_invD(4) [OF inv il])
  have w: "set (la_waiters (rg_lanes st ! ?r)) = waiting_on st ?r" by (rule lane_invD(7) [OF inv r])
  have "hold_token st i \<in> waiting_on st ?r" using i in_waiting_on by simp
  then have "Min (set (la_waiters (rg_lanes st ! ?r))) \<in> waiting_on st ?r" unfolding w [symmetric] by (intro Min_in) auto
  then obtain j where j: "Min (set (la_waiters (rg_lanes st ! ?r))) = hold_token st j" "hd_lane (rg_holds st ! j) = ?r"
    "in_phase st j Waiting \<or> in_phase st j Cancelled"
    by (auto simp: waiting_on_def)
  have key: "hd_key (rg_holds st ! j) = hd_key (rg_holds st ! i)"
    by (rule keys) (use j(2,3) in \<open>auto dest: phase_facts\<close>)
  then have "in_phase st j Waiting" using j(3) free by blast
  moreover have "\<not> la_active (rg_lanes st ! ?r)"
  proof
    assume "la_active (rg_lanes st ! ?r)"
    then obtain k where k: "in_phase st k Inside" "hd_lane (rg_holds st ! k) = ?r" using lane_invD(8) [OF inv r] by blast
    have "hd_key (rg_holds st ! k) = hd_key (rg_holds st ! i)"
      by (rule keys) (use k in \<open>auto dest: phase_facts\<close>)
    then show False using free k(1) by blast
  qed
  ultimately have "hold_enter st j \<noteq> None" by (simp add: hold_enter_def may_enter_def lane_of_def j)
  then show ?thesis using key by blast
qed

text \<open>Two holds of one lane that are not finished have one key: the dictionary is injective.\<close>

lemma same_lane_same_key:
  assumes "lane_inv st" and "i < length (rg_holds st)" "hd_phase (rg_holds st ! i) \<noteq> Finished"
    and "j < length (rg_holds st)" "hd_phase (rg_holds st ! j) \<noteq> Finished" and "hd_lane (rg_holds st ! j) = hd_lane (rg_holds st ! i)"
  shows "hd_key (rg_holds st ! j) = hd_key (rg_holds st ! i)"
proof -
  have "(hd_key (rg_holds st ! i), hd_lane (rg_holds st ! i)) \<in> set (rg_dict st)"
    "(hd_key (rg_holds st ! j), hd_lane (rg_holds st ! i)) \<in> set (rg_dict st)"
    using lane_invD(5) [OF assms(1) assms(2,3)] lane_invD(5) [OF assms(1) assms(4,5)] assms(6) by (simp_all add: map_of_SomeD)
  moreover have "inj_on snd (set (rg_dict st))" using lane_invD(2) [OF assms(1)] by (simp add: distinct_map)
  ultimately show ?thesis by (metis inj_onD prod.inject snd_conv)
qed

text \<open>A waiter cancelled before its turn leaves its token behind: nobody later ever enters the lane.\<close>

lemma cancelled_waiter_blocks_lane:
  assumes "lane_reachable st" and "in_phase st i Cancelled" and "hd_key (rg_holds st ! j) = hd_key (rg_holds st ! i)"
    and "hold_token st i < hold_token st j"
  shows "hold_enter st j = None"
proof (rule ccontr)
  assume "hold_enter st j \<noteq> None"
  then obtain st' where "hold_enter st j = Some st'" by blast
  from enter_least [OF lane_reachable_inv [OF assms(1)] this] show False using assms(2,3,4) by fastforce
qed

text \<open>C33. Experiment lanes: however the tasks interleave, at most one task of a key is in its lane; a task
  enters only while nobody is inside and only before every task of the key that registered and still
  waits with a later decision time (or the same one and a later registration); and when tasks of a
  key wait, none is inside and none was cancelled while waiting, one of them can enter.\<close>

theorem lanes_are_exclusive_and_ordered:
  assumes "lane_reachable st"
  shows "(\<forall>i j. in_phase st i Inside \<and> in_phase st j Inside \<and> hd_key (rg_holds st ! i) = hd_key (rg_holds st ! j) \<longrightarrow> i = j) \<and>
    (\<forall>i st' j. hold_enter st i = Some st' \<and> hd_key (rg_holds st ! j) = hd_key (rg_holds st ! i) \<longrightarrow>
       \<not> in_phase st j Inside \<and> (in_phase st j Waiting \<longrightarrow> hold_token st i \<le> hold_token st j)) \<and>
    (\<forall>i. in_phase st i Waiting \<and>
       (\<forall>j. hd_key (rg_holds st ! j) = hd_key (rg_holds st ! i) \<longrightarrow> \<not> in_phase st j Inside \<and> \<not> in_phase st j Cancelled) \<longrightarrow>
       (\<exists>j. hd_key (rg_holds st ! j) = hd_key (rg_holds st ! i) \<and> hold_enter st j \<noteq> None))"
proof -
  have inv: "lane_inv st" by (rule lane_reachable_inv [OF assms])
  have "i = j" if "in_phase st i Inside" "in_phase st j Inside" "hd_key (rg_holds st ! i) = hd_key (rg_holds st ! j)" for i j
    by (rule lane_invD(9) [OF inv that(1,2)], rule same_key_same_lane [OF inv _ _ _ _ that(3)])
      (use that in \<open>simp_all add: in_phase_def\<close>)
  moreover have "\<exists>j. hd_key (rg_holds st ! j) = hd_key (rg_holds st ! i) \<and> hold_enter st j \<noteq> None"
    if "in_phase st i Waiting" "\<forall>j. hd_key (rg_holds st ! j) = hd_key (rg_holds st ! i) \<longrightarrow> \<not> in_phase st j Inside \<and> \<not> in_phase st j Cancelled" for i
  proof (rule some_may_enter [OF inv that(1)])
    show "hd_key (rg_holds st ! j) = hd_key (rg_holds st ! i)"
      if "j < length (rg_holds st)" "hd_phase (rg_holds st ! j) \<noteq> Finished" "hd_lane (rg_holds st ! j) = hd_lane (rg_holds st ! i)" for j
      by (rule same_lane_same_key [OF inv _ _ that]) (use \<open>in_phase st i Waiting\<close> in \<open>auto dest: phase_facts\<close>)
  qed (use that(2) in blast)
  ultimately show ?thesis using enter_least [OF inv] enter_alone [OF inv] by blast
qed

definition demo_registry :: registry where
  "demo_registry = hold_register (hold_register empty_registry ''m:p'' 20) ''m:p'' 10"

lemma demo_registry_reachable: "lane_reachable demo_registry"
  unfolding demo_registry_def by (intro lane_reachable.step [OF _ lane_step.register] lane_reachable.start)

theorem lanes_are_exclusive_and_ordered_witness:
  "\<exists>st'. hold_enter demo_registry 1 = Some st' \<and> hold_token demo_registry 1 \<le> hold_token demo_registry 0"
proof -
  have holds: "rg_holds demo_registry = [\<lparr>hd_key = ''m:p'', hd_lane = 0, hd_at = 20, hd_phase = Waiting\<rparr>,
      \<lparr>hd_key = ''m:p'', hd_lane = 0, hd_at = 10, hd_phase = Waiting\<rparr>]"
    and lanes: "rg_lanes demo_registry = [\<lparr>la_active = False, la_waiters = [(20, 0), (10, 1)]\<rparr>]"
    by (simp_all add: demo_registry_def hold_register_def find_lane_def empty_registry_def)
  then have "hold_enter demo_registry 1 \<noteq> None"
    by (simp add: hold_enter_def in_phase_def may_enter_def hold_token_def lane_of_def min_def)
  then obtain st' where st': "hold_enter demo_registry 1 = Some st'" by blast
  then have "in_phase demo_registry 0 Waiting \<longrightarrow> hold_token demo_registry 1 \<le> hold_token demo_registry 0"
    using lanes_are_exclusive_and_ordered [OF demo_registry_reachable] by (simp add: holds)
  then show ?thesis using st' by (simp add: in_phase_def holds)
qed

end
