(* ===== verification/Limiter.thy ===== *)
theory Limiter
  imports Prelude
begin

text \<open>
  The two in-process limiters: \<open>LoginRequestLimiter\<close> of \<open>app/auth/rate_limit.py\<close> and
  \<open>PairingAttemptLimiter\<close> of \<open>app/notifications/pairing_limiter.py\<close>.  Readings of the monotonic
  clock are rational seconds; a \<open>deque\<close> is the list of its entries, oldest first.
\<close>

record rate_limit_decision =
  rl_allowed :: bool
  rl_retry_after :: int

record limiter_config =
  li_source_max :: int
  li_source_window :: int
  li_global_max :: int
  li_global_window :: int

record limiter =
  li_global :: "rat list"
  li_sources :: "(string \<times> rat list) list"

definition login_limiter :: "limiter_config \<Rightarrow> string + limiter" where
  "login_limiter c =
     (if li_source_max c < 1 \<or> li_global_max c < 1 then Inl ''login rate-limit request counts must be positive''
      else if li_source_window c < 1 \<or> li_global_window c < 1 then Inl ''login rate-limit windows must be positive''
      else Inr \<lparr>li_global = [], li_sources = []\<rparr>)"

definition prune :: "rat \<Rightarrow> rat list \<Rightarrow> rat list" where
  "prune cutoff attempts = dropWhile (\<lambda>t. t \<le> cutoff) attempts"

definition prune_sources :: "rat \<Rightarrow> (string \<times> rat list) list \<Rightarrow> (string \<times> rat list) list" where
  "prune_sources cutoff sources =
     filter (\<lambda>e. snd e \<noteq> []) (map (\<lambda>(s, ts). (s, prune cutoff ts)) sources)"

text \<open>\<open>int(x)\<close> of a float truncates towards zero.\<close>

definition py_int :: "rat \<Rightarrow> int" where
  "py_int x = (if 0 \<le> x then \<lfloor>x\<rfloor> else \<lceil>x\<rceil>)"

definition retry_after :: "rat list \<Rightarrow> rat \<Rightarrow> int \<Rightarrow> int \<Rightarrow> int" where
  "retry_after attempts now max_requests window =
     (if int (length attempts) < max_requests then 0
      else max 1 (py_int (of_int window - (now - hd attempts) + 999 / 1000)))"

definition attempts_of :: "(string \<times> rat list) list \<Rightarrow> string \<Rightarrow> rat list" where
  "attempts_of sources s = (case map_of sources s of None \<Rightarrow> [] | Some ts \<Rightarrow> ts)"

definition normalized_source :: "string option \<Rightarrow> string option" where
  "normalized_source source = (case source of None \<Rightarrow> None | Some s \<Rightarrow> if strip s = [] then None else Some (strip s))"

definition check :: "limiter_config \<Rightarrow> limiter \<Rightarrow> rat \<Rightarrow> string option \<Rightarrow> rate_limit_decision \<times> limiter" where
  "check c l now source =
     (let g = prune (now - of_int (li_global_window c)) (li_global l);
          srcs = prune_sources (now - of_int (li_source_window c)) (li_sources l);
          global_retry = retry_after g now (li_global_max c) (li_global_window c)
      in if global_retry \<noteq> 0 then (\<lparr>rl_allowed = False, rl_retry_after = global_retry\<rparr>, \<lparr>li_global = g, li_sources = srcs\<rparr>)
         else (case normalized_source source of
                 None \<Rightarrow> (\<lparr>rl_allowed = True, rl_retry_after = 0\<rparr>, \<lparr>li_global = g @ [now], li_sources = srcs\<rparr>)
               | Some s \<Rightarrow>
                   (let ts = attempts_of srcs s;
                        source_retry = retry_after ts now (li_source_max c) (li_source_window c)
                    in if source_retry \<noteq> 0
                       then (\<lparr>rl_allowed = False, rl_retry_after = source_retry\<rparr>,
                             \<lparr>li_global = g, li_sources = AList.update s ts srcs\<rparr>)
                       else (\<lparr>rl_allowed = True, rl_retry_after = 0\<rparr>,
                             \<lparr>li_global = g @ [now], li_sources = AList.update s (ts @ [now]) srcs\<rparr>))))"

subsection \<open>Pairing attempts\<close>

definition pairing_limiter :: "int \<Rightarrow> rat \<Rightarrow> string + (string \<times> rat list) list" where
  "pairing_limiter max_attempts window =
     (if max_attempts \<le> 0 \<or> window \<le> 0 then Inl ''pairing limiter values must be positive'' else Inr [])"

definition allow :: "int \<Rightarrow> rat \<Rightarrow> (string \<times> rat list) list \<Rightarrow> rat \<Rightarrow> string \<Rightarrow> bool \<times> (string \<times> rat list) list" where
  "allow max_attempts window l now key =
     (let ts = prune (now - window) (attempts_of l key)
      in if max_attempts \<le> int (length ts) then (False, AList.update key ts l)
         else (let l' = AList.update key (ts @ [now]) l
               in (True, if 2048 < length l' then prune_sources (now - window) l' else l')))"

subsection \<open>A sliding window\<close>

text \<open>The deque against the log of all attempts it accepted: it is the log after some cutoff that lies at
  least a window back.\<close>

definition tracks :: "rat \<Rightarrow> rat \<Rightarrow> rat list \<Rightarrow> rat list \<Rightarrow> bool" where
  "tracks window now ts hist \<longleftrightarrow>
     sorted hist \<and> (\<forall>x \<in> set hist. x \<le> now) \<and> (\<exists>cut \<le> now - window. ts = filter (\<lambda>x. cut < x) hist)"

definition windowed :: "rat \<Rightarrow> int \<Rightarrow> rat list \<Rightarrow> bool" where
  "windowed window limit hist \<longleftrightarrow> (\<forall>t. int (length (filter (\<lambda>x. t - window < x \<and> x \<le> t) hist)) \<le> limit)"

lemma dropWhile_le_sorted: "sorted xs \<Longrightarrow> dropWhile (\<lambda>x. x \<le> (c::rat)) xs = filter (\<lambda>x. c < x) xs"
proof (induction xs)
  case (Cons x xs)
  show ?case
  proof (cases "x \<le> c")
    case False
    then have "\<forall>y \<in> set (x # xs). c < y" using Cons.prems by fastforce
    then have "filter (\<lambda>y. c < y) (x # xs) = x # xs" by (simp only: filter_id_conv)
    then show ?thesis using False by simp
  qed (use Cons in simp)
qed simp

lemma prune_tracks:
  assumes "tracks window now ts hist" and "now \<le> now'"
  shows "prune (now' - window) ts = filter (\<lambda>x. now' - window < x) hist" "tracks window now' (prune (now' - window) ts) hist"
proof -
  obtain cut where cut: "cut \<le> now - window" "ts = filter (\<lambda>x. cut < x) hist" "sorted hist" using assms(1) by (auto simp: tracks_def)
  have "prune (now' - window) ts = filter (\<lambda>x. now' - window < x) ts"
    unfolding prune_def by (rule dropWhile_le_sorted) (simp add: cut sorted_wrt_filter)
  also have "\<dots> = filter (\<lambda>x. now' - window < x) hist" unfolding cut(2) filter_filter
    by (rule filter_cong) (use cut(1) assms(2) in auto)
  finally show "prune (now' - window) ts = filter (\<lambda>x. now' - window < x) hist" .
  moreover have "\<forall>x \<in> set hist. x \<le> now'" using assms by (auto simp: tracks_def)
  ultimately show "tracks window now' (prune (now' - window) ts) hist" unfolding tracks_def using cut(3) by blast
qed

lemma tracks_mono: "tracks window now ts hist \<Longrightarrow> now \<le> now' \<Longrightarrow> tracks window now' ts hist"
proof -
  assume t: "tracks window now ts hist" and le: "now \<le> now'"
  then obtain c where "c \<le> now - window" "ts = filter (\<lambda>x. c < x) hist" unfolding tracks_def by blast
  moreover have "c \<le> now' - window" using calculation(1) le by linarith
  moreover have "\<forall>x \<in> set hist. x \<le> now'" using t le by (auto simp: tracks_def)
  ultimately show "tracks window now' ts hist" using t unfolding tracks_def by blast
qed

lemma tracks_empty: "tracks window now [] []"
  by (auto simp: tracks_def)

lemma tracks_append:
  assumes "tracks window now ts hist" and "0 < window"
  shows "tracks window now (ts @ [now]) (hist @ [now])"
proof -
  obtain cut where "cut \<le> now - window" "ts = filter (\<lambda>x. cut < x) hist" using assms(1) by (auto simp: tracks_def)
  then show ?thesis using assms by (auto simp: tracks_def sorted_append intro!: exI [of _ cut])
qed

text \<open>Accepting keeps every window within the limit.\<close>

lemma windowed_append:
  assumes w: "windowed window limit hist" and old: "\<forall>x \<in> set hist. x \<le> now"
    and room: "int (length (filter (\<lambda>x. now - window < x) hist)) < limit"
  shows "windowed window limit (hist @ [now])"
  unfolding windowed_def
proof
  fix t
  show "int (length (filter (\<lambda>x. t - window < x \<and> x \<le> t) (hist @ [now]))) \<le> limit"
  proof (cases "now \<le> t")
    case True
    have "length (filter (\<lambda>x. t - window < x \<and> x \<le> t) hist) \<le> length (filter (\<lambda>x. now - window < x) hist)"
      using True by (induction hist) auto
    then show ?thesis using room by auto
  next
    case False
    then show ?thesis using w by (simp add: windowed_def)
  qed
qed

lemma windowed_Nil: "0 \<le> limit \<Longrightarrow> windowed window limit []"
  by (simp add: windowed_def)

end
