(* ===== verification/Auth.thy ===== *)
theory Auth
  imports Tables Limiter
begin

text \<open>
  Accounts and sessions: \<open>EmailAuthService\<close> of \<open>app/auth/service.py\<close>, the records of
  \<open>app/auth/models.py\<close> and \<open>prune_auth_records\<close> of \<open>app/auth/maintenance.py\<close>.  The keyed digest of
  login codes, the digest of session tokens, the secrets drawn and the outcome of the e-mail delivery
  are arguments.  Addresses are ASCII text, on which NFKC and IDNA encoding are the identity.
\<close>

subsection \<open>Addresses\<close>

definition is_alnum :: "char \<Rightarrow> bool" where
  "is_alnum c = (let n = (of_char c :: nat) in (48 \<le> n \<and> n \<le> 57) \<or> (65 \<le> n \<and> n \<le> 90) \<or> (97 \<le> n \<and> n \<le> 122))"

definition local_char :: "char \<Rightarrow> bool" where
  "local_char c \<longleftrightarrow> is_alnum c \<or> c \<in> set (''.!#$%&*+/=?^_{|}~-'' @ [CHR 0x27, CHR 0x60])"

fun split_on :: "char \<Rightarrow> string \<Rightarrow> string list" where
  "split_on c [] = [[]]"
| "split_on c (x # xs) =
     (if x = c then [] # split_on c xs
      else case split_on c xs of [] \<Rightarrow> [[x]] | w # ws \<Rightarrow> (x # w) # ws)"

definition domain_label :: "string \<Rightarrow> bool" where
  "domain_label w \<longleftrightarrow>
     w \<noteq> [] \<and> length w \<le> 63 \<and> is_alnum (hd w) \<and> is_alnum (last w) \<and> list_all (\<lambda>c. is_alnum c \<or> c = CHR ''-'') w"

definition local_part :: "string \<Rightarrow> bool" where
  "local_part w \<longleftrightarrow>
     w \<noteq> [] \<and> length w \<le> 64 \<and> hd w \<noteq> CHR ''.'' \<and> last w \<noteq> CHR ''.'' \<and> \<not> contains ''..'' w \<and> list_all local_char w"

definition rstrip_char :: "char \<Rightarrow> string \<Rightarrow> string" where
  "rstrip_char c s = rev (dropWhile (\<lambda>x. x = c) (rev s))"

definition normalize_email :: "string \<Rightarrow> string option" where
  "normalize_email raw =
     (let value = strip raw
      in if value = [] \<or> 320 < length value \<or> list_ex (\<lambda>c. py_isspace c \<or> (of_char c :: nat) < 32) value then None
         else if length (filter (\<lambda>c. c = CHR ''@'') value) \<noteq> 1 then None
         else (let local = takeWhile (\<lambda>c. c \<noteq> CHR ''@'') value;
                   domain = lower (rstrip_char CHR ''.'' (tl (dropWhile (\<lambda>c. c \<noteq> CHR ''@'') value)))
               in if \<not> local_part local then None
                  else if domain = [] \<or> 253 < length domain then None
                  else if \<not> list_all domain_label (split_on CHR ''.'' domain) then None
                  else Some (lower local @ ''@'' @ domain)))"

subsection \<open>Data\<close>

record user_account =
  ua_id :: uuid
  ua_email :: "string option"
  ua_email_verified_at :: "time option"
  ua_display_name :: "string option"
  ua_avatar_url :: "string option"
  ua_last_login_at :: time
  ua_disabled_at :: "time option"
  ua_created_at :: time

record external_identity =
  xi_user_id :: uuid
  xi_provider :: string
  xi_subject :: string
  xi_provider_email :: "string option"
  xi_display_name :: "string option"
  xi_avatar_url :: "string option"
  xi_last_login_at :: time
  xi_created_at :: time

record login_challenge =
  lc_id :: uuid
  lc_email :: string
  lc_code_digest :: string
  lc_expires_at :: time
  lc_attempt_count :: int
  lc_max_attempts :: int
  lc_consumed_at :: "time option"
  lc_delivery_status :: string
  lc_delivered_at :: "time option"
  lc_last_error :: "string option"
  lc_created_at :: time

record auth_session =
  au_user_id :: uuid
  au_token_digest :: string
  au_expires_at :: time
  au_revoked_at :: "time option"
  au_last_seen_at :: time
  au_created_at :: time

record auth_db =
  users :: "user_account list"
  identities :: "external_identity list"
  challenges :: "login_challenge list"
  sessions :: "auth_session list"
  next_user_id :: uuid
  next_challenge_id :: uuid

record auth_config =
  ac_code_ttl :: int
  ac_cooldown :: int
  ac_max_attempts :: int
  ac_session_days :: int
  ac_limits :: limiter_config

record verification =
  vr_token :: string
  vr_expires_at :: time
  vr_user :: user_account

datatype auth_error =
  InvalidEmail | InvalidLoginCode string | ExternalAuth string | AuthDelivery string | AuthRateLimit int | IntegrityViolation

type_synonym code_digest = "uuid \<Rightarrow> string \<Rightarrow> string"
type_synonym token_digest = "string \<Rightarrow> string"

subsection \<open>Sessions\<close>

text \<open>A token whose digest is stored already violates the unique constraint.\<close>

definition issue_session ::
  "auth_config \<Rightarrow> token_digest \<Rightarrow> auth_db \<Rightarrow> user_account \<Rightarrow> time \<Rightarrow> string \<Rightarrow> (verification \<times> auth_db) option" where
  "issue_session cfg td db user now token =
     (let expires = now + days (ac_session_days cfg)
      in if \<exists>s \<in> set (sessions db). au_token_digest s = td token then None
         else Some (\<lparr>vr_token = token, vr_expires_at = expires, vr_user = user\<rparr>,
                    db\<lparr>sessions := sessions db @
                         [\<lparr>au_user_id = ua_id user, au_token_digest = td token, au_expires_at = expires, au_revoked_at = None,
                           au_last_seen_at = now, au_created_at = now\<rparr>]\<rparr>))"

definition user_by_id :: "auth_db \<Rightarrow> uuid \<Rightarrow> user_account option" where
  "user_by_id db i = find_row (\<lambda>u. ua_id u = i) (users db)"

definition user_by_email :: "auth_db \<Rightarrow> string \<Rightarrow> user_account option" where
  "user_by_email db email = find_row (\<lambda>u. ua_email u = Some email) (users db)"

definition usable_session :: "token_digest \<Rightarrow> auth_db \<Rightarrow> time \<Rightarrow> string \<Rightarrow> auth_session \<Rightarrow> bool" where
  "usable_session td db now token s \<longleftrightarrow>
     au_token_digest s = td token \<and> au_revoked_at s = None \<and> now < au_expires_at s \<and>
     (case user_by_id db (au_user_id s) of None \<Rightarrow> False | Some u \<Rightarrow> ua_disabled_at u = None)"

definition authenticate :: "token_digest \<Rightarrow> auth_db \<Rightarrow> time \<Rightarrow> string option \<Rightarrow> user_account option \<times> auth_db" where
  "authenticate td db now token =
     (case token of
        None \<Rightarrow> (None, db)
      | Some tok \<Rightarrow>
          if tok = [] then (None, db)
          else (case find_row (usable_session td db now tok) (sessions db) of
                  None \<Rightarrow> (None, db)
                | Some s \<Rightarrow>
                    (user_by_id db (au_user_id s),
                     if 300 \<le> seconds_of (now - au_last_seen_at s)
                     then db\<lparr>sessions := update_first (usable_session td db now tok) (\<lambda>r. r\<lparr>au_last_seen_at := now\<rparr>) (sessions db)\<rparr>
                     else db)))"

definition logout :: "token_digest \<Rightarrow> auth_db \<Rightarrow> time \<Rightarrow> string option \<Rightarrow> auth_db" where
  "logout td db now token =
     (case token of
        None \<Rightarrow> db
      | Some tok \<Rightarrow>
          if tok = [] then db
          else db\<lparr>sessions := update_first (\<lambda>s. au_token_digest s = td tok \<and> au_revoked_at s = None)
                    (\<lambda>s. s\<lparr>au_revoked_at := Some now\<rparr>) (sessions db)\<rparr>)"

subsection \<open>Login codes\<close>

definition login_code :: "int \<Rightarrow> string" where
  "login_code n = zero_pad 6 n"

definition set_challenge :: "uuid \<Rightarrow> (login_challenge \<Rightarrow> login_challenge) \<Rightarrow> auth_db \<Rightarrow> auth_db" where
  "set_challenge i f db = db\<lparr>challenges := update_first (\<lambda>c. lc_id c = i) f (challenges db)\<rparr>"

text \<open>The first transaction of \<open>request_login_code\<close>: the cooldown after the latest code that was not
  refused by the sender, then the previous challenge is retired and a new one is stored.\<close>

definition begin_challenge ::
  "auth_config \<Rightarrow> code_digest \<Rightarrow> auth_db \<Rightarrow> time \<Rightarrow> string \<Rightarrow> string \<Rightarrow> int + (uuid \<times> auth_db)" where
  "begin_challenge cfg cd db now email code =
     (let latest = newest lc_created_at (\<lambda>c. lc_email c = email) (challenges db);
          remaining = (case latest of
              None \<Rightarrow> 0
            | Some c \<Rightarrow>
                if lc_delivery_status c = ''FAILED'' then 0
                else max 0 (py_int (of_int (ac_cooldown cfg) - seconds_of (now - lc_created_at c) + 999 / 1000)));
          i = next_challenge_id db
      in if 0 < remaining then Inl remaining
         else (let db1 = (case latest of
                   Some c \<Rightarrow> if lc_consumed_at c = None then set_challenge (lc_id c) (\<lambda>r. r\<lparr>lc_consumed_at := Some now\<rparr>) db else db
                 | None \<Rightarrow> db)
               in Inr (i, db1\<lparr>challenges := challenges db1 @
                    [\<lparr>lc_id = i, lc_email = email, lc_code_digest = cd i code, lc_expires_at = now + micros (ac_code_ttl cfg),
                      lc_attempt_count = 0, lc_max_attempts = ac_max_attempts cfg, lc_consumed_at = None,
                      lc_delivery_status = ''PENDING'', lc_delivered_at = None, lc_last_error = None, lc_created_at = now\<rparr>],
                    next_challenge_id := Suc i\<rparr>)))"

text \<open>The second transaction: the sender raised, or delivered.\<close>

definition finish_failed :: "auth_db \<Rightarrow> uuid \<Rightarrow> time \<Rightarrow> string \<Rightarrow> auth_db" where
  "finish_failed db i now err =
     set_challenge i (\<lambda>c. c\<lparr>lc_delivery_status := ''FAILED'', lc_last_error := Some err, lc_consumed_at := Some now\<rparr>) db"

definition finish_delivered :: "auth_db \<Rightarrow> uuid \<Rightarrow> time \<Rightarrow> (auth_error + unit) \<times> auth_db" where
  "finish_delivered db i now =
     (case find_row (\<lambda>c. lc_id c = i) (challenges db) of
        None \<Rightarrow> (Inl (AuthDelivery ''login challenge disappeared after delivery''), db)
      | Some _ \<Rightarrow>
          (Inr (), set_challenge i (\<lambda>c. c\<lparr>lc_delivery_status := ''SENT'', lc_delivered_at := Some now, lc_last_error := None\<rparr>) db))"

text \<open>The whole request: \<open>monotonic\<close> and \<open>now\<close> are its clock readings, \<open>later\<close> the one of the second
  transaction, \<open>sent\<close> the error the sender raised.  The answer is whether a code was sent and the
  seconds to wait.\<close>

definition request_login_code ::
  "auth_config \<Rightarrow> code_digest \<Rightarrow> limiter \<Rightarrow> auth_db \<Rightarrow> rat \<Rightarrow> time \<Rightarrow> time \<Rightarrow> string \<Rightarrow> string option \<Rightarrow> string \<Rightarrow> string option \<Rightarrow>
   (auth_error + (bool \<times> int)) \<times> limiter \<times> auth_db" where
  "request_login_code cfg cd limits db monotonic now later raw_email source code sent =
     (case normalize_email raw_email of
        None \<Rightarrow> (Inl InvalidEmail, limits, db)
      | Some email \<Rightarrow>
          (let (d, limits') = check (ac_limits cfg) limits monotonic source
           in if \<not> rl_allowed d then (Inl (AuthRateLimit (max 1 (rl_retry_after d))), limits', db)
              else (case begin_challenge cfg cd db now email code of
                      Inl remaining \<Rightarrow> (Inr (False, remaining), limits', db)
                    | Inr (i, db1) \<Rightarrow>
                        (case sent of
                           Some err \<Rightarrow> (Inl (AuthDelivery ''failed to send login email''), limits', finish_failed db1 i later err)
                         | None \<Rightarrow>
                             (case finish_delivered db1 i later of
                                (Inl e, db2) \<Rightarrow> (Inl e, limits', db2)
                              | (Inr _, db2) \<Rightarrow> (Inr (True, ac_cooldown cfg), limits', db2))))))"

definition open_challenge :: "auth_db \<Rightarrow> string \<Rightarrow> login_challenge option" where
  "open_challenge db email =
     newest lc_created_at (\<lambda>c. lc_email c = email \<and> lc_delivery_status c = ''SENT'' \<and> lc_consumed_at c = None) (challenges db)"

definition new_user :: "uuid \<Rightarrow> string option \<Rightarrow> time option \<Rightarrow> string option \<Rightarrow> string option \<Rightarrow> time \<Rightarrow> user_account" where
  "new_user i email verified name avatar now =
     \<lparr>ua_id = i, ua_email = email, ua_email_verified_at = verified, ua_display_name = name, ua_avatar_url = avatar,
      ua_last_login_at = now, ua_disabled_at = None, ua_created_at = now\<rparr>"

definition add_user :: "user_account \<Rightarrow> auth_db \<Rightarrow> auth_db" where
  "add_user u db = db\<lparr>users := users db @ [u], next_user_id := Suc (next_user_id db)\<rparr>"

definition set_user :: "user_account \<Rightarrow> auth_db \<Rightarrow> auth_db" where
  "set_user u db = db\<lparr>users := update_first (\<lambda>r. ua_id r = ua_id u) (\<lambda>_. u) (users db)\<rparr>"

text \<open>The account a correct code logs in to, created or refreshed.\<close>

definition account_for_code :: "auth_db \<Rightarrow> string \<Rightarrow> time \<Rightarrow> user_account \<times> auth_db" where
  "account_for_code db email now =
     (case user_by_email db email of
        None \<Rightarrow> (let u = new_user (next_user_id db) (Some email) (Some now) None None now in (u, add_user u db))
      | Some u \<Rightarrow> (let u' = u\<lparr>ua_email_verified_at := Some now, ua_last_login_at := now\<rparr> in (u', set_user u' db)))"

definition login_failed :: "(auth_error + verification)" where
  "login_failed = Inl (InvalidLoginCode ''invalid or expired login code'')"

text \<open>The transaction of \<open>verify_login_code\<close>.  A failure is raised after it has committed, so what it
  wrote stays; only a violated constraint rolls it back.\<close>

definition verify_challenge ::
  "auth_config \<Rightarrow> code_digest \<Rightarrow> token_digest \<Rightarrow> auth_db \<Rightarrow> time \<Rightarrow> string \<Rightarrow> string \<Rightarrow> string \<Rightarrow>
   (auth_error + verification) \<times> auth_db" where
  "verify_challenge cfg cd td db now email code token =
     (case open_challenge db email of
        None \<Rightarrow> (login_failed, db)
      | Some c \<Rightarrow>
          if lc_expires_at c \<le> now \<or> lc_max_attempts c \<le> lc_attempt_count c
          then (login_failed, set_challenge (lc_id c) (\<lambda>r. r\<lparr>lc_consumed_at := Some now\<rparr>) db)
          else (let n = lc_attempt_count c + 1
                in if lc_code_digest c \<noteq> cd (lc_id c) code
                   then (login_failed,
                         set_challenge (lc_id c)
                           (\<lambda>r. r\<lparr>lc_attempt_count := n, lc_consumed_at := (if lc_max_attempts c \<le> n then Some now else lc_consumed_at r)\<rparr>) db)
                   else (let db1 = set_challenge (lc_id c) (\<lambda>r. r\<lparr>lc_attempt_count := n, lc_consumed_at := Some now\<rparr>) db
                         in if (case user_by_email db1 email of None \<Rightarrow> False | Some u \<Rightarrow> ua_disabled_at u \<noteq> None)
                            then (Inl (InvalidLoginCode ''account is disabled''), db1)
                            else (let (u, db2) = account_for_code db1 email now
                                  in case issue_session cfg td db2 u now token of
                                       None \<Rightarrow> (Inl IntegrityViolation, db)
                                     | Some (v, db3) \<Rightarrow> (Inr v, db3)))))"

definition verify_login_code ::
  "auth_config \<Rightarrow> code_digest \<Rightarrow> token_digest \<Rightarrow> auth_db \<Rightarrow> time \<Rightarrow> string \<Rightarrow> string \<Rightarrow> string \<Rightarrow>
   (auth_error + verification) \<times> auth_db" where
  "verify_login_code cfg cd td db now raw_email raw_code token =
     (case normalize_email raw_email of
        None \<Rightarrow> (Inl InvalidEmail, db)
      | Some email \<Rightarrow> verify_challenge cfg cd td db now email (strip raw_code) token)"

subsection \<open>External identities\<close>

definition clean_profile_text :: "string option \<Rightarrow> nat \<Rightarrow> string option" where
  "clean_profile_text value max_length =
     (case value of
        None \<Rightarrow> None
      | Some v \<Rightarrow> (let cleaned = take max_length (join '' '' (split_ws v)) in if cleaned = [] then None else Some cleaned))"

definition clean_profile_url :: "string option \<Rightarrow> string option" where
  "clean_profile_url value =
     (case value of
        None \<Rightarrow> None
      | Some v \<Rightarrow> (let cleaned = strip v in if 2048 < length cleaned \<or> \<not> starts_with ''https://'' cleaned then None else Some cleaned))"

definition refresh_profile :: "user_account \<Rightarrow> string option \<Rightarrow> bool \<Rightarrow> string option \<Rightarrow> string option \<Rightarrow> time \<Rightarrow> user_account" where
  "refresh_profile u email email_verified name avatar now =
     u\<lparr>ua_last_login_at := now,
       ua_email := (if email \<noteq> None \<and> email_verified \<and> ua_email u = None then email else ua_email u),
       ua_email_verified_at := (if email \<noteq> None \<and> email_verified \<and> ua_email u = None then Some now else ua_email_verified_at u),
       ua_display_name := (if name \<noteq> None then name else ua_display_name u),
       ua_avatar_url := (if avatar \<noteq> None then avatar else ua_avatar_url u)\<rparr>"

text \<open>\<open>uq_user_accounts_email\<close>\<close>

definition emails_unique :: "auth_db \<Rightarrow> bool" where
  "emails_unique db \<longleftrightarrow> distinct (filter (\<lambda>e. e \<noteq> None) (map ua_email (users db)))"

text \<open>The account logged in to: the one found, with what the provider says of it, or a new one.\<close>

definition external_account ::
  "auth_db \<Rightarrow> user_account option \<Rightarrow> string option \<Rightarrow> bool \<Rightarrow> string option \<Rightarrow> string option \<Rightarrow> time \<Rightarrow> user_account \<times> auth_db" where
  "external_account db user email verified name avatar now =
     (case user of
        None \<Rightarrow> (let u = new_user (next_user_id db) (if verified then email else None)
                          (if email \<noteq> None \<and> verified then Some now else None) name avatar now
                in (u, add_user u db))
      | Some u0 \<Rightarrow> (let u = refresh_profile u0 email verified name avatar now in (u, set_user u db)))"

definition record_identity ::
  "auth_db \<Rightarrow> uuid \<Rightarrow> string \<Rightarrow> string \<Rightarrow> string option \<Rightarrow> string option \<Rightarrow> string option \<Rightarrow> time \<Rightarrow> auth_db" where
  "record_identity db user_id p s email name avatar now =
     db\<lparr>identities :=
       (case find_row (\<lambda>x. xi_provider x = p \<and> xi_subject x = s) (identities db) of
          None \<Rightarrow> identities db @
            [\<lparr>xi_user_id = user_id, xi_provider = p, xi_subject = s, xi_provider_email = email, xi_display_name = name,
              xi_avatar_url = avatar, xi_last_login_at = now, xi_created_at = now\<rparr>]
        | Some _ \<Rightarrow> update_first (\<lambda>x. xi_provider x = p \<and> xi_subject x = s)
            (\<lambda>x. x\<lparr>xi_provider_email := email, xi_display_name := name, xi_avatar_url := avatar, xi_last_login_at := now\<rparr>)
            (identities db))\<rparr>"

definition external_user :: "auth_db \<Rightarrow> string \<Rightarrow> string \<Rightarrow> string option \<Rightarrow> bool \<Rightarrow> user_account option" where
  "external_user db p s email verified =
     (case find_row (\<lambda>x. xi_provider x = p \<and> xi_subject x = s) (identities db) of
        Some x \<Rightarrow> user_by_id db (xi_user_id x)
      | None \<Rightarrow> (case email of None \<Rightarrow> None | Some e \<Rightarrow> if verified then user_by_email db e else None))"

definition provider_email :: "string option \<Rightarrow> bool \<Rightarrow> string option \<times> bool" where
  "provider_email email email_verified =
     (case email of
        None \<Rightarrow> (None, email_verified)
      | Some e \<Rightarrow>
          if e = [] then (None, email_verified)
          else (case normalize_email e of None \<Rightarrow> (None, False) | Some n \<Rightarrow> (Some n, email_verified)))"

definition login_external_identity ::
  "auth_config \<Rightarrow> token_digest \<Rightarrow> auth_db \<Rightarrow> time \<Rightarrow> string \<Rightarrow> string \<Rightarrow> string option \<Rightarrow> bool \<Rightarrow> string option \<Rightarrow> string option \<Rightarrow> string \<Rightarrow>
   (auth_error + verification) \<times> auth_db" where
  "login_external_identity cfg td db now provider subject email email_verified display_name avatar_url token =
     (let p = lower (strip provider); s = strip subject;
          (normalized, verified) = provider_email email email_verified;
          name = clean_profile_text display_name 160; avatar = clean_profile_url avatar_url;
          user = external_user db p s normalized verified
      in if p \<notin> {''google'', ''steam''} \<or> s = [] \<or> 255 < length s then (Inl (ExternalAuth ''invalid external identity''), db)
         else if (case user of None \<Rightarrow> False | Some u \<Rightarrow> ua_disabled_at u \<noteq> None)
         then (Inl (ExternalAuth ''account is disabled''), db)
         else
           (let (u, db1) = external_account db user normalized verified name avatar now;
                db2 = record_identity db1 (ua_id u) p s normalized name avatar now
            in if \<not> emails_unique db2 then (Inl IntegrityViolation, db)
               else (case issue_session cfg td db2 u now token of
                       None \<Rightarrow> (Inl IntegrityViolation, db)
                     | Some (v, db3) \<Rightarrow> (Inr v, db3))))"

subsection \<open>Retention\<close>

definition prune_auth_records :: "auth_db \<Rightarrow> time \<Rightarrow> int \<Rightarrow> int \<Rightarrow> string + (nat \<times> nat \<times> auth_db)" where
  "prune_auth_records db now challenge_days session_days =
     (if challenge_days < 1 \<or> session_days < 1 then Inl ''authentication retention days must be positive''
      else (let ccut = now - days challenge_days; scut = now - days session_days;
                stale_challenge = (\<lambda>c. lc_created_at c \<le> ccut \<and>
                  (lc_expires_at c \<le> ccut \<or> (case lc_consumed_at c of None \<Rightarrow> False | Some t \<Rightarrow> t \<le> ccut)));
                stale_session = (\<lambda>s. au_expires_at s \<le> scut \<or> (case au_revoked_at s of None \<Rightarrow> False | Some t \<Rightarrow> t \<le> scut))
            in Inr (length (filter stale_challenge (challenges db)), length (filter stale_session (sessions db)),
                    db\<lparr>challenges := filter (\<lambda>c. \<not> stale_challenge c) (challenges db),
                       sessions := filter (\<lambda>s. \<not> stale_session s) (sessions db)\<rparr>)))"

end
