(* ===== verification/LimiterProperties.thy ===== *)
theory LimiterProperties
  imports Limiter
begin

text \<open>
  The limiters keep their promise: no window of time, wherever it starts, holds more accepted attempts
  than configured.
\<close>

lemma keys_prune_sources: "distinct (map fst srcs) \<Longrightarrow> distinct (map fst (prune_sources cutoff srcs))"
  by (simp add: prune_sources_def distinct_map_filter comp_def split_beta)

lemma attempts_pruned:
  "distinct (map fst srcs) \<Longrightarrow> attempts_of (prune_sources cutoff srcs) s = prune cutoff (attempts_of srcs s)"
proof (induction srcs)
  case Nil
  then show ?case by (simp add: attempts_of_def prune_sources_def prune_def)
next
  case (Cons e srcs)
  obtain k ts where e: "e = (k, ts)" by (cases e)
  have "k \<notin> fst ` set (prune_sources cutoff srcs)" using Cons.prems by (force simp: e prune_sources_def)
  then have "map_of (prune_sources cutoff srcs) k = None" by (simp add: map_of_eq_None_iff)
  then have none: "attempts_of (prune_sources cutoff srcs) k = []" by (simp add: attempts_of_def)
  have "prune_sources cutoff (e # srcs) =
      (if prune cutoff ts = [] then prune_sources cutoff srcs else (k, prune cutoff ts) # prune_sources cutoff srcs)"
    by (simp add: prune_sources_def e)
  then show ?case using Cons none by (cases "s = k") (auto simp: attempts_of_def e)
qed

lemma attempts_update: "attempts_of (AList.update k ts srcs) s = (if s = k then ts else attempts_of srcs s)"
  by (simp add: attempts_of_def update_conv)

lemma retry_zero: "retry_after ts now limit window = 0 \<longleftrightarrow> int (length ts) < limit"
  by (auto simp: retry_after_def)

subsection \<open>Login requests\<close>

text \<open>The accepted requests of a run, each with its source.\<close>

fun accepted_checks :: "limiter_config \<Rightarrow> limiter \<Rightarrow> (rat \<times> string option) list \<Rightarrow> (rat \<times> string option) list" where
  "accepted_checks c l [] = []"
| "accepted_checks c l ((now, source) # rest) =
     (let (d, l') = check c l now source
      in (if rl_allowed d then [(now, normalized_source source)] else []) @ accepted_checks c l' rest)"

definition times_of :: "string \<Rightarrow> (rat \<times> string option) list \<Rightarrow> rat list" where
  "times_of s accepted = map fst (filter (\<lambda>a. snd a = Some s) accepted)"

lemma times_of_append [simp]: "times_of s (xs @ ys) = times_of s xs @ times_of s ys"
  by (simp add: times_of_def)

definition limiter_inv :: "limiter_config \<Rightarrow> rat \<Rightarrow> limiter \<Rightarrow> (rat \<times> string option) list \<Rightarrow> bool" where
  "limiter_inv c now l accepted \<longleftrightarrow>
     distinct (map fst (li_sources l)) \<and>
     tracks (of_int (li_global_window c)) now (li_global l) (map fst accepted) \<and>
     windowed (of_int (li_global_window c)) (li_global_max c) (map fst accepted) \<and>
     (\<forall>s. tracks (of_int (li_source_window c)) now (attempts_of (li_sources l) s) (times_of s accepted) \<and>
          windowed (of_int (li_source_window c)) (li_source_max c) (times_of s accepted))"

definition config_ok :: "limiter_config \<Rightarrow> bool" where
  "config_ok c \<longleftrightarrow> 1 \<le> li_source_max c \<and> 1 \<le> li_global_max c \<and> 1 \<le> li_source_window c \<and> 1 \<le> li_global_window c"

lemma accept_window:
  assumes "tracks window now ts hist" and "windowed window limit hist" and "now \<le> now'"
    and "int (length (prune (now' - window) ts)) < limit" and "0 < window"
  shows "tracks window now' (prune (now' - window) ts @ [now']) (hist @ [now'])" "windowed window limit (hist @ [now'])"
proof -
  show "tracks window now' (prune (now' - window) ts @ [now']) (hist @ [now'])"
    by (rule tracks_append [OF prune_tracks(2) [OF assms(1,3)] assms(5)])
  show "windowed window limit (hist @ [now'])"
    by (rule windowed_append [OF assms(2)])
      (use assms(1,3,4) prune_tracks(1) [OF assms(1,3)] in \<open>auto simp: tracks_def\<close>)
qed

lemma check_inv:
  assumes inv: "limiter_inv c now l accepted" and le: "now \<le> now'" and ok: "config_ok c" and run: "check c l now' source = (d, l')"
  shows "limiter_inv c now' l' (accepted @ (if rl_allowed d then [(now', normalized_source source)] else [])) \<and>
    (\<not> rl_allowed d \<longrightarrow> 1 \<le> rl_retry_after d)"
proof -
  let ?gw = "of_int (li_global_window c) :: rat" and ?sw = "of_int (li_source_window c) :: rat"
  define g where "g = prune (now' - ?gw) (li_global l)"
  define srcs where "srcs = prune_sources (now' - ?sw) (li_sources l)"
  have d: "distinct (map fst (li_sources l))" and gt: "tracks ?gw now (li_global l) (map fst accepted)"
    and gwin: "windowed ?gw (li_global_max c) (map fst accepted)"
    and st: "\<And>s. tracks ?sw now (attempts_of (li_sources l) s) (times_of s accepted)"
    and swin: "\<And>s. windowed ?sw (li_source_max c) (times_of s accepted)"
    using inv by (simp_all add: limiter_inv_def)
  have pos: "0 < ?gw" "0 < ?sw" using ok by (simp_all add: config_ok_def)
  have att: "attempts_of srcs s = prune (now' - ?sw) (attempts_of (li_sources l) s)" for s
    unfolding srcs_def by (rule attempts_pruned [OF d])
  have ds: "distinct (map fst srcs)" unfolding srcs_def by (rule keys_prune_sources [OF d])
  have gt': "tracks ?gw now' g (map fst accepted)" unfolding g_def by (rule prune_tracks(2) [OF gt le])
  have st': "tracks ?sw now' (attempts_of srcs s) (times_of s accepted)" for s unfolding att by (rule prune_tracks(2) [OF st le])
  have accept_g: "tracks ?gw now' (g @ [now']) (map fst accepted @ [now'])" "windowed ?gw (li_global_max c) (map fst accepted @ [now'])"
    if "retry_after g now' (li_global_max c) (li_global_window c) = 0"
    using accept_window [OF gt gwin le _ pos(1)] that by (simp_all add: retry_zero g_def)
  have accept_s: "tracks ?sw now' (attempts_of srcs s @ [now']) (times_of s accepted @ [now'])" "windowed ?sw (li_source_max c) (times_of s accepted @ [now'])"
    if "retry_after (attempts_of srcs s) now' (li_source_max c) (li_source_window c) = 0" for s
    using accept_window [OF st swin le _ pos(2)] that by (simp_all add: retry_zero att)
  have keep: "limiter_inv c now' \<lparr>li_global = g, li_sources = srcs\<rparr> accepted"
    using ds gt' gwin st' swin by (simp add: limiter_inv_def)
  have nz: "retry_after ts n m w \<noteq> 0 \<Longrightarrow> 1 \<le> retry_after ts n m w" for ts n m w by (auto simp: retry_after_def split: if_splits)
  show ?thesis
  proof (cases "retry_after g now' (li_global_max c) (li_global_window c) = 0")
    case False
    then have "d = \<lparr>rl_allowed = False, rl_retry_after = retry_after g now' (li_global_max c) (li_global_window c)\<rparr>"
      "l' = \<lparr>li_global = g, li_sources = srcs\<rparr>"
      using run by (simp_all add: check_def Let_def g_def srcs_def)
    then show ?thesis using keep nz [OF False] by simp
  next
    case g0: True
    show ?thesis
    proof (cases "normalized_source source")
      case None
      then have "d = \<lparr>rl_allowed = True, rl_retry_after = 0\<rparr>" "l' = \<lparr>li_global = g @ [now'], li_sources = srcs\<rparr>"
        using run g0 by (simp_all add: check_def Let_def g_def srcs_def)
      then show ?thesis using None ds accept_g [OF g0] st' swin by (simp add: limiter_inv_def times_of_def)
    next
      case (Some s)
      show ?thesis
      proof (cases "retry_after (attempts_of srcs s) now' (li_source_max c) (li_source_window c) = 0")
        case False
        then have "d = \<lparr>rl_allowed = False, rl_retry_after = retry_after (attempts_of srcs s) now' (li_source_max c) (li_source_window c)\<rparr>"
          "l' = \<lparr>li_global = g, li_sources = AList.update s (attempts_of srcs s) srcs\<rparr>"
          using run g0 Some by (simp_all add: check_def Let_def g_def srcs_def)
        then show ?thesis using ds gt' gwin st' swin nz [OF False]
          by (simp add: limiter_inv_def attempts_update distinct_update)
      next
        case True
        then have "d = \<lparr>rl_allowed = True, rl_retry_after = 0\<rparr>"
          "l' = \<lparr>li_global = g @ [now'], li_sources = AList.update s (attempts_of srcs s @ [now']) srcs\<rparr>"
          using run g0 Some by (simp_all add: check_def Let_def g_def srcs_def)
        then show ?thesis using Some ds accept_g [OF g0] st' swin accept_s [OF True]
          by (auto simp: limiter_inv_def attempts_update distinct_update times_of_def)
      qed
    qed
  qed
qed

lemma accepted_checks_inv:
  assumes "limiter_inv c now l accepted" and "config_ok c" and "sorted (now # map fst reqs)"
  shows "\<exists>now' l'. limiter_inv c now' l' (accepted @ accepted_checks c l reqs)"
  using assms
proof (induction reqs arbitrary: now l accepted)
  case Nil
  then show ?case by auto
next
  case (Cons r reqs)
  obtain t src where r: "r = (t, src)" by (cases r)
  obtain d l' where run: "check c l t src = (d, l')" by (cases "check c l t src")
  have "limiter_inv c t l' (accepted @ (if rl_allowed d then [(t, normalized_source src)] else []))"
    using check_inv [OF Cons.prems(1) _ Cons.prems(2) run] Cons.prems(3) by (simp add: r)
  from Cons.IH [OF this Cons.prems(2)] Cons.prems(3) show ?case by (simp add: r run)
qed

text \<open>C34. The login limiter bounds the delivery of login codes: from a fresh limiter and requests at
  non-decreasing clock readings, in every half-open window of the configured length, wherever it lies,
  at most the configured number of requests is accepted, over all sources and for every source by
  itself.\<close>

theorem login_requests_are_rate_limited:
  assumes "login_limiter c = Inr l" and "sorted (map fst reqs)"
  shows "windowed (of_int (li_global_window c)) (li_global_max c) (map fst (accepted_checks c l reqs)) \<and>
    (\<forall>s. windowed (of_int (li_source_window c)) (li_source_max c) (times_of s (accepted_checks c l reqs)))"
proof -
  have ok: "config_ok c" and l: "l = \<lparr>li_global = [], li_sources = []\<rparr>"
    using assms(1) by (auto simp: login_limiter_def config_ok_def split: if_splits)
  define t0 where "t0 = (case reqs of [] \<Rightarrow> 0 | r # _ \<Rightarrow> fst r)"
  have "limiter_inv c t0 l []"
    using ok by (simp add: limiter_inv_def l config_ok_def tracks_empty windowed_Nil attempts_of_def times_of_def)
  moreover have "sorted (t0 # map fst reqs)" using assms(2) by (cases reqs) (auto simp: t0_def)
  ultimately obtain now' l' where "limiter_inv c now' l' ([] @ accepted_checks c l reqs)"
    using accepted_checks_inv [OF _ ok] by blast
  then show ?thesis by (simp add: limiter_inv_def)
qed

definition demo_limits :: limiter_config where
  "demo_limits = \<lparr>li_source_max = 1, li_source_window = 60, li_global_max = 2, li_global_window = 60\<rparr>"

theorem login_requests_are_rate_limited_witness:
  "length (filter (\<lambda>x. 59 - 60 < x \<and> x \<le> 59)
     (map fst (accepted_checks demo_limits \<lparr>li_global = [], li_sources = []\<rparr> [(0, Some ''a''), (1, Some ''a''), (2, None), (59, None)]))) \<le> 2"
proof -
  have l: "login_limiter demo_limits = Inr \<lparr>li_global = [], li_sources = []\<rparr>" by (simp add: login_limiter_def demo_limits_def)
  have "windowed 60 2 (map fst (accepted_checks demo_limits \<lparr>li_global = [], li_sources = []\<rparr> [(0, Some ''a''), (1, Some ''a''), (2, None), (59, None)]))"
    using login_requests_are_rate_limited [OF l, of "[(0, Some ''a''), (1, Some ''a''), (2, None), (59, None)]"]
    by (simp add: demo_limits_def del: accepted_checks.simps)
  from this [unfolded windowed_def, THEN spec, of 59] show ?thesis by linarith
qed

subsection \<open>Pairing attempts\<close>

lemma allow_within_limit:
  assumes "tracks window now (attempts_of l key) hist" and "windowed window limit hist" and "now \<le> now'" and "0 < window"
    and "distinct (map fst l)" and "allow limit window l now' key = (True, l')"
  shows "windowed window limit (hist @ [now']) \<and> tracks window now' (attempts_of l' key) (hist @ [now'])"
proof -
  let ?ts = "prune (now' - window) (attempts_of l key)"
  define l1 where "l1 = AList.update key (?ts @ [now']) l"
  have room: "int (length ?ts) < limit" and l': "l' = (if 2048 < length l1 then prune_sources (now' - window) l1 else l1)"
    using assms(6) by (auto simp: allow_def Let_def l1_def split: if_splits)
  note acc = accept_window [OF assms(1,2,3) room assms(4)]
  have a: "attempts_of l1 key = ?ts @ [now']" by (simp add: l1_def attempts_update)
  have "attempts_of (prune_sources (now' - window) l1) key = prune (now' - window) (attempts_of l1 key)"
    by (rule attempts_pruned) (simp add: l1_def distinct_update assms(5))
  then show ?thesis using acc prune_tracks(2) [of window now' "attempts_of l1 key" "hist @ [now']" now'] a by (auto simp: l')
qed

end
