(* ===== verification/AuthProperties.thy ===== *)
theory AuthProperties
  imports Auth LimiterProperties
begin

text \<open>
  Properties of accounts and sessions: a login code can be guessed a bounded number of times and used
  once, whatever else happens; a failed verification changes nothing but its challenge; an issued
  session authenticates exactly its account until it expires or is revoked.
\<close>

subsection \<open>Operations\<close>

text \<open>The transactions the service runs, in any order.\<close>

datatype auth_op =
  Begin time string string
| SendFailed uuid time string
| SendDone uuid time
| Verify time string string string
| External time string string "string option" bool "string option" "string option" string
| Authenticate time "string option"
| Logout time "string option"
| Prune time int int

definition run_op :: "auth_config \<Rightarrow> code_digest \<Rightarrow> token_digest \<Rightarrow> auth_db \<Rightarrow> auth_op \<Rightarrow> auth_db" where
  "run_op cfg cd td db op =
     (case op of
        Begin now email code \<Rightarrow> (case begin_challenge cfg cd db now email code of Inl r \<Rightarrow> db | Inr (i, db') \<Rightarrow> db')
      | SendFailed i now err \<Rightarrow> finish_failed db i now err
      | SendDone i now \<Rightarrow> snd (finish_delivered db i now)
      | Verify now email code token \<Rightarrow> snd (verify_challenge cfg cd td db now email code token)
      | External now p s e v n a token \<Rightarrow> snd (login_external_identity cfg td db now p s e v n a token)
      | Authenticate now token \<Rightarrow> snd (authenticate td db now token)
      | Logout now token \<Rightarrow> logout td db now token
      | Prune now c s \<Rightarrow> (case prune_auth_records db now c s of Inl e \<Rightarrow> db | Inr (m, n, db') \<Rightarrow> db'))"

text \<open>The challenge whose code a verification compares, and the one it logs in with.  (A transaction rolled
  back because the drawn session token exists already has compared nothing.)\<close>

definition compares :: "auth_config \<Rightarrow> code_digest \<Rightarrow> token_digest \<Rightarrow> uuid \<Rightarrow> auth_db \<Rightarrow> auth_op \<Rightarrow> bool" where
  "compares cfg cd td i db op \<longleftrightarrow>
     (case op of
        Verify now email code token \<Rightarrow>
          (case open_challenge db email of
             None \<Rightarrow> False
           | Some c \<Rightarrow> lc_id c = i \<and> now < lc_expires_at c \<and> lc_attempt_count c < lc_max_attempts c \<and>
               fst (verify_challenge cfg cd td db now email code token) \<noteq> Inl IntegrityViolation)
      | _ \<Rightarrow> False)"

definition logs_in :: "auth_config \<Rightarrow> code_digest \<Rightarrow> token_digest \<Rightarrow> uuid \<Rightarrow> auth_db \<Rightarrow> auth_op \<Rightarrow> bool" where
  "logs_in cfg cd td i db op \<longleftrightarrow>
     (case op of
        Verify now email code token \<Rightarrow>
          compares cfg cd td i db op \<and> (\<exists>v. fst (verify_challenge cfg cd td db now email code token) = Inr v)
      | _ \<Rightarrow> False)"

fun count_steps :: "('s \<Rightarrow> 'a \<Rightarrow> 's) \<Rightarrow> ('s \<Rightarrow> 'a \<Rightarrow> bool) \<Rightarrow> 's \<Rightarrow> 'a list \<Rightarrow> nat" where
  "count_steps step P s [] = 0"
| "count_steps step P s (a # as) = (if P s a then 1 else 0) + count_steps step P (step s a) as"

text \<open>A potential that no step raises and every counted step lowers bounds the counted steps.\<close>

lemma count_steps_bound:
  assumes "\<And>s a. I s \<Longrightarrow> I (step s a)" and "\<And>s a. I s \<Longrightarrow> (if P s a then 1 else 0) + m (step s a) \<le> (m s :: nat)"
  shows "I s \<Longrightarrow> count_steps step P s as \<le> m s"
proof (induction as arbitrary: s)
  case (Cons a as)
  have "count_steps step P (step s a) as \<le> m (step s a)" by (rule Cons.IH [OF assms(1) [OF Cons.prems]])
  then show ?case using assms(2) [OF Cons.prems, of a] by simp
qed simp

subsection \<open>Challenges\<close>

definition challenge_ids_ok :: "auth_db \<Rightarrow> bool" where
  "challenge_ids_ok db \<longleftrightarrow> distinct (map lc_id (challenges db)) \<and> (\<forall>c \<in> set (challenges db). lc_id c < next_challenge_id db)"

definition the_challenge :: "auth_db \<Rightarrow> uuid \<Rightarrow> login_challenge option" where
  "the_challenge db i = find_row (\<lambda>c. lc_id c = i) (challenges db)"

text \<open>What is left of a challenge: its guesses, and its one use.\<close>

definition guesses_left :: "uuid \<Rightarrow> auth_db \<Rightarrow> nat" where
  "guesses_left i db =
     (case the_challenge db i of
        None \<Rightarrow> 0
      | Some c \<Rightarrow> if lc_consumed_at c = None then nat (lc_max_attempts c - lc_attempt_count c) else 0)"

definition uses_left :: "uuid \<Rightarrow> auth_db \<Rightarrow> nat" where
  "uses_left i db = (case the_challenge db i of None \<Rightarrow> 0 | Some c \<Rightarrow> if lc_consumed_at c = None then 1 else 0)"

text \<open>A step of a challenge: it is kept, changed, or deleted; it is never reopened and never regains a guess.\<close>

definition spends :: "login_challenge option \<Rightarrow> login_challenge option \<Rightarrow> bool" where
  "spends c c' \<longleftrightarrow>
     (case c' of
        None \<Rightarrow> True
      | Some b \<Rightarrow> (\<exists>a. c = Some a \<and> lc_max_attempts b = lc_max_attempts a \<and> lc_attempt_count a \<le> lc_attempt_count b \<and>
          (lc_consumed_at b = None \<longrightarrow> lc_consumed_at a = None)))"

lemma spends_left:
  assumes "spends (the_challenge db i) (the_challenge db' i)"
  shows "guesses_left i db' \<le> guesses_left i db" "uses_left i db' \<le> uses_left i db"
  using assms by (auto simp: spends_def guesses_left_def uses_left_def nat_mono split: option.splits)

lemma spends_refl [simp]: "spends c c"
  by (auto simp: spends_def split: option.split)

lemma challenges_set_challenge [simp]:
  "challenges (set_challenge i f db) = update_first (\<lambda>c. lc_id c = i) f (challenges db)"
  "next_challenge_id (set_challenge i f db) = next_challenge_id db"
  "users (set_challenge i f db) = users db" "sessions (set_challenge i f db) = sessions db"
  "identities (set_challenge i f db) = identities db" "next_user_id (set_challenge i f db) = next_user_id db"
  by (simp_all add: set_challenge_def)

lemma the_set_challenge:
  assumes "\<And>c. lc_id (f c) = lc_id c"
  shows "the_challenge (set_challenge j f db) i = (if i = j then map_option f (the_challenge db i) else the_challenge db i)"
  using assms by (auto simp: the_challenge_def intro: find_update_first find_update_first_other)

lemma ids_set_challenge:
  assumes "\<And>c. lc_id (f c) = lc_id c" and "challenge_ids_ok db"
  shows "challenge_ids_ok (set_challenge j f db)"
proof -
  have ids: "map lc_id (update_first (\<lambda>c. lc_id c = j) f (challenges db)) = map lc_id (challenges db)"
    by (rule map_update_first) (rule assms(1))
  have "lc_id c < next_challenge_id db" if "c \<in> set (update_first (\<lambda>c. lc_id c = j) f (challenges db))" for c
    using in_update_firstD [OF that] assms by (auto simp: challenge_ids_ok_def)
  then show ?thesis using assms(2) ids by (simp add: challenge_ids_ok_def)
qed

text \<open>The operations that do not touch the challenges.\<close>

lemma challenges_issue: "issue_session cfg td db u now token = Some (v, db') \<Longrightarrow>
    challenges db' = challenges db \<and> next_challenge_id db' = next_challenge_id db \<and> users db' = users db"
  by (auto simp: issue_session_def Let_def split: if_splits)

lemma challenges_account: "challenges (snd (account_for_code db email now)) = challenges db \<and>
    next_challenge_id (snd (account_for_code db email now)) = next_challenge_id db"
  by (simp add: account_for_code_def Let_def add_user_def set_user_def split: option.split)

lemma challenges_external_account: "external_account db user e ver n a now = (u, db') \<Longrightarrow>
    challenges db' = challenges db \<and> next_challenge_id db' = next_challenge_id db"
  by (auto simp: external_account_def add_user_def set_user_def Let_def split: option.splits)

lemma challenges_record_identity: "challenges (record_identity db u p s e n a now) = challenges db \<and>
    next_challenge_id (record_identity db u p s e n a now) = next_challenge_id db"
  by (simp add: record_identity_def)

text \<open>The three ways an external login ends.\<close>

lemma external_cases:
  obtains e where "login_external_identity cfg td db now p s em ver n a token = (Inl e, db)"
  | u db1 v db3 where "external_account db (external_user db (lower (strip p)) (strip s) (fst (provider_email em ver)) (snd (provider_email em ver)))
        (fst (provider_email em ver)) (snd (provider_email em ver)) (clean_profile_text n 160) (clean_profile_url a) now = (u, db1)"
      "issue_session cfg td (record_identity db1 (ua_id u) (lower (strip p)) (strip s) (fst (provider_email em ver)) (clean_profile_text n 160)
         (clean_profile_url a) now) u now token = Some (v, db3)"
      "login_external_identity cfg td db now p s em ver n a token = (Inr v, db3)"
proof -
  obtain em' ver' where pe: "provider_email em ver = (em', ver')" by fastforce
  obtain u db1 where ea: "external_account db (external_user db (lower (strip p)) (strip s) em' ver') em' ver'
      (clean_profile_text n 160) (clean_profile_url a) now = (u, db1)" by fastforce
  show ?thesis
  proof (cases "issue_session cfg td (record_identity db1 (ua_id u) (lower (strip p)) (strip s) em' (clean_profile_text n 160)
         (clean_profile_url a) now) u now token")
    case None
    then have "\<exists>e. login_external_identity cfg td db now p s em ver n a token = (Inl e, db)"
      by (simp add: login_external_identity_def pe ea Let_def)
    then show ?thesis using that(1) by blast
  next
    case (Some vd)
    obtain v db3 where vd: "vd = (v, db3)" by (cases vd)
    have "(\<exists>e. login_external_identity cfg td db now p s em ver n a token = (Inl e, db)) \<or>
        login_external_identity cfg td db now p s em ver n a token = (Inr v, db3)"
      using Some by (simp add: login_external_identity_def pe ea Let_def vd)
    then show ?thesis using that(1) that(2) [of u db1 v db3] pe ea Some vd by auto
  qed
qed

lemma challenges_external: "challenges (snd (login_external_identity cfg td db now p s e ver n a token)) = challenges db \<and>
    next_challenge_id (snd (login_external_identity cfg td db now p s e ver n a token)) = next_challenge_id db"
proof (rule external_cases [of cfg td db now p s e ver n a token])
  fix u db1 v db3
  assume a: "external_account db (external_user db (lower (strip p)) (strip s) (fst (provider_email e ver)) (snd (provider_email e ver)))
        (fst (provider_email e ver)) (snd (provider_email e ver)) (clean_profile_text n 160) (clean_profile_url a) now = (u, db1)"
    "issue_session cfg td (record_identity db1 (ua_id u) (lower (strip p)) (strip s) (fst (provider_email e ver)) (clean_profile_text n 160)
         (clean_profile_url a) now) u now token = Some (v, db3)"
    "login_external_identity cfg td db now p s e ver n a token = (Inr v, db3)"
  show ?thesis using challenges_external_account [OF a(1)] challenges_issue [OF a(2)] by (simp add: a(3) challenges_record_identity)
qed simp

lemma challenges_authenticate: "challenges (snd (authenticate td db now token)) = challenges db \<and>
    next_challenge_id (snd (authenticate td db now token)) = next_challenge_id db"
  by (simp add: authenticate_def split: option.split)

lemma challenges_logout: "challenges (logout td db now token) = challenges db \<and>
    next_challenge_id (logout td db now token) = next_challenge_id db"
  by (simp add: logout_def split: option.split)

text \<open>The ways a verification ends.\<close>

definition retire_guess :: "time \<Rightarrow> login_challenge \<Rightarrow> login_challenge" where
  "retire_guess now c = c\<lparr>lc_consumed_at := Some now\<rparr>"

definition count_guess :: "time \<Rightarrow> login_challenge \<Rightarrow> login_challenge" where
  "count_guess now c =
     c\<lparr>lc_attempt_count := lc_attempt_count c + 1,
       lc_consumed_at := (if lc_max_attempts c \<le> lc_attempt_count c + 1 then Some now else lc_consumed_at c)\<rparr>"

definition consume_guess :: "time \<Rightarrow> login_challenge \<Rightarrow> login_challenge" where
  "consume_guess now c = c\<lparr>lc_attempt_count := lc_attempt_count c + 1, lc_consumed_at := Some now\<rparr>"

definition live :: "time \<Rightarrow> login_challenge \<Rightarrow> bool" where
  "live now c \<longleftrightarrow> now < lc_expires_at c \<and> lc_attempt_count c < lc_max_attempts c"

lemma open_challengeD:
  assumes "open_challenge db email = Some c"
  shows "c \<in> set (challenges db)" "lc_email c = email" "lc_delivery_status c = ''SENT''" "lc_consumed_at c = None"
  using py_max_in [OF assms [unfolded open_challenge_def newest_def]] by simp_all

lemma the_open:
  assumes "challenge_ids_ok db" and "open_challenge db email = Some c"
  shows "the_challenge db (lc_id c) = Some c"
  unfolding the_challenge_def
  by (rule find_row_unique [where key = lc_id]) (use assms open_challengeD [OF assms(2)] in \<open>simp_all add: challenge_ids_ok_def\<close>)

lemma set_challenge_cong:
  assumes "challenge_ids_ok db" and "the_challenge db i = Some c" and "f c = g c"
  shows "set_challenge i f db = set_challenge i g db"
proof -
  have "update_first (\<lambda>r. lc_id r = i) f cs = update_first (\<lambda>r. lc_id r = i) g cs" if "find_row (\<lambda>r. lc_id r = i) cs = Some c" for cs
    using that assms(3) by (induction cs) (auto split: if_splits)
  then show ?thesis using assms(2) by (simp add: set_challenge_def the_challenge_def)
qed

text \<open>The database after an accepted code, before the session: the challenge spent, the account at hand.\<close>

definition accepted_db :: "auth_db \<Rightarrow> time \<Rightarrow> string \<Rightarrow> login_challenge \<Rightarrow> auth_db" where
  "accepted_db db now email c = snd (account_for_code (set_challenge (lc_id c) (consume_guess now) db) email now)"

definition disabled_account :: "auth_db \<Rightarrow> string \<Rightarrow> bool" where
  "disabled_account db email \<longleftrightarrow> (case user_by_email db email of None \<Rightarrow> False | Some u \<Rightarrow> ua_disabled_at u \<noteq> None)"

lemma user_by_email_set_challenge [simp]: "user_by_email (set_challenge i f db) email = user_by_email db email"
  by (simp add: user_by_email_def)

lemma verify_outcome:
  assumes ids: "challenge_ids_ok db"
  shows "verify_challenge cfg cd td db now email code token =
    (case open_challenge db email of
       None \<Rightarrow> (login_failed, db)
     | Some c \<Rightarrow>
         if \<not> live now c then (login_failed, set_challenge (lc_id c) (retire_guess now) db)
         else if lc_code_digest c \<noteq> cd (lc_id c) code then (login_failed, set_challenge (lc_id c) (count_guess now) db)
         else if disabled_account db email
         then (Inl (InvalidLoginCode ''account is disabled''), set_challenge (lc_id c) (consume_guess now) db)
         else (case issue_session cfg td (accepted_db db now email c)
                      (fst (account_for_code (set_challenge (lc_id c) (consume_guess now) db) email now)) now token of
                 None \<Rightarrow> (Inl IntegrityViolation, db)
               | Some (v, db3) \<Rightarrow> (Inr v, db3)))"
proof (cases "open_challenge db email")
  case (Some c)
  have the: "the_challenge db (lc_id c) = Some c" by (rule the_open [OF ids Some])
  have guess: "set_challenge (lc_id c) (\<lambda>r. r\<lparr>lc_attempt_count := lc_attempt_count c + 1,
        lc_consumed_at := (if lc_max_attempts c \<le> lc_attempt_count c + 1 then Some now else lc_consumed_at r)\<rparr>) db =
      set_challenge (lc_id c) (count_guess now) db"
    by (rule set_challenge_cong [OF ids the]) (simp add: count_guess_def)
  have consume: "set_challenge (lc_id c) (\<lambda>r. r\<lparr>lc_attempt_count := lc_attempt_count c + 1, lc_consumed_at := Some now\<rparr>) db =
      set_challenge (lc_id c) (consume_guess now) db"
    by (rule set_challenge_cong [OF ids the]) (simp add: consume_guess_def)
  have "lc_expires_at c \<le> now \<or> lc_max_attempts c \<le> lc_attempt_count c \<longleftrightarrow> \<not> live now c" by (auto simp: live_def)
  then show ?thesis
    by (simp add: verify_challenge_def Some guess consume retire_guess_def [abs_def] Let_def accepted_db_def disabled_account_def split_beta split: option.split)
qed (simp add: verify_challenge_def)

text \<open>What a verification does to the challenges: nothing, or one change of the open challenge.\<close>

lemma verify_challenges:
  assumes ids: "challenge_ids_ok db" and run: "verify_challenge cfg cd td db now email code token = (r, db')"
  obtains "open_challenge db email = None" "db' = db" "\<not> (\<exists>v. r = Inr v)"
  | c where "open_challenge db email = Some c" "r = Inl IntegrityViolation" "db' = db"
  | c f where "open_challenge db email = Some c" "challenges db' = challenges (set_challenge (lc_id c) f db)"
      "next_challenge_id db' = next_challenge_id db" "f \<in> {retire_guess now, count_guess now, consume_guess now}"
      "live now c \<longrightarrow> f \<noteq> retire_guess now" "(\<exists>v. r = Inr v) \<longrightarrow> f = consume_guess now"
proof (cases "open_challenge db email")
  case None
  then have "db' = db" "r = login_failed" using run by (simp_all add: verify_outcome [OF ids])
  then show ?thesis using that(1) None by (simp add: login_failed_def)
next
  case (Some c)
  note out = run [unfolded verify_outcome [OF ids] Some option.case]
  have differ: "count_guess now \<noteq> retire_guess now" "consume_guess now \<noteq> retire_guess now"
  proof -
    have "lc_attempt_count (count_guess now c) \<noteq> lc_attempt_count (retire_guess now c)" by (simp add: count_guess_def retire_guess_def)
    then show "count_guess now \<noteq> retire_guess now" by metis
    have "lc_attempt_count (consume_guess now c) \<noteq> lc_attempt_count (retire_guess now c)" by (simp add: consume_guess_def retire_guess_def)
    then show "consume_guess now \<noteq> retire_guess now" by metis
  qed
  show ?thesis
  proof (cases "live now c")
    case False
    then have "r = login_failed" "db' = set_challenge (lc_id c) (retire_guess now) db" using out by simp_all
    then show ?thesis 
      by (intro that(3) [OF Some, of "retire_guess now"] insertI1) (use False in \<open>simp_all add: login_failed_def\<close>)
  next
    case live: True
    show ?thesis
    proof (cases "lc_code_digest c \<noteq> cd (lc_id c) code")
      case True
      then have "r = login_failed" "db' = set_challenge (lc_id c) (count_guess now) db" using out live by simp_all
      then show ?thesis by (intro that(3) [OF Some, of "count_guess now"]) (use differ in \<open>simp_all add: login_failed_def\<close>)
    next
      case right: False
      show ?thesis
      proof (cases "disabled_account db email")
        case True
        then have "r = Inl (InvalidLoginCode ''account is disabled'')" "db' = set_challenge (lc_id c) (consume_guess now) db"
          using out live right by simp_all
        then show ?thesis by (intro that(3) [OF Some, of "consume_guess now"]) (use differ in simp_all)
      next
        case False
        let ?u = "fst (account_for_code (set_challenge (lc_id c) (consume_guess now) db) email now)"
        show ?thesis
        proof (cases "issue_session cfg td (accepted_db db now email c) ?u now token")
          case None
          then have "r = Inl IntegrityViolation" "db' = db" using out live right False by simp_all
          then show ?thesis by (rule that(2) [OF Some])
        next
          case (Some vd)
          then obtain v db3 where vd: "issue_session cfg td (accepted_db db now email c) ?u now token = Some (v, db3)" by (cases vd) auto
          then have "db' = db3" "r = Inr v" using out live right False by simp_all
          moreover have "challenges db3 = challenges (set_challenge (lc_id c) (consume_guess now) db)" "next_challenge_id db3 = next_challenge_id db"
            using challenges_issue [OF vd] by (simp_all add: accepted_db_def challenges_account)
          ultimately show ?thesis by (intro that(3) [OF \<open>open_challenge db email = Some c\<close>, of "consume_guess now"]) (use differ in simp_all)
        qed
      qed
    qed
  qed
qed

lemma guess_ids: "f \<in> {retire_guess now, count_guess now, consume_guess now} \<Longrightarrow> lc_id (f c) = lc_id c"
  by (auto simp: retire_guess_def count_guess_def consume_guess_def)

lemma guess_spends: "f \<in> {retire_guess now, count_guess now, consume_guess now} \<Longrightarrow> spends (Some c) (Some (f c))"
  by (auto simp: retire_guess_def count_guess_def consume_guess_def spends_def split: if_splits)

lemma the_cong: "challenges db = challenges db' \<Longrightarrow> the_challenge db i = the_challenge db' i"
  by (simp add: the_challenge_def)

lemma ids_cong: "challenges db = challenges db' \<Longrightarrow> next_challenge_id db = next_challenge_id db' \<Longrightarrow> challenge_ids_ok db = challenge_ids_ok db'"
  by (simp add: challenge_ids_ok_def)

lemma unchanged: "challenges db' = challenges db \<and> next_challenge_id db' = next_challenge_id db \<Longrightarrow>
    challenge_ids_ok db' = challenge_ids_ok db \<and> the_challenge db' i = the_challenge db i"
  by (simp add: challenge_ids_ok_def the_challenge_def)

lemma the_filter: "spends (the_challenge db i) (find_row (\<lambda>c. lc_id c = i) (filter P (challenges db)))"
  if "challenge_ids_ok db"
proof -
  have d: "distinct (map lc_id cs) \<Longrightarrow> find_row (\<lambda>c. lc_id c = i) (filter P cs) \<in> {None, find_row (\<lambda>c. lc_id c = i) cs}" for cs
  proof (induction cs)
    case (Cons c cs)
    have gone: "find_row (\<lambda>c. lc_id c = i) (filter P cs) = None" if "lc_id c = i"
    proof -
      have "lc_id r \<noteq> i" if r: "r \<in> set cs" for r
        using imageI [OF r, of lc_id] Cons.prems \<open>lc_id c = i\<close> by auto
      then show ?thesis by (simp add: find_row_None_iff)
    qed
    show ?case using Cons gone by auto
  qed simp
  have "find_row (\<lambda>c. lc_id c = i) (filter P (challenges db)) \<in> {None, the_challenge db i}"
    unfolding the_challenge_def by (rule d) (use that in \<open>simp add: challenge_ids_ok_def\<close>)
  then show ?thesis using spends_refl [of "the_challenge db i"] by (auto simp: spends_def [of _ None])
qed

lemma set_challenge_step:
  assumes "challenge_ids_ok db" and "\<And>c. lc_id (f c) = lc_id c" and "\<And>c. spends (Some c) (Some (f c))"
  shows "challenge_ids_ok (set_challenge j f db) \<and> spends (the_challenge db i) (the_challenge (set_challenge j f db) i)"
  using ids_set_challenge [OF assms(2,1)] the_set_challenge [of f j db i, OF assms(2)] assms(3)
  by (cases "the_challenge db i") auto

text \<open>The old challenges after a new one was begun.\<close>

lemma begin_step:
  assumes ids: "challenge_ids_ok db" and run: "begin_challenge cfg cd db now email code = Inr (j, db')"
  shows "challenge_ids_ok db' \<and> (i < next_challenge_id db \<longrightarrow> spends (the_challenge db i) (the_challenge db' i))"
proof -
  define db1 where "db1 = (case newest lc_created_at (\<lambda>c. lc_email c = email) (challenges db) of
      Some c \<Rightarrow> if lc_consumed_at c = None then set_challenge (lc_id c) (\<lambda>r. r\<lparr>lc_consumed_at := Some now\<rparr>) db else db | None \<Rightarrow> db)"
  have retire: "spends (Some c) (Some (c\<lparr>lc_consumed_at := Some now\<rparr>))" for c by (simp add: spends_def)
  have step: "challenge_ids_ok db1 \<and> spends (the_challenge db i) (the_challenge db1 i)"
    using set_challenge_step [OF ids _ retire] ids by (simp add: db1_def split: option.split)
  have next1: "next_challenge_id db1 = next_challenge_id db" by (auto simp: db1_def split: option.split)
  obtain c where c: "challenges db' = challenges db1 @ [c]" "lc_id c = next_challenge_id db" "next_challenge_id db' = Suc (next_challenge_id db)"
    using run by (auto simp: begin_challenge_def Let_def db1_def split: if_splits option.splits)
  have "the_challenge db' i = the_challenge db1 i" if "i < next_challenge_id db" using that c by (simp add: the_challenge_def split: option.split)
  moreover have "challenge_ids_ok db'"
    using step c next1 by (auto simp: challenge_ids_ok_def less_Suc_eq)
  ultimately show ?thesis using step by simp
qed

text \<open>Every operation keeps the identifiers sound and only spends the challenges that exist.\<close>

lemma op_step:
  assumes ids: "challenge_ids_ok db"
  shows "challenge_ids_ok (run_op cfg cd td db op) \<and>
    (i < next_challenge_id db \<longrightarrow> spends (the_challenge db i) (the_challenge (run_op cfg cd td db op) i))"
proof (cases op)
  case (Begin now email code)
  then show ?thesis using begin_step [OF ids] ids by (auto simp: run_op_def split: sum.split)
next
  case (SendFailed j now err)
  have "spends (Some c) (Some (c\<lparr>lc_delivery_status := s, lc_last_error := e, lc_consumed_at := Some t\<rparr>))" for c s e t
    by (simp add: spends_def)
  then show ?thesis using set_challenge_step [OF ids] by (simp add: SendFailed run_op_def finish_failed_def)
next
  case (SendDone j now)
  have "spends (Some c) (Some (c\<lparr>lc_delivery_status := s, lc_delivered_at := t, lc_last_error := e\<rparr>))" for c s e t
    by (simp add: spends_def)
  then show ?thesis using set_challenge_step [OF ids] ids by (simp add: SendDone run_op_def finish_delivered_def split: option.split)
next
  case (Verify now email code token)
  obtain r db' where run: "verify_challenge cfg cd td db now email code token = (r, db')" by fastforce
  have op: "run_op cfg cd td db op = db'" by (simp add: Verify run_op_def run)
  show ?thesis using ids run
  proof (cases rule: verify_challenges)
    case (3 c f)
    show ?thesis
      using set_challenge_step [OF ids guess_ids [OF 3(4)] guess_spends [OF 3(4)], of "lc_id c" i] 3(3)
        the_cong [OF 3(2), of i] ids_cong [OF 3(2)]
      by (simp add: op del: challenges_set_challenge(1))
  qed (simp_all add: op ids)
next
  case (External now p s e v n a token)
  then show ?thesis
    using unchanged [OF challenges_external [of cfg td db now p s e v n a token], of i] ids by (simp add: run_op_def)
next
  case (Authenticate now token)
  then show ?thesis
    using unchanged [OF challenges_authenticate [of td db now token], of i] ids by (simp add: run_op_def)
next
  case (Logout now token)
  then show ?thesis
    using unchanged [OF challenges_logout [of td db now token], of i] ids by (simp add: run_op_def)
next
  case (Prune now cdays sdays)
  show ?thesis
  proof (cases "prune_auth_records db now cdays sdays")
    case (Inl e)
    then show ?thesis by (simp add: Prune run_op_def ids)
  next
    case (Inr b)
    obtain m n db' where b: "b = (m, n, db')" by (cases b)
    obtain P where P: "challenges db' = filter P (challenges db)" "next_challenge_id db' = next_challenge_id db"
      using Inr by (auto simp: b prune_auth_records_def Let_def split: if_splits)
    have "distinct (map lc_id (filter P (challenges db)))"
      using ids by (simp add: challenge_ids_ok_def distinct_map_filter)
    then show ?thesis using the_filter [OF ids, of i P] P ids Inr
      by (simp add: Prune run_op_def b challenge_ids_ok_def the_challenge_def)
  qed
qed

lemma next_challenge_grows: "next_challenge_id db \<le> next_challenge_id (run_op cfg cd td db op)"
  if ids: "challenge_ids_ok db"
proof (cases op)
  case (Begin now email code)
  then show ?thesis by (auto simp: run_op_def begin_challenge_def Let_def split: option.split)
next
  case (Verify now email code token)
  obtain r db' where run: "verify_challenge cfg cd td db now email code token = (r, db')" by fastforce
  have op: "run_op cfg cd td db op = db'" by (simp add: Verify run_op_def run)
  show ?thesis using ids run by (cases rule: verify_challenges) (simp_all add: op)
next
  case (External now p s e v n a token)
  then show ?thesis using challenges_external [of cfg td db now p s e v n a token] by (simp add: run_op_def)
next
  case (Authenticate now token)
  then show ?thesis using challenges_authenticate [of td db now token] by (simp add: run_op_def)
next
  case (Logout now token)
  then show ?thesis using challenges_logout [of td db now token] by (simp add: run_op_def)
qed (auto simp: run_op_def finish_failed_def finish_delivered_def prune_auth_records_def Let_def split: option.split)

text \<open>A comparison takes a guess, a login the one use.\<close>

lemma compares_spends:
  assumes ids: "challenge_ids_ok db" and cmp: "compares cfg cd td i db op"
  shows "guesses_left i (run_op cfg cd td db op) < guesses_left i db"
    "logs_in cfg cd td i db op \<Longrightarrow> uses_left i (run_op cfg cd td db op) < uses_left i db"
proof -
  obtain now email code token where op: "op = Verify now email code token"
    using cmp by (cases op) (auto simp: compares_def)
  obtain c where c: "open_challenge db email = Some c" "lc_id c = i" "now < lc_expires_at c" "lc_attempt_count c < lc_max_attempts c"
      "fst (verify_challenge cfg cd td db now email code token) \<noteq> Inl IntegrityViolation"
    using cmp by (auto simp: compares_def op split: option.splits)
  have live: "live now c" using c by (simp add: live_def)
  have the: "the_challenge db i = Some c" using the_open [OF ids c(1)] c(2) by simp
  have new: "lc_consumed_at c = None" by (rule open_challengeD [OF c(1)])
  obtain r db' where run: "verify_challenge cfg cd td db now email code token = (r, db')" by fastforce
  have op': "run_op cfg cd td db op = db'" by (simp add: op run_op_def run)
  have "guesses_left i db' < guesses_left i db \<and> (logs_in cfg cd td i db op \<longrightarrow> uses_left i db' < uses_left i db)"
    using ids run
  proof (cases rule: verify_challenges)
    case (3 c' f)
    have c': "c' = c" using 3(1) c(1) by simp
    have f: "f \<in> {count_guess now, consume_guess now}" using 3(4,5) live c' by auto
    have the': "the_challenge db' i = Some (f c)"
      using the_set_challenge [of f i db i, OF guess_ids [OF 3(4)]] the_cong [OF 3(2), of i] the c(2) by (simp add: c')
    have "guesses_left i db' < guesses_left i db"
      using f new c(4) by (auto simp: guesses_left_def the the' count_guess_def consume_guess_def)
    moreover have "uses_left i db' < uses_left i db" if "logs_in cfg cd td i db op"
    proof -
      have "f = consume_guess now" using that 3(6) by (auto simp: logs_in_def op run)
      then show ?thesis using new by (simp add: uses_left_def the the' consume_guess_def)
    qed
    ultimately show ?thesis by blast
  qed (use c run in auto)
  then show "guesses_left i (run_op cfg cd td db op) < guesses_left i db"
    "logs_in cfg cd td i db op \<Longrightarrow> uses_left i (run_op cfg cd td db op) < uses_left i db" by (simp_all add: op')
qed

lemma logs_in_compares: "logs_in cfg cd td i db op \<Longrightarrow> compares cfg cd td i db op"
  by (auto simp: logs_in_def split: auth_op.splits)


lemma challenge_budget:
  assumes "challenge_ids_ok db" and "i < next_challenge_id db"
  shows "count_steps (run_op cfg cd td) (compares cfg cd td i) db ops \<le> guesses_left i db"
    and "count_steps (run_op cfg cd td) (logs_in cfg cd td i) db ops \<le> uses_left i db"
proof -
  define I where "I = (\<lambda>db. challenge_ids_ok db \<and> i < next_challenge_id db)"
  have init: "I db" by (simp add: I_def assms)
  have keep: "I (run_op cfg cd td s a)" if "I s" for s a
    using that op_step [of s cfg cd td a i] next_challenge_grows [of s cfg cd td a] by (simp add: I_def)
  have mono: "guesses_left i (run_op cfg cd td s a) \<le> guesses_left i s" "uses_left i (run_op cfg cd td s a) \<le> uses_left i s" if "I s" for s a
    using that op_step [of s cfg cd td a i] by (auto simp: I_def intro: spends_left)
  show "count_steps (run_op cfg cd td) (compares cfg cd td i) db ops \<le> guesses_left i db"
  proof (rule count_steps_bound [where I = I, OF keep _ init])
    fix s a assume "I s"
    then show "(if compares cfg cd td i s a then 1 else 0) + guesses_left i (run_op cfg cd td s a) \<le> guesses_left i s"
      using mono(1) [of s a] compares_spends(1) [of s cfg cd td i a] by (auto simp: I_def)
  qed
  show "count_steps (run_op cfg cd td) (logs_in cfg cd td i) db ops \<le> uses_left i db"
  proof (rule count_steps_bound [where I = I, OF keep _ init])
    fix s a assume "I s"
    then show "(if logs_in cfg cd td i s a then 1 else 0) + uses_left i (run_op cfg cd td s a) \<le> uses_left i s"
      using mono(2) [of s a] compares_spends(2) [OF _ logs_in_compares, of s cfg cd td i a] by (auto simp: I_def)
  qed
qed

definition empty_auth :: auth_db where
  "empty_auth = \<lparr>users = [], identities = [], challenges = [], sessions = [], next_user_id = 0, next_challenge_id = 0\<rparr>"

lemma reachable_ids: "challenge_ids_ok (foldl (run_op cfg cd td) empty_auth ops)"
proof (induction ops rule: rev_induct)
  case Nil
  then show ?case by (simp add: challenge_ids_ok_def empty_auth_def)
next
  case (snoc op ops)
  let ?db = "foldl (run_op cfg cd td) empty_auth ops"
  show ?case using op_step [OF snoc, of cfg cd td op] by simp
qed

text \<open>C36. Whatever transactions the service runs, in any order and with any codes, after a login code was
  stored: at most \<open>auth_code_max_attempts\<close> submitted codes are ever compared with its digest by a transaction
  that is committed, and at most one of them logs in.  Not counted is a right code whose transaction fails
  because the new session token collides with a stored one: it is rolled back with the count.\<close>

theorem login_codes_are_bounded_and_single_use:
  assumes "begin_challenge cfg cd (foldl (run_op cfg cd td) empty_auth before) now email code = Inr (i, db)"
  shows "count_steps (run_op cfg cd td) (compares cfg cd td i) db ops \<le> nat (ac_max_attempts cfg) \<and>
    count_steps (run_op cfg cd td) (logs_in cfg cd td i) db ops \<le> 1"
proof -
  let ?old = "foldl (run_op cfg cd td) empty_auth before"
  have ids: "challenge_ids_ok db" using begin_step [OF reachable_ids assms] by blast
  have i: "i < next_challenge_id db" "i = next_challenge_id ?old"
    using assms by (auto simp: begin_challenge_def Let_def split: if_splits)
  obtain cs c where c: "challenges db = cs @ [c]" "lc_id c = i" "lc_attempt_count c = 0" "lc_max_attempts c = ac_max_attempts cfg"
    using assms by (auto simp: begin_challenge_def Let_def split: if_splits)
  have the: "the_challenge db i = Some c"
    unfolding the_challenge_def by (rule find_row_unique [where key = lc_id]) (use ids c in \<open>simp_all add: challenge_ids_ok_def\<close>)
  show ?thesis using challenge_budget [OF ids i(1), of cfg cd td ops]
    by (simp add: guesses_left_def uses_left_def the c split: if_splits)
qed

definition demo_auth :: auth_config where
  "demo_auth = \<lparr>ac_code_ttl = 600, ac_cooldown = 60, ac_max_attempts = 5, ac_session_days = 30,
     ac_limits = demo_limits\<rparr>"

lemma login_codes_are_bounded_and_single_use_witness:
  "\<exists>db. begin_challenge demo_auth (\<lambda>i c. c) (foldl (run_op demo_auth (\<lambda>i c. c) (\<lambda>t. t)) empty_auth [Logout 0 None]) 0 ''a@b.co'' ''123456'' = Inr (0, db) \<and>
     count_steps (run_op demo_auth (\<lambda>i c. c) (\<lambda>t. t)) (logs_in demo_auth (\<lambda>i c. c) (\<lambda>t. t) 0) db
       [SendDone 0 1, Verify 2 ''a@b.co'' ''000000'' ''T'', Verify 3 ''a@b.co'' ''123456'' ''T'', Verify 4 ''a@b.co'' ''123456'' ''U''] \<le> 1"
proof -
  obtain db where "begin_challenge demo_auth (\<lambda>i c. c) (foldl (run_op demo_auth (\<lambda>i c. c) (\<lambda>t. t)) empty_auth [Logout 0 None]) 0 ''a@b.co'' ''123456'' = Inr (0, db)"
    by (simp add: begin_challenge_def run_op_def logout_def empty_auth_def newest_def py_max_None [THEN iffD2] Let_def)
  then show ?thesis using login_codes_are_bounded_and_single_use by blast
qed

text \<open>C37. A code verification that fails, whichever way, writes no account, identity or session, and touches no
  challenge but the open one of the address; and it fails unless the address parses and its open challenge is
  unexpired, has guesses left and carries the digest of the stripped code.\<close>

theorem failed_verifications_are_contained:
  assumes "verify_login_code cfg cd td (foldl (run_op cfg cd td) empty_auth ops) now raw_email raw_code token = (r, db')"
  defines "db \<equiv> foldl (run_op cfg cd td) empty_auth ops"
  shows "(\<forall>e. r = Inl e \<longrightarrow> users db' = users db \<and> identities db' = identities db \<and> sessions db' = sessions db) \<and>
    (\<forall>i. the_challenge db' i \<noteq> the_challenge db i \<longrightarrow>
       (\<exists>email c. normalize_email raw_email = Some email \<and> open_challenge db email = Some c \<and> lc_id c = i)) \<and>
    (\<forall>v. r = Inr v \<longrightarrow>
       (\<exists>email c. normalize_email raw_email = Some email \<and> open_challenge db email = Some c \<and> now < lc_expires_at c \<and>
          lc_attempt_count c < lc_max_attempts c \<and> lc_code_digest c = cd (lc_id c) (strip raw_code) \<and> \<not> disabled_account db email))"
proof -
  have ids: "challenge_ids_ok db" unfolding db_def by (rule reachable_ids)
  have run: "verify_login_code cfg cd td db now raw_email raw_code token = (r, db')" using assms(1) by (simp add: db_def)
  show ?thesis
  proof (cases "normalize_email raw_email")
    case None
    then show ?thesis using run by (auto simp: verify_login_code_def)
  next
    case (Some email)
    have v: "verify_challenge cfg cd td db now email (strip raw_code) token = (r, db')" using run Some by (simp add: verify_login_code_def)
    note out = v [unfolded verify_outcome [OF ids]]
    have "users db' = users db \<and> identities db' = identities db \<and> sessions db' = sessions db" if "r = Inl e" for e
      using out that by (auto split: option.splits if_splits)
    moreover have "\<exists>c. open_challenge db email = Some c \<and> lc_id c = i" if "the_challenge db' i \<noteq> the_challenge db i" for i
      using ids v
    proof (cases rule: verify_challenges)
      case (3 c f)
      have "i = lc_id c" using that the_cong [OF 3(2), of i] the_set_challenge [of f "lc_id c" db i, OF guess_ids [OF 3(4)]]
        by (auto split: if_splits)
      then show ?thesis using 3(1) by blast
    qed (use that in auto)
    moreover have "\<exists>c. open_challenge db email = Some c \<and> now < lc_expires_at c \<and>
          lc_attempt_count c < lc_max_attempts c \<and> lc_code_digest c = cd (lc_id c) (strip raw_code) \<and> \<not> disabled_account db email"
      if "r = Inr w" for w
      using out that by (auto simp: login_failed_def live_def split: option.splits if_splits)
    ultimately show ?thesis using Some by auto
  qed
qed

lemma failed_verifications_are_contained_witness:
  "\<exists>db'. verify_login_code demo_auth (\<lambda>i c. c) (\<lambda>t. t) (foldl (run_op demo_auth (\<lambda>i c. c) (\<lambda>t. t)) empty_auth []) 0 ''a@b.co'' ''123456'' ''T'' =
      (login_failed, db') \<and> users db' = users (foldl (run_op demo_auth (\<lambda>i c. c) (\<lambda>t. t)) empty_auth [])"
proof -
  have parsed: "normalize_email ''a@b.co'' = Some ''a@b.co''" by code_simp
  obtain db' where run: "verify_login_code demo_auth (\<lambda>i c. c) (\<lambda>t. t) (foldl (run_op demo_auth (\<lambda>i c. c) (\<lambda>t. t)) empty_auth []) 0 ''a@b.co'' ''123456'' ''T'' =
      (login_failed, db')"
    by (simp add: verify_login_code_def parsed verify_challenge_def open_challenge_def newest_def empty_auth_def py_max_None [THEN iffD2])
  then show ?thesis using failed_verifications_are_contained [OF run] by (auto simp: login_failed_def)
qed

end
