(* ===== verification/SessionProperties.thy ===== *)
theory SessionProperties
  imports AuthProperties
begin

text \<open>
  Sessions of \<open>app/auth/service.py\<close>: an issued session token authenticates its account, and no other,
  until the session expires or is revoked, whatever other transactions the service runs meanwhile.
\<close>

subsection \<open>Accounts\<close>

definition accounts_ok :: "auth_db \<Rightarrow> bool" where
  "accounts_ok db \<longleftrightarrow>
     distinct (map ua_id (users db)) \<and> (\<forall>u \<in> set (users db). ua_id u < next_user_id db) \<and>
     distinct (map au_token_digest (sessions db))"

text \<open>No step removes or disables an account that is enabled.\<close>

definition enabled :: "auth_db \<Rightarrow> uuid \<Rightarrow> bool" where
  "enabled db i \<longleftrightarrow> (case user_by_id db i of None \<Rightarrow> False | Some u \<Rightarrow> ua_disabled_at u = None)"

lemma user_by_id_in:
  assumes "accounts_ok db" and "u \<in> set (users db)"
  shows "user_by_id db (ua_id u) = Some u"
  unfolding user_by_id_def by (rule find_row_unique [where key = ua_id]) (use assms in \<open>simp_all add: accounts_ok_def\<close>)

lemma user_by_id_SomeD: "user_by_id db i = Some u \<Longrightarrow> u \<in> set (users db) \<and> ua_id u = i"
  using find_row_SomeD [of "\<lambda>u. ua_id u = i" "users db" u] by (simp add: user_by_id_def)

lemma user_by_email_SomeD: "user_by_email db e = Some u \<Longrightarrow> u \<in> set (users db) \<and> ua_email u = Some e"
  using find_row_SomeD [of "\<lambda>u. ua_email u = Some e" "users db" u] by (simp add: user_by_email_def)

lemma users_cong:
  assumes "users db' = users db" "next_user_id db' = next_user_id db" "distinct (map au_token_digest (sessions db'))"
  shows "accounts_ok db \<Longrightarrow> accounts_ok db'" "user_by_id db' i = user_by_id db i" "enabled db' i = enabled db i"
  using assms by (simp_all add: accounts_ok_def user_by_id_def enabled_def)

lemma set_user_step:
  assumes ok: "accounts_ok db" and old: "user_by_id db (ua_id u) = Some u0" and "ua_disabled_at u = None"
  shows "accounts_ok (set_user u db)" "enabled db i \<Longrightarrow> enabled (set_user u db) i"
    "user_by_id (set_user u db) (ua_id u) = Some u" "sessions (set_user u db) = sessions db"
proof -
  have ids: "map ua_id (update_first (\<lambda>r. ua_id r = ua_id u) (\<lambda>_. u) (users db)) = map ua_id (users db)"
    by (rule map_update_first) simp
  have sets: "\<forall>r \<in> set (update_first (\<lambda>r. ua_id r = ua_id u) (\<lambda>_. u) (users db)). ua_id r < next_user_id db"
    using ok in_update_firstD by (fastforce simp: accounts_ok_def)
  show "accounts_ok (set_user u db)" using ok ids sets by (simp add: accounts_ok_def set_user_def)
  show same: "user_by_id (set_user u db) (ua_id u) = Some u"
    using old find_update_first [of "\<lambda>r. ua_id r = ua_id u" "\<lambda>_. u" "users db"] by (simp add: user_by_id_def set_user_def)
  have other: "user_by_id (set_user u db) i = user_by_id db i" if "i \<noteq> ua_id u"
    unfolding user_by_id_def set_user_def using that by (auto intro: find_update_first_other)
  show "enabled db i \<Longrightarrow> enabled (set_user u db) i"
    using same other assms(3) by (cases "i = ua_id u") (simp_all add: enabled_def)
  show "sessions (set_user u db) = sessions db" by (simp add: set_user_def)
qed

lemma add_user_step:
  assumes ok: "accounts_ok db" and u: "ua_id u = next_user_id db"
  shows "accounts_ok (add_user u db)" "enabled db i \<Longrightarrow> enabled (add_user u db) i"
    "user_by_id (add_user u db) (ua_id u) = Some u" "sessions (add_user u db) = sessions db"
proof -
  have fresh: "\<forall>r \<in> set (users db). ua_id r \<noteq> next_user_id db" using ok by (auto simp: accounts_ok_def)
  show "accounts_ok (add_user u db)" using ok u fresh by (auto simp: accounts_ok_def add_user_def less_Suc_eq)
  show "enabled db i \<Longrightarrow> enabled (add_user u db) i" by (auto simp: enabled_def user_by_id_def add_user_def split: option.splits)
  have "find_row (\<lambda>r. ua_id r = ua_id u) (users db) = None" using fresh u by (auto simp: find_row_None_iff)
  then show "user_by_id (add_user u db) (ua_id u) = Some u" by (simp add: user_by_id_def add_user_def)
  show "sessions (add_user u db) = sessions db" by (simp add: add_user_def)
qed

lemma account_step:
  assumes ok: "accounts_ok db" and "\<not> disabled_account db email" and run: "account_for_code db email now = (u, db')"
  shows "accounts_ok db' \<and> (enabled db i \<longrightarrow> enabled db' i) \<and> enabled db' (ua_id u) \<and> user_by_id db' (ua_id u) = Some u \<and>
    sessions db' = sessions db"
proof (cases "user_by_email db email")
  case None
  define n where "n = new_user (next_user_id db) (Some email) (Some now) None None now"
  have "u = n" "db' = add_user n db" using run None by (auto simp: account_for_code_def Let_def n_def)
  moreover have "ua_id n = next_user_id db" "ua_disabled_at n = None" by (simp_all add: n_def new_user_def)
  ultimately show ?thesis using add_user_step [OF ok, of n] by (simp add: enabled_def)
next
  case (Some u0)
  define n where "n = u0\<lparr>ua_email_verified_at := Some now, ua_last_login_at := now\<rparr>"
  have "u = n" "db' = set_user n db" using run Some by (auto simp: account_for_code_def Let_def n_def)
  moreover have "ua_disabled_at n = None" using assms(2) Some by (simp add: n_def disabled_account_def)
  moreover have "user_by_id db (ua_id n) = Some u0"
    using user_by_id_in [OF ok, of u0] user_by_email_SomeD [OF Some] by (simp add: n_def)
  ultimately show ?thesis using set_user_step [OF ok, of n u0] by (simp add: enabled_def)
qed

lemma external_account_step:
  assumes ok: "accounts_ok db" and user: "\<And>u0. user = Some u0 \<Longrightarrow> user_by_id db (ua_id u0) = Some u0 \<and> ua_disabled_at u0 = None"
    and run: "external_account db user e ver n a now = (u, db')"
  shows "accounts_ok db' \<and> (enabled db i \<longrightarrow> enabled db' i) \<and> enabled db' (ua_id u) \<and> user_by_id db' (ua_id u) = Some u \<and>
    sessions db' = sessions db"
proof (cases user)
  case None
  define m where "m = new_user (next_user_id db) (if ver then e else None) (if e \<noteq> None \<and> ver then Some now else None) n a now"
  have "u = m" "db' = add_user m db" using run None by (auto simp: external_account_def Let_def m_def)
  moreover have "ua_id m = next_user_id db" "ua_disabled_at m = None" by (simp_all add: m_def new_user_def)
  ultimately show ?thesis using add_user_step [OF ok, of m] by (simp add: enabled_def)
next
  case (Some u0)
  define m where "m = refresh_profile u0 e ver n a now"
  have "u = m" "db' = set_user m db" using run Some by (auto simp: external_account_def Let_def m_def)
  moreover have "ua_disabled_at m = None" "ua_id m = ua_id u0" using user [OF Some] by (simp_all add: m_def refresh_profile_def)
  ultimately show ?thesis using set_user_step [OF ok, of m u0] user [OF Some] by (simp add: enabled_def)
qed

lemma external_user_found:
  assumes "accounts_ok db" and "external_user db p s e ver = Some u"
  shows "user_by_id db (ua_id u) = Some u"
  using assms user_by_id_in [OF assms(1)] user_by_id_SomeD user_by_email_SomeD
  by (fastforce simp: external_user_def split: option.splits if_splits)

subsection \<open>Sessions\<close>

definition session_of :: "token_digest \<Rightarrow> string \<Rightarrow> auth_db \<Rightarrow> auth_session option" where
  "session_of td token db = find_row (\<lambda>s. au_token_digest s = td token) (sessions db)"

definition session_open :: "token_digest \<Rightarrow> string \<Rightarrow> uuid \<Rightarrow> time \<Rightarrow> auth_db \<Rightarrow> bool" where
  "session_open td token i till db \<longleftrightarrow>
     (\<exists>s. session_of td token db = Some s \<and> au_revoked_at s = None \<and> au_expires_at s = till \<and> au_user_id s = i) \<and> enabled db i"

lemma update_first_digests:
  assumes "distinct (map au_token_digest ss)" "\<And>s. au_token_digest (f s) = au_token_digest s"
  shows "distinct (map au_token_digest (update_first P f ss))"
  using assms(1) map_update_first [of P au_token_digest f ss] assms(2) by simp

lemma session_update_first:
  assumes "distinct (map au_token_digest ss)" and "\<And>s. au_token_digest (f s) = au_token_digest s"
    and "find_row (\<lambda>s. au_token_digest s = d) ss = Some s"
  shows "\<exists>s'. find_row (\<lambda>s. au_token_digest s = d) (update_first P f ss) = Some s' \<and> (s' = s \<or> P s \<and> s' = f s)"
  using assms(1,3)
proof (induction ss)
  case (Cons a ss)
  then show ?case using assms(2) by (auto split: if_splits)
qed simp

lemma session_filter:
  assumes "find_row (\<lambda>s. au_token_digest s = d) ss = Some s" and "Q s"
    and "distinct (map au_token_digest ss)"
  shows "find_row (\<lambda>s. au_token_digest s = d) (filter Q ss) = Some s"
  by (rule find_row_unique [where key = au_token_digest])
    (use assms find_row_SomeD [OF assms(1)] in \<open>auto simp: distinct_map_filter\<close>)

lemma issue_step:
  assumes ok: "accounts_ok db" and run: "issue_session cfg td db u now token = Some (v, db')"
  shows "accounts_ok db'" "user_by_id db' i = user_by_id db i" "enabled db' i = enabled db i"
    "session_open td tok i till db \<Longrightarrow> session_open td tok i till db'"
    "enabled db (ua_id u) \<Longrightarrow> session_open td token (ua_id u) (now + days (ac_session_days cfg)) db'"
    "vr_token v = token" "vr_user v = u" "vr_expires_at v = now + days (ac_session_days cfg)"
proof -
  define s where "s = \<lparr>au_user_id = ua_id u, au_token_digest = td token, au_expires_at = now + days (ac_session_days cfg), au_revoked_at = None,
                           au_last_seen_at = now, au_created_at = now\<rparr>"
  have fresh: "\<forall>r \<in> set (sessions db). au_token_digest r \<noteq> td token" and db': "db' = db\<lparr>sessions := sessions db @ [s]\<rparr>"
    and v: "vr_token v = token" "vr_user v = u" "vr_expires_at v = now + days (ac_session_days cfg)"
    using run by (auto simp: issue_session_def Let_def s_def split: if_splits)
  have none: "find_row (\<lambda>r. au_token_digest r = td token) (sessions db) = None" using fresh by (auto simp: find_row_None_iff)
  show "accounts_ok db'" using ok fresh by (auto simp: accounts_ok_def db' s_def)
  show users: "user_by_id db' i = user_by_id db i" for i by (simp add: user_by_id_def db')
  then show en: "enabled db' i = enabled db i" for i by (simp add: enabled_def)
  show "session_open td tok i till db \<Longrightarrow> session_open td tok i till db'"
    by (auto simp: session_open_def session_of_def en) (simp add: db')
  show "enabled db (ua_id u) \<Longrightarrow> session_open td token (ua_id u) (now + days (ac_session_days cfg)) db'"
    by (simp add: session_open_def en) (simp add: session_of_def db' none s_def)
qed (use run in \<open>auto simp: issue_session_def Let_def split: if_splits\<close>)

subsection \<open>Logins\<close>

text \<open>What a login leaves: nothing but challenges changed, or an enabled account with a new session.\<close>

definition same_accounts :: "auth_db \<Rightarrow> auth_db \<Rightarrow> bool" where
  "same_accounts db db' \<longleftrightarrow> users db' = users db \<and> next_user_id db' = next_user_id db \<and> sessions db' = sessions db"

definition logged_in :: "auth_config \<Rightarrow> token_digest \<Rightarrow> auth_db \<Rightarrow> time \<Rightarrow> string \<Rightarrow> verification \<Rightarrow> auth_db \<Rightarrow> bool" where
  "logged_in cfg td db now token v db' \<longleftrightarrow>
     (\<exists>u db1. accounts_ok db1 \<and> (\<forall>i. enabled db i \<longrightarrow> enabled db1 i) \<and> enabled db1 (ua_id u) \<and> user_by_id db1 (ua_id u) = Some u \<and>
        sessions db1 = sessions db \<and> issue_session cfg td db1 u now token = Some (v, db'))"

lemma same_accountsD:
  assumes "same_accounts db db'"
  shows "accounts_ok db \<Longrightarrow> accounts_ok db'" "enabled db i = enabled db' i" "session_open td tok i till db = session_open td tok i till db'"
  using assms by (simp_all add: same_accounts_def accounts_ok_def enabled_def user_by_id_def session_open_def session_of_def)

lemma logged_inD:
  assumes "logged_in cfg td db now token v db'"
  shows "accounts_ok db'" "enabled db i \<Longrightarrow> enabled db' i" "session_open td tok i till db \<Longrightarrow> session_open td tok i till db'"
    "session_open td token (ua_id (vr_user v)) (vr_expires_at v) db'" "vr_token v = token" "vr_expires_at v = now + days (ac_session_days cfg)"
    "user_by_id db' (ua_id (vr_user v)) = Some (vr_user v)"
proof -
  obtain u db1 where d: "accounts_ok db1" "\<forall>i. enabled db i \<longrightarrow> enabled db1 i" "enabled db1 (ua_id u)" "user_by_id db1 (ua_id u) = Some u"
      "sessions db1 = sessions db" "issue_session cfg td db1 u now token = Some (v, db')"
    using assms by (auto simp: logged_in_def)
  note step = issue_step [OF d(1) d(6)]
  show "accounts_ok db'" by (rule step)
  show "enabled db i \<Longrightarrow> enabled db' i" using d(2) step(3) by simp
  have "session_open td tok i till db \<Longrightarrow> session_open td tok i till db1" using d(2,5) by (auto simp: session_open_def session_of_def)
  then show "session_open td tok i till db \<Longrightarrow> session_open td tok i till db'" by (auto intro: step(4))
  show "session_open td token (ua_id (vr_user v)) (vr_expires_at v) db'" using step(5) [OF d(3)] step(7,8) by simp
  show "vr_token v = token" "vr_expires_at v = now + days (ac_session_days cfg)" by (rule step)+
  show "user_by_id db' (ua_id (vr_user v)) = Some (vr_user v)" using step(2) d(4) step(7) by simp
qed

lemma verify_login:
  assumes ids: "challenge_ids_ok db" and ok: "accounts_ok db"
    and run: "verify_challenge cfg cd td db now email code token = (r, db')"
  shows "same_accounts db db' \<and> \<not> (\<exists>v. r = Inr v) \<or> (\<exists>v. r = Inr v \<and> logged_in cfg td db now token v db')"
proof (cases "\<exists>v. r = Inr v")
  case False
  then show ?thesis using run unfolding verify_outcome [OF ids]
    by (auto simp: same_accounts_def split: option.splits if_splits)
next
  case True
  then obtain v where r: "r = Inr v" by blast
  then obtain c where c: "\<not> disabled_account db email" "issue_session cfg td (accepted_db db now email c)
      (fst (account_for_code (set_challenge (lc_id c) (consume_guess now) db) email now)) now token = Some (v, db')"
    using run unfolding verify_outcome [OF ids] by (auto simp: login_failed_def split: option.splits if_splits)
  let ?db0 = "set_challenge (lc_id c) (consume_guess now) db"
  have same: "same_accounts db ?db0" by (simp add: same_accounts_def)
  obtain u db1 where acc: "account_for_code ?db0 email now = (u, db1)" by fastforce
  have "\<not> disabled_account ?db0 email" using c(1) by (simp add: disabled_account_def)
  note step = account_step [OF same_accountsD(1) [OF same ok] this acc]
  have "logged_in cfg td db now token v db'"
    unfolding logged_in_def
    by (rule exI [of _ u], rule exI [of _ db1]) (use step c(2) same_accountsD(2) [OF same] in \<open>simp add: accepted_db_def acc\<close>)
  then show ?thesis using r by blast
qed

lemma external_login:
  assumes ok: "accounts_ok db" and run: "login_external_identity cfg td db now p s em ver n a token = (r, db')"
  shows "same_accounts db db' \<and> \<not> (\<exists>v. r = Inr v) \<or> (\<exists>v. r = Inr v \<and> logged_in cfg td db now token v db')"
proof -
  obtain em' ver' where pe: "provider_email em ver = (em', ver')" by fastforce
  define user where "user = external_user db (lower (strip p)) (strip s) em' ver'"
  obtain u db1 where ea: "external_account db user em' ver' (clean_profile_text n 160) (clean_profile_url a) now = (u, db1)" by fastforce
  define db2 where "db2 = record_identity db1 (ua_id u) (lower (strip p)) (strip s) em' (clean_profile_text n 160) (clean_profile_url a) now"
  note out = run [unfolded login_external_identity_def pe Let_def prod.case, folded user_def, unfolded ea prod.case, folded db2_def]
  show ?thesis
  proof (cases "\<exists>v. r = Inr v")
    case False
    then show ?thesis using out by (auto simp: same_accounts_def split: option.splits if_splits)
  next
    case True
    then obtain v where r: "r = Inr v" by blast
    have issue: "issue_session cfg td db2 u now token = Some (v, db')"
      and on: "\<not> (case user of None \<Rightarrow> False | Some u \<Rightarrow> ua_disabled_at u \<noteq> None)"
      using out r by (auto split: option.splits if_splits)
    have "user_by_id db (ua_id u0) = Some u0 \<and> ua_disabled_at u0 = None" if "user = Some u0" for u0
      using external_user_found [OF ok] that on by (simp add: user_def)
    note step = external_account_step [OF ok this ea]
    have same: "same_accounts db1 db2" by (simp add: same_accounts_def db2_def record_identity_def)
    have "logged_in cfg td db now token v db'"
      unfolding logged_in_def
    proof (intro exI conjI)
      show "accounts_ok db2" using step same_accountsD(1) [OF same] by blast
      show "\<forall>i. enabled db i \<longrightarrow> enabled db2 i" using step same_accountsD(2) [OF same] by blast
      show "enabled db2 (ua_id u)" using step same_accountsD(2) [OF same] by blast
      show "user_by_id db2 (ua_id u) = Some u" using step same by (simp add: same_accounts_def user_by_id_def)
      show "sessions db2 = sessions db" using step same by (simp add: same_accounts_def)
    qed (rule issue)
    then show ?thesis using r by blast
  qed
qed

subsection \<open>Every operation\<close>

fun op_time :: "auth_op \<Rightarrow> time" where
  "op_time (Begin now email code) = now"
| "op_time (SendFailed i now err) = now"
| "op_time (SendDone i now) = now"
| "op_time (Verify now email code token) = now"
| "op_time (External now p s e v n a token) = now"
| "op_time (Authenticate now token) = now"
| "op_time (Logout now token) = now"
| "op_time (Prune now c s) = now"

fun revokes :: "token_digest \<Rightarrow> string \<Rightarrow> auth_op \<Rightarrow> bool" where
  "revokes td token (Logout now (Some tok)) \<longleftrightarrow> tok \<noteq> [] \<and> td tok = td token"
| "revokes td token op \<longleftrightarrow> False"

definition session_kept :: "token_digest \<Rightarrow> string \<Rightarrow> uuid \<Rightarrow> time \<Rightarrow> auth_db \<Rightarrow> auth_db \<Rightarrow> bool" where
  "session_kept td token i till db db' \<longleftrightarrow> accounts_ok db' \<and> (session_open td token i till db \<longrightarrow> session_open td token i till db')"

lemma kept_same: "accounts_ok db \<Longrightarrow> same_accounts db db' \<Longrightarrow> session_kept td token i till db db'"
  using same_accountsD(1,3) [of db db'] by (simp add: session_kept_def)

lemma kept_login: "logged_in cfg td db now tok v db' \<Longrightarrow> session_kept td token i till db db'"
  using logged_inD(1,3) [of cfg td db now tok v db'] by (simp add: session_kept_def)

text \<open>A change of the first session that matches keeps a session it leaves alone.\<close>

lemma kept_update:
  assumes ok: "accounts_ok db" and f: "\<And>s. au_token_digest (f s) = au_token_digest s"
    and keep: "\<And>s. au_token_digest s = td token \<Longrightarrow> P s \<Longrightarrow>
        au_revoked_at (f s) = au_revoked_at s \<and> au_expires_at (f s) = au_expires_at s \<and> au_user_id (f s) = au_user_id s"
  shows "session_kept td token i till db (db\<lparr>sessions := update_first P f (sessions db)\<rparr>)"
proof -
  let ?db = "db\<lparr>sessions := update_first P f (sessions db)\<rparr>"
  have d: "distinct (map au_token_digest (sessions db))" using ok by (simp add: accounts_ok_def)
  have "accounts_ok ?db" using ok update_first_digests [OF d f] by (simp add: accounts_ok_def)
  moreover have "session_open td token i till ?db" if o: "session_open td token i till db"
  proof -
    obtain s where s: "find_row (\<lambda>s. au_token_digest s = td token) (sessions db) = Some s" "au_revoked_at s = None"
        "au_expires_at s = till" "au_user_id s = i" "enabled db i"
      using o by (auto simp: session_open_def session_of_def)
    obtain s' where s': "find_row (\<lambda>s. au_token_digest s = td token) (update_first P f (sessions db)) = Some s'" "s' = s \<or> P s \<and> s' = f s"
      using session_update_first [OF d f s(1)] by blast
    have "au_token_digest s = td token" using find_row_SomeD [OF s(1)] by simp
    then have "au_revoked_at s' = None \<and> au_expires_at s' = till \<and> au_user_id s' = i" using s' s keep [of s] by auto
    moreover have "enabled ?db i" using s(5) by (simp add: enabled_def user_by_id_def)
    ultimately show ?thesis using s'(1) by (simp add: session_open_def session_of_def)
  qed
  ultimately show ?thesis by (simp add: session_kept_def)
qed

lemma op_keeps_session:
  assumes ids: "challenge_ids_ok db" and ok: "accounts_ok db"
    and early: "op_time op < till" and "\<not> revokes td token op"
  shows "session_kept td token i till db (run_op cfg cd td db op)"
proof (cases op)
  case (Begin now email code)
  have step: "same_accounts db db'" if "begin_challenge cfg cd db now email code = Inr (j, db')" for j db'
    using that by (auto simp: begin_challenge_def same_accounts_def Let_def split: if_splits option.splits)
  show ?thesis
  proof (cases "begin_challenge cfg cd db now email code")
    case (Inl n)
    show ?thesis by (rule kept_same [OF ok]) (simp add: Begin run_op_def Inl same_accounts_def)
  next
    case (Inr b)
    obtain j db' where b: "b = (j, db')" by (cases b)
    show ?thesis by (rule kept_same [OF ok]) (use step Inr b in \<open>simp add: Begin run_op_def\<close>)
  qed
next
  case (SendFailed j now err)
  then show ?thesis by (auto intro!: kept_same [OF ok] simp: run_op_def finish_failed_def same_accounts_def)
next
  case (SendDone j now)
  then show ?thesis by (auto intro!: kept_same [OF ok] simp: run_op_def finish_delivered_def same_accounts_def split: option.split)
next
  case (Verify now email code tok)
  obtain r db' where run: "verify_challenge cfg cd td db now email code tok = (r, db')" by fastforce
  show ?thesis using verify_login [OF ids ok run] kept_same [OF ok] kept_login by (auto simp: Verify run_op_def run)
next
  case (External now p s e v n a tok)
  obtain r db' where run: "login_external_identity cfg td db now p s e v n a tok = (r, db')" by fastforce
  show ?thesis using external_login [OF ok run] kept_same [OF ok] kept_login by (auto simp: External run_op_def run)
next
  case (Authenticate now tok)
  show ?thesis
  proof (cases tok)
    case None
    then show ?thesis by (auto intro!: kept_same [OF ok] simp: Authenticate run_op_def authenticate_def same_accounts_def)
  next
    case (Some t)
    have "session_kept td token i till db (db\<lparr>sessions := update_first (usable_session td db now t) (\<lambda>r. r\<lparr>au_last_seen_at := now\<rparr>) (sessions db)\<rparr>)"
      by (rule kept_update [OF ok]) simp_all
    moreover have "session_kept td token i till db db" by (rule kept_same [OF ok]) (simp add: same_accounts_def)
    ultimately show ?thesis by (auto simp: Authenticate Some run_op_def authenticate_def split: option.split)
  qed
next
  case (Logout now tok)
  show ?thesis
  proof (cases "tok = None \<or> tok = Some []")
    case True
    then show ?thesis by (auto intro!: kept_same [OF ok] simp: Logout run_op_def logout_def same_accounts_def)
  next
    case False
    then obtain t where t: "tok = Some t" "t \<noteq> []" by auto
    have "td t \<noteq> td token" using assms(4) by (auto simp: Logout t)
    then have "session_kept td token i till db
        (db\<lparr>sessions := update_first (\<lambda>s. au_token_digest s = td t \<and> au_revoked_at s = None) (\<lambda>s. s\<lparr>au_revoked_at := Some now\<rparr>) (sessions db)\<rparr>)"
      by (intro kept_update [OF ok]) auto
    then show ?thesis using t by (simp add: Logout run_op_def logout_def)
  qed
next
  case (Prune now cdays sdays)
  show ?thesis
  proof (cases "prune_auth_records db now cdays sdays")
    case (Inl e)
    then show ?thesis by (auto intro!: kept_same [OF ok] simp: Prune run_op_def same_accounts_def)
  next
    case (Inr b)
    obtain m k db' where b: "b = (m, k, db')" by (cases b)
    define Q where "Q = (\<lambda>s :: auth_session. \<not> (au_expires_at s \<le> now - days sdays \<or> (case au_revoked_at s of None \<Rightarrow> False | Some t \<Rightarrow> t \<le> now - days sdays)))"
    have db': "sessions db' = filter Q (sessions db)" "users db' = users db" "next_user_id db' = next_user_id db" and pos: "1 \<le> sdays"
      using Inr by (auto simp: b prune_auth_records_def Let_def Q_def split: if_splits)
    have d: "distinct (map au_token_digest (sessions db))" using ok by (simp add: accounts_ok_def)
    have ok': "accounts_ok db'" using ok d by (simp add: accounts_ok_def db' distinct_map_filter)
    have en: "enabled db' i = enabled db i" by (simp add: enabled_def user_by_id_def db')
    have "session_open td token i till db'" if o: "session_open td token i till db"
    proof -
      obtain s where s: "find_row (\<lambda>s. au_token_digest s = td token) (sessions db) = Some s" "au_revoked_at s = None"
          "au_expires_at s = till" "au_user_id s = i" "enabled db i"
        using o by (auto simp: session_open_def session_of_def)
      have "Q s" using s early pos by (simp add: Q_def Prune days_def)
      then show ?thesis using session_filter [OF s(1) _ d, of Q] s by (simp add: session_open_def session_of_def db' en)
    qed
    then show ?thesis using ok' Inr by (simp add: Prune run_op_def b session_kept_def)
  qed
qed

lemma accounts_step:
  assumes ids: "challenge_ids_ok db" and ok: "accounts_ok db"
  shows "accounts_ok (run_op cfg cd td db op)"
proof (cases "\<exists>now t. op = Logout now (Some t)")
    case True
    then obtain now t where op: "op = Logout now (Some t)" by blast
    have "distinct (map au_token_digest (update_first P (\<lambda>s. s\<lparr>au_revoked_at := Some now\<rparr>) (sessions db)))" for P
      by (rule update_first_digests) (use ok in \<open>simp_all add: accounts_ok_def\<close>)
    then show ?thesis using ok by (simp add: op run_op_def logout_def accounts_ok_def)
  next
    case other: False
    have "\<not> revokes td [] op" using other by (cases op) (auto elim: revokes.elims(2))
    then show ?thesis using op_keeps_session [OF ids ok, of op "op_time op + 1" td "[]" 0 cfg cd] by (simp add: session_kept_def)
qed

definition login_result :: "auth_config \<Rightarrow> code_digest \<Rightarrow> token_digest \<Rightarrow> auth_db \<Rightarrow> auth_op \<Rightarrow> verification option" where
  "login_result cfg cd td db op =
     (case op of
        Verify now email code token \<Rightarrow> (case fst (verify_challenge cfg cd td db now email code token) of Inl e \<Rightarrow> None | Inr v \<Rightarrow> Some v)
      | External now p s e ver n a token \<Rightarrow>
          (case fst (login_external_identity cfg td db now p s e ver n a token) of Inl e \<Rightarrow> None | Inr v \<Rightarrow> Some v)
      | _ \<Rightarrow> None)"


lemma authenticate_open:
  assumes ok: "accounts_ok db" and o: "session_open td token i till db" and "token \<noteq> []"
  shows "fst (authenticate td db t (Some token)) = (if t < till then user_by_id db i else None)"
    "fst (authenticate td (logout td db t' (Some token)) t (Some token)) = None"
proof -
  obtain s u where s: "find_row (\<lambda>s. au_token_digest s = td token) (sessions db) = Some s" "au_revoked_at s = None"
      "au_expires_at s = till" "au_user_id s = i" and u: "user_by_id db i = Some u" "ua_disabled_at u = None"
    using o by (auto simp: session_open_def session_of_def enabled_def split: option.splits)
  have d: "distinct (map au_token_digest (sessions db))" using ok by (simp add: accounts_ok_def)
  have only: "r = s" if "r \<in> set (sessions db)" "au_token_digest r = td token" for r
    using find_row_unique [OF d that(1), of "\<lambda>s. au_token_digest s = td token"] that(2) s(1) by simp
  have sin: "s \<in> set (sessions db)" "au_token_digest s = td token" using find_row_SomeD [OF s(1)] by simp_all
  have "find_row (usable_session td db t token) (sessions db) = (if t < till then Some s else None)"
  proof (cases "t < till")
    case True
    then have "find_row (usable_session td db t token) (sessions db) = Some s"
      by (intro find_row_unique [where key = au_token_digest, OF d sin(1)])
        (use s u sin in \<open>auto simp: usable_session_def\<close>)
    then show ?thesis using True by simp
  next
    case False
    then show ?thesis using only s by (auto simp: usable_session_def find_row_None_iff)
  qed
  then show "fst (authenticate td db t (Some token)) = (if t < till then user_by_id db i else None)"
    using assms(3) s by (simp add: authenticate_def)
  define out where "out = update_first (\<lambda>r. au_token_digest r = td token \<and> au_revoked_at r = None) (\<lambda>r. r\<lparr>au_revoked_at := Some t'\<rparr>) (sessions db)"
  have d': "distinct (map au_token_digest out)" unfolding out_def by (rule update_first_digests [OF d]) simp
  have "find_row (\<lambda>r. au_token_digest r = td token \<and> au_revoked_at r = None) (sessions db) = Some s"
    by (rule find_row_unique [where key = au_token_digest, OF d sin(1)]) (use s sin in auto)
  then have in': "s\<lparr>au_revoked_at := Some t'\<rparr> \<in> set out" unfolding out_def by (rule in_update_first_new)
  have "r = s\<lparr>au_revoked_at := Some t'\<rparr>" if "r \<in> set out" "au_token_digest r = td token" for r
    using find_row_unique [OF d' that(1), of "\<lambda>s. au_token_digest s = td token"]
      find_row_unique [OF d' in', of "\<lambda>s. au_token_digest s = td token"] that(2) sin(2) by simp
  then have "au_revoked_at r \<noteq> None" if "r \<in> set out" "au_token_digest r = td token" for r
    using that by fastforce
  then have "find_row (usable_session td (db\<lparr>sessions := out\<rparr>) t token) out = None"
    by (auto simp: find_row_None_iff usable_session_def)
  then show "fst (authenticate td (logout td db t' (Some token)) t (Some token)) = None"
    using assms(3) by (simp add: authenticate_def logout_def out_def)
qed

lemma reachable_accounts: "accounts_ok (foldl (run_op cfg cd td) empty_auth ops)"
proof (induction ops rule: rev_induct)
  case Nil
  then show ?case by (simp add: accounts_ok_def empty_auth_def)
next
  case (snoc op ops)
  then show ?case using accounts_step [OF reachable_ids snoc] by simp
qed

lemma open_while:
  assumes "challenge_ids_ok db" "accounts_ok db" "session_open td token i till db"
    and "\<forall>op \<in> set ops. op_time op < till \<and> \<not> revokes td token op"
  shows "accounts_ok (foldl (run_op cfg cd td) db ops) \<and> session_open td token i till (foldl (run_op cfg cd td) db ops)"
  using assms
proof (induction ops arbitrary: db)
  case (Cons op ops)
  have "session_kept td token i till db (run_op cfg cd td db op)" using op_keeps_session Cons.prems by simp
  then show ?case using Cons.IH [of "run_op cfg cd td db op"] op_step [OF Cons.prems(1), of cfg cd td op] Cons.prems
    by (simp add: session_kept_def)
qed simp

text \<open>C35. A session issued by a verified code or an external login authenticates exactly the account that
  logged in, at every instant before it expires, whatever transactions without a logout of its token ran up to
  then; from its expiry on, and after a logout, the token authenticates nobody.\<close>

theorem sessions_authenticate_their_account:
  assumes "login_result cfg cd td (foldl (run_op cfg cd td) empty_auth before) login = Some v" and "vr_token v \<noteq> []"
    and "\<forall>op \<in> set ops. op_time op < vr_expires_at v \<and> \<not> revokes td (vr_token v) op"
  defines "db \<equiv> foldl (run_op cfg cd td) (run_op cfg cd td (foldl (run_op cfg cd td) empty_auth before) login) ops"
  shows "(\<forall>t < vr_expires_at v. \<exists>u. fst (authenticate td db t (Some (vr_token v))) = Some u \<and> ua_id u = ua_id (vr_user v) \<and>
        ua_disabled_at u = None) \<and>
    (\<forall>t \<ge> vr_expires_at v. fst (authenticate td db t (Some (vr_token v))) = None) \<and>
    (\<forall>t' t. fst (authenticate td (logout td db t' (Some (vr_token v))) t (Some (vr_token v))) = None)"
proof -
  let ?old = "foldl (run_op cfg cd td) empty_auth before"
  obtain now token where "logged_in cfg td ?old now token v (run_op cfg cd td ?old login)"
  proof (cases login)
    case (Verify now email code token)
    obtain r db' where run: "verify_challenge cfg cd td ?old now email code token = (r, db')" by fastforce
    show ?thesis using verify_login [OF reachable_ids reachable_accounts run] assms(1) that [of now token]
      by (auto simp: login_result_def Verify run_op_def run split: sum.splits)
  next
    case (External now p s e ver n a token)
    obtain r db' where run: "login_external_identity cfg td ?old now p s e ver n a token = (r, db')" by fastforce
    show ?thesis using external_login [OF reachable_accounts run] assms(1) that [of now token]
      by (auto simp: login_result_def External run_op_def run split: sum.splits)
  qed (use assms(1) in \<open>simp_all add: login_result_def\<close>)
  then have o: "accounts_ok (run_op cfg cd td ?old login)"
      "session_open td (vr_token v) (ua_id (vr_user v)) (vr_expires_at v) (run_op cfg cd td ?old login)"
    using logged_inD(1,4,5) by simp_all
  have ids: "challenge_ids_ok (run_op cfg cd td ?old login)" using op_step [OF reachable_ids] by blast
  have now: "accounts_ok db" "session_open td (vr_token v) (ua_id (vr_user v)) (vr_expires_at v) db"
    using open_while [OF ids o assms(3), of cfg cd] by (simp_all add: db_def)
  obtain u where "user_by_id db (ua_id (vr_user v)) = Some u" "ua_disabled_at u = None"
    using now(2) by (auto simp: session_open_def enabled_def split: option.splits)
  then show ?thesis using authenticate_open [OF now assms(2)] user_by_id_SomeD [of db "ua_id (vr_user v)" u] by simp
qed

lemma sessions_authenticate_their_account_witness:
  "\<exists>v. login_result demo_auth (\<lambda>i c. c) (\<lambda>t. t) (foldl (run_op demo_auth (\<lambda>i c. c) (\<lambda>t. t)) empty_auth [Logout 0 None])
      (External 0 ''steam'' ''76561'' None False None None ''T'') = Some v \<and> vr_token v = ''T'' \<and>
     (\<forall>t < vr_expires_at v. \<exists>u. fst (authenticate (\<lambda>t. t)
        (foldl (run_op demo_auth (\<lambda>i c. c) (\<lambda>t. t)) (run_op demo_auth (\<lambda>i c. c) (\<lambda>t. t)
           (foldl (run_op demo_auth (\<lambda>i c. c) (\<lambda>t. t)) empty_auth [Logout 0 None])
           (External 0 ''steam'' ''76561'' None False None None ''T'')) [Authenticate 400000000 (Some ''T''), Logout 500000000 (Some ''U'')])
        t (Some (vr_token v))) = Some u \<and> ua_id u = ua_id (vr_user v))"
proof -
  have low: "lower (strip ''steam'') = ''steam''" "strip ''76561'' = ''76561''" by code_simp+
  obtain v where v: "login_result demo_auth (\<lambda>i c. c) (\<lambda>t. t) (foldl (run_op demo_auth (\<lambda>i c. c) (\<lambda>t. t)) empty_auth [Logout 0 None])
      (External 0 ''steam'' ''76561'' None False None None ''T'') = Some v" "vr_token v = ''T''" "vr_expires_at v = 30 * 86400000000"
    by (simp add: login_result_def login_external_identity_def low provider_email_def external_user_def external_account_def
        record_identity_def new_user_def add_user_def emails_unique_def issue_session_def run_op_def logout_def empty_auth_def
        clean_profile_text_def clean_profile_url_def Let_def days_def demo_auth_def)
  then have "\<forall>op \<in> set [Authenticate 400000000 (Some ''T''), Logout 500000000 (Some ''U'')]. op_time op < vr_expires_at v \<and> \<not> revokes (\<lambda>t. t) (vr_token v) op"
    by simp
  then show ?thesis using sessions_authenticate_their_account [OF v(1)] v by fastforce
qed

end
