(* ===== verification/Identity.thy ===== *)
theory Identity
  imports Tables
begin

text \<open>
  Identity resolution: the canonical events, teams, series, maps, players and heroes of
  \<open>app/models.py\<close>, the provider mappings onto them, the team aliases of \<open>app/identity/aliases.py\<close> and
  the operations of \<open>IdentityResolver\<close> in \<open>app/identity/resolver.py\<close>.  An operation that raises changes nothing.  Names are
  ASCII text, on which NFKC is the identity and \<open>casefold\<close> is \<open>lower\<close>.
\<close>

subsection \<open>Aliases\<close>

definition normalize_alias :: "string \<Rightarrow> string" where
  "normalize_alias value = join '' '' (split_ws (lower value))"

definition TEAM_ALIAS_GROUPS :: "string list list" where
  "TEAM_ALIAS_GROUPS =
     [[''aurora'', ''aurora gaming'', ''aurora.1xbet''],
      [''level up'', ''level up esports''],
      [''lgd'', ''lgd gaming''],
      [''liquid'', ''team liquid''],
      [''spirit'', ''team spirit''],
      [''vg'', ''vici gaming'']]"

definition equivalent_team_aliases :: "string \<Rightarrow> string list" where
  "equivalent_team_aliases value =
     (let normalized = normalize_alias value
      in case find_row (\<lambda>aliases. normalized \<in> set aliases) TEAM_ALIAS_GROUPS of
           Some aliases \<Rightarrow> aliases
         | None \<Rightarrow> [normalized])"

subsection \<open>Data\<close>

record canonical_event =
  ce_id :: uuid
  ce_name :: string

record canonical_team =
  ct_id :: uuid
  ct_name :: string

record team_alias =
  al_team :: uuid
  al_name :: string
  al_normalized :: string
  al_provider :: "string option"

record canonical_player =
  cp_id :: uuid
  cp_account :: "int option"
  cp_name :: "string option"

record canonical_hero =
  ch_id :: int
  ch_name :: "string option"

record identity_series =
  ser_id :: uuid
  ser_event :: "uuid option"
  ser_team_a :: uuid
  ser_team_b :: uuid
  ser_best_of :: "int option"
  ser_stage_key :: string
  ser_scheduled_at :: "time option"

record identity_map =
  mr_id :: uuid
  mr_series :: "uuid option"
  mr_number :: "int option"
  mr_valve_match :: "int option"

record team_mapping =
  tm_provider :: string
  tm_key :: string
  tm_team :: uuid
  tm_observed_name :: "string option"

record event_mapping =
  em_provider :: string
  em_key :: string
  em_event :: uuid

record player_mapping =
  py_provider :: string
  py_key :: string
  py_player :: uuid

record hero_mapping =
  hm_provider :: string
  hm_key :: string
  hm_hero :: int

record match_mapping =
  mm_provider :: string
  mm_key :: string
  mm_series :: "uuid option"
  mm_map :: "uuid option"
  mm_valve_match :: "int option"
  mm_resolved_by :: string
  mm_confidence :: rat

text \<open>The references of an odds observation.\<close>

record odds_reference =
  od_match :: int
  od_series :: "uuid option"
  od_map :: "uuid option"

text \<open>The tables; \<open>id_next\<close> is the source of the fresh identifiers drawn by \<open>uuid4\<close>.\<close>

record identity_db =
  id_events :: "canonical_event list"
  id_teams :: "canonical_team list"
  id_aliases :: "team_alias list"
  id_players :: "canonical_player list"
  id_heroes :: "canonical_hero list"
  id_series :: "identity_series list"
  id_maps :: "identity_map list"
  id_team_mappings :: "team_mapping list"
  id_event_mappings :: "event_mapping list"
  id_player_mappings :: "player_mapping list"
  id_hero_mappings :: "hero_mapping list"
  id_match_mappings :: "match_mapping list"
  id_odds :: "odds_reference list"
  id_next :: uuid

record provider_match =
  pm_match :: int
  pm_tournament :: "int option"
  pm_tournament_name :: "string option"
  pm_team_a :: int
  pm_team_a_name :: string
  pm_team_b :: int
  pm_team_b_name :: string
  pm_round :: "string option"
  pm_scheduled_at :: "time option"

record bootstrap_identity =
  bi_valve_match :: int
  bi_series :: "int option"
  bi_event :: "int option"
  bi_first_team :: int
  bi_first_name :: string
  bi_second_team :: int
  bi_second_name :: string
  bi_radiant :: "int option"
  bi_dire :: "int option"
  bi_side_source :: "string option"
  bi_side_confidence :: "rat option"
  bi_started_at :: "time option"
  bi_map_number :: "int option"

record resolved_map =
  rs_event :: "uuid option"
  rs_series :: uuid
  rs_map :: uuid
  rs_team_a :: uuid
  rs_team_b :: uuid
  rs_radiant :: "uuid option"
  rs_dire :: "uuid option"
  rs_side_source :: "string option"
  rs_side_confidence :: "rat option"
  rs_method :: string

datatype identity_error = IdentityAmbiguous string | ValueFailed string | UniqueViolation

subsection \<open>Teams\<close>

definition team_mapping_for :: "identity_db \<Rightarrow> string \<Rightarrow> string \<Rightarrow> team_mapping option" where
  "team_mapping_for db p k = find_row (\<lambda>m. tm_provider m = p \<and> tm_key m = k) (id_team_mappings db)"

text \<open>The teams an alias of the name belongs to.\<close>

definition alias_teams :: "identity_db \<Rightarrow> string \<Rightarrow> uuid list" where
  "alias_teams db name =
     fromkeys (map al_team (filter (\<lambda>a. al_normalized a \<in> set (equivalent_team_aliases name)) (id_aliases db)))"

definition add_team :: "identity_db \<Rightarrow> string \<Rightarrow> string \<Rightarrow> uuid \<times> identity_db" where
  "add_team db p name =
     (let i = id_next db
      in (i, db\<lparr>id_teams := id_teams db @ [\<lparr>ct_id = i, ct_name = name\<rparr>],
                id_aliases := id_aliases db @
                  [\<lparr>al_team = i, al_name = name, al_normalized = normalize_alias name, al_provider = Some p\<rparr>],
                id_next := Suc i\<rparr>))"

definition map_team :: "identity_db \<Rightarrow> string \<Rightarrow> string \<Rightarrow> string \<Rightarrow> uuid \<Rightarrow> identity_db" where
  "map_team db p key name team =
     db\<lparr>id_team_mappings := id_team_mappings db @
          [\<lparr>tm_provider = p, tm_key = key, tm_team = team, tm_observed_name = Some name\<rparr>]\<rparr>"

text \<open>\<open>_resolve_team\<close>; the resolver and the Liquipedia projection differ in the code of the error.\<close>

definition resolve_team_as ::
  "string \<Rightarrow> identity_db \<Rightarrow> string \<Rightarrow> string \<Rightarrow> string \<Rightarrow> identity_error + (uuid \<times> identity_db)" where
  "resolve_team_as code db p key name =
     (case team_mapping_for db p key of
        Some m \<Rightarrow> Inr (tm_team m, db)
      | None \<Rightarrow>
          (case alias_teams db name of
             [] \<Rightarrow> (let (i, db1) = add_team db p name in Inr (i, map_team db1 p key name i))
           | [i] \<Rightarrow> Inr (i, map_team db p key name i)
           | _ \<Rightarrow> Inl (IdentityAmbiguous code)))"

definition resolve_team :: "identity_db \<Rightarrow> string \<Rightarrow> string \<Rightarrow> string \<Rightarrow> identity_error + (uuid \<times> identity_db)" where
  "resolve_team db p key name = resolve_team_as ''TEAM_IDENTITY_AMBIGUOUS'' db p key name"

subsection \<open>Series and events\<close>

definition within_window :: "duration \<Rightarrow> time \<Rightarrow> time option \<Rightarrow> bool" where
  "within_window window at_time scheduled \<longleftrightarrow>
     (case scheduled of None \<Rightarrow> False | Some s \<Rightarrow> at_time - window \<le> s \<and> s \<le> at_time + window)"

definition liquipedia_series :: "identity_db \<Rightarrow> uuid \<Rightarrow> bool" where
  "liquipedia_series db i \<longleftrightarrow> list_ex (\<lambda>m. mm_provider m = ''liquipedia'' \<and> mm_series m = Some i) (id_match_mappings db)"

definition teams_match :: "identity_series \<Rightarrow> uuid \<Rightarrow> uuid \<Rightarrow> bool" where
  "teams_match s a b \<longleftrightarrow> (ser_team_a s = a \<and> ser_team_b s = b) \<or> (ser_team_a s = b \<and> ser_team_b s = a)"

definition best_of_fits :: "int option \<Rightarrow> identity_series \<Rightarrow> bool" where
  "best_of_fits best_of s \<longleftrightarrow> best_of = None \<or> ser_best_of s = None \<or> ser_best_of s = best_of"

definition series_candidates ::
  "duration \<Rightarrow> identity_db \<Rightarrow> uuid \<Rightarrow> uuid \<Rightarrow> time option \<Rightarrow> int option \<Rightarrow> identity_series list" where
  "series_candidates window db team_a team_b scheduled_at best_of =
     (case scheduled_at of
        None \<Rightarrow> []
      | Some t \<Rightarrow>
          filter (\<lambda>s. liquipedia_series db (ser_id s) \<and> teams_match s team_a team_b \<and>
                      within_window window t (ser_scheduled_at s) \<and> best_of_fits best_of s)
            (id_series db))"

definition event_is_liquipedia_backed :: "identity_db \<Rightarrow> uuid \<Rightarrow> bool" where
  "event_is_liquipedia_backed db i \<longleftrightarrow> list_ex (\<lambda>m. em_provider m = ''liquipedia'' \<and> em_event m = i) (id_event_mappings db)"

definition bind_provider_event ::
  "identity_db \<Rightarrow> string \<Rightarrow> string option \<Rightarrow> uuid option \<Rightarrow> identity_error + identity_db" where
  "bind_provider_event db p key event =
     (case (key, event) of
        (Some k, Some i) \<Rightarrow>
          (case find_row (\<lambda>m. em_provider m = p \<and> em_key m = k) (id_event_mappings db) of
             Some m \<Rightarrow>
               if em_event m \<noteq> i
               then if event_is_liquipedia_backed db (em_event m) \<or> \<not> event_is_liquipedia_backed db i
                    then Inl (IdentityAmbiguous ''PROVIDER_EVENT_IDENTITY_CONFLICT'')
                    else Inr (db\<lparr>id_event_mappings :=
                           update_first (\<lambda>m. em_provider m = p \<and> em_key m = k) (\<lambda>m. m\<lparr>em_event := i\<rparr>) (id_event_mappings db)\<rparr>)
               else Inr db
           | None \<Rightarrow> Inr (db\<lparr>id_event_mappings := id_event_mappings db @ [\<lparr>em_provider = p, em_key = k, em_event = i\<rparr>]\<rparr>))
      | _ \<Rightarrow> Inr db)"

definition match_mapping_for :: "identity_db \<Rightarrow> string \<Rightarrow> string \<Rightarrow> match_mapping option" where
  "match_mapping_for db p k = find_row (\<lambda>m. mm_provider m = p \<and> mm_key m = k) (id_match_mappings db)"

definition set_match_mapping ::
  "identity_db \<Rightarrow> match_mapping option \<Rightarrow> string \<Rightarrow> string \<Rightarrow> uuid \<Rightarrow> string \<Rightarrow> rat \<Rightarrow> identity_db" where
  "set_match_mapping db existing p k series resolved_by confidence =
     (case existing of
        Some _ \<Rightarrow> db\<lparr>id_match_mappings := update_first (\<lambda>m. mm_provider m = p \<and> mm_key m = k)
           (\<lambda>m. m\<lparr>mm_series := Some series, mm_resolved_by := resolved_by, mm_confidence := confidence\<rparr>) (id_match_mappings db)\<rparr>
      | None \<Rightarrow> db\<lparr>id_match_mappings := id_match_mappings db @
           [\<lparr>mm_provider = p, mm_key = k, mm_series = Some series, mm_map = None, mm_valve_match = None,
             mm_resolved_by = resolved_by, mm_confidence = confidence\<rparr>]\<rparr>)"

definition parse_best_of :: "string option \<Rightarrow> int option" where
  "parse_best_of value =
     (case value of
        None \<Rightarrow> None
      | Some v \<Rightarrow>
          (let n = strip (lower v)
           in if starts_with ''bo'' n \<and> drop 2 n \<noteq> [] \<and> list_all is_digit (drop 2 n)
              then Some (int (val_of_digits (drop 2 n))) else None))"

text \<open>\<open>observe_raybet_match\<close>\<close>

definition observe_raybet_match ::
  "duration \<Rightarrow> identity_db \<Rightarrow> provider_match \<Rightarrow> identity_error + (uuid \<times> identity_db)" where
  "observe_raybet_match window db pm =
     (let key = str_int (pm_match pm); existing = match_mapping_for db ''raybet'' key
      in case Option.bind existing mm_series of
           Some s \<Rightarrow> Inr (s, db)
         | None \<Rightarrow>
             (case resolve_team db ''raybet'' (str_int (pm_team_a pm)) (pm_team_a_name pm) of
                Inl e \<Rightarrow> Inl e
              | Inr (a, db1) \<Rightarrow>
                  (case resolve_team db1 ''raybet'' (str_int (pm_team_b pm)) (pm_team_b_name pm) of
                     Inl e \<Rightarrow> Inl e
                   | Inr (b, db2) \<Rightarrow>
                       if a = b then Inl (IdentityAmbiguous ''RAYBET_SERIES_SAME_TEAM'')
                       else
                         (let best_of = parse_best_of (pm_round pm)
                          in case series_candidates window db2 a b (pm_scheduled_at pm) best_of of
                               [] \<Rightarrow> Inl (IdentityAmbiguous ''RAYBET_LIQUIPEDIA_SERIES_REQUIRED'')
                             | [s] \<Rightarrow>
                                 (case bind_provider_event db2 ''raybet'' (map_option str_int (pm_tournament pm)) (ser_event s) of
                                    Inl e \<Rightarrow> Inl e
                                  | Inr db3 \<Rightarrow>
                                      (let exact = best_of \<noteq> None \<and> ser_best_of s = best_of
                                       in Inr (ser_id s,
                                            set_match_mapping db3 existing ''raybet'' key (ser_id s)
                                              (if exact then ''LIQUIPEDIA_TEAMS_TIME_BO'' else ''LIQUIPEDIA_TEAMS_TIME'')
                                              (if exact then 99 / 100 else 97 / 100))))
                             | _ \<Rightarrow> Inl (IdentityAmbiguous ''RAYBET_LIQUIPEDIA_SERIES_AMBIGUOUS'')))))"

subsection \<open>Maps\<close>

definition canonical_sides ::
  "bootstrap_identity \<Rightarrow> uuid \<Rightarrow> uuid \<Rightarrow> identity_error + (uuid option \<times> uuid option)" where
  "canonical_sides bi first_team second_team =
     (case (bi_radiant bi, bi_dire bi) of
        (None, None) \<Rightarrow> Inr (None, None)
      | (Some r, Some d) \<Rightarrow>
          (let to_canonical = [(bi_second_team bi, second_team), (bi_first_team bi, first_team)]
           in if {r, d} \<noteq> {bi_first_team bi, bi_second_team bi}
              then Inl (IdentityAmbiguous ''SIDE_IDENTITY_PROVIDER_CONFLICT'')
              else Inr (map_of to_canonical r, map_of to_canonical d))
      | _ \<Rightarrow> Inl (IdentityAmbiguous ''SIDE_IDENTITY_PARTIAL''))"

definition validate_series_teams :: "identity_series \<Rightarrow> uuid \<Rightarrow> uuid \<Rightarrow> identity_error + unit" where
  "validate_series_teams s a b =
     (if {ser_team_a s, ser_team_b s} \<noteq> {a, b} then Inl (IdentityAmbiguous ''VALVE_MATCH_TEAM_CONFLICT'') else Inr ())"

definition validate_series_sides :: "identity_series \<Rightarrow> uuid option \<Rightarrow> uuid option \<Rightarrow> identity_error + unit" where
  "validate_series_sides s radiant dire =
     (case (radiant, dire) of
        (None, None) \<Rightarrow> Inr ()
      | (Some r, Some d) \<Rightarrow>
          if r = d \<or> {r, d} \<noteq> {ser_team_a s, ser_team_b s} then Inl (IdentityAmbiguous ''SIDE_IDENTITY_SERIES_CONFLICT'') else Inr ()
      | _ \<Rightarrow> Inl (IdentityAmbiguous ''SIDE_IDENTITY_PARTIAL''))"

definition resolved_of ::
  "bootstrap_identity \<Rightarrow> identity_series \<Rightarrow> uuid \<Rightarrow> uuid option \<Rightarrow> uuid option \<Rightarrow> string \<Rightarrow> resolved_map" where
  "resolved_of bi s map_id radiant dire how =
     \<lparr>rs_event = ser_event s, rs_series = ser_id s, rs_map = map_id, rs_team_a = ser_team_a s, rs_team_b = ser_team_b s,
      rs_radiant = radiant, rs_dire = dire, rs_side_source = bi_side_source bi, rs_side_confidence = bi_side_confidence bi,
      rs_method = how\<rparr>"

text \<open>The map slot of a series: the row of the map number is bound to the match, or a row is added.\<close>

definition bind_map :: "identity_db \<Rightarrow> identity_series \<Rightarrow> int option \<Rightarrow> int \<Rightarrow> uuid \<times> identity_db" where
  "bind_map db s number valve_match =
     (case (case number of None \<Rightarrow> None
            | Some n \<Rightarrow> find_row (\<lambda>m. mr_series m = Some (ser_id s) \<and> mr_number m = Some n) (id_maps db)) of
        Some m \<Rightarrow>
          (mr_id m, db\<lparr>id_maps := update_first (\<lambda>r. mr_id r = mr_id m) (\<lambda>r. r\<lparr>mr_valve_match := Some valve_match\<rparr>) (id_maps db)\<rparr>)
      | None \<Rightarrow>
          (let i = id_next db
           in (i, db\<lparr>id_maps := id_maps db @
                       [\<lparr>mr_id = i, mr_series = Some (ser_id s), mr_number = number, mr_valve_match = Some valve_match\<rparr>],
                     id_next := Suc i\<rparr>)))"

definition bind_series_match :: "identity_db \<Rightarrow> int option \<Rightarrow> uuid \<Rightarrow> uuid \<Rightarrow> int \<Rightarrow> string \<Rightarrow> identity_db" where
  "bind_series_match db dltv_series series map_id valve_match how =
     (case dltv_series of
        None \<Rightarrow> db
      | Some n \<Rightarrow>
          (let k = str_int n
           in case match_mapping_for db ''dltv'' k of
                None \<Rightarrow> db\<lparr>id_match_mappings := id_match_mappings db @
                  [\<lparr>mm_provider = ''dltv'', mm_key = k, mm_series = Some series, mm_map = Some map_id,
                    mm_valve_match = Some valve_match, mm_resolved_by = how, mm_confidence = 1\<rparr>]\<rparr>
              | Some _ \<Rightarrow> db\<lparr>id_match_mappings := update_first (\<lambda>m. mm_provider m = ''dltv'' \<and> mm_key m = k)
                  (\<lambda>m. m\<lparr>mm_series := Some series, mm_map := Some map_id, mm_valve_match := Some valve_match\<rparr>)
                  (id_match_mappings db)\<rparr>))"

definition map_by_match :: "identity_db \<Rightarrow> int \<Rightarrow> identity_map option" where
  "map_by_match db n = find_row (\<lambda>m. mr_valve_match m = Some n) (id_maps db)"

definition series_by_id :: "identity_db \<Rightarrow> uuid \<Rightarrow> identity_series option" where
  "series_by_id db i = find_row (\<lambda>s. ser_id s = i) (id_series db)"

definition resolve_dltv_bootstrap ::
  "duration \<Rightarrow> identity_db \<Rightarrow> bootstrap_identity \<Rightarrow> identity_error + (resolved_map \<times> identity_db)" where
  "resolve_dltv_bootstrap window db bi =
     (case resolve_team db ''dltv'' (str_int (bi_first_team bi)) (bi_first_name bi) of
        Inl e \<Rightarrow> Inl e
      | Inr (first_team, db1) \<Rightarrow>
     (case resolve_team db1 ''dltv'' (str_int (bi_second_team bi)) (bi_second_name bi) of
        Inl e \<Rightarrow> Inl e
      | Inr (second_team, db2) \<Rightarrow>
     (case canonical_sides bi first_team second_team of
        Inl e \<Rightarrow> Inl e
      | Inr (radiant, dire) \<Rightarrow>
     (case map_by_match db2 (bi_valve_match bi) of
        Some m \<Rightarrow>
          (case Option.bind (mr_series m) (series_by_id db2) of
             None \<Rightarrow> Inl (ValueFailed ''canonical map references a missing series'')
           | Some s \<Rightarrow>
               (case validate_series_teams s first_team second_team of
                  Inl e \<Rightarrow> Inl e
                | Inr _ \<Rightarrow>
                    (case validate_series_sides s radiant dire of
                       Inl e \<Rightarrow> Inl e
                     | Inr _ \<Rightarrow> Inr (resolved_of bi s (mr_id m) radiant dire ''VALVE_MATCH_ID'', db2))))
      | None \<Rightarrow>
          (case series_candidates window db2 first_team second_team (bi_started_at bi) None of
             [] \<Rightarrow> Inl (IdentityAmbiguous ''DLTV_LIQUIPEDIA_SERIES_REQUIRED'')
           | [s] \<Rightarrow>
               (case bind_provider_event db2 ''dltv'' (map_option str_int (bi_event bi)) (ser_event s) of
                  Inl e \<Rightarrow> Inl e
                | Inr db3 \<Rightarrow>
                    (case validate_series_sides s radiant dire of
                       Inl e \<Rightarrow> Inl e
                     | Inr _ \<Rightarrow>
                         (let (map_id, db4) = bind_map db3 s (bi_map_number bi) (bi_valve_match bi)
                          in Inr (resolved_of bi s map_id radiant dire ''LIQUIPEDIA_TEAMS_TIME'',
                                  bind_series_match db4 (bi_series bi) (ser_id s) map_id (bi_valve_match bi) ''LIQUIPEDIA_TEAMS_TIME''))))
           | _ \<Rightarrow> Inl (IdentityAmbiguous ''DLTV_LIQUIPEDIA_SERIES_AMBIGUOUS''))))))"

subsection \<open>Players and heroes\<close>

definition resolve_dltv_player :: "identity_db \<Rightarrow> int \<Rightarrow> uuid \<times> identity_db" where
  "resolve_dltv_player db account =
     (case find_row (\<lambda>m. py_provider m = ''dltv'' \<and> py_key m = str_int account) (id_player_mappings db) of
        Some m \<Rightarrow> (py_player m, db)
      | None \<Rightarrow>
          (let (i, db1) =
             (case find_row (\<lambda>p. cp_account p = Some account) (id_players db) of
                Some p \<Rightarrow> (cp_id p, db)
              | None \<Rightarrow> (id_next db, db\<lparr>id_players := id_players db @ [\<lparr>cp_id = id_next db, cp_account = Some account, cp_name = None\<rparr>],
                                        id_next := Suc (id_next db)\<rparr>))
           in (i, db1\<lparr>id_player_mappings := id_player_mappings db1 @
                  [\<lparr>py_provider = ''dltv'', py_key = str_int account, py_player = i\<rparr>]\<rparr>)))"

text \<open>The names of the heroes (\<open>DOTA_HERO_NAMES\<close> of \<open>app/ai/dota_heroes.py\<close>) are an argument.\<close>

definition resolve_dltv_hero :: "(int \<Rightarrow> string option) \<Rightarrow> identity_db \<Rightarrow> int \<Rightarrow> string option \<Rightarrow> int \<times> identity_db" where
  "resolve_dltv_hero hero_names db hero_id name =
     (let mapping = find_row (\<lambda>m. hm_provider m = ''dltv'' \<and> hm_key m = str_int hero_id) (id_hero_mappings db);
          i = (case mapping of Some m \<Rightarrow> hm_hero m | None \<Rightarrow> hero_id);
          provider_name = (case name of Some n \<Rightarrow> if strip n \<noteq> [] then Some (strip n) else None | None \<Rightarrow> None);
          resolved_name = (case provider_name of Some n \<Rightarrow> Some n | None \<Rightarrow> hero_names i);
          db1 = (case find_row (\<lambda>h. ch_id h = i) (id_heroes db) of
             None \<Rightarrow> db\<lparr>id_heroes := id_heroes db @ [\<lparr>ch_id = i, ch_name = resolved_name\<rparr>]\<rparr>
           | Some h \<Rightarrow>
               if provider_name \<noteq> None
               then db\<lparr>id_heroes := update_first (\<lambda>h. ch_id h = i) (\<lambda>h. h\<lparr>ch_name := provider_name\<rparr>) (id_heroes db)\<rparr>
               else if ch_name h = None \<and> resolved_name \<noteq> None
               then db\<lparr>id_heroes := update_first (\<lambda>h. ch_id h = i) (\<lambda>h. h\<lparr>ch_name := resolved_name\<rparr>) (id_heroes db)\<rparr>
               else db);
          db2 = (case mapping of
             None \<Rightarrow> db1\<lparr>id_hero_mappings := id_hero_mappings db1 @
                       [\<lparr>hm_provider = ''dltv'', hm_key = str_int hero_id, hm_hero = i\<rparr>]\<rparr>
           | Some _ \<Rightarrow> db1)
      in (i, db2))"

end
