(* ===== verification/IdentityLink.thy ===== *)
theory IdentityLink
  imports Identity Access
begin

text \<open>
  The two writers of canonical identity beside the resolver: the projection of Liquipedia schedules
  (\<open>LiquipediaCanonicalProjector\<close> of \<open>app/providers/liquipedia/projection.py\<close>), which alone creates events
  and series, and the linking of RayBet matches to them (\<open>RayBetExistingSeriesLinker\<close> of
  \<open>app/identity/raybet_linking.py\<close>).
\<close>

subsection \<open>Liquipedia\<close>

record series_observation =
  so_team_a_name :: string
  so_team_a_page :: "string option"
  so_team_b_name :: string
  so_team_b_page :: "string option"
  so_tournament_name :: "string option"
  so_tournament_page :: "string option"
  so_stage :: "string option"
  so_best_of :: "int option"
  so_scheduled_at :: "time option"
  so_provider_key :: string

datatype projection_outcome = Created | Reused | Skipped

definition event_by_id :: "identity_db \<Rightarrow> uuid \<Rightarrow> canonical_event option" where
  "event_by_id db i = find_row (\<lambda>e. ce_id e = i) (id_events db)"

definition rename_event :: "identity_db \<Rightarrow> uuid \<Rightarrow> string \<Rightarrow> identity_db" where
  "rename_event db i name = db\<lparr>id_events := update_first (\<lambda>e. ce_id e = i) (\<lambda>e. e\<lparr>ce_name := name\<rparr>) (id_events db)\<rparr>"

definition map_event :: "identity_db \<Rightarrow> string \<Rightarrow> string \<Rightarrow> uuid \<Rightarrow> identity_db" where
  "map_event db p key i = db\<lparr>id_event_mappings := id_event_mappings db @ [\<lparr>em_provider = p, em_key = key, em_event = i\<rparr>]\<rparr>"

definition event_mapping_for :: "identity_db \<Rightarrow> string \<Rightarrow> string \<Rightarrow> event_mapping option" where
  "event_mapping_for db p key = find_row (\<lambda>m. em_provider m = p \<and> em_key m = key) (id_event_mappings db)"

definition project_event ::
  "identity_db \<Rightarrow> string \<Rightarrow> string \<Rightarrow> uuid option \<Rightarrow> identity_error + (uuid \<times> identity_db)" where
  "project_event db key name canonical =
     (case event_mapping_for db ''liquipedia'' key of
        Some m \<Rightarrow>
          if canonical \<noteq> None \<and> canonical \<noteq> Some (em_event m) then Inl (IdentityAmbiguous ''LIQUIPEDIA_EVENT_IDENTITY_CONFLICT'')
          else (case event_by_id db (em_event m) of
                  None \<Rightarrow> Inl (ValueFailed ''Liquipedia event mapping references a missing canonical event'')
                | Some _ \<Rightarrow> Inr (em_event m, rename_event db (em_event m) name))
      | None \<Rightarrow>
          (case canonical of
             Some i \<Rightarrow>
               (case event_by_id db i of
                  None \<Rightarrow> Inl (ValueFailed ''canonical series references a missing event'')
                | Some _ \<Rightarrow> Inr (i, map_event (rename_event db i name) ''liquipedia'' key i))
           | None \<Rightarrow>
               (case filter (\<lambda>e. ce_name e = name) (id_events db) of
                  [] \<Rightarrow> (let i = id_next db
                         in Inr (i, map_event (db\<lparr>id_events := id_events db @ [\<lparr>ce_id = i, ce_name = name\<rparr>], id_next := Suc i\<rparr>)
                                      ''liquipedia'' key i))
                | [e] \<Rightarrow> Inr (ce_id e, map_event db ''liquipedia'' key (ce_id e))
                | _ \<Rightarrow> Inl (IdentityAmbiguous ''LIQUIPEDIA_EVENT_NAME_AMBIGUOUS''))))"

definition project_team :: "identity_db \<Rightarrow> string \<Rightarrow> string \<Rightarrow> identity_error + (uuid \<times> identity_db)" where
  "project_team db page name = resolve_team_as ''LIQUIPEDIA_TEAM_IDENTITY_AMBIGUOUS'' db ''liquipedia'' page name"

definition projection_candidates ::
  "duration \<Rightarrow> identity_db \<Rightarrow> uuid option \<Rightarrow> uuid \<Rightarrow> uuid \<Rightarrow> time \<Rightarrow> int option \<Rightarrow> identity_series list" where
  "projection_candidates window db event a b t best_of =
     filter (\<lambda>s. teams_match s a b \<and> (event = None \<or> ser_event s = event) \<and> within_window window t (ser_scheduled_at s) \<and>
                 best_of_fits best_of s) (id_series db)"

definition apply_schedule :: "series_observation \<Rightarrow> identity_series \<Rightarrow> identity_series" where
  "apply_schedule ob s =
     s\<lparr>ser_best_of := (if so_best_of ob \<noteq> None then so_best_of ob else ser_best_of s),
       ser_stage_key := (if so_stage ob \<noteq> None then classify_stage (so_stage ob) else ser_stage_key s),
       ser_scheduled_at := (if so_scheduled_at ob \<noteq> None then so_scheduled_at ob else ser_scheduled_at s)\<rparr>"

text \<open>A series that was observed again: its event is filled in, its schedule refreshed.\<close>

definition refresh_series :: "identity_db \<Rightarrow> uuid \<Rightarrow> uuid \<Rightarrow> series_observation \<Rightarrow> identity_db" where
  "refresh_series db i event ob =
     db\<lparr>id_series := update_first (\<lambda>s. ser_id s = i)
          (\<lambda>s. apply_schedule ob (s\<lparr>ser_event := (if ser_event s = None then Some event else ser_event s)\<rparr>)) (id_series db)\<rparr>"

definition map_liquipedia_series :: "identity_db \<Rightarrow> string \<Rightarrow> uuid \<Rightarrow> identity_error + identity_db" where
  "map_liquipedia_series db key i =
     (if match_mapping_for db ''liquipedia'' key \<noteq> None then Inl UniqueViolation
      else Inr (db\<lparr>id_match_mappings := id_match_mappings db @
        [\<lparr>mm_provider = ''liquipedia'', mm_key = key, mm_series = Some i, mm_map = None, mm_valve_match = None,
          mm_resolved_by = ''LIQUIPEDIA_SCHEDULE'', mm_confidence = 95 / 100\<rparr>]\<rparr>))"

definition create_series :: "identity_db \<Rightarrow> uuid \<Rightarrow> uuid \<Rightarrow> uuid \<Rightarrow> series_observation \<Rightarrow> uuid \<times> identity_db" where
  "create_series db event a b ob =
     (let i = id_next db
      in (i, db\<lparr>id_series := id_series db @
                  [\<lparr>ser_id = i, ser_event = Some event, ser_team_a = a, ser_team_b = b, ser_best_of = so_best_of ob,
                    ser_stage_key = classify_stage (so_stage ob), ser_scheduled_at = so_scheduled_at ob\<rparr>],
                id_next := Suc i\<rparr>))"

definition project_known ::
  "identity_db \<Rightarrow> series_observation \<Rightarrow> string \<Rightarrow> string \<Rightarrow> uuid \<Rightarrow> identity_error + (projection_outcome \<times> identity_db)" where
  "project_known db ob page name i =
     (case series_by_id db i of
        None \<Rightarrow> Inl (ValueFailed ''Liquipedia match mapping references a missing canonical series'')
      | Some s \<Rightarrow>
          (case project_event db page name (ser_event s) of
             Inl e \<Rightarrow> Inl e
           | Inr (event, db1) \<Rightarrow> Inr (Reused, refresh_series db1 i event ob)))"

text \<open>A series seen for the first time: attached to the one canonical series it fits, or created.\<close>

definition project_new ::
  "duration \<Rightarrow> identity_db \<Rightarrow> series_observation \<Rightarrow> string \<Rightarrow> string \<Rightarrow> uuid \<Rightarrow> uuid \<Rightarrow> time \<Rightarrow>
   identity_error + (projection_outcome \<times> identity_db)" where
  "project_new window db ob page name a b t =
     (case projection_candidates window db (map_option em_event (event_mapping_for db ''liquipedia'' page)) a b t (so_best_of ob) of
        [] \<Rightarrow>
          (case project_event db page name None of
             Inl e \<Rightarrow> Inl e
           | Inr (event, db1) \<Rightarrow>
               (let (i, db2) = create_series db1 event a b ob
                in case map_liquipedia_series db2 (so_provider_key ob) i of Inl e \<Rightarrow> Inl e | Inr db3 \<Rightarrow> Inr (Created, db3)))
      | [s] \<Rightarrow>
          (case project_event db page name (ser_event s) of
             Inl e \<Rightarrow> Inl e
           | Inr (event, db1) \<Rightarrow>
               (case map_liquipedia_series (refresh_series db1 (ser_id s) event ob) (so_provider_key ob) (ser_id s) of
                  Inl e \<Rightarrow> Inl e | Inr db3 \<Rightarrow> Inr (Reused, db3)))
      | _ \<Rightarrow> Inl (IdentityAmbiguous ''LIQUIPEDIA_SERIES_AMBIGUOUS''))"

definition project_one_series ::
  "duration \<Rightarrow> identity_db \<Rightarrow> series_observation \<Rightarrow> identity_error + (projection_outcome \<times> identity_db)" where
  "project_one_series window db ob =
     (case (so_tournament_page ob, so_tournament_name ob, so_team_a_page ob, so_team_b_page ob, so_scheduled_at ob) of
        (Some page, Some name, Some a_page, Some b_page, Some t) \<Rightarrow>
          (case Option.bind (match_mapping_for db ''liquipedia'' (so_provider_key ob)) mm_series of
             Some i \<Rightarrow> project_known db ob page name i
           | None \<Rightarrow>
               (case project_team db a_page (so_team_a_name ob) of
                  Inl e \<Rightarrow> Inl e
                | Inr (a, db1) \<Rightarrow>
                    (case project_team db1 b_page (so_team_b_name ob) of
                       Inl e \<Rightarrow> Inl e
                     | Inr (b, db2) \<Rightarrow>
                         if a = b then Inl (IdentityAmbiguous ''LIQUIPEDIA_SERIES_SAME_TEAM'')
                         else project_new window db2 ob page name a b t)))
      | _ \<Rightarrow> Inr (Skipped, db))"

text \<open>A batch; an error aborts all of it.\<close>

record projection_result =
  pj_events :: nat
  pj_series :: nat
  pj_created :: nat
  pj_reused :: nat
  pj_skipped :: nat

fun project_outcomes ::
  "duration \<Rightarrow> identity_db \<Rightarrow> series_observation list \<Rightarrow> identity_error + (projection_outcome list \<times> identity_db)" where
  "project_outcomes window db [] = Inr ([], db)"
| "project_outcomes window db (ob # obs) =
     (case project_one_series window db ob of
        Inl e \<Rightarrow> Inl e
      | Inr (r, db1) \<Rightarrow> (case project_outcomes window db1 obs of Inl e \<Rightarrow> Inl e | Inr (rs, db2) \<Rightarrow> Inr (r # rs, db2)))"

definition project_series ::
  "duration \<Rightarrow> identity_db \<Rightarrow> series_observation list \<Rightarrow> identity_error + (projection_result \<times> identity_db)" where
  "project_series window db obs =
     (case project_outcomes window db obs of
        Inl e \<Rightarrow> Inl e
      | Inr (rs, db') \<Rightarrow>
          Inr (\<lparr>pj_events = 0, pj_series = length obs, pj_created = count_list rs Created, pj_reused = count_list rs Reused,
                pj_skipped = count_list rs Skipped\<rparr>, db'))"

fun project_tournaments ::
  "identity_db \<Rightarrow> (string \<times> string) list \<Rightarrow> identity_error + identity_db" where
  "project_tournaments db [] = Inr db"
| "project_tournaments db ((page, name) # obs) =
     (case project_event db page name None of Inl e \<Rightarrow> Inl e | Inr (i, db') \<Rightarrow> project_tournaments db' obs)"

subsection \<open>Event names\<close>

text \<open>\<open>re.findall(r"[a-z0-9]+", value.casefold())\<close>: the maximal runs.\<close>

definition token_char :: "char \<Rightarrow> bool" where
  "token_char c = (let n = (of_char c :: nat) in (48 \<le> n \<and> n \<le> 57) \<or> (97 \<le> n \<and> n \<le> 122))"

fun tokens_acc :: "string \<Rightarrow> string \<Rightarrow> string list" where
  "tokens_acc acc [] = (if acc = [] then [] else [rev acc])"
| "tokens_acc acc (c # cs) =
     (if token_char c then tokens_acc (c # acc) cs
      else if acc = [] then tokens_acc [] cs else rev acc # tokens_acc [] cs)"

definition initials :: "string list \<Rightarrow> string" where
  "initials ws = concat (map (take 1) ws)"

definition event_name_keys :: "string \<Rightarrow> string list" where
  "event_name_keys value =
     (let tokens = tokens_acc [] (lower value);
          numbers = filter (list_all is_digit) tokens;
          words = filter (\<lambda>t. \<not> list_all is_digit t) tokens;
          plain = filter (\<lambda>t. t \<notin> {''a'', ''an'', ''the''}) words
      in if tokens = [] then []
         else filter (\<lambda>k. k \<noteq> [])
           ([join '' '' tokens, concat tokens] @
            (if plain \<noteq> [] then [join '' '' (plain @ numbers), concat (plain @ numbers)] else []) @
            (if 2 \<le> length words then [join '' '' (initials words # numbers), concat (initials words # numbers)] else []) @
            (if 2 \<le> length plain then [join '' '' (initials plain # numbers), concat (initials plain # numbers)] else [])))"

definition event_names_compatible :: "string \<Rightarrow> string \<Rightarrow> bool" where
  "event_names_compatible a b \<longleftrightarrow> list_ex (\<lambda>k. k \<in> set (event_name_keys b)) (event_name_keys a)"

subsection \<open>RayBet\<close>

record link_result =
  ln_series :: "uuid option"
  ln_reason :: string

definition series_has_maps :: "identity_db \<Rightarrow> uuid \<Rightarrow> bool" where
  "series_has_maps db i \<longleftrightarrow> list_ex (\<lambda>m. mr_series m = Some i) (id_maps db)"

definition existing_team_identity ::
  "identity_db \<Rightarrow> string \<Rightarrow> string \<Rightarrow> identity_error + (uuid option \<times> identity_db)" where
  "existing_team_identity db key name =
     (case team_mapping_for db ''raybet'' key of
        Some m \<Rightarrow> Inr (Some (tm_team m), db)
      | None \<Rightarrow>
          (case alias_teams db name of
             [] \<Rightarrow> Inr (None, db)
           | [i] \<Rightarrow> Inr (Some i, map_team db ''raybet'' key name i)
           | _ \<Rightarrow> Inl (IdentityAmbiguous ''RAYBET_TEAM_IDENTITY_AMBIGUOUS'')))"

definition filter_by_event_name :: "identity_db \<Rightarrow> identity_series list \<Rightarrow> string \<Rightarrow> identity_series list" where
  "filter_by_event_name db candidates name =
     filter (\<lambda>s. case ser_event s of
                   None \<Rightarrow> False
                 | Some i \<Rightarrow> list_ex (\<lambda>e. ce_id e = i \<and> event_names_compatible name (ce_name e)) (id_events db)) candidates"

text \<open>The candidate series after the best-of and the event filters, or the reason there is none.\<close>

definition link_candidates ::
  "identity_db \<Rightarrow> provider_match \<Rightarrow> identity_series list \<Rightarrow> string + identity_series list" where
  "link_candidates db pm candidates =
     (if candidates = [] then Inl ''no_liquipedia_candidate''
      else
        (let compatible = filter (best_of_fits (parse_best_of (pm_round pm))) candidates
         in if compatible = [] then Inl ''best_of_conflict''
            else
              (case Option.bind (pm_tournament pm) (\<lambda>t. event_mapping_for db ''raybet'' (str_int t)) of
                 Some m \<Rightarrow>
                   if event_is_liquipedia_backed db (em_event m)
                   then (let same = filter (\<lambda>s. ser_event s = Some (em_event m)) compatible
                         in if same = [] then Inl ''event_mapping_conflict'' else Inr same)
                   else (case pm_tournament_name pm of
                           Some n \<Rightarrow> if n = [] then Inr compatible
                             else (let named = filter_by_event_name db compatible n
                                   in if named = [] then Inl ''event_name_conflict'' else Inr named)
                         | None \<Rightarrow> Inr compatible)
               | None \<Rightarrow>
                   (case pm_tournament_name pm of
                      Some n \<Rightarrow> if n = [] then Inr compatible
                        else (let named = filter_by_event_name db compatible n
                              in if named = [] then Inl ''event_name_conflict'' else Inr named)
                    | None \<Rightarrow> Inr compatible))))"

definition attach_event_mapping ::
  "identity_db \<Rightarrow> provider_match \<Rightarrow> identity_series \<Rightarrow> identity_error + identity_db" where
  "attach_event_mapping db pm s =
     (case (pm_tournament pm, ser_event s) of
        (Some t, Some event) \<Rightarrow>
          (case event_mapping_for db ''raybet'' (str_int t) of
             None \<Rightarrow> Inr (map_event db ''raybet'' (str_int t) event)
           | Some m \<Rightarrow>
               if em_event m = event then Inr db
               else if event_is_liquipedia_backed db (em_event m) then Inl (IdentityAmbiguous ''RAYBET_EVENT_SERIES_CONFLICT'')
               else Inr (db\<lparr>id_event_mappings :=
                      update_first (\<lambda>m. em_provider m = ''raybet'' \<and> em_key m = str_int t) (\<lambda>m. m\<lparr>em_event := event\<rparr>)
                        (id_event_mappings db)\<rparr>))
      | _ \<Rightarrow> Inr db)"

definition fill_series :: "identity_db \<Rightarrow> uuid \<Rightarrow> int option \<Rightarrow> time option \<Rightarrow> identity_db" where
  "fill_series db i best_of scheduled =
     db\<lparr>id_series := update_first (\<lambda>s. ser_id s = i)
          (\<lambda>s. s\<lparr>ser_best_of := (if ser_best_of s = None then best_of else ser_best_of s),
                 ser_scheduled_at := (if ser_scheduled_at s = None then scheduled else ser_scheduled_at s)\<rparr>) (id_series db)\<rparr>"

definition move_odds :: "identity_db \<Rightarrow> int \<Rightarrow> uuid option \<Rightarrow> uuid \<Rightarrow> identity_db" where
  "move_odds db match_id previous i =
     (if previous = None \<or> previous = Some i then db
      else db\<lparr>id_odds := update_where (\<lambda>r. od_match r = match_id \<and> od_series r = previous \<and> od_map r = None)
                 (\<lambda>r. r\<lparr>od_series := Some i\<rparr>) (id_odds db)\<rparr>)"

text \<open>The writes of a successful link.\<close>

definition attach_series ::
  "identity_db \<Rightarrow> provider_match \<Rightarrow> match_mapping option \<Rightarrow> identity_series \<Rightarrow> identity_error + (link_result \<times> identity_db)" where
  "attach_series db pm existing s =
     (case attach_event_mapping db pm s of
        Inl e \<Rightarrow> Inl e
      | Inr db1 \<Rightarrow>
          (let best_of = parse_best_of (pm_round pm);
               previous = Option.bind existing mm_series;
               reconciled = previous \<noteq> None \<and> previous \<noteq> Some (ser_id s);
               exact = best_of \<noteq> None \<and> ser_best_of s = best_of;
               db2 = fill_series db1 (ser_id s) best_of (pm_scheduled_at pm);
               resolved_by = (if reconciled then ''LIQUIPEDIA_RECONCILED'' else ''LIQUIPEDIA'') @
                             (if exact then ''_TEAMS_TIME_BO'' else ''_TEAMS_TIME'');
               db3 = set_match_mapping db2 existing ''raybet'' (str_int (pm_match pm)) (ser_id s) resolved_by
                       (if exact then 99 / 100 else 97 / 100)
           in Inr (\<lparr>ln_series = Some (ser_id s),
                    ln_reason = (if reconciled then ''reconciled_liquipedia_series'' else ''matched_liquipedia_series'')\<rparr>,
                   move_odds db3 (pm_match pm) previous (ser_id s))))"

definition settled_mapping :: "identity_db \<Rightarrow> match_mapping option \<Rightarrow> string option" where
  "settled_mapping db existing =
     (case existing of
        None \<Rightarrow> None
      | Some m \<Rightarrow>
          (case mm_series m of
             None \<Rightarrow> None
           | Some i \<Rightarrow>
               if mm_resolved_by m \<noteq> ''PROVIDER_DISCOVERY'' then Some ''existing_canonical_mapping''
               else if mm_map m \<noteq> None \<or> series_has_maps db i then Some ''fallback_has_downstream_maps'' else None))"

definition link :: "duration \<Rightarrow> identity_db \<Rightarrow> provider_match \<Rightarrow> identity_error + (link_result \<times> identity_db)" where
  "link window db pm =
     (let existing = match_mapping_for db ''raybet'' (str_int (pm_match pm));
          known = Option.bind existing mm_series;
          stop = (\<lambda>db reason. Inr (\<lparr>ln_series = known, ln_reason = reason\<rparr>, db))
      in case settled_mapping db existing of
           Some reason \<Rightarrow> stop db reason
         | None \<Rightarrow>
             if pm_scheduled_at pm = None then stop db ''missing_schedule''
             else
               (case existing_team_identity db (str_int (pm_team_a pm)) (pm_team_a_name pm) of
                  Inl e \<Rightarrow> Inl e
                | Inr (a, db1) \<Rightarrow>
               (case existing_team_identity db1 (str_int (pm_team_b pm)) (pm_team_b_name pm) of
                  Inl e \<Rightarrow> Inl e
                | Inr (b, db2) \<Rightarrow>
                    (case (a, b) of
                       (Some ta, Some tb) \<Rightarrow>
                         if ta = tb then Inl (IdentityAmbiguous ''RAYBET_EXISTING_SERIES_SAME_TEAM'')
                         else (case link_candidates db2 pm (series_candidates window db2 ta tb (pm_scheduled_at pm) None) of
                                 Inl reason \<Rightarrow> stop db2 reason
                               | Inr [s] \<Rightarrow> attach_series db2 pm existing s
                               | Inr _ \<Rightarrow> Inl (IdentityAmbiguous ''RAYBET_EXISTING_SERIES_AMBIGUOUS''))
                     | _ \<Rightarrow> stop db2 ''team_identity_missing''))))"

text \<open>What discovery does with a match: link it, then observe it; an identity error rolls both back.\<close>

definition discover_identity :: "duration \<Rightarrow> identity_db \<Rightarrow> provider_match \<Rightarrow> identity_db" where
  "discover_identity window db pm =
     (case link window db pm of
        Inl e \<Rightarrow> db
      | Inr (r, db1) \<Rightarrow>
          if ln_series r = None then db1
          else (case observe_raybet_match window db1 pm of Inl e \<Rightarrow> db | Inr (i, db2) \<Rightarrow> db2))"

end
