(* ===== verification/IdentityProperties.thy ===== *)
theory IdentityProperties
  imports IdentityLink
begin

text \<open>
  Properties of identity resolution.  The invariant of the tables: every provider key has one mapping,
  a Valve match has one map, a series one map of each number, a series two different teams, and every
  reference of a map points to a series.  The resolution of a match is sound, and stable once made.
\<close>

subsection \<open>Keys and identifiers\<close>

definition fresh_ids :: "('r \<Rightarrow> uuid) \<Rightarrow> 'r list \<Rightarrow> uuid \<Rightarrow> bool" where
  "fresh_ids key t n \<longleftrightarrow> distinct (map key t) \<and> (\<forall>r \<in> set t. key r < n)"

lemma fresh_ids_Suc [inv_intros]: "fresh_ids key t n \<Longrightarrow> fresh_ids key t (Suc n)"
  by (auto simp: fresh_ids_def less_Suc_eq)

lemma fresh_ids_append [inv_intros]: "fresh_ids key t n \<Longrightarrow> key r = n \<Longrightarrow> fresh_ids key (t @ [r]) (Suc n)"
  by (auto simp: fresh_ids_def less_Suc_eq)

lemma fresh_ids_update [inv_intros]:
  assumes "fresh_ids key t n" "\<And>r. P r \<Longrightarrow> key (f r) = key r"
  shows "fresh_ids key (update_first P f t) n"
proof -
  have "map key (update_first P f t) = map key t" by (rule map_update_first) (rule assms(2))
  moreover from this have "key ` set (update_first P f t) = key ` set t" by (metis list.set_map)
  ultimately show ?thesis using assms(1) unfolding fresh_ids_def by (metis (no_types, lifting) imageE imageI)
qed

definition unique_keys :: "('r \<Rightarrow> 'k) \<Rightarrow> 'r list \<Rightarrow> bool" where
  "unique_keys key t \<longleftrightarrow> distinct (map key t)"

lemma unique_keys_append: "unique_keys key t \<Longrightarrow> key r \<notin> key ` set t \<Longrightarrow> unique_keys key (t @ [r])"
  by (simp add: unique_keys_def)

lemma unique_keys_update: "unique_keys key t \<Longrightarrow> (\<And>r. P r \<Longrightarrow> key (f r) = key r) \<Longrightarrow> unique_keys key (update_first P f t)"
  using map_update_first [of P key f t] by (simp add: unique_keys_def)

definition team_key :: "team_mapping \<Rightarrow> string \<times> string" where "team_key m = (tm_provider m, tm_key m)"
definition event_mapping_key :: "event_mapping \<Rightarrow> string \<times> string" where "event_mapping_key m = (em_provider m, em_key m)"
definition player_key :: "player_mapping \<Rightarrow> string \<times> string" where "player_key m = (py_provider m, py_key m)"
definition hero_key :: "hero_mapping \<Rightarrow> string \<times> string" where "hero_key m = (hm_provider m, hm_key m)"
definition match_key :: "match_mapping \<Rightarrow> string \<times> string" where "match_key m = (mm_provider m, mm_key m)"

definition keys_ok :: "identity_db \<Rightarrow> bool" where
  "keys_ok db \<longleftrightarrow> unique_keys team_key (id_team_mappings db) \<and> unique_keys event_mapping_key (id_event_mappings db) \<and>
     unique_keys player_key (id_player_mappings db) \<and> unique_keys hero_key (id_hero_mappings db) \<and>
     unique_keys match_key (id_match_mappings db)"

definition series_ok :: "identity_db \<Rightarrow> bool" where
  "series_ok db \<longleftrightarrow> fresh_ids ser_id (id_series db) (id_next db) \<and> (\<forall>s \<in> set (id_series db). ser_team_a s \<noteq> ser_team_b s)"

definition maps_ok :: "identity_db \<Rightarrow> bool" where
  "maps_ok db \<longleftrightarrow> fresh_ids mr_id (id_maps db) (id_next db) \<and>
     distinct (filter (\<lambda>v. v \<noteq> None) (map mr_valve_match (id_maps db))) \<and>
     distinct (filter (\<lambda>k. snd k \<noteq> None) (map (\<lambda>m. (mr_series m, mr_number m)) (id_maps db))) \<and>
     (\<forall>m \<in> set (id_maps db). \<exists>i s. mr_series m = Some i \<and> s \<in> set (id_series db) \<and> ser_id s = i)"

definition identity_inv :: "identity_db \<Rightarrow> bool" where
  "identity_inv db \<longleftrightarrow> keys_ok db \<and> series_ok db \<and> maps_ok db"

lemma identity_invI: "keys_ok db \<Longrightarrow> series_ok db \<Longrightarrow> maps_ok db \<Longrightarrow> identity_inv db"
  by (simp add: identity_inv_def)

lemma identity_invD:
  assumes "identity_inv db" shows "keys_ok db" "series_ok db" "maps_ok db"
  using assms by (simp_all add: identity_inv_def)

text \<open>Appending a mapping whose key has none.\<close>

lemma unique_keys_new:
  assumes "unique_keys key t" and "find_row P t = None" and "\<And>m. P m \<longleftrightarrow> key m = key r"
  shows "unique_keys key (t @ [r])"
  by (rule unique_keys_append [OF assms(1)]) (use assms(2,3) in \<open>auto simp: find_row_None_iff\<close>)

lemmas inv_defs = identity_inv_def keys_ok_def series_ok_def maps_ok_def

lemma keys_team:
  assumes "identity_inv db" and "team_mapping_for db p k = None"
  shows "identity_inv (map_team db p k name i)"
proof -
  have "unique_keys team_key (id_team_mappings db @ [\<lparr>tm_provider = p, tm_key = k, tm_team = i, tm_observed_name = Some name\<rparr>])"
    by (rule unique_keys_new [OF _ assms(2) [unfolded team_mapping_for_def]])
      (use assms(1) in \<open>simp_all add: identity_inv_def keys_ok_def team_key_def\<close>)
  then show ?thesis using assms(1) by (simp add: inv_defs map_team_def)
qed

lemma keys_event:
  assumes "identity_inv db" and "find_row (\<lambda>m. em_provider m = p \<and> em_key m = k) (id_event_mappings db) = None"
  shows "identity_inv (db\<lparr>id_event_mappings := id_event_mappings db @ [\<lparr>em_provider = p, em_key = k, em_event = i\<rparr>]\<rparr>)"
proof -
  have "unique_keys event_mapping_key (id_event_mappings db @ [\<lparr>em_provider = p, em_key = k, em_event = i\<rparr>])"
    by (rule unique_keys_new [OF _ assms(2)]) (use assms(1) in \<open>simp_all add: identity_inv_def keys_ok_def event_mapping_key_def\<close>)
  then show ?thesis using assms(1) by (simp add: inv_defs)
qed

lemma keys_event_update:
  assumes "identity_inv db"
  shows "identity_inv (db\<lparr>id_event_mappings := update_first P (\<lambda>m. m\<lparr>em_event := i\<rparr>) (id_event_mappings db)\<rparr>)"
proof -
  have "unique_keys event_mapping_key (update_first P (\<lambda>m. m\<lparr>em_event := i\<rparr>) (id_event_mappings db))"
    by (rule unique_keys_update) (use assms in \<open>simp_all add: identity_inv_def keys_ok_def event_mapping_key_def\<close>)
  then show ?thesis using assms by (simp add: inv_defs)
qed

lemma keys_match:
  assumes "identity_inv db" and "match_mapping_for db p k = None" and "mm_provider r = p" "mm_key r = k"
  shows "identity_inv (db\<lparr>id_match_mappings := id_match_mappings db @ [r]\<rparr>)"
proof -
  have "unique_keys match_key (id_match_mappings db @ [r])"
    by (rule unique_keys_new [OF _ assms(2) [unfolded match_mapping_for_def]])
      (use assms(1,3,4) in \<open>simp_all add: identity_inv_def keys_ok_def match_key_def\<close>)
  then show ?thesis using assms(1) by (simp add: inv_defs)
qed

lemma keys_match_update:
  assumes "identity_inv db" and "\<And>m. mm_provider (f m) = mm_provider m \<and> mm_key (f m) = mm_key m"
  shows "identity_inv (db\<lparr>id_match_mappings := update_first P f (id_match_mappings db)\<rparr>)"
proof -
  have "unique_keys match_key (update_first P f (id_match_mappings db))"
    by (rule unique_keys_update) (use assms in \<open>simp_all add: identity_inv_def keys_ok_def match_key_def\<close>)
  then show ?thesis using assms by (simp add: inv_defs)
qed

text \<open>The rows the invariant does not speak about.\<close>

lemma inv_other [simp]:
  "identity_inv (db\<lparr>id_odds := x\<rparr>) = identity_inv db" "identity_inv (db\<lparr>id_heroes := h\<rparr>) = identity_inv db"
  "identity_inv (db\<lparr>id_aliases := a\<rparr>) = identity_inv db" "identity_inv (db\<lparr>id_teams := t\<rparr>) = identity_inv db"
  "identity_inv (db\<lparr>id_players := p\<rparr>) = identity_inv db" "identity_inv (db\<lparr>id_events := e\<rparr>) = identity_inv db"
  by (simp_all add: identity_inv_def keys_ok_def series_ok_def maps_ok_def)

lemma inv_next: "identity_inv db \<Longrightarrow> identity_inv (db\<lparr>id_next := Suc (id_next db)\<rparr>)"
  by (auto simp: identity_inv_def keys_ok_def series_ok_def maps_ok_def intro: inv_intros)

lemma inv_add_team: "identity_inv db \<Longrightarrow> identity_inv (snd (add_team db p name))"
  using inv_next [of db] by (simp add: add_team_def Let_def identity_inv_def keys_ok_def series_ok_def maps_ok_def)

subsection \<open>Teams\<close>

lemma team_mapping_add_team [simp]: "team_mapping_for (snd (add_team db p name)) q k = team_mapping_for db q k"
  by (simp add: team_mapping_for_def add_team_def Let_def)

lemma team_mapping_map_team:
  "team_mapping_for (map_team db p k name i) q l =
     (case team_mapping_for db q l of
        Some m \<Rightarrow> Some m
      | None \<Rightarrow> if q = p \<and> l = k then Some \<lparr>tm_provider = p, tm_key = k, tm_team = i, tm_observed_name = Some name\<rparr> else None)"
  by (auto simp: team_mapping_for_def map_team_def split: option.split)

text \<open>Resolving a team leaves its mapping behind, keeps the others, and touches no series or map.\<close>

lemma resolve_team_step:
  assumes "resolve_team_as code db p k name = Inr (i, db')"
  shows "identity_inv db \<Longrightarrow> identity_inv db'" "map_option tm_team (team_mapping_for db' p k) = Some i"
    "team_mapping_for db q l = Some m \<Longrightarrow> team_mapping_for db' q l = Some m"
    "id_series db' = id_series db \<and> id_maps db' = id_maps db \<and> id_match_mappings db' = id_match_mappings db \<and>
     id_event_mappings db' = id_event_mappings db \<and> id_events db' = id_events db"
proof -
  consider (known) m where "team_mapping_for db p k = Some m" "i = tm_team m" "db' = db"
    | (new) "team_mapping_for db p k = None" "i = fst (add_team db p name)" "db' = map_team (snd (add_team db p name)) p k name i"
    | (found) "team_mapping_for db p k = None" "db' = map_team db p k name i"
    using assms by (auto simp: resolve_team_as_def split_beta split: option.splits list.splits)
  then have "(identity_inv db \<longrightarrow> identity_inv db') \<and> map_option tm_team (team_mapping_for db' p k) = Some i \<and>
      (team_mapping_for db q l = Some m \<longrightarrow> team_mapping_for db' q l = Some m) \<and>
      (id_series db' = id_series db \<and> id_maps db' = id_maps db \<and> id_match_mappings db' = id_match_mappings db \<and>
       id_event_mappings db' = id_event_mappings db \<and> id_events db' = id_events db)"
  proof cases
    case new
    then show ?thesis using keys_team [OF inv_add_team, of db p name p k name i]
      by (auto simp: team_mapping_map_team) (auto simp: map_team_def add_team_def Let_def)
  next
    case found
    then show ?thesis using keys_team [of db p k name i] by (auto simp: team_mapping_map_team) (auto simp: map_team_def)
  qed simp
  then show "identity_inv db \<Longrightarrow> identity_inv db'" "map_option tm_team (team_mapping_for db' p k) = Some i"
    "team_mapping_for db q l = Some m \<Longrightarrow> team_mapping_for db' q l = Some m"
    "id_series db' = id_series db \<and> id_maps db' = id_maps db \<and> id_match_mappings db' = id_match_mappings db \<and>
     id_event_mappings db' = id_event_mappings db \<and> id_events db' = id_events db" by blast+
qed

subsection \<open>What the writers of identity keep\<close>

text \<open>Teams stay mapped, maps untouched, series in place with their teams.\<close>

definition keeps :: "identity_db \<Rightarrow> identity_db \<Rightarrow> bool" where
  "keeps db db' \<longleftrightarrow>
     (\<forall>q l m. team_mapping_for db q l = Some m \<longrightarrow> team_mapping_for db' q l = Some m) \<and>
     id_maps db' = id_maps db \<and>
     (\<forall>i s. series_by_id db i = Some s \<longrightarrow>
        (\<exists>s'. series_by_id db' i = Some s' \<and> ser_id s' = ser_id s \<and> ser_team_a s' = ser_team_a s \<and> ser_team_b s' = ser_team_b s))"

definition step_ok :: "identity_db \<Rightarrow> identity_db \<Rightarrow> bool" where
  "step_ok db db' \<longleftrightarrow> (identity_inv db \<longrightarrow> identity_inv db') \<and> keeps db db'"

lemma step_okD: "step_ok db db' \<Longrightarrow> identity_inv db \<Longrightarrow> identity_inv db'" "step_ok db db' \<Longrightarrow> keeps db db'"
  by (simp_all add: step_ok_def)

lemma step_ok_refl [simp]: "step_ok db db"
  by (simp add: step_ok_def keeps_def)

lemma keeps_trans:
  assumes "keeps a b" and "keeps b c"
  shows "keeps a c"
  unfolding keeps_def
proof (intro conjI allI impI)
  show "team_mapping_for c q l = Some m" if "team_mapping_for a q l = Some m" for q l m
    using that assms by (simp add: keeps_def)
  show "id_maps c = id_maps a" using assms by (simp add: keeps_def)
  fix i s assume "series_by_id a i = Some s"
  then obtain s1 where s1: "series_by_id b i = Some s1" "ser_id s1 = ser_id s" "ser_team_a s1 = ser_team_a s" "ser_team_b s1 = ser_team_b s"
    using assms(1) unfolding keeps_def by blast
  then obtain s2 where "series_by_id c i = Some s2" "ser_id s2 = ser_id s1" "ser_team_a s2 = ser_team_a s1" "ser_team_b s2 = ser_team_b s1"
    using assms(2) unfolding keeps_def by blast
  then show "\<exists>s'. series_by_id c i = Some s' \<and> ser_id s' = ser_id s \<and> ser_team_a s' = ser_team_a s \<and> ser_team_b s' = ser_team_b s"
    using s1 by auto
qed

lemma step_ok_trans: "step_ok a b \<Longrightarrow> step_ok b c \<Longrightarrow> step_ok a c"
  using keeps_trans [of a b c] by (auto simp: step_ok_def)

lemma keeps_same:
  "id_team_mappings db' = id_team_mappings db \<Longrightarrow> id_maps db' = id_maps db \<Longrightarrow> id_series db' = id_series db \<Longrightarrow> keeps db db'"
  by (simp add: keeps_def team_mapping_for_def series_by_id_def)

lemma resolve_team_ok: "resolve_team_as code db p k name = Inr (i, db') \<Longrightarrow> step_ok db db'"
  using resolve_team_step [of code db p k name i db'] by (auto simp: step_ok_def keeps_def series_by_id_def)

lemma map_team_ok: "team_mapping_for db p k = None \<Longrightarrow> step_ok db (map_team db p k name i)"
  using keys_team [of db p k name i]
  by (auto simp: step_ok_def keeps_def team_mapping_map_team series_by_id_def) (simp_all add: map_team_def)

lemma update_series:
  assumes "\<And>s. ser_id (f s) = ser_id s \<and> ser_team_a (f s) = ser_team_a s \<and> ser_team_b (f s) = ser_team_b s"
  shows "step_ok db (db\<lparr>id_series := update_first P f (id_series db)\<rparr>)"
proof -
  let ?db = "db\<lparr>id_series := update_first P f (id_series db)\<rparr>"
  have find: "\<exists>s'. find_row (\<lambda>s. ser_id s = i) (update_first P f t) = Some s' \<and> ser_id s' = ser_id s \<and>
      ser_team_a s' = ser_team_a s \<and> ser_team_b s' = ser_team_b s" if "find_row (\<lambda>s. ser_id s = i) t = Some s" for i s t
    using that assms by (induction t) (auto split: if_splits)
  have ids: "map ser_id (update_first P f (id_series db)) = map ser_id (id_series db)" by (rule map_update_first) (simp add: assms)
  have refs: "(\<exists>s \<in> set (update_first P f (id_series db)). ser_id s = i) \<longleftrightarrow> (\<exists>s \<in> set (id_series db). ser_id s = i)" for i
  proof -
    have "ser_id ` set (update_first P f (id_series db)) = ser_id ` set (id_series db)" using ids by (metis list.set_map)
    then show ?thesis by (metis (no_types, lifting) imageE imageI)
  qed
  have inv: "identity_inv ?db" if "identity_inv db"
  proof (rule identity_invI)
    show "keys_ok ?db" using that by (simp add: inv_defs)
    have "ser_team_a r \<noteq> ser_team_b r" if r: "r \<in> set (update_first P f (id_series db))" for r
      using in_update_firstD [OF r] assms \<open>identity_inv db\<close> by (auto simp: inv_defs)
    moreover have "fresh_ids ser_id (update_first P f (id_series db)) (id_next db)"
      by (rule fresh_ids_update) (use that assms in \<open>simp_all add: inv_defs\<close>)
    ultimately show "series_ok ?db" by (simp add: series_ok_def)
    show "maps_ok ?db" using identity_invD(3) [OF that] refs by (auto simp: maps_ok_def Bex_def)
  qed
  then show ?thesis using find by (simp add: step_ok_def keeps_def team_mapping_for_def series_by_id_def)
qed

lemma event_update_ok: "step_ok db (db\<lparr>id_event_mappings := update_first P (\<lambda>m. m\<lparr>em_event := i\<rparr>) (id_event_mappings db)\<rparr>)"
  using keys_event_update [of db P i] by (simp add: step_ok_def keeps_same)

lemma map_event_ok: "event_mapping_for db p k = None \<Longrightarrow> step_ok db (map_event db p k i)"
  using keys_event [of db p k i] by (simp add: step_ok_def keeps_same map_event_def event_mapping_for_def)

lemma rename_event_ok: "step_ok db (rename_event db i name)"
  by (simp add: step_ok_def keeps_same rename_event_def)

lemma event_mapping_rename [simp]: "event_mapping_for (rename_event db i name) p k = event_mapping_for db p k"
  by (simp add: event_mapping_for_def rename_event_def)

lemma bind_event_ok: "bind_provider_event db p key event = Inr db' \<Longrightarrow> step_ok db db' \<and> id_series db' = id_series db"
  using map_event_ok [of db p] event_update_ok
  by (auto simp: bind_provider_event_def map_event_def event_mapping_for_def split: option.splits if_splits)

lemma attach_event_ok: "attach_event_mapping db pm s = Inr db' \<Longrightarrow> step_ok db db' \<and> id_match_mappings db' = id_match_mappings db"
  using map_event_ok [of db "''raybet''"] event_update_ok
  by (auto simp: attach_event_mapping_def split: option.splits if_splits) (auto simp: map_event_def)

text \<open>An existing mapping is rewritten in place, a missing one added.\<close>

lemma set_match_mapping_ok:
  assumes "existing = match_mapping_for db p k"
  shows "step_ok db (set_match_mapping db existing p k i how c)"
proof (cases existing)
  case None
  then show ?thesis using keys_match [of db p k] assms by (simp add: set_match_mapping_def step_ok_def keeps_same)
next
  case (Some m)
  have "identity_inv db \<longrightarrow> identity_inv (set_match_mapping db existing p k i how c)"
    using keys_match_update [of db] by (simp add: Some set_match_mapping_def)
  moreover have "keeps db (set_match_mapping db existing p k i how c)" by (rule keeps_same) (simp_all add: Some set_match_mapping_def)
  ultimately show ?thesis by (simp add: step_ok_def)
qed

text \<open>The operations.\<close>

lemma observe_ok:
  assumes "observe_raybet_match window db pm = Inr (i, db')"
  shows "step_ok db db'"
proof (cases "Option.bind (match_mapping_for db ''raybet'' (str_int (pm_match pm))) mm_series")
  case (Some s)
  then show ?thesis using assms by (simp add: observe_raybet_match_def)
next
  case None
  let ?old = "match_mapping_for db ''raybet'' (str_int (pm_match pm))"
  note run = assms [unfolded observe_raybet_match_def Let_def None option.case]
  obtain a db1 where t1: "resolve_team db ''raybet'' (str_int (pm_team_a pm)) (pm_team_a_name pm) = Inr (a, db1)"
    using run by (auto split: sum.splits)
  obtain b db2 where t2: "resolve_team db1 ''raybet'' (str_int (pm_team_b pm)) (pm_team_b_name pm) = Inr (b, db2)"
    using run t1 by (auto split: sum.splits)
  obtain s where one: "series_candidates window db2 a b (pm_scheduled_at pm) (parse_best_of (pm_round pm)) = [s]"
    using run t1 t2 by (auto split: if_splits list.splits)
  obtain db3 where ev: "bind_provider_event db2 ''raybet'' (map_option str_int (pm_tournament pm)) (ser_event s) = Inr db3"
    using run t1 t2 one by (auto split: if_splits sum.splits)
  obtain how c where db': "db' = set_match_mapping db3 ?old ''raybet'' (str_int (pm_match pm)) (ser_id s) how c"
    using run t1 t2 one ev by (auto split: if_splits)
  have "id_match_mappings db2 = id_match_mappings db"
    using resolve_team_step(4) [OF t1 [unfolded resolve_team_def]] resolve_team_step(4) [OF t2 [unfolded resolve_team_def]] by simp
  moreover have "id_match_mappings db3 = id_match_mappings db2"
    using ev by (auto simp: bind_provider_event_def split: option.splits if_splits)
  ultimately have "?old = match_mapping_for db3 ''raybet'' (str_int (pm_match pm))" by (simp add: match_mapping_for_def)
  then have "step_ok db3 db'" unfolding db' by (rule set_match_mapping_ok)
  then show ?thesis
    using resolve_team_ok [OF t1 [unfolded resolve_team_def]] resolve_team_ok [OF t2 [unfolded resolve_team_def]] bind_event_ok [OF ev]
    by (blast intro: step_ok_trans)
qed

lemma existing_team_ok:
  "existing_team_identity db k name = Inr (i, db') \<Longrightarrow> step_ok db db' \<and> id_match_mappings db' = id_match_mappings db"
  using map_team_ok [of db "''raybet''" k name]
  by (auto simp: existing_team_identity_def split: option.splits list.splits) (auto simp: map_team_def)

lemma attach_series_ok:
  assumes "attach_series db pm existing s = Inr (r, db')" and old: "existing = match_mapping_for db ''raybet'' (str_int (pm_match pm))"
  shows "step_ok db db'"
proof -
  obtain db1 where ev: "attach_event_mapping db pm s = Inr db1"
    using assms(1) by (auto simp: attach_series_def split: sum.splits)
  define db2 where "db2 = fill_series db1 (ser_id s) (parse_best_of (pm_round pm)) (pm_scheduled_at pm)"
  obtain how c where db': "db' = move_odds (set_match_mapping db2 existing ''raybet'' (str_int (pm_match pm)) (ser_id s) how c)
      (pm_match pm) (Option.bind existing mm_series) (ser_id s)"
    using assms(1) ev by (auto simp: attach_series_def Let_def db2_def)
  have "step_ok db1 db2" unfolding db2_def fill_series_def by (rule update_series) simp
  moreover have "existing = match_mapping_for db2 ''raybet'' (str_int (pm_match pm))"
    using old attach_event_ok [OF ev] by (simp add: match_mapping_for_def db2_def fill_series_def)
  then have "step_ok db2 (set_match_mapping db2 existing ''raybet'' (str_int (pm_match pm)) (ser_id s) how c)"
    by (rule set_match_mapping_ok)
  moreover have "step_ok x (move_odds x m p i)" for x m p i
    by (simp add: move_odds_def step_ok_def keeps_same)
  ultimately show ?thesis unfolding db' using attach_event_ok [OF ev] by (blast intro: step_ok_trans)
qed

lemma link_ok:
  assumes "link window db pm = Inr (r, db')"
  shows "step_ok db db'"
proof -
  let ?old = "match_mapping_for db ''raybet'' (str_int (pm_match pm))"
  show ?thesis
  proof (cases "settled_mapping db ?old \<noteq> None \<or> pm_scheduled_at pm = None")
    case True
    then have "db' = db" using assms by (auto simp: link_def Let_def split: option.splits)
    then show ?thesis by simp
  next
    case False
    obtain a db1 where t1: "existing_team_identity db (str_int (pm_team_a pm)) (pm_team_a_name pm) = Inr (a, db1)"
      using assms False by (auto simp: link_def Let_def split: sum.splits option.splits)
    obtain b db2 where t2: "existing_team_identity db1 (str_int (pm_team_b pm)) (pm_team_b_name pm) = Inr (b, db2)"
      using assms False t1 by (auto simp: link_def Let_def split: sum.splits)
    have two: "step_ok db db2" using existing_team_ok [OF t1] existing_team_ok [OF t2] by (blast intro: step_ok_trans)
    have old: "?old = match_mapping_for db2 ''raybet'' (str_int (pm_match pm))"
      using existing_team_ok [OF t1] existing_team_ok [OF t2] by (simp add: match_mapping_for_def)
    have "db' = db2 \<or> (\<exists>s. attach_series db2 pm ?old s = Inr (r, db'))"
      using assms False by (auto simp: link_def Let_def t1 t2 split: option.splits if_splits sum.splits list.splits)
    then show ?thesis using two attach_series_ok [OF _ old] by (blast intro: step_ok_trans)
  qed
qed

lemma project_event_ok:
  assumes "project_event db k name canonical = Inr (i, db')"
  shows "step_ok db db' \<and> id_match_mappings db' = id_match_mappings db \<and> id_series db' = id_series db"
proof -
  consider (known) "db' = rename_event db i name"
    | (named) "event_mapping_for db ''liquipedia'' k = None" "db' = map_event (rename_event db i name) ''liquipedia'' k i"
    | (fresh) "event_mapping_for db ''liquipedia'' k = None"
        "db' = map_event (db\<lparr>id_events := id_events db @ [\<lparr>ce_id = id_next db, ce_name = name\<rparr>], id_next := Suc (id_next db)\<rparr>) ''liquipedia'' k i"
    | (found) "event_mapping_for db ''liquipedia'' k = None" "db' = map_event db ''liquipedia'' k i"
    using assms by (auto simp: project_event_def Let_def split: option.splits if_splits list.splits)
  then show ?thesis
  proof cases
    case known
    then show ?thesis using rename_event_ok [of db i name] by (simp add: rename_event_def)
  next
    case named
    have "step_ok (rename_event db i name) db'" unfolding named(2) by (rule map_event_ok) (simp add: named(1))
    then show ?thesis using rename_event_ok [of db i name] step_ok_trans
      by (auto simp: named(2) map_event_def rename_event_def)
  next
    case fresh
    let ?db1 = "db\<lparr>id_events := id_events db @ [\<lparr>ce_id = id_next db, ce_name = name\<rparr>], id_next := Suc (id_next db)\<rparr>"
    have "identity_inv db \<longrightarrow> identity_inv ?db1" using inv_next [of db] by (simp add: inv_defs)
    then have "step_ok db ?db1" by (simp add: step_ok_def keeps_same)
    moreover have "step_ok ?db1 db'" unfolding fresh(2)
      by (rule map_event_ok) (use fresh(1) in \<open>simp add: event_mapping_for_def\<close>)
    ultimately show ?thesis using step_ok_trans by (auto simp: fresh(2) map_event_def)
  next
    case found
    then show ?thesis using map_event_ok [of db "''liquipedia''" k i] by (simp add: map_event_def)
  qed
qed

lemma match_mapping_add_series [simp]:
  "match_mapping_for (snd (create_series db e a b ob)) p k = match_mapping_for db p k"
  "match_mapping_for (refresh_series db i e ob) p k = match_mapping_for db p k"
  by (simp_all add: match_mapping_for_def create_series_def refresh_series_def Let_def)

lemma refresh_series_ok: "step_ok db (refresh_series db i e ob)"
  unfolding refresh_series_def by (rule update_series) (simp add: apply_schedule_def)

lemma map_liquipedia_ok: "map_liquipedia_series db k i = Inr db' \<Longrightarrow> step_ok db db'"
  using keys_match [of db "''liquipedia''" k]
  by (auto simp: map_liquipedia_series_def step_ok_def keeps_same split: if_splits)

lemma create_series_ok:
  assumes "a \<noteq> b" and inv: "identity_inv db"
  shows "identity_inv (snd (create_series db e a b ob)) \<and> keeps db (snd (create_series db e a b ob))"
proof -
  let ?db = "snd (create_series db e a b ob)"
  have fresh: "fresh_ids ser_id (id_series db) (id_next db)" "fresh_ids mr_id (id_maps db) (id_next db)"
    using inv by (simp_all add: inv_defs)
  have "keys_ok ?db" using inv by (simp add: create_series_def inv_defs Let_def)
  moreover have "series_ok ?db" using inv assms(1) fresh_ids_append [OF fresh(1)]
    by (auto simp: create_series_def inv_defs Let_def)
  moreover have "maps_ok ?db" using identity_invD(3) [OF inv] fresh_ids_Suc [OF fresh(2)]
    by (auto simp: create_series_def maps_ok_def Let_def)
  ultimately show ?thesis
    by (auto simp: identity_inv_def keeps_def create_series_def Let_def team_mapping_for_def series_by_id_def)
qed

lemma project_ok:
  assumes "project_one_series window db ob = Inr (r, db')" and inv: "identity_inv db"
  shows "identity_inv db' \<and> keeps db db'"
proof (cases "db' = db")
  case False
  then obtain page name a_page b_page t where obs: "so_tournament_page ob = Some page" "so_tournament_name ob = Some name"
      "so_team_a_page ob = Some a_page" "so_team_b_page ob = Some b_page" "so_scheduled_at ob = Some t"
    using assms(1) by (auto simp: project_one_series_def split: option.splits)
  show ?thesis
  proof (cases "Option.bind (match_mapping_for db ''liquipedia'' (so_provider_key ob)) mm_series")
    case (Some i)
    then obtain s where s: "series_by_id db i = Some s"
      using assms(1) by (auto simp: project_one_series_def obs project_known_def split: option.splits)
    then obtain e db1 where p: "project_event db page name (ser_event s) = Inr (e, db1)"
      using assms(1) Some by (cases "project_event db page name (ser_event s)") (auto simp: project_one_series_def obs project_known_def)
    then have db': "db' = refresh_series db1 i e ob" using assms(1) Some s by (simp add: project_one_series_def obs project_known_def)
    have "step_ok db db'" unfolding db' using project_event_ok [OF p] refresh_series_ok by (blast intro: step_ok_trans)
    then show ?thesis using inv by (simp add: step_ok_def)
  next
    case None
    obtain a db1 where t1: "project_team db a_page (so_team_a_name ob) = Inr (a, db1)"
      using assms(1) None by (auto simp: project_one_series_def obs split: sum.splits)
    obtain b db2 where t2: "project_team db1 b_page (so_team_b_name ob) = Inr (b, db2)"
      using assms(1) None t1 by (auto simp: project_one_series_def obs split: sum.splits)
    have ab: "a \<noteq> b" and new: "project_new window db2 ob page name a b t = Inr (r, db')"
      using assms(1) None t1 t2 by (auto simp: project_one_series_def obs split: if_splits)
    have two: "step_ok db db2"
      using resolve_team_ok [OF t1 [unfolded project_team_def]] resolve_team_ok [OF t2 [unfolded project_team_def]] step_ok_trans by blast
    obtain e db3 db4 where p: "step_ok db2 db3" and m: "step_ok db4 db'"
      and c: "(identity_inv db3 \<longrightarrow> identity_inv db4) \<and> (identity_inv db3 \<longrightarrow> keeps db3 db4)"
    proof (cases "projection_candidates window db2 (map_option em_event (event_mapping_for db2 ''liquipedia'' page)) a b t (so_best_of ob)")
      case Nil
      then obtain e db3 where p: "project_event db2 page name None = Inr (e, db3)"
          "map_liquipedia_series (snd (create_series db3 e a b ob)) (so_provider_key ob) (fst (create_series db3 e a b ob)) = Inr db'"
        using new by (auto simp: project_new_def split_beta split: sum.splits)
      show ?thesis
        by (rule that [of db3 "snd (create_series db3 e a b ob)"])
          (use project_event_ok [OF p(1)] map_liquipedia_ok [OF p(2)] create_series_ok [OF ab, of db3 e ob] in auto)
    next
      case (Cons s rest)
      then obtain e db3 where rest: "rest = []" and p: "project_event db2 page name (ser_event s) = Inr (e, db3)"
          "map_liquipedia_series (refresh_series db3 (ser_id s) e ob) (so_provider_key ob) (ser_id s) = Inr db'"
        using new by (auto simp: project_new_def split: sum.splits list.splits)
      show ?thesis
        by (rule that [of db3 "refresh_series db3 (ser_id s) e ob"])
          (use project_event_ok [OF p(1)] map_liquipedia_ok [OF p(2)] refresh_series_ok [of db3 "ser_id s" e ob] in \<open>auto simp: step_ok_def\<close>)
    qed
    have inv3: "identity_inv db3" using two p inv by (simp add: step_ok_def)
    have "identity_inv db'" using inv3 c m by (simp add: step_ok_def)
    moreover have "keeps db db'" using two p m c inv3 keeps_trans unfolding step_ok_def by metis
    ultimately show ?thesis by blast
  qed
qed (use inv in \<open>simp add: keeps_def\<close>)

subsection \<open>Maps\<close>

lemma distinct_filter_update:
  assumes "distinct (filter Q (map k t))" and "x \<notin> k ` set t" and "\<And>r. k (f r) = x"
  shows "distinct (filter Q (map k (update_first P f t)))"
  using assms(1,2)
proof (induction t)
  case (Cons r t)
  have sub: "k ` set (update_first P f t) \<subseteq> insert x (k ` set t)" using in_update_firstD [of _ P f t] assms(3) by fastforce
  show ?case
  proof (cases "P r")
    case True
    have "x \<notin> set (filter Q (map k t))" using Cons.prems(2) by auto
    then show ?thesis using True Cons.prems(1) assms(3) by (auto split: if_splits)
  next
    case False
    have "k r \<notin> set (filter Q (map k (update_first P f t)))" if "Q (k r)"
    proof
      assume "k r \<in> set (filter Q (map k (update_first P f t)))"
      then have "k r \<in> insert x (k ` set t)" using sub by auto
      then have "k r \<in> k ` set t" using Cons.prems(2) by auto
      then show False using Cons.prems(1) that by auto
    qed
    moreover have "distinct (filter Q (map k (update_first P f t)))"
      using Cons.prems by (intro Cons.IH) (auto split: if_splits)
    ultimately show ?thesis using False by simp
  qed
qed simp

lemma bind_map_ok:
  assumes inv: "identity_inv db" and s: "s \<in> set (id_series db)" and new: "map_by_match db v = None"
    and run: "bind_map db s number v = (i, db')"
  shows "identity_inv db'" "\<exists>m. map_by_match db' v = Some m \<and> mr_id m = i \<and> mr_series m = Some (ser_id s)"
    "id_series db' = id_series db \<and> id_team_mappings db' = id_team_mappings db \<and> id_match_mappings db' = id_match_mappings db"
proof -
  have unbound: "Some v \<notin> mr_valve_match ` set (id_maps db)" using new by (auto simp: map_by_match_def find_row_None_iff)
  have maps: "fresh_ids mr_id (id_maps db) (id_next db)" "distinct (filter (\<lambda>v. v \<noteq> None) (map mr_valve_match (id_maps db)))"
      "distinct (filter (\<lambda>k. snd k \<noteq> None) (map (\<lambda>m. (mr_series m, mr_number m)) (id_maps db)))"
      "\<forall>m \<in> set (id_maps db). \<exists>i s. mr_series m = Some i \<and> s \<in> set (id_series db) \<and> ser_id s = i"
    using identity_invD(3) [OF inv] by (simp_all add: maps_ok_def)
  define slot where "slot = (case number of None \<Rightarrow> None
      | Some n \<Rightarrow> find_row (\<lambda>m. mr_series m = Some (ser_id s) \<and> mr_number m = Some n) (id_maps db))"
  have "identity_inv db' \<and> (\<exists>m. map_by_match db' v = Some m \<and> mr_id m = i \<and> mr_series m = Some (ser_id s)) \<and>
      (id_series db' = id_series db \<and> id_team_mappings db' = id_team_mappings db \<and> id_match_mappings db' = id_match_mappings db)"
  proof (cases slot)
    case None
    define m where "m = \<lparr>mr_id = id_next db, mr_series = Some (ser_id s), mr_number = number, mr_valve_match = Some v\<rparr>"
    have db': "i = id_next db" "db' = db\<lparr>id_maps := id_maps db @ [m], id_next := Suc (id_next db)\<rparr>"
      using run None by (auto simp: bind_map_def slot_def [symmetric] Let_def m_def)
    have "maps_ok db'"
      unfolding maps_ok_def
    proof (intro conjI)
      show "fresh_ids mr_id (id_maps db') (id_next db')" using fresh_ids_append [OF maps(1), of m] by (simp add: db' m_def)
      show "distinct (filter (\<lambda>v. v \<noteq> None) (map mr_valve_match (id_maps db')))" using maps(2) unbound by (auto simp: db' m_def)
      show "distinct (filter (\<lambda>k. snd k \<noteq> None) (map (\<lambda>m. (mr_series m, mr_number m)) (id_maps db')))"
        using maps(3) None by (auto simp: db' m_def slot_def find_row_None_iff split: option.splits)
      show "\<forall>m \<in> set (id_maps db'). \<exists>i s. mr_series m = Some i \<and> s \<in> set (id_series db') \<and> ser_id s = i"
        using maps(4) s by (auto simp: db' m_def)
    qed
    moreover have "keys_ok db'" "series_ok db'" using identity_invD(1,2) [OF inv] by (simp_all add: db' keys_ok_def series_ok_def fresh_ids_Suc)
    moreover have "map_by_match db' v = Some m" using new by (simp add: map_by_match_def db' m_def)
    ultimately show ?thesis by (simp add: identity_inv_def) (simp add: db' m_def)
  next
    case (Some m)
    define f where "f = (\<lambda>r :: identity_map. r\<lparr>mr_valve_match := Some v\<rparr>)"
    have db': "i = mr_id m" "db' = db\<lparr>id_maps := update_first (\<lambda>r. mr_id r = mr_id m) f (id_maps db)\<rparr>"
      using run Some by (auto simp: bind_map_def slot_def [symmetric] f_def)
    have m: "m \<in> set (id_maps db)" "mr_series m = Some (ser_id s)"
      using Some by (auto simp: slot_def split: option.splits dest: find_row_SomeD)
    have kept: "map (\<lambda>m. (mr_series m, mr_number m)) (id_maps db') = map (\<lambda>m. (mr_series m, mr_number m)) (id_maps db)"
      unfolding db' by simp (rule map_update_first, simp add: f_def)
    have "maps_ok db'"
      unfolding maps_ok_def
    proof (intro conjI)
      show "fresh_ids mr_id (id_maps db') (id_next db')"
        unfolding db' by simp (rule fresh_ids_update [OF maps(1)], simp add: f_def)
      show "distinct (filter (\<lambda>v. v \<noteq> None) (map mr_valve_match (id_maps db')))"
        using distinct_filter_update [OF maps(2) unbound, of f "\<lambda>r. mr_id r = mr_id m"] by (simp add: db' f_def)
      show "distinct (filter (\<lambda>k. snd k \<noteq> None) (map (\<lambda>m. (mr_series m, mr_number m)) (id_maps db')))"
        unfolding kept by (rule maps(3))
      show "\<forall>m \<in> set (id_maps db'). \<exists>i s. mr_series m = Some i \<and> s \<in> set (id_series db') \<and> ser_id s = i"
      proof
        fix r assume "r \<in> set (id_maps db')"
        then obtain r0 where "r0 \<in> set (id_maps db)" "mr_series r = mr_series r0"
          using in_update_firstD [of r "\<lambda>r. mr_id r = mr_id m" f "id_maps db"] by (auto simp: db' f_def)
        then show "\<exists>i s. mr_series r = Some i \<and> s \<in> set (id_series db') \<and> ser_id s = i" using maps(4) by (auto simp: db')
      qed
    qed
    moreover have "keys_ok db'" "series_ok db'" using identity_invD(1,2) [OF inv] by (simp_all add: db' keys_ok_def series_ok_def)
    moreover have "map_by_match db' v = Some (f m)"
    proof -
      have "find_row (\<lambda>r. mr_valve_match r = Some v) (update_first (\<lambda>r. mr_id r = mr_id m) f t) = Some (f m)"
        if "distinct (map mr_id t)" "m \<in> set t" "Some v \<notin> mr_valve_match ` set t" for t
        using that by (induction t) (auto simp: f_def)
      then show ?thesis using maps(1) m(1) unbound by (simp add: map_by_match_def db' fresh_ids_def)
    qed
    ultimately show ?thesis using m(2) by (simp add: identity_inv_def) (simp add: db' f_def)
  qed
  then show "identity_inv db'" "\<exists>m. map_by_match db' v = Some m \<and> mr_id m = i \<and> mr_series m = Some (ser_id s)"
    "id_series db' = id_series db \<and> id_team_mappings db' = id_team_mappings db \<and> id_match_mappings db' = id_match_mappings db" by blast+
qed

lemma bind_series_match_ok: "step_ok db (bind_series_match db n i m v how)"
proof (cases n)
  case (Some k)
  show ?thesis
  proof (cases "match_mapping_for db ''dltv'' (str_int k)")
    case None
    then show ?thesis using keys_match [of db "''dltv''" "str_int k"] by (simp add: bind_series_match_def Some step_ok_def keeps_same Let_def)
  next
    case (Some r)
    then show ?thesis using keys_match_update [of db] \<open>n = Some k\<close> by (simp add: bind_series_match_def step_ok_def keeps_same Let_def)
  qed
qed (simp add: bind_series_match_def)

subsection \<open>Matches\<close>

text \<open>A successful resolution, taken apart.\<close>

lemma bootstrap_cases:
  assumes "resolve_dltv_bootstrap window db bi = Inr (r, db')"
  obtains a db1 b db2 radiant dire s where
    "resolve_team db ''dltv'' (str_int (bi_first_team bi)) (bi_first_name bi) = Inr (a, db1)"
    "resolve_team db1 ''dltv'' (str_int (bi_second_team bi)) (bi_second_name bi) = Inr (b, db2)"
    "canonical_sides bi a b = Inr (radiant, dire)" "validate_series_sides s radiant dire = Inr ()"
    "(\<exists>m. map_by_match db2 (bi_valve_match bi) = Some m \<and> Option.bind (mr_series m) (series_by_id db2) = Some s \<and>
        validate_series_teams s a b = Inr () \<and> r = resolved_of bi s (mr_id m) radiant dire ''VALVE_MATCH_ID'' \<and> db' = db2) \<or>
     (\<exists>db3 i db4. map_by_match db2 (bi_valve_match bi) = None \<and> series_candidates window db2 a b (bi_started_at bi) None = [s] \<and>
        bind_provider_event db2 ''dltv'' (map_option str_int (bi_event bi)) (ser_event s) = Inr db3 \<and>
        bind_map db3 s (bi_map_number bi) (bi_valve_match bi) = (i, db4) \<and>
        r = resolved_of bi s i radiant dire ''LIQUIPEDIA_TEAMS_TIME'' \<and>
        db' = bind_series_match db4 (bi_series bi) (ser_id s) i (bi_valve_match bi) ''LIQUIPEDIA_TEAMS_TIME'')"
proof -
  note run = assms [unfolded resolve_dltv_bootstrap_def]
  obtain a db1 where t1: "resolve_team db ''dltv'' (str_int (bi_first_team bi)) (bi_first_name bi) = Inr (a, db1)"
    using run by (auto split: sum.splits)
  obtain b db2 where t2: "resolve_team db1 ''dltv'' (str_int (bi_second_team bi)) (bi_second_name bi) = Inr (b, db2)"
    using run t1 by (auto split: sum.splits)
  obtain radiant dire where sides: "canonical_sides bi a b = Inr (radiant, dire)"
    using run t1 t2 by (auto split: sum.splits)
  show ?thesis
  proof (cases "map_by_match db2 (bi_valve_match bi)")
    case (Some m)
    then obtain s where s: "Option.bind (mr_series m) (series_by_id db2) = Some s"
      using run t1 t2 sides by (cases "Option.bind (mr_series m) (series_by_id db2)") auto
    have "validate_series_teams s a b = Inr () \<and> validate_series_sides s radiant dire = Inr () \<and>
        r = resolved_of bi s (mr_id m) radiant dire ''VALVE_MATCH_ID'' \<and> db' = db2"
      using run t1 t2 sides Some s by (auto split: sum.splits)
    then show ?thesis using that [OF t1 t2 sides, of s] Some s by blast
  next
    case None
    then obtain s where one: "series_candidates window db2 a b (bi_started_at bi) None = [s]"
      using run t1 t2 sides by (auto split: list.splits)
    then obtain db3 where ev: "bind_provider_event db2 ''dltv'' (map_option str_int (bi_event bi)) (ser_event s) = Inr db3"
      using run t1 t2 sides None by (auto split: sum.splits)
    obtain i db4 where bm: "bind_map db3 s (bi_map_number bi) (bi_valve_match bi) = (i, db4)" by fastforce
    have "validate_series_sides s radiant dire = Inr () \<and> r = resolved_of bi s i radiant dire ''LIQUIPEDIA_TEAMS_TIME'' \<and>
        db' = bind_series_match db4 (bi_series bi) (ser_id s) i (bi_valve_match bi) ''LIQUIPEDIA_TEAMS_TIME''"
      using run t1 t2 sides None one ev bm by (auto split: sum.splits)
    then show ?thesis using that [OF t1 t2 sides, of s] None one ev bm by blast
  qed
qed

lemma series_by_id_in:
  assumes "identity_inv db" and "s \<in> set (id_series db)"
  shows "series_by_id db (ser_id s) = Some s"
  unfolding series_by_id_def
  by (rule find_row_unique [where key = ser_id]) (use assms in \<open>simp_all add: inv_defs fresh_ids_def\<close>)

text \<open>What a resolution establishes.\<close>

definition resolved_ok :: "identity_db \<Rightarrow> bootstrap_identity \<Rightarrow> resolved_map \<Rightarrow> bool" where
  "resolved_ok db bi r \<longleftrightarrow>
     (\<exists>m s a b. map_by_match db (bi_valve_match bi) = Some m \<and> mr_id m = rs_map r \<and> mr_series m = Some (rs_series r) \<and>
        series_by_id db (rs_series r) = Some s \<and> ser_id s = rs_series r \<and> ser_team_a s = rs_team_a r \<and> ser_team_b s = rs_team_b r \<and>
        a \<noteq> b \<and> {rs_team_a r, rs_team_b r} = {a, b} \<and>
        map_option tm_team (team_mapping_for db ''dltv'' (str_int (bi_first_team bi))) = Some a \<and>
        map_option tm_team (team_mapping_for db ''dltv'' (str_int (bi_second_team bi))) = Some b \<and>
        canonical_sides bi a b = Inr (rs_radiant r, rs_dire r) \<and> validate_series_sides s (rs_radiant r) (rs_dire r) = Inr ())"

lemma validated_sides:
  assumes "validate_series_sides s radiant dire = Inr ()"
  shows "radiant = None \<and> dire = None \<or>
    (\<exists>x y. radiant = Some x \<and> dire = Some y \<and> x \<noteq> y \<and> {x, y} = {ser_team_a s, ser_team_b s})"
  using assms by (simp add: validate_series_sides_def split: option.splits if_splits)

lemma bootstrap_resolves:
  assumes inv: "identity_inv db" and run: "resolve_dltv_bootstrap window db bi = Inr (r, db')"
  shows "identity_inv db' \<and> resolved_ok db' bi r"
proof -
  obtain a db1 b db2 radiant dire s where
      t1: "resolve_team db ''dltv'' (str_int (bi_first_team bi)) (bi_first_name bi) = Inr (a, db1)"
    and t2: "resolve_team db1 ''dltv'' (str_int (bi_second_team bi)) (bi_second_name bi) = Inr (b, db2)"
    and sides: "canonical_sides bi a b = Inr (radiant, dire)" and fits: "validate_series_sides s radiant dire = Inr ()"
    and res: "(\<exists>m. map_by_match db2 (bi_valve_match bi) = Some m \<and> Option.bind (mr_series m) (series_by_id db2) = Some s \<and>
        validate_series_teams s a b = Inr () \<and> r = resolved_of bi s (mr_id m) radiant dire ''VALVE_MATCH_ID'' \<and> db' = db2) \<or>
     (\<exists>db3 i db4. map_by_match db2 (bi_valve_match bi) = None \<and> series_candidates window db2 a b (bi_started_at bi) None = [s] \<and>
        bind_provider_event db2 ''dltv'' (map_option str_int (bi_event bi)) (ser_event s) = Inr db3 \<and>
        bind_map db3 s (bi_map_number bi) (bi_valve_match bi) = (i, db4) \<and>
        r = resolved_of bi s i radiant dire ''LIQUIPEDIA_TEAMS_TIME'' \<and>
        db' = bind_series_match db4 (bi_series bi) (ser_id s) i (bi_valve_match bi) ''LIQUIPEDIA_TEAMS_TIME'')"
    by (rule bootstrap_cases [OF run])
  note s1 = resolve_team_step [OF t1 [unfolded resolve_team_def]] and s2 = resolve_team_step [OF t2 [unfolded resolve_team_def]]
  have inv2: "identity_inv db2" using s1(1) s2(1) inv by blast
  have first: "map_option tm_team (team_mapping_for db2 ''dltv'' (str_int (bi_first_team bi))) = Some a"
    using s1(2) s2(3) by fastforce
  have second: "map_option tm_team (team_mapping_for db2 ''dltv'' (str_int (bi_second_team bi))) = Some b" by (rule s2(2))
  show ?thesis using res
  proof (elim disjE exE conjE)
    fix m assume m: "map_by_match db2 (bi_valve_match bi) = Some m" "Option.bind (mr_series m) (series_by_id db2) = Some s"
      "validate_series_teams s a b = Inr ()" "r = resolved_of bi s (mr_id m) radiant dire ''VALVE_MATCH_ID''" "db' = db2"
    then obtain i where i: "mr_series m = Some i" "series_by_id db2 i = Some s" by (cases "mr_series m") auto
    have s: "s \<in> set (id_series db2)" "ser_id s = i" using find_row_SomeD [OF i(2) [unfolded series_by_id_def]] by simp_all
    have "{ser_team_a s, ser_team_b s} = {a, b}" using m(3) by (simp add: validate_series_teams_def split: if_splits)
    moreover have "ser_team_a s \<noteq> ser_team_b s" using inv2 s(1) by (simp add: inv_defs)
    ultimately have "a \<noteq> b" "{ser_team_a s, ser_team_b s} = {a, b}" by auto
    then have "resolved_ok db2 bi r"
      unfolding resolved_ok_def
      by (intro exI [of _ m] exI [of _ s] exI [of _ a] exI [of _ b])
        (use m(1,4) i s(2) first second sides fits in \<open>simp add: resolved_of_def\<close>)
    then show ?thesis using inv2 m(5) by simp
  next
    fix db3 i db4
    assume m: "map_by_match db2 (bi_valve_match bi) = None" "series_candidates window db2 a b (bi_started_at bi) None = [s]"
      "bind_provider_event db2 ''dltv'' (map_option str_int (bi_event bi)) (ser_event s) = Inr db3"
      "bind_map db3 s (bi_map_number bi) (bi_valve_match bi) = (i, db4)"
      "r = resolved_of bi s i radiant dire ''LIQUIPEDIA_TEAMS_TIME''"
      "db' = bind_series_match db4 (bi_series bi) (ser_id s) i (bi_valve_match bi) ''LIQUIPEDIA_TEAMS_TIME''"
    have "s \<in> set (series_candidates window db2 a b (bi_started_at bi) None)" using m(2) by simp
    then have s: "s \<in> set (id_series db2)" "teams_match s a b" by (auto simp: series_candidates_def split: option.splits)
    have step3: "step_ok db2 db3" "id_series db3 = id_series db2" using bind_event_ok [OF m(3)] by simp_all
    then have inv3: "identity_inv db3" "map_by_match db3 (bi_valve_match bi) = None"
      using inv2 m(1) by (simp_all add: step_ok_def keeps_def map_by_match_def)
    have s3: "s \<in> set (id_series db3)" using s(1) step3(2) by simp
    note b4 = bind_map_ok [OF inv3(1) s3 inv3(2) m(4)]
    have step5: "step_ok db4 db'" unfolding m(6) by (rule bind_series_match_ok)
    obtain x where x: "map_by_match db4 (bi_valve_match bi) = Some x" "mr_id x = i" "mr_series x = Some (ser_id s)" using b4(2) by blast
    have x': "map_by_match db' (bi_valve_match bi) = Some x" using x(1) step5 by (simp add: step_ok_def keeps_def map_by_match_def)
    have inv': "identity_inv db'" using b4(1) step5 by (simp add: step_ok_def)
    have "id_series db' = id_series db4" by (simp add: m(6) bind_series_match_def Let_def split: option.split)
    then have s': "series_by_id db' (ser_id s) = Some s" using series_by_id_in [OF inv', of s] s3 b4(3) by simp
    have teams: "map_option tm_team (team_mapping_for db' ''dltv'' (str_int (bi_first_team bi))) = Some a"
      "map_option tm_team (team_mapping_for db' ''dltv'' (str_int (bi_second_team bi))) = Some b"
    proof -
      have "keeps db2 db3" "keeps db4 db'" "id_team_mappings db4 = id_team_mappings db3" using step3 step5 b4(3) by (simp_all add: step_ok_def)
      then have "team_mapping_for db2 q l = Some z \<Longrightarrow> team_mapping_for db' q l = Some z" for q l z
        by (auto simp: keeps_def team_mapping_for_def)
      then show "map_option tm_team (team_mapping_for db' ''dltv'' (str_int (bi_first_team bi))) = Some a"
        "map_option tm_team (team_mapping_for db' ''dltv'' (str_int (bi_second_team bi))) = Some b" using first second by fastforce+
    qed
    have "ser_team_a s \<noteq> ser_team_b s" using inv2 s(1) by (simp add: inv_defs)
    then have "a \<noteq> b" "{ser_team_a s, ser_team_b s} = {a, b}" using s(2) by (auto simp: teams_match_def)
    then have "resolved_ok db' bi r"
      unfolding resolved_ok_def
      by (intro exI [of _ x] exI [of _ s] exI [of _ a] exI [of _ b])
        (use x(2,3) x' s' teams sides fits in \<open>simp add: resolved_of_def m(5)\<close>)
    then show ?thesis using inv' by simp
  qed
qed

lemma resolved_ok_keeps:
  assumes "resolved_ok db bi r" and "keeps db db'"
  shows "resolved_ok db' bi r"
proof -
  obtain m s a b where r: "map_by_match db (bi_valve_match bi) = Some m" "mr_id m = rs_map r" "mr_series m = Some (rs_series r)"
      "series_by_id db (rs_series r) = Some s" "ser_id s = rs_series r" "ser_team_a s = rs_team_a r" "ser_team_b s = rs_team_b r"
      "a \<noteq> b" "{rs_team_a r, rs_team_b r} = {a, b}"
      "map_option tm_team (team_mapping_for db ''dltv'' (str_int (bi_first_team bi))) = Some a"
      "map_option tm_team (team_mapping_for db ''dltv'' (str_int (bi_second_team bi))) = Some b"
      "canonical_sides bi a b = Inr (rs_radiant r, rs_dire r)" "validate_series_sides s (rs_radiant r) (rs_dire r) = Inr ()"
    using assms(1) unfolding resolved_ok_def by blast
  obtain s' where s': "series_by_id db' (rs_series r) = Some s'" "ser_id s' = ser_id s" "ser_team_a s' = ser_team_a s" "ser_team_b s' = ser_team_b s"
    using assms(2) r(4) unfolding keeps_def by blast
  have m: "map_by_match db' (bi_valve_match bi) = Some m" using assms(2) r(1) by (simp add: keeps_def map_by_match_def)
  have teams: "map_option tm_team (team_mapping_for db' ''dltv'' (str_int (bi_first_team bi))) = Some a"
    "map_option tm_team (team_mapping_for db' ''dltv'' (str_int (bi_second_team bi))) = Some b"
    using assms(2) r(10,11) unfolding keeps_def by fastforce+
  have "validate_series_sides s' (rs_radiant r) (rs_dire r) = validate_series_sides s (rs_radiant r) (rs_dire r)"
    unfolding validate_series_sides_def s'(3,4) ..
  then have "validate_series_sides s' (rs_radiant r) (rs_dire r) = Inr ()" using r(13) by simp
  then show ?thesis
    unfolding resolved_ok_def
    by (intro exI [of _ m] exI [of _ s'] exI [of _ a] exI [of _ b]) (use m r s' teams in simp)
qed

text \<open>Resolving a match that has its map again finds the same map and changes nothing.\<close>

lemma resolves_again:
  assumes ok: "resolved_ok db bi r"
  shows "\<exists>r'. resolve_dltv_bootstrap window db bi = Inr (r', db) \<and> rs_map r' = rs_map r \<and> rs_series r' = rs_series r \<and>
    rs_team_a r' = rs_team_a r \<and> rs_team_b r' = rs_team_b r \<and> rs_radiant r' = rs_radiant r \<and> rs_dire r' = rs_dire r"
proof -
  obtain m s a b where r: "map_by_match db (bi_valve_match bi) = Some m" "mr_id m = rs_map r" "mr_series m = Some (rs_series r)"
      "series_by_id db (rs_series r) = Some s" "ser_id s = rs_series r" "ser_team_a s = rs_team_a r" "ser_team_b s = rs_team_b r"
      "{rs_team_a r, rs_team_b r} = {a, b}"
      "map_option tm_team (team_mapping_for db ''dltv'' (str_int (bi_first_team bi))) = Some a"
      "map_option tm_team (team_mapping_for db ''dltv'' (str_int (bi_second_team bi))) = Some b"
      "canonical_sides bi a b = Inr (rs_radiant r, rs_dire r)" "validate_series_sides s (rs_radiant r) (rs_dire r) = Inr ()"
    using ok unfolding resolved_ok_def by blast
  have t: "resolve_team db ''dltv'' (str_int (bi_first_team bi)) (bi_first_name bi) = Inr (a, db)"
    "resolve_team db ''dltv'' (str_int (bi_second_team bi)) (bi_second_name bi) = Inr (b, db)"
    using r(9,10) by (auto simp: resolve_team_def resolve_team_as_def)
  have v: "validate_series_teams s a b = Inr ()" using r(6,7,8) by (simp add: validate_series_teams_def)
  have "resolve_dltv_bootstrap window db bi =
      Inr (resolved_of bi s (mr_id m) (rs_radiant r) (rs_dire r) ''VALVE_MATCH_ID'', db)"
    by (simp add: resolve_dltv_bootstrap_def t r(1,3,4,11,12) v)
  then show ?thesis using r(2,5,6,7) by (simp add: resolved_of_def)
qed

subsection \<open>Players and heroes\<close>

lemma player_ok: "step_ok db (snd (resolve_dltv_player db account))"
proof (cases "find_row (\<lambda>m. py_provider m = ''dltv'' \<and> py_key m = str_int account) (id_player_mappings db)")
  case None
  have keys: "unique_keys player_key (id_player_mappings db @ [\<lparr>py_provider = ''dltv'', py_key = str_int account, py_player = i\<rparr>])"
    if "identity_inv db" for i
    by (rule unique_keys_new [OF _ None]) (use that in \<open>simp_all add: inv_defs player_key_def\<close>)
  have "identity_inv (snd (resolve_dltv_player db account))" if "identity_inv db"
    using that keys [OF that] inv_next [OF that]
    by (simp add: resolve_dltv_player_def None split_beta inv_defs split: option.split)
  moreover have "keeps db (snd (resolve_dltv_player db account))"
    by (rule keeps_same) (simp_all add: resolve_dltv_player_def None split_beta split: option.split)
  ultimately show ?thesis by (simp add: step_ok_def)
qed (simp add: resolve_dltv_player_def)

lemma hero_ok: "step_ok db (snd (resolve_dltv_hero hero_names db hero_id name))"
proof -
  define db1 where "db1 = (let mapping = find_row (\<lambda>m. hm_provider m = ''dltv'' \<and> hm_key m = str_int hero_id) (id_hero_mappings db) in
     snd (resolve_dltv_hero hero_names db hero_id name)\<lparr>id_hero_mappings := id_hero_mappings db\<rparr>)"
  have same: "id_team_mappings db1 = id_team_mappings db" "id_maps db1 = id_maps db" "id_series db1 = id_series db"
      "id_event_mappings db1 = id_event_mappings db" "id_player_mappings db1 = id_player_mappings db"
      "id_match_mappings db1 = id_match_mappings db" "id_next db1 = id_next db" "id_hero_mappings db1 = id_hero_mappings db"
    by (simp_all add: db1_def resolve_dltv_hero_def Let_def split: option.split)
  have keys: "unique_keys hero_key (id_hero_mappings (snd (resolve_dltv_hero hero_names db hero_id name)))" if "identity_inv db"
  proof (cases "find_row (\<lambda>m. hm_provider m = ''dltv'' \<and> hm_key m = str_int hero_id) (id_hero_mappings db)")
    case None
    have "id_hero_mappings (snd (resolve_dltv_hero hero_names db hero_id name)) =
        id_hero_mappings db @ [\<lparr>hm_provider = ''dltv'', hm_key = str_int hero_id, hm_hero = hero_id\<rparr>]"
      by (simp add: resolve_dltv_hero_def None Let_def split: option.split)
    moreover have "unique_keys hero_key (id_hero_mappings db @ [\<lparr>hm_provider = ''dltv'', hm_key = str_int hero_id, hm_hero = hero_id\<rparr>])"
      by (rule unique_keys_new [OF _ None]) (use that in \<open>simp_all add: inv_defs hero_key_def\<close>)
    ultimately show ?thesis by simp
  next
    case (Some m)
    then have "id_hero_mappings (snd (resolve_dltv_hero hero_names db hero_id name)) = id_hero_mappings db"
      by (simp add: resolve_dltv_hero_def Let_def split: option.split)
    then show ?thesis using that by (simp add: inv_defs)
  qed
  have "keeps db (snd (resolve_dltv_hero hero_names db hero_id name))"
    by (rule keeps_same) (use same in \<open>simp_all add: db1_def\<close>)
  moreover have "identity_inv (snd (resolve_dltv_hero hero_names db hero_id name))" if "identity_inv db"
    using that keys [OF that] same by (simp add: inv_defs db1_def)
  ultimately show ?thesis by (simp add: step_ok_def)
qed

subsection \<open>All writers together\<close>

text \<open>The transactions that write identity, in any order.  One that raises is rolled back.\<close>

datatype identity_op =
  Discover provider_match
| Project "series_observation list"
| Tournaments "(string \<times> string) list"
| Bootstrap bootstrap_identity
| Player int
| Hero int "string option"

definition run_identity :: "duration \<Rightarrow> (int \<Rightarrow> string option) \<Rightarrow> identity_db \<Rightarrow> identity_op \<Rightarrow> identity_db" where
  "run_identity window hero_names db op =
     (case op of
        Discover pm \<Rightarrow> discover_identity window db pm
      | Project obs \<Rightarrow> (case project_series window db obs of Inl e \<Rightarrow> db | Inr (r, db') \<Rightarrow> db')
      | Tournaments obs \<Rightarrow> (case project_tournaments db obs of Inl e \<Rightarrow> db | Inr db' \<Rightarrow> db')
      | Bootstrap bi \<Rightarrow> (case resolve_dltv_bootstrap window db bi of Inl e \<Rightarrow> db | Inr (r, db') \<Rightarrow> db')
      | Player account \<Rightarrow> snd (resolve_dltv_player db account)
      | Hero h name \<Rightarrow> snd (resolve_dltv_hero hero_names db h name))"

definition empty_identity :: identity_db where
  "empty_identity = \<lparr>id_events = [], id_teams = [], id_aliases = [], id_players = [], id_heroes = [], id_series = [], id_maps = [],
     id_team_mappings = [], id_event_mappings = [], id_player_mappings = [], id_hero_mappings = [], id_match_mappings = [],
     id_odds = [], id_next = 0\<rparr>"

lemma keeps_refl [simp]: "keeps db db"
  by (simp add: keeps_def)

lemma project_outcomes_ok:
  "project_outcomes window db obs = Inr (rs, db') \<Longrightarrow> identity_inv db \<Longrightarrow> identity_inv db' \<and> keeps db db'"
proof (induction obs arbitrary: db rs)
  case (Cons ob obs)
  obtain r db1 where one: "project_one_series window db ob = Inr (r, db1)" using Cons.prems(1) by (auto split: sum.splits)
  obtain rs' where rest: "project_outcomes window db1 obs = Inr (rs', db')" using Cons.prems(1) one by (auto split: sum.splits)
  have "identity_inv db1 \<and> keeps db db1" by (rule project_ok [OF one Cons.prems(2)])
  then show ?case using Cons.IH [OF rest] keeps_trans by blast
qed simp

lemma project_tournaments_ok: "project_tournaments db obs = Inr db' \<Longrightarrow> step_ok db db'"
proof (induction obs arbitrary: db)
  case (Cons ob obs)
  obtain page name where ob: "ob = (page, name)" by fastforce
  obtain i db1 where one: "project_event db page name None = Inr (i, db1)" using Cons.prems by (auto simp: ob split: sum.splits)
  have "project_tournaments db1 obs = Inr db'" using Cons.prems one by (simp add: ob)
  then show ?case using Cons.IH project_event_ok [OF one] step_ok_trans by blast
qed simp

lemma discover_ok: "step_ok db (discover_identity window db pm)"
proof (cases "link window db pm")
  case (Inr x)
  obtain r db1 where x: "x = (r, db1)" by fastforce
  note s1 = link_ok [OF Inr [unfolded x]]
  have "step_ok db db2" if "observe_raybet_match window db1 pm = Inr (i, db2)" for i db2
    using s1 observe_ok [OF that] by (rule step_ok_trans)
  then show ?thesis using s1 by (auto simp: discover_identity_def Inr x split: sum.split)
qed (simp add: discover_identity_def)

lemma run_identity_ok:
  assumes "identity_inv db"
  shows "identity_inv (run_identity window hero_names db op)"
    "\<not> (\<exists>bi. op = Bootstrap bi) \<Longrightarrow> keeps db (run_identity window hero_names db op)"
proof -
  have "identity_inv (run_identity window hero_names db op) \<and>
      ((\<exists>bi. op = Bootstrap bi) \<or> keeps db (run_identity window hero_names db op))"
  proof (cases op)
    case (Discover pm)
    then show ?thesis using discover_ok [of db window pm] assms by (simp add: run_identity_def step_ok_def)
  next
    case (Project obs)
    show ?thesis
    proof (cases "project_outcomes window db obs")
      case (Inr x)
      then show ?thesis using project_outcomes_ok [of window db obs "fst x" "snd x"] assms
        by (simp add: Project run_identity_def project_series_def split_beta)
    qed (simp add: Project run_identity_def project_series_def assms)
  next
    case (Tournaments obs)
    show ?thesis
    proof (cases "project_tournaments db obs")
      case (Inr x)
      then show ?thesis using project_tournaments_ok [OF Inr] assms by (simp add: Tournaments run_identity_def step_ok_def)
    qed (simp add: Tournaments run_identity_def assms)
  next
    case (Bootstrap bi)
    show ?thesis
    proof (cases "resolve_dltv_bootstrap window db bi")
      case (Inr x)
      then show ?thesis using bootstrap_resolves [OF assms, of window bi "fst x" "snd x"] by (simp add: Bootstrap run_identity_def split_beta)
    qed (simp add: Bootstrap run_identity_def assms)
  next
    case (Player account)
    then show ?thesis using player_ok [of db account] assms by (simp add: run_identity_def step_ok_def)
  next
    case (Hero h name)
    then show ?thesis using hero_ok [of db hero_names h name] assms by (simp add: run_identity_def step_ok_def)
  qed
  then show "identity_inv (run_identity window hero_names db op)"
    "\<not> (\<exists>bi. op = Bootstrap bi) \<Longrightarrow> keeps db (run_identity window hero_names db op)" by blast+
qed

lemma run_identities_keep:
  assumes "identity_inv db" and "\<forall>op \<in> set ops. \<not> (\<exists>bi. op = Bootstrap bi)"
  shows "identity_inv (foldl (run_identity window hero_names) db ops) \<and> keeps db (foldl (run_identity window hero_names) db ops)"
  using assms
proof (induction ops arbitrary: db)
  case (Cons op ops)
  have step: "identity_inv (run_identity window hero_names db op)" "keeps db (run_identity window hero_names db op)"
    using run_identity_ok [OF Cons.prems(1)] Cons.prems(2) by simp_all
  then show ?case using Cons.IH [OF step(1)] Cons.prems(2) keeps_trans [OF step(2)] by simp
qed simp

text \<open>C38. Whatever discoveries, schedule projections, bootstraps, player and hero resolutions run, in any
  order, the identity tables stay consistent: one mapping per provider key, one map per Valve match and per
  number of a series, two different teams in every series, every map in a series that exists.\<close>

theorem identity_tables_stay_consistent:
  "identity_inv (foldl (run_identity window hero_names) empty_identity ops)"
proof (induction ops rule: rev_induct)
  case Nil
  then show ?case by (simp add: empty_identity_def inv_defs unique_keys_def fresh_ids_def)
next
  case (snoc op ops)
  then show ?case using run_identity_ok(1) by simp
qed

text \<open>A match bootstrap that resolves binds the match to one map of the series of its two teams, both
  known under their provider identifiers, with the sides, if given, on different teams of the series; and
  whatever discoveries, projections, player and hero resolutions run afterwards, resolving the match again
  finds the same map, series, teams and sides and writes nothing.\<close>

theorem match_resolution_is_sound_and_stable:
  assumes "resolve_dltv_bootstrap window (foldl (run_identity window hero_names) empty_identity before) bi = Inr (r, db1)"
    and "\<forall>op \<in> set ops. \<not> (\<exists>bi. op = Bootstrap bi)"
  defines "db \<equiv> foldl (run_identity window hero_names) db1 ops"
  shows "(\<exists>m s. map_by_match db1 (bi_valve_match bi) = Some m \<and> mr_id m = rs_map r \<and> mr_series m = Some (rs_series r) \<and>
      series_by_id db1 (rs_series r) = Some s \<and> rs_team_a r = ser_team_a s \<and> rs_team_b r = ser_team_b s) \<and>
    rs_team_a r \<noteq> rs_team_b r \<and>
    set (map (\<lambda>k. map_option tm_team (team_mapping_for db1 ''dltv'' (str_int k))) [bi_first_team bi, bi_second_team bi]) =
      {Some (rs_team_a r), Some (rs_team_b r)} \<and>
    (rs_radiant r = None \<and> rs_dire r = None \<or>
      (\<exists>x y. rs_radiant r = Some x \<and> rs_dire r = Some y \<and> x \<noteq> y \<and> {x, y} = {rs_team_a r, rs_team_b r})) \<and>
    (\<exists>r'. resolve_dltv_bootstrap window db bi = Inr (r', db) \<and> rs_map r' = rs_map r \<and> rs_series r' = rs_series r \<and>
      rs_team_a r' = rs_team_a r \<and> rs_team_b r' = rs_team_b r \<and> rs_radiant r' = rs_radiant r \<and> rs_dire r' = rs_dire r)"
proof -
  have inv: "identity_inv (foldl (run_identity window hero_names) empty_identity before)"
  proof (induction before rule: rev_induct)
    case Nil
    then show ?case by (simp add: empty_identity_def inv_defs unique_keys_def fresh_ids_def)
  next
    case (snoc op ops)
    then show ?case using run_identity_ok(1) by simp
  qed
  have res: "identity_inv db1" "resolved_ok db1 bi r" using bootstrap_resolves [OF inv assms(1)] by simp_all
  have "keeps db1 db" unfolding db_def using run_identities_keep [OF res(1) assms(2)] by simp
  then have again: "resolved_ok db bi r" by (rule resolved_ok_keeps [OF res(2)])
  obtain m s a b where d: "map_by_match db1 (bi_valve_match bi) = Some m" "mr_id m = rs_map r" "mr_series m = Some (rs_series r)"
      "series_by_id db1 (rs_series r) = Some s" "ser_team_a s = rs_team_a r" "ser_team_b s = rs_team_b r"
      "a \<noteq> b" "{rs_team_a r, rs_team_b r} = {a, b}"
      "map_option tm_team (team_mapping_for db1 ''dltv'' (str_int (bi_first_team bi))) = Some a"
      "map_option tm_team (team_mapping_for db1 ''dltv'' (str_int (bi_second_team bi))) = Some b"
      "validate_series_sides s (rs_radiant r) (rs_dire r) = Inr ()"
    using res(2) unfolding resolved_ok_def by blast
  have mapped: "set (map (\<lambda>k. map_option tm_team (team_mapping_for db1 ''dltv'' (str_int k))) [bi_first_team bi, bi_second_team bi]) =
      {Some (rs_team_a r), Some (rs_team_b r)}"
  proof -
    have "Some ` {rs_team_a r, rs_team_b r} = Some ` {a, b}" by (rule arg_cong [OF d(8)])
    then show ?thesis by (simp only: list.map list.set d(9,10) image_insert image_empty)
  qed
  have differ: "rs_team_a r \<noteq> rs_team_b r" using d(7,8) by auto
  have sides: "rs_radiant r = None \<and> rs_dire r = None \<or>
      (\<exists>x y. rs_radiant r = Some x \<and> rs_dire r = Some y \<and> x \<noteq> y \<and> {x, y} = {rs_team_a r, rs_team_b r})"
    using validated_sides [OF d(11)] unfolding d(5,6) .
  show ?thesis
    by (intro conjI exI [of _ m] exI [of _ s]) (use d(1-6) mapped differ sides resolves_again [OF again, of window] in simp_all)
qed

definition demo_schedule :: series_observation where
  "demo_schedule =
     \<lparr>so_team_a_name = ''Team Spirit'', so_team_a_page = Some ''Team_Spirit'', so_team_b_name = ''Liquid'', so_team_b_page = Some ''Liquid'',
      so_tournament_name = Some ''TI'', so_tournament_page = Some ''TI'', so_stage = Some ''Group'', so_best_of = Some 3,
      so_scheduled_at = Some 0, so_provider_key = ''k''\<rparr>"

definition demo_bootstrap :: bootstrap_identity where
  "demo_bootstrap =
     \<lparr>bi_valve_match = 77, bi_series = Some 5, bi_event = Some 9, bi_first_team = 1, bi_first_name = ''Spirit'', bi_second_team = 2,
      bi_second_name = ''Team Liquid'', bi_radiant = Some 2, bi_dire = Some 1, bi_side_source = None, bi_side_confidence = None,
      bi_started_at = Some 1000, bi_map_number = Some 1\<rparr>"

lemma match_resolution_is_sound_and_stable_witness:
  "\<exists>r db1. resolve_dltv_bootstrap 10800000000 (foldl (run_identity 10800000000 (\<lambda>h. None)) empty_identity [Project [demo_schedule]]) demo_bootstrap =
       Inr (r, db1) \<and>
     (\<exists>r'. resolve_dltv_bootstrap 10800000000
         (foldl (run_identity 10800000000 (\<lambda>h. None)) db1 [Player 4, Hero 8 (Some ''Axe''), Project [demo_schedule]]) demo_bootstrap =
         Inr (r', foldl (run_identity 10800000000 (\<lambda>h. None)) db1 [Player 4, Hero 8 (Some ''Axe''), Project [demo_schedule]]) \<and>
       rs_map r' = rs_map r)"
proof -
  have "\<not> Sum_Type.isl (resolve_dltv_bootstrap 10800000000
      (foldl (run_identity 10800000000 (\<lambda>h. None)) empty_identity [Project [demo_schedule]]) demo_bootstrap)"
    by code_simp
  then obtain x where x: "resolve_dltv_bootstrap 10800000000
      (foldl (run_identity 10800000000 (\<lambda>h. None)) empty_identity [Project [demo_schedule]]) demo_bootstrap = Inr x"
    by (cases "resolve_dltv_bootstrap 10800000000
      (foldl (run_identity 10800000000 (\<lambda>h. None)) empty_identity [Project [demo_schedule]]) demo_bootstrap") simp_all
  obtain r db1 where "x = (r, db1)" by fastforce
  note run = x [unfolded this]
  have ops: "\<forall>op \<in> set [Player 4, Hero 8 (Some ''Axe''), Project [demo_schedule]]. \<not> (\<exists>bi. op = Bootstrap bi)" by simp
  show ?thesis using match_resolution_is_sound_and_stable [OF run ops] run by (metis (no_types, lifting))
qed

end
