(* ===== verification/Draft.thy ===== *)
theory Draft
  imports Live
begin

text \<open>
  Drafts: the picks of a DLTV payload (\<open>app/providers/dltv/draft_picks.py\<close>), the roles of a STRATZ
  response (\<open>app/providers/stratz/role_queries.py\<close>), the assignment of Dota positions
  (\<open>app/draft/role_assignment.py\<close>, the records of \<open>app/domain/draft.py\<close>) and the features of a draft
  curve (\<open>app/draft/features.py\<close>).  The response of STRATZ is an argument, absent when there is no
  client or the call raised.
\<close>

subsection \<open>Data\<close>

record draft_pick =
  dp_side :: string
  dp_slot :: int
  dp_account :: "int option"
  dp_hero :: "int option"

record draft_slot =
  ds_side :: string
  ds_position :: int
  ds_account :: "int option"
  ds_hero :: "int option"
  ds_source :: string
  ds_confidence :: rat

record draft_validation =
  dv_complete :: bool
  dv_slots :: "draft_slot list"
  dv_blockers :: "string list"
  dv_warnings :: "string list"

record role_resolution =
  rr_draft :: draft_validation
  rr_cutoff :: time

text \<open>A row of a player in a historical map, joined with the map.\<close>

record history_row =
  hr_account :: int
  hr_position :: "int option"
  hr_basic_usable_at :: time
  hr_match :: string
  hr_provider :: string
  hr_started_at :: time
  hr_map_usable_at :: time
  hr_sync_status :: string

definition draft_sides :: "string list" where
  "draft_sides = [''radiant'', ''dire'']"

definition dota_positions :: "int list" where
  "dota_positions = [1, 2, 3, 4, 5]"

subsection \<open>Picks\<close>

text \<open>Python's \<open>v == n\<close> for a number \<open>n\<close>: \<open>True\<close> is 1, \<open>False\<close> is 0.\<close>

definition equals_int :: "json \<Rightarrow> int \<Rightarrow> bool" where
  "equals_int v n \<longleftrightarrow>
     (case v of JInt i \<Rightarrow> i = n | JNum r \<Rightarrow> r = of_int n | JBool b \<Rightarrow> (if b then 1 else 0) = n | _ \<Rightarrow> False)"

definition positive_int :: "json \<Rightarrow> int option" where
  "positive_int v = (case optional_int v of None \<Rightarrow> None | Some i \<Rightarrow> if 0 < i then Some i else None)"

definition parse_pick :: "json \<Rightarrow> draft_pick option" where
  "parse_pick player =
     (case player of
        JObj fs \<Rightarrow>
          (let team = json_get fs ''team''
           in case optional_int (json_get fs ''team_slot'') of
                None \<Rightarrow> None
              | Some slot \<Rightarrow>
                  if \<not> (equals_int team 0 \<or> equals_int team 1) \<or> slot \<notin> set dota_positions then None
                  else Some \<lparr>dp_side = (if equals_int team 0 then ''radiant'' else ''dire''), dp_slot = slot,
                             dp_account = optional_int (json_get fs ''account_id''), dp_hero = positive_int (json_get fs ''hero_id'')\<rparr>)
      | _ \<Rightarrow> None)"

definition parse_dltv_provider_picks :: "(string \<times> json) list \<Rightarrow> draft_pick list" where
  "parse_dltv_provider_picks payload =
     (case json_get payload ''players'' of
        JList players \<Rightarrow>
          if length players \<noteq> 10 then []
          else (case all_some (map parse_pick players) of None \<Rightarrow> [] | Some picks \<Rightarrow> picks)
      | _ \<Rightarrow> [])"

definition pick_blockers :: "draft_pick list \<Rightarrow> string list" where
  "pick_blockers picks =
     (if length picks \<noteq> 10 then [''DRAFT_PARTIAL'']
      else
        (let heroes = List.map_filter dp_hero picks; accounts = List.map_filter dp_account picks
         in fromkeys
              ((if length heroes \<noteq> 10 then [''DRAFT_PARTIAL'']
                else if \<not> distinct heroes then [''DRAFT_HERO_DUPLICATE''] else []) @
               (if length accounts \<noteq> 10 \<or> \<not> distinct accounts then [''ROSTER_IDENTITY_PARTIAL''] else []) @
               concat (map (\<lambda>side.
                  let side_picks = filter (\<lambda>p. dp_side p = side) picks
                  in if length side_picks \<noteq> 5 then [''DRAFT_PARTIAL'']
                     else if set (map dp_slot side_picks) \<noteq> set dota_positions then [''DRAFT_PROVIDER_SLOT_INVALID''] else []) draft_sides))))"

subsection \<open>Validation\<close>

definition side_complete :: "draft_slot list \<Rightarrow> string \<Rightarrow> bool" where
  "side_complete slots side \<longleftrightarrow>
     (let side_slots = filter (\<lambda>s. ds_side s = side) slots
      in length side_slots = 5 \<and> set (map ds_position side_slots) = set dota_positions)"

definition validate_role_assignment :: "draft_slot list \<Rightarrow> draft_validation" where
  "validate_role_assignment slots =
     (let blockers = (if length slots \<noteq> 10 then [''DRAFT_POSITION_UNRESOLVED''] else []) @
            concat (map (\<lambda>side. if side_complete slots side then [] else [''DRAFT_POSITION_UNRESOLVED'']) draft_sides)
      in \<lparr>dv_complete = (blockers = []), dv_slots = sort_key (\<lambda>s. (ds_side s, ds_position s)) slots,
          dv_blockers = fromkeys blockers, dv_warnings = []\<rparr>)"

subsection \<open>The roles of the current match\<close>

definition parse_position :: "json \<Rightarrow> int option" where
  "parse_position v =
     (case v of
        JInt i \<Rightarrow> if i \<in> set dota_positions then Some i else None
      | JStr s \<Rightarrow>
          (let n = upper (strip s); suffix = drop 9 n
           in if \<not> starts_with ''POSITION_'' n \<or> suffix = [] \<or> \<not> list_all is_digit suffix then None
              else (let p = int (val_of_digits suffix) in if p \<in> set dota_positions then Some p else None))
      | _ \<Rightarrow> None)"

type_synonym role_row = "(string \<times> int \<times> int) \<times> int"

definition role_row_of :: "json \<Rightarrow> role_row option" where
  "role_row_of row =
     (case row of
        JObj fs \<Rightarrow>
          (case (optional_int (json_get fs ''steamAccountId''), positive_int (json_get fs ''heroId''),
                 parse_position (json_get fs ''position''), json_get fs ''isRadiant'') of
             (Some account, Some hero, Some position, JBool radiant) \<Rightarrow>
               Some ((if radiant then ''radiant'' else ''dire'', account, hero), position)
           | _ \<Rightarrow> None)
      | _ \<Rightarrow> None)"

definition normalize_current_match_roles :: "(string \<times> json) list \<Rightarrow> int \<Rightarrow> role_row list" where
  "normalize_current_match_roles payload match_id =
     (case json_get payload ''data'' of
        JObj data \<Rightarrow>
          (case json_get data ''match'' of
             JObj m \<Rightarrow>
               if \<not> equals_int (json_get m ''id'') match_id then []
               else (case json_get m ''players'' of JList rows \<Rightarrow> List.map_filter role_row_of rows | _ \<Rightarrow> [])
           | _ \<Rightarrow> [])
      | _ \<Rightarrow> [])"

definition current_slot :: "role_row list \<Rightarrow> draft_pick \<Rightarrow> draft_slot option" where
  "current_slot rows p =
     (case (dp_account p, dp_hero p) of
        (Some account, Some hero) \<Rightarrow>
          (case map_of (rev rows) (dp_side p, account, hero) of
             None \<Rightarrow> None
           | Some position \<Rightarrow>
               Some \<lparr>ds_side = dp_side p, ds_position = position, ds_account = Some account, ds_hero = Some hero,
                     ds_source = ''STRATZ_CURRENT_MATCH'', ds_confidence = 1\<rparr>)
      | _ \<Rightarrow> None)"

definition resolve_current_match ::
  "((string \<times> json) list \<times> time) option \<Rightarrow> int \<Rightarrow> draft_pick list \<Rightarrow> role_resolution option" where
  "resolve_current_match stratz match_id picks =
     (case stratz of
        None \<Rightarrow> None
      | Some (payload, received_at) \<Rightarrow>
          (case all_some (map (current_slot (normalize_current_match_roles payload match_id)) picks) of
             None \<Rightarrow> None
           | Some slots \<Rightarrow>
               (let draft = validate_role_assignment slots
                in if dv_complete draft then Some \<lparr>rr_draft = draft, rr_cutoff = received_at\<rparr> else None)))"

subsection \<open>Positions inferred from history\<close>

text \<open>\<open>itertools.permutations\<close> of distinct elements, in its order.\<close>

function perms :: "'a list \<Rightarrow> 'a list list" where
  "perms [] = [[]]"
| "perms (x # xs) = concat (map (\<lambda>y. map ((#) y) (perms (remove1 y (x # xs)))) (x # xs))"
  by pat_completeness auto
termination
  by (relation "measure length") (auto simp: length_remove1 dest: length_pos_if_in_set)

type_synonym role_evidence = "(int \<times> time) list"

definition history_weight :: "nat \<Rightarrow> rat" where
  "history_weight index = (if index < 5 then 1 else if index < 15 then 70 / 100 else 40 / 100)"

definition position_weight :: "role_evidence \<Rightarrow> int \<Rightarrow> rat" where
  "position_weight rows position =
     sum_list (map (\<lambda>(i, r). if fst r = position then history_weight i else 0) (enumerate 0 rows))"

definition total_weight :: "role_evidence \<Rightarrow> rat" where
  "total_weight rows = sum_list (map (position_weight rows) dota_positions)"

definition position_share :: "role_evidence \<Rightarrow> int \<Rightarrow> rat" where
  "position_share rows position = position_weight rows position / total_weight rows"

text \<open>The score of an assignment of positions to the picks of a side, when every share is high enough.\<close>

definition assignment_score :: "role_evidence list \<Rightarrow> int list \<Rightarrow> rat option" where
  "assignment_score rows assignment =
     (let shares = map (\<lambda>(r, p). position_share r p) (zip rows assignment)
      in if list_all (\<lambda>s. 35 / 100 \<le> s) shares then Some (sum_list shares) else None)"

definition ranked_assignments :: "role_evidence list \<Rightarrow> (rat \<times> int list) list" where
  "ranked_assignments rows =
     sort_key (\<lambda>item. - fst item)
       (List.map_filter (\<lambda>a. map_option (\<lambda>s. (s, a)) (assignment_score rows a)) (perms dota_positions))"

definition role_confidence :: "rat \<Rightarrow> nat \<Rightarrow> rat \<Rightarrow> rat" where
  "role_confidence share sample margin =
     min (95 / 100) (55 / 100 + 25 / 100 * share + 10 / 100 * min (of_nat sample / 20) 1 + 5 / 100 * min margin 1)"

definition inferred_slot :: "rat \<Rightarrow> draft_pick \<Rightarrow> role_evidence \<Rightarrow> int \<Rightarrow> draft_slot" where
  "inferred_slot margin p rows position =
     \<lparr>ds_side = dp_side p, ds_position = position, ds_account = dp_account p, ds_hero = dp_hero p,
      ds_source = ''HISTORICAL_ROLE_ASSIGNMENT'',
      ds_confidence = role_confidence (position_share rows position) (length rows) margin\<rparr>"

definition resolve_side_from_history ::
  "draft_pick list \<Rightarrow> (int \<Rightarrow> role_evidence) \<Rightarrow> (draft_slot list \<times> time) option" where
  "resolve_side_from_history picks evidence =
     (if length picks \<noteq> 5 \<or> list_ex (\<lambda>p. dp_account p = None \<or> dp_hero p = None) picks then None
      else
        (let rows = map (\<lambda>p. evidence (the (dp_account p))) picks
         in if list_ex (\<lambda>r. length r < 4 \<or> total_weight r \<le> 0) rows then None
            else
              (case ranked_assignments rows of
                 [] \<Rightarrow> None
               | (best, assignment) # rest \<Rightarrow>
                   (let margin = best - (case rest of [] \<Rightarrow> 0 | (second, _) # _ \<Rightarrow> second)
                    in if rest \<noteq> [] \<and> margin < 20 / 100 then None
                       else Some (map (\<lambda>(p, r, a). inferred_slot margin p r a) (zip picks (zip rows assignment)),
                                  Max (set (map snd (concat rows))))))))"

fun scan_history :: "role_evidence \<Rightarrow> string list \<Rightarrow> history_row list \<Rightarrow> role_evidence" where
  "scan_history acc seen [] = acc"
| "scan_history acc seen (r # rs) =
     (case hr_position r of
        None \<Rightarrow> scan_history acc seen rs
      | Some p \<Rightarrow>
          if p \<notin> set dota_positions \<or> hr_match r \<in> set seen \<or> 40 \<le> length acc then scan_history acc seen rs
          else scan_history (acc @ [(p, hr_basic_usable_at r)]) (seen @ [hr_match r]) rs)"

definition usable_history :: "history_row list \<Rightarrow> int list \<Rightarrow> time \<Rightarrow> history_row list" where
  "usable_history history accounts observed_at =
     rev (sort_key (\<lambda>r. (hr_started_at r, hr_provider r))
       (rev (filter (\<lambda>r. hr_account r \<in> set accounts \<and> (case hr_position r of None \<Rightarrow> False | Some p \<Rightarrow> p \<in> set dota_positions) \<and>
          hr_basic_usable_at r \<le> observed_at \<and> hr_map_usable_at r \<le> observed_at \<and> hr_sync_status r \<noteq> ''DATA_CONFLICT'') history)))"

definition account_evidence :: "history_row list \<Rightarrow> int \<Rightarrow> role_evidence" where
  "account_evidence rows account = scan_history [] [] (filter (\<lambda>r. hr_account r = account) rows)"

definition resolve_historical :: "history_row list \<Rightarrow> draft_pick list \<Rightarrow> time \<Rightarrow> role_resolution option" where
  "resolve_historical history picks observed_at =
     (let accounts = List.map_filter dp_account picks
      in if length accounts \<noteq> 10 \<or> \<not> distinct accounts then None
         else
           (let evidence = account_evidence (usable_history history accounts observed_at);
                side = (\<lambda>s. resolve_side_from_history (filter (\<lambda>p. dp_side p = s) picks) evidence)
            in case (side ''radiant'', side ''dire'') of
                 (Some (radiant, c1), Some (dire, c2)) \<Rightarrow>
                   (let draft = validate_role_assignment (radiant @ dire)
                    in if dv_complete draft
                       then Some \<lparr>rr_draft = draft\<lparr>dv_warnings := [''DLTV_TEAM_SLOT_NOT_DOTA_POSITION'',
                                    ''DRAFT_POSITION_INFERRED_FROM_HISTORICAL_PRO_MATCHES'', ''historical-dota-position-v1'']\<rparr>,
                                  rr_cutoff = max c1 c2\<rparr>
                       else None)
               | _ \<Rightarrow> None))"

text \<open>\<open>DraftRoleAssignmentService.resolve\<close>\<close>

definition incomplete :: "string list \<Rightarrow> string list \<Rightarrow> time \<Rightarrow> role_resolution" where
  "incomplete blockers warnings observed_at =
     \<lparr>rr_draft = \<lparr>dv_complete = False, dv_slots = [], dv_blockers = blockers, dv_warnings = warnings\<rparr>, rr_cutoff = observed_at\<rparr>"

definition resolve ::
  "((string \<times> json) list \<times> time) option \<Rightarrow> history_row list \<Rightarrow> int \<Rightarrow> draft_pick list \<Rightarrow> time \<Rightarrow> role_resolution" where
  "resolve stratz history match_id picks observed_at =
     (if pick_blockers picks \<noteq> []
      then incomplete (pick_blockers picks) [''DLTV_TEAM_SLOT_NOT_DOTA_POSITION''] observed_at
      else case resolve_current_match stratz match_id picks of
             Some r \<Rightarrow> r
           | None \<Rightarrow>
               (case resolve_historical history picks observed_at of
                  Some r \<Rightarrow> r
                | None \<Rightarrow> incomplete [''DRAFT_POSITION_UNRESOLVED'']
                    [''DLTV_TEAM_SLOT_NOT_DOTA_POSITION'', ''POSITION_EVIDENCE_UNAVAILABLE_OR_AMBIGUOUS''] observed_at))"

end
