(* ===== verification/DraftStore.thy ===== *)
theory DraftStore
  imports Draft Collector IdentityLink
begin

text \<open>
  \<open>DltvBootstrapCoordinator\<close> of \<open>app/draft/coordinator.py\<close> with the parsers it uses from
  \<open>app/providers/dltv/parser.py\<close>: a match bootstrap is archived, its identity resolved, its draft
  resolved and stored append-only, its live state stored.  The HTTP response, the response of STRATZ, the
  digest and the ISO timestamp parser are arguments; an error rolls the transaction back.
\<close>

subsection \<open>Data\<close>

record draft_snapshot =
  dn_id :: uuid
  dn_map :: uuid
  dn_match :: int
  dn_complete :: bool
  dn_blockers :: "string list"
  dn_warnings :: "string list"
  dn_hash :: string
  dn_statistics_cutoff :: time
  dn_observed_at :: time
  dn_raw_event :: uuid

record draft_slot_row =
  dl_snapshot :: uuid
  dl_side :: string
  dl_position :: int
  dl_account :: "int option"
  dl_player :: "uuid option"
  dl_hero :: "int option"
  dl_source :: string
  dl_confidence :: rat

record draft_db =
  dd_live :: live_db
  dd_identity :: identity_db
  dd_snapshots :: "draft_snapshot list"
  dd_slots :: "draft_slot_row list"
  dd_history :: "history_row list"
  dd_next :: uuid

record bootstrap_result =
  br_resolved :: resolved_map
  br_draft :: draft_validation
  br_snapshot :: uuid
  br_appended :: bool

datatype draft_error =
  BootstrapInvalid string | IdentityFailed identity_error | EventFailed event_error | LiveFailed live_error

subsection \<open>The identity of a bootstrap\<close>

definition valid_team :: "json \<Rightarrow> (int \<times> string) option" where
  "valid_team v =
     (case v of
        JObj fs \<Rightarrow>
          (case (json_get fs ''id'', json_get fs ''title'') of
             (JInt i, JStr title) \<Rightarrow> if strip title \<noteq> [] then Some (i, title) else None
           | _ \<Rightarrow> None)
      | _ \<Rightarrow> None)"

text \<open>\<open>scores.get(key, scores.get(other))\<close>\<close>

definition get_or :: "(string \<times> json) list \<Rightarrow> string \<Rightarrow> string \<Rightarrow> json" where
  "get_or fs key other = (case map_of fs key of Some v \<Rightarrow> v | None \<Rightarrow> json_get fs other)"

definition parse_iso :: "(string \<Rightarrow> time option) \<Rightarrow> json \<Rightarrow> time option" where
  "parse_iso from_iso v = (case v of JStr s \<Rightarrow> if s = [] then None else from_iso s | _ \<Rightarrow> None)"

definition map_scores :: "(string \<times> json) list \<Rightarrow> (string \<times> json) list option \<Rightarrow> int option \<times> int option" where
  "map_scores database series =
     (let scores = obj_fields (json_get database ''scores'');
          first = Option.bind scores (\<lambda>fs. optional_int (get_or fs ''first_team'' ''firstTeam''));
          second = Option.bind scores (\<lambda>fs. optional_int (get_or fs ''second_team'' ''secondTeam''))
      in if first \<noteq> None \<and> second \<noteq> None then (first, second)
         else case obj_fields (opt_field series ''series_scores'') of
                None \<Rightarrow> (first, second)
              | Some fs \<Rightarrow> (optional_int (json_get fs ''first_team''), optional_int (json_get fs ''second_team'')))"

definition parse_bootstrap_identity ::
  "(string \<Rightarrow> time option) \<Rightarrow> (string \<times> json) list \<Rightarrow> int \<Rightarrow> string + bootstrap_identity" where
  "parse_bootstrap_identity from_iso payload match_id =
     (case obj_fields (json_get payload ''db'') of
        None \<Rightarrow> Inl ''DLTV bootstrap is missing db identity''
      | Some database \<Rightarrow>
          (case (valid_team (json_get database ''first_team''), valid_team (json_get database ''second_team'')) of
             (Some (first_id, first_name), Some (second_id, second_name)) \<Rightarrow>
               (let series = obj_fields (json_get database ''series'');
                    scores = map_scores database series
                in Inr \<lparr>bi_valve_match = match_id, bi_series = optional_int (opt_field series ''id''),
                        bi_event = optional_int (opt_field series ''event_id''), bi_first_team = first_id, bi_first_name = first_name,
                        bi_second_team = second_id, bi_second_name = second_name, bi_radiant = None, bi_dire = None,
                        bi_side_source = None, bi_side_confidence = None,
                        bi_started_at = parse_iso from_iso (opt_field series ''started_at''),
                        bi_map_number = (case scores of (Some a, Some b) \<Rightarrow> Some (a + b + 1) | _ \<Rightarrow> None)\<rparr>)
           | _ \<Rightarrow> Inl ''DLTV bootstrap team identity is incomplete''))"

subsection \<open>Labels\<close>

type_synonym labels = "(int \<times> string) list"

definition name_label :: "json \<Rightarrow> string option" where
  "name_label v = (case v of JStr s \<Rightarrow> if strip s \<noteq> [] then Some (strip s) else None | _ \<Rightarrow> None)"

definition add_label :: "int option \<Rightarrow> json \<Rightarrow> labels \<Rightarrow> labels" where
  "add_label key name names =
     (case (key, name_label name) of (Some k, Some n) \<Rightarrow> AList.update k n names | _ \<Rightarrow> names)"

definition collect_pick_hero_names :: "json \<Rightarrow> labels \<Rightarrow> labels" where
  "collect_pick_hero_names team names =
     foldl (\<lambda>acc item.
         case Option.bind (obj_fields item) (\<lambda>fs. obj_fields (json_get fs ''hero'')) of
           None \<Rightarrow> acc
         | Some hero \<Rightarrow> add_label (positive_int (json_get hero ''steam_id'')) (json_get hero ''title'') acc)
       names (json_items (opt_field (obj_fields team) ''picks''))"

definition live_player_label :: "json \<Rightarrow> labels \<Rightarrow> labels" where
  "live_player_label item names =
     (case obj_fields item of
        None \<Rightarrow> names
      | Some fs \<Rightarrow> add_label (optional_int (json_get fs ''account_id'')) (json_get fs ''name'') names)"

definition stats_label :: "json \<Rightarrow> labels \<times> labels \<Rightarrow> labels \<times> labels" where
  "stats_label item acc =
     (case obj_fields item of
        None \<Rightarrow> acc
      | Some fs \<Rightarrow>
          ((case obj_fields (json_get fs ''player'') of
              None \<Rightarrow> fst acc
            | Some p \<Rightarrow> add_label (optional_int (json_get p ''steam_id'')) (json_get p ''title'') (fst acc)),
           (case obj_fields (json_get fs ''hero'') of
              None \<Rightarrow> snd acc
            | Some h \<Rightarrow> add_label (positive_int (json_get h ''steam_id'')) (json_get h ''title'') (snd acc))))"

definition parse_draft_labels :: "(string \<times> json) list \<Rightarrow> labels \<times> labels" where
  "parse_draft_labels payload =
     (let database = obj_fields (json_get payload ''db'');
          heroes0 = (case database of None \<Rightarrow> []
            | Some fs \<Rightarrow> collect_pick_hero_names (json_get fs ''second_team'') (collect_pick_hero_names (json_get fs ''first_team'') []));
          league = obj_fields (json_get payload ''live_league_data'');
          players0 = foldl (\<lambda>acc item. live_player_label item acc) [] (json_items (opt_field league ''players''));
          heroes1 = (case obj_fields (opt_field league ''scoreboard'') of None \<Rightarrow> heroes0
            | Some fs \<Rightarrow> collect_pick_hero_names (json_get fs ''dire'') (collect_pick_hero_names (json_get fs ''radiant'') heroes0))
      in case obj_fields (json_get payload ''full_stats'') of
           None \<Rightarrow> (players0, heroes1)
         | Some fs \<Rightarrow>
             foldl (\<lambda>acc side. foldl (\<lambda>acc item. stats_label item acc) acc
                 (json_items (opt_field (obj_fields (json_get fs side)) ''players'')))
               (players0, heroes1) draft_sides)"

subsection \<open>The stored draft\<close>

definition verified_sources :: "string list" where
  "verified_sources = [''STRATZ_CURRENT_MATCH'', ''HISTORICAL_ROLE_ASSIGNMENT'', ''MANUAL'']"

definition slots_of :: "draft_db \<Rightarrow> uuid \<Rightarrow> draft_slot_row list" where
  "slots_of db i = filter (\<lambda>r. dl_snapshot r = i) (dd_slots db)"

definition stored_slots :: "draft_db \<Rightarrow> uuid \<Rightarrow> draft_slot list" where
  "stored_slots db i =
     map (\<lambda>r. \<lparr>ds_side = dl_side r, ds_position = dl_position r, ds_account = dl_account r, ds_hero = dl_hero r,
                ds_source = dl_source r, ds_confidence = dl_confidence r\<rparr>)
       (sort_key (\<lambda>r. (dl_side r, dl_position r)) (slots_of db i))"

definition positions_are_verified :: "draft_slot list \<Rightarrow> bool" where
  "positions_are_verified slots \<longleftrightarrow> length slots = 10 \<and> list_all (\<lambda>s. ds_source s \<in> set verified_sources) slots"

definition is_legacy :: "draft_db \<Rightarrow> uuid \<Rightarrow> bool" where
  "is_legacy db i \<longleftrightarrow> list_ex (\<lambda>r. dl_source r = ''DLTV_SLOT'') (slots_of db i)"

definition latest_draft :: "draft_db \<Rightarrow> uuid \<Rightarrow> draft_snapshot option" where
  "latest_draft db map_id = newest dn_observed_at (\<lambda>s. dn_map s = map_id) (dd_snapshots db)"

definition same_draft :: "draft_db \<Rightarrow> uuid \<Rightarrow> string \<Rightarrow> draft_snapshot option" where
  "same_draft db map_id hash = newest dn_observed_at (\<lambda>s. dn_map s = map_id \<and> dn_hash s = hash) (dd_snapshots db)"

definition opt_int :: "int option \<Rightarrow> json" where
  "opt_int v = (case v of None \<Rightarrow> JNull | Some i \<Rightarrow> JInt i)"

definition slot_json :: "draft_slot \<Rightarrow> json" where
  "slot_json s = JObj [(''side'', JStr (ds_side s)), (''position'', JInt (ds_position s)), (''account_id'', opt_int (ds_account s)),
     (''canonical_player_id'', JNull), (''hero_id'', opt_int (ds_hero s)), (''source'', JStr (ds_source s)),
     (''confidence'', JNum (ds_confidence s))]"

definition draft_hash :: "(json \<Rightarrow> string) \<Rightarrow> draft_validation \<Rightarrow> string" where
  "draft_hash digest d =
     digest (JObj [(''complete'', JBool (dv_complete d)), (''slots'', JList (map slot_json (dv_slots d))),
       (''blockers'', JList (map JStr (dv_blockers d))), (''warnings'', JList (map JStr (dv_warnings d)))])"

text \<open>What to do with a resolved draft: keep the verified one, reuse the stored copy, or append it.\<close>

datatype draft_decision = KeepVerified draft_snapshot | AlreadyStored draft_snapshot | AppendDraft

definition decide_draft :: "draft_db \<Rightarrow> uuid \<Rightarrow> draft_validation \<Rightarrow> string \<Rightarrow> bool \<Rightarrow> draft_decision" where
  "decide_draft db map_id draft hash append_fast =
     (let latest = latest_draft db map_id;
          reuse = (case same_draft db map_id hash of
             None \<Rightarrow> AppendDraft
           | Some e \<Rightarrow>
               if append_fast then AlreadyStored e
               else (case latest of
                       None \<Rightarrow> AlreadyStored e
                     | Some l \<Rightarrow> if dn_id l = dn_id e \<or> \<not> is_legacy db (dn_id l) then AlreadyStored e else AppendDraft))
      in case latest of
           None \<Rightarrow> reuse
         | Some l \<Rightarrow>
             if dn_complete l \<and> \<not> dv_complete draft \<and> positions_are_verified (stored_slots db (dn_id l))
             then KeepVerified l else reuse)"

text \<open>The slots of an appended draft, with the players and heroes they name.\<close>

fun append_slots ::
  "(int \<Rightarrow> string option) \<Rightarrow> labels \<Rightarrow> labels \<Rightarrow> uuid \<Rightarrow> draft_slot list \<Rightarrow> identity_db \<Rightarrow> draft_slot_row list \<Rightarrow>
   identity_db \<times> draft_slot_row list" where
  "append_slots hero_names players heroes i [] idb rows = (idb, rows)"
| "append_slots hero_names players heroes i (s # slots) idb rows =
     (let (player, idb1) = (case ds_account s of
            None \<Rightarrow> (None, idb)
          | Some account \<Rightarrow>
              (let (p, idb') = resolve_dltv_player idb account
               in (Some p, case map_of players account of
                             None \<Rightarrow> idb'
                           | Some n \<Rightarrow> idb'\<lparr>id_players := update_first (\<lambda>r. cp_id r = p) (\<lambda>r. r\<lparr>cp_name := Some n\<rparr>) (id_players idb')\<rparr>)));
          idb2 = (case ds_hero s of None \<Rightarrow> idb1 | Some h \<Rightarrow> snd (resolve_dltv_hero hero_names idb1 h (map_of heroes h)))
      in append_slots hero_names players heroes i slots idb2
           (rows @ [\<lparr>dl_snapshot = i, dl_side = ds_side s, dl_position = ds_position s, dl_account = ds_account s, dl_player = player,
                     dl_hero = ds_hero s, dl_source = ds_source s, dl_confidence = ds_confidence s\<rparr>]))"

subsection \<open>The live state of a bootstrap\<close>

definition first_positive_at :: "live_db \<Rightarrow> uuid \<Rightarrow> time option" where
  "first_positive_at db map_id =
     map_option lo_received_at
       (py_min lo_received_at
         (filter (\<lambda>r. lo_canonical_map_id r = Some map_id \<and> (case game_time (lo_values r) of None \<Rightarrow> False | Some g \<Rightarrow> 0 < g))
           (lv_observations db)))"

definition append_bootstrap_fast_state ::
  "bool \<Rightarrow> (json \<Rightarrow> string) \<Rightarrow> live_db \<Rightarrow> time \<Rightarrow> uuid \<Rightarrow> int \<Rightarrow> (string \<times> json) list \<Rightarrow> time \<Rightarrow> uuid \<Rightarrow> live_error + live_db" where
  "append_bootstrap_fast_state pg digest db now map_id match_id payload received_at raw_id =
     (case reduce_fast_state digest None (parse_fast_patch digest payload match_id received_at None 0) False of
        Inl e \<Rightarrow> Inl (ReduceFailed e)
      | Inr rd \<Rightarrow>
          (case rd_state rd of
             None \<Rightarrow> Inr db
           | Some s \<Rightarrow>
               (let started = (case game_time (fs_values s) of None \<Rightarrow> False | Some g \<Rightarrow> 0 < g);
                    at_time = (case first_positive_at db map_id of None \<Rightarrow> received_at | Some t \<Rightarrow> t);
                    row = record_of_state (lv_next_observation db) map_id received_at raw_id s
                in case record_all pg (lv_events db) now (if started then [map_started_event map_id at_time] else []) of
                     Inl e \<Rightarrow> Inl (RecordFailed e)
                   | Inr evs \<Rightarrow>
                       if map_option lo_payload_hash (latest_observation db match_id) = Some (fs_state_hash s)
                       then Inr (db\<lparr>lv_events := evs\<rparr>)
                       else if \<exists>r \<in> set (lv_observations db). lo_match r = lo_match row \<and> lo_payload_hash r = lo_payload_hash row \<and>
                                 lo_received_at r = received_at
                       then Inl DuplicateObservation
                       else Inr (db\<lparr>lv_events := evs, lv_observations := lv_observations db @ [row],
                                    lv_next_observation := Suc (lv_next_observation db)\<rparr>))))"

subsection \<open>Processing a payload\<close>

text \<open>The response of STRATZ is archived when it was asked, which a pick blocker prevents.\<close>

definition archive_stratz ::
  "(json \<Rightarrow> string) \<Rightarrow> live_db \<Rightarrow> int \<Rightarrow> draft_pick list \<Rightarrow> ((string \<times> json) list \<times> time) option \<Rightarrow> live_db" where
  "archive_stratz digest db match_id picks stratz =
     (case stratz of
        None \<Rightarrow> db
      | Some (payload, received_at) \<Rightarrow>
          if pick_blockers picks \<noteq> [] then db
          else
            (let document = [(''request'', JObj [(''operation_name'', JStr ''CurrentMatchRoles''),
                                (''variables'', JObj [(''matchId'', JInt match_id)]), (''query_version'', JStr ''stratz-current-match-roles-v1'')]),
                             (''response'', JObj payload)]
             in db\<lparr>lv_raw := lv_raw db @
                     [\<lparr>rw_id = lv_next_raw db, rw_provider = ''stratz'', rw_event_type = ''STRATZ_CURRENT_MATCH_ROLES'',
                       rw_provider_key = str_int match_id, rw_received_at = received_at, rw_payload = document,
                       rw_payload_hash = digest (JObj document), rw_parser_version = ''stratz-current-match-roles-v1'',
                       rw_connection_id = None, rw_generation = None, rw_state_hash = None, rw_is_duplicate = None\<rparr>],
                   lv_next_raw := Suc (lv_next_raw db)\<rparr>))"

definition resolved_event :: "uuid \<Rightarrow> int \<Rightarrow> time \<Rightarrow> domain_event" where
  "resolved_event map_id match_id received_at =
     live_event DLTV_MATCH_RESOLVED ''canonical_map'' (str_uuid map_id) (''dltv-resolved:'' @ str_int match_id)
       [(''canonical_map_id'', JStr (str_uuid map_id)), (''valve_match_id'', JInt match_id)] received_at"

definition draft_confirmed_event :: "uuid \<Rightarrow> string \<Rightarrow> uuid \<Rightarrow> time \<Rightarrow> domain_event" where
  "draft_confirmed_event map_id hash snapshot observed_at =
     live_event DRAFT_CONFIRMED ''canonical_map'' (str_uuid map_id) (''draft:'' @ str_uuid map_id @ '':'' @ hash)
       [(''canonical_map_id'', JStr (str_uuid map_id)), (''draft_snapshot_id'', JStr (str_uuid snapshot))] observed_at"

definition map_ended_event :: "uuid \<Rightarrow> int \<Rightarrow> time \<Rightarrow> domain_event" where
  "map_ended_event map_id match_id ended_at =
     live_event MAP_ENDED ''canonical_map'' (str_uuid map_id) (''map-ended:'' @ str_uuid map_id)
       [(''canonical_map_id'', JStr (str_uuid map_id)), (''valve_match_id'', JInt match_id)] ended_at"

definition record_events :: "bool \<Rightarrow> live_db \<Rightarrow> time \<Rightarrow> domain_event list \<Rightarrow> draft_error + live_db" where
  "record_events pg db now evs =
     (case record_all pg (lv_events db) now evs of Inl e \<Rightarrow> Inl (EventFailed e) | Inr edb \<Rightarrow> Inr (db\<lparr>lv_events := edb\<rparr>))"

text \<open>The appended snapshot with its slots.\<close>

definition new_snapshot :: "uuid \<Rightarrow> uuid \<Rightarrow> int \<Rightarrow> draft_validation \<Rightarrow> string \<Rightarrow> time \<Rightarrow> uuid \<Rightarrow> draft_snapshot" where
  "new_snapshot i map_id match_id draft hash observed_at raw_id =
     \<lparr>dn_id = i, dn_map = map_id, dn_match = match_id, dn_complete = dv_complete draft, dn_blockers = dv_blockers draft,
      dn_warnings = dv_warnings draft, dn_hash = hash, dn_statistics_cutoff = observed_at, dn_observed_at = observed_at,
      dn_raw_event = raw_id\<rparr>"

definition append_draft ::
  "(int \<Rightarrow> string option) \<Rightarrow> draft_db \<Rightarrow> uuid \<Rightarrow> int \<Rightarrow> (string \<times> json) list \<Rightarrow> draft_validation \<Rightarrow> string \<Rightarrow> time \<Rightarrow> uuid \<Rightarrow> draft_db" where
  "append_draft hero_names db map_id match_id payload draft hash observed_at raw_id =
     (let (players, heroes) = parse_draft_labels payload; i = dd_next db;
          (idb, rows) = append_slots hero_names players heroes i (dv_slots draft) (dd_identity db) (dd_slots db)
      in db\<lparr>dd_snapshots := dd_snapshots db @ [new_snapshot i map_id match_id draft hash observed_at raw_id],
            dd_slots := rows, dd_identity := idb, dd_next := Suc i\<rparr>)"

text \<open>The draft is stored as decided, then the live state; \<open>append_fast_state\<close> is off for a rebuild.\<close>

definition store_draft ::
  "bool \<Rightarrow> (int \<Rightarrow> string option) \<Rightarrow> (json \<Rightarrow> string) \<Rightarrow> draft_db \<Rightarrow> time \<Rightarrow> resolved_map \<Rightarrow> int \<Rightarrow> (string \<times> json) list \<Rightarrow>
   draft_validation \<Rightarrow> time \<Rightarrow> uuid \<Rightarrow> bool \<Rightarrow> draft_error + (bootstrap_result \<times> draft_db)" where
  "store_draft pg hero_names digest db now found match_id payload draft observed_at raw_id append_fast =
     (let map_id = rs_map found; hash = draft_hash digest draft
      in case decide_draft db map_id draft hash append_fast of
           KeepVerified l \<Rightarrow>
             Inr (\<lparr>br_resolved = found,
                   br_draft = \<lparr>dv_complete = True, dv_slots = stored_slots db (dn_id l), dv_blockers = [], dv_warnings = dn_warnings l\<rparr>,
                   br_snapshot = dn_id l, br_appended = False\<rparr>, db)
         | AlreadyStored e \<Rightarrow>
             Inr (\<lparr>br_resolved = found, br_draft = draft, br_snapshot = dn_id e, br_appended = False\<rparr>, db)
         | AppendDraft \<Rightarrow>
             (let db1 = append_draft hero_names db map_id match_id payload draft hash observed_at raw_id
              in case record_events pg (dd_live db1) now
                        (if dv_complete draft then [draft_confirmed_event map_id hash (dd_next db) observed_at] else []) of
                   Inl e \<Rightarrow> Inl e
                 | Inr live \<Rightarrow>
                     Inr (\<lparr>br_resolved = found, br_draft = draft, br_snapshot = dd_next db, br_appended = True\<rparr>,
                          db1\<lparr>dd_live := live\<rparr>)))"

definition process_payload ::
  "bool \<Rightarrow> (string \<Rightarrow> time option) \<Rightarrow> (int \<Rightarrow> string option) \<Rightarrow> (json \<Rightarrow> string) \<Rightarrow> duration \<Rightarrow> draft_db \<Rightarrow> time \<Rightarrow>
   ((string \<times> json) list \<times> time) option \<Rightarrow> int \<Rightarrow> (string \<times> json) list \<Rightarrow> time \<Rightarrow> uuid \<Rightarrow> int option \<Rightarrow> bool \<Rightarrow>
   draft_error + (bootstrap_result \<times> draft_db)" where
  "process_payload pg from_iso hero_names digest window db now stratz match_id payload received_at raw_id dltv_series append_fast =
     (case parse_bootstrap_identity from_iso payload match_id of
        Inl e \<Rightarrow> Inl (BootstrapInvalid e)
      | Inr bi0 \<Rightarrow>
     (let bi = (if bi_series bi0 = None \<and> dltv_series \<noteq> None then bi0\<lparr>bi_series := dltv_series\<rparr> else bi0)
      in case resolve_dltv_bootstrap window (dd_identity db) bi of
           Inl e \<Rightarrow> Inl (IdentityFailed e)
         | Inr (found, idb) \<Rightarrow>
     (case record_events pg (dd_live db) now [resolved_event (rs_map found) match_id received_at] of
        Inl e \<Rightarrow> Inl e
      | Inr live1 \<Rightarrow>
          (let picks = parse_dltv_provider_picks payload;
               live2 = archive_stratz digest live1 match_id picks stratz;
               resolution = resolve stratz (dd_history db) match_id picks received_at;
               observed_at = max received_at (rr_cutoff resolution)
           in case store_draft pg hero_names digest (db\<lparr>dd_identity := idb, dd_live := live2\<rparr>) now found match_id payload
                     (rr_draft resolution) observed_at raw_id append_fast of
                Inl e \<Rightarrow> Inl e
              | Inr (result, db1) \<Rightarrow>
                  if \<not> append_fast then Inr (result, db1)
                  else (case append_bootstrap_fast_state pg digest (dd_live db1) now (rs_map found) match_id payload received_at raw_id of
                          Inl e \<Rightarrow> Inl (LiveFailed e)
                        | Inr live3 \<Rightarrow> Inr (result, db1\<lparr>dd_live := live3\<rparr>))))))"

definition bootstrap ::
  "bool \<Rightarrow> (string \<Rightarrow> time option) \<Rightarrow> (int \<Rightarrow> string option) \<Rightarrow> (json \<Rightarrow> string) \<Rightarrow> duration \<Rightarrow> draft_db \<Rightarrow> time \<Rightarrow>
   ((string \<times> json) list \<times> time) option \<Rightarrow> int \<Rightarrow> (string \<times> json) list \<Rightarrow> time \<Rightarrow> int option \<Rightarrow> time option \<Rightarrow>
   draft_error + (bootstrap_result \<times> draft_db)" where
  "bootstrap pg from_iso hero_names digest window db now stratz match_id payload received_at dltv_series ended_at =
     (let (raw_id, live) = append_raw digest (dd_live db) ''DLTV_BOOTSTRAP'' (str_int match_id) payload received_at None None
      in case process_payload pg from_iso hero_names digest window (db\<lparr>dd_live := live\<rparr>) now stratz match_id payload received_at raw_id
                dltv_series True of
           Inl e \<Rightarrow> Inl e
         | Inr (result, db1) \<Rightarrow>
             (case ended_at of
                None \<Rightarrow> Inr (result, db1)
              | Some t \<Rightarrow>
                  (case record_events pg (dd_live db1) now [map_ended_event (rs_map (br_resolved result)) match_id t] of
                     Inl e \<Rightarrow> Inl e
                   | Inr live' \<Rightarrow> Inr (result, db1\<lparr>dd_live := live'\<rparr>))))"

definition rebuild_draft_from_stored_payload ::
  "bool \<Rightarrow> (string \<Rightarrow> time option) \<Rightarrow> (int \<Rightarrow> string option) \<Rightarrow> (json \<Rightarrow> string) \<Rightarrow> duration \<Rightarrow> draft_db \<Rightarrow> time \<Rightarrow>
   ((string \<times> json) list \<times> time) option \<Rightarrow> int \<Rightarrow> (string \<times> json) list \<Rightarrow> uuid \<Rightarrow>
   draft_error + (bootstrap_result \<times> draft_db)" where
  "rebuild_draft_from_stored_payload pg from_iso hero_names digest window db now stratz match_id payload raw_id =
     process_payload pg from_iso hero_names digest window db now stratz match_id payload now raw_id None False"

end
