(* ===== verification/DraftProperties.thy ===== *)
theory DraftProperties
  imports Draft "HOL-Library.Multiset"
begin

text \<open>
  Properties of the position assignment: the assignment inferred from history is the only one that
  comes near the best score, a complete draft is well formed, and no evidence is younger than the cutoff.
\<close>

subsection \<open>Permutations\<close>

lemma set_perms: "distinct xs \<Longrightarrow> set (perms xs) = {ys. distinct ys \<and> set ys = set xs}"
proof (induction xs rule: perms.induct)
  case (2 x xs)
  have step: "set (perms (remove1 y (x # xs))) = {ys. distinct ys \<and> set ys = set (x # xs) - {y}}" if "y \<in> set (x # xs)" for y
    using 2(1) [OF that] 2(2) by (simp only: set_remove1_eq distinct_remove1)
  show ?case
  proof (intro set_eqI iffI)
    fix ys assume "ys \<in> set (perms (x # xs))"
    then obtain y zs where "y \<in> set (x # xs)" "ys = y # zs" "zs \<in> set (perms (remove1 y (x # xs)))" by auto
    then show "ys \<in> {ys. distinct ys \<and> set ys = set (x # xs)}" using step [of y] by auto
  next
    fix ys assume ys: "ys \<in> {ys. distinct ys \<and> set ys = set (x # xs)}"
    then obtain y zs where y: "ys = y # zs" by (cases ys) auto
    then have "y \<in> set (x # xs)" "distinct zs" "set zs = set (x # xs) - {y}" using ys by auto
    then have "zs \<in> set (perms (remove1 y (x # xs)))" using step [of y] by simp
    then show "ys \<in> set (perms (x # xs))" using \<open>y \<in> set (x # xs)\<close> y by (auto simp del: remove1.simps)
  qed
qed auto

lemma distinct_perms: "distinct xs \<Longrightarrow> distinct (perms xs)"
proof (induction xs rule: perms.induct)
  case (2 x xs)
  have one: "distinct (perms (remove1 y (x # xs)))" if "y \<in> set (x # xs)" for y
    using 2(1) [OF that] 2(2) by (simp add: distinct_remove1)
  have "distinct (concat (map (\<lambda>y. map ((#) y) (perms (remove1 y (x # xs)))) zs))" if "distinct zs" "set zs \<subseteq> set (x # xs)" for zs
    using that
  proof (induction zs)
    case (Cons z zs)
    have "distinct (map ((#) z) (perms (remove1 z (x # xs))))" using one [of z] Cons.prems by (auto simp: distinct_map inj_on_def)
    moreover have "set (map ((#) z) (perms (remove1 z (x # xs)))) \<inter> set (concat (map (\<lambda>y. map ((#) y) (perms (remove1 y (x # xs)))) zs)) = {}"
      using Cons.prems(1) by auto
    ultimately show ?case using Cons by simp
  qed simp
  from this [of "x # xs"] show ?case using 2(2) by simp
qed simp

subsection \<open>Ranking\<close>

lemma ranked_set:
  "set (ranked_assignments rows) =
     {(s, a). distinct a \<and> set a = set dota_positions \<and> assignment_score rows a = Some s}"
proof -
  have "set (List.map_filter (\<lambda>a. map_option (\<lambda>s. (s, a)) (assignment_score rows a)) ps) =
      {(s, a). a \<in> set ps \<and> assignment_score rows a = Some s}" for ps
    by (induction ps) (auto simp: List.map_filter_simps split: option.splits)
  moreover have "distinct dota_positions" by (simp add: dota_positions_def)
  ultimately show ?thesis by (auto simp: ranked_assignments_def set_perms)
qed

lemma ranked_sorted: "sorted (map (\<lambda>item. - fst item) (ranked_assignments rows))"
  by (simp add: ranked_assignments_def)

lemma ranked_distinct: "distinct (map snd (ranked_assignments rows))"
proof -
  have d: "distinct ps \<Longrightarrow> distinct (map snd (List.map_filter (\<lambda>a. map_option (\<lambda>s. (s, a)) (assignment_score rows a)) ps))" for ps
  proof (induction ps)
    case (Cons a ps)
    have "snd ` set (List.map_filter (\<lambda>a. map_option (\<lambda>s. (s, a)) (assignment_score rows a)) ps) \<subseteq> set ps"
      by (induction ps) (auto simp: List.map_filter_simps split: option.splits)
    then show ?case using Cons by (auto simp: List.map_filter_simps split: option.splits)
  qed (simp add: List.map_filter_simps)
  have "distinct dota_positions" by (simp add: dota_positions_def)
  from distinct_map [THEN iffD1, OF d [OF distinct_perms [OF this]]] show ?thesis
    unfolding ranked_assignments_def distinct_map by simp
qed

text \<open>What a resolved side says.\<close>

lemma resolved_side:
  assumes "resolve_side_from_history picks evidence = Some (slots, cutoff)"
    and rows: "rows = map (\<lambda>p. evidence (the (dp_account p))) picks"
  obtains best assignment rest margin where
    "length picks = 5" "\<forall>p \<in> set picks. dp_account p \<noteq> None \<and> dp_hero p \<noteq> None"
    "\<forall>r \<in> set rows. 4 \<le> length r \<and> 0 < total_weight r"
    "ranked_assignments rows = (best, assignment) # rest" "rest \<noteq> [] \<longrightarrow> 20 / 100 \<le> best - fst (hd rest)"
    "slots = map (\<lambda>(p, r, a). inferred_slot margin p r a) (zip picks (zip rows assignment))"
    "cutoff = Max (set (map snd (concat rows)))"
proof -
  have five: "length picks = 5" "\<forall>p \<in> set picks. dp_account p \<noteq> None \<and> dp_hero p \<noteq> None"
    using assms(1) by (auto simp: resolve_side_from_history_def list_ex_iff split: if_splits)
  note run = assms(1) [unfolded resolve_side_from_history_def rows [symmetric] Let_def]
  have rich: "\<forall>r \<in> set rows. 4 \<le> length r \<and> 0 < total_weight r" using run five by (auto simp: list_ex_iff not_less split: if_splits)
  obtain best assignment rest where ranked: "ranked_assignments rows = (best, assignment) # rest"
    using run by (auto split: if_splits list.splits)
  define margin where "margin = best - (case rest of [] \<Rightarrow> 0 | (second, _) # _ \<Rightarrow> second)"
  have "\<not> (rest \<noteq> [] \<and> margin < 20 / 100)" "slots = map (\<lambda>(p, r, a). inferred_slot margin p r a) (zip picks (zip rows assignment))"
    "cutoff = Max (set (map snd (concat rows)))"
    using run ranked by (auto simp: margin_def split: if_splits)
  then show ?thesis
    by (intro that [OF five rich ranked, of margin]) (auto simp: margin_def neq_Nil_conv)
qed

lemma zip_slots:
  "length rows = length picks \<Longrightarrow> length assignment = length picks \<Longrightarrow>
   slots = map (\<lambda>(p, r, a). inferred_slot margin p r a) (zip picks (zip rows assignment)) \<Longrightarrow>
   map ds_position slots = assignment \<and> map ds_side slots = map dp_side picks \<and> map ds_account slots = map dp_account picks \<and>
   map ds_hero slots = map dp_hero picks \<and> length slots = length picks"
  by (induction picks arbitrary: rows assignment slots) (auto simp: inferred_slot_def length_Suc_conv)

subsection \<open>Weighted maps\<close>

text \<open>The maps of a player, newest first, that satisfy \<open>P\<close>, weighted 1 for the newest five, 0.7 for the next ten
  and 0.4 for the older ones.\<close>

definition weighted_maps :: "role_evidence \<Rightarrow> (int \<Rightarrow> bool) \<Rightarrow> rat" where
  "weighted_maps r P =
     (\<Sum>i < length r. if P (fst (r ! i)) then (if i < 5 then 1 else if i < 15 then 7 / 10 else 4 / 10) else 0)"

definition support :: "role_evidence \<Rightarrow> int \<Rightarrow> rat" where
  "support r position = weighted_maps r (\<lambda>q. q = position) / weighted_maps r (\<lambda>q. q \<in> {1, 2, 3, 4, 5})"

lemma position_weight_maps: "position_weight r position = weighted_maps r (\<lambda>q. q = position)"
  by (simp add: position_weight_def weighted_maps_def history_weight_def sum_list_sum_nth nth_enumerate_eq
      lessThan_atLeast0 cong: if_cong)

lemma total_weight_maps: "total_weight r = weighted_maps r (\<lambda>q. q \<in> {1, 2, 3, 4, 5})"
  unfolding total_weight_def position_weight_maps dota_positions_def weighted_maps_def
  by (simp add: sum.distrib [symmetric]) (rule sum.cong, auto)

lemma position_share_support: "position_share r position = support r position"
  by (simp add: position_share_def position_weight_maps total_weight_maps support_def)

lemma score_of_supports:
  assumes "length a = length rows"
  shows "assignment_score rows a =
    (if \<forall>i < length rows. 35 / 100 \<le> support (rows ! i) (a ! i)
     then Some (\<Sum>i < length rows. support (rows ! i) (a ! i)) else None)"
  using assms
  by (simp add: assignment_score_def position_share_support list_all_length sum_list_sum_nth lessThan_atLeast0)

text \<open>C39. When a side's positions are inferred from history, every player has at least four used maps with a
  position, and the inferred assignment gives the five positions to the five players, each with at least 35% of
  the weighted maps of its player; every other assignment with that support has a total share that is lower by at
  least 0.20; and no used map became usable after the cutoff.\<close>

theorem inferred_positions_are_optimal:
  assumes "resolve_side_from_history picks evidence = Some (slots, cutoff)"
  defines "rows \<equiv> map (\<lambda>p. evidence (the (dp_account p))) picks"
  shows "map ds_account slots = map dp_account picks \<and> map ds_hero slots = map dp_hero picks \<and>
    map ds_side slots = map dp_side picks \<and> length slots = 5 \<and>
    distinct (map ds_position slots) \<and> set (map ds_position slots) = {1, 2, 3, 4, 5} \<and>
    (\<forall>r \<in> set rows. 4 \<le> length r \<and> 0 < weighted_maps r (\<lambda>q. q \<in> {1, 2, 3, 4, 5})) \<and>
    (\<forall>i < 5. 35 / 100 \<le> support (rows ! i) (ds_position (slots ! i))) \<and>
    (\<forall>other. distinct other \<and> set other = {1, 2, 3, 4, 5} \<and> other \<noteq> map ds_position slots \<and>
       (\<forall>i < 5. 35 / 100 \<le> support (rows ! i) (other ! i)) \<longrightarrow>
       (\<Sum>i < 5. support (rows ! i) (other ! i)) + 20 / 100 \<le> (\<Sum>i < 5. support (rows ! i) (ds_position (slots ! i)))) \<and>
    (\<forall>r \<in> set rows. \<forall>(position, usable_at) \<in> set r. usable_at \<le> cutoff)"
proof -
  obtain best assignment rest margin where five: "length picks = 5"
    and rich: "\<forall>r \<in> set rows. 4 \<le> length r \<and> 0 < total_weight r"
    and ranked: "ranked_assignments rows = (best, assignment) # rest" and gap: "rest \<noteq> [] \<longrightarrow> 20 / 100 \<le> best - fst (hd rest)"
    and slots: "slots = map (\<lambda>(p, r, a). inferred_slot margin p r a) (zip picks (zip rows assignment))"
    and cutoff: "cutoff = Max (set (map snd (concat rows)))"
    by (rule resolved_side [OF assms(1) rows_def [THEN meta_eq_to_obj_eq]])
  have "(best, assignment) \<in> set (ranked_assignments rows)" by (simp add: ranked)
  then have a: "distinct assignment" "set assignment = set dota_positions" "assignment_score rows assignment = Some best"
    unfolding ranked_set by simp_all
  have len: "length assignment = 5" using distinct_card [OF a(1)] a(2) by (simp add: dota_positions_def)
  have lens: "length rows = length picks" "length assignment = length picks" using five len by (simp_all add: rows_def)
  have rows5: "length rows = 5" using lens five by simp
  note same = zip_slots [OF lens slots]
  have at: "ds_position (slots ! i) = assignment ! i" if "i < 5" for i
    using that same five nth_map [of i slots ds_position] by simp
  have scored: "(\<forall>i < 5. 35 / 100 \<le> support (rows ! i) (assignment ! i)) \<and> best = (\<Sum>i < 5. support (rows ! i) (assignment ! i))"
    using a(3) score_of_supports [of assignment rows] len rows5 by (simp split: if_splits)
  have lower: "(\<Sum>i < 5. support (rows ! i) (other ! i)) + 20 / 100 \<le> best"
    if "distinct other" "set other = {1, 2, 3, 4, 5}" "other \<noteq> assignment"
      "\<forall>i < 5. 35 / 100 \<le> support (rows ! i) (other ! i)" for other
  proof -
    let ?score = "\<Sum>i < 5. support (rows ! i) (other ! i)"
    have "length other = 5" using distinct_card [OF that(1)] that(2) by simp
    then have "assignment_score rows other = Some ?score"
      using score_of_supports [of other rows] that(4) rows5 by simp
    then have "(?score, other) \<in> set (ranked_assignments rows)" unfolding ranked_set using that by (simp add: dota_positions_def)
    then have rest: "(?score, other) \<in> set rest" using that(3) by (simp add: ranked)
    have "sorted (map (\<lambda>item. - fst item) rest)" using ranked_sorted [of rows] by (simp add: ranked)
    then have "- fst (hd rest) \<le> - ?score" using rest by (cases rest) auto
    moreover have "20 / 100 \<le> best - fst (hd rest)" using gap rest by auto
    ultimately show ?thesis by linarith
  qed
  have young: "usable_at \<le> cutoff" if "r \<in> set rows" "(position, usable_at) \<in> set r" for r position usable_at
  proof -
    have "usable_at \<in> set (map snd (concat rows))" using that by force
    then show ?thesis unfolding cutoff by (intro Max_ge) simp_all
  qed
  have best: "(\<Sum>i < 5. support (rows ! i) (ds_position (slots ! i))) = best" using scored at by simp
  show ?thesis unfolding best
  proof (intro conjI allI impI ballI)
    show "35 / 100 \<le> support (rows ! i) (ds_position (slots ! i))" if "i < 5" for i using scored at that by simp
    show "set (map ds_position slots) = {1, 2, 3, 4, 5}" using same a(2) by (simp add: dota_positions_def)
    show "distinct (map ds_position slots)" using same a(1) by simp
    show "(\<Sum>i < 5. support (rows ! i) (other ! i)) + 20 / 100 \<le> best"
      if "distinct other \<and> set other = {1, 2, 3, 4, 5} \<and> other \<noteq> map ds_position slots \<and>
        (\<forall>i < 5. 35 / 100 \<le> support (rows ! i) (other ! i))" for other
      using lower that same by simp
  qed (use same five rich young in \<open>auto simp: total_weight_maps\<close>)
qed

subsection \<open>Complete drafts\<close>

lemma map_filter_all:
  "length (List.map_filter f xs) = length xs \<Longrightarrow> map f xs = map Some (List.map_filter f xs)"
proof (induction xs)
  case (Cons x xs)
  have le: "length (List.map_filter f xs) \<le> length xs" by (induction xs) (auto simp: List.map_filter_simps split: option.splits)
  then show ?case using Cons by (cases "f x") (auto simp: List.map_filter_simps)
qed (simp add: List.map_filter_simps)

lemma partition_sides:
  assumes "length (filter P xs) + length (filter Q xs) = length xs" and "\<And>x. \<not> (P x \<and> Q x)"
  shows "mset (filter P xs) + mset (filter Q xs) = mset xs"
  using assms(1)
proof (induction xs)
  case (Cons x xs)
  have le: "length (filter P ys) + length (filter Q ys) \<le> length ys" for ys :: "'a list"
    using assms(2) by (induction ys) (auto simp: le_SucI)
  show ?case
  proof (cases "P x")
    case True
    then show ?thesis using Cons assms(2) [of x] by auto
  next
    case False
    then have "Q x" using Cons.prems le [of xs] by (cases "Q x") auto
    then show ?thesis using Cons False by auto
  qed
qed simp

text \<open>Picks without blockers.\<close>

lemma no_blockers:
  assumes "pick_blockers picks = []"
  shows "length picks = 10" "distinct (map dp_hero picks)" "distinct (map dp_account picks)"
    "\<forall>p \<in> set picks. dp_hero p \<noteq> None \<and> dp_account p \<noteq> None"
    "length (filter (\<lambda>p. dp_side p = ''radiant'') picks) = 5" "length (filter (\<lambda>p. dp_side p = ''dire'') picks) = 5"
proof -
  show ten: "length picks = 10" using assms by (auto simp: pick_blockers_def split: if_splits)
  have heroes: "length (List.map_filter dp_hero picks) = length picks" "distinct (List.map_filter dp_hero picks)"
    and accounts: "length (List.map_filter dp_account picks) = length picks" "distinct (List.map_filter dp_account picks)"
    using assms ten by (auto simp: pick_blockers_def Let_def split: if_splits)
  note h = map_filter_all [OF heroes(1)] and a = map_filter_all [OF accounts(1)]
  show "distinct (map dp_hero picks)" using heroes(2) by (simp add: h distinct_map)
  show "distinct (map dp_account picks)" using accounts(2) by (simp add: a distinct_map)
  have "dp_hero p \<noteq> None \<and> dp_account p \<noteq> None" if "p \<in> set picks" for p
  proof -
    have "dp_hero p \<in> set (map dp_hero picks)" "dp_account p \<in> set (map dp_account picks)" using that by simp_all
    then show ?thesis unfolding h a by auto
  qed
  then show "\<forall>p \<in> set picks. dp_hero p \<noteq> None \<and> dp_account p \<noteq> None" by blast
  show "length (filter (\<lambda>p. dp_side p = ''radiant'') picks) = 5" "length (filter (\<lambda>p. dp_side p = ''dire'') picks) = 5"
    using assms ten by (auto simp: pick_blockers_def draft_sides_def Let_def split: if_splits)
qed

text \<open>A valid assignment.\<close>

lemma validated:
  assumes "dv_complete (validate_role_assignment slots)"
  shows "length slots = 10" "side \<in> set draft_sides \<Longrightarrow> side_complete slots side"
    "mset (dv_slots (validate_role_assignment slots)) = mset slots"
    "side_complete (dv_slots (validate_role_assignment slots)) side = side_complete slots side"
proof -
  show "length slots = 10" using assms by (simp add: validate_role_assignment_def Let_def split: if_splits)
  show "side \<in> set draft_sides \<Longrightarrow> side_complete slots side"
    using assms by (auto simp: validate_role_assignment_def draft_sides_def Let_def split: if_splits)
  show m: "mset (dv_slots (validate_role_assignment slots)) = mset slots" by (simp add: validate_role_assignment_def Let_def)
  have "mset (filter P (dv_slots (validate_role_assignment slots))) = mset (filter P slots)" for P
    using m by simp
  then show "side_complete (dv_slots (validate_role_assignment slots)) side = side_complete slots side"
    unfolding side_complete_def Let_def by (metis (no_types, lifting) set_map set_mset_mset size_mset)
qed

definition slot_pick :: "draft_slot \<Rightarrow> string \<times> int option \<times> int option" where
  "slot_pick s = (ds_side s, ds_account s, ds_hero s)"

definition pick_pick :: "draft_pick \<Rightarrow> string \<times> int option \<times> int option" where
  "pick_pick p = (dp_side p, dp_account p, dp_hero p)"

lemma all_some_map: "all_some xs = Some ys \<Longrightarrow> xs = map Some ys"
  by (induction xs arbitrary: ys rule: all_some.induct) auto

lemma current_slot_pick:
  "current_slot rows p = Some s \<Longrightarrow> slot_pick s = pick_pick p \<and> ds_source s = ''STRATZ_CURRENT_MATCH''"
  by (auto simp: current_slot_def slot_pick_def pick_pick_def split: option.splits)

lemma current_slots:
  assumes "resolve_current_match stratz match_id picks = Some r"
  shows "dv_complete (rr_draft r)" "mset (map slot_pick (dv_slots (rr_draft r))) = mset (map pick_pick picks)"
    "side \<in> set draft_sides \<Longrightarrow> side_complete (dv_slots (rr_draft r)) side"
    "\<forall>s \<in> set (dv_slots (rr_draft r)). ds_source s = ''STRATZ_CURRENT_MATCH''"
    "\<exists>payload. stratz = Some (payload, rr_cutoff r)"
proof -
  obtain payload t slots where st: "stratz = Some (payload, t)"
      "all_some (map (current_slot (normalize_current_match_roles payload match_id)) picks) = Some slots"
      "dv_complete (validate_role_assignment slots)" "r = \<lparr>rr_draft = validate_role_assignment slots, rr_cutoff = t\<rparr>"
    using assms by (auto simp: resolve_current_match_def Let_def split: option.splits if_splits)
  have maps: "map (current_slot (normalize_current_match_roles payload match_id)) picks = map Some slots" by (rule all_some_map [OF st(2)])
  have "map slot_pick slots = map pick_pick picks \<and> (\<forall>s \<in> set slots. ds_source s = ''STRATZ_CURRENT_MATCH'')"
    using maps
  proof (induction picks arbitrary: slots)
    case (Cons p picks)
    then obtain s slots' where "slots = s # slots'" "current_slot (normalize_current_match_roles payload match_id) p = Some s"
        "map (current_slot (normalize_current_match_roles payload match_id)) picks = map Some slots'"
      by (cases slots) auto
    then show ?case using Cons.IH [of slots'] current_slot_pick [of _ p s] by auto
  qed simp
  note picked = this
  note v = validated [OF st(3)]
  have same: "set (dv_slots (validate_role_assignment slots)) = set slots" using v(3) by (metis set_mset_mset)
  show "dv_complete (rr_draft r)" using st(3,4) by simp
  show "mset (map slot_pick (dv_slots (rr_draft r))) = mset (map pick_pick picks)"
    using picked arg_cong [OF v(3), of "image_mset slot_pick"] by (simp add: st(4) flip: mset_map)
  show "side \<in> set draft_sides \<Longrightarrow> side_complete (dv_slots (rr_draft r)) side" using v(2,4) by (simp add: st(4))
  show "\<forall>s \<in> set (dv_slots (rr_draft r)). ds_source s = ''STRATZ_CURRENT_MATCH''" using picked same by (simp add: st(4))
  show "\<exists>payload. stratz = Some (payload, rr_cutoff r)" by (simp add: st(1,4))
qed

lemma scan_history_subset:
  "e \<in> set (scan_history acc seen rs) \<Longrightarrow> e \<in> set acc \<or> (\<exists>r \<in> set rs. snd e = hr_basic_usable_at r)"
  by (induction acc seen rs rule: scan_history.induct) (auto split: option.splits if_splits)

lemma account_evidence_young:
  assumes "(p, usable_at) \<in> set (account_evidence (usable_history history accounts observed_at) account)"
  shows "usable_at \<le> observed_at"
  using scan_history_subset [OF assms [unfolded account_evidence_def]] by (auto simp: usable_history_def)

lemma side_slots:
  assumes "resolve_side_from_history picks evidence = Some (slots, cutoff)"
    and young: "\<And>account p u. (p, u) \<in> set (evidence account) \<Longrightarrow> u \<le> limit"
  shows "map slot_pick slots = map pick_pick picks" "cutoff \<le> limit" "length slots = 5" "length picks = 5"
    "\<forall>s \<in> set slots. ds_source s = ''HISTORICAL_ROLE_ASSIGNMENT''"
proof -
  define rows where "rows = map (\<lambda>p. evidence (the (dp_account p))) picks"
  obtain best assignment rest margin where five: "length picks = 5" and rich: "\<forall>r \<in> set rows. 4 \<le> length r \<and> 0 < total_weight r"
    and ranked: "ranked_assignments rows = (best, assignment) # rest"
    and slots: "slots = map (\<lambda>(p, r, a). inferred_slot margin p r a) (zip picks (zip rows assignment))"
    and cutoff: "cutoff = Max (set (map snd (concat rows)))"
    by (rule resolved_side [OF assms(1) rows_def])
  have "(best, assignment) \<in> set (ranked_assignments rows)" by (simp add: ranked)
  then have a: "distinct assignment" "set assignment = set dota_positions" unfolding ranked_set by simp_all
  have len: "length assignment = 5" using distinct_card [OF a(1)] a(2) by (simp add: dota_positions_def)
  have "length rows = length picks" "length assignment = length picks" using five len by (simp_all add: rows_def)
  note same = zip_slots [OF this slots]
  show "length picks = 5" "length slots = 5" using five same by simp_all
  have "map slot_pick slots = zip (map ds_side slots) (zip (map ds_account slots) (map ds_hero slots))"
    by (simp add: slot_pick_def [abs_def] zip_map_map zip_same_conv_map split_beta)
  moreover have "map pick_pick picks = zip (map dp_side picks) (zip (map dp_account picks) (map dp_hero picks))"
    by (simp add: pick_pick_def [abs_def] zip_map_map zip_same_conv_map split_beta)
  ultimately show "map slot_pick slots = map pick_pick picks" using same by simp
  show "\<forall>s \<in> set slots. ds_source s = ''HISTORICAL_ROLE_ASSIGNMENT''" by (auto simp: slots inferred_slot_def)
  have "rows \<noteq> []" using five by (auto simp: rows_def)
  then have nonempty: "set (map snd (concat rows)) \<noteq> {}" using rich by (cases rows) auto
  have "u \<le> limit" if "u \<in> set (map snd (concat rows))" for u using that young by (auto simp: rows_def)
  then show "cutoff \<le> limit" unfolding cutoff using nonempty by (subst Max_le_iff) auto
qed

lemma historical_slots:
  assumes "resolve_historical history picks observed_at = Some r" and ok: "pick_blockers picks = []"
  shows "dv_complete (rr_draft r)" "mset (map slot_pick (dv_slots (rr_draft r))) = mset (map pick_pick picks)"
    "side \<in> set draft_sides \<Longrightarrow> side_complete (dv_slots (rr_draft r)) side"
    "\<forall>s \<in> set (dv_slots (rr_draft r)). ds_source s = ''HISTORICAL_ROLE_ASSIGNMENT''"
    "rr_cutoff r \<le> observed_at"
proof -
  define evidence where "evidence = account_evidence (usable_history history (List.map_filter dp_account picks) observed_at)"
  note run = assms(1) [unfolded resolve_historical_def Let_def, folded evidence_def]
  obtain a c1 b c2 where side: "resolve_side_from_history (filter (\<lambda>p. dp_side p = ''radiant'') picks) evidence = Some (a, c1)"
      "resolve_side_from_history (filter (\<lambda>p. dp_side p = ''dire'') picks) evidence = Some (b, c2)"
    using run by (auto split: if_splits option.splits)
  have complete: "dv_complete (validate_role_assignment (a @ b))" and r: "dv_slots (rr_draft r) = dv_slots (validate_role_assignment (a @ b))"
      "dv_complete (rr_draft r)" "rr_cutoff r = max c1 c2"
    using run side by (auto split: if_splits)
  have young: "\<And>account p u. (p, u) \<in> set (evidence account) \<Longrightarrow> u \<le> observed_at"
    unfolding evidence_def by (rule account_evidence_young)
  note sa = side_slots [OF side(1) young] and sb = side_slots [OF side(2) young]
  note v = validated [OF complete]
  have "mset (filter (\<lambda>p. dp_side p = ''radiant'') picks) + mset (filter (\<lambda>p. dp_side p = ''dire'') picks) = mset picks"
    by (rule partition_sides) (use no_blockers [OF ok] in auto)
  then have "image_mset pick_pick (mset (filter (\<lambda>p. dp_side p = ''radiant'') picks) + mset (filter (\<lambda>p. dp_side p = ''dire'') picks)) =
      image_mset pick_pick (mset picks)" by simp
  then have "mset (map slot_pick (a @ b)) = mset (map pick_pick picks)" by (simp only: map_append sa(1) sb(1) mset_append mset_map image_mset_union)
  moreover have "set (dv_slots (validate_role_assignment (a @ b))) = set (a @ b)" using v(3) by (metis set_mset_mset)
  ultimately show "dv_complete (rr_draft r)" "mset (map slot_pick (dv_slots (rr_draft r))) = mset (map pick_pick picks)"
    "side \<in> set draft_sides \<Longrightarrow> side_complete (dv_slots (rr_draft r)) side"
    "\<forall>s \<in> set (dv_slots (rr_draft r)). ds_source s = ''HISTORICAL_ROLE_ASSIGNMENT''" "rr_cutoff r \<le> observed_at"
    using r v(2,3,4) sa(2,5) sb(2,5) by auto
qed

text \<open>A draft resolved as complete assigns the ten picks, with ten different heroes and players, to
  positions 1 to 5 of each side exactly once; its positions come either all from the STRATZ response it was
  given, whose reception is the evidence cutoff, or all from history that was usable when the draft was
  observed.\<close>

theorem complete_drafts_are_well_formed:
  assumes "dv_complete (rr_draft (resolve stratz history match_id picks observed_at))"
  shows "let r = resolve stratz history match_id picks observed_at; slots = dv_slots (rr_draft r) in
    mset (map (\<lambda>s. (ds_side s, ds_account s, ds_hero s)) slots) = mset (map (\<lambda>p. (dp_side p, dp_account p, dp_hero p)) picks) \<and>
    length slots = 10 \<and> distinct (map ds_hero slots) \<and> distinct (map ds_account slots) \<and> None \<notin> set (map ds_hero slots @ map ds_account slots) \<and>
    (\<forall>side \<in> {''radiant'', ''dire''}. side_complete slots side) \<and>
    (ds_source ` set slots = {''STRATZ_CURRENT_MATCH''} \<and> (\<exists>payload. stratz = Some (payload, rr_cutoff r)) \<or>
     ds_source ` set slots = {''HISTORICAL_ROLE_ASSIGNMENT''} \<and> rr_cutoff r \<le> observed_at)"
proof -
  define r where "r = resolve stratz history match_id picks observed_at"
  define slots where "slots = dv_slots (rr_draft r)"
  have ok: "pick_blockers picks = []" using assms by (auto simp: resolve_def incomplete_def split: if_splits)
  have cases: "resolve_current_match stratz match_id picks = Some r \<or> resolve_historical history picks observed_at = Some r"
    using assms unfolding r_def by (auto simp: resolve_def ok incomplete_def split: option.splits)
  have slots': "mset (map slot_pick slots) = mset (map pick_pick picks)" and sides: "\<And>side. side \<in> set draft_sides \<Longrightarrow> side_complete slots side"
    using cases current_slots historical_slots [OF _ ok] by (auto simp: slots_def)
  have source: "(\<forall>s \<in> set slots. ds_source s = ''STRATZ_CURRENT_MATCH'') \<and> (\<exists>payload. stratz = Some (payload, rr_cutoff r)) \<or>
      (\<forall>s \<in> set slots. ds_source s = ''HISTORICAL_ROLE_ASSIGNMENT'') \<and> rr_cutoff r \<le> observed_at"
    using cases current_slots(4,5) historical_slots(4,5) [OF _ ok] by (auto simp: slots_def)
  have len: "length slots = 10" using arg_cong [OF slots', of size] no_blockers(1) [OF ok] by simp
  have heroes: "mset (map ds_hero slots) = mset (map dp_hero picks)" and accounts: "mset (map ds_account slots) = mset (map dp_account picks)"
    using arg_cong [OF slots', of "image_mset (\<lambda>(s, a, h). h)"] arg_cong [OF slots', of "image_mset (\<lambda>(s, a, h). a)"]
    by (simp_all add: slot_pick_def pick_pick_def multiset.map_comp comp_def)
  have "distinct (map ds_hero slots)" "distinct (map ds_account slots)"
    using no_blockers(2,3) [OF ok] heroes accounts by (metis mset_eq_imp_distinct_iff)+
  moreover have "set (map ds_hero slots) = set (map dp_hero picks)" "set (map ds_account slots) = set (map dp_account picks)"
    using heroes accounts by (metis set_mset_mset)+
  then have "None \<notin> set (map ds_hero slots @ map ds_account slots)" using no_blockers(4) [OF ok] by auto
  moreover have "slots \<noteq> []" using len by auto
  then have "ds_source ` set slots = {x}" if "\<forall>s \<in> set slots. ds_source s = x" for x using that by (cases slots) auto
  then have "ds_source ` set slots = {''STRATZ_CURRENT_MATCH''} \<and> (\<exists>payload. stratz = Some (payload, rr_cutoff r)) \<or>
     ds_source ` set slots = {''HISTORICAL_ROLE_ASSIGNMENT''} \<and> rr_cutoff r \<le> observed_at"
    using source by blast
  moreover have "\<forall>side \<in> {''radiant'', ''dire''}. side_complete slots side" using sides by (simp add: draft_sides_def)
  ultimately show ?thesis
    unfolding Let_def r_def [symmetric] slots_def [symmetric]
    using slots' len unfolding slot_pick_def [abs_def] pick_pick_def [abs_def] by blast
qed

subsection \<open>Instances\<close>

definition demo_side :: "string \<Rightarrow> int \<Rightarrow> draft_pick list" where
  "demo_side side base = map (\<lambda>i. \<lparr>dp_side = side, dp_slot = i, dp_account = Some (base + i), dp_hero = Some (base + i)\<rparr>) dota_positions"

definition demo_evidence :: "int \<Rightarrow> role_evidence" where
  "demo_evidence account = replicate 4 (6 - account, 7)"

theorem inferred_positions_are_optimal_witness:
  "\<exists>slots cutoff. resolve_side_from_history (demo_side ''dire'' 0) demo_evidence = Some (slots, cutoff) \<and> length slots = 5 \<and>
     set (map ds_position slots) = {1, 2, 3, 4, 5}"
proof -
  have "resolve_side_from_history (demo_side ''dire'' 0) demo_evidence \<noteq> None" by code_simp
  then obtain slots cutoff where run: "resolve_side_from_history (demo_side ''dire'' 0) demo_evidence = Some (slots, cutoff)" by auto
  show ?thesis using inferred_positions_are_optimal [OF run] run by blast
qed

definition demo_role :: "draft_pick \<Rightarrow> json" where
  "demo_role p = JObj [(''steamAccountId'', JInt (the (dp_account p))), (''heroId'', JInt (the (dp_hero p))),
     (''position'', JInt (dp_slot p)), (''isRadiant'', JBool (dp_side p = ''radiant''))]"

theorem complete_drafts_are_well_formed_witness:
  "length (dv_slots (rr_draft (resolve
     (Some ([(''data'', JObj [(''match'', JObj [(''id'', JInt 1), (''players'', JList (map demo_role (demo_side ''radiant'' 0 @ demo_side ''dire'' 5)))])])], 9))
     [] 1 (demo_side ''radiant'' 0 @ demo_side ''dire'' 5) 8))) = 10"
proof -
  have "dv_complete (rr_draft (resolve
     (Some ([(''data'', JObj [(''match'', JObj [(''id'', JInt 1), (''players'', JList (map demo_role (demo_side ''radiant'' 0 @ demo_side ''dire'' 5)))])])], 9))
     [] 1 (demo_side ''radiant'' 0 @ demo_side ''dire'' 5) 8))" by code_simp
  from complete_drafts_are_well_formed [OF this] show ?thesis unfolding Let_def by blast
qed

end
