(* ===== verification/DraftStoreProperties.thy ===== *)
theory DraftStoreProperties
  imports DraftStore DraftProperties IdentityProperties
begin

text \<open>
  Properties of the stored drafts: they are append-only, and a map whose latest draft is complete with
  verified positions never loses it to an incomplete or unverified one.
\<close>

subsection \<open>Appended slots\<close>

lemma append_slots_rows:
  "\<exists>new. snd (append_slots hero_names players heroes i slots idb rows) = rows @ new \<and> length new = length slots \<and>
     map dl_source new = map ds_source slots \<and> (\<forall>r \<in> set new. dl_snapshot r = i)"
proof (induction slots arbitrary: idb rows)
  case (Cons s slots)
  obtain idb2 row where step: "append_slots hero_names players heroes i (s # slots) idb rows =
      append_slots hero_names players heroes i slots idb2 (rows @ [row])" and row: "dl_source row = ds_source s" "dl_snapshot row = i"
    by (auto simp: Let_def split_beta)
  from Cons.IH [of idb2 "rows @ [row]"] obtain new where "snd (append_slots hero_names players heroes i slots idb2 (rows @ [row])) = (rows @ [row]) @ new"
      "length new = length slots" "map dl_source new = map ds_source slots" "\<forall>r \<in> set new. dl_snapshot r = i" by blast
  then show ?case using row by (intro exI [of _ "row # new"]) (simp add: step del: append_slots.simps)
qed simp

definition drafts_ok :: "draft_db \<Rightarrow> bool" where
  "drafts_ok db \<longleftrightarrow> (\<forall>s \<in> set (dd_snapshots db). dn_id s < dd_next db) \<and> (\<forall>r \<in> set (dd_slots db). dl_snapshot r < dd_next db)"

definition verified :: "draft_db \<Rightarrow> draft_snapshot \<Rightarrow> bool" where
  "verified db s \<longleftrightarrow> dn_complete s \<and> positions_are_verified (stored_slots db (dn_id s))"

lemma verified_rows:
  "positions_are_verified (stored_slots db i) \<longleftrightarrow>
     length (slots_of db i) = 10 \<and> (\<forall>r \<in> set (slots_of db i). dl_source r \<in> set verified_sources)"
  by (auto simp: positions_are_verified_def stored_slots_def list_all_iff)

text \<open>A resolution that is complete carries ten verified positions.\<close>

lemma complete_is_verified:
  assumes "dv_complete (rr_draft (resolve stratz history match_id picks observed_at))"
  shows "positions_are_verified (dv_slots (rr_draft (resolve stratz history match_id picks observed_at)))"
proof -
  define r where "r = resolve stratz history match_id picks observed_at"
  have ok: "pick_blockers picks = []" using assms by (auto simp: resolve_def incomplete_def split: if_splits)
  have cases: "resolve_current_match stratz match_id picks = Some r \<or> resolve_historical history picks observed_at = Some r"
    using assms unfolding r_def by (auto simp: resolve_def ok incomplete_def split: option.splits)
  have slots: "mset (map slot_pick (dv_slots (rr_draft r))) = mset (map pick_pick picks)"
    using cases current_slots(2) historical_slots(2) [OF _ ok] by blast
  have "length (dv_slots (rr_draft r)) = 10" using arg_cong [OF slots, of size] no_blockers(1) [OF ok] by simp
  moreover have "\<forall>s \<in> set (dv_slots (rr_draft r)). ds_source s \<in> set verified_sources"
    using cases current_slots(4) historical_slots(4) [OF _ ok] by (fastforce simp: verified_sources_def)
  ultimately show ?thesis by (simp add: r_def positions_are_verified_def list_all_iff)
qed

text \<open>What processing does to the stored drafts.\<close>

definition draft_step :: "draft_db \<Rightarrow> draft_db \<Rightarrow> bool" where
  "draft_step db db' \<longleftrightarrow> drafts_ok db' \<and>
     (\<forall>s \<in> set (dd_snapshots db). slots_of db' (dn_id s) = slots_of db (dn_id s)) \<and>
     (dd_snapshots db' = dd_snapshots db \<or>
      (\<exists>n. dd_snapshots db' = dd_snapshots db @ [n] \<and>
        (if dn_complete n then verified db' n else \<not> (\<exists>l. latest_draft db (dn_map n) = Some l \<and> verified db l))))"

lemma draft_step_same:
  assumes "drafts_ok db" "dd_snapshots db' = dd_snapshots db" "dd_slots db' = dd_slots db" "dd_next db' = dd_next db"
  shows "draft_step db db'"
  using assms by (simp add: draft_step_def drafts_ok_def slots_of_def)

lemma draft_views_live [simp]:
  "dd_snapshots (db\<lparr>dd_live := x\<rparr>) = dd_snapshots db" "slots_of (db\<lparr>dd_live := x\<rparr>) i = slots_of db i" "stored_slots (db\<lparr>dd_live := x\<rparr>) i = stored_slots db i"
  "drafts_ok (db\<lparr>dd_live := x\<rparr>) = drafts_ok db" "verified (db\<lparr>dd_live := x\<rparr>) s = verified db s"
  "latest_draft (db\<lparr>dd_live := x\<rparr>) m = latest_draft db m"
  by (simp_all add: slots_of_def stored_slots_def drafts_ok_def verified_def latest_draft_def)

lemma draft_views_identity [simp]:
  "dd_snapshots (db\<lparr>dd_identity := x\<rparr>) = dd_snapshots db" "slots_of (db\<lparr>dd_identity := x\<rparr>) i = slots_of db i" "stored_slots (db\<lparr>dd_identity := x\<rparr>) i = stored_slots db i"
  "drafts_ok (db\<lparr>dd_identity := x\<rparr>) = drafts_ok db" "verified (db\<lparr>dd_identity := x\<rparr>) s = verified db s"
  "latest_draft (db\<lparr>dd_identity := x\<rparr>) m = latest_draft db m"
  by (simp_all add: slots_of_def stored_slots_def drafts_ok_def verified_def latest_draft_def)

lemma draft_step_live: "draft_step db db' \<Longrightarrow> draft_step db (db'\<lparr>dd_live := x\<rparr>)"
  unfolding draft_step_def draft_views_live by assumption

lemma draft_step_before:
  assumes "draft_step (db\<lparr>dd_identity := x, dd_live := y\<rparr>) db'"
  shows "draft_step db db'"
  using assms unfolding draft_step_def draft_views_live draft_views_identity by assumption

lemma store_step:
  assumes ok: "drafts_ok db" and run: "store_draft pg hn digest db now rs match_id payload draft t raw af = Inr (result, db')"
    and complete: "dv_complete draft \<Longrightarrow> positions_are_verified (dv_slots draft)"
  shows "draft_step db db'"
proof (cases "decide_draft db (rs_map rs) draft (draft_hash digest draft) af")
  case (KeepVerified l)
  then show ?thesis using run ok by (auto simp: store_draft_def Let_def intro: draft_step_same)
next
  case (AlreadyStored e)
  then show ?thesis using run ok by (auto simp: store_draft_def Let_def intro: draft_step_same)
next
  case AppendDraft
  define i where "i = dd_next db"
  define n where "n = new_snapshot i (rs_map rs) match_id draft (draft_hash digest draft) t raw"
  obtain live where db': "db' = (append_draft hn db (rs_map rs) match_id payload draft (draft_hash digest draft) t raw)\<lparr>dd_live := live\<rparr>"
    using run AppendDraft by (auto simp: store_draft_def Let_def split: sum.splits)
  obtain new where new: "dd_slots db' = dd_slots db @ new" "length new = length (dv_slots draft)"
      "map dl_source new = map ds_source (dv_slots draft)" "\<forall>r \<in> set new. dl_snapshot r = i"
    using append_slots_rows [of hn "fst (parse_draft_labels payload)" "snd (parse_draft_labels payload)" i "dv_slots draft" "dd_identity db" "dd_slots db"]
    by (auto simp: db' append_draft_def Let_def split_beta i_def)
  have snaps: "dd_snapshots db' = dd_snapshots db @ [n]" "dd_next db' = Suc i"
    by (simp_all add: db' append_draft_def Let_def split_beta n_def i_def)
  have old: "slots_of db' (dn_id s) = slots_of db (dn_id s)" if "s \<in> set (dd_snapshots db)" for s
    using that ok new(4) by (auto simp: slots_of_def new(1) drafts_ok_def i_def filter_empty_conv)
  have none: "slots_of db i = []" using ok by (auto simp: slots_of_def drafts_ok_def i_def filter_empty_conv)
  have mine: "slots_of db' i = new"
  proof -
    have "filter (\<lambda>r. dl_snapshot r = i) new = new" using new(4) by (simp add: filter_id_conv)
    then show ?thesis using none by (simp add: slots_of_def new(1))
  qed
  have "drafts_ok db'" using ok new(4) by (auto simp: drafts_ok_def snaps new(1) n_def new_snapshot_def i_def less_Suc_eq)
  moreover have "verified db' n" if "dv_complete draft"
  proof -
    have "\<forall>r \<in> set new. dl_source r \<in> set verified_sources"
    proof
      fix r assume "r \<in> set new"
      then have "dl_source r \<in> set (map dl_source new)" by simp
      then have "dl_source r \<in> ds_source ` set (dv_slots draft)" by (simp only: new(3) list.set_map)
      then show "dl_source r \<in> set verified_sources" using complete [OF that] by (auto simp: positions_are_verified_def list_all_iff)
    qed
    moreover have "length new = 10" using complete [OF that] new(2) by (simp add: positions_are_verified_def)
    ultimately show ?thesis using that mine by (simp add: verified_def verified_rows n_def new_snapshot_def)
  qed
  moreover have "\<not> (\<exists>l. latest_draft db (dn_map n) = Some l \<and> verified db l)" if "\<not> dv_complete draft"
    using AppendDraft that by (auto simp: decide_draft_def Let_def verified_def n_def new_snapshot_def)
  moreover have "dn_complete n = dv_complete draft" by (simp add: n_def new_snapshot_def)
  ultimately show ?thesis using old snaps unfolding draft_step_def by auto
qed

lemma process_step:
  assumes ok: "drafts_ok db"
    and run: "process_payload pg fi hn digest w db now stratz match_id payload t raw ds af = Inr (result, db')"
  shows "draft_step db db'"
proof -
  define res where "res = resolve stratz (dd_history db) match_id (parse_dltv_provider_picks payload) t"
  note run' = run [unfolded process_payload_def Let_def, folded res_def]
  obtain bi where bi: "parse_bootstrap_identity fi payload match_id = Inr bi" using run' by (cases "parse_bootstrap_identity fi payload match_id") auto
  define bi' where "bi' = (if bi_series bi = None \<and> ds \<noteq> None then bi\<lparr>bi_series := ds\<rparr> else bi)"
  note run1 = run' [unfolded bi sum.case, folded bi'_def]
  obtain rs idb where rs: "resolve_dltv_bootstrap w (dd_identity db) bi' = Inr (rs, idb)"
    using run1 by (cases "resolve_dltv_bootstrap w (dd_identity db) bi'") auto
  obtain live1 where l1: "record_events pg (dd_live db) now [resolved_event (rs_map rs) match_id t] = Inr live1"
    using run1 by (cases "record_events pg (dd_live db) now [resolved_event (rs_map rs) match_id t]") (auto simp: rs)
  define live2 where "live2 = archive_stratz digest live1 match_id (parse_dltv_provider_picks payload) stratz"
  define start where "start = db\<lparr>dd_identity := idb, dd_live := live2\<rparr>"
  note run'' = run1 [unfolded rs sum.case prod.case l1, folded live2_def, folded start_def]
  obtain db1 where st: "store_draft pg hn digest start now rs match_id payload (rr_draft res) (max t (rr_cutoff res)) raw af = Inr (result, db1)"
    and db': "\<exists>x. db' = db1\<lparr>dd_live := x\<rparr>"
  proof (cases "store_draft pg hn digest start now rs match_id payload (rr_draft res) (max t (rr_cutoff res)) raw af")
    case (Inl e)
    then show ?thesis using run'' by simp
  next
    case (Inr x)
    obtain r db1 where x: "x = (r, db1)" by fastforce
    show ?thesis
    proof (cases af)
      case True
      then have "r = result" "\<exists>x. db' = db1\<lparr>dd_live := x\<rparr>" using run'' [unfolded Inr x sum.case prod.case] by (auto split: sum.splits)
      then show ?thesis using that Inr x by simp
    next
      case False
      then have "r = result" "db' = db1\<lparr>dd_live := dd_live db1\<rparr>" using run'' [unfolded Inr x sum.case prod.case] by simp_all
      then show ?thesis using that Inr x by blast
    qed
  qed
  have "drafts_ok start" using ok by (simp add: drafts_ok_def start_def)
  then have "draft_step start db1"
    by (rule store_step [OF _ st]) (use complete_is_verified in \<open>simp add: res_def\<close>)
  then have "draft_step (db\<lparr>dd_identity := idb, dd_live := live2\<rparr>) db1" by (simp add: start_def)
  then show ?thesis using db' draft_step_before draft_step_live by blast
qed

lemma bootstrap_step:
  assumes ok: "drafts_ok db"
    and run: "bootstrap pg fi hn digest w db now stratz match_id payload t ds ended = Inr (result, db')"
  shows "draft_step db db'"
proof -
  obtain raw live where raw: "append_raw digest (dd_live db) ''DLTV_BOOTSTRAP'' (str_int match_id) payload t None None = (raw, live)" by fastforce
  note run1 = run [unfolded bootstrap_def Let_def raw prod.case]
  obtain r db1 where p: "process_payload pg fi hn digest w (db\<lparr>dd_live := live\<rparr>) now stratz match_id payload t raw ds True = Inr (r, db1)"
    using run1 by (cases "process_payload pg fi hn digest w (db\<lparr>dd_live := live\<rparr>) now stratz match_id payload t raw ds True") auto
  note run2 = run1 [unfolded p sum.case prod.case]
  have "\<exists>x. db' = db1\<lparr>dd_live := x\<rparr>"
  proof (cases ended)
    case None
    then have "db' = db1\<lparr>dd_live := dd_live db1\<rparr>" using run2 by simp
    then show ?thesis by blast
  next
    case (Some e)
    then show ?thesis using run2 by (auto split: sum.splits)
  qed
  moreover have "drafts_ok (db\<lparr>dd_live := live\<rparr>)" using ok by (simp add: drafts_ok_def)
  from process_step [OF this p] have "draft_step (db\<lparr>dd_identity := dd_identity db, dd_live := live\<rparr>) db1" by simp
  ultimately show ?thesis using draft_step_before draft_step_live by blast
qed

text \<open>Bootstraps and rebuilds with any responses; a failed one is rolled back.\<close>

datatype draft_op =
  DoBootstrap time "((string \<times> json) list \<times> time) option" int "(string \<times> json) list" time "int option" "time option"
| DoRebuild time "((string \<times> json) list \<times> time) option" int "(string \<times> json) list" uuid

definition run_draft ::
  "bool \<Rightarrow> (string \<Rightarrow> time option) \<Rightarrow> (int \<Rightarrow> string option) \<Rightarrow> (json \<Rightarrow> string) \<Rightarrow> duration \<Rightarrow> draft_db \<Rightarrow> draft_op \<Rightarrow> draft_db" where
  "run_draft pg fi hn digest w db op =
     (case (case op of
              DoBootstrap now stratz match_id payload t ds ended \<Rightarrow> bootstrap pg fi hn digest w db now stratz match_id payload t ds ended
            | DoRebuild now stratz match_id payload raw \<Rightarrow> rebuild_draft_from_stored_payload pg fi hn digest w db now stratz match_id payload raw) of
        Inl e \<Rightarrow> db
      | Inr (result, db') \<Rightarrow> db')"

lemma run_draft_step: "drafts_ok db \<Longrightarrow> draft_step db (run_draft pg fi hn digest w db op)"
  using bootstrap_step process_step draft_step_same [of db db]
  by (cases op) (auto simp: run_draft_def rebuild_draft_from_stored_payload_def split: sum.split)

text \<open>A step keeps a verified latest draft, and every stored draft.\<close>

lemma latest_verified_step:
  assumes ok: "drafts_ok db" and step: "draft_step db db'" and l: "latest_draft db m = Some l" "verified db l"
  shows "\<exists>l'. latest_draft db' m = Some l' \<and> verified db' l'"
proof -
  have lin: "l \<in> set (dd_snapshots db)" "dn_map l = m"
    using py_max_in [OF l(1) [unfolded latest_draft_def newest_def]] by simp_all
  have lv: "verified db' l" using l(2) lin(1) step by (simp add: draft_step_def verified_def verified_rows)
  have one: "dd_snapshots db' = dd_snapshots db \<or> (\<exists>n. dd_snapshots db' = dd_snapshots db @ [n] \<and>
      (if dn_complete n then verified db' n else \<not> (\<exists>l. latest_draft db (dn_map n) = Some l \<and> verified db l)))"
    using step unfolding draft_step_def by blast
  have new: "verified db' n"
    if "if dn_complete n then verified db' n else \<not> (\<exists>l. latest_draft db (dn_map n) = Some l \<and> verified db l)" "dn_map n = m" for n
    using that l by (cases "dn_complete n") auto
  consider "dd_snapshots db' = dd_snapshots db" | n where "dd_snapshots db' = dd_snapshots db @ [n]" "dn_map n \<noteq> m"
    | n where "dd_snapshots db' = dd_snapshots db @ [n]" "dn_map n = m" "verified db' n"
    using one new by blast
  then show ?thesis
  proof cases
    case 1
    then show ?thesis using l(1) lv by (simp add: latest_draft_def)
  next
    case (2 n)
    then show ?thesis using l(1) lv by (simp add: latest_draft_def newest_def)
  next
    case (3 n)
    have "latest_draft db' m = Some (if dn_observed_at l < dn_observed_at n then n else l)"
      using l(1) 3(1,2) by (simp add: latest_draft_def newest_def py_max_snoc)
    then show ?thesis using 3(3) lv by auto
  qed
qed

definition empty_drafts :: "live_db \<Rightarrow> identity_db \<Rightarrow> history_row list \<Rightarrow> draft_db" where
  "empty_drafts live idb history =
     \<lparr>dd_live = live, dd_identity = idb, dd_snapshots = [], dd_slots = [], dd_history = history, dd_next = 0\<rparr>"

lemma run_drafts_ok: "drafts_ok db \<Longrightarrow> drafts_ok (foldl (run_draft pg fi hn digest w) db ops)"
proof (induction ops arbitrary: db)
  case (Cons op ops)
  have "drafts_ok (run_draft pg fi hn digest w db op)" using run_draft_step [OF Cons.prems] by (auto simp: draft_step_def)
  then show ?case using Cons.IH by simp
qed simp

lemma verified_drafts_kept:
  "drafts_ok db \<Longrightarrow> latest_draft db m = Some l \<Longrightarrow> verified db l \<Longrightarrow>
   \<exists>l'. latest_draft (foldl (run_draft pg fi hn digest w) db ops) m = Some l' \<and> verified (foldl (run_draft pg fi hn digest w) db ops) l'"
proof (induction ops arbitrary: db l)
  case (Cons op ops)
  note step = run_draft_step [OF Cons.prems(1), of pg fi hn digest w op]
  obtain l' where "latest_draft (run_draft pg fi hn digest w db op) m = Some l'" "verified (run_draft pg fi hn digest w db op) l'"
    using latest_verified_step [OF Cons.prems(1) step Cons.prems(2,3)] by blast
  moreover have "drafts_ok (run_draft pg fi hn digest w db op)" using step by (simp add: draft_step_def)
  ultimately show ?case using Cons.IH by simp
qed simp

lemma drafts_append_only:
  "drafts_ok db \<Longrightarrow> \<exists>new. dd_snapshots (foldl (run_draft pg fi hn digest w) db ops) = dd_snapshots db @ new \<and>
     (\<forall>s \<in> set (dd_snapshots db). slots_of (foldl (run_draft pg fi hn digest w) db ops) (dn_id s) = slots_of db (dn_id s))"
proof (induction ops arbitrary: db)
  case (Cons op ops)
  note step = run_draft_step [OF Cons.prems, of pg fi hn digest w op]
  let ?db = "run_draft pg fi hn digest w db op"
  obtain n where n: "dd_snapshots ?db = dd_snapshots db @ n" using step by (auto simp: draft_step_def)
  have "drafts_ok ?db" using step by (simp add: draft_step_def)
  from Cons.IH [OF this] obtain new where new: "dd_snapshots (foldl (run_draft pg fi hn digest w) ?db ops) = dd_snapshots ?db @ new"
      "\<forall>s \<in> set (dd_snapshots ?db). slots_of (foldl (run_draft pg fi hn digest w) ?db ops) (dn_id s) = slots_of ?db (dn_id s)" by blast
  then show ?case using n step by (intro exI [of _ "n @ new"]) (auto simp: draft_step_def)
qed simp

text \<open>C40. From the moment the latest draft of a map is complete with ten verified positions, it stays complete
  and verified through every later bootstrap and rebuild of any match, whatever their payloads, responses
  and clocks; no stored draft is ever removed or changed.\<close>

theorem verified_drafts_are_never_lost:
  fixes after :: "draft_op list"
  assumes "latest_draft (foldl (run_draft pg fi hn digest w) (empty_drafts live idb history) before) m = Some l"
    and "dn_complete l" and "positions_are_verified (stored_slots (foldl (run_draft pg fi hn digest w) (empty_drafts live idb history) before) (dn_id l))"
  defines "old \<equiv> foldl (run_draft pg fi hn digest w) (empty_drafts live idb history) before"
    and "new \<equiv> foldl (run_draft pg fi hn digest w) (empty_drafts live idb history) (before @ after)"
  shows "(\<exists>l'. latest_draft new m = Some l' \<and> dn_complete l' \<and> positions_are_verified (stored_slots new (dn_id l'))) \<and>
    (\<exists>more. dd_snapshots new = dd_snapshots old @ more) \<and> (\<forall>s \<in> set (dd_snapshots old). stored_slots new (dn_id s) = stored_slots old (dn_id s))"
proof -
  have ok: "drafts_ok old" unfolding old_def by (rule run_drafts_ok) (simp add: drafts_ok_def empty_drafts_def)
  have "verified old l" using assms(2,3) by (simp add: verified_def old_def)
  moreover have "latest_draft old m = Some l" using assms(1) by (simp add: old_def)
  moreover have "new = foldl (run_draft pg fi hn digest w) old after" by (simp add: new_def old_def)
  ultimately show ?thesis
    using verified_drafts_kept [OF ok, of m l pg fi hn digest w after] drafts_append_only [OF ok, of pg fi hn digest w after]
    by (auto simp: verified_def stored_slots_def)
qed

definition demo_team :: "int \<Rightarrow> string \<Rightarrow> json" where
  "demo_team i title = JObj [(''id'', JInt i), (''title'', JStr title)]"

definition demo_player :: "draft_pick \<Rightarrow> json" where
  "demo_player p = JObj [(''team'', JInt (if dp_side p = ''radiant'' then 0 else 1)), (''team_slot'', JInt (dp_slot p)),
     (''account_id'', JInt (the (dp_account p))), (''hero_id'', JInt (the (dp_hero p)))]"

definition demo_stratz :: "((string \<times> json) list \<times> time) option" where
  "demo_stratz = Some ([(''data'', JObj [(''match'', JObj [(''id'', JInt 77),
     (''players'', JList (map demo_role (demo_side ''radiant'' 0 @ demo_side ''dire'' 5)))])])], 9)"

definition demo_payload :: "(string \<times> json) list" where
  "demo_payload =
     [(''db'', JObj [(''first_team'', demo_team 1 ''Spirit''), (''second_team'', demo_team 2 ''Liquid'')]),
      (''players'', JList (map demo_player (demo_side ''radiant'' 0 @ demo_side ''dire'' 5)))]"

text \<open>A match whose map is known already.\<close>

definition demo_identities :: identity_db where
  "demo_identities = empty_identity\<lparr>
     id_series := [\<lparr>ser_id = 2, ser_event = None, ser_team_a = 0, ser_team_b = 1, ser_best_of = None, ser_stage_key = ''UNKNOWN'',
                     ser_scheduled_at = None\<rparr>],
     id_maps := [\<lparr>mr_id = 3, mr_series = Some 2, mr_number = Some 1, mr_valve_match = Some 77\<rparr>],
     id_team_mappings := [\<lparr>tm_provider = ''dltv'', tm_key = ''1'', tm_team = 0, tm_observed_name = None\<rparr>,
                          \<lparr>tm_provider = ''dltv'', tm_key = ''2'', tm_team = 1, tm_observed_name = None\<rparr>],
     id_next := 4\<rparr>"

text \<open>The first draft of a map is stored as it is resolved.\<close>

lemma record_events_total: "\<exists>live. record_events pg db now evs = Inr live"
proof -
  have one: "\<exists>r edb'. record_event pg edb now ev [''domain''] = Inr (r, edb')" for edb ev
    by (auto simp: record_event_def insert_event_def Let_def split: option.split)
  have "\<exists>edb'. record_all pg edb now evs = Inr edb'" for edb
  proof (induction evs arbitrary: edb)
    case (Cons ev evs)
    obtain r edb' where "record_event pg edb now ev [''domain''] = Inr (r, edb')" using one by blast
    then show ?case using Cons.IH [of edb'] by auto
  qed simp
  then obtain edb' where "record_all pg (lv_events db) now evs = Inr edb'" by blast
  then show ?thesis by (simp add: record_events_def)
qed

lemma first_draft_is_stored:
  assumes ok: "drafts_ok db" and none: "dd_snapshots db = []"
    and bi: "parse_bootstrap_identity fi payload match_id = Inr bi" and rs: "resolve_dltv_bootstrap w (dd_identity db) bi = Inr (rs, idb)"
    and complete: "dv_complete (rr_draft (resolve stratz (dd_history db) match_id (parse_dltv_provider_picks payload) now))"
  shows "\<exists>l. latest_draft (run_draft pg fi hn digest w db (DoRebuild now stratz match_id payload raw)) (rs_map rs) = Some l \<and>
    verified (run_draft pg fi hn digest w db (DoRebuild now stratz match_id payload raw)) l"
proof -
  define res where "res = resolve stratz (dd_history db) match_id (parse_dltv_provider_picks payload) now"
  obtain live1 where l1: "record_events pg (dd_live db) now [resolved_event (rs_map rs) match_id now] = Inr live1"
    using record_events_total by blast
  define start where "start = db\<lparr>dd_identity := idb, dd_live := archive_stratz digest live1 match_id (parse_dltv_provider_picks payload) stratz\<rparr>"
  have fresh: "decide_draft start m d h af = AppendDraft" for m d h af
    by (simp add: decide_draft_def latest_draft_def same_draft_def newest_def start_def none py_max_None [THEN iffD2] Let_def)
  define db1 where "db1 = append_draft hn start (rs_map rs) match_id payload (rr_draft res) (draft_hash digest (rr_draft res)) (max now (rr_cutoff res)) raw"
  obtain live where l2: "record_events pg (dd_live db1) now [draft_confirmed_event (rs_map rs) (draft_hash digest (rr_draft res)) (dd_next start)
      (max now (rr_cutoff res))] = Inr live"
    using record_events_total by blast
  have run: "run_draft pg fi hn digest w db (DoRebuild now stratz match_id payload raw) = db1\<lparr>dd_live := live\<rparr>"
    by (simp add: run_draft_def rebuild_draft_from_stored_payload_def process_payload_def bi rs l1 store_draft_def fresh Let_def
        start_def [symmetric] res_def [symmetric] db1_def [symmetric] complete [folded res_def] l2)
  obtain n where n: "dd_snapshots (db1\<lparr>dd_live := live\<rparr>) = [n]" "dn_map n = rs_map rs" "dn_complete n"
    using complete [folded res_def] by (simp add: db1_def append_draft_def Let_def split_beta start_def none new_snapshot_def)
  have "draft_step db (db1\<lparr>dd_live := live\<rparr>)"
    using run_draft_step [OF ok, of pg fi hn digest w "DoRebuild now stratz match_id payload raw"] by (simp add: run)
  then have "verified (db1\<lparr>dd_live := live\<rparr>) n" using n none by (auto simp: draft_step_def)
  moreover have "latest_draft (db1\<lparr>dd_live := live\<rparr>) (rs_map rs) = Some n"
    using n(1,2) by (simp add: latest_draft_def newest_def py_max_def)
  ultimately show ?thesis unfolding run by blast
qed

definition demo_drafts :: draft_db where
  "demo_drafts = empty_drafts \<lparr>lv_raw = [], lv_observations = [], lv_maps = [], lv_events = \<lparr>events = [], outbox = [], next_event_id = 0\<rparr>,
     lv_next_raw = 0, lv_next_observation = 0\<rparr> demo_identities []"

theorem verified_drafts_are_never_lost_witness:
  "\<exists>m l'. latest_draft (foldl (run_draft False (\<lambda>s. Some 1000) (\<lambda>h. None) (\<lambda>j. ''h'') 10800000000) demo_drafts
      ([DoRebuild 8 demo_stratz 77 demo_payload 0] @ [DoRebuild 20 None 77 [] 0])) m = Some l' \<and> dn_complete l'"
proof -
  obtain bi where bi: "parse_bootstrap_identity (\<lambda>s. Some 1000) demo_payload 77 = Inr bi" "bi_first_team bi = 1" "bi_second_team bi = 2"
      "bi_valve_match bi = 77" "bi_radiant bi = None" "bi_dire bi = None"
    by (simp add: parse_bootstrap_identity_def demo_payload_def obj_fields_def json_get_def valid_team_def demo_team_def opt_field_def
        strip_def py_isspace_def map_scores_def Let_def)
  have key: "str_int 1 = ''1''" "str_int 2 = ''2''" by code_simp+
  have "\<exists>rs idb. resolve_dltv_bootstrap 10800000000 demo_identities bi = Inr (rs, idb)"
    by (simp add: resolve_dltv_bootstrap_def bi key resolve_team_def resolve_team_as_def team_mapping_for_def demo_identities_def
        map_by_match_def series_by_id_def canonical_sides_def validate_series_teams_def validate_series_sides_def)
  then obtain rs idb where rs: "resolve_dltv_bootstrap 10800000000 (dd_identity demo_drafts) bi = Inr (rs, idb)"
    by (auto simp: demo_drafts_def empty_drafts_def)
  have complete: "dv_complete (rr_draft (resolve demo_stratz (dd_history demo_drafts) 77 (parse_dltv_provider_picks demo_payload) 8))"
    by code_simp
  let ?db = "run_draft False (\<lambda>s. Some 1000) (\<lambda>h. None) (\<lambda>j. ''h'') 10800000000 demo_drafts (DoRebuild 8 demo_stratz 77 demo_payload 0)"
  have "drafts_ok demo_drafts" "dd_snapshots demo_drafts = []" by (simp_all add: demo_drafts_def empty_drafts_def drafts_ok_def)
  from first_draft_is_stored [OF this bi(1) rs complete, of False "\<lambda>h. None" "\<lambda>j. ''h''" 0]
  obtain l where "latest_draft ?db (rs_map rs) = Some l" "dn_complete l" "positions_are_verified (stored_slots ?db (dn_id l))"
    by (auto simp: verified_def)
  then have l: "latest_draft (foldl (run_draft False (\<lambda>s. Some 1000) (\<lambda>h. None) (\<lambda>j. ''h'') 10800000000) demo_drafts
        [DoRebuild 8 demo_stratz 77 demo_payload 0]) (rs_map rs) = Some l" "dn_complete l"
      "positions_are_verified (stored_slots (foldl (run_draft False (\<lambda>s. Some 1000) (\<lambda>h. None) (\<lambda>j. ''h'') 10800000000) demo_drafts
        [DoRebuild 8 demo_stratz 77 demo_payload 0]) (dn_id l))"
    by simp_all
  show ?thesis
    using verified_drafts_are_never_lost [OF l [unfolded demo_drafts_def], of "[DoRebuild 20 None 77 [] 0]"] unfolding demo_drafts_def by blast
qed

end
