(* ===== verification/Decisions.thy ===== *)
theory Decisions
  imports Portfolio "HOL-Library.Monad_Syntax"
begin

text \<open>
  The AI decisions: \<open>AiDecision\<close> of \<open>app/domain/decision.py\<close>, the policy check, the parser of an answer and the
  usage parser of \<open>app/ai/base.py\<close>, and the identities of an experiment (\<open>app/domain/experiment.py\<close>,
  \<open>app/ai/versions.py\<close>).  The JSON parser and the parser and printer of numerals are arguments.
\<close>

subsection \<open>Decision documents\<close>

record ai_decision =
  ad_action :: ai_action
  ad_probability :: "rat option"
  ad_confidence :: rat
  ad_assessment :: string
  ad_minimum_odds :: "rat option"
  ad_stake :: "rat option"
  ad_reasons :: "string list"
  ad_concerns :: "string list"

definition legacy_fields :: "string list" where
  "legacy_fields = [''counter_arguments'', ''data_quality_concerns'']"

definition decision_fields :: "string list" where
  "decision_fields = [''action'', ''fair_probability_a'', ''confidence'', ''market_assessment'',
     ''minimum_acceptable_odds_a'', ''stake'', ''primary_reasons'', ''blockers'']"

definition assessments :: "string list" where
  "assessments = [''UNDERPRICED'', ''FAIR'', ''OVERPRICED'', ''UNKNOWN'']"

fun action_name :: "ai_action \<Rightarrow> string" where
  "action_name BUY_A = ''BUY_A''"
| "action_name BUY_B = ''BUY_B''"
| "action_name NO_BUY = ''NO_BUY''"
| "action_name INSUFFICIENT_DATA = ''INSUFFICIENT_DATA''"

definition action_of :: "json \<Rightarrow> ai_action option" where
  "action_of v = (case v of JStr s \<Rightarrow> find_row (\<lambda>a. action_name a = s) [BUY_A, BUY_B, NO_BUY, INSUFFICIENT_DATA] | _ \<Rightarrow> None)"

text \<open>Pydantic's conversion to a float; \<open>num\<close> parses the text of a numeral.\<close>

definition float_field :: "(string \<Rightarrow> rat option) \<Rightarrow> (rat \<Rightarrow> bool) \<Rightarrow> json \<Rightarrow> rat option" where
  "float_field num ok v =
     (let parsed = (case v of JInt i \<Rightarrow> Some (of_int i) | JNum r \<Rightarrow> Some r | JBool b \<Rightarrow> Some (if b then 1 else 0)
                    | JStr s \<Rightarrow> num s | _ \<Rightarrow> None)
      in case parsed of None \<Rightarrow> None | Some r \<Rightarrow> if ok r then Some r else None)"

text \<open>An optional float: \<open>None\<close> outside is an invalid field, inside an absent one.\<close>

definition optional_float :: "(string \<Rightarrow> rat option) \<Rightarrow> (rat \<Rightarrow> bool) \<Rightarrow> json \<Rightarrow> rat option option" where
  "optional_float num ok v = (if v = JNull then Some None else map_option Some (float_field num ok v))"

definition string_list :: "json \<Rightarrow> string list option" where
  "string_list v = (case v of JList xs \<Rightarrow> all_some (map (\<lambda>x. case x of JStr s \<Rightarrow> Some s | _ \<Rightarrow> None) xs) | _ \<Rightarrow> None)"

definition assessment_of :: "json \<Rightarrow> string option" where
  "assessment_of v = (case v of JStr s \<Rightarrow> if s \<in> set assessments then Some s else None | _ \<Rightarrow> None)"

definition validate_fields :: "(string \<Rightarrow> rat option) \<Rightarrow> (string \<times> json) list \<Rightarrow> ai_decision option" where
  "validate_fields num fs =
     do {
       action \<leftarrow> action_of (json_get fs ''action'');
       probability \<leftarrow> optional_float num (\<lambda>r. 0 \<le> r \<and> r \<le> 1) (json_get fs ''fair_probability_a'');
       confidence \<leftarrow> float_field num (\<lambda>r. 0 \<le> r \<and> r \<le> 1) (json_get fs ''confidence'');
       assessment \<leftarrow> assessment_of (json_get fs ''market_assessment'');
       minimum \<leftarrow> optional_float num (\<lambda>r. 1 < r) (json_get fs ''minimum_acceptable_odds_a'');
       stake \<leftarrow> optional_float num (\<lambda>r. 0 \<le> r) (json_get fs ''stake'');
       reasons \<leftarrow> string_list (json_get fs ''primary_reasons'');
       concerns \<leftarrow> string_list (json_get fs ''blockers'');
       Some \<lparr>ad_action = action, ad_probability = probability, ad_confidence = confidence, ad_assessment = assessment,
             ad_minimum_odds = minimum, ad_stake = stake, ad_reasons = reasons, ad_concerns = concerns\<rparr>
     }"

text \<open>\<open>AiDecision.model_validate\<close>: retired fields are dropped, any other unknown field is refused.\<close>

definition validate_decision :: "(string \<Rightarrow> rat option) \<Rightarrow> json \<Rightarrow> ai_decision option" where
  "validate_decision num v =
     (case v of
        JObj document \<Rightarrow>
          (let fs = filter (\<lambda>(k, _). k \<notin> set legacy_fields) document
           in if list_all (\<lambda>(k, _). k \<in> set decision_fields) fs then validate_fields num fs else None)
      | _ \<Rightarrow> None)"

definition opt_num :: "rat option \<Rightarrow> json" where
  "opt_num v = (case v of None \<Rightarrow> JNull | Some r \<Rightarrow> JNum r)"

text \<open>\<open>decision.model_dump(mode="json")\<close>\<close>

definition dump_decision :: "ai_decision \<Rightarrow> json" where
  "dump_decision d =
     JObj [(''action'', JStr (action_name (ad_action d))), (''fair_probability_a'', opt_num (ad_probability d)),
       (''confidence'', JNum (ad_confidence d)), (''market_assessment'', JStr (ad_assessment d)),
       (''minimum_acceptable_odds_a'', opt_num (ad_minimum_odds d)), (''stake'', opt_num (ad_stake d)),
       (''primary_reasons'', JList (map JStr (ad_reasons d))), (''blockers'', JList (map JStr (ad_concerns d)))]"

definition target_probability :: "ai_action option \<Rightarrow> rat option \<Rightarrow> rat option" where
  "target_probability action p =
     (case (action, p) of (Some BUY_B, Some x) \<Rightarrow> Some (1 - x) | _ \<Rightarrow> p)"

subsection \<open>Providers\<close>

record provider_usage =
  pu_input :: "int option"
  pu_cached :: "int option"
  pu_reasoning :: "int option"
  pu_output :: "int option"
  pu_total :: "int option"

definition no_usage :: provider_usage where
  "no_usage = \<lparr>pu_input = None, pu_cached = None, pu_reasoning = None, pu_output = None, pu_total = None\<rparr>"

definition usage_int :: "json \<Rightarrow> int option" where
  "usage_int v =
     (case v of JInt i \<Rightarrow> if 0 \<le> i then Some i else None
      | JNum r \<Rightarrow> if 0 \<le> r \<and> of_int \<lfloor>r\<rfloor> = r then Some \<lfloor>r\<rfloor> else None
      | _ \<Rightarrow> None)"

fun first_usage_int :: "json list \<Rightarrow> int option" where
  "first_usage_int [] = None"
| "first_usage_int (v # vs) = (case usage_int v of None \<Rightarrow> first_usage_int vs | Some i \<Rightarrow> Some i)"

definition or_zero :: "int option \<Rightarrow> int" where
  "or_zero v = (case v of None \<Rightarrow> 0 | Some i \<Rightarrow> i)"

definition usage_fields :: "json \<Rightarrow> (string \<times> json) list option" where
  "usage_fields payload =
     (case payload of
        JObj fs \<Rightarrow> (case obj_fields (json_get fs ''usage'') of None \<Rightarrow> obj_fields (json_get fs ''usageMetadata'') | found \<Rightarrow> found)
      | _ \<Rightarrow> None)"

definition extract_provider_usage :: "json option \<Rightarrow> provider_usage option" where
  "extract_provider_usage payload =
     (case Option.bind payload usage_fields of
        None \<Rightarrow> None
      | Some usage \<Rightarrow>
          (let field = json_get usage;
               inputs = opt_field (obj_fields (field ''input_tokens_details''));
               outputs = opt_field (obj_fields (field ''output_tokens_details''));
               completions = opt_field (obj_fields (field ''completion_tokens_details''));
               cache_read = usage_int (field ''cache_read_input_tokens'');
               cache_creation = usage_int (field ''cache_creation_input_tokens'');
               input = (if cache_read \<noteq> None \<or> cache_creation \<noteq> None
                 then Some (or_zero (usage_int (field ''input_tokens'')) + or_zero cache_read + or_zero cache_creation)
                 else first_usage_int [field ''total_input_tokens'', field ''input_tokens'', field ''prompt_tokens'']);
               cached = (case first_usage_int [field ''total_cached_tokens'', inputs ''cached_tokens'', field ''prompt_cache_hit_tokens''] of
                 None \<Rightarrow> cache_read | Some i \<Rightarrow> Some i);
               output = first_usage_int [field ''total_output_tokens'', field ''output_tokens'', field ''completion_tokens''];
               reasoning = first_usage_int [field ''total_thought_tokens'', outputs ''reasoning_tokens'', completions ''reasoning_tokens''];
               total = (case usage_int (field ''total_tokens'') of
                 Some i \<Rightarrow> Some i
               | None \<Rightarrow> (case (input, output) of (Some i, Some j) \<Rightarrow> Some (i + j) | _ \<Rightarrow> None));
               found = \<lparr>pu_input = input, pu_cached = cached, pu_reasoning = reasoning, pu_output = output, pu_total = total\<rparr>
           in if found = no_usage then None else Some found))"

text \<open>What awaiting \<open>provider.decide\<close> comes to, the time limit included.\<close>

datatype provider_outcome =
  Answered json ai_decision string "provider_usage option"
| TimedOut
| ProviderFailed string string "json option"
| Crashed string

text \<open>\<open>parse_decision\<close>: the decision in the text of a provider, or the failure it is reported as.\<close>

definition parse_decision :: "(string \<Rightarrow> json option) \<Rightarrow> (string \<Rightarrow> rat option) \<Rightarrow> string \<Rightarrow> ai_decision option" where
  "parse_decision loads num body =
     (case loads body of
        Some (JObj fs) \<Rightarrow>
          if list_ex (\<lambda>k. k \<in> set (map fst fs)) legacy_fields then None else validate_decision num (JObj fs)
      | _ \<Rightarrow> None)"

text \<open>\<open>validate_ai_decision\<close>: the message of the policy failure, if there is one; \<open>text\<close> prints numbers.\<close>

definition show_stake :: "(rat \<Rightarrow> string) \<Rightarrow> rat option \<Rightarrow> string" where
  "show_stake render stake = (case stake of None \<Rightarrow> ''None'' | Some r \<Rightarrow> render r)"

definition validate_ai_decision :: "(rat \<Rightarrow> string) \<Rightarrow> ai_decision \<Rightarrow> rat \<Rightarrow> string option" where
  "validate_ai_decision render d bankroll_before =
     (if ad_action d \<in> {BUY_A, BUY_B}
      then (case ad_stake d of
              None \<Rightarrow> Some (action_name (ad_action d) @ '' requires a positive virtual stake (stake=None)'')
            | Some stake \<Rightarrow>
                if stake \<le> 0 then Some (action_name (ad_action d) @ '' requires a positive virtual stake (stake='' @ render stake @ '')'')
                else if bankroll_before + 5 / 1000 < stake
                then Some (''virtual stake '' @ render stake @ '' exceeds available bankroll '' @ render bankroll_before)
                else None)
      else (case ad_stake d of
              None \<Rightarrow> None
            | Some stake \<Rightarrow>
                if stake \<noteq> 0 then Some (action_name (ad_action d) @ '' must have stake null/0, got '' @ render stake) else None))"

subsection \<open>Identities\<close>

definition PROMPT_VERSION :: string where
  "PROMPT_VERSION = ''decision-analyst-v5.1-output''"

definition DECISION_POLICY_VERSION :: string where
  "DECISION_POLICY_VERSION = ''shadow-tournament-portfolio-v3''"

definition AI_VIEW_VERSION :: string where
  "AI_VIEW_VERSION = ''ai-view-v6''"

definition STATIC_EXECUTION_CONFIG_VERSION :: string where
  "STATIC_EXECUTION_CONFIG_VERSION = ''static-v1''"

type_synonym lane_id = "string \<times> string \<times> string \<times> string \<times> string"

definition ai_decision_lane_key :: "string \<Rightarrow> string \<Rightarrow> lane_id" where
  "ai_decision_lane_key provider model = (provider, model, PROMPT_VERSION, DECISION_POLICY_VERSION, AI_VIEW_VERSION)"

definition ai_experiment_key :: "lane_id \<Rightarrow> string \<Rightarrow> experiment_key" where
  "ai_experiment_key lane config = (case lane of (p, m, v, d, a) \<Rightarrow> (p, m, v, d, a, config))"

record ai_provider =
  pv_name :: string
  pv_model :: string
  pv_config :: "string option"

definition execution_config_version :: "ai_provider \<Rightarrow> string" where
  "execution_config_version p =
     (case pv_config p of Some v \<Rightarrow> if v \<noteq> [] then v else STATIC_EXECUTION_CONFIG_VERSION
      | None \<Rightarrow> STATIC_EXECUTION_CONFIG_VERSION)"

definition provider_experiment :: "ai_provider \<Rightarrow> experiment_key" where
  "provider_experiment p = ai_experiment_key (ai_decision_lane_key (pv_name p) (pv_model p)) (execution_config_version p)"

end
