(* ===== verification/Coordinator.thy ===== *)
theory Coordinator
  imports Decisions
begin

text \<open>
  \<open>AiCoordinator\<close> of \<open>app/ai/coordinator.py\<close>: the inputs prepared for one provider or for all of them, the
  record of an inference, and the batch call that prepares, infers and persists.
\<close>

subsection \<open>State\<close>

record decision_snapshot =
  dp_id :: uuid
  dp_map :: "uuid option"
  dp_decision_at :: time
  dp_mode :: string
  dp_payload :: "(string \<times> json) list"
  dp_hash :: string

record ai_record =
  ar_id :: uuid
  ar_snapshot :: uuid
  ar_snapshot_hash :: string
  ar_experiment :: experiment_key
  ar_model_version :: string
  ar_input_hash :: "string option"
  ar_bankroll_before :: "rat option"
  ar_stake :: "rat option"
  ar_started :: time
  ar_received :: "time option"
  ar_latency :: "rat option"
  ar_usage :: provider_usage
  ar_raw :: "json option"
  ar_normalized :: "json option"
  ar_status :: string
  ar_error :: "string option"
  ar_job_enqueued :: "time option"
  ar_job_claimed :: "time option"
  ar_prepare_started :: "time option"
  ar_prepare_completed :: "time option"
  ar_persisted :: "time option"

record ai_db =
  ab_snapshots :: "decision_snapshot list"
  ab_decisions :: "ai_record list"
  ab_portfolio :: portfolio_db
  ab_next :: uuid

text \<open>The configuration: \<open>ac_portfolio\<close> is the initial bankroll of the portfolio service, if there is one.\<close>

record ai_config =
  ac_providers :: "ai_provider list"
  ac_bankroll :: rat
  ac_prior_limit :: nat
  ac_portfolio :: "rat option"

text \<open>What the coordinator uses and does not define.\<close>

record ai_env =
  en_view :: "decision_snapshot \<Rightarrow> (string \<times> json) list"
  en_canonical :: "json \<Rightarrow> string"
  en_sha :: "string \<Rightarrow> string"
  en_num :: "string \<Rightarrow> rat option"
  en_render :: "rat \<Rightarrow> string"

record prior_decision =
  pd_decision_at :: time
  pd_mode :: string
  pd_decision :: ai_decision
  pd_bankroll_before :: "rat option"
  pd_status :: "position_status option"
  pd_rejection :: "string option"
  pd_cash_before :: "rat option"

record prepared_decision =
  pp_provider :: ai_provider
  pp_snapshot :: decision_snapshot
  pp_input :: string
  pp_input_hash :: string
  pp_bankroll_before :: rat
  pp_started :: time
  pp_completed :: time
  pp_config :: string
  pp_existing :: "ai_record option"
  pp_job_enqueued :: "time option"
  pp_job_claimed :: "time option"
  pp_scope :: "portfolio_scope option"

datatype ai_error =
  ProviderNotConfigured string string | SnapshotMissing | DuplicateDecision | InvalidDecision | PositionFailed portfolio_error
| AttributeMissing

text \<open>\<open>round(x, 2)\<close>: to the nearest cent, halves to the even one.\<close>

definition half_even :: "rat \<Rightarrow> int" where
  "half_even x = (let f = \<lfloor>x\<rfloor>; d = x - of_int f in if d < 1 / 2 then f else if 1 / 2 < d then f + 1 else if even f then f else f + 1)"

definition round2 :: "rat \<Rightarrow> rat" where
  "round2 x = of_int (half_even (x * 100)) / 100"

definition ai_config_of :: "ai_provider list \<Rightarrow> rat \<Rightarrow> nat \<Rightarrow> rat option \<Rightarrow> ai_config option" where
  "ai_config_of providers bankroll prior_limit portfolio =
     (if bankroll \<le> 0 \<or> prior_limit < 1 then None
      else Some \<lparr>ac_providers = providers, ac_bankroll = round2 bankroll, ac_prior_limit = prior_limit, ac_portfolio = portfolio\<rparr>)"

definition get_provider :: "ai_config \<Rightarrow> string \<Rightarrow> string \<Rightarrow> ai_provider option" where
  "get_provider cfg provider model = find_row (\<lambda>p. pv_name p = provider \<and> pv_model p = model) (ac_providers cfg)"

definition experiments :: "ai_config \<Rightarrow> lane_id list" where
  "experiments cfg = map (\<lambda>p. ai_decision_lane_key (pv_name p) (pv_model p)) (ac_providers cfg)"

definition snapshot_of :: "ai_db \<Rightarrow> uuid \<Rightarrow> decision_snapshot option" where
  "snapshot_of db i = find_row (\<lambda>s. dp_id s = i) (ab_snapshots db)"

definition lab_of :: "lab_tables \<Rightarrow> ai_db \<Rightarrow> lab_tables" where
  "lab_of tb db = tb\<lparr>tb_snapshots := map (\<lambda>s. \<lparr>sn_id = dp_id s, sn_map_id = dp_map s, sn_decision_at = dp_decision_at s,
     sn_payload = dp_payload s\<rparr>) (ab_snapshots db)\<rparr>"

subsection \<open>Earlier decisions\<close>

type_synonym prior_row = "ai_record \<times> time \<times> string \<times> position_status option \<times> string option \<times> rat option"

text \<open>The snapshot of a decision and its position, if it has one.\<close>

definition join_decision :: "ai_db \<Rightarrow> ai_record \<Rightarrow> prior_row option" where
  "join_decision db r =
     (case snapshot_of db (ar_snapshot r) of
        None \<Rightarrow> None
      | Some s \<Rightarrow>
          (let p = find_row (\<lambda>p. po_ai_decision_id p = ar_id r) (positions (ab_portfolio db))
           in Some (r, dp_decision_at s, dp_mode s, map_option po_status p, Option.bind p po_rejection_reason,
                    map_option po_cash_before p)))"

definition decided_before :: "ai_db \<Rightarrow> uuid \<Rightarrow> time \<Rightarrow> ai_record \<Rightarrow> bool" where
  "decided_before db map_id t r \<longleftrightarrow>
     (case snapshot_of db (ar_snapshot r) of None \<Rightarrow> False | Some s \<Rightarrow> dp_map s = Some map_id \<and> dp_decision_at s < t) \<and>
     ar_status r = ''SUCCESS'' \<and> ar_normalized r \<noteq> None"

definition joined_rows :: "ai_db \<Rightarrow> (ai_record \<Rightarrow> bool) \<Rightarrow> prior_row list" where
  "joined_rows db P =
     sort_key (\<lambda>(r, t, _). (t, ar_started r)) (List.map_filter (join_decision db) (filter P (ab_decisions db)))"

definition prior_rows :: "ai_db \<Rightarrow> uuid option \<Rightarrow> decision_snapshot \<Rightarrow> experiment_key \<Rightarrow> prior_row list" where
  "prior_rows db map_id s x =
     (case map_id of
        None \<Rightarrow> []
      | Some m \<Rightarrow> joined_rows db (\<lambda>r. decided_before db m (dp_decision_at s) r \<and> ar_experiment r = x))"

type_synonym prior_attempt = "time \<times> string \<times> string \<times> string"

definition attempt_rank :: "ai_record \<Rightarrow> prior_attempt" where
  "attempt_rank r = (case ar_experiment r of (p, m, v, d, a, c) \<Rightarrow> (ar_started r, v, d, a))"

text \<open>The newest attempt of each snapshot, in the order the snapshots were met.\<close>

definition keep_newest :: "prior_row \<Rightarrow> (uuid \<times> prior_row) list \<Rightarrow> (uuid \<times> prior_row) list" where
  "keep_newest row best =
     (case map_of best (ar_snapshot (fst row)) of
        None \<Rightarrow> AList.update (ar_snapshot (fst row)) row best
      | Some kept \<Rightarrow>
          if attempt_rank (fst kept) < attempt_rank (fst row) then AList.update (ar_snapshot (fst row)) row best else best)"

definition prior_of_row :: "(string \<Rightarrow> rat option) \<Rightarrow> prior_row \<Rightarrow> prior_decision option" where
  "prior_of_row num row =
     (case row of (r, t, mode, status, why, cash) \<Rightarrow>
        map_option (\<lambda>d. \<lparr>pd_decision_at = t, pd_mode = mode, pd_decision = d, pd_bankroll_before = ar_bankroll_before r,
            pd_status = status, pd_rejection = why, pd_cash_before = cash\<rparr>)
          (Option.bind (ar_normalized r) (validate_decision num)))"

definition prior_from_rows :: "(string \<Rightarrow> rat option) \<Rightarrow> prior_row list \<Rightarrow> prior_decision list" where
  "prior_from_rows num rows =
     List.map_filter (prior_of_row num)
       (sort_key (\<lambda>row. fst (snd row)) (map snd (foldl (\<lambda>best row. keep_newest row best) [] rows)))"

text \<open>One query for all providers, grouped by provider, model and configuration.\<close>

definition group_key :: "ai_record \<Rightarrow> string \<times> string \<times> string" where
  "group_key r = (case ar_experiment r of (p, m, v, d, a, c) \<Rightarrow> (p, m, c))"

definition load_prior_rows ::
  "(string \<Rightarrow> rat option) \<Rightarrow> ai_db \<Rightarrow> uuid option \<Rightarrow> decision_snapshot \<Rightarrow> ai_provider list \<Rightarrow>
   ((string \<times> string \<times> string) \<times> prior_decision list) list" where
  "load_prior_rows num db map_id s providers =
     (case map_id of
        None \<Rightarrow> []
      | Some m \<Rightarrow>
          if providers = [] then []
          else (let rows = joined_rows db (\<lambda>r. decided_before db m (dp_decision_at s) r \<and>
                      (case ar_experiment r of (p, mo, v, d, a, c) \<Rightarrow>
                         p \<in> set (map pv_name providers) \<and> mo \<in> set (map pv_model providers) \<and> v = PROMPT_VERSION \<and>
                         d = DECISION_POLICY_VERSION \<and> a = AI_VIEW_VERSION \<and>
                         c \<in> set (map execution_config_version providers)));
                    keys = fromkeys (map (\<lambda>row. group_key (fst row)) rows)
                in map (\<lambda>k. (k, prior_from_rows num (filter (\<lambda>row. group_key (fst row) = k) rows))) keys))"

subsection \<open>The bankroll an input shows\<close>

definition opt_str :: "string option \<Rightarrow> json" where
  "opt_str v = (case v of None \<Rightarrow> JNull | Some s \<Rightarrow> JStr s)"

fun position_status_name :: "position_status \<Rightarrow> string" where
  "position_status_name OPEN = ''OPEN''"
| "position_status_name REJECTED = ''REJECTED''"
| "position_status_name WON = ''WON''"
| "position_status_name LOST = ''LOST''"
| "position_status_name VOID = ''VOID''"

definition prior_stake :: "prior_decision \<Rightarrow> rat" where
  "prior_stake p = round2 (case ad_stake (pd_decision p) of None \<Rightarrow> 0 | Some x \<Rightarrow> x)"

definition bankroll_after :: "prior_decision \<Rightarrow> rat \<Rightarrow> rat \<Rightarrow> bool \<Rightarrow> rat" where
  "bankroll_after p before stake execution_aware =
     (let cash = (if execution_aware then (case pd_cash_before p of None \<Rightarrow> before | Some c \<Rightarrow> c) else before);
          committed = (if execution_aware then pd_status p \<in> {Some OPEN, Some WON, Some LOST, Some VOID} else True)
      in round2 (if committed then cash - stake else cash))"

definition execution_fields :: "prior_decision \<Rightarrow> (string \<times> json) list" where
  "execution_fields p =
     [(''execution_status'', JStr (case pd_status p of
          Some s \<Rightarrow> position_status_name s
        | None \<Rightarrow> if ad_action (pd_decision p) \<in> {BUY_A, BUY_B} then ''NOT_EXECUTED'' else ''NO_POSITION'')),
      (''rejection_reason'', opt_str (pd_rejection p)), (''cash_before_execution'', opt_num (pd_cash_before p))]"

definition prior_payload :: "prior_decision \<Rightarrow> rat \<Rightarrow> rat \<Rightarrow> bool \<Rightarrow> json" where
  "prior_payload p before stake execution_aware =
     (let d = pd_decision p; after = bankroll_after p before stake execution_aware
      in JObj ([(''decision_at'', JStr (isoformat (pd_decision_at p))), (''mode'', JStr (pd_mode p)),
                (''action'', JStr (action_name (ad_action d))), (''fair_probability_a'', opt_num (ad_probability d)),
                (''confidence'', JNum (ad_confidence d)), (''market_assessment'', JStr (ad_assessment d)),
                (''minimum_acceptable_odds_a'', opt_num (ad_minimum_odds d)), (''stake'', JNum stake),
                (''bankroll_before'', JNum before), (''bankroll_after'', JNum after), (''bankroll_after_commit'', JNum after),
                (''primary_reasons'', JList (map JStr (ad_reasons d))), (''blockers'', JList (map JStr (ad_concerns d)))] @
               (if execution_aware then execution_fields p else [])))"

text \<open>\<open>xs[-n:]\<close>\<close>

definition last_n :: "nat \<Rightarrow> 'a list \<Rightarrow> 'a list" where
  "last_n n xs = drop (length xs - n) xs"

text \<open>Without a portfolio every earlier stake counts as committed.\<close>

fun static_history :: "rat \<Rightarrow> prior_decision list \<Rightarrow> json list \<Rightarrow> rat \<times> json list" where
  "static_history before [] payloads = (before, payloads)"
| "static_history before (p # ps) payloads =
     static_history (round2 (before - prior_stake p)) ps (payloads @ [prior_payload p before (prior_stake p) False])"

definition frozen_history :: "rat \<Rightarrow> prior_decision list \<Rightarrow> json list" where
  "frozen_history otherwise ps =
     map (\<lambda>p. prior_payload p (case pd_bankroll_before p of None \<Rightarrow> otherwise | Some b \<Rightarrow> b) (prior_stake p) True) ps"

definition context_payload :: "portfolio_context \<Rightarrow> (string \<times> json) list" where
  "context_payload c =
     [(''scope'', JStr ''CANONICAL_EVENT''), (''canonical_event_id'', JStr (str_uuid (cx_event_id c))),
      (''initial'', JNum (cx_initial c)), (''bankroll_before'', JNum (cx_cash c)), (''cash_balance'', JNum (cx_cash c)),
      (''locked_balance'', JNum (cx_locked c)), (''equity'', JNum (equity c)),
      (''realized_pnl'', JNum (cx_realized_pnl c)), (''units'', JStr ''virtual-units'')]"

definition unresolved_payload :: "(string \<times> json) list" where
  "unresolved_payload =
     [(''scope'', JStr ''UNRESOLVED_CANONICAL_EVENT''), (''canonical_event_id'', JNull), (''initial'', JNum 0),
      (''bankroll_before'', JNum 0), (''cash_balance'', JNum 0), (''locked_balance'', JNum 0), (''equity'', JNum 0),
      (''realized_pnl'', JNum 0), (''unsettled_stakes'', JNum 0), (''units'', JStr ''virtual-units''),
      (''reason'', JStr ''EVENT_IDENTITY_UNRESOLVED'')]"

text \<open>The bankroll before the decision, the bankroll document, and the history shown with it.\<close>

definition bankroll_context ::
  "ai_config \<Rightarrow> prior_decision list \<Rightarrow> portfolio_context option \<Rightarrow> rat \<times> (string \<times> json) list \<times> json list" where
  "bankroll_context cfg prior context =
     (case context of
        Some c \<Rightarrow> (cx_cash c, context_payload c @ [(''unsettled_stakes'', JNum (cx_locked c))],
                   last_n (ac_prior_limit cfg) (frozen_history (cx_cash c) prior))
      | None \<Rightarrow>
          if ac_portfolio cfg \<noteq> None then (0, unresolved_payload, last_n (ac_prior_limit cfg) (frozen_history 0 prior))
          else (let (before, payloads) = static_history (ac_bankroll cfg) prior []
                in (before, [(''initial'', JNum (ac_bankroll cfg)), (''bankroll_before'', JNum before),
                             (''unsettled_stakes'', JNum (round2 (ac_bankroll cfg - before))), (''units'', JStr ''virtual-units'')],
                    last_n (ac_prior_limit cfg) payloads)))"

definition merge_fields :: "(string \<times> json) list \<Rightarrow> (string \<times> json) list \<Rightarrow> (string \<times> json) list" where
  "merge_fields base extra = foldl (\<lambda>acc (k, v). AList.update k v acc) base extra"

definition provider_input_document :: "(string \<times> json) list \<Rightarrow> (string \<times> json) list \<Rightarrow> json list \<Rightarrow> json" where
  "provider_input_document base bankroll history =
     JObj (merge_fields base [(''virtual_bankroll'', JObj bankroll), (''prior_decisions'', JList history)])"

subsection \<open>PREPARE\<close>

definition existing_decision :: "ai_db \<Rightarrow> uuid \<Rightarrow> experiment_key \<Rightarrow> ai_record option" where
  "existing_decision db i x = find_row (\<lambda>r. ar_snapshot r = i \<and> ar_experiment r = x) (ab_decisions db)"

text \<open>The account is created when a context is asked for, also when the decision exists.\<close>

definition portfolio_context_for ::
  "ai_config \<Rightarrow> lab_tables \<Rightarrow> ai_db \<Rightarrow> time \<Rightarrow> portfolio_scope option \<Rightarrow> experiment_key \<Rightarrow> time \<Rightarrow>
   portfolio_context option \<times> ai_db" where
  "portfolio_context_for cfg tb db now scope x reference =
     (case (ac_portfolio cfg, scope) of
        (Some bankroll, Some sc) \<Rightarrow>
          (let (c, pdb) = context_for_scope bankroll (lab_of tb db) (ab_portfolio db) now sc x (Some reference)
           in (Some c, db\<lparr>ab_portfolio := pdb\<rparr>))
      | _ \<Rightarrow> (None, db))"

definition prepared_of ::
  "ai_env \<Rightarrow> ai_config \<Rightarrow> ai_provider \<Rightarrow> decision_snapshot \<Rightarrow> ai_record option \<Rightarrow> prior_decision list \<Rightarrow>
   portfolio_scope option \<Rightarrow> portfolio_context option \<Rightarrow> time \<times> time \<Rightarrow> time option \<Rightarrow> time option \<Rightarrow> prepared_decision" where
  "prepared_of env cfg p s existing prior scope context clock enqueued claimed =
     (let (before, bankroll, history) = bankroll_context cfg prior context;
          body = en_canonical env (provider_input_document (en_view env s) bankroll history)
      in \<lparr>pp_provider = p, pp_snapshot = s,
          pp_input = (case existing of Some r \<Rightarrow> [] | None \<Rightarrow> body),
          pp_input_hash = (case existing of Some r \<Rightarrow> (case ar_input_hash r of None \<Rightarrow> [] | Some h \<Rightarrow> h) | None \<Rightarrow> en_sha env body),
          pp_bankroll_before = before, pp_started = fst clock, pp_completed = snd clock,
          pp_config = execution_config_version p, pp_existing = existing, pp_job_enqueued = enqueued, pp_job_claimed = claimed,
          pp_scope = scope\<rparr>)"

definition decision_scope :: "ai_config \<Rightarrow> lab_tables \<Rightarrow> ai_db \<Rightarrow> decision_snapshot \<Rightarrow> portfolio_scope option" where
  "decision_scope cfg tb db s = (if ac_portfolio cfg = None then None else scope_for_snapshot (lab_of tb db) (dp_id s))"

definition snapshot_map :: "ai_db \<Rightarrow> decision_snapshot \<Rightarrow> uuid option" where
  "snapshot_map db s = Option.bind (snapshot_of db (dp_id s)) dp_map"

definition prepare ::
  "ai_env \<Rightarrow> ai_config \<Rightarrow> lab_tables \<Rightarrow> ai_db \<Rightarrow> time \<times> time \<Rightarrow> decision_snapshot \<Rightarrow> string \<Rightarrow> string \<Rightarrow> time option \<Rightarrow> time option \<Rightarrow>
   ai_error + (prepared_decision \<times> ai_db)" where
  "prepare env cfg tb db clock s provider model enqueued claimed =
     (case get_provider cfg provider model of
        None \<Rightarrow> Inl (ProviderNotConfigured provider model)
      | Some p \<Rightarrow>
          (let x = provider_experiment p;
               scope = decision_scope cfg tb db s;
               prior = prior_from_rows (en_num env) (prior_rows db (snapshot_map db s) s x);
               (context, db') = portfolio_context_for cfg tb db (fst clock) scope x (dp_decision_at s)
           in Inr (prepared_of env cfg p s (existing_decision db (dp_id s) x) prior scope context clock enqueued claimed, db')))"

text \<open>PREPARE for all providers: the rows are read once, before the first account is created.\<close>

fun prepare_each ::
  "ai_env \<Rightarrow> ai_config \<Rightarrow> lab_tables \<Rightarrow> ai_db \<Rightarrow> time \<times> time \<Rightarrow> decision_snapshot \<Rightarrow> (experiment_key \<times> ai_record) list \<Rightarrow>
   ((string \<times> string \<times> string) \<times> prior_decision list) list \<Rightarrow> portfolio_scope option \<Rightarrow> time option \<Rightarrow> time option \<Rightarrow>
   ai_provider list \<Rightarrow> prepared_decision list \<times> ai_db" where
  "prepare_each env cfg tb db clock s existing priors scope enqueued claimed [] = ([], db)"
| "prepare_each env cfg tb db clock s existing priors scope enqueued claimed (p # ps) =
     (let x = provider_experiment p;
          prior = (case map_of priors (pv_name p, pv_model p, execution_config_version p) of None \<Rightarrow> [] | Some ds \<Rightarrow> ds);
          (context, db1) = portfolio_context_for cfg tb db (fst clock) scope x (dp_decision_at s);
          (rest, db2) = prepare_each env cfg tb db1 clock s existing priors scope enqueued claimed ps
      in (prepared_of env cfg p s (map_of existing x) prior scope context clock enqueued claimed # rest, db2))"

definition prepare_all ::
  "ai_env \<Rightarrow> ai_config \<Rightarrow> lab_tables \<Rightarrow> ai_db \<Rightarrow> time \<times> time \<Rightarrow> decision_snapshot \<Rightarrow> time option \<Rightarrow> time option \<Rightarrow>
   prepared_decision list \<times> ai_db" where
  "prepare_all env cfg tb db clock s enqueued claimed =
     (if ac_providers cfg = [] then ([], db)
      else (let existing = foldl (\<lambda>acc r. AList.update (ar_experiment r) r acc) []
                  (filter (\<lambda>r. ar_snapshot r = dp_id s) (ab_decisions db));
                priors = load_prior_rows (en_num env) db (snapshot_map db s) s (ac_providers cfg)
            in prepare_each env cfg tb db clock s existing priors (decision_scope cfg tb db s) enqueued claimed (ac_providers cfg)))"

subsection \<open>INFERENCE\<close>

text \<open>What an inference yields besides the identity: raw and normalized response, stake, status, error,
  model version and usage.  \<open>timeout_text\<close> is the configured limit, printed.\<close>

record inference_result =
  in_raw :: "json option"
  in_normalized :: "json option"
  in_stake :: "rat option"
  in_status :: string
  in_error :: "string option"
  in_model_version :: string
  in_usage :: "provider_usage option"

definition inference_result_of :: "ai_env \<Rightarrow> string \<Rightarrow> prepared_decision \<Rightarrow> provider_outcome \<Rightarrow> inference_result" where
  "inference_result_of env timeout_text pp outcome =
     (let failed = (\<lambda>status message raw usage.
            \<lparr>in_raw = raw, in_normalized = None, in_stake = None, in_status = status, in_error = Some message,
             in_model_version = pv_model (pp_provider pp), in_usage = usage\<rparr>)
      in case outcome of
           Answered raw d version usage \<Rightarrow>
             (case validate_ai_decision (en_render env) d (pp_bankroll_before pp) of
                None \<Rightarrow> \<lparr>in_raw = Some raw, in_normalized = Some (dump_decision d), in_stake = ad_stake d, in_status = ''SUCCESS'',
                         in_error = None, in_model_version = version, in_usage = usage\<rparr>
              | Some message \<Rightarrow> failed ''POLICY_FAILED'' message (Some raw) (extract_provider_usage (Some raw)))
         | TimedOut \<Rightarrow> failed ''TIMEOUT'' (''provider exceeded '' @ timeout_text @ ''s timeout'') None None
         | ProviderFailed message status raw \<Rightarrow> failed status message raw (extract_provider_usage raw)
         | Crashed message \<Rightarrow> failed ''FAILED'' message None None)"

text \<open>The record; its identity is given when it is stored.\<close>

definition run_inference ::
  "ai_env \<Rightarrow> string \<Rightarrow> prepared_decision \<Rightarrow> provider_outcome \<Rightarrow> time \<times> time \<Rightarrow> rat \<Rightarrow> ai_record" where
  "run_inference env timeout_text pp outcome clock latency =
     (case pp_existing pp of
        Some r \<Rightarrow> r
      | None \<Rightarrow>
          (let found = inference_result_of env timeout_text pp outcome
           in \<lparr>ar_id = 0, ar_snapshot = dp_id (pp_snapshot pp), ar_snapshot_hash = dp_hash (pp_snapshot pp),
               ar_experiment = ai_experiment_key (ai_decision_lane_key (pv_name (pp_provider pp)) (pv_model (pp_provider pp))) (pp_config pp),
               ar_model_version = in_model_version found, ar_input_hash = Some (pp_input_hash pp),
               ar_bankroll_before = Some (pp_bankroll_before pp), ar_stake = in_stake found, ar_started = fst clock,
               ar_received = Some (snd clock), ar_latency = Some latency,
               ar_usage = (case in_usage found of None \<Rightarrow> no_usage | Some u \<Rightarrow> u), ar_raw = in_raw found,
               ar_normalized = in_normalized found, ar_status = in_status found, ar_error = in_error found,
               ar_job_enqueued = pp_job_enqueued pp, ar_job_claimed = pp_job_claimed pp,
               ar_prepare_started = Some (pp_started pp), ar_prepare_completed = Some (pp_completed pp), ar_persisted = None\<rparr>))"

subsection \<open>PERSIST\<close>

text \<open>The unique constraint \<open>uq_ai_experiment\<close> refuses a second record of one experiment on one snapshot.\<close>

definition add_decision :: "ai_db \<Rightarrow> time \<Rightarrow> ai_record \<Rightarrow> ai_error + (ai_record \<times> ai_db)" where
  "add_decision db now r =
     (if existing_decision db (ar_snapshot r) (ar_experiment r) \<noteq> None then Inl DuplicateDecision
      else (let stored = r\<lparr>ar_id := ab_next db, ar_persisted := Some now\<rparr>
            in Inr (stored, db\<lparr>ab_decisions := ab_decisions db @ [stored], ab_next := Suc (ab_next db)\<rparr>)))"

definition decision_row_of :: "(string \<Rightarrow> rat option) \<Rightarrow> ai_record \<Rightarrow> decision_row" where
  "decision_row_of num r =
     \<lparr>dr_id = ar_id r, dr_snapshot_id = ar_snapshot r, dr_experiment = ar_experiment r, dr_parse_status = ar_status r,
      dr_action = map_option ad_action (Option.bind (ar_normalized r) (validate_decision num)), dr_stake = ar_stake r,
      dr_request_started_at = ar_started r, dr_decision_persisted_at = ar_persisted r, dr_response_received_at = ar_received r\<rparr>"

text \<open>A normalized response that does not validate raises, so the transaction is lost.\<close>

definition record_position ::
  "ai_env \<Rightarrow> ai_config \<Rightarrow> lab_tables \<Rightarrow> ai_db \<Rightarrow> time \<Rightarrow> portfolio_scope option \<Rightarrow> ai_record \<Rightarrow> ai_error + ai_db" where
  "record_position env cfg tb db now scope r =
     (case ac_portfolio cfg of
        None \<Rightarrow> Inr db
      | Some bankroll \<Rightarrow>
          if ar_status r = ''SUCCESS'' \<and> 
               (case ar_normalized r of Some (JObj fs) \<Rightarrow> validate_decision (en_num env) (JObj fs) = None | _ \<Rightarrow> False)
          then Inl InvalidDecision
          else (case record_decision_position (en_num env) bankroll (lab_of tb db) (ab_portfolio db) now
                       (decision_row_of (en_num env) r) scope of
                  Inl e \<Rightarrow> Inl (PositionFailed e)
                | Inr (p, pdb) \<Rightarrow> Inr (db\<lparr>ab_portfolio := pdb\<rparr>)))"

text \<open>All records are added, then all positions are recorded.\<close>

fun add_decisions ::
  "ai_db \<Rightarrow> time \<Rightarrow> (prepared_decision \<times> ai_record) list \<Rightarrow> ai_error + ((prepared_decision \<times> ai_record) list \<times> ai_db)" where
  "add_decisions db now [] = Inr ([], db)"
| "add_decisions db now ((pp, r) # rest) =
     (case pp_existing pp of
        Some e \<Rightarrow> (case add_decisions db now rest of Inl err \<Rightarrow> Inl err | Inr (rs, db') \<Rightarrow> Inr ((pp, r) # rs, db'))
      | None \<Rightarrow>
          (case add_decision db now r of
             Inl err \<Rightarrow> Inl err
           | Inr (stored, db1) \<Rightarrow>
               (case add_decisions db1 now rest of Inl err \<Rightarrow> Inl err | Inr (rs, db') \<Rightarrow> Inr ((pp, stored) # rs, db'))))"

fun record_positions ::
  "ai_env \<Rightarrow> ai_config \<Rightarrow> lab_tables \<Rightarrow> ai_db \<Rightarrow> time \<Rightarrow> (prepared_decision \<times> ai_record) list \<Rightarrow> ai_error + ai_db" where
  "record_positions env cfg tb db now [] = Inr db"
| "record_positions env cfg tb db now ((pp, r) # rest) =
     (if pp_existing pp \<noteq> None then record_positions env cfg tb db now rest
      else (case record_position env cfg tb db now (pp_scope pp) r of
              Inl err \<Rightarrow> Inl err
            | Inr db' \<Rightarrow> record_positions env cfg tb db' now rest))"

definition persist_results ::
  "ai_env \<Rightarrow> ai_config \<Rightarrow> lab_tables \<Rightarrow> ai_db \<Rightarrow> time \<Rightarrow> (prepared_decision \<times> ai_record) list \<Rightarrow>
   ai_error + ((prepared_decision \<times> ai_record) list \<times> ai_db)" where
  "persist_results env cfg tb db now results =
     (case add_decisions db now results of
        Inl err \<Rightarrow> Inl err
      | Inr (stored, db1) \<Rightarrow>
          (case record_positions env cfg tb db1 now stored of Inl err \<Rightarrow> Inl err | Inr db2 \<Rightarrow> Inr (stored, db2)))"

text \<open>The batch call: one answer and one pair of clock readings per provider.\<close>

definition run_all ::
  "ai_env \<Rightarrow> ai_config \<Rightarrow> string \<Rightarrow> lab_tables \<Rightarrow> ai_db \<Rightarrow> time \<times> time \<Rightarrow> decision_snapshot \<Rightarrow>
   (provider_outcome \<times> (time \<times> time) \<times> rat) list \<Rightarrow> time \<Rightarrow> ai_error + (ai_record list \<times> ai_db)" where
  "run_all env cfg timeout_text tb db clock s answers now =
     (let (prepared, db1) = prepare_all env cfg tb db clock s None None;
          results = map2 (\<lambda>pp (outcome, cl, latency). (pp, run_inference env timeout_text pp outcome cl latency)) prepared answers
      in case persist_results env cfg tb db1 now results of
           Inl err \<Rightarrow> Inl err
         | Inr (stored, db2) \<Rightarrow> Inr (map snd stored, db2))"

end
