(* ===== verification/AiJobs.thy ===== *)
theory AiJobs
  imports Coordinator Gates
begin

text \<open>
  The AI jobs of \<open>app/jobs/handlers.py\<close>: \<open>run_ai\<close> decides which provider runs, one provider goes through
  PREPARE, INFERENCE and PERSIST, and the last record of a complete batch announces new BUY decisions.  The
  lanes that order the jobs of one experiment are modelled in their own theory.
\<close>

subsection \<open>Health\<close>

definition dependency_names :: "(string \<times> string) list" where
  "dependency_names = [(''openai'', ''GPT''), (''local_openai'', ''LOCAL_GPT''), (''anthropic'', ''CLAUDE''),
     (''gemini'', ''GEMINI''), (''deepseek'', ''DEEPSEEK''), (''kimi'', ''KIMI'')]"

record health_update =
  hu_dependency :: string
  hu_status :: string
  hu_message :: "string option"
  hu_models :: "(string \<times> string \<times> rat option) list"

definition ar_provider :: "ai_record \<Rightarrow> string" where
  "ar_provider r = fst (ar_experiment r)"

definition ar_model :: "ai_record \<Rightarrow> string" where
  "ar_model r = fst (snd (ar_experiment r))"

definition ar_lane :: "ai_record \<Rightarrow> lane_id" where
  "ar_lane r = (case ar_experiment r of (p, m, v, d, a, c) \<Rightarrow> (p, m, v, d, a))"

definition dependency_of :: "ai_record \<Rightarrow> string" where
  "dependency_of r = (case map_of dependency_names (ar_provider r) of None \<Rightarrow> upper (ar_provider r) | Some n \<Rightarrow> n)"

definition failure_text :: "ai_record \<Rightarrow> string" where
  "failure_text r = ar_model r @ '': '' @ (case ar_error r of Some e \<Rightarrow> if e \<noteq> [] then e else ar_status r | None \<Rightarrow> ar_status r)"

definition update_ai_health :: "ai_record list \<Rightarrow> health_update list" where
  "update_ai_health records =
     map (\<lambda>dep.
        let mine = filter (\<lambda>r. dependency_of r = dep) records; bad = filter (\<lambda>r. ar_status r \<noteq> ''SUCCESS'') mine
        in \<lparr>hu_dependency = dep, hu_status = (if bad \<noteq> [] then ''DEGRADED'' else ''READY''),
            hu_message = (if bad = [] then None else Some (join ''; '' (map failure_text bad))),
            hu_models = foldl (\<lambda>acc r. AList.update (ar_model r) (ar_status r, ar_latency r) acc) [] mine\<rparr>)
       (fromkeys (map dependency_of records))"

subsection \<open>Announcing new BUY decisions\<close>

text \<open>The action named by a normalized response, if it names a BUY.\<close>

definition buy_action :: "ai_record \<Rightarrow> string option" where
  "buy_action r =
     (case ar_normalized r of
        Some (JObj fs) \<Rightarrow>
          (case json_get fs ''action'' of JStr a \<Rightarrow> if a \<in> {''BUY_A'', ''BUY_B''} then Some a else None | _ \<Rightarrow> None)
      | _ \<Rightarrow> None)"

definition timely :: "rat \<Rightarrow> ai_record \<Rightarrow> bool" where
  "timely limit r \<longleftrightarrow> (case ar_latency r of None \<Rightarrow> False | Some l \<Rightarrow> l \<le> limit)"

definition email_scope_map_id :: "ai_db \<Rightarrow> (int \<times> uuid) list \<Rightarrow> decision_snapshot \<Rightarrow> uuid option" where
  "email_scope_map_id db valve_maps s =
     (case snapshot_map db s of
        Some m \<Rightarrow> Some m
      | None \<Rightarrow>
          (case obj_fields (json_get (dp_payload s) ''identity'') of
             None \<Rightarrow> None
           | Some fs \<Rightarrow>
               (case json_get fs ''valve_match_id'' of
                  JInt i \<Rightarrow> map_of valve_maps i
                | JBool b \<Rightarrow> map_of valve_maps (if b then 1 else 0)
                | _ \<Rightarrow> None)))"

fun latest_actions :: "(string \<times> string) list \<Rightarrow> ai_record list \<Rightarrow> ((string \<times> string) \<times> string) list \<Rightarrow> ((string \<times> string) \<times> string) list" where
  "latest_actions wanted [] found = found"
| "latest_actions wanted (r # rs) found =
     (let key = (ar_provider r, ar_model r)
      in if key \<notin> set wanted \<or> map_of found key \<noteq> None then latest_actions wanted rs found
         else latest_actions wanted rs (case buy_action r of None \<Rightarrow> found | Some a \<Rightarrow> found @ [(key, a)]))"

definition latest_prior_buy_actions ::
  "ai_db \<Rightarrow> uuid option \<Rightarrow> time \<Rightarrow> (string \<times> string) list \<Rightarrow> rat \<Rightarrow> ((string \<times> string) \<times> string) list" where
  "latest_prior_buy_actions db map_id t wanted limit =
     (case map_id of
        None \<Rightarrow> []
      | Some m \<Rightarrow>
          if wanted = [] then []
          else latest_actions wanted
                 (sort_key (\<lambda>r. (case snapshot_of db (ar_snapshot r) of None \<Rightarrow> 0 | Some s \<Rightarrow> - dp_decision_at s, - ar_started r))
                   (filter (\<lambda>r. decided_before db m t r \<and> ar_provider r \<in> set (map fst wanted) \<and>
                        ar_model r \<in> set (map snd wanted) \<and> timely limit r) (ab_decisions db)))
                 [])"

definition new_buy_decisions :: "ai_record list \<Rightarrow> ((string \<times> string) \<times> string) list \<Rightarrow> ai_record list" where
  "new_buy_decisions buys prior = filter (\<lambda>r. map_of prior (ar_provider r, ar_model r) \<noteq> buy_action r) buys"

text \<open>The records the channels are asked to announce, if any is a new BUY.\<close>

definition decision_notification ::
  "ai_db \<Rightarrow> (int \<times> uuid) list \<Rightarrow> rat \<Rightarrow> decision_snapshot \<Rightarrow> ai_record list \<Rightarrow> ai_record list option" where
  "decision_notification db valve_maps limit s current =
     (let in_time = filter (timely limit) current;
          buys = filter (\<lambda>r. ar_status r = ''SUCCESS'' \<and> buy_action r \<noteq> None) in_time
      in if buys = [] then None
         else (let prior = latest_prior_buy_actions db (email_scope_map_id db valve_maps s) (dp_decision_at s)
                     (map (\<lambda>r. (ar_provider r, ar_model r)) in_time) limit
               in if new_buy_decisions buys prior = [] then None else Some in_time))"

subsection \<open>Jobs\<close>

record ai_effects =
  ef_health :: "health_update list"
  ef_notify :: "ai_record list option"

definition no_effects :: ai_effects where
  "no_effects = \<lparr>ef_health = [], ef_notify = None\<rparr>"

definition current_records :: "ai_db \<Rightarrow> uuid \<Rightarrow> ai_record list" where
  "current_records db i =
     filter (\<lambda>r. ar_snapshot r = i \<and> ar_lane r = ai_decision_lane_key (ar_provider r) (ar_model r)) (ab_decisions db)"

definition persist_ai_results ::
  "ai_env \<Rightarrow> ai_config \<Rightarrow> lab_tables \<Rightarrow> ai_db \<Rightarrow> time \<Rightarrow> (int \<times> uuid) list \<Rightarrow> rat \<Rightarrow> decision_snapshot \<Rightarrow>
   (prepared_decision \<times> ai_record) list \<Rightarrow> bool \<Rightarrow> ai_error + (ai_effects \<times> ai_db)" where
  "persist_ai_results env cfg tb db now valve_maps limit s results runtime_effects =
     (case persist_results env cfg tb db now results of
        Inl err \<Rightarrow> Inl err
      | Inr (stored, db1) \<Rightarrow>
          (let current = current_records db1 (dp_id s)
           in if \<not> runtime_effects then Inr (no_effects, db1)
              else Inr (\<lparr>ef_health = update_ai_health current,
                         ef_notify = (if set (experiments cfg) \<subseteq> set (map ar_lane current)
                                      then decision_notification db1 valve_maps limit s current else None)\<rparr>, db1)))"

definition eligible_ai_snapshot ::
  "(string \<Rightarrow> py_datetime option) \<Rightarrow> ai_db \<Rightarrow> int \<Rightarrow> uuid \<Rightarrow> ai_error + decision_snapshot option" where
  "eligible_ai_snapshot from_iso db min_seconds i =
     (case snapshot_of db i of
        None \<Rightarrow> Inl SnapshotMissing
      | Some s \<Rightarrow>
          (case ai_decision_is_game_time_eligible from_iso
                  (case obj_fields (json_get (dp_payload s) ''quality'') of None \<Rightarrow> [] | Some q \<Rightarrow> q)
                  (json_get (dp_payload s) ''live'') (utc (dp_decision_at s)) min_seconds of
             Inl e \<Rightarrow> Inl AttributeMissing
           | Inr ok \<Rightarrow> Inr (if ok then Some s else None)))"

text \<open>The three phases.  PERSIST runs on the database as the other jobs have left it meanwhile: \<open>elsewhere\<close>
  is what they did during the inference.\<close>

definition run_ai_provider ::
  "ai_env \<Rightarrow> ai_config \<Rightarrow> (string \<Rightarrow> py_datetime option) \<Rightarrow> int \<Rightarrow> rat \<Rightarrow> string \<Rightarrow> lab_tables \<Rightarrow> (int \<times> uuid) list \<Rightarrow> ai_db \<Rightarrow>
   uuid \<Rightarrow> string \<Rightarrow> string \<Rightarrow> bool \<Rightarrow> time option \<Rightarrow> time option \<Rightarrow> time \<times> time \<Rightarrow> provider_outcome \<Rightarrow> time \<times> time \<Rightarrow> rat \<Rightarrow>
   (ai_db \<Rightarrow> ai_db) \<Rightarrow> time \<Rightarrow> ai_error + (ai_effects \<times> ai_db)" where
  "run_ai_provider env cfg from_iso min_seconds limit timeout_text tb valve_maps db i provider model runtime_effects enqueued
     claimed clock outcome answered latency elsewhere now =
     (if get_provider cfg provider model = None then Inl (ProviderNotConfigured provider model)
      else case eligible_ai_snapshot from_iso db min_seconds i of
             Inl e \<Rightarrow> Inl e
           | Inr None \<Rightarrow> Inr (no_effects, db)
           | Inr (Some s) \<Rightarrow>
               (case prepare env cfg tb db clock s provider model enqueued claimed of
                  Inl e \<Rightarrow> Inl e
                | Inr (pp, db1) \<Rightarrow>
                    persist_ai_results env cfg tb (elsewhere db1) now valve_maps limit s
                      [(pp, run_inference env timeout_text pp outcome answered latency)] runtime_effects))"

text \<open>Which providers a job runs: all configured ones, or the one it names.\<close>

definition job_experiments :: "ai_config \<Rightarrow> string option \<Rightarrow> string option \<Rightarrow> string + (string \<times> string) list" where
  "job_experiments cfg provider model =
     (case (provider, model) of
        (None, None) \<Rightarrow> Inr (map (\<lambda>(p, m, rest). (p, m)) (experiments cfg))
      | (Some p, Some m) \<Rightarrow> Inr [(p, m)]
      | _ \<Rightarrow> Inl ''RUN_AI_PROVIDER payload requires provider and model'')"

definition optional_text :: "json \<Rightarrow> string option" where
  "optional_text v = (case v of JStr s \<Rightarrow> if s \<noteq> [] then Some s else None | _ \<Rightarrow> None)"

definition run_ai_experiments :: "ai_config \<Rightarrow> (string \<times> json) list \<Rightarrow> string + (string \<times> string) list" where
  "run_ai_experiments cfg payload =
     job_experiments cfg (optional_text (json_get payload ''provider'')) (optional_text (json_get payload ''model''))"

definition runtime_effects_of :: "(string \<times> json) list \<Rightarrow> bool" where
  "runtime_effects_of payload \<longleftrightarrow> json_get payload ''experiment_replay'' \<noteq> JBool True"

end
