(* ===== verification/CoordinatorProperties.thy ===== *)
theory CoordinatorProperties
  imports AiJobs PortfolioProperties
begin

text \<open>
  Properties of the AI decisions: a normalized decision reloads as it was validated, stored decisions obey the
  bankroll policy and are never rewritten, an input is a function of what its experiment had decided before,
  and preparing all providers at once is preparing them one by one.
\<close>

subsection \<open>Decision documents\<close>

definition valid_decision :: "ai_decision \<Rightarrow> bool" where
  "valid_decision d \<longleftrightarrow>
     (case ad_probability d of None \<Rightarrow> True | Some p \<Rightarrow> 0 \<le> p \<and> p \<le> 1) \<and> 0 \<le> ad_confidence d \<and> ad_confidence d \<le> 1 \<and>
     ad_assessment d \<in> set assessments \<and> (case ad_minimum_odds d of None \<Rightarrow> True | Some m \<Rightarrow> 1 < m) \<and>
     (case ad_stake d of None \<Rightarrow> True | Some s \<Rightarrow> 0 \<le> s)"

lemma action_of_name [simp]: "action_of (JStr (action_name a)) = Some a"
  by (cases a) (simp_all add: action_of_def)

lemma all_some_strings [simp]: "all_some (map (\<lambda>x. case x of JStr s \<Rightarrow> Some s | _ \<Rightarrow> None) (map JStr xs)) = Some xs"
  by (induction xs) simp_all

lemma string_list_of [simp]: "string_list (JList (map JStr xs)) = Some xs"
  using all_some_strings [of xs] by (simp only: string_list_def json.case)

lemma float_field_JNum [simp]: "float_field num ok (JNum r) = (if ok r then Some r else None)"
  by (simp add: float_field_def)

lemma optional_float_num [simp]:
  "optional_float num ok (opt_num v) = (case v of None \<Rightarrow> Some None | Some r \<Rightarrow> if ok r then Some (Some r) else None)"
  by (simp add: optional_float_def opt_num_def split: option.split)

lemma float_field_ok: "float_field num ok v = Some r \<Longrightarrow> ok r"
  by (auto simp: float_field_def Let_def split: json.splits option.splits if_splits)

lemma optional_float_ok: "optional_float num ok v = Some (Some r) \<Longrightarrow> ok r"
  by (auto simp: optional_float_def dest: float_field_ok split: if_splits)

lemma assessment_of_ok: "assessment_of v = Some a \<Longrightarrow> a \<in> set assessments"
  by (auto simp: assessment_of_def split: json.splits if_splits)

lemma validate_dump [simp]:
  assumes "valid_decision d"
  shows "validate_decision num (dump_decision d) = Some d"
  using assms
  by (cases d) (auto simp: validate_decision_def dump_decision_def legacy_fields_def decision_fields_def validate_fields_def json_get_def
      assessment_of_def valid_decision_def split: option.splits)

lemma validate_valid:
  assumes "validate_decision num v = Some d"
  shows "valid_decision d"
proof -
  obtain fs where "validate_fields num fs = Some d"
    using assms by (auto simp: validate_decision_def Let_def split: json.splits if_splits)
  then show ?thesis
    by (auto simp: validate_fields_def valid_decision_def bind_eq_Some_conv dest: float_field_ok optional_float_ok
        assessment_of_ok split: option.splits)
qed

text \<open>An answer that parses is a well-formed decision, and what is stored of it reads back as the same
  decision: if the text of a provider parses as a decision then it is a document without retired or unknown
  fields, its values are in range, and the normalized form stored for it validates to the same decision,
  however numerals are parsed then.\<close>

theorem normalized_decisions_reload:
  assumes "parse_decision loads num body = Some d"
  shows "validate_decision num' (dump_decision d) = Some d \<and> valid_decision d \<and>
    (\<exists>fs. loads body = Some (JObj fs) \<and> set (map fst fs) \<subseteq> set decision_fields)"
proof -
  obtain fs where fs: "loads body = Some (JObj fs)" "\<not> list_ex (\<lambda>k. k \<in> set (map fst fs)) legacy_fields"
      "validate_decision num (JObj fs) = Some d"
    using assms by (auto simp: parse_decision_def split: option.splits json.splits if_splits)
  have kept: "filter (\<lambda>(k, _). k \<notin> set legacy_fields) fs = fs"
    using fs(2) by (auto simp: filter_id_conv legacy_fields_def image_iff)
  have "list_all (\<lambda>(k, _). k \<in> set decision_fields) fs"
    using fs(3) by (auto simp: validate_decision_def kept split: if_splits)
  then have "set (map fst fs) \<subseteq> set decision_fields" by (auto simp: list_all_iff)
  moreover have "valid_decision d" by (rule validate_valid [OF fs(3)])
  ultimately show ?thesis using fs(1) by simp
qed

subsection \<open>The policy of a stored decision\<close>

definition outcome_ok :: "provider_outcome \<Rightarrow> bool" where
  "outcome_ok outcome \<longleftrightarrow>
     (case outcome of Answered raw d version usage \<Rightarrow> valid_decision d
      | ProviderFailed message status raw \<Rightarrow> status \<noteq> ''SUCCESS'' | _ \<Rightarrow> True)"

definition policy_ok :: "rat \<Rightarrow> ai_decision \<Rightarrow> bool" where
  "policy_ok before d \<longleftrightarrow>
     (if ad_action d \<in> {BUY_A, BUY_B} then (\<exists>s. ad_stake d = Some s \<and> 0 < s \<and> s \<le> before + 5 / 1000)
      else ad_stake d \<in> {None, Some 0})"

definition decision_ok :: "ai_record \<Rightarrow> bool" where
  "decision_ok r \<longleftrightarrow>
     (if ar_status r = ''SUCCESS''
      then (\<exists>d before. valid_decision d \<and> policy_ok before d \<and> ar_normalized r = Some (dump_decision d) \<and>
              ar_stake r = ad_stake d \<and> ar_bankroll_before r = Some before)
      else ar_normalized r = None \<and> ar_stake r = None \<and> ar_error r \<noteq> None)"

lemma validate_policy: "validate_ai_decision render d before = None \<longleftrightarrow> policy_ok before d"
  by (auto simp: validate_ai_decision_def policy_ok_def not_le not_less split: option.splits)

lemma inference_ok:
  assumes "outcome_ok outcome" "pp_existing pp = None"
  shows "decision_ok (run_inference env timeout_text pp outcome clock latency)"
  using assms
  by (cases outcome)
    (auto simp: run_inference_def Let_def inference_result_of_def decision_ok_def outcome_ok_def validate_policy split: option.split)

lemma decision_ok_stored [simp]: "decision_ok (r\<lparr>ar_id := i, ar_persisted := t\<rparr>) = decision_ok r"
  by (simp add: decision_ok_def)

definition decision_key :: "ai_record \<Rightarrow> uuid \<times> experiment_key" where
  "decision_key r = (ar_snapshot r, ar_experiment r)"

text \<open>The BUY a position stands for is the validated action of a stored decision.\<close>

definition bets_on :: "ai_record \<Rightarrow> pf_position \<Rightarrow> bool" where
  "bets_on r p \<longleftrightarrow> ar_id r = po_ai_decision_id p \<and> ar_status r = ''SUCCESS'' \<and> po_action p \<in> {BUY_A, BUY_B} \<and>
     (\<exists>d. valid_decision d \<and> ar_normalized r = Some (dump_decision d) \<and> ad_action d = po_action p)"

definition decisions_inv :: "ai_db \<Rightarrow> bool" where
  "decisions_inv db \<longleftrightarrow>
     distinct (map decision_key (ab_decisions db)) \<and> distinct (map ar_id (ab_decisions db)) \<and>
     (\<forall>r \<in> set (ab_decisions db). ar_id r < ab_next db \<and> decision_ok r)"

definition bets_inv :: "ai_db \<Rightarrow> bool" where
  "bets_inv db \<longleftrightarrow> pf_inv (ab_portfolio db) \<and>
     (\<forall>p \<in> set (positions (ab_portfolio db)). \<exists>r \<in> set (ab_decisions db). bets_on r p)"

lemma existing_None:
  "existing_decision db (ar_snapshot r) (ar_experiment r) = None \<longleftrightarrow> decision_key r \<notin> decision_key ` set (ab_decisions db)"
  by (auto simp: existing_decision_def find_row_None_iff decision_key_def image_iff)

lemma add_decision_ok:
  assumes "decisions_inv db" "decision_ok r" "add_decision db now r = Inr (stored, db')"
  shows "decisions_inv db' \<and> ab_decisions db' = ab_decisions db @ [stored] \<and> ab_portfolio db' = ab_portfolio db \<and>
    ab_snapshots db' = ab_snapshots db"
  using assms
  by (auto simp: add_decision_def Let_def decisions_inv_def existing_None decision_key_def less_Suc_eq split: if_splits)
    (metis less_irrefl)

definition inferred :: "prepared_decision \<times> ai_record \<Rightarrow> bool" where
  "inferred x \<longleftrightarrow> (\<exists>env timeout_text outcome clock latency. outcome_ok outcome \<and>
     snd x = run_inference env timeout_text (fst x) outcome clock latency)"

lemma inferred_ok: "inferred (pp, r) \<Longrightarrow> pp_existing pp = None \<Longrightarrow> decision_ok r"
  by (auto simp: inferred_def inference_ok)

lemma add_decisions_ok:
  assumes "decisions_inv db" "\<forall>x \<in> set results. inferred x" "add_decisions db now results = Inr (stored, db')"
  shows "decisions_inv db' \<and> (\<exists>new. ab_decisions db' = ab_decisions db @ new) \<and> ab_portfolio db' = ab_portfolio db \<and>
    ab_snapshots db' = ab_snapshots db \<and>
    (\<forall>(pp, r) \<in> set stored. pp_existing pp = None \<longrightarrow> r \<in> set (ab_decisions db'))"
  using assms
proof (induction results arbitrary: db stored)
  case (Cons x rest)
  obtain pp r where x: "x = (pp, r)" by (cases x)
  show ?case
  proof (cases "pp_existing pp")
    case (Some e)
    obtain rs where "add_decisions db now rest = Inr (rs, db')" "stored = (pp, r) # rs"
      using Cons.prems(3) by (auto simp: x Some split: sum.splits)
    then show ?thesis using Cons.IH [OF Cons.prems(1)] Cons.prems(2) Some by auto
  next
    case None
    obtain r' db1 where add: "add_decision db now r = Inr (r', db1)"
      using Cons.prems(3) by (cases "add_decision db now r") (auto simp: x None)
    obtain rs where rs: "add_decisions db1 now rest = Inr (rs, db')" "stored = (pp, r') # rs"
      using Cons.prems(3) by (auto simp: x None add split: sum.splits)
    have ok: "decision_ok r" using Cons.prems(2) None inferred_ok by (auto simp: x)
    note one = add_decision_ok [OF Cons.prems(1) ok add]
    have "decisions_inv db1" using one by simp
    from Cons.IH [OF this _ rs(1)] Cons.prems(2) show ?thesis using one rs(2) by auto
  qed
qed auto

subsection \<open>Positions\<close>

lemma bets_inv_funded:
  assumes "bets_inv db" "0 \<le> bankroll" "context_for_scope bankroll tb (ab_portfolio db) now sc x reference = (c, pdb)"
  shows "bets_inv (db\<lparr>ab_portfolio := pdb\<rparr>)"
proof -
  obtain a where "ensure_account bankroll tb (ab_portfolio db) now (sc_event_id sc) x reference = (a, pdb)"
    using assms(3) by (auto simp: context_for_scope_def split: prod.splits)
  note e = ensure_account_ok [OF _ assms(2) this]
  then show ?thesis using assms(1) by (simp add: bets_inv_def)
qed

lemma bets_inv_settled:
  assumes "bets_inv db"
  shows "bets_inv (db\<lparr>ab_portfolio := snd (settle_map tb (ab_portfolio db) now m w c stamp)\<rparr>)"
proof -
  have inv: "pf_inv (ab_portfolio db)" using assms by (simp add: bets_inv_def)
  obtain f where f: "positions (snd (settle_map tb (ab_portfolio db) now m w c stamp)) = map f (positions (ab_portfolio db))"
      "\<forall>q. po_ai_decision_id (f q) = po_ai_decision_id q \<and> po_action (f q) = po_action q"
    using settle_map_shape [OF inv, of tb now m w c stamp] by auto
  show ?thesis using assms settle_map_ok(1) [OF inv] f(2) by (simp add: bets_inv_def f(1) bets_on_def)
qed

lemma opened_positions:
  assumes inv: "pf_inv db" and a: "a \<in> set (accounts db)" and new: "dr_id r \<notin> po_ai_decision_id ` set (positions db)"
    and stake: "0 \<le> raw_stake" and o: "open_position decimal tb db now a r action raw_stake sc sn = (p, db')"
    and q: "q \<in> set (positions db')"
  shows "(po_ai_decision_id q = dr_id r \<and> po_action q = action) \<or>
    (\<exists>q0 \<in> set (positions db). po_ai_decision_id q = po_ai_decision_id q0 \<and> po_action q = po_action q0)"
proof -
  define p0 where "p0 = placed_position decimal tb db a r action raw_stake sc sn"
  define db2 where "db2 = place now a r p0 db"
  have p0: "po_ai_decision_id p0 = dr_id r" "po_action p0 = action"
    by (simp_all add: p0_def placed_position_def new_position_def Let_def)
  have db2: "positions db2 = positions db @ [p0]" by (simp add: db2_def place_def Let_def)
  have inv2: "pf_inv db2" unfolding db2_def p0_def by (rule place_ok [OF inv a new stake refl])
  have "db' = db2 \<or> (\<exists>m w c stamp. db' = snd (settle_map tb db2 now m w c stamp))"
    using o by (auto simp: open_position_eq Let_def p0_def [symmetric] db2_def [symmetric] split: if_splits option.splits)
  then show ?thesis
  proof
    assume "db' = db2"
    then show ?thesis using q p0 by (auto simp: db2)
  next
    assume "\<exists>m w c stamp. db' = snd (settle_map tb db2 now m w c stamp)"
    then obtain f where f: "positions db' = map f (positions db2)"
        "\<forall>q. po_ai_decision_id (f q) = po_ai_decision_id q \<and> po_action (f q) = po_action q"
      using settle_map_shape [OF inv2] by metis
    then show ?thesis using q p0 by (auto simp: db2)
  qed
qed

lemma recorded_positions:
  assumes inv: "pf_inv db" and "0 \<le> bankroll"
    and rec: "record_decision_position decimal bankroll tb db now r scope = Inr (p, db')" and q: "q \<in> set (positions db')"
  shows "(po_ai_decision_id q = dr_id r \<and> dr_action r = Some (po_action q) \<and> dr_parse_status r = ''SUCCESS'' \<and>
      po_action q \<in> {BUY_A, BUY_B}) \<or>
    (\<exists>q0 \<in> set (positions db). po_ai_decision_id q = po_ai_decision_id q0 \<and> po_action q = po_action q0)"
  using rec
proof (cases rule: record_cases)
  case 1
  then show ?thesis using q by auto
next
  case (2 action stake sc sn a db1 p0)
  note e = ensure_account_ok [OF assms(1,2) 2(8)]
  have new: "dr_id r \<notin> po_ai_decision_id ` set (positions db1)" using 2(5) e by (auto simp: find_row_None_iff)
  have ok: "dr_parse_status r = ''SUCCESS''" "action \<in> {BUY_A, BUY_B}"
    using rec 2(1-3) by (auto simp: record_decision_position_def split: if_splits)
  show ?thesis using opened_positions [OF _ _ new _ 2(9) q] e 2(2,4) ok by auto
qed

lemma record_position_ok:
  assumes inv: "bets_inv db" and r: "r \<in> set (ab_decisions db)" "decision_ok r" and cfg: "\<forall>b. ac_portfolio cfg = Some b \<longrightarrow> 0 \<le> b"
    and rec: "record_position env cfg tb db now scope r = Inr db'"
  shows "bets_inv db' \<and> ab_decisions db' = ab_decisions db \<and> ab_next db' = ab_next db \<and> ab_snapshots db' = ab_snapshots db"
proof (cases "ac_portfolio cfg")
  case None
  then show ?thesis using assms by (simp add: record_position_def)
next
  case (Some b)
  let ?row = "decision_row_of (en_num env) r"
  obtain p pdb where run: "record_decision_position (en_num env) b (lab_of tb db) (ab_portfolio db) now ?row scope = Inr (p, pdb)"
      and db': "db' = db\<lparr>ab_portfolio := pdb\<rparr>"
    using rec by (auto simp: record_position_def Some split: if_splits sum.splits)
  have pos: "0 \<le> b" using cfg Some by simp
  have pinv: "pf_inv (ab_portfolio db)" using inv by (simp add: bets_inv_def)
  have "\<exists>r \<in> set (ab_decisions db). bets_on r q" if q: "q \<in> set (positions pdb)" for q
    using recorded_positions [OF pinv pos run q]
  proof
    assume mine: "po_ai_decision_id q = dr_id ?row \<and> dr_action ?row = Some (po_action q) \<and> dr_parse_status ?row = ''SUCCESS'' \<and>
      po_action q \<in> {BUY_A, BUY_B}"
    then obtain d where d: "valid_decision d" "ar_normalized r = Some (dump_decision d)"
      using r(2) by (auto simp: decision_ok_def decision_row_of_def)
    then have "ad_action d = po_action q" using mine by (simp add: decision_row_of_def)
    then show ?thesis using mine d r(1) by (intro bexI [of _ r]) (auto simp: bets_on_def decision_row_of_def)
  next
    assume "\<exists>q0 \<in> set (positions (ab_portfolio db)). po_ai_decision_id q = po_ai_decision_id q0 \<and> po_action q = po_action q0"
    then show ?thesis using inv by (auto simp: bets_inv_def bets_on_def)
  qed
  then show ?thesis using record_ok [OF pinv pos run] by (simp add: db' bets_inv_def)
qed

lemma record_positions_ok:
  assumes "bets_inv db" "\<forall>(pp, r) \<in> set stored. pp_existing pp = None \<longrightarrow> r \<in> set (ab_decisions db)"
    "\<forall>r \<in> set (ab_decisions db). decision_ok r" "\<forall>b. ac_portfolio cfg = Some b \<longrightarrow> 0 \<le> b"
    "record_positions env cfg tb db now stored = Inr db'"
  shows "bets_inv db' \<and> ab_decisions db' = ab_decisions db \<and> ab_next db' = ab_next db \<and> ab_snapshots db' = ab_snapshots db"
  using assms
proof (induction stored arbitrary: db)
  case (Cons x rest)
  obtain pp r where x: "x = (pp, r)" by (cases x)
  show ?case
  proof (cases "pp_existing pp")
    case (Some e)
    then show ?thesis using Cons by (simp add: x)
  next
    case None
    obtain db1 where one: "record_position env cfg tb db now (pp_scope pp) r = Inr db1"
        and rest: "record_positions env cfg tb db1 now rest = Inr db'"
      using Cons.prems(5) None by (auto simp: x split: sum.splits)
    have r: "r \<in> set (ab_decisions db)" "decision_ok r" using Cons.prems(2,3) None by (auto simp: x)
    note s = record_position_ok [OF Cons.prems(1) r Cons.prems(4) one]
    from Cons.IH [OF _ _ _ Cons.prems(4) rest] Cons.prems(2,3) s show ?thesis by auto
  qed
qed simp

lemma persist_results_ok:
  assumes "decisions_inv db" "bets_inv db" "\<forall>x \<in> set results. inferred x" "\<forall>b. ac_portfolio cfg = Some b \<longrightarrow> 0 \<le> b"
    "persist_results env cfg tb db now results = Inr (stored, db')"
  shows "decisions_inv db' \<and> bets_inv db' \<and> (\<exists>new. ab_decisions db' = ab_decisions db @ new) \<and> ab_snapshots db' = ab_snapshots db"
proof -
  obtain db1 where add: "add_decisions db now results = Inr (stored, db1)"
      and rec: "record_positions env cfg tb db1 now stored = Inr db'"
    using assms(5) by (auto simp: persist_results_def split: sum.splits)
  note a = add_decisions_ok [OF assms(1,3) add]
  then obtain new where new: "ab_decisions db1 = ab_decisions db @ new" by blast
  have bets: "bets_inv db1" using assms(2) a new by (auto simp: bets_inv_def)
  have ok: "\<forall>r \<in> set (ab_decisions db1). decision_ok r" using a by (simp add: decisions_inv_def)
  have stored: "\<forall>(pp, r) \<in> set stored. pp_existing pp = None \<longrightarrow> r \<in> set (ab_decisions db1)" using a by blast
  from record_positions_ok [OF bets stored ok assms(4) rec] a new show ?thesis by (auto simp: decisions_inv_def)
qed

subsection \<open>Reachable states\<close>

lemma prepare_frame:
  assumes "bets_inv db" "\<forall>b. ac_portfolio cfg = Some b \<longrightarrow> 0 \<le> b"
    and "portfolio_context_for cfg tb db now scope x reference = (c, db')"
  shows "bets_inv db' \<and> ab_decisions db' = ab_decisions db \<and> ab_next db' = ab_next db \<and> ab_snapshots db' = ab_snapshots db \<and>
    positions (ab_portfolio db') = positions (ab_portfolio db)"
proof (cases "ac_portfolio cfg = None \<or> scope = None")
  case True
  then show ?thesis using assms(1,3) by (auto simp: portfolio_context_for_def split: option.splits)
next
  case False
  then obtain b sc where b: "ac_portfolio cfg = Some b" "scope = Some sc" by auto
  obtain c' pdb where ctx: "context_for_scope b (lab_of tb db) (ab_portfolio db) now sc x (Some reference) = (c', pdb)"
    by (cases "context_for_scope b (lab_of tb db) (ab_portfolio db) now sc x (Some reference)")
  then have db': "db' = db\<lparr>ab_portfolio := pdb\<rparr>" using assms(3) by (simp add: portfolio_context_for_def b)
  obtain a where "ensure_account b (lab_of tb db) (ab_portfolio db) now (sc_event_id sc) x (Some reference) = (a, pdb)"
    using ctx by (auto simp: context_for_scope_def split: prod.splits)
  then have "positions pdb = positions (ab_portfolio db)"
    using ensure_account_ok [of "ab_portfolio db" b] assms(1,2) b(1) by (auto simp: bets_inv_def)
  moreover have "0 \<le> b" using assms(2) b(1) by simp
  ultimately show ?thesis using bets_inv_funded [OF assms(1) _ ctx] by (simp add: db')
qed

lemma prepare_each_frame:
  assumes "bets_inv db" "\<forall>b. ac_portfolio cfg = Some b \<longrightarrow> 0 \<le> b"
    "prepare_each env cfg tb db clock s existing priors scope e c ps = (pps, db')"
  shows "bets_inv db' \<and> ab_decisions db' = ab_decisions db \<and> ab_next db' = ab_next db \<and> ab_snapshots db' = ab_snapshots db"
  using assms
proof (induction ps arbitrary: db pps)
  case (Cons p ps)
  obtain ctx db1 where one: "portfolio_context_for cfg tb db (fst clock) scope (provider_experiment p) (dp_decision_at s) = (ctx, db1)"
    by (cases "portfolio_context_for cfg tb db (fst clock) scope (provider_experiment p) (dp_decision_at s)")
  obtain rest db2 where two: "prepare_each env cfg tb db1 clock s existing priors scope e c ps = (rest, db2)"
    by (cases "prepare_each env cfg tb db1 clock s existing priors scope e c ps")
  have "db2 = db'" using Cons.prems(3) one two by (simp add: Let_def)
  note two = two [unfolded this]
  show ?case using prepare_frame [OF Cons.prems(1,2) one] Cons.IH [OF _ Cons.prems(2) two] by simp
qed simp

definition empty_decisions :: ai_db where
  "empty_decisions = \<lparr>ab_snapshots = [], ab_decisions = [],
     ab_portfolio = \<lparr>accounts = [], positions = [], entries = [], next_pf_id = 0\<rparr>, ab_next = 0\<rparr>"

text \<open>What happens to the tables: a snapshot is taken, an input is prepared, answers to prepared inputs are
  persisted, a batch runs, a map settles.  Inputs may be prepared at any earlier time.\<close>

inductive ai_step :: "ai_env \<Rightarrow> ai_config \<Rightarrow> ai_db \<Rightarrow> ai_db \<Rightarrow> bool" for env cfg db where
  taken: "snapshot_of db (dp_id s) = None \<Longrightarrow> ai_step env cfg db (db\<lparr>ab_snapshots := ab_snapshots db @ [s]\<rparr>)"
| prepared: "prepare env cfg tb db clock s provider model e c = Inr (pp, db') \<Longrightarrow> ai_step env cfg db db'"
| persisted: "\<forall>x \<in> set results. inferred x \<Longrightarrow> persist_results env cfg tb db now results = Inr (stored, db') \<Longrightarrow>
    ai_step env cfg db db'"
| batch: "\<forall>(outcome, rest) \<in> set answers. outcome_ok outcome \<Longrightarrow>
    run_all env cfg timeout_text tb db clock s answers now = Inr (records, db') \<Longrightarrow> ai_step env cfg db db'"
| settled: "ai_step env cfg db (db\<lparr>ab_portfolio := snd (settle_map (lab_of tb db) (ab_portfolio db) now m w conflict stamp)\<rparr>)"

inductive ai_steps :: "ai_env \<Rightarrow> ai_config \<Rightarrow> ai_db \<Rightarrow> ai_db \<Rightarrow> bool" for env cfg db where
  none_yet: "ai_steps env cfg db db"
| one_more: "ai_steps env cfg db db1 \<Longrightarrow> ai_step env cfg db1 db2 \<Longrightarrow> ai_steps env cfg db db2"

definition ai_ok :: "ai_db \<Rightarrow> bool" where
  "ai_ok db \<longleftrightarrow> decisions_inv db \<and> bets_inv db"

lemma ai_step_ok:
  assumes "ai_step env cfg db db'" "ai_ok db" "\<forall>b. ac_portfolio cfg = Some b \<longrightarrow> 0 \<le> b"
  shows "ai_ok db' \<and> (\<exists>new. ab_decisions db' = ab_decisions db @ new)"
  using assms(1)
proof cases
  case (taken s)
  then show ?thesis using assms(2) by (simp add: ai_ok_def decisions_inv_def bets_inv_def)
next
  case (prepared tb clock s provider model e c pp)
  then obtain scope x ctx where ctx: "portfolio_context_for cfg tb db (fst clock) scope x (dp_decision_at s) = (ctx, db')"
    by (auto simp: prepare_def Let_def split: option.splits prod.splits)
  have bets: "bets_inv db" using assms(2) by (simp add: ai_ok_def)
  show ?thesis using prepare_frame [OF bets assms(3) ctx] assms(2) by (simp add: ai_ok_def decisions_inv_def)
next
  case (persisted results tb now stored)
  then show ?thesis using persist_results_ok [OF _ _ persisted(1) assms(3) persisted(2)] assms(2) by (simp add: ai_ok_def)
next
  case (batch answers timeout_text tb clock s now records)
  obtain pps db1 where all: "prepare_all env cfg tb db clock s None None = (pps, db1)"
    by (cases "prepare_all env cfg tb db clock s None None")
  define results where "results = map2 (\<lambda>pp (outcome, cl, latency). (pp, run_inference env timeout_text pp outcome cl latency)) pps answers"
  obtain stored where run: "persist_results env cfg tb db1 now results = Inr (stored, db')"
    using batch(2) by (auto simp: run_all_def all results_def split: sum.splits)
  have bets: "bets_inv db" using assms(2) by (simp add: ai_ok_def)
  have frame: "bets_inv db1 \<and> ab_decisions db1 = ab_decisions db \<and> ab_next db1 = ab_next db"
    using all prepare_each_frame [OF bets assms(3)] bets by (auto simp: prepare_all_def Let_def split: if_splits)
  have "\<forall>x \<in> set results. inferred x"
  proof
    fix x assume "x \<in> set results"
    then obtain pp outcome cl latency where "(pp, outcome, cl, latency) \<in> set (zip pps answers)"
        and x: "x = (pp, run_inference env timeout_text pp outcome cl latency)"
      by (auto simp: results_def)
    then have "outcome_ok outcome" using batch(1) by (auto dest: set_zip_rightD)
    then show "inferred x" unfolding inferred_def x fst_conv snd_conv by blast
  qed
  then show ?thesis using persist_results_ok [OF _ _ _ assms(3) run] frame assms(2) by (auto simp: ai_ok_def decisions_inv_def)
next
  case (settled tb now m w conflict stamp)
  then show ?thesis using assms(2) bets_inv_settled by (simp add: ai_ok_def decisions_inv_def)
qed

lemma ai_steps_ok:
  assumes "ai_steps env cfg db db'" "ai_ok db" "\<forall>b. ac_portfolio cfg = Some b \<longrightarrow> 0 \<le> b"
  shows "ai_ok db' \<and> (\<exists>new. ab_decisions db' = ab_decisions db @ new)"
  using assms
proof (induction rule: ai_steps.induct)
  case (one_more db1 db2)
  then show ?case using ai_step_ok [OF one_more.hyps(2)] by auto
qed simp

lemma empty_decisions_ok: "ai_ok empty_decisions"
  by (simp add: ai_ok_def empty_decisions_def decisions_inv_def bets_inv_def pf_inv_def balances_ok_def)

text \<open>C23. What is recorded of the AI is trustworthy.  In every state the AI jobs can reach, whatever providers
  answer and however the phases of different jobs interleave: an experiment has at most one record per
  snapshot; a successful record carries a valid decision whose stake respects the policy (a BUY stakes a
  positive amount within the bankroll shown to it, anything else nothing) and a failed one carries no decision,
  no stake and an error; every position of the bankrolls stands for the BUY of a successful record; and no
  record is ever changed or removed later.\<close>

theorem recorded_decisions_obey_the_policy:
  assumes "ai_steps env cfg empty_decisions db" and "ai_steps env cfg db db'" and "\<forall>b. ac_portfolio cfg = Some b \<longrightarrow> 0 \<le> b"
  shows "distinct (map (\<lambda>r. (ar_snapshot r, ar_experiment r)) (ab_decisions db)) \<and>
    (\<forall>r \<in> set (ab_decisions db).
       if ar_status r = ''SUCCESS''
       then (\<exists>d before. valid_decision d \<and> policy_ok before d \<and> ar_normalized r = Some (dump_decision d) \<and>
               ar_stake r = ad_stake d \<and> ar_bankroll_before r = Some before)
       else ar_normalized r = None \<and> ar_stake r = None \<and> ar_error r \<noteq> None) \<and>
    (\<forall>p \<in> set (positions (ab_portfolio db)). \<exists>r \<in> set (ab_decisions db). bets_on r p) \<and>
    (\<exists>new. ab_decisions db' = ab_decisions db @ new)"
proof -
  note a = ai_steps_ok [OF assms(1) empty_decisions_ok assms(3)]
  then have ok: "ai_ok db" by simp
  have "decision_key = (\<lambda>r. (ar_snapshot r, ar_experiment r))" by (auto simp: decision_key_def)
  moreover have "\<forall>r \<in> set (ab_decisions db). decision_ok r" "distinct (map decision_key (ab_decisions db))"
    using ok by (simp_all add: ai_ok_def decisions_inv_def)
  moreover have "\<forall>p \<in> set (positions (ab_portfolio db)). \<exists>r \<in> set (ab_decisions db). bets_on r p"
    using ok by (simp add: ai_ok_def bets_inv_def)
  ultimately show ?thesis using ai_steps_ok [OF assms(2) ok assms(3)] unfolding decision_ok_def by simp
qed

subsection \<open>A sample run\<close>

definition demo_env :: ai_env where
  "demo_env = \<lparr>en_view = (\<lambda>s. []), en_canonical = (\<lambda>j. []), en_sha = (\<lambda>s. s), en_num = (\<lambda>s. None), en_render = (\<lambda>r. [])\<rparr>"

definition demo_provider :: ai_provider where
  "demo_provider = \<lparr>pv_name = ''openai'', pv_model = ''m'', pv_config = None\<rparr>"

definition demo_cfg :: ai_config where
  "demo_cfg = \<lparr>ac_providers = [demo_provider], ac_bankroll = 10000, ac_prior_limit = 10, ac_portfolio = None\<rparr>"

definition demo_tables :: lab_tables where
  "demo_tables = \<lparr>tb_maps = [], tb_series = [], tb_events = [], tb_snapshots = [], tb_results = []\<rparr>"

definition demo_snapshot_at :: "uuid \<Rightarrow> time \<Rightarrow> decision_snapshot" where
  "demo_snapshot_at i t = \<lparr>dp_id = i, dp_map = Some 7, dp_decision_at = t, dp_mode = ''LIVE_BASIC'', dp_payload = [], dp_hash = []\<rparr>"

definition demo_decision :: ai_decision where
  "demo_decision = \<lparr>ad_action = BUY_A, ad_probability = Some (3 / 5), ad_confidence = 1 / 2, ad_assessment = ''FAIR'',
     ad_minimum_odds = None, ad_stake = Some 100, ad_reasons = [''r''], ad_concerns = []\<rparr>"

lemma demo_decision_valid [simp]: "valid_decision demo_decision" "policy_ok 10000 demo_decision"
  by (simp_all add: valid_decision_def policy_ok_def demo_decision_def assessments_def)

definition demo_prepared :: prepared_decision where
  "demo_prepared = \<lparr>pp_provider = demo_provider, pp_snapshot = demo_snapshot_at 1 50, pp_input = [], pp_input_hash = [],
     pp_bankroll_before = 10000, pp_started = 51, pp_completed = 52, pp_config = STATIC_EXECUTION_CONFIG_VERSION,
     pp_existing = None, pp_job_enqueued = None, pp_job_claimed = None, pp_scope = None\<rparr>"

definition demo_record :: ai_record where
  "demo_record = run_inference demo_env [] demo_prepared (Answered JNull demo_decision [] None) (53, 60) 7"

lemma demo_answer [simp]:
  "validate_ai_decision (en_render demo_env) demo_decision 10000 = None" "ad_stake demo_decision = Some 100"
  by (simp add: validate_policy) (simp add: demo_decision_def)

lemma demo_record_fields [simp]:
  "ar_status demo_record = ''SUCCESS''" "ar_snapshot demo_record = 1" "ar_started demo_record = 53"
  "ar_experiment demo_record = provider_experiment demo_provider" "ar_normalized demo_record = Some (dump_decision demo_decision)"
  "ar_stake demo_record = Some 100" "ar_bankroll_before demo_record = Some 10000"
  by (simp_all add: demo_record_def run_inference_def inference_result_of_def demo_prepared_def Let_def demo_snapshot_at_def
      provider_experiment_def demo_provider_def execution_config_version_def)

definition demo_lab :: ai_db where
  "demo_lab = empty_decisions\<lparr>ab_snapshots := [demo_snapshot_at 1 50, demo_snapshot_at 2 90],
     ab_decisions := [demo_record\<lparr>ar_id := 0, ar_persisted := Some 61\<rparr>], ab_next := 1\<rparr>"

lemma demo_lab_reachable: "ai_steps demo_env demo_cfg empty_decisions demo_lab"
proof -
  let ?db1 = "empty_decisions\<lparr>ab_snapshots := [demo_snapshot_at 1 50]\<rparr>"
  let ?db2 = "empty_decisions\<lparr>ab_snapshots := [demo_snapshot_at 1 50, demo_snapshot_at 2 90]\<rparr>"
  have "ai_step demo_env demo_cfg empty_decisions ?db1"
    using ai_step.taken [of empty_decisions "demo_snapshot_at 1 50"] by (simp add: snapshot_of_def empty_decisions_def)
  moreover have "ai_step demo_env demo_cfg ?db1 ?db2"
    using ai_step.taken [of ?db1 "demo_snapshot_at 2 90"] by (simp add: snapshot_of_def demo_snapshot_at_def)
  moreover have "ai_step demo_env demo_cfg ?db2 demo_lab"
  proof (rule ai_step.persisted [where results = "[(demo_prepared, demo_record)]" and tb = demo_tables and now = 61])
    show "\<forall>x \<in> set [(demo_prepared, demo_record)]. inferred x"
      by (simp add: inferred_def) (rule exI [of _ demo_env], rule exI [of _ "[]"],
        rule exI [of _ "Answered JNull demo_decision [] None"], auto simp: outcome_ok_def demo_record_def)
    show "persist_results demo_env demo_cfg demo_tables ?db2 61 [(demo_prepared, demo_record)] =
        Inr ([(demo_prepared, demo_record\<lparr>ar_id := 0, ar_persisted := Some 61\<rparr>)], demo_lab)"
      by (simp add: persist_results_def Let_def add_decision_def existing_decision_def record_position_def demo_prepared_def demo_lab_def
          demo_cfg_def empty_decisions_def)
  qed
  ultimately show ?thesis by (meson ai_steps.intros)
qed

theorem normalized_decisions_reload_witness:
  "validate_decision (\<lambda>s. None) (dump_decision demo_decision) = Some demo_decision"
proof -
  have "parse_decision (\<lambda>s. Some (dump_decision demo_decision)) (\<lambda>s. None) [] = Some demo_decision"
    using validate_dump [OF demo_decision_valid(1), of "\<lambda>s. None"]
    by (simp add: parse_decision_def dump_decision_def legacy_fields_def)
  from normalized_decisions_reload [OF this, of "\<lambda>s. None"] show ?thesis by simp
qed

theorem recorded_decisions_obey_the_policy_witness:
  "\<exists>r \<in> set (ab_decisions demo_lab). ar_stake r = Some 100 \<and> (\<exists>d before. ar_normalized r = Some (dump_decision d) \<and> policy_ok before d)"
proof -
  let ?r = "demo_record\<lparr>ar_id := 0, ar_persisted := Some 61\<rparr>"
  have "?r \<in> set (ab_decisions demo_lab)" by (simp add: demo_lab_def)
  moreover from this have "\<exists>d before. policy_ok before d \<and> ar_normalized ?r = Some (dump_decision d)"
    using recorded_decisions_obey_the_policy [OF demo_lab_reachable ai_steps.none_yet] by (fastforce simp: demo_cfg_def)
  ultimately show ?thesis by (intro bexI [of _ ?r]) auto
qed

end
