(* ===== verification/AiProperties.thy ===== *)
theory AiProperties
  imports CoordinatorProperties
begin

text \<open>
  What an AI input depends on, and the two ways of preparing it: one query per experiment, or one query for
  all of them.
\<close>

subsection \<open>The rows an input reads\<close>

lemma joined_record: "join_decision db r = Some row \<Longrightarrow> fst row = r"
  by (auto simp: join_decision_def Let_def split: option.splits)

lemma map_filter_rows:
  "filter (\<lambda>row. P (fst row)) (List.map_filter (join_decision db) rs) = List.map_filter (join_decision db) (filter P rs)"
  by (induction rs) (auto simp: List.map_filter_simps dest: joined_record split: option.splits)

lemma filter_joined: "filter (\<lambda>row. P (fst row)) (joined_rows db Q) = joined_rows db (\<lambda>r. Q r \<and> P r)"
  by (simp add: joined_rows_def filter_sort map_filter_rows)

lemma joined_rows_cong: "(\<And>r. P r = Q r) \<Longrightarrow> joined_rows db P = joined_rows db Q"
  by (metis ext)

lemma joined_rowsD:
  assumes "row \<in> set (joined_rows db P)"
  shows "fst row \<in> set (ab_decisions db) \<and> P (fst row) \<and> join_decision db (fst row) = Some row"
proof -
  obtain r where "r \<in> set (ab_decisions db)" "P r" "join_decision db r = Some row"
    using assms by (force simp: joined_rows_def List.map_filter_def)
  then show ?thesis using joined_record [of db r row] by simp
qed

lemma kept_rows: "snd ` set (foldl (\<lambda>best row. keep_newest row best) best rows) \<subseteq> snd ` set best \<union> set rows"
proof (induction rows arbitrary: best)
  case (Cons row rows)
  have "snd ` set (keep_newest row best) \<subseteq> snd ` set best \<union> {row}"
  proof
    fix x assume "x \<in> snd ` set (keep_newest row best)"
    moreover have "set (AList.update k v al) \<subseteq> insert (k, v) (set al)" for k and v :: prior_row and al
      by (induction al) auto
    ultimately show "x \<in> snd ` set best \<union> {row}"
      by (fastforce simp: keep_newest_def split: option.splits if_splits)
  qed
  then show ?case using Cons.IH [of "keep_newest row best"] unfolding foldl_Cons list.set by blast
qed simp

lemma in_map_filter: "d \<in> set (List.map_filter f xs) \<longleftrightarrow> (\<exists>x \<in> set xs. f x = Some d)"
  by (induction xs) (auto simp: List.map_filter_simps split: option.split)

lemma prior_in:
  assumes "d \<in> set (prior_from_rows num rows)"
  obtains row where "row \<in> set rows" "prior_of_row num row = Some d"
proof -
  obtain row where row: "row \<in> snd ` set (foldl (\<lambda>best row. keep_newest row best) [] rows)" "prior_of_row num row = Some d"
    using assms unfolding prior_from_rows_def in_map_filter set_sort set_map by blast
  then have "row \<in> set rows" using kept_rows [of "[]" rows] by auto
  then show ?thesis using row(2) that by blast
qed

lemma prior_of_rowD:
  assumes "prior_of_row num row = Some d"
  shows "pd_decision_at d = fst (snd row) \<and> Option.bind (ar_normalized (fst row)) (validate_decision num) = Some (pd_decision d)"
  using assms by (cases row) (auto simp: prior_of_row_def)

lemma sorted_map_filter:
  assumes "sorted (map f xs)" "\<And>x d. p x = Some d \<Longrightarrow> g d = f x"
  shows "sorted (map g (List.map_filter p xs))"
  using assms(1)
proof (induction xs)
  case (Cons x xs)
  have "f x \<le> g d" if "d \<in> set (List.map_filter p xs)" for d
    using that Cons.prems assms(2) by (auto simp: List.map_filter_def)
  then show ?case using Cons assms(2) by (auto simp: List.map_filter_simps split: option.split)
qed (simp add: List.map_filter_simps)

lemma prior_sorted: "sorted (map pd_decision_at (prior_from_rows num rows))"
  unfolding prior_from_rows_def
  by (rule sorted_map_filter [where f = "\<lambda>row. fst (snd row)"]) (auto simp: prior_of_row_def)

text \<open>The decisions an experiment may know of when it decides a snapshot.\<close>

definition visible_to :: "ai_db \<Rightarrow> decision_snapshot \<Rightarrow> experiment_key \<Rightarrow> ai_record \<Rightarrow> bool" where
  "visible_to db s x r \<longleftrightarrow> ar_experiment r = x \<and>
     (ar_snapshot r = dp_id s \<or> (\<exists>m. snapshot_map db s = Some m \<and> decided_before db m (dp_decision_at s) r))"

lemma filter_twice:
  assumes "filter V ys = filter V xs" "\<And>r. P r \<Longrightarrow> V r"
  shows "filter P ys = filter P xs"
proof -
  have "filter P zs = filter P (filter V zs)" for zs using assms(2) by (induction zs) auto
  then show ?thesis using assms(1) by metis
qed

lemma find_row_hd: "find_row P xs = (case filter P xs of [] \<Rightarrow> None | r # rs \<Rightarrow> Some r)"
  by (induction xs) auto

text \<open>Two databases that agree on what an experiment may know of: the snapshots, its visible decisions, the
  positions of its earlier decisions, and its own account of the event.\<close>

definition same_past :: "ai_config \<Rightarrow> lab_tables \<Rightarrow> decision_snapshot \<Rightarrow> experiment_key \<Rightarrow> ai_db \<Rightarrow> ai_db \<Rightarrow> bool" where
  "same_past cfg tb s x db db' \<longleftrightarrow>
     ab_snapshots db' = ab_snapshots db \<and>
     filter (visible_to db s x) (ab_decisions db') = filter (visible_to db s x) (ab_decisions db) \<and>
     (\<forall>r \<in> set (ab_decisions db). visible_to db s x r \<longrightarrow>
        filter (\<lambda>p. po_ai_decision_id p = ar_id r) (positions (ab_portfolio db')) =
        filter (\<lambda>p. po_ai_decision_id p = ar_id r) (positions (ab_portfolio db))) \<and>
     (\<forall>sc. decision_scope cfg tb db s = Some sc \<longrightarrow>
        filter (is_account (sc_event_id sc) x) (accounts (ab_portfolio db')) =
        filter (is_account (sc_event_id sc) x) (accounts (ab_portfolio db)))"

lemma map_filter_cong: "(\<And>r. r \<in> set rs \<Longrightarrow> f r = g r) \<Longrightarrow> List.map_filter f rs = List.map_filter g rs"
  by (induction rs) (simp_all add: List.map_filter_simps split: option.split)

lemma same_snapshots:
  assumes "ab_snapshots db' = ab_snapshots db"
  shows "snapshot_of db' = snapshot_of db" and "decided_before db' = decided_before db"
    and "snapshot_map db' s = snapshot_map db s" and "decision_scope cfg tb db' s = decision_scope cfg tb db s"
    and "lab_of tb db' = lab_of tb db"
proof -
  show snap: "snapshot_of db' = snapshot_of db" by (rule ext) (simp add: snapshot_of_def assms)
  show "decided_before db' = decided_before db" by (intro ext) (simp only: decided_before_def snap)
  show "snapshot_map db' s = snapshot_map db s" by (simp only: snapshot_map_def snap)
  show "lab_of tb db' = lab_of tb db" by (simp add: lab_of_def assms)
  then show "decision_scope cfg tb db' s = decision_scope cfg tb db s" by (simp add: decision_scope_def)
qed

lemma prior_rows_visible:
  assumes "same_past cfg tb s x db db'"
  shows "prior_rows db' (snapshot_map db' s) s x = prior_rows db (snapshot_map db s) s x"
proof (cases "snapshot_map db s")
  case None
  have "ab_snapshots db' = ab_snapshots db" using assms by (simp add: same_past_def)
  then show ?thesis using None same_snapshots(3) [of db' db s] by (simp add: prior_rows_def)
next
  case (Some m)
  let ?P = "\<lambda>r. decided_before db m (dp_decision_at s) r \<and> ar_experiment r = x"
  have snaps: "ab_snapshots db' = ab_snapshots db" using assms by (simp add: same_past_def)
  have rows: "filter ?P (ab_decisions db') = filter ?P (ab_decisions db)"
    by (rule filter_twice [where V = "visible_to db s x"])
      (use assms in \<open>simp_all add: same_past_def, simp add: visible_to_def Some\<close>)
  have "join_decision db' r = join_decision db r" if "r \<in> set (filter ?P (ab_decisions db))" for r
  proof -
    have "filter (\<lambda>p. po_ai_decision_id p = ar_id r) (positions (ab_portfolio db')) =
        filter (\<lambda>p. po_ai_decision_id p = ar_id r) (positions (ab_portfolio db))"
      using assms that by (auto simp: same_past_def visible_to_def Some)
    then have "find_row (\<lambda>p. po_ai_decision_id p = ar_id r) (positions (ab_portfolio db')) =
        find_row (\<lambda>p. po_ai_decision_id p = ar_id r) (positions (ab_portfolio db))"
      by (simp only: find_row_hd)
    then show ?thesis by (simp only: join_decision_def same_snapshots [OF snaps])
  qed
  then have "List.map_filter (join_decision db') (filter ?P (ab_decisions db)) =
      List.map_filter (join_decision db) (filter ?P (ab_decisions db))"
    by (rule map_filter_cong)
  then show ?thesis by (simp add: prior_rows_def Some same_snapshots [OF snaps] joined_rows_def rows)
qed

lemma existing_visible:
  assumes "same_past cfg tb s x db db'"
  shows "existing_decision db' (dp_id s) x = existing_decision db (dp_id s) x"
proof -
  have "filter (\<lambda>r. ar_snapshot r = dp_id s \<and> ar_experiment r = x) (ab_decisions db') =
      filter (\<lambda>r. ar_snapshot r = dp_id s \<and> ar_experiment r = x) (ab_decisions db)"
    by (rule filter_twice [where V = "visible_to db s x"])
      (use assms in \<open>simp_all add: same_past_def, simp add: visible_to_def\<close>)
  then show ?thesis by (simp add: existing_decision_def find_row_hd)
qed

text \<open>The identity of the account is not part of the bankroll an input shows.\<close>

lemma bankroll_shown:
  "bankroll_context cfg prior (Some (c\<lparr>cx_account_id := i\<rparr>)) = bankroll_context cfg prior (Some c)"
  by (simp add: bankroll_context_def context_payload_def equity_def)

lemma context_shown:
  assumes "same_past cfg tb s x db db'" and "decision_scope cfg tb db s = scope"
  shows "bankroll_context cfg prior (fst (portfolio_context_for cfg tb db' now scope x t)) =
    bankroll_context cfg prior (fst (portfolio_context_for cfg tb db now scope x t))"
proof (cases "ac_portfolio cfg = None \<or> scope = None")
  case False
  then obtain b sc where b: "ac_portfolio cfg = Some b" "scope = Some sc" by auto
  have "find_row (is_account (sc_event_id sc) x) (accounts (ab_portfolio db')) =
      find_row (is_account (sc_event_id sc) x) (accounts (ab_portfolio db))"
    using assms b by (simp add: same_past_def find_row_hd)
  then show ?thesis
    using bankroll_shown [where cfg = cfg and prior = prior and c = "portfolio_context_of (new_account (initial_bankroll b) (next_pf_id (ab_portfolio db)) (sc_event_id sc) x now)"
        and i = "next_pf_id (ab_portfolio db')"]
    by (simp add: portfolio_context_for_def b context_for_scope_def ensure_account_def Let_def portfolio_context_of_def new_account_def
        split: option.split)
qed (auto simp: portfolio_context_for_def split: option.split)

text \<open>C24. No look-ahead and no leak between experiments.  The input an experiment gets for a snapshot shows only
  its own earlier successful decisions on the same map, oldest first; and it is determined by them, by what
  became of their positions, and by its own account of the event: with the stored snapshots and the catalogue as
  they are, replacing all other decisions (of other experiments, maps, later or simultaneous snapshots, failed
  ones), all other accounts and positions, the whole ledger and the id counters by any others prepares the same
  input, with the same hash and the same bankroll.\<close>

theorem inputs_show_only_the_own_past:
  assumes "get_provider cfg provider model = Some p" and "provider_experiment p = x"
    and "ab_snapshots db' = ab_snapshots db"
    and "filter (visible_to db s x) (ab_decisions db') = filter (visible_to db s x) (ab_decisions db)"
    and "\<forall>r \<in> set (ab_decisions db). visible_to db s x r \<longrightarrow>
       filter (\<lambda>q. po_ai_decision_id q = ar_id r) (positions (ab_portfolio db')) =
       filter (\<lambda>q. po_ai_decision_id q = ar_id r) (positions (ab_portfolio db))"
    and "\<forall>sc. decision_scope cfg tb db s = Some sc \<longrightarrow>
       filter (\<lambda>a. pa_event_id a = sc_event_id sc \<and> pa_experiment a = x) (accounts (ab_portfolio db')) =
       filter (\<lambda>a. pa_event_id a = sc_event_id sc \<and> pa_experiment a = x) (accounts (ab_portfolio db))"
  shows "map_sum id fst (prepare env cfg tb db' clock s provider model e c) =
      map_sum id fst (prepare env cfg tb db clock s provider model e c) \<and>
    (let prior = prior_from_rows num (prior_rows db (snapshot_map db s) s x)
     in sorted (map pd_decision_at prior) \<and>
        (\<forall>d \<in> set prior. \<exists>r \<in> set (ab_decisions db). \<exists>s'. ar_experiment r = x \<and> ar_status r = ''SUCCESS'' \<and>
           snapshot_of db (ar_snapshot r) = Some s' \<and> dp_map s' = snapshot_map db s \<and> dp_map s' \<noteq> None \<and>
           pd_decision_at d = dp_decision_at s' \<and> dp_decision_at s' < dp_decision_at s \<and>
           Option.bind (ar_normalized r) (validate_decision num) = Some (pd_decision d)))"
proof -
  have past: "same_past cfg tb s x db db'"
    using assms(3-6) by (simp add: same_past_def is_account_def [abs_def])
  note views = prior_rows_visible [OF past] existing_visible [OF past] same_snapshots(4) [OF assms(3)]
  have shown: "prepared_of env cfg p s ex prior scope (fst (portfolio_context_for cfg tb db' now scope x t)) cl e c =
      prepared_of env cfg p s ex prior scope (fst (portfolio_context_for cfg tb db now scope x t)) cl e c"
    if "decision_scope cfg tb db s = scope" for ex prior scope now t cl
    unfolding prepared_of_def context_shown [OF past that] by (rule refl)
  have same: "map_sum id fst (prepare env cfg tb db' clock s provider model e c) =
      map_sum id fst (prepare env cfg tb db clock s provider model e c)"
    unfolding prepare_def assms(1,2) option.case Let_def views case_prod_beta map_sum.simps fst_conv shown [OF refl] by (rule refl)
  have "\<exists>r \<in> set (ab_decisions db). \<exists>s'. ar_experiment r = x \<and> ar_status r = ''SUCCESS'' \<and>
      snapshot_of db (ar_snapshot r) = Some s' \<and> dp_map s' = snapshot_map db s \<and> dp_map s' \<noteq> None \<and>
      pd_decision_at d = dp_decision_at s' \<and> dp_decision_at s' < dp_decision_at s \<and>
      Option.bind (ar_normalized r) (validate_decision num) = Some (pd_decision d)"
    if "d \<in> set (prior_from_rows num (prior_rows db (snapshot_map db s) s x))" for d
  proof -
    from that obtain row where row: "row \<in> set (prior_rows db (snapshot_map db s) s x)" "prior_of_row num row = Some d" by (rule prior_in)
    then obtain m where m: "snapshot_map db s = Some m" by (cases "snapshot_map db s") (simp_all add: prior_rows_def)
    then have row': "fst row \<in> set (ab_decisions db)" "decided_before db m (dp_decision_at s) (fst row)"
        "ar_experiment (fst row) = x" "join_decision db (fst row) = Some row"
      using row(1) by (auto simp: prior_rows_def dest: joined_rowsD)
    then obtain s' where s': "snapshot_of db (ar_snapshot (fst row)) = Some s'" "dp_map s' = Some m" "dp_decision_at s' < dp_decision_at s"
      by (auto simp: decided_before_def split: option.splits)
    have "fst (snd row) = dp_decision_at s'" using row'(4) s'(1) by (cases row) (auto simp: join_decision_def Let_def)
    then show ?thesis using prior_of_rowD [OF row(2)] row'(1-3) s' m
      by (intro bexI [of _ "fst row"] exI [of _ s']) (auto simp: decided_before_def)
  qed
  then show ?thesis using same by (simp add: Let_def prior_sorted)
qed

subsection \<open>One query for all providers\<close>

lemma prior_from_no_rows [simp]: "prior_from_rows num [] = []"
  by (simp add: prior_from_rows_def List.map_filter_simps)

lemma map_of_keys: "map_of (map (\<lambda>k. (k, f k)) ks) k = (if k \<in> set ks then Some (f k) else None)"
  by (induction ks) auto

lemma loaded_priors:
  assumes "p \<in> set providers"
  shows "(case map_of (load_prior_rows num db m s providers) (pv_name p, pv_model p, execution_config_version p) of
      None \<Rightarrow> [] | Some ds \<Rightarrow> ds) = prior_from_rows num (prior_rows db m s (provider_experiment p))"
proof (cases m)
  case None
  then show ?thesis by (simp add: load_prior_rows_def prior_rows_def)
next
  case (Some map_id)
  let ?k = "(pv_name p, pv_model p, execution_config_version p)"
  define Q where "Q = (\<lambda>r. decided_before db map_id (dp_decision_at s) r \<and>
      (case ar_experiment r of (n, mo, v, d, a, c) \<Rightarrow>
         n \<in> set (map pv_name providers) \<and> mo \<in> set (map pv_model providers) \<and> v = PROMPT_VERSION \<and>
         d = DECISION_POLICY_VERSION \<and> a = AI_VIEW_VERSION \<and> c \<in> set (map execution_config_version providers)))"
  define rows where "rows = joined_rows db Q"
  have ne: "providers \<noteq> []" using assms by auto
  have load: "load_prior_rows num db m s providers =
      map (\<lambda>k. (k, prior_from_rows num (filter (\<lambda>row. group_key (fst row) = k) rows)))
        (fromkeys (map (\<lambda>row. group_key (fst row)) rows))"
    by (simp add: load_prior_rows_def Some ne rows_def Q_def Let_def)
  have "filter (\<lambda>row. group_key (fst row) = ?k) rows = joined_rows db (\<lambda>r. Q r \<and> group_key r = ?k)"
    unfolding rows_def by (rule filter_joined)
  also have "\<dots> = prior_rows db m s (provider_experiment p)"
    unfolding prior_rows_def Some option.case
    by (rule joined_rows_cong)
      (use assms in \<open>auto simp: Q_def group_key_def provider_experiment_def ai_experiment_key_def ai_decision_lane_key_def\<close>)
  finally have mine: "filter (\<lambda>row. group_key (fst row) = ?k) rows = prior_rows db m s (provider_experiment p)" .
  show ?thesis
  proof (cases "?k \<in> (\<lambda>row. group_key (fst row)) ` set rows")
    case True
    then show ?thesis by (simp only: load map_of_keys set_fromkeys set_map if_True option.case mine)
  next
    case False
    then have "group_key (fst row) \<noteq> ?k" if "row \<in> set rows" for row using that by (metis imageI)
    then have "filter (\<lambda>row. group_key (fst row) = ?k) rows = []" by (rule filter_False [OF ballI])
    then have none: "prior_rows db m s (provider_experiment p) = []" using mine by simp
    show ?thesis unfolding load map_of_keys set_fromkeys set_map using False none by simp
  qed
qed

lemma latest_of_each:
  assumes "distinct (map ar_experiment rs)"
  shows "map_of (foldl (\<lambda>acc r. AList.update (ar_experiment r) r acc) acc rs) x =
    (case find_row (\<lambda>r. ar_experiment r = x) rs of None \<Rightarrow> map_of acc x | Some r \<Rightarrow> Some r)"
  using assms
proof (induction rs arbitrary: acc)
  case (Cons r rs)
  have "find_row (\<lambda>r'. ar_experiment r' = ar_experiment r) rs = None"
    using Cons.prems by (auto simp: find_row_None_iff image_iff)
  then show ?case using Cons by (auto simp: update_conv split: option.split)
qed simp

lemma find_row_filtered: "find_row P (filter Q xs) = find_row (\<lambda>x. Q x \<and> P x) xs"
  by (induction xs) auto

lemma existing_by_experiment:
  assumes "distinct (map decision_key (ab_decisions db))"
  shows "map_of (foldl (\<lambda>acc r. AList.update (ar_experiment r) r acc) [] (filter (\<lambda>r. ar_snapshot r = i) (ab_decisions db))) x =
    existing_decision db i x"
proof -
  have "distinct (map ar_experiment (filter (\<lambda>r. ar_snapshot r = i) (ab_decisions db)))"
    using assms by (auto simp: distinct_map inj_on_def decision_key_def distinct_filter)
  then show ?thesis by (simp add: latest_of_each existing_decision_def find_row_filtered split: option.split)
qed

text \<open>PREPARE provider by provider, each job after the other.\<close>

fun prepare_in_turn ::
  "ai_env \<Rightarrow> ai_config \<Rightarrow> lab_tables \<Rightarrow> ai_db \<Rightarrow> time \<times> time \<Rightarrow> decision_snapshot \<Rightarrow> time option \<Rightarrow> time option \<Rightarrow> ai_provider list \<Rightarrow>
   ai_error + (prepared_decision list \<times> ai_db)" where
  "prepare_in_turn env cfg tb db clock s e c [] = Inr ([], db)"
| "prepare_in_turn env cfg tb db clock s e c (p # ps) =
     (case prepare env cfg tb db clock s (pv_name p) (pv_model p) e c of
        Inl err \<Rightarrow> Inl err
      | Inr (pp, db1) \<Rightarrow>
          (case prepare_in_turn env cfg tb db1 clock s e c ps of
             Inl err \<Rightarrow> Inl err
           | Inr (pps, db2) \<Rightarrow> Inr (pp # pps, db2)))"

lemma same_views:
  assumes "ab_decisions db' = ab_decisions db" "ab_snapshots db' = ab_snapshots db"
    "positions (ab_portfolio db') = positions (ab_portfolio db)"
  shows "prior_rows db' (snapshot_map db' s) s x = prior_rows db (snapshot_map db s) s x"
    and "existing_decision db' i x = existing_decision db i x" and "decision_scope cfg tb db' s = decision_scope cfg tb db s"
proof -
  have snap: "snapshot_of db' = snapshot_of db" by (rule ext) (simp add: snapshot_of_def assms)
  moreover have "join_decision db' = join_decision db" by (rule ext) (simp add: join_decision_def snap assms split: option.split)
  moreover have "decided_before db' = decided_before db" by (intro ext) (simp add: decided_before_def snap)
  ultimately show "prior_rows db' (snapshot_map db' s) s x = prior_rows db (snapshot_map db s) s x"
    by (simp add: prior_rows_def snapshot_map_def joined_rows_def assms split: option.split)
  show "existing_decision db' i x = existing_decision db i x" by (simp add: existing_decision_def assms)
  show "decision_scope cfg tb db' s = decision_scope cfg tb db s" by (simp add: decision_scope_def lab_of_def assms)
qed

lemma prepared_in_turn:
  assumes "bets_inv db" "\<forall>b. ac_portfolio cfg = Some b \<longrightarrow> 0 \<le> b"
    "\<forall>p \<in> set ps. get_provider cfg (pv_name p) (pv_model p) = Some p \<and>
       map_of existing (provider_experiment p) = existing_decision db (dp_id s) (provider_experiment p) \<and>
       (case map_of priors (pv_name p, pv_model p, execution_config_version p) of None \<Rightarrow> [] | Some ds \<Rightarrow> ds) =
       prior_from_rows (en_num env) (prior_rows db (snapshot_map db s) s (provider_experiment p))"
  shows "prepare_in_turn env cfg tb db clock s e c ps =
    Inr (prepare_each env cfg tb db clock s existing priors (decision_scope cfg tb db s) e c ps)"
  using assms
proof (induction ps arbitrary: db)
  case (Cons p ps)
  let ?x = "provider_experiment p"
  obtain ctx db1 where one: "portfolio_context_for cfg tb db (fst clock) (decision_scope cfg tb db s) ?x (dp_decision_at s) = (ctx, db1)"
    by (cases "portfolio_context_for cfg tb db (fst clock) (decision_scope cfg tb db s) ?x (dp_decision_at s)")
  note f = prepare_frame [OF Cons.prems(1,2) one]
  note same = same_views [of db1 db]
  have ih: "prepare_in_turn env cfg tb db1 clock s e c ps =
      Inr (prepare_each env cfg tb db1 clock s existing priors (decision_scope cfg tb db1 s) e c ps)"
    by (rule Cons.IH) (use f Cons.prems(2,3) same in auto)
  have mine: "get_provider cfg (pv_name p) (pv_model p) = Some p"
      "map_of existing ?x = existing_decision db (dp_id s) ?x"
      "(case map_of priors (pv_name p, pv_model p, execution_config_version p) of None \<Rightarrow> [] | Some ds \<Rightarrow> ds) =
       prior_from_rows (en_num env) (prior_rows db (snapshot_map db s) s ?x)"
    using Cons.prems(3) by simp_all
  have scope: "decision_scope cfg tb db1 s = decision_scope cfg tb db s" using f same(3) by simp
  obtain rest db2 where two: "prepare_each env cfg tb db1 clock s existing priors (decision_scope cfg tb db s) e c ps = (rest, db2)"
    by (cases "prepare_each env cfg tb db1 clock s existing priors (decision_scope cfg tb db s) e c ps")
  show ?case by (simp only: prepare_in_turn.simps prepare_each.simps prepare_def Let_def mine option.case one prod.case sum.case ih scope two)
qed simp

text \<open>C25. The batch path is the job path.  In every reachable state, preparing all configured providers with one
  history query and one scope gives exactly what preparing them one job after the other gives: the same inputs,
  hashes, bankrolls and existing records, and the same accounts funded.\<close>

theorem batch_prepares_like_the_jobs:
  assumes "ai_steps env cfg empty_decisions db" and "\<forall>b. ac_portfolio cfg = Some b \<longrightarrow> 0 \<le> b"
    and "distinct (map (\<lambda>p. (pv_name p, pv_model p)) (ac_providers cfg))"
  shows "prepare_in_turn env cfg tb db clock s e c (ac_providers cfg) = Inr (prepare_all env cfg tb db clock s e c)"
proof (cases "ac_providers cfg = []")
  case True
  then show ?thesis by (simp add: prepare_all_def)
next
  case False
  have ok: "decisions_inv db" "bets_inv db"
    using ai_steps_ok [OF assms(1) empty_decisions_ok assms(2)] by (simp_all add: ai_ok_def)
  have key: "distinct (map decision_key (ab_decisions db))" using ok(1) by (simp add: decisions_inv_def)
  have "get_provider cfg (pv_name p) (pv_model p) = Some p" if "p \<in> set (ac_providers cfg)" for p
    unfolding get_provider_def by (rule find_row_unique [OF assms(3) that]) auto
  then show ?thesis
    by (simp only: prepare_all_def False if_False Let_def)
      (rule prepared_in_turn [OF ok(2) assms(2)], intro ballI, simp only: existing_by_experiment [OF key] loaded_priors simp_thms)
qed

subsection \<open>On the sample run\<close>

lemma demo_provider_found: "get_provider demo_cfg ''openai'' ''m'' = Some demo_provider"
  by (simp add: get_provider_def demo_cfg_def demo_provider_def)

definition demo_stranger :: experiment_key where
  "demo_stranger = ([], [], [], [], [], [])"

definition demo_crowded :: ai_db where
  "demo_crowded = demo_lab\<lparr>
     ab_decisions := ab_decisions demo_lab @ [demo_record\<lparr>ar_snapshot := 2, ar_status := ''FAILED'', ar_experiment := demo_stranger\<rparr>],
     ab_portfolio := (ab_portfolio demo_lab)\<lparr>
       accounts := new_account 7 50 1 demo_stranger 3 # accounts (ab_portfolio demo_lab), entries := [], next_pf_id := 51\<rparr>\<rparr>"

theorem inputs_show_only_the_own_past_witness:
  "map_sum id fst (prepare demo_env demo_cfg demo_tables demo_crowded (91, 92) (demo_snapshot_at 2 90) ''openai'' ''m'' None None) =
     map_sum id fst (prepare demo_env demo_cfg demo_tables demo_lab (91, 92) (demo_snapshot_at 2 90) ''openai'' ''m'' None None)"
proof -
  have own: "provider_experiment demo_provider \<noteq> demo_stranger"
    by (simp add: provider_experiment_def ai_experiment_key_def ai_decision_lane_key_def demo_provider_def demo_stranger_def)
  show ?thesis
    by (rule inputs_show_only_the_own_past [THEN conjunct1, OF demo_provider_found refl])
      (use own in \<open>auto simp: demo_crowded_def visible_to_def new_account_def\<close>)
qed

theorem batch_prepares_like_the_jobs_witness:
  "prepare_in_turn demo_env demo_cfg demo_tables demo_lab (91, 92) (demo_snapshot_at 2 90) None None [demo_provider] =
     Inr (prepare_all demo_env demo_cfg demo_tables demo_lab (91, 92) (demo_snapshot_at 2 90) None None)"
  using batch_prepares_like_the_jobs [OF demo_lab_reachable, of demo_tables "(91, 92)" "demo_snapshot_at 2 90" None None]
  by (simp add: demo_cfg_def)

end
