(* ===== verification/FutureOdds.thy ===== *)
theory FutureOdds
  imports Coordinator Market Events
begin

text \<open>
  \<open>FutureOddsService\<close> of \<open>app/evaluation/future_odds.py\<close>: the jobs that capture the market at fixed horizons after a
  decision, and the captures themselves, at a horizon or at the end of the map.  The quality document of a capture
  is the record \<open>market_pair_quality\<close>, or \<open>None\<close> for the document of an invalid identity.
\<close>

subsection \<open>State\<close>

datatype capture_type = TIME_HORIZON | CLOSING

fun capture_type_value :: "capture_type \<Rightarrow> string" where
  "capture_type_value TIME_HORIZON = ''TIME_HORIZON''"
| "capture_type_value CLOSING = ''CLOSING''"

record future_odds =
  fo_id :: uuid
  fo_snapshot :: uuid
  fo_type :: capture_type
  fo_horizon :: "int option"
  fo_due :: time
  fo_triggered :: time
  fo_observed :: time
  fo_odds_a :: "rat option"
  fo_odds_b :: "rat option"
  fo_market_type :: "string option"
  fo_match_stage :: "string option"
  fo_market_status :: "string option"
  fo_policy :: string
  fo_quality :: "market_pair_quality option"
  fo_skew :: "rat option"
  fo_status :: string

record odds_config =
  oc_max_age :: rat
  oc_max_skew :: rat

datatype odds_error = OddsSnapshotMissing | OddsPayloadInvalid | DuplicateCapture | HorizonNotPositive | OddsJobRefused job_error | OddsJobInvalid

definition CLOSING_POLICY_VERSION :: string where
  "CLOSING_POLICY_VERSION = ''closing-policy-v1''"

subsection \<open>Scheduling\<close>

text \<open>\<open>schedule\<close> enqueues one job per horizon; a horizon that is not positive raises, and the jobs already
  enqueued are lost with the transaction.\<close>

definition horizon_payload :: "uuid \<Rightarrow> int \<Rightarrow> time \<Rightarrow> json" where
  "horizon_payload snapshot_id horizon due =
     JObj [(''snapshot_id'', JStr (str_uuid snapshot_id)), (''capture_type'', JStr (capture_type_value TIME_HORIZON)),
           (''horizon_seconds'', JInt horizon), (''due_at'', JStr (isoformat due))]"

definition horizon_key :: "uuid \<Rightarrow> int \<Rightarrow> string" where
  "horizon_key snapshot_id horizon = ''future-odds:'' @ str_uuid snapshot_id @ '':'' @ str_int horizon"

fun schedule_from :: "bool \<Rightarrow> job_db \<Rightarrow> time \<Rightarrow> uuid \<Rightarrow> time \<Rightarrow> int list \<Rightarrow> nat \<Rightarrow> odds_error + (nat \<times> job_db)" where
  "schedule_from pg jdb now snapshot_id decision_at [] scheduled = Inr (scheduled, jdb)"
| "schedule_from pg jdb now snapshot_id decision_at (h # hs) scheduled =
     (if h \<le> 0 then Inl HorizonNotPositive
      else (let due = decision_at + micros h
            in case enqueue pg jdb now CAPTURE_FUTURE_ODDS (horizon_key snapshot_id h) (horizon_payload snapshot_id h due) 100
                      (Some due) 8 False 3 of
                 Inl e \<Rightarrow> Inl (OddsJobRefused e)
               | Inr (i, jdb') \<Rightarrow> schedule_from pg jdb' now snapshot_id decision_at hs (Suc scheduled)))"

definition schedule :: "bool \<Rightarrow> job_db \<Rightarrow> time \<Rightarrow> uuid \<Rightarrow> time \<Rightarrow> int list \<Rightarrow> odds_error + (nat \<times> job_db)" where
  "schedule pg jdb now snapshot_id decision_at horizons = schedule_from pg jdb now snapshot_id decision_at horizons 0"

subsection \<open>Reading a stored snapshot\<close>

text \<open>\<open>payload.get(key, default)\<close>.\<close>

definition json_get_or :: "(string \<times> json) list \<Rightarrow> string \<Rightarrow> json \<Rightarrow> json" where
  "json_get_or fs key d = (case map_of fs key of None \<Rightarrow> d | Some v \<Rightarrow> v)"

text \<open>The values a loop over a JSON value meets: items, characters or keys; other values cannot be iterated.\<close>

definition json_iter :: "json \<Rightarrow> json list option" where
  "json_iter v = (case v of JList xs \<Rightarrow> Some xs | JStr s \<Rightarrow> Some (map (\<lambda>c. JStr [c]) s)
                  | JObj fs \<Rightarrow> Some (map (\<lambda>(k, w). JStr k) fs) | _ \<Rightarrow> None)"

text \<open>The listings of a snapshot's observations; a value that is not an integer is skipped when they are read.\<close>

definition odds_ids_of :: "json list \<Rightarrow> json list" where
  "odds_ids_of items = List.map_filter (\<lambda>v. map_option (\<lambda>fs. json_get fs ''odds_id'') (obj_fields v)) items"

definition json_int :: "json \<Rightarrow> int option" where
  "json_int v = (case v of JInt i \<Rightarrow> Some i | JBool b \<Rightarrow> Some (if b then 1 else 0) | _ \<Rightarrow> None)"

definition json_equals_int :: "int \<Rightarrow> json \<Rightarrow> bool" where
  "json_equals_int i v \<longleftrightarrow> (case v of JNum r \<Rightarrow> r = of_int i | _ \<Rightarrow> json_int v = Some i)"

fun index_of :: "int \<Rightarrow> json list \<Rightarrow> nat" where
  "index_of i [] = 0"
| "index_of i (v # vs) = (if json_equals_int i v then 0 else Suc (index_of i vs))"

definition sort_by_listing :: "json list \<Rightarrow> odds_row list \<Rightarrow> odds_row list" where
  "sort_by_listing ids rows = sort_key (\<lambda>r. index_of (or_odds_id r) ids) rows"

definition json_text :: "json \<Rightarrow> string option" where
  "json_text v = (case v of JStr s \<Rightarrow> Some s | _ \<Rightarrow> None)"

text \<open>A column compared with a JSON value; SQLAlchemy renders a comparison with \<open>None\<close> as \<open>IS NULL\<close>.\<close>

definition matches_text :: "string option \<Rightarrow> json \<Rightarrow> bool" where
  "matches_text column v \<longleftrightarrow> (case v of JNull \<Rightarrow> column = None | JStr s \<Rightarrow> column = Some s | _ \<Rightarrow> False)"

text \<open>\<open>_market_value\<close>: \<open>None\<close> outside when the market of the payload has no \<open>get\<close>.\<close>

definition market_value :: "(string \<times> json) list \<Rightarrow> string \<Rightarrow> string option option" where
  "market_value payload field =
     map_option (\<lambda>m. json_text (json_get m field)) (obj_fields (json_get_or payload ''market'' (JObj [])))"

text \<open>The identity of a pair, from \<open>payload["identity"]\<close>; any missing or malformed part gives \<open>None\<close>.  An identifier is
  stored as the text of a UUID.\<close>

definition uuid_of_json :: "json \<Rightarrow> uuid option" where
  "uuid_of_json v = Option.bind (json_text v) parse_uuid"

definition pair_identity :: "(string \<times> json) list \<Rightarrow> (uuid \<times> uuid option \<times> uuid \<times> uuid) option" where
  "pair_identity payload =
     (case obj_fields (json_get_or payload ''identity'' (JObj [])) of
        None \<Rightarrow> None
      | Some fs \<Rightarrow>
          (case (uuid_of_json (json_get fs ''series_id''),
                 if json_truthy (json_get fs ''map_id'') then map_option Some (uuid_of_json (json_get fs ''map_id'')) else Some None,
                 uuid_of_json (opt_field (obj_fields (json_get fs ''team_a'')) ''id''),
                 uuid_of_json (opt_field (obj_fields (json_get fs ''team_b'')) ''id'')) of
             (Some s, Some m, Some a, Some b) \<Rightarrow> Some (s, m, a, b)
           | _ \<Rightarrow> None))"

definition closing_pair_quality ::
  "odds_config \<Rightarrow> (string \<times> json) list \<Rightarrow> odds_row list \<Rightarrow> time \<Rightarrow> market_pair_quality option" where
  "closing_pair_quality cfg payload captured triggered_at =
     map_option (\<lambda>(s, m, a, b). evaluate_market_pair (map leg_of_row captured) s m {a, b} triggered_at (oc_max_age cfg) (oc_max_skew cfg))
       (pair_identity payload)"

subsection \<open>The stored market\<close>

text \<open>The market section of a snapshot as the document the builder stores.  \<open>text\<close> prints decimals, instants and
  the quality.\<close>

record document_text =
  tx_decimal :: "rat \<Rightarrow> string"
  tx_instant :: "time \<Rightarrow> string"
  tx_quality :: "market_pair_quality \<Rightarrow> json"

definition opt_json :: "('a \<Rightarrow> json) \<Rightarrow> 'a option \<Rightarrow> json" where
  "opt_json f v = (case v of None \<Rightarrow> JNull | Some x \<Rightarrow> f x)"

definition observation_document :: "document_text \<Rightarrow> market_observation \<Rightarrow> json" where
  "observation_document txt m =
     (let r = mo_row m
      in JObj [(''odds_id'', JInt (or_odds_id r)),
               (''selection_team_id'', opt_json (\<lambda>t. JStr (str_uuid t)) (or_selection r)),
               (''price'', JStr (tx_decimal txt (or_price r))), (''implied_probability'', JNum (or_implied_probability r)),
               (''fair_probability'', opt_json JNum (mo_fair_probability m)), (''raw_status'', opt_json JInt (or_raw_status r)),
               (''normalized_status'', opt_json JStr (or_normalized_status r)),
               (''metadata_version'', opt_json JStr (or_metadata_version r)),
               (''provider_updated_at'', opt_json (\<lambda>t. JStr (tx_instant txt t)) (or_provider_updated_at r)),
               (''received_at'', JStr (tx_instant txt (or_received_at r)))])"

definition market_document :: "document_text \<Rightarrow> market_section \<Rightarrow> json" where
  "market_document txt m =
     JObj [(''provider'', JStr ''raybet''), (''provider_match_id'', JInt (ms_provider_match_id m)),
           (''market_type'', opt_json JStr (ms_market_type m)), (''match_stage'', opt_json JStr (ms_match_stage m)),
           (''overround'', opt_json JNum (ms_overround m)), (''quality'', tx_quality txt (ms_quality m)),
           (''observations'', JList (map (observation_document txt) (ms_observations m)))]"

subsection \<open>Capturing\<close>

record capture_db =
  cd_captures :: "future_odds list"
  cd_next :: uuid

definition pair_complete :: "market_pair_quality option \<Rightarrow> bool" where
  "pair_complete quality \<longleftrightarrow> (case quality of None \<Rightarrow> False | Some q \<Rightarrow> mq_eligible q)"

text \<open>The values of a capture, from the rows found, ordered like the listings, and their quality.\<close>

definition capture_of ::
  "odds_row list \<Rightarrow> market_pair_quality option \<Rightarrow> time \<Rightarrow> time \<Rightarrow> string option \<Rightarrow> string option \<Rightarrow> string \<Rightarrow> future_odds \<Rightarrow> future_odds" where
  "capture_of captured quality triggered_at otherwise market_type match_stage policy r =
     (let complete = pair_complete quality; first = captured ! 0; second = captured ! 1
      in r\<lparr>fo_triggered := triggered_at,
           fo_observed := (if complete then Max (or_received_at ` set captured) else otherwise),
           fo_odds_a := (if complete then Some (or_price first) else None),
           fo_odds_b := (if complete then Some (or_price second) else None),
           fo_market_type := market_type, fo_match_stage := match_stage,
           fo_market_status := (if complete \<and> or_normalized_status first = or_normalized_status second
                                then or_normalized_status first else Some ''UNKNOWN''),
           fo_policy := policy, fo_quality := quality,
           fo_skew := Option.bind quality mq_pair_skew_seconds,
           fo_status := (if complete then ''CAPTURED'' else ''MISSING'')\<rparr>)"

text \<open>An existing row takes the values; a new one must not repeat snapshot, type and due time
  (\<open>uq_future_odds_capture\<close>).\<close>

definition new_capture :: "uuid \<Rightarrow> uuid \<Rightarrow> capture_type \<Rightarrow> int option \<Rightarrow> time \<Rightarrow> future_odds" where
  "new_capture i snapshot_id ty horizon due =
     \<lparr>fo_id = i, fo_snapshot = snapshot_id, fo_type = ty, fo_horizon = horizon, fo_due = due, fo_triggered = due, fo_observed = due,
      fo_odds_a = None, fo_odds_b = None, fo_market_type = None, fo_match_stage = None, fo_market_status = None, fo_policy = [],
      fo_quality = None, fo_skew = None, fo_status = ''MISSING''\<rparr>"

definition save_capture ::
  "capture_db \<Rightarrow> future_odds option \<Rightarrow> uuid \<Rightarrow> capture_type \<Rightarrow> int option \<Rightarrow> time \<Rightarrow> (future_odds \<Rightarrow> future_odds) \<Rightarrow>
   odds_error + (future_odds \<times> capture_db)" where
  "save_capture db existing snapshot_id ty horizon due values =
     (case existing of
        Some e \<Rightarrow> Inr (values e, db\<lparr>cd_captures := update_first (\<lambda>r. fo_id r = fo_id e) values (cd_captures db)\<rparr>)
      | None \<Rightarrow>
          if find_row (\<lambda>r. fo_snapshot r = snapshot_id \<and> fo_type r = ty \<and> fo_due r = due) (cd_captures db) \<noteq> None
          then Inl DuplicateCapture
          else (let r = values (new_capture (cd_next db) snapshot_id ty horizon due)
                in Inr (r, db\<lparr>cd_captures := cd_captures db @ [r], cd_next := Suc (cd_next db)\<rparr>)))"

definition first_row_between :: "odds_row list \<Rightarrow> time \<Rightarrow> time \<Rightarrow> int \<Rightarrow> odds_row option" where
  "first_row_between rows due observed_at i =
     py_min or_received_at (filter (\<lambda>r. or_odds_id r = i \<and> due \<le> or_received_at r \<and> or_received_at r \<le> observed_at) rows)"

definition listed_rows :: "(int \<Rightarrow> odds_row option) \<Rightarrow> json list \<Rightarrow> odds_row list" where
  "listed_rows lookup ids = sort_by_listing ids (List.map_filter (\<lambda>v. Option.bind (json_int v) lookup) ids)"

definition same_horizon :: "uuid \<Rightarrow> int \<Rightarrow> time \<Rightarrow> future_odds \<Rightarrow> bool" where
  "same_horizon snapshot_id horizon due r \<longleftrightarrow>
     fo_snapshot r = snapshot_id \<and> fo_type r = TIME_HORIZON \<and> fo_horizon r = Some horizon \<and> fo_due r = due"

definition capture_again ::
  "odds_config \<Rightarrow> odds_row list \<Rightarrow> (uuid \<Rightarrow> decision_snapshot option) \<Rightarrow> capture_db \<Rightarrow> uuid \<Rightarrow> int \<Rightarrow> time \<Rightarrow> time \<Rightarrow>
   future_odds option \<Rightarrow> odds_error + (future_odds \<times> capture_db)" where
  "capture_again cfg rows snapshots db snapshot_id horizon due observed_at existing =
     (case snapshots snapshot_id of
        None \<Rightarrow> Inl OddsSnapshotMissing
      | Some s \<Rightarrow>
          (case Option.bind (obj_fields (json_get_or (dp_payload s) ''market'' (JObj [])))
                  (\<lambda>m. json_iter (json_get_or m ''observations'' (JList []))) of
             None \<Rightarrow> Inl OddsPayloadInvalid
           | Some items \<Rightarrow>
               (let captured = listed_rows (first_row_between rows due observed_at) (odds_ids_of items);
                    reference = (if captured = [] then observed_at else Max (or_received_at ` set captured));
                    quality = closing_pair_quality cfg (dp_payload s) captured reference;
                    value = (\<lambda>field. Option.bind (market_value (dp_payload s) field) id)
                in save_capture db existing snapshot_id TIME_HORIZON (Some horizon) due
                     (capture_of captured quality due observed_at (value ''market_type'') (value ''match_stage'')
                        ''time-horizon-v2-pair-validated''))))"

definition capture ::
  "odds_config \<Rightarrow> odds_row list \<Rightarrow> (uuid \<Rightarrow> decision_snapshot option) \<Rightarrow> capture_db \<Rightarrow> uuid \<Rightarrow> int \<Rightarrow> time \<Rightarrow> time \<Rightarrow>
   odds_error + (future_odds \<times> capture_db)" where
  "capture cfg rows snapshots db snapshot_id horizon due observed_at =
     (let existing = find_row (same_horizon snapshot_id horizon due) (cd_captures db)
      in case existing of
           Some e \<Rightarrow> if fo_status e = ''CAPTURED'' then Inr (e, db) else capture_again cfg rows snapshots db snapshot_id horizon due observed_at existing
         | None \<Rightarrow> capture_again cfg rows snapshots db snapshot_id horizon due observed_at existing)"

text \<open>The closing capture reads the last row of each listing at or before the end of the map, of the same match and
  market; a market that is not an object has no listings.\<close>

definition last_row_before :: "odds_row list \<Rightarrow> time \<Rightarrow> json \<Rightarrow> json \<Rightarrow> json \<Rightarrow> int \<Rightarrow> odds_row option" where
  "last_row_before rows triggered_at match market_type match_stage i =
     newest or_received_at (\<lambda>r. or_odds_id r = i \<and> json_equals_int (or_provider_match_id r) match \<and>
        matches_text (or_market_type r) market_type \<and> matches_text (or_match_stage r) match_stage \<and>
        or_received_at r \<le> triggered_at) rows"

definition capture_closing_again ::
  "odds_config \<Rightarrow> odds_row list \<Rightarrow> (uuid \<Rightarrow> decision_snapshot option) \<Rightarrow> capture_db \<Rightarrow> uuid \<Rightarrow> time \<Rightarrow>
   future_odds option \<Rightarrow> odds_error + (future_odds \<times> capture_db)" where
  "capture_closing_again cfg rows snapshots db snapshot_id triggered_at existing =
     (case snapshots snapshot_id of
        None \<Rightarrow> Inl OddsSnapshotMissing
      | Some s \<Rightarrow>
          (let market = obj_fields (json_get_or (dp_payload s) ''market'' (JObj []))
           in case (case market of None \<Rightarrow> Some [] | Some m \<Rightarrow> json_iter (json_get_or m ''observations'' (JList []))) of
                None \<Rightarrow> Inl OddsPayloadInvalid
              | Some items \<Rightarrow>
                  (let value = opt_field market;
                       captured = listed_rows (last_row_before rows triggered_at (value ''provider_match_id'') (value ''market_type'')
                                    (value ''match_stage'')) (odds_ids_of items);
                       quality = closing_pair_quality cfg (dp_payload s) captured triggered_at
                   in save_capture db existing snapshot_id CLOSING None triggered_at
                        (capture_of captured quality triggered_at triggered_at (json_text (value ''market_type''))
                           (json_text (value ''match_stage'')) CLOSING_POLICY_VERSION))))"

definition same_closing :: "uuid \<Rightarrow> future_odds \<Rightarrow> bool" where
  "same_closing snapshot_id r \<longleftrightarrow> fo_snapshot r = snapshot_id \<and> fo_type r = CLOSING"

definition capture_closing ::
  "odds_config \<Rightarrow> odds_row list \<Rightarrow> (uuid \<Rightarrow> decision_snapshot option) \<Rightarrow> capture_db \<Rightarrow> uuid \<Rightarrow> time \<Rightarrow>
   odds_error + (future_odds \<times> capture_db)" where
  "capture_closing cfg rows snapshots db snapshot_id triggered_at =
     (let existing = find_row (same_closing snapshot_id) (cd_captures db)
      in case existing of
           Some e \<Rightarrow> if fo_status e = ''CAPTURED'' then Inr (e, db)
                     else capture_closing_again cfg rows snapshots db snapshot_id triggered_at existing
         | None \<Rightarrow> capture_closing_again cfg rows snapshots db snapshot_id triggered_at existing)"

subsection \<open>The job\<close>

text \<open>The fields of a job payload: an identifier, an integer, a non-empty text, an instant.  A field that is not
  one raises.\<close>

definition payload_int :: "(string \<times> json) list \<Rightarrow> string \<Rightarrow> int option" where
  "payload_int fs key = optional_int (json_get fs key)"

definition payload_str :: "(string \<times> json) list \<Rightarrow> string \<Rightarrow> string option" where
  "payload_str fs key = (case json_get fs key of JStr s \<Rightarrow> if s \<noteq> [] then Some s else None | _ \<Rightarrow> None)"

definition payload_instant :: "(string \<Rightarrow> py_datetime option) \<Rightarrow> (string \<times> json) list \<Rightarrow> string \<Rightarrow> time option" where
  "payload_instant from_iso fs key = (case json_get fs key of JStr s \<Rightarrow> map_option ensure_utc (from_iso s) | _ \<Rightarrow> None)"

definition demanded :: "'a option \<Rightarrow> ('a \<Rightarrow> odds_error + 'b) \<Rightarrow> odds_error + 'b" where
  "demanded v k = (case v of None \<Rightarrow> Inl OddsJobInvalid | Some x \<Rightarrow> k x)"

definition capture_future_odds ::
  "odds_config \<Rightarrow> (string \<Rightarrow> py_datetime option) \<Rightarrow> odds_row list \<Rightarrow> (uuid \<Rightarrow> decision_snapshot option) \<Rightarrow> capture_db \<Rightarrow>
   (string \<times> json) list \<Rightarrow> time \<Rightarrow> odds_error + (future_odds \<times> capture_db)" where
  "capture_future_odds cfg from_iso rows snapshots db payload now =
     demanded (payload_uuid payload ''snapshot_id'') (\<lambda>snapshot_id.
     demanded (payload_str payload ''capture_type'') (\<lambda>ty.
       if ty = capture_type_value TIME_HORIZON
       then demanded (payload_int payload ''horizon_seconds'') (\<lambda>horizon.
            demanded (payload_instant from_iso payload ''due_at'') (\<lambda>due.
              capture cfg rows snapshots db snapshot_id horizon due now))
       else if ty = capture_type_value CLOSING
       then demanded (payload_instant from_iso payload ''triggered_at'') (\<lambda>triggered_at.
              capture_closing cfg rows snapshots db snapshot_id triggered_at)
       else Inl OddsJobInvalid))"

end
