(* ===== verification/CaptureProperties.thy ===== *)
theory CaptureProperties
  imports FutureOdds MarketProperties
begin

text \<open>
  Properties of the odds captured after a decision: where the two prices come from, that a captured row is final,
  and that the first price is the one of Team A.
\<close>

subsection \<open>The rows behind a capture\<close>

lemma in_listed_rows: "r \<in> set (listed_rows f ids) \<Longrightarrow> \<exists>v \<in> set ids. \<exists>i. json_int v = Some i \<and> f i = Some r"
  by (force simp: listed_rows_def sort_by_listing_def List.map_filter_def bind_eq_Some_conv)

lemma complete_pair:
  assumes "pair_complete (closing_pair_quality cfg payload captured t)"
  obtains s m ta tb a b where "pair_identity payload = Some (s, m, ta, tb)" "captured = [a, b]"
    "pair_ok (leg_of_row a) (leg_of_row b) s m {ta, tb} t (oc_max_age cfg) (oc_max_skew cfg)"
proof -
  obtain s m ta tb where ident: "pair_identity payload = Some (s, m, ta, tb)"
    and el: "mq_eligible (evaluate_market_pair (map leg_of_row captured) s m {ta, tb} t (oc_max_age cfg) (oc_max_skew cfg))"
    using assms by (auto simp: pair_complete_def closing_pair_quality_def split: option.splits)
  obtain a b where ab: "captured = [a, b]" using eligible_two [OF el] by (auto simp: map_eq_Cons_conv)
  have "pair_ok (leg_of_row a) (leg_of_row b) s m {ta, tb} t (oc_max_age cfg) (oc_max_skew cfg)"
    using el unfolding ab list.map eligible_pair .
  then show ?thesis by (rule that [OF ident ab])
qed

definition reference_time :: "future_odds \<Rightarrow> time" where
  "reference_time r = (if fo_type r = TIME_HORIZON then fo_observed r else fo_triggered r)"

text \<open>The listings a snapshot names, and that two rows belong to them in this order.\<close>

definition listings_of :: "(string \<times> json) list \<Rightarrow> json list" where
  "listings_of payload =
     (case Option.bind (obj_fields (json_get_or payload ''market'' (JObj [])))
             (\<lambda>m. json_iter (json_get_or m ''observations'' (JList []))) of
        None \<Rightarrow> [] | Some items \<Rightarrow> odds_ids_of items)"

definition listed_in_order :: "json list \<Rightarrow> odds_row \<Rightarrow> odds_row \<Rightarrow> bool" where
  "listed_in_order ids a b \<longleftrightarrow>
     Some (or_odds_id a) \<in> json_int ` set ids \<and> Some (or_odds_id b) \<in> json_int ` set ids \<and>
     index_of (or_odds_id a) ids \<le> index_of (or_odds_id b) ids"

text \<open>A captured row stands for two rows of the table that are a tradable pair of the snapshot's market.\<close>

definition captured_pair ::
  "odds_config \<Rightarrow> (uuid \<Rightarrow> decision_snapshot option) \<Rightarrow> future_odds \<Rightarrow> odds_row \<Rightarrow> odds_row \<Rightarrow> bool" where
  "captured_pair cfg snapshots r a b \<longleftrightarrow>
     fo_odds_a r = Some (or_price a) \<and> fo_odds_b r = Some (or_price b) \<and>
     fo_observed r = max (or_received_at a) (or_received_at b) \<and>
     (\<exists>s. snapshots (fo_snapshot r) = Some s \<and> listed_in_order (listings_of (dp_payload s)) a b) \<and>
     (fo_type r = TIME_HORIZON \<longrightarrow> fo_due r \<le> or_received_at a \<and> fo_due r \<le> or_received_at b) \<and>
     (\<exists>s sid m ta tb. snapshots (fo_snapshot r) = Some s \<and> pair_identity (dp_payload s) = Some (sid, m, ta, tb) \<and>
        pair_ok (leg_of_row a) (leg_of_row b) sid m {ta, tb} (reference_time r) (oc_max_age cfg) (oc_max_skew cfg))"

definition capture_ok ::
  "odds_config \<Rightarrow> odds_row list \<Rightarrow> (uuid \<Rightarrow> decision_snapshot option) \<Rightarrow> future_odds \<Rightarrow> bool" where
  "capture_ok cfg rows snapshots r \<longleftrightarrow>
     (fo_status r = ''MISSING'' \<and> fo_odds_a r = None \<and> fo_odds_b r = None) \<or>
     (fo_status r = ''CAPTURED'' \<and> (\<exists>a \<in> set rows. \<exists>b \<in> set rows. captured_pair cfg snapshots r a b))"

lemma capture_of_frame [simp]:
  "fo_id (capture_of rs q t t' ty st p r) = fo_id r" "fo_snapshot (capture_of rs q t t' ty st p r) = fo_snapshot r"
  "fo_type (capture_of rs q t t' ty st p r) = fo_type r" "fo_horizon (capture_of rs q t t' ty st p r) = fo_horizon r"
  "fo_due (capture_of rs q t t' ty st p r) = fo_due r" "fo_triggered (capture_of rs q t t' ty st p r) = t"
  by (simp_all add: capture_of_def Let_def)

lemma capture_of_incomplete:
  assumes "\<not> pair_complete q"
  shows "capture_ok cfg rows snapshots (capture_of rs q t t' ty st p r)"
  using assms by (simp add: capture_ok_def capture_of_def)

lemma capture_of_pair:
  assumes "pair_complete q"
  shows "fo_status (capture_of [a, b] q t t' ty st p r) = ''CAPTURED''" "fo_odds_a (capture_of [a, b] q t t' ty st p r) = Some (or_price a)"
    "fo_odds_b (capture_of [a, b] q t t' ty st p r) = Some (or_price b)"
    "fo_observed (capture_of [a, b] q t t' ty st p r) = max (or_received_at a) (or_received_at b)"
  using assms by (simp_all add: capture_of_def Let_def)

lemma first_row_betweenD:
  "first_row_between rows due t i = Some r \<Longrightarrow> r \<in> set rows \<and> or_odds_id r = i \<and> due \<le> or_received_at r \<and> or_received_at r \<le> t"
  by (auto simp: first_row_between_def dest: py_min_in)

lemma last_row_beforeD:
  "last_row_before rows t mt ty st i = Some r \<Longrightarrow> r \<in> set rows \<and> or_odds_id r = i \<and> or_received_at r \<le> t"
  by (auto simp: last_row_before_def newest_def dest: py_max_in)

lemma listed_between:
  "r \<in> set (listed_rows (first_row_between rows due t) ids) \<Longrightarrow> r \<in> set rows \<and> due \<le> or_received_at r \<and> or_received_at r \<le> t"
  by (auto dest!: in_listed_rows first_row_betweenD)

lemma listed_before:
  "r \<in> set (listed_rows (last_row_before rows t mt ty st) ids) \<Longrightarrow> r \<in> set rows \<and> or_received_at r \<le> t"
  by (auto dest!: in_listed_rows last_row_beforeD)

lemma listed_pair_in_order:
  assumes "listed_rows f ids = [a, b]" and "\<And>i x. f i = Some x \<Longrightarrow> or_odds_id x = i"
  shows "listed_in_order ids a b"
proof -
  have "sorted (map (\<lambda>r. index_of (or_odds_id r) ids) (listed_rows f ids))"
    unfolding listed_rows_def sort_by_listing_def by (rule sorted_sort_key)
  moreover have "Some (or_odds_id x) \<in> json_int ` set ids" if "x \<in> set (listed_rows f ids)" for x
    using in_listed_rows [OF that] assms(2) by (metis imageI)
  ultimately show ?thesis unfolding listed_in_order_def assms(1) by simp
qed

lemma horizon_capture_ok:
  assumes "snapshots (fo_snapshot r) = Some s" and "listings_of (dp_payload s) = ids" and "fo_type r = TIME_HORIZON" and "fo_due r = due"
    and rows: "captured = listed_rows (first_row_between rows due t) ids"
    and ref: "reference = (if captured = [] then t else Max (or_received_at ` set captured))"
    and q: "q = closing_pair_quality cfg (dp_payload s) captured reference"
  shows "capture_ok cfg rows snapshots (capture_of captured q due t ty st p r)"
proof (cases "pair_complete q")
  case True
  obtain sid m ta tb a b where pair: "pair_identity (dp_payload s) = Some (sid, m, ta, tb)" "captured = [a, b]"
    "pair_ok (leg_of_row a) (leg_of_row b) sid m {ta, tb} reference (oc_max_age cfg) (oc_max_skew cfg)"
    using complete_pair True q by metis
  have mem: "x \<in> set rows \<and> due \<le> or_received_at x" if "x \<in> {a, b}" for x
    using that listed_between [of x rows due t ids] by (simp only: rows [symmetric] pair(2)) auto
  have ref': "reference = max (or_received_at a) (or_received_at b)" using ref pair(2) by simp
  have order: "listed_in_order ids a b"
    by (rule listed_pair_in_order [OF rows [symmetric, unfolded pair(2)]]) (auto dest: first_row_betweenD)
  have "captured_pair cfg snapshots (capture_of captured q due t ty st p r) a b"
    unfolding captured_pair_def reference_time_def pair(2) capture_of_pair [OF True] capture_of_frame assms(3,4)
    using mem pair(1,3) assms(1,2) ref' order by auto
  then show ?thesis unfolding capture_ok_def using mem capture_of_pair(1) [OF True] pair(2) by auto
qed (rule capture_of_incomplete)

lemma closing_capture_ok:
  assumes "snapshots (fo_snapshot r) = Some s" and "listings_of (dp_payload s) = ids" and "fo_type r = CLOSING"
    and rows: "captured = listed_rows (last_row_before rows t mt ty' st') ids"
    and q: "q = closing_pair_quality cfg (dp_payload s) captured t"
  shows "capture_ok cfg rows snapshots (capture_of captured q t t ty st p r)"
proof (cases "pair_complete q")
  case True
  obtain sid m ta tb a b where pair: "pair_identity (dp_payload s) = Some (sid, m, ta, tb)" "captured = [a, b]"
    "pair_ok (leg_of_row a) (leg_of_row b) sid m {ta, tb} t (oc_max_age cfg) (oc_max_skew cfg)"
    using complete_pair True q by metis
  have mem: "x \<in> set rows" if "x \<in> {a, b}" for x
    using that listed_before [of x rows t mt ty' st' ids] by (simp only: rows [symmetric] pair(2)) auto
  have order: "listed_in_order ids a b"
    by (rule listed_pair_in_order [OF rows [symmetric, unfolded pair(2)]]) (auto dest: last_row_beforeD)
  have "captured_pair cfg snapshots (capture_of captured q t t ty st p r) a b"
    unfolding captured_pair_def reference_time_def pair(2) capture_of_pair [OF True] capture_of_frame assms(3)
    using pair(1,3) assms(1,2) order by auto
  then show ?thesis unfolding capture_ok_def using mem capture_of_pair(1) [OF True] pair(2) by auto
qed (rule capture_of_incomplete)

subsection \<open>The table of captures\<close>

definition capture_key :: "future_odds \<Rightarrow> uuid \<times> capture_type \<times> time" where
  "capture_key r = (fo_snapshot r, fo_type r, fo_due r)"

definition captures_inv :: "odds_config \<Rightarrow> odds_row list \<Rightarrow> (uuid \<Rightarrow> decision_snapshot option) \<Rightarrow> capture_db \<Rightarrow> bool" where
  "captures_inv cfg rows snapshots db \<longleftrightarrow>
     distinct (map fo_id (cd_captures db)) \<and> (\<forall>r \<in> set (cd_captures db). fo_id r < cd_next db) \<and>
     distinct (map capture_key (cd_captures db)) \<and>
     distinct (map fo_snapshot (filter (\<lambda>r. fo_type r = CLOSING) (cd_captures db))) \<and>
     (\<forall>r \<in> set (cd_captures db). capture_ok cfg rows snapshots r)"

definition final_kept :: "capture_db \<Rightarrow> capture_db \<Rightarrow> bool" where
  "final_kept db db' \<longleftrightarrow> (\<forall>r \<in> set (cd_captures db). fo_status r = ''CAPTURED'' \<longrightarrow> r \<in> set (cd_captures db'))"

lemma capture_ok_more: "capture_ok cfg rows snapshots r \<Longrightarrow> set rows \<subseteq> set rows' \<Longrightarrow> capture_ok cfg rows' snapshots r"
  unfolding capture_ok_def by blast

lemma filter_map_update_first:
  assumes "\<And>r. f r = r \<or> (Q (f r) = Q r \<and> k (f r) = k r)"
  shows "map k (filter Q (update_first P f t)) = map k (filter Q t)"
  by (induction t) (use assms in \<open>auto, metis+\<close>)

lemma save_capture_ok:
  assumes inv: "captures_inv cfg rows snapshots db" and save: "save_capture db existing sid ty h due values = Inr (r, db')"
    and ex: "\<And>e. existing = Some e \<Longrightarrow> e \<in> set (cd_captures db) \<and> fo_status e \<noteq> ''CAPTURED''"
    and frame: "\<And>x. fo_id (values x) = fo_id x \<and> capture_key (values x) = capture_key x"
    and ok: "\<And>e. existing = Some e \<Longrightarrow> capture_ok cfg rows snapshots (values e)"
    and fresh: "\<And>i. existing = None \<Longrightarrow> capture_ok cfg rows snapshots (values (new_capture i sid ty h due))"
    and closing: "existing = None \<Longrightarrow> ty = CLOSING \<Longrightarrow> \<forall>x \<in> set (cd_captures db). fo_type x = CLOSING \<longrightarrow> fo_snapshot x \<noteq> sid"
  shows "captures_inv cfg rows snapshots db' \<and> final_kept db db' \<and> r \<in> set (cd_captures db')"
proof (cases existing)
  case (Some e)
  let ?P = "\<lambda>x. fo_id x = fo_id e"
  note e = ex [OF Some]
  have uniq: "x = e" if "x \<in> set (cd_captures db)" "?P x" for x
    using that e inv by (auto simp: captures_inv_def dest: key_row_unique)
  have find: "find_row ?P (cd_captures db) = Some e"
    using e inv by (intro find_row_unique [where key = fo_id]) (auto simp: captures_inv_def)
  have db': "db' = db\<lparr>cd_captures := update_first ?P values (cd_captures db)\<rparr>" "r = values e"
    using save by (auto simp: save_capture_def Some)
  have keys: "capture_key (values x) = capture_key x" "fo_id (values x) = fo_id x" "fo_type (values x) = fo_type x"
      "fo_snapshot (values x) = fo_snapshot x" for x
    using frame [of x] by (auto simp: capture_key_def)
  have maps: "map fo_id (update_first ?P values t) = map fo_id t" "map capture_key (update_first ?P values t) = map capture_key t"
    for t by (simp_all add: map_update_first keys)
  have clos: "map fo_snapshot (filter (\<lambda>r. fo_type r = CLOSING) (update_first ?P values t)) =
      map fo_snapshot (filter (\<lambda>r. fo_type r = CLOSING) t)" for t
    by (rule filter_map_update_first) (simp add: keys)
  have mem: "x \<in> set (cd_captures db) \<or> x = values e" if "x \<in> set (update_first ?P values (cd_captures db))" for x
    using that uniq by (auto dest!: in_update_firstD)
  have rows: "fo_id x < cd_next db \<and> capture_ok cfg rows snapshots x" if "x \<in> set (update_first ?P values (cd_captures db))" for x
    using mem [OF that] inv ok [OF Some] keys(2) [of e] e by (auto simp: captures_inv_def)
  have sel: "cd_captures db' = update_first ?P values (cd_captures db)" "cd_next db' = cd_next db" by (simp_all add: db'(1))
  have "captures_inv cfg rows snapshots db'"
    using inv rows unfolding captures_inv_def sel maps clos by blast
  moreover have "final_kept db db'" using e uniq by (auto simp: final_kept_def db' intro: in_update_first_keep)
  moreover have "r \<in> set (cd_captures db')" using in_update_first_new [OF find] by (simp add: db')
  ultimately show ?thesis by blast
next
  case None
  let ?n = "new_capture (cd_next db) sid ty h due"
  have db': "db' = db\<lparr>cd_captures := cd_captures db @ [r], cd_next := Suc (cd_next db)\<rparr>" "r = values ?n"
      and new: "find_row (\<lambda>r. fo_snapshot r = sid \<and> fo_type r = ty \<and> fo_due r = due) (cd_captures db) = None"
    using save by (auto simp: save_capture_def None Let_def split: if_splits)
  have r: "fo_id r = cd_next db" "capture_key r = (sid, ty, due)" using frame [of ?n] by (simp_all add: db'(2) new_capture_def capture_key_def)
  then have ty: "fo_type r = ty" "fo_snapshot r = sid" by (simp_all add: capture_key_def)
  have key: "capture_key r \<notin> capture_key ` set (cd_captures db)" using new unfolding r(2) by (auto simp: find_row_None_iff capture_key_def)
  have id: "fo_id r \<notin> fo_id ` set (cd_captures db)" using inv by (auto simp: r captures_inv_def)
  have c: "fo_type r = CLOSING \<Longrightarrow> fo_snapshot r \<notin> fo_snapshot ` set (filter (\<lambda>r. fo_type r = CLOSING) (cd_captures db))"
    using closing [OF None] by (auto simp: ty)
  have "captures_inv cfg rows snapshots db'"
    using inv key id c fresh [OF None, of "cd_next db"] r(1) by (auto simp: captures_inv_def db'(1) less_Suc_eq simp flip: db'(2))
  then show ?thesis by (simp add: final_kept_def db'(1))
qed

lemma capture_step:
  assumes "captures_inv cfg rows snapshots db" and "capture cfg rows snapshots db sid h due t = Inr (r, db')"
  shows "captures_inv cfg rows snapshots db' \<and> final_kept db db' \<and> r \<in> set (cd_captures db')"
proof -
  let ?old = "find_row (same_horizon sid h due) (cd_captures db)"
  show ?thesis
  proof (cases "\<exists>e. ?old = Some e \<and> fo_status e = ''CAPTURED''")
    case True
    then show ?thesis using assms by (auto simp: capture_def final_kept_def dest: find_row_SomeD)
  next
    case False
    then have "capture_again cfg rows snapshots db sid h due t ?old = Inr (r, db')"
      using assms(2) by (auto simp: capture_def Let_def split: option.splits)
    then obtain s items where s: "snapshots sid = Some s"
      and items: "Option.bind (obj_fields (json_get_or (dp_payload s) ''market'' (JObj [])))
          (\<lambda>m. json_iter (json_get_or m ''observations'' (JList []))) = Some items"
      and save: "(let captured = listed_rows (first_row_between rows due t) (odds_ids_of items);
                    reference = (if captured = [] then t else Max (or_received_at ` set captured));
                    quality = closing_pair_quality cfg (dp_payload s) captured reference;
                    value = (\<lambda>field. Option.bind (market_value (dp_payload s) field) id)
                in save_capture db ?old sid TIME_HORIZON (Some h) due
                     (capture_of captured quality due t (value ''market_type'') (value ''match_stage'')
                        ''time-horizon-v2-pair-validated'')) = Inr (r, db')"
      by (auto simp: capture_again_def split: option.splits)
    have ids: "listings_of (dp_payload s) = odds_ids_of items" by (simp add: listings_of_def items)
    have old: "e \<in> set (cd_captures db) \<and> same_horizon sid h due e \<and> fo_status e \<noteq> ''CAPTURED''" if "?old = Some e" for e
      using that False by (auto dest: find_row_SomeD)
    show ?thesis
      by (rule save_capture_ok [OF assms(1) save [unfolded Let_def]])
        (use old s ids in \<open>auto simp: capture_key_def same_horizon_def new_capture_def
            intro!: horizon_capture_ok [where s = s and ids = "odds_ids_of items"]\<close>)
  qed
qed

lemma closing_step:
  assumes "captures_inv cfg rows snapshots db" and "capture_closing cfg rows snapshots db sid t = Inr (r, db')"
  shows "captures_inv cfg rows snapshots db' \<and> final_kept db db' \<and> r \<in> set (cd_captures db')"
proof -
  let ?old = "find_row (same_closing sid) (cd_captures db)"
  show ?thesis
  proof (cases "\<exists>e. ?old = Some e \<and> fo_status e = ''CAPTURED''")
    case True
    then show ?thesis using assms by (auto simp: capture_closing_def final_kept_def dest: find_row_SomeD)
  next
    case False
    then have "capture_closing_again cfg rows snapshots db sid t ?old = Inr (r, db')"
      using assms(2) by (auto simp: capture_closing_def Let_def split: option.splits)
    then obtain s items where s: "snapshots sid = Some s"
      and items: "(case obj_fields (json_get_or (dp_payload s) ''market'' (JObj [])) of None \<Rightarrow> Some []
          | Some m \<Rightarrow> json_iter (json_get_or m ''observations'' (JList []))) = Some items"
      and save: "(let value = opt_field (obj_fields (json_get_or (dp_payload s) ''market'' (JObj [])));
                       captured = listed_rows (last_row_before rows t (value ''provider_match_id'') (value ''market_type'')
                                    (value ''match_stage'')) (odds_ids_of items);
                       quality = closing_pair_quality cfg (dp_payload s) captured t
                   in save_capture db ?old sid CLOSING None t
                        (capture_of captured quality t t (json_text (value ''market_type''))
                           (json_text (value ''match_stage'')) CLOSING_POLICY_VERSION)) = Inr (r, db')"
      by (auto simp: capture_closing_again_def Let_def split: option.splits)
    have ids: "listings_of (dp_payload s) = odds_ids_of items"
      using items by (auto simp: listings_of_def odds_ids_of_def List.map_filter_simps split: option.splits)
    have old: "e \<in> set (cd_captures db) \<and> same_closing sid e \<and> fo_status e \<noteq> ''CAPTURED''" if "?old = Some e" for e
      using that False by (auto dest: find_row_SomeD)
    have none: "\<forall>x \<in> set (cd_captures db). fo_type x = CLOSING \<longrightarrow> fo_snapshot x \<noteq> sid" if "?old = None"
      using that by (auto simp: find_row_None_iff same_closing_def)
    show ?thesis
      by (rule save_capture_ok [OF assms(1) save [unfolded Let_def]])
        (use old none s ids in \<open>auto simp: capture_key_def same_closing_def new_capture_def
            intro!: closing_capture_ok [where s = s and ids = "odds_ids_of items"]\<close>)
  qed
qed

subsection \<open>Reachable states\<close>

text \<open>The odds table grows and captures are taken, in any order, by any number of jobs, retries included.\<close>

inductive odds_step ::
  "odds_config \<Rightarrow> (uuid \<Rightarrow> decision_snapshot option) \<Rightarrow> odds_row list \<times> capture_db \<Rightarrow> odds_row list \<times> capture_db \<Rightarrow> bool"
  for cfg snapshots where
  odds_arrive: "odds_step cfg snapshots (rows, db) (rows @ [r], db)"
| at_horizon: "capture cfg rows snapshots db sid h due t = Inr (r, db') \<Longrightarrow> odds_step cfg snapshots (rows, db) (rows, db')"
| at_closing: "capture_closing cfg rows snapshots db sid t = Inr (r, db') \<Longrightarrow> odds_step cfg snapshots (rows, db) (rows, db')"

inductive odds_steps ::
  "odds_config \<Rightarrow> (uuid \<Rightarrow> decision_snapshot option) \<Rightarrow> odds_row list \<times> capture_db \<Rightarrow> odds_row list \<times> capture_db \<Rightarrow> bool"
  for cfg snapshots where
  no_odds_step: "odds_steps cfg snapshots st st"
| odds_step_more: "odds_steps cfg snapshots st st' \<Longrightarrow> odds_step cfg snapshots st' st'' \<Longrightarrow> odds_steps cfg snapshots st st''"

definition no_captures :: capture_db where
  "no_captures = \<lparr>cd_captures = [], cd_next = 0\<rparr>"

lemma captures_inv_more: "captures_inv cfg rows snapshots db \<Longrightarrow> set rows \<subseteq> set rows' \<Longrightarrow> captures_inv cfg rows' snapshots db"
  unfolding captures_inv_def using capture_ok_more by blast

lemma odds_step_ok:
  assumes "odds_step cfg snapshots (rows, db) (rows', db')" and "captures_inv cfg rows snapshots db"
  shows "captures_inv cfg rows' snapshots db' \<and> final_kept db db' \<and> set rows \<subseteq> set rows'"
  using assms(1)
proof cases
  case (odds_arrive r)
  then show ?thesis using captures_inv_more [OF assms(2), of rows'] by (auto simp: final_kept_def)
next
  case (at_horizon sid h due t r)
  then show ?thesis using capture_step [OF assms(2) at_horizon(2)] by simp
next
  case (at_closing sid t r)
  then show ?thesis using closing_step [OF assms(2) at_closing(2)] by simp
qed

lemma odds_steps_ok:
  assumes "odds_steps cfg snapshots st st'" and "captures_inv cfg (fst st) snapshots (snd st)"
  shows "captures_inv cfg (fst st') snapshots (snd st') \<and> final_kept (snd st) (snd st') \<and> set (fst st) \<subseteq> set (fst st')"
  using assms
proof (induction rule: odds_steps.induct)
  case (no_odds_step st)
  then show ?case by (simp add: final_kept_def)
next
  case (odds_step_more st st' st'')
  have "captures_inv cfg (fst st'') snapshots (snd st'') \<and> final_kept (snd st') (snd st'') \<and> set (fst st') \<subseteq> set (fst st'')"
    by (rule odds_step_ok) (use odds_step_more in simp_all)
  then show ?case using odds_step_more by (auto simp: final_kept_def)
qed

lemma no_captures_ok: "captures_inv cfg rows snapshots no_captures"
  by (simp add: captures_inv_def no_captures_def)

lemma one_closing:
  assumes "distinct (map fo_snapshot (filter (\<lambda>r. fo_type r = CLOSING) cs))" "x \<in> set cs" "y \<in> set cs"
    "fo_type x = CLOSING" "fo_type y = CLOSING" "fo_snapshot x = fo_snapshot y"
  shows "x = y"
  using key_row_unique [OF assms(1), of x y] assms(2-6) by simp

text \<open>C27. A closing line is written once.  Whatever captures and retries follow each other while new odds arrive, a row that has
  been captured stays as it is, and it stays the only one of its snapshot, kind and due time (for the end of the map: of
  its snapshot); its two prices are those of two observations that form a tradable pair of the snapshot's own market,
  received not before the horizon, or not after the end of the map, and within the configured age and skew.\<close>

theorem captured_odds_are_final:
  assumes "odds_steps cfg snapshots (rows0, no_captures) (rows, db)" and "odds_steps cfg snapshots (rows, db) (rows', db')"
    and "r \<in> set (cd_captures db)" and "fo_status r = ''CAPTURED''"
  shows "r \<in> set (cd_captures db') \<and> (\<exists>a \<in> set rows. \<exists>b \<in> set rows. captured_pair cfg snapshots r a b) \<and>
    (\<forall>r' \<in> set (cd_captures db'). fo_snapshot r' = fo_snapshot r \<and> fo_type r' = fo_type r \<and>
        (fo_type r = CLOSING \<or> fo_due r' = fo_due r) \<longrightarrow> r' = r)"
proof -
  have inv: "captures_inv cfg rows snapshots db" using odds_steps_ok [OF assms(1)] no_captures_ok by simp
  then have inv': "captures_inv cfg rows' snapshots db'" "final_kept db db'" using odds_steps_ok [OF assms(2)] by simp_all
  have "\<exists>a \<in> set rows. \<exists>b \<in> set rows. captured_pair cfg snapshots r a b"
    using inv assms(3,4) by (auto simp: captures_inv_def capture_ok_def)
  moreover have kept: "r \<in> set (cd_captures db')" using inv'(2) assms(3,4) by (simp add: final_kept_def)
  moreover have "r' = r" if "r' \<in> set (cd_captures db')" "fo_snapshot r' = fo_snapshot r" "fo_type r' = fo_type r"
      "fo_type r = CLOSING \<or> fo_due r' = fo_due r" for r'
    using that(4)
  proof
    assume "fo_type r = CLOSING"
    then show ?thesis using inv'(1) that(1-3) kept one_closing [of "cd_captures db'" r' r] by (simp add: captures_inv_def)
  next
    assume "fo_due r' = fo_due r"
    then have "capture_key r' = capture_key r" using that by (simp add: capture_key_def)
    then show ?thesis using inv'(1) that(1) kept by (auto simp: captures_inv_def dest: key_row_unique)
  qed
  ultimately show ?thesis by blast
qed

subsection \<open>Sides\<close>

lemma first_per_odds_subset: "set (first_per_odds rows) \<subseteq> set rows"
proof -
  have "snd ` set (fold (\<lambda>r d. if map_of d (or_odds_id r) = None then d @ [(or_odds_id r, r)] else d) rows d) \<subseteq> snd ` set d \<union> set rows" for d
  proof (induction rows arbitrary: d)
    case (Cons r rows)
    then show ?case using Cons.IH [of d] Cons.IH [of "d @ [(or_odds_id r, r)]"] by auto
  qed simp
  from this [of "[]"] show ?thesis by (simp add: first_per_odds_def)
qed

lemma two_fair:
  "\<exists>px py. (case w of None \<Rightarrow> [None, None] | Some (fa, fb, whole) \<Rightarrow> [Some fa, Some fb]) = [px, py]"
  by (cases w) auto

lemma built_pair:
  assumes "load_market table map_id sid n bo ta tb t ma ms = Some (section, age)" and "mq_eligible (ms_quality section)"
  obtains x y px py where "ms_observations section = [\<lparr>mo_row = x, mo_fair_probability = px\<rparr>, \<lparr>mo_row = y, mo_fair_probability = py\<rparr>]"
    "x \<in> set table" "y \<in> set table" "or_selection x = Some ta" "or_selection y = Some tb" "or_odds_id x \<noteq> or_odds_id y"
proof -
  let ?crit = "filter (market_criteria map_id sid n bo t) table"
  obtain items q where sel: "freshest_pair (builder_evaluated ?crit table sid map_id ta tb t ma ms) = Some (items, q)"
      and sec: "section = section_of ta tb items q"
    using assms(1) by (auto simp: load_market_def split: option.splits)
  have el: "mq_eligible q" using assms(2) by (simp add: sec section_of_def Let_def)
  obtain f where f: "(f, items, q) \<in> set (builder_evaluated ?crit table sid map_id ta tb t ma ms)"
    using freshest_eligible [OF sel el] by blast
  then obtain k st where c: "(k, items) \<in> set (group_rows (first_per_odds (join_latest ?crit table)))"
      "q = evaluate_market_pair (map leg_of_row items) sid (expected_map_for st map_id) {ta, tb} t ma ms"
    by (auto simp: builder_evaluated_def)
  have sub: "set items \<subseteq> set table"
    using c(1) first_per_odds_subset [of "join_latest ?crit table"] by (auto simp: group_rows_mem join_latest_def)
  obtain u v where uv: "items = [u, v]" using eligible_two [OF el [unfolded c(2)]] by (auto simp: map_eq_Cons_conv)
  have ok: "pair_ok (leg_of_row u) (leg_of_row v) sid (expected_map_for st map_id) {ta, tb} t ma ms"
    using el unfolding c(2) uv list.map eligible_pair .
  then obtain su sv where s: "or_selection u = Some su" "or_selection v = Some sv" "su \<noteq> sv" "{su, sv} = {ta, tb}"
      and ne: "or_odds_id u \<noteq> or_odds_id v"
    by (auto simp: pair_ok_def)
  define fair where "fair = (case (if mq_eligible q then (case remove_vig (or_price (sort_key (\<lambda>r. (team_index ta tb r, or_odds_id r)) items ! 0))
        (or_price (sort_key (\<lambda>r. (team_index ta tb r, or_odds_id r)) items ! 1)) of Inl e \<Rightarrow> None | Inr v \<Rightarrow> Some v) else None)
      of None \<Rightarrow> [None, None] | Some (fa, fb, implied_total) \<Rightarrow> [Some fa, Some fb])"
  obtain px py where fair2: "fair = [px, py]" unfolding fair_def using two_fair by blast
  have obs: "ms_observations section = map (\<lambda>(r, p). \<lparr>mo_row = r, mo_fair_probability = p\<rparr>)
      (zip (sort_key (\<lambda>r. (team_index ta tb r, or_odds_id r)) items) fair)"
    by (simp add: sec section_of_def Let_def fair_def)
  show ?thesis
  proof (cases "su = ta")
    case True
    then have sv: "sv = tb" using s(3,4) by (auto simp: doubleton_eq_iff)
    show ?thesis
      by (rule that [of u px v py]) (use s True sv sub uv ne in \<open>auto simp: obs fair2 team_index_def\<close>)
  next
    case False
    then have sv: "su = tb" "sv = ta" using s(3,4) by (auto simp: doubleton_eq_iff)
    show ?thesis
      by (rule that [of v px u py]) (use s False sv sub uv ne in \<open>auto simp: obs fair2 team_index_def\<close>)
  qed
qed

lemma built_listings:
  assumes "map_of payload ''market'' = Some (market_document txt section)"
    and "ms_observations section = [\<lparr>mo_row = x, mo_fair_probability = px\<rparr>, \<lparr>mo_row = y, mo_fair_probability = py\<rparr>]"
  shows "listings_of payload = [JInt (or_odds_id x), JInt (or_odds_id y)]"
  by (simp add: listings_of_def json_get_or_def assms obj_fields_def market_document_def json_iter_def odds_ids_of_def
      List.map_filter_simps observation_document_def json_get_def Let_def)

text \<open>The sides are never swapped.  If the market of a snapshot was built by the market component, with its margin
  removed, and a listing never changes the team it stands for, then in every reachable state the first price of each
  captured row is a price of Team A, the second one of Team B, as the evaluation reads them; so the closing line value
  of a BUY is the change of its own team's price.\<close>

theorem captures_keep_the_sides:
  assumes "odds_steps cfg snapshots (rows0, no_captures) (rows, db)" and "r \<in> set (cd_captures db)" and "fo_status r = ''CAPTURED''"
    and "snapshots (fo_snapshot r) = Some s"
    and "load_market table map_id sid n bo ta tb t ma ms = Some (section, age)" and "mq_eligible (ms_quality section)"
    and "map_of (dp_payload s) ''market'' = Some (market_document txt section)"
    and "\<forall>x \<in> set table \<union> set rows. \<forall>y \<in> set table \<union> set rows. or_odds_id x = or_odds_id y \<longrightarrow> or_selection x = or_selection y"
  shows "\<exists>a \<in> set rows. \<exists>b \<in> set rows. captured_pair cfg snapshots r a b \<and> or_selection a = Some ta \<and> or_selection b = Some tb"
proof -
  have "captures_inv cfg rows snapshots db" using odds_steps_ok [OF assms(1)] no_captures_ok by simp
  then obtain a b where ab: "a \<in> set rows" "b \<in> set rows" "captured_pair cfg snapshots r a b"
    using assms(2,3) by (auto simp: captures_inv_def capture_ok_def)
  obtain x y px py where xy: "ms_observations section = [\<lparr>mo_row = x, mo_fair_probability = px\<rparr>, \<lparr>mo_row = y, mo_fair_probability = py\<rparr>]"
    "x \<in> set table" "y \<in> set table" "or_selection x = Some ta" "or_selection y = Some tb" "or_odds_id x \<noteq> or_odds_id y"
    by (rule built_pair [OF assms(5,6)])
  have "listed_in_order [JInt (or_odds_id x), JInt (or_odds_id y)] a b" "or_odds_id a \<noteq> or_odds_id b"
    using ab(3) built_listings [OF assms(7) xy(1)] by (auto simp: captured_pair_def assms(4) pair_ok_def leg_of_row_def)
  then have "or_odds_id a = or_odds_id x \<and> or_odds_id b = or_odds_id y"
    using xy(6) by (auto simp: listed_in_order_def json_int_def json_equals_int_def split: if_splits)
  then have "or_selection a = Some ta \<and> or_selection b = Some tb" using assms(8) ab(1,2) xy(2-5) by (metis UnI1 UnI2)
  then show ?thesis using ab by blast
qed

subsection \<open>A sample run\<close>

definition sample_text :: document_text where
  "sample_text = \<lparr>tx_decimal = (\<lambda>p. ''2''), tx_instant = (\<lambda>t. []), tx_quality = (\<lambda>q. JNull)\<rparr>"

definition sample_section :: "(market_section \<times> rat) option" where
  "sample_section = load_market sample_rows (Some 5) 3 (Some 1) (Some 3) 10 11 4000000 60 10"

definition sample_payload :: "(string \<times> json) list" where
  "sample_payload =
     [(''identity'', JObj [(''series_id'', JStr ''3''), (''map_id'', JStr ''5''),
        (''team_a'', JObj [(''id'', JStr ''10'')]), (''team_b'', JObj [(''id'', JStr ''11'')])]),
      (''market'', case sample_section of None \<Rightarrow> JNull | Some (m, age) \<Rightarrow> market_document sample_text m)]"

definition sample_snapshot :: decision_snapshot where
  "sample_snapshot = \<lparr>dp_id = 4, dp_map = Some 5, dp_decision_at = 4000000, dp_mode = ''LIVE_BASIC'', dp_payload = sample_payload, dp_hash = []\<rparr>"

definition sample_snapshots :: "uuid \<Rightarrow> decision_snapshot option" where
  "sample_snapshots i = (if i = 4 then Some sample_snapshot else None)"

definition sample_odds_config :: odds_config where
  "sample_odds_config = \<lparr>oc_max_age = 60, oc_max_skew = 10\<rparr>"

definition sample_captures :: capture_db where
  "sample_captures = (case capture_closing sample_odds_config sample_rows sample_snapshots no_captures 4 5000000 of
     Inl e \<Rightarrow> no_captures | Inr (r, db) \<Rightarrow> db)"

lemma sample_section_eligible: "map_option (\<lambda>(m, age). mq_eligible (ms_quality m)) sample_section = Some True"
  by code_simp

lemma sample_captured: "map (\<lambda>r. (fo_status r, fo_snapshot r, fo_type r)) (cd_captures sample_captures) = [(''CAPTURED'', 4, CLOSING)]"
  by code_simp

lemma sample_run: "odds_steps sample_odds_config sample_snapshots (sample_rows, no_captures) (sample_rows, sample_captures)"
proof -
  obtain r where "capture_closing sample_odds_config sample_rows sample_snapshots no_captures 4 5000000 = Inr (r, sample_captures)"
    using sample_captured unfolding sample_captures_def
    by (cases "capture_closing sample_odds_config sample_rows sample_snapshots no_captures 4 5000000")
      (simp_all add: no_captures_def split: prod.splits)
  then show ?thesis by (rule odds_step_more [OF no_odds_step at_closing])
qed

lemma sample_capture:
  obtains r where "r \<in> set (cd_captures sample_captures)" "fo_status r = ''CAPTURED''" "fo_snapshot r = 4"
  using sample_captured by (cases "cd_captures sample_captures") auto

theorem captured_odds_are_final_witness:
  "\<exists>r \<in> set (cd_captures sample_captures). \<exists>a \<in> set sample_rows. \<exists>b \<in> set sample_rows.
     captured_pair sample_odds_config sample_snapshots r a b"
proof -
  obtain r where r: "r \<in> set (cd_captures sample_captures)" "fo_status r = ''CAPTURED''" by (rule sample_capture)
  from captured_odds_are_final [OF sample_run no_odds_step r] r(1) show ?thesis by blast
qed

theorem captures_keep_the_sides_witness:
  "\<exists>r \<in> set (cd_captures sample_captures). \<exists>a \<in> set sample_rows. \<exists>b \<in> set sample_rows.
     fo_odds_a r = Some (or_price a) \<and> or_selection a = Some 10 \<and> fo_odds_b r = Some (or_price b) \<and> or_selection b = Some 11"
proof -
  obtain r where r: "r \<in> set (cd_captures sample_captures)" "fo_status r = ''CAPTURED''" "fo_snapshot r = 4" by (rule sample_capture)
  obtain m age where m: "sample_section = Some (m, age)" "mq_eligible (ms_quality m)" using sample_section_eligible by auto
  have market: "map_of (dp_payload sample_snapshot) ''market'' = Some (market_document sample_text m)"
    by (simp add: sample_snapshot_def sample_payload_def m(1))
  have stable: "\<forall>x \<in> set sample_rows \<union> set sample_rows. \<forall>y \<in> set sample_rows \<union> set sample_rows.
      or_odds_id x = or_odds_id y \<longrightarrow> or_selection x = or_selection y"
    by (simp add: sample_rows_def sample_odds_def)
  have "sample_snapshots (fo_snapshot r) = Some sample_snapshot" by (simp add: sample_snapshots_def r(3))
  from captures_keep_the_sides [OF sample_run r(1,2) this m(1) [unfolded sample_section_def] m(2) market stable] r(1)
  show ?thesis unfolding captured_pair_def by blast
qed

end
