(* ===== verification/Metrics.thy ===== *)
theory Metrics
  imports FutureOdds
begin

text \<open>
  \<open>EvaluationService\<close> of \<open>app/evaluation/metrics.py\<close>: the scores of the decisions on a snapshot once the map has a
  result.  The logarithm is the real one; everything else is rational.
\<close>

subsection \<open>Scores\<close>

definition METRICS_VERSION :: string where
  "METRICS_VERSION = ''decision-evaluation-v3''"

definition brier_score :: "rat option \<Rightarrow> bool \<Rightarrow> rat option" where
  "brier_score probability_a team_a_won = map_option (\<lambda>p. (p - of_bool team_a_won)\<^sup>2) probability_a"

definition clip_probability :: "rat \<Rightarrow> rat" where
  "clip_probability p = min (max p (1 / 1000000000000)) (1 - 1 / 1000000000000)"

definition log_loss :: "rat option \<Rightarrow> bool \<Rightarrow> real option" where
  "log_loss probability_a team_a_won =
     map_option (\<lambda>p. let q = real_of_rat (clip_probability p) in - (if team_a_won then ln q else ln (1 - q))) probability_a"

fun result_correct :: "ai_action \<Rightarrow> bool \<Rightarrow> bool option" where
  "result_correct BUY_A team_a_won = Some team_a_won"
| "result_correct BUY_B team_a_won = Some (\<not> team_a_won)"
| "result_correct action team_a_won = None"

fun virtual_settlement_odds :: "ai_action \<Rightarrow> rat option \<Rightarrow> rat option \<Rightarrow> rat option" where
  "virtual_settlement_odds BUY_A initial_a initial_b = initial_a"
| "virtual_settlement_odds BUY_B initial_a initial_b = initial_b"
| "virtual_settlement_odds action initial_a initial_b = None"

definition is_buy :: "ai_action \<Rightarrow> bool" where
  "is_buy action \<longleftrightarrow> action = BUY_A \<or> action = BUY_B"

definition bet_won :: "ai_action \<Rightarrow> bool \<Rightarrow> bool" where
  "bet_won action team_a_won = (if action = BUY_A then team_a_won else \<not> team_a_won)"

definition virtual_pnl :: "ai_action \<Rightarrow> rat option \<Rightarrow> rat option \<Rightarrow> bool \<Rightarrow> rat option" where
  "virtual_pnl action stake odds team_a_won =
     (if is_buy action
      then (case (stake, odds) of
              (Some s, Some o') \<Rightarrow> if s \<le> 0 then None else Some (round2 (if bet_won action team_a_won then s * (o' - 1) else - s))
            | _ \<Rightarrow> None)
      else Some 0)"

definition unit_pnl :: "ai_action \<Rightarrow> rat option \<Rightarrow> bool \<Rightarrow> rat option" where
  "unit_pnl action odds team_a_won =
     (case odds of
        Some o' \<Rightarrow> if is_buy action then Some (round2 (if bet_won action team_a_won then o' - 1 else - 1)) else None
      | None \<Rightarrow> None)"

definition clv_of :: "ai_action \<Rightarrow> rat option \<Rightarrow> rat option \<Rightarrow> rat option \<Rightarrow> rat option \<Rightarrow> rat option" where
  "clv_of action initial_a initial_b closing_a closing_b =
     (case (action, initial_a, closing_a, initial_b, closing_b) of
        (BUY_A, Some i, Some c, _, _) \<Rightarrow> Some (i / c - 1)
      | (BUY_B, _, _, Some i, Some c) \<Rightarrow> Some (i / c - 1)
      | _ \<Rightarrow> None)"

definition odds_movement :: "rat \<Rightarrow> rat \<Rightarrow> string" where
  "odds_movement future initial = (if future < initial then ''FAVORABLE'' else if initial < future then ''UNFAVORABLE'' else ''FLAT'')"

definition future_direction :: "ai_action \<Rightarrow> rat option \<Rightarrow> rat option \<Rightarrow> rat option \<Rightarrow> rat option \<Rightarrow> string option" where
  "future_direction action initial_a initial_b future_a future_b =
     (case (action, initial_a, future_a, initial_b, future_b) of
        (BUY_A, Some i, Some f, _, _) \<Rightarrow> Some (odds_movement f i)
      | (BUY_B, _, _, Some i, Some f) \<Rightarrow> Some (odds_movement f i)
      | _ \<Rightarrow> None)"

subsection \<open>Reading the snapshot\<close>

datatype eval_error = EvalNoMap | EvalPayloadInvalid | EvalDecisionInvalid

text \<open>\<open>float(value)\<close>; a value without one is skipped.\<close>

definition py_float :: "(string \<Rightarrow> rat option) \<Rightarrow> json \<Rightarrow> rat option" where
  "py_float num v = float_field num (\<lambda>r. True) v"

text \<open>\<open>str(value)\<close> of the values an identifier may be stored as; no identifier is the text of another value.\<close>

definition py_str :: "json \<Rightarrow> string option" where
  "py_str v = (case v of JStr s \<Rightarrow> Some s | JInt i \<Rightarrow> Some (str_int i) | JBool b \<Rightarrow> Some (if b then ''True'' else ''False'') | _ \<Rightarrow> None)"

definition price_entry :: "(string \<Rightarrow> rat option) \<Rightarrow> json \<Rightarrow> (string \<times> rat) option" where
  "price_entry num item =
     (case obj_fields item of
        None \<Rightarrow> None
      | Some fs \<Rightarrow>
          if json_get fs ''price'' = JNull \<or> json_get fs ''selection_team_id'' = JNull then None
          else (case (py_float num (json_get fs ''price''), py_str (json_get fs ''selection_team_id'')) of
                  (Some p, Some t) \<Rightarrow> Some (t, p) | _ \<Rightarrow> None))"

text \<open>\<open>(identity.get(team) or {}).get("id")\<close>: a truthy value that is not an object raises.\<close>

definition team_id_of :: "(string \<times> json) list \<Rightarrow> string \<Rightarrow> json option" where
  "team_id_of identity team =
     (let v = json_get identity team in if json_truthy v then map_option (\<lambda>fs. json_get fs ''id'') (obj_fields v) else Some JNull)"

definition initial_prices ::
  "(string \<Rightarrow> rat option) \<Rightarrow> (string \<times> json) list \<Rightarrow> eval_error + (rat option \<times> rat option)" where
  "initial_prices num payload =
     (case obj_fields (json_get_or payload ''identity'' (JObj [])) of
        None \<Rightarrow> Inr (None, None)
      | Some identity \<Rightarrow>
          (case (team_id_of identity ''team_a'', team_id_of identity ''team_b'') of
             (Some a, Some b) \<Rightarrow>
               if a = JNull \<or> b = JNull then Inr (None, None)
               else (case Option.bind (obj_fields (json_get_or payload ''market'' (JObj [])))
                            (\<lambda>m. json_iter (json_get_or m ''observations'' (JList []))) of
                       None \<Rightarrow> Inl EvalPayloadInvalid
                     | Some items \<Rightarrow>
                         (let prices = foldl (\<lambda>d (t, p). AList.update t p d) [] (List.map_filter (price_entry num) items);
                              price = (\<lambda>v. Option.bind (py_str v) (map_of prices))
                          in Inr (price a, price b)))
           | _ \<Rightarrow> Inl EvalPayloadInvalid))"

definition same_market :: "(string \<times> json) list \<Rightarrow> future_odds \<Rightarrow> bool" where
  "same_market payload closing \<longleftrightarrow>
     (case obj_fields (json_get_or payload ''market'' (JObj [])) of
        None \<Rightarrow> False
      | Some m \<Rightarrow> matches_text (fo_market_type closing) (json_get m ''market_type'') \<and>
                  matches_text (fo_match_stage closing) (json_get m ''match_stage''))"

subsection \<open>Evaluating a snapshot\<close>

record evaluation =
  ev_id :: uuid
  ev_decision :: uuid
  ev_correct :: "bool option"
  ev_brier :: "rat option"
  ev_log_loss :: "real option"
  ev_clv :: "rat option"
  ev_direction :: "string option"
  ev_virtual_pnl :: "rat option"
  ev_virtual_odds :: "rat option"
  ev_unit_pnl :: "rat option"
  ev_at :: time
  ev_version :: string

record evaluation_db =
  vd_rows :: "evaluation list"
  vd_next :: uuid

text \<open>The odds of a capture are used when they are truthy.\<close>

definition capture_price :: "(future_odds \<Rightarrow> rat option) \<Rightarrow> future_odds option \<Rightarrow> rat option" where
  "capture_price side c = (case Option.bind c side of Some p \<Rightarrow> if p \<noteq> 0 then Some p else None | None \<Rightarrow> None)"

definition closing_of :: "(string \<times> json) list \<Rightarrow> future_odds list \<Rightarrow> future_odds option" where
  "closing_of payload future = find_row (\<lambda>c. fo_type c = CLOSING \<and> same_market payload c) future"

definition first_future_of :: "future_odds list \<Rightarrow> future_odds option" where
  "first_future_of future = find_row (\<lambda>c. fo_type c = TIME_HORIZON \<and> fo_horizon c \<noteq> None) future"

definition evaluation_of ::
  "(string \<times> json) list \<Rightarrow> rat option \<times> rat option \<Rightarrow> future_odds list \<Rightarrow> bool \<Rightarrow> time \<Rightarrow> ai_record \<Rightarrow> ai_decision \<Rightarrow> uuid \<Rightarrow> evaluation" where
  "evaluation_of payload prices future team_a_won now r d i =
     (let (initial_a, initial_b) = prices;
          closing = closing_of payload future; later = first_future_of future;
          stake = (case ar_stake r of Some s \<Rightarrow> Some s | None \<Rightarrow> ad_stake d);
          odds = virtual_settlement_odds (ad_action d) initial_a initial_b
      in \<lparr>ev_id = i, ev_decision = ar_id r, ev_correct = result_correct (ad_action d) team_a_won,
          ev_brier = brier_score (ad_probability d) team_a_won, ev_log_loss = log_loss (ad_probability d) team_a_won,
          ev_clv = clv_of (ad_action d) initial_a initial_b (capture_price fo_odds_a closing) (capture_price fo_odds_b closing),
          ev_direction = future_direction (ad_action d) initial_a initial_b (capture_price fo_odds_a later) (capture_price fo_odds_b later),
          ev_virtual_pnl = virtual_pnl (ad_action d) stake odds team_a_won, ev_virtual_odds = odds,
          ev_unit_pnl = unit_pnl (ad_action d) odds team_a_won, ev_at = now, ev_version = METRICS_VERSION\<rparr>)"

text \<open>One decision: a current evaluation stays, an older one takes the new values, a missing one is added.\<close>

definition save_evaluation :: "evaluation_db \<Rightarrow> uuid \<Rightarrow> (uuid \<Rightarrow> evaluation) \<Rightarrow> evaluation_db" where
  "save_evaluation vdb decision mk =
     (case find_row (\<lambda>v. ev_decision v = decision) (vd_rows vdb) of
        None \<Rightarrow> vdb\<lparr>vd_rows := vd_rows vdb @ [mk (vd_next vdb)], vd_next := Suc (vd_next vdb)\<rparr>
      | Some old \<Rightarrow> vdb\<lparr>vd_rows := update_first (\<lambda>v. ev_decision v = decision) (\<lambda>v. mk (ev_id v)) (vd_rows vdb)\<rparr>)"

definition evaluated_now :: "evaluation_db \<Rightarrow> uuid \<Rightarrow> bool" where
  "evaluated_now vdb decision \<longleftrightarrow>
     (case find_row (\<lambda>v. ev_decision v = decision) (vd_rows vdb) of None \<Rightarrow> False | Some old \<Rightarrow> ev_version old = METRICS_VERSION)"

fun evaluate_each ::
  "(string \<Rightarrow> rat option) \<Rightarrow> (string \<times> json) list \<Rightarrow> future_odds list \<Rightarrow> bool \<Rightarrow> time \<Rightarrow> ai_record list \<Rightarrow> nat \<Rightarrow> evaluation_db \<Rightarrow>
   eval_error + (nat \<times> evaluation_db)" where
  "evaluate_each num payload future team_a_won now [] created vdb = Inr (created, vdb)"
| "evaluate_each num payload future team_a_won now (r # rs) created vdb =
     (if evaluated_now vdb (ar_id r) then evaluate_each num payload future team_a_won now rs created vdb
      else (case Option.bind (ar_normalized r) (validate_decision num) of
              None \<Rightarrow> Inl EvalDecisionInvalid
            | Some d \<Rightarrow>
                (case initial_prices num payload of
                   Inl e \<Rightarrow> Inl e
                 | Inr prices \<Rightarrow>
                     evaluate_each num payload future team_a_won now rs (Suc created)
                       (save_evaluation vdb (ar_id r) (evaluation_of payload prices future team_a_won now r d)))))"

definition scored_decisions :: "ai_record list \<Rightarrow> uuid \<Rightarrow> ai_record list" where
  "scored_decisions decisions snapshot_id =
     filter (\<lambda>r. ar_snapshot r = snapshot_id \<and> ar_status r = ''SUCCESS'' \<and> ar_normalized r \<noteq> None) decisions"

definition captured_odds :: "future_odds list \<Rightarrow> uuid \<Rightarrow> future_odds list" where
  "captured_odds captures snapshot_id =
     sort_key fo_observed (filter (\<lambda>c. fo_snapshot c = snapshot_id \<and> fo_status c = ''CAPTURED'') captures)"

text \<open>\<open>identity.get(team, {}).get("id")\<close>: \<open>None\<close> outside when the team is not an object.\<close>

definition stored_team_id :: "(string \<times> json) list option \<Rightarrow> string \<Rightarrow> json option" where
  "stored_team_id identity team =
     (case identity of
        None \<Rightarrow> Some JNull
      | Some fs \<Rightarrow> map_option (\<lambda>t. json_get t ''id'') (obj_fields (json_get_or fs team (JObj []))))"

definition evaluate_snapshot ::
  "(string \<Rightarrow> rat option) \<Rightarrow> decision_snapshot option \<Rightarrow> result_row list \<Rightarrow> ai_record list \<Rightarrow> future_odds list \<Rightarrow> time \<Rightarrow> evaluation_db \<Rightarrow>
   eval_error + (nat \<times> evaluation_db)" where
  "evaluate_snapshot num snapshot result_rows decisions captures now vdb =
     (case Option.bind snapshot (\<lambda>s. map_option (Pair s) (dp_map s)) of
        None \<Rightarrow> Inl EvalNoMap
      | Some (s, m) \<Rightarrow>
          (case find_row (\<lambda>x. rr_map_id x = m) result_rows of
             None \<Rightarrow> Inr (0, vdb)
           | Some result \<Rightarrow>
               (case (rr_conflict result, rr_winner result) of
                  (False, Some w) \<Rightarrow>
                    (let identity = obj_fields (json_get_or (dp_payload s) ''identity'' (JObj []))
                     in case (stored_team_id identity ''team_a'', stored_team_id identity ''team_b'') of
                          (Some (JStr a), Some (JStr b)) \<Rightarrow>
                            if str_uuid w \<noteq> a \<and> str_uuid w \<noteq> b then Inr (0, vdb)
                            else evaluate_each num (dp_payload s) (captured_odds captures (dp_id s)) (str_uuid w = a) now
                                   (scored_decisions decisions (dp_id s)) 0 vdb
                        | (Some _, Some _) \<Rightarrow> Inr (0, vdb)
                        | _ \<Rightarrow> Inl EvalPayloadInvalid)
                | _ \<Rightarrow> Inr (0, vdb))))"

end
