(* ===== verification/MetricsProperties.thy ===== *)
theory MetricsProperties
  imports Metrics
begin

text \<open>
  Properties of the evaluation: every successful decision is scored once and stays scored, and the scores reward
  honest probabilities.
\<close>

subsection \<open>The table of evaluations\<close>

definition evaluations_inv :: "evaluation_db \<Rightarrow> bool" where
  "evaluations_inv vdb \<longleftrightarrow> distinct (map ev_decision (vd_rows vdb))"

lemma evaluated_now_iff:
  assumes "evaluations_inv vdb"
  shows "evaluated_now vdb d \<longleftrightarrow> (\<exists>v \<in> set (vd_rows vdb). ev_decision v = d \<and> ev_version v = METRICS_VERSION)"
proof
  assume "evaluated_now vdb d"
  then show "\<exists>v \<in> set (vd_rows vdb). ev_decision v = d \<and> ev_version v = METRICS_VERSION"
    by (auto simp: evaluated_now_def split: option.splits dest: find_row_SomeD)
next
  assume "\<exists>v \<in> set (vd_rows vdb). ev_decision v = d \<and> ev_version v = METRICS_VERSION"
  then obtain v where v: "v \<in> set (vd_rows vdb)" "ev_decision v = d" "ev_version v = METRICS_VERSION" by blast
  have "find_row (\<lambda>v. ev_decision v = d) (vd_rows vdb) = Some v"
    by (rule find_row_unique [where key = ev_decision]) (use assms v in \<open>simp_all add: evaluations_inv_def\<close>)
  then show "evaluated_now vdb d" using v(3) by (simp add: evaluated_now_def)
qed

lemma evaluated_now_kept:
  assumes "evaluated_now vdb d" "evaluations_inv vdb" "evaluations_inv vdb'"
    "\<forall>v \<in> set (vd_rows vdb). ev_version v = METRICS_VERSION \<longrightarrow> v \<in> set (vd_rows vdb')"
  shows "evaluated_now vdb' d"
  using assms evaluated_now_iff [of vdb d] evaluated_now_iff [of vdb' d] by blast

lemma save_evaluation_ok:
  assumes "evaluations_inv vdb" and "\<not> evaluated_now vdb d" and "\<And>i. ev_decision (mk i) = d \<and> ev_version (mk i) = METRICS_VERSION"
  shows "evaluations_inv (save_evaluation vdb d mk) \<and> evaluated_now (save_evaluation vdb d mk) d \<and>
    (\<forall>v \<in> set (vd_rows vdb). ev_decision v \<noteq> d \<longrightarrow> v \<in> set (vd_rows (save_evaluation vdb d mk))) \<and>
    (\<forall>v \<in> set (vd_rows (save_evaluation vdb d mk)). v \<in> set (vd_rows vdb) \<and> ev_decision v \<noteq> d \<or> (\<exists>i. v = mk i))"
proof (cases "find_row (\<lambda>v. ev_decision v = d) (vd_rows vdb)")
  case None
  then have none: "\<forall>v \<in> set (vd_rows vdb). ev_decision v \<noteq> d" by (simp add: find_row_None_iff)
  have save: "save_evaluation vdb d mk = vdb\<lparr>vd_rows := vd_rows vdb @ [mk (vd_next vdb)], vd_next := Suc (vd_next vdb)\<rparr>"
    by (simp add: save_evaluation_def None)
  have "evaluations_inv (save_evaluation vdb d mk)" using assms(1) none assms(3) by (auto simp: save evaluations_inv_def)
  then show ?thesis using none assms(3) by (auto simp: evaluated_now_iff save)
next
  case (Some old)
  let ?P = "\<lambda>v. ev_decision v = d"
  have save: "vd_rows (save_evaluation vdb d mk) = update_first ?P (\<lambda>v. mk (ev_id v)) (vd_rows vdb)"
    by (simp add: save_evaluation_def Some)
  have keys: "map ev_decision (update_first ?P (\<lambda>v. mk (ev_id v)) t) = map ev_decision t" for t
    by (induction t) (use assms(3) in auto)
  have inv: "evaluations_inv (save_evaluation vdb d mk)" using assms(1) by (simp add: evaluations_inv_def save keys)
  have new: "mk (ev_id old) \<in> set (vd_rows (save_evaluation vdb d mk))"
    unfolding save by (rule in_update_first_new [OF Some, of "\<lambda>v. mk (ev_id v)"])
  have other: "v \<in> set (vd_rows vdb) \<and> ev_decision v \<noteq> d \<or> (\<exists>i. v = mk i)" if "v \<in> set (vd_rows (save_evaluation vdb d mk))" for v
  proof (cases "ev_decision v = d")
    case True
    have "v = mk (ev_id old)"
      using key_row_unique [OF inv [unfolded evaluations_inv_def] that new] True assms(3) by simp
    then show ?thesis by blast
  next
    case False
    then show ?thesis using that assms(3) unfolding save by (auto dest!: in_update_firstD)
  qed
  show ?thesis using inv new other assms(3) by (auto simp: evaluated_now_iff save intro: in_update_first_keep)
qed

lemma save_evaluation_other:
  assumes "x \<noteq> d" and "\<And>i. ev_decision (mk i) = d"
  shows "evaluated_now (save_evaluation vdb d mk) x \<longleftrightarrow> evaluated_now vdb x"
proof -
  have "find_row (\<lambda>v. ev_decision v = x) (update_first (\<lambda>v. ev_decision v = d) (\<lambda>v. mk (ev_id v)) t) =
      find_row (\<lambda>v. ev_decision v = x) t" for t
    by (induction t) (use assms in auto)
  then show ?thesis using assms by (auto simp: evaluated_now_def save_evaluation_def split: option.split)
qed

text \<open>Where the rows of an evaluation come from.\<close>

definition score_of ::
  "(string \<Rightarrow> rat option) \<Rightarrow> (string \<times> json) list \<Rightarrow> future_odds list \<Rightarrow> bool \<Rightarrow> time \<Rightarrow> ai_record list \<Rightarrow> evaluation \<Rightarrow> bool" where
  "score_of num payload future won now rs v \<longleftrightarrow>
     (\<exists>r \<in> set rs. \<exists>d prices i. Option.bind (ar_normalized r) (validate_decision num) = Some d \<and>
        initial_prices num payload = Inr prices \<and> v = evaluation_of payload prices future won now r d i)"

lemma evaluate_each_ok:
  assumes "evaluate_each num payload future won now rs created vdb = Inr (n, vdb')" and "evaluations_inv vdb" and "distinct (map ar_id rs)"
  shows "evaluations_inv vdb' \<and> (\<forall>r \<in> set rs. evaluated_now vdb' (ar_id r)) \<and>
    (\<forall>v \<in> set (vd_rows vdb). ev_version v = METRICS_VERSION \<longrightarrow> v \<in> set (vd_rows vdb')) \<and>
    (\<forall>v \<in> set (vd_rows vdb). ev_decision v \<notin> ar_id ` set rs \<longrightarrow> v \<in> set (vd_rows vdb')) \<and>
    n = created + length (filter (\<lambda>r. \<not> evaluated_now vdb (ar_id r)) rs) \<and>
    (\<forall>v \<in> set (vd_rows vdb'). v \<in> set (vd_rows vdb) \<or> score_of num payload future won now rs v)"
  using assms
proof (induction rs arbitrary: created vdb)
  case Nil
  then show ?case by auto
next
  case (Cons r rs)
  have dist: "distinct (map ar_id rs)" "ar_id r \<notin> ar_id ` set rs" using Cons.prems(3) by auto
  show ?case
  proof (cases "evaluated_now vdb (ar_id r)")
    case True
    have "evaluate_each num payload future won now rs created vdb = Inr (n, vdb')" using Cons.prems(1) True by simp
    note ih = Cons.IH [OF this Cons.prems(2) dist(1)]
    have "evaluated_now vdb' (ar_id r)"
      by (rule evaluated_now_kept [OF True Cons.prems(2)]) (use ih in simp_all)
    then show ?thesis
    proof (intro conjI)
      show "n = created + length (filter (\<lambda>r. \<not> evaluated_now vdb (ar_id r)) (r # rs))" using ih True by simp
    qed (use ih in \<open>auto simp: score_of_def\<close>)
  next
    case False
    then obtain d prices where d: "Option.bind (ar_normalized r) (validate_decision num) = Some d"
      and prices: "initial_prices num payload = Inr prices"
      and rest: "evaluate_each num payload future won now rs (Suc created)
         (save_evaluation vdb (ar_id r) (evaluation_of payload prices future won now r d)) = Inr (n, vdb')"
      using Cons.prems(1) unfolding evaluate_each.simps if_not_P [OF False] by (auto split: option.splits sum.splits)
    let ?mk = "evaluation_of payload prices future won now r d"
    let ?mid = "save_evaluation vdb (ar_id r) ?mk"
    have mk: "ev_decision (?mk i) = ar_id r \<and> ev_version (?mk i) = METRICS_VERSION" for i
      by (cases prices) (simp add: evaluation_of_def Let_def)
    note s = save_evaluation_ok [of vdb "ar_id r" ?mk, OF Cons.prems(2) False mk]
    have mid: "evaluations_inv ?mid" by (rule s [THEN conjunct1])
    note ih = Cons.IH [OF rest mid dist(1)]
    have now: "evaluated_now ?mid x \<longleftrightarrow> evaluated_now vdb x" if "x \<noteq> ar_id r" for x
      by (rule save_evaluation_other [OF that]) (use mk in simp)
    have "filter (\<lambda>r. \<not> evaluated_now ?mid (ar_id r)) rs = filter (\<lambda>r. \<not> evaluated_now vdb (ar_id r)) rs"
      by (intro filter_cong refl arg_cong [where f = Not] now) (metis dist(2) imageI)
    then have count: "n = created + length (filter (\<lambda>r. \<not> evaluated_now vdb (ar_id r)) (r # rs))" using ih False by (simp only: filter.simps if_True not_False_eq_True list.size)
    have mine: "evaluated_now vdb' (ar_id r)"
      by (rule evaluated_now_kept [OF _ mid]) (use ih s in simp_all)
    have keep: "v \<in> set (vd_rows ?mid)" if "v \<in> set (vd_rows vdb)" "ev_version v = METRICS_VERSION" for v
    proof -
      have "ev_decision v \<noteq> ar_id r" using that False evaluated_now_iff [OF Cons.prems(2)] by metis
      then show ?thesis using s that(1) by simp
    qed
    have new: "v \<in> set (vd_rows vdb) \<or> score_of num payload future won now (r # rs) v" if "v \<in> set (vd_rows vdb')" for v
    proof -
      have "v \<in> set (vd_rows ?mid) \<or> score_of num payload future won now rs v" using ih that by simp
      then show ?thesis
      proof
        assume "v \<in> set (vd_rows ?mid)"
        then have "v \<in> set (vd_rows vdb) \<or> (\<exists>i. v = ?mk i)"
          using s [THEN conjunct2, THEN conjunct2, THEN conjunct2] by blast
        then show ?thesis using d prices by (auto simp: score_of_def)
      qed (auto simp: score_of_def)
    qed
    show ?thesis
    proof (intro conjI)
      show "n = created + length (filter (\<lambda>r. \<not> evaluated_now vdb (ar_id r)) (r # rs))" by (rule count)
      show "\<forall>v \<in> set (vd_rows vdb'). v \<in> set (vd_rows vdb) \<or> score_of num payload future won now (r # rs) v"
        using new by blast
      show "\<forall>r \<in> set (r # rs). evaluated_now vdb' (ar_id r)" using ih mine by simp
      show "\<forall>v \<in> set (vd_rows vdb). ev_version v = METRICS_VERSION \<longrightarrow> v \<in> set (vd_rows vdb')" using ih keep by simp
      show "\<forall>v \<in> set (vd_rows vdb). ev_decision v \<notin> ar_id ` set (r # rs) \<longrightarrow> v \<in> set (vd_rows vdb')" using ih s by simp
      show "evaluations_inv vdb'" using ih by simp
    qed
  qed
qed

lemma evaluate_each_again:
  assumes "\<forall>r \<in> set rs. evaluated_now vdb (ar_id r)"
  shows "evaluate_each num payload future won now rs created vdb = Inr (created, vdb)"
  using assms by (induction rs) auto

lemma distinct_scored: "distinct (map ar_id ds) \<Longrightarrow> distinct (map ar_id (scored_decisions ds i))"
  by (simp add: scored_decisions_def distinct_map_filter)

text \<open>The map of a snapshot has a winner that is one of its two teams, and the providers agree.\<close>

definition decided_by :: "decision_snapshot \<Rightarrow> result_row list \<Rightarrow> bool \<Rightarrow> bool" where
  "decided_by s results team_a_won \<longleftrightarrow>
     (\<exists>m x w a b. dp_map s = Some m \<and> find_row (\<lambda>x. rr_map_id x = m) results = Some x \<and> \<not> rr_conflict x \<and> rr_winner x = Some w \<and>
        stored_team_id (obj_fields (json_get_or (dp_payload s) ''identity'' (JObj []))) ''team_a'' = Some (JStr a) \<and>
        stored_team_id (obj_fields (json_get_or (dp_payload s) ''identity'' (JObj []))) ''team_b'' = Some (JStr b) \<and>
        (str_uuid w = a \<or> str_uuid w = b) \<and> (team_a_won \<longleftrightarrow> str_uuid w = a))"

lemma evaluate_decided:
  assumes "decided_by s results won"
  shows "evaluate_snapshot num (Some s) results decisions captures now vdb =
    evaluate_each num (dp_payload s) (captured_odds captures (dp_id s)) won now (scored_decisions decisions (dp_id s)) 0 vdb"
  using assms by (auto simp: decided_by_def evaluate_snapshot_def Let_def)

lemma evaluate_undecided:
  assumes "evaluate_snapshot num (Some s) results decisions captures now vdb = Inr (n, vdb')" and "\<not> (\<exists>won. decided_by s results won)"
  shows "n = 0 \<and> vdb' = vdb"
proof (rule ccontr)
  assume ne: "\<not> (n = 0 \<and> vdb' = vdb)"
  have "\<exists>won. decided_by s results won"
    using assms(1) ne unfolding evaluate_snapshot_def decided_by_def
    by (auto simp: Let_def split: option.splits bool.splits json.splits if_splits)
  then show False using assms(2) by blast
qed

text \<open>C28. Every decision is scored exactly once.  When a snapshot is evaluated, its successful decisions have an evaluation
  of the current version afterwards if the map has an undisputed winner among the two teams, and nothing changes
  otherwise; the count returned is that of the decisions that had none.  An evaluation of the current version never
  changes again and no other decision's row is touched; all new rows are scores of the decision, the stored prices,
  the captured odds and the winner; and evaluating again, whenever and with whatever captures, does nothing.\<close>

theorem decisions_are_scored_once:
  assumes "evaluate_snapshot num (Some s) results decisions captures now vdb = Inr (n, vdb')"
    and "evaluations_inv vdb" and "distinct (map ar_id decisions)"
  shows "evaluations_inv vdb' \<and>
    (\<forall>v \<in> set (vd_rows vdb). ev_version v = METRICS_VERSION \<or> ev_decision v \<notin> ar_id ` set (scored_decisions decisions (dp_id s)) \<longrightarrow>
       v \<in> set (vd_rows vdb')) \<and>
    ((\<exists>won. decided_by s results won) \<longrightarrow> (\<forall>r \<in> set (scored_decisions decisions (dp_id s)). evaluated_now vdb' (ar_id r)) \<and>
       n = length (filter (\<lambda>r. \<not> evaluated_now vdb (ar_id r)) (scored_decisions decisions (dp_id s)))) \<and>
    (\<forall>v \<in> set (vd_rows vdb') - set (vd_rows vdb). \<exists>won. decided_by s results won \<and>
       score_of num (dp_payload s) (captured_odds captures (dp_id s)) won now (scored_decisions decisions (dp_id s)) v) \<and>
    evaluate_snapshot num (Some s) results decisions captures' now' vdb' = Inr (0, vdb')"
proof (cases "\<exists>won. decided_by s results won")
  case True
  then obtain won where won: "decided_by s results won" by blast
  have run: "evaluate_each num (dp_payload s) (captured_odds captures (dp_id s)) won now (scored_decisions decisions (dp_id s)) 0 vdb = Inr (n, vdb')"
    using assms(1) by (simp only: evaluate_decided [OF won])
  note ok = evaluate_each_ok [OF run assms(2) distinct_scored [OF assms(3)]]
  have "evaluate_snapshot num (Some s) results decisions captures' now' vdb' = Inr (0, vdb')"
    unfolding evaluate_decided [OF won] by (rule evaluate_each_again) (use ok in simp)
  then show ?thesis using ok won by auto
next
  case False
  then have same: "n = 0" "vdb' = vdb" using evaluate_undecided [OF assms(1)] by auto
  have "evaluate_snapshot num (Some s) results decisions captures' now' vdb = Inr (0, vdb)"
    using assms(1) False unfolding same evaluate_snapshot_def decided_by_def
    by (auto simp: Let_def split: option.splits bool.splits json.splits if_splits)
  then show ?thesis using assms(2) False same by simp
qed

subsection \<open>Proper scores\<close>

text \<open>What a forecaster expects of a score when the probability of Team A is \<open>p\<close>.\<close>

definition expected_brier :: "rat \<Rightarrow> rat \<Rightarrow> rat" where
  "expected_brier p q = p * the (brier_score (Some q) True) + (1 - p) * the (brier_score (Some q) False)"

definition expected_log_loss :: "rat \<Rightarrow> rat \<Rightarrow> real" where
  "expected_log_loss p q = real_of_rat p * the (log_loss (Some q) True) + (1 - real_of_rat p) * the (log_loss (Some q) False)"

lemma brier_excess: "expected_brier p q = expected_brier p p + (q - p)\<^sup>2"
  by (simp add: expected_brier_def brier_score_def power2_eq_square algebra_simps)

lemma ln_ratio: "0 < a \<Longrightarrow> 0 < b \<Longrightarrow> a * (ln b - ln a) \<le> b - a" for a b :: real
proof -
  assume a: "0 < a" "0 < b"
  have "ln (b / a) \<le> b / a - 1" using a by (intro ln_le_minus_one) simp
  then have "ln b - ln a \<le> b / a - 1" using a by (simp add: ln_div)
  then have "a * (ln b - ln a) \<le> a * (b / a - 1)" using a by (intro mult_left_mono) simp_all
  also have "\<dots> = b - a" using a by (simp add: field_simps)
  finally show ?thesis .
qed

lemma gibbs:
  fixes p q :: real
  assumes "0 < p" "p < 1" "0 < q" "q < 1"
  shows "p * - ln p + (1 - p) * - ln (1 - p) \<le> p * - ln q + (1 - p) * - ln (1 - q)"
  using ln_ratio [of p q] ln_ratio [of "1 - p" "1 - q"] assms by (simp add: algebra_simps)

lemma clip_range: "0 < clip_probability q \<and> clip_probability q < 1"
  by (simp add: clip_probability_def min_def max_def)

lemma ln_ratio_eq: "a * (ln b - ln a) = b - a \<Longrightarrow> 0 < a \<Longrightarrow> 0 < b \<Longrightarrow> a = b" for a b :: real
proof -
  assume a: "0 < a" "0 < b" and eq: "a * (ln b - ln a) = b - a"
  then have "ln (b / a) = b / a - 1" by (simp add: ln_div field_simps)
  then have "b / a = 1" using a by (intro ln_eq_minus_one) simp_all
  then show ?thesis using a by simp
qed

lemma gibbs_strict:
  fixes p q :: real
  assumes "0 < p" "p < 1" "0 < q" "q < 1"
    and "p * - ln p + (1 - p) * - ln (1 - p) = p * - ln q + (1 - p) * - ln (1 - q)"
  shows "p = q"
proof (rule ln_ratio_eq)
  have "p * (ln q - ln p) + (1 - p) * (ln (1 - q) - ln (1 - p)) = 0" using assms(5) by (simp add: algebra_simps)
  then show "p * (ln q - ln p) = q - p" using ln_ratio [of p q] ln_ratio [of "1 - p" "1 - q"] assms by linarith
qed (use assms in simp_all)

lemma log_loss_of: "the (log_loss (Some q) w) =
    - (if w then ln (real_of_rat (clip_probability q)) else ln (1 - real_of_rat (clip_probability q)))"
  by (simp add: log_loss_def Let_def)

lemma real_clip: "0 < real_of_rat (clip_probability q)" "real_of_rat (clip_probability q) < 1"
  using clip_range [of q] by (simp_all add: of_rat_less_1_iff)

lemma clip_twice [simp]: "clip_probability (clip_probability p) = clip_probability p"
  by (simp add: clip_probability_def min_def max_def)

text \<open>The scores cannot be gamed.  Both scores are proper: a model that believes in \<open>p\<close> and reports \<open>q\<close> loses, in
  expectation, exactly \<open>(q - p)\<^sup>2\<close> of the Brier score; and under a belief within the clipping range, no report has a smaller
  expected logarithmic loss than the belief, with equality only for reports clipped to it.  The Brier score of a
  probability lies between zero and one, and the logarithmic loss is positive and finite even for the reports 0 and 1.\<close>

theorem scores_are_proper:
  assumes "0 \<le> q" "q \<le> 1"
  shows "expected_brier p q = expected_brier p p + (q - p)\<^sup>2 \<and>
    expected_log_loss (clip_probability p) p \<le> expected_log_loss (clip_probability p) q \<and>
    (expected_log_loss (clip_probability p) q = expected_log_loss (clip_probability p) p \<longleftrightarrow> clip_probability q = clip_probability p) \<and>
    0 \<le> the (brier_score (Some q) w) \<and> the (brier_score (Some q) w) \<le> 1 \<and> 0 < the (log_loss (Some q) w)"
proof -
  let ?p = "real_of_rat (clip_probability p)" and ?q = "real_of_rat (clip_probability q)"
  note r = real_clip [of p] real_clip [of q]
  have e: "expected_log_loss (clip_probability p) x =
      ?p * - ln (real_of_rat (clip_probability x)) + (1 - ?p) * - ln (1 - real_of_rat (clip_probability x))" for x
    by (simp add: expected_log_loss_def log_loss_of)
  have le: "expected_log_loss (clip_probability p) p \<le> expected_log_loss (clip_probability p) q" unfolding e by (rule gibbs [OF r])
  have eq: "expected_log_loss (clip_probability p) q = expected_log_loss (clip_probability p) p \<longleftrightarrow> clip_probability q = clip_probability p"
  proof
    assume "expected_log_loss (clip_probability p) q = expected_log_loss (clip_probability p) p"
    then have "?p = ?q" by (intro gibbs_strict [OF r]) (simp only: e)
    then show "clip_probability q = clip_probability p" by simp
  qed (simp add: expected_log_loss_def log_loss_of)
  have "\<bar>q - of_bool w\<bar> \<le> 1" using assms by (cases w) simp_all
  then have "(q - of_bool w)\<^sup>2 \<le> 1" by (simp add: abs_square_le_1)
  then have "0 \<le> the (brier_score (Some q) w) \<and> the (brier_score (Some q) w) \<le> 1" by (simp add: brier_score_def)
  moreover have "0 < the (log_loss (Some q) w)" using real_clip [of q] by (cases w) (simp_all add: log_loss_of ln_less_zero_iff)
  ultimately show ?thesis using brier_excess [of p q] le eq by blast
qed

theorem scores_are_proper_witness:
  "expected_brier (1 / 2) (3 / 4) = 5 / 16 \<and> expected_log_loss (clip_probability (1 / 2)) (1 / 2) \<le> expected_log_loss (clip_probability (1 / 2)) (3 / 4)"
  using scores_are_proper [of "3 / 4" "1 / 2" True] by (simp add: expected_brier_def brier_score_def power2_eq_square)

subsection \<open>A sample evaluation\<close>

definition scored_payload :: "(string \<times> json) list" where
  "scored_payload =
     [(''identity'', JObj [(''team_a'', JObj [(''id'', JStr ''10'')]), (''team_b'', JObj [(''id'', JStr ''11'')])]),
      (''market'', JObj [(''observations'', JList [JObj [(''price'', JStr ''2''), (''selection_team_id'', JStr ''10'')]])])]"

definition scored_snapshot :: decision_snapshot where
  "scored_snapshot = \<lparr>dp_id = 4, dp_map = Some 5, dp_decision_at = 0, dp_mode = ''LIVE_BASIC'', dp_payload = scored_payload, dp_hash = []\<rparr>"

definition scored_record :: ai_record where
  "scored_record =
     \<lparr>ar_id = 1, ar_snapshot = 4, ar_snapshot_hash = [], ar_experiment = ([], [], [], [], [], []), ar_model_version = [],
      ar_input_hash = None, ar_bankroll_before = None, ar_stake = Some 100, ar_started = 0, ar_received = None, ar_latency = None,
      ar_usage = no_usage, ar_raw = None,
      ar_normalized = Some (JObj [(''action'', JStr ''BUY_A''), (''confidence'', JInt 1), (''market_assessment'', JStr ''FAIR''),
         (''fair_probability_a'', JNull), (''primary_reasons'', JList []), (''blockers'', JList [])]),
      ar_status = ''SUCCESS'', ar_error = None, ar_job_enqueued = None, ar_job_claimed = None, ar_prepare_started = None,
      ar_prepare_completed = None, ar_persisted = None\<rparr>"

definition scored_result :: result_row where
  "scored_result = \<lparr>rr_map_id = 5, rr_winner = Some 10, rr_conflict = False, rr_basic_first_usable_at = 0,
     rr_advanced_first_usable_at = None, rr_settled_at = 0\<rparr>"

definition no_evaluations :: evaluation_db where
  "no_evaluations = \<lparr>vd_rows = [], vd_next = 0\<rparr>"

lemma scored_parse:
  "Option.bind (ar_normalized scored_record) (validate_decision (\<lambda>s. Some 2)) =
     Some \<lparr>ad_action = BUY_A, ad_probability = None, ad_confidence = 1, ad_assessment = ''FAIR'', ad_minimum_odds = None, ad_stake = None,
           ad_reasons = [], ad_concerns = []\<rparr>"
  by code_simp

lemma scored_prices: "initial_prices (\<lambda>s. Some 2) scored_payload = Inr (Some 2, None)"
  by code_simp

lemma scored_outcome: "decided_by scored_snapshot [scored_result] True"
proof -
  have "str_uuid 10 = ''10''" by code_simp
  then show ?thesis
    by (simp add: decided_by_def scored_snapshot_def scored_result_def scored_payload_def stored_team_id_def json_get_or_def
        obj_fields_def json_get_def)
qed

definition scored_evaluation :: evaluation where
  "scored_evaluation = evaluation_of scored_payload (Some 2, None) [] True 9 scored_record
     \<lparr>ad_action = BUY_A, ad_probability = None, ad_confidence = 1, ad_assessment = ''FAIR'', ad_minimum_odds = None, ad_stake = None,
      ad_reasons = [], ad_concerns = []\<rparr> 0"

lemma scored_run:
  "evaluate_snapshot (\<lambda>s. Some 2) (Some scored_snapshot) [scored_result] [scored_record] [] 9 no_evaluations =
     Inr (1, \<lparr>vd_rows = [scored_evaluation], vd_next = 1\<rparr>)"
proof -
  have rows: "scored_decisions [scored_record] (dp_id scored_snapshot) = [scored_record]" "captured_odds [] (dp_id scored_snapshot) = []"
    by (simp_all add: scored_decisions_def captured_odds_def scored_record_def scored_snapshot_def)
  have payload: "dp_payload scored_snapshot = scored_payload" by (simp add: scored_snapshot_def)
  show ?thesis
    by (simp add: evaluate_decided [OF scored_outcome] rows payload scored_parse scored_prices evaluated_now_def save_evaluation_def
        no_evaluations_def scored_evaluation_def)
qed

theorem decisions_are_scored_once_witness:
  "evaluate_snapshot (\<lambda>s. Some 2) (Some scored_snapshot) [scored_result] [scored_record] [] 9 no_evaluations =
     Inr (1, \<lparr>vd_rows = [scored_evaluation], vd_next = 1\<rparr>) \<and>
   evaluate_snapshot (\<lambda>s. Some 2) (Some scored_snapshot) [scored_result] [scored_record] [] 20 \<lparr>vd_rows = [scored_evaluation], vd_next = 1\<rparr> =
     Inr (0, \<lparr>vd_rows = [scored_evaluation], vd_next = 1\<rparr>)"
proof -
  have "evaluations_inv no_evaluations" "distinct (map ar_id [scored_record])" by (simp_all add: evaluations_inv_def no_evaluations_def)
  from decisions_are_scored_once [OF scored_run this, of "[]" 20] show ?thesis using scored_run by blast
qed

end
