(* ===== verification/Runtime.thy ===== *)
theory Runtime
  imports Tables
begin

text \<open>
  Runtime supervision: the health registry of \<open>app/runtime/health.py\<close>, the loop of a \<open>PeriodicWorker\<close>
  (\<open>app/runtime/worker.py\<close>) and the \<open>Supervisor\<close> of \<open>app/runtime/supervisor.py\<close>.  Clock readings, the
  outcome of a run, the jitter and the moments a stop is requested are arguments.
\<close>

subsection \<open>Health\<close>

datatype worker_state_kind = W_STARTING | W_RUNNING | W_DEGRADED | W_RESTARTING | W_FAILED | W_STOPPING | W_STOPPED

fun worker_state_value :: "worker_state_kind \<Rightarrow> string" where
  "worker_state_value W_STARTING = ''STARTING''"
| "worker_state_value W_RUNNING = ''RUNNING''"
| "worker_state_value W_DEGRADED = ''DEGRADED''"
| "worker_state_value W_RESTARTING = ''RESTARTING''"
| "worker_state_value W_FAILED = ''FAILED''"
| "worker_state_value W_STOPPING = ''STOPPING''"
| "worker_state_value W_STOPPED = ''STOPPED''"

type_synonym metadata = "(string \<times> json) list"

record worker_health =
  wh_name :: string
  wh_state :: string
  wh_attempt_at :: "time option"
  wh_success_at :: "time option"
  wh_message_at :: "time option"
  wh_failures :: nat
  wh_error :: "string option"
  wh_messages :: nat
  wh_restarts :: nat
  wh_metadata :: metadata

record dependency_health =
  dh_name :: string
  dh_status :: string
  dh_message :: "string option"
  dh_attempt_at :: "time option"
  dh_success_at :: "time option"
  dh_message_at :: "time option"
  dh_failures :: nat
  dh_error :: "string option"
  dh_updated_at :: time
  dh_requires_message :: bool
  dh_max_message_age :: "rat option"
  dh_metadata :: metadata

record health_registry =
  hr_workers :: "(string \<times> worker_health) list"
  hr_dependencies :: "(string \<times> dependency_health) list"

definition new_worker :: "string \<Rightarrow> worker_health" where
  "new_worker name =
     \<lparr>wh_name = name, wh_state = ''STARTING'', wh_attempt_at = None, wh_success_at = None, wh_message_at = None, wh_failures = 0,
      wh_error = None, wh_messages = 0, wh_restarts = 0, wh_metadata = []\<rparr>"

definition worker_of :: "health_registry \<Rightarrow> string \<Rightarrow> worker_health" where
  "worker_of reg name = (case map_of (hr_workers reg) name of None \<Rightarrow> new_worker name | Some h \<Rightarrow> h)"

text \<open>\<open>setdefault\<close> followed by assignments.\<close>

definition with_worker :: "(worker_health \<Rightarrow> worker_health) \<Rightarrow> health_registry \<Rightarrow> string \<Rightarrow> health_registry" where
  "with_worker f reg name = reg\<lparr>hr_workers := AList.update name (f (worker_of reg name)) (hr_workers reg)\<rparr>"

text \<open>\<open>dict.update\<close>.\<close>

definition merge_metadata :: "metadata \<Rightarrow> metadata \<Rightarrow> metadata" where
  "merge_metadata old new = foldl (\<lambda>d (k, v). AList.update k v d) old new"

definition worker_state :: "health_registry \<Rightarrow> string \<Rightarrow> worker_state_kind \<Rightarrow> string option \<Rightarrow> bool \<Rightarrow> health_registry" where
  "worker_state reg name state err restart =
     with_worker (\<lambda>h. h\<lparr>wh_state := worker_state_value state, wh_error := err,
        wh_restarts := (if restart then Suc (wh_restarts h) else wh_restarts h),
        wh_failures := (if state = W_RUNNING then 0 else wh_failures h)\<rparr>) reg name"

definition worker_attempt :: "health_registry \<Rightarrow> string \<Rightarrow> time \<Rightarrow> health_registry" where
  "worker_attempt reg name now = with_worker (\<lambda>h. h\<lparr>wh_attempt_at := Some now\<rparr>) reg name"

definition worker_success :: "health_registry \<Rightarrow> string \<Rightarrow> time \<Rightarrow> metadata \<Rightarrow> health_registry" where
  "worker_success reg name now meta =
     with_worker (\<lambda>h. h\<lparr>wh_success_at := Some now, wh_failures := 0, wh_error := None,
        wh_metadata := merge_metadata (wh_metadata h) meta\<rparr>) reg name"

definition worker_message :: "health_registry \<Rightarrow> string \<Rightarrow> time \<Rightarrow> metadata \<Rightarrow> health_registry" where
  "worker_message reg name now meta =
     with_worker (\<lambda>h. h\<lparr>wh_message_at := Some now, wh_messages := Suc (wh_messages h),
        wh_metadata := merge_metadata (wh_metadata h) meta\<rparr>) reg name"

definition worker_failure :: "health_registry \<Rightarrow> string \<Rightarrow> string \<Rightarrow> health_registry" where
  "worker_failure reg name err = with_worker (\<lambda>h. h\<lparr>wh_failures := Suc (wh_failures h), wh_error := Some err\<rparr>) reg name"

definition dependency_or_new :: "health_registry \<Rightarrow> string \<Rightarrow> string \<Rightarrow> time \<Rightarrow> dependency_health" where
  "dependency_or_new reg name status now =
     (case map_of (hr_dependencies reg) name of
        Some h \<Rightarrow> h
      | None \<Rightarrow> \<lparr>dh_name = name, dh_status = status, dh_message = None, dh_attempt_at = None, dh_success_at = None, dh_message_at = None,
                 dh_failures = 0, dh_error = None, dh_updated_at = now, dh_requires_message = False, dh_max_message_age = None,
                 dh_metadata = []\<rparr>)"

definition healthy_statuses :: "string list" where
  "healthy_statuses = [''READY'', ''SAFE'']"

definition unhealthy_statuses :: "string list" where
  "unhealthy_statuses = [''DEGRADED'', ''ACTION_REQUIRED'', ''FAILED'', ''UNSAFE'']"

definition dependency ::
  "health_registry \<Rightarrow> time \<Rightarrow> string \<Rightarrow> string \<Rightarrow> string option \<Rightarrow> bool \<Rightarrow> bool option \<Rightarrow> rat option \<Rightarrow> metadata \<Rightarrow> health_registry" where
  "dependency reg now name status message business requires max_age meta =
     (let h = dependency_or_new reg name status now;
          ok = (status \<in> set healthy_statuses); bad = (status \<in> set unhealthy_statuses)
      in reg\<lparr>hr_dependencies := AList.update name
           (h\<lparr>dh_status := status, dh_message := message, dh_attempt_at := Some now, dh_updated_at := now,
              dh_requires_message := (case requires of None \<Rightarrow> dh_requires_message h | Some b \<Rightarrow> b),
              dh_max_message_age := (case max_age of None \<Rightarrow> dh_max_message_age h | Some a \<Rightarrow> Some a),
              dh_message_at := (if business then Some now else dh_message_at h),
              dh_success_at := (if ok then Some now else dh_success_at h),
              dh_failures := (if ok then 0 else if bad then Suc (dh_failures h) else dh_failures h),
              dh_error := (if ok then None else if bad then message else dh_error h),
              dh_metadata := merge_metadata (dh_metadata h) meta\<rparr>) (hr_dependencies reg)\<rparr>)"

definition restore_dependency ::
  "health_registry \<Rightarrow> time \<Rightarrow> string \<Rightarrow> string \<Rightarrow> time \<Rightarrow> string option \<Rightarrow> metadata \<Rightarrow> health_registry" where
  "restore_dependency reg now name status last_success message meta =
     (let h = dependency_or_new reg name status now
      in reg\<lparr>hr_dependencies := AList.update name
           (h\<lparr>dh_status := status, dh_message := message, dh_success_at := Some last_success, dh_updated_at := now,
              dh_failures := (if status = ''DEGRADED'' then 1 else 0),
              dh_error := (if status = ''DEGRADED'' then message else None),
              dh_metadata := merge_metadata (dh_metadata h) meta\<rparr>) (hr_dependencies reg)\<rparr>)"

text \<open>What is reported of a dependency: its record with the status and message shown, and its age.\<close>

definition dependency_age :: "dependency_health \<Rightarrow> time \<Rightarrow> rat option" where
  "dependency_age h observed_at =
     map_option (\<lambda>t. max (seconds_of (observed_at - t)) 0) (if dh_requires_message h then dh_message_at h else dh_success_at h)"

definition dependency_payload :: "dependency_health \<Rightarrow> time \<Rightarrow> dependency_health \<times> rat option" where
  "dependency_payload h observed_at =
     (let age = dependency_age h observed_at;
          stale = (case (dh_max_message_age h, age) of (Some m, Some a) \<Rightarrow> m < a | _ \<Rightarrow> False)
      in (if dh_requires_message h \<and> dh_status h = ''READY'' \<and> dh_message_at h = None
          then h\<lparr>dh_status := ''UNKNOWN'', dh_message := Some ''connected without a business message''\<rparr>
          else if dh_requires_message h \<and> stale \<and> dh_status h = ''READY''
          then h\<lparr>dh_status := ''DEGRADED'', dh_message := Some ''business messages are stale''\<rparr>
          else h, age))"

definition ai_dependencies :: "string list" where
  "ai_dependencies = [''GPT'', ''CLAUDE'', ''GEMINI'', ''DEEPSEEK'', ''KIMI'', ''LOCAL_GPT'']"

definition degraded_statuses :: "string list" where
  "degraded_statuses = [''DEGRADED'', ''ACTION_REQUIRED'', ''UNKNOWN'', ''UNSAFE'', ''CAUTION'', ''FAILED'']"

definition overall_status :: "(string \<times> string) list \<Rightarrow> string" where
  "overall_status statuses =
     (let ai = List.map_filter (map_of statuses) ai_dependencies
      in if map_of statuses ''DATABASE'' \<noteq> Some ''READY'' then ''ACTION_REQUIRED''
         else if ai \<noteq> [] \<and> list_all (\<lambda>s. s = ''ACTION_REQUIRED'') ai then ''ACTION_REQUIRED''
         else if list_ex (\<lambda>(n, s). s \<in> set degraded_statuses) statuses then ''DEGRADED''
         else ''READY'')"

record health_report =
  hs_overall :: string
  hs_workers :: "(string \<times> worker_health) list"
  hs_dependencies :: "(string \<times> dependency_health \<times> rat option) list"
  hs_observed_at :: time

definition health_snapshot :: "health_registry \<Rightarrow> time \<Rightarrow> health_report" where
  "health_snapshot reg observed_at =
     (let deps = map (\<lambda>(n, h). (n, dependency_payload h observed_at)) (hr_dependencies reg)
      in \<lparr>hs_overall = overall_status (map (\<lambda>(n, h, age). (n, dh_status h)) deps), hs_workers = hr_workers reg,
          hs_dependencies = deps, hs_observed_at = observed_at\<rparr>)"

subsection \<open>Periodic workers\<close>

text \<open>How a run of a worker ends, if it does.\<close>

datatype run_end = Returned | Raised string

text \<open>One tick: the clock when the action starts and when it has succeeded, and whether a stop is requested before
  the next one.  The action is a transaction: a raise leaves its state as it was.\<close>

fun periodic_run ::
  "('s \<Rightarrow> time \<Rightarrow> string + 's) \<Rightarrow> string \<Rightarrow> (time \<times> time \<times> bool) list \<Rightarrow> health_registry \<Rightarrow> 's \<Rightarrow>
   health_registry \<times> 's \<times> run_end option" where
  "periodic_run action name [] reg s = (reg, s, None)"
| "periodic_run action name ((started, finished, stopped) # ticks) reg s =
     (let reg1 = worker_attempt reg name started
      in case action s started of
           Inl err \<Rightarrow> (worker_failure reg1 name err, s, Some (Raised err))
         | Inr s' \<Rightarrow>
             (let reg2 = worker_success reg1 name finished []
              in if stopped then (reg2, s', Some Returned) else periodic_run action name ticks reg2 s'))"

subsection \<open>The supervisor\<close>

text \<open>One run of a supervised worker: how it ended, whether a stop had been requested by then, whether one is
  requested while the supervisor waits, and the jitter of the delay.\<close>

record incarnation =
  ic_end :: run_end
  ic_stopped :: bool
  ic_stop_in_wait :: bool
  ic_jitter :: rat

fun end_error :: "run_end \<Rightarrow> string" where
  "end_error Returned = ''RuntimeError: worker exited unexpectedly''"
| "end_error (Raised err) = err"

fun supervise ::
  "rat \<Rightarrow> string \<Rightarrow> incarnation list \<Rightarrow> rat \<Rightarrow> health_registry \<Rightarrow> health_registry \<times> rat list \<times> bool" where
  "supervise max_backoff name [] backoff reg = (worker_state reg name W_RUNNING None False, [], False)"
| "supervise max_backoff name (i # is) backoff reg =
     (let reg1 = worker_state reg name W_RUNNING None False
      in if ic_end i = Returned \<and> ic_stopped i then (reg1, [], True)
         else (let err = end_error (ic_end i);
                   reg2 = worker_state (worker_failure reg1 name err) name W_RESTARTING (Some err) True;
                   delay = min backoff max_backoff * ic_jitter i
               in if ic_stopped i \<or> ic_stop_in_wait i then (reg2, [delay], True)
                  else (let (reg', delays, finished) = supervise max_backoff name is (min (backoff * 2) max_backoff) reg2
                        in (reg', delay # delays, finished))))"

definition start_workers :: "health_registry \<Rightarrow> string list \<Rightarrow> health_registry" where
  "start_workers reg names = foldl (\<lambda>r n. worker_state r n W_STARTING None False) reg names"

definition stop_workers :: "health_registry \<Rightarrow> string list \<Rightarrow> health_registry" where
  "stop_workers reg names =
     foldl (\<lambda>r n. worker_state r n W_STOPPED None False) (foldl (\<lambda>r n. worker_state r n W_STOPPING None False) reg names) names"

end
