(* ===== verification/RuntimeProperties.thy ===== *)
theory RuntimeProperties
  imports Runtime EventProperties
begin

text \<open>
  Properties of the supervised runtime: crashes, delays and stops of a worker, and that the periodic dispatcher works
  off its backlog.
\<close>

subsection \<open>The registry\<close>

lemma worker_of_with [simp]: "worker_of (with_worker f reg name) n = (if n = name then f (worker_of reg name) else worker_of reg n)"
  by (auto simp: with_worker_def worker_of_def update_conv split: option.split)

lemma worker_of_state [simp]:
  "worker_of (worker_state reg name state err restart) n = (if n = name
     then (worker_of reg name)\<lparr>wh_state := worker_state_value state, wh_error := err,
        wh_restarts := (if restart then Suc (wh_restarts (worker_of reg name)) else wh_restarts (worker_of reg name)),
        wh_failures := (if state = W_RUNNING then 0 else wh_failures (worker_of reg name))\<rparr>
     else worker_of reg n)"
  by (simp add: worker_state_def)

lemma worker_of_failure [simp]:
  "worker_of (worker_failure reg name err) n = (if n = name
     then (worker_of reg name)\<lparr>wh_failures := Suc (wh_failures (worker_of reg name)), wh_error := Some err\<rparr> else worker_of reg n)"
  by (simp add: worker_failure_def)

subsection \<open>Crashes and restarts\<close>

text \<open>A run that the supervisor answers with a restart.\<close>

definition restarted :: "incarnation \<Rightarrow> bool" where
  "restarted i \<longleftrightarrow> \<not> ic_stopped i \<and> \<not> ic_stop_in_wait i"

lemma supervise_restarts:
  assumes "\<forall>i \<in> set is. restarted i" and "0 < m"
  shows "let (reg', delays, finished) = supervise m name is b reg
     in \<not> finished \<and> delays = map (\<lambda>(k, i). min (b * 2 ^ k) m * ic_jitter i) (enumerate 0 is) \<and>
        wh_restarts (worker_of reg' name) = wh_restarts (worker_of reg name) + length is \<and>
        wh_failures (worker_of reg' name) = 0 \<and> wh_error (worker_of reg' name) = None \<and>
        wh_state (worker_of reg' name) = ''RUNNING'' \<and> (\<forall>n. n \<noteq> name \<longrightarrow> worker_of reg' n = worker_of reg n)"
  using assms(1)
proof (induction "is" arbitrary: b reg)
  case (Cons i "is")
  have i: "restarted i" "\<forall>j \<in> set is. restarted j" using Cons.prems by simp_all
  let ?err = "end_error (ic_end i)"
  let ?reg2 = "worker_state (worker_failure (worker_state reg name W_RUNNING None False) name ?err) name W_RESTARTING (Some ?err) True"
  let ?b = "min (b * 2) m"
  obtain reg' delays finished where run: "supervise m name is ?b ?reg2 = (reg', delays, finished)" by (metis prod_cases3)
  have step: "supervise m name (i # is) b reg = (reg', min b m * ic_jitter i # delays, finished)"
    using i(1) by (simp add: restarted_def Let_def run)
  have pow: "min (?b * 2 ^ k) m = min (b * 2 ^ Suc k) m" for k
  proof (cases "b * 2 \<le> m")
    case True
    then show ?thesis by (simp add: min_absorb1 mult.assoc)
  next
    case False
    have "m * 1 \<le> (b * 2) * 2 ^ k" by (rule mult_mono) (use False assms(2) in auto)
    moreover have "m * 1 \<le> m * 2 ^ k" by (rule mult_left_mono) (use assms(2) in auto)
    ultimately show ?thesis using False by (simp add: min_absorb2 mult.assoc)
  qed
  have en: "enumerate 0 (i # is) = (0, i) # map (\<lambda>(k, x). (Suc k, x)) (enumerate 0 is)"
    by (auto simp: enumerate_Suc_eq [of 0] split: prod.split)
  show ?case using Cons.IH [OF i(2), of ?b ?reg2]
    unfolding step run Let_def prod.case en
    by (auto simp: pow case_prod_beta comp_def)
qed simp

text \<open>Supervision is crash-only.  However often a worker raises or returns unexpectedly, as long as no stop is requested the
  supervisor starts it again, after a delay that doubles from one second up to the configured maximum, times the jitter; the
  registry counts every restart and shows the worker running, without an error and with no consecutive failures, and no
  other worker's health is touched.\<close>

theorem crashed_workers_restart:
  assumes "\<forall>i \<in> set is. restarted i \<and> 4 / 5 \<le> ic_jitter i \<and> ic_jitter i \<le> 6 / 5" and "0 < m"
  shows "\<exists>reg' delays. supervise m name is 1 reg = (reg', delays, False) \<and> length delays = length is \<and>
    (\<forall>k < length is. delays ! k = min (2 ^ k) m * ic_jitter (is ! k) \<and> 4 / 5 * min (2 ^ k) m \<le> delays ! k \<and> delays ! k \<le> 6 / 5 * m) \<and>
    wh_restarts (worker_of reg' name) = wh_restarts (worker_of reg name) + length is \<and>
    wh_state (worker_of reg' name) = ''RUNNING'' \<and> wh_error (worker_of reg' name) = None \<and> wh_failures (worker_of reg' name) = 0 \<and>
    (\<forall>n. n \<noteq> name \<longrightarrow> worker_of reg' n = worker_of reg n)"
proof -
  have all: "\<forall>i \<in> set is. restarted i" using assms(1) by simp
  obtain reg' delays finished where run: "supervise m name is 1 reg = (reg', delays, finished)" by (metis prod_cases3)
  note facts = supervise_restarts [OF all assms(2), of name 1 reg, unfolded run Let_def prod.case]
  have delays: "delays = map (\<lambda>(k, i). min (2 ^ k) m * ic_jitter i) (enumerate 0 is)" using facts by simp
  have nth: "delays ! k = min (2 ^ k) m * ic_jitter (is ! k)" if "k < length is" for k
    using that by (simp add: delays nth_enumerate_eq)
  have bound: "4 / 5 * min (2 ^ k) m \<le> delays ! k \<and> delays ! k \<le> 6 / 5 * m" if "k < length is" for k
  proof -
    have j: "4 / 5 \<le> ic_jitter (is ! k)" "ic_jitter (is ! k) \<le> 6 / 5" using assms(1) that by simp_all
    have pos: "0 \<le> min (2 ^ k) m" using assms(2) by simp
    have "min (2 ^ k) m * ic_jitter (is ! k) \<le> m * (6 / 5)"
      by (rule mult_mono) (use j assms(2) in auto)
    moreover have "min (2 ^ k) m * (4 / 5) \<le> min (2 ^ k) m * ic_jitter (is ! k)" using j(1) pos by (rule mult_left_mono)
    ultimately show ?thesis by (simp add: nth [OF that] mult.commute)
  qed
  have len: "length delays = length is" by (simp add: delays)
  have run': "supervise m name is 1 reg = (reg', delays, False)" using run facts by simp
  have rest: "wh_restarts (worker_of reg' name) = wh_restarts (worker_of reg name) + length is"
    "wh_state (worker_of reg' name) = ''RUNNING''" "wh_error (worker_of reg' name) = None" "wh_failures (worker_of reg' name) = 0"
    "\<forall>n. n \<noteq> name \<longrightarrow> worker_of reg' n = worker_of reg n"
    using facts by simp_all
  show ?thesis using run' len nth bound rest by (intro exI [of _ reg'] exI [of _ delays] conjI) blast+
qed

definition demo_crashes :: "incarnation list" where
  "demo_crashes = replicate 4 \<lparr>ic_end = Raised ''e'', ic_stopped = False, ic_stop_in_wait = False, ic_jitter = 1\<rparr>"

theorem crashed_workers_restart_witness:
  "\<exists>reg' delays. supervise 3 ''w'' demo_crashes 1 \<lparr>hr_workers = [], hr_dependencies = []\<rparr> = (reg', delays, False) \<and>
     delays = [1, 2, 3, 3] \<and> wh_restarts (worker_of reg' ''w'') = 4"
proof -
  let ?reg = "\<lparr>hr_workers = [], hr_dependencies = []\<rparr>"
  have all: "\<forall>i \<in> set demo_crashes. restarted i \<and> 4 / 5 \<le> ic_jitter i \<and> ic_jitter i \<le> 6 / 5"
    by (simp add: demo_crashes_def restarted_def)
  have "(0::rat) < 3" by simp
  from crashed_workers_restart [OF all this, of "''w''" ?reg] show ?thesis
  proof (elim exE conjE)
    fix reg' delays
    assume run: "supervise 3 ''w'' demo_crashes 1 ?reg = (reg', delays, False)" "length delays = length demo_crashes"
        "wh_restarts (worker_of reg' ''w'') = wh_restarts (worker_of ?reg ''w'') + length demo_crashes"
      and nth: "\<forall>k < length demo_crashes. delays ! k = min (2 ^ k) 3 * ic_jitter (demo_crashes ! k) \<and>
        4 / 5 * min (2 ^ k) 3 \<le> delays ! k \<and> delays ! k \<le> 6 / 5 * 3"
    have len: "length delays = 4" using run(2) by (simp add: demo_crashes_def)
    have "delays ! k = min (2 ^ k) 3" if "k < 4" for k using nth that by (simp add: demo_crashes_def)
    from this [of 0] this [of 1] this [of 2] this [of 3]
    have "delays ! 0 = 1" "delays ! 1 = 2" "delays ! 2 = 3" "delays ! 3 = 3" by simp_all
    moreover obtain w x y z where "delays = [w, x, y, z]"
      using len by (auto simp: length_Suc_conv numeral_eq_Suc)
    ultimately have "delays = [1, 2, 3, 3]" by simp
    then show ?thesis using run by (simp add: worker_of_def new_worker_def demo_crashes_def)
  qed
qed

subsection \<open>The periodic dispatcher\<close>

text \<open>The action of the \<open>DomainEventDispatcher\<close> worker.\<close>

definition dispatch_action ::
  "bool \<Rightarrow> nat \<Rightarrow> ai_experiment list \<Rightarrow> snapshot_ref list \<Rightarrow> event_db \<times> job_db \<Rightarrow> time \<Rightarrow> string + (event_db \<times> job_db)" where
  "dispatch_action pg limit x snaps st now =
     (case dispatch_pending pg (fst st) (snd st) now limit [] x snaps of Inl e \<Rightarrow> Inl ''event dispatch failed'' | Inr (n, st') \<Rightarrow> Inr st')"

definition backlog :: "event_db \<Rightarrow> domain_event_record list" where
  "backlog db = filter (\<lambda>e. er_processed_at e = None) (events db)"

lemma filter_marked:
  "filter (\<lambda>e. er_processed_at e = None) (map (\<lambda>e. if P e then e\<lparr>er_processed_at := Some now\<rparr> else e) t) =
     filter (\<lambda>e. \<not> P e) (filter (\<lambda>e. er_processed_at e = None) t)"
  by (induction t) auto

lemma backlog_after:
  assumes inv: "events_inv db" and ev: "events db' = map (\<lambda>e. if er_id e \<in> er_id ` set (pending_events db limit [])
     then e\<lparr>er_processed_at := Some now\<rparr> else e) (events db)"
  shows "backlog db' = filter (\<lambda>e. e \<notin> set (pending_events db limit [])) (backlog db)"
    and "length (backlog db') = length (backlog db) - limit"
proof -
  let ?p = "pending_events db limit []"
  have p: "?p = order_limit er_occurred_at limit (backlog db)" by (simp add: pending_events_def backlog_def)
  have ids: "er_id e \<in> er_id ` set ?p \<longleftrightarrow> e \<in> set ?p" if "e \<in> set (events db)" for e
    using that pending_in key_row_unique [OF events_invD(1) [OF inv] that] by (metis imageE imageI)
  have "backlog db' = filter (\<lambda>e. er_processed_at e = None)
      (map (\<lambda>e. if e \<in> set ?p then e\<lparr>er_processed_at := Some now\<rparr> else e) (events db))"
    unfolding backlog_def ev by (rule arg_cong [where f = "filter _"], rule map_cong) (simp_all only: ids refl)
  also have "\<dots> = filter (\<lambda>e. e \<notin> set ?p) (filter (\<lambda>e. er_processed_at e = None) (events db))"
    by (rule filter_marked)
  finally show eq: "backlog db' = filter (\<lambda>e. e \<notin> set ?p) (backlog db)" by (simp add: backlog_def)
  have dist: "distinct (backlog db)" using events_invD(1) [OF inv] by (simp add: backlog_def distinct_map)
  have sub: "set ?p \<subseteq> set (backlog db)" by (simp add: p set_order_limit)
  have dp: "distinct ?p" using distinct_order_limit [of id "backlog db" er_occurred_at limit] dist by (simp add: p)
  have "length (backlog db') = card (set (backlog db) - set ?p)"
    unfolding eq distinct_card [OF distinct_filter [OF dist], symmetric] by (rule arg_cong [where f = card]) auto
  also have "\<dots> = card (set (backlog db)) - card (set ?p)" by (rule card_Diff_subset) (use sub in simp_all)
  also have "\<dots> = length (backlog db) - limit"
    unfolding distinct_card [OF dist] distinct_card [OF dp] by (simp add: p length_order_limit)
  finally show "length (backlog db') = length (backlog db) - limit" .
qed

lemma ticks_drain:
  assumes "events_inv db" and "jobs_inv q" and "\<forall>(a, b, stopped) \<in> set ticks. \<not> stopped"
  shows "\<exists>reg' db' q'. periodic_run (dispatch_action pg limit x snaps) name ticks reg (db, q) = (reg', (db', q'), None) \<and>
     length (backlog db') = length (backlog db) - length ticks * limit \<and> set (backlog db') \<subseteq> set (backlog db) \<and>
     (\<forall>e \<in> set (backlog db) - set (backlog db'). event_jobs_queued x snaps q' e) \<and> set (jobs q) \<subseteq> set (jobs q')"
  using assms
proof (induction ticks arbitrary: reg db q)
  case (Cons tick ticks)
  obtain a b where tick: "tick = (a, b, False)" using Cons.prems(3) by (cases tick) auto
  obtain db1 q1 where one: "dispatch_pending pg db q a limit [] x snaps = Inr (length (pending_events db limit []), db1, q1)"
    and ev: "events db1 = map (\<lambda>e. if er_id e \<in> er_id ` set (pending_events db limit [])
         then e\<lparr>er_processed_at := Some a\<rparr> else e) (events db)"
    and ok: "events_inv db1" "jobs_inv q1" "set (jobs q) \<subseteq> set (jobs q1)"
    and has: "\<forall>e \<in> set (pending_events db limit []). event_jobs_queued x snaps q1 e"
    by (rule dispatch_step [OF Cons.prems(1,2)])
  note after = backlog_after [OF Cons.prems(1) ev]
  let ?reg = "worker_success (worker_attempt reg name a) name b []"
  obtain reg' db' q' where rest: "periodic_run (dispatch_action pg limit x snaps) name ticks ?reg (db1, q1) = (reg', (db', q'), None)"
      "length (backlog db') = length (backlog db1) - length ticks * limit" "set (backlog db') \<subseteq> set (backlog db1)"
      "\<forall>e \<in> set (backlog db1) - set (backlog db'). event_jobs_queued x snaps q' e" "set (jobs q1) \<subseteq> set (jobs q')"
    using Cons.IH [OF ok(1,2)] Cons.prems(3) by (metis list.set_intros(2))
  have run: "periodic_run (dispatch_action pg limit x snaps) name (tick # ticks) reg (db, q) = (reg', (db', q'), None)"
    by (simp add: tick dispatch_action_def one rest(1))
  have "event_jobs_queued x snaps q' e" if "e \<in> set (backlog db) - set (backlog db')" for e
    using that rest(4) has after(1) event_jobs_more [OF _ rest(5)] by (cases "e \<in> set (pending_events db limit [])") auto
  moreover have "set (backlog db') \<subseteq> set (backlog db)" using rest(3) after(1) by auto
  ultimately show ?case using run rest(2,5) after(2) ok(3) by (intro exI [of _ reg'] exI [of _ db'] exI [of _ q']) auto
qed simp

text \<open>C6. The backlog is worked off.  Whatever events are pending, a dispatcher that takes at least one event per tick has none
  left after as many ticks as the backlog has batches: no event the repository wrote can stop the loop, the worker never
  fails, and at the end every event has been processed and has its jobs in the queue: its mapped and additional jobs; one
  job per configured experiment for a request of AI decisions whose snapshot is stored; and the closing capture of each
  snapshot of a map that ended.  (No event is recorded meanwhile, the experiments and the stored snapshots are those the
  dispatcher reads in all its ticks, no row is locked by another process, and the worker is not stopped.)\<close>

theorem backlog_drains:
  assumes "events_inv db" and "jobs_inv q" and "\<forall>(a, b, stopped) \<in> set ticks. \<not> stopped"
    and "length (backlog db) \<le> length ticks * limit"
  shows "\<exists>reg' db' q'. periodic_run (dispatch_action pg limit x snaps) name ticks reg (db, q) = (reg', (db', q'), None) \<and>
     backlog db' = [] \<and> (\<forall>e \<in> set (backlog db). event_jobs_queued x snaps q' e) \<and> set (jobs q) \<subseteq> set (jobs q')"
proof -
  obtain reg' db' q' where run: "periodic_run (dispatch_action pg limit x snaps) name ticks reg (db, q) = (reg', (db', q'), None)"
      "length (backlog db') = length (backlog db) - length ticks * limit"
      "\<forall>e \<in> set (backlog db) - set (backlog db'). event_jobs_queued x snaps q' e" "set (jobs q) \<subseteq> set (jobs q')"
    using ticks_drain [OF assms(1-3), of pg limit x snaps name reg] by blast
  then have "backlog db' = []" using assms(4) by simp
  then show ?thesis using run by auto
qed

theorem backlog_drains_witness:
  "\<exists>reg' db' q'. periodic_run (dispatch_action True 10 [] []) ''DomainEventDispatcher'' [(9, 10, False)]
       \<lparr>hr_workers = [], hr_dependencies = []\<rparr> (demo_events, empty_job_db) = (reg', (db', q'), None) \<and> backlog db' = []"
proof -
  have "length (backlog demo_events) \<le> length [(9 :: time, 10 :: time, False)] * 10" by (simp add: backlog_def demo_events_def)
  from backlog_drains [OF demo_events_inv jobs_inv_empty _ this, of True "[]" "[]" "''DomainEventDispatcher''"
      "\<lparr>hr_workers = [], hr_dependencies = []\<rparr>"]
  show ?thesis by auto
qed

end
