(* ===== verification/Sides.thy ===== *)
theory Sides
  imports Collector Identity FutureOdds
begin

text \<open>
  Which team of the series plays Radiant: the evidence of the newest DLTV bootstrap and its projection on
  the canonical teams (\<open>app/providers/dltv/side_identity.py\<close>), and what else a bootstrap says about a
  running map (\<open>parse_live_enrichment\<close> of \<open>app/providers/dltv/parser.py\<close>).
\<close>

subsection \<open>Evidence of the sides\<close>

record side_evidence =
  de_radiant :: "int option"
  de_dire :: "int option"
  de_source :: "string option"
  de_confidence :: "rat option"

definition de_resolved :: "side_evidence \<Rightarrow> bool" where
  "de_resolved e \<longleftrightarrow> de_radiant e \<noteq> None \<and> de_dire e \<noteq> None"

definition unresolved_evidence :: side_evidence where
  "unresolved_evidence = \<lparr>de_radiant = None, de_dire = None, de_source = None, de_confidence = None\<rparr>"

definition evidence_for :: "int \<Rightarrow> int \<Rightarrow> side_evidence" where
  "evidence_for radiant dire =
     \<lparr>de_radiant = Some radiant, de_dire = Some dire, de_source = Some ''DLTV_DB_IS_RADIANT'', de_confidence = Some 1\<rparr>"

definition provider_team_id :: "(string \<times> json) list \<Rightarrow> int option" where
  "provider_team_id team = optional_int (json_get team ''id'')"

definition radiant_flag :: "(string \<times> json) list \<Rightarrow> bool option" where
  "radiant_flag team = (case json_get team ''is_radiant'' of JBool b \<Rightarrow> Some b | _ \<Rightarrow> None)"

definition parse_side_evidence :: "(string \<times> json) list \<Rightarrow> side_evidence" where
  "parse_side_evidence payload =
     (case obj_fields (json_get payload ''db'') of
        None \<Rightarrow> unresolved_evidence
      | Some database \<Rightarrow>
         (case (obj_fields (json_get database ''first_team''), obj_fields (json_get database ''second_team'')) of
            (Some first_team, Some second_team) \<Rightarrow>
              (case (provider_team_id first_team, provider_team_id second_team, radiant_flag first_team, radiant_flag second_team) of
                 (Some first_id, Some second_id, Some first_is_radiant, Some second_is_radiant) \<Rightarrow>
                   if first_is_radiant = second_is_radiant then unresolved_evidence
                   else if first_is_radiant then evidence_for first_id second_id
                   else evidence_for second_id first_id
               | _ \<Rightarrow> unresolved_evidence)
          | _ \<Rightarrow> unresolved_evidence))"

subsection \<open>Projection on the series\<close>

record side_assignment =
  sa_status :: string
  sa_radiant :: "uuid option"
  sa_dire :: "uuid option"
  sa_source :: "string option"
  sa_confidence :: "rat option"
  sa_observed_at :: "time option"
  sa_raw_event :: "uuid option"
  sa_blocker :: "string option"

definition sa_resolved :: "side_assignment \<Rightarrow> bool" where
  "sa_resolved a \<longleftrightarrow> sa_status a = ''RESOLVED''"

definition unresolved_assignment :: "string \<Rightarrow> side_assignment" where
  "unresolved_assignment blocker =
     \<lparr>sa_status = ''UNRESOLVED'', sa_radiant = None, sa_dire = None, sa_source = None, sa_confidence = None,
      sa_observed_at = None, sa_raw_event = None, sa_blocker = Some blocker\<rparr>"

text \<open>A row of \<open>provider_team_mappings\<close> with its \<open>first_seen_at\<close>.\<close>

record dated_mapping =
  dm_mapping :: team_mapping
  dm_first_seen_at :: time

definition up_to :: "time option \<Rightarrow> time \<Rightarrow> bool" where
  "up_to as_of t \<longleftrightarrow> (case as_of of None \<Rightarrow> True | Some d \<Rightarrow> t \<le> d)"

definition side_bootstrap :: "raw_event list \<Rightarrow> int \<Rightarrow> time option \<Rightarrow> raw_event option" where
  "side_bootstrap raw match as_of =
     newest rw_received_at (\<lambda>r. raw_matches ''DLTV_BOOTSTRAP'' (str_int match) r \<and> up_to as_of (rw_received_at r)) raw"

text \<open>The dictionary built from the selected mappings: a later row of the same provider id wins.\<close>

definition side_mappings :: "dated_mapping list \<Rightarrow> string list \<Rightarrow> time option \<Rightarrow> team_mapping list" where
  "side_mappings mappings ids as_of =
     map dm_mapping (filter (\<lambda>m. tm_provider (dm_mapping m) = ''dltv'' \<and> tm_key (dm_mapping m) \<in> set ids \<and>
                               up_to as_of (dm_first_seen_at m)) mappings)"

definition canonical_by_provider :: "team_mapping list \<Rightarrow> string \<Rightarrow> uuid option" where
  "canonical_by_provider rows key = map_option tm_team (find_row (\<lambda>m. tm_key m = key) (rev rows))"

definition assignment_from :: "raw_event \<Rightarrow> side_evidence \<Rightarrow> string \<Rightarrow> uuid option \<Rightarrow> uuid option \<Rightarrow> string option \<Rightarrow> side_assignment" where
  "assignment_from raw e status radiant dire blocker =
     \<lparr>sa_status = status, sa_radiant = radiant, sa_dire = dire, sa_source = de_source e, sa_confidence = de_confidence e,
      sa_observed_at = Some (rw_received_at raw), sa_raw_event = Some (rw_id raw), sa_blocker = blocker\<rparr>"

definition project_evidence ::
  "dated_mapping list \<Rightarrow> identity_series \<Rightarrow> time option \<Rightarrow> raw_event \<Rightarrow> side_assignment" where
  "project_evidence mappings series as_of raw =
     (let e = parse_side_evidence (rw_payload raw)
      in case (de_radiant e, de_dire e) of
           (Some r, Some d) \<Rightarrow>
             (let rows = side_mappings mappings [str_int r, str_int d] as_of
              in case (canonical_by_provider rows (str_int r), canonical_by_provider rows (str_int d)) of
                   (Some radiant, Some dire) \<Rightarrow>
                     if radiant = dire \<or> {radiant, dire} \<noteq> {ser_team_a series, ser_team_b series}
                     then assignment_from raw e ''CONFLICT'' (Some radiant) (Some dire) (Some ''SIDE_IDENTITY_SERIES_CONFLICT'')
                     else assignment_from raw e ''RESOLVED'' (Some radiant) (Some dire) None
                 | _ \<Rightarrow> assignment_from raw e ''UNRESOLVED'' None None (Some ''SIDE_IDENTITY_TEAM_MAPPING_MISSING''))
         | _ \<Rightarrow> assignment_from raw unresolved_evidence ''UNRESOLVED'' None None (Some ''SIDE_IDENTITY_UNRESOLVED''))"

definition project_map_sides ::
  "raw_event list \<Rightarrow> dated_mapping list \<Rightarrow> identity_map \<Rightarrow> identity_series \<Rightarrow> time option \<Rightarrow> side_assignment" where
  "project_map_sides raw mappings m series as_of =
     (case mr_valve_match m of
        None \<Rightarrow> unresolved_assignment ''SIDE_IDENTITY_VALVE_MATCH_MISSING''
      | Some match \<Rightarrow>
         (case side_bootstrap raw match as_of of
            None \<Rightarrow> unresolved_assignment ''SIDE_IDENTITY_EVIDENCE_MISSING''
          | Some r \<Rightarrow> project_evidence mappings series as_of r))"

definition side_assignment_payload :: "document_text \<Rightarrow> side_assignment \<Rightarrow> json" where
  "side_assignment_payload txt a =
     JObj [(''status'', JStr (sa_status a)),
           (''radiant_team_id'', opt_json (\<lambda>t. JStr (str_uuid t)) (sa_radiant a)),
           (''dire_team_id'', opt_json (\<lambda>t. JStr (str_uuid t)) (sa_dire a)),
           (''source'', opt_json JStr (sa_source a)), (''confidence'', opt_json JNum (sa_confidence a)),
           (''observed_at'', opt_json (\<lambda>t. JStr (tx_instant txt t)) (sa_observed_at a)),
           (''raw_event_id'', opt_json (\<lambda>t. JStr (str_uuid t)) (sa_raw_event a)),
           (''blocker'', opt_json JStr (sa_blocker a))]"

subsection \<open>Players and bans of a bootstrap\<close>

definition parse_int_token :: "string \<Rightarrow> int option" where
  "parse_int_token s = (case parse_int (strip s) of None \<Rightarrow> None | Some i \<Rightarrow> if 0 \<le> i then Some i else None)"

fun split_slash :: "string \<Rightarrow> string list" where
  "split_slash [] = [[]]"
| "split_slash (x # xs) =
     (if x = CHR ''/'' then [] # split_slash xs
      else (case split_slash xs of [] \<Rightarrow> [[x]] | w # ws \<Rightarrow> (x # w) # ws))"

definition parse_kda :: "json \<Rightarrow> json" where
  "parse_kda v =
     (case v of
        JStr s \<Rightarrow>
          (case map parse_int_token (split_slash s) of
             [Some k, Some d, Some a] \<Rightarrow> JObj [(''kills'', JInt k), (''deaths'', JInt d), (''assists'', JInt a)]
           | _ \<Rightarrow> JNull)
      | _ \<Rightarrow> JNull)"

definition parse_pair :: "json \<Rightarrow> json" where
  "parse_pair v =
     (case v of
        JStr s \<Rightarrow>
          (case map parse_int_token (split_slash s) of
             [Some a, Some b] \<Rightarrow> JObj [(''first'', JInt a), (''second'', JInt b)]
           | _ \<Rightarrow> JNull)
      | _ \<Rightarrow> JNull)"

definition parse_items :: "json \<Rightarrow> json" where
  "parse_items v = JList (filter (\<lambda>i. case i of JInt n \<Rightarrow> 0 \<le> n | _ \<Rightarrow> False) (json_items v))"

definition int_json :: "int option \<Rightarrow> json" where
  "int_json = opt_json JInt"

definition ban_id :: "json \<Rightarrow> int option" where
  "ban_id ban =
     (case obj_fields ban of
        None \<Rightarrow> None
      | Some fs \<Rightarrow>
         (let hero = (case optional_int (json_get fs ''hero_id'') of
                        Some h \<Rightarrow> Some h
                      | None \<Rightarrow> (case obj_fields (json_get fs ''hero'') of
                                  None \<Rightarrow> None | Some hs \<Rightarrow> optional_int (json_get hs ''steam_id'')))
          in case hero of None \<Rightarrow> None | Some h \<Rightarrow> if 0 < h then Some h else None))"

definition ban_ids :: "json \<Rightarrow> json" where
  "ban_ids team =
     (case obj_fields team of
        None \<Rightarrow> JList []
      | Some fs \<Rightarrow> JList (map JInt (List.map_filter ban_id (json_items (json_get fs ''bans'')))))"

text \<open>One entry of \<open>full_stats\<close>; an entry without an account is dropped.\<close>

definition stats_entry :: "string \<Rightarrow> json \<Rightarrow> json option" where
  "stats_entry side item =
     (case obj_fields item of
        None \<Rightarrow> None
      | Some fs \<Rightarrow>
         (case (case obj_fields (json_get fs ''player'') of
                  None \<Rightarrow> None | Some p \<Rightarrow> optional_int (json_get p ''steam_id'')) of
            None \<Rightarrow> None
          | Some account \<Rightarrow>
              Some (JObj [(''side'', JStr side), (''account_id'', JInt account),
                          (''level'', int_json (optional_nonnegative_int (json_get fs ''level''))),
                          (''kda'', parse_kda (json_get fs ''kda'')), (''items'', parse_items (json_get fs ''items'')),
                          (''gold'', int_json (optional_int (json_get fs ''gold''))), (''lh'', parse_pair (json_get fs ''lh'')),
                          (''gpm'', parse_pair (json_get fs ''gpm'')),
                          (''net_worth'', int_json (optional_int (json_get fs ''net_worth'')))])))"

definition side_stats :: "(string \<times> json) list \<Rightarrow> string \<Rightarrow> json list" where
  "side_stats full_stats side =
     (case obj_fields (json_get full_stats side) of
        None \<Rightarrow> [] | Some team \<Rightarrow> List.map_filter (stats_entry side) (json_items (json_get team ''players'')))"

definition bans_of :: "(string \<times> json) list \<Rightarrow> json" where
  "bans_of database =
     (let first_team = json_get database ''first_team''; second_team = json_get database ''second_team'';
          flag = (\<lambda>team. Option.bind (obj_fields team) radiant_flag)
      in case (flag first_team, flag second_team) of
           (Some x, Some y) \<Rightarrow>
             if x \<noteq> y
             then JObj [(''radiant'', ban_ids (if x then first_team else second_team)),
                        (''dire'', ban_ids (if x then second_team else first_team))]
             else JObj [(''first_team'', ban_ids first_team), (''second_team'', ban_ids second_team), (''sides_resolved'', JBool False)]
         | _ \<Rightarrow> JObj [(''first_team'', ban_ids first_team), (''second_team'', ban_ids second_team), (''sides_resolved'', JBool False)])"

definition parse_live_enrichment :: "(string \<times> json) list \<Rightarrow> (string \<times> json) list" where
  "parse_live_enrichment payload =
     (case obj_fields (json_get payload ''full_stats'') of
        None \<Rightarrow> []
      | Some full_stats \<Rightarrow>
         (case side_stats full_stats ''radiant'' @ side_stats full_stats ''dire'' of
            [] \<Rightarrow> [] | players \<Rightarrow> [(''full_stats'', JList players)])) @
     (case obj_fields (json_get payload ''db'') of
        None \<Rightarrow> [] | Some database \<Rightarrow> [(''bans'', bans_of database)])"

definition live_enrichment :: "raw_event list \<Rightarrow> int \<Rightarrow> time \<Rightarrow> json" where
  "live_enrichment raw match decision_at =
     (case side_bootstrap raw match (Some decision_at) of
        None \<Rightarrow> JObj [(''available'', JBool False), (''observed_at'', JNull)]
      | Some r \<Rightarrow> JObj (parse_live_enrichment (rw_payload r) @
                      [(''available'', JBool True), (''observed_at'', JStr (isoformat (rw_received_at r)))]))"

end
