(* ===== verification/SideProperties.thy ===== *)
theory SideProperties
  imports Sides
begin

text \<open>
  Properties of the sides of a map: when they count as resolved, what a resolved assignment rests on, and
  that it never mixes up the two teams.
\<close>

definition demo_side_team :: "int \<Rightarrow> bool \<Rightarrow> json" where
  "demo_side_team i radiant = JObj [(''id'', JInt i), (''is_radiant'', JBool radiant)]"

definition demo_side_raw :: "bool \<Rightarrow> raw_event" where
  "demo_side_raw first_radiant =
     \<lparr>rw_id = 9, rw_provider = ''dltv'', rw_event_type = ''DLTV_BOOTSTRAP'', rw_provider_key = ''70'', rw_received_at = 3,
      rw_payload = [(''db'', JObj [(''first_team'', demo_side_team 11 first_radiant),
                                   (''second_team'', demo_side_team 12 (\<not> first_radiant))])],
      rw_payload_hash = [], rw_parser_version = [], rw_connection_id = None, rw_generation = None, rw_state_hash = None,
      rw_is_duplicate = None\<rparr>"

definition demo_side_mappings :: "dated_mapping list" where
  "demo_side_mappings =
     [\<lparr>dm_mapping = \<lparr>tm_provider = ''dltv'', tm_key = ''11'', tm_team = 1, tm_observed_name = None\<rparr>, dm_first_seen_at = 0\<rparr>,
      \<lparr>dm_mapping = \<lparr>tm_provider = ''dltv'', tm_key = ''12'', tm_team = 2, tm_observed_name = None\<rparr>, dm_first_seen_at = 0\<rparr>]"

definition demo_side_series :: identity_series where
  "demo_side_series =
     \<lparr>ser_id = 5, ser_event = None, ser_team_a = 1, ser_team_b = 2, ser_best_of = Some 3, ser_stage_key = [], ser_scheduled_at = None\<rparr>"

definition demo_side_map :: identity_map where
  "demo_side_map = \<lparr>mr_id = 6, mr_series = Some 5, mr_number = Some 1, mr_valve_match = Some 70\<rparr>"

subsection \<open>What evidence is\<close>

lemma evidence_is_marked:
  assumes "de_radiant (parse_side_evidence payload) = Some r" and "de_dire (parse_side_evidence payload) = Some d"
  shows "\<exists>database marked other. json_get payload ''db'' = JObj database \<and>
    (json_get database ''first_team'' = JObj marked \<and> json_get database ''second_team'' = JObj other \<or>
     json_get database ''first_team'' = JObj other \<and> json_get database ''second_team'' = JObj marked) \<and>
    json_get marked ''is_radiant'' = JBool True \<and> json_get other ''is_radiant'' = JBool False \<and>
    optional_int (json_get marked ''id'') = Some r \<and> optional_int (json_get other ''id'') = Some d"
  using assms
  by (auto simp: parse_side_evidence_def unresolved_evidence_def evidence_for_def provider_team_id_def radiant_flag_def
      obj_fields_def split: option.splits if_splits json.splits)

lemma evidence_both_or_none:
  "(de_radiant (parse_side_evidence payload) = None) = (de_dire (parse_side_evidence payload) = None)"
  by (simp add: parse_side_evidence_def unresolved_evidence_def evidence_for_def split: option.splits)

lemma side_bootstrap_newest:
  assumes "side_bootstrap raw match as_of = Some r"
  shows "r \<in> set raw" and "raw_matches ''DLTV_BOOTSTRAP'' (str_int match) r" and "up_to as_of (rw_received_at r)"
    and "\<forall>r' \<in> set raw. raw_matches ''DLTV_BOOTSTRAP'' (str_int match) r' \<longrightarrow> up_to as_of (rw_received_at r') \<longrightarrow>
           rw_received_at r' \<le> rw_received_at r"
  using assms py_max_in py_max_ge by (fastforce simp: side_bootstrap_def newest_def)+

lemma canonical_by_provider_in:
  assumes "canonical_by_provider (side_mappings mappings ids as_of) key = Some t"
  shows "\<exists>m \<in> set mappings. tm_provider (dm_mapping m) = ''dltv'' \<and> tm_key (dm_mapping m) = key \<and>
           tm_team (dm_mapping m) = t \<and> up_to as_of (dm_first_seen_at m)"
proof -
  obtain row where row: "find_row (\<lambda>m. tm_key m = key) (rev (side_mappings mappings ids as_of)) = Some row" "tm_team row = t"
    using assms by (auto simp: canonical_by_provider_def)
  then have "row \<in> set (side_mappings mappings ids as_of)" "tm_key row = key" by (auto dest: find_row_SomeD)
  then show ?thesis using row(2) by (auto simp: side_mappings_def)
qed

subsection \<open>Resolved sides\<close>

definition seen_team :: "dated_mapping list \<Rightarrow> time option \<Rightarrow> int \<Rightarrow> uuid \<Rightarrow> bool" where
  "seen_team mappings as_of provider_id team \<longleftrightarrow>
     (\<exists>m \<in> set mappings. tm_provider (dm_mapping m) = ''dltv'' \<and> tm_key (dm_mapping m) = str_int provider_id \<and>
        tm_team (dm_mapping m) = team \<and> up_to as_of (dm_first_seen_at m))"

lemma project_cases:
  assumes "project_evidence mappings series as_of raw = a" and "sa_resolved a"
  shows "\<exists>r d radiant dire. de_radiant (parse_side_evidence (rw_payload raw)) = Some r \<and>
    de_dire (parse_side_evidence (rw_payload raw)) = Some d \<and>
    canonical_by_provider (side_mappings mappings [str_int r, str_int d] as_of) (str_int r) = Some radiant \<and>
    canonical_by_provider (side_mappings mappings [str_int r, str_int d] as_of) (str_int d) = Some dire \<and>
    radiant \<noteq> dire \<and> {radiant, dire} = {ser_team_a series, ser_team_b series} \<and>
    sa_radiant a = Some radiant \<and> sa_dire a = Some dire \<and> sa_raw_event a = Some (rw_id raw) \<and> sa_observed_at a = Some (rw_received_at raw)"
  using assms
  by (auto simp: project_evidence_def assignment_from_def sa_resolved_def Let_def split: option.splits if_splits)

text \<open>C22.  Sides are never guessed: they count as resolved only when the newest bootstrap of the match known at
  the instant says \<open>is_radiant\<close> true of one of its two teams and false of the other, and the provider ids
  of both were mapped by then to the two different teams of the series.  The assignment then names as
  Radiant the team of the marked id and as Dire the team of the other, whichever of the two the
  bootstrap lists first, and carries the bootstrap it was read from.  So without a flag, with two
  equal flags, or with a team that is not of the series, the sides are not resolved.\<close>

theorem resolved_sides_are_marked:
  assumes "project_map_sides raw mappings m series as_of = a" and "sa_resolved a"
  shows "\<exists>match r database marked other pr pd radiant dire.
    mr_valve_match m = Some match \<and> r \<in> set raw \<and> raw_matches ''DLTV_BOOTSTRAP'' (str_int match) r \<and>
    up_to as_of (rw_received_at r) \<and>
    (\<forall>r' \<in> set raw. raw_matches ''DLTV_BOOTSTRAP'' (str_int match) r' \<longrightarrow> up_to as_of (rw_received_at r') \<longrightarrow>
       rw_received_at r' \<le> rw_received_at r) \<and>
    json_get (rw_payload r) ''db'' = JObj database \<and>
    (json_get database ''first_team'' = JObj marked \<and> json_get database ''second_team'' = JObj other \<or>
     json_get database ''first_team'' = JObj other \<and> json_get database ''second_team'' = JObj marked) \<and>
    json_get marked ''is_radiant'' = JBool True \<and> json_get other ''is_radiant'' = JBool False \<and>
    optional_int (json_get marked ''id'') = Some pr \<and> optional_int (json_get other ''id'') = Some pd \<and>
    seen_team mappings as_of pr radiant \<and> seen_team mappings as_of pd dire \<and>
    radiant \<noteq> dire \<and> {radiant, dire} = {ser_team_a series, ser_team_b series} \<and>
    sa_radiant a = Some radiant \<and> sa_dire a = Some dire \<and> sa_raw_event a = Some (rw_id r)"
proof -
  obtain match r where r: "mr_valve_match m = Some match" "side_bootstrap raw match as_of = Some r"
      "project_evidence mappings series as_of r = a"
    using assms by (auto simp: project_map_sides_def unresolved_assignment_def sa_resolved_def split: option.splits)
  then obtain pr pd radiant dire where p: "de_radiant (parse_side_evidence (rw_payload r)) = Some pr"
      "de_dire (parse_side_evidence (rw_payload r)) = Some pd" "radiant \<noteq> dire"
      "canonical_by_provider (side_mappings mappings [str_int pr, str_int pd] as_of) (str_int pr) = Some radiant"
      "canonical_by_provider (side_mappings mappings [str_int pr, str_int pd] as_of) (str_int pd) = Some dire"
      "{radiant, dire} = {ser_team_a series, ser_team_b series}"
      "sa_radiant a = Some radiant" "sa_dire a = Some dire" "sa_raw_event a = Some (rw_id r)"
    using project_cases [OF r(3) assms(2)] by blast
  have seen: "seen_team mappings as_of pr radiant" "seen_team mappings as_of pd dire"
    using canonical_by_provider_in [OF p(4)] canonical_by_provider_in [OF p(5)] by (auto simp: seen_team_def)
  note newest = side_bootstrap_newest [OF r(2)]
  obtain database marked other where e: "json_get (rw_payload r) ''db'' = JObj database"
      "json_get database ''first_team'' = JObj marked \<and> json_get database ''second_team'' = JObj other \<or>
       json_get database ''first_team'' = JObj other \<and> json_get database ''second_team'' = JObj marked"
      "json_get marked ''is_radiant'' = JBool True" "json_get other ''is_radiant'' = JBool False"
      "optional_int (json_get marked ''id'') = Some pr" "optional_int (json_get other ''id'') = Some pd"
    using evidence_is_marked [OF p(1,2)] by (elim exE conjE)
  show ?thesis
    by (intro exI [of _ match] exI [of _ r] exI [of _ database] exI [of _ marked] exI [of _ other]
        exI [of _ pr] exI [of _ pd] exI [of _ radiant] exI [of _ dire] conjI r(1) newest e seen p)
qed

theorem resolved_sides_are_marked_witness:
  "\<exists>radiant dire. sa_radiant (project_map_sides [demo_side_raw False] demo_side_mappings demo_side_map demo_side_series (Some 5)) = Some radiant \<and>
     sa_dire (project_map_sides [demo_side_raw False] demo_side_mappings demo_side_map demo_side_series (Some 5)) = Some dire \<and> {radiant, dire} = {1, 2}"
proof -
  have "sa_resolved (project_map_sides [demo_side_raw False] demo_side_mappings demo_side_map demo_side_series (Some 5))"
    by code_simp
  from resolved_sides_are_marked [OF refl this] show ?thesis by (auto simp: demo_side_series_def)
qed

end
