(* ===== verification/HistoryContext.thy ===== *)
theory HistoryContext
  imports DraftStore FutureOdds
begin

text \<open>
  What a snapshot says about the past of its teams and players: \<open>HistoricalIntelligenceService\<close> of
  \<open>app/history/service.py\<close> over the form and rating snapshots, and the history section of
  \<open>app/snapshots/builder.py\<close> (\<open>_load_history\<close>, \<open>_enrich_history\<close>, \<open>_align_history_to_series\<close>,
  \<open>_remove_unassigned_roster_history\<close>).  Ratings and averages are rationals.
\<close>

subsection \<open>Tables\<close>

record team_rating =
  tr_team :: uuid
  tr_rating :: rat
  tr_cutoff :: time

record team_form =
  tf_team :: uuid
  tf_maps_5 :: int
  tf_wins_5 :: int
  tf_maps_10 :: int
  tf_wins_10 :: int
  tf_maps_20 :: int
  tf_wins_20 :: int
  tf_recent_form :: "rat option"
  tf_exact_roster_maps :: int
  tf_roster_stability :: "rat option"
  tf_cutoff :: time

record player_form =
  pn_player :: uuid
  pn_position :: int
  pn_base_strength :: "rat option"
  pn_recent_5 :: "rat option"
  pn_recent_10 :: "rat option"
  pn_recent_20 :: "rat option"
  pn_recent_form :: "rat option"
  pn_sample_size :: int
  pn_confidence :: rat
  pn_cutoff :: time

record maps_summary =
  mm_maps :: int
  mm_win_rate :: "rat option"
  mm_performance :: "rat option"

record player_hero_form =
  ph_player :: uuid
  ph_hero :: int
  ph_position :: int
  ph_historical :: maps_summary
  ph_recent_180d :: maps_summary
  ph_current_patch :: maps_summary
  ph_position_fit :: "rat option"
  ph_adjusted_strength :: "rat option"
  ph_confidence :: rat
  ph_cutoff :: time

record historical_map =
  hx_id :: uuid
  hx_canonical_map :: "uuid option"
  hx_provider :: string
  hx_match :: string
  hx_started_at :: time
  hx_first_usable_at :: time
  hx_sync_status :: string

record historical_player_map =
  hp_map :: uuid
  hp_player :: "uuid option"
  hp_hero :: int
  hp_won :: bool
  hp_first_usable_at :: time

record history_db =
  hb_ratings :: "team_rating list"
  hb_forms :: "team_form list"
  hb_player_forms :: "player_form list"
  hb_player_heroes :: "player_hero_form list"
  hb_maps :: "historical_map list"
  hb_player_maps :: "historical_player_map list"

subsection \<open>Teams\<close>

definition sample_confidence :: "int \<Rightarrow> int \<Rightarrow> string + rat" where
  "sample_confidence sample target =
     (if sample < 0 \<or> target \<le> 0 then Inl ''sample must be non-negative and target positive''
      else Inr (min (of_int sample / of_int target) 1))"

definition wins_losses :: "int \<Rightarrow> int \<Rightarrow> string" where
  "wins_losses wins maps = str_int wins @ ''-'' @ str_int (maps - wins)"

record team_context =
  th_base_rating :: "rat option"
  th_recent_form :: "rat option"
  th_confidence :: "rat option"
  th_last_5 :: "string option"
  th_last_10 :: "string option"
  th_last_20 :: "string option"
  th_stability :: "rat option"
  th_exact_roster_maps :: "int option"
  th_cutoff :: "time option"
  th_roster_strength :: "rat option"

definition latest_cutoff :: "time option list \<Rightarrow> time option" where
  "latest_cutoff ts = py_max id (List.map_filter id ts)"

definition team_rating_at :: "history_db \<Rightarrow> uuid \<Rightarrow> time \<Rightarrow> team_rating option" where
  "team_rating_at h team as_of = newest tr_cutoff (\<lambda>r. tr_team r = team \<and> tr_cutoff r \<le> as_of) (hb_ratings h)"

definition team_form_at :: "history_db \<Rightarrow> uuid \<Rightarrow> time \<Rightarrow> team_form option" where
  "team_form_at h team as_of = newest tf_cutoff (\<lambda>r. tf_team r = team \<and> tf_cutoff r \<le> as_of) (hb_forms h)"

text \<open>The roster strength is no part of this payload; the builder adds it.\<close>

definition get_team_payload :: "history_db \<Rightarrow> uuid \<Rightarrow> time \<Rightarrow> string + team_context" where
  "get_team_payload h team as_of =
     (let rating = team_rating_at h team as_of; form = team_form_at h team as_of
      in case (case form of None \<Rightarrow> Inr None
               | Some f \<Rightarrow> (case sample_confidence (tf_maps_20 f) 20 of Inl e \<Rightarrow> Inl e | Inr c \<Rightarrow> Inr (Some c))) of
           Inl e \<Rightarrow> Inl e
         | Inr confidence \<Rightarrow>
             Inr \<lparr>th_base_rating = map_option tr_rating rating, th_recent_form = Option.bind form tf_recent_form,
                  th_confidence = confidence,
                  th_last_5 = map_option (\<lambda>f. wins_losses (tf_wins_5 f) (tf_maps_5 f)) form,
                  th_last_10 = map_option (\<lambda>f. wins_losses (tf_wins_10 f) (tf_maps_10 f)) form,
                  th_last_20 = map_option (\<lambda>f. wins_losses (tf_wins_20 f) (tf_maps_20 f)) form,
                  th_stability = Option.bind form tf_roster_stability,
                  th_exact_roster_maps = map_option tf_exact_roster_maps form,
                  th_cutoff = latest_cutoff [map_option tr_cutoff rating, map_option tf_cutoff form],
                  th_roster_strength = None\<rparr>)"

subsection \<open>Players\<close>

record player_context =
  pc_base_strength :: "rat option"
  pc_recent_form :: "rat option"
  pc_recent_5 :: "rat option"
  pc_recent_10 :: "rat option"
  pc_recent_20 :: "rat option"
  pc_sample_size :: int
  pc_confidence :: "rat option"
  pc_cutoff :: "time option"

definition player_form_at :: "history_db \<Rightarrow> uuid \<Rightarrow> int \<Rightarrow> time \<Rightarrow> player_form option" where
  "player_form_at h player position as_of =
     newest pn_cutoff (\<lambda>r. pn_player r = player \<and> pn_position r = position \<and> pn_cutoff r \<le> as_of) (hb_player_forms h)"

definition get_player_payload :: "history_db \<Rightarrow> uuid \<Rightarrow> int \<Rightarrow> time \<Rightarrow> player_context" where
  "get_player_payload h player position as_of =
     (case player_form_at h player position as_of of
        None \<Rightarrow> \<lparr>pc_base_strength = None, pc_recent_form = None, pc_recent_5 = None, pc_recent_10 = None, pc_recent_20 = None,
                 pc_sample_size = 0, pc_confidence = None, pc_cutoff = None\<rparr>
      | Some s \<Rightarrow> \<lparr>pc_base_strength = pn_base_strength s, pc_recent_form = pn_recent_form s, pc_recent_5 = pn_recent_5 s,
                 pc_recent_10 = pn_recent_10 s, pc_recent_20 = pn_recent_20 s, pc_sample_size = pn_sample_size s,
                 pc_confidence = Some (pn_confidence s), pc_cutoff = Some (pn_cutoff s)\<rparr>)"

subsection \<open>Heroes\<close>

record hero_uses =
  hu_maps :: nat
  hu_wins :: nat
  hu_win_rate :: "rat option"
  hu_cutoff :: "time option"
  hu_last_match :: "string option"

type_synonym hero_use = "historical_player_map \<times> historical_map"

definition use_selected :: "uuid \<Rightarrow> int option \<Rightarrow> time \<Rightarrow> hero_use \<Rightarrow> bool" where
  "use_selected player hero as_of u \<longleftrightarrow>
     hp_player (fst u) = Some player \<and> Some (hp_hero (fst u)) = hero \<and> hp_first_usable_at (fst u) \<le> as_of \<and>
     hx_first_usable_at (snd u) \<le> as_of \<and> hx_sync_status (snd u) \<noteq> ''DATA_CONFLICT''"

definition joined_uses :: "history_db \<Rightarrow> hero_use list" where
  "joined_uses h = concat (map (\<lambda>p. map (Pair p) (filter (\<lambda>m. hx_id m = hp_map p) (hb_maps h))) (hb_player_maps h))"

text \<open>\<open>ORDER BY started_at DESC, provider DESC\<close>.\<close>

definition use_rows :: "history_db \<Rightarrow> uuid \<Rightarrow> int option \<Rightarrow> time \<Rightarrow> hero_use list" where
  "use_rows h player hero as_of =
     rev (sort_key (\<lambda>u. (hx_started_at (snd u), hx_provider (snd u))) (rev (filter (use_selected player hero as_of) (joined_uses h))))"

definition use_key :: "historical_map \<Rightarrow> string" where
  "use_key m = (case hx_canonical_map m of Some c \<Rightarrow> str_uuid c | None \<Rightarrow> hx_provider m @ '':'' @ hx_match m)"

fun select_uses :: "nat \<Rightarrow> string list \<Rightarrow> nat \<Rightarrow> hero_use list \<Rightarrow> hero_use list" where
  "select_uses limit seen count [] = []"
| "select_uses limit seen count (u # us) =
     (if use_key (snd u) \<in> set seen then select_uses limit seen count us
      else if limit \<le> Suc count then [u]
      else u # select_uses limit (use_key (snd u) # seen) (Suc count) us)"

definition get_player_hero_recent_uses :: "history_db \<Rightarrow> uuid \<Rightarrow> int option \<Rightarrow> time \<Rightarrow> nat \<Rightarrow> hero_uses" where
  "get_player_hero_recent_uses h player hero as_of limit =
     (let selected = select_uses limit [] 0 (use_rows h player hero as_of);
          wins = length (filter (\<lambda>u. hp_won (fst u)) selected)
      in \<lparr>hu_maps = length selected, hu_wins = wins,
          hu_win_rate = (if selected = [] then None else Some (of_nat wins / of_nat (length selected))),
          hu_cutoff = py_max id (map (\<lambda>u. max (hp_first_usable_at (fst u)) (hx_first_usable_at (snd u))) selected),
          hu_last_match = (case selected of [] \<Rightarrow> None | u # _ \<Rightarrow> Some (hx_match (snd u)))\<rparr>)"

record hero_context =
  hc_uses :: hero_uses
  hc_historical :: maps_summary
  hc_recent_180d :: maps_summary
  hc_current_patch :: maps_summary
  hc_position_fit :: "rat option"
  hc_adjusted_strength :: "rat option"
  hc_confidence :: "rat option"
  hc_cutoff :: "time option"

definition no_maps :: maps_summary where
  "no_maps = \<lparr>mm_maps = 0, mm_win_rate = None, mm_performance = None\<rparr>"

definition player_hero_at :: "history_db \<Rightarrow> uuid \<Rightarrow> int option \<Rightarrow> int \<Rightarrow> time \<Rightarrow> player_hero_form option" where
  "player_hero_at h player hero position as_of =
     newest ph_cutoff (\<lambda>r. ph_player r = player \<and> Some (ph_hero r) = hero \<and> ph_position r = position \<and> ph_cutoff r \<le> as_of)
       (hb_player_heroes h)"

definition get_player_hero_payload :: "history_db \<Rightarrow> uuid \<Rightarrow> int option \<Rightarrow> int \<Rightarrow> time \<Rightarrow> hero_context" where
  "get_player_hero_payload h player hero position as_of =
     (let uses = get_player_hero_recent_uses h player hero as_of 20
      in case player_hero_at h player hero position as_of of
           None \<Rightarrow> \<lparr>hc_uses = uses, hc_historical = no_maps, hc_recent_180d = no_maps, hc_current_patch = no_maps,
                    hc_position_fit = None, hc_adjusted_strength = None, hc_confidence = None, hc_cutoff = hu_cutoff uses\<rparr>
         | Some s \<Rightarrow> \<lparr>hc_uses = uses, hc_historical = ph_historical s, hc_recent_180d = ph_recent_180d s,
                    hc_current_patch = ph_current_patch s, hc_position_fit = ph_position_fit s,
                    hc_adjusted_strength = ph_adjusted_strength s, hc_confidence = Some (ph_confidence s),
                    hc_cutoff = latest_cutoff [Some (ph_cutoff s), hu_cutoff uses]\<rparr>)"

subsection \<open>The history section\<close>

record player_details =
  hw_recent_5 :: "rat option"
  hw_recent_10 :: "rat option"
  hw_recent_20 :: "rat option"
  hw_sample_size :: int
  hw_position_source :: string
  hw_position_confidence :: rat
  hw_hero :: hero_context

record player_entry =
  hv_player :: uuid
  hv_account :: "int option"
  hv_position :: int
  hv_base_strength :: "rat option"
  hv_recent_form :: "rat option"
  hv_form_confidence :: "rat option"
  hv_hero :: "int option"
  hv_hero_strength :: "rat option"
  hv_hero_sample :: int
  hv_hero_confidence :: "rat option"
  hv_position_fit :: "rat option"
  hv_cutoff :: "time option"
  hv_details :: "player_details option"

record history_coverage =
  hk_teams_ready :: nat
  hk_players :: nat
  hk_forms_ready :: nat
  hk_heroes_ready :: nat
  hk_earliest :: "time option"
  hk_latest :: "time option"

record history_section =
  hy_team_a :: team_context
  hy_team_b :: team_context
  hy_players_a :: "player_entry list"
  hy_players_b :: "player_entry list"
  hy_coverage :: history_coverage

definition mean :: "rat list \<Rightarrow> rat" where
  "mean xs = sum_list xs / of_nat (length xs)"

definition roster_strength :: "player_entry list \<Rightarrow> rat option" where
  "roster_strength players =
     (let combined = List.map_filter
            (\<lambda>p. case List.map_filter id [hv_base_strength p, hv_recent_form p] of [] \<Rightarrow> None | vs \<Rightarrow> Some (mean vs)) players
      in if length combined = 5 then Some (mean combined) else None)"

definition player_entry_of :: "history_db \<Rightarrow> time \<Rightarrow> draft_slot_row \<Rightarrow> uuid \<Rightarrow> player_entry" where
  "player_entry_of h as_of slot player =
     (let form = get_player_payload h player (dl_position slot) as_of;
          hero = get_player_hero_payload h player (dl_hero slot) (dl_position slot) as_of
      in \<lparr>hv_player = player, hv_account = dl_account slot, hv_position = dl_position slot,
          hv_base_strength = pc_base_strength form, hv_recent_form = pc_recent_form form,
          hv_form_confidence = pc_confidence form, hv_hero = dl_hero slot, hv_hero_strength = hc_adjusted_strength hero,
          hv_hero_sample = mm_maps (hc_historical hero), hv_hero_confidence = hc_confidence hero,
          hv_position_fit = hc_position_fit hero, hv_cutoff = latest_cutoff [pc_cutoff form, hc_cutoff hero],
          hv_details = None\<rparr>)"

definition players_of_side :: "history_db \<Rightarrow> time \<Rightarrow> draft_slot_row list \<Rightarrow> bool \<Rightarrow> player_entry list" where
  "players_of_side h as_of slots radiant =
     [player_entry_of h as_of s p. s \<leftarrow> slots, (dl_side s = ''radiant'') = radiant, Some p \<leftarrow> [dl_player s]]"

definition coverage_of :: "team_context \<Rightarrow> team_context \<Rightarrow> player_entry list \<Rightarrow> player_entry list \<Rightarrow> history_coverage" where
  "coverage_of team_a team_b players_a players_b =
     (let players = players_a @ players_b;
          cutoffs = List.map_filter id ([th_cutoff team_a, th_cutoff team_b] @ map hv_cutoff players)
      in \<lparr>hk_teams_ready = length (filter (\<lambda>t. th_base_rating t \<noteq> None) [team_a, team_b]),
          hk_players = length players_a + length players_b,
          hk_forms_ready = length (filter (\<lambda>p. hv_base_strength p \<noteq> None \<or> hv_recent_form p \<noteq> None) players),
          hk_heroes_ready = length (filter (\<lambda>p. hv_hero_strength p \<noteq> None) players),
          hk_earliest = py_min id cutoffs, hk_latest = py_max id cutoffs\<rparr>)"

definition load_history ::
  "history_db \<Rightarrow> identity_series \<Rightarrow> draft_slot_row list \<Rightarrow> time \<Rightarrow> string + (history_section \<times> string list \<times> string list)" where
  "load_history h series slots as_of =
     (case get_team_payload h (ser_team_a series) as_of of
        Inl e \<Rightarrow> Inl e
      | Inr a \<Rightarrow>
         (case get_team_payload h (ser_team_b series) as_of of
            Inl e \<Rightarrow> Inl e
          | Inr b \<Rightarrow>
             (let players_a = players_of_side h as_of slots True; players_b = players_of_side h as_of slots False;
                  team_a = a\<lparr>th_roster_strength := roster_strength players_a\<rparr>;
                  team_b = b\<lparr>th_roster_strength := roster_strength players_b\<rparr>
              in Inr (\<lparr>hy_team_a = team_a, hy_team_b = team_b, hy_players_a = players_a, hy_players_b = players_b,
                       hy_coverage = coverage_of team_a team_b players_a players_b\<rparr>,
                      map (\<lambda>_. ''ROSTER_IDENTITY_AMBIGUOUS'') (filter (\<lambda>s. dl_player s = None) slots),
                      if th_base_rating a = None \<or> th_base_rating b = None then [''HISTORICAL_TEAM_STRENGTH_MISSING''] else []))))"

definition details_of :: "history_db \<Rightarrow> time \<Rightarrow> draft_slot_row \<Rightarrow> uuid \<Rightarrow> player_details" where
  "details_of h as_of slot player =
     (let form = get_player_payload h player (dl_position slot) as_of
      in \<lparr>hw_recent_5 = pc_recent_5 form, hw_recent_10 = pc_recent_10 form, hw_recent_20 = pc_recent_20 form,
          hw_sample_size = pc_sample_size form, hw_position_source = dl_source slot, hw_position_confidence = dl_confidence slot,
          hw_hero = get_player_hero_payload h player (dl_hero slot) (dl_position slot) as_of\<rparr>)"

definition enrich_slot :: "history_db \<Rightarrow> time \<Rightarrow> draft_slot_row \<Rightarrow> history_section \<Rightarrow> history_section" where
  "enrich_slot h as_of slot sec =
     (case (dl_player slot, dl_hero slot) of
        (Some player, Some hero) \<Rightarrow>
          (let put = update_first (\<lambda>e. hv_player e = player) (\<lambda>e. e\<lparr>hv_details := Some (details_of h as_of slot player)\<rparr>)
           in if dl_side slot = ''radiant'' then sec\<lparr>hy_players_a := put (hy_players_a sec)\<rparr>
              else if dl_side slot = ''dire'' then sec\<lparr>hy_players_b := put (hy_players_b sec)\<rparr>
              else sec)
      | _ \<Rightarrow> sec)"

definition enrich_history :: "history_db \<Rightarrow> time \<Rightarrow> draft_slot_row list \<Rightarrow> history_section \<Rightarrow> history_section" where
  "enrich_history h as_of slots sec = fold (enrich_slot h as_of) slots sec"

definition swap_sides :: "history_section \<Rightarrow> history_section" where
  "swap_sides sec =
     sec\<lparr>hy_players_a := hy_players_b sec, hy_players_b := hy_players_a sec,
         hy_team_a := (hy_team_a sec)\<lparr>th_roster_strength := th_roster_strength (hy_team_b sec)\<rparr>,
         hy_team_b := (hy_team_b sec)\<lparr>th_roster_strength := th_roster_strength (hy_team_a sec)\<rparr>\<rparr>"

definition align_history_to_series ::
  "history_section \<Rightarrow> uuid option \<Rightarrow> identity_series \<Rightarrow> string + history_section" where
  "align_history_to_series sec radiant_team series =
     (if radiant_team = Some (ser_team_a series) then Inr sec
      else if radiant_team \<noteq> Some (ser_team_b series) then Inl ''resolved side assignment does not match canonical series''
      else Inr (swap_sides sec))"

definition remove_unassigned_roster_history :: "history_section \<Rightarrow> history_section" where
  "remove_unassigned_roster_history sec =
     (let cutoffs = List.map_filter id [th_cutoff (hy_team_a sec), th_cutoff (hy_team_b sec)]
      in sec\<lparr>hy_players_a := [], hy_players_b := [],
             hy_team_a := (hy_team_a sec)\<lparr>th_roster_strength := None\<rparr>,
             hy_team_b := (hy_team_b sec)\<lparr>th_roster_strength := None\<rparr>,
             hy_coverage := (hy_coverage sec)\<lparr>hk_players := 0, hk_forms_ready := 0, hk_heroes_ready := 0,
                              hk_earliest := py_min id cutoffs, hk_latest := py_max id cutoffs\<rparr>\<rparr>)"

subsection \<open>Documents\<close>

definition num_json :: "rat option \<Rightarrow> json" where
  "num_json = opt_json JNum"

definition instant_json :: "document_text \<Rightarrow> time option \<Rightarrow> json" where
  "instant_json txt = opt_json (\<lambda>t. JStr (tx_instant txt t))"

definition team_document :: "document_text \<Rightarrow> team_context \<Rightarrow> json" where
  "team_document txt t =
     JObj [(''base_rating'', num_json (th_base_rating t)), (''recent_form'', num_json (th_recent_form t)),
           (''recent_form_confidence'', num_json (th_confidence t)), (''last_5'', opt_json JStr (th_last_5 t)),
           (''last_10'', opt_json JStr (th_last_10 t)), (''last_20'', opt_json JStr (th_last_20 t)),
           (''roster_stability'', num_json (th_stability t)), (''exact_roster_maps'', opt_json JInt (th_exact_roster_maps t)),
           (''knowledge_cutoff'', instant_json txt (th_cutoff t)), (''current_roster_strength'', num_json (th_roster_strength t))]"

definition uses_document :: "document_text \<Rightarrow> hero_uses \<Rightarrow> json" where
  "uses_document txt u =
     JObj [(''maps'', JInt (int (hu_maps u))), (''wins'', JInt (int (hu_wins u))),
           (''losses'', JInt (int (hu_maps u) - int (hu_wins u))), (''win_rate'', num_json (hu_win_rate u)),
           (''knowledge_cutoff'', instant_json txt (hu_cutoff u)), (''last_included_match_id'', opt_json JStr (hu_last_match u))]"

definition summary_fields :: "string \<Rightarrow> maps_summary \<Rightarrow> (string \<times> json) list" where
  "summary_fields name s =
     [(name @ ''_maps'', JInt (mm_maps s)), (name @ ''_win_rate'', num_json (mm_win_rate s)),
      (name @ ''_performance'', num_json (mm_performance s))]"

definition hero_document :: "document_text \<Rightarrow> hero_context \<Rightarrow> json" where
  "hero_document txt c =
     JObj ([(''last_20_uses'', uses_document txt (hc_uses c))] @ summary_fields ''historical'' (hc_historical c) @
           summary_fields ''recent_180d'' (hc_recent_180d c) @ summary_fields ''current_patch'' (hc_current_patch c) @
           [(''position_fit'', num_json (hc_position_fit c)), (''adjusted_strength'', num_json (hc_adjusted_strength c)),
            (''confidence'', num_json (hc_confidence c)), (''knowledge_cutoff'', instant_json txt (hc_cutoff c))])"

definition player_document :: "document_text \<Rightarrow> player_entry \<Rightarrow> json" where
  "player_document txt p =
     JObj ([(''canonical_player_id'', JStr (str_uuid (hv_player p))), (''account_id'', opt_json JInt (hv_account p)),
            (''position'', JInt (hv_position p)), (''base_strength'', num_json (hv_base_strength p)),
            (''recent_form'', num_json (hv_recent_form p)), (''recent_form_confidence'', num_json (hv_form_confidence p)),
            (''current_hero'', opt_json JInt (hv_hero p)), (''player_hero_strength'', num_json (hv_hero_strength p)),
            (''player_hero_sample'', JInt (hv_hero_sample p)), (''player_hero_confidence'', num_json (hv_hero_confidence p)),
            (''position_fit'', num_json (hv_position_fit p)), (''knowledge_cutoff'', instant_json txt (hv_cutoff p))] @
           (case hv_details p of
              None \<Rightarrow> []
            | Some d \<Rightarrow> [(''recent_5'', num_json (hw_recent_5 d)), (''recent_10'', num_json (hw_recent_10 d)),
                        (''recent_20'', num_json (hw_recent_20 d)), (''player_sample_size'', JInt (hw_sample_size d)),
                        (''position_source'', JStr (hw_position_source d)), (''position_confidence'', JNum (hw_position_confidence d)),
                        (''player_hero'', hero_document txt (hw_hero d))]))"

definition history_document :: "document_text \<Rightarrow> history_section \<Rightarrow> json" where
  "history_document txt s =
     (let c = hy_coverage s
      in JObj [(''team_a'', team_document txt (hy_team_a s)), (''team_b'', team_document txt (hy_team_b s)),
               (''players_a'', JList (map (player_document txt) (hy_players_a s))),
               (''players_b'', JList (map (player_document txt) (hy_players_b s))),
               (''coverage'', JObj [(''team_strength_ready_count'', JInt (int (hk_teams_ready c))),
                  (''roster_player_count'', JInt (int (hk_players c))), (''player_form_ready_count'', JInt (int (hk_forms_ready c))),
                  (''player_hero_ready_count'', JInt (int (hk_heroes_ready c))),
                  (''earliest_knowledge_cutoff'', instant_json txt (hk_earliest c)),
                  (''latest_knowledge_cutoff'', instant_json txt (hk_latest c))])])"

end
