(* ===== verification/Sections.thy ===== *)
theory Sections
  imports Sides HistoryContext Sync
begin

text \<open>
  The sections of a decision snapshot that the builder reads from the tables: the draft with its curve, the
  live state with its trend, its anchors, and the path of the odds (\<open>app/snapshots/builder.py\<close>).
\<close>

subsection \<open>The draft\<close>

record minute_curve =
  dc_snapshot :: uuid
  dc_points :: json
  dc_features :: json
  dc_statistics_cutoff :: time
  dc_calculated_at :: time
  dc_model_version :: string
  dc_data_version :: string

record draft_section =
  dx_snapshot :: draft_snapshot
  dx_slots :: "draft_slot_row list"
  dx_curve :: "minute_curve option"

definition side_rank :: "draft_slot_row \<Rightarrow> nat" where
  "side_rank s = (if dl_side s = ''radiant'' then 0 else 1)"

definition load_draft ::
  "draft_snapshot list \<Rightarrow> draft_slot_row list \<Rightarrow> minute_curve list \<Rightarrow> uuid \<Rightarrow> time \<Rightarrow> draft_section option" where
  "load_draft drafts slots curves map_id decision_at =
     (case newest dn_observed_at (\<lambda>s. dn_map s = map_id \<and> dn_observed_at s \<le> decision_at \<and> dn_statistics_cutoff s \<le> decision_at)
             drafts of
        None \<Rightarrow> None
      | Some s \<Rightarrow>
          Some \<lparr>dx_snapshot = s,
                dx_slots = sort_key (\<lambda>r. (side_rank r, dl_position r)) (filter (\<lambda>r. dl_snapshot r = dn_id s) slots),
                dx_curve = newest dc_calculated_at (\<lambda>c. dc_snapshot c = dn_id s \<and> dc_statistics_cutoff c \<le> decision_at \<and>
                             dc_calculated_at c \<le> decision_at) curves\<rparr>)"

definition draft_is_complete :: "draft_section \<Rightarrow> bool" where
  "draft_is_complete d \<longleftrightarrow> dn_complete (dx_snapshot d) \<and> length (dx_slots d) = 10 \<and> dx_curve d \<noteq> None"

definition slot_document :: "draft_slot_row \<Rightarrow> json" where
  "slot_document s =
     JObj [(''side'', JStr (dl_side s)), (''position'', JInt (dl_position s)), (''account_id'', opt_json JInt (dl_account s)),
           (''canonical_player_id'', opt_json (\<lambda>p. JStr (str_uuid p)) (dl_player s)), (''hero_id'', opt_json JInt (dl_hero s)),
           (''confidence'', JNum (dl_confidence s))]"

definition curve_document :: "document_text \<Rightarrow> minute_curve \<Rightarrow> json" where
  "curve_document txt c =
     JObj [(''points'', dc_points c), (''derived_features'', dc_features c),
           (''statistics_cutoff'', JStr (tx_instant txt (dc_statistics_cutoff c))), (''model_version'', JStr (dc_model_version c)),
           (''data_version'', JStr (dc_data_version c))]"

definition draft_document :: "document_text \<Rightarrow> draft_section \<Rightarrow> json" where
  "draft_document txt d =
     (let s = dx_snapshot d
      in JObj [(''draft_snapshot_id'', JStr (str_uuid (dn_id s))), (''complete'', JBool (dn_complete s)),
               (''blockers'', JList (map JStr (dn_blockers s))), (''warnings'', JList (map JStr (dn_warnings s))),
               (''statistics_cutoff'', JStr (tx_instant txt (dn_statistics_cutoff s))),
               (''slots'', JList (map slot_document (dx_slots d))), (''curve'', opt_json (curve_document txt) (dx_curve d))])"

subsection \<open>The live state\<close>

definition live_value :: "observation \<Rightarrow> string \<Rightarrow> json" where
  "live_value w field = json_get (lo_values w) field"

record live_section =
  lx_record :: observation
  lx_message_at :: time

definition load_live :: "live_db \<Rightarrow> uuid \<Rightarrow> time \<Rightarrow> live_section option" where
  "load_live db map_id decision_at =
     (case newest lo_received_at (\<lambda>w. lo_canonical_map_id w = Some map_id \<and> lo_received_at w \<le> decision_at) (lv_observations db) of
        None \<Rightarrow> None
      | Some w \<Rightarrow>
          Some \<lparr>lx_record = w,
                lx_message_at = (case newest rw_received_at
                    (\<lambda>r. rw_provider r = ''dltv'' \<and> rw_provider_key r = ''__nd2_match_'' @ str_int (lo_match w) \<and>
                         rw_received_at r \<le> decision_at) (lv_raw db) of
                  Some r \<Rightarrow> rw_received_at r | None \<Rightarrow> lo_last_message_at w)\<rparr>)"

definition live_is_complete :: "live_section \<Rightarrow> bool" where
  "live_is_complete l \<longleftrightarrow> list_all (\<lambda>f. live_value (lx_record l) f \<noteq> JNull) required_fields"

definition live_message_age :: "time \<Rightarrow> live_section \<Rightarrow> rat" where
  "live_message_age decision_at l = seconds_of (decision_at - lx_message_at l)"

definition live_state_age :: "time \<Rightarrow> live_section \<Rightarrow> rat" where
  "live_state_age decision_at l = seconds_of (decision_at - lo_last_change_at (lx_record l))"

definition live_fields :: "document_text \<Rightarrow> live_section \<Rightarrow> (string \<times> json) list" where
  "live_fields txt l =
     (let w = lx_record l
      in [(''source'', JStr ''DLTV_FAST_SOCKET'')] @
         map (\<lambda>f. (f, live_value w f))
           [''game_time_seconds'', ''radiant_kills'', ''dire_kills'', ''radiant_nw_lead'', ''first_blood'', ''canvas'', ''charts''] @
         [(''source_game_time'', opt_json JInt (lo_source_game_time w)),
          (''received_at'', JStr (tx_instant txt (lo_received_at w))),
          (''last_message_received_at'', JStr (tx_instant txt (lx_message_at l))),
          (''last_state_change_received_at'', JStr (tx_instant txt (lo_last_change_at w))),
          (''connection_id'', opt_json JStr (lo_connection_id w)), (''reconnect_generation'', JInt (int (lo_generation w)))])"

subsection \<open>The trend of the live state\<close>

definition live_number :: "observation \<Rightarrow> string \<Rightarrow> int option" where
  "live_number w field = optional_int (live_value w field)"

definition game_time_or_0 :: "observation \<Rightarrow> int" where
  "game_time_or_0 w = (case live_number w ''game_time_seconds'' of None \<Rightarrow> 0 | Some g \<Rightarrow> g)"

definition empty_live_window :: "int \<Rightarrow> (string \<times> json) list" where
  "empty_live_window seconds =
     [(''requested_seconds'', JInt seconds), (''available'', JBool False), (''baseline_game_time_seconds'', JNull),
      (''effective_seconds'', JNull), (''nw_delta'', JNull), (''nw_velocity_per_minute'', JNull),
      (''radiant_kills_delta'', JNull), (''dire_kills_delta'', JNull)]"

definition int_delta :: "int option \<Rightarrow> int option \<Rightarrow> int option" where
  "int_delta current baseline = (case (current, baseline) of (Some c, Some b) \<Rightarrow> Some (c - b) | _ \<Rightarrow> None)"

definition window_tolerance :: "int \<Rightarrow> int" where
  "window_tolerance seconds = min 90 (max 20 (seconds div 4))"

definition live_window :: "observation list \<Rightarrow> observation \<Rightarrow> int \<Rightarrow> (string \<times> json) list" where
  "live_window rows current seconds =
     (case live_number current ''game_time_seconds'' of
        None \<Rightarrow> empty_live_window seconds
      | Some now \<Rightarrow>
         (case py_min (\<lambda>w. \<bar>game_time_or_0 w - (now - seconds)\<bar>) rows of
            None \<Rightarrow> empty_live_window seconds
          | Some baseline \<Rightarrow>
             (case live_number baseline ''game_time_seconds'' of
                None \<Rightarrow> empty_live_window seconds
              | Some start \<Rightarrow>
                  if lo_id baseline = lo_id current then empty_live_window seconds
                  else if window_tolerance seconds < \<bar>start - (now - seconds)\<bar> then empty_live_window seconds
                  else if now - start \<le> 0 then empty_live_window seconds
                  else
                    (let delta = (\<lambda>f. int_delta (live_number current f) (live_number baseline f));
                         nw = delta ''radiant_nw_lead''
                     in [(''requested_seconds'', JInt seconds), (''available'', JBool (nw \<noteq> None)),
                         (''baseline_game_time_seconds'', JInt start), (''effective_seconds'', JInt (now - start)),
                         (''nw_delta'', opt_json JInt nw),
                         (''nw_velocity_per_minute'', opt_json (\<lambda>d. JNum (of_int d / (of_int (now - start) / 60))) nw),
                         (''radiant_kills_delta'', opt_json JInt (delta ''radiant_kills'')),
                         (''dire_kills_delta'', opt_json JInt (delta ''dire_kills''))]))))"

fun last_lead_flip :: "int option \<Rightarrow> string option \<Rightarrow> json \<Rightarrow> observation list \<Rightarrow> json" where
  "last_lead_flip now previous latest [] = latest"
| "last_lead_flip now previous latest (w # ws) =
     (case (live_number w ''game_time_seconds'', live_number w ''radiant_nw_lead'') of
        (Some g, Some lead) \<Rightarrow>
          if lead = 0 then last_lead_flip now previous latest ws
          else
            (let side = (if 0 < lead then ''RADIANT'' else ''DIRE'')
             in last_lead_flip now (Some side)
                  (case previous of
                     None \<Rightarrow> latest
                   | Some p \<Rightarrow> if side = p then latest
                       else JObj [(''from_side'', JStr p), (''to_side'', JStr side), (''game_time_seconds'', JInt g),
                                  (''seconds_ago_game_time'', opt_json (\<lambda>c. JInt (c - g)) now)]) ws)
      | _ \<Rightarrow> last_lead_flip now previous latest ws)"

definition side_from_delta :: "json \<Rightarrow> json" where
  "side_from_delta v =
     (case v of JInt d \<Rightarrow> JStr (if 0 < d then ''RADIANT'' else if d < 0 then ''DIRE'' else ''EVEN'') | _ \<Rightarrow> JNull)"

definition trend_rows :: "observation list \<Rightarrow> uuid \<Rightarrow> time \<Rightarrow> observation list" where
  "trend_rows observations map_id decision_at =
     sort_key lo_received_at
       (filter (\<lambda>w. lo_canonical_map_id w = Some map_id \<and> lo_received_at w \<le> decision_at \<and>
                    live_number w ''game_time_seconds'' \<noteq> None) observations)"

definition live_trend :: "observation list \<Rightarrow> uuid \<Rightarrow> time \<Rightarrow> json" where
  "live_trend observations map_id decision_at =
     (let rows = trend_rows observations map_id decision_at
      in if length rows < 2
         then JObj [(''source'', JStr ''DLTV_FAST_STATE_TRAJECTORY''), (''support_count'', JInt (int (length rows))), (''windows'', JObj [])]
         else
           (let current = last rows; now = live_number current ''game_time_seconds'';
                window = (\<lambda>s. live_window rows current s)
            in JObj [(''source'', JStr ''DLTV_FAST_STATE_TRAJECTORY''), (''support_count'', JInt (int (length rows))),
                     (''current_game_time_seconds'', opt_json JInt now),
                     (''windows'', JObj [(''1m'', JObj (window 60)), (''3m'', JObj (window 180)), (''5m'', JObj (window 300)),
                                         (''10m'', JObj (window 600))]),
                     (''momentum_side_5m'', side_from_delta (json_get (window 300) ''nw_delta'')),
                     (''last_lead_flip'', last_lead_flip now None JNull rows)]))"

subsection \<open>Freshness, anchors and synchronization\<close>

definition freshness_document :: "document_text \<Rightarrow> field_freshness \<Rightarrow> json" where
  "freshness_document txt f =
     JObj [(''required_fields'', JList (map JStr required_fields)),
           (''observed_at'', JObj (map (\<lambda>(k, t). (k, JStr (tx_instant txt t))) (ff_observed_at f))),
           (''ages_seconds'', JObj (map (\<lambda>(k, a). (k, JNum a)) (ff_ages f))),
           (''effective_age_seconds'', num_json (ff_effective_age f)), (''complete'', JBool (ff_complete f))]"

definition no_anchors :: json where
  "no_anchors = JObj [(''real_start_anchor'', JNull), (''data_lag_seconds'', JNull)]"

definition data_lag :: "time option \<Rightarrow> time option \<Rightarrow> rat option" where
  "data_lag picks_ended broadcast_start =
     (case (picks_ended, broadcast_start) of
        (Some p, Some b) \<Rightarrow> (let lag = seconds_of (b - p) in if lag < 0 \<or> 7200 < lag then None else Some lag)
      | _ \<Rightarrow> None)"

definition live_anchors_payload :: "live_db \<Rightarrow> uuid \<Rightarrow> int \<Rightarrow> time \<Rightarrow> live_error + json" where
  "live_anchors_payload db map_id match decision_at =
     (case picks_ended_anchor db match decision_at of
        Inl e \<Rightarrow> Inl e
      | Inr picks_ended \<Rightarrow>
          Inr (JObj [(''real_start_anchor'', opt_json (\<lambda>t. JStr (isoformat t)) picks_ended),
                     (''data_lag_seconds'', num_json (data_lag picks_ended (dltv_broadcast_start db map_id decision_at)))]))"

fun sync_status_value :: "sync_status \<Rightarrow> string" where
  "sync_status_value SAFE = ''SAFE''"
| "sync_status_value CAUTION = ''CAUTION''"
| "sync_status_value UNSAFE = ''UNSAFE''"
| "sync_status_value CALIBRATING = ''CALIBRATING''"
| "sync_status_value UNKNOWN = ''UNKNOWN''"

fun sync_confidence_value :: "sync_confidence \<Rightarrow> string" where
  "sync_confidence_value LOW = ''LOW''"
| "sync_confidence_value MEDIUM = ''MEDIUM''"
| "sync_confidence_value HIGH = ''HIGH''"

text \<open>The jitter is a standard deviation, a real number; how it is written is an argument.\<close>

definition sync_payload :: "document_text \<Rightarrow> (real \<Rightarrow> json) \<Rightarrow> sync_estimate \<Rightarrow> json" where
  "sync_payload txt real_json e =
     JObj [(''estimated_lag_seconds'', num_json (se_lag e)), (''p50_seconds'', num_json (se_p50 e)),
           (''p90_seconds'', num_json (se_p90 e)), (''jitter_seconds'', opt_json real_json (se_jitter e)),
           (''sample_size'', JInt (int (se_sample_size e))), (''accepted_pair_ratio'', JNum (se_accepted_ratio e)),
           (''ambiguous_ratio'', JNum (se_ambiguous_ratio e)), (''outlier_ratio'', JNum (se_outlier_ratio e)),
           (''confidence'', JStr (sync_confidence_value (se_confidence e))), (''status'', JStr (sync_status_value (se_status e))),
           (''calculated_at'', JStr (tx_instant txt (se_calculated_at e)))]"

definition latest_estimate :: "sync_estimate list \<Rightarrow> uuid \<Rightarrow> time \<Rightarrow> sync_estimate option" where
  "latest_estimate estimates map_id decision_at =
     newest se_calculated_at (\<lambda>e. se_map e = map_id \<and> se_calculated_at e \<le> decision_at) estimates"

subsection \<open>The path of the odds\<close>

record odds_point =
  pt_at :: time
  pt_a :: "rat option"
  pt_b :: "rat option"

text \<open>The text of a point's instant; reading it back gives the instant.\<close>

definition point_text :: "odds_point \<Rightarrow> string" where
  "point_text p = isoformat (pt_at p)"

definition path_rows :: "odds_row list \<Rightarrow> uuid \<Rightarrow> time \<Rightarrow> odds_row list" where
  "path_rows rows map_id decision_at =
     sort_key or_received_at
       (filter (\<lambda>r. or_map_id r = Some map_id \<and> or_market_type r = Some ''Winner'' \<and> or_received_at r \<le> decision_at) rows)"

text \<open>The loop over the rows: the latest price of each side, and a point whenever the pair changes.\<close>

fun path_points :: "uuid \<Rightarrow> uuid \<Rightarrow> rat option \<times> rat option \<Rightarrow> odds_point list \<Rightarrow> odds_row list \<Rightarrow> odds_point list" where
  "path_points team_a team_b pair points [] = points"
| "path_points team_a team_b pair points (r # rs) =
     (if team_index team_a team_b r = 2 then path_points team_a team_b pair points rs
      else
        (let pair' = (if team_index team_a team_b r = 0 then (Some (or_price r), snd pair) else (fst pair, Some (or_price r)))
         in if points \<noteq> [] \<and> pair' = (pt_a (last points), pt_b (last points)) then path_points team_a team_b pair' points rs
            else path_points team_a team_b pair'
                   (points @ [\<lparr>pt_at = or_received_at r, pt_a = fst pair', pt_b = snd pair'\<rparr>]) rs))"

definition odds_horizon :: "time \<Rightarrow> time" where
  "odds_horizon decision_at = decision_at - micros 300"

definition path_anchor :: "odds_point list \<Rightarrow> time \<Rightarrow> odds_point option" where
  "path_anchor points decision_at =
     (case takeWhile (\<lambda>p. pt_at p \<le> odds_horizon decision_at) points of [] \<Rightarrow> None | ps \<Rightarrow> Some (last ps))"

fun add_unseen :: "odds_point list \<Rightarrow> odds_point list \<Rightarrow> odds_point list" where
  "add_unseen selected [] = selected"
| "add_unseen selected (p # ps) =
     add_unseen (if point_text p \<in> set (map point_text selected) then selected else selected @ [p]) ps"

definition last_nine :: "odds_point list \<Rightarrow> odds_point list" where
  "last_nine points = drop (length points - 9) points"

definition sample_odds_trajectory :: "odds_point list \<Rightarrow> time \<Rightarrow> odds_point list" where
  "sample_odds_trajectory points decision_at =
     sort_key point_text
       (add_unseen (take 1 points)
          ((case path_anchor points decision_at of None \<Rightarrow> [] | Some p \<Rightarrow> [p]) @ last_nine points))"

record odds_drift =
  ot_first :: rat
  ot_now :: rat
  ot_drift :: rat
  ot_drift_5m :: "rat option"
  ot_direction :: string
  ot_points :: nat

definition implied_probability :: "rat \<Rightarrow> rat option" where
  "implied_probability price = (if price \<le> 0 then None else Some (1 / price))"

definition drift_direction :: "rat \<Rightarrow> rat \<Rightarrow> string" where
  "drift_direction first latest =
     (if latest < first - 1 / 10 ^ 9 then ''SHORTENED'' else if first + 1 / 10 ^ 9 < latest then ''LENGTHENED'' else ''FLAT'')"

definition drift_from :: "rat \<Rightarrow> rat \<Rightarrow> rat \<Rightarrow> rat \<Rightarrow> rat option \<Rightarrow> nat \<Rightarrow> odds_drift" where
  "drift_from first latest first_a last_a before n =
     \<lparr>ot_first = first, ot_now = latest, ot_drift = (last_a - first_a) * 100,
      ot_drift_5m = map_option (\<lambda>b. (last_a - b) * 100) before, ot_direction = drift_direction first latest, ot_points = n\<rparr>"

definition find_drift :: "odds_point list \<Rightarrow> time \<Rightarrow> odds_drift option" where
  "find_drift points decision_at =
     (let paired = [(pt_at p, a). p \<leftarrow> points, Some a \<leftarrow> [pt_a p]]
      in if length paired < 2 then None
         else
           (let first = snd (hd paired); now = snd (last paired);
                before = (case filter (\<lambda>(t, a). t \<le> odds_horizon decision_at) paired of
                            [] \<Rightarrow> None | ps \<Rightarrow> implied_probability (snd (last ps)))
            in case (implied_probability first, implied_probability now) of
                 (Some first_a, Some last_a) \<Rightarrow> Some (drift_from first now first_a last_a before (length points))
               | _ \<Rightarrow> None))"

definition odds_path ::
  "odds_row list \<Rightarrow> uuid \<Rightarrow> uuid \<Rightarrow> uuid \<Rightarrow> time \<Rightarrow> odds_point list option \<times> odds_drift option" where
  "odds_path rows map_id team_a team_b decision_at =
     (let points = path_points team_a team_b (None, None) [] (path_rows rows map_id decision_at)
      in if length points < 2 then (None, None)
         else (Some (sample_odds_trajectory points decision_at), find_drift points decision_at))"

definition point_document :: "document_text \<Rightarrow> odds_point \<Rightarrow> json" where
  "point_document txt p =
     JObj [(''received_at'', JStr (point_text p)), (''price_a'', opt_json (\<lambda>x. JStr (tx_decimal txt x)) (pt_a p)),
           (''price_b'', opt_json (\<lambda>x. JStr (tx_decimal txt x)) (pt_b p))]"

definition drift_document :: "odds_drift \<Rightarrow> json" where
  "drift_document d =
     JObj [(''price_a_first'', JNum (ot_first d)), (''price_a_now'', JNum (ot_now d)),
           (''implied_drift_pp_since_first'', JNum (ot_drift d)), (''implied_drift_pp_last_5m'', num_json (ot_drift_5m d)),
           (''direction'', JStr (ot_direction d)), (''points'', JInt (int (ot_points d)))]"

subsection \<open>The score of the series\<close>

definition series_score ::
  "identity_map list \<Rightarrow> result_row list \<Rightarrow> identity_series \<Rightarrow> time \<Rightarrow> nat \<times> nat \<times> time option" where
  "series_score maps results series decision_at =
     (let rows = sort_key rr_basic_first_usable_at
            (filter (\<lambda>r. rr_basic_first_usable_at r \<le> decision_at \<and> rr_winner r \<noteq> None \<and>
                         (\<exists>m \<in> set maps. mr_id m = rr_map_id r \<and> mr_series m = Some (ser_id series))) results)
      in (length (filter (\<lambda>r. rr_winner r = Some (ser_team_a series)) rows),
          length (filter (\<lambda>r. rr_winner r = Some (ser_team_b series)) rows),
          py_max id (map rr_basic_first_usable_at rows)))"

end
