(* ===== verification/Snapshots.thy ===== *)
theory Snapshots
  imports Sections Gates
begin

text \<open>
  Decision snapshots: \<open>SnapshotBuilder.build\<close> of \<open>app/snapshots/builder.py\<close>, which assembles what is known
  at a decision instant, the gate it passes, and \<open>SnapshotRepository.persist\<close> of
  \<open>app/snapshots/repository.py\<close>, which stores a snapshot under the digest of its content.
\<close>

subsection \<open>Data\<close>

record snapshot_db =
  nb_identity :: identity_db
  nb_mappings :: "dated_mapping list"
  nb_live :: live_db
  nb_odds :: "odds_row list"
  nb_drafts :: "draft_snapshot list"
  nb_slots :: "draft_slot_row list"
  nb_curves :: "minute_curve list"
  nb_estimates :: "sync_estimate list"
  nb_results :: "result_row list"
  nb_history :: history_db

text \<open>The settings, and how documents are written and hashed.\<close>

record build_env =
  bv_text :: document_text
  bv_real :: "real \<Rightarrow> json"
  bv_digest :: "json \<Rightarrow> string"
  bv_market_max_age :: rat
  bv_max_pair_skew :: rat
  bv_live_max_age :: duration

record snapshot_store =
  st_snapshots :: "decision_snapshot list"
  st_next :: uuid

fun mode_value :: "decision_mode \<Rightarrow> string" where
  "mode_value PREMATCH = ''PREMATCH''"
| "mode_value POST_DRAFT = ''POST_DRAFT''"
| "mode_value LIVE_BASIC = ''LIVE_BASIC''"
| "mode_value LIVE_FULL = ''LIVE_FULL''"

subsection \<open>The repository\<close>

definition has_hash :: "string \<Rightarrow> decision_snapshot \<Rightarrow> bool" where
  "has_hash hash s \<longleftrightarrow> dp_hash s = hash"

definition canonical_payload ::
  "build_env \<Rightarrow> time \<Rightarrow> string \<Rightarrow> json \<Rightarrow> json \<Rightarrow> json \<Rightarrow> json \<Rightarrow> json \<Rightarrow> json \<Rightarrow> (string \<times> json) list" where
  "canonical_payload env decision_at mode identity market draft history live quality =
     [(''schema_version'', JStr ''decision-snapshot-v1''), (''decision_at'', JStr (tx_instant (bv_text env) decision_at)),
      (''mode'', JStr mode), (''identity'', identity), (''market'', market), (''draft'', draft), (''history'', history),
      (''live'', live), (''quality'', quality)]"

definition persist ::
  "build_env \<Rightarrow> snapshot_store \<Rightarrow> uuid option \<Rightarrow> time \<Rightarrow> string \<Rightarrow> (string \<times> json) list \<Rightarrow> decision_snapshot \<times> snapshot_store" where
  "persist env store map_id decision_at mode payload =
     (let hash = bv_digest env (JObj payload)
      in case find_row (has_hash hash) (st_snapshots store) of
           Some s \<Rightarrow> (s, store)
         | None \<Rightarrow>
             (let s = \<lparr>dp_id = st_next store, dp_map = map_id, dp_decision_at = decision_at, dp_mode = mode,
                       dp_payload = payload, dp_hash = hash\<rparr>
              in (s, \<lparr>st_snapshots = st_snapshots store @ [s], st_next = Suc (st_next store)\<rparr>)))"

subsection \<open>Identity\<close>

definition subject_of ::
  "identity_db \<Rightarrow> uuid option \<Rightarrow> uuid option \<Rightarrow> string + (identity_map option \<times> identity_series)" where
  "subject_of db map_id series_id =
     (if map_id = None \<and> series_id = None then Inl ''canonical map or series is required''
      else
        (let m = Option.bind map_id (\<lambda>i. find_row (\<lambda>r. mr_id r = i) (id_maps db))
         in if map_id \<noteq> None \<and> m = None then Inl ''canonical map does not exist''
            else
              (let resolved = (case m of Some r \<Rightarrow> mr_series r | None \<Rightarrow> series_id)
               in case Option.bind resolved (\<lambda>i. find_row (\<lambda>s. ser_id s = i) (id_series db)) of
                    None \<Rightarrow> Inl ''canonical series does not exist''
                  | Some s \<Rightarrow> Inr (m, s))))"

definition team_by_id :: "identity_db \<Rightarrow> uuid \<Rightarrow> canonical_team option" where
  "team_by_id db i = find_row (\<lambda>t. ct_id t = i) (id_teams db)"

definition identity_team :: "identity_db \<Rightarrow> uuid \<Rightarrow> json" where
  "identity_team db i = JObj [(''id'', JStr (str_uuid i)), (''name'', opt_json (\<lambda>t. JStr (ct_name t)) (team_by_id db i))]"

definition identity_document ::
  "document_text \<Rightarrow> identity_db \<Rightarrow> identity_map option \<Rightarrow> identity_series \<Rightarrow> nat \<times> nat \<times> time option \<Rightarrow> side_assignment option \<Rightarrow> json" where
  "identity_document txt db m s score sides =
     (let number = opt_json JInt (Option.bind m mr_number)
      in JObj [(''event_id'', opt_json (\<lambda>e. JStr (str_uuid e)) (ser_event s)), (''series_id'', JStr (str_uuid (ser_id s))),
               (''map_id'', opt_json (\<lambda>r. JStr (str_uuid (mr_id r))) m), (''map_number'', number),
               (''valve_match_id'', opt_json JInt (Option.bind m mr_valve_match)),
               (''team_a'', identity_team db (ser_team_a s)), (''team_b'', identity_team db (ser_team_b s)),
               (''series_context'', JObj [(''best_of'', opt_json JInt (ser_best_of s)),
                  (''scheduled_at'', instant_json txt (ser_scheduled_at s)), (''map_number'', number),
                  (''score_a'', JInt (int (fst score))), (''score_b'', JInt (int (fst (snd score)))),
                  (''score_knowledge_cutoff'', instant_json txt (snd (snd score)))]),
               (''side_identity'', opt_json (side_assignment_payload txt) sides)])"

definition identity_is_complete :: "identity_db \<Rightarrow> identity_series \<Rightarrow> bool" where
  "identity_is_complete db s \<longleftrightarrow>
     team_by_id db (ser_team_a s) \<noteq> None \<and> team_by_id db (ser_team_b s) \<noteq> None \<and> ser_team_a s \<noteq> ser_team_b s"

subsection \<open>What is known at the instant\<close>

text \<open>Everything \<open>build\<close> loads before it evaluates the gate.\<close>

record evidence =
  ke_map :: "identity_map option"
  ke_series :: identity_series
  ke_score :: "nat \<times> nat \<times> time option"
  ke_sides :: "side_assignment option"
  ke_market :: "(market_section \<times> rat) option"
  ke_draft :: "draft_section option"
  ke_history :: history_section
  ke_blockers :: "string list"
  ke_warnings :: "string list"
  ke_live :: "live_section option"
  ke_freshness :: "field_freshness option"
  ke_sync :: "sync_estimate option"

definition sides_resolved :: "side_assignment option \<Rightarrow> bool" where
  "sides_resolved sides \<longleftrightarrow> (case sides of None \<Rightarrow> False | Some a \<Rightarrow> sa_resolved a)"

definition side_blocker :: "side_assignment option \<Rightarrow> string" where
  "side_blocker sides = (case Option.bind sides sa_blocker of Some b \<Rightarrow> b | None \<Rightarrow> ''SIDE_IDENTITY_UNRESOLVED'')"

text \<open>The rosters of the draft are told apart by side; without resolved sides they are left out.\<close>

definition assign_rosters ::
  "draft_slot_row list \<Rightarrow> side_assignment option \<Rightarrow> identity_series \<Rightarrow> history_section \<Rightarrow> string list \<Rightarrow> string list \<Rightarrow>
   string + (history_section \<times> string list \<times> string list)" where
  "assign_rosters slots sides series sec blockers warnings =
     (if slots = [] then Inr (sec, blockers, warnings)
      else if sides_resolved sides
      then (case align_history_to_series sec (Option.bind sides sa_radiant) series of
              Inl e \<Rightarrow> Inl e | Inr sec' \<Rightarrow> Inr (sec', blockers, warnings))
      else Inr (remove_unassigned_roster_history sec, filter (\<lambda>b. b \<noteq> ''ROSTER_IDENTITY_AMBIGUOUS'') blockers,
                warnings @ [''ROSTER_SIDE_IDENTITY_UNRESOLVED'']))"

definition gather ::
  "build_env \<Rightarrow> snapshot_db \<Rightarrow> uuid option \<Rightarrow> uuid option \<Rightarrow> time \<Rightarrow> string + evidence" where
  "gather env db map_id series_id decision_at =
     (case subject_of (nb_identity db) map_id series_id of
        Inl e \<Rightarrow> Inl e
      | Inr (m, s) \<Rightarrow>
         (let score = series_score (id_maps (nb_identity db)) (nb_results db) s decision_at;
              sides = map_option (\<lambda>r. project_map_sides (lv_raw (nb_live db)) (nb_mappings db) r s (Some decision_at)) m;
              market = load_market (nb_odds db) map_id (ser_id s) (Option.bind m mr_number) (ser_best_of s) (ser_team_a s)
                         (ser_team_b s) decision_at (bv_market_max_age env) (bv_max_pair_skew env);
              draft = Option.bind map_id (\<lambda>i. load_draft (nb_drafts db) (nb_slots db) (nb_curves db) i decision_at);
              slots = (case draft of None \<Rightarrow> [] | Some d \<Rightarrow> dx_slots d)
          in case load_history (nb_history db) s slots decision_at of
               Inl e \<Rightarrow> Inl e
             | Inr (sec, blockers, warnings) \<Rightarrow>
                 (case assign_rosters slots sides s (enrich_history (nb_history db) decision_at slots sec) blockers warnings of
                    Inl e \<Rightarrow> Inl e
                  | Inr (sec', blockers', warnings') \<Rightarrow>
                      (let complete = (case draft of None \<Rightarrow> False | Some d \<Rightarrow> draft_is_complete d);
                           live = Option.bind map_id (\<lambda>i. load_live (nb_live db) i decision_at);
                           freshness = (case (Option.bind m mr_valve_match, live) of
                                          (Some match, Some l) \<Rightarrow>
                                            Some (load_live_basic_field_freshness (bv_digest env) (nb_live db) match decision_at
                                                    (bv_live_max_age env))
                                        | _ \<Rightarrow> None)
                       in Inr \<lparr>ke_map = m, ke_series = s, ke_score = score, ke_sides = sides, ke_market = market, ke_draft = draft,
                               ke_history = sec', ke_blockers = blockers',
                               ke_warnings = warnings' @
                                 (if complete \<and> \<not> sides_resolved sides then [side_blocker sides] else []) @
                                 (case live of Some l \<Rightarrow> if live_is_complete l then [] else [''LIVE_PARTIAL''] | None \<Rightarrow> []),
                               ke_live = live, ke_freshness = freshness,
                               ke_sync = Option.bind map_id (\<lambda>i. latest_estimate (nb_estimates db) i decision_at)\<rparr>))))"

subsection \<open>The gate\<close>

definition live_complete :: "evidence \<Rightarrow> bool" where
  "live_complete k \<longleftrightarrow> (case ke_live k of None \<Rightarrow> False | Some l \<Rightarrow> live_is_complete l)"

definition effective_draft_complete :: "evidence \<Rightarrow> bool" where
  "effective_draft_complete k \<longleftrightarrow>
     (case ke_draft k of None \<Rightarrow> False | Some d \<Rightarrow> draft_is_complete d) \<and> sides_resolved (ke_sides k)"

text \<open>The field freshness replaces the age of the last state change.\<close>

definition effective_live_age :: "time \<Rightarrow> evidence \<Rightarrow> rat option" where
  "effective_live_age decision_at k =
     (case ke_freshness k of Some f \<Rightarrow> ff_effective_age f | None \<Rightarrow> map_option (live_state_age decision_at) (ke_live k))"

definition market_quality :: "evidence \<Rightarrow> market_pair_quality option" where
  "market_quality k = map_option (\<lambda>m. ms_quality (fst m)) (ke_market k)"

definition gate_context_of :: "build_env \<Rightarrow> identity_db \<Rightarrow> time \<Rightarrow> evidence \<Rightarrow> gate_context" where
  "gate_context_of env db decision_at k =
     \<lparr>gc_identity_complete = identity_is_complete db (ke_series k),
      gc_market_available = (ke_market k \<noteq> None),
      gc_market_pair_valid = (case market_quality k of None \<Rightarrow> False | Some q \<Rightarrow> mq_eligible q),
      gc_market_blockers = (case market_quality k of None \<Rightarrow> [] | Some q \<Rightarrow> mq_blockers q),
      gc_market_warnings = (case market_quality k of None \<Rightarrow> [] | Some q \<Rightarrow> mq_warnings q),
      gc_market_age = map_option snd (ke_market k), gc_market_max_age = bv_market_max_age env,
      gc_draft_available = (ke_draft k \<noteq> None), gc_draft_complete = effective_draft_complete k,
      gc_future_leak = False, gc_history_blockers = ke_blockers k, gc_history_warnings = ke_warnings k,
      gc_live_available = live_complete k,
      gc_live_message_age = map_option (live_message_age decision_at) (ke_live k),
      gc_live_age = effective_live_age decision_at k, gc_live_max_age = seconds_of (bv_live_max_age env),
      gc_sync_status = map_option (\<lambda>e. sync_status_value (se_status e)) (ke_sync k),
      gc_sync_confidence = map_option (\<lambda>e. sync_confidence_value (se_confidence e)) (ke_sync k),
      gc_live_full_available = False\<rparr>"

subsection \<open>The documents\<close>

definition market_payload :: "build_env \<Rightarrow> snapshot_db \<Rightarrow> uuid option \<Rightarrow> time \<Rightarrow> evidence \<Rightarrow> json" where
  "market_payload env db map_id decision_at k =
     (case ke_market k of
        None \<Rightarrow> JObj []
      | Some (section, age) \<Rightarrow>
         (case (market_document (bv_text env) section, map_id) of
            (JObj fs, Some i) \<Rightarrow>
              (let (trajectory, drift) = odds_path (nb_odds db) i (ser_team_a (ke_series k)) (ser_team_b (ke_series k)) decision_at
               in JObj (fs @ [(''odds_trajectory'', opt_json (\<lambda>ps. JList (map (point_document (bv_text env)) ps)) trajectory)] @
                        (case drift of None \<Rightarrow> [] | Some d \<Rightarrow> [(''odds_drift'', drift_document d)])))
          | (doc, _) \<Rightarrow> doc))"

definition live_payload :: "build_env \<Rightarrow> snapshot_db \<Rightarrow> time \<Rightarrow> evidence \<Rightarrow> json" where
  "live_payload env db decision_at k =
     (case (ke_live k, ke_map k) of
        (Some l, Some m) \<Rightarrow>
          JObj (live_fields (bv_text env) l @
            [(''trend'', live_trend (lv_observations (nb_live db)) (mr_id m) decision_at)] @
            (case (mr_valve_match m, ke_freshness k) of
               (Some match, Some f) \<Rightarrow> [(''field_freshness'', freshness_document (bv_text env) f),
                                       (''enrichment'', live_enrichment (lv_raw (nb_live db)) match decision_at)]
             | _ \<Rightarrow> []))
      | _ \<Rightarrow> JNull)"

text \<open>The anchors are read once the snapshot is known to be eligible; a game start that is no date raises.\<close>

definition anchors_of :: "snapshot_db \<Rightarrow> time \<Rightarrow> evidence \<Rightarrow> live_error + json" where
  "anchors_of db decision_at k =
     (case Option.bind (ke_map k) (\<lambda>m. map_option (Pair (mr_id m)) (mr_valve_match m)) of
        None \<Rightarrow> Inr no_anchors
      | Some (i, match) \<Rightarrow> live_anchors_payload (nb_live db) i match decision_at)"

definition quality_payload :: "build_env \<Rightarrow> time \<Rightarrow> evidence \<Rightarrow> gate_result \<Rightarrow> json \<Rightarrow> json" where
  "quality_payload env decision_at k gate anchors =
     JObj [(''eligible'', JBool (gr_eligible gate)), (''blockers'', JList (map JStr (gr_blockers gate))),
           (''warnings'', JList (map JStr (gr_warnings gate))), (''market_age_seconds'', num_json (map_option snd (ke_market k))),
           (''live_message_age_seconds'', num_json (map_option (live_message_age decision_at) (ke_live k))),
           (''live_effective_state_age_seconds'', num_json (effective_live_age decision_at k)),
           (''live_field_freshness'', opt_json (freshness_document (bv_text env)) (ke_freshness k)),
           (''live_sync'', opt_json (sync_payload (bv_text env) (bv_real env)) (ke_sync k)),
           (''live_anchors'', anchors)]"

definition snapshot_payload ::
  "build_env \<Rightarrow> snapshot_db \<Rightarrow> uuid option \<Rightarrow> time \<Rightarrow> evidence \<Rightarrow> gate_result \<Rightarrow> json \<Rightarrow> (string \<times> json) list" where
  "snapshot_payload env db map_id decision_at k gate anchors =
     canonical_payload env decision_at (mode_value (gr_mode gate))
       (identity_document (bv_text env) (nb_identity db) (ke_map k) (ke_series k) (ke_score k) (ke_sides k))
       (market_payload env db map_id decision_at k)
       (if gr_mode gate = PREMATCH then JNull else opt_json (draft_document (bv_text env)) (ke_draft k))
       (history_document (bv_text env) (ke_history k))
       (if starts_with ''LIVE_'' (mode_value (gr_mode gate)) then live_payload env db decision_at k else JNull)
       (quality_payload env decision_at k gate anchors)"

subsection \<open>Building\<close>

definition build_snapshot ::
  "build_env \<Rightarrow> snapshot_db \<Rightarrow> snapshot_store \<Rightarrow> uuid option \<Rightarrow> uuid option \<Rightarrow> time \<Rightarrow>
   string + (gate_result \<times> decision_snapshot option \<times> snapshot_store)" where
  "build_snapshot env db store map_id series_id decision_at =
     (case gather env db map_id series_id decision_at of
        Inl e \<Rightarrow> Inl e
      | Inr k \<Rightarrow>
         (let gate = evaluate_gate (gate_context_of env (nb_identity db) decision_at k)
          in if \<not> gr_eligible gate then Inr (gate, None, store)
             else (case anchors_of db decision_at k of
                     Inl e \<Rightarrow> Inl ''year is out of range''
                   | Inr anchors \<Rightarrow>
                       (let (s, store') = persist env store map_id decision_at (mode_value (gr_mode gate))
                                            (snapshot_payload env db map_id decision_at k gate anchors)
                        in Inr (gate, Some s, store')))))"

end
