(* ===== verification/SnapshotProperties.thy ===== *)
theory SnapshotProperties
  imports Snapshots SideProperties GateProperties CaptureProperties
begin

text \<open>
  Properties of decision snapshots: no row that became known after the decision instant has any influence,
  what evidence stands behind a stored snapshot and its mode, whose players the two rosters list, and that
  snapshots are stored once under their content and never change.
\<close>

subsection \<open>What was known by an instant\<close>

definition history_known_by :: "time \<Rightarrow> history_db \<Rightarrow> history_db" where
  "history_known_by d h =
     \<lparr>hb_ratings = filter (\<lambda>r. tr_cutoff r \<le> d) (hb_ratings h), hb_forms = filter (\<lambda>r. tf_cutoff r \<le> d) (hb_forms h),
      hb_player_forms = filter (\<lambda>r. pn_cutoff r \<le> d) (hb_player_forms h),
      hb_player_heroes = filter (\<lambda>r. ph_cutoff r \<le> d) (hb_player_heroes h),
      hb_maps = filter (\<lambda>r. hx_first_usable_at r \<le> d) (hb_maps h),
      hb_player_maps = filter (\<lambda>r. hp_first_usable_at r \<le> d) (hb_player_maps h)\<rparr>"

definition live_known_by :: "time \<Rightarrow> live_db \<Rightarrow> live_db" where
  "live_known_by d db =
     db\<lparr>lv_raw := filter (\<lambda>r. rw_received_at r \<le> d) (lv_raw db),
        lv_observations := filter (\<lambda>w. lo_received_at w \<le> d) (lv_observations db)\<rparr>"

definition known_by :: "time \<Rightarrow> snapshot_db \<Rightarrow> snapshot_db" where
  "known_by d db =
     db\<lparr>nb_mappings := filter (\<lambda>m. dm_first_seen_at m \<le> d) (nb_mappings db), nb_live := live_known_by d (nb_live db),
        nb_odds := filter (\<lambda>r. or_received_at r \<le> d) (nb_odds db),
        nb_drafts := filter (\<lambda>s. dn_observed_at s \<le> d \<and> dn_statistics_cutoff s \<le> d) (nb_drafts db),
        nb_curves := filter (\<lambda>c. dc_calculated_at c \<le> d \<and> dc_statistics_cutoff c \<le> d) (nb_curves db),
        nb_estimates := filter (\<lambda>e. se_calculated_at e \<le> d) (nb_estimates db),
        nb_results := filter (\<lambda>r. rr_basic_first_usable_at r \<le> d) (nb_results db),
        nb_history := history_known_by d (nb_history db)\<rparr>"

lemma filter_known: "(\<And>x. P x \<Longrightarrow> Q x) \<Longrightarrow> filter P (filter Q xs) = filter P xs"
  by (induction xs) auto

lemma newest_known: "(\<And>x. P x \<Longrightarrow> Q x) \<Longrightarrow> newest key P (filter Q xs) = newest key P xs"
  unfolding newest_def by (rule arg_cong [OF filter_known])

lemma join_latest_known:
  assumes "\<forall>c \<in> set criteria. or_received_at c \<le> d"
  shows "join_latest criteria (filter (\<lambda>r. or_received_at r \<le> d) table) = join_latest criteria table"
  unfolding join_latest_def by (rule filter_known) (use assms in auto)

lemma load_market_known:
  "load_market (filter (\<lambda>r. or_received_at r \<le> d) table) map_id series_id number best_of a b d max_age skew =
   load_market table map_id series_id number best_of a b d max_age skew"
proof -
  let ?C = "market_criteria map_id series_id number best_of d"
  have c: "filter ?C (filter (\<lambda>r. or_received_at r \<le> d) table) = filter ?C table"
    by (rule filter_known) (simp add: market_criteria_def)
  have j: "join_latest (filter ?C table) (filter (\<lambda>r. or_received_at r \<le> d) table) = join_latest (filter ?C table) table"
    by (rule join_latest_known) (simp add: market_criteria_def)
  show ?thesis unfolding load_market_def c builder_evaluated_def j ..
qed

lemma sides_known:
  "project_map_sides (filter (\<lambda>r. rw_received_at r \<le> d) raw) (filter (\<lambda>m. dm_first_seen_at m \<le> d) mappings) m s (Some d) =
   project_map_sides raw mappings m s (Some d)"
proof -
  have b: "side_bootstrap (filter (\<lambda>r. rw_received_at r \<le> d) raw) match (Some d) = side_bootstrap raw match (Some d)" for match
    unfolding side_bootstrap_def by (rule newest_known) (simp add: up_to_def)
  have f: "filter (\<lambda>m. tm_provider (dm_mapping m) = ''dltv'' \<and> tm_key (dm_mapping m) \<in> set ids \<and> up_to (Some d) (dm_first_seen_at m))
             (filter (\<lambda>m. dm_first_seen_at m \<le> d) mappings) =
           filter (\<lambda>m. tm_provider (dm_mapping m) = ''dltv'' \<and> tm_key (dm_mapping m) \<in> set ids \<and> up_to (Some d) (dm_first_seen_at m)) mappings"
    for ids by (rule filter_known) (simp add: up_to_def)
  have m: "side_mappings (filter (\<lambda>m. dm_first_seen_at m \<le> d) mappings) ids (Some d) = side_mappings mappings ids (Some d)" for ids
    by (simp only: side_mappings_def f)
  show ?thesis unfolding project_map_sides_def project_evidence_def b m ..
qed

lemma history_known:
  "get_team_payload (history_known_by d h) t d = get_team_payload h t d"
  "get_player_payload (history_known_by d h) p pos d = get_player_payload h p pos d"
  "get_player_hero_payload (history_known_by d h) p hero pos d = get_player_hero_payload h p hero pos d"
proof -
  have 1: "team_rating_at (history_known_by d h) t d = team_rating_at h t d"
    unfolding team_rating_at_def history_known_by_def history_db.simps by (rule newest_known) simp
  have 2: "team_form_at (history_known_by d h) t d = team_form_at h t d"
    unfolding team_form_at_def history_known_by_def history_db.simps by (rule newest_known) simp
  show "get_team_payload (history_known_by d h) t d = get_team_payload h t d"
    by (simp add: get_team_payload_def 1 2)
  have 3: "player_form_at (history_known_by d h) p pos d = player_form_at h p pos d"
    unfolding player_form_at_def history_known_by_def history_db.simps by (rule newest_known) simp
  show "get_player_payload (history_known_by d h) p pos d = get_player_payload h p pos d"
    by (simp add: get_player_payload_def 3)
  have 4: "player_hero_at (history_known_by d h) p hero pos d = player_hero_at h p hero pos d"
    unfolding player_hero_at_def history_known_by_def history_db.simps by (rule newest_known) simp
  have 5: "filter (use_selected p hero d) (joined_uses (history_known_by d h)) = filter (use_selected p hero d) (joined_uses h)"
  proof -
    have row: "filter (use_selected p hero d) (map (Pair q) (filter (\<lambda>m. hx_id m = hp_map q) (filter (\<lambda>r. hx_first_usable_at r \<le> d) ms))) =
        filter (use_selected p hero d) (map (Pair q) (filter (\<lambda>m. hx_id m = hp_map q) ms))" for q ms
      by (induction ms) (auto simp: use_selected_def)
    have none: "filter (use_selected p hero d) (map (Pair q) ms) = []" if "\<not> hp_first_usable_at q \<le> d" for q ms
      using that by (auto simp: filter_empty_conv use_selected_def)
    have "filter (use_selected p hero d) (concat (map (\<lambda>q. map (Pair q) (filter (\<lambda>m. hx_id m = hp_map q)
              (filter (\<lambda>r. hx_first_usable_at r \<le> d) ms))) (filter (\<lambda>r. hp_first_usable_at r \<le> d) qs))) =
          filter (use_selected p hero d) (concat (map (\<lambda>q. map (Pair q) (filter (\<lambda>m. hx_id m = hp_map q) ms)) qs))" for qs ms
    proof (induction qs)
      case (Cons q qs)
      then show ?case by (cases "hp_first_usable_at q \<le> d") (simp_all only: list.map filter.simps if_True if_False concat.simps filter_append row none append_Nil not_False_eq_True)
    qed simp
    then show ?thesis by (simp add: joined_uses_def history_known_by_def)
  qed
  have 6: "get_player_hero_recent_uses (history_known_by d h) p hero d n = get_player_hero_recent_uses h p hero d n" for n
    by (simp add: get_player_hero_recent_uses_def use_rows_def 5)
  show "get_player_hero_payload (history_known_by d h) p hero pos d = get_player_hero_payload h p hero pos d"
    by (simp add: get_player_hero_payload_def 4 6)
qed

lemma history_section_known:
  "load_history (history_known_by d h) s slots d = load_history h s slots d"
  "enrich_history (history_known_by d h) d slots sec = enrich_history h d slots sec"
proof -
  have 0: "player_entry_of (history_known_by d h) d = player_entry_of h d" "details_of (history_known_by d h) d = details_of h d"
    by (intro ext, simp add: player_entry_of_def details_of_def history_known)+
  have "players_of_side (history_known_by d h) d slots r = players_of_side h d slots r"
      "enrich_slot (history_known_by d h) d slot sec = enrich_slot h d slot sec" for slots r slot sec
    unfolding players_of_side_def enrich_slot_def 0 by (rule refl)+
  then have 1: "players_of_side (history_known_by d h) d = players_of_side h d" "enrich_slot (history_known_by d h) d = enrich_slot h d"
    by (intro ext, blast)+
  show "load_history (history_known_by d h) s slots d = load_history h s slots d"
    unfolding load_history_def history_known 1 ..
  show "enrich_history (history_known_by d h) d slots sec = enrich_history h d slots sec"
    unfolding enrich_history_def 1 ..
qed

lemma draft_known:
  "load_draft (filter (\<lambda>s. dn_observed_at s \<le> d \<and> dn_statistics_cutoff s \<le> d) drafts) slots
     (filter (\<lambda>c. dc_calculated_at c \<le> d \<and> dc_statistics_cutoff c \<le> d) curves) i d = load_draft drafts slots curves i d"
proof -
  have 1: "newest dn_observed_at (\<lambda>s. dn_map s = i \<and> dn_observed_at s \<le> d \<and> dn_statistics_cutoff s \<le> d)
      (filter (\<lambda>s. dn_observed_at s \<le> d \<and> dn_statistics_cutoff s \<le> d) drafts) =
    newest dn_observed_at (\<lambda>s. dn_map s = i \<and> dn_observed_at s \<le> d \<and> dn_statistics_cutoff s \<le> d) drafts"
    by (rule newest_known) simp
  have 2: "newest dc_calculated_at (\<lambda>c. dc_snapshot c = x \<and> dc_statistics_cutoff c \<le> d \<and> dc_calculated_at c \<le> d)
      (filter (\<lambda>c. dc_calculated_at c \<le> d \<and> dc_statistics_cutoff c \<le> d) curves) =
    newest dc_calculated_at (\<lambda>c. dc_snapshot c = x \<and> dc_statistics_cutoff c \<le> d \<and> dc_calculated_at c \<le> d) curves" for x
    by (rule newest_known) simp
  show ?thesis unfolding load_draft_def 1 2 ..
qed

lemma live_known:
  "load_live (live_known_by d db) i d = load_live db i d"
  "load_live_basic_field_freshness digest (live_known_by d db) match d age = load_live_basic_field_freshness digest db match d age"
  "live_anchors_payload (live_known_by d db) i match d = live_anchors_payload db i match d"
  "live_trend (lv_observations (live_known_by d db)) i d = live_trend (lv_observations db) i d"
  "live_enrichment (lv_raw (live_known_by d db)) match d = live_enrichment (lv_raw db) match d"
proof -
  have raw: "lv_raw (live_known_by d db) = filter (\<lambda>r. rw_received_at r \<le> d) (lv_raw db)"
    and obs: "lv_observations (live_known_by d db) = filter (\<lambda>w. lo_received_at w \<le> d) (lv_observations db)"
    by (simp_all add: live_known_by_def)
  have 1: "newest lo_received_at (\<lambda>w. lo_canonical_map_id w = Some i \<and> lo_received_at w \<le> d) (lv_observations (live_known_by d db)) =
      newest lo_received_at (\<lambda>w. lo_canonical_map_id w = Some i \<and> lo_received_at w \<le> d) (lv_observations db)"
    unfolding obs by (rule newest_known) simp
  have 2: "newest rw_received_at (\<lambda>r. rw_provider r = ''dltv'' \<and> rw_provider_key r = k \<and> rw_received_at r \<le> d) (lv_raw (live_known_by d db)) =
      newest rw_received_at (\<lambda>r. rw_provider r = ''dltv'' \<and> rw_provider_key r = k \<and> rw_received_at r \<le> d) (lv_raw db)" for k
    unfolding raw by (rule newest_known) simp
  show "load_live (live_known_by d db) i d = load_live db i d" unfolding load_live_def 1 2 ..
  have 3: "freshness_records (live_known_by d db) match d age = freshness_records db match d age"
    unfolding freshness_records_def raw by (subst filter_known) simp_all
  show "load_live_basic_field_freshness digest (live_known_by d db) match d age = load_live_basic_field_freshness digest db match d age"
    by (simp add: load_live_basic_field_freshness_def 3)
  have 4: "picks_ended_anchor (live_known_by d db) match d = picks_ended_anchor db match d"
  proof -
    have "newest rw_received_at (\<lambda>r. raw_matches ''DLTV_BOOTSTRAP'' (str_int match) r \<and> rw_received_at r \<le> d) (lv_raw (live_known_by d db)) =
        newest rw_received_at (\<lambda>r. raw_matches ''DLTV_BOOTSTRAP'' (str_int match) r \<and> rw_received_at r \<le> d) (lv_raw db)"
      unfolding raw by (rule newest_known) simp
    then show ?thesis by (simp add: picks_ended_anchor_def)
  qed
  have 5: "dltv_broadcast_start (live_known_by d db) i d = dltv_broadcast_start db i d"
    unfolding dltv_broadcast_start_def obs by (subst filter_known) simp_all
  show "live_anchors_payload (live_known_by d db) i match d = live_anchors_payload db i match d"
    unfolding live_anchors_payload_def 4 5 ..
  have 6: "trend_rows (lv_observations (live_known_by d db)) i d = trend_rows (lv_observations db) i d"
    unfolding trend_rows_def obs by (subst filter_known) simp_all
  show "live_trend (lv_observations (live_known_by d db)) i d = live_trend (lv_observations db) i d"
    by (simp add: live_trend_def 6)
  have 7: "side_bootstrap (lv_raw (live_known_by d db)) match (Some d) = side_bootstrap (lv_raw db) match (Some d)"
    unfolding side_bootstrap_def raw by (rule newest_known) (simp add: up_to_def)
  show "live_enrichment (lv_raw (live_known_by d db)) match d = live_enrichment (lv_raw db) match d"
    by (simp add: live_enrichment_def 7)
qed

lemma tables_known:
  "odds_path (filter (\<lambda>r. or_received_at r \<le> d) rows) i a b d = odds_path rows i a b d"
  "series_score maps (filter (\<lambda>r. rr_basic_first_usable_at r \<le> d) results) s d = series_score maps results s d"
  "latest_estimate (filter (\<lambda>e. se_calculated_at e \<le> d) estimates) i d = latest_estimate estimates i d"
proof -
  have "path_rows (filter (\<lambda>r. or_received_at r \<le> d) rows) i d = path_rows rows i d"
    unfolding path_rows_def by (subst filter_known) simp_all
  then show "odds_path (filter (\<lambda>r. or_received_at r \<le> d) rows) i a b d = odds_path rows i a b d" by (simp add: odds_path_def)
  show "series_score maps (filter (\<lambda>r. rr_basic_first_usable_at r \<le> d) results) s d = series_score maps results s d"
    unfolding series_score_def by (subst filter_known) simp_all
  show "latest_estimate (filter (\<lambda>e. se_calculated_at e \<le> d) estimates) i d = latest_estimate estimates i d"
    unfolding latest_estimate_def by (rule newest_known) simp
qed

lemma gather_known: "gather env (known_by d db) map_id series_id d = gather env db map_id series_id d"
proof -
  let ?k = "known_by d db"
  have t: "nb_identity ?k = nb_identity db" "nb_slots ?k = nb_slots db" "lv_raw (nb_live ?k) = filter (\<lambda>r. rw_received_at r \<le> d) (lv_raw (nb_live db))"
      "nb_live ?k = live_known_by d (nb_live db)" "nb_history ?k = history_known_by d (nb_history db)"
      "nb_mappings ?k = filter (\<lambda>m. dm_first_seen_at m \<le> d) (nb_mappings db)" "nb_odds ?k = filter (\<lambda>r. or_received_at r \<le> d) (nb_odds db)"
      "nb_drafts ?k = filter (\<lambda>s. dn_observed_at s \<le> d \<and> dn_statistics_cutoff s \<le> d) (nb_drafts db)"
      "nb_curves ?k = filter (\<lambda>c. dc_calculated_at c \<le> d \<and> dc_statistics_cutoff c \<le> d) (nb_curves db)"
      "nb_estimates ?k = filter (\<lambda>e. se_calculated_at e \<le> d) (nb_estimates db)"
      "nb_results ?k = filter (\<lambda>r. rr_basic_first_usable_at r \<le> d) (nb_results db)"
    by (simp_all add: known_by_def live_known_by_def)
  show ?thesis
    unfolding gather_def t(1,2) t(3,6) sides_known unfolding t(4,5) t(7-) load_market_known draft_known history_section_known live_known tables_known ..
qed

lemma payload_known:
  "snapshot_payload env (known_by d db) map_id d k gate anchors = snapshot_payload env db map_id d k gate anchors"
  "anchors_of (known_by d db) d k = anchors_of db d k"
proof -
  let ?k = "known_by d db"
  have t: "nb_identity ?k = nb_identity db" "nb_live ?k = live_known_by d (nb_live db)" "nb_odds ?k = filter (\<lambda>r. or_received_at r \<le> d) (nb_odds db)"
    by (simp_all add: known_by_def)
  have 1: "market_payload env ?k map_id d k = market_payload env db map_id d k"
    unfolding market_payload_def t tables_known ..
  have 2: "live_payload env ?k d k = live_payload env db d k"
    unfolding live_payload_def t live_known by (rule refl)
  show "snapshot_payload env ?k map_id d k gate anchors = snapshot_payload env db map_id d k gate anchors"
    unfolding snapshot_payload_def t(1) 1 2 ..
  show "anchors_of ?k d k = anchors_of db d k"
    unfolding anchors_of_def t live_known ..
qed

subsection \<open>No look-ahead\<close>

lemma build_known:
  "build_snapshot env db store map_id series_id d = build_snapshot env (known_by d db) store map_id series_id d"
proof -
  have identity: "nb_identity (known_by d db) = nb_identity db" by (simp add: known_by_def)
  show ?thesis unfolding build_snapshot_def gather_known payload_known identity ..
qed

text \<open>C17.  No look-ahead: what a decision snapshot says, whether it is built at all, its mode and its digest
  depend only on the rows that were known at the decision instant.  Odds, live observations and raw
  packets received later, drafts, curves and synchronization estimates calculated later, results and
  historical matches that became usable later, and form snapshots with a later knowledge cutoff could be
  deleted from all tables, and the outcome would be the same.  The canonical identity and the slots of a
  draft carry no instant and are read as they stand, and so is a row that was changed in place.\<close>

theorem snapshots_see_no_future:
  "build_snapshot env db store map_id series_id d = build_snapshot env (known_by d db) store map_id series_id d"
  by (rule build_known)

subsection \<open>The same evidence later\<close>

text \<open>Two states of the tables that hold the same rows known by an instant; later rows, identifiers still to be
  given, events, and the slots of later drafts may be any.\<close>

definition same_rows :: "time \<Rightarrow> snapshot_db \<Rightarrow> snapshot_db \<Rightarrow> bool" where
  "same_rows d db db' \<longleftrightarrow>
     filter (\<lambda>m. dm_first_seen_at m \<le> d) (nb_mappings db') = filter (\<lambda>m. dm_first_seen_at m \<le> d) (nb_mappings db) \<and>
     filter (\<lambda>r. rw_received_at r \<le> d) (lv_raw (nb_live db')) = filter (\<lambda>r. rw_received_at r \<le> d) (lv_raw (nb_live db)) \<and>
     filter (\<lambda>w. lo_received_at w \<le> d) (lv_observations (nb_live db')) = filter (\<lambda>w. lo_received_at w \<le> d) (lv_observations (nb_live db)) \<and>
     filter (\<lambda>r. or_received_at r \<le> d) (nb_odds db') = filter (\<lambda>r. or_received_at r \<le> d) (nb_odds db) \<and>
     filter (\<lambda>s. dn_observed_at s \<le> d \<and> dn_statistics_cutoff s \<le> d) (nb_drafts db') =
       filter (\<lambda>s. dn_observed_at s \<le> d \<and> dn_statistics_cutoff s \<le> d) (nb_drafts db) \<and>
     (\<forall>s \<in> set (nb_drafts db). dn_observed_at s \<le> d \<and> dn_statistics_cutoff s \<le> d \<longrightarrow>
        filter (\<lambda>r. dl_snapshot r = dn_id s) (nb_slots db') = filter (\<lambda>r. dl_snapshot r = dn_id s) (nb_slots db)) \<and>
     filter (\<lambda>c. dc_calculated_at c \<le> d \<and> dc_statistics_cutoff c \<le> d) (nb_curves db') =
       filter (\<lambda>c. dc_calculated_at c \<le> d \<and> dc_statistics_cutoff c \<le> d) (nb_curves db) \<and>
     filter (\<lambda>r. rr_basic_first_usable_at r \<le> d) (nb_results db') = filter (\<lambda>r. rr_basic_first_usable_at r \<le> d) (nb_results db) \<and>
     history_known_by d (nb_history db') = history_known_by d (nb_history db)"

text \<open>The map and its series are the same, the two teams of the series too, and the results known by the instant
  belong to the series as before; anything else may have been added to the identity.\<close>

definition in_series :: "identity_db \<Rightarrow> identity_series \<Rightarrow> result_row \<Rightarrow> bool" where
  "in_series db s r \<longleftrightarrow> (\<exists>m \<in> set (id_maps db). mr_id m = rr_map_id r \<and> mr_series m = Some (ser_id s))"

definition same_subject :: "time \<Rightarrow> uuid option \<Rightarrow> uuid option \<Rightarrow> snapshot_db \<Rightarrow> snapshot_db \<Rightarrow> bool" where
  "same_subject d map_id series_id db db' \<longleftrightarrow>
     subject_of (nb_identity db') map_id series_id = subject_of (nb_identity db) map_id series_id \<and>
     (\<forall>m s. subject_of (nb_identity db) map_id series_id = Inr (m, s) \<longrightarrow>
        team_by_id (nb_identity db') (ser_team_a s) = team_by_id (nb_identity db) (ser_team_a s) \<and>
        team_by_id (nb_identity db') (ser_team_b s) = team_by_id (nb_identity db) (ser_team_b s) \<and>
        (\<forall>r \<in> set (nb_results db). rr_basic_first_usable_at r \<le> d \<longrightarrow> in_series (nb_identity db') s r = in_series (nb_identity db) s r))"

definition same_estimate :: "time \<Rightarrow> uuid option \<Rightarrow> snapshot_db \<Rightarrow> snapshot_db \<Rightarrow> bool" where
  "same_estimate d map_id db db' \<longleftrightarrow>
     (\<forall>i. map_id = Some i \<longrightarrow> latest_estimate (nb_estimates db') i d = latest_estimate (nb_estimates db) i d)"

lemma live_rows_only:
  assumes "lv_raw x = lv_raw y" and "lv_observations x = lv_observations y"
  shows "load_live x i d = load_live y i d"
    and "load_live_basic_field_freshness digest x match d age = load_live_basic_field_freshness digest y match d age"
    and "live_anchors_payload x i match d = live_anchors_payload y i match d"
  unfolding load_live_def load_live_basic_field_freshness_def freshness_records_def live_anchors_payload_def
    picks_ended_anchor_def dltv_broadcast_start_def assms by (rule refl)+

lemma live_same:
  assumes "same_rows d db db'"
  shows "load_live (nb_live db') i d = load_live (nb_live db) i d"
    and "load_live_basic_field_freshness digest (nb_live db') match d age = load_live_basic_field_freshness digest (nb_live db) match d age"
    and "live_anchors_payload (nb_live db') i match d = live_anchors_payload (nb_live db) i match d"
    and "live_trend (lv_observations (nb_live db')) i d = live_trend (lv_observations (nb_live db)) i d"
    and "live_enrichment (lv_raw (nb_live db')) match d = live_enrichment (lv_raw (nb_live db)) match d"
proof -
  have rows: "lv_raw (live_known_by d (nb_live db')) = lv_raw (live_known_by d (nb_live db))"
      "lv_observations (live_known_by d (nb_live db')) = lv_observations (live_known_by d (nb_live db))"
    using assms by (simp_all add: same_rows_def live_known_by_def)
  show "load_live (nb_live db') i d = load_live (nb_live db) i d"
    using live_rows_only(1) [OF rows, of i d] by (simp only: live_known)
  show "load_live_basic_field_freshness digest (nb_live db') match d age = load_live_basic_field_freshness digest (nb_live db) match d age"
    using live_rows_only(2) [OF rows, of digest match d age] by (simp only: live_known)
  show "live_anchors_payload (nb_live db') i match d = live_anchors_payload (nb_live db) i match d"
    using live_rows_only(3) [OF rows, of i match d] by (simp only: live_known)
  show "live_trend (lv_observations (nb_live db')) i d = live_trend (lv_observations (nb_live db)) i d"
    using live_known(4) [of d "nb_live db'" i] live_known(4) [of d "nb_live db" i] rows(2) by simp
  show "live_enrichment (lv_raw (nb_live db')) match d = live_enrichment (lv_raw (nb_live db)) match d"
    using live_known(5) [of d "nb_live db'" match] live_known(5) [of d "nb_live db" match] rows(1) by simp
qed

lemma sections_same:
  assumes "same_rows d db db'"
  shows "load_market (nb_odds db') map_id series_id number best_of a b d age skew = load_market (nb_odds db) map_id series_id number best_of a b d age skew"
    and "odds_path (nb_odds db') i a b d = odds_path (nb_odds db) i a b d"
    and "project_map_sides (lv_raw (nb_live db')) (nb_mappings db') m s (Some d) = project_map_sides (lv_raw (nb_live db)) (nb_mappings db) m s (Some d)"
    and "load_history (nb_history db') s slots d = load_history (nb_history db) s slots d"
    and "enrich_history (nb_history db') d slots sec = enrich_history (nb_history db) d slots sec"
proof -
  note same = assms [unfolded same_rows_def]
  show "load_market (nb_odds db') map_id series_id number best_of a b d age skew = load_market (nb_odds db) map_id series_id number best_of a b d age skew"
    using load_market_known [of d "nb_odds db'" map_id series_id number best_of a b age skew]
      load_market_known [of d "nb_odds db" map_id series_id number best_of a b age skew] same by simp
  show "odds_path (nb_odds db') i a b d = odds_path (nb_odds db) i a b d"
    using tables_known(1) [of d "nb_odds db'" i a b] tables_known(1) [of d "nb_odds db" i a b] same by simp
  show "project_map_sides (lv_raw (nb_live db')) (nb_mappings db') m s (Some d) = project_map_sides (lv_raw (nb_live db)) (nb_mappings db) m s (Some d)"
    using sides_known [of d "lv_raw (nb_live db')" "nb_mappings db'" m s] sides_known [of d "lv_raw (nb_live db)" "nb_mappings db" m s] same by simp
  have hist: "history_known_by d (nb_history db') = history_known_by d (nb_history db)" using same by simp
  show "load_history (nb_history db') s slots d = load_history (nb_history db) s slots d"
    using history_section_known(1) [of d "nb_history db'" s slots] history_section_known(1) [of d "nb_history db" s slots] hist by simp
  show "enrich_history (nb_history db') d slots sec = enrich_history (nb_history db) d slots sec"
    using history_section_known(2) [of d "nb_history db'" slots sec] history_section_known(2) [of d "nb_history db" slots sec] hist by simp
qed

lemma newest_same: "filter Q ys = filter Q xs \<Longrightarrow> (\<And>x. P x \<Longrightarrow> Q x) \<Longrightarrow> newest key P ys = newest key P xs"
  by (metis newest_known)

lemma newest_in: "newest key P xs = Some x \<Longrightarrow> x \<in> set xs \<and> P x"
  unfolding newest_def by (drule py_max_in) simp

lemma draft_same:
  assumes "same_rows d db db'"
  shows "load_draft (nb_drafts db') (nb_slots db') (nb_curves db') i d = load_draft (nb_drafts db) (nb_slots db) (nb_curves db) i d"
proof -
  note same = assms [unfolded same_rows_def]
  let ?P = "\<lambda>s. dn_map s = i \<and> dn_observed_at s \<le> d \<and> dn_statistics_cutoff s \<le> d"
  have n: "newest dn_observed_at ?P (nb_drafts db') = newest dn_observed_at ?P (nb_drafts db)"
    by (rule newest_same [where Q = "\<lambda>s. dn_observed_at s \<le> d \<and> dn_statistics_cutoff s \<le> d"]) (use same in simp_all)
  have c: "newest dc_calculated_at (\<lambda>c. dc_snapshot c = x \<and> dc_statistics_cutoff c \<le> d \<and> dc_calculated_at c \<le> d) (nb_curves db') =
    newest dc_calculated_at (\<lambda>c. dc_snapshot c = x \<and> dc_statistics_cutoff c \<le> d \<and> dc_calculated_at c \<le> d) (nb_curves db)" for x
    by (rule newest_same [where Q = "\<lambda>c. dc_calculated_at c \<le> d \<and> dc_statistics_cutoff c \<le> d"]) (use same in simp_all)
  show ?thesis
  proof (cases "newest dn_observed_at ?P (nb_drafts db)")
    case None
    then show ?thesis by (simp add: load_draft_def n)
  next
    case (Some x)
    then have "filter (\<lambda>r. dl_snapshot r = dn_id x) (nb_slots db') = filter (\<lambda>r. dl_snapshot r = dn_id x) (nb_slots db)"
      using newest_in [OF Some] same by simp
    then show ?thesis by (simp add: load_draft_def n Some c)
  qed
qed

lemma score_same:
  assumes "filter (\<lambda>r. rr_basic_first_usable_at r \<le> d) rs' = filter (\<lambda>r. rr_basic_first_usable_at r \<le> d) rs"
    and "\<forall>r \<in> set rs. rr_basic_first_usable_at r \<le> d \<longrightarrow> in_series i' s r = in_series i s r"
  shows "series_score (id_maps i') rs' s d = series_score (id_maps i) rs s d"
proof -
  let ?P = "\<lambda>i r. rr_basic_first_usable_at r \<le> d \<and> rr_winner r \<noteq> None \<and> in_series i s r"
  have "filter (?P i') rs' = filter (?P i') (filter (\<lambda>r. rr_basic_first_usable_at r \<le> d) rs')" by (simp add: filter_known)
  also have "\<dots> = filter (?P i') rs" unfolding assms(1) by (rule filter_known) simp
  also have "\<dots> = filter (?P i) rs" by (rule filter_cong) (use assms(2) in auto)
  finally show ?thesis unfolding series_score_def in_series_def by simp
qed

lemma gathered_subject:
  assumes "gather env db map_id series_id d = Inr k"
  shows "subject_of (nb_identity db) map_id series_id = Inr (ke_map k, ke_series k)"
  using assms by (auto simp: gather_def Let_def split: sum.splits)

lemma gather_same:
  assumes "same_rows d db db'" and "same_subject d map_id series_id db db'" and "same_estimate d map_id db db'"
  shows "gather env db' map_id series_id d = gather env db map_id series_id d"
proof (cases "subject_of (nb_identity db) map_id series_id")
  case (Inl e)
  then show ?thesis using assms(2) by (simp add: gather_def same_subject_def)
next
  case (Inr ms)
  obtain m s where ms: "ms = (m, s)" by (cases ms)
  have subject: "subject_of (nb_identity db') map_id series_id = Inr (m, s)" "subject_of (nb_identity db) map_id series_id = Inr (m, s)"
    using assms(2) Inr by (simp_all add: same_subject_def ms)
  have results: "filter (\<lambda>r. rr_basic_first_usable_at r \<le> d) (nb_results db') = filter (\<lambda>r. rr_basic_first_usable_at r \<le> d) (nb_results db)"
    using assms(1) by (simp add: same_rows_def)
  have score: "series_score (id_maps (nb_identity db')) (nb_results db') s d = series_score (id_maps (nb_identity db)) (nb_results db) s d"
    by (rule score_same [OF results]) (use assms(2) subject(2) in \<open>simp add: same_subject_def\<close>)
  have estimate: "Option.bind map_id (\<lambda>i. latest_estimate (nb_estimates db') i d) = Option.bind map_id (\<lambda>i. latest_estimate (nb_estimates db) i d)"
    using assms(3) by (cases map_id) (simp_all add: same_estimate_def)
  show ?thesis
    unfolding gather_def subject sum.case prod.case score estimate sections_same [OF assms(1)] draft_same [OF assms(1)] live_same [OF assms(1)] ..
qed

lemma build_same:
  assumes "same_rows d db db'" and "same_subject d map_id series_id db db'" and "same_estimate d map_id db db'"
  shows "build_snapshot env db' store map_id series_id d = build_snapshot env db store map_id series_id d"
proof (cases "gather env db map_id series_id d")
  case (Inl e)
  then show ?thesis using gather_same [OF assms, of env] by (simp add: build_snapshot_def)
next
  case (Inr k)
  have teams: "team_by_id (nb_identity db') (ser_team_a (ke_series k)) = team_by_id (nb_identity db) (ser_team_a (ke_series k))"
      "team_by_id (nb_identity db') (ser_team_b (ke_series k)) = team_by_id (nb_identity db) (ser_team_b (ke_series k))"
    using assms(2) gathered_subject [OF Inr] by (simp_all add: same_subject_def)
  have gates: "gate_context_of env (nb_identity db') d k = gate_context_of env (nb_identity db) d k"
    unfolding gate_context_of_def identity_is_complete_def teams ..
  have document: "identity_document q (nb_identity db') m (ke_series k) score sides = identity_document q (nb_identity db) m (ke_series k) score sides"
    for q m score sides
    unfolding identity_document_def identity_team_def teams ..
  have payload: "snapshot_payload env db' map_id d k gate anchors = snapshot_payload env db map_id d k gate anchors"
      "anchors_of db' d k = anchors_of db d k" for gate anchors
    unfolding snapshot_payload_def document market_payload_def live_payload_def anchors_of_def sections_same [OF assms(1)] live_same [OF assms(1)]
    by (rule refl)+
  show ?thesis unfolding build_snapshot_def gather_same [OF assms] Inr sum.case gates payload ..
qed

subsection \<open>The evidence behind a snapshot\<close>

lemma gate_context_fields:
  "gc_identity_complete (gate_context_of env i d k) = identity_is_complete i (ke_series k)"
  "gc_market_available (gate_context_of env i d k) = (ke_market k \<noteq> None)"
  "gc_market_pair_valid (gate_context_of env i d k) = (case market_quality k of None \<Rightarrow> False | Some q \<Rightarrow> mq_eligible q)"
  "gc_market_age (gate_context_of env i d k) = map_option snd (ke_market k)"
  "gc_market_max_age (gate_context_of env i d k) = bv_market_max_age env"
  "gc_draft_complete (gate_context_of env i d k) = effective_draft_complete k"
  "gc_history_blockers (gate_context_of env i d k) = ke_blockers k"
  "gc_live_available (gate_context_of env i d k) = live_complete k"
  "gc_live_message_age (gate_context_of env i d k) = map_option (live_message_age d) (ke_live k)"
  "gc_live_age (gate_context_of env i d k) = effective_live_age d k"
  "gc_live_max_age (gate_context_of env i d k) = seconds_of (bv_live_max_age env)"
  "gc_sync_status (gate_context_of env i d k) = map_option (\<lambda>e. sync_status_value (se_status e)) (ke_sync k)"
  "gc_sync_confidence (gate_context_of env i d k) = map_option (\<lambda>e. sync_confidence_value (se_confidence e)) (ke_sync k)"
  "gc_live_full_available (gate_context_of env i d k) = False"
  by (simp_all add: gate_context_of_def)

lemma sync_values:
  "sync_status_value x = ''SAFE'' \<longleftrightarrow> x = SAFE"
  "sync_confidence_value y = ''MEDIUM'' \<longleftrightarrow> y = MEDIUM" "sync_confidence_value y = ''HIGH'' \<longleftrightarrow> y = HIGH"
  by (cases x; simp) (cases y; simp)+

lemma built_from:
  assumes "build_snapshot env db store map_id series_id d = Inr (gate, Some s, store')"
  shows "\<exists>k anchors. gather env db map_id series_id d = Inr k \<and> gate = evaluate_gate (gate_context_of env (nb_identity db) d k) \<and>
    gr_eligible gate \<and> anchors_of db d k = Inr anchors \<and>
    persist env store map_id d (mode_value (gr_mode gate)) (snapshot_payload env db map_id d k gate anchors) = (s, store')"
  using assms by (auto simp: build_snapshot_def Let_def split: sum.splits if_splits prod.splits)

lemma fresh_iff: "fresh age limit \<longleftrightarrow> (\<exists>x. age = Some x \<and> 0 \<le> x \<and> x \<le> limit)"
  by (auto simp: fresh_def split: option.split)

lemma live_mode_cases: "m \<noteq> PREMATCH \<longleftrightarrow> POST_DRAFT \<le> m" "m \<in> {LIVE_BASIC, LIVE_FULL} \<longleftrightarrow> LIVE_BASIC \<le> m"
  by (cases m; simp add: less_eq_decision_mode_def)+

text \<open>What a mode says about its evidence.\<close>

definition live_evidence :: "build_env \<Rightarrow> time \<Rightarrow> evidence \<Rightarrow> bool" where
  "live_evidence env d k \<longleftrightarrow>
     (\<exists>l e age. ke_live k = Some l \<and> live_is_complete l \<and> 0 \<le> live_message_age d l \<and>
        live_message_age d l \<le> seconds_of (bv_live_max_age env) \<and> effective_live_age d k = Some age \<and> 0 \<le> age \<and>
        age \<le> seconds_of (bv_live_max_age env) \<and> ke_sync k = Some e \<and> se_status e = SAFE \<and> se_confidence e \<in> {MEDIUM, HIGH})"

definition draft_evidence :: "evidence \<Rightarrow> bool" where
  "draft_evidence k \<longleftrightarrow>
     (\<exists>x a. ke_draft k = Some x \<and> draft_is_complete x \<and> ke_sides k = Some a \<and> sa_resolved a)"

lemma effective_draft_iff: "effective_draft_complete k \<longleftrightarrow> draft_evidence k"
  by (auto simp: effective_draft_complete_def draft_evidence_def sides_resolved_def split: option.splits)

lemma live_evidenceI:
  assumes "live_complete k" and "fresh (map_option (live_message_age d) (ke_live k)) m" and "fresh (effective_live_age d k) m"
    and "map_option (\<lambda>e. sync_status_value (se_status e)) (ke_sync k) = Some ''SAFE''"
    and "map_option (\<lambda>e. sync_confidence_value (se_confidence e)) (ke_sync k) \<in> {Some ''MEDIUM'', Some ''HIGH''}"
    and "m = seconds_of (bv_live_max_age env)"
  shows "live_evidence env d k"
proof -
  obtain l where l: "ke_live k = Some l" "live_is_complete l" using assms(1) by (auto simp: live_complete_def split: option.splits)
  obtain e where e: "ke_sync k = Some e" "se_status e = SAFE" "se_confidence e \<in> {MEDIUM, HIGH}"
    using assms(4,5) by (auto simp: sync_values)
  obtain age where "effective_live_age d k = Some age" "0 \<le> age" "age \<le> m" using assms(3) by (auto simp: fresh_iff)
  then show ?thesis using l e assms(2,6) by (auto simp: live_evidence_def fresh_iff)
qed

text \<open>C21.  A snapshot is stored only for a complete identity and an executable market pair of a fresh age;
  a snapshot of a mode beyond PREMATCH rests on a complete draft with resolved sides, and a live one on
  complete live data that is fresh in both ages and synchronized safely with at least medium confidence.
  The mode LIVE_FULL is never reached.\<close>

theorem stored_snapshots_have_their_evidence:
  assumes "build_snapshot env db store map_id series_id d = Inr (gate, Some s, store')"
  shows "\<exists>k sec age. gather env db map_id series_id d = Inr k \<and> identity_is_complete (nb_identity db) (ke_series k) \<and>
    ke_blockers k = [] \<and> ke_market k = Some (sec, age) \<and> mq_eligible (ms_quality sec) \<and> 0 \<le> age \<and> age \<le> bv_market_max_age env \<and>
    (gr_mode gate \<noteq> PREMATCH \<longleftrightarrow> draft_evidence k) \<and>
    (gr_mode gate \<in> {LIVE_BASIC, LIVE_FULL} \<longrightarrow> live_evidence env d k) \<and> gr_mode gate \<noteq> LIVE_FULL"
proof -
  obtain k where k: "gather env db map_id series_id d = Inr k" "gate = evaluate_gate (gate_context_of env (nb_identity db) d k)" "gr_eligible gate"
    using built_from [OF assms] by blast
  let ?c = "gate_context_of env (nb_identity db) d k"
  have "gate_blockers ?c = []" using k(2,3) gate_blockers_of(1) by simp
  then have open_gate: "identity_is_complete (nb_identity db) (ke_series k)" "ke_blockers k = []" "gc_market_available ?c" "gc_market_pair_valid ?c"
      "fresh (gc_market_age ?c) (gc_market_max_age ?c)"
    by (auto simp: gate_blockers_def gate_context_fields(1,7) split: if_splits)
  obtain sec age where m: "ke_market k = Some (sec, age)"
    using open_gate(3) by (auto simp: gate_context_fields)
  have mode: "gr_mode gate = (if live_ok ?c then LIVE_BASIC else if effective_draft_complete k then POST_DRAFT else PREMATCH)"
    using k(2) gate_mode [of ?c] by (simp add: gate_context_fields)
  have ok: "live_ok ?c \<Longrightarrow> effective_draft_complete k" by (simp add: live_ok_def gate_context_fields)
  have live: "live_ok ?c \<Longrightarrow> live_evidence env d k"
    unfolding live_ok_def live_verdict_Inr gate_context_fields by (rule live_evidenceI) blast+
  show ?thesis
  proof (intro exI conjI)
    show "gather env db map_id series_id d = Inr k" by (rule k(1))
    show "ke_market k = Some (sec, age)" by (rule m)
    show "mq_eligible (ms_quality sec)" using open_gate(4) m by (simp add: gate_context_fields market_quality_def)
    show "0 \<le> age" "age \<le> bv_market_max_age env" using open_gate(5) m by (simp_all add: gate_context_fields fresh_def)
    show "(gr_mode gate \<noteq> PREMATCH) = draft_evidence k" using mode ok by (simp add: effective_draft_iff)
    show "gr_mode gate \<in> {LIVE_BASIC, LIVE_FULL} \<longrightarrow> live_evidence env d k" using mode live by auto
    show "gr_mode gate \<noteq> LIVE_FULL" using mode by simp
  qed (rule open_gate)+
qed

subsection \<open>The rosters\<close>

definition listed_players :: "draft_slot_row list \<Rightarrow> bool \<Rightarrow> uuid list" where
  "listed_players slots radiant = [p. s \<leftarrow> slots, (dl_side s = ''radiant'') = radiant, Some p \<leftarrow> [dl_player s]]"

definition slots_known :: "evidence \<Rightarrow> draft_slot_row list" where
  "slots_known k = (case ke_draft k of None \<Rightarrow> [] | Some x \<Rightarrow> dx_slots x)"

lemma players_of_side_listed: "map hv_player (players_of_side h d slots r) = listed_players slots r"
  by (induction slots) (auto simp: players_of_side_def listed_players_def player_entry_of_def Let_def split: option.split)

definition strengths :: "player_entry list \<Rightarrow> (rat option \<times> rat option) list" where
  "strengths ps = map (\<lambda>p. (hv_base_strength p, hv_recent_form p)) ps"

lemma roster_strength_of: "strengths ps = strengths qs \<Longrightarrow> roster_strength ps = roster_strength qs"
proof -
  have "roster_strength ps =
      (let combined = List.map_filter (\<lambda>(b, f). case List.map_filter id [b, f] of [] \<Rightarrow> None | vs \<Rightarrow> Some (mean vs)) (strengths ps)
       in if length combined = 5 then Some (mean combined) else None)" for ps
    by (simp add: roster_strength_def strengths_def List.map_filter_def filter_map comp_def)
  then show "strengths ps = strengths qs \<Longrightarrow> roster_strength ps = roster_strength qs" by simp
qed

definition same_roster :: "history_section \<Rightarrow> history_section \<Rightarrow> bool" where
  "same_roster x y \<longleftrightarrow>
     map hv_player (hy_players_a x) = map hv_player (hy_players_a y) \<and> map hv_player (hy_players_b x) = map hv_player (hy_players_b y) \<and>
     strengths (hy_players_a x) = strengths (hy_players_a y) \<and> strengths (hy_players_b x) = strengths (hy_players_b y) \<and>
     hy_team_a x = hy_team_a y \<and> hy_team_b x = hy_team_b y"

lemma put_details:
  "map hv_player (update_first P (\<lambda>e. e\<lparr>hv_details := v\<rparr>) ps) = map hv_player ps"
  "strengths (update_first P (\<lambda>e. e\<lparr>hv_details := v\<rparr>) ps) = strengths ps"
  by (induction ps) (auto simp: strengths_def)

lemma enrich_slot_same: "same_roster (enrich_slot h d slot sec) sec"
  by (simp add: enrich_slot_def same_roster_def put_details Let_def split: option.split)

lemma enrich_history_same: "same_roster (enrich_history h d slots sec) sec"
proof (induction slots arbitrary: sec)
  case (Cons s slots)
  then show ?case using enrich_slot_same [of h d s sec] Cons.IH [of "enrich_slot h d s sec"]
    by (simp add: enrich_history_def same_roster_def)
qed (simp add: enrich_history_def same_roster_def)

lemma load_history_rosters:
  assumes "load_history h s slots d = Inr (sec, blockers, warnings)"
  shows "map hv_player (hy_players_a sec) = listed_players slots True \<and> map hv_player (hy_players_b sec) = listed_players slots False \<and>
    th_roster_strength (hy_team_a sec) = roster_strength (hy_players_a sec) \<and>
    th_roster_strength (hy_team_b sec) = roster_strength (hy_players_b sec)"
  using assms by (auto simp: load_history_def Let_def players_of_side_listed split: sum.splits)

definition rosters_are :: "history_section \<Rightarrow> uuid list \<Rightarrow> uuid list \<Rightarrow> bool" where
  "rosters_are sec as bs \<longleftrightarrow>
     map hv_player (hy_players_a sec) = as \<and> map hv_player (hy_players_b sec) = bs \<and>
     th_roster_strength (hy_team_a sec) = roster_strength (hy_players_a sec) \<and>
     th_roster_strength (hy_team_b sec) = roster_strength (hy_players_b sec)"

lemma enriched_rosters:
  assumes "load_history h s slots d = Inr (sec, blockers, warnings)"
  shows "rosters_are (enrich_history h d slots sec) (listed_players slots True) (listed_players slots False)"
proof -
  let ?e = "enrich_history h d slots sec"
  have same: "same_roster ?e sec" by (rule enrich_history_same)
  then have "roster_strength (hy_players_a ?e) = roster_strength (hy_players_a sec)" "roster_strength (hy_players_b ?e) = roster_strength (hy_players_b sec)"
    by (auto simp: same_roster_def intro: roster_strength_of)
  then show ?thesis using same load_history_rosters [OF assms] by (simp add: rosters_are_def same_roster_def)
qed

lemma no_roster_strength: "roster_strength [] = None"
  by (simp add: roster_strength_def)

lemma assigned_rosters:
  assumes "rosters_are sec (listed_players slots True) (listed_players slots False)"
    and "assign_rosters slots sides s sec blockers warnings = Inr (sec', blockers', warnings')"
  shows "rosters_are sec'
     (if sides_resolved sides then listed_players slots (Option.bind sides sa_radiant = Some (ser_team_a s)) else [])
     (if sides_resolved sides then listed_players slots (Option.bind sides sa_radiant \<noteq> Some (ser_team_a s)) else [])"
proof (cases "slots = []")
  case True
  then show ?thesis using assms by (simp add: assign_rosters_def listed_players_def rosters_are_def)
next
  case slots: False
  show ?thesis
  proof (cases "sides_resolved sides")
    case True
    then have "align_history_to_series sec (Option.bind sides sa_radiant) s = Inr sec'"
      using assms(2) slots by (auto simp: assign_rosters_def split: sum.splits)
    then show ?thesis using assms(1) True
      by (auto simp: align_history_to_series_def swap_sides_def rosters_are_def split: if_splits)
  next
    case False
    then have "sec' = remove_unassigned_roster_history sec" using assms(2) slots by (simp add: assign_rosters_def)
    then show ?thesis using False by (simp add: remove_unassigned_roster_history_def rosters_are_def Let_def no_roster_strength)
  qed
qed

text \<open>C20.  The two rosters of a snapshot follow the sides, never the order of the provider: with resolved
  sides, Team A lists exactly the players of the slots of its side, in order, Team B those of the other
  side, each with the strength of its own roster; without resolved sides both rosters are empty and
  without a strength, whatever the draft says.\<close>

theorem rosters_follow_the_sides:
  assumes "gather env db map_id series_id d = Inr k"
  shows "let slots = slots_known k; a_is_radiant = (Option.bind (ke_sides k) sa_radiant = Some (ser_team_a (ke_series k)))
    in rosters_are (ke_history k)
         (if sides_resolved (ke_sides k) then listed_players slots a_is_radiant else [])
         (if sides_resolved (ke_sides k) then listed_players slots (\<not> a_is_radiant) else [])"
proof -
  obtain m s where s: "subject_of (nb_identity db) map_id series_id = Inr (m, s)"
    using assms by (auto simp: gather_def split: sum.splits)
  define draft where "draft = Option.bind map_id (\<lambda>i. load_draft (nb_drafts db) (nb_slots db) (nb_curves db) i d)"
  define slots where "slots = (case draft of None \<Rightarrow> [] | Some x \<Rightarrow> dx_slots x)"
  define sides where "sides = map_option (\<lambda>r. project_map_sides (lv_raw (nb_live db)) (nb_mappings db) r s (Some d)) m"
  obtain sec blockers warnings where h: "load_history (nb_history db) s slots d = Inr (sec, blockers, warnings)"
    using assms s unfolding slots_def draft_def by (auto simp: gather_def Let_def split: sum.splits)
  obtain sec' blockers' warnings' where a:
      "assign_rosters slots sides s (enrich_history (nb_history db) d slots sec) blockers warnings = Inr (sec', blockers', warnings')"
    using assms s h unfolding slots_def draft_def sides_def by (auto simp: gather_def Let_def split: sum.splits)
  have k: "ke_series k = s" "ke_sides k = sides" "ke_draft k = draft" "ke_history k = sec'"
    using assms s h a unfolding slots_def draft_def sides_def by (auto simp: gather_def Let_def)
  have "slots_known k = slots" by (simp add: slots_known_def k slots_def)
  then show ?thesis using assigned_rosters [OF enriched_rosters [OF h] a] by (simp add: k)
qed

subsection \<open>The store\<close>

definition empty_store :: snapshot_store where
  "empty_store = \<lparr>st_snapshots = [], st_next = 0\<rparr>"

type_synonym build_request = "snapshot_db \<times> uuid option \<times> uuid option \<times> time"

text \<open>Builds one after the other; one that raises leaves the store as it is.\<close>

definition build_step :: "build_env \<Rightarrow> build_request \<Rightarrow> snapshot_store \<Rightarrow> snapshot_store" where
  "build_step env r store =
     (case r of (db, map_id, series_id, d) \<Rightarrow>
        (case build_snapshot env db store map_id series_id d of Inl e \<Rightarrow> store | Inr (gate, s, store') \<Rightarrow> store'))"

definition build_all :: "build_env \<Rightarrow> build_request list \<Rightarrow> snapshot_store \<Rightarrow> snapshot_store" where
  "build_all env rs store = fold (build_step env) rs store"

definition store_ok :: "build_env \<Rightarrow> snapshot_store \<Rightarrow> bool" where
  "store_ok env store \<longleftrightarrow>
     distinct (map dp_hash (st_snapshots store)) \<and> distinct (map dp_id (st_snapshots store)) \<and>
     (\<forall>s \<in> set (st_snapshots store). dp_id s < st_next store \<and> dp_hash s = bv_digest env (JObj (dp_payload s)))"

lemma persist_store:
  assumes "store_ok env store" and "persist env store map_id d mode payload = (s, store')"
  shows "store_ok env store' \<and> (\<exists>new. st_snapshots store' = st_snapshots store @ new) \<and>
    find_row (has_hash (bv_digest env (JObj payload))) (st_snapshots store') = Some s"
proof (cases "find_row (has_hash (bv_digest env (JObj payload))) (st_snapshots store)")
  case None
  have new: "s = \<lparr>dp_id = st_next store, dp_map = map_id, dp_decision_at = d, dp_mode = mode, dp_payload = payload,
        dp_hash = bv_digest env (JObj payload)\<rparr>"
      "store' = \<lparr>st_snapshots = st_snapshots store @ [s], st_next = Suc (st_next store)\<rparr>"
    using assms(2) None by (auto simp: persist_def Let_def)
  have fresh_hash: "bv_digest env (JObj payload) \<notin> dp_hash ` set (st_snapshots store)"
    using None by (auto simp: find_row_None_iff has_hash_def)
  have fresh_id: "st_next store \<notin> dp_id ` set (st_snapshots store)" using assms(1) by (auto simp: store_ok_def)
  have "store_ok env store'" using assms(1) fresh_hash fresh_id by (auto simp: store_ok_def new)
  moreover have "find_row (has_hash (bv_digest env (JObj payload))) (st_snapshots store') = Some s"
    using None by (simp add: new find_row_append has_hash_def)
  ultimately show ?thesis by (simp add: new(2))
next
  case (Some x)
  then show ?thesis using assms by (auto simp: persist_def Let_def)
qed

lemma build_store:
  assumes "store_ok env store" and "build_snapshot env db store map_id series_id d = Inr (gate, s, store')"
  shows "store_ok env store' \<and> (\<exists>new. st_snapshots store' = st_snapshots store @ new)"
proof (cases s)
  case None
  then show ?thesis using assms by (auto simp: build_snapshot_def Let_def split: sum.splits if_splits prod.splits)
next
  case (Some x)
  then show ?thesis using persist_store [OF assms(1)] built_from [of env db store map_id series_id d gate x store'] assms(2) by blast
qed

lemma build_step_store:
  assumes "store_ok env store"
  shows "store_ok env (build_step env r store) \<and> (\<exists>new. st_snapshots (build_step env r store) = st_snapshots store @ new)"
  using assms build_store [OF assms] by (cases r) (auto simp: build_step_def split: sum.split)

lemma build_all_store:
  "store_ok env store \<Longrightarrow> store_ok env (build_all env rs store) \<and> (\<exists>new. st_snapshots (build_all env rs store) = st_snapshots store @ new)"
proof (induction rs arbitrary: store)
  case (Cons r rs)
  from build_step_store [OF Cons.prems, of r] Cons.IH [of "build_step env r store"] show ?case
    by (auto simp: build_all_def)
qed (simp add: build_all_def)

lemma empty_store_ok: "store_ok env empty_store"
  by (simp add: store_ok_def empty_store_def)

lemma rebuild_found:
  assumes "build_snapshot env db store map_id series_id d = Inr (gate, Some s, store')" and "store_ok env store"
    and "st_snapshots later = st_snapshots store' @ new"
  shows "build_snapshot env db later map_id series_id d = Inr (gate, Some s, later)"
proof -
  obtain k anchors where k: "gather env db map_id series_id d = Inr k" "gate = evaluate_gate (gate_context_of env (nb_identity db) d k)"
      "gr_eligible gate" "anchors_of db d k = Inr anchors"
      "persist env store map_id d (mode_value (gr_mode gate)) (snapshot_payload env db map_id d k gate anchors) = (s, store')"
    using built_from [OF assms(1)] by blast
  have "find_row (has_hash (bv_digest env (JObj (snapshot_payload env db map_id d k gate anchors)))) (st_snapshots store') = Some s"
    using persist_store [OF assms(2) k(5)] by blast
  then have "persist env later map_id d (mode_value (gr_mode gate)) (snapshot_payload env db map_id d k gate anchors) = (s, later)"
    by (simp add: persist_def assms(3) find_row_append)
  then show ?thesis using k(1-4) by (simp add: build_snapshot_def Let_def)
qed

text \<open>C18.  Snapshots are stored once under the digest of their content and never change.  Whatever was built
  before and is built afterwards, every stored snapshot stays as it was and carries the digest of its
  payload, no digest and no identifier occurs twice; and building a snapshot again returns the stored one
  and writes nothing, from any later state of the tables that keeps what the snapshot rests on: in the
  dated tables the rows known at its instant stand unchanged (rows that became known later, packets
  archived later and identifiers given later may be any), the map, its series, the two teams and the
  known results of the series are the same, and so is the synchronization estimate of the map in force at
  the instant.  A row changed in place is not a later row: the connection of an observation, which
  the snapshot shows, is overwritten when a packet without news arrives over another connection.\<close>

theorem snapshots_are_content_addressed:
  assumes "build_snapshot env db (build_all env before empty_store) map_id series_id d = Inr (gate, Some s, store)"
    and "same_rows d db db'" and "same_subject d map_id series_id db db'" and "same_estimate d map_id db db'"
  shows "let later = build_all env afterwards store
    in build_snapshot env db' later map_id series_id d = Inr (gate, Some s, later) \<and> s \<in> set (st_snapshots later) \<and>
       set (st_snapshots (build_all env before empty_store)) \<subseteq> set (st_snapshots later) \<and>
       distinct (map dp_hash (st_snapshots later)) \<and> distinct (map dp_id (st_snapshots later)) \<and>
       (\<forall>x \<in> set (st_snapshots later). dp_hash x = bv_digest env (JObj (dp_payload x)))"
proof -
  let ?first = "build_all env before empty_store" and ?later = "build_all env afterwards store"
  have ok: "store_ok env ?first" using build_all_store [OF empty_store_ok] by blast
  obtain new where new: "store_ok env store" "st_snapshots store = st_snapshots ?first @ new"
    using build_store [OF ok assms(1)] by blast
  obtain more where more: "store_ok env ?later" "st_snapshots ?later = st_snapshots store @ more"
    using build_all_store [OF new(1)] by blast
  have again: "build_snapshot env db' ?later map_id series_id d = Inr (gate, Some s, ?later)"
    unfolding build_same [OF assms(2-4)] by (rule rebuild_found [OF assms(1) ok more(2)])
  have "s \<in> set (st_snapshots store)"
    using built_from [OF assms(1)] persist_store [OF ok] by (blast dest: find_row_SomeD)
  then show ?thesis using again more new(2) by (auto simp: store_ok_def Let_def)
qed

subsection \<open>A sample snapshot\<close>

definition sample_identity :: identity_db where
  "sample_identity =
     \<lparr>id_events = [], id_teams = [\<lparr>ct_id = 10, ct_name = ''A''\<rparr>, \<lparr>ct_id = 11, ct_name = ''B''\<rparr>], id_aliases = [], id_players = [],
      id_heroes = [],
      id_series = [\<lparr>ser_id = 3, ser_event = None, ser_team_a = 10, ser_team_b = 11, ser_best_of = Some 3, ser_stage_key = [],
                     ser_scheduled_at = None\<rparr>],
      id_maps = [\<lparr>mr_id = 5, mr_series = Some 3, mr_number = Some 1, mr_valve_match = Some 70\<rparr>], id_team_mappings = [],
      id_event_mappings = [], id_player_mappings = [], id_hero_mappings = [], id_match_mappings = [], id_odds = [], id_next = 0\<rparr>"

definition sample_mapping :: "string \<Rightarrow> uuid \<Rightarrow> dated_mapping" where
  "sample_mapping key team =
     \<lparr>dm_mapping = \<lparr>tm_provider = ''dltv'', tm_key = key, tm_team = team, tm_observed_name = None\<rparr>, dm_first_seen_at = 0\<rparr>"

definition sample_slot :: "string \<Rightarrow> uuid \<Rightarrow> draft_slot_row" where
  "sample_slot side player =
     \<lparr>dl_snapshot = 8, dl_side = side, dl_position = 1, dl_account = None, dl_player = Some player, dl_hero = Some 1,
      dl_source = [], dl_confidence = 1\<rparr>"

text \<open>The bootstrap marks the second team, Team B, as Radiant; the draft is not complete yet.\<close>

definition sample_db :: snapshot_db where
  "sample_db =
     \<lparr>nb_identity = sample_identity, nb_mappings = [sample_mapping ''11'' 10, sample_mapping ''12'' 11],
      nb_live = \<lparr>lv_raw = [demo_side_raw False], lv_observations = [], lv_maps = [], lv_events = \<lparr>events = [], outbox = [], next_event_id = 0\<rparr>,
                 lv_next_raw = 0, lv_next_observation = 0\<rparr>,
      nb_odds = sample_rows,
      nb_drafts = [\<lparr>dn_id = 8, dn_map = 5, dn_match = 70, dn_complete = False, dn_blockers = [], dn_warnings = [], dn_hash = [],
                     dn_statistics_cutoff = 0, dn_observed_at = 1, dn_raw_event = 9\<rparr>],
      nb_slots = [sample_slot ''dire'' 32, sample_slot ''radiant'' 31], nb_curves = [], nb_estimates = [], nb_results = [],
      nb_history = \<lparr>hb_ratings = [], hb_forms = [], hb_player_forms = [], hb_player_heroes = [], hb_maps = [], hb_player_maps = []\<rparr>\<rparr>"

definition sample_build_env :: build_env where
  "sample_build_env =
     \<lparr>bv_text = sample_text, bv_real = (\<lambda>x. JNull), bv_digest = (\<lambda>v. ''h''), bv_market_max_age = 60, bv_max_pair_skew = 10,
      bv_live_max_age = 120000000\<rparr>"

lemma sample_gather:
  "\<exists>k. gather sample_build_env sample_db (Some 5) None 4000000 = Inr k \<and>
     gr_eligible (evaluate_gate (gate_context_of sample_build_env sample_identity 4000000 k)) \<and> sides_resolved (ke_sides k) \<and>
     Option.bind (ke_sides k) sa_radiant = Some 11 \<and> ser_team_a (ke_series k) = 10 \<and>
     listed_players (slots_known k) False = [32] \<and> listed_players (slots_known k) True = [31]"
proof -
  have "(case gather sample_build_env sample_db (Some 5) None 4000000 of
      Inl e \<Rightarrow> False
    | Inr k \<Rightarrow> gr_eligible (evaluate_gate (gate_context_of sample_build_env sample_identity 4000000 k)) \<and> sides_resolved (ke_sides k) \<and>
        Option.bind (ke_sides k) sa_radiant = Some 11 \<and> ser_team_a (ke_series k) = 10 \<and>
        listed_players (slots_known k) False = [32] \<and> listed_players (slots_known k) True = [31])"
    by code_simp
  then show ?thesis by (auto split: sum.splits)
qed

text \<open>The sample bootstrap has no game start, so the anchors can always be read.\<close>

lemma sample_anchors:
  assumes "nb_live db = nb_live sample_db"
  shows "\<exists>anchors. anchors_of db t k = Inr anchors"
proof -
  have "picks_ended_anchor (nb_live sample_db) match t = Inr None" for match
    by (simp add: picks_ended_anchor_def newest_def py_max_def sample_db_def demo_side_raw_def json_get_def)
  then show ?thesis by (auto simp: anchors_of_def live_anchors_payload_def assms split: option.split)
qed

lemma sample_built:
  "\<exists>gate s store. build_snapshot sample_build_env sample_db empty_store (Some 5) None 4000000 = Inr (gate, Some s, store)"
proof -
  obtain k where "gather sample_build_env sample_db (Some 5) None 4000000 = Inr k"
      "gr_eligible (evaluate_gate (gate_context_of sample_build_env sample_identity 4000000 k))"
    using sample_gather by blast
  moreover have "nb_identity sample_db = sample_identity" by (simp add: sample_db_def)
  moreover obtain anchors where "anchors_of sample_db 4000000 k = Inr anchors" using sample_anchors [OF refl] by blast
  ultimately show ?thesis by (simp add: build_snapshot_def Let_def split: prod.split sum.split)
qed

theorem stored_snapshots_have_their_evidence_witness:
  "\<exists>k sec age. gather sample_build_env sample_db (Some 5) None 4000000 = Inr k \<and> ke_market k = Some (sec, age) \<and>
     mq_eligible (ms_quality sec) \<and> 0 \<le> age \<and> age \<le> 60"
proof -
  obtain gate s store where b: "build_snapshot sample_build_env sample_db empty_store (Some 5) None 4000000 = Inr (gate, Some s, store)"
    using sample_built by blast
  have "bv_market_max_age sample_build_env = 60" by (simp add: sample_build_env_def)
  then show ?thesis using stored_snapshots_have_their_evidence [OF b] by auto
qed

theorem rosters_follow_the_sides_witness:
  "\<exists>k. gather sample_build_env sample_db (Some 5) None 4000000 = Inr k \<and> rosters_are (ke_history k) [32] [31]"
proof -
  obtain k where k: "gather sample_build_env sample_db (Some 5) None 4000000 = Inr k" "sides_resolved (ke_sides k)"
      "Option.bind (ke_sides k) sa_radiant = Some 11" "ser_team_a (ke_series k) = 10"
      "listed_players (slots_known k) False = [32]" "listed_players (slots_known k) True = [31]"
    using sample_gather by blast
  show ?thesis using rosters_follow_the_sides [OF k(1)] k by (simp add: Let_def)
qed

text \<open>Later a packet was archived, a map of another match and a draft were added, and identifiers given.\<close>

definition grown_sample :: snapshot_db where
  "grown_sample = sample_db\<lparr>
     nb_identity := sample_identity\<lparr>id_maps := id_maps sample_identity @ [\<lparr>mr_id = 6, mr_series = None, mr_number = None, mr_valve_match = Some 71\<rparr>],
                                    id_next := 7\<rparr>,
     nb_live := (nb_live sample_db)\<lparr>lv_raw := lv_raw (nb_live sample_db) @ [(demo_side_raw True)\<lparr>rw_id := 10, rw_received_at := 5000000\<rparr>],
                                    lv_next_raw := 11\<rparr>,
     nb_slots := nb_slots sample_db @ [(sample_slot ''dire'' 33)\<lparr>dl_snapshot := 9\<rparr>]\<rparr>"

lemma grown_sample_same:
  "same_rows 4000000 sample_db grown_sample" "same_subject 4000000 (Some 5) None sample_db grown_sample"
  "same_estimate 4000000 (Some 5) sample_db grown_sample"
  by (simp_all add: same_rows_def same_subject_def same_estimate_def grown_sample_def sample_db_def demo_side_raw_def sample_slot_def
      sample_mapping_def history_known_by_def subject_of_def team_by_id_def sample_identity_def in_series_def)

theorem snapshots_are_content_addressed_witness:
  "\<exists>gate s store. build_snapshot sample_build_env grown_sample
      (build_all sample_build_env [(sample_db, Some 5, None, 5000000)] store) (Some 5) None 4000000 =
    Inr (gate, Some s, build_all sample_build_env [(sample_db, Some 5, None, 5000000)] store)"
proof -
  have start: "build_all sample_build_env [] empty_store = empty_store" by (simp add: build_all_def)
  obtain gate s store where
      b: "build_snapshot sample_build_env sample_db (build_all sample_build_env [] empty_store) (Some 5) None 4000000 = Inr (gate, Some s, store)"
    unfolding start using sample_built by blast
  from snapshots_are_content_addressed [OF b grown_sample_same, of "[(sample_db, Some 5, None, 5000000)]"] show ?thesis
    by (auto simp: Let_def)
qed

end
