(* ===== verification/SnapshotJob.thy ===== *)
theory SnapshotJob
  imports SnapshotProperties SyncProperties Runtime
begin

text \<open>
  The BUILD_SNAPSHOT job (\<open>build_snapshot\<close> of \<open>app/jobs/handlers.py\<close>): estimate the synchronization, build
  the snapshot, schedule the captures of later odds and request the AI decisions, in one transaction; and
  why the job may be retried.
\<close>

subsection \<open>The handler\<close>

record snapshot_lab =
  sj_tables :: snapshot_db
  sj_sync :: sync_db
  sj_store :: snapshot_store
  sj_jobs :: job_db
  sj_events :: event_db
  sj_health :: health_registry

record job_settings =
  sg_env :: build_env
  sg_calibration :: calibration_params
  sg_move :: rat
  sg_nw_threshold :: int
  sg_horizons :: "int list"
  sg_min_game_time :: int
  sg_from_iso :: "string \<Rightarrow> py_datetime option"

datatype snapshot_error =
  SnapshotUnresolved | SnapshotSyncFailed sync_error | SnapshotBuildFailed string | SnapshotScheduleFailed odds_error |
  SnapshotEligibilityFailed string | SnapshotEventFailed event_error

text \<open>The estimates that the builder reads are the ones the aligner writes.\<close>

definition read_tables :: "snapshot_lab \<Rightarrow> snapshot_db" where
  "read_tables st = (sj_tables st)\<lparr>nb_estimates := sy_estimates (sj_sync st)\<rparr>"

definition payload_nonzero :: "int option \<Rightarrow> bool" where
  "payload_nonzero v \<longleftrightarrow> (case v of None \<Rightarrow> False | Some i \<Rightarrow> i \<noteq> 0)"

text \<open>The map and the series named by a payload, or by its RayBet match.\<close>

definition payload_subject :: "identity_db \<Rightarrow> (string \<times> json) list \<Rightarrow> uuid option \<times> uuid option" where
  "payload_subject db payload =
     (let map_id = payload_uuid payload ''canonical_map_id''; series_id = payload_uuid payload ''canonical_series_id'';
          match = payload_int payload ''provider_match_id''
      in if map_id = None \<and> series_id = None \<and> payload_nonzero match
         then (case match_mapping_for db ''raybet'' (case match of None \<Rightarrow> [] | Some i \<Rightarrow> str_int i) of
                 None \<Rightarrow> (None, None) | Some m \<Rightarrow> (mm_map m, mm_series m))
         else (map_id, series_id))"

definition identity_from_payload :: "identity_db \<Rightarrow> (string \<times> json) list \<Rightarrow> (identity_map option \<times> identity_series) option" where
  "identity_from_payload db payload =
     (let (map_id, series_id) = payload_subject db payload;
          m = Option.bind map_id (\<lambda>i. find_row (\<lambda>r. mr_id r = i) (id_maps db));
          s = (case m of Some r \<Rightarrow> mr_series r | None \<Rightarrow> series_id)
      in map_option (Pair m) (Option.bind s (\<lambda>i. find_row (\<lambda>r. ser_id r = i) (id_series db))))"

definition facts_of_map :: "identity_map \<Rightarrow> identity_series \<Rightarrow> map_facts" where
  "facts_of_map m s = \<lparr>mf_series_id = mr_series m, mf_map_number = mr_number m, mf_best_of = ser_best_of s\<rparr>"

definition sync_metadata :: "build_env \<Rightarrow> sync_estimate \<Rightarrow> metadata" where
  "sync_metadata env e =
     [(''p50_seconds'', num_json (se_p50 e)), (''p90_seconds'', num_json (se_p90 e)),
      (''jitter_seconds'', opt_json (bv_real env) (se_jitter e)), (''sample_size'', JInt (int (se_sample_size e)))]"

definition estimate_sync ::
  "job_settings \<Rightarrow> snapshot_lab \<Rightarrow> identity_map \<Rightarrow> identity_series \<Rightarrow> time \<Rightarrow> time \<Rightarrow> snapshot_error + snapshot_lab" where
  "estimate_sync cfg st m s as_of now =
     (case aligner_calculate (sg_calibration cfg) (sg_move cfg) (sg_nw_threshold cfg) (Some (facts_of_map m s))
             (nb_odds (sj_tables st)) (lv_observations (nb_live (sj_tables st))) (sj_sync st) (mr_id m) as_of of
        Inl e \<Rightarrow> Inl (SnapshotSyncFailed e)
      | Inr (e, sync) \<Rightarrow>
          Inr (st\<lparr>sj_sync := sync,
                  sj_health := dependency (sj_health st) now ''LIVE_SYNC'' (sync_status_value (se_status e)) None False None None
                                 (sync_metadata (sg_env cfg) e)\<rparr>))"

definition ai_request_event :: "time \<Rightarrow> decision_snapshot \<Rightarrow> domain_event" where
  "ai_request_event now s =
     \<lparr>ev_type = AI_DECISION_REQUESTED, ev_aggregate_type = ''decision_snapshot'', ev_aggregate_id = str_uuid (dp_id s),
      ev_dedupe_key = ''ai:'' @ dp_hash s, ev_payload = [(''snapshot_id'', JStr (str_uuid (dp_id s)))], ev_occurred_at = now\<rparr>"

definition snapshot_game_time_eligible :: "job_settings \<Rightarrow> decision_snapshot \<Rightarrow> string + bool" where
  "snapshot_game_time_eligible cfg s =
     ai_decision_is_game_time_eligible (sg_from_iso cfg)
       (case obj_fields (json_get (dp_payload s) ''quality'') of None \<Rightarrow> [] | Some q \<Rightarrow> q) (json_get (dp_payload s) ''live'')
       (utc (dp_decision_at s)) (sg_min_game_time cfg)"

definition after_build ::
  "bool \<Rightarrow> job_settings \<Rightarrow> snapshot_lab \<Rightarrow> time \<Rightarrow> decision_snapshot \<Rightarrow> snapshot_error + snapshot_lab" where
  "after_build pg cfg st now s =
     (case schedule pg (sj_jobs st) now (dp_id s) (dp_decision_at s) (sg_horizons cfg) of
        Inl e \<Rightarrow> Inl (SnapshotScheduleFailed e)
      | Inr (n, jdb) \<Rightarrow>
         (case snapshot_game_time_eligible cfg s of
            Inl e \<Rightarrow> Inl (SnapshotEligibilityFailed e)
          | Inr False \<Rightarrow> Inr (st\<lparr>sj_jobs := jdb\<rparr>)
          | Inr True \<Rightarrow>
             (case record_event pg (sj_events st) now (ai_request_event now s) [''domain''] of
                Inl e \<Rightarrow> Inl (SnapshotEventFailed e)
              | Inr (r, edb) \<Rightarrow> Inr (st\<lparr>sj_jobs := jdb, sj_events := edb\<rparr>))))"

definition build_for ::
  "bool \<Rightarrow> job_settings \<Rightarrow> snapshot_lab \<Rightarrow> identity_map option \<Rightarrow> identity_series \<Rightarrow> time \<Rightarrow> time \<Rightarrow>
   snapshot_error + (decision_snapshot option \<times> snapshot_lab)" where
  "build_for pg cfg st m s decision_at now =
     (case build_snapshot (sg_env cfg) (read_tables st) (sj_store st)
             (map_option mr_id m) (Some (ser_id s)) decision_at of
        Inl e \<Rightarrow> Inl (SnapshotBuildFailed e)
      | Inr (gate, None, store) \<Rightarrow> Inr (None, st\<lparr>sj_store := store\<rparr>)
      | Inr (gate, Some x, store) \<Rightarrow>
         (case after_build pg cfg (st\<lparr>sj_store := store\<rparr>) now x of Inl e \<Rightarrow> Inl e | Inr st' \<Rightarrow> Inr (Some x, st')))"

text \<open>\<open>_datetime(job.payload.get("decision_at")) or datetime.now(UTC)\<close>\<close>

definition decision_instant :: "job_settings \<Rightarrow> (string \<times> json) list \<Rightarrow> time \<Rightarrow> time" where
  "decision_instant cfg payload now =
     (case payload_instant (sg_from_iso cfg) payload ''decision_at'' of Some t \<Rightarrow> t | None \<Rightarrow> now)"

definition build_snapshot_job ::
  "bool \<Rightarrow> job_settings \<Rightarrow> snapshot_lab \<Rightarrow> (string \<times> json) list \<Rightarrow> time \<Rightarrow>
   snapshot_error + (decision_snapshot option \<times> snapshot_lab)" where
  "build_snapshot_job pg cfg st payload now =
     (case identity_from_payload (nb_identity (sj_tables st)) payload of
        None \<Rightarrow> Inl SnapshotUnresolved
      | Some (m, s) \<Rightarrow>
         (let decision_at = decision_instant cfg payload now
          in case (case m of None \<Rightarrow> Inr st | Some r \<Rightarrow> estimate_sync cfg st r s decision_at now) of
               Inl e \<Rightarrow> Inl e
             | Inr st' \<Rightarrow> build_for pg cfg st' m s decision_at now))"

text \<open>Other workers run the same handler on the tables as they have grown; a job that raises is rolled back.\<close>

type_synonym later_job = "snapshot_db \<times> (string \<times> json) list \<times> time"

definition later_build :: "bool \<Rightarrow> job_settings \<Rightarrow> later_job \<Rightarrow> snapshot_lab \<Rightarrow> snapshot_lab" where
  "later_build pg cfg j st =
     (case j of (tables, payload, now) \<Rightarrow>
        (case build_snapshot_job pg cfg (st\<lparr>sj_tables := tables\<rparr>) payload now of
           Inl e \<Rightarrow> st\<lparr>sj_tables := tables\<rparr>
         | Inr (s, st') \<Rightarrow> st'))"

definition later_builds :: "bool \<Rightarrow> job_settings \<Rightarrow> later_job list \<Rightarrow> snapshot_lab \<Rightarrow> snapshot_lab" where
  "later_builds pg cfg js st = fold (later_build pg cfg) js st"

subsection \<open>Scheduling the captures\<close>

definition horizon_requests :: "uuid \<Rightarrow> time \<Rightarrow> int list \<Rightarrow> job_request list" where
  "horizon_requests i d hs =
     map (\<lambda>h. \<lparr>rq_type = CAPTURE_FUTURE_ODDS, rq_key = horizon_key i h, rq_payload = horizon_payload i h (d + micros h),
               rq_priority = 100, rq_not_before = Some (d + micros h)\<rparr>) hs"

lemma schedule_from_requests:
  assumes "schedule_from pg jdb now i d hs n = Inr (m, jdb')"
  shows "enqueue_all (enqueue_request pg now) jdb (horizon_requests i d hs) = Inr jdb' \<and> (\<forall>h \<in> set hs. 0 < h)"
  using assms
  by (induction hs arbitrary: jdb n)
    (auto simp: horizon_requests_def enqueue_request_def Let_def split: if_splits sum.splits prod.splits)

lemma schedule_from_again:
  assumes "\<forall>h \<in> set hs. 0 < h" and "\<forall>r \<in> set (horizon_requests i d hs). has_job jdb (request_key r)"
  shows "schedule_from pg jdb now i d hs n = Inr (n + length hs, jdb)"
  using assms
proof (induction hs arbitrary: n)
  case (Cons h hs)
  let ?r = "\<lparr>rq_type = CAPTURE_FUTURE_ODDS, rq_key = horizon_key i h, rq_payload = horizon_payload i h (d + micros h),
               rq_priority = 100, rq_not_before = Some (d + micros h)\<rparr>"
  have "enqueue_request pg now jdb ?r = Inr jdb" using Cons.prems(2) by (simp add: enqueue_request_eq horizon_requests_def)
  then obtain j where "enqueue pg jdb now CAPTURE_FUTURE_ODDS (horizon_key i h) (horizon_payload i h (d + micros h)) 100
      (Some (d + micros h)) 8 False 3 = Inr (j, jdb)"
    by (auto simp: enqueue_request_def split: sum.splits)
  then show ?case using Cons by (simp add: horizon_requests_def Let_def)
qed simp

lemma schedule_jobs:
  assumes "schedule pg jdb now i d hs = Inr (n, jdb')"
  shows "has_job jdb' k \<longleftrightarrow> has_job jdb k \<or> k \<in> request_key ` set (horizon_requests i d hs)" and "\<forall>h \<in> set hs. 0 < h"
  using schedule_from_requests [OF assms [unfolded schedule_def]] jq.all_has by blast+

lemma record_event_recorded:
  assumes "record_event pg db now ev topics = Inr (r, db')"
  shows "is_recorded db' ev \<and> (\<forall>e. is_recorded db e \<longrightarrow> is_recorded db' e)"
  using assms
  by (auto simp: record_event_def insert_event_def is_recorded_def same_event_def new_event_record_def Let_def
      split: if_splits option.splits)

lemma record_event_again: "is_recorded db ev \<Longrightarrow> \<exists>r. record_event pg db now ev topics = Inr (r, db)"
  by (auto simp: record_event_def is_recorded_def Let_def)

lemma ai_request_recorded: "is_recorded db (ai_request_event t s) \<longleftrightarrow> is_recorded db (ai_request_event t' s)"
  by (simp add: is_recorded_def ai_request_event_def)

subsection \<open>What a build leaves behind\<close>

text \<open>The state has grown: estimates, snapshots, jobs and events were only added; the tables of the evidence may be any.\<close>

definition grown :: "snapshot_lab \<Rightarrow> snapshot_lab \<Rightarrow> bool" where
  "grown st st' \<longleftrightarrow>
     (\<exists>es. sy_estimates (sj_sync st') = sy_estimates (sj_sync st) @ es) \<and>
     (\<exists>ss. st_snapshots (sj_store st') = st_snapshots (sj_store st) @ ss) \<and>
     (\<forall>k. has_job (sj_jobs st) k \<longrightarrow> has_job (sj_jobs st') k) \<and>
     (\<forall>e. is_recorded (sj_events st) e \<longrightarrow> is_recorded (sj_events st') e)"

lemma grown_refl: "grown st st"
  by (simp add: grown_def)

lemma grown_trans: "grown st st' \<Longrightarrow> grown st' st'' \<Longrightarrow> grown st st''"
  by (fastforce simp: grown_def)

lemma aligner_stored:
  assumes "aligner_calculate par move nw facts odds live db map_id d = Inr (e, db')"
  shows "find_row (\<lambda>e. se_map e = map_id \<and> se_calculated_at e = d) (sy_estimates db') = Some e \<and>
    (\<exists>es. sy_estimates db' = sy_estimates db @ es \<and> (\<forall>x \<in> set es. se_calculated_at x = d))"
proof (cases "find_row (\<lambda>e. se_map e = map_id \<and> se_calculated_at e = d) (sy_estimates db)")
  case None
  have new: "sy_estimates db' = sy_estimates db @ [e]" and "\<exists>raybet dltv. e = fst (calibrate map_id raybet dltv d par)"
    using assms None by (auto simp: aligner_calculate_def Let_def split_beta split: sum.split_asm if_split_asm)
  then have "se_map e = map_id" "se_calculated_at e = d" by (auto simp: calibrate_key)
  then show ?thesis using None new by simp
next
  case (Some x)
  then show ?thesis using assms by (simp add: aligner_calculate_def)
qed

lemma estimate_sync_facts:
  assumes "estimate_sync cfg st m s d now = Inr st'"
  shows "\<exists>e sync h. st' = st\<lparr>sj_sync := sync, sj_health := h\<rparr> \<and>
    find_row (\<lambda>e. se_map e = mr_id m \<and> se_calculated_at e = d) (sy_estimates sync) = Some e \<and>
    (\<exists>es. sy_estimates sync = sy_estimates (sj_sync st) @ es \<and> (\<forall>x \<in> set es. se_calculated_at x = d))"
  using assms by (auto simp: estimate_sync_def split: sum.splits dest!: aligner_stored)

lemma estimate_sync_again:
  assumes "find_row (\<lambda>e. se_map e = mr_id m \<and> se_calculated_at e = d) (sy_estimates (sj_sync st)) = Some e"
  shows "\<exists>h. estimate_sync cfg st m s d now = Inr (st\<lparr>sj_health := h\<rparr>)"
  using assms by (auto simp: estimate_sync_def aligner_calculate_def)

lemma after_build_facts:
  assumes "after_build pg cfg st now s = Inr st'"
  shows "\<exists>jdb edb. st' = st\<lparr>sj_jobs := jdb, sj_events := edb\<rparr> \<and> (\<forall>h \<in> set (sg_horizons cfg). 0 < h) \<and>
    (\<forall>k. has_job (sj_jobs st) k \<longrightarrow> has_job jdb k) \<and>
    (\<forall>k \<in> request_key ` set (horizon_requests (dp_id s) (dp_decision_at s) (sg_horizons cfg)). has_job jdb k) \<and>
    (\<forall>e. is_recorded (sj_events st) e \<longrightarrow> is_recorded edb e) \<and>
    (\<exists>b. snapshot_game_time_eligible cfg s = Inr b \<and> (b \<longrightarrow> is_recorded edb (ai_request_event now s)))"
proof -
  obtain n jdb b where j: "schedule pg (sj_jobs st) now (dp_id s) (dp_decision_at s) (sg_horizons cfg) = Inr (n, jdb)"
      and b: "snapshot_game_time_eligible cfg s = Inr b"
    using assms by (auto simp: after_build_def split: sum.splits)
  note jobs = schedule_jobs [OF j]
  show ?thesis
  proof (cases b)
    case True
    obtain r edb where r: "record_event pg (sj_events st) now (ai_request_event now s) [''domain''] = Inr (r, edb)"
        "st' = st\<lparr>sj_jobs := jdb, sj_events := edb\<rparr>"
      using assms j b True by (auto simp: after_build_def split: sum.splits)
    show ?thesis using jobs b r(2) record_event_recorded [OF r(1)] by blast
  next
    case False
    then have "st' = st\<lparr>sj_jobs := jdb, sj_events := sj_events st\<rparr>"
      using assms j b by (cases st) (auto simp: after_build_def)
    then show ?thesis using jobs b False by blast
  qed
qed

lemma after_build_again:
  assumes "\<forall>h \<in> set (sg_horizons cfg). 0 < h"
    and "\<forall>k \<in> request_key ` set (horizon_requests (dp_id s) (dp_decision_at s) (sg_horizons cfg)). has_job (sj_jobs st) k"
    and "snapshot_game_time_eligible cfg s = Inr b" and "b \<Longrightarrow> is_recorded (sj_events st) (ai_request_event t s)"
  shows "after_build pg cfg st now s = Inr st"
proof -
  have j: "schedule pg (sj_jobs st) now (dp_id s) (dp_decision_at s) (sg_horizons cfg) = Inr (length (sg_horizons cfg), sj_jobs st)"
    using schedule_from_again [OF assms(1)] assms(2) by (simp add: schedule_def)
  show ?thesis
  proof (cases b)
    case True
    then have "is_recorded (sj_events st) (ai_request_event now s)" using assms(4) ai_request_recorded by blast
    then obtain r where "record_event pg (sj_events st) now (ai_request_event now s) [''domain''] = Inr (r, sj_events st)"
      using record_event_again by blast
    then show ?thesis using j assms(3) True by (simp add: after_build_def)
  next
    case False
    then show ?thesis using j assms(3) by (simp add: after_build_def)
  qed
qed

text \<open>One job, taken apart: the estimate, the snapshot and what follows from it.\<close>

lemma job_parts:
  assumes "build_snapshot_job pg cfg st payload now = Inr (out, st')"
  shows "\<exists>m s sync h gate store. identity_from_payload (nb_identity (sj_tables st)) payload = Some (m, s) \<and>
    (\<exists>es. sy_estimates sync = sy_estimates (sj_sync st) @ es \<and> (\<forall>x \<in> set es. se_calculated_at x = decision_instant cfg payload now)) \<and>
    (\<forall>r. m = Some r \<longrightarrow> (\<exists>e. find_row (\<lambda>e. se_map e = mr_id r \<and> se_calculated_at e = decision_instant cfg payload now)
                               (sy_estimates sync) = Some e)) \<and>
    build_snapshot (sg_env cfg) (read_tables (st\<lparr>sj_sync := sync\<rparr>)) (sj_store st) (map_option mr_id m) (Some (ser_id s))
      (decision_instant cfg payload now) = Inr (gate, out, store) \<and>
    (case out of None \<Rightarrow> st' = st\<lparr>sj_sync := sync, sj_health := h, sj_store := store\<rparr>
     | Some x \<Rightarrow> after_build pg cfg (st\<lparr>sj_sync := sync, sj_health := h, sj_store := store\<rparr>) now x = Inr st')"
proof -
  let ?d = "decision_instant cfg payload now"
  obtain m s where i: "identity_from_payload (nb_identity (sj_tables st)) payload = Some (m, s)"
    using assms by (auto simp: build_snapshot_job_def split: option.splits)
  obtain st1 where e: "(case m of None \<Rightarrow> Inr st | Some r \<Rightarrow> estimate_sync cfg st r s ?d now) = Inr st1"
      and b: "build_for pg cfg st1 m s ?d now = Inr (out, st')"
    using assms i by (auto simp: build_snapshot_job_def Let_def split: sum.splits)
  have "\<exists>sync h. st1 = st\<lparr>sj_sync := sync, sj_health := h\<rparr> \<and>
      (\<exists>es. sy_estimates sync = sy_estimates (sj_sync st) @ es \<and> (\<forall>x \<in> set es. se_calculated_at x = ?d)) \<and>
      (\<forall>r. m = Some r \<longrightarrow> (\<exists>e. find_row (\<lambda>e. se_map e = mr_id r \<and> se_calculated_at e = ?d) (sy_estimates sync) = Some e))"
  proof (cases m)
    case None
    then have "st1 = st\<lparr>sj_sync := sj_sync st, sj_health := sj_health st\<rparr>" using e by simp
    then show ?thesis using None by (intro exI [of _ "sj_sync st"] exI [of _ "sj_health st"]) simp
  next
    case (Some r)
    then show ?thesis using estimate_sync_facts [of cfg st r s ?d now st1] e by auto
  qed
  then obtain sync h where st1: "st1 = st\<lparr>sj_sync := sync, sj_health := h\<rparr>"
      "\<exists>es. sy_estimates sync = sy_estimates (sj_sync st) @ es \<and> (\<forall>x \<in> set es. se_calculated_at x = ?d)"
      "\<forall>r. m = Some r \<longrightarrow> (\<exists>e. find_row (\<lambda>e. se_map e = mr_id r \<and> se_calculated_at e = ?d) (sy_estimates sync) = Some e)"
    by blast
  have "\<exists>gate store. build_snapshot (sg_env cfg) (read_tables (st\<lparr>sj_sync := sync\<rparr>)) (sj_store st) (map_option mr_id m)
      (Some (ser_id s)) ?d = Inr (gate, out, store) \<and>
    (case out of None \<Rightarrow> st' = st\<lparr>sj_sync := sync, sj_health := h, sj_store := store\<rparr>
     | Some x \<Rightarrow> after_build pg cfg (st\<lparr>sj_sync := sync, sj_health := h, sj_store := store\<rparr>) now x = Inr st')"
    using b unfolding st1(1) by (auto simp: build_for_def read_tables_def split: sum.splits option.splits)
  then show ?thesis using i st1(2,3) by blast
qed

lemma job_grows:
  assumes "build_snapshot_job pg cfg st payload now = Inr (out, st')" and "store_ok (sg_env cfg) (sj_store st)"
  shows "grown st st' \<and> store_ok (sg_env cfg) (sj_store st') \<and> sj_tables st' = sj_tables st"
proof -
  obtain m :: "identity_map option" and s :: identity_series and sync h gate store es where p: "sy_estimates sync = sy_estimates (sj_sync st) @ es"
      "\<forall>x \<in> set es. se_calculated_at x = decision_instant cfg payload now"
      "build_snapshot (sg_env cfg) (read_tables (st\<lparr>sj_sync := sync\<rparr>)) (sj_store st) (map_option mr_id m) (Some (ser_id s))
         (decision_instant cfg payload now) = Inr (gate, out, store)"
      "case out of None \<Rightarrow> st' = st\<lparr>sj_sync := sync, sj_health := h, sj_store := store\<rparr>
       | Some x \<Rightarrow> after_build pg cfg (st\<lparr>sj_sync := sync, sj_health := h, sj_store := store\<rparr>) now x = Inr st'"
    using job_parts [OF assms(1)] by (elim exE conjE) (rule that)
  note st = build_store [OF assms(2) p(3)]
  have "\<exists>jdb edb. st' = st\<lparr>sj_sync := sync, sj_health := h, sj_store := store, sj_jobs := jdb, sj_events := edb\<rparr> \<and>
      (\<forall>k. has_job (sj_jobs st) k \<longrightarrow> has_job jdb k) \<and> (\<forall>e. is_recorded (sj_events st) e \<longrightarrow> is_recorded edb e)"
  proof (cases out)
    case None
    then show ?thesis using p(4) by (intro exI [of _ "sj_jobs st"] exI [of _ "sj_events st"]) (cases st, simp)
  next
    case (Some x)
    then have "after_build pg cfg (st\<lparr>sj_sync := sync, sj_health := h, sj_store := store\<rparr>) now x = Inr st'" using p(4) by simp
    from after_build_facts [OF this] obtain jdb edb where
        a: "st' = st\<lparr>sj_sync := sync, sj_health := h, sj_store := store, sj_jobs := jdb, sj_events := edb\<rparr>"
        "\<forall>k. has_job (sj_jobs st) k \<longrightarrow> has_job jdb k" "\<forall>e. is_recorded (sj_events st) e \<longrightarrow> is_recorded edb e"
      by (elim exE conjE) (rule that, assumption, simp_all)
    then show ?thesis by blast
  qed
  then show ?thesis using p(1) st by (auto simp: grown_def)
qed

lemma later_build_grows:
  assumes "store_ok (sg_env cfg) (sj_store st)"
  shows "grown st (later_build pg cfg j st) \<and> store_ok (sg_env cfg) (sj_store (later_build pg cfg j st))"
proof -
  obtain tables payload now where j: "j = (tables, payload, now)" by (cases j)
  let ?st = "st\<lparr>sj_tables := tables\<rparr>"
  have same: "grown st ?st" by (simp add: grown_def)
  have ok: "store_ok (sg_env cfg) (sj_store ?st)" using assms by simp
  show ?thesis
  proof (cases "build_snapshot_job pg cfg ?st payload now")
    case (Inl e)
    then show ?thesis using same ok by (simp add: later_build_def j)
  next
    case (Inr r)
    obtain out st' where r: "r = (out, st')" by (cases r)
    have "grown ?st st' \<and> store_ok (sg_env cfg) (sj_store st')" using job_grows [OF Inr [unfolded r] ok] by blast
    then show ?thesis using Inr r grown_trans [OF same] by (simp add: later_build_def j)
  qed
qed

lemma later_builds_grow: "store_ok (sg_env cfg) (sj_store st) \<Longrightarrow> grown st (later_builds pg cfg js st)"
proof (induction js arbitrary: st)
  case (Cons j js)
  have step: "grown st (later_build pg cfg j st)" "store_ok (sg_env cfg) (sj_store (later_build pg cfg j st))"
    using later_build_grows [OF Cons.prems] by blast+
  from grown_trans [OF step(1) Cons.IH [OF step(2)]] show ?case by (simp add: later_builds_def)
qed (simp add: later_builds_def grown_refl)

lemma build_for_again:
  assumes "build_snapshot (sg_env cfg) (read_tables st) (sj_store st) (map_option mr_id m) (Some (ser_id s)) d = Inr (gate, Some x, sj_store st)"
    and "after_build pg cfg st now x = Inr st"
  shows "build_for pg cfg st m s d now = Inr (Some x, st)"
proof -
  have "st\<lparr>sj_store := sj_store st\<rparr> = st" by (cases st) simp
  then show ?thesis using assms by (simp add: build_for_def)
qed

lemma health_frame:
  "read_tables (st\<lparr>sj_health := h\<rparr>) = read_tables st" "sj_store (st\<lparr>sj_health := h\<rparr>) = sj_store st"
  "sj_jobs (st\<lparr>sj_health := h\<rparr>) = sj_jobs st" "sj_events (st\<lparr>sj_health := h\<rparr>) = sj_events st"
  by (simp_all add: read_tables_def)

text \<open>The evidence of a payload at an instant is the same in two states of the tables: what was known by then, and
  the map and the series the payload names.\<close>

definition same_evidence :: "time \<Rightarrow> (string \<times> json) list \<Rightarrow> snapshot_db \<Rightarrow> snapshot_db \<Rightarrow> bool" where
  "same_evidence d payload db db' \<longleftrightarrow>
     same_rows d db db' \<and> identity_from_payload (nb_identity db') payload = identity_from_payload (nb_identity db) payload \<and>
     (\<forall>m s. identity_from_payload (nb_identity db) payload = Some (m, s) \<longrightarrow>
        same_subject d (map_option mr_id m) (Some (ser_id s)) db db')"

lemma stored_estimate_latest:
  assumes "find_row (\<lambda>e. se_map e = i \<and> se_calculated_at e = d) es = Some e"
  shows "latest_estimate es i d = Some e"
proof -
  let ?P = "\<lambda>e. se_map e = i \<and> se_calculated_at e \<le> d"
  have e: "e \<in> set es" "se_map e = i" "se_calculated_at e = d" using find_row_SomeD [OF assms] by simp_all
  have "latest_estimate es i d = find_row (\<lambda>x. ?P x \<and> (\<forall>y \<in> set (filter ?P es). se_calculated_at y \<le> se_calculated_at x)) es"
    unfolding latest_estimate_def newest_def py_max_first find_row_filter ..
  also have "\<dots> = find_row (\<lambda>x. se_map x = i \<and> se_calculated_at x = d) es"
    by (rule find_row_cong) (use e in \<open>auto intro: antisym\<close>)
  finally show ?thesis using assms by simp
qed

lemma read_same:
  assumes "same_rows d db db'" and "same_subject d map_id series_id db db'"
  shows "same_rows d (db\<lparr>nb_estimates := es\<rparr>) (db'\<lparr>nb_estimates := es'\<rparr>)"
    and "same_subject d map_id series_id (db\<lparr>nb_estimates := es\<rparr>) (db'\<lparr>nb_estimates := es'\<rparr>)"
  using assms by (simp_all add: same_rows_def same_subject_def)

text \<open>The core of the matter: what a build wrote is found again by the same job.\<close>

lemma job_again:
  assumes first: "build_snapshot_job pg cfg st payload now = Inr (Some x, st1)" and ok: "store_ok (sg_env cfg) (sj_store st)"
    and d: "payload_instant (sg_from_iso cfg) payload ''decision_at'' = Some d" and since: "grown st1 st2"
    and evidence: "same_evidence d payload (sj_tables st) (sj_tables st2)"
  shows "\<exists>h. build_snapshot_job pg cfg st2 payload again = Inr (Some x, st2\<lparr>sj_health := h\<rparr>)"
proof -
  have instants: "decision_instant cfg payload now = d" "decision_instant cfg payload again = d"
    using d by (simp_all add: decision_instant_def)
  obtain m :: "identity_map option" and s :: identity_series and sync h gate store where
      i: "identity_from_payload (nb_identity (sj_tables st)) payload = Some (m, s)"
      and e: "\<forall>r. m = Some r \<longrightarrow> (\<exists>e. find_row (\<lambda>e. se_map e = mr_id r \<and> se_calculated_at e = d) (sy_estimates sync) = Some e)"
      and b: "build_snapshot (sg_env cfg) (read_tables (st\<lparr>sj_sync := sync\<rparr>)) (sj_store st) (map_option mr_id m) (Some (ser_id s)) d =
        Inr (gate, Some x, store)"
      and a: "after_build pg cfg (st\<lparr>sj_sync := sync, sj_health := h, sj_store := store\<rparr>) now x = Inr st1"
    using job_parts [OF first] unfolding instants option.case by (elim exE conjE) (rule that)
  obtain jdb edb flag where st1: "st1 = st\<lparr>sj_sync := sync, sj_health := h, sj_store := store, sj_jobs := jdb, sj_events := edb\<rparr>"
      and horizons: "\<forall>h \<in> set (sg_horizons cfg). 0 < h"
      "\<forall>k \<in> request_key ` set (horizon_requests (dp_id x) (dp_decision_at x) (sg_horizons cfg)). has_job jdb k"
      and flag: "snapshot_game_time_eligible cfg x = Inr flag" "flag \<longrightarrow> is_recorded edb (ai_request_event now x)"
    using after_build_facts [OF a] by (elim exE conjE) (rule that, assumption, simp_all)
  obtain es ss where grew: "sy_estimates (sj_sync st2) = sy_estimates sync @ es" "st_snapshots (sj_store st2) = st_snapshots store @ ss"
      "\<forall>k. has_job jdb k \<longrightarrow> has_job (sj_jobs st2) k" "\<forall>e. is_recorded edb e \<longrightarrow> is_recorded (sj_events st2) e"
    using since unfolding grown_def st1 by auto
  have identity: "identity_from_payload (nb_identity (sj_tables st2)) payload = Some (m, s)"
    and same: "same_rows d (sj_tables st) (sj_tables st2)"
      "same_subject d (map_option mr_id m) (Some (ser_id s)) (sj_tables st) (sj_tables st2)"
    using evidence i by (simp_all add: same_evidence_def)
  have stored: "\<exists>e. find_row (\<lambda>e. se_map e = mr_id r \<and> se_calculated_at e = d) (sy_estimates sync) = Some e \<and>
      find_row (\<lambda>e. se_map e = mr_id r \<and> se_calculated_at e = d) (sy_estimates (sj_sync st2)) = Some e" if "m = Some r" for r
    using e that grew(1) by (fastforce simp: find_row_append)
  have "\<exists>h. (case m of None \<Rightarrow> Inr st2 | Some r \<Rightarrow> estimate_sync cfg st2 r s d again) = Inr (st2\<lparr>sj_health := h\<rparr>)"
  proof (cases m)
    case None
    then show ?thesis by (intro exI [of _ "sj_health st2"]) simp
  next
    case (Some r)
    then show ?thesis using estimate_sync_again [of r d st2] stored [OF Some] by auto
  qed
  then obtain h' where h': "(case m of None \<Rightarrow> Inr st2 | Some r \<Rightarrow> estimate_sync cfg st2 r s d again) = Inr (st2\<lparr>sj_health := h'\<rparr>)"
    by blast
  have estimate: "same_estimate d (map_option mr_id m) (read_tables (st\<lparr>sj_sync := sync\<rparr>)) (read_tables st2)"
    using stored by (cases m) (auto simp: same_estimate_def read_tables_def dest!: stored_estimate_latest)
  have "build_snapshot (sg_env cfg) (read_tables st2) (sj_store st2) (map_option mr_id m) (Some (ser_id s)) d =
      build_snapshot (sg_env cfg) (read_tables (st\<lparr>sj_sync := sync\<rparr>)) (sj_store st2) (map_option mr_id m) (Some (ser_id s)) d"
    by (rule build_same [OF _ _ estimate]) (simp_all add: read_tables_def read_same [OF same])
  then have "build_snapshot (sg_env cfg) (read_tables st2) (sj_store st2) (map_option mr_id m) (Some (ser_id s)) d = Inr (gate, Some x, sj_store st2)"
    using rebuild_found [OF b ok grew(2)] by simp
  then have built: "build_snapshot (sg_env cfg) (read_tables (st2\<lparr>sj_health := h'\<rparr>)) (sj_store (st2\<lparr>sj_health := h'\<rparr>)) (map_option mr_id m)
      (Some (ser_id s)) d = Inr (gate, Some x, sj_store (st2\<lparr>sj_health := h'\<rparr>))"
    unfolding health_frame .
  have "after_build pg cfg (st2\<lparr>sj_health := h'\<rparr>) again x = Inr (st2\<lparr>sj_health := h'\<rparr>)"
  proof (rule after_build_again [OF horizons(1) _ flag(1)])
    show "\<forall>k \<in> request_key ` set (horizon_requests (dp_id x) (dp_decision_at x) (sg_horizons cfg)). has_job (sj_jobs (st2\<lparr>sj_health := h'\<rparr>)) k"
      using horizons(2) grew(3) unfolding health_frame by blast
    show "is_recorded (sj_events (st2\<lparr>sj_health := h'\<rparr>)) (ai_request_event now x)" if flag
      using flag(2) grew(4) that unfolding health_frame by blast
  qed
  from build_for_again [OF built this] have "build_for pg cfg (st2\<lparr>sj_health := h'\<rparr>) m s d again = Inr (Some x, st2\<lparr>sj_health := h'\<rparr>)" .
  then show ?thesis using identity h' instants(2) by (auto simp: build_snapshot_job_def Let_def)
qed

text \<open>What follows a build cannot fail: the quality document always has its anchors.\<close>

lemma anchors_are_an_object: "anchors_of db d k = Inr anchors \<Longrightarrow> \<exists>fs. anchors = JObj fs"
  by (auto simp: anchors_of_def no_anchors_def live_anchors_payload_def split: option.splits sum.splits prod.splits)

lemma built_eligibility:
  assumes "dp_payload s = snapshot_payload env db map_id d k gate anchors" and "anchors_of db d k = Inr anchors"
  shows "\<exists>b. snapshot_game_time_eligible cfg s = Inr b"
proof -
  obtain fs where fs: "anchors = JObj fs" using anchors_are_an_object [OF assms(2)] by blast
  then obtain q a where q: "quality_payload env d k gate anchors = JObj q" "anchor_value q = Some a"
    by (simp add: quality_payload_def anchor_value_def json_get_def)
  have "json_get (dp_payload s) ''quality'' = JObj q"
    by (simp add: assms(1) snapshot_payload_def canonical_payload_def json_get_def q(1))
  then show ?thesis
    by (simp add: snapshot_game_time_eligible_def ai_decision_is_game_time_eligible_def is_game_time_eligible_def obj_fields_def q(2) utc_def
        split: option.split)
qed

lemma schedule_from_total:
  "\<forall>h \<in> set hs. 0 < h \<Longrightarrow> \<exists>m jdb'. schedule_from pg jdb now i d hs n = Inr (m, jdb')"
proof (induction hs arbitrary: jdb n)
  case (Cons h hs)
  obtain j jdb1 where "enqueue pg jdb now CAPTURE_FUTURE_ODDS (horizon_key i h) (horizon_payload i h (d + micros h)) 100
      (Some (d + micros h)) 8 False 3 = Inr (j, jdb1)"
    using jq.enq_total [of pg now jdb "\<lparr>rq_type = CAPTURE_FUTURE_ODDS, rq_key = horizon_key i h,
      rq_payload = horizon_payload i h (d + micros h), rq_priority = 100, rq_not_before = Some (d + micros h)\<rparr>"]
    by (auto simp: enqueue_request_def split: sum.splits)
  then show ?case using Cons by (simp add: Let_def)
qed simp

lemma after_build_total:
  assumes "\<forall>h \<in> set (sg_horizons cfg). 0 < h" and "snapshot_game_time_eligible cfg s = Inr b"
  shows "\<exists>st'. after_build pg cfg st now s = Inr st'"
proof -
  obtain n jdb where j: "schedule pg (sj_jobs st) now (dp_id s) (dp_decision_at s) (sg_horizons cfg) = Inr (n, jdb)"
    using schedule_from_total [OF assms(1)] unfolding schedule_def by blast
  obtain r edb where "record_event pg (sj_events st) now (ai_request_event now s) [''domain''] = Inr (r, edb)"
    by (cases "find_row (same_event (event_type_value (ev_type (ai_request_event now s))) (ev_dedupe_key (ai_request_event now s)))
          (events (sj_events st))")
      (simp_all add: record_event_def insert_event_def Let_def)
  then show ?thesis using j assms(2) by (cases b) (simp_all add: after_build_def)
qed

text \<open>C19. A snapshot job may be retried: when it has committed and its lease is lost, the next attempt finds
  the same snapshot and adds no estimate, no snapshot, no capture job and no second request for AI decisions;
  only the health registry notes the attempt.  This holds after any number of later builds by other workers,
  of any map, at any instant and on any state of the tables, and on tables that have grown meanwhile:
  packets, odds, drafts and results that became known after the decision instant may be any, as long as the
  rows known by it stand and the payload still names the same map, series and teams.  The payload
  has to carry its decision instant; without one each attempt decides at its own time, and a retry
  decides anew.\<close>

theorem retried_builds_change_nothing:
  assumes "build_snapshot_job pg cfg st payload now = Inr (Some s, st1)" and "store_ok (sg_env cfg) (sj_store st)"
    and "payload_instant (sg_from_iso cfg) payload ''decision_at'' = Some d"
    and "same_evidence d payload (sj_tables st) tables"
  shows "let st2 = (later_builds pg cfg others st1)\<lparr>sj_tables := tables\<rparr>
    in \<exists>h. build_snapshot_job pg cfg st2 payload again = Inr (Some s, st2\<lparr>sj_health := h\<rparr>)"
proof -
  let ?st2 = "(later_builds pg cfg others st1)\<lparr>sj_tables := tables\<rparr>"
  have "store_ok (sg_env cfg) (sj_store st1)" using job_grows [OF assms(1,2)] by blast
  then have "grown st1 ?st2" using later_builds_grow [of cfg st1 pg others] by (simp add: grown_def)
  from job_again [OF assms(1-3) this] assms(4) show ?thesis by (simp add: Let_def)
qed

subsection \<open>A sample job\<close>

definition sample_settings :: job_settings where
  "sample_settings =
     \<lparr>sg_env = sample_build_env, sg_calibration = demo_params, sg_move = 1, sg_nw_threshold = 1, sg_horizons = [60, 180],
      sg_min_game_time = 600, sg_from_iso = (\<lambda>s. Some (Naive (if s = ''now'' then 4000000 else 5000000)))\<rparr>"

definition sample_lab :: snapshot_lab where
  "sample_lab =
     \<lparr>sj_tables = sample_db, sj_sync = \<lparr>sy_estimates = [], sy_pairs = []\<rparr>, sj_store = empty_store, sj_jobs = empty_job_db,
      sj_events = \<lparr>events = [], outbox = [], next_event_id = 0\<rparr>, sj_health = \<lparr>hr_workers = [], hr_dependencies = []\<rparr>\<rparr>"

definition sample_payload :: "string \<Rightarrow> (string \<times> json) list" where
  "sample_payload word = [(''canonical_map_id'', JStr (str_uuid 5)), (''decision_at'', JStr word)]"

text \<open>Without packets of the live feed nothing can be paired.\<close>

definition sample_estimate :: sync_estimate where
  "sample_estimate =
     \<lparr>se_map = 5, se_lag = None, se_p50 = None, se_p90 = None, se_jitter = None, se_sample_size = 0, se_accepted_ratio = 0,
      se_ambiguous_ratio = 0, se_outlier_ratio = 0, se_confidence = LOW, se_status = UNKNOWN, se_calculated_at = 4000000\<rparr>"

lemma sample_calibrated: "calibrate 5 [] [] 4000000 demo_params = (sample_estimate, [])"
  by (simp add: calibrate_def indexed_def accepted_lags_def ratio_of_def sync_verdict_def sample_estimate_def)

lemma sample_aligned:
  "aligner_calculate demo_params 1 1 (Some \<lparr>mf_series_id = Some 3, mf_map_number = Some 1, mf_best_of = Some 3\<rparr>) sample_rows []
     \<lparr>sy_estimates = [], sy_pairs = []\<rparr> 5 4000000 = Inr (sample_estimate, \<lparr>sy_estimates = [sample_estimate], sy_pairs = []\<rparr>)"
proof -
  let ?facts = "Some \<lparr>mf_series_id = Some 3, mf_map_number = Some 1, mf_best_of = Some 3\<rparr> :: map_facts option"
  have "raybet_signals 1 [] (newest_rows or_received_at 500 (filter (\<lambda>r. sync_market ?facts 5 r \<and> or_received_at r \<le> 4000000) sample_rows)) = Inr []"
    by code_simp
  moreover have "newest_rows lo_received_at 500 ([] :: observation list) = []" by code_simp
  ultimately show ?thesis by (simp add: aligner_calculate_def sample_calibrated)
qed

lemma sample_regathered:
  "\<exists>k. gather sample_build_env (sample_db\<lparr>nb_estimates := [sample_estimate]\<rparr>) (Some 5) (Some 3) 4000000 = Inr k \<and>
     gr_eligible (evaluate_gate (gate_context_of sample_build_env sample_identity 4000000 k))"
proof -
  have "(case gather sample_build_env (sample_db\<lparr>nb_estimates := [sample_estimate]\<rparr>) (Some 5) (Some 3) 4000000 of
      Inl e \<Rightarrow> False
    | Inr k \<Rightarrow> gr_eligible (evaluate_gate (gate_context_of sample_build_env sample_identity 4000000 k)))"
    by code_simp
  then show ?thesis by (auto split: sum.splits)
qed

lemma sample_job:
  "\<exists>s st1. build_snapshot_job False sample_settings sample_lab (sample_payload ''now'') 4500000 = Inr (Some s, st1) \<and>
     sj_tables st1 = sample_db"
proof -
  let ?m = "\<lparr>mr_id = 5, mr_series = Some 3, mr_number = Some 1, mr_valve_match = Some 70\<rparr>"
  let ?s = "\<lparr>ser_id = 3, ser_event = None, ser_team_a = 10, ser_team_b = 11, ser_best_of = Some 3, ser_stage_key = [], ser_scheduled_at = None\<rparr>"
  let ?now = "4500000 :: time" and ?sync = "\<lparr>sy_estimates = [sample_estimate], sy_pairs = []\<rparr>"
  have i: "identity_from_payload sample_identity (sample_payload ''now'') = Some (Some ?m, ?s)"
    by (simp add: identity_from_payload_def payload_subject_def payload_uuid_def sample_payload_def sample_identity_def json_get_def)
  have at: "decision_instant sample_settings (sample_payload ''now'') ?now = 4000000"
    by (simp add: decision_instant_def payload_instant_def sample_payload_def sample_settings_def json_get_def)
  obtain h where e: "estimate_sync sample_settings sample_lab ?m ?s 4000000 ?now = Inr (sample_lab\<lparr>sj_sync := ?sync, sj_health := h\<rparr>)"
    by (simp add: estimate_sync_def facts_of_map_def sample_settings_def sample_lab_def sample_db_def sample_aligned)
  obtain k where k: "gather sample_build_env (sample_db\<lparr>nb_estimates := [sample_estimate]\<rparr>) (Some 5) (Some 3) 4000000 = Inr k"
      "gr_eligible (evaluate_gate (gate_context_of sample_build_env sample_identity 4000000 k))"
    using sample_regathered by blast
  let ?gate = "evaluate_gate (gate_context_of sample_build_env sample_identity 4000000 k)"
  obtain anchors where anchors: "anchors_of (sample_db\<lparr>nb_estimates := [sample_estimate]\<rparr>) 4000000 k = Inr anchors"
    using sample_anchors [of "sample_db\<lparr>nb_estimates := [sample_estimate]\<rparr>"] by auto
  let ?payload = "snapshot_payload sample_build_env (sample_db\<lparr>nb_estimates := [sample_estimate]\<rparr>) (Some 5) 4000000 k ?gate anchors"
  obtain s store where p: "persist sample_build_env empty_store (Some 5) 4000000 (mode_value (gr_mode ?gate)) ?payload = (s, store)"
      "dp_payload s = ?payload"
    by (simp add: persist_def empty_store_def Let_def)
  have b: "build_snapshot sample_build_env (sample_db\<lparr>nb_estimates := [sample_estimate]\<rparr>) empty_store (Some 5) (Some 3) 4000000 =
      Inr (?gate, Some s, store)"
    using k p(1) anchors by (simp add: build_snapshot_def sample_db_def)
  have positive: "\<forall>h \<in> set (sg_horizons sample_settings). 0 < h" by (simp add: sample_settings_def)
  obtain flag where "snapshot_game_time_eligible sample_settings s = Inr flag" using built_eligibility [OF p(2) anchors] by blast
  then obtain st1 where "after_build False sample_settings (sample_lab\<lparr>sj_sync := ?sync, sj_health := h, sj_store := store\<rparr>) ?now s = Inr st1"
    using after_build_total [OF positive] by blast
  then have j: "build_snapshot_job False sample_settings sample_lab (sample_payload ''now'') ?now = Inr (Some s, st1)"
    using i e b at
    by (simp add: build_snapshot_job_def build_for_def read_tables_def Let_def sample_lab_def sample_db_def sample_settings_def)
  have "store_ok (sg_env sample_settings) (sj_store sample_lab)" by (simp add: sample_lab_def empty_store_ok)
  then show ?thesis using j job_grows [OF j] by (auto simp: sample_lab_def)
qed

text \<open>Other workers decide the same map at the same and at a later instant, on tables that have grown.\<close>

lemma grown_sample_evidence: "same_evidence 4000000 (sample_payload ''now'') sample_db grown_sample"
proof -
  have "subject_of sample_identity (Some 5) (Some 3) = subject_of sample_identity (Some 5) None" by code_simp
  moreover have "subject_of (nb_identity grown_sample) (Some 5) (Some 3) = subject_of (nb_identity grown_sample) (Some 5) None"
    by code_simp
  ultimately have "same_subject 4000000 (Some 5) (Some 3) sample_db grown_sample"
    using grown_sample_same(2) by (simp add: same_subject_def sample_db_def)
  then show ?thesis using grown_sample_same(1)
    by (simp add: same_evidence_def identity_from_payload_def payload_subject_def payload_uuid_def sample_payload_def json_get_def
        grown_sample_def sample_db_def sample_identity_def)
qed

theorem retried_builds_change_nothing_witness:
  "\<exists>s st1 h. build_snapshot_job False sample_settings sample_lab (sample_payload ''now'') 4500000 = Inr (Some s, st1) \<and>
     (let st2 = (later_builds False sample_settings
                   [(grown_sample, sample_payload ''now'', 5000000), (grown_sample, sample_payload ''later'', 5000000)] st1)
                \<lparr>sj_tables := grown_sample\<rparr>
      in build_snapshot_job False sample_settings st2 (sample_payload ''now'') 6000000 = Inr (Some s, st2\<lparr>sj_health := h\<rparr>))"
proof -
  obtain s st1 where j: "build_snapshot_job False sample_settings sample_lab (sample_payload ''now'') 4500000 = Inr (Some s, st1)"
    using sample_job by blast
  have ok: "store_ok (sg_env sample_settings) (sj_store sample_lab)" by (simp add: sample_lab_def empty_store_ok)
  have due: "payload_instant (sg_from_iso sample_settings) (sample_payload ''now'') ''decision_at'' = Some 4000000"
    by (simp add: payload_instant_def sample_payload_def sample_settings_def json_get_def)
  have evidence: "same_evidence 4000000 (sample_payload ''now'') (sj_tables sample_lab) grown_sample"
    using grown_sample_evidence by (simp add: sample_lab_def)
  from retried_builds_change_nothing [OF j ok due evidence,
      of "[(grown_sample, sample_payload ''now'', 5000000), (grown_sample, sample_payload ''later'', 5000000)]" 6000000]
  show ?thesis using j by (auto simp: Let_def)
qed

end
