(* ===== verification/Spec2Isabelle.thy ===== *)
theory Spec2Isabelle
  imports JobRunner EventProperties BillingProperties ReferralProperties PassProperties SettlementProperties MarketProperties GateProperties
    LiveProperties FreshnessProperties SyncProperties Lanes SessionProperties
    IdentityProperties DraftStoreProperties AiProperties CaptureProperties MetricsProperties RuntimeProperties
    SideProperties SnapshotProperties SnapshotJob
begin

text \<open>
  Verification of the core of the decision lab, a service that watches Dota 2 series, freezes what is
  known at a decision instant, asks several AI models for a bet, books the bets on virtual bankrolls and
  sells access to the results.

  \<^bold>\<open>How the program works, and where it is modelled.\<close>  Providers deliver packets: the DLTV socket the state
  of a running map, RayBet the odds, Liquipedia the schedule.  The services write rows and record domain
  events in the same transaction; a dispatcher turns events into durable jobs; workers claim the jobs.
  Every table is a list of rows in insertion order (\<open>Tables\<close>), every service a function from the tables
  it reads to the tables it writes, every exception a value of an error type.

  \<^item> \<open>Prelude\<close>, \<open>Tables\<close>, \<open>Money\<close>: instants and durations in microseconds, Python strings, JSON documents,
    queries on tables, and amounts rounded half up to cents.
  \<^item> \<open>Jobs\<close>, \<open>JobQueue\<close>, \<open>JobRunner\<close> (\<open>app/jobs/repository.py\<close>, \<open>runner.py\<close>): the queue with its leases
    and the worker loop.  \<open>JobLifecycle\<close> has the invariant of the two tables and the reachable states.
    The locale \<open>job_queue\<close> is the interface the schedulers use; its interpretation \<open>jq\<close> is the queue.
  \<^item> \<open>Events\<close>, \<open>AiJobs\<close> (\<open>app/domain/events.py\<close>, \<open>app/events\<close>, \<open>app/ai/jobs.py\<close>): events, the outbox and
    the dispatcher.
  \<^item> \<open>Entitlements\<close>, \<open>Access\<close> (\<open>app/entitlements\<close>, \<open>app/access_policy.py\<close>): grants with scopes and what a
    user may see of a map.  The locale \<open>grant_writer\<close> states that a writer of grants touches its own keys
    only; billing, passes, referrals and the service itself are its interpretations.
  \<^item> \<open>Billing\<close>, \<open>Pass\<close>, \<open>Referral\<close> (\<open>app/billing/service.py\<close>, \<open>app/promotions\<close>): what webhooks of the payment
    provider do to grants.  The locale \<open>event_log\<close> (\<open>EventLog\<close>) is the contract of an idempotent handler.
  \<^item> \<open>Live\<close>, \<open>Collector\<close> (\<open>app/providers/dltv\<close>, \<open>app/live\<close>): parsing and reduction of live packets, the
    collector that stores observations, and the freshness of each field.  A value its column cannot hold and a
    game start outside the calendar make a packet fail, and its transaction with it.
  \<^item> \<open>Sync\<close> (\<open>app/temporal/aligner.py\<close>): the estimate of the lag between the two providers.
  \<^item> \<open>Market\<close>, \<open>Gates\<close> (\<open>app/market\<close>, \<open>app/snapshots/gates.py\<close>, \<open>triggers.py\<close>): the A/B pair of odds and
    when a decision is due.
  \<^item> \<open>Sides\<close>, \<open>HistoryContext\<close>, \<open>Sections\<close>, \<open>Snapshots\<close> (\<open>app/providers/dltv/side_identity.py\<close>,
    \<open>app/history/service.py\<close>, \<open>app/snapshots/builder.py\<close>, \<open>repository.py\<close>): which team plays Radiant, what the
    form tables say of teams and players, the draft, live, odds and quality sections, and the builder that
    assembles them, passes the gate and stores the snapshot under the digest of its content.
    \<open>SnapshotJob\<close> (\<open>app/jobs/handlers.py\<close>) is the job around it: synchronization first, then the snapshot, the
    captures to schedule and the request for AI decisions.
  \<^item> \<open>Identity\<close>, \<open>IdentityLink\<close> (\<open>app/identity\<close>): canonical teams, series, maps, players and heroes.
  \<^item> \<open>Draft\<close>, \<open>DraftStore\<close> (\<open>app/draft/role_assignment.py\<close>, \<open>coordinator.py\<close>): the positions of the
    players and the append-only draft revisions.
  \<^item> \<open>Decisions\<close>, \<open>Coordinator\<close>, \<open>Lanes\<close> (\<open>app/ai\<close>): preparation of an input, validation and storage of a
    decision, one decision at a time per experiment lane.
  \<^item> \<open>Portfolio\<close> (\<open>app/evaluation/portfolio.py\<close>), \<open>Settlement\<close> (\<open>settlement.py\<close>), \<open>FutureOdds\<close>
    (\<open>future_odds.py\<close>), \<open>Metrics\<close> (\<open>metrics.py\<close>): what becomes of a decision.
  \<^item> \<open>Auth\<close>, \<open>Limiter\<close> (\<open>app/auth\<close>): login codes, sessions and rate limits.
  \<^item> \<open>Runtime\<close> (\<open>app/runtime\<close>): health, periodic workers and their supervision.

  \<^bold>\<open>What is proved.\<close>  The theories named \<open>...Properties\<close> hold the theorems of their component.  Most rest on
  an invariant of the tables and on reachable states (\<open>job_reachable\<close>, \<open>pf_reachable\<close>, \<open>referral_reachable\<close>,
  \<open>lane_reachable\<close>, \<open>odds_steps\<close>, \<open>ai_steps\<close>), by rule induction.  Across components: an event becomes its jobs
  (\<open>EventProperties\<close>) until none is left (\<open>RuntimeProperties\<close>); a purchase opens the scope that the access
  policy grants (\<open>PassProperties\<close>, \<open>BillingProperties\<close>); a stored decision obeys the bankroll it was shown
  (\<open>CoordinatorProperties\<close>); a result closes every open bet once (\<open>SettlementProperties\<close>); captured odds and
  scores are written once (\<open>CaptureProperties\<close>, \<open>MetricsProperties\<close>).  A snapshot depends on nothing that
  became known after its instant, its rosters follow the sides, its mode rests on the evidence it claims, and
  building it again finds it while the rows known at its instant and its map, series and teams stand
  (\<open>SnapshotProperties\<close>); so a job that runs again after its commit writes nothing (\<open>SnapshotJob\<close>).

  \<^bold>\<open>Parameters of the model.\<close>  What is not under \<open>src/app\<close> or is a library is an argument: digests and
  hashes, the ISO parser and the printing of decimals, HTTP answers, the rows that \<open>SKIP LOCKED\<close> passes
  over, the order in which a scheduler runs tasks, clock readings, the answer of an AI vendor.  Random
  identifiers are counters.  Integers and decimals are \<open>int\<close> and \<open>rat\<close>; floating-point arithmetic is read as
  exact arithmetic on rationals, and where a bound is proved about it the theorem says so.  The widths of
  columns are modelled for the live stream, whose values come from outside unchecked; elsewhere every row is
  taken to fit its columns.  No definition
  needs fuel: loops over rows are structural, \<open>perms\<close> has a measure, and a worker that may run for ever is a
  fold over the list of its incarnations or a step relation.

  \<^bold>\<open>Not modelled.\<close>  Routes of the web interface, chat bridges and mail (rendering and calls of modelled
  services or of external ones); HTTP clients and adapters of the providers, AI vendors and payment vendor
  (pure I/O); the draft curve engine and the historical averages (floating point over external data); the
  reports, replays and audits (read-only queries); runtime configuration, reconciliation sweeps, wiring,
  migrations and tools.  Concurrency inside one transaction is left to the database: rows are locked by the
  queries as the code asks for, and two transactions are run one after the other.
\<close>

end
